(* ===== verification/Prelude.thy ===== *)
theory Prelude
  imports Main "HOL-Library.Finite_Map" "HOL-Library.List_Lexorder" "HOL-Library.Product_Lexorder"
begin

text \<open>
  Shared vocabulary of the development: the machine integers the code uses, ordered maps
  and sets, fallible results, and the lemmas about them the component proofs share.

  Conventions.
  \<^item> \<open>u64\<close>, \<open>u8\<close> and \<open>usize\<close> values are \<open>nat\<close>; the code never wraps, it calls
    \<open>checked_add\<close> and \<open>checked_sub\<close>, which are written out below with the 64-bit bound.
  \<^item> A Rust \<open>String\<close> is the list of its Unicode scalar values; \<open>chars().count()\<close> is the
    length of that list, \<open>len()\<close> the number of UTF-8 bytes (\<open>byte_len\<close>).
  \<^item> \<open>BTreeMap\<close> is a finite map (\<open>fmap\<close>), \<open>BTreeSet\<close> a finite set (\<open>fset\<close>); iteration in
    key order is \<open>fm_values\<close>, and counting entries is \<open>fm_len\<close>.
  \<^item> \<open>Result<T, E>\<close> is the sum type \<open>E + T\<close>, \<open>Inl\<close> the error. A method with \<open>&mut self\<close>
    returns the result together with the state it leaves behind, on errors too.
\<close>

section \<open>Collections of facts\<close>

named_theorems guard_defs "pure guards and validators of the model"
named_theorems str_defs "string functions"

section \<open>Machine integers\<close>

type_synonym u64 = nat
type_synonym u8 = nat

definition u64_max :: nat where
  "u64_max = 18446744073709551615"

definition checked_add :: "nat \<Rightarrow> nat \<Rightarrow> nat option" where
  "checked_add a b = (if a + b \<le> u64_max then Some (a + b) else None)"

definition saturating_add :: "nat \<Rightarrow> nat \<Rightarrow> nat" where
  "saturating_add a b = min (a + b) u64_max"

definition saturating_sub :: "nat \<Rightarrow> nat \<Rightarrow> nat" where
  "saturating_sub a b = a - b"

definition saturating_mul :: "nat \<Rightarrow> nat \<Rightarrow> nat" where
  "saturating_mul a b = min (a * b) u64_max"

definition checked_sub :: "nat \<Rightarrow> nat \<Rightarrow> nat option" where
  "checked_sub a b = (if b \<le> a then Some (a - b) else None)"

lemma checked_add_Some [simp]: "checked_add a b = Some c \<longleftrightarrow> c = a + b \<and> a + b \<le> u64_max"
  by (auto simp: checked_add_def)

lemma checked_add_None [simp]: "checked_add a b = None \<longleftrightarrow> u64_max < a + b"
  by (auto simp: checked_add_def)

lemma checked_add_eval [simp]:
  "a + b \<le> u64_max \<Longrightarrow> checked_add a b = Some (a + b)"
  "u64_max < a + b \<Longrightarrow> checked_add a b = None"
  by (simp_all add: checked_add_def)

lemma checked_sub_Some [simp]: "checked_sub a b = Some c \<longleftrightarrow> b \<le> a \<and> c = a - b"
  by (auto simp: checked_sub_def)

lemma checked_sub_None [simp]: "checked_sub a b = None \<longleftrightarrow> a < b"
  by (auto simp: checked_sub_def)

section \<open>Options and results\<close>

fun ok_or :: "'a option \<Rightarrow> 'e \<Rightarrow> 'e + 'a" where
  "ok_or None e = Inl e"
| "ok_or (Some x) e = Inr x"

fun rbind :: "'e + 'a \<Rightarrow> ('a \<Rightarrow> 'e + 'b) \<Rightarrow> 'e + 'b" where
  "rbind (Inl e) f = Inl e"
| "rbind (Inr x) f = f x"

definition is_some_and :: "'a option \<Rightarrow> ('a \<Rightarrow> bool) \<Rightarrow> bool" where
  "is_some_and x P = (case x of None \<Rightarrow> False | Some v \<Rightarrow> P v)"

definition is_none_or :: "'a option \<Rightarrow> ('a \<Rightarrow> bool) \<Rightarrow> bool" where
  "is_none_or x P = (case x of None \<Rightarrow> True | Some v \<Rightarrow> P v)"

definition ensure :: "'e \<Rightarrow> bool \<Rightarrow> 'e + unit" where
  "ensure e ok = (if ok then Inr () else Inl e)"

lemma ok_or_Inr [simp]: "ok_or x e = Inr v \<longleftrightarrow> x = Some v"
  by (cases x) auto

lemma ok_or_Inl [simp]: "ok_or x e = Inl e' \<longleftrightarrow> x = None \<and> e' = e"
  by (cases x) auto

lemma rbind_Inr [simp]: "rbind x f = Inr v \<longleftrightarrow> (\<exists>u. x = Inr u \<and> f u = Inr v)"
  by (cases x) auto

lemma rbind_Inl [simp]: "rbind x f = Inl e \<longleftrightarrow> x = Inl e \<or> (\<exists>u. x = Inr u \<and> f u = Inl e)"
  by (cases x) auto

lemma ensure_simps [simp]:
  "ensure e ok = Inr u \<longleftrightarrow> ok" "ensure e ok = Inl e' \<longleftrightarrow> \<not> ok \<and> e' = e"
  by (auto simp: ensure_def)

lemma is_some_and_simps [simp]:
  "is_some_and None P = False" "is_some_and (Some v) P = P v"
  by (auto simp: is_some_and_def)

lemma is_none_or_simps [simp]:
  "is_none_or None P = True" "is_none_or (Some v) P = P v"
  by (auto simp: is_none_or_def)

lemma is_some_and_iff: "is_some_and x P \<longleftrightarrow> (\<exists>v. x = Some v \<and> P v)"
  by (cases x) auto

lemma is_none_or_iff: "is_none_or x P \<longleftrightarrow> (\<forall>v. x = Some v \<longrightarrow> P v)"
  by (cases x) auto

text \<open>Peeling a chain of early returns: each level of the chain becomes a conjunct.\<close>

lemma case_option_Some:
  "(case x of None \<Rightarrow> None | Some v \<Rightarrow> f v) = Some y \<longleftrightarrow> (\<exists>v. x = Some v \<and> f v = Some y)"
  by (cases x) auto

lemma if_None_Some: "(if b then None else x) = Some y \<longleftrightarrow> \<not> b \<and> x = Some y"
  by auto

lemma if_Inl_Inr:
  "(if b then (Inl e, s) else x) = (Inr v, t) \<longleftrightarrow> \<not> b \<and> x = (Inr v, t)"
  "(if b then x else (Inl e, s)) = (Inr v, t) \<longleftrightarrow> b \<and> x = (Inr v, t)"
  by auto

lemma case_option_Inr:
  "(case x of None \<Rightarrow> (Inl e, s) | Some u \<Rightarrow> f u) = (Inr v, t) \<longleftrightarrow> (\<exists>u. x = Some u \<and> f u = (Inr v, t))"
  by (cases x) auto

lemma case_sum_Inr:
  "(case r of Inl e \<Rightarrow> (Inl e, s) | Inr u \<Rightarrow> f u) = (Inr v, t) \<longleftrightarrow> (\<exists>u. r = Inr u \<and> f u = (Inr v, t))"
  by (cases r) auto

lemmas option_peel = case_option_Some if_None_Some
lemmas op_peel = if_Inl_Inr case_option_Inr case_sum_Inr

text \<open>The \<open>?\<close> operator after a call that takes \<open>&mut self\<close>: an error returns at once
  with the state the call left behind.\<close>

fun op_then :: "('e + 'a) \<times> 's \<Rightarrow> ('a \<Rightarrow> 's \<Rightarrow> ('e + 'b) \<times> 's) \<Rightarrow> ('e + 'b) \<times> 's" where
  "op_then (Inl e, s) f = (Inl e, s)"
| "op_then (Inr x, s) f = f x s"

lemma op_then_Inr:
  "op_then m f = (Inr v, t) \<longleftrightarrow> (\<exists>x s. m = (Inr x, s) \<and> f x s = (Inr v, t))"
  by (cases "(m, f)" rule: op_then.cases) auto

text \<open>The same chains read forwards: an early return, or the rest of the body.\<close>

lemma guardE:
  assumes "(if b then (Inl e, s) else x) = (r, t)"
  obtains "b" "r = Inl e" "t = s" | "\<not> b" "x = (r, t)"
  using assms by (cases b) auto

lemma guard_optionE:
  assumes "(case v of None \<Rightarrow> (Inl e, s) | Some u \<Rightarrow> f u) = (r, t)"
  obtains "v = None" "r = Inl e" "t = s" | u where "v = Some u" "f u = (r, t)"
  using assms by (cases v) auto

lemma guard_sumE:
  assumes "(case v of Inl e \<Rightarrow> (Inl e, s) | Inr u \<Rightarrow> f u) = (r, t)"
  obtains e where "v = Inl e" "r = Inl e" "t = s" | u where "v = Inr u" "f u = (r, t)"
  using assms by (cases v) auto

text \<open>The \<open>?\<close> operator in a body that only returns: each call succeeded with some value.\<close>

lemma rbind_InrE:
  assumes "rbind x f = Inr v"
  obtains u where "x = Inr u" "f u = Inr v"
  using assms by (cases x) auto

lemma else_InrE:
  assumes "(if b then Inl e else x) = Inr v"
  obtains "\<not> b" "x = Inr v"
  using assms by (cases b) auto

lemma pair_caseE:
  assumes "(case u of (a, b) \<Rightarrow> f a b) = r"
  obtains a b where "u = (a, b)" "f a b = r"
  using assms by (cases u) auto

lemmas chain_elims = rbind_InrE else_InrE pair_caseE

text \<open>A run of checks, each with the error it returns; the first that fails decides.\<close>

fun first_failure :: "('e \<times> bool) list \<Rightarrow> 'e + unit" where
  "first_failure [] = Inr ()"
| "first_failure ((e, ok) # checks) = (if ok then first_failure checks else Inl e)"

lemma first_failure_Inr: "first_failure checks = Inr u \<longleftrightarrow> list_all snd checks"
  by (induction checks) (auto split: if_splits)

lemma first_failure_append:
  "first_failure (xs @ ys) = (case first_failure xs of Inl e \<Rightarrow> Inl e | Inr _ \<Rightarrow> first_failure ys)"
  by (induction xs) auto

lemma not_inl_inr: "(\<forall>e. x \<noteq> Inl e) \<longleftrightarrow> (\<exists>v. x = Inr v)"
  by (cases x) auto

section \<open>Ordered maps and sets\<close>

definition fm_len :: "('k, 'v) fmap \<Rightarrow> nat" where
  "fm_len m = fcard (fmdom m)"

definition fm_any :: "('k \<Rightarrow> 'v \<Rightarrow> bool) \<Rightarrow> ('k, 'v) fmap \<Rightarrow> bool" where
  "fm_any P m = fBex (fmdom m) (\<lambda>k. is_some_and (fmlookup m k) (P k))"

definition fm_all :: "('k \<Rightarrow> 'v \<Rightarrow> bool) \<Rightarrow> ('k, 'v) fmap \<Rightarrow> bool" where
  "fm_all P m = fBall (fmdom m) (\<lambda>k. is_none_or (fmlookup m k) (P k))"

definition fm_retain :: "('k \<Rightarrow> 'v \<Rightarrow> bool) \<Rightarrow> ('k, 'v) fmap \<Rightarrow> ('k, 'v) fmap" where
  "fm_retain P m = fmfilter (\<lambda>k. is_some_and (fmlookup m k) (P k)) m"

definition fm_keys :: "('k::linorder, 'v) fmap \<Rightarrow> 'k list" where
  "fm_keys m = sorted_list_of_fset (fmdom m)"

definition fm_values :: "('k::linorder, 'v) fmap \<Rightarrow> 'v list" where
  "fm_values m = map (\<lambda>k. the (fmlookup m k)) (fm_keys m)"

lemma sorted_list_of_fset_empty [simp]: "sorted_list_of_fset {||} = []"
  by (simp add: sorted_list_of_fset.rep_eq)

lemma sorted_list_of_fset_finsert [simp]:
  "sorted_list_of_fset (finsert x A) = insort x (sorted_list_of_fset (A - {|x|}))"
  by (simp add: sorted_list_of_fset.rep_eq)

lemma fm_any_iff: "fm_any P m \<longleftrightarrow> (\<exists>k v. fmlookup m k = Some v \<and> P k v)"
  by (auto simp: fm_any_def is_some_and_iff fmlookup_dom_iff)

lemma fm_all_iff: "fm_all P m \<longleftrightarrow> (\<forall>k v. fmlookup m k = Some v \<longrightarrow> P k v)"
  by (auto simp: fm_all_def is_none_or_iff fmlookup_dom_iff)

lemma fm_any_empty [simp]: "fm_any P fmempty = False"
  by (simp add: fm_any_iff)

lemma fm_any_upd [simp]: "fm_any P (fmupd k v m) \<longleftrightarrow> P k v \<or> fm_any P (fmdrop k m)"
  by (auto simp: fm_any_iff split: if_splits)

lemma fm_all_empty [simp]: "fm_all P fmempty = True"
  by (simp add: fm_all_iff)

lemma fm_all_upd [simp]: "fm_all P (fmupd k v m) \<longleftrightarrow> P k v \<and> fm_all P (fmdrop k m)"
  by (auto simp: fm_all_iff)

lemma fm_allD: "fm_all P m \<Longrightarrow> fmlookup m k = Some v \<Longrightarrow> P k v"
  by (simp add: fm_all_iff)

lemma fm_allI: "(\<And>k v. fmlookup m k = Some v \<Longrightarrow> P k v) \<Longrightarrow> fm_all P m"
  by (simp add: fm_all_iff)

lemma fm_all_updI: "fm_all P m \<Longrightarrow> P k v \<Longrightarrow> fm_all P (fmupd k v m)"
  by (auto simp: fm_all_iff)

lemma fm_all_mono: "fm_all P m \<Longrightarrow> (\<And>k v. P k v \<Longrightarrow> Q k v) \<Longrightarrow> fm_all Q m"
  by (auto simp: fm_all_iff)

lemma fmlookup_retain [simp]:
  "fmlookup (fm_retain P m) k =
     (case fmlookup m k of None \<Rightarrow> None | Some v \<Rightarrow> if P k v then Some v else None)"
  by (auto simp: fm_retain_def split: option.splits)

lemma fm_retain_empty [simp]: "fm_retain P fmempty = fmempty"
  by (simp add: fm_retain_def)

lemma fm_retain_upd:
  "fm_retain P (fmupd k v m) = (if P k v then fmupd k v (fm_retain P (fmdrop k m)) else fm_retain P (fmdrop k m))"
  by (rule fmap_ext) auto

lemma fm_len_empty [simp]: "fm_len fmempty = 0"
  by (simp add: fm_len_def)

lemma fm_len_upd: "fm_len (fmupd k v m) = (if fmlookup m k = None then Suc (fm_len m) else fm_len m)"
  by (auto simp: fm_len_def fcard_finsert_if fmlookup_dom_iff)

lemma fm_len_upd_le: "fm_len (fmupd k v m) \<le> Suc (fm_len m)"
  by (simp add: fm_len_upd)

lemma fm_len_mono: "fmdom m |\<subseteq>| fmdom n \<Longrightarrow> fm_len m \<le> fm_len n"
  by (simp add: fm_len_def fcard_mono)

lemma fm_len_retain: "fm_len (fm_retain P m) \<le> fm_len m"
  by (rule fm_len_mono) (auto simp: fm_retain_def)

lemma fm_len_drop: "fm_len (fmdrop k m) \<le> fm_len m"
  by (rule fm_len_mono) auto

lemma fm_len_map_keys [simp]: "fm_len (fmmap_keys f m) = fm_len m"
  by (simp add: fm_len_def)

lemma fm_keys_props [simp]:
  "set (fm_keys m) = fmdom' m" "sorted (fm_keys m)" "distinct (fm_keys m)"
  by (simp_all add: fm_keys_def fmdom'_alt_def)
    (simp_all add: sorted_list_of_fset.rep_eq)

lemma set_fm_values [simp]: "set (fm_values m) = fmran' m"
  by (force simp: fm_values_def fmlookup_ran'_iff fmlookup_dom'_iff image_iff)

lemma mem_fm_values: "v \<in> set (fm_values m) \<longleftrightarrow> (\<exists>k. fmlookup m k = Some v)"
  by (simp add: fmlookup_ran'_iff)

lemma length_fm_values [simp]: "length (fm_values m) = fm_len m"
  by (simp add: fm_values_def fm_keys_def fm_len_def)
    (simp add: sorted_list_of_fset.rep_eq fcard.rep_eq)

lemma fm_keys_eval [simp]:
  "fm_keys fmempty = []"
  "fm_keys (fmupd k v m) = insort k (fm_keys (fmdrop k m))"
  by (simp_all add: fm_keys_def)

lemma fm_values_empty [simp]: "fm_values fmempty = []"
  by (simp add: fm_values_def)

lemma fm_values_single [simp]: "fm_values (fmupd k v fmempty) = [v]"
  by (simp add: fm_values_def)

text \<open>
  Rust's \<open>max_by_key\<close> returns the last of several maximal elements, \<open>find\<close> the first
  match, \<open>position\<close> the index of the first match.
\<close>

fun max_by_key :: "('a \<Rightarrow> 'k::linorder) \<Rightarrow> 'a list \<Rightarrow> 'a option" where
  "max_by_key f [] = None"
| "max_by_key f (x # xs) =
     (case max_by_key f xs of None \<Rightarrow> Some x | Some y \<Rightarrow> if f y < f x then Some x else Some y)"

lemma max_by_key_None [simp]: "max_by_key f xs = None \<longleftrightarrow> xs = []"
  by (cases xs) (auto split: option.splits)

lemma max_by_key_Some:
  "max_by_key f xs = Some m \<Longrightarrow> m \<in> set xs \<and> (\<forall>x \<in> set xs. f x \<le> f m)"
proof (induction xs arbitrary: m)
  case Nil
  then show ?case by simp
next
  case (Cons x xs)
  show ?case
  proof (cases "max_by_key f xs")
    case None
    with Cons.prems show ?thesis by simp
  next
    case (Some y)
    with Cons.IH have y: "y \<in> set xs" "\<forall>z \<in> set xs. f z \<le> f y" by auto
    from Some Cons.prems have m: "m = (if f y < f x then x else y)" by (auto split: if_splits)
    show ?thesis
    proof (cases "f y < f x")
      case True
      with m y show ?thesis by (auto intro: order_trans less_imp_le)
    next
      case False
      with m y show ?thesis by (auto simp: not_less)
    qed
  qed
qed

lemma max_by_key_map:
  "(\<And>x. x \<in> set xs \<Longrightarrow> f (h x) = f x) \<Longrightarrow> max_by_key f (map h xs) = map_option h (max_by_key f xs)"
proof (induction xs)
  case Nil
  then show ?case by simp
next
  case (Cons x xs)
  then have IH: "max_by_key f (map h xs) = map_option h (max_by_key f xs)" by simp
  show ?case
  proof (cases "max_by_key f xs")
    case None
    then show ?thesis by simp
  next
    case (Some y)
    then have "y \<in> set xs" by (simp add: max_by_key_Some)
    with Cons.prems have "f (h y) = f y" "f (h x) = f x" by simp_all
    with IH Some show ?thesis by simp
  qed
qed

lemma distinct_set_single: "distinct xs \<Longrightarrow> set xs = {x} \<Longrightarrow> xs = [x]"
  by (cases xs) (auto simp: subset_singleton_iff dest: equalityD1)

lemma fm_keys_map_keys [simp]: "fm_keys (fmmap_keys f m) = fm_keys m"
  by (simp add: fm_keys_def)

lemma filter_keys_cong:
  assumes "\<And>k. P k \<Longrightarrow> fmlookup m k = fmlookup n k"
  shows "filter P (fm_keys m) = filter P (fm_keys n)"
proof (rule sorted_distinct_set_unique)
  show "set (filter P (fm_keys m)) = set (filter P (fm_keys n))"
    using assms by (auto simp: fmlookup_dom'_iff)
qed (simp_all add: sorted_wrt_filter)

lemma fm_values_retain:
  "fm_values (fm_retain (\<lambda>_. P) m) = filter P (fm_values m)"
proof -
  have keys: "fm_keys (fm_retain (\<lambda>_. P) m) = filter (\<lambda>k. P (the (fmlookup m k))) (fm_keys m)"
  proof (rule sorted_distinct_set_unique)
    show "set (fm_keys (fm_retain (\<lambda>_. P) m)) = set (filter (\<lambda>k. P (the (fmlookup m k))) (fm_keys m))"
      by (auto simp: fmlookup_dom'_iff split: option.splits if_splits)
  qed (simp_all add: sorted_wrt_filter)
  show ?thesis
    unfolding fm_values_def keys filter_map
    by (rule map_cong) (auto simp: comp_def fmlookup_dom'_iff)
qed

lemma fm_retain_upd_other:
  "\<not> P k v \<Longrightarrow> (\<forall>u. fmlookup m k = Some u \<longrightarrow> \<not> P k u) \<Longrightarrow> fm_retain P (fmupd k v m) = fm_retain P m"
  by (rule fmap_ext) (auto split: option.splits)

fun position :: "('a \<Rightarrow> bool) \<Rightarrow> 'a list \<Rightarrow> nat option" where
  "position P [] = None"
| "position P (x # xs) = (if P x then Some 0 else map_option Suc (position P xs))"

lemma position_Some: "position P xs = Some i \<Longrightarrow> i < length xs \<and> P (xs ! i)"
  by (induction xs arbitrary: i) (auto split: if_splits)

lemma position_None [simp]: "position P xs = None \<longleftrightarrow> (\<forall>x \<in> set xs. \<not> P x)"
  by (induction xs) auto

fun vec_remove :: "nat \<Rightarrow> 'a list \<Rightarrow> 'a list" where
  "vec_remove index (x # xs) = (case index of 0 \<Rightarrow> xs | Suc rest \<Rightarrow> x # vec_remove rest xs)"
| "vec_remove index [] = []"

lemma vec_remove_members: "set (vec_remove index xs) \<subseteq> set xs"
  by (induction index xs rule: vec_remove.induct) (auto split: nat.splits)

lemma vec_remove_member: "w \<in> set (vec_remove i xs) \<Longrightarrow> w \<in> set xs"
  by (rule subsetD [OF vec_remove_members])

lemma vec_remove_shorter: "length (vec_remove index xs) \<le> length xs"
  by (induction index xs rule: vec_remove.induct) (auto split: nat.splits)

end
