(* ===== verification/Rust_String.thy ===== *)
theory Rust_String
  imports Prelude
begin

text \<open>
  Rust strings as lists of Unicode scalar values: byte length, trimming, the control
  characters, ASCII case, decimal printing and parsing of \<open>u64\<close>, splitting at a
  separator. The section ends with the round-trip interface \<open>codec\<close> and the injectivity
  of keys built from separated decimal fields, which every request key, scope key and
  wire identity of the program uses.
\<close>

type_synonym rstr = "nat list"

definition lit :: "string \<Rightarrow> rstr" where
  "lit s = map of_char s"

lemma lit_Nil [simp]: "lit [] = []"
  by (simp add: lit_def)

lemma lit_Cons [simp]: "lit (c # s) = of_char c # lit s"
  by (simp add: lit_def)

section \<open>Length, whitespace, control characters\<close>

definition utf8_len :: "nat \<Rightarrow> nat" where
  "utf8_len c = (if c < 128 then 1 else if c < 2048 then 2 else if c < 65536 then 3 else 4)"

definition byte_len :: "rstr \<Rightarrow> nat" where
  "byte_len s = sum_list (map utf8_len s)"

lemma byte_len_simps [simp]:
  "byte_len [] = 0" "byte_len (c # s) = utf8_len c + byte_len s"
  "byte_len (s @ t) = byte_len s + byte_len t"
  by (simp_all add: byte_len_def)

lemma length_le_byte_len: "length s \<le> byte_len s"
  by (induction s) (auto simp: utf8_len_def)

text \<open>The Unicode \<open>White_Space\<close> property and the category \<open>Cc\<close>, as \<open>char::is_whitespace\<close>
  and \<open>char::is_control\<close> define them.\<close>

definition is_whitespace :: "nat \<Rightarrow> bool" where
  "is_whitespace c \<longleftrightarrow>
     9 \<le> c \<and> c \<le> 13 \<or> c = 32 \<or> c = 133 \<or> c = 160 \<or> c = 5760
     \<or> 8192 \<le> c \<and> c \<le> 8202 \<or> c = 8232 \<or> c = 8233 \<or> c = 8239 \<or> c = 8287 \<or> c = 12288"

definition is_control :: "nat \<Rightarrow> bool" where
  "is_control c \<longleftrightarrow> c < 32 \<or> 127 \<le> c \<and> c < 160"

definition trim :: "rstr \<Rightarrow> rstr" where
  "trim s = rev (dropWhile is_whitespace (rev (dropWhile is_whitespace s)))"

lemma set_trim: "set (trim s) \<subseteq> set s"
  unfolding trim_def using set_dropWhileD by (fastforce dest: set_dropWhileD)

lemma length_trim: "length (trim s) \<le> length s"
  unfolding trim_def by (simp add: order_trans [OF length_dropWhile_le] length_dropWhile_le)

lemma trim_eq_Nil: "trim s = [] \<longleftrightarrow> (\<forall>c \<in> set s. is_whitespace c)"
  by (auto simp: trim_def dropWhile_eq_Nil_conv dest: set_dropWhileD)
    (metis dropWhile_eq_Nil_conv hd_dropWhile hd_in_set)

section \<open>ASCII classes and case\<close>

definition is_ascii_digit :: "nat \<Rightarrow> bool" where
  "is_ascii_digit c \<longleftrightarrow> 48 \<le> c \<and> c \<le> 57"

definition is_ascii_alphanumeric :: "nat \<Rightarrow> bool" where
  "is_ascii_alphanumeric c \<longleftrightarrow> 48 \<le> c \<and> c \<le> 57 \<or> 65 \<le> c \<and> c \<le> 90 \<or> 97 \<le> c \<and> c \<le> 122"

definition is_lower_hex :: "nat \<Rightarrow> bool" where
  "is_lower_hex c \<longleftrightarrow> 48 \<le> c \<and> c \<le> 57 \<or> 97 \<le> c \<and> c \<le> 102"

definition is_hex :: "nat \<Rightarrow> bool" where
  "is_hex c \<longleftrightarrow> 48 \<le> c \<and> c \<le> 57 \<or> 65 \<le> c \<and> c \<le> 70 \<or> 97 \<le> c \<and> c \<le> 102"

definition ascii_lower :: "nat \<Rightarrow> nat" where
  "ascii_lower c = (if 65 \<le> c \<and> c \<le> 90 then c + 32 else c)"

definition to_ascii_lowercase :: "rstr \<Rightarrow> rstr" where
  "to_ascii_lowercase s = map ascii_lower s"

definition eq_ignore_ascii_case :: "rstr \<Rightarrow> rstr \<Rightarrow> bool" where
  "eq_ignore_ascii_case s t \<longleftrightarrow> to_ascii_lowercase s = to_ascii_lowercase t"

lemma ascii_lower_idem [simp]: "ascii_lower (ascii_lower c) = ascii_lower c"
  by (simp add: ascii_lower_def)

lemma to_ascii_lowercase_idem [simp]:
  "to_ascii_lowercase (to_ascii_lowercase s) = to_ascii_lowercase s"
  by (simp add: to_ascii_lowercase_def comp_def)

lemma to_ascii_lowercase_append [simp]:
  "to_ascii_lowercase [] = []"
  "to_ascii_lowercase (c # s) = ascii_lower c # to_ascii_lowercase s"
  "to_ascii_lowercase (s @ t) = to_ascii_lowercase s @ to_ascii_lowercase t"
  by (simp_all add: to_ascii_lowercase_def)

lemma length_to_ascii_lowercase [simp]: "length (to_ascii_lowercase s) = length s"
  by (simp add: to_ascii_lowercase_def)

lemma to_ascii_lowercase_eq_Nil [simp]: "to_ascii_lowercase s = [] \<longleftrightarrow> s = []"
  by (simp add: to_ascii_lowercase_def)

lemma utf8_len_ascii_lower [simp]: "utf8_len (ascii_lower c) = utf8_len c"
  by (simp add: ascii_lower_def utf8_len_def)

lemma byte_len_to_ascii_lowercase [simp]: "byte_len (to_ascii_lowercase s) = byte_len s"
  by (induction s) auto

lemma ascii_lower_eq_sep [simp]:
  "ascii_lower c = 58 \<longleftrightarrow> c = 58" "ascii_lower c = 47 \<longleftrightarrow> c = 47" "ascii_lower c = 46 \<longleftrightarrow> c = 46"
  by (auto simp: ascii_lower_def)

section \<open>Decimal numbers\<close>

fun decimal :: "nat \<Rightarrow> rstr" where
  "decimal n = (if n < 10 then [48 + n] else decimal (n div 10) @ [48 + n mod 10])"

declare decimal.simps [simp del]

fun digits_value :: "nat \<Rightarrow> rstr \<Rightarrow> nat" where
  "digits_value acc [] = acc"
| "digits_value acc (c # s) = digits_value (acc * 10 + (c - 48)) s"

text \<open>
  \<open>str::parse::<u64>\<close>: an optional leading plus sign, at least one digit, digits only, and
  no overflow of 64 bits.
\<close>

definition parse_u64 :: "rstr \<Rightarrow> u64 option" where
  "parse_u64 s =
     (let d = (case s of [] \<Rightarrow> [] | c # r \<Rightarrow> if c = 43 then r else s)
      in if d = [] \<or> (\<exists>c \<in> set d. \<not> is_ascii_digit c) then None
         else if digits_value 0 d \<le> u64_max then Some (digits_value 0 d) else None)"

lemma digits_value_append: "digits_value acc (s @ t) = digits_value (digits_value acc s) t"
  by (induction s arbitrary: acc) auto

lemma decimal_value [simp]: "digits_value 0 (decimal n) = n"
proof (induction n rule: decimal.induct)
  case (1 n)
  show ?case
    using 1 by (cases "n < 10") (simp_all add: decimal.simps [of n] digits_value_append)
qed

lemma decimal_nonempty [simp]: "decimal n \<noteq> []"
  by (subst decimal.simps) simp

lemma decimal_digits: "c \<in> set (decimal n) \<Longrightarrow> is_ascii_digit c"
proof (induction n rule: decimal.induct)
  case (1 n)
  then show ?case
    by (cases "n < 10") (auto simp: decimal.simps [of n] is_ascii_digit_def)
qed

lemma decimal_not_sep [simp]:
  "c < 48 \<Longrightarrow> c \<notin> set (decimal n)" "57 < c \<Longrightarrow> c \<notin> set (decimal n)"
  by (auto dest: decimal_digits simp: is_ascii_digit_def)

lemma decimal_inj [simp]: "decimal m = decimal n \<longleftrightarrow> m = n"
  by (metis decimal_value)

lemma hd_decimal: "n \<noteq> 0 \<Longrightarrow> hd (decimal n) \<noteq> 48"
proof (induction n rule: decimal.induct)
  case (1 n)
  show ?case
  proof (cases "n < 10")
    case True
    with 1 show ?thesis by (simp add: decimal.simps [of n])
  next
    case False
    then have "hd (decimal (n div 10)) \<noteq> 48" using 1 by (simp add: div_eq_0_iff)
    with False show ?thesis by (subst decimal.simps) (simp add: hd_append)
  qed
qed

lemma decimal_hd_plus: "decimal n = c # r \<Longrightarrow> c \<noteq> 43"
  using decimal_digits [of c n] by (auto simp: is_ascii_digit_def)

lemma parse_u64_decimal [simp]:
  assumes "n \<le> u64_max"
  shows "parse_u64 (decimal n) = Some n"
proof -
  obtain a r where ar: "decimal n = a # r"
    by (cases "decimal n") auto
  then have "a \<noteq> 43" by (rule decimal_hd_plus)
  then have d: "(case decimal n of [] \<Rightarrow> [] | c # t \<Rightarrow> if c = 43 then t else decimal n) = decimal n"
    by (simp add: ar)
  have "\<not> (\<exists>c \<in> set (decimal n). \<not> is_ascii_digit c)"
    by (auto dest: decimal_digits)
  with d assms show ?thesis by (simp add: parse_u64_def Let_def)
qed

lemma parse_u64_bound: "parse_u64 s = Some n \<Longrightarrow> n \<le> u64_max"
  by (auto simp: parse_u64_def Let_def split: if_splits)

section \<open>Splitting at a separator\<close>

text \<open>\<open>str::split\<close> with a character pattern always yields at least one part;
  \<open>split_once\<close> splits at the first occurrence.\<close>

fun split_on :: "nat \<Rightarrow> rstr \<Rightarrow> rstr list" where
  "split_on sep [] = [[]]"
| "split_on sep (c # s) =
     (if c = sep then [] # split_on sep s
      else (case split_on sep s of [] \<Rightarrow> [[c]] | p # ps \<Rightarrow> (c # p) # ps))"

fun split_once :: "nat \<Rightarrow> rstr \<Rightarrow> (rstr \<times> rstr) option" where
  "split_once sep [] = None"
| "split_once sep (c # s) =
     (if c = sep then Some ([], s) else map_option (map_prod (Cons c) id) (split_once sep s))"

fun strip_prefix :: "rstr \<Rightarrow> rstr \<Rightarrow> rstr option" where
  "strip_prefix [] s = Some s"
| "strip_prefix (p # ps) [] = None"
| "strip_prefix (p # ps) (c # s) = (if p = c then strip_prefix ps s else None)"

lemma split_on_nonempty [simp]: "split_on sep s \<noteq> []"
  by (induction s) (auto split: list.splits)

lemma split_on_plain [simp]: "sep \<notin> set s \<Longrightarrow> split_on sep s = [s]"
  by (induction s) auto

lemma split_on_field [simp]:
  "sep \<notin> set p \<Longrightarrow> split_on sep (p @ sep # s) = p # split_on sep s"
  by (induction p) auto

lemma split_once_Some: "split_once sep s = Some (p, q) \<longleftrightarrow> s = p @ sep # q \<and> sep \<notin> set p"
proof (induction s arbitrary: p)
  case Nil
  then show ?case by simp
next
  case (Cons c s)
  show ?case
  proof (cases "c = sep")
    case True
    then show ?thesis by (cases p) auto
  next
    case False
    then show ?thesis by (cases p) (auto simp: Cons.IH map_prod_def)
  qed
qed

lemma strip_prefix_Some: "strip_prefix p s = Some r \<longleftrightarrow> s = p @ r"
  by (induction p s rule: strip_prefix.induct) auto

lemma field_inj:
  "sep \<notin> set p \<Longrightarrow> sep \<notin> set q \<Longrightarrow> p @ sep # r = q @ sep # t \<longleftrightarrow> p = q \<and> r = t"
proof (induction p arbitrary: q)
  case Nil
  then show ?case by (cases q) auto
next
  case (Cons a p)
  then show ?case by (cases q) auto
qed

text \<open>A key \<open>{n}:...\<close> that starts with a decimal field determines the field and the rest.\<close>

lemma decimal_field_inj [simp]:
  "sep < 48 \<or> 57 < sep \<Longrightarrow>
     decimal m @ sep # r = decimal n @ sep # t \<longleftrightarrow> m = n \<and> r = t"
  by (subst field_inj) auto

lemma decimal_append_Cons: "decimal m @ r = c # s \<Longrightarrow> is_ascii_digit c"
proof -
  assume eq: "decimal m @ r = c # s"
  obtain a t where at: "decimal m = a # t" by (cases "decimal m") auto
  then have "is_ascii_digit a" by (metis decimal_digits list.set_intros(1))
  with eq at show ?thesis by simp
qed

lemma decimal_append_lit [simp]:
  "c < 48 \<Longrightarrow> decimal m @ r \<noteq> c # s" "57 < c \<Longrightarrow> decimal m @ r \<noteq> c # s"
  by (auto dest!: decimal_append_Cons simp: is_ascii_digit_def)

lemma split_on_joined: "split_on sep s = p # q # ps \<Longrightarrow> \<exists>t. s = p @ sep # t \<and> split_on sep t = q # ps"
proof (induction s arbitrary: p)
  case Nil
  then show ?case by simp
next
  case (Cons c s)
  show ?case
  proof (cases "c = sep")
    case True
    with Cons.prems show ?thesis by auto
  next
    case False
    with Cons.prems obtain p' where p': "p = c # p'" "split_on sep s = p' # q # ps"
      by (auto split: list.splits)
    from Cons.IH [OF p'(2)] p'(1) show ?thesis by auto
  qed
qed

lemma split_on_single: "split_on sep s = [p] \<Longrightarrow> s = p"
  by (induction s arbitrary: p) (auto split: if_splits list.splits)

lemma split_on_four:
  "split_on sep s = [a, b, c, d] \<Longrightarrow> s = a @ sep # b @ sep # c @ sep # d"
  by (auto dest!: split_on_joined split_on_single)

lemma list4_case_Some:
  "(case xs of [a, b, c, d] \<Rightarrow> f a b c d | _ \<Rightarrow> None) = Some y \<longleftrightarrow>
     (\<exists>a b c d. xs = [a, b, c, d] \<and> f a b c d = Some y)"
  by (auto split: list.splits)

text \<open>A digit string without leading zeros is the decimal text of its value.\<close>

lemma digits_value_pos: "0 < acc \<Longrightarrow> 0 < digits_value acc s"
  by (induction s arbitrary: acc) auto

lemma decimal_snoc:
  "0 < n \<Longrightarrow> is_ascii_digit c \<Longrightarrow> decimal (n * 10 + (c - 48)) = decimal n @ [c]"
proof -
  assume n: "0 < n" and "is_ascii_digit c"
  then obtain d where d: "c = 48 + d" "d < 10"
    by (auto simp: is_ascii_digit_def le_iff_add)
  with n show ?thesis by (subst decimal.simps) simp
qed

lemma decimal_digits_value:
  "s \<noteq> [] \<Longrightarrow> list_all is_ascii_digit s \<Longrightarrow> hd s \<noteq> 48 \<Longrightarrow> decimal (digits_value 0 s) = s"
proof (induction s rule: rev_induct)
  case Nil
  then show ?case by simp
next
  case (snoc c s)
  show ?case
  proof (cases "s = []")
    case True
    with snoc.prems show ?thesis by (subst decimal.simps) (auto simp: is_ascii_digit_def)
  next
    case False
    with snoc have IH: "decimal (digits_value 0 s) = s" by simp
    obtain d t where "s = d # t" using False by (cases s) auto
    with snoc.prems have "0 < digits_value 0 s"
      by (auto simp: is_ascii_digit_def intro!: digits_value_pos)
    with snoc.prems IH show ?thesis by (simp add: digits_value_append decimal_snoc)
  qed
qed

lemma decimal_of_parse:
  assumes "parse_u64 s = Some n" and "list_all is_ascii_digit s" and "\<not> (s \<noteq> [] \<and> hd s = 48)"
  shows "decimal n = s"
proof -
  have "s \<noteq> []" using assms(1) by (auto simp: parse_u64_def)
  moreover from this have "hd s \<noteq> 43" using assms(2) by (cases s) (auto simp: is_ascii_digit_def)
  ultimately have "n = digits_value 0 s"
    using assms(1) by (cases s) (auto simp: parse_u64_def Let_def split: if_splits)
  then show ?thesis using assms \<open>s \<noteq> []\<close> by (simp add: decimal_digits_value)
qed

section \<open>Round trips\<close>

text \<open>
  A \<open>codec\<close> is an encoder with a partial decoder. \<open>strict_codec\<close> adds that the decoder
  accepts the canonical text only, which the program enforces by re-encoding what it
  parsed and comparing.
\<close>

locale codec =
  fixes enc :: "'a \<Rightarrow> 'b" and decode :: "'b \<Rightarrow> 'a option" and valid :: "'a \<Rightarrow> bool"
  assumes decode_enc: "valid x \<Longrightarrow> decode (enc x) = Some x"
    and decode_valid: "decode s = Some x \<Longrightarrow> valid x"
begin

lemma enc_inj: "valid x \<Longrightarrow> valid y \<Longrightarrow> enc x = enc y \<Longrightarrow> x = y"
  by (metis decode_enc option.inject)

end

locale strict_codec = codec +
  assumes enc_decode: "decode s = Some x \<Longrightarrow> enc x = s"
begin

lemma decode_iff: "decode s = Some x \<longleftrightarrow> valid x \<and> enc x = s"
  using decode_enc decode_valid enc_decode by blast

lemma decode_inj: "decode s = Some x \<Longrightarrow> decode t = Some x \<Longrightarrow> s = t"
  by (auto dest: enc_decode)

end

interpretation u64_text: codec decimal parse_u64 "\<lambda>n. n \<le> u64_max"
  by unfold_locales (auto dest: parse_u64_bound)

end
