(* ===== verification/Machine.thy ===== *)
theory Machine
  imports Main
begin

text \<open>
  Components as machines: a step function from a call and a state to a return value and
  the next state, the traces (call/return histories, latest call first) it can produce
  from an initial state, and two interfaces. A \<open>machine\<close> keeps an invariant; a
  \<open>once_machine\<close> additionally has an effect that can fire at most once per identity,
  because firing spends the identity and nothing ever restores it.
\<close>

inductive trace ::
  "('c \<Rightarrow> 's \<Rightarrow> 'r \<times> 's) \<Rightarrow> 's \<Rightarrow> ('c \<times> 'r) list \<Rightarrow> 's \<Rightarrow> bool"
  for step :: "'c \<Rightarrow> 's \<Rightarrow> 'r \<times> 's" and init :: 's where
  trace_start: "trace step init [] init"
| trace_call: "trace step init h s \<Longrightarrow> step c s = (r, s') \<Longrightarrow> trace step init ((c, r) # h) s'"

inductive_cases trace_NilE: "trace step init [] s"
inductive_cases trace_ConsE: "trace step init (x # h) s"

fun run :: "('c \<Rightarrow> 's \<Rightarrow> 'r \<times> 's) \<Rightarrow> 'c list \<Rightarrow> ('c \<times> 'r) list \<times> 's \<Rightarrow> ('c \<times> 'r) list \<times> 's" where
  "run step [] (h, s) = (h, s)"
| "run step (c # cs) (h, s) = (case step c s of (r, s') \<Rightarrow> run step cs ((c, r) # h, s'))"

lemma trace_run:
  "trace step init h s \<Longrightarrow> run step cs (h, s) = (h', s') \<Longrightarrow> trace step init h' s'"
proof (induction cs arbitrary: h s)
  case Nil
  then show ?case by simp
next
  case (Cons c cs)
  obtain r t where t: "step c s = (r, t)" by (cases "step c s")
  with Cons.prems(1) have "trace step init ((c, r) # h) t" by (rule trace_call)
  with Cons.prems(2) t show ?case by (auto intro: Cons.IH)
qed

lemma trace_from_run: "run step cs ([], init) = (h, s) \<Longrightarrow> trace step init h s"
  by (rule trace_run [OF trace_start])

lemma trace_keeps_if:
  assumes "trace step s h t" and "Q s" and "\<And>c r. (c, r) \<in> set h \<Longrightarrow> P c"
    and "\<And>c s r t. Q s \<Longrightarrow> P c \<Longrightarrow> step c s = (r, t) \<Longrightarrow> Q t"
  shows "Q t"
  using assms(1-3)
proof (induction rule: trace.induct)
  case trace_start
  then show ?case by simp
next
  case (trace_call h t c r u)
  from trace_call.prems(2) have "P c" and "\<And>c r. (c, r) \<in> set h \<Longrightarrow> P c" by auto
  with trace_call.IH trace_call.prems(1) trace_call.hyps(2) show ?case by (blast intro: assms(4))
qed

text \<open>What happened, in order; latest first, like the history: each predicate holds of an event
  before the previous one.\<close>

fun happened :: "('e \<Rightarrow> bool) list \<Rightarrow> 'e list \<Rightarrow> bool" where
  "happened [] h = True"
| "happened (P # Ps) [] = False"
| "happened (P # Ps) (e # h) = (P e \<and> happened Ps h \<or> happened (P # Ps) h)"

lemma happened_later: "happened Ps h \<Longrightarrow> happened Ps (e # h)"
  by (cases Ps) auto

locale stepper =
  fixes step :: "'c \<Rightarrow> 's \<Rightarrow> 'r \<times> 's" and inv :: "'s \<Rightarrow> bool"
  assumes inv_step: "inv s \<Longrightarrow> step c s = (r, s') \<Longrightarrow> inv s'"
begin

lemma trace_keeps: "trace step s h t \<Longrightarrow> inv s \<Longrightarrow> inv t"
  by (induction rule: trace.induct) (auto intro: inv_step)

lemma trace_relates:
  assumes "trace step s h t" and "inv s"
    and "\<And>c s r t. inv s \<Longrightarrow> step c s = (r, t) \<Longrightarrow> R s t"
    and "\<And>s. R s s" and "\<And>s t u. R s t \<Longrightarrow> R t u \<Longrightarrow> R s u"
  shows "R s t"
  using assms(1,2)
proof (induction rule: trace.induct)
  case trace_start
  show ?case by (rule assms(4))
next
  case (trace_call h t c r u)
  from trace_call.hyps(1) trace_call.prems have "inv t" by (rule trace_keeps)
  then have "R t u" using trace_call.hyps(2) by (rule assms(3))
  with trace_call.IH trace_call.prems show ?case by (blast intro: assms(5))
qed

end

locale machine = stepper step inv
  for step :: "'c \<Rightarrow> 's \<Rightarrow> 'r \<times> 's" and init :: 's and inv :: "'s \<Rightarrow> bool" +
  assumes inv_init: "inv init"
begin

lemma trace_inv: "trace step init h s \<Longrightarrow> inv s"
  by (induction rule: trace.induct) (auto intro: inv_init inv_step)

end

text \<open>
  Requests with an identity that is stored with the value they were answered with: the
  stored value is kept, and different identities have different values.
\<close>

locale keyed_machine = machine +
  fixes ident :: "'a \<Rightarrow> 'k option" and table :: "'b \<Rightarrow> 'k \<Rightarrow> 'v option" and answer :: "'c \<Rightarrow> 'v option"
  assumes table_keep: "inv s \<Longrightarrow> step c s = (r, s') \<Longrightarrow> table s k = Some v \<Longrightarrow> table s' k = Some v"
    and table_answer: "inv s \<Longrightarrow> step c s = (r, s') \<Longrightarrow> ident c = Some k \<Longrightarrow> answer r = Some v
      \<Longrightarrow> table s' k = Some v"
    and table_inj: "inv s \<Longrightarrow> table s k = Some v \<Longrightarrow> table s l = Some v \<Longrightarrow> k = l"
begin

lemma answered:
  "trace step init h s \<Longrightarrow> (c, r) \<in> set h \<Longrightarrow> ident c = Some k \<Longrightarrow> answer r = Some v \<Longrightarrow> table s k = Some v"
proof (induction rule: trace.induct)
  case trace_start
  then show ?case by simp
next
  case (trace_call h s c' r' s')
  from trace_call.hyps(1) have "inv s" by (rule trace_inv)
  with trace_call show ?case by (auto intro: table_keep table_answer)
qed

lemma same_answer_iff:
  assumes "trace step init h s" and "(c, r) \<in> set h" and "(d, q) \<in> set h"
    and "ident c = Some k" and "ident d = Some l" and "answer r = Some v" and "answer q = Some w"
  shows "v = w \<longleftrightarrow> k = l"
  using answered [OF assms(1,2,4,6)] answered [OF assms(1,3,5,7)] table_inj [OF trace_inv [OF assms(1)]]
  by auto

end

locale once_machine = machine +
  fixes spent :: "'b \<Rightarrow> 'i \<Rightarrow> bool" and fires :: "'a \<Rightarrow> 'c \<Rightarrow> 'i \<Rightarrow> bool"
  assumes spent_step: "inv s \<Longrightarrow> step c s = (r, s') \<Longrightarrow> spent s i \<Longrightarrow> spent s' i"
    and fires_fresh: "inv s \<Longrightarrow> step c s = (r, s') \<Longrightarrow> fires c r i \<Longrightarrow> \<not> spent s i"
    and fires_spends: "inv s \<Longrightarrow> step c s = (r, s') \<Longrightarrow> fires c r i \<Longrightarrow> spent s' i"
begin

lemma fired_spent:
  "trace step init h s \<Longrightarrow> (c, r) \<in> set h \<Longrightarrow> fires c r i \<Longrightarrow> spent s i"
proof (induction rule: trace.induct)
  case trace_start
  then show ?case by simp
next
  case (trace_call h s c' r' s')
  from trace_call.hyps(1) have "inv s" by (rule trace_inv)
  with trace_call show ?case by (auto intro: spent_step fires_spends)
qed

lemma fires_at_most_once:
  "trace step init h s \<Longrightarrow> length (filter (\<lambda>(c, r). fires c r i) h) \<le> 1"
proof (induction rule: trace.induct)
  case trace_start
  then show ?case by simp
next
  case (trace_call h s c r s')
  show ?case
  proof (cases "fires c r i")
    case True
    from trace_call.hyps(1) have "inv s" by (rule trace_inv)
    then have "\<not> spent s i" using trace_call.hyps(2) True by (rule fires_fresh)
    then have "filter (\<lambda>(c, r). fires c r i) h = []"
      using fired_spent [OF trace_call.hyps(1)] by (fastforce simp: filter_empty_conv)
    then show ?thesis using True by simp
  next
    case False
    with trace_call.IH show ?thesis by simp
  qed
qed

end

end
