(* ===== verification/Action_Approval.thy ===== *)
theory Action_Approval
  imports Rust_String Machine
begin

text \<open>
  The durable approval state for external writes (\<open>src/action_approval.rs\<close>): what a
  proposal is, when its specification is well formed, and the six transitions of the
  store. The SHA-256 digest over the JSON encoding of a proposal is third-party code; it
  is the parameter \<open>digest\<close> of the operations that compute it.
\<close>

section \<open>Data\<close>

datatype action_target =
    DiscordChannel u64 u64
  | DiscordMessage u64 u64 u64
  | GitHubRepository u64 rstr rstr
  | GitHubIssue u64 rstr rstr u64

datatype action_operation =
    DiscordSendMessage rstr
  | DiscordEditOwnMessage rstr
  | DiscordCreateThread rstr rstr
  | DiscordCreateForumPost rstr rstr
  | DiscordCreateEvent rstr u64 u64
  | DiscordAddChannel rstr "u64 option"
  | GitHubCreateIssue rstr rstr
  | GitHubUpdateIssue "rstr option" "rstr option"
  | GitHubComment rstr

datatype action_permission =
    DiscordSendMessages | DiscordManageMessages | DiscordManageThreads
  | DiscordManageChannels | DiscordManageEvents | GitHubIssuesWrite

record action_spec =
  spec_target :: action_target
  spec_operation :: action_operation
  spec_required :: "action_permission fset"

datatype action_state =
  Proposed | Approved | Executing | Verified | ReviewRequired | Failed | Invalidated

record action_proposal =
  prop_id :: u64
  prop_spec :: action_spec
  prop_requester :: u64
  prop_expires_at :: u64
  prop_target_fingerprint :: rstr
  prop_content_digest :: rstr
  prop_state :: action_state
  prop_approver :: "u64 option"
  prop_result_reference :: "rstr option"

datatype action_error =
  ActInvalid | ActDenied | ActExpired | ActStale | ActAlreadyHandled | ActMissing | ActFull

record action_facts =
  facts_human_principal :: "u64 option"
  facts_current_permissions :: "action_permission fset"
  facts_target_fingerprint :: rstr
  facts_now :: u64

record action_store =
  act_sequence :: u64
  act_proposals :: "(u64, action_proposal) fmap"

datatype begin_outcome = Ready action_spec | BeginInvalidated action_error

type_synonym action_digest = "action_spec \<Rightarrow> u64 \<Rightarrow> u64 \<Rightarrow> rstr \<Rightarrow> rstr"

definition empty_actions :: action_store where
  "empty_actions = \<lparr>act_sequence = 0, act_proposals = fmempty\<rparr>"

section \<open>Well-formed specifications\<close>

definition nonblank :: "rstr \<Rightarrow> bool" where
  "nonblank s \<longleftrightarrow> trim s \<noteq> []"

definition repo_byte :: "nat \<Rightarrow> bool" where
  "repo_byte c \<longleftrightarrow> is_ascii_alphanumeric c \<or> c = 45 \<or> c = 95 \<or> c = 46"

definition valid_repo :: "rstr \<Rightarrow> rstr \<Rightarrow> bool" where
  "valid_repo owner repo \<longleftrightarrow>
     list_all (\<lambda>part. part \<noteq> [] \<and> byte_len part \<le> 100 \<and> list_all repo_byte part) [owner, repo]"

fun spec_shape :: "action_operation \<Rightarrow> action_target \<Rightarrow> (bool \<times> action_permission) option" where
  "spec_shape (DiscordSendMessage content) (DiscordChannel guild channel) =
     Some (guild \<noteq> 0 \<and> channel \<noteq> 0 \<and> nonblank content \<and> byte_len content \<le> 2000,
       DiscordSendMessages)"
| "spec_shape (DiscordEditOwnMessage content) (DiscordMessage guild channel message) =
     Some (guild \<noteq> 0 \<and> channel \<noteq> 0 \<and> message \<noteq> 0 \<and> nonblank content \<and> byte_len content \<le> 2000,
       DiscordManageMessages)"
| "spec_shape (DiscordCreateThread name content) (DiscordChannel guild channel) =
     Some (guild \<noteq> 0 \<and> channel \<noteq> 0 \<and> nonblank name \<and> byte_len name \<le> 100
         \<and> nonblank content \<and> byte_len content \<le> 2000,
       DiscordManageThreads)"
| "spec_shape (DiscordCreateForumPost name content) (DiscordChannel guild channel) =
     Some (guild \<noteq> 0 \<and> channel \<noteq> 0 \<and> nonblank name \<and> byte_len name \<le> 100
         \<and> nonblank content \<and> byte_len content \<le> 2000,
       DiscordManageThreads)"
| "spec_shape (DiscordCreateEvent name starts_at ends_at) (DiscordChannel guild channel) =
     Some (guild \<noteq> 0 \<and> channel \<noteq> 0 \<and> nonblank name \<and> byte_len name \<le> 100 \<and> starts_at < ends_at,
       DiscordManageEvents)"
| "spec_shape (DiscordAddChannel name parent) (DiscordChannel guild channel) =
     Some (guild \<noteq> 0 \<and> channel \<noteq> 0 \<and> nonblank name \<and> byte_len name \<le> 100,
       DiscordManageChannels)"
| "spec_shape (GitHubCreateIssue title body) (GitHubRepository installation owner repo) =
     Some (installation \<noteq> 0 \<and> valid_repo owner repo \<and> nonblank title \<and> byte_len title \<le> 256
         \<and> byte_len body \<le> 65000,
       GitHubIssuesWrite)"
| "spec_shape (GitHubUpdateIssue title body) (GitHubIssue installation owner repo issue) =
     Some (installation \<noteq> 0 \<and> issue \<noteq> 0 \<and> valid_repo owner repo
         \<and> (title \<noteq> None \<or> body \<noteq> None)
         \<and> is_none_or title (\<lambda>text. nonblank text \<and> byte_len text \<le> 256)
         \<and> is_none_or body (\<lambda>text. byte_len text \<le> 65000),
       GitHubIssuesWrite)"
| "spec_shape (GitHubComment body) (GitHubIssue installation owner repo issue) =
     Some (installation \<noteq> 0 \<and> issue \<noteq> 0 \<and> valid_repo owner repo \<and> nonblank body
         \<and> byte_len body \<le> 65000,
       GitHubIssuesWrite)"
| "spec_shape _ _ = None"

definition spec_valid :: "action_spec \<Rightarrow> bool" where
  "spec_valid spec =
     (case spec_shape (spec_operation spec) (spec_target spec) of
        None \<Rightarrow> False
      | Some (target_ok, needed) \<Rightarrow> target_ok \<and> spec_required spec = {|needed|})"

section \<open>Operations\<close>

definition proposal_validate ::
  "action_digest \<Rightarrow> action_proposal \<Rightarrow> rstr \<Rightarrow> action_facts \<Rightarrow> action_error + unit" where
  "proposal_validate digest p displayed facts =
     (if facts_human_principal facts = None \<or> facts_human_principal facts = Some 0 then Inl ActDenied
      else if prop_expires_at p \<le> facts_now facts then Inl ActExpired
      else if displayed \<noteq> prop_content_digest p
         \<or> facts_target_fingerprint facts \<noteq> prop_target_fingerprint p
         \<or> digest (prop_spec p) (prop_requester p) (prop_expires_at p) (prop_target_fingerprint p)
             \<noteq> prop_content_digest p
        then Inl ActStale
      else if \<not> spec_required (prop_spec p) |\<subseteq>| facts_current_permissions facts then Inl ActDenied
      else Inr ())"

definition keep_on_compact :: "u64 \<Rightarrow> action_proposal \<Rightarrow> bool" where
  "keep_on_compact now p =
     (case prop_state p of
        Verified \<Rightarrow> False | Failed \<Rightarrow> False | Invalidated \<Rightarrow> False
      | Proposed \<Rightarrow> now < prop_expires_at p | Approved \<Rightarrow> now < prop_expires_at p
      | Executing \<Rightarrow> True | ReviewRequired \<Rightarrow> True)"

definition compact :: "u64 \<Rightarrow> action_store \<Rightarrow> action_store" where
  "compact now s = s\<lparr>act_proposals := fm_retain (\<lambda>_. keep_on_compact now) (act_proposals s)\<rparr>"

definition insert_proposal :: "u64 \<Rightarrow> action_proposal \<Rightarrow> action_store \<Rightarrow> action_store" where
  "insert_proposal i p s = s\<lparr>act_proposals := fmupd i p (act_proposals s)\<rparr>"

lemma insert_proposal_sel [simp]:
  "act_sequence (insert_proposal i p s) = act_sequence s"
  "act_proposals (insert_proposal i p s) = fmupd i p (act_proposals s)"
  by (simp_all add: insert_proposal_def)

lemma compact_sel [simp]:
  "act_sequence (compact now s) = act_sequence s"
  "act_proposals (compact now s) = fm_retain (\<lambda>_. keep_on_compact now) (act_proposals s)"
  by (simp_all add: compact_def)

definition propose ::
  "action_digest \<Rightarrow> action_spec \<Rightarrow> u64 \<Rightarrow> u64 \<Rightarrow> rstr \<Rightarrow> action_store
     \<Rightarrow> (action_error + u64) \<times> action_store" where
  "propose digest spec requester expires_at fingerprint s =
     (if requester = 0 \<or> expires_at = 0 \<or> fingerprint = [] \<or> 256 < byte_len fingerprint
         \<or> \<not> spec_valid spec
      then (Inl ActInvalid, s)
      else case checked_add (act_sequence s) 1 of
        None \<Rightarrow> (Inl ActFull, s)
      | Some i \<Rightarrow>
          (let s1 = (if 10000 \<le> fm_len (act_proposals s) then compact 0 s else s)
           in if 10000 \<le> fm_len (act_proposals s) \<and> 10000 \<le> fm_len (act_proposals s1)
              then (Inl ActFull, s1)
              else (Inr i, insert_proposal i
                \<lparr>prop_id = i, prop_spec = spec, prop_requester = requester,
                 prop_expires_at = expires_at, prop_target_fingerprint = fingerprint,
                 prop_content_digest = digest spec requester expires_at fingerprint,
                 prop_state = Proposed, prop_approver = None, prop_result_reference = None\<rparr>
                (s1\<lparr>act_sequence := i\<rparr>))))"

definition confirm ::
  "action_digest \<Rightarrow> u64 \<Rightarrow> rstr \<Rightarrow> action_facts \<Rightarrow> action_store
     \<Rightarrow> (action_error + unit) \<times> action_store" where
  "confirm digest i displayed facts s =
     (case fmlookup (act_proposals s) i of
        None \<Rightarrow> (Inl ActMissing, s)
      | Some p \<Rightarrow>
          if prop_state p \<noteq> Proposed then (Inl ActAlreadyHandled, s)
          else (case proposal_validate digest p displayed facts of
              Inl e \<Rightarrow> (Inl e, s)
            | Inr _ \<Rightarrow> (Inr (), insert_proposal i
                (p\<lparr>prop_approver := facts_human_principal facts, prop_state := Approved\<rparr>) s)))"

definition begin_action ::
  "action_digest \<Rightarrow> u64 \<Rightarrow> action_facts \<Rightarrow> action_store
     \<Rightarrow> (action_error + begin_outcome) \<times> action_store" where
  "begin_action digest i facts s =
     (case fmlookup (act_proposals s) i of
        None \<Rightarrow> (Inl ActMissing, s)
      | Some p \<Rightarrow>
          if prop_state p \<noteq> Approved then (Inl ActAlreadyHandled, s)
          else if prop_approver p \<noteq> facts_human_principal facts then (Inl ActDenied, s)
          else (case proposal_validate digest p (prop_content_digest p) facts of
              Inl reason \<Rightarrow> (Inr (BeginInvalidated reason), insert_proposal i
                (p\<lparr>prop_state := Invalidated, prop_approver := None\<rparr>) s)
            | Inr _ \<Rightarrow> (Inr (Ready (prop_spec p)), insert_proposal i
                (p\<lparr>prop_state := Executing\<rparr>) s)))"

definition finish ::
  "u64 \<Rightarrow> action_state \<Rightarrow> rstr option \<Rightarrow> action_store \<Rightarrow> (action_error + unit) \<times> action_store" where
  "finish i state reference s =
     (case fmlookup (act_proposals s) i of
        None \<Rightarrow> (Inl ActMissing, s)
      | Some p \<Rightarrow>
          if prop_state p \<noteq> Executing \<or> state \<notin> {Verified, ReviewRequired, Failed}
          then (Inl ActAlreadyHandled, s)
          else (Inr (), insert_proposal i
            (p\<lparr>prop_state := state, prop_result_reference := reference\<rparr>) s))"

definition interrupt :: "action_proposal \<Rightarrow> action_proposal" where
  "interrupt p = (if prop_state p = Executing then p\<lparr>prop_state := ReviewRequired\<rparr> else p)"

lemma interrupt_sel [simp]:
  "prop_state (interrupt p) = (if prop_state p = Executing then ReviewRequired else prop_state p)"
  "prop_spec (interrupt p) = prop_spec p" "prop_id (interrupt p) = prop_id p"
  "prop_requester (interrupt p) = prop_requester p" "prop_expires_at (interrupt p) = prop_expires_at p"
  "prop_target_fingerprint (interrupt p) = prop_target_fingerprint p"
  "prop_content_digest (interrupt p) = prop_content_digest p"
  "prop_approver (interrupt p) = prop_approver p"
  by (simp_all add: interrupt_def)

definition mark_interrupted :: "action_store \<Rightarrow> action_store" where
  "mark_interrupted s = s\<lparr>act_proposals := fmmap interrupt (act_proposals s)\<rparr>"

section \<open>Runs of the store\<close>

text \<open>A call of one of the store's operations, with what it returned.\<close>

datatype action_call =
    CallCompact u64
  | CallPropose action_spec u64 u64 rstr
  | CallConfirm u64 rstr action_facts
  | CallBegin u64 action_facts
  | CallFinish u64 action_state "rstr option"
  | CallInterrupted

datatype action_return =
    RetUnit "action_error + unit"
  | RetId "action_error + u64"
  | RetBegin "action_error + begin_outcome"

fun action_step ::
  "action_digest \<Rightarrow> action_call \<Rightarrow> action_store \<Rightarrow> action_return \<times> action_store" where
  "action_step digest (CallCompact now) s = (RetUnit (Inr ()), compact now s)"
| "action_step digest (CallPropose spec r e f) s = map_prod RetId id (propose digest spec r e f s)"
| "action_step digest (CallConfirm i d facts) s = map_prod RetUnit id (confirm digest i d facts s)"
| "action_step digest (CallBegin i facts) s = map_prod RetBegin id (begin_action digest i facts s)"
| "action_step digest (CallFinish i st r) s = map_prod RetUnit id (finish i st r s)"
| "action_step digest CallInterrupted s = (RetUnit (Inr ()), mark_interrupted s)"

text \<open>The stores the program can reach start empty; a history is a \<open>trace\<close> of \<open>action_step\<close>.\<close>

fun executes :: "action_call \<Rightarrow> action_return \<Rightarrow> u64 \<Rightarrow> bool" where
  "executes (CallBegin j facts) (RetBegin (Inr (Ready spec))) i = (j = i)"
| "executes _ _ _ = False"

definition executions :: "u64 \<Rightarrow> (action_call \<times> action_return) list \<Rightarrow> nat" where
  "executions i h = length (filter (\<lambda>(c, r). executes c r i) h)"

section \<open>The store invariant\<close>

definition proposal_ok :: "action_digest \<Rightarrow> u64 \<Rightarrow> u64 \<Rightarrow> action_proposal \<Rightarrow> bool" where
  "proposal_ok digest seq i p \<longleftrightarrow>
     prop_id p = i \<and> 0 < i \<and> i \<le> seq
     \<and> prop_requester p \<noteq> 0 \<and> prop_expires_at p \<noteq> 0 \<and> spec_valid (prop_spec p)
     \<and> prop_target_fingerprint p \<noteq> [] \<and> byte_len (prop_target_fingerprint p) \<le> 256
     \<and> prop_content_digest p = digest (prop_spec p) (prop_requester p) (prop_expires_at p)
         (prop_target_fingerprint p)
     \<and> (prop_state p \<in> {Proposed, Invalidated} \<longleftrightarrow> prop_approver p = None)
     \<and> prop_approver p \<noteq> Some 0"

definition actions_ok :: "action_digest \<Rightarrow> action_store \<Rightarrow> bool" where
  "actions_ok digest s \<longleftrightarrow>
     act_sequence s \<le> u64_max \<and> fm_len (act_proposals s) \<le> 10000
     \<and> (\<forall>i p. fmlookup (act_proposals s) i = Some p \<longrightarrow> proposal_ok digest (act_sequence s) i p)"

lemma actions_okI [intro]:
  "act_sequence s \<le> u64_max \<Longrightarrow> fm_len (act_proposals s) \<le> 10000 \<Longrightarrow>
    (\<And>i p. fmlookup (act_proposals s) i = Some p \<Longrightarrow> proposal_ok digest (act_sequence s) i p) \<Longrightarrow>
    actions_ok digest s"
  by (simp add: actions_ok_def)

lemma actions_okD:
  assumes "actions_ok digest s"
  shows "act_sequence s \<le> u64_max" "fm_len (act_proposals s) \<le> 10000"
    "fmlookup (act_proposals s) i = Some p \<Longrightarrow> proposal_ok digest (act_sequence s) i p"
  using assms by (simp_all add: actions_ok_def)

lemma actions_ok_empty: "actions_ok digest empty_actions"
  by (simp add: actions_ok_def empty_actions_def)

lemma actions_ok_compact: "actions_ok digest s \<Longrightarrow> actions_ok digest (compact now s)"
  by (auto simp: actions_ok_def compact_def split: option.splits if_splits
      intro: order_trans [OF fm_len_retain])

text \<open>Overwriting an existing entry keeps the invariant when the new entry is well formed.\<close>

lemma actions_ok_update:
  assumes "actions_ok digest s" and "fmlookup (act_proposals s) i = Some p"
    and "proposal_ok digest (act_sequence s) i p \<Longrightarrow> proposal_ok digest (act_sequence s) i q"
  shows "actions_ok digest (insert_proposal i q s)"
  using assms by (auto simp: actions_ok_def insert_proposal_def fm_len_upd)

lemma proposal_ok_mono: "proposal_ok digest n i p \<Longrightarrow> n \<le> m \<Longrightarrow> proposal_ok digest m i p"
  by (auto simp: proposal_ok_def)

lemma propose_cases:
  assumes "propose digest spec r e f s = (res, s')"
  obtains (invalid) er where "res = Inl er" "s' = s"
  | (full) "res = Inl ActFull" "s' = compact 0 s"
  | (fresh) i t p where "res = Inr i" "i = Suc (act_sequence s)" "i \<le> u64_max"
      "t = s \<or> t = compact 0 s" "fm_len (act_proposals t) < 10000"
      "s' = insert_proposal i p (t\<lparr>act_sequence := i\<rparr>)"
      "p = \<lparr>prop_id = i, prop_spec = spec, prop_requester = r, prop_expires_at = e,
            prop_target_fingerprint = f, prop_content_digest = digest spec r e f,
            prop_state = Proposed, prop_approver = None, prop_result_reference = None\<rparr>"
      "r \<noteq> 0" "e \<noteq> 0" "f \<noteq> []" "byte_len f \<le> 256" "spec_valid spec"
proof -
  let ?bad = "r = 0 \<or> e = 0 \<or> f = [] \<or> 256 < byte_len f \<or> \<not> spec_valid spec"
  let ?t = "if 10000 \<le> fm_len (act_proposals s) then compact 0 s else s"
  show thesis
  proof (cases "?bad \<or> checked_add (act_sequence s) 1 = None")
    case True
    then have "\<exists>er. propose digest spec r e f s = (Inl er, s)"
      by (auto simp: propose_def)
    with assms invalid show thesis by auto
  next
    case False
    then obtain i where i: "checked_add (act_sequence s) 1 = Some i" by auto
    show thesis
    proof (cases "10000 \<le> fm_len (act_proposals ?t)")
      case True
      with assms False i show thesis
        by (intro full) (auto simp: propose_def Let_def split: if_splits)
    next
      case small: False
      have nb: "\<not> ?bad" using False by blast
      have "\<not> (10000 \<le> fm_len (act_proposals s) \<and> 10000 \<le> fm_len (act_proposals ?t))"
        using small by simp
      then have "propose digest spec r e f s = (Inr i, insert_proposal i
          \<lparr>prop_id = i, prop_spec = spec, prop_requester = r, prop_expires_at = e,
            prop_target_fingerprint = f, prop_content_digest = digest spec r e f,
            prop_state = Proposed, prop_approver = None, prop_result_reference = None\<rparr>
          (?t\<lparr>act_sequence := i\<rparr>))"
        using nb i unfolding propose_def Let_def by (simp only: if_False option.case)
      with assms False i small show thesis
        by (intro fresh [of i ?t]) auto
    qed
  qed
qed

lemma actions_ok_propose:
  assumes "actions_ok digest s" and "propose digest spec r e f s = (res, s')"
  shows "actions_ok digest s'"
  using assms(2)
proof (cases rule: propose_cases)
  case invalid
  with assms(1) show ?thesis by simp
next
  case full
  with assms(1) show ?thesis by (simp add: actions_ok_compact)
next
  case (fresh i t p)
  have t: "actions_ok digest t" "act_sequence t = act_sequence s"
    using fresh(4) assms(1) actions_ok_compact [of digest s 0] by (auto simp: compact_def)
  have "proposal_ok digest i i p"
    using fresh by (simp add: proposal_ok_def)
  moreover have "proposal_ok digest i j q" if "fmlookup (act_proposals t) j = Some q" for j q
    using actions_okD(3) [OF t(1) that] fresh(2) t(2) by (auto intro: proposal_ok_mono)
  ultimately show ?thesis
    using fresh by (auto simp: insert_proposal_def fm_len_upd split: if_splits)
qed

lemma validate_Inr:
  "proposal_validate digest p d facts = Inr u \<longleftrightarrow>
     (\<exists>a. facts_human_principal facts = Some a \<and> a \<noteq> 0)
     \<and> facts_now facts < prop_expires_at p
     \<and> d = prop_content_digest p
     \<and> facts_target_fingerprint facts = prop_target_fingerprint p
     \<and> digest (prop_spec p) (prop_requester p) (prop_expires_at p) (prop_target_fingerprint p)
         = prop_content_digest p
     \<and> spec_required (prop_spec p) |\<subseteq>| facts_current_permissions facts"
  by (auto simp: proposal_validate_def not_le)

lemma proposal_ok_interrupt: "proposal_ok digest n i p \<Longrightarrow> proposal_ok digest n i (interrupt p)"
  by (auto simp: proposal_ok_def)

lemma actions_ok_step:
  assumes "actions_ok digest s" and "action_step digest c s = (r, s')"
  shows "actions_ok digest s'"
proof (cases c)
  case (CallPropose spec r e f)
  with assms show ?thesis
    by (cases "propose digest spec r e f s") (auto intro: actions_ok_propose)
next
  case (CallConfirm i d facts)
  with assms show ?thesis
    by (auto simp: confirm_def validate_Inr proposal_ok_def split: option.splits if_splits sum.splits
        elim!: actions_ok_update)
next
  case (CallBegin i facts)
  with assms show ?thesis
    by (auto simp: begin_action_def proposal_ok_def split: option.splits if_splits sum.splits
        elim!: actions_ok_update)
next
  case (CallFinish i st ref)
  with assms show ?thesis
    by (auto simp: finish_def proposal_ok_def split: option.splits if_splits
        elim!: actions_ok_update)
next
  case (CallCompact now)
  with assms show ?thesis by (auto intro: actions_ok_compact)
next
  case CallInterrupted
  with assms show ?thesis
    by (auto simp: mark_interrupted_def actions_ok_def fm_len_def proposal_ok_interrupt)
qed

section \<open>Single execution\<close>

text \<open>An identity is spent once it was allocated and can no longer be approved or started.\<close>

definition spent :: "action_store \<Rightarrow> u64 \<Rightarrow> bool" where
  "spent s i \<longleftrightarrow> i \<le> act_sequence s \<and>
     is_none_or (fmlookup (act_proposals s) i) (\<lambda>p. prop_state p \<notin> {Proposed, Approved})"

lemma spent_insert:
  "spent (insert_proposal j q s) i \<longleftrightarrow>
     i \<le> act_sequence s \<and> (if i = j then prop_state q \<notin> {Proposed, Approved}
       else is_none_or (fmlookup (act_proposals s) i) (\<lambda>p. prop_state p \<notin> {Proposed, Approved}))"
  by (auto simp: spent_def insert_proposal_def)

lemma spent_compact: "spent s i \<Longrightarrow> spent (compact now s) i"
  by (auto simp: spent_def compact_def split: option.splits)

lemma spent_step:
  assumes "action_step digest c s = (r, s')" and "spent s i"
  shows "spent s' i"
proof (cases c)
  case (CallPropose spec rq e f)
  then obtain res where "propose digest spec rq e f s = (res, s')"
    using assms(1) by (cases "propose digest spec rq e f s") auto
  then show ?thesis
  proof (cases rule: propose_cases)
    case (fresh k t p)
    with assms(2) have "spent t i" by (auto simp: spent_compact)
    moreover have "i \<noteq> k" using fresh assms(2) by (auto simp: spent_def)
    moreover have "act_sequence t = act_sequence s" using fresh by auto
    ultimately show ?thesis using fresh by (auto simp: spent_def)
  qed (use assms(2) in \<open>auto simp: spent_compact\<close>)
next
  case (CallCompact now)
  with assms show ?thesis by (auto intro: spent_compact)
next
  case CallInterrupted
  with assms show ?thesis
    by (auto simp: spent_def mark_interrupted_def is_none_or_iff split: if_splits)
next
  case (CallConfirm j d facts)
  with assms show ?thesis
    by (auto simp: confirm_def spent_insert spent_def split: option.splits if_splits sum.splits)
next
  case (CallBegin j facts)
  with assms show ?thesis
    by (auto simp: begin_action_def spent_insert spent_def split: option.splits if_splits sum.splits)
next
  case (CallFinish j st ref)
  with assms show ?thesis
    by (auto simp: finish_def spent_insert spent_def split: option.splits if_splits)
qed

lemma executes_iff:
  "executes c r i \<longleftrightarrow> (\<exists>facts spec. c = CallBegin i facts \<and> r = RetBegin (Inr (Ready spec)))"
  by (cases "(c, r, i)" rule: executes.cases) auto

lemma begin_Ready:
  "begin_action digest i facts s = (Inr (Ready spec), s') \<longleftrightarrow>
     (\<exists>p. fmlookup (act_proposals s) i = Some p \<and> prop_state p = Approved
        \<and> prop_approver p = facts_human_principal facts
        \<and> proposal_validate digest p (prop_content_digest p) facts = Inr ()
        \<and> spec = prop_spec p \<and> s' = insert_proposal i (p\<lparr>prop_state := Executing\<rparr>) s)"
  by (auto simp: begin_action_def split: option.splits if_splits sum.splits)

lemma executes_step:
  assumes "action_step digest c s = (r, s')" and "executes c r i"
  obtains facts spec where "c = CallBegin i facts" "r = RetBegin (Inr (Ready spec))"
    "begin_action digest i facts s = (Inr (Ready spec), s')"
  using assms by (auto simp: executes_iff map_prod_def split: prod.splits)

interpretation actions: once_machine "action_step digest" empty_actions "actions_ok digest" spent executes
  for digest
proof unfold_locales
  show "actions_ok digest empty_actions" by (rule actions_ok_empty)
next
  fix s c r s' assume "actions_ok digest s" "action_step digest c s = (r, s')"
  then show "actions_ok digest s'" by (rule actions_ok_step)
next
  fix s c r s' i assume "action_step digest c s = (r, s')" "spent s i"
  then show "spent s' i" by (rule spent_step)
next
  fix s c r s' i assume "action_step digest c s = (r, s')" "executes c r i"
  then show "\<not> spent s i"
    by (elim executes_step) (auto simp: begin_Ready spent_def)
next
  fix s c r s' i
  assume ok: "actions_ok digest s" and st: "action_step digest c s = (r, s')" "executes c r i"
  from st show "spent s' i"
    using ok by (elim executes_step) (auto simp: begin_Ready spent_insert dest!: actions_okD(3) simp: proposal_ok_def)
qed

section \<open>Where an approval comes from\<close>

definition confirmed_by :: "(action_call \<times> action_return) list \<Rightarrow> u64 \<Rightarrow> action_proposal \<Rightarrow> bool" where
  "confirmed_by h i p \<longleftrightarrow>
     (\<exists>facts. (CallConfirm i (prop_content_digest p) facts, RetUnit (Inr ())) \<in> set h
        \<and> facts_human_principal facts = prop_approver p
        \<and> facts_now facts < prop_expires_at p
        \<and> facts_target_fingerprint facts = prop_target_fingerprint p
        \<and> spec_required (prop_spec p) |\<subseteq>| facts_current_permissions facts)"

definition proposed_by :: "(action_call \<times> action_return) list \<Rightarrow> u64 \<Rightarrow> action_proposal \<Rightarrow> bool" where
  "proposed_by h i p \<longleftrightarrow>
     (CallPropose (prop_spec p) (prop_requester p) (prop_expires_at p) (prop_target_fingerprint p),
      RetId (Inr i)) \<in> set h"

definition entry_explained :: "(action_call \<times> action_return) list \<Rightarrow> u64 \<Rightarrow> action_proposal \<Rightarrow> bool" where
  "entry_explained h i p \<longleftrightarrow> proposed_by h i p \<and>
     (prop_state p \<notin> {Proposed, Invalidated} \<longrightarrow> confirmed_by h i p)"

definition explained :: "(action_call \<times> action_return) list \<Rightarrow> action_store \<Rightarrow> bool" where
  "explained h s \<longleftrightarrow> fm_all (entry_explained h) (act_proposals s)"

lemma entry_explained_mono: "entry_explained h i p \<Longrightarrow> entry_explained (x # h) i p"
  unfolding entry_explained_def proposed_by_def confirmed_by_def by (metis list.set_intros(2))

lemma explained_mono: "explained h s \<Longrightarrow> explained (x # h) s"
  by (auto simp: explained_def fm_all_iff intro: entry_explained_mono)

lemma explained_compact: "explained h s \<Longrightarrow> explained h (compact now s)"
  by (auto simp: explained_def fm_all_iff split: option.splits if_splits)

lemma explained_update:
  "explained h s \<Longrightarrow> entry_explained h i q \<Longrightarrow> explained h (insert_proposal i q s)"
  by (auto simp: explained_def fm_all_iff)

text \<open>An update that keeps what was proposed and approved keeps the explanation.\<close>

lemma entry_explained_keep:
  assumes "entry_explained h i p" "prop_state p \<notin> {Proposed, Invalidated}"
    "prop_spec q = prop_spec p" "prop_requester q = prop_requester p"
    "prop_expires_at q = prop_expires_at p" "prop_approver q = prop_approver p"
    "prop_target_fingerprint q = prop_target_fingerprint p"
    "prop_content_digest q = prop_content_digest p"
  shows "entry_explained h i q"
  using assms by (auto simp: entry_explained_def proposed_by_def confirmed_by_def)

lemma explained_step:
  assumes ex: "explained h s" and st: "action_step digest c s = (r, s')"
  shows "explained ((c, r) # h) s'"
proof -
  let ?h = "(c, r) # h"
  have ex': "explained ?h s" using ex by (rule explained_mono)
  then have entry: "fmlookup (act_proposals s) i = Some p \<Longrightarrow> entry_explained ?h i p" for i p
    by (auto simp: explained_def dest: fm_allD)
  show ?thesis
  proof (cases c)
    case (CallCompact now)
    with st ex' show ?thesis by (auto intro: explained_compact)
  next
    case CallInterrupted
    have "entry_explained ?h i (interrupt p)" if "fmlookup (act_proposals s) i = Some p" for i p
    proof (cases "prop_state p = Executing")
      case True
      then show ?thesis by (intro entry_explained_keep [OF entry [OF that]]) auto
    next
      case False
      then show ?thesis using entry [OF that] by (simp add: interrupt_def)
    qed
    with CallInterrupted st show ?thesis
      by (auto simp: explained_def fm_all_iff mark_interrupted_def)
  next
    case (CallPropose spec rq e f)
    then obtain res where res: "propose digest spec rq e f s = (res, s')" "r = RetId res"
      using st by (cases "propose digest spec rq e f s") auto
    from res(1) show ?thesis
    proof (cases rule: propose_cases)
      case (fresh k t p)
      have "explained ?h (t\<lparr>act_sequence := k\<rparr>)"
        using fresh(4) ex' explained_compact [OF ex'] by (auto simp: explained_def)
      moreover have "entry_explained ?h k p"
        using fresh res CallPropose by (simp add: entry_explained_def proposed_by_def)
      ultimately show ?thesis using fresh by (auto intro: explained_update)
    qed (use ex' explained_compact [OF ex'] in auto)
  next
    case (CallConfirm i d facts)
    with st ex' entry show ?thesis
      by (auto simp: confirm_def validate_Inr split: option.splits if_splits sum.splits
          intro!: explained_update)
        (fastforce simp: entry_explained_def proposed_by_def confirmed_by_def)
  next
    case (CallBegin i facts)
    with st ex' entry show ?thesis
      by (auto simp: begin_action_def split: option.splits if_splits sum.splits
          intro!: explained_update)
        (fastforce simp: entry_explained_def proposed_by_def confirmed_by_def)+
  next
    case (CallFinish i state ref)
    with st ex' entry show ?thesis
      by (auto simp: finish_def split: option.splits if_splits intro!: explained_update)
        (auto simp: entry_explained_def proposed_by_def confirmed_by_def)
  qed
qed

lemma explained_trace: "trace (action_step digest) empty_actions h s \<Longrightarrow> explained h s"
proof (induction rule: trace.induct)
  case trace_start
  then show ?case by (simp add: explained_def empty_actions_def)
next
  case (trace_call h s c r s')
  then show ?case by (auto intro: explained_step)
qed

section \<open>Properties\<close>

text \<open>A concrete run for the witnesses: one message proposed, confirmed and started.\<close>

definition action_demo_spec :: action_spec where
  "action_demo_spec = \<lparr>spec_target = DiscordChannel 1 2, spec_operation = DiscordSendMessage [104, 105],
     spec_required = {|DiscordSendMessages|}\<rparr>"

definition action_demo_digest :: action_digest where
  "action_demo_digest spec requester expires fingerprint = requester # expires # fingerprint"

definition action_demo_facts :: action_facts where
  "action_demo_facts = \<lparr>facts_human_principal = Some 7, facts_current_permissions = {|DiscordSendMessages|},
     facts_target_fingerprint = [9], facts_now = 50\<rparr>"

definition action_demo_calls :: "action_call list" where
  "action_demo_calls = [CallPropose action_demo_spec 7 100 [9], CallConfirm 1 [7, 100, 9] action_demo_facts]"

definition action_demo_approved :: action_store where
  "action_demo_approved = snd (run (action_step action_demo_digest) action_demo_calls ([], empty_actions))"

lemmas action_demo_defs = action_demo_spec_def action_demo_digest_def action_demo_facts_def action_demo_calls_def
  propose_def confirm_def begin_action_def proposal_validate_def insert_proposal_def
  spec_valid_def nonblank_def trim_def is_whitespace_def utf8_len_def empty_actions_def
  checked_add_def u64_max_def

lemma action_demo_run:
  "run (action_step action_demo_digest) action_demo_calls ([], empty_actions) =
     ([(CallConfirm 1 [7, 100, 9] action_demo_facts, RetUnit (Inr ())),
       (CallPropose action_demo_spec 7 100 [9], RetId (Inr 1))], action_demo_approved)"
  by (simp add: action_demo_approved_def action_demo_defs)

definition action_demo_started :: action_store where
  "action_demo_started = snd (action_step action_demo_digest (CallBegin 1 action_demo_facts) action_demo_approved)"

lemma action_demo_step:
  "action_step action_demo_digest (CallBegin 1 action_demo_facts) action_demo_approved =
     (RetBegin (Inr (Ready action_demo_spec)), action_demo_started)"
  by (simp add: action_demo_started_def action_demo_approved_def action_demo_defs)

lemmas action_demo_approved_trace = trace_from_run [OF action_demo_run]
lemmas action_demo_trace = trace_call [OF action_demo_approved_trace action_demo_step]

text \<open>
  C5. In every history of the approval store, started from the empty store and with any
  interleaving of proposals, confirmations, starts, results, compactions and crash
  recoveries, each proposal is handed out for execution at most once.
\<close>

theorem executes_at_most_once:
  assumes "trace (action_step digest) empty_actions h s"
  shows "executions i h \<le> 1"
  unfolding executions_def using assms by (rule actions.fires_at_most_once)

theorem executes_at_most_once_witness:
  "executions 1 [(CallBegin 1 action_demo_facts, RetBegin (Inr (Ready action_demo_spec))),
      (CallConfirm 1 [7, 100, 9] action_demo_facts, RetUnit (Inr ())),
      (CallPropose action_demo_spec 7 100 [9], RetId (Inr 1))] = 1"
  using executes_at_most_once [OF action_demo_trace, of 1] by (simp add: executions_def)

text \<open>
  C8. A start returns \<open>Ready spec\<close> only for a proposal that was proposed with exactly this
  specification and confirmed by a human principal who saw the digest of exactly this
  content; the same principal starts it, before the expiry, against the unchanged target,
  and both times the required permission was currently held.
\<close>

theorem execution_was_approved:
  assumes "trace (action_step digest) empty_actions h s"
    and "action_step digest (CallBegin i facts) s = (RetBegin (Inr (Ready spec)), s')"
  shows "\<exists>requester expires fingerprint human cfacts.
    (CallPropose spec requester expires fingerprint, RetId (Inr i)) \<in> set h
    \<and> (CallConfirm i (digest spec requester expires fingerprint) cfacts, RetUnit (Inr ())) \<in> set h
    \<and> human \<noteq> 0 \<and> facts_human_principal cfacts = Some human \<and> facts_human_principal facts = Some human
    \<and> facts_now cfacts < expires \<and> facts_now facts < expires
    \<and> facts_target_fingerprint cfacts = fingerprint \<and> facts_target_fingerprint facts = fingerprint
    \<and> spec_required spec |\<subseteq>| facts_current_permissions cfacts
    \<and> spec_required spec |\<subseteq>| facts_current_permissions facts
    \<and> spec_valid spec"
proof -
  from assms(2) obtain p where p: "fmlookup (act_proposals s) i = Some p" "prop_state p = Approved"
      "prop_approver p = facts_human_principal facts" "spec = prop_spec p"
      "proposal_validate digest p (prop_content_digest p) facts = Inr ()"
    by (auto simp: begin_Ready map_prod_def split: prod.splits)
  have ok: "proposal_ok digest (act_sequence s) i p"
    using actions.trace_inv [OF assms(1)] p(1) by (auto dest: actions_okD(3))
  have "entry_explained h i p"
    using explained_trace [OF assms(1)] p(1) by (auto simp: explained_def dest: fm_allD)
  then obtain cfacts where c: "(CallConfirm i (prop_content_digest p) cfacts, RetUnit (Inr ())) \<in> set h"
      "facts_human_principal cfacts = prop_approver p" "facts_now cfacts < prop_expires_at p"
      "facts_target_fingerprint cfacts = prop_target_fingerprint p"
      "spec_required (prop_spec p) |\<subseteq>| facts_current_permissions cfacts"
    and pr: "(CallPropose (prop_spec p) (prop_requester p) (prop_expires_at p)
        (prop_target_fingerprint p), RetId (Inr i)) \<in> set h"
    using p(2) by (auto simp: entry_explained_def proposed_by_def confirmed_by_def)
  obtain human where "facts_human_principal facts = Some human" "human \<noteq> 0"
    using p(5) by (auto simp: validate_Inr)
  then show ?thesis
    using p c pr ok
    by (intro exI [of _ "prop_requester p"] exI [of _ "prop_expires_at p"]
        exI [of _ "prop_target_fingerprint p"] exI [of _ human] exI [of _ cfacts])
      (auto simp: validate_Inr proposal_ok_def)
qed

theorem execution_was_approved_witness:
  "spec_valid action_demo_spec \<and> spec_required action_demo_spec |\<subseteq>| facts_current_permissions action_demo_facts"
  using execution_was_approved [OF action_demo_approved_trace action_demo_step]
  by (elim exE conjE) (intro conjI)

text \<open>
  An attempt that started is never lost: whatever the next call is, a proposal in
  flight or awaiting review keeps its identity, its content and its approver, and leaves
  these two states only through an explicit result for that very proposal. Compaction
  and crash recovery keep it for human review.
\<close>

theorem started_attempts_are_retained:
  assumes "trace (action_step digest) empty_actions h s"
    and "fmlookup (act_proposals s) i = Some p" and "prop_state p \<in> {Executing, ReviewRequired}"
    and "action_step digest c s = (r, s')"
  shows "\<exists>q. fmlookup (act_proposals s') i = Some q \<and> prop_spec q = prop_spec p
    \<and> prop_approver q = prop_approver p
    \<and> (prop_state q \<in> {Executing, ReviewRequired}
       \<or> (\<exists>ref. c = CallFinish i (prop_state q) ref \<and> prop_state q \<in> {Verified, Failed}))"
proof (cases c)
  case (CallPropose spec rq e f)
  then obtain res where res: "propose digest spec rq e f s = (res, s')"
    using assms(4) by (cases "propose digest spec rq e f s") auto
  have "i \<le> act_sequence s"
    using actions.trace_inv [OF assms(1)] assms(2) by (auto dest: actions_okD(3) simp: proposal_ok_def)
  from res show ?thesis
    by (cases rule: propose_cases) (use assms(2,3) \<open>i \<le> act_sequence s\<close> in \<open>auto simp: keep_on_compact_def\<close>)
next
  case (CallCompact now)
  with assms show ?thesis by (auto simp: keep_on_compact_def)
next
  case CallInterrupted
  with assms show ?thesis by (auto simp: mark_interrupted_def)
next
  case (CallConfirm j d facts)
  with assms show ?thesis by (auto simp: confirm_def split: option.splits if_splits sum.splits)
next
  case (CallBegin j facts)
  with assms show ?thesis by (auto simp: begin_action_def split: option.splits if_splits sum.splits)
next
  case (CallFinish j state ref)
  with assms show ?thesis by (auto simp: finish_def split: option.splits if_splits)
qed

theorem started_attempts_are_retained_witness:
  "\<exists>q. fmlookup (act_proposals (compact 1000 action_demo_started)) 1 = Some q \<and> prop_spec q = action_demo_spec"
proof -
  have "\<exists>p. fmlookup (act_proposals action_demo_started) 1 = Some p \<and> prop_state p = Executing
      \<and> prop_spec p = action_demo_spec"
    by (simp add: action_demo_started_def action_demo_approved_def action_demo_defs)
  then obtain p where "fmlookup (act_proposals action_demo_started) 1 = Some p"
    "prop_state p \<in> {Executing, ReviewRequired}" "prop_spec p = action_demo_spec" by (elim exE conjE) simp
  then show ?thesis
    using started_attempts_are_retained [OF action_demo_trace _ _ action_step.simps(1), of 1 p 1000] by metis
qed

text \<open>
  Every reachable store is well formed: at most 10,000 proposals, filed under their own
  nonzero identity no larger than the sequence counter (which fits 64 bits), each with a
  valid specification requiring exactly the permission of its operation, a digest of its
  own content, and an approver exactly when it was confirmed and not invalidated.
\<close>

theorem action_store_well_formed:
  assumes "trace (action_step digest) empty_actions h s"
  shows "actions_ok digest s"
  using assms by (rule actions.trace_inv)

theorem action_store_well_formed_witness: "actions_ok action_demo_digest action_demo_approved"
  by (rule action_store_well_formed [OF action_demo_approved_trace])

end
