(* ===== verification/Work_Types.thy ===== *)
theory Work_Types
  imports Rust_String
begin

text \<open>
  The small types every work component shares: errors, scopes, content references,
  destinations and access facts (\<open>src/work.rs\<close>, \<open>src/work/delivery.rs\<close>,
  \<open>src/work/follow_up.rs\<close>). Scopes and content references are map keys and set elements
  of the program, with the order derived from constructors and fields; they are made
  instances of \<open>linorder\<close> through an injective rank into lists of numbers.
\<close>

datatype work_error = Denied | Missing | Invalid | Full | Stale | Persistence

datatype work_scope = ScopePersonal u64 | ScopeTeam u64 u64

datatype work_content_ref = RefTask u64 u64 u64 | RefDecision u64 u64 u64

datatype work_destination =
  DestPersonal u64 | DestTeamChannel u64 | DestTeamPrivate u64

datatype engagement_scope = EngGuild u64 u64 | EngDm u64 u64

datatype follow_up_decision =
    FuAllowed | FuDisabled | FuQuiet | FuOptedOut | FuStaleTask | FuExpired
  | FuAccessDenied | FuBudget | FuCooldown | FuAlreadyAttempted | FuActivityUnavailable

text \<open>Fresh permission facts of the caller (\<open>WorkAccess\<close>).\<close>

record work_access =
  acc_actor :: u64
  acc_guild :: "u64 option"
  acc_channel :: u64
  acc_can_view :: bool
  acc_can_manage :: bool

section \<open>Derived orders\<close>

fun scope_rank :: "work_scope \<Rightarrow> nat list" where
  "scope_rank (ScopePersonal owner) = [0, owner]"
| "scope_rank (ScopeTeam guild channel) = [1, guild, channel]"

fun content_rank :: "work_content_ref \<Rightarrow> nat list" where
  "content_rank (RefTask project i revision) = [0, project, i, revision]"
| "content_rank (RefDecision project i revision) = [1, project, i, revision]"

fun eng_scope_rank :: "engagement_scope \<Rightarrow> nat list" where
  "eng_scope_rank (EngGuild guild channel) = [0, guild, channel]"
| "eng_scope_rank (EngDm member channel) = [1, member, channel]"

lemma scope_rank_inj [simp]: "scope_rank a = scope_rank b \<longleftrightarrow> a = b"
  by (cases a; cases b) auto

lemma content_rank_inj [simp]: "content_rank a = content_rank b \<longleftrightarrow> a = b"
  by (cases a; cases b) auto

lemma eng_scope_rank_inj [simp]: "eng_scope_rank a = eng_scope_rank b \<longleftrightarrow> a = b"
  by (cases a; cases b) auto

instantiation work_scope :: linorder
begin

definition less_eq_work_scope :: "work_scope \<Rightarrow> work_scope \<Rightarrow> bool" where
  "less_eq_work_scope a b \<longleftrightarrow> scope_rank a \<le> scope_rank b"

definition less_work_scope :: "work_scope \<Rightarrow> work_scope \<Rightarrow> bool" where
  "less_work_scope a b \<longleftrightarrow> scope_rank a < scope_rank b"

instance
  by standard (auto simp: less_eq_work_scope_def less_work_scope_def less_le)

end

instantiation work_content_ref :: linorder
begin

definition less_eq_work_content_ref :: "work_content_ref \<Rightarrow> work_content_ref \<Rightarrow> bool" where
  "less_eq_work_content_ref a b \<longleftrightarrow> content_rank a \<le> content_rank b"

definition less_work_content_ref :: "work_content_ref \<Rightarrow> work_content_ref \<Rightarrow> bool" where
  "less_work_content_ref a b \<longleftrightarrow> content_rank a < content_rank b"

instance
  by standard (auto simp: less_eq_work_content_ref_def less_work_content_ref_def less_le)

end

instantiation engagement_scope :: linorder
begin

definition less_eq_engagement_scope :: "engagement_scope \<Rightarrow> engagement_scope \<Rightarrow> bool" where
  "less_eq_engagement_scope a b \<longleftrightarrow> eng_scope_rank a \<le> eng_scope_rank b"

definition less_engagement_scope :: "engagement_scope \<Rightarrow> engagement_scope \<Rightarrow> bool" where
  "less_engagement_scope a b \<longleftrightarrow> eng_scope_rank a < eng_scope_rank b"

instance
  by standard (auto simp: less_eq_engagement_scope_def less_engagement_scope_def less_le)

end

section \<open>Scopes of callers and scope keys\<close>

definition access_scope :: "work_access \<Rightarrow> work_scope" where
  "access_scope a =
     (case acc_guild a of
        None \<Rightarrow> ScopePersonal (acc_actor a)
      | Some guild \<Rightarrow> ScopeTeam guild (acc_channel a))"

fun scope_key :: "work_scope \<Rightarrow> rstr" where
  "scope_key (ScopePersonal owner) = lit ''personal:'' @ decimal owner"
| "scope_key (ScopeTeam guild channel) = lit ''team:'' @ decimal guild @ lit '':'' @ decimal channel"

lemma scope_key_inj [simp]: "scope_key a = scope_key b \<longleftrightarrow> a = b"
  by (cases a; cases b) auto

text \<open>\<open>valid_scope\<close> of \<open>work/continuity.rs\<close>, \<open>scope_valid\<close> of \<open>work/recall.rs\<close>.\<close>

fun valid_scope :: "work_scope \<Rightarrow> bool" where
  "valid_scope (ScopePersonal owner) = (owner \<noteq> 0)"
| "valid_scope (ScopeTeam guild channel) = (guild \<noteq> 0 \<and> channel \<noteq> 0)"

section \<open>Destinations\<close>

text \<open>\<open>WorkDestination::validate\<close>: which destinations a scope and an actor may name.\<close>

fun dest_valid :: "work_destination \<Rightarrow> work_scope \<Rightarrow> u64 \<Rightarrow> bool" where
  "dest_valid (DestPersonal who) (ScopePersonal owner) actor =
     (who \<noteq> 0 \<and> who = owner \<and> who = actor)"
| "dest_valid (DestTeamPrivate who) (ScopeTeam _ _) actor =
     (who \<noteq> 0 \<and> who = actor)"
| "dest_valid (DestTeamChannel channel) (ScopeTeam _ origin) actor =
     (channel \<noteq> 0 \<and> channel = origin)"
| "dest_valid _ _ _ = False"

definition dest_validate :: "work_destination \<Rightarrow> work_scope \<Rightarrow> u64 \<Rightarrow> work_error + unit" where
  "dest_validate d scope actor = ensure Denied (dest_valid d scope actor)"

text \<open>The accessors of a content reference and its own validity.\<close>

fun ref_id :: "work_content_ref \<Rightarrow> u64" where
  "ref_id (RefTask _ i _) = i" | "ref_id (RefDecision _ i _) = i"

fun ref_project :: "work_content_ref \<Rightarrow> u64" where
  "ref_project (RefTask p _ _) = p" | "ref_project (RefDecision p _ _) = p"

fun ref_valid :: "work_content_ref \<Rightarrow> bool" where
  "ref_valid (RefTask project i _) = (project \<noteq> 0 \<and> i \<noteq> 0)"
| "ref_valid (RefDecision project i revision) = (project \<noteq> 0 \<and> i \<noteq> 0 \<and> revision = 1)"

fun same_content :: "work_content_ref \<Rightarrow> work_content_ref \<Rightarrow> bool" where
  "same_content (RefTask _ a _) (RefTask _ b _) = (a = b)"
| "same_content (RefDecision _ a _) (RefDecision _ b _) = (a = b)"
| "same_content _ _ = False"

end
