(* ===== verification/Engagement_Data.thy ===== *)
theory Engagement_Data
  imports Work_Types
begin

text \<open>
  The records of member contact (\<open>src/engagement.rs\<close>, with the receipt types of
  \<open>engagement/community.rs\<close> and \<open>engagement/erasure.rs\<close>): settings, sources, candidates,
  introductions, charges and the store that holds them.
\<close>

datatype destination_preference = PrefOrigin | PrefPrivate

record weekly_subscription =
  weekly_weekday :: u8
  weekly_hour :: u8
  weekly_scope :: engagement_scope
  weekly_destination :: destination_preference

record member_policy =
  mp_revision :: u64
  mp_daily_limit :: "u8 option"
  mp_weekly_limit :: "u8 option"
  mp_timezone :: "rstr option"
  mp_quiet_start :: u8
  mp_quiet_end :: u8
  mp_global_stop :: bool
  mp_stopped_guilds :: "u64 fset"
  mp_stopped_scopes :: "engagement_scope fset"
  mp_snoozed_until :: "u64 option"
  mp_weekly_subscription :: "weekly_subscription option"
  mp_destinations :: "(engagement_scope, destination_preference) fmap"

definition default_member_policy :: member_policy where
  "default_member_policy = \<lparr>mp_revision = 0, mp_daily_limit = None, mp_weekly_limit = None,
     mp_timezone = None, mp_quiet_start = 22, mp_quiet_end = 8, mp_global_stop = False,
     mp_stopped_guilds = {||}, mp_stopped_scopes = {||}, mp_snoozed_until = None,
     mp_weekly_subscription = None, mp_destinations = fmempty\<rparr>"

record source_ref =
  src_scope :: engagement_scope
  src_message :: u64
  src_author :: u64
  src_revision :: u64
  src_at :: u64

datatype engagement_kind =
    KindFollowUp | KindWeeklyCheckIn | KindActivityInvite | KindVoiceInvite
  | KindConversationStarter | KindUnansweredQuestion | KindWelcome
  | KindProjectCheckIn | KindIntroduction

datatype community_feature =
  FeatStarters | FeatQuestions | FeatWelcomes | FeatProjects | FeatIntroductions

record guild_feature_policy =
  gf_revision :: u64
  gf_enabled :: "community_feature fset"
  gf_channels :: "(community_feature, u64 fset) fmap"

datatype introduction_state = IntroPending | IntroReady | IntroConsumed | IntroCancelled

text \<open>The two-element arrays of an introduction are pairs.\<close>

record introduction =
  intro_id :: u64
  intro_revision :: u64
  intro_scope :: engagement_scope
  intro_members :: "u64 \<times> u64"
  intro_descriptions :: "rstr option \<times> rstr option"
  intro_approvals :: "u64 option \<times> u64 option"
  intro_destination :: u64
  intro_state :: introduction_state

datatype candidate_state =
  CandPending | CandReserved | CandSent | CandCancelled | CandRejected | CandReviewRequired

record candidate =
  cand_id :: u64
  cand_kind :: engagement_kind
  cand_source :: "source_ref option"
  cand_member :: "u64 option"
  cand_scope :: engagement_scope
  cand_due_at :: u64
  cand_revision :: u64
  cand_state :: candidate_state
  cand_dedupe_key :: rstr
  cand_policy_revision :: u64
  cand_destination :: destination_preference
  cand_message_id :: "u64 option"
  cand_introduction_id :: "u64 option"
  cand_work_ref :: "work_content_ref option"
  cand_expires_at :: "u64 option"
  cand_follow_up_reason :: "follow_up_decision option"

record contact_charge =
  charge_candidate :: u64
  charge_member :: u64
  charge_local_day :: rstr
  charge_local_week :: rstr
  charge_at :: u64

datatype community_evidence =
    EvMessage
  | EvJoin u64 u64
  | EvProject u64 u64 u64 "u64 fset" "work_content_ref fset"

record community_receipt =
  cr_policy_revision :: u64
  cr_attempted_at :: "u64 option"
  cr_evidence :: community_evidence

record erased_contact_charge =
  ecc_member :: u64
  ecc_local_day :: rstr
  ecc_local_week :: rstr
  ecc_at :: u64

record erased_community_charge =
  ecm_project :: "rstr option"
  ecm_scope :: engagement_scope
  ecm_kind :: engagement_kind
  ecm_at :: u64

record activity_version =
  av_origin :: rstr
  av_digest :: rstr

record invitation_request =
  inv_activity :: "activity_version option"
  inv_interaction :: u64
  inv_member :: u64
  inv_scope :: engagement_scope
  inv_at :: u64

record suppressed_invitation_request =
  sup_blocking_candidate :: u64
  sup_kind :: engagement_kind
  sup_request :: invitation_request

datatype feedback_kind = FeedbackUseful | FeedbackDismissed

record explicit_feedback =
  fb_actor :: u64
  fb_at :: u64
  fb_kind :: feedback_kind

record engagement_store =
  eng_community_cursor :: "source_ref option"
  eng_community_receipts :: "(u64, community_receipt) fmap"
  eng_invitation_requests :: "(u64, invitation_request) fmap"
  eng_suppressed_invitations :: "(u64, suppressed_invitation_request) fmap"
  eng_feedback :: "(u64, (u64, explicit_feedback) fmap) fmap"
  eng_erased_identities :: "rstr fset"
  eng_safety_pruned_through :: u64
  eng_sequence :: u64
  eng_member_policies :: "(u64, member_policy) fmap"
  eng_weekly_assessments :: "(u64, u64) fmap"
  eng_responses :: "(u64, u64) fmap"
  eng_observations :: "(engagement_scope, (u64, source_ref) fmap) fmap"
  eng_eligibility :: "(u64, source_ref fset) fmap"
  eng_guild_features :: "(u64, guild_feature_policy) fmap"
  eng_candidates :: "(u64, candidate) fmap"
  eng_introductions :: "(u64, introduction) fmap"
  eng_charges :: "contact_charge list"
  eng_erased_contact_charges :: "erased_contact_charge list"
  eng_erased_community_charges :: "erased_community_charge list"

definition empty_engagement :: engagement_store where
  "empty_engagement = \<lparr>eng_community_cursor = None, eng_community_receipts = fmempty,
     eng_invitation_requests = fmempty, eng_suppressed_invitations = fmempty,
     eng_feedback = fmempty, eng_erased_identities = {||}, eng_safety_pruned_through = 0,
     eng_sequence = 0, eng_member_policies = fmempty, eng_weekly_assessments = fmempty,
     eng_responses = fmempty, eng_observations = fmempty, eng_eligibility = fmempty,
     eng_guild_features = fmempty, eng_candidates = fmempty, eng_introductions = fmempty,
     eng_charges = [], eng_erased_contact_charges = [], eng_erased_community_charges = []\<rparr>"

section \<open>Wire keys of contact scopes\<close>

text \<open>
  The text form of a contact scope separates its fields with U+001F; the parser validates
  the scope and accepts only the text that the scope prints as.
\<close>

definition unit_sep :: nat where
  "unit_sep = 31"

fun eng_scope_valid :: "engagement_scope \<Rightarrow> bool" where
  "eng_scope_valid (EngGuild guild channel) = (guild \<noteq> 0 \<and> channel \<noteq> 0)"
| "eng_scope_valid (EngDm member channel) = (member \<noteq> 0 \<and> channel \<noteq> 0)"

fun eng_scope_text :: "engagement_scope \<Rightarrow> rstr" where
  "eng_scope_text (EngGuild guild channel) =
     lit ''guild'' @ unit_sep # decimal guild @ unit_sep # decimal channel"
| "eng_scope_text (EngDm member channel) =
     lit ''dm'' @ unit_sep # decimal member @ unit_sep # decimal channel"

definition eng_scope_parse :: "rstr \<Rightarrow> engagement_scope option" where
  "eng_scope_parse key =
     (case split_on unit_sep key of
        [kind, first, channel] \<Rightarrow>
          (case (parse_u64 first, parse_u64 channel) of
             (Some f, Some c) \<Rightarrow>
               (case (if kind = lit ''guild'' then Some (EngGuild f c)
                      else if kind = lit ''dm'' then Some (EngDm f c) else None) of
                  None \<Rightarrow> None
                | Some scope \<Rightarrow>
                    if eng_scope_valid scope \<and> eng_scope_text scope = key then Some scope else None)
           | _ \<Rightarrow> None)
      | _ \<Rightarrow> None)"

text \<open>What 64-bit identities a scope that exists in the program can hold.\<close>

fun eng_scope_u64 :: "engagement_scope \<Rightarrow> bool" where
  "eng_scope_u64 (EngGuild a b) = (a \<le> u64_max \<and> b \<le> u64_max)"
| "eng_scope_u64 (EngDm a b) = (a \<le> u64_max \<and> b \<le> u64_max)"

lemma eng_scope_parse_text:
  "eng_scope_valid s \<Longrightarrow> eng_scope_u64 s \<Longrightarrow> eng_scope_parse (eng_scope_text s) = Some s"
  by (cases s) (auto simp: eng_scope_parse_def unit_sep_def)

lemma eng_scope_parse_Some:
  "eng_scope_parse key = Some s \<Longrightarrow> eng_scope_valid s \<and> eng_scope_u64 s \<and> eng_scope_text s = key"
  unfolding eng_scope_parse_def
  by (auto split: list.splits option.splits if_splits dest!: parse_u64_bound)

interpretation eng_scope_codec:
  strict_codec eng_scope_text eng_scope_parse "\<lambda>s. eng_scope_valid s \<and> eng_scope_u64 s"
  by unfold_locales (auto simp: eng_scope_parse_text dest: eng_scope_parse_Some)

end
