(* ===== verification/Work_Data.thy ===== *)
theory Work_Data
  imports Engagement_Data Action_Approval
begin

text \<open>
  The durable work records (\<open>src/work.rs\<close>) with the recall projection state
  (\<open>src/work/recall.rs\<close>, \<open>src/work/recall_policy.rs\<close>) and the store that holds them all.
  A field is named after the source's field with a prefix for its record
  (\<open>task_revision\<close> is \<open>WorkTask::revision\<close>).
\<close>

section \<open>Projects, goals, tasks, decisions\<close>

record github_repository =
  gh_installation :: u64
  gh_owner :: rstr
  gh_name :: rstr

datatype github_item_kind = GhIssue | GhPullRequest

record github_reference =
  ghr_repository :: github_repository
  ghr_kind :: github_item_kind
  ghr_number :: u64

datatype github_state = GhOpen | GhClosed | GhMerged

record github_snapshot =
  snap_title :: rstr
  snap_state :: github_state
  snap_refreshed_at :: u64
  snap_stale :: bool
  snap_etag :: "rstr option"

record work_project =
  proj_id :: u64
  proj_name :: rstr
  proj_scope :: work_scope
  proj_managers :: "u64 fset"
  proj_members :: "u64 fset"
  proj_revision :: u64
  proj_repositories :: "github_repository fset"

datatype work_status = StOpen | StInProgress | StBlocked | StDone | StCancelled

fun status_label :: "work_status \<Rightarrow> rstr" where
  "status_label StOpen = lit ''open''"
| "status_label StInProgress = lit ''in progress''"
| "status_label StBlocked = lit ''blocked''"
| "status_label StDone = lit ''done''"
| "status_label StCancelled = lit ''cancelled''"

record work_goal =
  goal_id :: u64
  goal_project_id :: u64
  goal_title :: rstr
  goal_owner :: u64
  goal_complete :: bool

record work_task =
  task_id :: u64
  task_project_id :: u64
  task_title :: rstr
  task_owner :: u64
  task_assignee :: "u64 option"
  task_goal_id :: "u64 option"
  task_priority :: u8
  task_status :: work_status
  task_due_at :: "u64 option"
  task_remind_at :: "u64 option"
  task_reminder_revision :: u64
  task_snoozed_until :: "u64 option"
  task_source :: "rstr option"
  task_github :: "github_reference option"
  task_revision :: u64

record work_decision =
  dec_id :: u64
  dec_project_id :: u64
  dec_author :: u64
  dec_text :: rstr
  dec_at :: u64

section \<open>Automation, preferences, deliveries\<close>

record work_automation_policy =
  ap_enabled :: bool
  ap_delivery_target :: "work_destination option"
  ap_revision :: u64
  ap_destination :: "u64 option"
  ap_timezone :: rstr
  ap_quiet_start :: u8
  ap_quiet_end :: u8
  ap_daily_limit :: u8
  ap_briefing_hour :: u8

definition default_policy :: work_automation_policy where
  "default_policy = \<lparr>ap_enabled = False, ap_delivery_target = None, ap_revision = 0,
     ap_destination = None, ap_timezone = [], ap_quiet_start = 22, ap_quiet_end = 8,
     ap_daily_limit = 4, ap_briefing_hour = 9\<rparr>"

datatype work_feedback = Useful | Dismissed | Snoozed u8

datatype work_delivery_kind = Briefing | Reminder | Changes

record preference_evidence =
  ev_actor :: "u64 option"
  ev_scope :: "work_scope option"
  ev_kind :: "work_delivery_kind option"
  ev_delivery_id :: u64
  ev_feedback :: work_feedback
  ev_at :: u64

record preference_profile =
  prof_learning_enabled :: bool
  prof_explicit_hour :: "u8 option"
  prof_learned_hour :: "u8 option"
  prof_evidence :: "preference_evidence list"
  prof_observed :: "(u64 \<times> u64) fset"
  prof_reduce_followups :: bool
  prof_briefing_rank :: int

definition default_profile :: preference_profile where
  "default_profile = \<lparr>prof_learning_enabled = True, prof_explicit_hour = None,
     prof_learned_hour = None, prof_evidence = [], prof_observed = {||},
     prof_reduce_followups = False, prof_briefing_rank = 0\<rparr>"

datatype delivery_state = Attempting | Sent | DeliveryReviewRequired

record delivered_provenance =
  prov_version :: u8
  prov_source_refs :: "work_content_ref fset"
  prov_contributing_projects :: "u64 fset"
  prov_rendered_digest :: rstr

record reminder_coverage =
  cov_task_id :: u64
  cov_reminder_revision :: u64
  cov_remind_at :: u64

record delivery_receipt =
  rc_id :: u64
  rc_project_id :: u64
  rc_recipient :: u64
  rc_destination :: "work_destination option"
  rc_policy_revision :: u64
  rc_provenance :: "delivered_provenance option"
  rc_local_day :: rstr
  rc_at :: u64
  rc_state :: delivery_state
  rc_message_id :: "u64 option"
  rc_scope :: "work_scope option"
  rc_kind :: "work_delivery_kind option"
  rc_coverage :: "reminder_coverage list"
  rc_task_ids :: "u64 list"
  rc_dedupe_keys :: "rstr fset"

section \<open>The recall projection\<close>

datatype work_source_key =
    SrcTask u64 u64
  | SrcDecision u64 u64
  | SrcPreference work_scope u64 u64

record source_version =
  sv_revision :: u64
  sv_generation :: u64
  sv_recall_enabled :: bool
  sv_disabled_exhausted :: bool

record scope_recall_control =
  sc_generation :: u64
  sc_disabled_exhausted :: bool

record work_evidence_payload =
  pay_version :: u8
  pay_source :: work_source_key
  pay_revision :: u64
  pay_generation :: u64
  pay_scope :: work_scope
  pay_contributing_projects :: "u64 fset"
  pay_delivered_source_digest :: "rstr option"
  pay_actor :: "u64 option"
  pay_at :: "u64 option"
  pay_native_digest :: rstr
  pay_text :: rstr

datatype work_admission = AdmAppended rstr rstr | AdmUncovered rstr

record admitted_work_evidence =
  adm_id :: u64
  adm_payload :: work_evidence_payload
  adm_payload_digest :: rstr
  adm_admission :: work_admission

datatype attempt_state = AttPrepared | AttUnknown

datatype projection_operation = ProjAdd u64 | ProjForget u64

record projection_attempt =
  att_id :: u64
  att_source :: work_source_key
  att_operation :: projection_operation
  att_revision :: u64
  att_generation :: u64
  att_payload_digest :: rstr
  att_payload_bytes :: nat
  att_at :: u64
  att_nonce :: u64
  att_config_digest :: rstr
  att_state :: attempt_state
  att_observed_admission :: "work_admission option"

datatype terminal_outcome = TermAppended | TermUncovered | TermRejected

record terminal_summary =
  term_attempt :: u64
  term_at :: u64
  term_outcome :: terminal_outcome

record work_recall_state =
  rec_schema_version :: nat
  rec_sequence :: u64
  rec_projection_revision :: u64
  rec_revision_exhausted :: bool
  rec_records :: "(u64, admitted_work_evidence) fmap"
  rec_source_versions :: "(work_source_key, source_version) fmap"
  rec_scope_controls :: "(work_scope, scope_recall_control) fmap"
  rec_attempts :: "(u64, projection_attempt) fmap"
  rec_terminal :: "terminal_summary list"

definition empty_recall :: work_recall_state where
  "empty_recall = \<lparr>rec_schema_version = 1, rec_sequence = 0, rec_projection_revision = 0,
     rec_revision_exhausted = False, rec_records = fmempty, rec_source_versions = fmempty,
     rec_scope_controls = fmempty, rec_attempts = fmempty, rec_terminal = []\<rparr>"

record recall_policy =
  rp_enabled :: bool
  rp_configured_by :: u64
  rp_revision :: u64

definition default_recall_policy :: recall_policy where
  "default_recall_policy = \<lparr>rp_enabled = False, rp_configured_by = 0, rp_revision = 0\<rparr>"

section \<open>The store\<close>

record work_store =
  ws_engagement :: engagement_store
  ws_recall :: work_recall_state
  ws_recall_policies :: "(work_scope, recall_policy) fmap"
  ws_sequence :: u64
  ws_projects :: "(u64, work_project) fmap"
  ws_goals :: "(u64, work_goal) fmap"
  ws_tasks :: "(u64, work_task) fmap"
  ws_decisions :: "(u64, work_decision) fmap"
  ws_automation :: "(u64, work_automation_policy) fmap"
  ws_scope_automation :: "(rstr, work_automation_policy) fmap"
  ws_scope_automation_actors :: "(rstr, u64) fmap"
  ws_change_coverage :: "(rstr, work_content_ref fset) fmap"
  ws_change_fingerprints :: "(rstr, (u64, rstr) fmap) fmap"
  ws_preferences :: "(rstr, preference_profile) fmap"
  ws_deliveries :: "(u64, delivery_receipt) fmap"
  ws_request_ids :: "(rstr, u64) fmap"
  ws_actions :: action_store
  ws_github_snapshots :: "(rstr, github_snapshot) fmap"

definition empty_store :: work_store where
  "empty_store = \<lparr>ws_engagement = empty_engagement, ws_recall = empty_recall,
     ws_recall_policies = fmempty, ws_sequence = 0, ws_projects = fmempty, ws_goals = fmempty,
     ws_tasks = fmempty, ws_decisions = fmempty, ws_automation = fmempty,
     ws_scope_automation = fmempty, ws_scope_automation_actors = fmempty,
     ws_change_coverage = fmempty, ws_change_fingerprints = fmempty, ws_preferences = fmempty,
     ws_deliveries = fmempty, ws_request_ids = fmempty, ws_actions = empty_actions,
     ws_github_snapshots = fmempty\<rparr>"

type_synonym 'a store_op = "work_store \<Rightarrow> (work_error + 'a) \<times> work_store"

section \<open>Native changes seen by the recall projection\<close>

text \<open>
  The hooks of \<open>work/recall/lifecycle.rs\<close> that native operations call: they bump the
  projection revision and the version of the changed source, and record exhaustion
  instead of wrapping.
\<close>

definition recall_changed :: "work_recall_state \<Rightarrow> work_recall_state" where
  "recall_changed r =
     (case checked_add (rec_projection_revision r) 1 of
        Some next \<Rightarrow> r\<lparr>rec_projection_revision := next\<rparr>
      | None \<Rightarrow> r\<lparr>rec_revision_exhausted := True\<rparr>)"

definition recall_task_changed :: "u64 \<Rightarrow> u64 \<Rightarrow> u64 \<Rightarrow> work_recall_state \<Rightarrow> work_recall_state" where
  "recall_task_changed project i revision r =
     (case fmlookup (rec_source_versions r) (SrcTask project i) of
        None \<Rightarrow> r
      | Some v \<Rightarrow> recall_changed (r\<lparr>rec_source_versions :=
          fmupd (SrcTask project i) (v\<lparr>sv_revision := revision\<rparr>) (rec_source_versions r)\<rparr>))"

definition recall_preference_changed ::
  "work_scope \<Rightarrow> u64 \<Rightarrow> u64 \<Rightarrow> work_recall_state \<Rightarrow> work_recall_state" where
  "recall_preference_changed scope delivery actor r =
     (case fmlookup (rec_source_versions r) (SrcPreference scope delivery actor) of
        None \<Rightarrow> r
      | Some v \<Rightarrow> recall_changed (r\<lparr>rec_source_versions :=
          fmupd (SrcPreference scope delivery actor)
            (case checked_add (sv_revision v) 1 of
               Some next \<Rightarrow> v\<lparr>sv_revision := next\<rparr>
             | None \<Rightarrow> v\<lparr>sv_disabled_exhausted := True\<rparr>)
            (rec_source_versions r)\<rparr>))"

definition recall_preferences_reset :: "work_scope \<Rightarrow> work_recall_state \<Rightarrow> work_recall_state" where
  "recall_preferences_reset scope r =
     (case fmlookup (rec_scope_controls r) scope of
        None \<Rightarrow> r
      | Some v \<Rightarrow> recall_changed (r\<lparr>rec_scope_controls :=
          fmupd scope
            (case checked_add (sc_generation v) 1 of
               Some next \<Rightarrow> v\<lparr>sc_generation := next\<rparr>
             | None \<Rightarrow> v\<lparr>sc_disabled_exhausted := True\<rparr>)
            (rec_scope_controls r)\<rparr>))"

definition recall_learning_changed :: "work_scope \<Rightarrow> work_recall_state \<Rightarrow> work_recall_state" where
  "recall_learning_changed scope r =
     (case fmlookup (rec_scope_controls r) scope of
        None \<Rightarrow> r
      | Some _ \<Rightarrow> recall_changed r)"

end
