(* ===== verification/GitHub_Identity.thy ===== *)
theory GitHub_Identity
  imports Work_Data
begin

text \<open>
  Repository identity (the pure half of \<open>src/work/github.rs\<close>): validation, the
  case-folding canonical form, cache keys, URLs, the inert rendering of untrusted titles
  and the strict parser of legacy URL sources.
\<close>

section \<open>Repositories\<close>

definition valid_part :: "rstr \<Rightarrow> bool" where
  "valid_part part \<longleftrightarrow>
     part \<noteq> [] \<and> part \<noteq> lit ''.'' \<and> part \<noteq> lit ''..'' \<and> byte_len part \<le> 100
     \<and> list_all repo_byte part"

definition gh_valid :: "github_repository \<Rightarrow> bool" where
  "gh_valid r \<longleftrightarrow> gh_installation r \<noteq> 0 \<and> valid_part (gh_owner r) \<and> valid_part (gh_name r)"

definition gh_validate :: "github_repository \<Rightarrow> work_error + unit" where
  "gh_validate r = ensure Invalid (gh_valid r)"

definition gh_canonical :: "github_repository \<Rightarrow> github_repository" where
  "gh_canonical r = \<lparr>gh_installation = gh_installation r,
     gh_owner = to_ascii_lowercase (gh_owner r), gh_name = to_ascii_lowercase (gh_name r)\<rparr>"

definition gh_same_identity :: "github_repository \<Rightarrow> github_repository \<Rightarrow> bool" where
  "gh_same_identity a b \<longleftrightarrow> gh_installation a = gh_installation b
     \<and> eq_ignore_ascii_case (gh_owner a) (gh_owner b)
     \<and> eq_ignore_ascii_case (gh_name a) (gh_name b)"

lemma gh_canonical_sel [simp]:
  "gh_installation (gh_canonical r) = gh_installation r"
  "gh_owner (gh_canonical r) = to_ascii_lowercase (gh_owner r)"
  "gh_name (gh_canonical r) = to_ascii_lowercase (gh_name r)"
  by (simp_all add: gh_canonical_def)

lemma gh_same_identity_iff: "gh_same_identity a b \<longleftrightarrow> gh_canonical a = gh_canonical b"
  by (auto simp: gh_same_identity_def gh_canonical_def eq_ignore_ascii_case_def)

lemma gh_canonical_idem [simp]: "gh_canonical (gh_canonical r) = gh_canonical r"
  by (simp add: gh_canonical_def)

lemma repo_byte_lower: "repo_byte c \<Longrightarrow> repo_byte (ascii_lower c)"
  by (auto simp: repo_byte_def ascii_lower_def is_ascii_alphanumeric_def)

lemma valid_part_lower: "valid_part p \<Longrightarrow> valid_part (to_ascii_lowercase p)"
proof -
  assume v: "valid_part p"
  then have "list_all repo_byte (to_ascii_lowercase p)"
    by (auto simp: valid_part_def list_all_iff to_ascii_lowercase_def intro: repo_byte_lower)
  moreover have "to_ascii_lowercase p \<noteq> lit ''.''" "to_ascii_lowercase p \<noteq> lit ''..''"
    using v by (auto simp: valid_part_def to_ascii_lowercase_def)
  ultimately show ?thesis using v by (simp add: valid_part_def)
qed

lemma gh_valid_canonical: "gh_valid r \<Longrightarrow> gh_valid (gh_canonical r)"
  by (simp add: gh_valid_def valid_part_lower)

lemma valid_part_no_sep:
  "valid_part p \<Longrightarrow> 47 \<notin> set p" "valid_part p \<Longrightarrow> 58 \<notin> set p"
  by (auto simp: valid_part_def list_all_iff repo_byte_def is_ascii_alphanumeric_def)

section \<open>References\<close>

definition ghr_validate :: "github_reference \<Rightarrow> work_error + unit" where
  "ghr_validate r = rbind (gh_validate (ghr_repository r)) (\<lambda>_. ensure Invalid (ghr_number r \<noteq> 0))"

definition ghr_canonical :: "github_reference \<Rightarrow> github_reference" where
  "ghr_canonical r = r\<lparr>ghr_repository := gh_canonical (ghr_repository r)\<rparr>"

definition ghr_same_identity :: "github_reference \<Rightarrow> github_reference \<Rightarrow> bool" where
  "ghr_same_identity a b \<longleftrightarrow> ghr_kind a = ghr_kind b \<and> ghr_number a = ghr_number b
     \<and> gh_same_identity (ghr_repository a) (ghr_repository b)"

fun kind_segment :: "github_item_kind \<Rightarrow> rstr" where
  "kind_segment GhIssue = lit ''issues''"
| "kind_segment GhPullRequest = lit ''pull''"

definition ghr_path :: "github_reference \<Rightarrow> rstr" where
  "ghr_path r = gh_owner (gh_canonical (ghr_repository r))
     @ 47 # gh_name (gh_canonical (ghr_repository r))
     @ 47 # kind_segment (ghr_kind r) @ 47 # decimal (ghr_number r)"

definition ghr_key :: "github_reference \<Rightarrow> rstr" where
  "ghr_key r = decimal (gh_installation (ghr_repository r)) @ 58 # ghr_path r"

definition github_prefix :: rstr where
  "github_prefix = lit ''https://github.com/''"

definition ghr_url :: "github_reference \<Rightarrow> rstr" where
  "ghr_url r = github_prefix @ ghr_path r"

lemma ghr_validate_Inr [simp]:
  "ghr_validate r = Inr u \<longleftrightarrow> gh_valid (ghr_repository r) \<and> ghr_number r \<noteq> 0"
  by (auto simp: ghr_validate_def gh_validate_def)

lemma ghr_validate_Inl:
  "ghr_validate r = Inl e \<longleftrightarrow> e = Invalid \<and> \<not> (gh_valid (ghr_repository r) \<and> ghr_number r \<noteq> 0)"
  by (auto simp: ghr_validate_def gh_validate_def)

lemma ghr_canonical_sel [simp]:
  "ghr_repository (ghr_canonical r) = gh_canonical (ghr_repository r)"
  "ghr_kind (ghr_canonical r) = ghr_kind r" "ghr_number (ghr_canonical r) = ghr_number r"
  by (simp_all add: ghr_canonical_def)

lemma ghr_same_identity_iff: "ghr_same_identity a b \<longleftrightarrow> ghr_canonical a = ghr_canonical b"
  by (cases a; cases b) (auto simp: ghr_same_identity_def ghr_canonical_def gh_same_identity_iff)

lemma kind_segment_inj [simp]: "kind_segment a = kind_segment b \<longleftrightarrow> a = b"
  by (cases a; cases b) auto

lemma kind_segment_no_sep [simp]: "47 \<notin> set (kind_segment k)"
  by (cases k) auto

lemma canonical_parts:
  "gh_valid r \<Longrightarrow> valid_part (to_ascii_lowercase (gh_owner r))"
  "gh_valid r \<Longrightarrow> valid_part (to_ascii_lowercase (gh_name r))"
  by (auto simp: gh_valid_def intro: valid_part_lower)

lemma ghr_path_inj:
  "gh_valid (ghr_repository a) \<Longrightarrow> gh_valid (ghr_repository b) \<Longrightarrow>
    ghr_path a = ghr_path b \<longleftrightarrow>
      to_ascii_lowercase (gh_owner (ghr_repository a)) = to_ascii_lowercase (gh_owner (ghr_repository b))
      \<and> to_ascii_lowercase (gh_name (ghr_repository a)) = to_ascii_lowercase (gh_name (ghr_repository b))
      \<and> ghr_kind a = ghr_kind b \<and> ghr_number a = ghr_number b"
  unfolding ghr_path_def by (simp add: field_inj canonical_parts valid_part_no_sep)

section \<open>Allowlists and the snapshot cache\<close>

definition allows_github_repository :: "work_project \<Rightarrow> github_repository \<Rightarrow> bool" where
  "allows_github_repository p r \<longleftrightarrow>
     (\<exists>candidate |\<in>| proj_repositories p. gh_same_identity candidate r)"

definition find_github_snapshot :: "work_store \<Rightarrow> github_reference \<Rightarrow> github_snapshot option" where
  "find_github_snapshot s r = max_by_key snap_refreshed_at
     (map (\<lambda>k. the (fmlookup (ws_github_snapshots s) k))
       (filter (\<lambda>k. eq_ignore_ascii_case k (ghr_key r)) (fm_keys (ws_github_snapshots s))))"

section \<open>Untrusted titles\<close>

definition markdown_special :: "nat \<Rightarrow> bool" where
  "markdown_special c \<longleftrightarrow> c \<in> {92, 42, 95, 126, 96, 124, 60, 62, 91, 93}"

fun inert_char :: "nat \<Rightarrow> rstr" where
  "inert_char c = (if c = 64 then [64, 8203] else if markdown_special c then [92, c] else [c])"

definition inert_title :: "rstr \<Rightarrow> rstr" where
  "inert_title title = concat (map inert_char (take 120 (filter (\<lambda>c. \<not> is_control c) title)))"

section \<open>Legacy URL sources\<close>

text \<open>A \<open>BTreeSet<GitHubRepository>\<close> iterates by installation, owner, name.\<close>

definition repositories_in_order :: "github_repository fset \<Rightarrow> github_repository list" where
  "repositories_in_order S =
     map (\<lambda>(i, ow, nm). \<lparr>gh_installation = i, gh_owner = ow, gh_name = nm\<rparr>)
       (sorted_list_of_fset ((\<lambda>r. (gh_installation r, gh_owner r, gh_name r)) |`| S))"

definition parse_kind :: "rstr \<Rightarrow> github_item_kind option" where
  "parse_kind k = (if k = lit ''issues'' then Some GhIssue
     else if k = lit ''pull'' then Some GhPullRequest else None)"

definition matching_repository ::
  "rstr \<Rightarrow> rstr \<Rightarrow> github_repository fset \<Rightarrow> github_repository option" where
  "matching_repository owner name repositories =
     (case filter (\<lambda>r. eq_ignore_ascii_case (gh_owner r) owner \<and> eq_ignore_ascii_case (gh_name r) name)
         (repositories_in_order repositories) of
        [] \<Rightarrow> None
      | r # rest \<Rightarrow>
          if \<exists>candidate \<in> set rest. \<not> gh_same_identity candidate (gh_canonical r) then None
          else Some (gh_canonical r))"

definition parse_legacy_source :: "rstr \<Rightarrow> github_repository fset \<Rightarrow> github_reference option" where
  "parse_legacy_source source repositories =
     (case strip_prefix github_prefix source of
        None \<Rightarrow> None
      | Some path \<Rightarrow>
          (case split_on 47 path of
             [owner, name, kind, number] \<Rightarrow>
               if \<not> valid_part owner \<or> \<not> valid_part name
                  \<or> (number \<noteq> [] \<and> hd number = 48) \<or> \<not> list_all is_ascii_digit number then None
               else (case parse_u64 number of
                   None \<Rightarrow> None
                 | Some n \<Rightarrow>
                     if n = 0 then None
                     else (case parse_kind kind of
                         None \<Rightarrow> None
                       | Some k \<Rightarrow>
                           (case matching_repository owner name repositories of
                              None \<Rightarrow> None
                            | Some repository \<Rightarrow> Some \<lparr>ghr_repository = repository,
                                ghr_kind = k, ghr_number = n\<rparr>)))
           | _ \<Rightarrow> None))"

lemma set_repositories_in_order [simp]: "set (repositories_in_order S) = fset S"
proof -
  have "(\<lambda>(i, ow, nm). \<lparr>gh_installation = i, gh_owner = ow, gh_name = nm\<rparr>)
      \<circ> (\<lambda>r. (gh_installation r, gh_owner r, gh_name r)) = (\<lambda>r :: github_repository. r)"
    by (simp add: fun_eq_iff)
  then show ?thesis
    by (simp add: repositories_in_order_def fimage.rep_eq image_comp)
qed

lemma parse_kind_segment [simp]: "parse_kind (kind_segment k) = Some k"
  by (cases k) (auto simp: parse_kind_def)

lemma parse_kind_Some: "parse_kind s = Some k \<longleftrightarrow> s = kind_segment k"
  by (cases k) (auto simp: parse_kind_def)

lemma matching_repository_Some:
  "matching_repository owner name S = Some c \<longleftrightarrow>
     (\<exists>r \<in> fset S. eq_ignore_ascii_case (gh_owner r) owner \<and> eq_ignore_ascii_case (gh_name r) name
        \<and> c = gh_canonical r)
     \<and> (\<forall>r \<in> fset S. eq_ignore_ascii_case (gh_owner r) owner \<and> eq_ignore_ascii_case (gh_name r) name
        \<longrightarrow> gh_canonical r = c)"
proof -
  let ?P = "\<lambda>r. eq_ignore_ascii_case (gh_owner r) owner \<and> eq_ignore_ascii_case (gh_name r) name"
  have mem: "r \<in> set (filter ?P (repositories_in_order S)) \<longleftrightarrow> r \<in> fset S \<and> ?P r" for r
    by auto
  show ?thesis
  proof (cases "filter ?P (repositories_in_order S)")
    case Nil
    then have "\<not> (\<exists>r \<in> fset S. ?P r)" using mem by auto
    then show ?thesis by (auto simp: matching_repository_def Nil)
  next
    case (Cons r rest)
    then have mem': "\<forall>x. (x \<in> fset S \<and> ?P x) = (x = r \<or> x \<in> set rest)"
      using mem by auto
    then have set: "{x \<in> fset S. ?P x} = insert r (set rest)"
      by (simp add: set_eq_iff)
    have ball: "(\<forall>x \<in> fset S. ?P x \<longrightarrow> Q x) \<longleftrightarrow> (\<forall>x \<in> {x \<in> fset S. ?P x}. Q x)" for Q
      by blast
    have same: "(\<exists>x \<in> set rest. \<not> gh_same_identity x (gh_canonical r)) \<longleftrightarrow>
        \<not> (\<forall>x \<in> fset S. ?P x \<longrightarrow> gh_canonical x = gh_canonical r)"
      unfolding ball set by (simp add: gh_same_identity_iff)
    have bex: "(\<exists>x \<in> fset S. eq_ignore_ascii_case (gh_owner x) owner
        \<and> eq_ignore_ascii_case (gh_name x) name \<and> Q x) \<longleftrightarrow> (\<exists>x \<in> {x \<in> fset S. ?P x}. Q x)" for Q
      by blast
    have "matching_repository owner name S =
        (if \<forall>x \<in> set rest. gh_canonical x = gh_canonical r then Some (gh_canonical r) else None)"
      unfolding matching_repository_def Cons list.case same ball set by simp
    then show ?thesis unfolding ball bex set by auto
  qed
qed

lemma matching_repository_SomeI:
  assumes "a |\<in>| S" "eq_ignore_ascii_case (gh_owner a) owner" "eq_ignore_ascii_case (gh_name a) name"
    and "gh_canonical a = c"
    and "\<And>b. b |\<in>| S \<Longrightarrow> eq_ignore_ascii_case (gh_owner b) owner \<Longrightarrow>
      eq_ignore_ascii_case (gh_name b) name \<Longrightarrow> gh_canonical b = c"
  shows "matching_repository owner name S = Some c"
  unfolding matching_repository_Some
proof (intro conjI)
  show "\<exists>r \<in> fset S. eq_ignore_ascii_case (gh_owner r) owner \<and> eq_ignore_ascii_case (gh_name r) name
      \<and> c = gh_canonical r"
    by (rule bexI [where x = a]) (simp_all add: assms(1-4))
qed (simp add: assms(5))

lemma parse_legacy_sourceE:
  assumes "parse_legacy_source source allowed = Some r"
  obtains path owner name kind number n k repo where
    "source = github_prefix @ path" "split_on 47 path = [owner, name, kind, number]"
    "parse_u64 number = Some n" "n \<noteq> 0"
    "\<not> (\<not> valid_part owner \<or> \<not> valid_part name
      \<or> (number \<noteq> [] \<and> hd number = 48) \<or> \<not> list_all is_ascii_digit number)"
    "kind = kind_segment k" "matching_repository owner name allowed = Some repo"
    "r = \<lparr>ghr_repository = repo, ghr_kind = k, ghr_number = n\<rparr>"
proof -
  have sym: "Some \<lparr>ghr_repository = repo, ghr_kind = k, ghr_number = n\<rparr> = Some r \<longleftrightarrow>
      r = \<lparr>ghr_repository = repo, ghr_kind = k, ghr_number = n\<rparr>" for repo k n
    by auto
  from assms that show ?thesis
    unfolding parse_legacy_source_def option_peel list4_case_Some strip_prefix_Some parse_kind_Some sym
    by (elim exE conjE) (rule that)
qed

lemma parsed_reference:
  assumes "parse_legacy_source source allowed = Some r" and "\<forall>a |\<in>| allowed. gh_valid a"
  shows "gh_valid (ghr_repository r) \<and> gh_canonical (ghr_repository r) = ghr_repository r
    \<and> ghr_number r \<noteq> 0"
proof -
  from assms(1) obtain owner name n k repo where
    n: "n \<noteq> 0" and m: "matching_repository owner name allowed = Some repo"
    and r: "r = \<lparr>ghr_repository = repo, ghr_kind = k, ghr_number = n\<rparr>"
    by (rule parse_legacy_sourceE)
  from m obtain a where "a |\<in>| allowed" "repo = gh_canonical a"
    unfolding matching_repository_Some by (elim conjE bexE)
  with assms(2) n r show ?thesis by (simp add: gh_valid_canonical)
qed

lemma lower_digits: "list_all is_ascii_digit s \<Longrightarrow> to_ascii_lowercase s = s"
  by (induction s) (auto simp: is_ascii_digit_def ascii_lower_def)

lemma lower_kind_segment [simp]: "to_ascii_lowercase (kind_segment k) = kind_segment k"
  by (cases k) (auto simp: ascii_lower_def)

lemma lower_github_prefix [simp]: "to_ascii_lowercase github_prefix = github_prefix"
  by (simp add: github_prefix_def ascii_lower_def)

section \<open>Properties\<close>

text \<open>
  The cache key of a valid GitHub reference identifies it exactly up to the case of
  owner and repository name: two references share a key if and only if installation, kind,
  number and case-folded owner and name agree.
\<close>

theorem cache_key_identifies_reference:
  assumes "gh_valid (ghr_repository a)" and "gh_valid (ghr_repository b)"
  shows "ghr_key a = ghr_key b \<longleftrightarrow> ghr_same_identity a b"
  using assms ghr_path_inj [OF assms]
  by (auto simp: ghr_key_def ghr_same_identity_def gh_same_identity_def eq_ignore_ascii_case_def)

definition demo_reference :: "rstr \<Rightarrow> github_reference" where
  "demo_reference owner = \<lparr>ghr_repository = \<lparr>gh_installation = 5, gh_owner = owner, gh_name = lit ''bot''\<rparr>,
     ghr_kind = GhIssue, ghr_number = 12\<rparr>"

lemma demo_reference_valid:
  "gh_valid (ghr_repository (demo_reference (lit ''Abbey'')))"
  "gh_valid (ghr_repository (demo_reference (lit ''aBBey'')))"
  by (simp_all add: demo_reference_def gh_valid_def valid_part_def utf8_len_def repo_byte_def
      is_ascii_alphanumeric_def)

theorem cache_key_identifies_reference_witness:
  "ghr_key (demo_reference (lit ''Abbey'')) = ghr_key (demo_reference (lit ''aBBey''))"
  unfolding cache_key_identifies_reference [OF demo_reference_valid]
  by (simp add: demo_reference_def ghr_same_identity_def gh_same_identity_def
      eq_ignore_ascii_case_def ascii_lower_def)

text \<open>
  Migrating the URL a reference prints as gives back the canonical reference, when its
  repository is on the project's allowlist and no other installation allows a repository
  of the same owner and name.
\<close>

theorem legacy_source_roundtrip:
  assumes "gh_valid (ghr_repository r)" and "ghr_number r \<noteq> 0" and "ghr_number r \<le> u64_max"
    and "a |\<in>| allowed" and "gh_same_identity a (ghr_repository r)"
    and "\<forall>b |\<in>| allowed. eq_ignore_ascii_case (gh_owner b) (gh_owner a)
      \<and> eq_ignore_ascii_case (gh_name b) (gh_name a) \<longrightarrow> gh_installation b = gh_installation a"
  shows "parse_legacy_source (ghr_url r) allowed = Some (ghr_canonical r)"
proof -
  let ?c = "gh_canonical (ghr_repository r)"
  have parts: "valid_part (gh_owner ?c)" "valid_part (gh_name ?c)"
    using assms(1) by (simp_all add: canonical_parts)
  have split: "split_on 47 (ghr_path r) =
      [gh_owner ?c, gh_name ?c, kind_segment (ghr_kind r), decimal (ghr_number r)]"
    using parts by (simp add: ghr_path_def valid_part_no_sep)
  have digits: "list_all is_ascii_digit (decimal (ghr_number r))"
    by (auto simp: list_all_iff dest: decimal_digits)
  have strip: "strip_prefix github_prefix (ghr_url r) = Some (ghr_path r)"
    by (simp add: strip_prefix_Some ghr_url_def)
  have same: "gh_canonical a = ?c" using assms(5) by (simp add: gh_same_identity_iff)
  have sel: "to_ascii_lowercase (gh_owner a) = gh_owner ?c" "to_ascii_lowercase (gh_name a) = gh_name ?c"
    "gh_installation a = gh_installation ?c"
    using arg_cong [OF same, of gh_owner] arg_cong [OF same, of gh_name]
      arg_cong [OF same, of gh_installation] by simp_all
  have match: "matching_repository (gh_owner ?c) (gh_name ?c) allowed = Some ?c"
  proof -
    have "gh_canonical b = ?c" if b: "b |\<in>| allowed" "eq_ignore_ascii_case (gh_owner b) (gh_owner ?c)"
      "eq_ignore_ascii_case (gh_name b) (gh_name ?c)" for b
    proof -
      have "gh_installation b = gh_installation a"
        using assms(6) b sel by (simp add: eq_ignore_ascii_case_def)
      then show ?thesis using b sel by (simp add: eq_ignore_ascii_case_def gh_canonical_def)
    qed
    moreover have "eq_ignore_ascii_case (gh_owner a) (gh_owner ?c)"
      "eq_ignore_ascii_case (gh_name a) (gh_name ?c)"
      using sel by (simp_all add: eq_ignore_ascii_case_def)
    ultimately show ?thesis
      using assms(4) same by (intro matching_repository_SomeI)
  qed
  have guard: "\<not> (\<not> valid_part (gh_owner ?c) \<or> \<not> valid_part (gh_name ?c)
      \<or> (decimal (ghr_number r) \<noteq> [] \<and> hd (decimal (ghr_number r)) = 48)
      \<or> \<not> list_all is_ascii_digit (decimal (ghr_number r)))"
    using parts digits hd_decimal [OF assms(2)] by simp
  show ?thesis
    unfolding parse_legacy_source_def strip split option.case list.case if_not_P [OF guard]
      parse_u64_decimal [OF assms(3)] if_not_P [OF assms(2)] parse_kind_segment match
    by (simp add: ghr_canonical_def)
qed

definition demo_allowed :: "github_repository fset" where
  "demo_allowed = {|\<lparr>gh_installation = 5, gh_owner = lit ''abbey'', gh_name = lit ''Bot''\<rparr>|}"

theorem legacy_source_roundtrip_witness:
  "parse_legacy_source (ghr_url (demo_reference (lit ''Abbey''))) demo_allowed
     = Some (ghr_canonical (demo_reference (lit ''Abbey'')))"
  by (rule legacy_source_roundtrip [OF demo_reference_valid(1), of
        "\<lparr>gh_installation = 5, gh_owner = lit ''abbey'', gh_name = lit ''Bot''\<rparr>"])
    (simp_all add: demo_reference_def demo_allowed_def u64_max_def gh_same_identity_def
      eq_ignore_ascii_case_def ascii_lower_def)

text \<open>
  Whatever the legacy parser accepts is a valid canonical reference to a repository of
  the allowlist, named by exactly one installation, and the accepted text is its URL up to
  the case of owner and name: no other text migrates.
\<close>

theorem legacy_source_sound:
  assumes "parse_legacy_source source allowed = Some r"
    and "\<forall>a |\<in>| allowed. gh_valid a"
  shows "ghr_validate r = Inr () \<and> ghr_canonical r = r
    \<and> (\<exists>a |\<in>| allowed. gh_canonical a = ghr_repository r)
    \<and> (\<forall>b |\<in>| allowed. eq_ignore_ascii_case (gh_owner b) (gh_owner (ghr_repository r))
        \<and> eq_ignore_ascii_case (gh_name b) (gh_name (ghr_repository r))
        \<longrightarrow> gh_installation b = gh_installation (ghr_repository r))
    \<and> to_ascii_lowercase source = ghr_url r"
proof -
  from assms(1) obtain path owner name kind number n k repo where
    src: "source = github_prefix @ path" and sp: "split_on 47 path = [owner, name, kind, number]"
    and num: "parse_u64 number = Some n" "n \<noteq> 0"
    and good: "\<not> (\<not> valid_part owner \<or> \<not> valid_part name
      \<or> (number \<noteq> [] \<and> hd number = 48) \<or> \<not> list_all is_ascii_digit number)"
    and k: "kind = kind_segment k"
    and m: "matching_repository owner name allowed = Some repo"
    and r: "r = \<lparr>ghr_repository = repo, ghr_kind = k, ghr_number = n\<rparr>"
    by (rule parse_legacy_sourceE)
  have digits: "list_all is_ascii_digit number" "\<not> (number \<noteq> [] \<and> hd number = 48)"
    using good by blast+
  obtain a where a: "a |\<in>| allowed" "repo = gh_canonical a"
      "to_ascii_lowercase (gh_owner a) = to_ascii_lowercase owner"
      "to_ascii_lowercase (gh_name a) = to_ascii_lowercase name"
    and uniq: "\<And>b. b |\<in>| allowed \<Longrightarrow> to_ascii_lowercase (gh_owner b) = to_ascii_lowercase owner \<Longrightarrow>
      to_ascii_lowercase (gh_name b) = to_ascii_lowercase name \<Longrightarrow> gh_canonical b = repo"
    using m by (auto simp: matching_repository_Some eq_ignore_ascii_case_def)
  have path: "path = owner @ 47 # name @ 47 # kind @ 47 # number"
    by (rule split_on_four [OF sp])
  have dec: "decimal n = number" using num(1) digits by (rule decimal_of_parse)
  have url: "to_ascii_lowercase source = ghr_url r"
    using src path r a dec digits(1) k
    by (simp add: ghr_url_def ghr_path_def lower_digits ascii_lower_def)
  have "gh_valid (ghr_repository r)" using a assms(2) r by (simp add: gh_valid_canonical)
  moreover have "gh_installation b = gh_installation (ghr_repository r)"
    if "b |\<in>| allowed" "eq_ignore_ascii_case (gh_owner b) (gh_owner (ghr_repository r))"
      "eq_ignore_ascii_case (gh_name b) (gh_name (ghr_repository r))" for b
    using uniq [OF that(1)] that r a by (auto simp: eq_ignore_ascii_case_def gh_canonical_def)
  ultimately show ?thesis
    using url a(1,2) r num(2) by (auto simp: ghr_canonical_def)
qed

lemma demo_migration:
  "parse_legacy_source (ghr_url (demo_reference (lit ''Abbey''))) demo_allowed
     = Some (ghr_canonical (demo_reference (lit ''Abbey'')))"
  "\<forall>a |\<in>| demo_allowed. gh_valid a"
proof -
  have m: "matching_repository (lit ''abbey'') (lit ''bot'') demo_allowed
      = Some \<lparr>gh_installation = 5, gh_owner = lit ''abbey'', gh_name = lit ''bot''\<rparr>"
    by (rule matching_repository_SomeI
        [of "\<lparr>gh_installation = 5, gh_owner = lit ''abbey'', gh_name = lit ''Bot''\<rparr>"])
      (auto simp: demo_allowed_def eq_ignore_ascii_case_def ascii_lower_def gh_canonical_def)
  have d: "decimal 12 = [49, 50]" by (simp add: decimal.simps)
  show "parse_legacy_source (ghr_url (demo_reference (lit ''Abbey''))) demo_allowed
     = Some (ghr_canonical (demo_reference (lit ''Abbey'')))"
    using m by (simp add: parse_legacy_source_def ghr_url_def ghr_path_def demo_reference_def
        ascii_lower_def github_prefix_def d valid_part_def utf8_len_def repo_byte_def
        is_ascii_alphanumeric_def is_ascii_digit_def parse_u64_def Let_def u64_max_def
        parse_kind_def ghr_canonical_def gh_canonical_def)
  show "\<forall>a |\<in>| demo_allowed. gh_valid a"
    by (simp add: demo_allowed_def gh_valid_def valid_part_def utf8_len_def repo_byte_def
        is_ascii_alphanumeric_def)
qed

theorem legacy_source_sound_witness:
  "ghr_validate (ghr_canonical (demo_reference (lit ''Abbey''))) = Inr ()"
  using legacy_source_sound [OF demo_migration] by simp

text \<open>A scanner of rendered titles: every Markdown special is escaped, every at sign is
  broken by a zero-width space, and nothing is a control character.\<close>

fun inert_text :: "rstr \<Rightarrow> bool" where
  "inert_text [] = True"
| "inert_text (c # s) =
     (if c = 92 then (case s of [] \<Rightarrow> False | d # t \<Rightarrow> markdown_special d \<and> inert_text t)
      else if c = 64 then (case s of [] \<Rightarrow> False | d # t \<Rightarrow> d = 8203 \<and> inert_text t)
      else \<not> markdown_special c \<and> \<not> is_control c \<and> inert_text s)"

fun plain_text :: "rstr \<Rightarrow> rstr" where
  "plain_text [] = []"
| "plain_text (c # s) =
     (if c = 92 \<or> c = 64 then (case s of [] \<Rightarrow> [] | d # t \<Rightarrow> (if c = 64 then c else d) # plain_text t)
      else c # plain_text s)"

lemma inert_chars:
  "\<forall>c \<in> set s. \<not> is_control c \<Longrightarrow>
    inert_text (concat (map inert_char s)) \<and> plain_text (concat (map inert_char s)) = s"
  by (induction s) (auto simp: markdown_special_def is_control_def)

text \<open>
  The rendering of an untrusted title is inert (every Markdown special is escaped,
  every mention is broken, no control character is left) and loses nothing: undoing the
  escapes gives the first 120 printable characters of the title.
\<close>

theorem inert_title_is_inert:
  "inert_text (inert_title t) \<and> plain_text (inert_title t) = take 120 (filter (\<lambda>c. \<not> is_control c) t)"
  unfolding inert_title_def by (rule inert_chars) (auto dest: in_set_takeD)

end
