(* ===== verification/Work_Registry.thy ===== *)
theory Work_Registry
  imports GitHub_Identity Machine
begin

text \<open>
  The project registry (\<open>src/work/registry.rs\<close>): authorisation, project, goal, task and
  decision records, request deduplication, and the briefing text. Every operation is a
  function of the store that returns its result and the store it leaves behind.
\<close>

section \<open>Authorisation and text\<close>

definition authorized :: "work_project \<Rightarrow> work_access \<Rightarrow> bool \<Rightarrow> bool" where
  "authorized p a manager =
     (let correct_scope = (case proj_scope p of
          ScopePersonal owner \<Rightarrow> acc_guild a = None \<and> acc_actor a = owner
        | ScopeTeam guild channel \<Rightarrow>
            acc_guild a = Some guild \<and> acc_channel a = channel \<and> acc_can_view a)
      in \<not> (acc_actor a = 0 \<or> \<not> correct_scope \<or> acc_actor a |\<notin>| proj_members p
            \<or> (manager \<and> acc_actor a |\<notin>| proj_managers p)))"

definition authorize :: "work_project \<Rightarrow> work_access \<Rightarrow> bool \<Rightarrow> work_error + unit" where
  "authorize p a manager = ensure Denied (authorized p a manager)"

definition valid_text :: "rstr \<Rightarrow> nat \<Rightarrow> bool" where
  "valid_text t m \<longleftrightarrow>
     \<not> (trim t = [] \<or> m < length t \<or> list_ex (\<lambda>c. is_control c \<and> c \<noteq> 10) t)"

definition visible_projects :: "work_store \<Rightarrow> work_access \<Rightarrow> work_project list" where
  "visible_projects s a = filter (\<lambda>p. authorized p a False) (fm_values (ws_projects s))"

definition max_records :: nat where "max_records = 10000"

definition record_count :: "work_store \<Rightarrow> nat" where
  "record_count s = fm_len (ws_projects s) + fm_len (ws_goals s) + fm_len (ws_tasks s)
     + fm_len (ws_decisions s)"

definition next_id :: "u64 store_op" where
  "next_id s =
     (if max_records \<le> record_count s then (Inl Full, s)
      else case checked_add (ws_sequence s) 1 of
          None \<Rightarrow> (Inl Full, s)
        | Some n \<Rightarrow> (Inr n, s\<lparr>ws_sequence := n\<rparr>))"

definition project :: "work_store \<Rightarrow> u64 \<Rightarrow> work_access \<Rightarrow> work_error + work_project" where
  "project s i a =
     (case fmlookup (ws_projects s) i of
        None \<Rightarrow> Inl Missing
      | Some p \<Rightarrow> (if authorized p a False then Inr p else Inl Denied))"

definition valid_request :: "rstr \<Rightarrow> bool" where
  "valid_request r \<longleftrightarrow> \<not> (r = [] \<or> 100 < byte_len r)"

section \<open>Request keys\<close>

definition project_key :: "work_access \<Rightarrow> rstr \<Rightarrow> rstr" where
  "project_key a r = decimal (acc_actor a) @ lit '':'' @
     decimal (case acc_guild a of None \<Rightarrow> 0 | Some g \<Rightarrow> g) @ lit '':'' @
     decimal (acc_channel a) @ lit '':project:'' @ r"

definition goal_key :: "work_access \<Rightarrow> u64 \<Rightarrow> rstr \<Rightarrow> rstr" where
  "goal_key a p r = decimal (acc_actor a) @ lit '':'' @ decimal p @ lit '':goal:'' @ r"

definition task_key :: "work_access \<Rightarrow> u64 \<Rightarrow> rstr \<Rightarrow> rstr" where
  "task_key a p r = decimal (acc_actor a) @ lit '':'' @ decimal p @ lit '':task:'' @ r"

definition decision_key :: "work_access \<Rightarrow> u64 \<Rightarrow> rstr \<Rightarrow> rstr" where
  "decision_key a p r = decimal (acc_actor a) @ lit '':'' @ decimal p @ lit '':decision:'' @ r"

section \<open>Operations\<close>

definition create_project :: "work_access \<Rightarrow> rstr \<Rightarrow> rstr \<Rightarrow> u64 store_op" where
  "create_project a name request s =
     (if \<not> valid_text name 100 then (Inl Invalid, s)
      else if acc_actor a = 0 \<or> acc_channel a = 0 \<or> acc_guild a = Some 0
          \<or> \<not> valid_request request then (Inl Invalid, s)
      else if acc_guild a \<noteq> None \<and> (\<not> acc_can_view a \<or> \<not> acc_can_manage a) then (Inl Denied, s)
      else case fmlookup (ws_request_ids s) (project_key a request) of
          Some i \<Rightarrow> (Inr i, s)
        | None \<Rightarrow> op_then (next_id s) (\<lambda>i s.
            (Inr i, s\<lparr>ws_projects := fmupd i \<lparr>proj_id = i, proj_name = trim name,
                 proj_scope = access_scope a, proj_managers = {|acc_actor a|},
                 proj_members = {|acc_actor a|}, proj_revision = 0, proj_repositories = {||}\<rparr>
                 (ws_projects s),
               ws_request_ids := fmupd (project_key a request) i (ws_request_ids s)\<rparr>)))"

definition set_member :: "u64 \<Rightarrow> work_access \<Rightarrow> u64 \<Rightarrow> bool \<Rightarrow> unit store_op" where
  "set_member i a user present s =
     (case fmlookup (ws_projects s) i of
        None \<Rightarrow> (Inl Missing, s)
      | Some p \<Rightarrow>
          if \<not> authorized p a True then (Inl Denied, s)
          else if (case proj_scope p of ScopePersonal _ \<Rightarrow> True | _ \<Rightarrow> False)
              \<or> user = 0 \<or> user |\<in>| proj_managers p then (Inl Invalid, s)
          else let q = p\<lparr>proj_members := (if present then finsert user (proj_members p)
                                          else proj_members p |-| {|user|})\<rparr>
            in case checked_add (proj_revision q) 1 of
                 None \<Rightarrow> (Inl Full, s\<lparr>ws_projects := fmupd i q (ws_projects s)\<rparr>)
               | Some n \<Rightarrow>
                   (Inr (), s\<lparr>ws_projects := fmupd i (q\<lparr>proj_revision := n\<rparr>) (ws_projects s)\<rparr>))"

definition add_goal :: "u64 \<Rightarrow> work_access \<Rightarrow> rstr \<Rightarrow> rstr \<Rightarrow> u64 store_op" where
  "add_goal p a title request s =
     (case project s p a of
        Inl e \<Rightarrow> (Inl e, s)
      | Inr _ \<Rightarrow>
          if \<not> valid_text title 300 then (Inl Invalid, s)
          else if \<not> valid_request request then (Inl Invalid, s)
          else case fmlookup (ws_request_ids s) (goal_key a p request) of
              Some i \<Rightarrow> (Inr i, s)
            | None \<Rightarrow> op_then (next_id s) (\<lambda>i s.
                (Inr i, s\<lparr>ws_goals := fmupd i \<lparr>goal_id = i, goal_project_id = p,
                     goal_title = trim title, goal_owner = acc_actor a, goal_complete = False\<rparr>
                     (ws_goals s),
                   ws_request_ids := fmupd (goal_key a p request) i (ws_request_ids s)\<rparr>)))"

definition task_inadmissible :: "work_store \<Rightarrow> work_project \<Rightarrow> work_task \<Rightarrow> rstr \<Rightarrow> bool" where
  "task_inadmissible s p t request \<longleftrightarrow>
     3 < task_priority t
     \<or> is_some_and (task_github t) (\<lambda>r. ghr_validate r \<noteq> Inr ()
          \<or> \<not> allows_github_repository p (ghr_repository r))
     \<or> is_some_and (task_assignee t) (\<lambda>m. m |\<notin>| proj_members p)
     \<or> is_some_and (task_goal_id t) (\<lambda>g. is_none_or (fmlookup (ws_goals s) g)
          (\<lambda>goal. goal_project_id goal \<noteq> task_project_id t))
     \<or> is_some_and (task_source t) (\<lambda>src. 500 < byte_len src
          \<or> strip_prefix (lit ''https://'') src = None)
     \<or> \<not> valid_request request"

definition add_task :: "work_access \<Rightarrow> work_task \<Rightarrow> rstr \<Rightarrow> u64 store_op" where
  "add_task a t request s =
     (case project s (task_project_id t) a of
        Inl e \<Rightarrow> (Inl e, s)
      | Inr p \<Rightarrow>
          if \<not> valid_text (task_title t) 300 then (Inl Invalid, s)
          else if task_inadmissible s p t request then (Inl Invalid, s)
          else case fmlookup (ws_request_ids s) (task_key a (task_project_id t) request) of
              Some i \<Rightarrow> (Inr i, s)
            | None \<Rightarrow> op_then (next_id s) (\<lambda>i s.
                (Inr i, s\<lparr>ws_tasks := fmupd i (t\<lparr>task_github := map_option ghr_canonical (task_github t),
                     task_id := i, task_owner := acc_actor a, task_revision := 0\<rparr>) (ws_tasks s),
                   ws_request_ids := fmupd (task_key a (task_project_id t) request) i
                     (ws_request_ids s)\<rparr>)))"

definition update_task ::
  "work_access \<Rightarrow> u64 \<Rightarrow> u64 \<Rightarrow> work_status \<Rightarrow> u64 option \<Rightarrow> u64 store_op" where
  "update_task a i revision status snoozed s =
     (case fmlookup (ws_tasks s) i of
        None \<Rightarrow> (Inl Missing, s)
      | Some t \<Rightarrow>
          (case project s (task_project_id t) a of
             Inl e \<Rightarrow> (Inl e, s)
           | Inr _ \<Rightarrow>
               if task_revision t \<noteq> revision then (Inl Stale, s)
               else case checked_add (task_revision t) 1 of
                   None \<Rightarrow> (Inl Full, s)
                 | Some n \<Rightarrow>
                     (Inr n, s\<lparr>ws_tasks := fmupd i (t\<lparr>task_status := status,
                          task_snoozed_until := snoozed, task_revision := n\<rparr>) (ws_tasks s),
                        ws_recall := recall_task_changed (task_project_id t) i n (ws_recall s)\<rparr>)))"

definition record_decision ::
  "u64 \<Rightarrow> work_access \<Rightarrow> rstr \<Rightarrow> u64 \<Rightarrow> rstr \<Rightarrow> u64 store_op" where
  "record_decision p a text at request s =
     (case project s p a of
        Inl e \<Rightarrow> (Inl e, s)
      | Inr _ \<Rightarrow>
          if \<not> valid_text text 1000 then (Inl Invalid, s)
          else if \<not> valid_request request then (Inl Invalid, s)
          else case fmlookup (ws_request_ids s) (decision_key a p request) of
              Some i \<Rightarrow> (Inr i, s)
            | None \<Rightarrow> op_then (next_id s) (\<lambda>i s.
                (Inr i, s\<lparr>ws_decisions := fmupd i \<lparr>dec_id = i, dec_project_id = p,
                     dec_author = acc_actor a, dec_text = trim text, dec_at = at\<rparr> (ws_decisions s),
                   ws_request_ids := fmupd (decision_key a p request) i (ws_request_ids s)\<rparr>)))"

section \<open>The briefing\<close>

definition middle_dot :: rstr where
  "middle_dot = [32, 183, 32]"

definition relative_time :: "u64 \<Rightarrow> rstr" where
  "relative_time t = lit ''<t:'' @ decimal t @ lit '':R>''"

definition open_task :: "work_task \<Rightarrow> bool" where
  "open_task t \<longleftrightarrow> task_status t \<noteq> StDone \<and> task_status t \<noteq> StCancelled"

definition task_order :: "work_task \<Rightarrow> int \<times> nat \<times> nat" where
  "task_order t = (- int (task_priority t),
     case task_due_at t of None \<Rightarrow> u64_max | Some d \<Rightarrow> d, task_id t)"

definition briefing_tasks :: "work_store \<Rightarrow> u64 \<Rightarrow> work_task list" where
  "briefing_tasks s p = sort_key task_order
     (filter (\<lambda>t. task_project_id t = p \<and> open_task t) (fm_values (ws_tasks s)))"

fun github_state_label :: "github_state \<Rightarrow> rstr" where
  "github_state_label GhOpen = lit ''open''"
| "github_state_label GhClosed = lit ''closed''"
| "github_state_label GhMerged = lit ''merged''"

definition github_line :: "work_store \<Rightarrow> work_project \<Rightarrow> work_task \<Rightarrow> rstr" where
  "github_line s p t =
     (case task_github t of
        None \<Rightarrow> []
      | Some r \<Rightarrow>
          if \<not> allows_github_repository p (ghr_repository r) then []
          else (case find_github_snapshot s r of
              None \<Rightarrow> 10 # lit ''  GitHub: awaiting first refresh'' @ middle_dot @ ghr_url r
            | Some snap \<Rightarrow> 10 # lit ''  GitHub: '' @ inert_title (snap_title snap) @ lit '' (''
                @ github_state_label (snap_state snap) @ lit '', ''
                @ (if snap_stale snap then lit ''stale'' else lit ''refreshed'') @ lit '' ''
                @ relative_time (snap_refreshed_at snap) @ lit '')'' @ middle_dot @ ghr_url r))"

definition task_line :: "work_store \<Rightarrow> work_project \<Rightarrow> work_task \<Rightarrow> rstr" where
  "task_line s p t = 10 # lit ''#'' @ decimal (task_id t) @ middle_dot
     @ status_label (task_status t) @ middle_dot @ task_title t
     @ (case task_due_at t of None \<Rightarrow> [] | Some due \<Rightarrow> middle_dot @ lit ''due '' @ relative_time due)
     @ middle_dot @ lit ''revision '' @ decimal (task_revision t) @ github_line s p t"

definition decision_line :: "work_decision \<Rightarrow> rstr" where
  "decision_line d = 10 # lit ''Decision #'' @ decimal (dec_id d) @ lit '': '' @ dec_text d"

definition briefing_decisions :: "work_store \<Rightarrow> u64 \<Rightarrow> work_decision list" where
  "briefing_decisions s p =
     take 3 (filter (\<lambda>d. dec_project_id d = p) (rev (fm_values (ws_decisions s))))"

definition briefing :: "work_store \<Rightarrow> u64 \<Rightarrow> work_access \<Rightarrow> u64 \<Rightarrow> work_error + rstr" where
  "briefing s i a now = rbind (project s i a) (\<lambda>p.
     Inr (lit ''**'' @ proj_name p @ middle_dot @ lit ''work briefing**'' @ [10]
       @ lit ''Recorded work, viewed '' @ relative_time now @ lit ''.'' @ [10]
       @ (if briefing_tasks s i = [] then
            lit ''No open tasks. Add one with `/work task`.'' @ [10] else [])
       @ concat (map (task_line s p) (take 10 (briefing_tasks s i)))
       @ concat (map decision_line (briefing_decisions s i))))"

section \<open>What each operation does\<close>

lemma project_Inr [simp]:
  "project s i a = Inr p \<longleftrightarrow> fmlookup (ws_projects s) i = Some p \<and> authorized p a False"
  by (auto simp: project_def split: option.splits if_splits)

lemma next_id_Inr:
  "next_id s = (Inr i, t) \<longleftrightarrow> record_count s < max_records \<and> i = Suc (ws_sequence s)
     \<and> i \<le> u64_max \<and> t = s\<lparr>ws_sequence := i\<rparr>"
  by (auto simp: next_id_def split: option.splits)

lemma next_id_Inl: "next_id s = (Inl e, t) \<Longrightarrow> e = Full \<and> t = s"
  by (auto simp: next_id_def split: option.splits if_splits)

text \<open>An operation that creates a record either fails and changes nothing, or returns the
  id stored under its request key and changes nothing, or takes the next id. The recorded
  project, goal, task or decision is the last argument.\<close>

definition new_project :: "work_access \<Rightarrow> rstr \<Rightarrow> u64 \<Rightarrow> work_project" where
  "new_project a name i = \<lparr>proj_id = i, proj_name = trim name,
     proj_scope = access_scope a, proj_managers = {|acc_actor a|},
     proj_members = {|acc_actor a|}, proj_revision = 0, proj_repositories = {||}\<rparr>"

definition new_goal :: "work_access \<Rightarrow> u64 \<Rightarrow> rstr \<Rightarrow> u64 \<Rightarrow> work_goal" where
  "new_goal a p title i = \<lparr>goal_id = i, goal_project_id = p, goal_title = trim title,
     goal_owner = acc_actor a, goal_complete = False\<rparr>"

definition new_task :: "work_access \<Rightarrow> work_task \<Rightarrow> u64 \<Rightarrow> work_task" where
  "new_task a t i = t\<lparr>task_github := map_option ghr_canonical (task_github t),
     task_id := i, task_owner := acc_actor a, task_revision := 0\<rparr>"

definition new_decision :: "work_access \<Rightarrow> u64 \<Rightarrow> rstr \<Rightarrow> u64 \<Rightarrow> u64 \<Rightarrow> work_decision" where
  "new_decision a p text at i = \<lparr>dec_id = i, dec_project_id = p, dec_author = acc_actor a,
     dec_text = trim text, dec_at = at\<rparr>"

definition takes_id :: "work_store \<Rightarrow> rstr \<Rightarrow> u64 \<Rightarrow> bool" where
  "takes_id s key i \<longleftrightarrow> i = Suc (ws_sequence s) \<and> i \<le> u64_max \<and> record_count s < max_records
     \<and> fmlookup (ws_request_ids s) key = None"

lemma createdE:
  assumes "(case fmlookup (ws_request_ids s) key of Some i \<Rightarrow> (Inr i, s)
      | None \<Rightarrow> op_then (next_id s) (\<lambda>i s. (Inr i, ins i s))) = (r, t)"
  obtains (failed) "r = Inl Full" "t = s"
  | (hit) i where "r = Inr i" "t = s" "fmlookup (ws_request_ids s) key = Some i"
  | (fresh) i where "r = Inr i" "takes_id s key i" "t = ins i (s\<lparr>ws_sequence := i\<rparr>)"
proof (cases "fmlookup (ws_request_ids s) key")
  case None
  then have op: "op_then (next_id s) (\<lambda>i s. (Inr i, ins i s)) = (r, t)"
    using assms by simp
  obtain x u where x: "next_id s = (x, u)" by (cases "next_id s")
  show ?thesis
  proof (cases x)
    case (Inl e)
    with x op [unfolded x] next_id_Inl [of s e u] show ?thesis by (auto intro: failed)
  next
    case (Inr i)
    with x None op [unfolded x] show ?thesis
      by (intro fresh [of i]) (auto simp: next_id_Inr takes_id_def)
  qed
next
  case (Some i)
  then show ?thesis using assms hit by auto
qed

lemma create_projectE:
  assumes "create_project a name request s = (r, t)"
  obtains (failed) e where "r = Inl e" "t = s"
  | (hit) i where "r = Inr i" "t = s" "fmlookup (ws_request_ids s) (project_key a request) = Some i"
  | (fresh) i where "r = Inr i" "takes_id s (project_key a request) i" "valid_text name 100"
      "acc_actor a \<noteq> 0" "acc_channel a \<noteq> 0" "acc_guild a \<noteq> Some 0"
      "acc_guild a = None \<or> acc_can_view a \<and> acc_can_manage a"
      "t = s\<lparr>ws_sequence := i, ws_projects := fmupd i (new_project a name i) (ws_projects s),
         ws_request_ids := fmupd (project_key a request) i (ws_request_ids s)\<rparr>"
  using assms unfolding create_project_def
  by (elim guardE guard_sumE createdE)
    ((rule failed; assumption) | (rule hit; assumption)
      | ((rule fresh, assumption, assumption); simp add: new_project_def new_goal_def new_task_def new_decision_def))+

lemma add_goalE:
  assumes "add_goal p a title request s = (r, t)"
  obtains (failed) e where "r = Inl e" "t = s"
  | (hit) i where "r = Inr i" "t = s" "fmlookup (ws_request_ids s) (goal_key a p request) = Some i"
  | (fresh) i q where "r = Inr i" "takes_id s (goal_key a p request) i" "valid_text title 300"
      "fmlookup (ws_projects s) p = Some q" "authorized q a False"
      "t = s\<lparr>ws_sequence := i, ws_goals := fmupd i (new_goal a p title i) (ws_goals s),
         ws_request_ids := fmupd (goal_key a p request) i (ws_request_ids s)\<rparr>"
  using assms unfolding add_goal_def
  by (elim guardE guard_sumE createdE)
    ((rule failed; assumption) | (rule hit; assumption)
      | ((rule fresh, assumption, assumption); auto simp: new_project_def new_goal_def new_task_def new_decision_def))+

lemma add_taskE:
  assumes "add_task a k request s = (r, t)"
  obtains (failed) e where "r = Inl e" "t = s"
  | (hit) i where "r = Inr i" "t = s"
      "fmlookup (ws_request_ids s) (task_key a (task_project_id k) request) = Some i"
  | (fresh) i q where "r = Inr i" "takes_id s (task_key a (task_project_id k) request) i"
      "valid_text (task_title k) 300" "\<not> task_inadmissible s q k request"
      "fmlookup (ws_projects s) (task_project_id k) = Some q" "authorized q a False"
      "t = s\<lparr>ws_sequence := i, ws_tasks := fmupd i (new_task a k i) (ws_tasks s),
         ws_request_ids := fmupd (task_key a (task_project_id k) request) i (ws_request_ids s)\<rparr>"
  using assms unfolding add_task_def
  by (elim guardE guard_sumE createdE)
    ((rule failed; assumption) | (rule hit; assumption)
      | ((rule fresh, assumption, assumption); auto simp: new_project_def new_goal_def new_task_def new_decision_def))+

lemma record_decisionE:
  assumes "record_decision p a text at request s = (r, t)"
  obtains (failed) e where "r = Inl e" "t = s"
  | (hit) i where "r = Inr i" "t = s" "fmlookup (ws_request_ids s) (decision_key a p request) = Some i"
  | (fresh) i q where "r = Inr i" "takes_id s (decision_key a p request) i" "valid_text text 1000"
      "fmlookup (ws_projects s) p = Some q" "authorized q a False"
      "t = s\<lparr>ws_sequence := i, ws_decisions := fmupd i (new_decision a p text at i) (ws_decisions s),
         ws_request_ids := fmupd (decision_key a p request) i (ws_request_ids s)\<rparr>"
  using assms unfolding record_decision_def
  by (elim guardE guard_sumE createdE)
    ((rule failed; assumption) | (rule hit; assumption)
      | ((rule fresh, assumption, assumption); auto simp: new_project_def new_goal_def new_task_def new_decision_def))+

lemma set_memberE:
  assumes "set_member i a user present s = (r, t)"
  obtains (failed) e where "r = Inl e" "t = s"
  | (changed) q n where "fmlookup (ws_projects s) i = Some q" "authorized q a True"
      "\<forall>m. proj_scope q \<noteq> ScopePersonal m" "user \<noteq> 0" "user |\<notin>| proj_managers q"
      "r = Inl Full \<and> n = proj_revision q \<and> u64_max \<le> n \<or> r = Inr () \<and> n = Suc (proj_revision q) \<and> n \<le> u64_max"
      "t = s\<lparr>ws_projects := fmupd i (q\<lparr>proj_members := if present then finsert user (proj_members q)
         else proj_members q |-| {|user|}, proj_revision := n\<rparr>) (ws_projects s)\<rparr>"
  using assms unfolding set_member_def Let_def
  by (elim guardE guard_optionE)
    ((rule failed; assumption) | (auto split: work_scope.splits option.splits intro!: changed))+

lemma update_taskE:
  assumes "update_task a i revision status snoozed s = (r, t)"
  obtains (failed) e where "r = Inl e" "t = s"
  | (changed) k q where "fmlookup (ws_tasks s) i = Some k" "r = Inr (Suc revision)"
      "task_revision k = revision" "Suc revision \<le> u64_max"
      "fmlookup (ws_projects s) (task_project_id k) = Some q" "authorized q a False"
      "t = s\<lparr>ws_tasks := fmupd i (k\<lparr>task_status := status, task_snoozed_until := snoozed,
           task_revision := Suc revision\<rparr>) (ws_tasks s),
         ws_recall := recall_task_changed (task_project_id k) i (Suc revision) (ws_recall s)\<rparr>"
  using assms unfolding update_task_def
  by (elim guardE guard_optionE guard_sumE)
    ((rule failed; assumption) | (rule changed; auto))+

end
