(* ===== verification/Work_GitHub.thy ===== *)
theory Work_GitHub
  imports Work_Registry
begin

text \<open>
  The store operations of \<open>src/work/github.rs\<close>: the manager-granted allowlist, task links,
  the snapshot cache and the explicit migration of legacy URL sources.
\<close>

section \<open>Operations\<close>

definition active_github_link :: "work_store \<Rightarrow> github_reference \<Rightarrow> bool" where
  "active_github_link s r = fm_any (\<lambda>_ t.
     is_some_and (task_github t) (\<lambda>linked. ghr_same_identity linked r)
     \<and> is_some_and (fmlookup (ws_projects s) (task_project_id t))
         (\<lambda>p. allows_github_repository p (ghr_repository r))) (ws_tasks s)"

definition migration_candidates ::
  "work_store \<Rightarrow> work_project \<Rightarrow> u64 \<Rightarrow> (work_task \<times> github_reference) list" where
  "migration_candidates s p i = List.map_filter (\<lambda>t.
     if task_project_id t = i \<and> task_github t = None
     then (case task_source t of
         None \<Rightarrow> None
       | Some source \<Rightarrow> map_option (Pair t) (parse_legacy_source source (proj_repositories p)))
     else None) (fm_values (ws_tasks s))"

fun apply_migrations :: "(u64 \<times> github_reference) list \<Rightarrow> unit store_op" where
  "apply_migrations [] s = (Inr (), s)"
| "apply_migrations ((i, r) # changes) s =
     (case fmlookup (ws_tasks s) i of
        None \<Rightarrow> (Inl Missing, s)
      | Some t \<Rightarrow> apply_migrations changes (s\<lparr>ws_tasks :=
          fmupd i (t\<lparr>task_github := Some r, task_revision := task_revision t + 1\<rparr>) (ws_tasks s)\<rparr>))"

definition migrate_github_sources :: "u64 \<Rightarrow> work_access \<Rightarrow> nat store_op" where
  "migrate_github_sources i a s =
     (case fmlookup (ws_projects s) i of
        None \<Rightarrow> (Inl Missing, s)
      | Some p \<Rightarrow>
          if \<not> authorized p a True then (Inl Denied, s)
          else let changes = migration_candidates s p i in
            if \<exists>(t, r) \<in> set changes. checked_add (task_revision t) 1 = None then (Inl Full, s)
            else op_then (apply_migrations (map (\<lambda>(t, r). (task_id t, r)) changes) s)
              (\<lambda>_ s. (Inr (length changes), s)))"

definition allow_github_repository ::
  "u64 \<Rightarrow> work_access \<Rightarrow> github_repository \<Rightarrow> bool \<Rightarrow> unit store_op" where
  "allow_github_repository i a repository allowed s =
     (if \<not> gh_valid repository then (Inl Invalid, s)
      else case fmlookup (ws_projects s) i of
        None \<Rightarrow> (Inl Missing, s)
      | Some p \<Rightarrow>
          if \<not> authorized p a True then (Inl Denied, s)
          else case checked_add (proj_revision p) 1 of
              None \<Rightarrow> (Inl Full, s)
            | Some n \<Rightarrow>
                let kept = ffilter (\<lambda>c. \<not> gh_same_identity c (gh_canonical repository))
                      (proj_repositories p);
                    repos = (if allowed then finsert (gh_canonical repository) kept else kept)
                in (Inr (), s\<lparr>ws_projects := fmupd i
                     (p\<lparr>proj_repositories := repos, proj_revision := n\<rparr>) (ws_projects s)\<rparr>))"

definition link_github ::
  "u64 \<Rightarrow> u64 \<Rightarrow> work_access \<Rightarrow> github_reference \<Rightarrow> unit store_op" where
  "link_github i revision a r s =
     (if ghr_validate r \<noteq> Inr () then (Inl Invalid, s)
      else case fmlookup (ws_tasks s) i of
        None \<Rightarrow> (Inl Missing, s)
      | Some t \<Rightarrow>
          (case project s (task_project_id t) a of
             Inl e \<Rightarrow> (Inl e, s)
           | Inr p \<Rightarrow>
               if \<not> allows_github_repository p (ghr_repository r) then (Inl Denied, s)
               else if task_revision t \<noteq> revision then (Inl Stale, s)
               else case checked_add (task_revision t) 1 of
                   None \<Rightarrow> (Inl Full, s)
                 | Some n \<Rightarrow>
                     (Inr (), s\<lparr>ws_tasks := fmupd i (t\<lparr>task_github := Some (ghr_canonical r),
                          task_revision := n\<rparr>) (ws_tasks s),
                        ws_recall := recall_task_changed (task_project_id t) i n (ws_recall s)\<rparr>)))"

definition store_snapshot :: "github_reference \<Rightarrow> github_snapshot \<Rightarrow> work_store \<Rightarrow> work_store" where
  "store_snapshot r snap s = s\<lparr>ws_github_snapshots := fmupd (ghr_key r) snap
     (fm_retain (\<lambda>k _. \<not> eq_ignore_ascii_case k (ghr_key r)) (ws_github_snapshots s))\<rparr>"

definition record_github_snapshot :: "github_reference \<Rightarrow> github_snapshot \<Rightarrow> unit store_op" where
  "record_github_snapshot r snap s =
     (if ghr_validate r \<noteq> Inr () then (Inl Invalid, s)
      else if trim (snap_title snap) = [] \<or> 500 < byte_len (snap_title snap)
          \<or> is_some_and (snap_etag snap) (\<lambda>e. 500 < byte_len e) then (Inl Invalid, s)
      else if \<not> active_github_link s r then (Inl Missing, s)
      else if is_some_and (find_github_snapshot s r)
          (\<lambda>previous. snap_refreshed_at snap < snap_refreshed_at previous) then (Inl Stale, s)
      else if find_github_snapshot s r = None \<and> 10000 \<le> fm_len (ws_github_snapshots s) then (Inl Full, s)
      else (Inr (), store_snapshot r (snap\<lparr>snap_stale := False\<rparr>) s))"

definition confirm_github_not_modified :: "github_reference \<Rightarrow> u64 \<Rightarrow> unit store_op" where
  "confirm_github_not_modified r at s =
     (if ghr_validate r \<noteq> Inr () then (Inl Invalid, s)
      else if \<not> active_github_link s r then (Inl Missing, s)
      else case find_github_snapshot s r of
        None \<Rightarrow> (Inl Missing, s)
      | Some snap \<Rightarrow>
          if snap_etag snap = None \<or> at < snap_refreshed_at snap then (Inl Stale, s)
          else (Inr (), store_snapshot r (snap\<lparr>snap_refreshed_at := at, snap_stale := False\<rparr>) s))"

definition mark_github_stale :: "github_reference \<Rightarrow> work_store \<Rightarrow> work_store" where
  "mark_github_stale r s = s\<lparr>ws_github_snapshots := fmmap_keys
     (\<lambda>k snap. if eq_ignore_ascii_case k (ghr_key r) then snap\<lparr>snap_stale := True\<rparr> else snap)
     (ws_github_snapshots s)\<rparr>"

section \<open>What each operation does\<close>

lemma allow_githubE:
  assumes "allow_github_repository i a repository allowed s = (r, t)"
  obtains (failed) e where "r = Inl e" "t = s"
  | (changed) p repos where "fmlookup (ws_projects s) i = Some p" "authorized p a True"
      "gh_valid repository" "r = Inr ()" "Suc (proj_revision p) \<le> u64_max"
      "repos = (let kept = ffilter (\<lambda>c. \<not> gh_same_identity c (gh_canonical repository)) (proj_repositories p)
         in if allowed then finsert (gh_canonical repository) kept else kept)"
      "t = s\<lparr>ws_projects := fmupd i (p\<lparr>proj_repositories := repos,
         proj_revision := Suc (proj_revision p)\<rparr>) (ws_projects s)\<rparr>"
  using assms unfolding allow_github_repository_def Let_def
  by (elim guardE guard_optionE) ((rule failed; assumption) | (rule changed; auto simp: Let_def))+

lemma link_githubE:
  assumes "link_github i revision a g s = (r, t)"
  obtains (failed) e where "r = Inl e" "t = s"
  | (changed) k q where "fmlookup (ws_tasks s) i = Some k" "r = Inr ()" "task_revision k = revision"
      "Suc revision \<le> u64_max" "ghr_validate g = Inr ()"
      "fmlookup (ws_projects s) (task_project_id k) = Some q" "authorized q a False"
      "allows_github_repository q (ghr_repository g)"
      "t = s\<lparr>ws_tasks := fmupd i (k\<lparr>task_github := Some (ghr_canonical g),
           task_revision := Suc revision\<rparr>) (ws_tasks s),
         ws_recall := recall_task_changed (task_project_id k) i (Suc revision) (ws_recall s)\<rparr>"
  using assms unfolding link_github_def
  by (elim guardE guard_optionE guard_sumE) ((rule failed; assumption) | (rule changed; auto))+

lemma record_github_snapshotE:
  assumes "record_github_snapshot g snap s = (r, t)"
  obtains (failed) e where "r = Inl e" "t = s"
  | (stored) "r = Inr ()" "ghr_validate g = Inr ()" "active_github_link s g"
      "is_none_or (find_github_snapshot s g) (\<lambda>previous. snap_refreshed_at previous \<le> snap_refreshed_at snap)"
      "t = store_snapshot g (snap\<lparr>snap_stale := False\<rparr>) s"
  using assms unfolding record_github_snapshot_def
  by (elim guardE)
    ((rule failed; assumption) | (rule stored; auto simp: is_some_and_iff is_none_or_iff not_less))+

lemma confirm_githubE:
  assumes "confirm_github_not_modified g at s = (r, t)"
  obtains (failed) e where "r = Inl e" "t = s"
  | (stored) snap where "r = Inr ()" "ghr_validate g = Inr ()" "active_github_link s g"
      "find_github_snapshot s g = Some snap" "snap_refreshed_at snap \<le> at"
      "t = store_snapshot g (snap\<lparr>snap_refreshed_at := at, snap_stale := False\<rparr>) s"
  using assms unfolding confirm_github_not_modified_def
  by (elim guardE guard_optionE) ((rule failed; assumption) | (rule stored; auto))+

section \<open>The snapshot cache\<close>

lemma github_snapshot_cong:
  assumes "\<And>k. eq_ignore_ascii_case k (ghr_key g) \<Longrightarrow>
    fmlookup (ws_github_snapshots s) k = fmlookup (ws_github_snapshots t) k"
  shows "find_github_snapshot s g = find_github_snapshot t g"
proof -
  have keys: "filter (\<lambda>k. eq_ignore_ascii_case k (ghr_key g)) (fm_keys (ws_github_snapshots s))
      = filter (\<lambda>k. eq_ignore_ascii_case k (ghr_key g)) (fm_keys (ws_github_snapshots t))"
    by (rule filter_keys_cong) (rule assms)
  have vals: "map (\<lambda>k. the (fmlookup (ws_github_snapshots s) k))
        (filter (\<lambda>k. eq_ignore_ascii_case k (ghr_key g)) (fm_keys (ws_github_snapshots s)))
      = map (\<lambda>k. the (fmlookup (ws_github_snapshots t) k))
        (filter (\<lambda>k. eq_ignore_ascii_case k (ghr_key g)) (fm_keys (ws_github_snapshots s)))"
    by (rule map_cong) (auto simp: assms)
  show ?thesis unfolding find_github_snapshot_def vals unfolding keys ..
qed

lemma eq_ignore_trans:
  "eq_ignore_ascii_case a b \<Longrightarrow> eq_ignore_ascii_case c b \<longleftrightarrow> eq_ignore_ascii_case c a"
  by (auto simp: eq_ignore_ascii_case_def)

lemma stored_snapshot:
  "find_github_snapshot (store_snapshot g snap s) h =
     (if eq_ignore_ascii_case (ghr_key h) (ghr_key g) then Some snap else find_github_snapshot s h)"
proof (cases "eq_ignore_ascii_case (ghr_key h) (ghr_key g)")
  case True
  let ?m = "fmupd (ghr_key g) snap (fm_retain (\<lambda>k _. \<not> eq_ignore_ascii_case k (ghr_key g))
    (ws_github_snapshots s))"
  let ?ks = "filter (\<lambda>k. eq_ignore_ascii_case k (ghr_key h)) (fm_keys ?m)"
  have P: "eq_ignore_ascii_case k (ghr_key h) \<longleftrightarrow> eq_ignore_ascii_case k (ghr_key g)" for k
    using True by (auto simp: eq_ignore_ascii_case_def)
  have "set ?ks = {ghr_key g}"
    by (auto simp: P fmlookup_dom'_iff simp del: fm_keys_eval split: if_splits option.splits)
      (simp_all add: eq_ignore_ascii_case_def)
  moreover have "distinct ?ks" by (simp del: fm_keys_eval)
  ultimately have "?ks = [ghr_key g]" by (intro distinct_set_single)
  with True show ?thesis by (simp add: find_github_snapshot_def store_snapshot_def del: fm_keys_eval)
next
  case False
  then have "find_github_snapshot (store_snapshot g snap s) h = find_github_snapshot s h"
    by (intro github_snapshot_cong)
      (auto simp: store_snapshot_def eq_ignore_ascii_case_def split: option.splits)
  with False show ?thesis by simp
qed

lemma stale_snapshot:
  "find_github_snapshot (mark_github_stale g s) h = (if eq_ignore_ascii_case (ghr_key h) (ghr_key g)
     then map_option (snap_stale_update (\<lambda>_. True)) (find_github_snapshot s h) else find_github_snapshot s h)"
proof (cases "eq_ignore_ascii_case (ghr_key h) (ghr_key g)")
  case True
  let ?f = "snap_stale_update (\<lambda>_. True)"
  let ?ks = "filter (\<lambda>k. eq_ignore_ascii_case k (ghr_key h)) (fm_keys (ws_github_snapshots s))"
  have vals: "map (\<lambda>k. the (fmlookup (ws_github_snapshots (mark_github_stale g s)) k)) ?ks
      = map ?f (map (\<lambda>k. the (fmlookup (ws_github_snapshots s) k)) ?ks)"
    using True by (auto simp: mark_github_stale_def fmlookup_dom'_iff eq_ignore_ascii_case_def)
  have keys: "fm_keys (ws_github_snapshots (mark_github_stale g s)) = fm_keys (ws_github_snapshots s)"
    by (simp add: mark_github_stale_def)
  have "find_github_snapshot (mark_github_stale g s) h = map_option ?f (find_github_snapshot s h)"
    unfolding find_github_snapshot_def keys vals by (rule max_by_key_map) simp
  with True show ?thesis by simp
next
  case False
  then have "find_github_snapshot (mark_github_stale g s) h = find_github_snapshot s h"
    by (intro github_snapshot_cong)
      (auto simp: mark_github_stale_def eq_ignore_ascii_case_def option.map_ident)
  with False show ?thesis by simp
qed

end
