(* ===== verification/Work_Store.thy ===== *)
theory Work_Store
  imports Work_GitHub
begin

text \<open>
  The work store as a machine: every registry and GitHub call, an abstract specification
  of the effect a call may have (\<open>store_effect\<close>), the proof that the operations implement
  it, the well-formedness of reachable stores, and the properties that hold of call
  histories: request deduplication, membership as the only way to change a project,
  revisions that identify contents, and monotone snapshots.
\<close>

section \<open>Calls\<close>

datatype store_call =
    CreateProject work_access rstr rstr
  | SetMember u64 work_access u64 bool
  | AddGoal u64 work_access rstr rstr
  | AddTask work_access work_task rstr
  | UpdateTask work_access u64 u64 work_status "u64 option"
  | RecordDecision u64 work_access rstr u64 rstr
  | MigrateGitHub u64 work_access
  | AllowGitHub u64 work_access github_repository bool
  | LinkGitHub u64 u64 work_access github_reference
  | RecordSnapshot github_reference github_snapshot
  | ConfirmNotModified github_reference u64
  | MarkStale github_reference

fun forget_value :: "(work_error + 'a) \<times> work_store \<Rightarrow> (work_error + u64) \<times> work_store" where
  "forget_value (Inl e, s) = (Inl e, s)"
| "forget_value (Inr _, s) = (Inr 0, s)"

fun store_step :: "store_call \<Rightarrow> u64 store_op" where
  "store_step (CreateProject a name request) s = create_project a name request s"
| "store_step (SetMember i a user present) s = forget_value (set_member i a user present s)"
| "store_step (AddGoal p a title request) s = add_goal p a title request s"
| "store_step (AddTask a t request) s = add_task a t request s"
| "store_step (UpdateTask a i revision status snoozed) s = update_task a i revision status snoozed s"
| "store_step (RecordDecision p a text at request) s = record_decision p a text at request s"
| "store_step (MigrateGitHub i a) s = migrate_github_sources i a s"
| "store_step (AllowGitHub i a repository allowed) s =
     forget_value (allow_github_repository i a repository allowed s)"
| "store_step (LinkGitHub i revision a r) s = forget_value (link_github i revision a r s)"
| "store_step (RecordSnapshot r snap) s = forget_value (record_github_snapshot r snap s)"
| "store_step (ConfirmNotModified r at) s = forget_value (confirm_github_not_modified r at s)"
| "store_step (MarkStale r) s = (Inr 0, mark_github_stale r s)"

text \<open>Who calls, and the identity of a request that creates a record: its kind, its actor,
  the place it is made in and the client's request id.\<close>

fun call_access :: "store_call \<Rightarrow> work_access option" where
  "call_access (CreateProject a _ _) = Some a"
| "call_access (SetMember _ a _ _) = Some a"
| "call_access (AddGoal _ a _ _) = Some a"
| "call_access (AddTask a _ _) = Some a"
| "call_access (UpdateTask a _ _ _ _) = Some a"
| "call_access (RecordDecision _ a _ _ _) = Some a"
| "call_access (MigrateGitHub _ a) = Some a"
| "call_access (AllowGitHub _ a _ _) = Some a"
| "call_access (LinkGitHub _ _ a _) = Some a"
| "call_access _ = None"

datatype request_identity =
    ReqProject u64 u64 u64 rstr
  | ReqGoal u64 u64 rstr
  | ReqTask u64 u64 rstr
  | ReqDecision u64 u64 rstr

fun call_identity :: "store_call \<Rightarrow> request_identity option" where
  "call_identity (CreateProject a _ r) =
     Some (ReqProject (acc_actor a) (case acc_guild a of None \<Rightarrow> 0 | Some g \<Rightarrow> g) (acc_channel a) r)"
| "call_identity (AddGoal p a _ r) = Some (ReqGoal (acc_actor a) p r)"
| "call_identity (AddTask a t r) = Some (ReqTask (acc_actor a) (task_project_id t) r)"
| "call_identity (RecordDecision p a _ _ r) = Some (ReqDecision (acc_actor a) p r)"
| "call_identity _ = None"

fun identity_key :: "request_identity \<Rightarrow> rstr" where
  "identity_key (ReqProject m g c r) = decimal m @ lit '':'' @ decimal g @ lit '':'' @ decimal c
     @ lit '':project:'' @ r"
| "identity_key (ReqGoal m p r) = decimal m @ lit '':'' @ decimal p @ lit '':goal:'' @ r"
| "identity_key (ReqTask m p r) = decimal m @ lit '':'' @ decimal p @ lit '':task:'' @ r"
| "identity_key (ReqDecision m p r) = decimal m @ lit '':'' @ decimal p @ lit '':decision:'' @ r"

lemma identity_keys:
  "identity_key (ReqProject (acc_actor a) (case acc_guild a of None \<Rightarrow> 0 | Some g \<Rightarrow> g) (acc_channel a) r)
     = project_key a r"
  "identity_key (ReqGoal (acc_actor a) p r) = goal_key a p r"
  "identity_key (ReqTask (acc_actor a) p r) = task_key a p r"
  "identity_key (ReqDecision (acc_actor a) p r) = decision_key a p r"
  by (simp_all add: project_key_def goal_key_def task_key_def decision_key_def)

lemma decimal_not_letter [simp]: "57 < c \<Longrightarrow> c # s \<noteq> decimal m @ r"
  by (metis decimal_append_lit(2))

lemma identity_key_inj [simp]: "identity_key x = identity_key y \<longleftrightarrow> x = y"
  by (cases x; cases y) auto

section \<open>Well-formed stores\<close>

definition repository_ok :: "github_repository \<Rightarrow> bool" where
  "repository_ok r \<longleftrightarrow> gh_valid r \<and> gh_canonical r = r"

definition project_ok :: "work_project \<Rightarrow> bool" where
  "project_ok p \<longleftrightarrow> valid_scope (proj_scope p) \<and> proj_managers p \<noteq> {||}
     \<and> proj_managers p |\<subseteq>| proj_members p \<and> 0 |\<notin>| proj_members p
     \<and> (\<forall>owner. proj_scope p = ScopePersonal owner \<longrightarrow> proj_members p = {|owner|})
     \<and> fBall (proj_repositories p) repository_ok"

definition reference_ok :: "github_reference \<Rightarrow> bool" where
  "reference_ok r \<longleftrightarrow> repository_ok (ghr_repository r) \<and> ghr_number r \<noteq> 0"

definition task_ok :: "work_store \<Rightarrow> work_task \<Rightarrow> bool" where
  "task_ok s k \<longleftrightarrow> task_project_id k |\<in>| fmdom (ws_projects s) \<and> task_priority k \<le> 3
     \<and> valid_text (task_title k) 300 \<and> is_none_or (task_github k) reference_ok
     \<and> is_none_or (task_goal_id k) (\<lambda>g. is_some_and (fmlookup (ws_goals s) g)
          (\<lambda>goal. goal_project_id goal = task_project_id k))"

definition ids_in :: "('v \<Rightarrow> u64) \<Rightarrow> u64 \<Rightarrow> (u64, 'v) fmap \<Rightarrow> bool" where
  "ids_in f n m \<longleftrightarrow> fm_all (\<lambda>i v. f v = i \<and> 0 < i \<and> i \<le> n) m"

definition requests_in :: "u64 \<Rightarrow> (rstr, u64) fmap \<Rightarrow> bool" where
  "requests_in n m \<longleftrightarrow> fm_all (\<lambda>_ i. 0 < i \<and> i \<le> n) m"

definition ids_ok :: "work_store \<Rightarrow> bool" where
  "ids_ok s \<longleftrightarrow>
     ids_in proj_id (ws_sequence s) (ws_projects s) \<and> ids_in goal_id (ws_sequence s) (ws_goals s)
     \<and> ids_in task_id (ws_sequence s) (ws_tasks s) \<and> ids_in dec_id (ws_sequence s) (ws_decisions s)
     \<and> requests_in (ws_sequence s) (ws_request_ids s)"

definition disjoint_ids :: "work_store \<Rightarrow> bool" where
  "disjoint_ids s \<longleftrightarrow>
     (\<forall>i. fmlookup (ws_projects s) i \<noteq> None \<longrightarrow> fmlookup (ws_goals s) i = None
        \<and> fmlookup (ws_tasks s) i = None \<and> fmlookup (ws_decisions s) i = None)
     \<and> (\<forall>i. fmlookup (ws_goals s) i \<noteq> None \<longrightarrow>
          fmlookup (ws_tasks s) i = None \<and> fmlookup (ws_decisions s) i = None)
     \<and> (\<forall>i. fmlookup (ws_tasks s) i \<noteq> None \<longrightarrow> fmlookup (ws_decisions s) i = None)"

definition requests_ok :: "work_store \<Rightarrow> bool" where
  "requests_ok s \<longleftrightarrow> (\<forall>k l i. fmlookup (ws_request_ids s) k = Some i
     \<longrightarrow> fmlookup (ws_request_ids s) l = Some i \<longrightarrow> k = l)"

definition records_ok :: "work_store \<Rightarrow> bool" where
  "records_ok s \<longleftrightarrow>
     fm_all (\<lambda>_ p. project_ok p) (ws_projects s)
     \<and> fm_all (\<lambda>_ g. goal_project_id g |\<in>| fmdom (ws_projects s)) (ws_goals s)
     \<and> fm_all (\<lambda>_ k. task_ok s k) (ws_tasks s)
     \<and> fm_all (\<lambda>_ d. dec_project_id d |\<in>| fmdom (ws_projects s)) (ws_decisions s)"

definition store_ok :: "work_store \<Rightarrow> bool" where
  "store_ok s \<longleftrightarrow> ids_ok s \<and> disjoint_ids s \<and> requests_ok s \<and> records_ok s
     \<and> record_count s \<le> max_records \<and> ws_sequence s \<le> u64_max"

section \<open>The abstract specification of a call\<close>

text \<open>How one call may change a project record, and how it may change a task.\<close>

definition project_change :: "work_project \<Rightarrow> work_project \<Rightarrow> bool" where
  "project_change p q \<longleftrightarrow> proj_id q = proj_id p \<and> proj_name q = proj_name p
     \<and> proj_scope q = proj_scope p \<and> proj_managers q = proj_managers p
     \<and> (proj_revision q = Suc (proj_revision p)
        \<or> u64_max \<le> proj_revision p \<and> proj_revision q = proj_revision p)
     \<and> (project_ok p \<longrightarrow> project_ok q)"

definition task_change :: "work_store \<Rightarrow> work_access \<Rightarrow> work_task \<Rightarrow> work_task \<Rightarrow> bool" where
  "task_change s a k k' \<longleftrightarrow>
     task_revision k' = Suc (task_revision k) \<and> task_id k' = task_id k
     \<and> task_project_id k' = task_project_id k \<and> task_goal_id k' = task_goal_id k
     \<and> task_priority k' = task_priority k \<and> task_title k' = task_title k
     \<and> task_owner k' = task_owner k
     \<and> (task_github k' = task_github k \<or> is_some_and (task_github k') reference_ok)
     \<and> is_some_and (fmlookup (ws_projects s) (task_project_id k)) (\<lambda>p. authorized p a False)"

definition tasks_change :: "work_store \<Rightarrow> work_access \<Rightarrow> (u64, work_task) fmap \<Rightarrow> bool" where
  "tasks_change s a m \<longleftrightarrow> (\<forall>i. case fmlookup (ws_tasks s) i of
       None \<Rightarrow> fmlookup m i = None
     | Some k \<Rightarrow> is_some_and (fmlookup m i) (\<lambda>k'. k' = k \<or> task_change s a k k'))"

definition snapshots_advance :: "work_store \<Rightarrow> work_store \<Rightarrow> bool" where
  "snapshots_advance s t \<longleftrightarrow> (\<forall>g. is_none_or (find_github_snapshot s g) (\<lambda>a.
     is_some_and (find_github_snapshot t g) (\<lambda>b. snap_refreshed_at a \<le> snap_refreshed_at b)))"

inductive store_effect ::
  "store_call \<Rightarrow> (work_error + u64) \<Rightarrow> work_store \<Rightarrow> work_store \<Rightarrow> bool" where
  eff_none: "(\<exists>e. r = Inl e) \<or> call_identity c = None \<Longrightarrow> store_effect c r s s"
| eff_hit: "call_identity c = Some k \<Longrightarrow> fmlookup (ws_request_ids s) (identity_key k) = Some i
    \<Longrightarrow> store_effect c (Inr i) s s"
| eff_project: "call_identity c = Some k \<Longrightarrow> takes_id s (identity_key k) i
    \<Longrightarrow> project_ok (new_project a name i)
    \<Longrightarrow> store_effect c (Inr i) s (s\<lparr>ws_sequence := i,
          ws_projects := fmupd i (new_project a name i) (ws_projects s),
          ws_request_ids := fmupd (identity_key k) i (ws_request_ids s)\<rparr>)"
| eff_goal: "call_identity c = Some k \<Longrightarrow> takes_id s (identity_key k) i \<Longrightarrow> call_access c = Some a
    \<Longrightarrow> fmlookup (ws_projects s) p = Some q \<Longrightarrow> authorized q a False
    \<Longrightarrow> store_effect c (Inr i) s (s\<lparr>ws_sequence := i,
          ws_goals := fmupd i (new_goal a p title i) (ws_goals s),
          ws_request_ids := fmupd (identity_key k) i (ws_request_ids s)\<rparr>)"
| eff_task: "call_identity c = Some k \<Longrightarrow> takes_id s (identity_key k) i \<Longrightarrow> call_access c = Some a
    \<Longrightarrow> fmlookup (ws_projects s) (task_project_id t) = Some q \<Longrightarrow> authorized q a False
    \<Longrightarrow> valid_text (task_title t) 300 \<Longrightarrow> \<not> task_inadmissible s q t request
    \<Longrightarrow> store_effect c (Inr i) s (s\<lparr>ws_sequence := i,
          ws_tasks := fmupd i (new_task a t i) (ws_tasks s),
          ws_request_ids := fmupd (identity_key k) i (ws_request_ids s)\<rparr>)"
| eff_decision: "call_identity c = Some k \<Longrightarrow> takes_id s (identity_key k) i \<Longrightarrow> call_access c = Some a
    \<Longrightarrow> fmlookup (ws_projects s) p = Some q \<Longrightarrow> authorized q a False
    \<Longrightarrow> store_effect c (Inr i) s (s\<lparr>ws_sequence := i,
          ws_decisions := fmupd i (new_decision a p text at i) (ws_decisions s),
          ws_request_ids := fmupd (identity_key k) i (ws_request_ids s)\<rparr>)"
| eff_change: "call_identity c = None \<Longrightarrow> call_access c = Some a
    \<Longrightarrow> fmlookup (ws_projects s) i = Some p \<Longrightarrow> authorized p a True \<Longrightarrow> project_change p q
    \<Longrightarrow> store_effect c r s (s\<lparr>ws_projects := fmupd i q (ws_projects s)\<rparr>)"
| eff_tasks: "call_identity c = None \<Longrightarrow> call_access c = Some a \<Longrightarrow> tasks_change s a m
    \<Longrightarrow> store_effect c r s (s\<lparr>ws_tasks := m, ws_recall := recall\<rparr>)"
| eff_snapshots: "call_identity c = None
    \<Longrightarrow> snapshots_advance s (s\<lparr>ws_github_snapshots := snaps\<rparr>) \<Longrightarrow> store_effect c r s (s\<lparr>ws_github_snapshots := snaps\<rparr>)"

section \<open>The operations implement the specification\<close>

lemma authorized_manager: "authorized p a True \<Longrightarrow> authorized p a False"
  by (simp add: authorized_def Let_def)

lemma authorized_actor: "authorized p a m \<Longrightarrow> acc_actor a |\<in>| proj_members p \<and> acc_actor a \<noteq> 0"
  by (simp add: authorized_def Let_def)

lemma store_okD:
  assumes "store_ok s"
  shows "fmlookup (ws_projects s) i = Some p \<Longrightarrow> project_ok p"
    and "fmlookup (ws_tasks s) i = Some k \<Longrightarrow> task_id k = i"
    and "fmlookup (ws_tasks s) i = Some k \<Longrightarrow> task_ok s k"
  using assms by (auto simp: store_ok_def ids_ok_def ids_in_def records_ok_def dest: fm_allD)

lemma new_project_ok:
  "acc_actor a \<noteq> 0 \<Longrightarrow> acc_channel a \<noteq> 0 \<Longrightarrow> acc_guild a \<noteq> Some 0 \<Longrightarrow> project_ok (new_project a name i)"
  by (auto simp: project_ok_def new_project_def access_scope_def split: option.splits)

lemma set_member_effect:
  assumes "set_member i a user present s = (r, t)"
  shows "store_effect (SetMember i a user present) (case r of Inl e \<Rightarrow> Inl e | Inr _ \<Rightarrow> Inr 0) s t"
  using assms
proof (cases rule: set_memberE)
  case (failed e)
  then show ?thesis by (simp add: eff_none)
next
  case (changed q n)
  show ?thesis unfolding changed(7)
  proof (rule eff_change)
    show "project_change q (q\<lparr>proj_members := if present then finsert user (proj_members q)
       else proj_members q |-| {|user|}, proj_revision := n\<rparr>)"
      using changed(3-6) by (auto simp: project_change_def project_ok_def)
  qed (use changed in auto)
qed

lemma allow_github_effect:
  assumes "allow_github_repository i a repository allowed s = (r, t)"
  shows "store_effect (AllowGitHub i a repository allowed)
    (case r of Inl e \<Rightarrow> Inl e | Inr _ \<Rightarrow> Inr 0) s t"
  using assms
proof (cases rule: allow_githubE)
  case (failed e)
  then show ?thesis by (simp add: eff_none)
next
  case (changed p repos)
  show ?thesis unfolding changed(7)
  proof (rule eff_change)
    show "project_change p (p\<lparr>proj_repositories := repos, proj_revision := Suc (proj_revision p)\<rparr>)"
      using changed by (auto simp: project_change_def project_ok_def repository_ok_def
          gh_valid_canonical Let_def)
  qed (use changed in auto)
qed

lemma tasks_change_upd:
  assumes "fmlookup (ws_tasks s) i = Some k" and "task_change s a k k'"
  shows "tasks_change s a (fmupd i k' (ws_tasks s))"
  using assms by (auto simp: tasks_change_def split: option.splits)

lemma update_task_effect:
  assumes "update_task a i revision status snoozed s = (r, t)"
  shows "store_effect (UpdateTask a i revision status snoozed) r s t"
  using assms
proof (cases rule: update_taskE)
  case (failed e)
  then show ?thesis by (simp add: eff_none)
next
  case (changed k q)
  show ?thesis unfolding changed(7)
    by (rule eff_tasks) (use changed in \<open>auto intro!: tasks_change_upd simp: task_change_def\<close>)
qed

lemma link_github_effect:
  assumes "link_github i revision a g s = (r, t)"
  shows "store_effect (LinkGitHub i revision a g) (case r of Inl e \<Rightarrow> Inl e | Inr _ \<Rightarrow> Inr 0) s t"
  using assms
proof (cases rule: link_githubE)
  case (failed e)
  then show ?thesis by (simp add: eff_none)
next
  case (changed k q)
  show ?thesis unfolding changed(9)
    by (rule eff_tasks)
      (use changed in \<open>auto intro!: tasks_change_upd
        simp: task_change_def reference_ok_def repository_ok_def gh_valid_canonical\<close>)
qed

lemma apply_migrations_tasks:
  assumes "distinct (map fst cs)" and "apply_migrations cs s = (r, t)"
  shows "\<exists>m. t = s\<lparr>ws_tasks := m\<rparr> \<and> (\<forall>i. i \<notin> fst ` set cs \<longrightarrow> fmlookup m i = fmlookup (ws_tasks s) i)
    \<and> (\<forall>i g. (i, g) \<in> set cs \<longrightarrow> fmlookup m i = fmlookup (ws_tasks s) i
        \<or> (\<exists>k. fmlookup (ws_tasks s) i = Some k
            \<and> fmlookup m i = Some (k\<lparr>task_github := Some g, task_revision := task_revision k + 1\<rparr>)))"
  using assms
proof (induction cs s arbitrary: r t rule: apply_migrations.induct)
  case (1 s)
  then show ?case by (intro exI [of _ "ws_tasks s"]) simp
next
  case (2 i g changes s)
  show ?case
  proof (cases "fmlookup (ws_tasks s) i")
    case None
    with 2 show ?thesis by (intro exI [of _ "ws_tasks s"]) auto
  next
    case (Some k)
    let ?s = "s\<lparr>ws_tasks := fmupd i (k\<lparr>task_github := Some g, task_revision := task_revision k + 1\<rparr>)
      (ws_tasks s)\<rparr>"
    from 2(2,3) Some have d: "i \<notin> fst ` set changes" "distinct (map fst changes)"
      "apply_migrations changes ?s = (r, t)" by auto
    from "2.IH" [OF Some d(2,3)] obtain m where m: "t = ?s\<lparr>ws_tasks := m\<rparr>"
      "\<forall>j. j \<notin> fst ` set changes \<longrightarrow> fmlookup m j = fmlookup (ws_tasks ?s) j"
      "\<forall>j g. (j, g) \<in> set changes \<longrightarrow> fmlookup m j = fmlookup (ws_tasks ?s) j
        \<or> (\<exists>k. fmlookup (ws_tasks ?s) j = Some k
            \<and> fmlookup m j = Some (k\<lparr>task_github := Some g, task_revision := task_revision k + 1\<rparr>))"
      by blast
    have ne: "(j, g') \<in> set changes \<Longrightarrow> j \<noteq> i" for j g'
      using d(1) by force
    show ?thesis
    proof (intro exI [of _ m] conjI)
      show "t = s\<lparr>ws_tasks := m\<rparr>" using m(1) by simp
      show "\<forall>j. j \<notin> fst ` set ((i, g) # changes) \<longrightarrow> fmlookup m j = fmlookup (ws_tasks s) j"
        using m(2) by simp
      have at_i: "fmlookup m i = Some (k\<lparr>task_github := Some g, task_revision := task_revision k + 1\<rparr>)"
        using m(2) d(1) by simp
      show "\<forall>j g'. (j, g') \<in> set ((i, g) # changes) \<longrightarrow> fmlookup m j = fmlookup (ws_tasks s) j
        \<or> (\<exists>k. fmlookup (ws_tasks s) j = Some k
            \<and> fmlookup m j = Some (k\<lparr>task_github := Some g', task_revision := task_revision k + 1\<rparr>))"
      proof (intro allI impI)
        fix j g'
        assume "(j, g') \<in> set ((i, g) # changes)"
        then consider "j = i" "g' = g" | "(j, g') \<in> set changes" by auto
        then show "fmlookup m j = fmlookup (ws_tasks s) j
          \<or> (\<exists>k. fmlookup (ws_tasks s) j = Some k
            \<and> fmlookup m j = Some (k\<lparr>task_github := Some g', task_revision := task_revision k + 1\<rparr>))"
        proof cases
          case 1
          with at_i Some show ?thesis by simp
        next
          case 2
          from m(3) [rule_format, OF 2] ne [OF 2] show ?thesis by simp
        qed
      qed
    qed
  qed
qed

lemma migration_candidate:
  assumes "(k, g) \<in> set (migration_candidates s p i)"
  shows "\<exists>j source. fmlookup (ws_tasks s) j = Some k \<and> task_project_id k = i \<and> task_github k = None
    \<and> task_source k = Some source \<and> parse_legacy_source source (proj_repositories p) = Some g"
proof -
  obtain k' where "k' \<in> set (fm_values (ws_tasks s))"
    and k': "(if task_project_id k' = i \<and> task_github k' = None
     then (case task_source k' of None \<Rightarrow> None
       | Some source \<Rightarrow> map_option (Pair k') (parse_legacy_source source (proj_repositories p)))
     else None) = Some (k, g)"
    using assms unfolding migration_candidates_def by (auto simp: List.map_filter_def)
  then obtain j where "fmlookup (ws_tasks s) j = Some k'" unfolding mem_fm_values by blast
  with k' show ?thesis by (auto split: if_splits option.splits)
qed

lemma distinct_fm_values:
  assumes "\<forall>i v. fmlookup m i = Some v \<longrightarrow> f v = i"
  shows "distinct (map f (fm_values m))"
proof -
  have "map f (fm_values m) = fm_keys m"
    unfolding fm_values_def map_map
  proof (rule map_idI)
    fix k assume "k \<in> set (fm_keys m)"
    then obtain v where "fmlookup m k = Some v" by (auto simp: fmlookup_dom'_iff)
    with assms show "(f \<circ> (\<lambda>k. the (fmlookup m k))) k = k" by simp
  qed
  then show ?thesis by simp
qed

lemma map_filter_distinct:
  assumes "distinct (map f xs)" and "\<And>x y. g x = Some y \<Longrightarrow> h y = f x"
  shows "distinct (map h (List.map_filter g xs))"
proof -
  have sub: "set (map h (List.map_filter g ys)) \<subseteq> set (map f ys)" for ys
    using assms(2) by (induction ys) (auto simp: List.map_filter_simps split: option.splits)
  show ?thesis
    using assms(1)
  proof (induction xs)
    case Nil
    then show ?case by (simp add: List.map_filter_simps)
  next
    case (Cons x xs)
    with sub [of xs] assms(2) [of x] show ?case
      by (auto simp: List.map_filter_simps split: option.splits) fastforce?
  qed
qed

lemma distinct_candidates:
  assumes "\<forall>i k. fmlookup (ws_tasks s) i = Some k \<longrightarrow> task_id k = i"
  shows "distinct (map (\<lambda>(k, g). task_id k) (migration_candidates s p i))"
  unfolding migration_candidates_def
  by (rule map_filter_distinct [OF distinct_fm_values [OF assms]]) (auto split: if_splits option.splits)

lemma op_then_state: "op_then m (\<lambda>_ s. (Inr n, s)) = (r, t) \<Longrightarrow> \<exists>x. m = (x, t)"
  by (cases m; cases "fst m") auto

lemma migrated_task:
  assumes ok: "store_ok s" and p: "fmlookup (ws_projects s) i = Some p" "authorized p a True"
    and g: "(j, g) \<in> set (map (\<lambda>(k, g). (task_id k, g)) (migration_candidates s p i))"
    and k: "fmlookup (ws_tasks s) j = Some k"
  shows "task_change s a k (k\<lparr>task_github := Some g, task_revision := task_revision k + 1\<rparr>)"
proof -
  obtain k0 where k0: "(k0, g) \<in> set (migration_candidates s p i)" "j = task_id k0" using g by auto
  obtain j0 source where c: "fmlookup (ws_tasks s) j0 = Some k0" "task_project_id k0 = i"
      "parse_legacy_source source (proj_repositories p) = Some g"
    using migration_candidate [OF k0(1)] by blast
  have "j0 = j" using store_okD(2) [OF ok c(1)] k0(2) by simp
  then have "k0 = k" using c(1) k by simp
  have "project_ok p" by (rule store_okD(1) [OF ok p(1)])
  then have "\<forall>x |\<in>| proj_repositories p. gh_valid x" by (auto simp: project_ok_def repository_ok_def)
  from parsed_reference [OF c(3) this] have "reference_ok g"
    by (simp add: reference_ok_def repository_ok_def)
  then show ?thesis
    using p c(2) \<open>k0 = k\<close> by (simp add: task_change_def authorized_manager)
qed

lemma migrate_github_effect:
  assumes ok: "store_ok s" and op: "migrate_github_sources i a s = (r, t)"
  shows "store_effect (MigrateGitHub i a) r s t"
proof -
  let ?cs = "\<lambda>p. map (\<lambda>(k, g). (task_id k, g)) (migration_candidates s p i)"
  consider (failed) e where "r = Inl e" "t = s"
    | (run) p x where "fmlookup (ws_projects s) i = Some p" "authorized p a True"
      "apply_migrations (?cs p) s = (x, t)"
    using op unfolding migrate_github_sources_def Let_def
    by (elim guardE guard_optionE) (auto dest: op_then_state)
  then show ?thesis
  proof cases
    case failed
    then show ?thesis by (simp add: eff_none)
  next
    case run
    have "distinct (map fst (?cs p))"
      using distinct_candidates [of s p i] store_okD(2) [OF ok] by (simp add: comp_def split_def)
    from apply_migrations_tasks [OF this run(3)] obtain m where m: "t = s\<lparr>ws_tasks := m\<rparr>"
      "\<forall>j. j \<notin> fst ` set (?cs p) \<longrightarrow> fmlookup m j = fmlookup (ws_tasks s) j"
      "\<forall>j g. (j, g) \<in> set (?cs p) \<longrightarrow> fmlookup m j = fmlookup (ws_tasks s) j
        \<or> (\<exists>k. fmlookup (ws_tasks s) j = Some k
            \<and> fmlookup m j = Some (k\<lparr>task_github := Some g, task_revision := task_revision k + 1\<rparr>))"
      by blast
    have "tasks_change s a m"
      unfolding tasks_change_def
    proof
      fix j
      consider "fmlookup m j = fmlookup (ws_tasks s) j"
        | g k where "(j, g) \<in> set (?cs p)" "fmlookup (ws_tasks s) j = Some k"
          "fmlookup m j = Some (k\<lparr>task_github := Some g, task_revision := task_revision k + 1\<rparr>)"
      proof (cases "j \<in> fst ` set (?cs p)")
        case True
        then obtain x where "x \<in> set (?cs p)" "fst x = j" by (elim imageE) simp
        then have mem: "(j, snd x) \<in> set (?cs p)" by (metis prod.collapse)
        with m(3) that show ?thesis by blast
      next
        case False
        with m(2) that show ?thesis by blast
      qed
      then show "case fmlookup (ws_tasks s) j of None \<Rightarrow> fmlookup m j = None
         | Some k \<Rightarrow> is_some_and (fmlookup m j) (\<lambda>k'. k' = k \<or> task_change s a k k')"
      proof cases
        case 1
        then show ?thesis by (simp split: option.splits)
      next
        case 2
        with migrated_task [OF ok run(1,2) 2(1,2)] show ?thesis by simp
      qed
    qed
    then have "store_effect (MigrateGitHub i a) r s (s\<lparr>ws_tasks := m, ws_recall := ws_recall s\<rparr>)"
      by (intro eff_tasks) simp_all
    then show ?thesis using m(1) by simp
  qed
qed

lemma stored_advance:
  assumes "is_none_or (find_github_snapshot s g) (\<lambda>old. snap_refreshed_at old \<le> snap_refreshed_at snap)"
  shows "snapshots_advance s (store_snapshot g snap s)"
  unfolding snapshots_advance_def
proof
  fix h
  have "eq_ignore_ascii_case (ghr_key h) (ghr_key g) \<Longrightarrow> find_github_snapshot s h = find_github_snapshot s g"
    by (simp add: find_github_snapshot_def eq_ignore_ascii_case_def)
  with assms show "is_none_or (find_github_snapshot s h) (\<lambda>a. is_some_and
      (find_github_snapshot (store_snapshot g snap s) h) (\<lambda>b. snap_refreshed_at a \<le> snap_refreshed_at b))"
    by (auto simp: stored_snapshot is_none_or_iff is_some_and_iff)
qed

lemma stale_advance: "snapshots_advance s (mark_github_stale g s)"
  unfolding snapshots_advance_def
proof
  fix h
  show "is_none_or (find_github_snapshot s h) (\<lambda>a. is_some_and
      (find_github_snapshot (mark_github_stale g s) h) (\<lambda>b. snap_refreshed_at a \<le> snap_refreshed_at b))"
    by (cases "find_github_snapshot s h") (auto simp: stale_snapshot)
qed

lemma advance_effect:
  assumes "call_identity c = None" and "snapshots_advance s t"
    and "t = s\<lparr>ws_github_snapshots := ws_github_snapshots t\<rparr>"
  shows "store_effect c r s t"
proof -
  have "store_effect c r s (s\<lparr>ws_github_snapshots := ws_github_snapshots t\<rparr>)"
    using assms by (intro eff_snapshots) simp_all
  then show ?thesis using assms(3) by simp
qed

lemma mark_stale_effect: "store_effect (MarkStale g) r s (mark_github_stale g s)"
  by (rule advance_effect) (simp_all add: stale_advance, simp add: mark_github_stale_def)

lemma record_snapshot_effect:
  assumes "record_github_snapshot g snap s = (r, t)"
  shows "store_effect (RecordSnapshot g snap) (case r of Inl e \<Rightarrow> Inl e | Inr _ \<Rightarrow> Inr 0) s t"
  using assms
proof (cases rule: record_github_snapshotE)
  case stored
  then show ?thesis
    by (intro advance_effect) (simp_all add: stored_advance, simp add: store_snapshot_def)
qed (simp add: eff_none)

lemma confirm_effect:
  assumes "confirm_github_not_modified g at s = (r, t)"
  shows "store_effect (ConfirmNotModified g at) (case r of Inl e \<Rightarrow> Inl e | Inr _ \<Rightarrow> Inr 0) s t"
  using assms
proof (cases rule: confirm_githubE)
  case (stored snap)
  then show ?thesis
    by (intro advance_effect) (simp_all add: stored_advance, simp add: store_snapshot_def)
qed (simp add: eff_none)

lemma create_project_effect:
  assumes "create_project a name request s = (r, t)"
  shows "store_effect (CreateProject a name request) r s t"
  using assms
proof (cases rule: create_projectE)
  case (failed e)
  then show ?thesis by (simp add: eff_none)
next
  case (hit i)
  show ?thesis unfolding hit(1,2)
    by (rule eff_hit, rule call_identity.simps) (simp only: identity_keys hit(3))
next
  case (fresh i)
  show ?thesis unfolding fresh(1,8)
    by (rule eff_project [where k = "ReqProject (acc_actor a)
        (case acc_guild a of None \<Rightarrow> 0 | Some g \<Rightarrow> g) (acc_channel a) request", unfolded identity_keys])
      (use fresh in \<open>simp_all add: new_project_ok\<close>)
qed

lemma add_goal_effect:
  assumes "add_goal p a title request s = (r, t)"
  shows "store_effect (AddGoal p a title request) r s t"
  using assms
proof (cases rule: add_goalE)
  case (failed e)
  then show ?thesis by (simp add: eff_none)
next
  case (hit i)
  show ?thesis unfolding hit(1,2)
    by (rule eff_hit, rule call_identity.simps) (simp only: identity_keys hit(3))
next
  case (fresh i q)
  show ?thesis unfolding fresh(1,6)
    by (rule eff_goal [where k = "ReqGoal (acc_actor a) p request", unfolded identity_keys])
      (use fresh in simp_all)
qed

lemma add_task_effect:
  assumes "add_task a k request s = (r, t)"
  shows "store_effect (AddTask a k request) r s t"
  using assms
proof (cases rule: add_taskE)
  case (failed e)
  then show ?thesis by (simp add: eff_none)
next
  case (hit i)
  show ?thesis unfolding hit(1,2)
    by (rule eff_hit, rule call_identity.simps) (simp only: identity_keys hit(3))
next
  case (fresh i q)
  show ?thesis unfolding fresh(1,7)
    by (rule eff_task [where k = "ReqTask (acc_actor a) (task_project_id k) request", unfolded identity_keys])
      (use fresh in simp_all)
qed

lemma record_decision_effect:
  assumes "record_decision p a text at request s = (r, t)"
  shows "store_effect (RecordDecision p a text at request) r s t"
  using assms
proof (cases rule: record_decisionE)
  case (failed e)
  then show ?thesis by (simp add: eff_none)
next
  case (hit i)
  show ?thesis unfolding hit(1,2)
    by (rule eff_hit, rule call_identity.simps) (simp only: identity_keys hit(3))
next
  case (fresh i q)
  show ?thesis unfolding fresh(1,6)
    by (rule eff_decision [where k = "ReqDecision (acc_actor a) p request", unfolded identity_keys])
      (use fresh in simp_all)
qed

lemma forget_valueE:
  assumes "forget_value (f s) = (r, t)"
  obtains x where "f s = (x, t)" "r = (case x of Inl e \<Rightarrow> Inl e | Inr _ \<Rightarrow> Inr 0)"
  using assms by (cases "f s" rule: forget_value.cases) auto

text \<open>Every call has only effects the specification allows.\<close>

lemma store_step_effect:
  assumes "store_ok s" and "store_step c s = (r, t)"
  shows "store_effect c r s t"
proof (cases c)
  case (MarkStale g)
  with assms(2) show ?thesis by (auto intro: mark_stale_effect)
qed (use assms in \<open>auto elim!: forget_valueE dest: create_project_effect add_goal_effect
  add_task_effect record_decision_effect update_task_effect set_member_effect allow_github_effect
  link_github_effect migrate_github_effect record_snapshot_effect confirm_effect\<close>)

section \<open>Reachable stores are well-formed\<close>

lemma ids_in_fresh: "ids_in f n m \<Longrightarrow> fmlookup m (Suc n) = None"
  by (cases "fmlookup m (Suc n)") (auto simp: ids_in_def dest: fm_allD)

lemma fresh_id:
  assumes "store_ok s" and "takes_id s k i"
  shows "fmlookup (ws_projects s) i = None" "fmlookup (ws_goals s) i = None"
    "fmlookup (ws_tasks s) i = None" "fmlookup (ws_decisions s) i = None"
    "fmlookup (ws_request_ids s) l \<noteq> Some i"
    "0 < i" "ws_sequence s \<le> i" "i \<le> u64_max"
  using assms
  by (auto simp: store_ok_def ids_ok_def takes_id_def requests_in_def intro: ids_in_fresh dest: fm_allD)

lemma task_ok_mono:
  assumes "task_ok s k" and "fmdom (ws_projects s) |\<subseteq>| fmdom (ws_projects t)"
    and "\<And>g v. fmlookup (ws_goals s) g = Some v \<Longrightarrow> fmlookup (ws_goals t) g = Some v"
  shows "task_ok t k"
  using assms by (auto simp: task_ok_def is_none_or_iff is_some_and_iff)

lemma records_ok_grow:
  assumes "records_ok s" and "fmdom (ws_projects s) |\<subseteq>| fmdom (ws_projects t)"
    and "\<And>g v. fmlookup (ws_goals s) g = Some v \<Longrightarrow> fmlookup (ws_goals t) g = Some v"
  shows "fm_all (\<lambda>_ g. goal_project_id g |\<in>| fmdom (ws_projects t)) (ws_goals s)"
    and "fm_all (\<lambda>_ k. task_ok t k) (ws_tasks s)"
    and "fm_all (\<lambda>_ d. dec_project_id d |\<in>| fmdom (ws_projects t)) (ws_decisions s)"
  using assms unfolding records_ok_def
  by (auto elim!: fm_all_mono intro: task_ok_mono)

lemma new_task_ok:
  assumes "fmlookup (ws_projects s) (task_project_id k) = Some q" and "valid_text (task_title k) 300"
    and "\<not> task_inadmissible s q k request"
  shows "task_ok s (new_task a k i)"
  using assms
  by (auto simp: task_ok_def new_task_def task_inadmissible_def is_some_and_iff is_none_or_iff
      reference_ok_def repository_ok_def gh_valid_canonical fmlookup_dom_iff)

lemma ids_in_mono: "ids_in f n m \<Longrightarrow> n \<le> n' \<Longrightarrow> ids_in f n' m"
  unfolding ids_in_def by (erule fm_all_mono) simp

lemma ids_in_create: "ids_in f n m \<Longrightarrow> n \<le> i \<Longrightarrow> 0 < i \<Longrightarrow> f v = i \<Longrightarrow> ids_in f i (fmupd i v m)"
  using ids_in_mono [of f n m i] unfolding ids_in_def by (intro fm_all_updI) simp_all

lemma requests_in_create: "requests_in n m \<Longrightarrow> n \<le> i \<Longrightarrow> 0 < i \<Longrightarrow> requests_in i (fmupd key i m)"
  unfolding requests_in_def by (rule fm_all_updI, erule fm_all_mono) simp_all

lemma created_sel [simp]:
  "proj_id (new_project a name i) = i" "goal_id (new_goal a p title i) = i"
  "task_id (new_task a k i) = i" "dec_id (new_decision a p text at i) = i"
  "goal_project_id (new_goal a p title i) = p"
  "task_project_id (new_task a k i) = task_project_id k"
  "dec_project_id (new_decision a p text at i) = p"
  by (simp_all add: new_project_def new_goal_def new_task_def new_decision_def)

lemma requests_ok_create:
  assumes "requests_ok s" and "\<And>l. fmlookup (ws_request_ids s) l \<noteq> Some i"
    and "ws_request_ids t = fmupd key i (ws_request_ids s)"
  shows "requests_ok t"
  using assms by (auto simp: requests_ok_def)

lemma tasks_changeD:
  assumes "tasks_change s a m"
  shows "fmlookup m i = Some k' \<Longrightarrow>
      \<exists>k. fmlookup (ws_tasks s) i = Some k \<and> (k' = k \<or> task_change s a k k')"
    and "fmlookup (ws_tasks s) i = Some k \<Longrightarrow>
      \<exists>k'. fmlookup m i = Some k' \<and> (k' = k \<or> task_change s a k k')"
    and "fmlookup m i = None \<longleftrightarrow> fmlookup (ws_tasks s) i = None"
proof -
  have *: "case fmlookup (ws_tasks s) i of None \<Rightarrow> fmlookup m i = None
     | Some k \<Rightarrow> is_some_and (fmlookup m i) (\<lambda>k'. k' = k \<or> task_change s a k k')"
    using assms by (simp add: tasks_change_def)
  then show "fmlookup m i = Some k' \<Longrightarrow>
      \<exists>k. fmlookup (ws_tasks s) i = Some k \<and> (k' = k \<or> task_change s a k k')"
    by (auto split: option.splits)
  from * show "fmlookup (ws_tasks s) i = Some k \<Longrightarrow>
      \<exists>k'. fmlookup m i = Some k' \<and> (k' = k \<or> task_change s a k k')"
    by (auto simp: is_some_and_iff)
  from * show "fmlookup m i = None \<longleftrightarrow> fmlookup (ws_tasks s) i = None"
    by (auto simp: is_some_and_iff split: option.splits)
qed

lemma fm_len_cong: "(\<And>i. fmlookup m i = None \<longleftrightarrow> fmlookup n i = None) \<Longrightarrow> fm_len m = fm_len n"
proof -
  assume "\<And>i. fmlookup m i = None \<longleftrightarrow> fmlookup n i = None"
  then have "fmdom m = fmdom n" by (simp add: fset_eq_iff fmlookup_dom_iff flip: not_None_eq)
  then show ?thesis by (simp add: fm_len_def)
qed

lemma task_change_ok:
  "task_change s a k k' \<Longrightarrow> task_ok s k \<Longrightarrow> task_ok s k'"
  by (auto simp: task_change_def task_ok_def is_some_and_iff is_none_or_iff)

lemma effect_preserves_ok:
  assumes "store_effect c r s t" and ok: "store_ok s"
  shows "store_ok t"
  using assms(1)
proof cases
  case eff_none
  with ok show ?thesis by simp
next
  case eff_hit
  with ok show ?thesis by simp
next
  case (eff_project k i a name)
  note f = fresh_id [OF ok eff_project(4)]
  have "ids_ok t" "disjoint_ids t" "requests_ok t"
    using ok f unfolding eff_project(2)
    by (auto simp: store_ok_def ids_ok_def intro: ids_in_create ids_in_mono requests_in_create)
      (auto simp: disjoint_ids_def requests_ok_def)
  moreover have "records_ok t"
    using ok eff_project(5) records_ok_grow [of s t] unfolding eff_project(2)
    by (simp add: store_ok_def records_ok_def fm_all_updI fsubset_finsertI del: fm_all_upd)
  moreover have "record_count t \<le> max_records" "ws_sequence t \<le> u64_max"
    using eff_project(4) f unfolding eff_project(2)
    by (simp_all add: record_count_def fm_len_upd takes_id_def)
  ultimately show ?thesis by (simp add: store_ok_def)
next
  case (eff_goal k i a p q title)
  note f = fresh_id [OF ok eff_goal(4)]
  have "ids_ok t" "disjoint_ids t" "requests_ok t"
    using ok f unfolding eff_goal(2)
    by (auto simp: store_ok_def ids_ok_def intro: ids_in_create ids_in_mono requests_in_create)
      (auto simp: disjoint_ids_def requests_ok_def)
  moreover have "records_ok t"
  proof -
    have keep: "fmlookup (ws_goals s) g = Some v \<Longrightarrow> fmlookup (ws_goals t) g = Some v" for g v
      using f(2) unfolding eff_goal(2) by auto
    have rs: "records_ok s" using ok by (simp add: store_ok_def)
    have dom: "fmdom (ws_projects s) |\<subseteq>| fmdom (ws_projects t)" unfolding eff_goal(2) by simp
    note grow = records_ok_grow [OF rs dom keep]
    have sel: "ws_projects t = ws_projects s" "ws_tasks t = ws_tasks s"
      "ws_decisions t = ws_decisions s" "ws_goals t = fmupd i (new_goal a p title i) (ws_goals s)"
      unfolding eff_goal(2) by simp_all
    show ?thesis
      using grow rs eff_goal(6) unfolding records_ok_def sel
      by (simp add: fm_all_updI fmlookup_dom_iff del: fm_all_upd)
  qed
  moreover have "record_count t \<le> max_records" "ws_sequence t \<le> u64_max"
    using eff_goal(4) f unfolding eff_goal(2)
    by (simp_all add: record_count_def fm_len_upd takes_id_def)
  ultimately show ?thesis by (simp add: store_ok_def)
next
  case (eff_task k i a t' q request)
  note f = fresh_id [OF ok eff_task(4)]
  have "ids_ok t" "disjoint_ids t" "requests_ok t"
    using ok f unfolding eff_task(2)
    by (auto simp: store_ok_def ids_ok_def intro: ids_in_create ids_in_mono requests_in_create)
      (auto simp: disjoint_ids_def requests_ok_def)
  moreover have "records_ok t"
    using ok task_ok_mono [of s "new_task a t' i" t] new_task_ok [OF eff_task(6,8,9)]
      records_ok_grow [of s t] unfolding eff_task(2)
    by (auto simp: store_ok_def records_ok_def simp del: fm_all_upd intro!: fm_all_updI)
  moreover have "record_count t \<le> max_records" "ws_sequence t \<le> u64_max"
    using eff_task(4) f unfolding eff_task(2)
    by (simp_all add: record_count_def fm_len_upd takes_id_def)
  ultimately show ?thesis by (simp add: store_ok_def)
next
  case (eff_decision k i a p q words day)
  note f = fresh_id [OF ok eff_decision(4)]
  have "ids_ok t" "disjoint_ids t" "requests_ok t"
    using ok f unfolding eff_decision(2)
    by (auto simp: store_ok_def ids_ok_def intro: ids_in_create ids_in_mono requests_in_create)
      (auto simp: disjoint_ids_def requests_ok_def)
  moreover have "records_ok t"
    using ok eff_decision(6) records_ok_grow [of s t] unfolding eff_decision(2)
    by (auto simp: store_ok_def records_ok_def fmlookup_dom_iff simp del: fm_all_upd intro!: fm_all_updI)
  moreover have "record_count t \<le> max_records" "ws_sequence t \<le> u64_max"
    using eff_decision(4) f unfolding eff_decision(2)
    by (simp_all add: record_count_def fm_len_upd takes_id_def)
  ultimately show ?thesis by (simp add: store_ok_def)
next
  case (eff_change a i p q)
  have len: "fm_len (fmupd i q (ws_projects s)) = fm_len (ws_projects s)"
    using eff_change(4) by (simp add: fm_len_upd)
  have q: "proj_id q = i" "project_ok q"
    using ok eff_change(4,6) store_okD(1) [OF ok eff_change(4)]
    by (auto simp: store_ok_def ids_ok_def ids_in_def project_change_def dest: fm_allD)
  have "ids_ok t" using ok q eff_change(4) unfolding eff_change(1)
    by (auto simp: store_ok_def ids_ok_def ids_in_def fm_all_iff)
  moreover have "disjoint_ids t" "requests_ok t"
    using ok eff_change(4) unfolding eff_change(1)
    by (auto simp: store_ok_def disjoint_ids_def requests_ok_def)
  moreover have "records_ok t"
    using ok q records_ok_grow [of s t] unfolding eff_change(1)
    by (auto simp: store_ok_def records_ok_def simp del: fm_all_upd intro!: fm_all_updI)
  ultimately show ?thesis
    using ok len unfolding eff_change(1) by (simp add: store_ok_def record_count_def)
next
  case (eff_tasks a m recall)
  have len: "fm_len m = fm_len (ws_tasks s)"
    by (rule fm_len_cong) (rule tasks_changeD(3) [OF eff_tasks(4)])
  have ok_t: "task_ok t k \<longleftrightarrow> task_ok s k" for k
    unfolding eff_tasks(1) by (simp add: task_ok_def)
  have k: "task_id k = i \<and> 0 < i \<and> i \<le> ws_sequence s \<and> task_ok s k" if look: "fmlookup m i = Some k" for i k
  proof -
    obtain k0 where k0: "fmlookup (ws_tasks s) i = Some k0" "k = k0 \<or> task_change s a k0 k"
      using tasks_changeD(1) [OF eff_tasks(4) look] by blast
    have "task_id k0 = i \<and> 0 < i \<and> i \<le> ws_sequence s"
      using ok k0(1) by (auto simp: store_ok_def ids_ok_def ids_in_def dest: fm_allD)
    moreover have "task_id k = task_id k0" using k0(2) by (auto simp: task_change_def)
    moreover have "task_ok s k"
      using k0(2) store_okD(3) [OF ok k0(1)] by (auto intro: task_change_ok)
    ultimately show ?thesis by simp
  qed
  have "ids_ok t" using ok k unfolding eff_tasks(1)
    by (auto simp: store_ok_def ids_ok_def ids_in_def fm_all_iff)
  moreover have "disjoint_ids t" "requests_ok t"
    using ok tasks_changeD(3) [OF eff_tasks(4)] unfolding eff_tasks(1)
    by (simp_all add: store_ok_def disjoint_ids_def requests_ok_def)
  moreover have "records_ok t"
    using ok k unfolding records_ok_def ok_t unfolding eff_tasks(1)
    by (auto simp: store_ok_def records_ok_def intro: fm_allI)
  ultimately show ?thesis
    using ok len unfolding eff_tasks(1) by (simp add: store_ok_def record_count_def)
next
  case (eff_snapshots snaps)
  with ok show ?thesis
    by (simp add: store_ok_def ids_ok_def disjoint_ids_def requests_ok_def records_ok_def
        record_count_def task_ok_def)
qed

interpretation store: machine store_step empty_store store_ok
proof
  show "store_ok empty_store"
    by (simp add: store_ok_def ids_ok_def ids_in_def requests_in_def disjoint_ids_def requests_ok_def
        records_ok_def record_count_def empty_store_def)
  show "store_ok t" if "store_ok s" "store_step c s = (r, t)" for c s r t
    using store_step_effect [OF that] that(1) by (rule effect_preserves_ok)
qed

lemma request_keep:
  assumes "store_ok s" and "store_step c s = (r, t)"
    and "fmlookup (ws_request_ids s) key = Some i"
  shows "fmlookup (ws_request_ids t) key = Some i"
  using store_step_effect [OF assms(1,2)] assms(3) by cases (auto simp: takes_id_def)

lemma request_answer:
  assumes "store_ok s" and "store_step c s = (Inr i, t)" and "call_identity c = Some k"
  shows "fmlookup (ws_request_ids t) (identity_key k) = Some i"
  using store_step_effect [OF assms(1,2)] assms(3) by cases auto

interpretation requests: keyed_machine store_step empty_store store_ok call_identity
  "\<lambda>s k. fmlookup (ws_request_ids s) (identity_key k)"
  "\<lambda>r. case r of Inl _ \<Rightarrow> None | Inr i \<Rightarrow> Some i"
proof unfold_locales
  show "k = l" if "store_ok s" "fmlookup (ws_request_ids s) (identity_key k) = Some v"
    "fmlookup (ws_request_ids s) (identity_key l) = Some v" for s k v l
    using that by (metis identity_key_inj requests_ok_def store_ok_def)
qed (auto intro: request_keep request_answer split: sum.splits)

section \<open>Properties\<close>

definition demo_access :: work_access where
  "demo_access = \<lparr>acc_actor = 7, acc_guild = None, acc_channel = 9, acc_can_view = True,
     acc_can_manage = True\<rparr>"

definition demo_task :: work_task where
  "demo_task = \<lparr>task_id = 0, task_project_id = 1, task_title = lit ''ship'', task_owner = 0,
     task_assignee = Some 7, task_goal_id = None, task_priority = 2, task_status = StOpen,
     task_due_at = None, task_remind_at = None, task_reminder_revision = 0,
     task_snoozed_until = None, task_source = None, task_github = None, task_revision = 5\<rparr>"

definition demo_calls :: "store_call list" where
  "demo_calls = [CreateProject demo_access (lit ''plan'') (lit ''r1''),
     AddTask demo_access demo_task (lit ''r1''),
     CreateProject demo_access (lit ''plan'') (lit ''r1'')]"

definition demo_project_store :: work_store where
  "demo_project_store = snd (store_step (CreateProject demo_access (lit ''plan'') (lit ''r1'')) empty_store)"

definition demo_task_store :: work_store where
  "demo_task_store = snd (store_step (AddTask demo_access demo_task (lit ''r1'')) demo_project_store)"

lemmas demo_simps = demo_access_def demo_task_def create_project_def add_task_def next_id_def
  valid_text_def valid_request_def trim_def is_whitespace_def is_control_def utf8_len_def
  max_records_def record_count_def empty_store_def u64_max_def project_key_def task_key_def
  access_scope_def project_def authorized_def Let_def task_inadmissible_def decimal.simps fm_len_upd

lemma demo_steps:
  "store_step (CreateProject demo_access (lit ''plan'') (lit ''r1'')) empty_store
     = (Inr 1, demo_project_store)"
  "store_step (AddTask demo_access demo_task (lit ''r1'')) demo_project_store
     = (Inr 2, demo_task_store)"
  "store_step (CreateProject demo_access (lit ''plan'') (lit ''r1'')) demo_task_store
     = (Inr 1, demo_task_store)"
  by (simp_all add: demo_task_store_def demo_project_store_def demo_simps)

lemma demo_trace:
  "trace store_step empty_store
     [(CreateProject demo_access (lit ''plan'') (lit ''r1''), Inr 1),
      (AddTask demo_access demo_task (lit ''r1''), Inr 2),
      (CreateProject demo_access (lit ''plan'') (lit ''r1''), Inr 1)] demo_task_store"
proof -
  have start: "trace store_step empty_store [] empty_store" by (rule trace_start)
  note one = trace_call [OF start, OF demo_steps(1)]
  note two = trace_call [OF one, OF demo_steps(2)]
  show ?thesis by (rule trace_call [OF two, OF demo_steps(3)])
qed

lemma demo_ok: "store_ok demo_project_store"
proof -
  have "store_ok empty_store" by (rule store.inv_init)
  then show ?thesis by (rule store.inv_step) (rule demo_steps(1))
qed

text \<open>
  C40. Every store the calls can build is well-formed: record ids are unique across
  projects, goals, tasks and decisions and bounded by the sequence, request ids name
  distinct records, managers are members, a personal project has exactly its owner, every
  reference (project of a task, goal of a task in the same project, GitHub link) is good,
  and at most 10,000 records exist.
\<close>

theorem store_well_formed:
  assumes "trace store_step empty_store h s"
  shows "store_ok s"
  using assms by (rule store.trace_inv)

theorem store_well_formed_witness:
  "store_ok demo_task_store \<and> fmlookup (ws_tasks demo_task_store) 2 \<noteq> None"
  using store_well_formed [OF demo_trace]
  by (simp add: demo_task_store_def demo_project_store_def demo_simps)

text \<open>
  Request deduplication is exact. Over a whole history, two successful creating calls
  answer with the same id if and only if they are the same request: the same kind of
  record, actor, place and client request id. So a retry never creates twice, and no two
  requests are confused by the text of their keys.
\<close>

theorem requests_answered_once:
  assumes "trace store_step empty_store h s"
    and "(c, Inr i) \<in> set h" and "(d, Inr j) \<in> set h"
    and "call_identity c = Some k" and "call_identity d = Some l"
  shows "i = j \<longleftrightarrow> k = l"
  by (rule requests.same_answer_iff [OF assms]) simp_all

theorem requests_answered_once_witness:
  "((1 :: nat) = 2) = (ReqProject 7 0 9 (lit ''r1'') = ReqTask 7 1 (lit ''r1''))"
  by (rule requests_answered_once [OF demo_trace,
        of "CreateProject demo_access (lit ''plan'') (lit ''r1'')" _ "AddTask demo_access demo_task (lit ''r1'')"])
    (simp_all add: demo_access_def demo_task_def)

text \<open>What a store holds about one project.\<close>

definition project_view :: "work_store \<Rightarrow> u64 \<Rightarrow> work_project option \<times> (u64, work_goal) fmap
    \<times> (u64, work_task) fmap \<times> (u64, work_decision) fmap" where
  "project_view s p = (fmlookup (ws_projects s) p,
     fm_retain (\<lambda>_ g. goal_project_id g = p) (ws_goals s),
     fm_retain (\<lambda>_ k. task_project_id k = p) (ws_tasks s),
     fm_retain (\<lambda>_ d. dec_project_id d = p) (ws_decisions s))"

lemma view_unchanged:
  assumes "tasks_change s a m"
    and "\<And>k. task_project_id k = p \<Longrightarrow> \<forall>k'. \<not> task_change s a k k'"
  shows "fm_retain (\<lambda>_ k. task_project_id k = p) m = fm_retain (\<lambda>_ k. task_project_id k = p) (ws_tasks s)"
proof (rule fmap_ext)
  fix i
  show "fmlookup (fm_retain (\<lambda>_ k. task_project_id k = p) m) i
      = fmlookup (fm_retain (\<lambda>_ k. task_project_id k = p) (ws_tasks s)) i"
  proof (cases "fmlookup (ws_tasks s) i")
    case None
    then show ?thesis using tasks_changeD(3) [OF assms(1), of i] by simp
  next
    case (Some k)
    then obtain k' where k': "fmlookup m i = Some k'" "k' = k \<or> task_change s a k k'"
      using tasks_changeD(2) [OF assms(1)] by blast
    then have "k' = k \<or> task_project_id k \<noteq> p \<and> task_project_id k' \<noteq> p"
      using assms(2) [of k] by (auto simp: task_change_def)
    then show ?thesis using k'(1) Some by auto
  qed
qed



text \<open>Tasks are never removed, and a task that differs has a larger revision.\<close>

definition task_later :: "work_store \<Rightarrow> work_store \<Rightarrow> bool" where
  "task_later s t \<longleftrightarrow> fm_all (\<lambda>i k. is_some_and (fmlookup (ws_tasks t) i)
     (\<lambda>k'. k' = k \<or> task_revision k < task_revision k')) (ws_tasks s)"

lemma task_later_refl: "task_later s s"
  by (simp add: task_later_def fm_all_iff)

lemma task_laterD:
  "task_later s t \<Longrightarrow> fmlookup (ws_tasks s) i = Some k \<Longrightarrow>
    \<exists>k'. fmlookup (ws_tasks t) i = Some k' \<and> (k' = k \<or> task_revision k < task_revision k')"
  by (auto simp: task_later_def is_some_and_iff dest: fm_allD)

lemma task_later_trans:
  assumes "task_later s t" and "task_later t u"
  shows "task_later s u"
  unfolding task_later_def
proof (rule fm_allI)
  fix i k assume "fmlookup (ws_tasks s) i = Some k"
  from task_laterD [OF assms(1) this] obtain k1
    where k1: "fmlookup (ws_tasks t) i = Some k1" "k1 = k \<or> task_revision k < task_revision k1" by blast
  from task_laterD [OF assms(2) k1(1)] k1(2)
  show "is_some_and (fmlookup (ws_tasks u) i) (\<lambda>k'. k' = k \<or> task_revision k < task_revision k')"
    by auto
qed

lemma task_later_step:
  assumes "store_ok s" and "store_step c s = (r, t)"
  shows "task_later s t"
  using store_step_effect [OF assms]
proof cases
  case (eff_task k i a k' q request)
  note f = fresh_id [OF assms(1) eff_task(4)]
  show ?thesis
    unfolding task_later_def
  proof (rule fm_allI)
    fix j v assume "fmlookup (ws_tasks s) j = Some v"
    then have "fmlookup (ws_tasks t) j = Some v" using f(3) unfolding eff_task(2) by auto
    then show "is_some_and (fmlookup (ws_tasks t) j) (\<lambda>k'. k' = v \<or> task_revision v < task_revision k')"
      by simp
  qed
next
  case (eff_tasks a m recall)
  have "is_some_and (fmlookup m j) (\<lambda>k'. k' = v \<or> task_revision v < task_revision k')"
    if "fmlookup (ws_tasks s) j = Some v" for j v
    using tasks_changeD(2) [OF eff_tasks(4) that] by (auto simp: task_change_def)
  then show ?thesis unfolding eff_tasks(1) by (simp add: task_later_def fm_all_iff)
qed (simp_all add: task_later_def fm_all_iff)


definition demo_updated_store :: work_store where
  "demo_updated_store = snd (store_step (UpdateTask demo_access 2 0 StDone None) demo_task_store)"


text \<open>
  A cached GitHub snapshot is never lost and never goes back in time: whatever calls
  follow, each reference that had a snapshot still has one, observed no earlier.
\<close>

theorem snapshots_never_regress:
  assumes "store_ok s" and "trace store_step s h t" and "find_github_snapshot s g = Some a"
  shows "\<exists>b. find_github_snapshot t g = Some b \<and> snap_refreshed_at a \<le> snap_refreshed_at b"
proof -
  have "snapshots_advance s t"
  proof (rule store.trace_relates [OF assms(2,1)])
    show "snapshots_advance s s" for s by (simp add: snapshots_advance_def is_none_or_iff)
    show "snapshots_advance s u" if "snapshots_advance s t" "snapshots_advance t u" for s t u
      using that unfolding snapshots_advance_def is_none_or_iff is_some_and_iff
      by (metis order_trans)
    show "snapshots_advance s t" if "store_ok s" "store_step c s = (r, t)" for c s r t
      using store_step_effect [OF that]
      by cases (simp_all add: snapshots_advance_def find_github_snapshot_def is_none_or_iff)
  qed
  with assms(3) show ?thesis
    by (auto simp: snapshots_advance_def is_none_or_iff is_some_and_iff)
qed

definition demo_link :: github_reference where
  "demo_link = \<lparr>ghr_repository = \<lparr>gh_installation = 5, gh_owner = lit ''o'', gh_name = lit ''n''\<rparr>,
     ghr_kind = GhPullRequest, ghr_number = 3\<rparr>"

definition demo_snapshot :: github_snapshot where
  "demo_snapshot = \<lparr>snap_title = lit ''t'', snap_state = GhOpen, snap_refreshed_at = 40,
     snap_stale = False, snap_etag = None\<rparr>"

theorem snapshots_never_regress_witness:
  "\<exists>b. find_github_snapshot (mark_github_stale demo_link (store_snapshot demo_link demo_snapshot empty_store))
      demo_link = Some b \<and> 40 \<le> snap_refreshed_at b"
proof -
  let ?s = "store_snapshot demo_link demo_snapshot empty_store"
  have "store_ok empty_store" by (rule store.inv_init)
  then have ok: "store_ok ?s"
    by (simp add: store_snapshot_def store_ok_def ids_ok_def disjoint_ids_def requests_ok_def
        records_ok_def record_count_def task_ok_def)
  have start: "trace store_step ?s [] ?s" by (rule trace_start)
  have step: "store_step (MarkStale demo_link) ?s = (Inr 0, mark_github_stale demo_link ?s)" by simp
  note steps = trace_call [OF start, OF step]
  have "find_github_snapshot ?s demo_link = Some demo_snapshot"
    by (simp add: stored_snapshot eq_ignore_ascii_case_def)
  from snapshots_never_regress [OF ok steps this] show ?thesis by (simp add: demo_snapshot_def)
qed

section \<open>Briefings\<close>

lemma briefing_tasks_props:
  "sorted (map task_order (briefing_tasks s p))"
  "k \<in> set (briefing_tasks s p) \<longleftrightarrow>
     (\<exists>i. fmlookup (ws_tasks s) i = Some k) \<and> task_project_id k = p \<and> open_task k"
  by (auto simp: briefing_tasks_def fmlookup_ran'_iff)

lemma sorted_take_drop:
  assumes "sorted (map f xs)" and "x \<in> set (take n xs)" and "y \<in> set xs" and "y \<notin> set (take n xs)"
  shows "f x \<le> f y"
proof -
  have "y \<in> set (drop n xs)"
    using assms(3,4) by (metis UnE append_take_drop_id set_append)
  moreover have "sorted (map f (take n xs) @ map f (drop n xs))"
    using assms(1) by (metis append_take_drop_id map_append)
  ultimately show ?thesis using assms(2) by (auto simp: sorted_append)
qed

text \<open>
  The briefing of a project lists its open tasks only, at most ten, ordered by
  priority (high first), due time and id; an open task is left out only when ten others
  that come no later in that order are listed.
\<close>

theorem briefing_lists_first_ten:
  assumes "listed = take 10 (briefing_tasks s p)"
  shows "length listed \<le> 10 \<and> sorted (map task_order listed)
    \<and> (\<forall>k \<in> set listed. task_project_id k = p \<and> open_task k)
    \<and> (\<forall>i k. fmlookup (ws_tasks s) i = Some k \<and> task_project_id k = p \<and> open_task k \<and> k \<notin> set listed
        \<longrightarrow> length listed = 10 \<and> (\<forall>u \<in> set listed. task_order u \<le> task_order k))"
proof (intro conjI)
  let ?b = "briefing_tasks s p"
  show "length listed \<le> 10" unfolding assms by simp
  show "sorted (map task_order listed)"
    unfolding assms take_map [symmetric] by (rule sorted_wrt_take) (rule briefing_tasks_props)
  show "\<forall>k \<in> set listed. task_project_id k = p \<and> open_task k"
    unfolding assms using briefing_tasks_props(2) by (blast dest: in_set_takeD)
  show "\<forall>i k. fmlookup (ws_tasks s) i = Some k \<and> task_project_id k = p \<and> open_task k \<and> k \<notin> set listed
      \<longrightarrow> length listed = 10 \<and> (\<forall>u \<in> set listed. task_order u \<le> task_order k)"
  proof (intro allI impI, elim conjE)
    fix i k
    assume k: "fmlookup (ws_tasks s) i = Some k" "task_project_id k = p" "open_task k" "k \<notin> set listed"
    then have mem: "k \<in> set ?b" using briefing_tasks_props(2) by blast
    have "10 < length ?b"
    proof (rule ccontr)
      assume "\<not> 10 < length ?b"
      then have "listed = ?b" unfolding assms by simp
      with mem k(4) show False by simp
    qed
    moreover have "task_order u \<le> task_order k" if "u \<in> set listed" for u
      using sorted_take_drop [OF briefing_tasks_props(1) _ mem] that k(4) unfolding assms by blast
    ultimately show "length listed = 10 \<and> (\<forall>u \<in> set listed. task_order u \<le> task_order k)"
      unfolding assms by simp
  qed
qed

theorem briefing_lists_first_ten_witness:
  "length (take 10 (briefing_tasks demo_task_store 1)) \<le> 10
    \<and> briefing_tasks demo_task_store 1 = [new_task demo_access demo_task 2]"
proof -
  have "briefing_tasks demo_task_store 1 = [new_task demo_access demo_task 2]"
    by (simp add: briefing_tasks_def demo_task_store_def demo_project_store_def demo_simps
        new_task_def open_task_def)
  with briefing_lists_first_ten [OF refl, of demo_task_store 1] show ?thesis by simp
qed

text \<open>
  A briefing shows one project only: it is a function of what the store holds about
  that project and of the GitHub snapshots, so nothing that happens in other projects can
  be seen in it, and it is refused to everybody who is not authorised for the project.
\<close>

theorem briefing_shows_one_project:
  assumes "project_view s p = project_view t p" and "ws_github_snapshots s = ws_github_snapshots t"
  shows "briefing s p a now = briefing t p a now
    \<and> (is_some_and (fmlookup (ws_projects s) p) (\<lambda>q. \<not> authorized q a False)
        \<longrightarrow> briefing s p a now = Inl Denied)"
proof
  have tasks: "briefing_tasks s p = briefing_tasks t p"
  proof -
    have "briefing_tasks u p = sort_key task_order (filter open_task
        (fm_values (fm_retain (\<lambda>_ k. task_project_id k = p) (ws_tasks u))))" for u
      unfolding fm_values_retain briefing_tasks_def by (simp add: conj_commute)
    with assms(1) show ?thesis by (simp add: project_view_def)
  qed
  have decisions: "briefing_decisions s p = briefing_decisions t p"
  proof -
    have "briefing_decisions u p = take 3 (rev
        (fm_values (fm_retain (\<lambda>_ d. dec_project_id d = p) (ws_decisions u))))" for u
      unfolding fm_values_retain briefing_decisions_def by (simp add: rev_filter)
    with assms(1) show ?thesis by (simp add: project_view_def)
  qed
  have snap: "find_github_snapshot s = find_github_snapshot t"
    using assms(2) by (simp add: find_github_snapshot_def fun_eq_iff)
  have line: "task_line s q k = task_line t q k" for q k
    unfolding task_line_def github_line_def snap ..
  have "project s p a = project t p a"
    using assms(1) by (simp add: project_def project_view_def)
  then show "briefing s p a now = briefing t p a now"
    unfolding briefing_def tasks decisions line by simp
  show "is_some_and (fmlookup (ws_projects s) p) (\<lambda>q. \<not> authorized q a False)
      \<longrightarrow> briefing s p a now = Inl Denied"
    by (auto simp: briefing_def project_def is_some_and_iff)
qed

theorem briefing_shows_one_project_witness:
  "briefing demo_task_store 3 demo_access 50 = briefing demo_project_store 3 demo_access 50"
proof -
  have "project_view demo_task_store 3 = project_view demo_project_store 3"
    by (simp add: project_view_def demo_task_store_def demo_project_store_def demo_simps fm_retain_upd)
  moreover have "ws_github_snapshots demo_task_store = ws_github_snapshots demo_project_store"
    by (simp add: demo_task_store_def demo_project_store_def demo_simps)
  ultimately show ?thesis using briefing_shows_one_project by blast
qed

end
