(* ===== verification/Work_Delivery.thy ===== *)
theory Work_Delivery
  imports Work_Store
begin

text \<open>
  Deliveries: content references, targets, the bounded renderer and its provenance
  (\<open>src/work/delivery.rs\<close>), and the durable outcome of an attempt with the audience rule
  (\<open>src/work/delivery_lifecycle.rs\<close>). SHA-256 and the JSON encoder are third-party: the
  record \<open>serial\<close> holds the functions the code calls. The code indexes a map with an id
  it has just read from a record of that map (\<open>self.tasks[&id]\<close>, which panics when the
  key is absent); the model skips an absent key, and \<open>content_refs_exist\<close> shows that no
  key is absent in a store whose record ids are their keys.
\<close>

type_synonym task_content = "rstr \<times> work_status \<times> u8 \<times> u64 \<times> u64 option \<times> u64 option
  \<times> u64 option \<times> rstr option \<times> github_reference option"

record serial =
  ser_sha256 :: "rstr \<Rightarrow> rstr"
  ser_task :: "task_content \<Rightarrow> rstr"
  ser_decision :: "rstr \<times> u64 \<times> u64 \<Rightarrow> rstr"

section \<open>Provenance\<close>

definition prov_valid :: "delivered_provenance \<Rightarrow> bool" where
  "prov_valid p \<longleftrightarrow> \<not> (prov_version p \<noteq> 1 \<or> prov_source_refs p = {||}
     \<or> 32 < fcard (prov_source_refs p)
     \<or> \<not> fBall (prov_source_refs p) ref_valid
     \<or> fcard (ref_id |`| prov_source_refs p) \<noteq> fcard (prov_source_refs p)
     \<or> prov_contributing_projects p \<noteq> ref_project |`| prov_source_refs p
     \<or> byte_len (prov_rendered_digest p) \<noteq> 64
     \<or> \<not> list_all is_lower_hex (prov_rendered_digest p))"

definition prov_validate :: "delivered_provenance \<Rightarrow> work_error + unit" where
  "prov_validate p = ensure Invalid (prov_valid p)"

definition feedback_destination_matches :: "delivery_receipt \<Rightarrow> work_access \<Rightarrow> bool" where
  "feedback_destination_matches r a =
     (if is_some_and (rc_provenance r) (\<lambda>p. \<not> prov_valid p) then False
      else case (rc_destination r, rc_scope r) of
          (Some d, Some scope) \<Rightarrow> dest_valid d scope (acc_actor a)
            \<and> (case d of DestTeamPrivate _ \<Rightarrow> rc_recipient r \<noteq> 0 | _ \<Rightarrow> rc_recipient r = acc_channel a)
        | (None, _) \<Rightarrow> rc_recipient r = acc_channel a
        | _ \<Rightarrow> False)"

section \<open>Content of a scope\<close>

definition scope_project_ids :: "work_store \<Rightarrow> work_scope \<Rightarrow> u64 fset" where
  "scope_project_ids s scope =
     fset_of_list (map proj_id (filter (\<lambda>p. proj_scope p = scope) (fm_values (ws_projects s))))"

definition task_ref :: "work_task \<Rightarrow> work_content_ref" where
  "task_ref t = RefTask (task_project_id t) (task_id t) (task_revision t)"

definition decision_ref :: "work_decision \<Rightarrow> work_content_ref" where
  "decision_ref d = RefDecision (dec_project_id d) (dec_id d) 1"

definition content_refs :: "work_store \<Rightarrow> work_scope \<Rightarrow> work_content_ref fset" where
  "content_refs s scope =
     fset_of_list (map task_ref (filter (\<lambda>t. task_project_id t |\<in>| scope_project_ids s scope)
         (fm_values (ws_tasks s)))
       @ map decision_ref (filter (\<lambda>d. dec_project_id d |\<in>| scope_project_ids s scope)
         (fm_values (ws_decisions s))))"

definition default_target :: "work_scope \<Rightarrow> work_destination" where
  "default_target scope = (case scope of ScopePersonal owner \<Rightarrow> DestPersonal owner
     | ScopeTeam _ channel \<Rightarrow> DestTeamChannel channel)"

definition delivery_target ::
  "work_scope \<Rightarrow> work_access \<Rightarrow> work_automation_policy \<Rightarrow> work_error + work_destination" where
  "delivery_target scope a policy =
     (let target = (case ap_delivery_target policy of Some d \<Rightarrow> d | None \<Rightarrow> default_target scope)
      in if \<not> dest_valid target scope (acc_actor a) then Inl Denied
         else if ap_enabled policy \<and> ap_destination policy \<noteq> Some (acc_channel a) then Inl Denied
         else Inr target)"

section \<open>Rendering\<close>

definition shortened :: "rstr \<Rightarrow> nat \<Rightarrow> rstr" where
  "shortened text limit =
     take limit text @ (if limit < length text then 8230 # lit '' [shortened]'' else [])"

definition delivery_line :: "work_store \<Rightarrow> work_content_ref \<Rightarrow> work_error + rstr" where
  "delivery_line s r =
     (case r of
        RefTask p i revision \<Rightarrow>
          (case fmlookup (ws_tasks s) i of
             None \<Rightarrow> Inl Missing
           | Some t \<Rightarrow>
               if task_project_id t \<noteq> p \<or> task_revision t \<noteq> revision then Inl Stale
               else Inr (lit ''Task #'' @ decimal i @ lit '' r'' @ decimal revision @ lit '': ''
                 @ shortened (task_title t) 80 @ [32, 8212, 32] @ status_label (task_status t)
                 @ lit '' (priority '' @ decimal (task_priority t) @ lit ''; deadline ''
                 @ (case task_due_at t of None \<Rightarrow> lit ''none'' | Some v \<Rightarrow> decimal v) @ lit '').''))
      | RefDecision p i revision \<Rightarrow>
          (case fmlookup (ws_decisions s) i of
             None \<Rightarrow> Inl Missing
           | Some d \<Rightarrow>
               if dec_project_id d \<noteq> p \<or> revision \<noteq> 1 then Inl Stale
               else Inr (lit ''Decision #'' @ decimal i @ lit '': '' @ shortened (dec_text d) 100)))"

fun delivery_lines :: "work_store \<Rightarrow> work_content_ref list \<Rightarrow> work_error + rstr list" where
  "delivery_lines s [] = Inr []"
| "delivery_lines s (r # rs) =
     rbind (delivery_line s r) (\<lambda>l. rbind (delivery_lines s rs) (\<lambda>ls. Inr (l # ls)))"

fun join_lines :: "rstr list \<Rightarrow> rstr" where
  "join_lines [] = []"
| "join_lines [l] = l"
| "join_lines (l # ls) = l @ 10 # join_lines ls"

definition omitted_line :: "nat \<Rightarrow> rstr" where
  "omitted_line n = lit ''Partial update: '' @ decimal n
     @ lit '' additional work item(s) omitted; inspect the workspace for the full list.''"

definition render_delivery ::
  "serial \<Rightarrow> work_store \<Rightarrow> work_content_ref list \<Rightarrow> nat
     \<Rightarrow> work_error + (rstr \<times> delivered_provenance)" where
  "render_delivery ser s refs omitted =
     rbind (delivery_lines s refs) (\<lambda>ls.
       let body = join_lines (ls @ (if 0 < omitted then [omitted_line omitted] else []));
           prov = \<lparr>prov_version = 1, prov_source_refs = fset_of_list refs,
             prov_contributing_projects = fset_of_list (map ref_project refs),
             prov_rendered_digest = ser_sha256 ser body\<rparr>
       in if 1900 < length body then Inl Full
          else if \<not> prov_valid prov then Inl Invalid
          else Inr (body, prov))"

section \<open>Content fingerprints\<close>

definition task_content_of :: "work_task \<Rightarrow> task_content" where
  "task_content_of t = (task_title t, task_status t, task_priority t, task_owner t, task_assignee t,
     task_goal_id t, task_due_at t, task_source t, task_github t)"

definition fingerprint :: "serial \<Rightarrow> work_store \<Rightarrow> work_content_ref \<Rightarrow> rstr option" where
  "fingerprint ser s r =
     (case r of
        RefTask _ i _ \<Rightarrow> map_option (\<lambda>t. ser_sha256 ser (ser_task ser (task_content_of t)))
          (fmlookup (ws_tasks s) i)
      | RefDecision _ i _ \<Rightarrow> map_option (\<lambda>d. ser_sha256 ser
            (ser_decision ser (dec_text d, dec_author d, dec_at d))) (fmlookup (ws_decisions s) i))"

definition content_fingerprints :: "serial \<Rightarrow> work_store \<Rightarrow> work_scope \<Rightarrow> (u64, rstr) fmap" where
  "content_fingerprints ser s scope =
     fold (\<lambda>r m. case fingerprint ser s r of None \<Rightarrow> m | Some d \<Rightarrow> fmupd (ref_id r) d m)
       (sorted_list_of_fset (content_refs s scope)) fmempty"

section \<open>Audience, candidates and outcomes\<close>

definition delivery_audience :: "work_store \<Rightarrow> work_scope \<Rightarrow> u64 fset" where
  "delivery_audience s scope =
     (case filter (\<lambda>p. proj_scope p = scope) (fm_values (ws_projects s)) of
        [] \<Rightarrow> {||}
      | first # rest \<Rightarrow> fold (\<lambda>p members. members |\<inter>| proj_members p) rest (proj_members first))"

definition delivery_candidate ::
  "work_store \<Rightarrow> work_scope \<Rightarrow> (work_scope \<times> u64 \<times> u64 \<times> work_destination \<times> u64 fset) option" where
  "delivery_candidate s scope =
     (case fmlookup (ws_scope_automation s) (scope_key scope) of
        None \<Rightarrow> None
      | Some policy \<Rightarrow>
          if \<not> ap_enabled policy then None
          else (case fmlookup (ws_scope_automation_actors s) (scope_key scope) of
              None \<Rightarrow> None
            | Some actor \<Rightarrow>
                (case ap_destination policy of
                   None \<Rightarrow> None
                 | Some origin \<Rightarrow>
                     (case delivery_target scope \<lparr>acc_actor = actor,
                         acc_guild = (case scope of ScopeTeam guild _ \<Rightarrow> Some guild | _ \<Rightarrow> None),
                         acc_channel = origin, acc_can_view = True, acc_can_manage = False\<rparr> policy of
                        Inl _ \<Rightarrow> None
                      | Inr target \<Rightarrow>
                          Some (scope, actor, origin, target, delivery_audience s scope)))))"

definition delivery_candidates ::
  "work_store \<Rightarrow> (work_scope \<times> u64 \<times> u64 \<times> work_destination \<times> u64 fset) list" where
  "delivery_candidates s = List.map_filter (delivery_candidate s)
     (sorted_list_of_fset (fset_of_list (map proj_scope (fm_values (ws_projects s)))))"

definition settle_delivery :: "u64 \<Rightarrow> u64 option \<Rightarrow> unit store_op" where
  "settle_delivery i message s =
     (case fmlookup (ws_deliveries s) i of
        None \<Rightarrow> (Inl Missing, s)
      | Some r \<Rightarrow>
          if rc_state r \<noteq> Attempting then (Inl Stale, s)
          else let m = (case message of Some n \<Rightarrow> if n \<noteq> 0 then Some n else None | None \<Rightarrow> None)
            in (Inr (), s\<lparr>ws_deliveries := fmupd i (r\<lparr>rc_message_id := m,
                 rc_state := (if m \<noteq> None then Sent else DeliveryReviewRequired)\<rparr>) (ws_deliveries s)\<rparr>))"

definition mark_interrupted_deliveries :: "work_store \<Rightarrow> work_store" where
  "mark_interrupted_deliveries s = s\<lparr>ws_deliveries := fmmap
     (\<lambda>r. if rc_state r = Attempting
          then r\<lparr>rc_state := DeliveryReviewRequired, rc_message_id := None\<rparr> else r)
     (ws_deliveries s)\<rparr>"

section \<open>Lemmas\<close>

lemma scope_project_ids_iff:
  "i |\<in>| scope_project_ids s scope \<longleftrightarrow>
     (\<exists>k p. fmlookup (ws_projects s) k = Some p \<and> proj_scope p = scope \<and> proj_id p = i)"
  unfolding scope_project_ids_def fset_of_list_elem set_map set_filter set_fm_values
  by (auto simp: fmlookup_ran'_iff image_iff) blast?

lemma content_refs_iff:
  "r |\<in>| content_refs s scope \<longleftrightarrow>
     (\<exists>k t. fmlookup (ws_tasks s) k = Some t \<and> task_project_id t |\<in>| scope_project_ids s scope
        \<and> r = task_ref t)
     \<or> (\<exists>k d. fmlookup (ws_decisions s) k = Some d \<and> dec_project_id d |\<in>| scope_project_ids s scope
        \<and> r = decision_ref d)"
  unfolding content_refs_def fset_of_list_elem set_append set_map set_filter set_fm_values
  by (auto simp: fmlookup_ran'_iff image_iff) blast?

definition ref_current :: "work_store \<Rightarrow> work_content_ref \<Rightarrow> bool" where
  "ref_current s r = (case r of
     RefTask p i revision \<Rightarrow> is_some_and (fmlookup (ws_tasks s) i)
       (\<lambda>t. task_project_id t = p \<and> task_revision t = revision)
   | RefDecision p i revision \<Rightarrow> revision = 1 \<and> is_some_and (fmlookup (ws_decisions s) i)
       (\<lambda>d. dec_project_id d = p))"

text \<open>The map indexing of \<open>content_fingerprints\<close> and of the planner never misses.\<close>

lemma content_refs_exist:
  assumes "store_ok s" and "r |\<in>| content_refs s scope"
  shows "ref_current s r \<and> fingerprint ser s r \<noteq> None"
proof -
  have ids: "task_id t = k" if "fmlookup (ws_tasks s) k = Some t" for k t
    using store_okD(2) [OF assms(1) that] .
  have idd: "dec_id d = k" if "fmlookup (ws_decisions s) k = Some d" for k d
    using assms(1) that by (auto simp: store_ok_def ids_ok_def ids_in_def dest: fm_allD)
  from assms(2) consider (task) k t where "fmlookup (ws_tasks s) k = Some t" "r = task_ref t"
    | (decision) k d where "fmlookup (ws_decisions s) k = Some d" "r = decision_ref d"
    unfolding content_refs_iff by blast
  then show ?thesis
  proof cases
    case task
    with ids [OF task(1)] show ?thesis by (auto simp: ref_current_def fingerprint_def task_ref_def)
  next
    case decision
    with idd [OF decision(1)] show ?thesis
      by (auto simp: ref_current_def fingerprint_def decision_ref_def)
  qed
qed

lemma delivery_line_current: "delivery_line s r = Inr l \<Longrightarrow> ref_current s r"
  by (auto simp: delivery_line_def ref_current_def split: work_content_ref.splits option.splits if_splits)

lemma delivery_lines_current:
  "delivery_lines s rs = Inr ls \<Longrightarrow> (\<forall>r \<in> set rs. ref_current s r) \<and> length ls = length rs"
  by (induction rs arbitrary: ls) (auto dest: delivery_line_current)

lemma render_deliveryE:
  assumes "render_delivery ser s refs omitted = Inr (body, prov)"
  obtains ls where "delivery_lines s refs = Inr ls" "length body \<le> 1900" "prov_valid prov"
    "body = join_lines (ls @ (if 0 < omitted then [omitted_line omitted] else []))"
    "prov = \<lparr>prov_version = 1, prov_source_refs = fset_of_list refs,
       prov_contributing_projects = fset_of_list (map ref_project refs),
       prov_rendered_digest = ser_sha256 ser body\<rparr>"
proof -
  from assms obtain ls where ls: "delivery_lines s refs = Inr ls"
    unfolding render_delivery_def by auto
  from assms show ?thesis
    unfolding render_delivery_def ls rbind.simps Let_def
    by (intro that [OF ls]) (auto split: if_splits)
qed

lemma prov_ids_distinct:
  assumes "prov_valid p"
  shows "distinct (map ref_id (sorted_list_of_fset (prov_source_refs p)))"
proof -
  have "card (ref_id ` fset (prov_source_refs p)) = card (fset (prov_source_refs p))"
    using assms by (auto simp: prov_valid_def fcard.rep_eq)
  then have "inj_on ref_id (fset (prov_source_refs p))"
    by (intro eq_card_imp_inj_on) simp_all
  then show ?thesis by (simp add: distinct_map sorted_list_of_fset.rep_eq)
qed

lemma fold_inter: "x |\<in>| fold (\<lambda>p m. m |\<inter>| f p) ps M \<longleftrightarrow> x |\<in>| M \<and> (\<forall>p \<in> set ps. x |\<in>| f p)"
  by (induction ps arbitrary: M) auto

section \<open>Properties\<close>

text \<open>
  The audience of a delivery is conservative: somebody is in it exactly when the scope
  has a project and they are a member of every project of the scope, so coalescing the
  projects of a scope into one message never shows a project to a non-member.
\<close>

theorem audience_in_every_project:
  "u |\<in>| delivery_audience s scope \<longleftrightarrow>
     (\<exists>i p. fmlookup (ws_projects s) i = Some p \<and> proj_scope p = scope)
     \<and> (\<forall>i p. \<not> (fmlookup (ws_projects s) i = Some p \<and> proj_scope p = scope \<and> u |\<notin>| proj_members p))"
proof -
  let ?ps = "filter (\<lambda>p. proj_scope p = scope) (fm_values (ws_projects s))"
  have mem: "p \<in> set ?ps \<longleftrightarrow> (\<exists>i. fmlookup (ws_projects s) i = Some p) \<and> proj_scope p = scope" for p
    by (auto simp: fmlookup_ran'_iff)
  have "u |\<in>| delivery_audience s scope \<longleftrightarrow> ?ps \<noteq> [] \<and> (\<forall>p \<in> set ?ps. u |\<in>| proj_members p)"
    unfolding delivery_audience_def by (cases ?ps) (auto simp: fold_inter)
  moreover have "?ps \<noteq> [] \<longleftrightarrow> (\<exists>p. p \<in> set ?ps)"
    by (cases ?ps) auto
  ultimately have "u |\<in>| delivery_audience s scope \<longleftrightarrow>
      (\<exists>p. p \<in> set ?ps) \<and> (\<forall>p. p \<in> set ?ps \<longrightarrow> u |\<in>| proj_members p)"
    by blast
  then show ?thesis unfolding mem by blast
qed

text \<open>
  A rendered delivery says what its provenance says: the body fits in 1,900
  characters, the provenance is valid and bound to the body by its digest, its sources are
  exactly the requested references, and every one of them is a record of the store at
  precisely the revision named.
\<close>

theorem rendered_delivery_is_current:
  assumes "render_delivery ser s refs omitted = Inr (body, prov)"
  shows "length body \<le> 1900 \<and> prov_valid prov \<and> prov_rendered_digest prov = ser_sha256 ser body
    \<and> fset (prov_source_refs prov) = set refs \<and> (\<forall>r \<in> set refs. ref_current s r)
    \<and> distinct (map ref_id (sorted_list_of_fset (prov_source_refs prov)))"
proof -
  from assms obtain ls where r: "delivery_lines s refs = Inr ls" "length body \<le> 1900" "prov_valid prov"
    "prov = \<lparr>prov_version = 1, prov_source_refs = fset_of_list refs,
       prov_contributing_projects = fset_of_list (map ref_project refs),
       prov_rendered_digest = ser_sha256 ser body\<rparr>"
    by (rule render_deliveryE)
  have "distinct (map ref_id (sorted_list_of_fset (prov_source_refs prov)))"
    using r(3) by (rule prov_ids_distinct)
  with r delivery_lines_current [OF r(1)] show ?thesis by (simp add: fset_of_list.rep_eq)
qed

definition demo_serial :: serial where
  "demo_serial = \<lparr>ser_sha256 = (\<lambda>_. replicate 64 97), ser_task = (\<lambda>_. []), ser_decision = (\<lambda>_. [])\<rparr>"

lemma demo_digest: "byte_len (replicate 64 97) = 64" "list_all is_lower_hex (replicate 64 97)"
  by (simp_all add: byte_len_def sum_list_replicate utf8_len_def list_all_iff set_replicate_conv_if
      is_lower_hex_def)

lemma demo_task_lookup: "fmlookup (ws_tasks demo_task_store) 2 = Some (new_task demo_access demo_task 2)"
  by (simp add: demo_task_store_def demo_project_store_def demo_simps new_task_def)

lemma demo_render:
  "\<exists>body prov. render_delivery demo_serial demo_task_store [RefTask 1 2 0] 0 = Inr (body, prov)"
proof -
  let ?k = "new_task demo_access demo_task 2"
  have k: "task_project_id ?k = 1" "task_revision ?k = 0" "task_title ?k = lit ''ship''"
    "task_status ?k = StOpen" "task_priority ?k = 2" "task_due_at ?k = None"
    by (simp_all add: new_task_def demo_task_def)
  have d: "decimal 2 = [50]" "decimal 0 = [48]" by (simp_all add: decimal.simps)
  let ?l = "lit ''Task #'' @ [50] @ lit '' r'' @ [48] @ lit '': '' @ lit ''ship''
    @ [32, 8212, 32] @ lit ''open'' @ lit '' (priority '' @ [50] @ lit ''; deadline '' @ lit ''none'' @ lit '').''"
  have l: "delivery_line demo_task_store (RefTask 1 2 0) = Inr ?l"
    unfolding delivery_line_def work_content_ref.case demo_task_lookup option.case k d shortened_def
    by simp
  have len: "length ?l \<le> 1900" by simp
  let ?p = "\<lparr>prov_version = 1, prov_source_refs = {|RefTask 1 2 0|}, prov_contributing_projects = {|1|},
    prov_rendered_digest = replicate 64 97\<rparr>"
  have "prov_valid ?p" unfolding prov_valid_def using demo_digest by (simp add: fcard.rep_eq)
  then have "render_delivery demo_serial demo_task_store [RefTask 1 2 0] 0 = Inr (?l, ?p)"
    using l len by (simp add: render_delivery_def demo_serial_def Let_def)
  then show ?thesis by blast
qed

theorem rendered_delivery_is_current_witness:
  "ref_current demo_task_store (RefTask 1 2 0)"
proof -
  obtain body prov where "render_delivery demo_serial demo_task_store [RefTask 1 2 0] 0 = Inr (body, prov)"
    using demo_render by blast
  from rendered_delivery_is_current [OF this] show ?thesis by simp
qed

end
