(* ===== verification/Calendar.thy ===== *)
theory Calendar
  imports Work_Types
begin

text \<open>
  UTC validation and the IANA recurrence (\<open>src/calendar.rs\<close>). The crates \<open>chrono\<close> and
  \<open>chrono_tz\<close> are third-party: the record \<open>chrono\<close> holds the functions of theirs that the
  program calls, and every operation that uses them takes it as an argument. An instant
  is its Unix timestamp in seconds, a date its day number, a local date-time its minute
  number (day number times 1440 plus the minute of the day).
\<close>

datatype local_result = LocalSingle int | LocalAmbiguous int int | LocalNone

record 'tz chrono =
  ch_timestamp_ok :: "int \<Rightarrow> bool"
  ch_shift_ok :: "int \<Rightarrow> int \<Rightarrow> bool"
  ch_parse_tz :: "rstr \<Rightarrow> 'tz option"
  ch_date :: "'tz \<Rightarrow> int \<Rightarrow> int"
  ch_hour :: "'tz \<Rightarrow> int \<Rightarrow> nat"
  ch_from_local :: "'tz \<Rightarrow> int \<Rightarrow> local_result"
  ch_local_ok :: "int \<Rightarrow> bool"
  ch_pred_date :: "int \<Rightarrow> int option"
  ch_show_date :: "int \<Rightarrow> rstr"
  ch_parse_date :: "rstr \<Rightarrow> int option"
  ch_weekday :: "int \<Rightarrow> nat"
  ch_add_days :: "int \<Rightarrow> int \<Rightarrow> int option"
  ch_utc_date :: "int \<Rightarrow> int"

definition i64_max :: nat where
  "i64_max = 9223372036854775807"

definition utc :: "'tz chrono \<Rightarrow> u64 \<Rightarrow> work_error + int" where
  "utc ch seconds =
     (if i64_max < seconds then Inl Invalid
      else if \<not> ch_timestamp_ok ch (int seconds) then Inl Invalid
      else if \<not> ch_shift_ok ch (int seconds) 172800 then Inl Invalid
      else if \<not> ch_shift_ok ch (int seconds) (-172800) then Inl Invalid
      else Inr (int seconds))"

definition utc_ok :: "'tz chrono \<Rightarrow> u64 \<Rightarrow> bool" where
  "utc_ok ch seconds = (case utc ch seconds of Inl _ \<Rightarrow> False | Inr _ \<Rightarrow> True)"

lemma utc_Inr: "utc ch s = Inr at \<Longrightarrow> at = int s"
  by (auto simp: utc_def split: if_splits)

lemma utc_error: "utc ch s = Inl e \<Longrightarrow> e = Invalid"
  by (auto simp: utc_def split: if_splits)

text \<open>
  The loop of \<open>local_hour\<close> probes at most 1,441 consecutive local minutes; the bound is
  the code's own (\<open>0..=1_440\<close>), so no fuel is added.
\<close>

fun local_probe :: "'tz chrono \<Rightarrow> 'tz \<Rightarrow> nat \<Rightarrow> int \<Rightarrow> work_error + int" where
  "local_probe ch tz 0 minute = Inl Invalid"
| "local_probe ch tz (Suc n) minute =
     (case ch_from_local ch tz minute of
        LocalSingle t \<Rightarrow> Inr t
      | LocalAmbiguous a b \<Rightarrow> Inr (min a b)
      | LocalNone \<Rightarrow>
          if ch_local_ok ch (minute + 1) then local_probe ch tz n (minute + 1) else Inl Invalid)"

definition local_hour :: "'tz chrono \<Rightarrow> 'tz \<Rightarrow> int \<Rightarrow> u8 \<Rightarrow> work_error + int" where
  "local_hour ch tz day hour =
     (if 24 \<le> hour then Inl Invalid
      else local_probe ch tz 1441 (day * 1440 + int hour * 60))"

text \<open>The resolved instant of one local minute, when it exists.\<close>

fun resolved :: "local_result \<Rightarrow> int option" where
  "resolved (LocalSingle t) = Some t"
| "resolved (LocalAmbiguous a b) = Some (min a b)"
| "resolved LocalNone = None"

lemma local_probe_Inr:
  "local_probe ch tz n m = Inr t \<longleftrightarrow>
     (\<exists>k<n. resolved (ch_from_local ch tz (m + int k)) = Some t
        \<and> (\<forall>j<k. ch_from_local ch tz (m + int j) = LocalNone \<and> ch_local_ok ch (m + int j + 1)))"
proof (induction n arbitrary: m)
  case 0
  then show ?case by simp
next
  case (Suc n)
  let ?r = "ch_from_local ch tz"
  have shift: "(\<exists>k<Suc n. P k) \<longleftrightarrow> P 0 \<or> (\<exists>k<n. P (Suc k))" for P :: "nat \<Rightarrow> bool"
    by (metis less_Suc_eq_0_disj)
  have all_shift: "(\<forall>j<Suc k. Q j) \<longleftrightarrow> Q 0 \<and> (\<forall>j<k. Q (Suc j))" for Q :: "nat \<Rightarrow> bool" and k
    by (metis less_Suc_eq_0_disj)
  show ?case
  proof (cases "?r m")
    case LocalNone
    then show ?thesis
      by (simp add: shift all_shift Suc.IH add.assoc add.commute add.left_commute) blast?
  qed (auto simp: shift all_shift)
qed

text \<open>
  A concrete calendar for examples: one time zone without offset changes, days counted
  from the epoch (a Thursday) and printed as their number.
\<close>

definition demo_chrono :: "unit chrono" where
  "demo_chrono = \<lparr>ch_timestamp_ok = (\<lambda>_. True), ch_shift_ok = (\<lambda>_ _. True),
     ch_parse_tz = (\<lambda>z. if z = lit ''UTC'' then Some () else None), ch_date = (\<lambda>_ t. t div 86400),
     ch_hour = (\<lambda>_ t. nat (t div 3600 mod 24)), ch_from_local = (\<lambda>_ m. LocalSingle (m * 60)),
     ch_local_ok = (\<lambda>_. True), ch_pred_date = (\<lambda>d. Some (d - 1)),
     ch_show_date = (\<lambda>d. decimal (nat d)), ch_parse_date = (\<lambda>s. map_option int (parse_u64 s)),
     ch_weekday = (\<lambda>d. nat ((d + 3) mod 7)), ch_add_days = (\<lambda>d n. Some (d + n)),
     ch_utc_date = (\<lambda>t. t div 86400)\<rparr>"

end
