(* ===== verification/Work_Automation.thy ===== *)
theory Work_Automation
  imports Work_Delivery Calendar
begin

text \<open>
  Automation policies of a scope and the reminders of its tasks (the configuring half of
  \<open>src/work/schedule.rs\<close>): validation, quiet hours, explicit opt-in by a manager, and the
  two-revision updates of reminders and snoozes.
\<close>

section \<open>Policies\<close>

definition policy_valid :: "'tz chrono \<Rightarrow> work_automation_policy \<Rightarrow> bool" where
  "policy_valid ch p \<longleftrightarrow> \<not> (24 \<le> ap_quiet_start p \<or> 24 \<le> ap_quiet_end p
     \<or> 24 \<le> ap_briefing_hour p \<or> ap_daily_limit p = 0 \<or> 4 < ap_daily_limit p
     \<or> (ap_timezone p \<noteq> [] \<and> ch_parse_tz ch (ap_timezone p) = None)
     \<or> ap_destination p = Some 0
     \<or> is_some_and (ap_delivery_target p) (\<lambda>d. case d of
          DestPersonal m \<Rightarrow> m = 0 | DestTeamPrivate m \<Rightarrow> m = 0 | DestTeamChannel c \<Rightarrow> c = 0)
     \<or> (ap_enabled p \<and> (is_none_or (ap_destination p) (\<lambda>i. i = 0) \<or> ap_timezone p = [])))"

definition quiet :: "work_automation_policy \<Rightarrow> nat \<Rightarrow> bool" where
  "quiet p hour =
     (let start = ap_quiet_start p; stop = ap_quiet_end p in
      if start < stop then start \<le> hour \<and> hour < stop
      else if stop < start then start \<le> hour \<or> hour < stop
      else False)"

definition scope_projects ::
  "work_store \<Rightarrow> work_scope \<Rightarrow> work_access \<Rightarrow> bool \<Rightarrow> work_error + work_project list" where
  "scope_projects s scope a manager =
     (let ps = filter (\<lambda>p. proj_scope p = scope) (fm_values (ws_projects s)) in
      if ps = [] then Inl Missing
      else if \<exists>p \<in> set ps. \<not> authorized p a manager then Inl Denied
      else Inr ps)"

definition old_revision :: "work_store \<Rightarrow> work_scope \<Rightarrow> u64" where
  "old_revision s scope =
     (case fmlookup (ws_scope_automation s) (scope_key scope) of None \<Rightarrow> 0 | Some p \<Rightarrow> ap_revision p)"

text \<open>Whether a policy that carries the stored revision differs from what is stored.\<close>

definition policy_changed ::
  "work_store \<Rightarrow> work_scope \<Rightarrow> work_access \<Rightarrow> work_automation_policy \<Rightarrow> bool" where
  "policy_changed s scope a policy \<longleftrightarrow>
     fmlookup (ws_scope_automation s) (scope_key scope) \<noteq> Some policy
     \<or> (ap_enabled policy
        \<and> fmlookup (ws_scope_automation_actors s) (scope_key scope) \<noteq> Some (acc_actor a))"

text \<open>Baselines are seeded once; enabling makes the caller the subscriber.\<close>

definition store_policy ::
  "serial \<Rightarrow> work_scope \<Rightarrow> work_access \<Rightarrow> work_automation_policy \<Rightarrow> work_store \<Rightarrow> work_store" where
  "store_policy ser scope a policy s =
     (let key = scope_key scope in
      s\<lparr>ws_change_coverage := (if ap_enabled policy \<and> fmlookup (ws_change_coverage s) key = None
           then fmupd key (content_refs s scope) (ws_change_coverage s) else ws_change_coverage s),
        ws_change_fingerprints :=
          (if ap_enabled policy \<and> fmlookup (ws_change_fingerprints s) key = None
           then fmupd key (content_fingerprints ser s scope) (ws_change_fingerprints s)
           else ws_change_fingerprints s),
        ws_scope_automation_actors := (if ap_enabled policy
           then fmupd key (acc_actor a) (ws_scope_automation_actors s)
           else fmdrop key (ws_scope_automation_actors s)),
        ws_scope_automation := fmupd key policy (ws_scope_automation s)\<rparr>)"

definition configure_automation ::
  "'tz chrono \<Rightarrow> serial \<Rightarrow> work_scope \<Rightarrow> work_access \<Rightarrow> work_automation_policy \<Rightarrow> unit store_op" where
  "configure_automation ch ser scope a given s =
     (case scope_projects s scope a True of
        Inl e \<Rightarrow> (Inl e, s)
      | Inr _ \<Rightarrow>
          if \<not> policy_valid ch given then (Inl Invalid, s)
          else (case delivery_target scope a given of
              Inl e \<Rightarrow> (Inl e, s)
            | Inr _ \<Rightarrow>
                let policy = given\<lparr>ap_revision := old_revision s scope\<rparr>
                in (case (if policy_changed s scope a policy then checked_add (ap_revision policy) 1
                      else Some (ap_revision policy)) of
                     None \<Rightarrow> (Inl Full, s)
                   | Some n \<Rightarrow> (Inr (), store_policy ser scope a (policy\<lparr>ap_revision := n\<rparr>) s))))"

section \<open>Reminders\<close>

definition set_reminder ::
  "'tz chrono \<Rightarrow> work_access \<Rightarrow> u64 \<Rightarrow> u64 \<Rightarrow> u64 option \<Rightarrow> unit store_op" where
  "set_reminder ch a i revision remind_at s =
     (case fmlookup (ws_tasks s) i of
        None \<Rightarrow> (Inl Missing, s)
      | Some t \<Rightarrow>
          (case project s (task_project_id t) a of
             Inl e \<Rightarrow> (Inl e, s)
           | Inr _ \<Rightarrow>
               if task_revision t \<noteq> revision then (Inl Stale, s)
               else if is_some_and remind_at (\<lambda>at. \<not> utc_ok ch at) then (Inl Invalid, s)
               else if task_remind_at t = remind_at then (Inr (), s)
               else (case checked_add (task_revision t) 1 of
                   None \<Rightarrow> (Inl Full, s)
                 | Some n \<Rightarrow>
                     (case checked_add (task_reminder_revision t) 1 of
                        None \<Rightarrow> (Inl Full, s)
                      | Some m \<Rightarrow>
                          (Inr (), s\<lparr>ws_tasks := fmupd i (t\<lparr>task_remind_at := remind_at,
                               task_reminder_revision := m, task_revision := n\<rparr>) (ws_tasks s),
                             ws_recall := recall_task_changed (task_project_id t) i n (ws_recall s)\<rparr>)))))"

definition snooze_task :: "'tz chrono \<Rightarrow> work_access \<Rightarrow> u64 \<Rightarrow> u64 \<Rightarrow> u64 \<Rightarrow> u64 store_op" where
  "snooze_task ch a i revision until s =
     (if \<not> utc_ok ch until then (Inl Invalid, s)
      else case fmlookup (ws_tasks s) i of
        None \<Rightarrow> (Inl Missing, s)
      | Some t \<Rightarrow>
          (case project s (task_project_id t) a of
             Inl e \<Rightarrow> (Inl e, s)
           | Inr _ \<Rightarrow>
               if task_revision t \<noteq> revision then (Inl Stale, s)
               else let reminder = (task_remind_at t \<noteq> None) in
                 if checked_add revision (if reminder then 2 else 1) = None then (Inl Full, s)
                 else if reminder \<and> checked_add (task_reminder_revision t) 1 = None then (Inl Full, s)
                 else op_then (update_task a i revision (task_status t) (Some until) s) (\<lambda>n s.
                   op_then (if reminder then set_reminder ch a i n (Some until) s else (Inr (), s)) (\<lambda>_ s.
                     (case fmlookup (ws_tasks s) i of
                        None \<Rightarrow> (Inl Missing, s)
                      | Some t \<Rightarrow> (Inr (task_revision t), s))))))"

section \<open>Lemmas\<close>

lemma scope_projects_Inr:
  "scope_projects s scope a m = Inr ps \<longleftrightarrow>
     ps = filter (\<lambda>p. proj_scope p = scope) (fm_values (ws_projects s)) \<and> ps \<noteq> []
     \<and> (\<forall>p \<in> set ps. authorized p a m)"
  by (auto simp: scope_projects_def Let_def)

lemma set_reminderE:
  assumes "set_reminder ch a i revision at s = (r, t)"
  obtains (failed) e where "r = Inl e" "t = s"
  | (same) k where "r = Inr ()" "t = s" "fmlookup (ws_tasks s) i = Some k" "task_remind_at k = at"
      "task_revision k = revision"
  | (changed) k q where "r = Inr ()" "fmlookup (ws_tasks s) i = Some k" "task_revision k = revision"
      "task_remind_at k \<noteq> at" "Suc revision \<le> u64_max"
      "fmlookup (ws_projects s) (task_project_id k) = Some q" "authorized q a False"
      "t = s\<lparr>ws_tasks := fmupd i (k\<lparr>task_remind_at := at,
           task_reminder_revision := Suc (task_reminder_revision k), task_revision := Suc revision\<rparr>) (ws_tasks s),
         ws_recall := recall_task_changed (task_project_id k) i (Suc revision) (ws_recall s)\<rparr>"
proof -
  note op = assms [unfolded set_reminder_def]
  show ?thesis
    using op
  proof (elim guard_optionE guard_sumE guardE)
    fix k q
    assume k: "fmlookup (ws_tasks s) i = Some k" "project s (task_project_id k) a = Inr q"
      "\<not> task_revision k \<noteq> revision" "\<not> is_some_and at (\<lambda>at. \<not> utc_ok ch at)"
    assume rest: "(if task_remind_at k = at then (Inr (), s)
        else (case checked_add (task_revision k) 1 of None \<Rightarrow> (Inl Full, s)
            | Some n \<Rightarrow> (case checked_add (task_reminder_revision k) 1 of None \<Rightarrow> (Inl Full, s)
              | Some m \<Rightarrow> (Inr (), s\<lparr>ws_tasks := fmupd i (k\<lparr>task_remind_at := at,
                   task_reminder_revision := m, task_revision := n\<rparr>) (ws_tasks s),
                 ws_recall := recall_task_changed (task_project_id k) i n (ws_recall s)\<rparr>)))) = (r, t)"
    show thesis
    proof (cases "task_remind_at k = at")
      case True
      with rest k show ?thesis by (intro same) auto
    next
      case False
      from rest [unfolded if_not_P [OF False]] show ?thesis
        by (elim guard_optionE) ((rule failed; assumption) | (rule changed; use k False in auto))+
    qed
  qed (rule failed; assumption)+
qed

lemma update_task_ok:
  assumes "fmlookup (ws_tasks s) i = Some k" and "fmlookup (ws_projects s) (task_project_id k) = Some q"
    and "authorized q a False" and "Suc (task_revision k) \<le> u64_max"
  shows "update_task a i (task_revision k) status snoozed s = (Inr (Suc (task_revision k)),
    s\<lparr>ws_tasks := fmupd i (k\<lparr>task_status := status, task_snoozed_until := snoozed,
         task_revision := Suc (task_revision k)\<rparr>) (ws_tasks s),
       ws_recall := recall_task_changed (task_project_id k) i (Suc (task_revision k)) (ws_recall s)\<rparr>)"
  using assms by (simp add: update_task_def project_def)

lemma set_reminder_ok:
  assumes "fmlookup (ws_tasks s) i = Some k" and "fmlookup (ws_projects s) (task_project_id k) = Some q"
    and "authorized q a False" and "is_none_or at (utc_ok ch)"
    and "Suc (task_revision k) \<le> u64_max" and "Suc (task_reminder_revision k) \<le> u64_max"
  shows "set_reminder ch a i (task_revision k) at s = (Inr (),
    if task_remind_at k = at then s
    else s\<lparr>ws_tasks := fmupd i (k\<lparr>task_remind_at := at,
           task_reminder_revision := Suc (task_reminder_revision k),
           task_revision := Suc (task_revision k)\<rparr>) (ws_tasks s),
         ws_recall := recall_task_changed (task_project_id k) i (Suc (task_revision k)) (ws_recall s)\<rparr>)"
  using assms by (auto simp: set_reminder_def project_def is_none_or_iff is_some_and_iff)

section \<open>Properties\<close>

text \<open>
  Quiet hours are the circular interval from the start hour to the end hour: an hour
  is quiet exactly when its clockwise distance from the start is below the length of the
  interval, so an interval over midnight works and equal boundaries disable quiet hours.
\<close>

theorem quiet_hours_are_circular:
  assumes "hour < 24" and "ap_quiet_start p < 24" and "ap_quiet_end p < 24"
  shows "quiet p hour \<longleftrightarrow>
    (hour + 24 - ap_quiet_start p) mod 24 < (ap_quiet_end p + 24 - ap_quiet_start p) mod 24"
proof -
  have wrap: "(x + 24 - y) mod 24 = (if y \<le> x then x - y else x + 24 - y)"
    if "x < 24" "y < 24" for x y :: nat
    using that by (auto simp: mod_if)
  show ?thesis
    unfolding quiet_def Let_def wrap [OF assms(1,2)] wrap [OF assms(3,2)]
    using assms by auto
qed

theorem quiet_hours_are_circular_witness:
  "quiet default_policy 23 \<and> quiet default_policy 7 \<and> \<not> quiet default_policy 8"
proof -
  have "ap_quiet_start default_policy < 24" "ap_quiet_end default_policy < 24"
    by (simp_all add: default_policy_def)
  note q = quiet_hours_are_circular [OF _ this]
  show ?thesis
    using q [of 23] q [of 7] q [of 8] by (simp add: default_policy_def)
qed

text \<open>
  Automation is an explicit, validated choice of a manager. An accepted configuration
  comes from somebody authorised as manager of every project of the scope; what is stored
  is the given policy, valid, with a destination the caller may name, its revision moving
  up by one exactly when the policy or the subscriber changes; the subscriber is the caller
  or nobody; coverage that exists is never reset; and other scopes keep everything.
\<close>

theorem configuration_is_explicit:
  assumes "configure_automation ch ser scope a policy s = (Inr (), t)"
  shows "(\<forall>i p. fmlookup (ws_projects s) i = Some p \<and> proj_scope p = scope \<longrightarrow> authorized p a True)
    \<and> (\<exists>p. fmlookup (ws_scope_automation t) (scope_key scope) = Some p \<and> policy_valid ch p
        \<and> p = policy\<lparr>ap_revision := (if policy_changed s scope a (policy\<lparr>ap_revision := old_revision s scope\<rparr>)
            then Suc (old_revision s scope) else old_revision s scope)\<rparr>
        \<and> (\<exists>d. delivery_target scope a p = Inr d \<and> dest_valid d scope (acc_actor a)))
    \<and> fmlookup (ws_scope_automation_actors t) (scope_key scope) =
        (if ap_enabled policy then Some (acc_actor a) else None)
    \<and> (\<forall>c. fmlookup (ws_change_coverage s) (scope_key scope) = Some c
        \<longrightarrow> fmlookup (ws_change_coverage t) (scope_key scope) = Some c)
    \<and> (\<forall>other. other \<noteq> scope \<longrightarrow>
        fmlookup (ws_scope_automation t) (scope_key other) = fmlookup (ws_scope_automation s) (scope_key other)
        \<and> fmlookup (ws_scope_automation_actors t) (scope_key other)
            = fmlookup (ws_scope_automation_actors s) (scope_key other)
        \<and> fmlookup (ws_change_coverage t) (scope_key other)
            = fmlookup (ws_change_coverage s) (scope_key other))"
proof -
  let ?r = "old_revision s scope"
  have "\<exists>ps d n. scope_projects s scope a True = Inr ps \<and> policy_valid ch policy
      \<and> delivery_target scope a policy = Inr d
      \<and> (if policy_changed s scope a (policy\<lparr>ap_revision := ?r\<rparr>) then checked_add ?r 1 else Some ?r) = Some n
      \<and> t = store_policy ser scope a (policy\<lparr>ap_revision := n\<rparr>) s"
    using assms unfolding configure_automation_def Let_def
    by (elim guard_sumE guard_optionE guardE) auto
  then obtain ps d n where ps: "scope_projects s scope a True = Inr ps"
    and valid: "policy_valid ch policy" and d: "delivery_target scope a policy = Inr d"
    and n: "(if policy_changed s scope a (policy\<lparr>ap_revision := ?r\<rparr>) then checked_add ?r 1 else Some ?r) = Some n"
    and t: "t = store_policy ser scope a (policy\<lparr>ap_revision := n\<rparr>) s"
    by (elim exE conjE)
  have n': "n = (if policy_changed s scope a (policy\<lparr>ap_revision := ?r\<rparr>) then Suc ?r else ?r)"
    using n by (auto split: if_splits)
  have auth: "authorized p a True" if "fmlookup (ws_projects s) i = Some p" "proj_scope p = scope" for i p
    using ps that unfolding scope_projects_Inr by (auto simp: fmlookup_ran'_iff)
  have p: "policy_valid ch (policy\<lparr>ap_revision := n\<rparr>)" using valid by (simp add: policy_valid_def)
  have d': "delivery_target scope a (policy\<lparr>ap_revision := n\<rparr>) = Inr d"
    using d by (simp add: delivery_target_def Let_def split: if_splits)
  have dv: "dest_valid d scope (acc_actor a)"
    using d by (auto simp: delivery_target_def Let_def split: if_splits)
  have stored: "fmlookup (ws_scope_automation t) (scope_key scope) = Some (policy\<lparr>ap_revision := n\<rparr>)"
    unfolding t by (simp add: store_policy_def Let_def)
  have frame: "fmlookup (ws_scope_automation_actors t) (scope_key scope) =
        (if ap_enabled policy then Some (acc_actor a) else None)"
    "fmlookup (ws_change_coverage s) (scope_key scope) = Some c
        \<Longrightarrow> fmlookup (ws_change_coverage t) (scope_key scope) = Some c"
    "other \<noteq> scope \<Longrightarrow>
        fmlookup (ws_scope_automation t) (scope_key other) = fmlookup (ws_scope_automation s) (scope_key other)
        \<and> fmlookup (ws_scope_automation_actors t) (scope_key other)
            = fmlookup (ws_scope_automation_actors s) (scope_key other)
        \<and> fmlookup (ws_change_coverage t) (scope_key other)
            = fmlookup (ws_change_coverage s) (scope_key other)" for c other
    unfolding t by (auto simp: store_policy_def Let_def)
  show ?thesis
    unfolding n' [symmetric]
    by (intro conjI) (use auth in blast, use p d' dv stored in blast, use frame in simp_all)
qed

definition demo_policy :: work_automation_policy where
  "demo_policy = default_policy\<lparr>ap_enabled := True, ap_destination := Some 9, ap_timezone := lit ''UTC''\<rparr>"

lemma demo_project_lookup:
  "fmlookup (ws_projects demo_task_store) i = (if i = 1 then Some (new_project demo_access (lit ''plan'') 1) else None)"
  by (simp add: demo_task_store_def demo_project_store_def demo_simps new_project_def)

lemma demo_projects: "fm_values (ws_projects demo_task_store) = [new_project demo_access (lit ''plan'') 1]"
  by (simp add: demo_task_store_def demo_project_store_def demo_simps new_project_def)

lemma demo_configured:
  "configure_automation demo_chrono demo_serial (ScopePersonal 7) demo_access demo_policy demo_task_store
     = (Inr (), store_policy demo_serial (ScopePersonal 7) demo_access (demo_policy\<lparr>ap_revision := 1\<rparr>) demo_task_store)"
proof -
  have auto: "ws_scope_automation demo_task_store = fmempty"
    by (simp add: demo_task_store_def demo_project_store_def demo_simps)
  have old: "old_revision demo_task_store (ScopePersonal 7) = 0"
    by (simp add: old_revision_def auto)
  have changed: "policy_changed demo_task_store (ScopePersonal 7) ac p" for ac p
    by (simp add: policy_changed_def auto)
  show ?thesis
    by (simp add: configure_automation_def scope_projects_def demo_projects Let_def old changed
        new_project_def access_scope_def demo_access_def authorized_def policy_valid_def demo_policy_def
        default_policy_def delivery_target_def default_target_def u64_max_def demo_chrono_def)
qed

theorem configuration_is_explicit_witness:
  "fmlookup (ws_scope_automation_actors
     (store_policy demo_serial (ScopePersonal 7) demo_access (demo_policy\<lparr>ap_revision := 1\<rparr>) demo_task_store))
     (scope_key (ScopePersonal 7)) = Some 7"
  using configuration_is_explicit [OF demo_configured]
  by (simp add: demo_policy_def default_policy_def demo_access_def)

text \<open>
  Snoozing is atomic. A rejected snooze leaves the store as it was; an accepted one
  sets the snooze, moves an existing reminder to the same time (and never creates one),
  keeps everything else of the task, and returns the revision the task then has.
\<close>

theorem snooze_is_atomic:
  shows "(case snooze_task ch a i revision until s of
      (Inl e, t) \<Rightarrow> t = s
    | (Inr n, t) \<Rightarrow> is_some_and (fmlookup (ws_tasks s) i) (\<lambda>k.
        task_revision k = revision \<and> utc_ok ch until
        \<and> n = revision + (if task_remind_at k \<noteq> None \<and> task_remind_at k \<noteq> Some until then 2 else 1)
        \<and> fmlookup (ws_tasks t) i = Some (k\<lparr>task_snoozed_until := Some until,
            task_remind_at := (if task_remind_at k = None then None else Some until),
            task_reminder_revision := task_reminder_revision k
              + (if task_remind_at k \<noteq> None \<and> task_remind_at k \<noteq> Some until then 1 else 0),
            task_revision := n\<rparr>)
        \<and> ws_projects t = ws_projects s))"
proof (cases "fmlookup (ws_tasks s) i")
  case None
  then show ?thesis by (simp add: snooze_task_def)
next
  case (Some k)
  show ?thesis
  proof (cases "\<exists>q. fmlookup (ws_projects s) (task_project_id k) = Some q \<and> authorized q a False")
    case False
    then have "\<exists>e. project s (task_project_id k) a = Inl e"
      by (auto simp: project_def split: option.splits)
    with Some show ?thesis by (auto simp: snooze_task_def)
  next
    case True
    then obtain q where q: "fmlookup (ws_projects s) (task_project_id k) = Some q" "authorized q a False"
      by blast
    have p: "project s (task_project_id k) a = Inr q" using q by simp
    note upd = update_task_ok [OF Some q, of "task_status k" "Some until"]
    show ?thesis
    proof (cases "utc_ok ch until \<and> task_revision k = revision")
      case False
      with Some show ?thesis by (auto simp: snooze_task_def p simp del: project_Inr)
    next
      case guards: True
      show ?thesis
      proof (cases "task_remind_at k")
        case None
        with guards Some upd show ?thesis
          by (cases "Suc revision \<le> u64_max") (simp_all add: snooze_task_def Let_def p del: project_Inr)
      next
        case (Some old)
        let ?u = "s\<lparr>ws_tasks := fmupd i (k\<lparr>task_status := task_status k, task_snoozed_until := Some until,
             task_revision := Suc (task_revision k)\<rparr>) (ws_tasks s),
           ws_recall := recall_task_changed (task_project_id k) i (Suc (task_revision k)) (ws_recall s)\<rparr>"
        let ?k = "k\<lparr>task_status := task_status k, task_snoozed_until := Some until,
             task_revision := Suc (task_revision k)\<rparr>"
        have u: "fmlookup (ws_tasks ?u) i = Some ?k"
          "fmlookup (ws_projects ?u) (task_project_id ?k) = Some q" using q by simp_all
        note rem = set_reminder_ok [OF u q(2), of "Some until" ch]
        show ?thesis
        proof (cases "Suc (Suc revision) \<le> u64_max \<and> Suc (task_reminder_revision k) \<le> u64_max")
          case False
          with guards \<open>fmlookup (ws_tasks s) i = Some k\<close> Some show ?thesis
            by (auto simp: snooze_task_def Let_def p simp del: project_Inr)
        next
          case fits: True
          with guards \<open>fmlookup (ws_tasks s) i = Some k\<close> Some upd rem show ?thesis
            by (simp add: snooze_task_def Let_def p del: project_Inr)
        qed
      qed
    qed
  qed
qed

end
