(* ===== verification/Work_Policy.thy ===== *)
theory Work_Policy
  imports Work_Automation
begin

text \<open>
  Scope-local preferences (\<open>src/work/policy.rs\<close>): the deterministic recomputation of what
  was learned from attributed feedback, the bounded evidence window, the record of which
  deliveries an actor has already answered, explicit controls, and the automation update
  that combines them.
\<close>

section \<open>Profiles\<close>

definition attributed :: "preference_evidence \<Rightarrow> bool" where
  "attributed e \<longleftrightarrow> is_some_and (ev_actor e) (\<lambda>a. a \<noteq> 0) \<and> ev_scope e \<noteq> None \<and> ev_kind e \<noteq> None"

definition effective_hour :: "preference_profile \<Rightarrow> u8 \<Rightarrow> u8" where
  "effective_hour p default_hour =
     (case prof_explicit_hour p of
        Some h \<Rightarrow> h
      | None \<Rightarrow> (case (if prof_learning_enabled p then prof_learned_hour p else None) of
          Some h \<Rightarrow> h | None \<Rightarrow> default_hour))"

definition snooze_count :: "preference_evidence list \<Rightarrow> nat \<Rightarrow> nat" where
  "snooze_count es h = length (filter (\<lambda>e. ev_feedback e = Snoozed h) es)"

definition dismissed_count :: "preference_evidence list \<Rightarrow> nat" where
  "dismissed_count es = length (filter (\<lambda>e. ev_feedback e = Dismissed) es)"

definition briefing_count :: "work_feedback \<Rightarrow> preference_evidence list \<Rightarrow> nat" where
  "briefing_count f es = length (filter (\<lambda>e. ev_feedback e = f \<and> ev_kind e = Some Briefing) es)"

definition learned_hour :: "preference_evidence list \<Rightarrow> u8 option" where
  "learned_hour es =
     (case max_by_key (\<lambda>h. (snooze_count es h, - int h)) [0..<24] of
        None \<Rightarrow> None
      | Some h \<Rightarrow> if 5 \<le> snooze_count es h then Some h else None)"

definition briefing_rank :: "preference_evidence list \<Rightarrow> int" where
  "briefing_rank es =
     (let useful = briefing_count Useful es; dismissed = briefing_count Dismissed es in
      if 5 \<le> useful \<and> dismissed < useful then 1
      else if 5 \<le> dismissed \<and> useful < dismissed then -1 else 0)"

definition recompute :: "preference_profile \<Rightarrow> preference_profile" where
  "recompute p =
     (let es = filter attributed (prof_evidence p) in
      if \<not> prof_learning_enabled p \<or> length es < 5
      then p\<lparr>prof_learned_hour := None, prof_reduce_followups := False, prof_briefing_rank := 0\<rparr>
      else p\<lparr>prof_learned_hour := learned_hour es,
             prof_reduce_followups := 5 \<le> dismissed_count es,
             prof_briefing_rank := briefing_rank es\<rparr>)"

definition evidence_pairs :: "preference_evidence list \<Rightarrow> (u64 \<times> u64) list" where
  "evidence_pairs es = List.map_filter
     (\<lambda>e. map_option (Pair (ev_delivery_id e)) (ev_actor e)) (filter attributed es)"

definition remember_observations :: "preference_profile \<Rightarrow> preference_profile" where
  "remember_observations p =
     p\<lparr>prof_observed := prof_observed p |\<union>| fset_of_list (evidence_pairs (prof_evidence p))\<rparr>"

fun snooze_out_of_range :: "work_feedback \<Rightarrow> bool" where
  "snooze_out_of_range (Snoozed h) = (24 \<le> h)"
| "snooze_out_of_range _ = False"

definition observe ::
  "preference_evidence \<Rightarrow> preference_profile \<Rightarrow> (work_error + unit) \<times> preference_profile" where
  "observe e p =
     (if snooze_out_of_range (ev_feedback e) then (Inl Invalid, p)
      else let p = remember_observations p in
        (case ev_actor e of
           None \<Rightarrow> (Inr (), p)
         | Some actor \<Rightarrow>
             if actor = 0 then (Inr (), p)
             else if ev_scope e = None \<or> ev_kind e = None then (Inr (), p)
             else if (ev_delivery_id e, actor) |\<in>| prof_observed p then (Inr (), p)
             else let kept = filter attributed (prof_evidence p);
                      window = (if 100 \<le> length kept then drop (length kept - 99) kept else kept)
               in (Inr (), recompute (p\<lparr>prof_observed := finsert (ev_delivery_id e, actor) (prof_observed p),
                    prof_evidence := window @ [e]\<rparr>))))"

definition reset_profile :: "preference_profile \<Rightarrow> preference_profile" where
  "reset_profile p = recompute ((remember_observations p)\<lparr>prof_evidence := []\<rparr>)"

section \<open>Store operations\<close>

record preference_snapshot =
  ps_profile :: preference_profile
  ps_timezone :: "rstr option"
  ps_effective_hour :: u8

definition stored_profile :: "work_store \<Rightarrow> rstr \<Rightarrow> preference_profile" where
  "stored_profile s key =
     (case fmlookup (ws_preferences s) key of None \<Rightarrow> default_profile | Some p \<Rightarrow> p)"

definition put_profile :: "rstr \<Rightarrow> preference_profile \<Rightarrow> work_store \<Rightarrow> work_store" where
  "put_profile key p s = s\<lparr>ws_preferences := fmupd key p (ws_preferences s)\<rparr>"

definition get_preference_profile ::
  "work_store \<Rightarrow> work_access \<Rightarrow> work_error + preference_profile" where
  "get_preference_profile s a =
     rbind (scope_projects s (access_scope a) a False)
       (\<lambda>_. Inr (recompute (stored_profile s (scope_key (access_scope a)))))"

definition get_preference_snapshot :: "work_store \<Rightarrow> work_access \<Rightarrow> work_error + preference_snapshot" where
  "get_preference_snapshot s a = rbind (get_preference_profile s a) (\<lambda>p.
     let policy = fmlookup (ws_scope_automation s) (scope_key (access_scope a)) in
     Inr \<lparr>ps_profile = p, ps_timezone = map_option ap_timezone policy,
       ps_effective_hour = effective_hour p (case policy of None \<Rightarrow> 9 | Some q \<Rightarrow> ap_briefing_hour q)\<rparr>)"

definition controlled_profile ::
  "bool option \<Rightarrow> u8 option option \<Rightarrow> bool \<Rightarrow> preference_profile \<Rightarrow> preference_profile" where
  "controlled_profile enabled explicit_hour reset p =
     (let p = (case enabled of Some b \<Rightarrow> p\<lparr>prof_learning_enabled := b\<rparr> | None \<Rightarrow> p);
          p = (case explicit_hour of Some h \<Rightarrow> p\<lparr>prof_explicit_hour := h\<rparr> | None \<Rightarrow> p);
          p = (if reset then reset_profile p else p)
      in recompute p)"

definition controlled_recall ::
  "work_scope \<Rightarrow> bool option \<Rightarrow> bool \<Rightarrow> preference_profile \<Rightarrow> work_recall_state \<Rightarrow> work_recall_state" where
  "controlled_recall scope enabled reset p r =
     (let r = (case enabled of
          Some b \<Rightarrow> if prof_learning_enabled p \<noteq> b then recall_learning_changed scope r else r
        | None \<Rightarrow> r)
      in if reset then recall_preferences_reset scope r else r)"

definition control_preferences ::
  "work_access \<Rightarrow> bool option \<Rightarrow> u8 option option \<Rightarrow> bool \<Rightarrow> unit store_op" where
  "control_preferences a enabled explicit_hour reset s =
     (let scope = access_scope a; key = scope_key scope in
      (case scope_projects s scope a True of
         Inl e \<Rightarrow> (Inl e, s)
       | Inr _ \<Rightarrow>
           if is_some_and explicit_hour (\<lambda>h. is_some_and h (\<lambda>h. 24 \<le> h)) then (Inl Invalid, s)
           else let p = stored_profile s key in
             (Inr (), put_profile key (controlled_profile enabled explicit_hour reset p)
               (s\<lparr>ws_recall := controlled_recall scope enabled reset p (ws_recall s)\<rparr>))))"

definition feedback_target ::
  "work_store \<Rightarrow> work_access \<Rightarrow> u64 \<Rightarrow> u64 \<Rightarrow> work_error + delivery_receipt" where
  "feedback_target s a delivery now =
     (case fmlookup (ws_deliveries s) delivery of
        None \<Rightarrow> Inl Missing
      | Some r \<Rightarrow>
          if rc_state r \<noteq> Sent \<or> rc_message_id r = None \<or> rc_scope r \<noteq> Some (access_scope a)
            \<or> rc_kind r = None \<or> now < rc_at r \<or> \<not> feedback_destination_matches r a
          then Inl Denied
          else Inr r)"

definition correct_evidence ::
  "u64 \<Rightarrow> nat \<Rightarrow> work_feedback option \<Rightarrow> preference_profile \<Rightarrow> preference_profile" where
  "correct_evidence now index feedback p =
     (let p = remember_observations p in
      recompute (case feedback of
        Some f \<Rightarrow> p\<lparr>prof_evidence := (prof_evidence p)[index :=
          (prof_evidence p ! index)\<lparr>ev_feedback := f, ev_at := now\<rparr>]\<rparr>
      | None \<Rightarrow> p\<lparr>prof_evidence := vec_remove index (prof_evidence p)\<rparr>))"

definition recall_displaced ::
  "work_scope \<Rightarrow> preference_evidence list \<Rightarrow> preference_evidence list
     \<Rightarrow> work_recall_state \<Rightarrow> work_recall_state" where
  "recall_displaced scope previous current r =
     fold (\<lambda>old r. if old \<notin> set current
        then (case ev_actor old of
            Some actor \<Rightarrow> recall_preference_changed scope (ev_delivery_id old) actor r
          | None \<Rightarrow> r)
        else r) previous r"

text \<open>The body of \<open>feedback\<close> once the receipt is accepted: the profile entry exists from
  here on, in the error cases too.\<close>

definition record_feedback ::
  "work_access \<Rightarrow> work_delivery_kind option \<Rightarrow> u64 \<Rightarrow> work_feedback option \<Rightarrow> bool \<Rightarrow> u64
     \<Rightarrow> unit store_op" where
  "record_feedback a kind delivery given correction now s =
     (let scope = access_scope a; key = scope_key scope; p = stored_profile s key in
      if correction then
        (case position (\<lambda>e. attributed e \<and> ev_delivery_id e = delivery
             \<and> ev_actor e = Some (acc_actor a)) (prof_evidence p) of
           None \<Rightarrow> (Inl Missing, put_profile key p s)
         | Some index \<Rightarrow>
             (Inr (), put_profile key (correct_evidence now index given p) (s\<lparr>ws_recall :=
                recall_preference_changed scope delivery (acc_actor a) (ws_recall s)\<rparr>)))
      else (case given of
          None \<Rightarrow> (Inl Invalid, put_profile key p s)
        | Some f \<Rightarrow>
            (case observe \<lparr>ev_actor = Some (acc_actor a), ev_scope = Some scope, ev_kind = kind,
                 ev_delivery_id = delivery, ev_feedback = f, ev_at = now\<rparr> p of
               (Inl e, q) \<Rightarrow> (Inl e, put_profile key q s)
             | (Inr _, q) \<Rightarrow>
                 (Inr (), put_profile key (recompute q) (s\<lparr>ws_recall :=
                    recall_displaced scope (prof_evidence p) (prof_evidence q) (ws_recall s)\<rparr>)))))"

definition feedback ::
  "work_access \<Rightarrow> u64 \<Rightarrow> work_feedback option \<Rightarrow> bool \<Rightarrow> u64 \<Rightarrow> unit store_op" where
  "feedback a delivery given correction now s =
     (case scope_projects s (access_scope a) a False of
        Inl e \<Rightarrow> (Inl e, s)
      | Inr _ \<Rightarrow>
      (case feedback_target s a delivery now of
         Inl e \<Rightarrow> (Inl e, s)
       | Inr r \<Rightarrow>
      (case project s (rc_project_id r) a of
         Inl e \<Rightarrow> (Inl e, s)
       | Inr _ \<Rightarrow>
      if is_some_and given snooze_out_of_range then (Inl Invalid, s)
      else record_feedback a (rc_kind r) delivery given correction now s)))"

record automation_update =
  up_enabled :: bool
  up_private_to_me :: "bool option"
  up_timezone :: "rstr option"
  up_briefing_hour :: "u8 option"
  up_quiet_start :: "u8 option"
  up_quiet_end :: "u8 option"
  up_daily_limit :: "u8 option"

definition initial_timezone ::
  "work_access \<Rightarrow> rstr option \<Rightarrow> rstr option \<Rightarrow> work_error + rstr" where
  "initial_timezone a explicit configured_owner =
     (case explicit of
        Some zone \<Rightarrow> Inr zone
      | None \<Rightarrow>
          rbind (case configured_owner of
              None \<Rightarrow> Inr None
            | Some v \<Rightarrow> (case parse_u64 v of None \<Rightarrow> Inl Invalid | Some n \<Rightarrow> Inr (Some n)))
            (\<lambda>owner. if owner = Some 0 then Inl Invalid
              else if acc_guild a = None \<and> owner = Some (acc_actor a)
              then Inr (lit ''America/New_York'') else Inl Invalid))"

definition override :: "('a \<Rightarrow> 'p \<Rightarrow> 'p) \<Rightarrow> 'a option \<Rightarrow> 'p \<Rightarrow> 'p" where
  "override f v p = (case v of None \<Rightarrow> p | Some x \<Rightarrow> f x p)"

definition private_target :: "work_access \<Rightarrow> bool \<Rightarrow> work_error + work_destination" where
  "private_target a private =
     (if private then (if acc_guild a = None then Inl Invalid else Inr (DestTeamPrivate (acc_actor a)))
      else if acc_guild a \<noteq> None then Inr (DestTeamChannel (acc_channel a))
      else Inr (DestPersonal (acc_actor a)))"

definition updated_policy ::
  "work_access \<Rightarrow> automation_update \<Rightarrow> work_automation_policy \<Rightarrow> work_error + work_automation_policy" where
  "updated_policy a u p =
     (let p = p\<lparr>ap_enabled := up_enabled u, ap_destination := Some (acc_channel a)\<rparr> in
      rbind (case up_private_to_me u of
          None \<Rightarrow> Inr p
        | Some private \<Rightarrow> rbind (private_target a private) (\<lambda>d. Inr (p\<lparr>ap_delivery_target := Some d\<rparr>)))
        (\<lambda>p. Inr (override (\<lambda>x. ap_daily_limit_update (\<lambda>_. x)) (up_daily_limit u)
          (override (\<lambda>x. ap_quiet_end_update (\<lambda>_. x)) (up_quiet_end u)
          (override (\<lambda>x. ap_quiet_start_update (\<lambda>_. x)) (up_quiet_start u)
          (override (\<lambda>x. ap_briefing_hour_update (\<lambda>_. x)) (up_briefing_hour u)
          (override (\<lambda>x. ap_timezone_update (\<lambda>_. x)) (up_timezone u) p)))))))"

definition update_automation ::
  "'tz chrono \<Rightarrow> serial \<Rightarrow> work_access \<Rightarrow> automation_update \<Rightarrow> rstr option
     \<Rightarrow> work_automation_policy store_op" where
  "update_automation ch ser a u configured_owner s =
     (let scope = access_scope a in
      (case scope_projects s scope a True of
         Inl e \<Rightarrow> (Inl e, s)
       | Inr _ \<Rightarrow>
      (case (case fmlookup (ws_scope_automation s) (scope_key scope) of
           Some p \<Rightarrow> Inr p
         | None \<Rightarrow> rbind (initial_timezone a (up_timezone u) configured_owner)
             (\<lambda>z. Inr (default_policy\<lparr>ap_timezone := z\<rparr>))) of
         Inl e \<Rightarrow> (Inl e, s)
       | Inr base \<Rightarrow>
      (case updated_policy a u base of
         Inl e \<Rightarrow> (Inl e, s)
       | Inr policy \<Rightarrow>
           op_then (configure_automation ch ser scope a policy s) (\<lambda>_ s.
             op_then (case up_briefing_hour u of
                 None \<Rightarrow> (Inr (), s)
               | Some h \<Rightarrow> control_preferences a None (Some (Some h)) False s) (\<lambda>_ s.
               (Inr (the (fmlookup (ws_scope_automation s) (scope_key scope))), s)))))))"

section \<open>Lemmas on profiles\<close>

lemma recompute_sel [simp]:
  "prof_learning_enabled (recompute p) = prof_learning_enabled p"
  "prof_explicit_hour (recompute p) = prof_explicit_hour p"
  "prof_evidence (recompute p) = prof_evidence p"
  "prof_observed (recompute p) = prof_observed p"
  by (simp_all add: recompute_def Let_def)

lemma remember_sel [simp]:
  "prof_learning_enabled (remember_observations p) = prof_learning_enabled p"
  "prof_explicit_hour (remember_observations p) = prof_explicit_hour p"
  "prof_evidence (remember_observations p) = prof_evidence p"
  by (simp_all add: remember_observations_def)

lemma remember_observed [simp]: "prof_observed (remember_observations p) =
     prof_observed p |\<union>| fset_of_list (evidence_pairs (prof_evidence p))"
  by (simp add: remember_observations_def)

lemma recompute_cong:
  "prof_learning_enabled p = prof_learning_enabled q \<Longrightarrow> prof_evidence p = prof_evidence q \<Longrightarrow>
    prof_learned_hour (recompute p) = prof_learned_hour (recompute q)
    \<and> prof_reduce_followups (recompute p) = prof_reduce_followups (recompute q)
    \<and> prof_briefing_rank (recompute p) = prof_briefing_rank (recompute q)"
  by (simp add: recompute_def Let_def)

lemma recompute_idem [simp]: "recompute (recompute p) = recompute p"
  by (simp add: recompute_def Let_def)

lemma evidence_pairs_Cons [simp]:
  "evidence_pairs [] = []"
  "evidence_pairs (e # es) =
     (if attributed e then (ev_delivery_id e, the (ev_actor e)) # evidence_pairs es else evidence_pairs es)"
  by (auto simp: evidence_pairs_def List.map_filter_simps attributed_def is_some_and_iff)

lemma evidence_pairs_append [simp]: "evidence_pairs (xs @ ys) = evidence_pairs xs @ evidence_pairs ys"
  by (induction xs) simp_all

lemma evidence_pairs_filter [simp]: "evidence_pairs (filter attributed es) = evidence_pairs es"
  by (induction es) simp_all

lemma evidence_pairs_drop: "set (evidence_pairs (drop n es)) \<subseteq> set (evidence_pairs es)"
  by (metis append_take_drop_id evidence_pairs_append inf_sup_ord(4) set_append)

lemma distinct_pairs_drop: "distinct (evidence_pairs es) \<Longrightarrow> distinct (evidence_pairs (drop n es))"
  by (metis append_take_drop_id distinct_append evidence_pairs_append)

lemma evidence_pairs_remove: "set (evidence_pairs (vec_remove i es)) \<subseteq> set (evidence_pairs es)"
  by (induction i es rule: vec_remove.induct) (auto split: nat.splits)

lemma distinct_pairs_remove:
  "distinct (evidence_pairs es) \<Longrightarrow> distinct (evidence_pairs (vec_remove i es))"
  by (induction i es rule: vec_remove.induct) (use evidence_pairs_remove in \<open>auto split: if_splits nat.splits\<close>)

lemma evidence_pairs_correct:
  "i < length es \<Longrightarrow> evidence_pairs (es[i := (es ! i)\<lparr>ev_feedback := f, ev_at := t\<rparr>]) = evidence_pairs es"
  by (induction es arbitrary: i) (auto simp: nth_Cons' attributed_def split: nat.splits)

definition profile_ok :: "preference_profile \<Rightarrow> bool" where
  "profile_ok p \<longleftrightarrow> length (prof_evidence p) \<le> 100 \<and> list_all attributed (prof_evidence p)
     \<and> distinct (evidence_pairs (prof_evidence p))
     \<and> set (evidence_pairs (prof_evidence p)) \<subseteq> fset (prof_observed p)
     \<and> is_none_or (prof_explicit_hour p) (\<lambda>h. h < 24)"

text \<open>Observations only accumulate, and an observed pair that is not in the evidence
  (because it was withdrawn, reset or pushed out of the window) never comes back.\<close>

definition profile_later :: "preference_profile \<Rightarrow> preference_profile \<Rightarrow> bool" where
  "profile_later p q \<longleftrightarrow> prof_observed p |\<subseteq>| prof_observed q
     \<and> set (evidence_pairs (prof_evidence q)) \<inter> fset (prof_observed p)
         \<subseteq> set (evidence_pairs (prof_evidence p))"

lemma profile_later_refl: "profile_later p p"
  by (auto simp: profile_later_def)

lemma profile_later_trans: "profile_later p q \<Longrightarrow> profile_later q r \<Longrightarrow> profile_later p r"
  unfolding profile_later_def by (auto simp: less_eq_fset.rep_eq)

lemma profile_recompute [simp]:
  "profile_ok (recompute p) = profile_ok p"
  "profile_later p (recompute q) = profile_later p q"
  by (simp_all add: profile_ok_def profile_later_def)

lemma default_profile_ok [simp]: "profile_ok default_profile"
  by (simp add: profile_ok_def default_profile_def)

lemma remember_ok: "profile_ok p \<Longrightarrow> profile_ok (remember_observations p)"
  by (auto simp: profile_ok_def)

lemma remember_later: "profile_later p (remember_observations p)"
  by (auto simp: profile_later_def)

lemma reset_ok: "profile_ok p \<Longrightarrow> profile_ok (reset_profile p)"
  by (simp add: reset_profile_def profile_ok_def)

lemma reset_later: "profile_later p (reset_profile p)"
  by (simp add: reset_profile_def profile_later_def)

lemma correct_evidence_ok:
  assumes "profile_ok p" and "i < length (prof_evidence p)"
  shows "profile_ok (correct_evidence now i f p)"
proof (cases f)
  case None
  have len: "length (vec_remove i (prof_evidence p)) \<le> length (prof_evidence p)"
    by (rule vec_remove_shorter)
  have "list_all attributed (vec_remove i (prof_evidence p))"
    using assms(1) vec_remove_members [of i "prof_evidence p"] by (auto simp: profile_ok_def list_all_iff)
  with None assms(1) len show ?thesis
    using evidence_pairs_remove [of i "prof_evidence p"]
    by (auto simp: correct_evidence_def profile_ok_def distinct_pairs_remove)
next
  case (Some g)
  have "list_all attributed ((prof_evidence p)[i := (prof_evidence p ! i)\<lparr>ev_feedback := g, ev_at := now\<rparr>])"
    using assms by (auto simp: profile_ok_def list_all_length nth_list_update attributed_def)
  with Some assms show ?thesis
    by (auto simp: correct_evidence_def profile_ok_def evidence_pairs_correct)
qed

lemma correct_evidence_later:
  assumes "i < length (prof_evidence p)"
  shows "profile_later p (correct_evidence now i f p)"
proof (cases f)
  case None
  then show ?thesis
    using evidence_pairs_remove [of i "prof_evidence p"]
    by (auto simp: correct_evidence_def profile_later_def)
next
  case (Some g)
  with assms show ?thesis by (auto simp: correct_evidence_def profile_later_def evidence_pairs_correct)
qed

lemma observeE:
  assumes "observe e p = (r, q)"
  obtains (invalid) "r = Inl Invalid" "q = p" "snooze_out_of_range (ev_feedback e)"
  | (ignored) "r = Inr ()" "q = remember_observations p"
  | (added) actor window where "r = Inr ()" "ev_actor e = Some actor" "attributed e"
      "(ev_delivery_id e, actor) |\<notin>| prof_observed (remember_observations p)"
      "window = (let kept = filter attributed (prof_evidence p)
         in if 100 \<le> length kept then drop (length kept - 99) kept else kept)"
      "q = recompute ((remember_observations p)\<lparr>
         prof_observed := finsert (ev_delivery_id e, actor) (prof_observed (remember_observations p)),
         prof_evidence := window @ [e]\<rparr>)"
proof (cases "snooze_out_of_range (ev_feedback e)")
  case True
  with assms show ?thesis by (intro invalid) (auto simp: observe_def)
next
  case range: False
  show ?thesis
  proof (cases "\<exists>actor. ev_actor e = Some actor \<and> attributed e
      \<and> (ev_delivery_id e, actor) |\<notin>| prof_observed (remember_observations p)")
    case True
    then obtain actor where a: "ev_actor e = Some actor" "attributed e"
      "(ev_delivery_id e, actor) |\<notin>| prof_observed (remember_observations p)" by blast
    then have g: "\<not> actor = 0" "\<not> (ev_scope e = None \<or> ev_kind e = None)" by (auto simp: attributed_def)
    show ?thesis
      by (rule added [OF _ a refl])
        (use assms range in \<open>simp_all add: observe_def Let_def a(1) if_not_P [OF g(1)] if_not_P [OF g(2)]
          if_not_P [OF a(3)] del: remember_observed\<close>)
  next
    case False
    then have "q = remember_observations p \<and> r = Inr ()"
      using assms range by (auto simp: observe_def Let_def attributed_def simp del: remember_observed
          split: option.splits if_splits)
    then show ?thesis by (intro ignored) simp_all
  qed
qed

lemma observe_ok:
  assumes "observe e p = (r, q)" and ok: "profile_ok p"
  shows "profile_ok q \<and> profile_later p q"
  using assms(1)
proof (cases rule: observeE)
  case invalid
  with ok show ?thesis by (simp add: profile_later_refl)
next
  case ignored
  with ok show ?thesis by (simp add: remember_ok remember_later)
next
  case (added actor window)
  let ?es = "prof_evidence p"
  have all: "list_all attributed ?es" "filter attributed ?es = ?es"
    using ok by (auto simp: profile_ok_def list_all_iff filter_id_conv)
  define n where "n = (if 100 \<le> length ?es then length ?es - 99 else 0)"
  have w: "window = drop n ?es" unfolding added(5) n_def all(2) Let_def by simp
  have len: "length window \<le> 99" using ok unfolding w n_def by (auto simp: profile_ok_def)
  have sub: "set (evidence_pairs window) \<subseteq> set (evidence_pairs ?es)"
    unfolding w by (rule evidence_pairs_drop)
  have "distinct (evidence_pairs window)"
    unfolding w using ok by (intro distinct_pairs_drop) (simp add: profile_ok_def)
  moreover have "list_all attributed window"
    using all(1) set_drop_subset [of n ?es] unfolding w by (auto simp: list_all_iff)
  moreover have new: "(ev_delivery_id e, actor) \<notin> set (evidence_pairs ?es)"
    "(ev_delivery_id e, actor) |\<notin>| prof_observed p" using added(4) by (auto simp: fset_of_list.rep_eq)
  ultimately show ?thesis
    using added(2,3) ok len sub unfolding added(6)
    by (auto simp: profile_ok_def profile_later_def fset_of_list.rep_eq)
qed

section \<open>Histories of preference calls\<close>

datatype preference_call =
    GiveFeedback work_access u64 "work_feedback option" bool u64
  | ControlPreferences work_access "bool option" "u8 option option" bool

fun preference_step :: "preference_call \<Rightarrow> unit store_op" where
  "preference_step (GiveFeedback a i f correction now) s = feedback a i f correction now s"
| "preference_step (ControlPreferences a enabled hour reset) s = control_preferences a enabled hour reset s"

definition profiles_ok :: "work_store \<Rightarrow> bool" where
  "profiles_ok s \<longleftrightarrow> fm_all (\<lambda>_ p. profile_ok p) (ws_preferences s)"

definition profiles_later :: "work_store \<Rightarrow> work_store \<Rightarrow> bool" where
  "profiles_later s t \<longleftrightarrow> (\<forall>key. profile_later (stored_profile s key) (stored_profile t key))"

lemma stored_profile_ok: "profiles_ok s \<Longrightarrow> profile_ok (stored_profile s key)"
  by (auto simp: profiles_ok_def stored_profile_def dest: fm_allD split: option.splits)

lemma stored_put [simp]:
  "stored_profile (put_profile key p s) k = (if k = key then p else stored_profile s k)"
  by (simp add: stored_profile_def put_profile_def)

lemma put_profile_ok: "profiles_ok s \<Longrightarrow> profile_ok p \<Longrightarrow> profiles_ok (put_profile key p s)"
  by (simp add: profiles_ok_def put_profile_def fm_all_updI del: fm_all_upd)

lemma put_profile_later:
  "profile_later (stored_profile s key) p \<Longrightarrow> profiles_later s (put_profile key p s)"
  by (simp add: profiles_later_def profile_later_refl)

lemma recall_irrelevant [simp]:
  "profiles_ok (s\<lparr>ws_recall := r\<rparr>) = profiles_ok s"
  "stored_profile (s\<lparr>ws_recall := r\<rparr>) key = stored_profile s key"
  "put_profile key p (put_profile key q s) = put_profile key p s"
  "(put_profile key p s)\<lparr>ws_recall := r\<rparr> = put_profile key p (s\<lparr>ws_recall := r\<rparr>)"
  by (simp_all add: profiles_ok_def stored_profile_def put_profile_def)

lemma record_feedbackE:
  fixes a :: work_access and s :: work_store
  defines "scope \<equiv> access_scope a" and "key \<equiv> scope_key (access_scope a)"
  assumes op: "record_feedback a kind delivery given correction now s = (r, t)"
    and range: "\<not> is_some_and given snooze_out_of_range"
  obtains (entered) e where "r = Inl e" "t = put_profile key (stored_profile s key) s"
  | (corrected) i where "r = Inr ()" "correction" "i < length (prof_evidence (stored_profile s key))"
      "t = put_profile key (correct_evidence now i given (stored_profile s key)) (s\<lparr>ws_recall :=
        recall_preference_changed scope delivery (acc_actor a) (ws_recall s)\<rparr>)"
  | (observed) f q where "r = Inr ()" "\<not> correction" "given = Some f"
      "observe \<lparr>ev_actor = Some (acc_actor a), ev_scope = Some scope, ev_kind = kind,
         ev_delivery_id = delivery, ev_feedback = f, ev_at = now\<rparr> (stored_profile s key) = (Inr (), q)"
      "t = put_profile key (recompute q) (s\<lparr>ws_recall := recall_displaced scope
         (prof_evidence (stored_profile s key)) (prof_evidence q) (ws_recall s)\<rparr>)"
proof (cases correction)
  case True
  let ?at = "position (\<lambda>e. attributed e \<and> ev_delivery_id e = delivery
    \<and> ev_actor e = Some (acc_actor a)) (prof_evidence (stored_profile s key))"
  show ?thesis
  proof (cases ?at)
    case None
    with op True show ?thesis
      by (intro entered) (auto simp: record_feedback_def Let_def key_def simp del: position_None)
  next
    case (Some i)
    with op True show ?thesis
      by (intro corrected [of i]) (auto simp: record_feedback_def Let_def key_def scope_def
          dest: position_Some)
  qed
next
  case False
  show ?thesis
  proof (cases given)
    case None
    with op False show ?thesis
      by (intro entered) (auto simp: record_feedback_def Let_def key_def)
  next
    case (Some f)
    let ?e = "\<lparr>ev_actor = Some (acc_actor a), ev_scope = Some scope, ev_kind = kind,
         ev_delivery_id = delivery, ev_feedback = f, ev_at = now\<rparr>"
    obtain x q where x: "observe ?e (stored_profile s key) = (x, q)"
      by (cases "observe ?e (stored_profile s key)")
    have "x = Inr ()" using x range Some by (cases rule: observeE) auto
    with op False Some x show ?thesis
      by (intro observed [of f q]) (auto simp: record_feedback_def Let_def key_def scope_def)
  qed
qed

lemma feedbackE:
  assumes "feedback a delivery given correction now s = (r, t)"
  obtains (failed) e where "r = Inl e" "t = s"
  | (recorded) rc where "feedback_target s a delivery now = Inr rc"
      "\<not> is_some_and given snooze_out_of_range"
      "record_feedback a (rc_kind rc) delivery given correction now s = (r, t)"
  using assms unfolding feedback_def
  by (elim guard_sumE guardE) ((rule failed; assumption) | (rule recorded; assumption))+

lemma control_preferencesE:
  fixes a :: work_access and s :: work_store
  defines "key \<equiv> scope_key (access_scope a)"
  assumes op: "control_preferences a enabled hour reset s = (r, t)"
  obtains (failed) e where "r = Inl e" "t = s"
  | (changed) "r = Inr ()" "is_none_or hour (\<lambda>h. is_none_or h (\<lambda>h. h < 24))"
      "t = put_profile key (controlled_profile enabled hour reset (stored_profile s key))
         (s\<lparr>ws_recall := controlled_recall (access_scope a) enabled reset (stored_profile s key) (ws_recall s)\<rparr>)"
  using op unfolding control_preferences_def Let_def
  by (elim guard_sumE guardE) ((rule failed; assumption)
    | (rule changed; auto simp: key_def is_none_or_iff is_some_and_iff not_le))+

lemma controlled_ok:
  assumes "profile_ok p" and "is_none_or hour (\<lambda>h. is_none_or h (\<lambda>h. h < 24))"
  shows "profile_ok (controlled_profile enabled hour reset p)
    \<and> profile_later p (controlled_profile enabled hour reset p)"
proof -
  define q where "q = (case hour of Some h \<Rightarrow> (case enabled of Some b \<Rightarrow> p\<lparr>prof_learning_enabled := b\<rparr>
      | None \<Rightarrow> p)\<lparr>prof_explicit_hour := h\<rparr>
    | None \<Rightarrow> (case enabled of Some b \<Rightarrow> p\<lparr>prof_learning_enabled := b\<rparr> | None \<Rightarrow> p))"
  have q: "profile_ok q" "profile_later p q"
    using assms unfolding q_def by (auto simp: profile_ok_def profile_later_def split: option.splits)
  have "controlled_profile enabled hour reset p = recompute (if reset then reset_profile q else q)"
    unfolding controlled_profile_def Let_def q_def ..
  then show ?thesis
    using q reset_ok [OF q(1)] profile_later_trans [OF q(2) reset_later] by simp
qed

lemma preference_step_ok:
  assumes ok: "profiles_ok s" and step: "preference_step c s = (r, t)"
  shows "profiles_ok t \<and> profiles_later s t"
proof (cases c)
  case (GiveFeedback a delivery given correction now)
  let ?p = "stored_profile s (scope_key (access_scope a))"
  have p: "profile_ok ?p" by (rule stored_profile_ok [OF ok])
  from step GiveFeedback have "feedback a delivery given correction now s = (r, t)" by simp
  then show ?thesis
  proof (cases rule: feedbackE)
    case (failed e)
    with ok show ?thesis by (simp add: profiles_later_def profile_later_refl)
  next
    case (recorded rc)
    from recorded(3,2) show ?thesis
    proof (cases rule: record_feedbackE)
      case (entered e)
      with ok p show ?thesis by (simp add: put_profile_ok put_profile_later profile_later_refl)
    next
      case (corrected i)
      with ok p show ?thesis
        by (auto simp: profiles_later_def profile_later_refl
            intro!: put_profile_ok correct_evidence_ok correct_evidence_later)
    next
      case (observed f q)
      with ok p observe_ok [OF observed(4) p] show ?thesis
        by (auto simp: profiles_later_def profile_later_refl intro!: put_profile_ok)
    qed
  qed
next
  case (ControlPreferences a enabled hour reset)
  let ?p = "stored_profile s (scope_key (access_scope a))"
  have p: "profile_ok ?p" by (rule stored_profile_ok [OF ok])
  from step ControlPreferences have "control_preferences a enabled hour reset s = (r, t)" by simp
  then show ?thesis
  proof (cases rule: control_preferencesE)
    case (failed e)
    with ok show ?thesis by (simp add: profiles_later_def profile_later_refl)
  next
    case changed
    with ok controlled_ok [OF p changed(2)] show ?thesis
      by (auto simp: profiles_later_def profile_later_refl intro!: put_profile_ok)
  qed
qed

interpretation preferences: machine preference_step empty_store profiles_ok
proof
  show "profiles_ok empty_store" by (simp add: profiles_ok_def empty_store_def)
qed (use preference_step_ok in blast)

lemma learned_hour_iff:
  "learned_hour es = Some h \<longleftrightarrow> h < 24 \<and> 5 \<le> snooze_count es h
     \<and> (\<forall>k<24. snooze_count es k \<le> snooze_count es h) \<and> (\<forall>k<h. snooze_count es k < snooze_count es h)"
proof -
  let ?f = "\<lambda>h. (snooze_count es h, - int h)"
  have le: "?f k \<le> ?f m \<longleftrightarrow> snooze_count es k < snooze_count es m
      \<or> snooze_count es k = snooze_count es m \<and> m \<le> k" for k m
    by auto
  have "[0..<24] \<noteq> []" by simp
  then have "max_by_key ?f [0..<24] \<noteq> None" by simp
  then obtain m where m: "max_by_key ?f [0..<24] = Some m" by blast
  from max_by_key_Some [OF m] have max: "m < 24" "\<And>k. k < 24 \<Longrightarrow> ?f k \<le> ?f m" by auto
  have all: "\<forall>k<24. snooze_count es k \<le> snooze_count es m" "\<forall>k<m. snooze_count es k < snooze_count es m"
  proof (intro allI impI)
    fix k :: nat assume "k < 24"
    from max(2) [OF this] show "snooze_count es k \<le> snooze_count es m" unfolding le by auto
  next
    show "\<forall>k<m. snooze_count es k < snooze_count es m"
    proof (intro allI impI)
      fix k assume "k < m"
      with max(1) have "k < 24" by simp
      from max(2) [OF this] \<open>k < m\<close> show "snooze_count es k < snooze_count es m" unfolding le by auto
    qed
  qed
  have unique: "h = m" if "h < 24" "\<forall>k<24. snooze_count es k \<le> snooze_count es h"
      "\<forall>k<h. snooze_count es k < snooze_count es h"
  proof (rule linorder_cases [of h m])
    assume "h < m"
    then have "snooze_count es h < snooze_count es m" using all(2) by blast
    with that(2) max(1) show ?thesis by (auto simp: not_less [symmetric])
  next
    assume "m < h"
    then have "snooze_count es m < snooze_count es h" using that(3) by blast
    with all(1) that(1) show ?thesis by (auto simp: not_less [symmetric])
  qed
  show ?thesis
    using all max(1) unique unfolding learned_hour_def m by auto
qed

lemma distinct_filter_eq: "distinct xs \<Longrightarrow> length (filter (\<lambda>x. x = a) xs) \<le> 1"
  by (induction xs) (auto simp: filter_empty_conv)

lemma position_first_part:
  "position P xs = Some i \<Longrightarrow> filter (\<lambda>x. \<not> Q x) (vec_remove i xs) = filter (\<lambda>x. \<not> Q x) xs
     \<and> filter (\<lambda>x. \<not> Q x) (xs[i := y]) = filter (\<lambda>x. \<not> Q x) xs"
  if "\<And>x. P x \<Longrightarrow> Q x" and "Q y"
  using that by (induction xs arbitrary: i) (auto split: if_splits)

section \<open>Properties\<close>

text \<open>
  Every preference profile stays well-formed: at most 100 pieces of evidence, each
  attributed to an actor, scope and kind, at most one per delivery and actor, all of them
  remembered as observed, and an explicit hour below 24.
\<close>

theorem preferences_well_formed:
  assumes "profiles_ok s" and "trace preference_step s h t" and "fmlookup (ws_preferences t) key = Some p"
  shows "profile_ok p"
  using preferences.trace_keeps [OF assms(2,1)] assms(3) by (auto simp: profiles_ok_def dest: fm_allD)

definition demo_receipt :: delivery_receipt where
  "demo_receipt = \<lparr>rc_id = 3, rc_project_id = 1, rc_recipient = 9, rc_destination = None,
     rc_policy_revision = 0, rc_provenance = None, rc_local_day = [], rc_at = 50, rc_state = Sent,
     rc_message_id = Some 4, rc_scope = Some (ScopePersonal 7), rc_kind = Some Briefing,
     rc_coverage = [], rc_task_ids = [], rc_dedupe_keys = {||}\<rparr>"

definition demo_sent_store :: work_store where
  "demo_sent_store = demo_task_store\<lparr>ws_deliveries := fmupd 3 demo_receipt fmempty\<rparr>"

definition demo_evidence :: preference_evidence where
  "demo_evidence = \<lparr>ev_actor = Some 7, ev_scope = Some (ScopePersonal 7), ev_kind = Some Briefing,
     ev_delivery_id = 3, ev_feedback = Useful, ev_at = 60\<rparr>"

definition demo_profile :: "preference_evidence list \<Rightarrow> preference_profile" where
  "demo_profile es = default_profile\<lparr>prof_observed := {|(3, 7)|}, prof_evidence := es\<rparr>"

definition demo_store_with :: "preference_evidence list \<Rightarrow> work_store" where
  "demo_store_with es = put_profile (scope_key (ScopePersonal 7)) (demo_profile es) demo_sent_store"

lemma demo_scope: "access_scope demo_access = ScopePersonal 7"
  by (simp add: demo_access_def access_scope_def)

lemma demo_feedback:
  assumes "s = demo_sent_store\<lparr>ws_preferences := prefs, ws_recall := rec\<rparr>" and "60 \<le> now"
  shows "feedback demo_access 3 given correction now s =
    (if is_some_and given snooze_out_of_range then (Inl Invalid, s)
     else record_feedback demo_access (Some Briefing) 3 given correction now s)"
  using assms
  by (simp add: feedback_def demo_scope scope_projects_def Let_def demo_sent_store_def demo_projects
      demo_project_lookup project_def feedback_target_def demo_receipt_def authorized_def new_project_def
      feedback_destination_matches_def access_scope_def demo_access_def)

lemma demo_prefs:
  "ws_preferences demo_sent_store = fmempty"
  by (simp add: demo_sent_store_def demo_task_store_def demo_project_store_def demo_simps)

lemma demo_profiles:
  "profiles_ok demo_sent_store"
  by (simp add: profiles_ok_def demo_prefs)

lemma demo_recall: "ws_recall demo_sent_store = empty_recall"
  by (simp add: demo_sent_store_def demo_task_store_def demo_project_store_def demo_simps)

lemma demo_recompute: "length es < 5 \<Longrightarrow> recompute (demo_profile es) = demo_profile es"
  by (simp add: recompute_def demo_profile_def default_profile_def Let_def
      le_less_trans [OF length_filter_le])

lemma demo_stored:
  "stored_profile demo_sent_store key = default_profile"
  "stored_profile (demo_store_with es) (scope_key (ScopePersonal 7)) = demo_profile es"
  by (simp_all add: stored_profile_def demo_prefs demo_store_with_def put_profile_def)

lemma demo_attributed: "attributed demo_evidence"
  by (simp add: attributed_def demo_evidence_def)

lemma demo_observe:
  "observe demo_evidence default_profile = (Inr (), demo_profile [demo_evidence])"
  "observe (demo_evidence\<lparr>ev_at := 80\<rparr>) (demo_profile []) = (Inr (), demo_profile [])"
proof -
  have "observe demo_evidence default_profile = (Inr (), recompute (demo_profile [demo_evidence]))"
    by (simp add: observe_def demo_evidence_def default_profile_def remember_observations_def Let_def
        demo_profile_def)
  then show "observe demo_evidence default_profile = (Inr (), demo_profile [demo_evidence])"
    by (simp add: demo_recompute)
  show "observe (demo_evidence\<lparr>ev_at := 80\<rparr>) (demo_profile []) = (Inr (), demo_profile [])"
    by (simp add: observe_def demo_evidence_def default_profile_def remember_observations_def Let_def
        demo_profile_def)
qed

lemma demo_preference_steps:
  "preference_step (GiveFeedback demo_access 3 (Some Useful) False 60) demo_sent_store
     = (Inr (), demo_store_with [demo_evidence])"
  "preference_step (GiveFeedback demo_access 3 None True 70) (demo_store_with [demo_evidence])
     = (Inr (), demo_store_with [])"
  "preference_step (GiveFeedback demo_access 3 (Some Useful) False 80) (demo_store_with [])
     = (Inr (), demo_store_with [])"
proof -
  have rec: "ws_recall (demo_store_with es) = empty_recall" for es
    by (simp add: demo_store_with_def put_profile_def demo_recall)
  have idle: "s\<lparr>ws_recall := empty_recall\<rparr> = s" if "ws_recall s = empty_recall" for s :: work_store
    using that by simp
  have untouched: "recall_preference_changed sc d m empty_recall = empty_recall" for sc d m
    by (simp add: recall_preference_changed_def empty_recall_def)
  have form: "demo_store_with es = demo_sent_store\<lparr>ws_preferences := ws_preferences (demo_store_with es),
      ws_recall := ws_recall (demo_store_with es)\<rparr>" for es
    by (simp add: demo_store_with_def put_profile_def)
  have put: "put_profile (scope_key (ScopePersonal 7)) p (demo_store_with es)
      = put_profile (scope_key (ScopePersonal 7)) p demo_sent_store" for p es
    by (simp add: demo_store_with_def)
  have actor: "acc_actor demo_access = 7" by (simp add: demo_access_def)
  have ev: "\<lparr>ev_actor = Some 7, ev_scope = Some (ScopePersonal 7), ev_kind = Some Briefing,
      ev_delivery_id = 3, ev_feedback = Useful, ev_at = 60\<rparr> = demo_evidence"
    "\<lparr>ev_actor = Some 7, ev_scope = Some (ScopePersonal 7), ev_kind = Some Briefing,
      ev_delivery_id = 3, ev_feedback = Useful, ev_at = 80\<rparr> = demo_evidence\<lparr>ev_at := 80\<rparr>"
    by (simp_all add: demo_evidence_def)
  have es: "prof_evidence (demo_profile es) = es" "prof_evidence default_profile = []" for es
    by (simp_all add: demo_profile_def default_profile_def)
  have start: "demo_sent_store = demo_sent_store\<lparr>ws_preferences := ws_preferences demo_sent_store,
      ws_recall := ws_recall demo_sent_store\<rparr>" by simp
  show "preference_step (GiveFeedback demo_access 3 (Some Useful) False 60) demo_sent_store
     = (Inr (), demo_store_with [demo_evidence])"
    by (simp add: demo_feedback [OF start] record_feedback_def Let_def demo_scope actor ev demo_stored
        demo_observe es recall_displaced_def demo_recall idle demo_recompute demo_store_with_def
        del: scope_key.simps)
  have pos: "position (\<lambda>e. attributed e \<and> ev_delivery_id e = 3 \<and> ev_actor e = Some 7) [demo_evidence] = Some 0"
    by (simp add: demo_attributed) (simp add: demo_evidence_def)
  have withdrawn: "correct_evidence 70 0 None (demo_profile [demo_evidence]) = demo_profile []"
    by (simp add: correct_evidence_def Let_def remember_observations_def demo_attributed es)
      (simp add: demo_profile_def default_profile_def demo_evidence_def recompute_def)
  show "preference_step (GiveFeedback demo_access 3 None True 70) (demo_store_with [demo_evidence])
     = (Inr (), demo_store_with [])"
    by (simp add: demo_feedback [OF form] record_feedback_def Let_def demo_scope actor demo_stored
        es pos withdrawn rec untouched idle del: scope_key.simps position.simps)
      (simp add: put demo_store_with_def del: scope_key.simps)
  show "preference_step (GiveFeedback demo_access 3 (Some Useful) False 80) (demo_store_with [])
     = (Inr (), demo_store_with [])"
    by (simp add: demo_feedback [OF form] record_feedback_def Let_def demo_scope actor ev demo_stored
        demo_observe es recall_displaced_def rec idle demo_recompute del: scope_key.simps)
      (simp add: put demo_store_with_def del: scope_key.simps)
qed

lemma demo_ok_with:
  "profiles_ok (demo_store_with [demo_evidence])" "profiles_ok (demo_store_with [])"
proof -
  show one: "profiles_ok (demo_store_with [demo_evidence])"
    by (rule preferences.inv_step [OF demo_profiles demo_preference_steps(1)])
  show "profiles_ok (demo_store_with [])"
    by (rule preferences.inv_step [OF one demo_preference_steps(2)])
qed

theorem preferences_well_formed_witness:
  "profile_ok (demo_profile [demo_evidence])"
proof -
  have start: "trace preference_step demo_sent_store [] demo_sent_store" by (rule trace_start)
  note one = trace_call [OF start, OF demo_preference_steps(1)]
  have "fmlookup (ws_preferences (demo_store_with [demo_evidence])) (scope_key (ScopePersonal 7))
      = Some (demo_profile [demo_evidence])"
    by (simp add: demo_store_with_def put_profile_def)
  from preferences_well_formed [OF demo_profiles one this] show ?thesis .
qed

text \<open>
  Feedback counts at most once and stays withdrawn. Whatever feedback, corrections and
  controls follow, a delivery has at most one piece of evidence per actor; and once an
  actor's answer to a delivery was taken out (withdrawn, reset or pushed out of the window)
  no replay brings it back.
\<close>

theorem withdrawn_feedback_never_returns:
  assumes "profiles_ok s" and "trace preference_step s h t"
  shows "length (filter (\<lambda>x. x = (delivery, m)) (evidence_pairs (prof_evidence (stored_profile t key)))) \<le> 1
    \<and> ((delivery, m) |\<in>| prof_observed (stored_profile s key)
        \<and> (delivery, m) \<notin> set (evidence_pairs (prof_evidence (stored_profile s key)))
        \<longrightarrow> (delivery, m) \<notin> set (evidence_pairs (prof_evidence (stored_profile t key))))"
proof
  have "profiles_ok t" using assms(2,1) by (rule preferences.trace_keeps)
  then have "distinct (evidence_pairs (prof_evidence (stored_profile t key)))"
    using stored_profile_ok by (simp add: profile_ok_def)
  then show "length (filter (\<lambda>x. x = (delivery, m)) (evidence_pairs (prof_evidence (stored_profile t key)))) \<le> 1"
    by (rule distinct_filter_eq)
  have "profiles_later s t"
  proof (rule preferences.trace_relates [OF assms(2,1)])
    show "profiles_later s t" if "profiles_ok s" "preference_step c s = (r, t)" for c s r t
      using preference_step_ok [OF that] ..
    show "profiles_later s s" for s by (simp add: profiles_later_def profile_later_refl)
    show "profiles_later s u" if "profiles_later s t" "profiles_later t u" for s t u
      using that profile_later_trans unfolding profiles_later_def by blast
  qed
  then show "(delivery, m) |\<in>| prof_observed (stored_profile s key)
        \<and> (delivery, m) \<notin> set (evidence_pairs (prof_evidence (stored_profile s key)))
        \<longrightarrow> (delivery, m) \<notin> set (evidence_pairs (prof_evidence (stored_profile t key)))"
    by (auto simp: profiles_later_def profile_later_def)
qed

theorem withdrawn_feedback_never_returns_witness:
  "(3, 7) \<notin> set (evidence_pairs (prof_evidence (stored_profile (demo_store_with []) (scope_key (ScopePersonal 7)))))
    \<and> (3, 7) |\<in>| prof_observed (stored_profile (demo_store_with []) (scope_key (ScopePersonal 7)))"
proof -
  let ?s = "demo_store_with []"
  have start: "trace preference_step ?s [] ?s" by (rule trace_start)
  note one = trace_call [OF start, OF demo_preference_steps(3)]
  have "(3, 7) |\<in>| prof_observed (stored_profile ?s (scope_key (ScopePersonal 7)))"
    "(3, 7) \<notin> set (evidence_pairs (prof_evidence (stored_profile ?s (scope_key (ScopePersonal 7)))))"
    unfolding demo_stored by (simp_all add: demo_profile_def)
  with withdrawn_feedback_never_returns [OF demo_ok_with(2) one, of 3 7 "scope_key (ScopePersonal 7)"]
  show ?thesis by blast
qed

text \<open>
  The learned hour is the majority hour, ties to the earliest: it is learned exactly
  when learning is on, there are at least five attributed answers, and the hour was asked
  for by at least five snoozes, by no fewer than any other hour, and by more than every
  earlier hour.
\<close>

theorem learned_hour_is_earliest_majority:
  "prof_learned_hour (recompute p) = Some hour \<longleftrightarrow>
     prof_learning_enabled p \<and> 5 \<le> length (filter attributed (prof_evidence p)) \<and> hour < 24
     \<and> (let votes = snooze_count (filter attributed (prof_evidence p)) in
         5 \<le> votes hour \<and> (\<forall>k<24. votes k \<le> votes hour) \<and> (\<forall>k<hour. votes k < votes hour))"
  by (auto simp: recompute_def Let_def learned_hour_iff)

theorem learned_hour_is_earliest_majority_witness:
  "prof_learned_hour (recompute (demo_profile (replicate 5 (demo_evidence\<lparr>ev_feedback := Snoozed 6\<rparr>)))) = Some 6"
  unfolding learned_hour_is_earliest_majority
  by (simp add: demo_profile_def default_profile_def demo_evidence_def attributed_def snooze_count_def
      filter_replicate Let_def)

text \<open>
  The hour a briefing is planned for is always an hour of the day, and explicit choice
  wins over anything learned; with learning off and no explicit choice it is the policy's.
\<close>

theorem effective_hour_in_day:
  assumes "profile_ok p" and "default_hour < 24"
  shows "effective_hour (recompute p) default_hour < 24
    \<and> (\<forall>h. prof_explicit_hour p = Some h \<longrightarrow> effective_hour (recompute p) default_hour = h)
    \<and> (prof_explicit_hour p = None \<and> \<not> prof_learning_enabled p
        \<longrightarrow> effective_hour (recompute p) default_hour = default_hour)"
proof -
  have "prof_learned_hour (recompute p) = Some h \<Longrightarrow> h < 24" for h
    by (auto simp: recompute_def Let_def learned_hour_iff split: if_splits)
  then show ?thesis
    using assms by (auto simp: effective_hour_def profile_ok_def split: option.splits)
qed

theorem effective_hour_in_day_witness:
  "effective_hour (recompute (demo_profile [demo_evidence])) 9 < 24"
proof -
  have "profile_ok (demo_profile [demo_evidence])"
    using stored_profile_ok [OF demo_ok_with(1), of "scope_key (ScopePersonal 7)"]
    unfolding demo_stored .
  from effective_hour_in_day [OF this, of 9] show ?thesis by simp
qed

text \<open>
  A correction touches the caller's own evidence only: every piece of evidence given
  by somebody else is the same, in the same order, before and after.
\<close>

theorem corrections_touch_own_evidence:
  assumes "feedback a delivery given True now s = (Inr (), t)"
  shows "filter (\<lambda>e. ev_actor e \<noteq> Some (acc_actor a)) (prof_evidence (stored_profile t key))
    = filter (\<lambda>e. ev_actor e \<noteq> Some (acc_actor a)) (prof_evidence (stored_profile s key))"
proof -
  let ?key = "scope_key (access_scope a)"
  let ?p = "stored_profile s ?key"
  let ?mine = "\<lambda>e. ev_actor e = Some (acc_actor a)"
  from assms obtain kind where
    rec: "record_feedback a kind delivery given True now s = (Inr (), t)"
      "\<not> is_some_and given snooze_out_of_range"
    by (cases rule: feedbackE) auto
  from rec(1) obtain i where i: "position (\<lambda>e. attributed e \<and> ev_delivery_id e = delivery \<and> ?mine e)
      (prof_evidence ?p) = Some i"
    and t: "t = put_profile ?key (correct_evidence now i given ?p) (s\<lparr>ws_recall :=
        recall_preference_changed (access_scope a) delivery (acc_actor a) (ws_recall s)\<rparr>)"
    by (auto simp: record_feedback_def Let_def simp del: position_None split: option.splits)
  have mine: "?mine (prof_evidence ?p ! i)" using position_Some [OF i] by simp
  have "filter (\<lambda>e. \<not> ?mine e) (vec_remove i (prof_evidence ?p)) = filter (\<lambda>e. \<not> ?mine e) (prof_evidence ?p)
    \<and> filter (\<lambda>e. \<not> ?mine e) ((prof_evidence ?p)[i := (prof_evidence ?p ! i)\<lparr>ev_feedback := f, ev_at := now\<rparr>])
      = filter (\<lambda>e. \<not> ?mine e) (prof_evidence ?p)" for f
    by (rule position_first_part [OF _ _ i]) (use mine in auto)
  then have "filter (\<lambda>e. \<not> ?mine e) (prof_evidence (correct_evidence now i given ?p))
      = filter (\<lambda>e. \<not> ?mine e) (prof_evidence ?p)"
    by (cases given) (simp_all add: correct_evidence_def Let_def)
  then show ?thesis unfolding t by simp
qed


theorem corrections_touch_own_evidence_witness:
  "filter (\<lambda>e. ev_actor e \<noteq> Some (acc_actor demo_access))
     (prof_evidence (stored_profile (demo_store_with []) (scope_key (ScopePersonal 7)))) = []"
proof -
  have "feedback demo_access 3 None True 70 (demo_store_with [demo_evidence]) = (Inr (), demo_store_with [])"
    using demo_preference_steps(2) by simp
  from corrections_touch_own_evidence [OF this, of "scope_key (ScopePersonal 7)"]
  show ?thesis unfolding demo_stored by (simp add: demo_profile_def demo_evidence_def demo_access_def)
qed

end
