(* ===== verification/Work_Schedule.thy ===== *)
theory Work_Schedule
  imports Work_Policy
begin

text \<open>
  The batch planner and the durable reservation (the second half of
  \<open>src/work/schedule.rs\<close>). Planning reads the store and an injected instant and proposes
  at most one batch; reserving replans, compares, and records exactly one attempt.
\<close>

section \<open>Batches\<close>

record work_batch =
  wb_scope :: work_scope
  wb_destination :: u64
  wb_target :: work_destination
  wb_content_refs :: "work_content_ref fset"
  wb_rendered_body :: rstr
  wb_provenance :: delivered_provenance
  wb_local_day :: rstr
  wb_kind :: work_delivery_kind
  wb_task_ids :: "u64 list"
  wb_coverage :: "reminder_coverage list"
  wb_dedupe_keys :: "rstr fset"
  wb_policy :: work_automation_policy
  wb_revisions :: "(u64 \<times> u64) list"
  wb_project_revisions :: "(u64 \<times> u64) list"

section \<open>What is due\<close>

definition receipt_in_scope :: "work_store \<Rightarrow> work_scope \<Rightarrow> delivery_receipt \<Rightarrow> bool" where
  "receipt_in_scope s scope r =
     (case rc_scope r of
        None \<Rightarrow> is_some_and (fmlookup (ws_projects s) (rc_project_id r)) (\<lambda>p. proj_scope p = scope)
      | Some other \<Rightarrow> other = scope)"

definition scope_receipts :: "work_store \<Rightarrow> work_scope \<Rightarrow> delivery_receipt list" where
  "scope_receipts s scope = filter (receipt_in_scope s scope) (fm_values (ws_deliveries s))"

definition on_local_day :: "'tz chrono \<Rightarrow> 'tz \<Rightarrow> int \<Rightarrow> u64 \<Rightarrow> bool" where
  "on_local_day ch tz day at =
     (case utc ch at of Inl _ \<Rightarrow> False | Inr t \<Rightarrow> ch_date ch tz t = day)"

definition attempts_on :: "'tz chrono \<Rightarrow> work_store \<Rightarrow> work_scope \<Rightarrow> 'tz \<Rightarrow> int \<Rightarrow> nat" where
  "attempts_on ch s scope tz day =
     length (filter (\<lambda>r. on_local_day ch tz day (rc_at r)) (scope_receipts s scope))"

definition snooze_over :: "u64 \<Rightarrow> work_task \<Rightarrow> bool" where
  "snooze_over now t = is_none_or (task_snoozed_until t) (\<lambda>until. until \<le> now)"

definition due_tasks :: "work_store \<Rightarrow> work_project list \<Rightarrow> u64 \<Rightarrow> work_task list" where
  "due_tasks s ps now =
     filter (\<lambda>t. task_project_id t \<in> set (map proj_id ps)
         \<and> \<not> (task_status t = StDone \<or> task_status t = StCancelled) \<and> snooze_over now t)
       (fm_values (ws_tasks s))"

definition briefing_key :: "'tz chrono \<Rightarrow> work_scope \<Rightarrow> int \<Rightarrow> rstr" where
  "briefing_key ch scope day =
     scope_key scope @ lit '':'' @ ch_show_date ch day @ lit '':briefing:scope''"

text \<open>
  The date that identifies a briefing: an evening hour inside overnight quiet hours keeps
  the date it was due on when it becomes eligible the next morning.
\<close>

definition occurrence_day ::
  "'tz chrono \<Rightarrow> work_automation_policy \<Rightarrow> u8 \<Rightarrow> int \<Rightarrow> int \<Rightarrow> int \<Rightarrow> work_error + int" where
  "occurrence_day ch policy hour at today_at day =
     (if at < today_at \<and> ap_quiet_end policy < ap_quiet_start policy \<and> ap_quiet_start policy \<le> hour
      then ok_or (ch_pred_date ch day) Invalid else Inr day)"

definition briefing_sent ::
  "'tz chrono \<Rightarrow> 'tz \<Rightarrow> int \<Rightarrow> rstr \<Rightarrow> delivery_receipt list \<Rightarrow> bool" where
  "briefing_sent ch tz today key rs = list_ex
     (\<lambda>r. key |\<in>| rc_dedupe_keys r
        \<or> rc_kind r = Some Briefing \<and> on_local_day ch tz today (rc_at r)) rs"

definition briefing_due ::
  "'tz chrono \<Rightarrow> 'tz \<Rightarrow> work_task list \<Rightarrow> int \<Rightarrow> int \<Rightarrow> int \<Rightarrow> u8 \<Rightarrow> rstr \<Rightarrow> delivery_receipt list
     \<Rightarrow> work_error + bool" where
  "briefing_due ch tz tasks at today day hour key rs =
     (if tasks = [] then Inr False
      else rbind (local_hour ch tz day hour) (\<lambda>start.
        Inr (start \<le> at \<and> \<not> briefing_sent ch tz today key rs)))"

definition task_coverage :: "work_task \<Rightarrow> u64 \<Rightarrow> reminder_coverage" where
  "task_coverage t at = \<lparr>cov_task_id = task_id t, cov_reminder_revision = task_reminder_revision t,
     cov_remind_at = at\<rparr>"

definition due_reminder :: "delivery_receipt list \<Rightarrow> u64 \<Rightarrow> work_task \<Rightarrow> reminder_coverage option" where
  "due_reminder rs now t =
     (case task_remind_at t of
        None \<Rightarrow> None
      | Some at \<Rightarrow>
          if now < at then None
          else let c = task_coverage t at
            in if list_ex (\<lambda>r. c \<in> set (rc_coverage r)) rs then None else Some c)"

definition pending_change :: "serial \<Rightarrow> work_store \<Rightarrow> work_scope \<Rightarrow> u64 \<Rightarrow> work_content_ref \<Rightarrow> bool" where
  "pending_change ser s scope now r \<longleftrightarrow>
     (case r of RefTask _ i _ \<Rightarrow> is_some_and (fmlookup (ws_tasks s) i) (snooze_over now)
      | RefDecision _ _ _ \<Rightarrow> True)
     \<and> (case fmlookup (ws_change_fingerprints s) (scope_key scope) of
          None \<Rightarrow> None | Some f \<Rightarrow> fmlookup f (ref_id r))
        \<noteq> fmlookup (content_fingerprints ser s scope) (ref_id r)"

definition scope_changes :: "serial \<Rightarrow> work_store \<Rightarrow> work_scope \<Rightarrow> u64 \<Rightarrow> work_content_ref fset" where
  "scope_changes ser s scope now =
     (case fmlookup (ws_change_coverage s) (scope_key scope) of
        None \<Rightarrow> {||}
      | Some covered \<Rightarrow>
          ffilter (pending_change ser s scope now) (content_refs s scope |-| covered))"

section \<open>Choosing the content\<close>

text \<open>Tasks by priority, deadline and id, then decisions by id.\<close>

definition content_order :: "work_store \<Rightarrow> work_content_ref \<Rightarrow> nat \<times> int \<times> nat \<times> nat" where
  "content_order s r =
     (case r of
        RefTask _ i _ \<Rightarrow>
          (case fmlookup (ws_tasks s) i of
             None \<Rightarrow> (0, 0, u64_max, i)
           | Some t \<Rightarrow> (0, - int (task_priority t),
               (case task_due_at t of None \<Rightarrow> u64_max | Some d \<Rightarrow> d), i))
      | RefDecision _ i _ \<Rightarrow> (1, 0, u64_max, i))"

definition ref_task_id :: "work_content_ref \<Rightarrow> u64 option" where
  "ref_task_id r = (case r of RefTask _ i _ \<Rightarrow> Some i | RefDecision _ _ _ \<Rightarrow> None)"

definition reminder_key :: "work_scope \<Rightarrow> rstr \<Rightarrow> reminder_coverage \<Rightarrow> rstr" where
  "reminder_key scope local_day c =
     scope_key scope @ lit '':'' @ local_day @ lit '':reminder:'' @ decimal (cov_task_id c)
       @ lit '':'' @ decimal (cov_reminder_revision c) @ lit '':'' @ decimal (cov_remind_at c)"

definition chosen_refs ::
  "bool \<Rightarrow> work_task list \<Rightarrow> reminder_coverage list \<Rightarrow> work_content_ref fset \<Rightarrow> work_content_ref fset" where
  "chosen_refs brief tasks coverage changes =
     (let ids = (if brief then map task_id tasks else map cov_task_id coverage) in
      if \<not> brief \<and> coverage = [] then changes
      else fset_of_list (map task_ref (filter (\<lambda>t. task_id t \<in> set ids) tasks)))"

definition ordered_refs :: "work_store \<Rightarrow> work_content_ref fset \<Rightarrow> work_content_ref list" where
  "ordered_refs s refs = sort_key (content_order s) (sorted_list_of_fset refs)"

definition batch_kind :: "bool \<Rightarrow> reminder_coverage list \<Rightarrow> work_delivery_kind" where
  "batch_kind brief coverage =
     (if brief then Briefing else if coverage = [] then Changes else Reminder)"

text \<open>
  Everything the planner has decided before it writes the batch down.
\<close>

record batch_plan =
  bp_policy :: work_automation_policy
  bp_destination :: u64
  bp_target :: work_destination
  bp_projects :: "work_project list"
  bp_tasks :: "work_task list"
  bp_local_day :: rstr
  bp_briefing :: bool
  bp_briefing_key :: rstr
  bp_coverage :: "reminder_coverage list"
  bp_changes :: "work_content_ref fset"

definition assemble_batch :: "serial \<Rightarrow> work_store \<Rightarrow> work_scope \<Rightarrow> batch_plan \<Rightarrow> work_error + work_batch" where
  "assemble_batch ser s scope b =
     (let all = ordered_refs s (chosen_refs (bp_briefing b) (bp_tasks b) (bp_coverage b) (bp_changes b));
          ordered = take 8 all;
          ids = List.map_filter ref_task_id ordered;
          coverage = filter (\<lambda>c. cov_task_id c \<in> set ids) (bp_coverage b);
          keys = fset_of_list (map (reminder_key scope (bp_local_day b)) coverage)
      in rbind (render_delivery ser s ordered (length all - 8)) (\<lambda>(body, prov).
        Inr \<lparr>wb_scope = scope, wb_destination = bp_destination b, wb_target = bp_target b,
          wb_content_refs = fset_of_list ordered, wb_rendered_body = body, wb_provenance = prov,
          wb_local_day = bp_local_day b, wb_kind = batch_kind (bp_briefing b) (bp_coverage b),
          wb_task_ids = ids, wb_coverage = coverage,
          wb_dedupe_keys = (if bp_briefing b then finsert (bp_briefing_key b) keys else keys),
          wb_policy = bp_policy b,
          wb_revisions = map (\<lambda>t. (task_id t, task_revision t))
            (filter (\<lambda>t. task_id t \<in> set ids) (bp_tasks b)),
          wb_project_revisions = map (\<lambda>p. (proj_id p, proj_revision p)) (bp_projects b)\<rparr>))"

section \<open>Planning\<close>

definition due_batch ::
  "'tz chrono \<Rightarrow> serial \<Rightarrow> work_store \<Rightarrow> work_scope \<Rightarrow> work_access \<Rightarrow> u64 \<Rightarrow> work_project list
     \<Rightarrow> work_automation_policy \<Rightarrow> u64 \<Rightarrow> work_destination \<Rightarrow> 'tz \<Rightarrow> int
     \<Rightarrow> work_error + work_batch option" where
  "due_batch ch ser s scope a now ps policy destination target tz at =
     (let today = ch_date ch tz at; rs = scope_receipts s scope; tasks = due_tasks s ps now in
      rbind (get_preference_profile s a) (\<lambda>profile.
      let hour = effective_hour profile (ap_briefing_hour policy) in
      rbind (local_hour ch tz today hour) (\<lambda>today_at.
      rbind (occurrence_day ch policy hour at today_at today) (\<lambda>day.
      let key = briefing_key ch scope day in
      rbind (briefing_due ch tz tasks at today day hour key rs) (\<lambda>brief.
      let coverage = List.map_filter (due_reminder rs now) tasks;
          changes = (if prof_reduce_followups profile then {||} else scope_changes ser s scope now)
      in if \<not> brief \<and> coverage = [] \<and> changes = {||} then Inr None
         else rbind (assemble_batch ser s scope \<lparr>bp_policy = policy, bp_destination = destination,
             bp_target = target, bp_projects = ps, bp_tasks = tasks,
             bp_local_day = ch_show_date ch today, bp_briefing = brief, bp_briefing_key = key,
             bp_coverage = coverage, bp_changes = changes\<rparr>) (\<lambda>b. Inr (Some b)))))))"

definition next_batch ::
  "'tz chrono \<Rightarrow> serial \<Rightarrow> work_store \<Rightarrow> work_scope \<Rightarrow> work_access \<Rightarrow> u64
     \<Rightarrow> work_error + work_batch option" where
  "next_batch ch ser s scope a now =
     rbind (scope_projects s scope a False) (\<lambda>ps.
     case fmlookup (ws_scope_automation s) (scope_key scope) of
       None \<Rightarrow> Inr None
     | Some policy \<Rightarrow>
         if \<not> policy_valid ch policy then Inl Invalid
         else if \<not> ap_enabled policy
           \<or> fmlookup (ws_scope_automation_actors s) (scope_key scope) \<noteq> Some (acc_actor a) then Inr None
         else rbind (scope_projects s scope a True) (\<lambda>_.
           rbind (ok_or (ap_destination policy) Invalid) (\<lambda>destination.
           rbind (delivery_target scope a policy) (\<lambda>target.
           rbind (ok_or (ch_parse_tz ch (ap_timezone policy)) Invalid) (\<lambda>tz.
           rbind (utc ch now) (\<lambda>at.
             if quiet policy (ch_hour ch tz at)
               \<or> ap_daily_limit policy \<le> attempts_on ch s scope tz (ch_date ch tz at) then Inr None
             else due_batch ch ser s scope a now ps policy destination target tz at))))))"

section \<open>Reserving\<close>

definition validate_reserved_batch ::
  "'tz chrono \<Rightarrow> work_store \<Rightarrow> work_access \<Rightarrow> work_batch \<Rightarrow> u64 \<Rightarrow> work_error + unit" where
  "validate_reserved_batch ch s a b now =
     (let key = scope_key (wb_scope b) in
      rbind (scope_projects s (wb_scope b) a True) (\<lambda>ps.
      if fmlookup (ws_scope_automation s) key \<noteq> Some (wb_policy b) \<or> \<not> ap_enabled (wb_policy b)
        \<or> fmlookup (ws_scope_automation_actors s) key \<noteq> Some (acc_actor a)
        \<or> map (\<lambda>p. (proj_id p, proj_revision p)) ps \<noteq> wb_project_revisions b
        \<or> list_ex (\<lambda>(i, revision). is_none_or (fmlookup (ws_tasks s) i) (\<lambda>t. task_revision t \<noteq> revision))
            (wb_revisions b)
      then Inl Stale
      else rbind (delivery_target (wb_scope b) a (wb_policy b)) (\<lambda>_.
        rbind (ok_or (ch_parse_tz ch (ap_timezone (wb_policy b))) Invalid) (\<lambda>tz.
        rbind (utc ch now) (\<lambda>at.
          if quiet (wb_policy b) (ch_hour ch tz at) \<or> ch_show_date ch (ch_date ch tz at) \<noteq> wb_local_day b
          then Inl Stale else Inr ())))))"

definition batch_receipt :: "work_batch \<Rightarrow> u64 \<Rightarrow> u64 \<Rightarrow> u64 \<Rightarrow> u64 \<Rightarrow> delivery_receipt" where
  "batch_receipt b i home transport now =
     \<lparr>rc_id = i, rc_project_id = home, rc_recipient = transport, rc_destination = Some (wb_target b),
      rc_policy_revision = ap_revision (wb_policy b), rc_provenance = Some (wb_provenance b),
      rc_local_day = wb_local_day b, rc_at = now, rc_state = Attempting, rc_message_id = None,
      rc_scope = Some (wb_scope b), rc_kind = Some (wb_kind b), rc_coverage = wb_coverage b,
      rc_task_ids = wb_task_ids b, rc_dedupe_keys = wb_dedupe_keys b\<rparr>"

definition or_default :: "'v \<Rightarrow> 'v option \<Rightarrow> 'v" where
  "or_default d x = (case x of None \<Rightarrow> d | Some v \<Rightarrow> v)"

definition cover_fingerprints ::
  "(u64, rstr) fmap \<Rightarrow> work_content_ref list \<Rightarrow> (u64, rstr) fmap \<Rightarrow> (u64, rstr) fmap" where
  "cover_fingerprints current refs m =
     fold (\<lambda>r m. case fmlookup current (ref_id r) of None \<Rightarrow> m | Some f \<Rightarrow> fmupd (ref_id r) f m) refs m"

definition cover_refs :: "work_content_ref list \<Rightarrow> work_content_ref fset \<Rightarrow> work_content_ref fset" where
  "cover_refs refs covered =
     fold (\<lambda>r c. finsert r (ffilter (\<lambda>old. \<not> same_content old r) c)) refs covered"

definition cover_batch :: "serial \<Rightarrow> work_batch \<Rightarrow> work_store \<Rightarrow> work_store" where
  "cover_batch ser b s =
     (let key = scope_key (wb_scope b); refs = sorted_list_of_fset (wb_content_refs b) in
      s\<lparr>ws_change_fingerprints := fmupd key
          (cover_fingerprints (content_fingerprints ser s (wb_scope b)) refs
            (or_default fmempty (fmlookup (ws_change_fingerprints s) key))) (ws_change_fingerprints s),
        ws_change_coverage := fmupd key
          (cover_refs refs (or_default {||} (fmlookup (ws_change_coverage s) key)))
          (ws_change_coverage s)\<rparr>)"

definition reserve_resolved_batch ::
  "'tz chrono \<Rightarrow> serial \<Rightarrow> work_access \<Rightarrow> work_batch \<Rightarrow> u64 \<Rightarrow> u64 \<Rightarrow> u64 store_op" where
  "reserve_resolved_batch ch ser a b transport now s =
     (case next_batch ch ser s (wb_scope b) a now of
        Inl e \<Rightarrow> (Inl e, s)
      | Inr plan \<Rightarrow>
          if plan \<noteq> Some b then (Inl Stale, s)
          else if 10000 \<le> fm_len (ws_deliveries s) then (Inl Full, s)
          else op_then (next_id s) (\<lambda>i s.
            case wb_project_revisions b of
              [] \<Rightarrow> (Inl Missing, s)
            | (home, _) # _ \<Rightarrow> (Inr i, cover_batch ser b (s\<lparr>ws_deliveries :=
                fmupd i (batch_receipt b i home transport now) (ws_deliveries s)\<rparr>))))"

definition reserve_batch ::
  "'tz chrono \<Rightarrow> serial \<Rightarrow> work_access \<Rightarrow> work_batch \<Rightarrow> u64 \<Rightarrow> u64 store_op" where
  "reserve_batch ch ser a b now s =
     (case wb_target b of
        DestTeamPrivate _ \<Rightarrow> (Inl Denied, s)
      | _ \<Rightarrow> reserve_resolved_batch ch ser a b (wb_destination b) now s)"

definition reserve_private_batch ::
  "'tz chrono \<Rightarrow> serial \<Rightarrow> work_access \<Rightarrow> work_batch \<Rightarrow> u64 \<Rightarrow> u64 \<Rightarrow> u64 store_op" where
  "reserve_private_batch ch ser a b dm_channel now s =
     (if wb_target b \<noteq> DestTeamPrivate (acc_actor a) \<or> dm_channel = 0 \<or> dm_channel = acc_channel a
      then (Inl Denied, s)
      else reserve_resolved_batch ch ser a b dm_channel now s)"

section \<open>What a planned batch is\<close>

lemma scope_projects_manager:
  "scope_projects s scope a True = Inr ps \<Longrightarrow> scope_projects s scope a False = Inr ps"
  by (auto simp: scope_projects_Inr authorized_manager)

lemma next_batchE:
  assumes "next_batch ch ser s scope a now = Inr (Some b)"
  obtains ps policy target tz at destination where
    "scope_projects s scope a True = Inr ps"
    "fmlookup (ws_scope_automation s) (scope_key scope) = Some policy" "policy_valid ch policy"
    "ap_enabled policy" "fmlookup (ws_scope_automation_actors s) (scope_key scope) = Some (acc_actor a)"
    "ap_destination policy = Some destination" "delivery_target scope a policy = Inr target"
    "ch_parse_tz ch (ap_timezone policy) = Some tz" "utc ch now = Inr at"
    "\<not> quiet policy (ch_hour ch tz at)"
    "attempts_on ch s scope tz (ch_date ch tz at) < ap_daily_limit policy"
    "due_batch ch ser s scope a now ps policy destination target tz at = Inr (Some b)"
proof -
  from assms obtain ps where ps: "scope_projects s scope a False = Inr ps"
    unfolding next_batch_def by auto
  note step = assms [unfolded next_batch_def ps rbind.simps]
  from step obtain policy where p: "fmlookup (ws_scope_automation s) (scope_key scope) = Some policy"
    by (cases "fmlookup (ws_scope_automation s) (scope_key scope)") auto
  note step = step [unfolded p option.case]
  from step have g: "policy_valid ch policy" "ap_enabled policy"
    "fmlookup (ws_scope_automation_actors s) (scope_key scope) = Some (acc_actor a)"
    by (auto split: if_splits)
  from step g obtain qs where qs: "scope_projects s scope a True = Inr qs" by auto
  have "qs = ps" using scope_projects_manager [OF qs] ps by simp
  then show thesis
    using step g qs p by (auto split: if_splits intro!: that [of ps policy] simp: not_le)
qed

lemma due_batchE:
  assumes "due_batch ch ser s scope a now ps policy destination target tz at = Inr (Some b)"
  obtains profile hour today_at day brief coverage changes where
    "get_preference_profile s a = Inr profile"
    "hour = effective_hour profile (ap_briefing_hour policy)"
    "local_hour ch tz (ch_date ch tz at) hour = Inr today_at"
    "occurrence_day ch policy hour at today_at (ch_date ch tz at) = Inr day"
    "briefing_due ch tz (due_tasks s ps now) at (ch_date ch tz at) day hour
       (briefing_key ch scope day) (scope_receipts s scope) = Inr brief"
    "coverage = List.map_filter (due_reminder (scope_receipts s scope) now) (due_tasks s ps now)"
    "changes = (if prof_reduce_followups profile then {||} else scope_changes ser s scope now)"
    "brief \<or> coverage \<noteq> [] \<or> changes \<noteq> {||}"
    "assemble_batch ser s scope \<lparr>bp_policy = policy, bp_destination = destination,
       bp_target = target, bp_projects = ps, bp_tasks = due_tasks s ps now,
       bp_local_day = ch_show_date ch (ch_date ch tz at), bp_briefing = brief,
       bp_briefing_key = briefing_key ch scope day, bp_coverage = coverage, bp_changes = changes\<rparr> = Inr b"
  using assms unfolding due_batch_def Let_def
  by (auto split: if_splits intro!: that [OF _ refl _ _ _ refl refl])

lemma assembleE:
  assumes "assemble_batch ser s scope p = Inr b"
  obtains all body prov where
    "all = ordered_refs s (chosen_refs (bp_briefing p) (bp_tasks p) (bp_coverage p) (bp_changes p))"
    "render_delivery ser s (take 8 all) (length all - 8) = Inr (body, prov)"
    "b = \<lparr>wb_scope = scope, wb_destination = bp_destination p, wb_target = bp_target p,
       wb_content_refs = fset_of_list (take 8 all), wb_rendered_body = body, wb_provenance = prov,
       wb_local_day = bp_local_day p, wb_kind = batch_kind (bp_briefing p) (bp_coverage p),
       wb_task_ids = List.map_filter ref_task_id (take 8 all),
       wb_coverage = filter (\<lambda>c. cov_task_id c \<in> set (List.map_filter ref_task_id (take 8 all))) (bp_coverage p),
       wb_dedupe_keys = (if bp_briefing p then finsert (bp_briefing_key p) (fset_of_list (map
         (reminder_key scope (bp_local_day p)) (filter (\<lambda>c. cov_task_id c \<in>
           set (List.map_filter ref_task_id (take 8 all))) (bp_coverage p))))
         else fset_of_list (map (reminder_key scope (bp_local_day p)) (filter (\<lambda>c. cov_task_id c \<in>
           set (List.map_filter ref_task_id (take 8 all))) (bp_coverage p)))),
       wb_policy = bp_policy p,
       wb_revisions = map (\<lambda>t. (task_id t, task_revision t))
         (filter (\<lambda>t. task_id t \<in> set (List.map_filter ref_task_id (take 8 all))) (bp_tasks p)),
       wb_project_revisions = map (\<lambda>q. (proj_id q, proj_revision q)) (bp_projects p)\<rparr>"
  using assms unfolding assemble_batch_def Let_def
  by (auto split: prod.splits intro!: that [OF refl])

lemma ordered_refs_props [simp]:
  "set (ordered_refs s refs) = fset refs" "distinct (ordered_refs s refs)"
  "sorted (map (content_order s) (ordered_refs s refs))"
  by (simp_all add: ordered_refs_def) (simp_all add: sorted_list_of_fset.rep_eq)

lemma map_filter_member: "y \<in> set (List.map_filter f xs) \<longleftrightarrow> (\<exists>x \<in> set xs. f x = Some y)"
  by (induction xs) (auto simp: List.map_filter_simps split: option.splits)

lemma due_reminder_Some:
  "due_reminder rs now t = Some c \<longleftrightarrow> (\<exists>at. task_remind_at t = Some at \<and> at \<le> now
     \<and> c = task_coverage t at \<and> (\<forall>r \<in> set rs. c \<notin> set (rc_coverage r)))"
  by (auto simp: due_reminder_def Let_def list_ex_iff split: option.splits)

lemma due_tasks_member:
  "t \<in> set (due_tasks s ps now) \<longleftrightarrow> (\<exists>k. fmlookup (ws_tasks s) k = Some t)
     \<and> task_project_id t \<in> proj_id ` set ps \<and> open_task t \<and> snooze_over now t"
  by (auto simp: due_tasks_def open_task_def fmlookup_ran'_iff)

lemma briefing_due_True:
  assumes "briefing_due ch tz tasks at today day hour key rs = Inr True"
  shows "tasks \<noteq> [] \<and> \<not> briefing_sent ch tz today key rs"
  using assms by (auto simp: briefing_due_def split: if_splits)

lemma scope_project_ids_projects:
  "scope_projects s scope a m = Inr ps \<Longrightarrow> proj_id ` set ps = fset (scope_project_ids s scope)"
  by (auto simp: scope_projects_Inr scope_project_ids_def fset_of_list.rep_eq)

text \<open>The decisions behind a planned batch, in one place.\<close>

lemma planned_batchE:
  assumes "next_batch ch ser s scope a now = Inr (Some b)"
  obtains ps policy tz at today brief key coverage changes all body where
    "scope_projects s scope a True = Inr ps" "wb_policy b = policy" "wb_scope b = scope"
    "fmlookup (ws_scope_automation s) (scope_key scope) = Some policy" "policy_valid ch policy"
    "ap_enabled policy" "fmlookup (ws_scope_automation_actors s) (scope_key scope) = Some (acc_actor a)"
    "ap_destination policy = Some (wb_destination b)" "delivery_target scope a policy = Inr (wb_target b)"
    "ch_parse_tz ch (ap_timezone policy) = Some tz" "utc ch now = Inr at" "today = ch_date ch tz at"
    "\<not> quiet policy (ch_hour ch tz at)" "attempts_on ch s scope tz today < ap_daily_limit policy"
    "brief \<Longrightarrow> due_tasks s ps now \<noteq> [] \<and> \<not> briefing_sent ch tz today key (scope_receipts s scope)
       \<and> key |\<in>| wb_dedupe_keys b"
    "coverage = List.map_filter (due_reminder (scope_receipts s scope) now) (due_tasks s ps now)"
    "changes |\<subseteq>| scope_changes ser s scope now"
    "brief \<or> coverage \<noteq> [] \<or> changes \<noteq> {||}"
    "all = ordered_refs s (chosen_refs brief (due_tasks s ps now) coverage changes)"
    "render_delivery ser s (take 8 all) (length all - 8) = Inr (body, wb_provenance b)"
    "wb_rendered_body b = body" "wb_content_refs b = fset_of_list (take 8 all)"
    "wb_kind b = batch_kind brief coverage" "wb_local_day b = ch_show_date ch today"
    "wb_task_ids b = List.map_filter ref_task_id (take 8 all)"
    "wb_coverage b = filter (\<lambda>c. cov_task_id c \<in> set (wb_task_ids b)) coverage"
    "wb_revisions b = map (\<lambda>t. (task_id t, task_revision t))
       (filter (\<lambda>t. task_id t \<in> set (wb_task_ids b)) (due_tasks s ps now))"
    "wb_project_revisions b = map (\<lambda>q. (proj_id q, proj_revision q)) ps"
proof -
  from assms show thesis
  proof (cases rule: next_batchE)
    case (1 ps policy target tz at destination)
    note plan = this
    from plan(12) show thesis
    proof (cases rule: due_batchE)
      case (1 profile hour today_at day brief coverage changes)
      note due = this
      from due(9) obtain all body prov where as: "all = ordered_refs s (chosen_refs brief (due_tasks s ps now) coverage changes)"
        "render_delivery ser s (take 8 all) (length all - 8) = Inr (body, prov)"
        and b: "wb_policy b = policy" "wb_scope b = scope" "wb_destination b = destination"
          "wb_target b = target" "wb_rendered_body b = body" "wb_provenance b = prov"
          "wb_content_refs b = fset_of_list (take 8 all)" "wb_kind b = batch_kind brief coverage"
          "wb_local_day b = ch_show_date ch (ch_date ch tz at)"
          "wb_task_ids b = List.map_filter ref_task_id (take 8 all)"
          "wb_coverage b = filter (\<lambda>c. cov_task_id c \<in> set (List.map_filter ref_task_id (take 8 all))) coverage"
          "wb_revisions b = map (\<lambda>t. (task_id t, task_revision t))
             (filter (\<lambda>t. task_id t \<in> set (List.map_filter ref_task_id (take 8 all))) (due_tasks s ps now))"
          "wb_project_revisions b = map (\<lambda>q. (proj_id q, proj_revision q)) ps"
          "brief \<Longrightarrow> briefing_key ch scope day |\<in>| wb_dedupe_keys b"
        by (elim assembleE) auto
      have sub: "changes |\<subseteq>| scope_changes ser s scope now" unfolding due(7) by auto
      have sent: "due_tasks s ps now \<noteq> [] \<and> \<not> briefing_sent ch tz (ch_date ch tz at)
          (briefing_key ch scope day) (scope_receipts s scope)" if brief
        using due(5) that by (intro briefing_due_True [of ch tz _ at _ day hour]) simp
      show thesis
        by (rule that [where brief = brief and key = "briefing_key ch scope day", OF plan(1) b(1,2) plan(2,3,4,5) _ _ plan(8,9)
            refl plan(10) plan(11) _ due(6) sub due(8) as(1)])
          (use plan(6,7) as(2) b sent in auto)
    qed
  qed
qed

lemma chosen_refs_member:
  "r |\<in>| chosen_refs brief tasks coverage changes \<longleftrightarrow>
     (if \<not> brief \<and> coverage = [] then r |\<in>| changes
      else \<exists>t \<in> set tasks. r = task_ref t \<and> (brief \<or> (\<exists>c \<in> set coverage. cov_task_id c = task_id t)))"
  by (auto simp: chosen_refs_def fset_of_list.rep_eq intro!: bexI image_eqI)

lemma scope_changes_member:
  "r |\<in>| scope_changes ser s scope now \<Longrightarrow> r |\<in>| content_refs s scope \<and> pending_change ser s scope now r"
  by (auto simp: scope_changes_def split: option.splits)

lemma due_task_ref:
  assumes "scope_projects s scope a m = Inr ps" and "t \<in> set (due_tasks s ps now)"
  shows "task_ref t |\<in>| content_refs s scope"
  using assms by (auto simp: due_tasks_member content_refs_iff scope_project_ids_projects)

text \<open>What a chosen reference is.\<close>

definition due_ref :: "work_store \<Rightarrow> work_scope \<Rightarrow> u64 \<Rightarrow> bool \<Rightarrow> work_content_ref \<Rightarrow> bool" where
  "due_ref s scope now optional r \<longleftrightarrow> r |\<in>| content_refs s scope
     \<and> (case r of
          RefTask _ i _ \<Rightarrow> is_some_and (fmlookup (ws_tasks s) i)
            (\<lambda>t. r = task_ref t \<and> snooze_over now t \<and> (optional \<or> open_task t))
        | RefDecision _ _ _ \<Rightarrow> optional)"

lemma due_task_due_ref:
  assumes "store_ok s" and "scope_projects s scope a m = Inr ps" and "t \<in> set (due_tasks s ps now)"
  shows "due_ref s scope now optional (task_ref t)"
proof -
  from assms(3) obtain k where k: "fmlookup (ws_tasks s) k = Some t" "open_task t" "snooze_over now t"
    by (auto simp: due_tasks_member)
  with store_okD(2) [OF assms(1) k(1)] show ?thesis
    using due_task_ref [OF assms(2,3)] by (simp add: due_ref_def task_ref_def)
qed

lemma change_due_ref:
  assumes "store_ok s" and "r |\<in>| scope_changes ser s scope now"
  shows "due_ref s scope now True r"
proof -
  from scope_changes_member [OF assms(2)]
  have r: "r |\<in>| content_refs s scope" "pending_change ser s scope now r" by simp_all
  from r(1) consider k t where "fmlookup (ws_tasks s) k = Some t" "r = task_ref t"
    | d where "r = decision_ref d"
    unfolding content_refs_iff by blast
  then show ?thesis
  proof cases
    case 1
    with store_okD(2) [OF assms(1) 1(1)] r show ?thesis
      by (auto simp: due_ref_def pending_change_def task_ref_def)
  next
    case 2
    with r(1) show ?thesis by (simp add: due_ref_def decision_ref_def)
  qed
qed

lemma sorted_split:
  assumes "sorted (map f xs)" and "x \<in> set (take n xs)" and "y \<in> set xs" and "y \<notin> set (take n xs)"
  shows "f x \<le> f y"
proof -
  have "set xs = set (take n xs) \<union> set (drop n xs)" by (metis append_take_drop_id set_append)
  with assms(3,4) have "y \<in> set (drop n xs)" by blast
  moreover have "sorted (map f (take n xs) @ map f (drop n xs))"
    using assms(1) by (simp flip: map_append)
  ultimately show ?thesis using assms(2) by (auto simp: sorted_append)
qed

section \<open>Reservations\<close>

definition reserved_store ::
  "serial \<Rightarrow> work_batch \<Rightarrow> u64 \<Rightarrow> u64 \<Rightarrow> u64 \<Rightarrow> work_store \<Rightarrow> work_store" where
  "reserved_store ser b home transport now s =
     (let i = Suc (ws_sequence s) in cover_batch ser b (s\<lparr>ws_sequence := i,
        ws_deliveries := fmupd i (batch_receipt b i home transport now) (ws_deliveries s)\<rparr>))"

lemma reserve_resolvedE:
  assumes "reserve_resolved_batch ch ser a b transport now s = (r, t)"
  obtains (failed) e where "r = Inl e" "t = s"
  | (reserved) home where "next_batch ch ser s (wb_scope b) a now = Inr (Some b)"
      "fm_len (ws_deliveries s) < 10000" "Suc (ws_sequence s) \<le> u64_max"
      "home \<in> fst ` set (wb_project_revisions b)" "r = Inr (Suc (ws_sequence s))"
      "t = reserved_store ser b home transport now s"
proof -
  note op = assms [unfolded reserve_resolved_batch_def]
  show thesis
    using op
  proof (elim guard_sumE guardE)
    fix plan
    assume plan: "next_batch ch ser s (wb_scope b) a now = Inr plan" "\<not> plan \<noteq> Some b"
      and room: "\<not> 10000 \<le> fm_len (ws_deliveries s)"
    assume rest: "op_then (next_id s) (\<lambda>i s. case wb_project_revisions b of [] \<Rightarrow> (Inl Missing, s)
        | (home, _) # _ \<Rightarrow> (Inr i, cover_batch ser b (s\<lparr>ws_deliveries :=
            fmupd i (batch_receipt b i home transport now) (ws_deliveries s)\<rparr>))) = (r, t)"
    from plan have next_plan: "next_batch ch ser s (wb_scope b) a now = Inr (Some b)" by simp
    then have "wb_project_revisions b \<noteq> []"
      by (cases rule: planned_batchE) (auto simp: scope_projects_Inr)
    then obtain home rev more where home: "wb_project_revisions b = (home, rev) # more"
      by (cases "wb_project_revisions b") auto
    show thesis
    proof (cases "next_id s")
      case (Pair x u)
      show ?thesis
      proof (cases x)
        case (Inl e)
        with Pair rest next_id_Inl [of s e u] show ?thesis by (intro failed) auto
      next
        case (Inr i)
        with Pair next_id_Inr [of s i u] have "i = Suc (ws_sequence s)" "Suc (ws_sequence s) \<le> u64_max"
          "u = s\<lparr>ws_sequence := i\<rparr>" by auto
        with rest Pair Inr home next_plan room show ?thesis
          by (intro reserved [of home]) (auto simp: reserved_store_def)
      qed
    qed
  qed (rule failed; assumption)+
qed

lemma reserve_batchE:
  assumes "reserve_batch ch ser a b now s = (r, t)"
  obtains (failed) e where "r = Inl e" "t = s"
  | (reserved) "\<forall>who. wb_target b \<noteq> DestTeamPrivate who"
      "reserve_resolved_batch ch ser a b (wb_destination b) now s = (r, t)"
  using assms unfolding reserve_batch_def by (cases "wb_target b") auto

lemma reserve_private_batchE:
  assumes "reserve_private_batch ch ser a b dm now s = (r, t)"
  obtains (failed) e where "r = Inl e" "t = s"
  | (reserved) "wb_target b = DestTeamPrivate (acc_actor a)" "dm \<noteq> 0" "dm \<noteq> acc_channel a"
      "reserve_resolved_batch ch ser a b dm now s = (r, t)"
  using assms unfolding reserve_private_batch_def by (auto split: if_splits)

lemma cover_batch_sel [simp]:
  "ws_deliveries (cover_batch ser b s) = ws_deliveries s" "ws_projects (cover_batch ser b s) = ws_projects s"
  "ws_tasks (cover_batch ser b s) = ws_tasks s" "ws_decisions (cover_batch ser b s) = ws_decisions s"
  "ws_goals (cover_batch ser b s) = ws_goals s" "ws_sequence (cover_batch ser b s) = ws_sequence s"
  "ws_request_ids (cover_batch ser b s) = ws_request_ids s"
  "ws_scope_automation (cover_batch ser b s) = ws_scope_automation s"
  "ws_scope_automation_actors (cover_batch ser b s) = ws_scope_automation_actors s"
  "ws_preferences (cover_batch ser b s) = ws_preferences s"
  by (simp_all add: cover_batch_def Let_def)

lemma reserved_store_sel [simp]:
  "ws_projects (reserved_store ser b home transport now s) = ws_projects s"
  "ws_tasks (reserved_store ser b home transport now s) = ws_tasks s"
  "ws_decisions (reserved_store ser b home transport now s) = ws_decisions s"
  "ws_goals (reserved_store ser b home transport now s) = ws_goals s"
  "ws_request_ids (reserved_store ser b home transport now s) = ws_request_ids s"
  "ws_sequence (reserved_store ser b home transport now s) = Suc (ws_sequence s)"
  "ws_scope_automation (reserved_store ser b home transport now s) = ws_scope_automation s"
  "ws_scope_automation_actors (reserved_store ser b home transport now s) = ws_scope_automation_actors s"
  "ws_deliveries (reserved_store ser b home transport now s) = fmupd (Suc (ws_sequence s))
     (batch_receipt b (Suc (ws_sequence s)) home transport now) (ws_deliveries s)"
  by (simp_all add: reserved_store_def Let_def)

lemma batch_receipt_sel [simp]:
  "rc_id (batch_receipt b i home transport now) = i" "rc_at (batch_receipt b i home transport now) = now"
  "rc_scope (batch_receipt b i home transport now) = Some (wb_scope b)"
  "rc_state (batch_receipt b i home transport now) = Attempting"
  "rc_message_id (batch_receipt b i home transport now) = None"
  "rc_kind (batch_receipt b i home transport now) = Some (wb_kind b)"
  "rc_coverage (batch_receipt b i home transport now) = wb_coverage b"
  "rc_dedupe_keys (batch_receipt b i home transport now) = wb_dedupe_keys b"
  "rc_recipient (batch_receipt b i home transport now) = transport"
  by (simp_all add: batch_receipt_def)

lemma scope_receipts_member:
  "r \<in> set (scope_receipts s scope) \<longleftrightarrow>
     (\<exists>i. fmlookup (ws_deliveries s) i = Some r) \<and> receipt_in_scope s scope r"
  by (auto simp: scope_receipts_def fmlookup_ran'_iff)

lemma reserved_receipt:
  "batch_receipt b (Suc (ws_sequence s)) home transport now
     \<in> set (scope_receipts (reserved_store ser b home transport now s) (wb_scope b))"
  by (auto simp: scope_receipts_member receipt_in_scope_def)

lemma count_values:
  "length (filter P (fm_values m)) = fm_len (fm_retain (\<lambda>_. P) m)"
  by (simp flip: fm_values_retain)

lemma count_values_fresh:
  assumes "fmlookup m i = None"
  shows "length (filter P (fm_values (fmupd i v m))) = (if P v then 1 else 0) + length (filter P (fm_values m))"
proof -
  have "fmdrop i m = m" using assms by (intro fmap_ext) auto
  then show ?thesis using assms by (simp add: count_values fm_retain_upd fm_len_upd)
qed

lemma attempts_on_reserved:
  assumes "ids_in rc_id (ws_sequence s) (ws_deliveries s)" and "on_local_day ch tz day now"
  shows "attempts_on ch (reserved_store ser b home transport now s) (wb_scope b) tz day
    = Suc (attempts_on ch s (wb_scope b) tz day)"
proof -
  have "receipt_in_scope (reserved_store ser b home transport now s) = receipt_in_scope s"
    by (intro ext) (unfold receipt_in_scope_def reserved_store_sel, rule refl)
  with assms(2) show ?thesis
    unfolding attempts_on_def scope_receipts_def filter_filter reserved_store_sel
      count_values_fresh [OF ids_in_fresh [OF assms(1)]]
    by (simp add: receipt_in_scope_def)
qed

lemma cover_refs_member:
  assumes "distinct (map ref_id refs)"
    and "r \<in> set refs \<or> (r |\<in>| c \<and> (\<forall>q \<in> set refs. \<not> same_content r q))"
  shows "r |\<in>| cover_refs refs c"
  using assms
proof (induction refs arbitrary: c)
  case Nil
  then show ?case by (simp add: cover_refs_def)
next
  case (Cons q refs)
  have ids: "same_content x y \<Longrightarrow> ref_id x = ref_id y" for x y by (cases x; cases y) auto
  let ?c = "finsert q (ffilter (\<lambda>old. \<not> same_content old q) c)"
  have "r |\<in>| cover_refs refs ?c"
  proof (rule Cons.IH)
    show "distinct (map ref_id refs)" using Cons.prems(1) by simp
    show "r \<in> set refs \<or> r |\<in>| ?c \<and> (\<forall>q \<in> set refs. \<not> same_content r q)"
      using Cons.prems ids by (auto simp: image_iff)
  qed
  then show ?case by (simp add: cover_refs_def)
qed

lemma covered_by_reservation:
  assumes "prov_valid (wb_provenance b)" and "prov_source_refs (wb_provenance b) = wb_content_refs b"
    and "r |\<in>| wb_content_refs b"
  shows "\<not> r |\<in>| scope_changes ser' (reserved_store ser b home transport at s) (wb_scope b) now"
proof -
  have "r |\<in>| cover_refs (sorted_list_of_fset (wb_content_refs b)) c" for c
    using assms(3) prov_ids_distinct [OF assms(1)] unfolding assms(2)
    by (intro cover_refs_member) (simp_all add: sorted_list_of_fset.rep_eq)
  then show ?thesis
    by (simp add: scope_changes_def reserved_store_def cover_batch_def Let_def)
qed

lemma planned_batch_refs:
  assumes "next_batch ch ser s scope a now = Inr (Some b)"
  shows "prov_valid (wb_provenance b)" "prov_source_refs (wb_provenance b) = wb_content_refs b"
    "wb_content_refs b \<noteq> {||}"
proof -
  have "prov_valid (wb_provenance b) \<and> prov_source_refs (wb_provenance b) = wb_content_refs b"
    using assms
  proof (cases rule: planned_batchE)
    case (1 ps policy tz at today brief key coverage changes all body)
    from 1(20) show ?thesis unfolding 1(22) by (elim render_deliveryE) auto
  qed
  then show "prov_valid (wb_provenance b)" "prov_source_refs (wb_provenance b) = wb_content_refs b"
    by simp_all
  then show "wb_content_refs b \<noteq> {||}" by (simp add: prov_valid_def)
qed

text \<open>Once reserved, the same batch is never planned again.\<close>

lemma reserved_batch_not_planned:
  assumes planned: "next_batch ch ser s (wb_scope b) a now = Inr (Some b)"
    and t: "t = reserved_store ser b home transport now s"
  shows "next_batch ch' ser' t (wb_scope b) a' now' \<noteq> Inr (Some b)"
proof
  let ?r = "batch_receipt b (Suc (ws_sequence s)) home transport now"
  have receipt: "?r \<in> set (scope_receipts t (wb_scope b))" unfolding t by (rule reserved_receipt)
  assume "next_batch ch' ser' t (wb_scope b) a' now' = Inr (Some b)"
  then show False
  proof (cases rule: planned_batchE)
    case (1 ps policy tz at today brief key coverage changes all body)
    note some = planned_batch_refs [OF planned]
    then obtain x where x: "x |\<in>| wb_content_refs b" by blast
    then have "x \<in> set (take 8 all)" unfolding 1(22) by (simp add: fset_of_list.rep_eq)
    then have top: "x \<in> set (take 8 all)" "x |\<in>| chosen_refs brief (due_tasks t ps now') coverage changes"
      using 1(19) by (auto dest: in_set_takeD)
    consider "brief" | "\<not> brief" "coverage \<noteq> []" | "\<not> brief" "coverage = []" by blast
    then show False
    proof cases
      case 1
      with \<open>brief \<Longrightarrow> _\<close> have "\<not> briefing_sent ch' tz today key (scope_receipts t (wb_scope b))"
        "key |\<in>| rc_dedupe_keys ?r" by simp_all
      with receipt show False by (auto simp: briefing_sent_def list_ex_iff)
    next
      case 2
      with top(2) obtain k c where k: "x = task_ref k" "c \<in> set coverage" "cov_task_id c = task_id k"
        by (auto simp: chosen_refs_member)
      with top(1) have "task_id k \<in> set (wb_task_ids b)"
        unfolding 1(25) by (auto simp: map_filter_member task_ref_def ref_task_id_def intro!: bexI)
      with k have "c \<in> set (rc_coverage ?r)" unfolding batch_receipt_sel 1(26) by simp
      moreover have "\<forall>r \<in> set (scope_receipts t (wb_scope b)). c \<notin> set (rc_coverage r)"
        using k(2) unfolding 1(16) by (auto simp: map_filter_member due_reminder_Some)
      ultimately show False using receipt by blast
    next
      case 3
      with top(2) 1(17) have "x |\<in>| scope_changes ser' t (wb_scope b) now'"
        by (auto simp: chosen_refs_member)
      with covered_by_reservation [OF some(1,2) x] show False unfolding t by blast
    qed
  qed
qed

section \<open>A concrete scope\<close>

definition demo_scheduled_store :: work_store where
  "demo_scheduled_store =
     store_policy demo_serial (ScopePersonal 7) demo_access (demo_policy\<lparr>ap_revision := 1\<rparr>) demo_task_store"

lemma demo_scheduled [simp]:
  "ws_projects demo_scheduled_store = ws_projects demo_task_store"
  "ws_tasks demo_scheduled_store = ws_tasks demo_task_store"
  "ws_decisions demo_scheduled_store = ws_decisions demo_task_store"
  "ws_goals demo_scheduled_store = ws_goals demo_task_store"
  "ws_sequence demo_scheduled_store = ws_sequence demo_task_store"
  "ws_request_ids demo_scheduled_store = ws_request_ids demo_task_store"
  "ws_deliveries demo_scheduled_store = fmempty" "ws_preferences demo_scheduled_store = fmempty"
  "fmlookup (ws_scope_automation demo_scheduled_store) (scope_key (ScopePersonal 7))
     = Some (demo_policy\<lparr>ap_revision := 1\<rparr>)"
  "fmlookup (ws_scope_automation_actors demo_scheduled_store) (scope_key (ScopePersonal 7)) = Some 7"
  by (simp_all add: demo_scheduled_store_def store_policy_def Let_def demo_policy_def default_policy_def
      demo_task_store_def demo_project_store_def demo_simps)

lemma scope_projects_cong:
  "ws_projects s = ws_projects t \<Longrightarrow> scope_projects s scope a m = scope_projects t scope a m"
  by (simp add: scope_projects_def)

lemma delivery_line_cong:
  assumes "ws_tasks s = ws_tasks t" and "ws_decisions s = ws_decisions t"
  shows "delivery_line s r = delivery_line t r"
  unfolding delivery_line_def assms by simp

lemma render_delivery_cong:
  assumes "ws_tasks s = ws_tasks t" and "ws_decisions s = ws_decisions t"
  shows "render_delivery ser s refs n = render_delivery ser t refs n"
proof -
  have "delivery_lines s refs = delivery_lines t refs"
    by (induction refs) (simp_all add: delivery_line_cong [OF assms])
  then show ?thesis by (simp add: render_delivery_def)
qed

lemma demo_scope_projects:
  "scope_projects demo_scheduled_store (ScopePersonal 7) demo_access m = Inr [new_project demo_access (lit ''plan'') 1]"
  by (simp add: scope_projects_def demo_projects new_project_def authorized_def Let_def
      access_scope_def demo_access_def)

lemma demo_due_tasks:
  "due_tasks demo_scheduled_store [new_project demo_access (lit ''plan'') 1] 43200
     = [new_task demo_access demo_task 2]"
  by (simp add: due_tasks_def demo_task_store_def demo_project_store_def demo_simps new_task_def
      new_project_def snooze_over_def)

lemma demo_profile:
  "\<exists>p. get_preference_profile demo_scheduled_store demo_access = Inr p \<and> effective_hour p 9 = 9
     \<and> \<not> prof_reduce_followups p"
  using demo_scope_projects
  by (simp add: get_preference_profile_def access_scope_def demo_access_def stored_profile_def
      recompute_def default_profile_def effective_hour_def)

lemma demo_local_hour: "local_hour demo_chrono () 0 9 = Inr 32400"
proof -
  have "local_probe demo_chrono () (Suc 1440) 540 = Inr 32400"
    unfolding local_probe.simps(2) by (simp add: demo_chrono_def)
  then show ?thesis by (simp add: local_hour_def)
qed

lemma demo_planned:
  "\<exists>b. next_batch demo_chrono demo_serial demo_scheduled_store (ScopePersonal 7) demo_access 43200 = Inr (Some b)
     \<and> wb_scope b = ScopePersonal 7 \<and> wb_target b = DestPersonal 7 \<and> wb_kind b = Briefing
     \<and> wb_task_ids b = [2]"
proof -
  let ?s = demo_scheduled_store and ?scope = "ScopePersonal 7" and ?p = "new_project demo_access (lit ''plan'') 1"
  let ?k = "new_task demo_access demo_task 2" and ?policy = "demo_policy\<lparr>ap_revision := 1\<rparr>"
  have k: "task_ref ?k = RefTask 1 2 0" "task_id ?k = 2" by (simp_all add: task_ref_def new_task_def demo_task_def)
  obtain profile where profile: "get_preference_profile ?s demo_access = Inr profile"
    "effective_hour profile 9 = 9" "\<not> prof_reduce_followups profile" using demo_profile by blast
  have rs: "scope_receipts ?s ?scope = []" by (simp add: scope_receipts_def)
  have brief: "briefing_due demo_chrono () [?k] 43200 0 0 9 key [] = Inr True" for key
    by (simp add: briefing_due_def demo_local_hour briefing_sent_def)
  have refs: "ordered_refs ?s (chosen_refs True [?k] coverage changes) = [RefTask 1 2 0]" for coverage changes
    by (simp add: ordered_refs_def chosen_refs_def k)
  obtain body prov where render: "render_delivery demo_serial ?s [RefTask 1 2 0] 0 = Inr (body, prov)"
    using demo_render render_delivery_cong [of ?s demo_task_store] by auto
  have ids: "List.map_filter ref_task_id [RefTask 1 2 0] = [2]"
    by (simp add: List.map_filter_simps ref_task_id_def)
  have target: "delivery_target ?scope demo_access ?policy = Inr (DestPersonal 7)"
    by (simp add: delivery_target_def default_target_def demo_policy_def default_policy_def demo_access_def)
  have valid: "policy_valid demo_chrono ?policy"
    by (simp add: policy_valid_def demo_policy_def default_policy_def demo_chrono_def)
  have flags: "ap_enabled ?policy" "ap_destination ?policy = Some 9" "ap_briefing_hour ?policy = 9"
    "ap_daily_limit ?policy = 4" "\<not> quiet ?policy 12" "ap_quiet_start ?policy = 22"
    "ap_timezone ?policy = lit ''UTC''"
    by (simp_all add: demo_policy_def default_policy_def quiet_def)
  have clock: "utc demo_chrono 43200 = Inr 43200" "ch_parse_tz demo_chrono (lit ''UTC'') = Some ()"
    "ch_date demo_chrono () 43200 = 0" "ch_hour demo_chrono () 43200 = 12"
    by (simp_all add: utc_def i64_max_def demo_chrono_def)
  have day: "occurrence_day demo_chrono ?policy 9 43200 32400 0 = Inr 0" by (simp add: occurrence_day_def)
  obtain b where b: "due_batch demo_chrono demo_serial ?s ?scope demo_access 43200 [?p] ?policy 9 (DestPersonal 7) () 43200
      = Inr (Some b)" "wb_scope b = ?scope" "wb_target b = DestPersonal 7" "wb_kind b = Briefing" "wb_task_ids b = [2]"
    unfolding due_batch_def Let_def profile(1) rbind.simps flags(3) profile(2) clock demo_local_hour day
      demo_due_tasks rs brief assemble_batch_def
    by (auto simp: refs [unfolded One_nat_def] render [unfolded One_nat_def] ref_task_id_def List.map_filter_simps batch_kind_def)
  have "next_batch demo_chrono demo_serial ?s ?scope demo_access 43200 = Inr (Some b)"
    unfolding next_batch_def demo_scope_projects rbind.simps demo_scheduled option.case flags target clock ok_or.simps
    using valid flags b(1) by (simp add: demo_access_def attempts_on_def rs)
  with b(2-5) show ?thesis by blast
qed

lemma store_ok_cong:
  assumes "ws_projects s = ws_projects t" and "ws_goals s = ws_goals t" and "ws_tasks s = ws_tasks t"
    and "ws_decisions s = ws_decisions t" and "ws_request_ids s = ws_request_ids t"
    and "ws_sequence s = ws_sequence t"
  shows "store_ok s = store_ok t"
proof -
  have "task_ok s = task_ok t" by (intro ext) (unfold task_ok_def assms, rule refl)
  then show ?thesis
    unfolding store_ok_def ids_ok_def disjoint_ids_def requests_ok_def records_ok_def record_count_def assms
    by simp
qed

lemma demo_scheduled_ok: "store_ok demo_scheduled_store"
proof -
  have "store_ok demo_task_store" by (rule store.inv_step [OF demo_ok demo_steps(2)])
  then show ?thesis by (simp add: store_ok_cong [of demo_scheduled_store demo_task_store])
qed

lemma demo_reserved:
  "\<exists>b t. next_batch demo_chrono demo_serial demo_scheduled_store (wb_scope b) demo_access 43200 = Inr (Some b)
     \<and> reserve_batch demo_chrono demo_serial demo_access b 43200 demo_scheduled_store = (Inr 3, t)
     \<and> reserve_resolved_batch demo_chrono demo_serial demo_access b (wb_destination b) 43200
         demo_scheduled_store = (Inr 3, t) \<and> wb_task_ids b = [2]"
proof -
  from demo_planned obtain b where b: "wb_scope b = ScopePersonal 7" "wb_target b = DestPersonal 7"
    "wb_task_ids b = [2]" and plan: "next_batch demo_chrono demo_serial demo_scheduled_store (wb_scope b) demo_access 43200
      = Inr (Some b)" by auto
  from plan have "wb_project_revisions b \<noteq> []"
    by (cases rule: planned_batchE) (auto simp: scope_projects_Inr)
  then obtain home rev rest where h: "wb_project_revisions b = (home, rev) # rest"
    by (cases "wb_project_revisions b") auto
  have "next_id demo_scheduled_store = (Inr 3, demo_scheduled_store\<lparr>ws_sequence := 3\<rparr>)"
    unfolding next_id_def record_count_def demo_scheduled
    by (simp add: demo_task_store_def demo_project_store_def demo_simps)
  then have "\<exists>t. reserve_resolved_batch demo_chrono demo_serial demo_access b (wb_destination b) 43200
      demo_scheduled_store = (Inr 3, t)"
    by (simp add: reserve_resolved_batch_def plan h)
  then obtain t where t: "reserve_resolved_batch demo_chrono demo_serial demo_access b (wb_destination b) 43200
      demo_scheduled_store = (Inr 3, t)" by blast
  then have "reserve_batch demo_chrono demo_serial demo_access b 43200 demo_scheduled_store = (Inr 3, t)"
    by (simp add: reserve_batch_def b)
  with plan t b show ?thesis by blast
qed

section \<open>Properties of a plan\<close>

text \<open>
  A batch is only ever planned under a current grant. The scope has an enabled, valid
  policy whose subscriber is the caller; the caller is authorised as manager on every
  project of the scope and plans from the channel the policy names; the target is one the
  caller may name; the local hour is not quiet; and the attempts already made on the local
  day, whatever time zone they were recorded under, are below the daily limit.
\<close>

theorem planned_batch_is_authorised:
  assumes "next_batch ch ser s scope a now = Inr (Some b)"
  shows "\<exists>policy tz at. fmlookup (ws_scope_automation s) (scope_key scope) = Some policy
    \<and> policy_valid ch policy \<and> ap_enabled policy \<and> wb_policy b = policy \<and> wb_scope b = scope
    \<and> fmlookup (ws_scope_automation_actors s) (scope_key scope) = Some (acc_actor a)
    \<and> (\<forall>i p. fmlookup (ws_projects s) i = Some p \<and> proj_scope p = scope \<longrightarrow> authorized p a True)
    \<and> ap_destination policy = Some (acc_channel a) \<and> wb_destination b = acc_channel a
    \<and> dest_valid (wb_target b) scope (acc_actor a)
    \<and> ch_parse_tz ch (ap_timezone policy) = Some tz \<and> utc ch now = Inr at
    \<and> \<not> quiet policy (ch_hour ch tz at)
    \<and> attempts_on ch s scope tz (ch_date ch tz at) < ap_daily_limit policy"
  using assms
proof (cases rule: planned_batchE)
  case (1 ps policy tz at today brief key coverage changes all body)
  have "authorized p a True" if "fmlookup (ws_projects s) i = Some p" "proj_scope p = scope" for i p
  proof -
    from that have "p \<in> set ps" using 1(1) by (auto simp: scope_projects_Inr fmlookup_ran'_iff)
    with 1(1) show ?thesis by (simp add: scope_projects_Inr)
  qed
  moreover have "dest_valid (wb_target b) scope (acc_actor a)" "ap_destination policy = Some (acc_channel a)"
    using 1(6,9) by (auto simp: delivery_target_def Let_def split: if_splits)
  ultimately show ?thesis using 1(2-8,10-14) by auto
qed

text \<open>
  What a batch says is due, bounded and complete about itself. It names between one
  and eight references of the scope's current content, exactly those its provenance
  records; a task among them is not snoozed and, unless the batch only reports changes, is
  open; its reminder coverage belongs to reminders that have fallen due and that no
  receipt of the scope covers; and a change is reported only when no reminder is due.
\<close>

theorem planned_content_is_due:
  assumes "store_ok s" and "next_batch ch ser s scope a now = Inr (Some b)"
  shows "wb_content_refs b \<noteq> {||} \<and> fcard (wb_content_refs b) \<le> 8
    \<and> prov_source_refs (wb_provenance b) = wb_content_refs b
    \<and> (\<forall>r. r |\<in>| wb_content_refs b \<longrightarrow> ref_current s r \<and> due_ref s scope now (wb_kind b = Changes) r)
    \<and> (\<forall>c \<in> set (wb_coverage b). \<exists>i t. fmlookup (ws_tasks s) i = Some t \<and> open_task t
        \<and> task_remind_at t = Some (cov_remind_at c) \<and> cov_remind_at c \<le> now
        \<and> c = task_coverage t (cov_remind_at c)
        \<and> (\<forall>r \<in> set (scope_receipts s scope). c \<notin> set (rc_coverage r)))
    \<and> (wb_kind b = Changes \<longrightarrow> wb_coverage b = [])"
  using assms(2)
proof (cases rule: planned_batchE)
  case (1 ps policy tz at today brief key coverage changes all body)
  let ?top = "take 8 all"
  from 1(20) obtain ls where r: "delivery_lines s ?top = Inr ls" "prov_valid (wb_provenance b)"
    "prov_source_refs (wb_provenance b) = fset_of_list ?top" by (elim render_deliveryE) auto
  have refs: "prov_source_refs (wb_provenance b) = wb_content_refs b" using r(3) 1(22) by simp
  have some: "wb_content_refs b \<noteq> {||}" using r(2) refs by (simp add: prov_valid_def)
  have card: "fcard (wb_content_refs b) \<le> 8"
    unfolding 1(22) using card_length [of ?top] by (simp add: fcard.rep_eq fset_of_list.rep_eq)
  have due: "ref_current s x \<and> due_ref s scope now (wb_kind b = Changes) x" if x: "x |\<in>| wb_content_refs b" for x
  proof -
    from x have top: "x \<in> set ?top" unfolding 1(22) by (simp add: fset_of_list.rep_eq)
    then have cur: "ref_current s x" using delivery_lines_current [OF r(1)] by blast
    from top have "x \<in> set all" by (rule in_set_takeD)
    then have chosen: "x |\<in>| chosen_refs brief (due_tasks s ps now) coverage changes"
      unfolding 1(19) by simp
    have "due_ref s scope now (wb_kind b = Changes) x"
    proof (cases "\<not> brief \<and> coverage = []")
      case True
      with chosen 1(17,23) show ?thesis
        by (auto simp: chosen_refs_member batch_kind_def intro: change_due_ref [OF assms(1)])
    next
      case False
      then obtain t where "t \<in> set (due_tasks s ps now)" "x = task_ref t"
        using chosen by (auto simp: chosen_refs_member)
      with due_task_due_ref [OF assms(1) 1(1)] show ?thesis by simp
    qed
    with cur show ?thesis by simp
  qed
  have cover: "\<exists>i t. fmlookup (ws_tasks s) i = Some t \<and> open_task t
        \<and> task_remind_at t = Some (cov_remind_at c) \<and> cov_remind_at c \<le> now
        \<and> c = task_coverage t (cov_remind_at c)
        \<and> (\<forall>r \<in> set (scope_receipts s scope). c \<notin> set (rc_coverage r))" if "c \<in> set (wb_coverage b)" for c
  proof -
    from that obtain t where t: "t \<in> set (due_tasks s ps now)"
      "due_reminder (scope_receipts s scope) now t = Some c"
      unfolding 1(26) 1(16) by (auto simp: map_filter_member)
    from t(1) obtain i where i: "fmlookup (ws_tasks s) i = Some t" "open_task t"
      by (auto simp: due_tasks_member)
    from t(2) obtain m where m: "task_remind_at t = Some m" "m \<le> now" "c = task_coverage t m"
      "\<forall>r \<in> set (scope_receipts s scope). c \<notin> set (rc_coverage r)" by (auto simp: due_reminder_Some)
    have "cov_remind_at c = m" unfolding m(3) by (simp add: task_coverage_def)
    with i m show ?thesis by (intro exI [of _ i] exI [of _ t]) auto
  qed
  have "wb_kind b = Changes \<longrightarrow> wb_coverage b = []"
    unfolding 1(23) 1(26) by (simp add: batch_kind_def)
  with some card refs due cover show ?thesis by blast
qed

theorem planned_batch_is_authorised_witness:
  "authorized (new_project demo_access (lit ''plan'') 1) demo_access True"
proof -
  from demo_planned obtain b where
    "next_batch demo_chrono demo_serial demo_scheduled_store (ScopePersonal 7) demo_access 43200 = Inr (Some b)"
    by blast
  from planned_batch_is_authorised [OF this] show ?thesis
    by (auto simp: demo_project_lookup new_project_def access_scope_def demo_access_def)
qed

theorem planned_content_is_due_witness:
  "\<exists>b. next_batch demo_chrono demo_serial demo_scheduled_store (ScopePersonal 7) demo_access 43200 = Inr (Some b)
     \<and> wb_content_refs b \<noteq> {||} \<and> fcard (wb_content_refs b) \<le> 8"
proof -
  from demo_planned obtain b where
    b: "next_batch demo_chrono demo_serial demo_scheduled_store (ScopePersonal 7) demo_access 43200 = Inr (Some b)"
    by blast
  from planned_content_is_due [OF demo_scheduled_ok b] b show ?thesis by blast
qed

section \<open>Properties of a reservation\<close>

text \<open>
  A reservation is one durable attempt or nothing. A rejected one leaves the store as
  it was. An accepted one takes the next id, adds exactly one receipt under it, in state
  Attempting, for the planned scope, recipient, kind and coverage, and counts against the
  daily limit of the local day of the reservation, which it never exceeds.
\<close>

theorem reservation_is_one_attempt:
  assumes "ids_in rc_id (ws_sequence s) (ws_deliveries s)"
    and "reserve_batch ch ser a b now s = (r, t)"
  shows "(\<exists>e. r = Inl e \<and> t = s)
    \<or> (\<exists>receipt policy tz at. r = Inr (Suc (ws_sequence s)) \<and> fmlookup (ws_deliveries s) (Suc (ws_sequence s)) = None
        \<and> ws_deliveries t = fmupd (Suc (ws_sequence s)) receipt (ws_deliveries s)
        \<and> rc_state receipt = Attempting \<and> rc_message_id receipt = None \<and> rc_scope receipt = Some (wb_scope b)
        \<and> rc_recipient receipt = acc_channel a \<and> rc_kind receipt = Some (wb_kind b)
        \<and> rc_coverage receipt = wb_coverage b \<and> rc_at receipt = now
        \<and> fmlookup (ws_scope_automation s) (scope_key (wb_scope b)) = Some policy
        \<and> ch_parse_tz ch (ap_timezone policy) = Some tz \<and> utc ch now = Inr at
        \<and> attempts_on ch t (wb_scope b) tz (ch_date ch tz at)
            = Suc (attempts_on ch s (wb_scope b) tz (ch_date ch tz at))
        \<and> attempts_on ch t (wb_scope b) tz (ch_date ch tz at) \<le> ap_daily_limit policy
        \<and> fm_len (ws_deliveries t) \<le> 10000)"
  using assms(2)
proof (cases rule: reserve_batchE)
  case (failed e)
  then show ?thesis by simp
next
  case reserved
  from reserved(2) show ?thesis
  proof (cases rule: reserve_resolvedE)
    case (failed e)
    then show ?thesis by simp
  next
    case (reserved home)
    note t = reserved(6)
    from reserved(1) show ?thesis
    proof (cases rule: planned_batchE)
      case (1 ps policy tz at today brief key coverage changes all body)
      have day: "on_local_day ch tz today now" using 1(11,12) by (simp add: on_local_day_def)
      note attempts = attempts_on_reserved [OF assms(1) day, of ser b home "wb_destination b", folded t]
      have fresh: "fmlookup (ws_deliveries s) (Suc (ws_sequence s)) = None"
        by (rule ids_in_fresh [OF assms(1)])
      have dest: "wb_destination b = acc_channel a"
        using 1(6,8,9) by (auto simp: delivery_target_def Let_def split: if_splits)
      let ?r = "batch_receipt b (Suc (ws_sequence s)) home (wb_destination b) now"
      have new: "ws_deliveries t = fmupd (Suc (ws_sequence s)) ?r (ws_deliveries s)" unfolding t by simp
      have "fm_len (ws_deliveries t) \<le> 10000" unfolding new using reserved(2) by (simp add: fm_len_upd)
      then show ?thesis
        using 1(4,10,11,12,14) attempts new fresh dest reserved(5)
        by (intro disjI2 exI [of _ ?r] exI [of _ policy] exI [of _ tz] exI [of _ at]) simp
    qed
  qed
qed

theorem reservation_is_one_attempt_witness:
  "\<exists>b t receipt. reserve_batch demo_chrono demo_serial demo_access b 43200 demo_scheduled_store = (Inr 3, t)
     \<and> ws_deliveries t = fmupd 3 receipt fmempty \<and> rc_state receipt = Attempting"
proof -
  from demo_reserved obtain b t where
    r: "reserve_batch demo_chrono demo_serial demo_access b 43200 demo_scheduled_store = (Inr 3, t)" by blast
  have "ids_in rc_id (ws_sequence demo_scheduled_store) (ws_deliveries demo_scheduled_store)"
    by (simp add: ids_in_def)
  note one = reservation_is_one_attempt [OF this r]
  have "ws_sequence demo_scheduled_store = 2"
    by (simp add: demo_task_store_def demo_project_store_def demo_simps)
  with one have "\<exists>receipt. ws_deliveries t = fmupd 3 receipt fmempty \<and> rc_state receipt = Attempting"
    by auto
  with r show ?thesis by blast
qed

text \<open>
  No batch is delivered twice. Once a batch has been reserved, no later planning over
  the resulting store, by anybody and at any time, proposes the same batch, so a second
  reservation of it is rejected without an effect.
\<close>

theorem batch_reserved_at_most_once:
  assumes "reserve_resolved_batch ch ser a b transport now s = (Inr i, t)"
  shows "next_batch ch ser t (wb_scope b) a' now' \<noteq> Inr (Some b)
    \<and> (\<exists>e. reserve_batch ch ser a' b now' t = (Inl e, t))
    \<and> (\<exists>e. reserve_private_batch ch ser a' b dm now' t = (Inl e, t))"
proof -
  from assms obtain home where planned: "next_batch ch ser s (wb_scope b) a now = Inr (Some b)"
    and t: "t = reserved_store ser b home transport now s" by (cases rule: reserve_resolvedE) auto
  note never = reserved_batch_not_planned [OF planned t, of ch ser]
  have again: "\<exists>e. reserve_resolved_batch ch ser a' b d now' t = (Inl e, t)" for d
  proof (cases "reserve_resolved_batch ch ser a' b d now' t")
    case (Pair r u)
    from Pair have "\<exists>e. r = Inl e \<and> u = t" using never by (cases rule: reserve_resolvedE) auto
    with Pair show ?thesis by auto
  qed
  have "\<exists>e. reserve_batch ch ser a' b now' t = (Inl e, t)"
    using again [of "wb_destination b"] by (auto simp: reserve_batch_def split: work_destination.splits)
  moreover have "\<exists>e. reserve_private_batch ch ser a' b dm now' t = (Inl e, t)"
    using again [of dm] by (auto simp: reserve_private_batch_def)
  ultimately show ?thesis using never by blast
qed

theorem batch_reserved_at_most_once_witness:
  "\<exists>b t e. reserve_batch demo_chrono demo_serial demo_access b 43200 demo_scheduled_store = (Inr 3, t)
     \<and> reserve_batch demo_chrono demo_serial demo_access b 50000 t = (Inl e, t)"
proof -
  from demo_reserved obtain b t where
    r: "reserve_batch demo_chrono demo_serial demo_access b 43200 demo_scheduled_store = (Inr 3, t)"
      "reserve_resolved_batch demo_chrono demo_serial demo_access b (wb_destination b) 43200
         demo_scheduled_store = (Inr 3, t)" by blast
  from batch_reserved_at_most_once [OF r(2)] r(1) show ?thesis by blast
qed

text \<open>
  The recheck before sending is exact about what it covers. It passes right after the
  reservation; and whenever it passes in a later store, policy, subscriber and project
  revisions are those of the plan, every task of the batch that was open then still has
  the revision that was rendered, the local day is the one charged and the hour is not
  quiet.
\<close>

theorem recheck_covers_reservation:
  assumes "store_ok s" and "reserve_resolved_batch ch ser a b transport now s = (Inr i, t)"
  shows "validate_reserved_batch ch t a b now = Inr ()
    \<and> (\<forall>u later. validate_reserved_batch ch u a b later = Inr () \<longrightarrow>
        fmlookup (ws_scope_automation u) (scope_key (wb_scope b))
          = fmlookup (ws_scope_automation s) (scope_key (wb_scope b))
        \<and> fmlookup (ws_scope_automation_actors u) (scope_key (wb_scope b)) = Some (acc_actor a)
        \<and> (\<exists>qs. scope_projects u (wb_scope b) a True = Inr qs
            \<and> map (\<lambda>p. (proj_id p, proj_revision p)) qs = wb_project_revisions b)
        \<and> (\<exists>tz at. ch_parse_tz ch (ap_timezone (wb_policy b)) = Some tz \<and> utc ch later = Inr at
            \<and> \<not> quiet (wb_policy b) (ch_hour ch tz at) \<and> ch_show_date ch (ch_date ch tz at) = wb_local_day b)
        \<and> (\<forall>k v. fmlookup (ws_tasks s) k = Some v \<and> open_task v \<and> k \<in> set (wb_task_ids b)
            \<and> snooze_over now v \<and> task_project_id v |\<in>| scope_project_ids s (wb_scope b) \<longrightarrow>
            is_some_and (fmlookup (ws_tasks u) k) (\<lambda>w. task_revision w = task_revision v)))"
proof -
  from assms(2) obtain home where planned: "next_batch ch ser s (wb_scope b) a now = Inr (Some b)"
    and t: "t = reserved_store ser b home transport now s" by (cases rule: reserve_resolvedE) auto
  from planned show ?thesis
  proof (cases rule: planned_batchE)
    case (1 ps policy tz at today brief key coverage changes all body)
    have same: "scope_projects t (wb_scope b) a True = Inr ps"
      using 1(1) scope_projects_cong [of t s] unfolding t by simp
    have revs: "\<not> list_ex (\<lambda>(i, revision). is_none_or (fmlookup (ws_tasks t) i)
        (\<lambda>t. task_revision t \<noteq> revision)) (wb_revisions b)"
      using store_okD(2) [OF assms(1)] unfolding 1(27) t reserved_store_sel
      by (fastforce simp: list_ex_iff is_none_or_iff due_tasks_member)
    have "validate_reserved_batch ch t a b now = Inr ()"
      unfolding validate_reserved_batch_def Let_def same rbind.simps
      using 1(2,4,6,7,9,10,11,12,13,24,28) revs t by simp
    moreover have "fmlookup (ws_scope_automation u) (scope_key (wb_scope b))
          = fmlookup (ws_scope_automation s) (scope_key (wb_scope b))
        \<and> fmlookup (ws_scope_automation_actors u) (scope_key (wb_scope b)) = Some (acc_actor a)
        \<and> (\<exists>qs. scope_projects u (wb_scope b) a True = Inr qs
            \<and> map (\<lambda>p. (proj_id p, proj_revision p)) qs = wb_project_revisions b)
        \<and> (\<exists>tz at. ch_parse_tz ch (ap_timezone (wb_policy b)) = Some tz \<and> utc ch later = Inr at
            \<and> \<not> quiet (wb_policy b) (ch_hour ch tz at) \<and> ch_show_date ch (ch_date ch tz at) = wb_local_day b)
        \<and> (\<forall>k v. fmlookup (ws_tasks s) k = Some v \<and> open_task v \<and> k \<in> set (wb_task_ids b)
            \<and> snooze_over now v \<and> task_project_id v |\<in>| scope_project_ids s (wb_scope b) \<longrightarrow>
            is_some_and (fmlookup (ws_tasks u) k) (\<lambda>w. task_revision w = task_revision v))"
      if u: "validate_reserved_batch ch u a b later = Inr ()" for u later
    proof -
      from u have g: "fmlookup (ws_scope_automation u) (scope_key (wb_scope b)) = Some (wb_policy b)"
        "fmlookup (ws_scope_automation_actors u) (scope_key (wb_scope b)) = Some (acc_actor a)"
        "\<not> list_ex (\<lambda>(i, revision). is_none_or (fmlookup (ws_tasks u) i)
            (\<lambda>t. task_revision t \<noteq> revision)) (wb_revisions b)"
        "\<exists>qs. scope_projects u (wb_scope b) a True = Inr qs
            \<and> map (\<lambda>p. (proj_id p, proj_revision p)) qs = wb_project_revisions b"
        "\<exists>tz at. ch_parse_tz ch (ap_timezone (wb_policy b)) = Some tz \<and> utc ch later = Inr at
            \<and> \<not> quiet (wb_policy b) (ch_hour ch tz at) \<and> ch_show_date ch (ch_date ch tz at) = wb_local_day b"
        by (auto simp: validate_reserved_batch_def Let_def split: if_splits)
      have "is_some_and (fmlookup (ws_tasks u) k) (\<lambda>w. task_revision w = task_revision v)"
        if v: "fmlookup (ws_tasks s) k = Some v" "open_task v" "k \<in> set (wb_task_ids b)"
          "snooze_over now v" "task_project_id v |\<in>| scope_project_ids s (wb_scope b)" for k v
      proof -
        have "task_id v = k" by (rule store_okD(2) [OF assms(1) v(1)])
        moreover have "v \<in> set (due_tasks s ps now)"
          using v scope_project_ids_projects [OF 1(1)] by (auto simp: due_tasks_member)
        ultimately have "(k, task_revision v) \<in> set (wb_revisions b)"
          unfolding 1(27) using v(3) by force
        with g(3) show ?thesis by (auto simp: list_ex_iff is_none_or_iff is_some_and_iff)
      qed
      with g 1(2,4) show ?thesis by auto
    qed
    ultimately show ?thesis by blast
  qed
qed

theorem recheck_covers_reservation_witness:
  "\<exists>b t. reserve_batch demo_chrono demo_serial demo_access b 43200 demo_scheduled_store = (Inr 3, t)
     \<and> validate_reserved_batch demo_chrono t demo_access b 43200 = Inr ()"
proof -
  from demo_reserved obtain b t where
    r: "reserve_batch demo_chrono demo_serial demo_access b 43200 demo_scheduled_store = (Inr 3, t)"
      "reserve_resolved_batch demo_chrono demo_serial demo_access b (wb_destination b) 43200
         demo_scheduled_store = (Inr 3, t)" by blast
  from recheck_covers_reservation [OF demo_scheduled_ok r(2)] r(1) show ?thesis by blast
qed

end
