(* ===== verification/Engagement_Policy.thy ===== *)
theory Engagement_Policy
  imports Engagement_Data Calendar
begin

text \<open>
  Deterministic validation of member settings and bounded contact records
  (\<open>src/engagement/policy.rs\<close>, with the validators of \<open>invitations.rs\<close>, \<open>community.rs\<close>,
  \<open>erasure.rs\<close> and \<open>task_follow_up.rs\<close> that it calls and the identities of
  \<open>work/follow_up.rs\<close>). A validator is the list of its checks in the order of the code,
  each with the error it returns.
\<close>

section \<open>Scopes, settings and sources\<close>

fun matches_member :: "engagement_scope \<Rightarrow> u64 \<Rightarrow> bool" where
  "matches_member (EngDm member _) actor = (member = actor)"
| "matches_member (EngGuild _ _) actor = True"

fun is_guild_scope :: "engagement_scope \<Rightarrow> bool" where
  "is_guild_scope (EngGuild _ _) = True"
| "is_guild_scope (EngDm _ _) = False"

definition personalized_enabled :: "'tz chrono \<Rightarrow> member_policy \<Rightarrow> bool" where
  "personalized_enabled ch p \<longleftrightarrow>
     is_some_and (mp_daily_limit p) (\<lambda>v. 1 \<le> v \<and> v \<le> 4)
     \<and> is_some_and (mp_timezone p) (\<lambda>z. ch_parse_tz ch z \<noteq> None)
     \<and> \<not> mp_global_stop p"

definition policy_scopes :: "member_policy \<Rightarrow> engagement_scope fset" where
  "policy_scopes p = mp_stopped_scopes p |\<union>| fmdom (mp_destinations p)"

definition member_policy_valid :: "'tz chrono \<Rightarrow> member_policy \<Rightarrow> bool" where
  "member_policy_valid ch p \<longleftrightarrow>
     \<not> (0 |\<in>| mp_stopped_guilds p
        \<or> is_some_and (mp_daily_limit p) (\<lambda>v. \<not> (1 \<le> v \<and> v \<le> 4))
        \<or> is_some_and (mp_weekly_limit p)
            (\<lambda>v. \<not> (1 \<le> v \<and> v \<le> 28) \<or> is_none_or (mp_daily_limit p) (\<lambda>d. d * 7 < v))
        \<or> is_some_and (mp_timezone p) (\<lambda>z. ch_parse_tz ch z = None)
        \<or> 23 < mp_quiet_start p \<or> 23 < mp_quiet_end p)
     \<and> fBall (policy_scopes p) eng_scope_valid
     \<and> is_none_or (mp_weekly_subscription p) (\<lambda>w. eng_scope_valid (weekly_scope w)
          \<and> \<not> (6 < weekly_weekday w \<or> 23 < weekly_hour w))"

definition source_valid :: "source_ref \<Rightarrow> bool" where
  "source_valid src \<longleftrightarrow> eng_scope_valid (src_scope src)
     \<and> \<not> (src_message src = 0 \<or> src_author src = 0 \<or> src_revision src = 0
        \<or> \<not> matches_member (src_scope src) (src_author src))"

section \<open>Identities of task follow-ups\<close>

definition follow_up_delay :: nat where
  "follow_up_delay = 86400"

definition follow_up_due :: "'tz chrono \<Rightarrow> source_ref \<Rightarrow> work_error + u64" where
  "follow_up_due ch src =
     (if \<not> source_valid src \<or> \<not> utc_ok ch (src_at src) then Inl Invalid
      else case checked_add (src_at src) follow_up_delay of
          None \<Rightarrow> Inl Invalid
        | Some due \<Rightarrow> if utc_ok ch due then Inr due else Inl Invalid)"

fun origin_work_scope :: "engagement_scope \<Rightarrow> work_scope" where
  "origin_work_scope (EngGuild guild channel) = ScopeTeam guild channel"
| "origin_work_scope (EngDm member _) = ScopePersonal member"

definition follow_up_key :: "work_scope \<Rightarrow> work_content_ref \<Rightarrow> work_error + rstr" where
  "follow_up_key scope r =
     (if \<not> valid_scope scope then Inl Invalid
      else case r of
          RefTask home i revision \<Rightarrow>
            if home = 0 \<or> i = 0 then Inl Invalid
            else Inr (lit ''task-follow-up'' @ unit_sep # scope_key scope @ unit_sep # decimal home
              @ unit_sep # decimal i @ unit_sep # decimal revision)
        | RefDecision _ _ _ \<Rightarrow> Inl Invalid)"

definition task_follow_up_valid :: "'tz chrono \<Rightarrow> candidate \<Rightarrow> bool" where
  "task_follow_up_valid ch c =
     (case (cand_work_ref c, cand_expires_at c) of
        (None, None) \<Rightarrow> cand_follow_up_reason c = None
      | (Some r, Some expires) \<Rightarrow>
          (case (cand_source c, cand_member c, follow_up_key (origin_work_scope (cand_scope c)) r) of
             (Some src, Some member, Inr key) \<Rightarrow> utc_ok ch expires
               \<and> \<not> (cand_kind c \<noteq> KindFollowUp \<or> src_scope src \<noteq> cand_scope c \<or> src_author src \<noteq> member
                  \<or> follow_up_due ch src \<noteq> Inr (cand_due_at c) \<or> expires \<le> cand_due_at c
                  \<or> cand_dedupe_key c \<noteq> key \<or> cand_introduction_id c \<noteq> None
                  \<or> is_some_and (cand_follow_up_reason c) (\<lambda>reason. reason = FuAllowed
                      \<or> cand_state c \<noteq> CandCancelled \<and> cand_state c \<noteq> CandRejected))
           | _ \<Rightarrow> False)
      | _ \<Rightarrow> False)"

section \<open>Kinds of contact\<close>

fun invitation_kind :: "engagement_kind \<Rightarrow> bool" where
  "invitation_kind KindActivityInvite = True"
| "invitation_kind KindVoiceInvite = True"
| "invitation_kind _ = False"

fun feature_of :: "engagement_kind \<Rightarrow> community_feature option" where
  "feature_of KindConversationStarter = Some FeatStarters"
| "feature_of KindUnansweredQuestion = Some FeatQuestions"
| "feature_of KindWelcome = Some FeatWelcomes"
| "feature_of KindProjectCheckIn = Some FeatProjects"
| "feature_of _ = None"

definition switched_on :: "engagement_store \<Rightarrow> engagement_scope \<Rightarrow> community_feature \<Rightarrow> bool" where
  "switched_on s scope f =
     (case scope of
        EngGuild guild channel \<Rightarrow>
          is_some_and (fmlookup (eng_guild_features s) guild) (\<lambda>p. f |\<in>| gf_enabled p
            \<and> is_some_and (fmlookup (gf_channels p) f) (\<lambda>cs. channel |\<in>| cs))
      | EngDm _ _ \<Rightarrow> False)"

definition community_enabled :: "engagement_store \<Rightarrow> engagement_scope \<Rightarrow> engagement_kind \<Rightarrow> bool" where
  "community_enabled s scope kind \<longleftrightarrow>
     is_guild_scope scope \<and> is_some_and (feature_of kind) (switched_on s scope)"

definition introductions_enabled :: "engagement_store \<Rightarrow> engagement_scope \<Rightarrow> bool" where
  "introductions_enabled s scope = switched_on s scope FeatIntroductions"

definition description_valid :: "rstr \<Rightarrow> bool" where
  "description_valid text \<longleftrightarrow> trim text \<noteq> [] \<and> length text \<le> 300"

fun open_state :: "candidate_state \<Rightarrow> bool" where
  "open_state CandPending = True"
| "open_state CandReserved = True"
| "open_state _ = False"

fun attempted_state :: "candidate_state \<Rightarrow> bool" where
  "attempted_state CandReserved = True"
| "attempted_state CandSent = True"
| "attempted_state CandReviewRequired = True"
| "attempted_state _ = False"

definition open_candidates :: "engagement_store \<Rightarrow> nat" where
  "open_candidates s = length (filter (\<lambda>c. open_state (cand_state c)) (fm_values (eng_candidates s)))"

section \<open>Validation of the store\<close>

text \<open>The identity hashes are 64 hexadecimal bytes.\<close>

definition hex64 :: "rstr \<Rightarrow> bool" where
  "hex64 s \<longleftrightarrow> byte_len s = 64 \<and> list_all is_hex s"

definition date_ok :: "'tz chrono \<Rightarrow> rstr \<Rightarrow> bool" where
  "date_ok ch s \<longleftrightarrow> ch_parse_date ch s \<noteq> None"

definition erased_contact_valid :: "'tz chrono \<Rightarrow> erased_contact_charge \<Rightarrow> bool" where
  "erased_contact_valid ch c \<longleftrightarrow> \<not> (ecc_member c = 0 \<or> \<not> utc_ok ch (ecc_at c)
     \<or> \<not> date_ok ch (ecc_local_day c) \<or> \<not> date_ok ch (ecc_local_week c))"

definition erased_community_valid :: "'tz chrono \<Rightarrow> erased_community_charge \<Rightarrow> bool" where
  "erased_community_valid ch c \<longleftrightarrow> eng_scope_valid (ecm_scope c)
     \<and> \<not> (\<not> utc_ok ch (ecm_at c) \<or> feature_of (ecm_kind c) = None
        \<or> (ecm_kind c = KindProjectCheckIn) \<noteq> (ecm_project c \<noteq> None)
        \<or> is_some_and (ecm_project c) (\<lambda>p. \<not> hex64 p))"

definition erased_checks :: "'tz chrono \<Rightarrow> engagement_store \<Rightarrow> (work_error \<times> bool) list" where
  "erased_checks ch s =
     [(Full, fcard (eng_erased_identities s) \<le> 10000 \<and> fBall (eng_erased_identities s) hex64),
      (Full, length (eng_erased_contact_charges s) + length (eng_charges s) \<le> 20000
         \<and> length (eng_erased_community_charges s) + fm_len (eng_community_receipts s) \<le> 10000),
      (Invalid, list_all (erased_contact_valid ch) (eng_erased_contact_charges s)),
      (Invalid, list_all (erased_community_valid ch) (eng_erased_community_charges s))]"

definition activity_valid :: "activity_version \<Rightarrow> bool" where
  "activity_valid v \<longleftrightarrow> hex64 (av_digest v) \<and> av_origin v \<noteq> []"

definition invitation_valid :: "'tz chrono \<Rightarrow> engagement_store \<Rightarrow> u64 \<Rightarrow> invitation_request \<Rightarrow> bool" where
  "invitation_valid ch s i r =
     is_some_and (fmlookup (eng_candidates s) i) (\<lambda>c. \<not> (inv_interaction r = 0 \<or> inv_member r = 0
       \<or> cand_source c \<noteq> None \<or> cand_member c \<noteq> Some (inv_member r) \<or> cand_scope c \<noteq> inv_scope r
       \<or> cand_due_at c \<noteq> inv_at r \<or> \<not> invitation_kind (cand_kind c)
       \<or> (cand_kind c = KindActivityInvite) \<noteq> (inv_activity r \<noteq> None)
       \<or> is_some_and (inv_activity r) (\<lambda>v. \<not> activity_valid v) \<or> \<not> utc_ok ch (inv_at r)))"

definition suppressed_valid ::
  "'tz chrono \<Rightarrow> engagement_store \<Rightarrow> u64 \<Rightarrow> suppressed_invitation_request \<Rightarrow> bool" where
  "suppressed_valid ch s interaction q =
     (let r = sup_request q in
      is_some_and (fmlookup (eng_candidates s) (sup_blocking_candidate q)) (\<lambda>blocker.
        eng_scope_valid (inv_scope r)
        \<and> \<not> (interaction \<noteq> inv_interaction r \<or> interaction = 0 \<or> inv_member r = 0
           \<or> cand_member blocker \<noteq> Some (inv_member r) \<or> cand_scope blocker \<noteq> inv_scope r
           \<or> \<not> invitation_kind (cand_kind blocker) \<or> \<not> invitation_kind (sup_kind q)
           \<or> (sup_kind q = KindActivityInvite) \<noteq> (inv_activity r \<noteq> None)
           \<or> \<not> utc_ok ch (inv_at r) \<or> \<not> matches_member (inv_scope r) (inv_member r))))"

definition invitation_checks :: "'tz chrono \<Rightarrow> engagement_store \<Rightarrow> (work_error \<times> bool) list" where
  "invitation_checks ch s =
     [(Full, fm_len (eng_invitation_requests s) + fm_len (eng_suppressed_invitations s) \<le> 10000
         \<and> fm_len (eng_candidates s) + fm_len (eng_introductions s)
             + fm_len (eng_suppressed_invitations s) \<le> 10000),
      (Invalid, fm_all (invitation_valid ch s) (eng_invitation_requests s)
         \<and> fm_all (suppressed_valid ch s) (eng_suppressed_invitations s)
         \<and> distinct (map inv_interaction (fm_values (eng_invitation_requests s))
             @ fm_keys (eng_suppressed_invitations s))
         \<and> fm_all (\<lambda>_ c. \<not> (invitation_kind (cand_kind c) \<and> cand_source c = None
             \<and> fmlookup (eng_invitation_requests s) (cand_id c) = None)) (eng_candidates s))]"

definition project_content_valid :: "u64 \<Rightarrow> work_content_ref fset \<Rightarrow> bool" where
  "project_content_valid home content \<longleftrightarrow> content \<noteq> {||} \<and> fcard content \<le> 8
     \<and> fBall content (\<lambda>r. case r of
         RefTask p i revision \<Rightarrow> p = home \<and> i \<noteq> 0 \<and> revision \<noteq> 0 | RefDecision _ _ _ \<Rightarrow> False)"

definition project_evidence_valid ::
  "u64 \<Rightarrow> u64 \<Rightarrow> u64 \<Rightarrow> u64 fset \<Rightarrow> work_content_ref fset \<Rightarrow> bool" where
  "project_evidence_valid home revision actor audience content \<longleftrightarrow>
     home \<noteq> 0 \<and> revision \<noteq> 0 \<and> actor \<noteq> 0 \<and> 0 |\<notin>| audience \<and> actor |\<in>| audience
     \<and> fcard audience \<le> 1000 \<and> project_content_valid home content"

definition receipt_evidence_valid :: "community_evidence \<Rightarrow> candidate \<Rightarrow> bool" where
  "receipt_evidence_valid ev c =
     (case ev of
        EvMessage \<Rightarrow> (cand_kind c = KindConversationStarter \<or> cand_kind c = KindUnansweredQuestion)
          \<and> cand_source c \<noteq> None \<and> cand_member c = None
      | EvJoin member joined_at \<Rightarrow> cand_kind c = KindWelcome \<and> member \<noteq> 0 \<and> joined_at \<le> cand_due_at c
          \<and> cand_due_at c - joined_at < 3600 \<and> cand_source c = None \<and> cand_member c = None
      | EvProject home revision actor audience content \<Rightarrow> cand_kind c = KindProjectCheckIn
          \<and> project_evidence_valid home revision actor audience content
          \<and> cand_source c = None \<and> cand_member c = Some actor)"

definition community_receipt_valid ::
  "'tz chrono \<Rightarrow> engagement_store \<Rightarrow> u64 \<Rightarrow> community_receipt \<Rightarrow> bool" where
  "community_receipt_valid ch s i r =
     is_some_and (fmlookup (eng_candidates s) i) (\<lambda>c.
       \<not> (feature_of (cand_kind c) = None \<or> \<not> is_guild_scope (cand_scope c) \<or> cand_destination c \<noteq> PrefOrigin)
       \<and> \<not> (is_some_and (cr_attempted_at r) (\<lambda>t. t < cand_due_at c \<or> \<not> utc_ok ch t)
            \<or> attempted_state (cand_state c) \<and> cr_attempted_at r = None)
       \<and> receipt_evidence_valid (cr_evidence r) c)"

definition community_checks :: "'tz chrono \<Rightarrow> engagement_store \<Rightarrow> (work_error \<times> bool) list" where
  "community_checks ch s =
     [(Invalid, is_none_or (eng_community_cursor s) (\<lambda>src. source_valid src \<and> utc_ok ch (src_at src)
         \<and> is_guild_scope (src_scope src))),
      (Full, fm_len (eng_community_receipts s) \<le> 10000),
      (Invalid, fm_all (community_receipt_valid ch s) (eng_community_receipts s))]"

fun members_of :: "u64 \<times> u64 \<Rightarrow> u64 list" where
  "members_of (a, b) = [a, b]"

definition introduction_names :: "engagement_store \<Rightarrow> candidate \<Rightarrow> u64 \<Rightarrow> bool" where
  "introduction_names s c member =
     (case cand_introduction_id c of
        None \<Rightarrow> False
      | Some i \<Rightarrow> is_some_and (fmlookup (eng_introductions s) i)
          (\<lambda>n. member \<in> set (members_of (intro_members n))))"

definition feedback_valid :: "engagement_store \<Rightarrow> u64 \<Rightarrow> (u64, explicit_feedback) fmap \<Rightarrow> bool" where
  "feedback_valid s i members =
     is_some_and (fmlookup (eng_candidates s) i) (\<lambda>c.
       \<not> (i = 0 \<or> cand_state c \<noteq> CandSent \<or> members = fmempty \<or> 2 < fm_len members)
       \<and> fm_all (\<lambda>actor f. \<not> (actor = 0 \<or> fb_actor f \<noteq> actor
            \<or> \<not> (cand_member c = Some actor \<or> introduction_names s c actor))) members)"

definition observations_valid :: "engagement_scope \<Rightarrow> (u64, source_ref) fmap \<Rightarrow> bool" where
  "observations_valid scope rows \<longleftrightarrow> eng_scope_valid scope
     \<and> fm_all (\<lambda>member src. source_valid src \<and> \<not> (src_scope src \<noteq> scope \<or> src_author src \<noteq> member)) rows"

definition stored_policy_valid :: "'tz chrono \<Rightarrow> u64 \<Rightarrow> member_policy \<Rightarrow> bool" where
  "stored_policy_valid ch member p \<longleftrightarrow> member \<noteq> 0 \<and> member_policy_valid ch p
     \<and> fBall (policy_scopes p) (\<lambda>scope. matches_member scope member)
     \<and> is_none_or (mp_weekly_subscription p) (\<lambda>w. matches_member (weekly_scope w) member)"

definition eligibility_valid :: "u64 \<Rightarrow> source_ref fset \<Rightarrow> bool" where
  "eligibility_valid member sources \<longleftrightarrow> member \<noteq> 0
     \<and> fBall sources (\<lambda>src. source_valid src \<and> src_author src = member)"

definition guild_features_valid :: "u64 \<Rightarrow> guild_feature_policy \<Rightarrow> bool" where
  "guild_features_valid guild p \<longleftrightarrow>
     \<not> (guild = 0 \<or> fm_any (\<lambda>_ cs. 0 |\<in>| cs) (gf_channels p)
        \<or> fBex (gf_enabled p) (\<lambda>f. is_none_or (fmlookup (gf_channels p) f) (\<lambda>cs. cs = {||})))"

definition needs_member :: "engagement_kind \<Rightarrow> bool" where
  "needs_member kind \<longleftrightarrow> kind = KindFollowUp \<or> kind = KindWeeklyCheckIn \<or> invitation_kind kind"

definition candidate_fields_valid :: "engagement_store \<Rightarrow> u64 \<Rightarrow> candidate \<Rightarrow> bool" where
  "candidate_fields_valid s i c \<longleftrightarrow>
     \<not> (i = 0 \<or> cand_id c \<noteq> i \<or> eng_sequence s < i \<or> cand_revision c = 0
        \<or> cand_dedupe_key c = [] \<or> 256 < byte_len (cand_dedupe_key c)
        \<or> is_some_and (cand_member c) (\<lambda>m. m = 0 \<or> \<not> matches_member (cand_scope c) m)
        \<or> (cand_state c = CandSent) \<noteq> (cand_message_id c \<noteq> None) \<or> cand_message_id c = Some 0
        \<or> (case cand_scope c of EngDm member _ \<Rightarrow> cand_member c \<noteq> Some member | EngGuild _ _ \<Rightarrow> False)
        \<or> needs_member (cand_kind c) \<and> cand_member c = None
        \<or> (cand_kind c = KindFollowUp \<or> cand_kind c = KindUnansweredQuestion) \<and> cand_source c = None
        \<or> cand_kind c = KindIntroduction
            \<and> (cand_member c \<noteq> None \<or> cand_source c \<noteq> None \<or> cand_destination c \<noteq> PrefOrigin))"

definition candidate_links_valid :: "engagement_store \<Rightarrow> candidate \<Rightarrow> bool" where
  "candidate_links_valid s c \<longleftrightarrow>
     is_none_or (cand_source c) (\<lambda>src. source_valid src \<and> src_scope src = cand_scope c
       \<and> \<not> is_some_and (cand_member c) (\<lambda>m. m \<noteq> src_author src))
     \<and> (case cand_introduction_id c of
          Some n \<Rightarrow> cand_kind c = KindIntroduction \<and> is_some_and (fmlookup (eng_introductions s) n)
            (\<lambda>intro. intro_scope intro = cand_scope c \<and> intro_revision intro = cand_revision c)
        | None \<Rightarrow> cand_kind c \<noteq> KindIntroduction)"

definition candidate_valid :: "'tz chrono \<Rightarrow> engagement_store \<Rightarrow> u64 \<Rightarrow> candidate \<Rightarrow> bool" where
  "candidate_valid ch s i c \<longleftrightarrow> eng_scope_valid (cand_scope c) \<and> task_follow_up_valid ch c
     \<and> candidate_fields_valid s i c \<and> candidate_links_valid s c"

type_synonym source_identity = "engagement_scope \<times> u64 \<times> u64 option \<times> engagement_kind \<times> u64"

definition candidate_identity :: "candidate \<Rightarrow> source_identity option" where
  "candidate_identity c = map_option (\<lambda>src. (src_scope src, src_message src, cand_member c, cand_kind c,
     if cand_kind c = KindWeeklyCheckIn then cand_due_at c else 0)) (cand_source c)"

definition introduction_valid :: "engagement_store \<Rightarrow> u64 \<Rightarrow> introduction \<Rightarrow> bool" where
  "introduction_valid s i n \<longleftrightarrow> eng_scope_valid (intro_scope n)
     \<and> \<not> (i = 0 \<or> intro_id n \<noteq> i \<or> eng_sequence s < i \<or> intro_revision n = 0 \<or> intro_destination n = 0
        \<or> (case intro_scope n of EngGuild _ channel \<Rightarrow> channel \<noteq> intro_destination n | EngDm _ _ \<Rightarrow> True)
        \<or> 0 \<in> set (members_of (intro_members n)) \<or> fst (intro_members n) = snd (intro_members n)
        \<or> \<not> is_none_or (fst (intro_descriptions n)) description_valid
        \<or> \<not> is_none_or (snd (intro_descriptions n)) description_valid
        \<or> \<not> is_none_or (fst (intro_approvals n)) (\<lambda>r. r = intro_revision n)
        \<or> \<not> is_none_or (snd (intro_approvals n)) (\<lambda>r. r = intro_revision n)
        \<or> (intro_state n = IntroReady \<or> intro_state n = IntroConsumed)
            \<and> (intro_approvals n \<noteq> (Some (intro_revision n), Some (intro_revision n))
              \<or> fst (intro_descriptions n) = None \<or> snd (intro_descriptions n) = None))"

fun states_agree :: "introduction_state \<Rightarrow> candidate_state \<Rightarrow> bool" where
  "states_agree IntroPending c = (c = CandPending)"
| "states_agree IntroReady c = (c = CandPending)"
| "states_agree IntroConsumed c = attempted_state c"
| "states_agree IntroCancelled c =
     (c = CandCancelled \<or> c = CandRejected \<or> c = CandSent \<or> c = CandReviewRequired)"

definition candidates_of :: "engagement_store \<Rightarrow> u64 \<Rightarrow> candidate list" where
  "candidates_of s n = filter (\<lambda>c. cand_introduction_id c = Some n) (fm_values (eng_candidates s))"

definition charge_valid :: "'tz chrono \<Rightarrow> engagement_store \<Rightarrow> contact_charge \<Rightarrow> bool" where
  "charge_valid ch s row = is_some_and (fmlookup (eng_candidates s) (charge_candidate row)) (\<lambda>c.
     \<not> (charge_member row = 0
        \<or> \<not> (cand_member c = Some (charge_member row) \<or> introduction_names s c (charge_member row))
        \<or> \<not> date_ok ch (charge_local_day row) \<or> \<not> date_ok ch (charge_local_week row)))"

definition charge_key :: "contact_charge \<Rightarrow> u64 \<times> u64" where
  "charge_key row = (charge_candidate row, charge_member row)"

definition charged :: "engagement_store \<Rightarrow> u64 \<Rightarrow> u64 \<Rightarrow> bool" where
  "charged s i member \<longleftrightarrow> (i, member) \<in> set (map charge_key (eng_charges s))"

definition introduction_charged :: "engagement_store \<Rightarrow> introduction \<Rightarrow> candidate \<Rightarrow> bool" where
  "introduction_charged s n c =
     (let k = length (filter (charged s (cand_id c)) (members_of (intro_members n)))
      in \<not> (k = 1 \<or> attempted_state (cand_state c) \<and> k \<noteq> 2))"

definition store_checks :: "'tz chrono \<Rightarrow> engagement_store \<Rightarrow> (work_error \<times> bool) list" where
  "store_checks ch s =
     [(Invalid, fm_all (feedback_valid s) (eng_feedback s)),
      (Invalid, fm_len (eng_feedback s) \<le> 10000),
      (Full, fm_len (eng_candidates s) + fm_len (eng_introductions s) \<le> 10000 \<and> open_candidates s \<le> 1000
         \<and> fm_len (eng_member_policies s) \<le> 10000 \<and> fm_len (eng_eligibility s) \<le> 10000
         \<and> sum_list (map fcard (fm_values (eng_eligibility s))) \<le> 10000
         \<and> fm_len (eng_guild_features s) \<le> 10000
         \<and> length (eng_charges s) + length (eng_erased_contact_charges s) \<le> 20000),
      (Invalid, fm_len (eng_weekly_assessments s) \<le> 10000
         \<and> fm_all (\<lambda>m t. m \<noteq> 0 \<and> utc_ok ch t) (eng_weekly_assessments s)),
      (Invalid, fm_len (eng_responses s) \<le> 10000 \<and> fm_all (\<lambda>a b. a \<noteq> 0 \<and> b \<noteq> 0) (eng_responses s)),
      (Full, fm_len (eng_observations s) \<le> 10000
         \<and> sum_list (map fm_len (fm_values (eng_observations s))) \<le> 10000),
      (Invalid, fm_all observations_valid (eng_observations s)),
      (Invalid, fm_all (stored_policy_valid ch) (eng_member_policies s)),
      (Invalid, fm_all eligibility_valid (eng_eligibility s)),
      (Invalid, fm_all guild_features_valid (eng_guild_features s))]"

definition link_checks :: "'tz chrono \<Rightarrow> engagement_store \<Rightarrow> (work_error \<times> bool) list" where
  "link_checks ch s =
     (let cs = fm_values (eng_candidates s) in
      [(Invalid, fm_all (candidate_valid ch s) (eng_candidates s)
          \<and> distinct (map cand_dedupe_key cs) \<and> distinct (List.map_filter candidate_identity cs)),
       (Invalid, distinct (List.map_filter cand_introduction_id cs)),
       (Invalid, fm_all (introduction_valid s) (eng_introductions s)),
       (Invalid, fm_all (\<lambda>_ n. case candidates_of s (intro_id n) of
            [] \<Rightarrow> False | c # _ \<Rightarrow> states_agree (intro_state n) (cand_state c)) (eng_introductions s)),
       (Invalid, list_all (charge_valid ch s) (eng_charges s) \<and> distinct (map charge_key (eng_charges s))),
       (Invalid, fm_all (\<lambda>_ c. attempted_state (cand_state c) \<longrightarrow>
            is_none_or (cand_member c) (charged s (cand_id c))) (eng_candidates s)),
       (Invalid, fm_all (\<lambda>_ n. list_all (introduction_charged s n) (candidates_of s (intro_id n)))
            (eng_introductions s))])"

definition engagement_validate :: "'tz chrono \<Rightarrow> engagement_store \<Rightarrow> work_error + unit" where
  "engagement_validate ch s = first_failure (erased_checks ch s @ invitation_checks ch s
     @ community_checks ch s @ store_checks ch s @ link_checks ch s)"

definition engagement_ok :: "'tz chrono \<Rightarrow> engagement_store \<Rightarrow> bool" where
  "engagement_ok ch s \<longleftrightarrow> engagement_validate ch s = Inr ()"

end
