(* ===== verification/Engagement_Schedule.thy ===== *)
theory Engagement_Schedule
  imports Engagement_Policy
begin

text \<open>
  Candidate scheduling (\<open>src/engagement/schedule.rs\<close>), the explicit invitation requests
  (\<open>src/engagement/invitations.rs\<close>) and the replay identities that outlive an erasure
  (\<open>src/engagement/erasure_identity.rs\<close>). The JSON encoder and SHA-256 are third-party:
  \<open>identity_hash\<close> is their composition, a parameter.
\<close>

type_synonym 'a eng_op = "engagement_store \<Rightarrow> (work_error + 'a) \<times> engagement_store"

text \<open>Build a candidate store in a private copy, validate it, then publish it.\<close>

definition publish :: "'tz chrono \<Rightarrow> 'a \<Rightarrow> engagement_store \<Rightarrow> 'a eng_op" where
  "publish ch r next s =
     (case engagement_validate ch next of Inl e \<Rightarrow> (Inl e, s) | Inr _ \<Rightarrow> (Inr r, next))"

section \<open>Replay identities\<close>

datatype erased_identity =
    ErInvitation u64
  | ErIntroduction rstr u64 u64
  | ErCandidate engagement_kind engagement_scope "u64 option" "u64 option" u64
  | ErCommunity rstr engagement_kind community_evidence "u64 option"
  | ErProject u64
  | ErTask work_scope work_content_ref

type_synonym identity_hash = "erased_identity \<Rightarrow> rstr"

fun learning_scope :: "engagement_scope \<Rightarrow> rstr" where
  "learning_scope (EngGuild guild _) = lit ''discord:'' @ decimal guild"
| "learning_scope (EngDm member _) = lit ''discord:dm:'' @ decimal member"

record candidate_proposal =
  cp_kind :: engagement_kind
  cp_source :: "source_ref option"
  cp_member :: "u64 option"
  cp_scope :: engagement_scope
  cp_due_at :: u64
  cp_introduction_id :: "u64 option"

definition introduction_identity :: "identity_hash \<Rightarrow> engagement_scope \<Rightarrow> u64 \<times> u64 \<Rightarrow> rstr" where
  "introduction_identity idh scope members =
     idh (ErIntroduction (learning_scope scope) (min (fst members) (snd members)) (max (fst members) (snd members)))"

definition proposal_identity :: "identity_hash \<Rightarrow> candidate_proposal \<Rightarrow> rstr" where
  "proposal_identity idh p = idh (ErCandidate (cp_kind p) (cp_scope p) (cp_member p)
     (map_option src_message (cp_source p)) (if cp_kind p = KindWeeklyCheckIn then cp_due_at p else 0))"

definition erased_candidate_identity :: "identity_hash \<Rightarrow> candidate \<Rightarrow> rstr" where
  "erased_candidate_identity idh c = proposal_identity idh \<lparr>cp_kind = cand_kind c,
     cp_source = cand_source c, cp_member = cand_member c, cp_scope = cand_scope c,
     cp_due_at = cand_due_at c, cp_introduction_id = cand_introduction_id c\<rparr>"

definition community_identity ::
  "identity_hash \<Rightarrow> engagement_scope \<Rightarrow> engagement_kind \<Rightarrow> community_evidence \<Rightarrow> source_ref option \<Rightarrow> rstr" where
  "community_identity idh scope kind ev src = idh (ErCommunity
     (case ev of EvJoin _ _ \<Rightarrow> learning_scope scope | _ \<Rightarrow> eng_scope_text scope) kind ev
     (map_option src_message src))"

section \<open>Time windows of a candidate\<close>

definition weekly_deadline :: "'tz chrono \<Rightarrow> candidate \<Rightarrow> work_error + u64 option" where
  "weekly_deadline ch c =
     (if cand_kind c \<noteq> KindWeeklyCheckIn \<and> cand_kind c \<noteq> KindWelcome \<and> cand_kind c \<noteq> KindProjectCheckIn
      then Inr None
      else case checked_add (cand_due_at c) 3600 of
          None \<Rightarrow> Inl Invalid
        | Some stop \<Rightarrow> if utc_ok ch stop then Inr (Some stop) else Inl Invalid)"

definition weekly_window :: "'tz chrono \<Rightarrow> candidate \<Rightarrow> u64 \<Rightarrow> work_error + bool" where
  "weekly_window ch c now = rbind (weekly_deadline ch c)
     (\<lambda>stop. Inr (is_none_or stop (\<lambda>stop. cand_due_at c \<le> now \<and> now < stop)))"

definition task_follow_up_window :: "'tz chrono \<Rightarrow> candidate \<Rightarrow> u64 \<Rightarrow> work_error + bool" where
  "task_follow_up_window ch c now =
     (if cand_work_ref c = None then Inr True
      else case cand_expires_at c of
          None \<Rightarrow> Inl Invalid
        | Some expires \<Rightarrow>
            if cand_kind c \<noteq> KindFollowUp \<or> expires \<le> cand_due_at c \<or> \<not> utc_ok ch expires then Inl Invalid
            else Inr (now < expires))"

section \<open>Proposing candidates\<close>

definition same_proposal :: "candidate_proposal \<Rightarrow> candidate \<Rightarrow> bool" where
  "same_proposal p c \<longleftrightarrow> cand_kind c = cp_kind p \<and> cand_member c = cp_member p \<and> cand_scope c = cp_scope p
     \<and> (case (cand_source c, cp_source p) of
          (Some a, Some b) \<Rightarrow> src_message a = src_message b
            \<and> (cp_kind p \<noteq> KindWeeklyCheckIn \<or> cand_due_at c = cp_due_at p)
        | (None, None) \<Rightarrow> cand_introduction_id c = cp_introduction_id p
            \<and> (cp_introduction_id p \<noteq> None \<or> cand_due_at c = cp_due_at p)
        | _ \<Rightarrow> False)"

definition proposal_full :: "engagement_store \<Rightarrow> bool" where
  "proposal_full s \<longleftrightarrow> 10000 \<le> fm_len (eng_candidates s) + fm_len (eng_introductions s)
     \<or> 1000 \<le> open_candidates s"

definition proposal_denied :: "engagement_store \<Rightarrow> candidate_proposal \<Rightarrow> bool" where
  "proposal_denied s p =
     (case cp_member p of
        None \<Rightarrow> False
      | Some member \<Rightarrow> cp_kind p \<noteq> KindProjectCheckIn \<and>
          is_none_or (fmlookup (eng_eligibility s) member) (\<lambda>eligible.
            case cp_source p of
              Some src \<Rightarrow> src |\<notin>| eligible
            | None \<Rightarrow> cp_kind p = KindWeeklyCheckIn \<and>
                is_none_or (case fmlookup (eng_member_policies s) member of
                    None \<Rightarrow> None | Some q \<Rightarrow> mp_weekly_subscription q)
                  (\<lambda>w. weekly_scope w \<noteq> cp_scope p)))"

definition preferred_origin :: "member_policy option \<Rightarrow> engagement_scope \<Rightarrow> destination_preference" where
  "preferred_origin policy scope =
     (case policy of
        None \<Rightarrow> PrefOrigin
      | Some p \<Rightarrow> (case fmlookup (mp_destinations p) scope of None \<Rightarrow> PrefOrigin | Some d \<Rightarrow> d))"

definition proposed_candidate :: "engagement_store \<Rightarrow> candidate_proposal \<Rightarrow> u64 \<Rightarrow> candidate" where
  "proposed_candidate s p i =
     (let policy = (case cp_member p of None \<Rightarrow> None | Some m \<Rightarrow> fmlookup (eng_member_policies s) m) in
      \<lparr>cand_id = i, cand_kind = cp_kind p, cand_source = cp_source p, cand_member = cp_member p,
       cand_scope = cp_scope p, cand_due_at = cp_due_at p, cand_revision = 1, cand_state = CandPending,
       cand_dedupe_key = lit ''engagement:'' @ decimal i,
       cand_policy_revision = (case policy of None \<Rightarrow> 0 | Some q \<Rightarrow> mp_revision q),
       cand_destination = (if feature_of (cp_kind p) \<noteq> None then PrefOrigin
         else preferred_origin policy (cp_scope p)),
       cand_message_id = None, cand_introduction_id = cp_introduction_id p, cand_work_ref = None,
       cand_expires_at = None, cand_follow_up_reason = None\<rparr>)"

definition propose_candidate ::
  "'tz chrono \<Rightarrow> identity_hash \<Rightarrow> candidate_proposal \<Rightarrow> u64 \<Rightarrow> u64 option eng_op" where
  "propose_candidate ch idh p now s =
     (if proposal_identity idh p |\<in>| eng_erased_identities s then (Inl Stale, s)
      else if \<not> utc_ok ch now \<or> \<not> utc_ok ch (cp_due_at p)
        \<or> is_some_and (cp_source p) (\<lambda>src. \<not> utc_ok ch (src_at src))
        \<or> \<not> eng_scope_valid (cp_scope p) then (Inl Invalid, s)
      else if fm_any (\<lambda>_. same_proposal p) (eng_candidates s) then (Inr None, s)
      else if proposal_full s then (Inl Full, s)
      else if proposal_denied s p then (Inl Denied, s)
      else case checked_add (eng_sequence s) 1 of
          None \<Rightarrow> (Inl Full, s)
        | Some i \<Rightarrow>
            let c = proposed_candidate s p i in
            (case weekly_deadline ch c of
               Inl e \<Rightarrow> (Inl e, s)
             | Inr _ \<Rightarrow> publish ch (Some i)
                 (s\<lparr>eng_sequence := i, eng_candidates := fmupd i c (eng_candidates s)\<rparr>) s))"

definition due_now :: "'tz chrono \<Rightarrow> u64 \<Rightarrow> candidate \<Rightarrow> bool" where
  "due_now ch now c \<longleftrightarrow> cand_state c = CandPending \<and> cand_due_at c \<le> now \<and> weekly_window ch c now = Inr True"

definition due_candidates :: "'tz chrono \<Rightarrow> engagement_store \<Rightarrow> u64 \<Rightarrow> u64 list" where
  "due_candidates ch s now =
     (if \<not> utc_ok ch now then []
      else map cand_id (sort_key (\<lambda>c. (cand_due_at c, cand_id c))
        (filter (due_now ch now) (fm_values (eng_candidates s)))))"

fun expired_weekly :: "'tz chrono \<Rightarrow> u64 \<Rightarrow> candidate list \<Rightarrow> work_error + u64 list" where
  "expired_weekly ch now [] = Inr []"
| "expired_weekly ch now (c # cs) =
     rbind (if open_state (cand_state c)
         then rbind (weekly_deadline ch c) (\<lambda>stop. Inr (is_some_and stop (\<lambda>stop. stop \<le> now))) else Inr False)
       (\<lambda>over. rbind (expired_weekly ch now cs) (\<lambda>ids. Inr (if over then cand_id c # ids else ids)))"

fun cancel_listed :: "u64 list \<Rightarrow> unit eng_op" where
  "cancel_listed [] s = (Inr (), s)"
| "cancel_listed (i # ids) s =
     (case fmlookup (eng_candidates s) i of
        None \<Rightarrow> (Inl Missing, s)
      | Some c \<Rightarrow> cancel_listed ids
          (s\<lparr>eng_candidates := fmupd i (c\<lparr>cand_state := CandCancelled\<rparr>) (eng_candidates s)\<rparr>))"

definition expire_missed_weekly :: "'tz chrono \<Rightarrow> u64 \<Rightarrow> nat eng_op" where
  "expire_missed_weekly ch now s =
     (if \<not> utc_ok ch now then (Inl Invalid, s)
      else case expired_weekly ch now (fm_values (eng_candidates s)) of
          Inl e \<Rightarrow> (Inl e, s)
        | Inr ids \<Rightarrow> op_then (cancel_listed ids s) (\<lambda>_ s. (Inr (length ids), s)))"

text \<open>The next weekly occurrence: eight consecutive days contain every weekday.\<close>

fun weekly_from ::
  "'tz chrono \<Rightarrow> 'tz \<Rightarrow> weekly_subscription \<Rightarrow> int \<Rightarrow> int \<Rightarrow> nat list \<Rightarrow> work_error + u64 option" where
  "weekly_from ch tz w at day [] = Inl Invalid"
| "weekly_from ch tz w at day (k # ks) =
     (case ch_add_days ch day (int k) of
        None \<Rightarrow> Inl Invalid
      | Some d \<Rightarrow>
          if ch_weekday ch d = weekly_weekday w
          then rbind (local_hour ch tz d (weekly_hour w)) (\<lambda>t.
            if at < t then (if t < 0 then Inl Invalid else Inr (Some (nat t)))
            else weekly_from ch tz w at day ks)
          else weekly_from ch tz w at day ks)"

definition next_weekly :: "'tz chrono \<Rightarrow> engagement_store \<Rightarrow> u64 \<Rightarrow> u64 \<Rightarrow> work_error + u64 option" where
  "next_weekly ch s member now =
     (case fmlookup (eng_member_policies s) member of
        None \<Rightarrow> Inl Missing
      | Some p \<Rightarrow>
          if \<not> member_policy_valid ch p then Inl Invalid
          else (case mp_weekly_subscription p of
              None \<Rightarrow> Inr None
            | Some w \<Rightarrow>
                rbind (ok_or (mp_timezone p) Denied) (\<lambda>z.
                rbind (ok_or (ch_parse_tz ch z) Invalid) (\<lambda>tz.
                rbind (utc ch now) (\<lambda>at. weekly_from ch tz w at (ch_date ch tz at) [0..<8])))))"

section \<open>Invitation requests\<close>

definition invitation_eligible :: "engagement_store \<Rightarrow> u64 \<Rightarrow> bool" where
  "invitation_eligible s member \<longleftrightarrow>
     is_some_and (fmlookup (eng_eligibility s) member) (\<lambda>sources. sources \<noteq> {||})
     \<or> is_some_and (fmlookup (eng_member_policies s) member) (\<lambda>p. mp_weekly_subscription p \<noteq> None)"

definition invitation_receipt_current :: "engagement_store \<Rightarrow> candidate \<Rightarrow> bool" where
  "invitation_receipt_current s c \<longleftrightarrow> invitation_kind (cand_kind c) \<and> cand_source c = None
     \<and> is_some_and (fmlookup (eng_invitation_requests s) (cand_id c)) (\<lambda>r. inv_member r \<noteq> 0
       \<and> cand_member c = Some (inv_member r) \<and> cand_scope c = inv_scope r \<and> cand_due_at c = inv_at r
       \<and> inv_interaction r \<noteq> 0 \<and> (cand_kind c = KindActivityInvite) = (inv_activity r \<noteq> None))"

fun stopped_in :: "member_policy \<Rightarrow> engagement_scope \<Rightarrow> bool" where
  "stopped_in p (EngGuild guild channel) =
     (guild |\<in>| mp_stopped_guilds p \<or> EngGuild guild channel |\<in>| mp_stopped_scopes p)"
| "stopped_in p (EngDm member channel) = (EngDm member channel |\<in>| mp_stopped_scopes p)"

definition invitation_blocker :: "engagement_store \<Rightarrow> invitation_request \<Rightarrow> candidate option" where
  "invitation_blocker s r = List.find (\<lambda>c. cand_member c = Some (inv_member r) \<and> cand_scope c = inv_scope r
     \<and> invitation_kind (cand_kind c) \<and> open_state (cand_state c)) (fm_values (eng_candidates s))"

definition invited_candidate ::
  "engagement_kind \<Rightarrow> invitation_request \<Rightarrow> member_policy \<Rightarrow> u64 \<Rightarrow> candidate" where
  "invited_candidate kind r p i =
     \<lparr>cand_id = i, cand_kind = kind, cand_source = None, cand_member = Some (inv_member r),
      cand_scope = inv_scope r, cand_due_at = inv_at r, cand_revision = 1, cand_state = CandPending,
      cand_dedupe_key = lit ''invitation:'' @ decimal (inv_interaction r),
      cand_policy_revision = mp_revision p,
      cand_destination = preferred_origin (Some p) (inv_scope r), cand_message_id = None,
      cand_introduction_id = None, cand_work_ref = None, cand_expires_at = None,
      cand_follow_up_reason = None\<rparr>"

definition admit_invitation ::
  "'tz chrono \<Rightarrow> engagement_kind \<Rightarrow> invitation_request \<Rightarrow> member_policy \<Rightarrow> u64 option eng_op" where
  "admit_invitation ch kind r p s =
     (case invitation_blocker s r of
        Some blocker \<Rightarrow> publish ch None (s\<lparr>eng_suppressed_invitations := fmupd (inv_interaction r)
            \<lparr>sup_blocking_candidate = cand_id blocker, sup_kind = kind, sup_request = r\<rparr>
            (eng_suppressed_invitations s)\<rparr>) s
      | None \<Rightarrow>
          if 10000 \<le> fm_len (eng_candidates s) + fm_len (eng_introductions s)
              + fm_len (eng_suppressed_invitations s) \<or> 1000 \<le> open_candidates s then (Inl Full, s)
          else (case checked_add (eng_sequence s) 1 of
              None \<Rightarrow> (Inl Full, s)
            | Some i \<Rightarrow> publish ch (Some i) (s\<lparr>eng_sequence := i,
                eng_candidates := fmupd i (invited_candidate kind r p i) (eng_candidates s),
                eng_invitation_requests := fmupd i r (eng_invitation_requests s)\<rparr>) s))"

definition request_invitation ::
  "'tz chrono \<Rightarrow> identity_hash \<Rightarrow> engagement_kind \<Rightarrow> invitation_request \<Rightarrow> u64 option eng_op" where
  "request_invitation ch idh kind r s =
     (if idh (ErInvitation (inv_interaction r)) |\<in>| eng_erased_identities s then (Inl Stale, s)
      else if \<not> invitation_kind kind \<or> inv_interaction r = 0 then (Inl Invalid, s)
      else if \<not> eng_scope_valid (inv_scope r) \<or> \<not> utc_ok ch (inv_at r) then (Inl Invalid, s)
      else (case fmlookup (eng_member_policies s) (inv_member r) of
          None \<Rightarrow> (Inl Denied, s)
        | Some p \<Rightarrow>
            if \<not> personalized_enabled ch p \<or> stopped_in p (inv_scope r)
              \<or> \<not> matches_member (inv_scope r) (inv_member r) \<or> \<not> invitation_eligible s (inv_member r)
            then (Inl Denied, s)
            else if fm_any (\<lambda>_ q. inv_interaction q = inv_interaction r) (eng_invitation_requests s)
              \<or> fmlookup (eng_suppressed_invitations s) (inv_interaction r) \<noteq> None then (Inr None, s)
            else admit_invitation ch kind r p s))"

end
