(* ===== verification/Engagement_Contact.thy ===== *)
theory Engagement_Contact
  imports Engagement_Schedule
begin

text \<open>
  The attempt lifecycle of contact candidates (\<open>src/engagement/lifecycle.rs\<close>) with the
  member-authored introductions (\<open>src/engagement/introductions.rs\<close>), the evidence gates of
  \<open>src/engagement/community.rs\<close> and the linked task follow-ups
  (\<open>src/engagement/task_follow_up.rs\<close>): who may be contacted and when, the shared contact
  budget, the reservation that charges it, and the outcomes.
\<close>

section \<open>Eligibility and budget\<close>

definition calendar_buckets :: "'tz chrono \<Rightarrow> 'tz \<Rightarrow> u64 \<Rightarrow> work_error + rstr \<times> rstr" where
  "calendar_buckets ch tz at =
     rbind (utc ch at) (\<lambda>t.
       let day = ch_date ch tz t in
       rbind (ok_or (ch_add_days ch day (- int (ch_weekday ch day))) Invalid) (\<lambda>monday.
         Inr (ch_show_date ch day, ch_show_date ch monday)))"

definition quiet_now :: "member_policy \<Rightarrow> nat \<Rightarrow> bool" where
  "quiet_now p hour \<longleftrightarrow>
     (let start = mp_quiet_start p; stop = mp_quiet_end p in
      start < stop \<and> start \<le> hour \<and> hour < stop \<or> stop < start \<and> (start \<le> hour \<or> hour < stop))"

definition relabel :: "follow_up_decision \<Rightarrow> work_error + 'a \<Rightarrow> (work_error \<times> follow_up_decision) + 'a" where
  "relabel reason r = (case r of Inl e \<Rightarrow> Inl (e, reason) | Inr x \<Rightarrow> Inr x)"

definition allowed_with_reason ::
  "'tz chrono \<Rightarrow> engagement_store \<Rightarrow> candidate \<Rightarrow> u64 \<Rightarrow> u64
     \<Rightarrow> (work_error \<times> follow_up_decision) + rstr \<times> rstr" where
  "allowed_with_reason ch s c member now =
     (case fmlookup (eng_member_policies s) member of
        None \<Rightarrow> Inl (Denied, FuDisabled)
      | Some p \<Rightarrow>
          if \<not> member_policy_valid ch p then Inl (Invalid, FuDisabled)
          else if mp_global_stop p \<or> stopped_in p (cand_scope c) then Inl (Denied, FuOptedOut)
          else if \<not> personalized_enabled ch p then Inl (Denied, FuDisabled)
          else if is_some_and (mp_snoozed_until p) (\<lambda>t. now < t) then Inl (Denied, FuQuiet)
          else rbind (ok_or (mp_timezone p) (Denied, FuDisabled)) (\<lambda>z.
            rbind (ok_or (ch_parse_tz ch z) (Invalid, FuDisabled)) (\<lambda>tz.
            rbind (relabel FuDisabled (utc ch now)) (\<lambda>at.
            if quiet_now p (ch_hour ch tz at) then Inl (Denied, FuQuiet)
            else if cand_kind c = KindWeeklyCheckIn
              \<and> is_none_or (mp_weekly_subscription p) (\<lambda>w. weekly_scope w \<noteq> cand_scope c)
            then Inl (Denied, FuOptedOut)
            else relabel FuDisabled (calendar_buckets ch tz now)))))"

definition contact_allowed ::
  "'tz chrono \<Rightarrow> engagement_store \<Rightarrow> candidate \<Rightarrow> u64 \<Rightarrow> u64 \<Rightarrow> work_error + rstr \<times> rstr" where
  "contact_allowed ch s c member now =
     (case allowed_with_reason ch s c member now of Inl (e, _) \<Rightarrow> Inl e | Inr b \<Rightarrow> Inr b)"

definition task_follow_up_member_allowed ::
  "'tz chrono \<Rightarrow> engagement_store \<Rightarrow> candidate \<Rightarrow> u64
     \<Rightarrow> (work_error \<times> follow_up_decision) + rstr \<times> rstr" where
  "task_follow_up_member_allowed ch s c now =
     (if cand_kind c \<noteq> KindFollowUp \<or> cand_work_ref c = None then Inl (Invalid, FuStaleTask)
      else case cand_member c of
          None \<Rightarrow> Inl (Invalid, FuAccessDenied)
        | Some member \<Rightarrow>
            if member = 0 then Inl (Invalid, FuAccessDenied)
            else if \<not> eng_scope_valid (cand_scope c) then Inl (Invalid, FuAccessDenied)
            else if \<not> matches_member (cand_scope c) member then Inl (Denied, FuAccessDenied)
            else rbind (allowed_with_reason ch s c member now) (\<lambda>b.
              if (case fmlookup (eng_member_policies s) member of
                    None \<Rightarrow> None | Some p \<Rightarrow> fmlookup (mp_destinations p) (cand_scope c))
                  \<noteq> Some (cand_destination c)
              then Inl (Denied, FuOptedOut) else Inr b))"

text \<open>All attempts of a member: the live charges and those kept from erased records.\<close>

definition member_rows :: "engagement_store \<Rightarrow> u64 \<Rightarrow> (rstr \<times> rstr \<times> u64) list" where
  "member_rows s member =
     map (\<lambda>c. (charge_local_day c, charge_local_week c, charge_at c))
       (filter (\<lambda>c. charge_member c = member) (eng_charges s))
     @ map (\<lambda>c. (ecc_local_day c, ecc_local_week c, ecc_at c))
       (filter (\<lambda>c. ecc_member c = member) (eng_erased_contact_charges s))"

fun bucket_counts ::
  "'tz chrono \<Rightarrow> 'tz \<Rightarrow> rstr \<times> rstr \<Rightarrow> (rstr \<times> rstr \<times> u64) list \<Rightarrow> work_error + nat \<times> nat" where
  "bucket_counts ch tz b [] = Inr (0, 0)"
| "bucket_counts ch tz b (row # rows) =
     rbind (calendar_buckets ch tz (snd (snd row))) (\<lambda>current.
     rbind (bucket_counts ch tz b rows) (\<lambda>(day, week).
       Inr (day + (if fst current = fst b then 1 else 0), week + (if snd current = snd b then 1 else 0))))"

definition contact_capacity ::
  "'tz chrono \<Rightarrow> engagement_store \<Rightarrow> u64 \<Rightarrow> u64 \<Rightarrow> rstr \<times> rstr \<Rightarrow> work_error + unit" where
  "contact_capacity ch s member now b =
     (if now < eng_safety_pruned_through s then Inl Denied
      else case fmlookup (eng_member_policies s) member of
          None \<Rightarrow> Inl Denied
        | Some p \<Rightarrow>
            rbind (ok_or (mp_timezone p) Denied) (\<lambda>z.
            rbind (ok_or (ch_parse_tz ch z) Invalid) (\<lambda>tz.
            let rows = member_rows s member;
                saved_day = length (filter (\<lambda>r. fst r = fst b) rows);
                saved_week = length (filter (\<lambda>r. fst (snd r) = snd b) rows)
            in rbind (bucket_counts ch tz b rows) (\<lambda>(day, week).
               if \<not> utc_ok ch now then Inl Invalid
               else rbind (ok_or (mp_daily_limit p) Denied) (\<lambda>limit.
                 if limit \<le> max saved_day day
                   \<or> is_some_and (mp_weekly_limit p) (\<lambda>limit. limit \<le> max saved_week week)
                 then Inl Denied else Inr ())))))"

definition task_follow_up_member_decision ::
  "'tz chrono \<Rightarrow> engagement_store \<Rightarrow> candidate \<Rightarrow> u64 \<Rightarrow> work_error + follow_up_decision" where
  "task_follow_up_member_decision ch s c now =
     (case task_follow_up_member_allowed ch s c now of
        Inl (e, reason) \<Rightarrow> if e = Denied then Inr reason else Inl e
      | Inr b \<Rightarrow>
          rbind (ok_or (cand_member c) Invalid) (\<lambda>member.
            case contact_capacity ch s member now b of
              Inr _ \<Rightarrow> Inr FuAllowed
            | Inl e \<Rightarrow> if e = Denied then Inr FuBudget else Inl e))"

section \<open>Evidence gates\<close>

definition day_seconds :: nat where "day_seconds = 86400"
definition week_seconds :: nat where "week_seconds = 604800"

definition community_receipt_current :: "engagement_store \<Rightarrow> candidate \<Rightarrow> bool" where
  "community_receipt_current s c \<longleftrightarrow> community_enabled s (cand_scope c) (cand_kind c)
     \<and> (case cand_scope c of
          EngDm _ _ \<Rightarrow> False
        | EngGuild guild _ \<Rightarrow> is_some_and (fmlookup (eng_community_receipts s) (cand_id c))
            (\<lambda>r. is_some_and (fmlookup (eng_guild_features s) guild)
              (\<lambda>p. gf_revision p = cr_policy_revision r)))"

definition community_interval :: "engagement_kind \<Rightarrow> nat option" where
  "community_interval kind =
     (if kind = KindConversationStarter then Some day_seconds
      else if kind = KindProjectCheckIn then Some week_seconds else None)"

fun evidence_project :: "community_evidence \<Rightarrow> u64 option" where
  "evidence_project (EvProject home _ _ _ _) = Some home"
| "evidence_project _ = None"

definition receipt_project :: "engagement_store \<Rightarrow> u64 \<Rightarrow> u64 option" where
  "receipt_project s i =
     (case fmlookup (eng_community_receipts s) i of None \<Rightarrow> None | Some r \<Rightarrow> evidence_project (cr_evidence r))"

definition erased_blocks ::
  "identity_hash \<Rightarrow> engagement_store \<Rightarrow> candidate \<Rightarrow> nat \<Rightarrow> u64 \<Rightarrow> erased_community_charge \<Rightarrow> bool" where
  "erased_blocks idh s c interval now r \<longleftrightarrow> ecm_scope r = cand_scope c \<and> ecm_kind r = cand_kind c
     \<and> now < saturating_add (ecm_at r) interval
     \<and> (cand_kind c \<noteq> KindProjectCheckIn
        \<or> (case receipt_project s (cand_id c) of
             Some home \<Rightarrow> ecm_project r = Some (idh (ErProject home)) | None \<Rightarrow> True))"

definition receipt_leaves_room ::
  "engagement_store \<Rightarrow> candidate \<Rightarrow> nat \<Rightarrow> u64 \<Rightarrow> u64 \<Rightarrow> community_receipt \<Rightarrow> bool" where
  "receipt_leaves_room s c interval now i r =
     (if i = cand_id c \<or> is_none_or (cr_attempted_at r) (\<lambda>t. saturating_add t interval \<le> now) then True
      else case fmlookup (eng_candidates s) i of
          None \<Rightarrow> False
        | Some old \<Rightarrow>
            if cand_kind old \<noteq> cand_kind c \<or> cand_scope old \<noteq> cand_scope c then True
            else if cand_kind c = KindProjectCheckIn
              then (case (evidence_project (cr_evidence r), receipt_project s (cand_id c)) of
                 (Some a, Some b) \<Rightarrow> a \<noteq> b | _ \<Rightarrow> False)
              else False)"

definition community_capacity ::
  "identity_hash \<Rightarrow> engagement_store \<Rightarrow> candidate \<Rightarrow> u64 \<Rightarrow> bool" where
  "community_capacity idh s c now =
     (if now < eng_safety_pruned_through s then False
      else case community_interval (cand_kind c) of
          None \<Rightarrow> True
        | Some interval \<Rightarrow>
            \<not> list_ex (erased_blocks idh s c interval now) (eng_erased_community_charges s)
            \<and> fm_all (receipt_leaves_room s c interval now) (eng_community_receipts s))"

definition introduction_member_enabled ::
  "'tz chrono \<Rightarrow> engagement_store \<Rightarrow> engagement_scope \<Rightarrow> u64 \<Rightarrow> bool" where
  "introduction_member_enabled ch s scope member =
     is_some_and (fmlookup (eng_member_policies s) member)
       (\<lambda>p. personalized_enabled ch p \<and> \<not> stopped_in p scope)"

definition both_approve :: "introduction \<Rightarrow> bool" where
  "both_approve n \<longleftrightarrow> intro_approvals n = (Some (intro_revision n), Some (intro_revision n))"

definition introduction_receipt_current ::
  "'tz chrono \<Rightarrow> engagement_store \<Rightarrow> candidate \<Rightarrow> bool" where
  "introduction_receipt_current ch s c \<longleftrightarrow> cand_kind c = KindIntroduction \<and> cand_source c = None
     \<and> cand_member c = None \<and> cand_destination c = PrefOrigin \<and> introductions_enabled s (cand_scope c)
     \<and> is_some_and (case cand_introduction_id c of
           None \<Rightarrow> None | Some i \<Rightarrow> fmlookup (eng_introductions s) i)
         (\<lambda>n. case intro_scope n of
            EngDm _ _ \<Rightarrow> False
          | EngGuild guild channel \<Rightarrow> intro_scope n = cand_scope c \<and> intro_destination n = channel
              \<and> intro_revision n = cand_revision c \<and> both_approve n
              \<and> is_some_and (fst (intro_descriptions n)) description_valid
              \<and> is_some_and (snd (intro_descriptions n)) description_valid
              \<and> (intro_state n = IntroReady \<and> cand_state c = CandPending
                 \<or> intro_state n = IntroConsumed \<and> cand_state c = CandReserved)
              \<and> is_some_and (fmlookup (eng_guild_features s) guild)
                  (\<lambda>p. gf_revision p = cand_policy_revision c)
              \<and> list_all (introduction_member_enabled ch s (intro_scope n)) (members_of (intro_members n)))"

section \<open>Reservations\<close>

record introduction_reservation =
  ir_introduction :: introduction
  ir_policy_revisions :: "u64 \<times> u64"

record engagement_reservation =
  er_introduction :: "introduction_reservation option"
  er_candidate_id :: u64
  er_revision :: u64
  er_policy_revision :: u64
  er_scope :: engagement_scope
  er_member :: "u64 option"
  er_destination :: destination_preference

datatype delivery_outcome = OutSent u64 | OutRejected | OutCancelled | OutReviewRequired

definition policy_revision_of :: "engagement_store \<Rightarrow> u64 \<Rightarrow> u64" where
  "policy_revision_of s member =
     (case fmlookup (eng_member_policies s) member of None \<Rightarrow> 0 | Some p \<Rightarrow> mp_revision p)"

definition new_charge :: "u64 \<Rightarrow> u64 \<Rightarrow> u64 \<Rightarrow> rstr \<times> rstr \<Rightarrow> contact_charge" where
  "new_charge i member now b = \<lparr>charge_candidate = i, charge_member = member,
     charge_local_day = fst b, charge_local_week = snd b, charge_at = now\<rparr>"

fun introduction_charges ::
  "'tz chrono \<Rightarrow> engagement_store \<Rightarrow> candidate \<Rightarrow> u64 \<Rightarrow> u64 \<Rightarrow> u64 list
     \<Rightarrow> work_error + contact_charge list" where
  "introduction_charges ch s c i now [] = Inr []"
| "introduction_charges ch s c i now (member # members) =
     rbind (contact_allowed ch s c member now) (\<lambda>b.
     rbind (contact_capacity ch s member now b) (\<lambda>_.
     rbind (introduction_charges ch s c i now members) (\<lambda>charges.
       Inr (new_charge i member now b # charges))))"

definition set_candidate :: "u64 \<Rightarrow> candidate \<Rightarrow> engagement_store \<Rightarrow> engagement_store" where
  "set_candidate i c s = s\<lparr>eng_candidates := fmupd i c (eng_candidates s)\<rparr>"

text \<open>
  The caller's candidate \<open>c\<close> is the one stored under \<open>i\<close>; the introduction it names
  exists whenever its receipt is current.
\<close>

definition reserve_introduction ::
  "'tz chrono \<Rightarrow> u64 \<Rightarrow> u64 \<Rightarrow> u64 \<Rightarrow> candidate \<Rightarrow> engagement_reservation eng_op" where
  "reserve_introduction ch i revision now c s =
     (if \<not> introduction_receipt_current ch s c \<or> cand_revision c \<noteq> revision then (Inl Denied, s)
      else case cand_introduction_id c of
          None \<Rightarrow> (Inl Invalid, s)
        | Some m \<Rightarrow>
            (case fmlookup (eng_introductions s) m of
               None \<Rightarrow> (Inl Missing, s)
             | Some n \<Rightarrow>
                 if 20000 < length (eng_charges s) + length (eng_erased_contact_charges s) + 2 then (Inl Full, s)
                 else (case introduction_charges ch s c i now (members_of (intro_members n)) of
                     Inl e \<Rightarrow> (Inl e, s)
                   | Inr charges \<Rightarrow>
                       let n' = n\<lparr>intro_state := IntroConsumed\<rparr> in
                       (Inr \<lparr>er_introduction = Some \<lparr>ir_introduction = n',
                           ir_policy_revisions = (policy_revision_of s (fst (intro_members n)),
                             policy_revision_of s (snd (intro_members n)))\<rparr>,
                         er_candidate_id = i, er_revision = revision,
                         er_policy_revision = cand_policy_revision c, er_scope = cand_scope c,
                         er_member = None, er_destination = PrefOrigin\<rparr>,
                        set_candidate i (c\<lparr>cand_state := CandReserved\<rparr>)
                          (s\<lparr>eng_charges := eng_charges s @ charges,
                             eng_introductions := fmupd (intro_id n) n' (eng_introductions s)\<rparr>)))))"

text \<open>Public facilitation without a member: the receipt records the attempt.\<close>

definition attempt_receipt :: "u64 \<Rightarrow> u64 \<Rightarrow> engagement_store \<Rightarrow> engagement_store" where
  "attempt_receipt i now s =
     (case fmlookup (eng_community_receipts s) i of
        None \<Rightarrow> s
      | Some r \<Rightarrow> s\<lparr>eng_community_receipts :=
          fmupd i (r\<lparr>cr_attempted_at := Some now\<rparr>) (eng_community_receipts s)\<rparr>)"

definition reserve_public :: "u64 \<Rightarrow> u64 \<Rightarrow> u64 \<Rightarrow> candidate \<Rightarrow> engagement_reservation eng_op" where
  "reserve_public i revision now c s =
     (case fmlookup (eng_community_receipts s) i of
        None \<Rightarrow> (Inl Missing, s)
      | Some receipt \<Rightarrow>
          (Inr \<lparr>er_introduction = None, er_candidate_id = i, er_revision = revision,
             er_policy_revision = cr_policy_revision receipt, er_scope = cand_scope c, er_member = None,
             er_destination = PrefOrigin\<rparr>,
           set_candidate i (c\<lparr>cand_state := CandReserved, cand_policy_revision := cr_policy_revision receipt,
               cand_destination := PrefOrigin\<rparr>) (attempt_receipt i now s)))"

definition contact_eligible :: "engagement_store \<Rightarrow> candidate \<Rightarrow> u64 \<Rightarrow> bool" where
  "contact_eligible s c member =
     (if cand_kind c = KindProjectCheckIn then community_receipt_current s c
      else if invitation_kind (cand_kind c) \<and> cand_source c = None then invitation_eligible s member
      else is_some_and (fmlookup (eng_eligibility s) member)
        (\<lambda>sources. is_none_or (cand_source c) (\<lambda>src. src |\<in>| sources)))"

definition unproven_invitation :: "engagement_store \<Rightarrow> candidate \<Rightarrow> bool" where
  "unproven_invitation s c \<longleftrightarrow> invitation_kind (cand_kind c) \<and> cand_source c = None
     \<and> \<not> invitation_receipt_current s c"

definition member_allowed ::
  "'tz chrono \<Rightarrow> engagement_store \<Rightarrow> candidate \<Rightarrow> u64 \<Rightarrow> u64 \<Rightarrow> work_error + rstr \<times> rstr" where
  "member_allowed ch s c member now =
     (if cand_work_ref c \<noteq> None
      then (case task_follow_up_member_allowed ch s c now of Inl (e, _) \<Rightarrow> Inl e | Inr b \<Rightarrow> Inr b)
      else contact_allowed ch s c member now)"

definition contact_destination :: "candidate \<Rightarrow> member_policy \<Rightarrow> work_error + destination_preference" where
  "contact_destination c p =
     (if cand_work_ref c \<noteq> None then Inr (cand_destination c)
      else if cand_kind c = KindProjectCheckIn then Inr PrefOrigin
      else if cand_kind c = KindWeeklyCheckIn
        then rbind (ok_or (mp_weekly_subscription p) Denied) (\<lambda>w. Inr (weekly_destination w))
      else Inr (preferred_origin (Some p) (cand_scope c)))"

definition reserve_member ::
  "'tz chrono \<Rightarrow> u64 \<Rightarrow> u64 \<Rightarrow> u64 \<Rightarrow> candidate \<Rightarrow> u64 \<Rightarrow> engagement_reservation eng_op" where
  "reserve_member ch i revision now c member s =
     (if unproven_invitation s c \<or> \<not> contact_eligible s c member then (Inl Denied, s)
      else case member_allowed ch s c member now of
          Inl e \<Rightarrow> (Inl e, s)
        | Inr b \<Rightarrow>
            (case contact_capacity ch s member now b of
               Inl e \<Rightarrow> (Inl e, s)
             | Inr _ \<Rightarrow>
                 if 20000 \<le> length (eng_charges s) + length (eng_erased_contact_charges s) then (Inl Full, s)
                 else (case fmlookup (eng_member_policies s) member of
                     None \<Rightarrow> (Inl Denied, s)
                   | Some p \<Rightarrow>
                       (case contact_destination c p of
                          Inl e \<Rightarrow> (Inl e, s)
                        | Inr destination \<Rightarrow>
                            let u = attempt_receipt i now s in
                            (Inr \<lparr>er_introduction = None, er_candidate_id = i, er_revision = revision,
                               er_policy_revision = mp_revision p, er_scope = cand_scope c,
                               er_member = cand_member c, er_destination = destination\<rparr>,
                             set_candidate i (c\<lparr>cand_state := CandReserved, cand_policy_revision := mp_revision p,
                                 cand_destination := destination\<rparr>)
                               (u\<lparr>eng_charges := eng_charges u @ [new_charge i member now b]\<rparr>))))))"

definition reserve_due :: "'tz chrono \<Rightarrow> candidate \<Rightarrow> u64 \<Rightarrow> u64 \<Rightarrow> work_error + unit" where
  "reserve_due ch c revision now =
     (if cand_revision c \<noteq> revision \<or> cand_state c \<noteq> CandPending \<or> now < cand_due_at c then Inl Stale
      else rbind (weekly_window ch c now) (\<lambda>w.
        if \<not> w then Inl Stale
        else rbind (task_follow_up_window ch c now) (\<lambda>f. if \<not> f then Inl Stale else Inr ())))"

definition reserve_contact ::
  "'tz chrono \<Rightarrow> identity_hash \<Rightarrow> u64 \<Rightarrow> u64 \<Rightarrow> u64 \<Rightarrow> engagement_reservation eng_op" where
  "reserve_contact ch idh i revision now s =
     (if \<not> utc_ok ch now then (Inl Invalid, s)
      else case fmlookup (eng_candidates s) i of
          None \<Rightarrow> (Inl Missing, s)
        | Some c \<Rightarrow>
            (case reserve_due ch c revision now of
               Inl e \<Rightarrow> (Inl e, s)
             | Inr _ \<Rightarrow>
                 if cand_kind c = KindIntroduction then reserve_introduction ch i revision now c s
                 else if feature_of (cand_kind c) \<noteq> None
                   \<and> (\<not> community_receipt_current s c \<or> \<not> community_capacity idh s c now) then (Inl Denied, s)
                 else if feature_of (cand_kind c) \<noteq> None \<and> cand_member c = None
                   then reserve_public i revision now c s
                 else (case cand_member c of
                     None \<Rightarrow> (Inl Denied, s)
                   | Some member \<Rightarrow> reserve_member ch i revision now c member s)))"

end
