(* ===== verification/Engagement_Lifecycle.thy ===== *)
theory Engagement_Lifecycle
  imports Engagement_Contact
begin

text \<open>
  What happens to a candidate after it is proposed: the recheck before sending, the
  outcomes, cancellation and recovery (\<open>src/engagement/lifecycle.rs\<close>,
  \<open>src/engagement/task_follow_up.rs\<close>, \<open>src/engagement/community.rs\<close>), and the operations on
  introductions (\<open>src/engagement/introductions.rs\<close>).
\<close>

section \<open>Recheck\<close>

definition introduction_policies_current ::
  "engagement_store \<Rightarrow> introduction_reservation \<Rightarrow> u64 \<Rightarrow> u64 \<Rightarrow> bool" where
  "introduction_policies_current s snapshot member revision =
     is_some_and (fmlookup (eng_member_policies s) member) (\<lambda>p. mp_revision p = revision)"

fun recheck_members ::
  "'tz chrono \<Rightarrow> engagement_store \<Rightarrow> candidate \<Rightarrow> u64 \<Rightarrow> introduction_reservation \<Rightarrow> (u64 \<times> u64) list
     \<Rightarrow> work_error + unit" where
  "recheck_members ch s c now snapshot [] = Inr ()"
| "recheck_members ch s c now snapshot ((member, revision) # rest) =
     (if \<not> introduction_policies_current s snapshot member revision then Inl Stale
      else rbind (contact_allowed ch s c member now) (\<lambda>_. recheck_members ch s c now snapshot rest))"

definition validate_introduction_reservation ::
  "'tz chrono \<Rightarrow> engagement_store \<Rightarrow> engagement_reservation \<Rightarrow> u64 \<Rightarrow> work_error + unit" where
  "validate_introduction_reservation ch s r now =
     rbind (ok_or (er_introduction r) Denied) (\<lambda>snapshot.
     rbind (ok_or (fmlookup (eng_candidates s) (er_candidate_id r)) Missing) (\<lambda>c.
     let n = ir_introduction snapshot in
     if \<not> introduction_receipt_current ch s c \<or> fmlookup (eng_introductions s) (intro_id n) \<noteq> Some n
     then Inl Stale
     else recheck_members ch s c now snapshot
       [(fst (intro_members n), fst (ir_policy_revisions snapshot)),
        (snd (intro_members n), snd (ir_policy_revisions snapshot))]))"

definition reservation_matches :: "candidate \<Rightarrow> engagement_reservation \<Rightarrow> bool" where
  "reservation_matches c r \<longleftrightarrow> cand_state c = CandReserved \<and> cand_revision c = er_revision r
     \<and> cand_policy_revision c = er_policy_revision r \<and> cand_scope c = er_scope r
     \<and> cand_member c = er_member r \<and> cand_destination c = er_destination r"

definition validate_member_reservation ::
  "'tz chrono \<Rightarrow> engagement_store \<Rightarrow> engagement_reservation \<Rightarrow> candidate \<Rightarrow> u64 \<Rightarrow> u64 \<Rightarrow> work_error + unit" where
  "validate_member_reservation ch s r c member now =
     (if unproven_invitation s c then Inl Denied
      else if is_none_or (fmlookup (eng_member_policies s) member) (\<lambda>p. mp_revision p \<noteq> er_policy_revision r)
      then Inl Stale
      else if cand_work_ref c \<noteq> None \<and> now < eng_safety_pruned_through s then Inl Denied
      else rbind (member_allowed ch s c member now) (\<lambda>_.
        if contact_eligible s c member then Inr () else Inl Stale))"

definition validate_reserved ::
  "'tz chrono \<Rightarrow> engagement_store \<Rightarrow> engagement_reservation \<Rightarrow> u64 \<Rightarrow> work_error + unit" where
  "validate_reserved ch s r now =
     rbind (ok_or (fmlookup (eng_candidates s) (er_candidate_id r)) Missing) (\<lambda>c.
     if \<not> reservation_matches c r then Inl Stale
     else rbind (weekly_window ch c now) (\<lambda>w.
       if \<not> w then Inl Stale
       else rbind (task_follow_up_window ch c now) (\<lambda>f.
         if \<not> f then Inl Stale
         else if cand_kind c = KindIntroduction then validate_introduction_reservation ch s r now
         else if er_introduction r \<noteq> None then Inl Invalid
         else if feature_of (cand_kind c) \<noteq> None \<and> \<not> community_receipt_current s c then Inl Stale
         else if feature_of (cand_kind c) \<noteq> None \<and> er_member r = None then Inr ()
         else rbind (ok_or (er_member r) Denied) (\<lambda>member.
           validate_member_reservation ch s r c member now))))"

section \<open>Outcomes\<close>

fun outcome_state :: "delivery_outcome \<Rightarrow> work_error + candidate_state \<times> u64 option" where
  "outcome_state (OutSent message) = (if message = 0 then Inl Invalid else Inr (CandSent, Some message))"
| "outcome_state OutRejected = Inr (CandRejected, None)"
| "outcome_state OutCancelled = Inr (CandCancelled, None)"
| "outcome_state OutReviewRequired = Inr (CandReviewRequired, None)"

fun uncertain_outcome :: "delivery_outcome \<Rightarrow> bool" where
  "uncertain_outcome (OutSent _) = True"
| "uncertain_outcome OutReviewRequired = True"
| "uncertain_outcome _ = False"

definition attempt_recorded :: "engagement_store \<Rightarrow> u64 \<Rightarrow> bool" where
  "attempt_recorded s i \<longleftrightarrow> list_ex (\<lambda>c. charge_candidate c = i) (eng_charges s)
     \<or> fmlookup (eng_community_receipts s) i \<noteq> None"

definition settled_candidate :: "candidate_state \<Rightarrow> u64 option \<Rightarrow> candidate \<Rightarrow> candidate" where
  "settled_candidate state message c =
     c\<lparr>cand_state := state, cand_message_id := message,
       cand_follow_up_reason := (if cand_work_ref c \<noteq> None \<and> (state = CandSent \<or> state = CandReviewRequired)
         then None else cand_follow_up_reason c)\<rparr>"

definition settle_contact :: "u64 \<Rightarrow> delivery_outcome \<Rightarrow> unit eng_op" where
  "settle_contact i outcome s =
     (case fmlookup (eng_candidates s) i of
        None \<Rightarrow> (Inl Missing, s)
      | Some c \<Rightarrow>
          let reconcile = (cand_state c = CandCancelled \<and> attempt_recorded s i \<and> uncertain_outcome outcome) in
          if cand_state c \<noteq> CandReserved \<and> \<not> reconcile then (Inl Stale, s)
          else (case outcome_state outcome of
              Inl e \<Rightarrow> (Inl e, s)
            | Inr (state, message) \<Rightarrow>
                let s = set_candidate i (settled_candidate state message c) s in
                (case cand_introduction_id c of
                   None \<Rightarrow> (Inr (), s)
                 | Some m \<Rightarrow>
                     if state \<noteq> CandRejected \<and> state \<noteq> CandCancelled then (Inr (), s)
                     else (case fmlookup (eng_introductions s) m of
                         None \<Rightarrow> (Inl Missing, s)
                       | Some n \<Rightarrow> (Inr (), s\<lparr>eng_introductions := fmupd m
                           (n\<lparr>intro_state := IntroCancelled, intro_approvals := (None, None)\<rparr>)
                           (eng_introductions s)\<rparr>)))))"

definition cancel_matching :: "(candidate \<Rightarrow> bool) \<Rightarrow> engagement_store \<Rightarrow> nat \<times> engagement_store" where
  "cancel_matching P s =
     (let hit = (\<lambda>c. P c \<and> open_state (cand_state c)) in
      (length (filter hit (fm_values (eng_candidates s))),
       s\<lparr>eng_candidates := fmmap (\<lambda>c. if hit c then c\<lparr>cand_state := CandCancelled\<rparr> else c)
          (eng_candidates s)\<rparr>))"

definition cancel_source :: "engagement_scope \<Rightarrow> u64 \<Rightarrow> engagement_store \<Rightarrow> nat \<times> engagement_store" where
  "cancel_source scope message = cancel_matching
     (\<lambda>c. cand_scope c = scope \<and> is_some_and (cand_source c) (\<lambda>src. src_message src = message))"

definition cancel_member_origin ::
  "u64 \<Rightarrow> engagement_scope \<Rightarrow> u64 \<Rightarrow> engagement_store \<Rightarrow> nat \<times> engagement_store" where
  "cancel_member_origin member scope after = cancel_matching
     (\<lambda>c. cand_member c = Some member \<and> cand_scope c = scope
        \<and> is_some_and (cand_source c) (\<lambda>src. src_at src < after))"

definition cancel_public_origin ::
  "engagement_scope \<Rightarrow> u64 \<Rightarrow> engagement_store \<Rightarrow> nat \<times> engagement_store" where
  "cancel_public_origin scope after = cancel_matching
     (\<lambda>c. cand_scope c = scope \<and> (cand_kind c = KindConversationStarter \<or> cand_kind c = KindUnansweredQuestion)
        \<and> is_some_and (cand_source c) (\<lambda>src. src_at src < after))"

definition recovered :: "candidate \<Rightarrow> candidate" where
  "recovered c = (if cand_state c = CandReserved
     then c\<lparr>cand_state := CandReviewRequired,
       cand_follow_up_reason := (if cand_work_ref c \<noteq> None then None else cand_follow_up_reason c)\<rparr>
     else c)"

definition recover_reserved :: "engagement_store \<Rightarrow> nat \<times> engagement_store" where
  "recover_reserved s =
     (length (filter (\<lambda>c. cand_state c = CandReserved) (fm_values (eng_candidates s))),
      s\<lparr>eng_candidates := fmmap recovered (eng_candidates s)\<rparr>)"

definition cancel_task_follow_up :: "u64 \<Rightarrow> u64 \<Rightarrow> follow_up_decision \<Rightarrow> bool eng_op" where
  "cancel_task_follow_up i revision reason s =
     (if reason = FuAllowed then (Inl Invalid, s)
      else case fmlookup (eng_candidates s) i of
          None \<Rightarrow> (Inl Missing, s)
        | Some c \<Rightarrow>
            if cand_revision c \<noteq> revision \<or> cand_work_ref c = None \<or> \<not> open_state (cand_state c)
            then (Inr False, s)
            else (Inr True, set_candidate i
              (c\<lparr>cand_state := CandCancelled, cand_follow_up_reason := Some reason\<rparr>) s))"

section \<open>Introductions\<close>

definition introduced_pair :: "engagement_store \<Rightarrow> engagement_scope \<Rightarrow> u64 \<times> u64 \<Rightarrow> bool" where
  "introduced_pair s scope members =
     fm_any (\<lambda>_ n. (case (intro_scope n, scope) of (EngGuild a _, EngGuild b _) \<Rightarrow> a = b | _ \<Rightarrow> False)
       \<and> set (members_of members) \<subseteq> set (members_of (intro_members n))) (eng_introductions s)"

definition new_introduction ::
  "u64 \<times> u64 \<Rightarrow> engagement_scope \<Rightarrow> u64 \<Rightarrow> rstr \<Rightarrow> u64 \<Rightarrow> introduction" where
  "new_introduction members scope channel description i =
     \<lparr>intro_id = i, intro_revision = 1, intro_scope = scope, intro_members = members,
      intro_descriptions = (Some description, None), intro_approvals = (None, None),
      intro_destination = channel, intro_state = IntroPending\<rparr>"

definition introduction_candidate :: "engagement_scope \<Rightarrow> u64 \<Rightarrow> u64 \<Rightarrow> u64 \<Rightarrow> u64 \<Rightarrow> candidate" where
  "introduction_candidate scope policy_revision now i k =
     \<lparr>cand_id = k, cand_kind = KindIntroduction, cand_source = None, cand_member = None, cand_scope = scope,
      cand_due_at = now, cand_revision = 1, cand_state = CandPending,
      cand_dedupe_key = lit ''introduction:'' @ decimal i, cand_policy_revision = policy_revision,
      cand_destination = PrefOrigin, cand_message_id = None, cand_introduction_id = Some i,
      cand_work_ref = None, cand_expires_at = None, cand_follow_up_reason = None\<rparr>"

definition guild_revision :: "engagement_store \<Rightarrow> u64 \<Rightarrow> u64" where
  "guild_revision s guild = (case fmlookup (eng_guild_features s) guild of None \<Rightarrow> 0 | Some p \<Rightarrow> gf_revision p)"

definition create_introduction ::
  "'tz chrono \<Rightarrow> identity_hash \<Rightarrow> u64 \<times> u64 \<Rightarrow> engagement_scope \<Rightarrow> rstr \<Rightarrow> u64 \<Rightarrow> u64 eng_op" where
  "create_introduction ch idh members scope description now s =
     (if introduction_identity idh scope members |\<in>| eng_erased_identities s then (Inl Stale, s)
      else if \<not> eng_scope_valid scope \<or> \<not> utc_ok ch now then (Inl Invalid, s)
      else if 0 \<in> set (members_of members) \<or> fst members = snd members \<or> \<not> description_valid description
      then (Inl Invalid, s)
      else if \<not> introductions_enabled s scope
        \<or> \<not> list_all (introduction_member_enabled ch s scope) (members_of members) then (Inl Denied, s)
      else if 10000 < fm_len (eng_candidates s) + fm_len (eng_introductions s) + 2 \<or> 1000 \<le> open_candidates s
      then (Inl Full, s)
      else if introduced_pair s scope members then (Inl Stale, s)
      else (case scope of
          EngDm _ _ \<Rightarrow> (Inl Invalid, s)
        | EngGuild guild channel \<Rightarrow>
            if u64_max < eng_sequence s + 2 then (Inl Full, s)
            else let i = Suc (eng_sequence s); k = Suc i in
              publish ch i (s\<lparr>eng_sequence := k,
                eng_introductions := fmupd i (new_introduction members scope channel description i)
                  (eng_introductions s),
                eng_candidates := fmupd k (introduction_candidate scope (guild_revision s guild) now i k)
                  (eng_candidates s)\<rparr>) s))"

fun own_index :: "u64 \<times> u64 \<Rightarrow> u64 \<Rightarrow> bool option" where
  "own_index (a, b) member = (if a = member then Some False else if b = member then Some True else None)"

fun put_at :: "bool \<Rightarrow> 'a \<Rightarrow> 'a \<times> 'a \<Rightarrow> 'a \<times> 'a" where
  "put_at False v (a, b) = (v, b)"
| "put_at True v (a, b) = (a, v)"

fun get_at :: "bool \<Rightarrow> 'a \<times> 'a \<Rightarrow> 'a" where
  "get_at False (a, b) = a"
| "get_at True (a, b) = b"

definition editable :: "introduction \<Rightarrow> u64 \<Rightarrow> bool" where
  "editable n revision \<longleftrightarrow> intro_revision n = revision
     \<and> (intro_state n = IntroPending \<or> intro_state n = IntroReady)"

definition move_introduction :: "u64 option \<Rightarrow> introduction \<Rightarrow> work_error + introduction" where
  "move_introduction destination n =
     (case destination of
        None \<Rightarrow> Inr n
      | Some d \<Rightarrow>
          if d = 0 then Inl Invalid
          else (case intro_scope n of
              EngDm _ _ \<Rightarrow> Inl Invalid
            | EngGuild guild _ \<Rightarrow> Inr (n\<lparr>intro_scope := EngGuild guild d, intro_destination := d\<rparr>)))"

definition relink_candidates ::
  "u64 \<Rightarrow> u64 \<Rightarrow> engagement_scope \<Rightarrow> u64 \<Rightarrow> (u64, candidate) fmap \<Rightarrow> (u64, candidate) fmap" where
  "relink_candidates i revision scope policy_revision = fmmap (\<lambda>c.
     if cand_introduction_id c = Some i
     then c\<lparr>cand_revision := revision, cand_scope := scope, cand_policy_revision := policy_revision\<rparr> else c)"

definition edit_introduction ::
  "'tz chrono \<Rightarrow> u64 \<Rightarrow> u64 \<Rightarrow> u64 \<Rightarrow> rstr \<Rightarrow> u64 option \<Rightarrow> u64 eng_op" where
  "edit_introduction ch i member revision description destination s =
     (if \<not> description_valid description then (Inl Invalid, s)
      else case fmlookup (eng_introductions s) i of
          None \<Rightarrow> (Inl Missing, s)
        | Some n \<Rightarrow>
            (case own_index (intro_members n) member of
               None \<Rightarrow> (Inl Denied, s)
             | Some own \<Rightarrow>
                 if \<not> editable n revision then (Inl Stale, s)
                 else (case checked_add revision 1 of
                     None \<Rightarrow> (Inl Full, s)
                   | Some r \<Rightarrow>
                       (case move_introduction destination n of
                          Inl e \<Rightarrow> (Inl e, s)
                        | Inr m \<Rightarrow>
                            let n' = m\<lparr>intro_revision := r, intro_descriptions := put_at own (Some description)
                                  (intro_descriptions m), intro_approvals := (None, None),
                                  intro_state := IntroPending\<rparr>;
                                next = s\<lparr>eng_introductions := fmupd i n' (eng_introductions s)\<rparr> in
                            if \<not> introductions_enabled next (intro_scope n') then (Inl Denied, s)
                            else (case intro_scope n' of
                                EngDm _ _ \<Rightarrow> (Inl Invalid, s)
                              | EngGuild guild _ \<Rightarrow>
                                  if list_ex (\<lambda>c. cand_state c \<noteq> CandPending) (candidates_of s i)
                                  then (Inl Stale, s)
                                  else publish ch r (next\<lparr>eng_candidates := relink_candidates i r
                                    (intro_scope n') (guild_revision s guild) (eng_candidates s)\<rparr>) s)))))"

definition approve_introduction :: "'tz chrono \<Rightarrow> u64 \<Rightarrow> u64 \<Rightarrow> u64 \<Rightarrow> bool eng_op" where
  "approve_introduction ch i member revision s =
     (case fmlookup (eng_introductions s) i of
        None \<Rightarrow> (Inl Missing, s)
      | Some n \<Rightarrow>
          (case own_index (intro_members n) member of
             None \<Rightarrow> (Inl Denied, s)
           | Some own \<Rightarrow>
               if \<not> editable n revision then (Inl Stale, s)
               else if get_at own (intro_descriptions n) = None \<or> \<not> introductions_enabled s (intro_scope n)
                 \<or> \<not> list_all (introduction_member_enabled ch s (intro_scope n)) (members_of (intro_members n))
               then (Inl Denied, s)
               else (case candidates_of s i of
                   [] \<Rightarrow> (Inl Missing, s)
                 | c # _ \<Rightarrow>
                     (case intro_scope n of
                        EngDm _ _ \<Rightarrow> (Inl Invalid, s)
                      | EngGuild guild _ \<Rightarrow>
                          if cand_state c \<noteq> CandPending \<or> cand_policy_revision c \<noteq> guild_revision s guild
                          then (Inl Stale, s)
                          else let n' = n\<lparr>intro_approvals := put_at own (Some revision) (intro_approvals n)\<rparr>;
                                 ready = (intro_approvals n' = (Some revision, Some revision))
                            in (Inr ready, s\<lparr>eng_introductions := fmupd i
                                 (if ready then n'\<lparr>intro_state := IntroReady\<rparr> else n')
                                 (eng_introductions s)\<rparr>)))))"

definition withdraw_introduction :: "u64 \<Rightarrow> u64 \<Rightarrow> u64 \<Rightarrow> unit eng_op" where
  "withdraw_introduction i member revision s =
     (case fmlookup (eng_introductions s) i of
        None \<Rightarrow> (Inl Missing, s)
      | Some n \<Rightarrow>
          if member \<notin> set (members_of (intro_members n)) then (Inl Denied, s)
          else if intro_revision n \<noteq> revision
            \<or> \<not> list_ex (\<lambda>c. open_state (cand_state c)) (candidates_of s i) then (Inl Stale, s)
          else (case checked_add revision 1 of
              None \<Rightarrow> (Inl Full, s)
            | Some r \<Rightarrow> (Inr (), s\<lparr>eng_introductions := fmupd i (n\<lparr>intro_revision := r,
                  intro_state := IntroCancelled, intro_approvals := (None, None)\<rparr>) (eng_introductions s),
                eng_candidates := fmmap (\<lambda>c. if cand_introduction_id c = Some i
                  then c\<lparr>cand_state := CandCancelled, cand_revision := r\<rparr> else c) (eng_candidates s)\<rparr>)))"

definition publication :: "introduction \<Rightarrow> work_error + rstr" where
  "publication n =
     (if intro_state n \<noteq> IntroConsumed \<or> \<not> both_approve n then Inl Denied
      else case intro_descriptions n of
          (Some a, Some b) \<Rightarrow>
            if \<not> description_valid a \<or> \<not> description_valid b then Inl Invalid
            else Inr (lit ''Two members have approved sharing these introductions here:'' @ [10, 10] @ a
              @ [10, 10] @ b @ [10, 10] @ lit ''You'' @ 8217
              # lit ''re welcome to connect around what you'' @ 8217 # lit ''ve shared.'')
        | _ \<Rightarrow> Inl Denied)"

end
