(* ===== verification/Engagement_Community.thy ===== *)
theory Engagement_Community
  imports Engagement_Lifecycle
begin

text \<open>
  Public facilitation from scoped evidence (\<open>src/engagement/community.rs\<close>) and the task
  follow-ups linked to a native task (\<open>src/engagement/task_follow_up.rs\<close>): which facts
  become candidates, and the private copy in which a linked candidate is completed before
  it is published.
\<close>

record community_fact =
  cf_kind :: engagement_kind
  cf_scope :: engagement_scope
  cf_source :: "source_ref option"
  cf_evidence :: community_evidence
  cf_at :: u64
  cf_useful :: bool
  cf_current :: bool

record community_facts =
  facts_rows :: "community_fact list"
  facts_join_events_available :: bool

definition fact_valid :: "community_facts \<Rightarrow> u64 \<Rightarrow> community_fact \<Rightarrow> bool" where
  "fact_valid facts now f \<longleftrightarrow>
     \<not> (\<not> cf_current f \<or> \<not> cf_useful f \<or> now < cf_at f \<or> \<not> eng_scope_valid (cf_scope f))
     \<and> (case cf_evidence f of
          EvMessage \<Rightarrow> (cf_kind f = KindConversationStarter \<or> cf_kind f = KindUnansweredQuestion)
            \<and> is_some_and (cf_source f) (\<lambda>src. source_valid src \<and> src_scope src = cf_scope f
                \<and> src_at src = cf_at f \<and> is_some_and (checked_add (cf_at f) day_seconds) (\<lambda>t. t \<le> now))
        | EvJoin member joined_at \<Rightarrow> cf_kind f = KindWelcome \<and> cf_source f = None
            \<and> facts_join_events_available facts \<and> member \<noteq> 0 \<and> joined_at = cf_at f \<and> now - cf_at f < 3600
        | EvProject home revision actor audience content \<Rightarrow> cf_kind f = KindProjectCheckIn
            \<and> cf_source f = None \<and> project_evidence_valid home revision actor audience content)"

fun same_guild :: "engagement_scope \<Rightarrow> engagement_scope \<Rightarrow> bool" where
  "same_guild (EngGuild a _) (EngGuild b _) = (a = b)"
| "same_guild _ _ = False"

fun is_join :: "community_evidence \<Rightarrow> bool" where
  "is_join (EvJoin _ _) = True"
| "is_join _ = False"

definition join_recorded :: "engagement_store \<Rightarrow> community_fact \<Rightarrow> bool" where
  "join_recorded s f \<longleftrightarrow> is_join (cf_evidence f)
     \<and> fm_any (\<lambda>i r. cr_evidence r = cf_evidence f
          \<and> is_some_and (fmlookup (eng_candidates s) i) (\<lambda>c. same_guild (cand_scope c) (cf_scope f)))
         (eng_community_receipts s)"

fun evidence_member :: "community_evidence \<Rightarrow> u64 option" where
  "evidence_member (EvProject _ _ actor _ _) = Some actor"
| "evidence_member _ = None"

definition recently_attempted :: "engagement_store \<Rightarrow> community_fact \<Rightarrow> u64 \<Rightarrow> candidate \<Rightarrow> bool" where
  "recently_attempted s f now c \<longleftrightarrow> cand_scope c = cf_scope f \<and> cand_kind c = cf_kind f
     \<and> (let receipt = fmlookup (eng_community_receipts s) (cand_id c);
            interval = (if cf_kind f = KindProjectCheckIn then week_seconds else day_seconds);
            last = (case receipt of None \<Rightarrow> cand_due_at c
              | Some r \<Rightarrow> (case cr_attempted_at r of None \<Rightarrow> cand_due_at c | Some t \<Rightarrow> t));
            recent = (now < saturating_add last interval)
        in case cf_evidence f of
            EvJoin _ _ \<Rightarrow> is_some_and receipt (\<lambda>r. cr_evidence r = cf_evidence f)
          | EvProject home _ _ _ _ \<Rightarrow> recent
              \<and> is_some_and receipt (\<lambda>r. evidence_project (cr_evidence r) = Some home)
          | EvMessage \<Rightarrow> is_some_and (cand_source c) (\<lambda>a.
                is_some_and (cf_source f) (\<lambda>b. src_message a = src_message b))
              \<or> cf_kind f = KindConversationStarter \<and> recent)"

definition fact_proposal :: "community_fact \<Rightarrow> u64 \<Rightarrow> candidate_proposal" where
  "fact_proposal f now = \<lparr>cp_kind = cf_kind f, cp_source = cf_source f,
     cp_member = evidence_member (cf_evidence f), cp_scope = cf_scope f, cp_due_at = now,
     cp_introduction_id = None\<rparr>"

definition fact_admissible ::
  "'tz chrono \<Rightarrow> identity_hash \<Rightarrow> engagement_store \<Rightarrow> community_facts \<Rightarrow> u64 \<Rightarrow> community_fact \<Rightarrow> bool" where
  "fact_admissible ch idh s facts now f \<longleftrightarrow>
     community_identity idh (cf_scope f) (cf_kind f) (cf_evidence f) (cf_source f) |\<notin>| eng_erased_identities s
     \<and> \<not> join_recorded s f \<and> fact_valid facts now f \<and> community_enabled s (cf_scope f) (cf_kind f)
     \<and> is_none_or (evidence_member (cf_evidence f)) (\<lambda>m.
         is_some_and (fmlookup (eng_member_policies s) m) (personalized_enabled ch))
     \<and> \<not> fm_any (\<lambda>_. recently_attempted s f now) (eng_candidates s)"

fun admit_facts ::
  "'tz chrono \<Rightarrow> identity_hash \<Rightarrow> engagement_store \<Rightarrow> community_facts \<Rightarrow> u64 \<Rightarrow> community_fact list
     \<Rightarrow> candidate_proposal list \<Rightarrow> candidate_proposal list" where
  "admit_facts ch idh s facts now [] ps = ps"
| "admit_facts ch idh s facts now (f # fs) ps =
     admit_facts ch idh s facts now fs
       (if fact_admissible ch idh s facts now f
          \<and> \<not> list_ex (\<lambda>p. cp_scope p = cf_scope f \<and> cp_kind p = cf_kind f) ps
        then ps @ [fact_proposal f now] else ps)"

definition community_candidates ::
  "'tz chrono \<Rightarrow> identity_hash \<Rightarrow> engagement_store \<Rightarrow> community_facts \<Rightarrow> u64 \<Rightarrow> candidate_proposal list" where
  "community_candidates ch idh s facts now =
     (if \<not> utc_ok ch now \<or> 1000 < length (facts_rows facts) then []
      else admit_facts ch idh s facts now (facts_rows facts) [])"

definition fact_matches :: "candidate_proposal \<Rightarrow> community_fact \<Rightarrow> bool" where
  "fact_matches p f \<longleftrightarrow> cf_kind f = cp_kind p \<and> cf_scope f = cp_scope p \<and> cf_source f = cp_source p
     \<and> (case (evidence_member (cf_evidence f), cp_member p) of
          (Some actor, Some m) \<Rightarrow> actor = m | (_, None) \<Rightarrow> True | _ \<Rightarrow> False)"

fun propose_each ::
  "'tz chrono \<Rightarrow> identity_hash \<Rightarrow> community_facts \<Rightarrow> u64 \<Rightarrow> candidate_proposal list \<Rightarrow> engagement_store
     \<Rightarrow> work_error + nat \<times> engagement_store" where
  "propose_each ch idh facts now [] next = Inr (0, next)"
| "propose_each ch idh facts now (p # ps) next =
     (case List.find (fact_matches p) (facts_rows facts) of
        None \<Rightarrow> Inl Invalid
      | Some row \<Rightarrow>
          (case checked_add (eng_sequence next) 1 of
             None \<Rightarrow> Inl Full
           | Some i \<Rightarrow>
               (case cp_scope p of
                  EngDm _ _ \<Rightarrow> Inl Invalid
                | EngGuild guild _ \<Rightarrow>
                    let noted = next\<lparr>eng_community_receipts := fmupd i
                          \<lparr>cr_policy_revision = guild_revision next guild, cr_attempted_at = None,
                           cr_evidence = cf_evidence row\<rparr> (eng_community_receipts next)\<rparr>
                    in (case propose_candidate ch idh p now noted of
                          (Inl e, _) \<Rightarrow> Inl e
                        | (Inr (Some _), u) \<Rightarrow>
                            rbind (propose_each ch idh facts now ps u) (\<lambda>(n, t). Inr (Suc n, t))
                        | (Inr None, u) \<Rightarrow>
                            propose_each ch idh facts now ps
                              (u\<lparr>eng_community_receipts := fmdrop i (eng_community_receipts u)\<rparr>)))))"

definition propose_community ::
  "'tz chrono \<Rightarrow> identity_hash \<Rightarrow> community_facts \<Rightarrow> u64 \<Rightarrow> nat eng_op" where
  "propose_community ch idh facts now s =
     (if 10000 \<le> length (eng_erased_community_charges s) + fm_len (eng_community_receipts s) then (Inl Full, s)
      else case propose_each ch idh facts now (community_candidates ch idh s facts now) s of
          Inl e \<Rightarrow> (Inl e, s)
        | Inr (n, next) \<Rightarrow> publish ch n next s)"

section \<open>Task follow-ups\<close>

record follow_up_intent =
  fi_scope :: work_scope
  fi_task :: work_content_ref
  fi_destination :: work_destination
  fi_expires_at :: u64

definition task_follow_up_erased :: "'tz chrono \<Rightarrow> identity_hash \<Rightarrow> engagement_store \<Rightarrow> candidate \<Rightarrow> bool" where
  "task_follow_up_erased ch idh s c \<longleftrightarrow> task_follow_up_valid ch c
     \<and> is_some_and (cand_work_ref c) (\<lambda>task.
         idh (ErTask (origin_work_scope (cand_scope c)) task) |\<in>| eng_erased_identities s
         \<and> erased_candidate_identity idh c |\<in>| eng_erased_identities s)"

definition task_follow_up_attempted ::
  "identity_hash \<Rightarrow> engagement_store \<Rightarrow> work_scope \<Rightarrow> work_content_ref \<Rightarrow> bool" where
  "task_follow_up_attempted idh s scope task =
     (case follow_up_key scope task of
        Inl _ \<Rightarrow> True
      | Inr _ \<Rightarrow> idh (ErTask scope task) |\<in>| eng_erased_identities s
          \<or> fm_any (\<lambda>_ c. cand_work_ref c = Some task \<and> origin_work_scope (cand_scope c) = scope)
              (eng_candidates s))"

definition follow_up_proposal :: "source_ref \<Rightarrow> u64 \<Rightarrow> u64 \<Rightarrow> candidate_proposal" where
  "follow_up_proposal src member due = \<lparr>cp_kind = KindFollowUp, cp_source = Some src,
     cp_member = Some member, cp_scope = src_scope src, cp_due_at = due, cp_introduction_id = None\<rparr>"

definition follow_up_source_attempted ::
  "identity_hash \<Rightarrow> engagement_store \<Rightarrow> source_ref \<Rightarrow> u64 \<Rightarrow> bool" where
  "follow_up_source_attempted idh s src member \<longleftrightarrow>
     proposal_identity idh (follow_up_proposal src member 0) |\<in>| eng_erased_identities s
     \<or> fm_any (\<lambda>_ c. cand_kind c = KindFollowUp \<and> cand_member c = Some member
          \<and> cand_scope c = src_scope src
          \<and> is_some_and (cand_source c) (\<lambda>b. src_message b = src_message src)) (eng_candidates s)"

definition propose_linked_task_follow_up ::
  "'tz chrono \<Rightarrow> identity_hash \<Rightarrow> follow_up_intent \<Rightarrow> source_ref \<Rightarrow> u64 \<Rightarrow> u64 \<Rightarrow> u64
     \<Rightarrow> u64 option eng_op" where
  "propose_linked_task_follow_up ch idh intent src member due now s =
     (if task_follow_up_attempted idh s (fi_scope intent) (fi_task intent)
        \<or> follow_up_source_attempted idh s src member then (Inr None, s)
      else case propose_candidate ch idh (follow_up_proposal src member due) now s of
          (Inl e, _) \<Rightarrow> (Inl e, s)
        | (Inr None, _) \<Rightarrow> (Inr None, s)
        | (Inr (Some i), next) \<Rightarrow>
            (case fmlookup (eng_candidates next) i of
               None \<Rightarrow> (Inl Missing, s)
             | Some c \<Rightarrow>
                 (case follow_up_key (fi_scope intent) (fi_task intent) of
                    Inl e \<Rightarrow> (Inl e, s)
                  | Inr key \<Rightarrow> publish ch (Some i) (set_candidate i
                      (c\<lparr>cand_work_ref := Some (fi_task intent), cand_expires_at := Some (fi_expires_at intent),
                         cand_dedupe_key := key, cand_follow_up_reason := None\<rparr>) next) s)))"

end
