(* ===== verification/Engagement_Erasure.thy ===== *)
theory Engagement_Erasure
  imports Engagement_Community
begin

text \<open>
  Scope-preserving removal of linkable contact records (\<open>src/engagement/erasure.rs\<close>):
  which candidates and introductions a request matches, the replay identities and the
  minimised charges that are kept, the indexes that are cleared, and the pruning of
  protective rows that have become too old to matter. The number returned is the number
  of records removed, which the code counts while it removes them; here it is the
  difference of the counted sizes.
\<close>

definition erases_member :: "u64 option \<Rightarrow> u64 \<Rightarrow> bool" where
  "erases_member member m = is_none_or member (\<lambda>v. v = m)"

definition erases_scope :: "rstr \<Rightarrow> engagement_scope \<Rightarrow> bool" where
  "erases_scope scope s \<longleftrightarrow> learning_scope s = scope"

definition erased_introductions :: "rstr \<Rightarrow> u64 option \<Rightarrow> engagement_store \<Rightarrow> u64 fset" where
  "erased_introductions scope member s = fmdom (fm_retain (\<lambda>_ n. erases_scope scope (intro_scope n)
     \<and> (member = None \<or> list_ex (erases_member member) (members_of (intro_members n))))
     (eng_introductions s))"

fun evidence_names :: "u64 option \<Rightarrow> community_evidence \<Rightarrow> bool" where
  "evidence_names member EvMessage = False"
| "evidence_names member (EvJoin m _) = erases_member member m"
| "evidence_names member (EvProject _ _ actor audience _) =
     (erases_member member actor \<or> fBex audience (erases_member member))"

definition erases_candidate :: "rstr \<Rightarrow> u64 option \<Rightarrow> engagement_store \<Rightarrow> candidate \<Rightarrow> bool" where
  "erases_candidate scope member s c \<longleftrightarrow> erases_scope scope (cand_scope c)
     \<and> (member = None \<or> is_some_and (cand_member c) (erases_member member)
        \<or> is_some_and (cand_source c) (\<lambda>src. erases_member member (src_author src))
        \<or> is_some_and (fmlookup (eng_community_receipts s) (cand_id c))
            (\<lambda>r. evidence_names member (cr_evidence r))
        \<or> is_some_and (cand_introduction_id c) (\<lambda>i. i |\<in>| erased_introductions scope member s))"

definition erased_candidates :: "rstr \<Rightarrow> u64 option \<Rightarrow> engagement_store \<Rightarrow> u64 fset" where
  "erased_candidates scope member s =
     fmdom (fm_retain (\<lambda>_. erases_candidate scope member s) (eng_candidates s))"

section \<open>Replay identities\<close>

definition candidate_replay_ids :: "identity_hash \<Rightarrow> engagement_store \<Rightarrow> u64 \<Rightarrow> rstr fset" where
  "candidate_replay_ids idh s i =
     (case fmlookup (eng_candidates s) i of
        None \<Rightarrow> {||}
      | Some c \<Rightarrow>
          (case cand_work_ref c of
             None \<Rightarrow> {||} | Some task \<Rightarrow> {|idh (ErTask (origin_work_scope (cand_scope c)) task)|})
          |\<union>| (if cand_kind c \<noteq> KindIntroduction \<and> \<not> invitation_kind (cand_kind c)
                \<and> feature_of (cand_kind c) = None then {|erased_candidate_identity idh c|} else {||})
          |\<union>| (case fmlookup (eng_community_receipts s) i of
                None \<Rightarrow> {||}
              | Some r \<Rightarrow> {|community_identity idh (cand_scope c) (cand_kind c) (cr_evidence r) (cand_source c)|})
          |\<union>| (case fmlookup (eng_invitation_requests s) i of
                None \<Rightarrow> {||} | Some r \<Rightarrow> {|idh (ErInvitation (inv_interaction r))|}))"

definition erases_request :: "rstr \<Rightarrow> u64 option \<Rightarrow> invitation_request \<Rightarrow> bool" where
  "erases_request scope member r \<longleftrightarrow> erases_scope scope (inv_scope r) \<and> erases_member member (inv_member r)"

definition erases_suppressed ::
  "rstr \<Rightarrow> u64 option \<Rightarrow> engagement_store \<Rightarrow> suppressed_invitation_request \<Rightarrow> bool" where
  "erases_suppressed scope member s q \<longleftrightarrow> sup_blocking_candidate q |\<in>| erased_candidates scope member s
     \<or> erases_request scope member (sup_request q)"

definition erased_identities_after ::
  "identity_hash \<Rightarrow> rstr \<Rightarrow> u64 option \<Rightarrow> engagement_store \<Rightarrow> rstr fset" where
  "erased_identities_after idh scope member s =
     eng_erased_identities s
     |\<union>| fset_of_list (List.map_filter (\<lambda>i. map_option
          (\<lambda>n. introduction_identity idh (intro_scope n) (intro_members n)) (fmlookup (eng_introductions s) i))
          (sorted_list_of_fset (erased_introductions scope member s)))
     |\<union>| ffUnion (candidate_replay_ids idh s |`| erased_candidates scope member s)
     |\<union>| fset_of_list (map (\<lambda>q. idh (ErInvitation (inv_interaction (sup_request q))))
          (filter (erases_suppressed scope member s) (fm_values (eng_suppressed_invitations s))))"

section \<open>Indexes\<close>

definition observations_after ::
  "rstr \<Rightarrow> u64 option \<Rightarrow> engagement_store \<Rightarrow> (engagement_scope, (u64, source_ref) fmap) fmap" where
  "observations_after scope member s = fm_retain (\<lambda>_ rows. rows \<noteq> fmempty)
     (fmmap_keys (\<lambda>where_at rows. if erases_scope scope where_at
        then fm_retain (\<lambda>m _. \<not> erases_member member m) rows else rows) (eng_observations s))"

definition eligibility_after ::
  "rstr \<Rightarrow> u64 option \<Rightarrow> engagement_store \<Rightarrow> (u64, source_ref fset) fmap" where
  "eligibility_after scope member s = fm_retain (\<lambda>_ sources. sources \<noteq> {||})
     (fmmap_keys (\<lambda>m sources. if erases_member member m
        then ffilter (\<lambda>src. \<not> erases_scope scope (src_scope src)) sources else sources) (eng_eligibility s))"

definition erased_messages :: "rstr \<Rightarrow> u64 option \<Rightarrow> engagement_store \<Rightarrow> u64 \<Rightarrow> bool" where
  "erased_messages scope member s message \<longleftrightarrow>
     fm_any (\<lambda>where_at rows. erases_scope scope where_at
       \<and> fm_any (\<lambda>m src. erases_member member m \<and> src_message src = message) rows) (eng_observations s)
     \<or> fm_any (\<lambda>m sources. erases_member member m
       \<and> fBex sources (\<lambda>src. erases_scope scope (src_scope src) \<and> src_message src = message)) (eng_eligibility s)
     \<or> fm_any (\<lambda>_ c. cand_id c |\<in>| erased_candidates scope member s
       \<and> is_some_and (cand_source c) (\<lambda>src. src_message src = message)) (eng_candidates s)"

definition feedback_after ::
  "rstr \<Rightarrow> u64 option \<Rightarrow> engagement_store \<Rightarrow> (u64, (u64, explicit_feedback) fmap) fmap" where
  "feedback_after scope member s = fm_retain (\<lambda>_ rows. rows \<noteq> fmempty)
     (fmmap_keys (\<lambda>i rows.
        if i |\<in>| erased_candidates scope member s then fmempty
        else if is_some_and (fmlookup (eng_candidates s) i) (\<lambda>c. erases_scope scope (cand_scope c))
        then fm_retain (\<lambda>m _. \<not> erases_member member m) rows else rows) (eng_feedback s))"

definition scoped_out :: "rstr \<Rightarrow> member_policy \<Rightarrow> member_policy" where
  "scoped_out scope p = p\<lparr>
     mp_destinations := fm_retain (\<lambda>s _. \<not> erases_scope scope s) (mp_destinations p),
     mp_weekly_subscription := (if is_some_and (mp_weekly_subscription p)
       (\<lambda>w. erases_scope scope (weekly_scope w)) then None else mp_weekly_subscription p)\<rparr>"

definition policies_after ::
  "rstr \<Rightarrow> u64 option \<Rightarrow> engagement_store \<Rightarrow> (u64, member_policy) fmap" where
  "policies_after scope member s =
     fmmap_keys (\<lambda>m p. if erases_member member m then scoped_out scope p else p) (eng_member_policies s)"

definition assessments_after :: "rstr \<Rightarrow> u64 option \<Rightarrow> engagement_store \<Rightarrow> (u64, u64) fmap" where
  "assessments_after scope member s = fm_retain (\<lambda>m _. \<not> (erases_member member m
     \<and> is_some_and (fmlookup (eng_member_policies s) m) (\<lambda>p. is_some_and (mp_weekly_subscription p)
          (\<lambda>w. erases_scope scope (weekly_scope w))))) (eng_weekly_assessments s)"

section \<open>Protective rows\<close>

definition minimised_charge :: "contact_charge \<Rightarrow> erased_contact_charge" where
  "minimised_charge c = \<lparr>ecc_member = charge_member c, ecc_local_day = charge_local_day c,
     ecc_local_week = charge_local_week c, ecc_at = charge_at c\<rparr>"

definition minimised_receipt ::
  "identity_hash \<Rightarrow> engagement_store \<Rightarrow> u64 \<Rightarrow> erased_community_charge option" where
  "minimised_receipt idh s i =
     (case (fmlookup (eng_community_receipts s) i, fmlookup (eng_candidates s) i) of
        (Some r, Some c) \<Rightarrow> map_option (\<lambda>at. \<lparr>ecm_project = map_option (\<lambda>home. idh (ErProject home))
            (evidence_project (cr_evidence r)), ecm_scope = cand_scope c, ecm_kind = cand_kind c, ecm_at = at\<rparr>)
          (cr_attempted_at r)
      | _ \<Rightarrow> None)"

definition erasure_size :: "engagement_store \<Rightarrow> nat" where
  "erasure_size s =
     sum_list (map fm_len (fm_values (eng_observations s)))
     + sum_list (map fcard (fm_values (eng_eligibility s)))
     + fm_len (eng_responses s) + fm_len (eng_candidates s) + fm_len (eng_introductions s)
     + length (eng_charges s) + fm_len (eng_community_receipts s) + fm_len (eng_invitation_requests s)
     + fm_len (eng_suppressed_invitations s) + sum_list (map fm_len (fm_values (eng_feedback s)))
     + (if eng_community_cursor s = None then 0 else 1)
     + sum_list (map (\<lambda>p. fm_len (mp_destinations p)
         + (if mp_weekly_subscription p = None then 0 else 1)) (fm_values (eng_member_policies s)))
     + fm_len (eng_weekly_assessments s)"

definition erased_store ::
  "identity_hash \<Rightarrow> rstr \<Rightarrow> u64 option \<Rightarrow> engagement_store \<Rightarrow> engagement_store" where
  "erased_store idh scope member s =
     (let gone = erased_candidates scope member s in
      s\<lparr>eng_erased_identities := erased_identities_after idh scope member s,
        eng_observations := observations_after scope member s,
        eng_eligibility := eligibility_after scope member s,
        eng_responses := fm_retain (\<lambda>m _. \<not> erased_messages scope member s m) (eng_responses s),
        eng_erased_contact_charges := eng_erased_contact_charges s
          @ map minimised_charge (filter (\<lambda>c. charge_candidate c |\<in>| gone) (eng_charges s)),
        eng_erased_community_charges := eng_erased_community_charges s
          @ List.map_filter (minimised_receipt idh s)
              (filter (\<lambda>i. i |\<in>| gone) (fm_keys (eng_community_receipts s))),
        eng_candidates := fm_retain (\<lambda>i _. i |\<notin>| gone) (eng_candidates s),
        eng_introductions := fm_retain (\<lambda>i _. i |\<notin>| erased_introductions scope member s) (eng_introductions s),
        eng_charges := filter (\<lambda>c. charge_candidate c |\<notin>| gone) (eng_charges s),
        eng_community_receipts := fm_retain (\<lambda>i _. i |\<notin>| gone) (eng_community_receipts s),
        eng_invitation_requests := fm_retain (\<lambda>_ r. \<not> erases_request scope member r) (eng_invitation_requests s),
        eng_suppressed_invitations :=
          fm_retain (\<lambda>_ q. \<not> erases_suppressed scope member s q) (eng_suppressed_invitations s),
        eng_feedback := feedback_after scope member s,
        eng_community_cursor := (if is_some_and (eng_community_cursor s) (\<lambda>src.
            erases_scope scope (src_scope src) \<and> erases_member member (src_author src))
          then None else eng_community_cursor s),
        eng_member_policies := policies_after scope member s,
        eng_weekly_assessments := assessments_after scope member s\<rparr>)"

definition erase_learning :: "identity_hash \<Rightarrow> rstr \<Rightarrow> u64 option \<Rightarrow> nat eng_op" where
  "erase_learning idh scope member s =
     (if 10000 < fcard (erased_identities_after idh scope member s) then (Inl Full, s)
      else let t = erased_store idh scope member s in (Inr (erasure_size s - erasure_size t), t))"

section \<open>Pruning\<close>

definition label_since :: "'tz chrono \<Rightarrow> rstr \<Rightarrow> int \<Rightarrow> bool" where
  "label_since ch label day = is_some_and (ch_parse_date ch label) (\<lambda>d. day \<le> d)"

definition protective :: "'tz chrono \<Rightarrow> u64 \<Rightarrow> int \<Rightarrow> int \<Rightarrow> erased_contact_charge \<Rightarrow> bool" where
  "protective ch now day week c \<longleftrightarrow> saturating_sub now (ecc_at c) \<le> 9 * day_seconds
     \<or> label_since ch (ecc_local_day c) day \<or> label_since ch (ecc_local_week c) week"

definition prune_erasure_safety :: "'tz chrono \<Rightarrow> u64 \<Rightarrow> engagement_store \<Rightarrow> engagement_store" where
  "prune_erasure_safety ch now s =
     (case utc ch (saturating_sub now (2 * day_seconds)) of
        Inl _ \<Rightarrow> s
      | Inr earliest \<Rightarrow>
          let day = ch_utc_date ch earliest in
          (case ch_add_days ch day (- int (ch_weekday ch day)) of
             None \<Rightarrow> s
           | Some week \<Rightarrow>
               let contacts = filter (protective ch now day week) (eng_erased_contact_charges s);
                   publics = filter (\<lambda>c. saturating_sub now (ecm_at c) \<le> week_seconds)
                     (eng_erased_community_charges s);
                   before = length (eng_erased_contact_charges s) + length (eng_erased_community_charges s)
               in s\<lparr>eng_erased_contact_charges := contacts, eng_erased_community_charges := publics,
                    eng_safety_pruned_through := (if length contacts + length publics < before
                      then max (eng_safety_pruned_through s) now else eng_safety_pruned_through s)\<rparr>))"

end
