(* ===== verification/Engagement_Controls.thy ===== *)
theory Engagement_Controls
  imports Engagement_Erasure
begin

text \<open>
  What members and the gateway change in the contact store: the explicit settings of
  \<open>src/commands_engage/controls.rs\<close> and \<open>src/commands_engage.rs\<close>, and the source metadata,
  completed exchanges and assessments of \<open>src/runtime/engagement_candidates.rs\<close>.
\<close>

section \<open>Settings\<close>

datatype stop_scope = StopGlobal | StopServer | StopConversation

definition blocked_scope :: "member_policy \<Rightarrow> engagement_scope \<Rightarrow> bool" where
  "blocked_scope p scope \<longleftrightarrow> mp_global_stop p \<or> stopped_in p scope"

definition set_stop ::
  "engagement_scope \<Rightarrow> stop_scope \<Rightarrow> bool \<Rightarrow> member_policy \<Rightarrow> work_error + member_policy" where
  "set_stop origin scope stop p =
     (case scope of
        StopGlobal \<Rightarrow> Inr (p\<lparr>mp_global_stop := stop\<rparr>)
      | StopServer \<Rightarrow>
          (case origin of
             EngDm _ _ \<Rightarrow> Inl Invalid
           | EngGuild guild _ \<Rightarrow> Inr (p\<lparr>mp_stopped_guilds := (if stop
               then finsert guild (mp_stopped_guilds p) else mp_stopped_guilds p |-| {|guild|})\<rparr>))
      | StopConversation \<Rightarrow> Inr (p\<lparr>mp_stopped_scopes := (if stop
          then finsert origin (mp_stopped_scopes p) else mp_stopped_scopes p |-| {|origin|})\<rparr>))"

definition policy_of :: "engagement_store \<Rightarrow> u64 \<Rightarrow> member_policy" where
  "policy_of s actor =
     (case fmlookup (eng_member_policies s) actor of None \<Rightarrow> default_member_policy | Some p \<Rightarrow> p)"

definition save_policy :: "'tz chrono \<Rightarrow> u64 \<Rightarrow> member_policy \<Rightarrow> unit eng_op" where
  "save_policy ch actor p s =
     (if actor = 0 \<or> fmlookup (eng_member_policies s) actor = None \<and> 10000 \<le> fm_len (eng_member_policies s)
      then (Inl Invalid, s)
      else if \<not> member_policy_valid ch p then (Inl Invalid, s)
      else case checked_add (mp_revision p) 1 of
          None \<Rightarrow> (Inl Invalid, s)
        | Some revision \<Rightarrow> (Inr (), s\<lparr>eng_member_policies :=
            fmupd actor (p\<lparr>mp_revision := revision\<rparr>) (eng_member_policies s)\<rparr>))"

record contact_settings =
  set_daily :: u8
  set_timezone :: rstr
  set_weekly_limit :: "u8 option"
  set_quiet_start :: "u8 option"
  set_quiet_end :: "u8 option"
  set_destination :: "destination_preference option"

definition or_else :: "'a option \<Rightarrow> 'a \<Rightarrow> 'a" where
  "or_else x d = (case x of None \<Rightarrow> d | Some v \<Rightarrow> v)"

definition or_option :: "'a option \<Rightarrow> 'a option \<Rightarrow> 'a option" where
  "or_option x y = (case x of None \<Rightarrow> y | Some _ \<Rightarrow> x)"

definition configure ::
  "'tz chrono \<Rightarrow> u64 \<Rightarrow> engagement_scope \<Rightarrow> contact_settings \<Rightarrow> unit eng_op" where
  "configure ch actor origin c s =
     (let p = policy_of s actor in
      save_policy ch actor (p\<lparr>mp_daily_limit := Some (set_daily c), mp_timezone := Some (set_timezone c),
        mp_weekly_limit := set_weekly_limit c, mp_quiet_start := or_else (set_quiet_start c) (mp_quiet_start p),
        mp_quiet_end := or_else (set_quiet_end c) (mp_quiet_end p),
        mp_destinations := (case set_destination c of
          None \<Rightarrow> mp_destinations p | Some d \<Rightarrow> fmupd origin d (mp_destinations p))\<rparr>) s)"

definition set_weekly ::
  "engagement_scope \<Rightarrow> bool \<Rightarrow> u8 option \<Rightarrow> u8 option \<Rightarrow> member_policy \<Rightarrow> work_error + member_policy" where
  "set_weekly origin enabled weekday hour p =
     (if \<not> enabled then Inr (p\<lparr>mp_weekly_subscription := None\<rparr>)
      else rbind (ok_or weekday Invalid) (\<lambda>d. rbind (ok_or hour Invalid) (\<lambda>h.
        if 6 < d \<or> 23 < h then Inl Invalid
        else Inr (p\<lparr>mp_weekly_subscription := Some \<lparr>weekly_weekday = d, weekly_hour = h,
          weekly_scope = origin, weekly_destination = preferred_origin (Some p) origin\<rparr>\<rparr>))))"

definition set_snooze :: "u64 \<Rightarrow> u64 \<Rightarrow> member_policy \<Rightarrow> work_error + member_policy" where
  "set_snooze until now p =
     (if until \<le> now \<or> saturating_add now (366 * 86400) < until then Inl Invalid
      else Inr (p\<lparr>mp_snoozed_until := Some until\<rparr>))"

definition update_policy ::
  "'tz chrono \<Rightarrow> u64 \<Rightarrow> (member_policy \<Rightarrow> work_error + member_policy) \<Rightarrow> unit eng_op" where
  "update_policy ch actor change s =
     (case change (policy_of s actor) of Inl e \<Rightarrow> (Inl e, s) | Inr p \<Rightarrow> save_policy ch actor p s)"

definition default_features :: guild_feature_policy where
  "default_features = \<lparr>gf_revision = 0, gf_enabled = {||}, gf_channels = fmempty\<rparr>"

definition set_community ::
  "u64 \<Rightarrow> bool \<Rightarrow> community_feature \<Rightarrow> bool \<Rightarrow> u64 option \<Rightarrow> unit eng_op" where
  "set_community guild manager feature enabled channel s =
     (if \<not> manager \<or> guild = 0 then (Inl Invalid, s)
      else if enabled \<and> is_none_or channel (\<lambda>c. c = 0) then (Inl Invalid, s)
      else if fmlookup (eng_guild_features s) guild = None \<and> 10000 \<le> fm_len (eng_guild_features s)
      then (Inl Invalid, s)
      else
        let p = or_else (fmlookup (eng_guild_features s) guild) default_features in
        (case checked_add (gf_revision p) 1 of
           None \<Rightarrow> (Inl Invalid, s)
         | Some revision \<Rightarrow>
             let q = (case (enabled, channel) of
                 (True, Some c) \<Rightarrow> p\<lparr>gf_revision := revision, gf_enabled := finsert feature (gf_enabled p),
                   gf_channels := fmupd feature {|c|} (gf_channels p)\<rparr>
               | _ \<Rightarrow> p\<lparr>gf_revision := revision, gf_enabled := gf_enabled p |-| {|feature|},
                   gf_channels := fmdrop feature (gf_channels p)\<rparr>)
             in (Inr (), s\<lparr>eng_guild_features := fmupd guild q (eng_guild_features s)\<rparr>)))"

section \<open>Candidate controls\<close>

definition dismiss :: "u64 \<Rightarrow> u64 \<Rightarrow> unit eng_op" where
  "dismiss actor i s =
     (case fmlookup (eng_candidates s) i of
        None \<Rightarrow> (Inl Invalid, s)
      | Some c \<Rightarrow>
          if cand_member c \<noteq> Some actor \<or> \<not> open_state (cand_state c) then (Inl Invalid, s)
          else (case checked_add (cand_revision c) 1 of
              None \<Rightarrow> (Inl Invalid, s)
            | Some revision \<Rightarrow> (Inr (), set_candidate i
                (c\<lparr>cand_state := CandCancelled, cand_revision := revision\<rparr>) s)))"

definition give_feedback :: "u64 \<Rightarrow> u64 \<Rightarrow> feedback_kind \<Rightarrow> u64 \<Rightarrow> unit eng_op" where
  "give_feedback actor i kind at_time s =
     (case fmlookup (eng_candidates s) i of
        None \<Rightarrow> (Inl Invalid, s)
      | Some c \<Rightarrow>
          let rows = or_else (fmlookup (eng_feedback s) i) fmempty in
          if actor = 0 \<or> \<not> (cand_member c = Some actor \<or> introduction_names s c actor)
            \<or> cand_state c \<noteq> CandSent \<or> fmlookup rows actor \<noteq> None
          then (Inl Invalid, s)
          else (Inr (), s\<lparr>eng_feedback := fmupd i
            (fmupd actor \<lparr>fb_actor = actor, fb_at = at_time, fb_kind = kind\<rparr> rows) (eng_feedback s)\<rparr>))"

definition stop_matches :: "engagement_scope \<Rightarrow> stop_scope \<Rightarrow> engagement_scope \<Rightarrow> bool" where
  "stop_matches origin scope candidate_scope =
     (case scope of
        StopGlobal \<Rightarrow> True
      | StopConversation \<Rightarrow> candidate_scope = origin
      | StopServer \<Rightarrow> same_guild origin candidate_scope)"

definition stopped_introductions ::
  "u64 \<Rightarrow> engagement_scope \<Rightarrow> stop_scope \<Rightarrow> engagement_store \<Rightarrow> u64 fset" where
  "stopped_introductions actor origin scope s = fmdom (fm_retain (\<lambda>i n.
     actor \<in> set (members_of (intro_members n)) \<and> stop_matches origin scope (intro_scope n)
     \<and> intro_state n \<noteq> IntroCancelled
     \<and> fm_any (\<lambda>_ c. cand_introduction_id c = Some i \<and> open_state (cand_state c)) (eng_candidates s))
     (eng_introductions s))"

definition stop_hits :: "u64 \<Rightarrow> engagement_scope \<Rightarrow> stop_scope \<Rightarrow> u64 fset \<Rightarrow> candidate \<Rightarrow> bool" where
  "stop_hits actor origin scope intros c \<longleftrightarrow> open_state (cand_state c)
     \<and> stop_matches origin scope (cand_scope c)
     \<and> (cand_member c = Some actor \<or> is_some_and (cand_introduction_id c) (\<lambda>i. i |\<in>| intros))"

definition stopped_candidate :: "candidate \<Rightarrow> candidate" where
  "stopped_candidate c = c\<lparr>cand_revision := Suc (cand_revision c), cand_state := CandCancelled,
     cand_follow_up_reason := (if cand_work_ref c \<noteq> None \<and> cand_follow_up_reason c = None
       then Some FuOptedOut else cand_follow_up_reason c)\<rparr>"

definition stopped_introduction :: "introduction \<Rightarrow> introduction" where
  "stopped_introduction n = n\<lparr>intro_revision := Suc (intro_revision n), intro_state := IntroCancelled,
     intro_approvals := (None, None)\<rparr>"

text \<open>Revisions at their bound make the whole stop fail before anything is published.\<close>

definition stop_store ::
  "'tz chrono \<Rightarrow> u64 \<Rightarrow> engagement_scope \<Rightarrow> stop_scope \<Rightarrow> unit eng_op" where
  "stop_store ch actor origin scope s =
     (case set_stop origin scope True (policy_of s actor) of
        Inl e \<Rightarrow> (Inl e, s)
      | Inr policy \<Rightarrow>
          (case save_policy ch actor policy s of
             (Inl e, _) \<Rightarrow> (Inl e, s)
           | (Inr _, next) \<Rightarrow>
               let intros = stopped_introductions actor origin scope next;
                   hit = stop_hits actor origin scope intros in
               if fm_any (\<lambda>_ c. hit c \<and> u64_max \<le> cand_revision c) (eng_candidates next)
                 \<or> fm_any (\<lambda>i n. i |\<in>| intros \<and> u64_max \<le> intro_revision n) (eng_introductions next)
               then (Inl Invalid, s)
               else publish ch () (next\<lparr>
                 eng_candidates := fmmap (\<lambda>c. if hit c then stopped_candidate c else c) (eng_candidates next),
                 eng_introductions := fmmap_keys (\<lambda>i n. if i |\<in>| intros then stopped_introduction n else n)
                   (eng_introductions next)\<rparr>) s))"

section \<open>Source metadata\<close>

fun scope_channel :: "engagement_scope \<Rightarrow> u64" where
  "scope_channel (EngGuild _ channel) = channel"
| "scope_channel (EngDm _ channel) = channel"

definition observed :: "engagement_store \<Rightarrow> engagement_scope \<Rightarrow> u64 \<Rightarrow> source_ref option" where
  "observed s scope author =
     (case fmlookup (eng_observations s) scope of None \<Rightarrow> None | Some rows \<Rightarrow> fmlookup rows author)"

definition current_source :: "engagement_store \<Rightarrow> source_ref \<Rightarrow> bool" where
  "current_source s src \<longleftrightarrow> observed s (src_scope src) (src_author src) = Some src"

definition contact_enabled :: "'tz chrono \<Rightarrow> engagement_store \<Rightarrow> u64 \<Rightarrow> engagement_scope \<Rightarrow> bool" where
  "contact_enabled ch s member scope = is_some_and (fmlookup (eng_member_policies s) member)
     (\<lambda>p. personalized_enabled ch p \<and> \<not> stopped_in p scope)"

definition observe_engagement :: "source_ref \<Rightarrow> bool eng_op" where
  "observe_engagement src s =
     (if \<not> source_valid src then (Inl Invalid, s)
      else if is_some_and (observed s (src_scope src) (src_author src)) (\<lambda>old. src_message src \<le> src_message old)
      then (Inr False, s)
      else
        let after = saturating_add (src_at src) 1;
            t = snd (cancel_member_origin (src_author src) (src_scope src) after
                  (snd (cancel_public_origin (src_scope src) after s)));
            rows = or_else (fmlookup (eng_observations t) (src_scope src)) fmempty in
        if fmlookup rows (src_author src) = None
          \<and> 10000 \<le> sum_list (map fm_len (fm_values (eng_observations t)))
        then (Inr False, t)
        else (Inr True, t\<lparr>eng_observations :=
          fmupd (src_scope src) (fmupd (src_author src) src rows) (eng_observations t)\<rparr>))"

text \<open>Everything linked to a deleted message or to a deleted reply is invalidated.\<close>

definition affected_messages :: "engagement_store \<Rightarrow> u64 \<Rightarrow> u64 fset" where
  "affected_messages s message =
     finsert message (fmdom (fm_retain (\<lambda>src response. src = message \<or> response = message) (eng_responses s)))"

definition touched :: "u64 \<Rightarrow> u64 fset \<Rightarrow> source_ref \<Rightarrow> bool" where
  "touched channel affected src \<longleftrightarrow> scope_channel (src_scope src) = channel \<and> src_message src |\<in>| affected"

definition revised_rows ::
  "u64 \<Rightarrow> u64 fset \<Rightarrow> engagement_scope \<Rightarrow> (u64, source_ref) fmap \<Rightarrow> (u64, source_ref) fmap" where
  "revised_rows channel affected scope = fmmap (\<lambda>src.
     if scope_channel scope = channel \<and> src_message src |\<in>| affected
     then src\<lparr>src_revision := Suc (src_revision src)\<rparr> else src)"

definition withdrawn_sources :: "u64 \<Rightarrow> u64 fset \<Rightarrow> engagement_store \<Rightarrow> (engagement_scope \<times> u64) list" where
  "withdrawn_sources channel affected s =
     concat (map (\<lambda>src. map (Pair (src_scope src)) (sorted_list_of_fset affected))
       (filter (touched channel affected) (List.map_filter cand_source (fm_values (eng_candidates s)))))"

definition cancel_sources :: "(engagement_scope \<times> u64) list \<Rightarrow> engagement_store \<Rightarrow> engagement_store" where
  "cancel_sources = fold (\<lambda>(scope, message) s. snd (cancel_source scope message s))"

definition delete_engagement_source :: "u64 \<Rightarrow> u64 \<Rightarrow> unit eng_op" where
  "delete_engagement_source channel message s =
     (let affected = affected_messages s message in
      if fm_any (\<lambda>scope rows. scope_channel scope = channel
          \<and> fm_any (\<lambda>_ src. src_message src |\<in>| affected \<and> u64_max \<le> src_revision src) rows) (eng_observations s)
      then (Inl Full, s)
      else (Inr (), cancel_sources (withdrawn_sources channel affected s) (s\<lparr>
        eng_responses := fm_retain (\<lambda>src response. src |\<notin>| affected \<and> response \<noteq> message) (eng_responses s),
        eng_observations := fmmap_keys (revised_rows channel affected) (eng_observations s),
        eng_eligibility := fmmap (ffilter (\<lambda>src. \<not> touched channel affected src)) (eng_eligibility s)\<rparr>)))"

text \<open>
  A completed exchange makes its source eligible; per scope only the four newest sources
  of a member are kept. The code sorts by time and message and drops from the front: a
  source is dropped when at least four of its scope are newer.
\<close>

definition source_age :: "source_ref \<Rightarrow> u64 \<times> u64 \<times> u64 \<times> u64" where
  "source_age src = (src_at src, src_message src, src_author src, src_revision src)"

definition outdated_sources :: "source_ref fset \<Rightarrow> engagement_scope \<Rightarrow> source_ref fset" where
  "outdated_sources sources scope =
     (let same = ffilter (\<lambda>src. src_scope src = scope) sources in
      ffilter (\<lambda>src. 4 \<le> fcard (ffilter (\<lambda>newer. source_age src < source_age newer) same)) same)"

definition complete_engagement :: "'tz chrono \<Rightarrow> source_ref \<Rightarrow> u64 \<Rightarrow> unit eng_op" where
  "complete_engagement ch src response s =
     (if \<not> current_source s src then (Inl Stale, s)
      else if fmlookup (eng_responses s) (src_message src) \<noteq> None then (Inl Stale, s)
      else
        let sources = finsert src (or_else (fmlookup (eng_eligibility s) (src_author src)) {||});
            old = outdated_sources sources (src_scope src) in
        publish ch () (s\<lparr>eng_eligibility := fmupd (src_author src) (sources |-| old) (eng_eligibility s),
          eng_responses := fm_retain (\<lambda>m _. \<not> fBex old (\<lambda>dropped. src_message dropped = m))
            (fmupd (src_message src) response (eng_responses s))\<rparr>) s)"

section \<open>Assessments\<close>

datatype conversation_outcome = Resolved | Unresolved | Unclear

definition newest_source :: "source_ref fset \<Rightarrow> source_ref \<Rightarrow> bool" where
  "newest_source sources src \<longleftrightarrow> src |\<in>| sources \<and> fBall sources (\<lambda>other. source_age other \<le> source_age src)"

text \<open>
  The classifier's answer (third-party: its parsed outcome and the messages it cites are
  arguments) is applied only when settings and sources are still those it was asked about.
  \<open>weekly\<close> is the due time of a weekly check-in, \<open>reduced\<close> the learned wish for fewer
  follow-ups.
\<close>

definition assessment_stale ::
  "'tz chrono \<Rightarrow> engagement_store \<Rightarrow> engagement_scope \<Rightarrow> u64 \<Rightarrow> u64 \<Rightarrow> source_ref list \<Rightarrow> bool" where
  "assessment_stale ch s scope member revision sources \<longleftrightarrow>
     is_none_or (fmlookup (eng_member_policies s) member) (\<lambda>p. mp_revision p \<noteq> revision)
     \<or> \<not> contact_enabled ch s member scope
     \<or> sources = [] \<or> \<not> current_source s (last sources)
     \<or> list_ex (\<lambda>src. is_none_or (fmlookup (eng_eligibility s) member) (\<lambda>rows. src |\<notin>| rows)) sources"

definition assessment_due :: "u64 option \<Rightarrow> source_ref \<Rightarrow> work_error + u64" where
  "assessment_due weekly src =
     rbind (ok_or (checked_add (src_at src) 86400) Invalid) (\<lambda>due. Inr (or_else weekly due))"

definition subscribed_in :: "engagement_store \<Rightarrow> u64 \<Rightarrow> engagement_scope \<Rightarrow> bool" where
  "subscribed_in s member scope = is_some_and (fmlookup (eng_member_policies s) member)
     (\<lambda>p. is_some_and (mp_weekly_subscription p) (\<lambda>w. weekly_scope w = scope))"

definition apply_assessment ::
  "'tz chrono \<Rightarrow> identity_hash \<Rightarrow> engagement_scope \<Rightarrow> u64 \<Rightarrow> u64 \<Rightarrow> source_ref list \<Rightarrow> u64 option \<Rightarrow> bool
     \<Rightarrow> conversation_outcome \<Rightarrow> u64 list \<Rightarrow> u64 \<Rightarrow> unit eng_op" where
  "apply_assessment ch idh scope member revision sources weekly reduced outcome cited now s =
     (if weekly = None \<and> reduced \<or> assessment_stale ch s scope member revision sources then (Inl Stale, s)
      else if outcome = Resolved
      then (Inr (), snd (cancel_member_origin member scope (saturating_add (src_at (last sources)) 1) s))
      else if outcome \<noteq> Unresolved then (Inr (), s)
      else case max_by_key (\<lambda>src. (src_at src, src_message src))
          (filter (\<lambda>src. src_message src \<in> set cited) sources) of
        None \<Rightarrow> (Inl Invalid, s)
      | Some src \<Rightarrow>
          if src \<noteq> last sources then (Inr (), s)
          else (case assessment_due weekly src of
              Inl e \<Rightarrow> (Inl e, s)
            | Inr due \<Rightarrow>
                if weekly \<noteq> None \<and> \<not> subscribed_in s member scope then (Inl Stale, s)
                else (case propose_candidate ch idh \<lparr>cp_kind = (if weekly = None then KindFollowUp
                      else KindWeeklyCheckIn), cp_source = Some src, cp_member = Some member,
                    cp_scope = scope, cp_due_at = due, cp_introduction_id = None\<rparr> now s of
                  (Inl e, _) \<Rightarrow> (Inl e, s)
                | (Inr _, t) \<Rightarrow> (Inr (), t))))"

definition mark_weekly ::
  "'tz chrono \<Rightarrow> u64 \<Rightarrow> weekly_subscription \<Rightarrow> source_ref fset \<Rightarrow> u64 \<Rightarrow> unit eng_op" where
  "mark_weekly ch member w sources due s =
     (let scope = weekly_scope w;
          rows = or_else (fmlookup (eng_eligibility s) member) {||} in
      if \<not> contact_enabled ch s member scope
        \<or> is_none_or (fmlookup (eng_member_policies s) member) (\<lambda>p. mp_weekly_subscription p \<noteq> Some w)
        \<or> ffilter (\<lambda>src. src_scope src = scope) rows \<noteq> sources
        \<or> \<not> fBex sources (\<lambda>src. newest_source sources src \<and> current_source s src)
        \<or> is_some_and (fmlookup (eng_weekly_assessments s) member) (\<lambda>old. due \<le> old)
      then (Inl Stale, s)
      else publish ch () (s\<lparr>eng_weekly_assessments := fmupd member due (eng_weekly_assessments s)\<rparr>) s)"

definition advance_community_cursor :: "'tz chrono \<Rightarrow> source_ref \<Rightarrow> unit eng_op" where
  "advance_community_cursor ch src s = publish ch () (s\<lparr>eng_community_cursor := Some src\<rparr>) s"

section \<open>Attempts\<close>

text \<open>
  A pending candidate whose delivery is refused before it is reserved, and the end of an
  attempt (\<open>src/runtime/engagement_delivery.rs\<close> with \<open>plan.rs\<close> and \<open>task.rs\<close>). The plan is
  the caller's: a task plan brings the failure reason it noted, an introduction plan the
  introduction it holds. \<open>invalid\<close> is what the check of the stored candidate against the
  projects answers (\<open>invalidated\<close> in \<open>task.rs\<close>); it takes precedence over a noted reason.
\<close>

datatype delivery_plan =
  PlanTask work_content_ref "follow_up_decision option" | PlanIntroduction u64 | PlanOther

definition reject_pending :: "u64 \<Rightarrow> u64 \<Rightarrow> delivery_plan \<Rightarrow> unit eng_op" where
  "reject_pending i revision plan s =
     (case fmlookup (eng_candidates s) i of
        None \<Rightarrow> (Inl Missing, s)
      | Some c \<Rightarrow>
          if cand_state c \<noteq> CandPending \<or> cand_revision c \<noteq> revision then (Inr (), s)
          else (case plan of
              PlanTask _ reason \<Rightarrow> (Inr (), set_candidate i (c\<lparr>cand_state := CandRejected,
                cand_follow_up_reason := Some (or_else reason FuAccessDenied)\<rparr>) s)
            | PlanOther \<Rightarrow> (Inr (), set_candidate i (c\<lparr>cand_state := CandRejected\<rparr>) s)
            | PlanIntroduction m \<Rightarrow>
                (case fmlookup (eng_introductions s) m of
                   None \<Rightarrow> (Inl Missing, s)
                 | Some n \<Rightarrow> (Inr (), set_candidate i (c\<lparr>cand_state := CandRejected\<rparr>) (s\<lparr>eng_introductions :=
                     fmupd m (n\<lparr>intro_state := IntroCancelled, intro_approvals := (None, None)\<rparr>)
                       (eng_introductions s)\<rparr>)))))"

fun refused_outcome :: "delivery_outcome \<Rightarrow> bool" where
  "refused_outcome OutRejected = True"
| "refused_outcome OutCancelled = True"
| "refused_outcome _ = False"

definition annotate_failure ::
  "u64 \<Rightarrow> delivery_plan \<Rightarrow> follow_up_decision option \<Rightarrow> delivery_outcome \<Rightarrow> engagement_store
     \<Rightarrow> engagement_store" where
  "annotate_failure i plan invalid outcome s =
     (case (plan, fmlookup (eng_candidates s) i) of
        (PlanTask task reason, Some c) \<Rightarrow>
          if refused_outcome outcome \<and> cand_work_ref c = Some task
            \<and> (cand_state c = CandReserved \<or> cand_state c = CandCancelled)
          then set_candidate i (c\<lparr>cand_follow_up_reason := or_option (cand_follow_up_reason c)
            (or_option invalid reason)\<rparr>) s
          else s
      | _ \<Rightarrow> s)"

definition finish_attempt ::
  "'tz chrono \<Rightarrow> identity_hash \<Rightarrow> candidate \<Rightarrow> delivery_plan \<Rightarrow> follow_up_decision option
     \<Rightarrow> delivery_outcome \<Rightarrow> unit eng_op" where
  "finish_attempt ch idh snapshot plan invalid outcome s =
     (case fmlookup (eng_candidates s) (cand_id snapshot) of
        None \<Rightarrow> (if refused_outcome outcome \<and> task_follow_up_erased ch idh s snapshot
          then Inr () else Inl Missing, s)
      | Some c \<Rightarrow>
          if cand_state c = CandCancelled \<and> refused_outcome outcome then (Inr (), s)
          else settle_contact (cand_id snapshot) outcome (annotate_failure (cand_id snapshot) plan invalid outcome s))"

end
