(* ===== verification/Engagement_Commit.thy ===== *)
theory Engagement_Commit
  imports Engagement_Controls
begin

text \<open>
  The boundary every change of the contact store passes: the ledger of erasures
  (\<open>src/brain/erasure.rs\<close>), the admission check that keeps late callbacks from
  recreating erased records (\<open>src/engagement/erasure.rs\<close>), and the commit that prunes,
  changes, checks, persists and only then publishes (\<open>src/runtime/work_commit.rs\<close>,
  \<open>src/runtime/engagement_commit.rs\<close>, \<open>src/runtime/learning_erasure.rs\<close>). SHA-256, JSON
  and the member hash are the parameters of \<open>erasure_digest\<close>.
\<close>

section \<open>Erasure ledger\<close>

record tombstone =
  tomb_subject :: rstr
  tomb_reactor :: "rstr option"
  tomb_at :: u64
  tomb_until :: u64

type_synonym erasure_ledger = "tombstone list"

record erasure_digest =
  ed_subject :: "rstr \<Rightarrow> rstr option \<Rightarrow> rstr"
  ed_reactor :: "rstr \<Rightarrow> rstr \<Rightarrow> rstr"

definition retention_seconds :: nat where "retention_seconds = 300"
definition max_tombstones :: nat where "max_tombstones = 4096"

definition ledger_valid :: "erasure_ledger \<Rightarrow> bool" where
  "ledger_valid ledger \<longleftrightarrow> length ledger \<le> max_tombstones
     \<and> list_all (\<lambda>r. hex64 (tomb_subject r) \<and> is_none_or (tomb_reactor r) hex64
         \<and> checked_add (tomb_at r) retention_seconds = Some (tomb_until r)) ledger
     \<and> distinct (map tomb_subject ledger)"

definition ledger_blocks :: "erasure_digest \<Rightarrow> erasure_ledger \<Rightarrow> rstr \<Rightarrow> rstr \<Rightarrow> u64 \<Rightarrow> bool" where
  "ledger_blocks ed ledger scope member admitted \<longleftrightarrow>
     list_ex (\<lambda>r. (tomb_subject r = ed_subject ed scope None \<or> tomb_subject r = ed_subject ed scope (Some member))
       \<and> admitted \<le> tomb_until r) ledger"

definition erasure_name_ok :: "rstr \<Rightarrow> bool" where
  "erasure_name_ok s \<longleftrightarrow> s \<noteq> [] \<and> byte_len s \<le> 256 \<and> unit_sep \<notin> set s"

fun renew_tombstone :: "rstr \<Rightarrow> u64 \<Rightarrow> u64 \<Rightarrow> erasure_ledger \<Rightarrow> erasure_ledger" where
  "renew_tombstone key now until [] = []"
| "renew_tombstone key now until (r # rs) =
     (if tomb_subject r = key
      then (if tomb_at r < now then r\<lparr>tomb_at := now, tomb_until := until\<rparr> else r) # rs
      else r # renew_tombstone key now until rs)"

definition ledger_insert ::
  "erasure_digest \<Rightarrow> rstr \<Rightarrow> rstr option \<Rightarrow> u64 \<Rightarrow> erasure_ledger \<Rightarrow> work_error + erasure_ledger" where
  "ledger_insert ed scope member now ledger =
     (if \<not> erasure_name_ok scope \<or> is_some_and member (\<lambda>m. \<not> erasure_name_ok m) then Inl Invalid
      else case checked_add now retention_seconds of
          None \<Rightarrow> Inl Full
        | Some until \<Rightarrow>
            let key = ed_subject ed scope member in
            if list_ex (\<lambda>r. tomb_subject r = key) ledger then Inr (renew_tombstone key now until ledger)
            else if max_tombstones \<le> length ledger then Inl Full
            else Inr (sort_key tomb_subject (ledger @ [\<lparr>tomb_subject = key,
              tomb_reactor = map_option (ed_reactor ed scope) member, tomb_at = now, tomb_until = until\<rparr>])))"

section \<open>Admission\<close>

definition native_member :: "u64 \<Rightarrow> rstr" where
  "native_member m = lit ''discord:'' @ decimal m"

text \<open>\<open>blocks scope member at\<close> stands for the ledger the store is checked against.\<close>

type_synonym blocking = "rstr \<Rightarrow> rstr \<Rightarrow> u64 \<Rightarrow> bool"

definition source_permitted :: "blocking \<Rightarrow> source_ref \<Rightarrow> bool" where
  "source_permitted blocks src \<longleftrightarrow>
     \<not> blocks (learning_scope (src_scope src)) (native_member (src_author src)) (src_at src)"

definition request_permitted :: "blocking \<Rightarrow> invitation_request \<Rightarrow> bool" where
  "request_permitted blocks r \<longleftrightarrow>
     \<not> blocks (learning_scope (inv_scope r)) (native_member (inv_member r)) (inv_at r)"

definition holds_source :: "engagement_store \<Rightarrow> source_ref \<Rightarrow> bool" where
  "holds_source s src \<longleftrightarrow> fm_any (\<lambda>_ rows. fm_any (\<lambda>_ old. old = src) rows) (eng_observations s)
     \<or> fm_any (\<lambda>_ rows. src |\<in>| rows) (eng_eligibility s)"

definition sources_admitted :: "blocking \<Rightarrow> engagement_store \<Rightarrow> engagement_store \<Rightarrow> bool" where
  "sources_admitted blocks before s \<longleftrightarrow>
     fm_all (\<lambda>_ rows. fm_all (\<lambda>_ src. source_permitted blocks src \<or> holds_source before src) rows)
       (eng_observations s)
     \<and> fm_all (\<lambda>_ rows. fBall rows (\<lambda>src. source_permitted blocks src \<or> holds_source before src))
       (eng_eligibility s)"

definition candidate_admitted ::
  "blocking \<Rightarrow> engagement_store \<Rightarrow> u64 \<Rightarrow> candidate \<Rightarrow> bool" where
  "candidate_admitted blocks s admitted c \<longleftrightarrow>
     (let scope = learning_scope (cand_scope c);
          instant = (case cand_source c of None \<Rightarrow> admitted | Some src \<Rightarrow> src_at src);
          member = (case cand_member c of None \<Rightarrow> [] | Some m \<Rightarrow> native_member m) in
      is_none_or (cand_source c) (source_permitted blocks)
      \<and> \<not> blocks scope member instant
      \<and> is_none_or (case cand_introduction_id c of None \<Rightarrow> None | Some i \<Rightarrow> fmlookup (eng_introductions s) i)
          (\<lambda>n. list_all (\<lambda>m. \<not> blocks scope (native_member m) (cand_due_at c)) (members_of (intro_members n))))"

fun evidence_admitted :: "blocking \<Rightarrow> rstr \<Rightarrow> u64 \<Rightarrow> community_evidence \<Rightarrow> bool" where
  "evidence_admitted blocks scope admitted EvMessage = True"
| "evidence_admitted blocks scope admitted (EvJoin member joined) = (\<not> blocks scope (native_member member) joined)"
| "evidence_admitted blocks scope admitted (EvProject _ _ actor audience _) =
     (\<not> blocks scope (native_member actor) admitted
      \<and> fBall audience (\<lambda>m. \<not> blocks scope (native_member m) admitted))"

definition receipt_admitted ::
  "blocking \<Rightarrow> engagement_store \<Rightarrow> u64 \<Rightarrow> u64 \<Rightarrow> community_receipt \<Rightarrow> bool" where
  "receipt_admitted blocks s admitted i r \<longleftrightarrow> is_some_and (fmlookup (eng_candidates s) i)
     (\<lambda>c. evidence_admitted blocks (learning_scope (cand_scope c)) admitted (cr_evidence r))"

definition assessment_admitted :: "blocking \<Rightarrow> engagement_store \<Rightarrow> u64 \<Rightarrow> u64 \<Rightarrow> bool" where
  "assessment_admitted blocks s admitted member \<longleftrightarrow>
     is_some_and (fmlookup (eng_member_policies s) member) (\<lambda>p. is_some_and (mp_weekly_subscription p)
       (\<lambda>w. \<not> blocks (learning_scope (weekly_scope w)) (native_member member) admitted))"

definition policy_admitted :: "blocking \<Rightarrow> u64 \<Rightarrow> u64 \<Rightarrow> member_policy \<Rightarrow> bool" where
  "policy_admitted blocks admitted member p \<longleftrightarrow>
     fBall (fmdom (mp_destinations p)) (\<lambda>scope. \<not> blocks (learning_scope scope) (native_member member) admitted)
     \<and> is_none_or (mp_weekly_subscription p)
         (\<lambda>w. \<not> blocks (learning_scope (weekly_scope w)) (native_member member) admitted)"

definition erasure_admitted ::
  "blocking \<Rightarrow> engagement_store \<Rightarrow> u64 \<Rightarrow> engagement_store \<Rightarrow> bool" where
  "erasure_admitted blocks before admitted s \<longleftrightarrow>
     fm_all (\<lambda>_. request_permitted blocks) (eng_invitation_requests s)
     \<and> fm_all (\<lambda>_ q. request_permitted blocks (sup_request q)) (eng_suppressed_invitations s)
     \<and> sources_admitted blocks before s
     \<and> (eng_community_cursor s = eng_community_cursor before
        \<or> is_none_or (eng_community_cursor s) (source_permitted blocks))
     \<and> fm_all (\<lambda>i c. fmlookup (eng_candidates before) i = Some c \<or> candidate_admitted blocks s admitted c)
         (eng_candidates s)
     \<and> fm_all (\<lambda>i r. fmlookup (eng_community_receipts before) i = Some r \<or> receipt_admitted blocks s admitted i r)
         (eng_community_receipts s)
     \<and> fm_all (\<lambda>m due. fmlookup (eng_weekly_assessments before) m = Some due \<or> assessment_admitted blocks s admitted m)
         (eng_weekly_assessments s)
     \<and> fm_all (\<lambda>m p. fmlookup (eng_member_policies before) m = Some p \<or> policy_admitted blocks admitted m p)
         (eng_member_policies s)"

section \<open>Commit\<close>

text \<open>
  The published store and ledger, and what the state file holds. A write that is not
  reported as committed may still have replaced the file: the rename is followed by a
  synchronisation of the directory that can fail on its own (\<open>src/persist.rs\<close>).
\<close>

record contact_state =
  cs_store :: engagement_store
  cs_ledger :: erasure_ledger
  cs_saved :: "engagement_store \<times> erasure_ledger"

datatype write_result = Written | Unwritten | Unconfirmed

definition store_file ::
  "write_result \<Rightarrow> engagement_store \<Rightarrow> erasure_ledger \<Rightarrow> contact_state \<Rightarrow> contact_state" where
  "store_file written s ledger st = (if written = Unwritten then st else st\<lparr>cs_saved := (s, ledger)\<rparr>)"

text \<open>
  The change runs on a snapshot from which outdated protective rows were pruned. Nothing
  is published unless the change succeeds, the result is admitted and the canonical
  write is reported as committed (\<open>written\<close>, the answer of the persistence owner). A
  \<open>checked\<close> commit (\<open>commit_engagement\<close>) validates the whole contact store as well.
\<close>

definition commit_contact ::
  "'tz chrono \<Rightarrow> erasure_digest \<Rightarrow> bool \<Rightarrow> 'a eng_op \<Rightarrow> u64 \<Rightarrow> write_result \<Rightarrow> contact_state
     \<Rightarrow> (work_error + 'a) \<times> contact_state" where
  "commit_contact ch ed checked change admitted written st =
     (let before = prune_erasure_safety ch admitted (cs_store st) in
      case change before of
        (Inl e, _) \<Rightarrow> (Inl e, st)
      | (Inr v, s) \<Rightarrow>
          (case (if checked then engagement_validate ch s else Inr ()) of
             Inl e \<Rightarrow> (Inl e, st)
           | Inr _ \<Rightarrow>
               if \<not> erasure_admitted (ledger_blocks ed (cs_ledger st)) before admitted s then (Inl Stale, st)
               else let saved = store_file written s (cs_ledger st) st in
                 if written \<noteq> Written then (Inl Persistence, saved)
                 else (Inr v, saved\<lparr>cs_store := s\<rparr>)))"

text \<open>
  An erasure writes its tombstone first and is refused as a whole when that is not
  possible. The deletion is published before it is written and stays when that fails; it is
  reported as done only when the file is known to hold it.
\<close>

definition erase_contact ::
  "identity_hash \<Rightarrow> erasure_digest \<Rightarrow> rstr \<Rightarrow> u64 option \<Rightarrow> u64 \<Rightarrow> write_result \<Rightarrow> contact_state
     \<Rightarrow> (work_error + nat) \<times> contact_state" where
  "erase_contact idh ed scope member now written st =
     (if member = Some 0 then (Inl Invalid, st)
      else case ledger_insert ed scope (map_option native_member member) now (cs_ledger st) of
          Inl e \<Rightarrow> (Inl e, st)
        | Inr ledger \<Rightarrow>
            (case erase_learning idh scope member (cs_store st) of
               (Inl e, _) \<Rightarrow> (Inl e, st)
             | (Inr n, s) \<Rightarrow>
                 (if written = Written then Inr n else Inl Persistence,
                  (store_file written s ledger st)\<lparr>cs_store := s, cs_ledger := ledger\<rparr>)))"

lemma store_file_sel [simp]:
  "cs_store (store_file written s ledger st) = cs_store st"
  "cs_ledger (store_file written s ledger st) = cs_ledger st"
  "cs_saved (store_file written s ledger st) = (if written = Unwritten then cs_saved st else (s, ledger))"
  by (simp_all add: store_file_def)

lemma commit_contactE:
  assumes "commit_contact ch ed checked change admitted written st = (r, st')"
  obtains (failed) e where "r = Inl e" "st' = st"
  | (committed) v s where "r = (if written = Written then Inr v else Inl Persistence)" "written \<noteq> Unwritten"
      "change (prune_erasure_safety ch admitted (cs_store st)) = (Inr v, s)"
      "erasure_admitted (ledger_blocks ed (cs_ledger st)) (prune_erasure_safety ch admitted (cs_store st)) admitted s"
      "checked \<Longrightarrow> engagement_ok ch s"
      "cs_store st' = (if written = Written then s else cs_store st)" "cs_ledger st' = cs_ledger st"
      "cs_saved st' = (s, cs_ledger st)"
proof -
  let ?p = "prune_erasure_safety ch admitted (cs_store st)"
  obtain q s where op: "change ?p = (q, s)" by (cases "change ?p")
  show thesis
  proof (cases "\<exists>v. q = Inr v \<and> (checked \<longrightarrow> engagement_ok ch s) \<and> written \<noteq> Unwritten
      \<and> erasure_admitted (ledger_blocks ed (cs_ledger st)) ?p admitted s")
    case True
    then obtain v where v: "q = Inr v" "(if checked then engagement_validate ch s else Inr ()) = Inr ()"
      "checked \<Longrightarrow> engagement_ok ch s" "written \<noteq> Unwritten"
      "erasure_admitted (ledger_blocks ed (cs_ledger st)) ?p admitted s"
      by (auto simp: engagement_ok_def)
    with assms op have "(if written \<noteq> Written then (Inl Persistence, store_file written s (cs_ledger st) st)
        else (Inr v, (store_file written s (cs_ledger st) st)\<lparr>cs_store := s\<rparr>)) = (r, st')"
      by (simp add: commit_contact_def Let_def)
    with v op show thesis by (intro that(2) [of v s]) (auto split: if_splits)
  next
    case False
    with assms op have "(\<exists>e. r = Inl e) \<and> st' = st"
      by (auto simp: commit_contact_def Let_def engagement_ok_def store_file_def split: sum.splits if_splits)
    then show thesis by (elim conjE exE) (rule that(1))
  qed
qed

lemma erase_contactE:
  assumes "erase_contact idh ed scope member now written st = (r, st')"
  obtains (failed) e where "r = Inl e" "st' = st"
  | (erased) n s ledger where "erase_learning idh scope member (cs_store st) = (Inr n, s)"
      "ledger_insert ed scope (map_option native_member member) now (cs_ledger st) = Inr ledger"
      "r = (if written = Written then Inr n else Inl Persistence)" "cs_store st' = s" "cs_ledger st' = ledger"
      "cs_saved st' = (if written = Unwritten then cs_saved st else (s, ledger))" "member \<noteq> Some 0"
  using assms by (auto simp: erase_contact_def split: prod.splits sum.splits if_splits)

end
