(* ===== verification/Engagement_Machine.thy ===== *)
theory Engagement_Machine
  imports Engagement_Erasure Machine
begin

text \<open>
  What a reservation relies on: its success read forwards, as elimination rules, the
  consent of the members it contacts and the budget they share.
\<close>

section \<open>Operations read forwards\<close>

lemma publishE:
  assumes "publish ch r next s = (q, t)"
  obtains (failed) e where "q = Inl e" "t = s" | (published) "q = Inr r" "t = next" "engagement_ok ch next"
  using assms by (auto simp: publish_def engagement_ok_def split: sum.splits)

lemma reserve_memberE:
  assumes "reserve_member ch i revision now c member s = (r, t)"
  obtains (failed) e where "r = Inl e" "t = s"
  | (reserved) b p destination where "\<not> unproven_invitation s c" "contact_eligible s c member"
      "member_allowed ch s c member now = Inr b" "contact_capacity ch s member now b = Inr ()"
      "length (eng_charges s) + length (eng_erased_contact_charges s) < 20000"
      "fmlookup (eng_member_policies s) member = Some p" "contact_destination c p = Inr destination"
      "r = Inr \<lparr>er_introduction = None, er_candidate_id = i, er_revision = revision,
         er_policy_revision = mp_revision p, er_scope = cand_scope c, er_member = cand_member c,
         er_destination = destination\<rparr>"
      "t = set_candidate i (c\<lparr>cand_state := CandReserved, cand_policy_revision := mp_revision p,
             cand_destination := destination\<rparr>)
           ((attempt_receipt i now s)\<lparr>eng_charges := eng_charges (attempt_receipt i now s)
             @ [new_charge i member now b]\<rparr>)"
  using assms unfolding reserve_member_def Let_def
  by (elim guardE guard_sumE guard_optionE) ((rule failed; assumption) | (rule reserved; auto))+

lemma reserve_introductionE:
  assumes "reserve_introduction ch i revision now c s = (r, t)"
  obtains (failed) e where "r = Inl e" "t = s"
  | (reserved) m n charges where "introduction_receipt_current ch s c" "cand_revision c = revision"
      "cand_introduction_id c = Some m" "fmlookup (eng_introductions s) m = Some n"
      "length (eng_charges s) + length (eng_erased_contact_charges s) + 2 \<le> 20000"
      "introduction_charges ch s c i now (members_of (intro_members n)) = Inr charges"
      "r = Inr \<lparr>er_introduction = Some \<lparr>ir_introduction = n\<lparr>intro_state := IntroConsumed\<rparr>,
           ir_policy_revisions = (policy_revision_of s (fst (intro_members n)),
             policy_revision_of s (snd (intro_members n)))\<rparr>,
         er_candidate_id = i, er_revision = revision, er_policy_revision = cand_policy_revision c,
         er_scope = cand_scope c, er_member = None, er_destination = PrefOrigin\<rparr>"
      "t = set_candidate i (c\<lparr>cand_state := CandReserved\<rparr>) (s\<lparr>eng_charges := eng_charges s @ charges,
         eng_introductions := fmupd (intro_id n) (n\<lparr>intro_state := IntroConsumed\<rparr>) (eng_introductions s)\<rparr>)"
  using assms unfolding reserve_introduction_def Let_def
  by (elim guardE guard_sumE guard_optionE) ((rule failed; assumption) | (rule reserved; auto))+

lemma reserve_publicE:
  assumes "reserve_public i revision now c s = (r, t)"
  obtains (failed) e where "r = Inl e" "t = s"
  | (reserved) receipt where "fmlookup (eng_community_receipts s) i = Some receipt"
      "r = Inr \<lparr>er_introduction = None, er_candidate_id = i, er_revision = revision,
         er_policy_revision = cr_policy_revision receipt, er_scope = cand_scope c, er_member = None,
         er_destination = PrefOrigin\<rparr>"
      "t = set_candidate i (c\<lparr>cand_state := CandReserved, cand_policy_revision := cr_policy_revision receipt,
         cand_destination := PrefOrigin\<rparr>) (attempt_receipt i now s)"
  using assms unfolding reserve_public_def
  by (elim guard_optionE) ((rule failed; assumption) | (rule reserved; auto))+

lemma reserve_dueD:
  assumes "reserve_due ch c revision now = Inr u"
  shows "cand_revision c = revision" "cand_state c = CandPending" "cand_due_at c \<le> now"
    "weekly_window ch c now = Inr True" "task_follow_up_window ch c now = Inr True"
  using assms by (auto simp: reserve_due_def split: if_splits)

lemma reserve_contactE:
  assumes "reserve_contact ch idh i revision now s = (r, t)"
  obtains (failed) e where "r = Inl e" "t = s"
  | (introduction) c where "fmlookup (eng_candidates s) i = Some c" "reserve_due ch c revision now = Inr ()"
      "utc_ok ch now" "cand_kind c = KindIntroduction"
      "reserve_introduction ch i revision now c s = (r, t)"
  | (public) c where "fmlookup (eng_candidates s) i = Some c" "reserve_due ch c revision now = Inr ()"
      "utc_ok ch now" "cand_kind c \<noteq> KindIntroduction" "feature_of (cand_kind c) \<noteq> None"
      "community_receipt_current s c" "community_capacity idh s c now" "cand_member c = None"
      "reserve_public i revision now c s = (r, t)"
  | (member) c member where "fmlookup (eng_candidates s) i = Some c" "reserve_due ch c revision now = Inr ()"
      "utc_ok ch now" "cand_kind c \<noteq> KindIntroduction" "cand_member c = Some member"
      "feature_of (cand_kind c) \<noteq> None \<Longrightarrow> community_receipt_current s c \<and> community_capacity idh s c now"
      "reserve_member ch i revision now c member s = (r, t)"
proof -
  note op = assms [unfolded reserve_contact_def]
  show thesis
    using op
  proof (elim guardE guard_optionE guard_sumE)
    fix c u
    assume now: "\<not> \<not> utc_ok ch now" and c: "fmlookup (eng_candidates s) i = Some c"
      and due: "reserve_due ch c revision now = Inr u"
    assume rest: "(if cand_kind c = KindIntroduction then reserve_introduction ch i revision now c s
        else if feature_of (cand_kind c) \<noteq> None
          \<and> (\<not> community_receipt_current s c \<or> \<not> community_capacity idh s c now) then (Inl Denied, s)
        else if feature_of (cand_kind c) \<noteq> None \<and> cand_member c = None
          then reserve_public i revision now c s
        else (case cand_member c of None \<Rightarrow> (Inl Denied, s)
          | Some member \<Rightarrow> reserve_member ch i revision now c member s)) = (r, t)"
    have due: "reserve_due ch c revision now = Inr ()" using due by simp
    show thesis
    proof (cases "cand_kind c = KindIntroduction")
      case True
      with rest now c due show ?thesis by (intro introduction) auto
    next
      case kind: False
      note rest = rest [unfolded if_not_P [OF kind]]
      show ?thesis
      proof (cases "feature_of (cand_kind c) \<noteq> None
          \<and> (\<not> community_receipt_current s c \<or> \<not> community_capacity idh s c now)")
        case True
        with rest show ?thesis by (intro failed) auto
      next
        case gate: False
        note rest = rest [unfolded if_not_P [OF gate]]
        show ?thesis
        proof (cases "feature_of (cand_kind c) \<noteq> None \<and> cand_member c = None")
          case True
          with rest gate kind now c due show ?thesis by (intro public) auto
        next
          case personal: False
          note rest = rest [unfolded if_not_P [OF personal]]
          show ?thesis
          proof (cases "cand_member c")
            case None
            with rest show ?thesis by (intro failed) auto
          next
            case (Some m)
            with rest gate kind now c due show ?thesis by (intro member [of c m]) auto
          qed
        qed
      qed
    qed
  qed (rule failed; assumption)+
qed

section \<open>Consent and budget\<close>

text \<open>Whether a member may be contacted in a scope at an instant, as one statement.\<close>

definition consents ::
  "'tz chrono \<Rightarrow> engagement_store \<Rightarrow> engagement_scope \<Rightarrow> u64 \<Rightarrow> u64 \<Rightarrow> bool" where
  "consents ch s scope now member \<longleftrightarrow>
     (\<exists>p z tz at. fmlookup (eng_member_policies s) member = Some p \<and> member_policy_valid ch p
       \<and> personalized_enabled ch p \<and> \<not> stopped_in p scope
       \<and> is_none_or (mp_snoozed_until p) (\<lambda>until. until \<le> now)
       \<and> mp_timezone p = Some z \<and> ch_parse_tz ch z = Some tz \<and> utc ch now = Inr at
       \<and> \<not> quiet_now p (ch_hour ch tz at))"

definition day_attempts :: "engagement_store \<Rightarrow> u64 \<Rightarrow> rstr \<Rightarrow> nat" where
  "day_attempts s member day = length (filter (\<lambda>r. fst r = day) (member_rows s member))"

definition week_attempts :: "engagement_store \<Rightarrow> u64 \<Rightarrow> rstr \<Rightarrow> nat" where
  "week_attempts s member week = length (filter (\<lambda>r. fst (snd r) = week) (member_rows s member))"

definition within_budget ::
  "'tz chrono \<Rightarrow> engagement_store \<Rightarrow> engagement_store \<Rightarrow> u64 \<Rightarrow> u64 \<Rightarrow> bool" where
  "within_budget ch s t now member \<longleftrightarrow>
     (\<exists>p z tz day week limit. fmlookup (eng_member_policies s) member = Some p
       \<and> mp_timezone p = Some z \<and> ch_parse_tz ch z = Some tz
       \<and> calendar_buckets ch tz now = Inr (day, week) \<and> mp_daily_limit p = Some limit
       \<and> day_attempts t member day = Suc (day_attempts s member day) \<and> day_attempts t member day \<le> limit
       \<and> week_attempts t member week = Suc (week_attempts s member week)
       \<and> is_none_or (mp_weekly_limit p) (\<lambda>limit. week_attempts t member week \<le> limit))"

definition contacted :: "engagement_reservation \<Rightarrow> u64 list" where
  "contacted r = (case er_introduction r of
     Some ir \<Rightarrow> members_of (intro_members (ir_introduction ir))
   | None \<Rightarrow> (case er_member r of None \<Rightarrow> [] | Some m \<Rightarrow> [m]))"

lemma allowed_with_reason_Inr:
  assumes "allowed_with_reason ch s c member now = Inr b"
  obtains p z tz where "fmlookup (eng_member_policies s) member = Some p" "mp_timezone p = Some z"
    "ch_parse_tz ch z = Some tz" "calendar_buckets ch tz now = Inr b"
    "consents ch s (cand_scope c) now member"
proof -
  from assms obtain p where p: "fmlookup (eng_member_policies s) member = Some p"
    by (auto simp: allowed_with_reason_def split: option.splits)
  note a = assms [unfolded allowed_with_reason_def p option.case]
  from a have valid: "member_policy_valid ch p" and stop: "\<not> (mp_global_stop p \<or> stopped_in p (cand_scope c))"
    and enabled: "personalized_enabled ch p" and snooze: "\<not> is_some_and (mp_snoozed_until p) (\<lambda>t. now < t)"
    by (auto split: if_splits)
  note a = a [unfolded if_not_P [OF stop] if_not_P [OF snooze]]
  from a valid enabled obtain z tz at where z: "mp_timezone p = Some z" "ch_parse_tz ch z = Some tz"
    "utc ch now = Inr at"
    by (auto simp: relabel_def split: if_splits option.splits sum.splits)
  with a valid enabled have rest: "\<not> quiet_now p (ch_hour ch tz at)" "relabel FuDisabled (calendar_buckets ch tz now) = Inr b"
    by (auto simp: relabel_def split: if_splits)
  from rest(2) have "calendar_buckets ch tz now = Inr b" by (auto simp: relabel_def split: sum.splits)
  moreover have "consents ch s (cand_scope c) now member"
    using p valid enabled stop snooze z rest(1)
    by (auto simp: consents_def is_none_or_iff is_some_and_iff not_less)
  ultimately show thesis using p z(1,2) that by blast
qed

lemma member_allowed_Inr:
  assumes "member_allowed ch s c member now = Inr b" and "cand_member c = Some member"
  obtains p z tz where "fmlookup (eng_member_policies s) member = Some p" "mp_timezone p = Some z"
    "ch_parse_tz ch z = Some tz" "calendar_buckets ch tz now = Inr b"
    "consents ch s (cand_scope c) now member"
proof -
  have "allowed_with_reason ch s c member now = Inr b"
    using assms
    by (auto simp: member_allowed_def contact_allowed_def task_follow_up_member_allowed_def
        split: if_splits sum.splits prod.splits)
  then show thesis by (rule allowed_with_reason_Inr) (rule that)
qed

lemma contact_allowed_Inr:
  assumes "contact_allowed ch s c member now = Inr b"
  shows "allowed_with_reason ch s c member now = Inr b"
  using assms by (auto simp: contact_allowed_def split: sum.splits prod.splits)

lemma contact_capacity_Inr:
  assumes "contact_capacity ch s member now b = Inr ()" and "fmlookup (eng_member_policies s) member = Some p"
  shows "\<exists>limit. mp_daily_limit p = Some limit \<and> day_attempts s member (fst b) < limit
    \<and> is_none_or (mp_weekly_limit p) (\<lambda>limit. week_attempts s member (snd b) < limit)
    \<and> eng_safety_pruned_through s \<le> now"
  using assms
  by (auto simp: contact_capacity_def Let_def day_attempts_def week_attempts_def is_none_or_iff is_some_and_iff
      not_le not_less split: if_splits)

lemma attempt_receipt_sel [simp]:
  "eng_charges (attempt_receipt i now s) = eng_charges s"
  "eng_erased_contact_charges (attempt_receipt i now s) = eng_erased_contact_charges s"
  "eng_candidates (attempt_receipt i now s) = eng_candidates s"
  "eng_introductions (attempt_receipt i now s) = eng_introductions s"
  "eng_member_policies (attempt_receipt i now s) = eng_member_policies s"
  "eng_sequence (attempt_receipt i now s) = eng_sequence s"
  by (simp_all add: attempt_receipt_def split: option.splits)

lemma set_candidate_sel [simp]:
  "eng_charges (set_candidate i c s) = eng_charges s"
  "eng_erased_contact_charges (set_candidate i c s) = eng_erased_contact_charges s"
  "eng_candidates (set_candidate i c s) = fmupd i c (eng_candidates s)"
  "eng_introductions (set_candidate i c s) = eng_introductions s"
  "eng_member_policies (set_candidate i c s) = eng_member_policies s"
  "eng_sequence (set_candidate i c s) = eng_sequence s"
  by (simp_all add: set_candidate_def)

lemma new_charge_sel [simp]:
  "charge_member (new_charge i member now b) = member" "charge_candidate (new_charge i member now b) = i"
  "charge_local_day (new_charge i member now b) = fst b" "charge_local_week (new_charge i member now b) = snd b"
  "charge_at (new_charge i member now b) = now"
  by (simp_all add: new_charge_def)

text \<open>One more charge of a member is one more attempt on its day and in its week.\<close>

lemma attempts_append:
  assumes "eng_erased_contact_charges t = eng_erased_contact_charges s"
    and "filter (\<lambda>c. charge_member c = member) (eng_charges t)
      = filter (\<lambda>c. charge_member c = member) (eng_charges s) @ [new_charge i member now b]"
  shows "day_attempts t member (fst b) = Suc (day_attempts s member (fst b))"
    and "week_attempts t member (snd b) = Suc (week_attempts s member (snd b))"
  using assms by (simp_all add: day_attempts_def week_attempts_def member_rows_def)

lemma introduction_chargesD:
  assumes "introduction_charges ch s c i now members = Inr charges" and "member \<in> set members"
    and "distinct members"
  shows "\<exists>b. contact_allowed ch s c member now = Inr b \<and> contact_capacity ch s member now b = Inr ()
    \<and> filter (\<lambda>c. charge_member c = member) charges = [new_charge i member now b]"
proof -
  have others: "filter (\<lambda>c. charge_member c = m) cs = []"
    if "introduction_charges ch s c i now ms = Inr cs" "m \<notin> set ms" for m ms cs
    using that by (induction ms arbitrary: cs) auto
  from assms show ?thesis
  proof (induction members arbitrary: charges)
    case Nil
    then show ?case by simp
  next
    case (Cons m ms)
    from Cons.prems(1) obtain b cs where b: "contact_allowed ch s c m now = Inr b"
      "contact_capacity ch s m now b = Inr ()" "introduction_charges ch s c i now ms = Inr cs"
      "charges = new_charge i m now b # cs" by auto
    show ?case
    proof (cases "member = m")
      case True
      with b Cons.prems(3) others [OF b(3), of m] show ?thesis by auto
    next
      case False
      with Cons.prems(2,3) Cons.IH [OF b(3)] b(4) show ?thesis by simp
    qed
  qed
qed

lemma engagement_ok_iff: "engagement_ok ch s \<longleftrightarrow> list_all snd (erased_checks ch s)
    \<and> list_all snd (invitation_checks ch s) \<and> list_all snd (community_checks ch s)
    \<and> list_all snd (store_checks ch s) \<and> list_all snd (link_checks ch s)"
  by (simp add: engagement_ok_def engagement_validate_def first_failure_Inr)

lemma engagement_okD:
  assumes "engagement_ok ch s"
  shows "fmlookup (eng_introductions s) m = Some n \<Longrightarrow> introduction_valid s m n"
    and "fmlookup (eng_candidates s) i = Some c \<Longrightarrow> candidate_valid ch s i c"
    and "distinct (List.map_filter cand_introduction_id (fm_values (eng_candidates s)))"
    and "distinct (map charge_key (eng_charges s))"
    and "list_all (charge_valid ch s) (eng_charges s)"
  using assms
  by (auto simp: engagement_ok_iff link_checks_def Let_def dest: fm_allD)

lemma introduction_members:
  assumes "engagement_ok ch s" and "fmlookup (eng_introductions s) m = Some n"
  shows "distinct (members_of (intro_members n))"
  using engagement_okD(1) [OF assms] by (cases "intro_members n") (auto simp: introduction_valid_def)

text \<open>What a successful reservation rests on, for each member it contacts.\<close>

lemma reserved_member:
  assumes op: "reserve_contact ch idh i revision now s = (Inr r, t)" and m: "member \<in> set (contacted r)"
    and ok: "engagement_ok ch s"
  obtains p z tz b where "fmlookup (eng_member_policies s) member = Some p" "mp_timezone p = Some z"
    "ch_parse_tz ch z = Some tz" "calendar_buckets ch tz now = Inr b"
    "consents ch s (er_scope r) now member" "contact_capacity ch s member now b = Inr ()"
    "eng_erased_contact_charges t = eng_erased_contact_charges s"
    "filter (\<lambda>c. charge_member c = member) (eng_charges t)
      = filter (\<lambda>c. charge_member c = member) (eng_charges s) @ [new_charge i member now b]"
  using op
proof (cases rule: reserve_contactE)
  case (introduction c)
  from introduction(5) show thesis
  proof (cases rule: reserve_introductionE)
    case (reserved k n charges)
    have "member \<in> set (members_of (intro_members n))" using m reserved(7) by (simp add: contacted_def)
    from introduction_chargesD [OF reserved(6) this introduction_members [OF ok reserved(4)]]
    obtain b where b: "contact_allowed ch s c member now = Inr b" "contact_capacity ch s member now b = Inr ()"
      "filter (\<lambda>c. charge_member c = member) charges = [new_charge i member now b]" by blast
    from contact_allowed_Inr [OF b(1)] show ?thesis
    proof (rule allowed_with_reason_Inr)
      fix p z tz
      assume "fmlookup (eng_member_policies s) member = Some p" "mp_timezone p = Some z"
        "ch_parse_tz ch z = Some tz" "calendar_buckets ch tz now = Inr b" "consents ch s (cand_scope c) now member"
      then show thesis using b(2,3) reserved(7,8) by (intro that [of p z tz b]) simp_all
    qed
  qed simp
next
  case (public c)
  from public(9) show thesis
  proof (cases rule: reserve_publicE)
    case (reserved receipt)
    with m show ?thesis by (simp add: contacted_def)
  qed simp
next
  case (member c who)
  from member(7) show thesis
  proof (cases rule: reserve_memberE)
    case (reserved b p destination)
    have who: "member = who" using m reserved(8) member(5) by (simp add: contacted_def)
    from reserved(3) member(5) show ?thesis
    proof (rule member_allowed_Inr)
      fix q z tz
      assume "fmlookup (eng_member_policies s) who = Some q" "mp_timezone q = Some z"
        "ch_parse_tz ch z = Some tz" "calendar_buckets ch tz now = Inr b" "consents ch s (cand_scope c) now who"
      then show thesis using reserved(4,8,9) who by (intro that [of q z tz b]) simp_all
    qed
  qed simp
qed simp

section \<open>Properties of a reservation\<close>

text \<open>
  C1. Nobody is contacted without current consent. Every member a reservation contacts has
  valid, personally enabled settings with no global, server or channel stop, no running
  snooze and an hour outside quiet hours in the member's own time zone; and the
  reservation is for a pending candidate at the revision the caller has seen.
\<close>

theorem contact_needs_consent:
  assumes "engagement_ok ch s" and "reserve_contact ch idh i revision now s = (Inr r, t)"
  shows "(\<forall>member \<in> set (contacted r). consents ch s (er_scope r) now member)
    \<and> (\<exists>c. fmlookup (eng_candidates s) i = Some c \<and> cand_state c = CandPending \<and> cand_revision c = revision
        \<and> cand_due_at c \<le> now \<and> er_scope r = cand_scope c)"
proof (intro conjI ballI)
  fix member assume "member \<in> set (contacted r)"
  from assms(2) this assms(1) show "consents ch s (er_scope r) now member"
    by (rule reserved_member)
next
  from assms(2) show "\<exists>c. fmlookup (eng_candidates s) i = Some c \<and> cand_state c = CandPending
      \<and> cand_revision c = revision \<and> cand_due_at c \<le> now \<and> er_scope r = cand_scope c"
  proof (cases rule: reserve_contactE)
    case (introduction c)
    from introduction(5) show ?thesis using introduction(1) reserve_dueD [OF introduction(2)]
      by (cases rule: reserve_introductionE) auto
  next
    case (public c)
    from public(9) show ?thesis using public(1) reserve_dueD [OF public(2)]
      by (cases rule: reserve_publicE) auto
  next
    case (member c who)
    from member(7) show ?thesis using member(1) reserve_dueD [OF member(2)]
      by (cases rule: reserve_memberE) auto
  qed simp
qed

text \<open>
  C2. Contacts share one budget. A reservation charges each contacted member exactly one
  attempt on the current day and week of the member's calendar; including the attempts
  kept from erased records it stays within the daily limit and the weekly limit; and no
  other member is charged.
\<close>

theorem contact_stays_within_budget:
  assumes "engagement_ok ch s" and "reserve_contact ch idh i revision now s = (Inr r, t)"
  shows "(\<forall>member \<in> set (contacted r). within_budget ch s t now member)
    \<and> (\<forall>member. member \<notin> set (contacted r) \<longrightarrow> member_rows t member = member_rows s member)"
proof (intro conjI ballI allI impI)
  fix member assume "member \<in> set (contacted r)"
  from assms(2) this assms(1) show "within_budget ch s t now member"
  proof (rule reserved_member)
    fix p z tz b
    assume f: "fmlookup (eng_member_policies s) member = Some p" "mp_timezone p = Some z"
      "ch_parse_tz ch z = Some tz" "calendar_buckets ch tz now = Inr b"
      "contact_capacity ch s member now b = Inr ()"
      "eng_erased_contact_charges t = eng_erased_contact_charges s"
      "filter (\<lambda>c. charge_member c = member) (eng_charges t)
        = filter (\<lambda>c. charge_member c = member) (eng_charges s) @ [new_charge i member now b]"
    note more = attempts_append [OF f(6,7)]
    from contact_capacity_Inr [OF f(5,1)] obtain limit where l: "mp_daily_limit p = Some limit"
      "day_attempts s member (fst b) < limit"
      "is_none_or (mp_weekly_limit p) (\<lambda>limit. week_attempts s member (snd b) < limit)" by blast
    show ?thesis
      unfolding within_budget_def
      by (rule exI [of _ p], rule exI [of _ z], rule exI [of _ tz], rule exI [of _ "fst b"],
          rule exI [of _ "snd b"], rule exI [of _ limit])
        (use f l more in \<open>auto simp: is_none_or_iff\<close>)
  qed
next
  fix member assume other: "member \<notin> set (contacted r)"
  have rows: "member_rows t member = member_rows s member"
    if "eng_erased_contact_charges t = eng_erased_contact_charges s"
      "eng_charges t = eng_charges s @ cs" "filter (\<lambda>c. charge_member c = member) cs = []" for cs
    using that by (simp add: member_rows_def)
  have charged: "filter (\<lambda>c. charge_member c = member) cs = []"
    if "introduction_charges ch s c i now ms = Inr cs" "member \<notin> set ms" for c ms cs
    using that by (induction ms arbitrary: cs) auto
  from assms(2) show "member_rows t member = member_rows s member"
  proof (cases rule: reserve_contactE)
    case (introduction c)
    from introduction(5) show ?thesis
    proof (cases rule: reserve_introductionE)
      case (reserved k n charges)
      with other charged [OF reserved(6)] show ?thesis by (intro rows [of charges]) (auto simp: contacted_def)
    qed simp
  next
    case (public c)
    from public(9) show ?thesis
    proof (cases rule: reserve_publicE)
      case (reserved receipt)
      then show ?thesis by (intro rows [of "[]"]) simp_all
    qed simp
  next
    case (member c who)
    from member(7) show ?thesis
    proof (cases rule: reserve_memberE)
      case (reserved b p destination)
      with other member(5) show ?thesis
        by (intro rows [of "[new_charge i who now b]"]) (auto simp: contacted_def)
    qed simp
  qed simp
qed

section \<open>Examples\<close>

text \<open>
  Member 7 accepts at most two contacts a day and three a week, and wrote message 5 in
  channel 2 of server 1; a follow-up is due at ten in the morning of day 0.
\<close>

definition demo_member_policy :: member_policy where
  "demo_member_policy = default_member_policy\<lparr>mp_revision := 1, mp_daily_limit := Some 2,
     mp_weekly_limit := Some 3, mp_timezone := Some (lit ''UTC'')\<rparr>"

definition demo_source :: source_ref where
  "demo_source = \<lparr>src_scope = EngGuild 1 2, src_message = 5, src_author = 7, src_revision = 1, src_at = 100\<rparr>"

definition demo_proposal :: candidate_proposal where
  "demo_proposal = \<lparr>cp_kind = KindFollowUp, cp_source = Some demo_source, cp_member = Some 7,
     cp_scope = EngGuild 1 2, cp_due_at = 36000, cp_introduction_id = None\<rparr>"

definition demo_consent_store :: engagement_store where
  "demo_consent_store = empty_engagement\<lparr>eng_member_policies := fmupd 7 demo_member_policy fmempty,
     eng_eligibility := fmupd 7 {|demo_source|} fmempty\<rparr>"

definition demo_candidate :: candidate where
  "demo_candidate = \<lparr>cand_id = 1, cand_kind = KindFollowUp, cand_source = Some demo_source,
     cand_member = Some 7, cand_scope = EngGuild 1 2, cand_due_at = 36000, cand_revision = 1,
     cand_state = CandPending, cand_dedupe_key = lit ''engagement:'' @ decimal 1,
     cand_policy_revision = 1, cand_destination = PrefOrigin, cand_message_id = None,
     cand_introduction_id = None, cand_work_ref = None, cand_expires_at = None,
     cand_follow_up_reason = None\<rparr>"

definition demo_contact_store :: engagement_store where
  "demo_contact_store = demo_consent_store\<lparr>eng_sequence := 1,
     eng_candidates := fmupd 1 demo_candidate fmempty\<rparr>"

lemma demo_utc [simp]: "utc_ok demo_chrono t \<longleftrightarrow> t \<le> i64_max" "t \<le> i64_max \<Longrightarrow> utc demo_chrono t = Inr (int t)"
  by (simp_all add: utc_ok_def utc_def demo_chrono_def)

lemma demo_policy_valid: "member_policy_valid demo_chrono demo_member_policy" "personalized_enabled demo_chrono demo_member_policy"
  by (simp_all add: member_policy_valid_def personalized_enabled_def demo_member_policy_def
      default_member_policy_def policy_scopes_def demo_chrono_def)

lemma demo_contact_sel [simp]:
  "eng_candidates demo_contact_store = fmupd 1 demo_candidate fmempty"
  "eng_introductions demo_contact_store = fmempty" "eng_sequence demo_contact_store = 1"
  "eng_member_policies demo_contact_store = fmupd 7 demo_member_policy fmempty"
  "eng_eligibility demo_contact_store = fmupd 7 {|demo_source|} fmempty"
  "eng_charges demo_contact_store = []" "eng_erased_contact_charges demo_contact_store = []"
  "eng_erased_community_charges demo_contact_store = []" "eng_community_receipts demo_contact_store = fmempty"
  "eng_invitation_requests demo_contact_store = fmempty" "eng_suppressed_invitations demo_contact_store = fmempty"
  "eng_feedback demo_contact_store = fmempty" "eng_community_cursor demo_contact_store = None"
  "eng_erased_identities demo_contact_store = {||}" "eng_safety_pruned_through demo_contact_store = 0"
  "eng_weekly_assessments demo_contact_store = fmempty" "eng_responses demo_contact_store = fmempty"
  "eng_observations demo_contact_store = fmempty" "eng_guild_features demo_contact_store = fmempty"
  by (simp_all add: demo_contact_store_def demo_consent_store_def empty_engagement_def)

lemma demo_candidate_valid: "candidate_valid demo_chrono demo_contact_store 1 demo_candidate"
  by (simp add: candidate_valid_def candidate_fields_valid_def candidate_links_valid_def task_follow_up_valid_def
      demo_candidate_def demo_source_def source_valid_def needs_member_def decimal.simps [of "Suc 0"] byte_len_def utf8_len_def)

lemma demo_contact_ok: "engagement_ok demo_chrono demo_contact_store"
  unfolding engagement_ok_iff
proof (intro conjI)
  have kind: "cand_kind demo_candidate = KindFollowUp" "cand_source demo_candidate = Some demo_source"
    "cand_introduction_id demo_candidate = None" "cand_state demo_candidate = CandPending"
    by (simp_all add: demo_candidate_def)
  have open_one: "open_candidates demo_contact_store = 1" by (simp add: open_candidates_def kind)
  have eligible: "eligibility_valid 7 {|demo_source|}"
    by (simp add: eligibility_valid_def demo_source_def source_valid_def)
  have policy: "stored_policy_valid demo_chrono 7 demo_member_policy"
    using demo_policy_valid
    by (simp add: stored_policy_valid_def policy_scopes_def) (simp add: demo_member_policy_def default_member_policy_def)
  note sizes = fm_len_upd fcard.rep_eq List.map_filter_simps
  show "list_all snd (erased_checks demo_chrono demo_contact_store)"
    by (simp add: erased_checks_def fcard.rep_eq)
  show "list_all snd (invitation_checks demo_chrono demo_contact_store)"
    by (simp add: invitation_checks_def sizes kind)
  show "list_all snd (community_checks demo_chrono demo_contact_store)"
    by (simp add: community_checks_def)
  show "list_all snd (store_checks demo_chrono demo_contact_store)"
    by (simp add: store_checks_def sizes open_one eligible policy)
  show "list_all snd (link_checks demo_chrono demo_contact_store)"
    using demo_candidate_valid
    by (simp add: link_checks_def Let_def sizes kind candidate_identity_def)
qed

lemma demo_allowed:
  "contact_allowed demo_chrono demo_contact_store demo_candidate 7 36000 = Inr (decimal 0, decimal 0)"
proof -
  have "allowed_with_reason demo_chrono demo_contact_store demo_candidate 7 36000 = Inr (decimal 0, decimal 0)"
    using demo_policy_valid
    by (simp add: allowed_with_reason_def demo_candidate_def demo_member_policy_def default_member_policy_def
        i64_max_def relabel_def calendar_buckets_def Let_def quiet_now_def)
      (simp add: demo_chrono_def relabel_def)
  then show ?thesis by (simp add: contact_allowed_def)
qed

lemma demo_capacity: "contact_capacity demo_chrono demo_contact_store 7 36000 b = Inr ()"
  by (simp add: contact_capacity_def demo_member_policy_def default_member_policy_def i64_max_def Let_def
      member_rows_def) (simp add: demo_chrono_def)

lemma demo_reserved_contact:
  "\<exists>r t. reserve_contact demo_chrono idh 1 1 36000 demo_contact_store = (Inr r, t) \<and> contacted r = [7]
     \<and> er_scope r = EngGuild 1 2"
proof -
  have kind: "cand_kind demo_candidate = KindFollowUp" "cand_member demo_candidate = Some 7"
    "cand_work_ref demo_candidate = None" "cand_scope demo_candidate = EngGuild 1 2"
    "cand_source demo_candidate = Some demo_source"
    by (simp_all add: demo_candidate_def)
  have due: "reserve_due demo_chrono demo_candidate 1 36000 = Inr ()"
    by (simp add: reserve_due_def weekly_window_def weekly_deadline_def task_follow_up_window_def kind)
      (simp add: demo_candidate_def)
  have eligible: "contact_eligible demo_contact_store demo_candidate 7"
    by (simp add: contact_eligible_def kind)
  have "\<exists>r t. reserve_member demo_chrono 1 1 36000 demo_candidate 7 demo_contact_store = (Inr r, t)
      \<and> contacted r = [7] \<and> er_scope r = EngGuild 1 2"
    by (simp add: reserve_member_def unproven_invitation_def kind eligible [unfolded One_nat_def] member_allowed_def
        demo_allowed demo_capacity contact_destination_def Let_def contacted_def)
  then show ?thesis
    using due by (simp add: reserve_contact_def kind i64_max_def)
qed

theorem contact_needs_consent_witness:
  "consents demo_chrono demo_contact_store (EngGuild 1 2) 36000 7"
proof -
  from demo_reserved_contact obtain r t where
    "reserve_contact demo_chrono (\<lambda>_. []) 1 1 36000 demo_contact_store = (Inr r, t)" "contacted r = [7]"
    "er_scope r = EngGuild 1 2" by blast
  with contact_needs_consent [OF demo_contact_ok this(1)] show ?thesis
    by (metis list.set_intros(1))
qed

theorem contact_stays_within_budget_witness:
  "\<exists>r t. reserve_contact demo_chrono (\<lambda>_. []) 1 1 36000 demo_contact_store = (Inr r, t)
     \<and> within_budget demo_chrono demo_contact_store t 36000 7"
proof -
  from demo_reserved_contact obtain r t where
    r: "reserve_contact demo_chrono (\<lambda>_. []) 1 1 36000 demo_contact_store = (Inr r, t)" "contacted r = [7]"
    by blast
  with contact_stays_within_budget [OF demo_contact_ok r(1)] show ?thesis by auto
qed

end
