(* ===== verification/Engagement_Moves.thy ===== *)
theory Engagement_Moves
  imports Engagement_Commit Engagement_Machine
begin

text \<open>
  What each operation of the contact store may do to its candidates: states move forward
  along \<open>flow\<close>, the subject of a candidate never changes, new candidates take new ids, and
  the rows stay filed under their own ids. One lemma per operation.
\<close>

section \<open>What may happen to a candidate\<close>

definition flow :: "candidate_state \<Rightarrow> candidate_state \<Rightarrow> bool" where
  "flow a b \<longleftrightarrow> a = b \<or> a = CandPending \<or> a = CandReserved \<and> b \<noteq> CandPending
     \<or> a = CandCancelled \<and> (b = CandSent \<or> b = CandReviewRequired)"

definition evolves :: "candidate \<Rightarrow> candidate \<Rightarrow> bool" where
  "evolves b c \<longleftrightarrow> flow (cand_state b) (cand_state c) \<and> cand_id c = cand_id b \<and> cand_kind c = cand_kind b
     \<and> cand_source c = cand_source b \<and> cand_member c = cand_member b \<and> cand_due_at c = cand_due_at b
     \<and> cand_introduction_id c = cand_introduction_id b"

definition cand_moves :: "engagement_store \<Rightarrow> engagement_store \<Rightarrow> bool" where
  "cand_moves s t \<longleftrightarrow> eng_sequence s \<le> eng_sequence t
     \<and> (\<forall>i c. fmlookup (eng_candidates t) i = Some c \<longrightarrow>
          eng_sequence s < i \<and> i \<le> eng_sequence t
          \<or> (\<exists>b. fmlookup (eng_candidates s) i = Some b \<and> evolves b c))"

lemma flow_refl [simp]: "flow a a"
  by (simp add: flow_def)

lemma flow_trans: "flow a b \<Longrightarrow> flow b c \<Longrightarrow> flow a c"
  by (auto simp: flow_def)

lemma evolves_refl [simp]: "evolves c c"
  by (simp add: evolves_def)

lemma evolves_trans: "evolves a b \<Longrightarrow> evolves b c \<Longrightarrow> evolves a c"
  by (auto simp: evolves_def intro: flow_trans)

lemma cand_moves_refl [simp]: "cand_moves s s"
  by (auto simp: cand_moves_def)

lemma cand_moves_trans: "cand_moves s t \<Longrightarrow> cand_moves t u \<Longrightarrow> cand_moves s u"
  unfolding cand_moves_def by (meson evolves_trans le_less_trans less_le_trans order_trans)

text \<open>The ways a call touches the candidates: not at all, one of them, all of them, or a new one.\<close>

lemma cand_moves_same:
  "eng_candidates t = eng_candidates s \<Longrightarrow> eng_sequence t = eng_sequence s \<Longrightarrow> cand_moves s t"
  by (auto simp: cand_moves_def)

lemma cand_moves_one:
  assumes "fmlookup (eng_candidates s) i = Some b" and "evolves b c"
    and "eng_candidates t = fmupd i c (eng_candidates s)" and "eng_sequence t = eng_sequence s"
  shows "cand_moves s t"
  using assms by (auto simp: cand_moves_def)

lemma cand_moves_map:
  assumes "\<And>i b. fmlookup (eng_candidates s) i = Some b \<Longrightarrow> evolves b (f b)"
    and "eng_candidates t = fmmap f (eng_candidates s)" and "eng_sequence t = eng_sequence s"
  shows "cand_moves s t"
  using assms by (auto simp: cand_moves_def)

lemma cand_moves_new:
  assumes "eng_sequence s < i" and "eng_candidates t = fmupd i c (eng_candidates s)" and "eng_sequence t = i"
  shows "cand_moves s t"
  using assms by (auto simp: cand_moves_def)

lemma cand_moves_retain:
  assumes "eng_candidates t = fm_retain P (eng_candidates s)" and "eng_sequence t = eng_sequence s"
  shows "cand_moves s t"
  using assms by (force simp: cand_moves_def split: option.splits if_splits)

section \<open>Well-formed stores\<close>

text \<open>
  The part of validity that every change keeps, whether or not its commit validates: rows
  are filed under their own id, ids were issued, and no two candidates share an introduction.
\<close>

definition contact_wf :: "engagement_store \<Rightarrow> bool" where
  "contact_wf s \<longleftrightarrow> fm_all (\<lambda>i c. cand_id c = i \<and> i \<le> eng_sequence s) (eng_candidates s)
     \<and> fm_all (\<lambda>i n. intro_id n = i \<and> i \<le> eng_sequence s) (eng_introductions s)
     \<and> fm_all (\<lambda>i c. fm_all (\<lambda>j d. cand_introduction_id c = None
          \<or> cand_introduction_id c \<noteq> cand_introduction_id d \<or> i = j) (eng_candidates s)) (eng_candidates s)"

lemma contact_wfD:
  assumes "contact_wf s"
  shows "fmlookup (eng_candidates s) i = Some c \<Longrightarrow> cand_id c = i \<and> i \<le> eng_sequence s"
    and "fmlookup (eng_introductions s) m = Some n \<Longrightarrow> intro_id n = m \<and> m \<le> eng_sequence s"
    and "fmlookup (eng_candidates s) i = Some c \<Longrightarrow> fmlookup (eng_candidates s) j = Some d
      \<Longrightarrow> cand_introduction_id c = Some m \<Longrightarrow> cand_introduction_id d = Some m \<Longrightarrow> i = j"
  using assms unfolding contact_wf_def fm_all_iff by (blast, blast, fastforce)

lemma distinct_map_filter_inj:
  assumes "distinct (List.map_filter f xs)" and "a < length xs" "b < length xs"
    and "f (xs ! a) = Some v" and "f (xs ! b) = Some v"
  shows "a = b"
  using assms
proof (induction xs arbitrary: a b)
  case Nil
  then show ?case by simp
next
  case (Cons x xs)
  have "y \<in> set xs \<Longrightarrow> f y = Some v \<Longrightarrow> v \<in> set (List.map_filter f xs)" for y
    by (induction xs) (auto simp: List.map_filter_simps split: option.splits)
  then have mem: "k < length xs \<Longrightarrow> f (xs ! k) = Some v \<Longrightarrow> v \<in> set (List.map_filter f xs)" for k
    using nth_mem by blast
  from Cons.prems mem show ?case
    by (cases a; cases b) (auto simp: List.map_filter_simps split: option.splits intro: Cons.IH)
qed

lemma distinct_values_inj:
  assumes "distinct (List.map_filter f (fm_values m))" and "fmlookup m i = Some c" and "fmlookup m j = Some d"
    and "f c = Some v" and "f d = Some v"
  shows "i = j"
proof -
  have "\<exists>k < length (fm_keys m). fm_keys m ! k = i \<and> fm_values m ! k = c" if "fmlookup m i = Some c" for i c
  proof -
    from that have "i \<in> set (fm_keys m)" by (simp add: fmlookup_dom'_iff)
    then obtain k where "k < length (fm_keys m)" "fm_keys m ! k = i" by (meson in_set_conv_nth)
    with that show ?thesis by (intro exI [of _ k]) (simp add: fm_values_def)
  qed
  with assms(2,3) obtain a b where "a < length (fm_keys m)" "fm_keys m ! a = i" "fm_values m ! a = c"
    "b < length (fm_keys m)" "fm_keys m ! b = j" "fm_values m ! b = d" by blast
  moreover have "length (fm_values m) = length (fm_keys m)" by (simp add: fm_values_def)
  ultimately show ?thesis using distinct_map_filter_inj [OF assms(1), of a b v] assms(4,5) by auto
qed

lemma engagement_ok_wf: "engagement_ok ch s \<Longrightarrow> contact_wf s"
  unfolding contact_wf_def
proof (intro conjI fm_allI)
  assume ok: "engagement_ok ch s"
  fix i c assume c: "fmlookup (eng_candidates s) i = Some c"
  from engagement_okD(2) [OF ok c] show "cand_id c = i" "i \<le> eng_sequence s"
    by (auto simp: candidate_valid_def candidate_fields_valid_def)
  fix j d assume d: "fmlookup (eng_candidates s) j = Some d"
  show "cand_introduction_id c = None \<or> cand_introduction_id c \<noteq> cand_introduction_id d \<or> i = j"
    using distinct_values_inj [OF engagement_okD(3) [OF ok] c d]
    by (cases "cand_introduction_id c"; cases "cand_introduction_id d") auto
next
  assume ok: "engagement_ok ch s"
  fix i n assume n: "fmlookup (eng_introductions s) i = Some n"
  from engagement_okD(1) [OF ok n] show "intro_id n = i" "i \<le> eng_sequence s"
    by (auto simp: introduction_valid_def)
qed

text \<open>Well-formedness is kept by moves that add no candidate and keep the introductions' ids.\<close>

lemma contact_wf_keep:
  assumes wf: "contact_wf s" and seq: "eng_sequence t = eng_sequence s"
    and cands: "\<And>i c. fmlookup (eng_candidates t) i = Some c \<Longrightarrow>
      \<exists>b. fmlookup (eng_candidates s) i = Some b \<and> evolves b c"
    and intros: "\<And>i n. fmlookup (eng_introductions t) i = Some n \<Longrightarrow>
      \<exists>b. fmlookup (eng_introductions s) i = Some b \<and> intro_id n = intro_id b"
  shows "contact_wf t"
  unfolding contact_wf_def
proof (intro conjI fm_allI)
  fix i c assume c: "fmlookup (eng_candidates t) i = Some c"
  then obtain b where b: "fmlookup (eng_candidates s) i = Some b" "evolves b c" using cands by blast
  with contact_wfD(1) [OF wf b(1)] seq show "cand_id c = i" "i \<le> eng_sequence t" by (auto simp: evolves_def)
  fix j d assume "fmlookup (eng_candidates t) j = Some d"
  then obtain a where a: "fmlookup (eng_candidates s) j = Some a" "evolves a d" using cands by blast
  show "cand_introduction_id c = None \<or> cand_introduction_id c \<noteq> cand_introduction_id d \<or> i = j"
  proof (cases "cand_introduction_id c")
    case (Some m)
    then show ?thesis using contact_wfD(3) [OF wf b(1) a(1), of m] b(2) a(2) by (auto simp: evolves_def)
  qed simp
next
  fix i n assume "fmlookup (eng_introductions t) i = Some n"
  then obtain b where b: "fmlookup (eng_introductions s) i = Some b" "intro_id n = intro_id b" using intros by blast
  with contact_wfD(2) [OF wf b(1)] seq show "intro_id n = i" "i \<le> eng_sequence t" by auto
qed

section \<open>Every operation advances\<close>

definition advances :: "engagement_store \<Rightarrow> engagement_store \<Rightarrow> bool" where
  "advances s t \<longleftrightarrow> (contact_wf s \<longrightarrow> cand_moves s t \<and> contact_wf t)"

lemma advances_refl [simp]: "advances s s"
  by (simp add: advances_def)

lemma advances_trans: "advances s t \<Longrightarrow> advances t u \<Longrightarrow> advances s u"
  unfolding advances_def by (blast intro: cand_moves_trans)

lemma advances_publish: "cand_moves s t \<Longrightarrow> engagement_ok ch t \<Longrightarrow> advances s t"
  by (simp add: advances_def engagement_ok_wf)

lemma advances_keep:
  assumes "eng_sequence t = eng_sequence s"
    and "\<And>i c. contact_wf s \<Longrightarrow> fmlookup (eng_candidates t) i = Some c \<Longrightarrow>
      \<exists>b. fmlookup (eng_candidates s) i = Some b \<and> evolves b c"
    and "\<And>i n. contact_wf s \<Longrightarrow> fmlookup (eng_introductions t) i = Some n \<Longrightarrow>
      \<exists>b. fmlookup (eng_introductions s) i = Some b \<and> intro_id n = intro_id b"
  shows "advances s t"
  unfolding advances_def
proof
  assume wf: "contact_wf s"
  from assms(1) assms(2) [OF wf] have "cand_moves s t" by (auto simp: cand_moves_def)
  moreover have "contact_wf t" using wf assms(1) assms(2,3) [OF wf] by (rule contact_wf_keep)
  ultimately show "cand_moves s t \<and> contact_wf t" by simp
qed

lemma advances_same:
  assumes "eng_sequence t = eng_sequence s" "eng_candidates t = eng_candidates s"
    "eng_introductions t = eng_introductions s"
  shows "advances s t"
  using assms by (intro advances_keep) auto

lemma advances_one:
  assumes "fmlookup (eng_candidates s) i = Some b" "evolves b c" "eng_candidates t = fmupd i c (eng_candidates s)"
    "eng_sequence t = eng_sequence s" "eng_introductions t = eng_introductions s"
  shows "advances s t"
  using assms by (intro advances_keep) (auto split: if_splits)

lemma advances_map:
  assumes "\<And>b. evolves b (f b)" "eng_candidates t = fmmap f (eng_candidates s)"
    "eng_sequence t = eng_sequence s" "eng_introductions t = eng_introductions s"
  shows "advances s t"
  using assms by (intro advances_keep) auto

text \<open>Cancelling, settling and refusing.\<close>

lemma evolves_open:
  "open_state (cand_state b) \<Longrightarrow> flow (cand_state b) CandCancelled"
  by (cases "cand_state b") (auto simp: flow_def)

lemma advances_cancel_matching: "advances s (snd (cancel_matching P s))"
  by (rule advances_map [where f = "\<lambda>c. if P c \<and> open_state (cand_state c) then c\<lparr>cand_state := CandCancelled\<rparr> else c"])
    (auto simp: cancel_matching_def Let_def evolves_def evolves_open)

lemma advances_cancels:
  "advances s (snd (cancel_source scope m s))"
  "advances s (snd (cancel_member_origin member scope after s))"
  "advances s (snd (cancel_public_origin scope after s))"
  by (simp_all add: cancel_source_def cancel_member_origin_def cancel_public_origin_def advances_cancel_matching)

lemma advances_cancel_sources: "advances s (cancel_sources rows s)"
  unfolding cancel_sources_def
proof (induction rows arbitrary: s)
  case (Cons row rows)
  show ?case
    by (cases row) (auto intro: advances_trans [OF advances_cancels(1) Cons])
qed simp

lemma advances_recover: "advances s (snd (recover_reserved s))"
  by (rule advances_map [where f = recovered]) (auto simp: recover_reserved_def recovered_def evolves_def flow_def)

lemma advances_settle:
  assumes "settle_contact i outcome s = (Inr v, t)"
  shows "advances s t"
proof -
  note op = assms [unfolded settle_contact_def Let_def]
  from op obtain c state message where c: "fmlookup (eng_candidates s) i = Some c"
    and st: "outcome_state outcome = Inr (state, message)"
    and was: "cand_state c = CandReserved \<or> cand_state c = CandCancelled \<and> uncertain_outcome outcome"
    by (auto split: option.splits if_splits sum.splits prod.splits)
  have flow: "flow (cand_state c) state"
    using st was by (cases outcome) (auto simp: flow_def split: if_splits)
  have "eng_sequence t = eng_sequence s
      \<and> eng_candidates t = fmupd i (settled_candidate state message c) (eng_candidates s)
      \<and> (\<forall>m n. fmlookup (eng_introductions t) m = Some n \<longrightarrow>
          (\<exists>b. fmlookup (eng_introductions s) m = Some b \<and> intro_id n = intro_id b))"
    using op c st by (auto split: option.splits if_splits)
  then show ?thesis
    using c flow by (intro advances_keep) (auto simp: evolves_def settled_candidate_def split: if_splits)
qed

lemma advances_annotate: "advances s (annotate_failure i plan invalid outcome s)"
proof -
  have "advances s (set_candidate i (c\<lparr>cand_follow_up_reason := reason\<rparr>) s)"
    if "fmlookup (eng_candidates s) i = Some c" for c reason
    by (rule advances_one [OF that]) (simp_all add: evolves_def)
  then show ?thesis
    unfolding annotate_failure_def by (simp split: delivery_plan.split option.split)
qed

lemma advances_finish:
  assumes "finish_attempt ch idh snapshot plan invalid outcome s = (Inr v, t)"
  shows "advances s t"
  using assms advances_trans [OF advances_annotate advances_settle]
  by (auto simp: finish_attempt_def split: option.splits if_splits)

lemma advances_reject:
  assumes "reject_pending i revision plan s = (Inr v, t)"
  shows "advances s t"
proof (cases "t = s")
  case False
  with assms obtain c where c: "fmlookup (eng_candidates s) i = Some c" "cand_state c = CandPending"
    by (auto simp: reject_pending_def split: option.splits if_splits)
  then have rejected: "evolves c (c\<lparr>cand_state := CandRejected\<rparr>)"
    "evolves c (c\<lparr>cand_state := CandRejected, cand_follow_up_reason := reason\<rparr>)" for reason
    by (simp_all add: evolves_def flow_def)
  show ?thesis
  proof (cases plan)
    case (PlanTask task reason)
    with assms False c rejected(2) show ?thesis
      by (intro advances_one [OF c(1), where c = "c\<lparr>cand_state := CandRejected,
          cand_follow_up_reason := Some (or_else reason FuAccessDenied)\<rparr>"])
        (auto simp: reject_pending_def split: if_splits)
  next
    case (PlanIntroduction m)
    with assms False c rejected(1) show ?thesis
      by (intro advances_keep) (auto simp: reject_pending_def split: if_splits option.splits)
  next
    case PlanOther
    with assms False c rejected(1) show ?thesis
      by (intro advances_one [OF c(1)]) (auto simp: reject_pending_def split: if_splits)
  qed
qed simp

lemma advances_cancel_follow_up:
  assumes "cancel_task_follow_up i revision reason s = (Inr v, t)"
  shows "advances s t"
  using assms unfolding cancel_task_follow_up_def
  by (auto simp: evolves_def evolves_open split: option.splits if_splits intro!: advances_one)

lemma advances_cancel_listed:
  assumes "cancel_listed ids s = (Inr v, t)"
    and "\<And>i c. i \<in> set ids \<Longrightarrow> fmlookup (eng_candidates s) i = Some c \<Longrightarrow> flow (cand_state c) CandCancelled"
  shows "advances s t"
  using assms
proof (induction ids arbitrary: s)
  case (Cons i ids)
  then obtain c where c: "fmlookup (eng_candidates s) i = Some c" by (auto split: option.splits)
  let ?s = "s\<lparr>eng_candidates := fmupd i (c\<lparr>cand_state := CandCancelled\<rparr>) (eng_candidates s)\<rparr>"
  have "advances s ?s"
    using c Cons.prems(2) [of i c] by (intro advances_one [of s i c]) (auto simp: evolves_def)
  moreover have "advances ?s t"
    using c Cons.prems by (intro Cons.IH) (auto split: if_splits)
  ultimately show ?case by (rule advances_trans)
qed simp

lemma expired_weekly_open:
  "expired_weekly ch now cs = Inr ids \<Longrightarrow> i \<in> set ids \<Longrightarrow>
     \<exists>c \<in> set cs. cand_id c = i \<and> open_state (cand_state c)"
  by (induction cs arbitrary: ids) (auto split: if_splits)

lemma advances_expire:
  assumes "expire_missed_weekly ch now s = (Inr v, t)"
  shows "advances s t"
proof (cases "contact_wf s")
  case True
  from assms obtain ids where ids: "expired_weekly ch now (fm_values (eng_candidates s)) = Inr ids"
    by (auto simp: expire_missed_weekly_def split: if_splits sum.splits)
  with assms obtain u where u: "cancel_listed ids s = (Inr u, t)"
    by (cases "cancel_listed ids s")
      (auto simp: expire_missed_weekly_def split: if_splits elim!: op_then.elims)
  show ?thesis
  proof (rule advances_cancel_listed [OF u])
    fix i c assume "i \<in> set ids" and c: "fmlookup (eng_candidates s) i = Some c"
    then obtain d where d: "d \<in> set (fm_values (eng_candidates s))" "cand_id d = i" "open_state (cand_state d)"
      using expired_weekly_open [OF ids] by blast
    from d(1) obtain j where j: "fmlookup (eng_candidates s) j = Some d" unfolding mem_fm_values by blast
    with contact_wfD(1) [OF True j] d(2) c have "d = c" by simp
    with d(3) show "flow (cand_state c) CandCancelled" by (simp add: evolves_open)
  qed
qed (simp add: advances_def)

text \<open>Settings and controls.\<close>

lemma save_policyE:
  assumes "save_policy ch actor p s = (Inr v, t)"
  obtains "t = s\<lparr>eng_member_policies := fmupd actor (p\<lparr>mp_revision := Suc (mp_revision p)\<rparr>)
      (eng_member_policies s)\<rparr>" "member_policy_valid ch p"
  using assms by (auto simp: save_policy_def split: if_splits option.splits)

lemma advances_save_policy:
  assumes "save_policy ch actor p s = (Inr v, t)"
  shows "advances s t"
  using assms by (rule save_policyE) (auto intro: advances_same)

lemma advances_settings:
  "configure ch actor origin c s = (Inr v, t) \<Longrightarrow> advances s t"
  "update_policy ch actor change s = (Inr v, t) \<Longrightarrow> advances s t"
  "set_community guild manager feature enabled channel s = (Inr v, t) \<Longrightarrow> advances s t"
  "give_feedback actor i kind when_at s = (Inr v, t) \<Longrightarrow> advances s t"
proof -
  show "configure ch actor origin c s = (Inr v, t) \<Longrightarrow> advances s t"
    by (auto simp: configure_def Let_def intro: advances_save_policy)
  show "update_policy ch actor change s = (Inr v, t) \<Longrightarrow> advances s t"
    by (auto simp: update_policy_def split: sum.splits intro: advances_save_policy)
  show "set_community guild manager feature enabled channel s = (Inr v, t) \<Longrightarrow> advances s t"
    by (auto simp: set_community_def Let_def split: if_splits option.splits intro: advances_same)
  show "give_feedback actor i kind when_at s = (Inr v, t) \<Longrightarrow> advances s t"
    by (auto simp: give_feedback_def Let_def split: if_splits option.splits intro: advances_same)
qed

lemma advances_dismiss:
  assumes "dismiss actor i s = (Inr v, t)"
  shows "advances s t"
  using assms unfolding dismiss_def
  by (auto simp: evolves_def evolves_open split: option.splits if_splits intro!: advances_one)

lemma stop_storeE:
  assumes "stop_store ch actor origin scope s = (Inr v, t)"
  obtains policy saved where "set_stop origin scope True (policy_of s actor) = Inr policy"
    "save_policy ch actor policy s = (Inr (), saved)" "engagement_ok ch t"
    "t = saved\<lparr>eng_candidates := fmmap (\<lambda>c. if stop_hits actor origin scope
          (stopped_introductions actor origin scope saved) c then stopped_candidate c else c) (eng_candidates saved),
        eng_introductions := fmmap_keys (\<lambda>i n. if i |\<in>| stopped_introductions actor origin scope saved
          then stopped_introduction n else n) (eng_introductions saved)\<rparr>"
  using assms unfolding stop_store_def Let_def
  by (auto split: sum.splits prod.splits if_splits elim!: publishE)

lemma advances_stop:
  assumes "stop_store ch actor origin scope s = (Inr v, t)"
  shows "advances s t"
  using assms
proof (rule stop_storeE)
  fix policy saved
  let ?stop = "stopped_introductions actor origin scope saved"
  assume saved: "save_policy ch actor policy s = (Inr (), saved)" and ok: "engagement_ok ch t"
    and t: "t = saved\<lparr>eng_candidates := fmmap (\<lambda>c. if stop_hits actor origin scope ?stop c
          then stopped_candidate c else c) (eng_candidates saved),
        eng_introductions := fmmap_keys (\<lambda>i n. if i |\<in>| ?stop then stopped_introduction n else n)
          (eng_introductions saved)\<rparr>"
  have "cand_moves saved t"
    by (rule cand_moves_map [where f = "\<lambda>c. if stop_hits actor origin scope ?stop c then stopped_candidate c else c"])
      (auto simp: t stop_hits_def stopped_candidate_def evolves_def evolves_open)
  then have "advances saved t" using ok by (rule advances_publish)
  with advances_save_policy [OF saved] show ?thesis by (rule advances_trans)
qed

text \<open>New candidates and introductions.\<close>

lemma propose_candidateE:
  assumes "propose_candidate ch idh p now s = (r, t)"
  obtains (failed) e where "r = Inl e" "t = s"
  | (duplicate) "r = Inr None" "t = s"
  | (proposed) "r = Inr (Some (Suc (eng_sequence s)))" "engagement_ok ch t"
      "proposal_identity idh p |\<notin>| eng_erased_identities s"
      "t = s\<lparr>eng_sequence := Suc (eng_sequence s),
         eng_candidates := fmupd (Suc (eng_sequence s)) (proposed_candidate s p (Suc (eng_sequence s)))
           (eng_candidates s)\<rparr>"
proof -
  note op = assms [unfolded propose_candidate_def Let_def]
  show thesis
  proof (cases "\<exists>e. r = Inl e \<and> t = s")
    case True
    then show ?thesis using failed by blast
  next
    case ok: False
    show ?thesis
    proof (cases "r = Inr None \<and> t = s")
      case True
      then show ?thesis using duplicate by blast
    next
      case False
      with op ok have "proposal_identity idh p |\<notin>| eng_erased_identities s"
        "publish ch (Some (Suc (eng_sequence s))) (s\<lparr>eng_sequence := Suc (eng_sequence s),
           eng_candidates := fmupd (Suc (eng_sequence s)) (proposed_candidate s p (Suc (eng_sequence s)))
             (eng_candidates s)\<rparr>) s = (r, t)"
        by (cases "weekly_deadline ch (proposed_candidate s p (Suc (eng_sequence s)))";
            auto split: if_splits option.splits)+
      from this(2) this(1) ok show ?thesis by (cases rule: publishE) (auto intro: proposed)
    qed
  qed
qed

lemma advances_propose:
  assumes "propose_candidate ch idh p now s = (r, t)"
  shows "advances s t"
  using assms
proof (cases rule: propose_candidateE)
  case proposed
  show ?thesis by (rule advances_publish [OF cand_moves_new proposed(2)]) (auto simp: proposed(4))
qed simp_all

lemma advances_request:
  assumes "request_invitation ch idh kind r s = (Inr v, t)"
  shows "advances s t"
  using assms unfolding request_invitation_def admit_invitation_def
  by (auto split: if_splits option.splits elim!: publishE
      intro: advances_publish [OF cand_moves_same] advances_publish [OF cand_moves_new])

lemma create_introductionE:
  assumes "create_introduction ch idh members scope description now s = (Inr i, t)"
  obtains guild channel where "i = Suc (eng_sequence s)" "scope = EngGuild guild channel" "engagement_ok ch t"
    "t = s\<lparr>eng_sequence := Suc i,
       eng_introductions := fmupd i (new_introduction members scope channel description i) (eng_introductions s),
       eng_candidates := fmupd (Suc i) (introduction_candidate scope (guild_revision s guild) now i (Suc i))
         (eng_candidates s)\<rparr>"
  using assms unfolding create_introduction_def Let_def
  by (auto split: if_splits engagement_scope.splits elim!: publishE)

lemma advances_create:
  assumes "create_introduction ch idh members scope description now s = (Inr i, t)"
  shows "advances s t"
  using assms
proof (rule create_introductionE)
  fix guild channel
  assume new: "i = Suc (eng_sequence s)" "engagement_ok ch t"
    "t = s\<lparr>eng_sequence := Suc i,
       eng_introductions := fmupd i (new_introduction members scope channel description i) (eng_introductions s),
       eng_candidates := fmupd (Suc i) (introduction_candidate scope (guild_revision s guild) now i (Suc i))
         (eng_candidates s)\<rparr>"
  show ?thesis by (rule advances_publish [OF cand_moves_new new(2)]) (auto simp: new(1,3))
qed

lemma edit_introductionE:
  assumes "edit_introduction ch i member revision description destination s = (Inr v, t)"
  obtains n own m scope policy_revision where "fmlookup (eng_introductions s) i = Some n"
    "own_index (intro_members n) member = Some own" "editable n revision" "move_introduction destination n = Inr m"
    "v = Suc revision" "engagement_ok ch t"
    "t = s\<lparr>eng_introductions := fmupd i (m\<lparr>intro_revision := Suc revision,
           intro_descriptions := put_at own (Some description) (intro_descriptions m),
           intro_approvals := (None, None), intro_state := IntroPending\<rparr>) (eng_introductions s),
         eng_candidates := relink_candidates i (Suc revision) scope policy_revision (eng_candidates s)\<rparr>"
proof -
  note op = assms [unfolded edit_introduction_def Let_def]
  from op obtain n where n: "fmlookup (eng_introductions s) i = Some n" by (auto split: if_splits option.splits)
  note op = op [unfolded n option.case]
  from op obtain own where own: "own_index (intro_members n) member = Some own" by (auto split: if_splits option.splits)
  note op = op [unfolded own option.case]
  from op have ed: "editable n revision" by (auto split: if_splits)
  from op obtain m where m: "move_introduction destination n = Inr m"
    by (auto split: if_splits option.splits sum.splits)
  note op = op [unfolded m sum.case]
  from op ed obtain scope policy_revision where
    "publish ch (Suc revision) (s\<lparr>eng_introductions := fmupd i (m\<lparr>intro_revision := Suc revision,
           intro_descriptions := put_at own (Some description) (intro_descriptions m),
           intro_approvals := (None, None), intro_state := IntroPending\<rparr>) (eng_introductions s),
         eng_candidates := relink_candidates i (Suc revision) scope policy_revision (eng_candidates s)\<rparr>) s = (Inr v, t)"
    by (auto split: if_splits option.splits engagement_scope.splits)
  then show thesis
    by (cases rule: publishE) (use n own ed m in \<open>auto intro!: that\<close>)
qed

lemma advances_edit:
  assumes "edit_introduction ch i member revision description destination s = (Inr v, t)"
  shows "advances s t"
  using assms
proof (rule edit_introductionE)
  fix n own m scope policy_revision
  let ?f = "\<lambda>c. if cand_introduction_id c = Some i then c\<lparr>cand_revision := Suc revision, cand_scope := scope,
     cand_policy_revision := policy_revision\<rparr> else c"
  assume t: "t = s\<lparr>eng_introductions := fmupd i (m\<lparr>intro_revision := Suc revision,
           intro_descriptions := put_at own (Some description) (intro_descriptions m),
           intro_approvals := (None, None), intro_state := IntroPending\<rparr>) (eng_introductions s),
         eng_candidates := relink_candidates i (Suc revision) scope policy_revision (eng_candidates s)\<rparr>"
    and ok: "engagement_ok ch t"
  have "evolves b (?f b)" for b by (simp add: evolves_def)
  then have "cand_moves s t" by (rule cand_moves_map) (simp_all add: t relink_candidates_def)
  then show ?thesis using ok by (rule advances_publish)
qed

lemma approve_introductionE:
  assumes "approve_introduction ch i member revision s = (Inr v, t)"
  obtains n own where "fmlookup (eng_introductions s) i = Some n"
    "own_index (intro_members n) member = Some own" "editable n revision"
    "v \<longleftrightarrow> put_at own (Some revision) (intro_approvals n) = (Some revision, Some revision)"
    "t = s\<lparr>eng_introductions := fmupd i (n\<lparr>intro_approvals := put_at own (Some revision) (intro_approvals n),
       intro_state := (if v then IntroReady else intro_state n)\<rparr>) (eng_introductions s)\<rparr>"
proof -
  note op = assms [unfolded approve_introduction_def Let_def]
  from op obtain n where n: "fmlookup (eng_introductions s) i = Some n" by (auto split: option.splits)
  note op = op [unfolded n option.case]
  from op obtain own where own: "own_index (intro_members n) member = Some own" by (auto split: option.splits)
  note op = op [unfolded own option.case]
  from op have ed: "editable n revision" by (auto split: if_splits)
  let ?a = "put_at own (Some revision) (intro_approvals n)"
  from op ed have "v = (?a = (Some revision, Some revision))
      \<and> t = s\<lparr>eng_introductions := fmupd i (if ?a = (Some revision, Some revision)
           then n\<lparr>intro_approvals := ?a, intro_state := IntroReady\<rparr> else n\<lparr>intro_approvals := ?a\<rparr>)
         (eng_introductions s)\<rparr>"
    by (simp split: if_splits list.splits engagement_scope.splits)
  with n own ed show thesis by (intro that [of n own]) auto
qed

lemma advances_approve:
  assumes "approve_introduction ch i member revision s = (Inr v, t)"
  shows "advances s t"
  using assms by (rule approve_introductionE) (auto intro!: advances_keep split: if_splits)

lemma withdraw_introductionE:
  assumes "withdraw_introduction i member revision s = (Inr v, t)"
  obtains n c where "fmlookup (eng_introductions s) i = Some n" "member \<in> set (members_of (intro_members n))"
    "intro_revision n = revision" "c \<in> set (candidates_of s i)" "open_state (cand_state c)"
    "t = s\<lparr>eng_introductions := fmupd i (n\<lparr>intro_revision := Suc revision, intro_state := IntroCancelled,
        intro_approvals := (None, None)\<rparr>) (eng_introductions s),
      eng_candidates := fmmap (\<lambda>c. if cand_introduction_id c = Some i
        then c\<lparr>cand_state := CandCancelled, cand_revision := Suc revision\<rparr> else c) (eng_candidates s)\<rparr>"
  using assms unfolding withdraw_introduction_def
  by (auto split: if_splits option.splits simp: list_ex_iff)

lemma candidates_of_iff:
  "c \<in> set (candidates_of s m) \<longleftrightarrow> (\<exists>i. fmlookup (eng_candidates s) i = Some c) \<and> cand_introduction_id c = Some m"
  by (auto simp: candidates_of_def mem_fm_values fmlookup_ran'_iff)

lemma advances_withdraw:
  assumes "withdraw_introduction i member revision s = (Inr v, t)"
  shows "advances s t"
  using assms
proof (rule withdraw_introductionE)
  fix n c
  let ?f = "\<lambda>c. if cand_introduction_id c = Some i
      then c\<lparr>cand_state := CandCancelled, cand_revision := Suc revision\<rparr> else c"
  assume n: "fmlookup (eng_introductions s) i = Some n" and c: "c \<in> set (candidates_of s i)" "open_state (cand_state c)"
    and t: "t = s\<lparr>eng_introductions := fmupd i (n\<lparr>intro_revision := Suc revision, intro_state := IntroCancelled,
        intro_approvals := (None, None)\<rparr>) (eng_introductions s),
      eng_candidates := fmmap ?f (eng_candidates s)\<rparr>"
  have ev: "evolves b (?f b)" if wf: "contact_wf s" and b: "fmlookup (eng_candidates s) j = Some b" for j b
  proof (cases "cand_introduction_id b = Some i")
    case True
    from c(1) obtain k where k: "fmlookup (eng_candidates s) k = Some c" "cand_introduction_id c = Some i"
      by (auto simp: candidates_of_iff)
    have "j = k" by (rule contact_wfD(3) [OF wf b k(1) True k(2)])
    with b k(1) c(2) True show ?thesis by (simp add: evolves_def evolves_open)
  qed simp
  show ?thesis
  proof (rule advances_keep)
    fix j d assume wf: "contact_wf s" and "fmlookup (eng_candidates t) j = Some d"
    then obtain b where "fmlookup (eng_candidates s) j = Some b" "d = ?f b" by (auto simp: t)
    with ev [OF wf this(1)] show "\<exists>b. fmlookup (eng_candidates s) j = Some b \<and> evolves b d" by blast
  qed (use t n in \<open>auto split: if_splits\<close>)
qed

text \<open>Sources, assessments and planning.\<close>

lemma advances_observe:
  assumes "observe_engagement src s = (Inr v, t)"
  shows "advances s t"
proof -
  let ?a = "snd (cancel_public_origin (src_scope src) (saturating_add (src_at src) 1) s)"
  let ?b = "snd (cancel_member_origin (src_author src) (src_scope src) (saturating_add (src_at src) 1) ?a)"
  have cancelled: "advances s ?b"
    by (rule advances_trans [OF advances_cancels(3) advances_cancels(2)])
  have "advances ?b t \<or> t = s"
    using assms unfolding observe_engagement_def Let_def by (auto split: if_splits intro: advances_same)
  with cancelled show ?thesis by (auto intro: advances_trans)
qed

lemma advances_delete:
  assumes "delete_engagement_source channel message s = (Inr v, t)"
  shows "advances s t"
  using assms unfolding delete_engagement_source_def Let_def
  by (auto split: if_splits intro!: advances_trans [OF _ advances_cancel_sources] advances_same)

lemma advances_published:
  assumes "publish ch r t' s = (Inr v, t)" and "eng_candidates t' = eng_candidates s"
    and "eng_sequence t' = eng_sequence s"
  shows "advances s t"
  using assms by (auto elim!: publishE intro: advances_publish cand_moves_same)

lemma advances_complete:
  assumes "complete_engagement ch src response s = (Inr v, t)"
  shows "advances s t"
  using assms unfolding complete_engagement_def Let_def
  by (auto split: if_splits elim!: advances_published)

lemma advances_mark_weekly:
  assumes "mark_weekly ch member w sources due s = (Inr v, t)"
  shows "advances s t"
  using assms unfolding mark_weekly_def Let_def
  by (auto split: if_splits elim!: advances_published)

lemma advances_cursor:
  assumes "advance_community_cursor ch src s = (Inr v, t)"
  shows "advances s t"
  using assms unfolding advance_community_cursor_def by (rule advances_published) simp_all

lemma advances_assess:
  assumes "apply_assessment ch idh scope member revision sources weekly reduced outcome cited now s = (Inr v, t)"
  shows "advances s t"
proof -
  have "t = s \<or> t = snd (cancel_member_origin member scope (saturating_add (src_at (last sources)) 1) s)
      \<or> (\<exists>p r. propose_candidate ch idh p now s = (Inr r, t))"
    using assms unfolding apply_assessment_def
    by (auto split: if_splits option.splits sum.splits prod.splits)
  then show ?thesis by (auto intro: advances_cancels(2) advances_propose)
qed

lemma advances_each:
  assumes "propose_each ch idh facts now ps s = Inr (n, t)"
  shows "advances s t"
  using assms
proof (induction ps arbitrary: s n t)
  case Nil
  then show ?case by simp
next
  case (Cons p ps)
  from Cons.prems obtain row guild channel where row: "List.find (fact_matches p) (facts_rows facts) = Some row"
    and scope: "cp_scope p = EngGuild guild channel" and seq: "Suc (eng_sequence s) \<le> u64_max"
    by (auto split: option.splits engagement_scope.splits)
  let ?noted = "s\<lparr>eng_community_receipts := fmupd (Suc (eng_sequence s))
     \<lparr>cr_policy_revision = guild_revision s guild, cr_attempted_at = None, cr_evidence = cf_evidence row\<rparr>
     (eng_community_receipts s)\<rparr>"
  have noted: "advances s ?noted" by (rule advances_same) simp_all
  obtain r u where step: "propose_candidate ch idh p now ?noted = (r, u)" by (cases "propose_candidate ch idh p now ?noted")
  note u = advances_trans [OF noted advances_propose [OF step]]
  have i: "checked_add (eng_sequence s) 1 = Some (Suc (eng_sequence s))" using seq by simp
  note rest = Cons.prems [unfolded propose_each.simps row scope option.case i engagement_scope.case Let_def step prod.case]
  show ?case
  proof (cases r)
    case (Inl e)
    with rest show ?thesis by simp
  next
    case (Inr a)
    show ?thesis
    proof (cases a)
      case None
      let ?u = "u\<lparr>eng_community_receipts := fmdrop (Suc (eng_sequence s)) (eng_community_receipts u)\<rparr>"
      have "advances u ?u" by (rule advances_same) simp_all
      moreover have "advances ?u t"
        using rest Inr None by (intro Cons.IH) simp
      ultimately show ?thesis using u by (blast intro: advances_trans)
    next
      case (Some k)
      have "\<exists>m. propose_each ch idh facts now ps u = Inr (m, t)" using rest Inr Some by auto
      then have "advances u t" by (auto intro: Cons.IH)
      with u show ?thesis by (rule advances_trans)
    qed
  qed
qed

lemma advances_community:
  assumes "propose_community ch idh facts now s = (Inr v, t)"
  shows "advances s t"
  using assms unfolding propose_community_def
  by (auto split: if_splits sum.splits prod.splits elim!: publishE intro: advances_each)

lemma advances_follow_up:
  assumes "propose_linked_task_follow_up ch idh intent src member due now s = (Inr v, t)"
  shows "advances s t"
proof (cases "t = s")
  case False
  with assms obtain i u c where u: "propose_candidate ch idh (follow_up_proposal src member due) now s = (Inr (Some i), u)"
    and c: "fmlookup (eng_candidates u) i = Some c"
    and t: "\<exists>key. publish ch (Some i) (set_candidate i (c\<lparr>cand_work_ref := Some (fi_task intent),
      cand_expires_at := Some (fi_expires_at intent), cand_dedupe_key := key, cand_follow_up_reason := None\<rparr>) u) s
      = (Inr v, t)"
    by (auto simp: propose_linked_task_follow_up_def split: if_splits prod.splits sum.splits option.splits)
  from t obtain key where ok: "engagement_ok ch t" and t: "t = set_candidate i (c\<lparr>cand_work_ref := Some (fi_task intent),
      cand_expires_at := Some (fi_expires_at intent), cand_dedupe_key := key, cand_follow_up_reason := None\<rparr>) u"
    by (auto elim!: publishE)
  have "advances u t"
    using c by (intro advances_publish [OF cand_moves_one ok]) (auto simp: t evolves_def)
  with advances_propose [OF u] show ?thesis by (rule advances_trans)
qed simp

text \<open>Reservations, erasure and pruning.\<close>

lemma advances_reserve:
  assumes "reserve_contact ch idh i revision now s = (Inr v, t)"
  shows "advances s t"
  using assms
proof (cases rule: reserve_contactE)
  case (introduction c)
  have pending: "cand_state c = CandPending" using reserve_dueD(2) [OF introduction(2)] .
  from introduction(5) show ?thesis
  proof (cases rule: reserve_introductionE)
    case (reserved m n charges)
    show ?thesis
    proof (rule advances_keep)
      fix j k assume wf: "contact_wf s" and "fmlookup (eng_introductions t) j = Some k"
      with contact_wfD(2) [OF wf reserved(4)] reserved(4,8)
      show "\<exists>b. fmlookup (eng_introductions s) j = Some b \<and> intro_id k = intro_id b"
        by (auto split: if_splits)
    qed (use introduction(1) pending reserved(8) in \<open>auto simp: evolves_def flow_def split: if_splits\<close>)
  qed simp
next
  case (public c)
  have pending: "cand_state c = CandPending" using reserve_dueD(2) [OF public(2)] .
  from public(9) show ?thesis
  proof (cases rule: reserve_publicE)
    case (reserved receipt)
    show ?thesis
      by (rule advances_one [OF public(1), where c = "c\<lparr>cand_state := CandReserved,
          cand_policy_revision := cr_policy_revision receipt, cand_destination := PrefOrigin\<rparr>"])
        (simp_all add: reserved(3) pending evolves_def flow_def)
  qed simp
next
  case (member c who)
  have pending: "cand_state c = CandPending" using reserve_dueD(2) [OF member(2)] .
  from member(7) show ?thesis
  proof (cases rule: reserve_memberE)
    case (reserved b p destination)
    show ?thesis
      by (rule advances_one [OF member(1), where c = "c\<lparr>cand_state := CandReserved,
          cand_policy_revision := mp_revision p, cand_destination := destination\<rparr>"])
        (simp_all add: reserved(9) pending evolves_def flow_def)
  qed simp
qed simp

lemma erased_store_sel [simp]:
  "eng_sequence (erased_store idh scope member s) = eng_sequence s"
  "eng_candidates (erased_store idh scope member s)
     = fm_retain (\<lambda>i _. i |\<notin>| erased_candidates scope member s) (eng_candidates s)"
  "eng_introductions (erased_store idh scope member s)
     = fm_retain (\<lambda>i _. i |\<notin>| erased_introductions scope member s) (eng_introductions s)"
  "eng_erased_identities (erased_store idh scope member s) = erased_identities_after idh scope member s"
  by (simp_all add: erased_store_def Let_def)

lemma erase_learningE:
  assumes "erase_learning idh scope member s = (Inr n, t)"
  obtains "t = erased_store idh scope member s"
  using assms by (auto simp: erase_learning_def Let_def split: if_splits)

lemma advances_erase:
  assumes "erase_learning idh scope member s = (Inr n, t)"
  shows "advances s t"
  using assms
proof (rule erase_learningE)
  assume t: "t = erased_store idh scope member s"
  show ?thesis by (rule advances_keep) (auto simp: t split: option.splits if_splits)
qed

lemma prune_sel [simp]:
  "eng_sequence (prune_erasure_safety ch now s) = eng_sequence s"
  "eng_candidates (prune_erasure_safety ch now s) = eng_candidates s"
  "eng_introductions (prune_erasure_safety ch now s) = eng_introductions s"
  "eng_erased_identities (prune_erasure_safety ch now s) = eng_erased_identities s"
  "eng_member_policies (prune_erasure_safety ch now s) = eng_member_policies s"
  "eng_charges (prune_erasure_safety ch now s) = eng_charges s"
  by (simp_all add: prune_erasure_safety_def Let_def split: sum.split option.split)

lemma advances_prune: "advances s (prune_erasure_safety ch now s)"
  by (rule advances_same) simp_all

end
