(* ===== verification/Engagement_Calls.thy ===== *)
theory Engagement_Calls
  imports Engagement_Moves
begin

text \<open>
  The contact store over whole histories: every change the program commits to it, as the
  calls of a machine, and two properties of histories: one reservation per candidate and
  final outcomes.
\<close>

section \<open>Calls\<close>

datatype contact_change =
    ChConfigure u64 engagement_scope contact_settings
  | ChSnooze u64 u64 u64
  | ChResume u64 engagement_scope stop_scope
  | ChWeekly u64 engagement_scope bool "u8 option" "u8 option"
  | ChStop u64 engagement_scope stop_scope
  | ChFeature u64 bool community_feature bool "u64 option"
  | ChDismiss u64 u64
  | ChFeedback u64 u64 feedback_kind u64
  | ChInvite engagement_kind invitation_request
  | ChCreate "u64 \<times> u64" engagement_scope rstr u64
  | ChEdit u64 u64 u64 rstr "u64 option"
  | ChApprove u64 u64 u64
  | ChWithdraw u64 u64 u64
  | ChObserve source_ref
  | ChDelete u64 u64
  | ChCursor source_ref
  | ChComplete source_ref u64
  | ChAssess engagement_scope u64 u64 "source_ref list" "u64 option" bool conversation_outcome "u64 list" u64
  | ChMarkWeekly u64 weekly_subscription "source_ref fset" u64
  | ChCommunity community_facts u64
  | ChFollowUp follow_up_intent source_ref u64 u64 u64
  | ChExpire u64
  | ChCancelFollowUp u64 u64 follow_up_decision
  | ChReject u64 u64 delivery_plan
  | ChReserve u64 u64 u64
  | ChFinish candidate delivery_plan "follow_up_decision option" delivery_outcome

datatype contact_return =
  RetUnit | RetBool bool | RetNat nat | RetId "u64 option" | RetReserved engagement_reservation

definition returning :: "('a \<Rightarrow> contact_return) \<Rightarrow> 'a eng_op \<Rightarrow> contact_return eng_op" where
  "returning f change s = (case change s of (r, t) \<Rightarrow> (map_sum id f r, t))"

abbreviation "unit_op \<equiv> returning (\<lambda>_::unit. RetUnit)"

fun change_contact :: "'tz chrono \<Rightarrow> identity_hash \<Rightarrow> contact_change \<Rightarrow> contact_return eng_op" where
  "change_contact ch idh (ChConfigure actor origin c) = unit_op (configure ch actor origin c)"
| "change_contact ch idh (ChSnooze actor until now) = unit_op (update_policy ch actor (set_snooze until now))"
| "change_contact ch idh (ChResume actor origin scope) =
     unit_op (update_policy ch actor (set_stop origin scope False))"
| "change_contact ch idh (ChWeekly actor origin enabled weekday hour) =
     unit_op (update_policy ch actor (set_weekly origin enabled weekday hour))"
| "change_contact ch idh (ChStop actor origin scope) = unit_op (stop_store ch actor origin scope)"
| "change_contact ch idh (ChFeature guild manager feature enabled channel) =
     unit_op (set_community guild manager feature enabled channel)"
| "change_contact ch idh (ChDismiss actor i) = unit_op (dismiss actor i)"
| "change_contact ch idh (ChFeedback actor i kind at_time) = unit_op (give_feedback actor i kind at_time)"
| "change_contact ch idh (ChInvite kind r) = returning RetId (request_invitation ch idh kind r)"
| "change_contact ch idh (ChCreate members scope description now) =
     returning (RetId \<circ> Some) (create_introduction ch idh members scope description now)"
| "change_contact ch idh (ChEdit i member revision description destination) =
     returning RetNat (edit_introduction ch i member revision description destination)"
| "change_contact ch idh (ChApprove i member revision) =
     returning RetBool (approve_introduction ch i member revision)"
| "change_contact ch idh (ChWithdraw i member revision) = unit_op (withdraw_introduction i member revision)"
| "change_contact ch idh (ChObserve src) = returning RetBool (observe_engagement src)"
| "change_contact ch idh (ChDelete channel message) = unit_op (delete_engagement_source channel message)"
| "change_contact ch idh (ChCursor src) = unit_op (advance_community_cursor ch src)"
| "change_contact ch idh (ChComplete src response) = unit_op (complete_engagement ch src response)"
| "change_contact ch idh (ChAssess scope member revision sources weekly reduced outcome cited now) =
     unit_op (apply_assessment ch idh scope member revision sources weekly reduced outcome cited now)"
| "change_contact ch idh (ChMarkWeekly member w sources due) = unit_op (mark_weekly ch member w sources due)"
| "change_contact ch idh (ChCommunity facts now) = returning RetNat (propose_community ch idh facts now)"
| "change_contact ch idh (ChFollowUp intent src member due now) =
     returning RetId (propose_linked_task_follow_up ch idh intent src member due now)"
| "change_contact ch idh (ChExpire now) = returning RetNat (expire_missed_weekly ch now)"
| "change_contact ch idh (ChCancelFollowUp i revision reason) =
     returning RetBool (cancel_task_follow_up i revision reason)"
| "change_contact ch idh (ChReject i revision plan) = unit_op (reject_pending i revision plan)"
| "change_contact ch idh (ChReserve i revision now) = returning RetReserved (reserve_contact ch idh i revision now)"
| "change_contact ch idh (ChFinish snapshot plan invalid outcome) =
     unit_op (finish_attempt ch idh snapshot plan invalid outcome)"

text \<open>Changes a member or the gateway asks for are committed with a full validation.\<close>

fun checked_change :: "contact_change \<Rightarrow> bool" where
  "checked_change (ChComplete _ _) = False"
| "checked_change (ChAssess _ _ _ _ _ _ _ _ _) = False"
| "checked_change (ChMarkWeekly _ _ _ _) = False"
| "checked_change (ChCommunity _ _) = False"
| "checked_change (ChFollowUp _ _ _ _ _) = False"
| "checked_change (ChExpire _) = False"
| "checked_change (ChCancelFollowUp _ _ _) = False"
| "checked_change (ChReject _ _ _) = False"
| "checked_change (ChReserve _ _ _) = False"
| "checked_change (ChFinish _ _ _ _) = False"
| "checked_change _ = True"

text \<open>
  A commit with the time it is admitted and the answer of the persistence owner; an
  erasure; a write of the published state for another owner's sake; a restart from the
  state file, which is validated and turns unfinished attempts into attempts to review.
\<close>

datatype contact_call =
    Commit contact_change u64 write_result
  | Erase rstr "u64 option" u64 write_result
  | Save write_result
  | Restart

definition restart_contact :: "'tz chrono \<Rightarrow> contact_state \<Rightarrow> (work_error + contact_return) \<times> contact_state" where
  "restart_contact ch st =
     (case cs_saved st of (saved, ledger) \<Rightarrow>
        if \<not> ledger_valid ledger then (Inl Invalid, st)
        else case engagement_validate ch saved of
            Inl e \<Rightarrow> (Inl e, st)
          | Inr _ \<Rightarrow> let (n, s) = recover_reserved saved
                     in (Inr (RetNat n), st\<lparr>cs_store := s, cs_ledger := ledger\<rparr>))"

fun contact_step ::
  "'tz chrono \<Rightarrow> identity_hash \<Rightarrow> erasure_digest \<Rightarrow> contact_call \<Rightarrow> contact_state
     \<Rightarrow> (work_error + contact_return) \<times> contact_state" where
  "contact_step ch idh ed (Commit change admitted written) st =
     commit_contact ch ed (checked_change change) (change_contact ch idh change) admitted written st"
| "contact_step ch idh ed (Erase scope member now written) st =
     (case erase_contact idh ed scope member now written st of (r, st') \<Rightarrow> (map_sum id RetNat r, st'))"
| "contact_step ch idh ed (Save written) st = (Inr RetUnit, store_file written (cs_store st) (cs_ledger st) st)"
| "contact_step ch idh ed Restart st = restart_contact ch st"

abbreviation stored :: "engagement_store \<Rightarrow> contact_state" where
  "stored s \<equiv> \<lparr>cs_store = s, cs_ledger = [], cs_saved = (s, [])\<rparr>"

definition empty_contact :: contact_state where
  "empty_contact = stored empty_engagement"

lemma returning_Inr:
  assumes "returning f change s = (Inr v, t)"
  obtains w where "change s = (Inr w, t)" "v = f w"
  using assms by (cases "change s"; cases "fst (change s)") (auto simp: returning_def)

lemma advances_change:
  assumes "change_contact ch idh change s = (Inr v, t)"
  shows "advances s t"
  using assms
  by (cases change) (auto elim!: returning_Inr intro: advances_settings advances_stop advances_dismiss
      advances_request advances_create advances_edit advances_approve advances_withdraw advances_observe
      advances_delete advances_cursor advances_complete advances_assess advances_mark_weekly advances_community
      advances_follow_up advances_expire advances_cancel_follow_up advances_reject advances_reserve advances_finish)

lemma contact_stepE:
  assumes "contact_step ch idh ed call st = (r, st')"
  obtains (failed) e where "r = Inl e" "st' = st"
  | (committed) change admitted written v s where "call = Commit change admitted written"
      "r = (if written = Written then Inr v else Inl Persistence)" "written \<noteq> Unwritten"
      "change_contact ch idh change (prune_erasure_safety ch admitted (cs_store st)) = (Inr v, s)"
      "erasure_admitted (ledger_blocks ed (cs_ledger st)) (prune_erasure_safety ch admitted (cs_store st)) admitted s"
      "cs_store st' = (if written = Written then s else cs_store st)" "cs_ledger st' = cs_ledger st"
      "cs_saved st' = (s, cs_ledger st)"
  | (erased) scope member now written n s ledger where "call = Erase scope member now written"
      "erase_learning idh scope member (cs_store st) = (Inr n, s)"
      "ledger_insert ed scope (map_option native_member member) now (cs_ledger st) = Inr ledger"
      "cs_store st' = s" "cs_ledger st' = ledger"
      "cs_saved st' = (if written = Unwritten then cs_saved st else (s, ledger))"
      "r = (if written = Written then Inr (RetNat n) else Inl Persistence)"
  | (saved) written where "call = Save written" "r = Inr RetUnit" "cs_store st' = cs_store st"
      "cs_ledger st' = cs_ledger st"
      "cs_saved st' = (if written = Unwritten then cs_saved st else (cs_store st, cs_ledger st))"
  | (restarted) n where "call = Restart" "engagement_ok ch (fst (cs_saved st))" "r = Inr (RetNat n)"
      "cs_store st' = snd (recover_reserved (fst (cs_saved st)))" "cs_ledger st' = snd (cs_saved st)"
      "cs_saved st' = cs_saved st"
proof (cases call)
  case (Commit change admitted written)
  with assms have op: "commit_contact ch ed (checked_change change) (change_contact ch idh change) admitted
      written st = (r, st')" by simp
  then show thesis
  proof (cases rule: commit_contactE)
    case (committed v s)
    with Commit show thesis by (intro that(2)) auto
  qed (rule that(1))
next
  case (Erase scope member now written)
  with assms obtain q where op: "erase_contact idh ed scope member now written st = (q, st')" "r = map_sum id RetNat q"
    by (auto split: prod.splits)
  from op(1) show thesis
  proof (cases rule: erase_contactE)
    case (erased n s ledger)
    with Erase op(2) show thesis by (intro that(3)) auto
  qed (use op(2) that(1) in auto)
next
  case (Save written)
  with assms show thesis by (intro that(4) [of written]) auto
next
  case Restart
  with assms have "restart_contact ch st = (r, st')" by simp
  then show thesis
    by (cases "cs_saved st")
      (auto simp: restart_contact_def engagement_ok_def recover_reserved_def Restart split: sum.splits if_splits
        intro: that(1) that(5))
qed

text \<open>Whatever the state and its file hold after a step was held before or follows from it.\<close>

definition held :: "contact_state \<Rightarrow> engagement_store set" where
  "held st = {cs_store st, fst (cs_saved st)}"

lemma held_step:
  assumes "contact_step ch idh ed call st = (r, st')" and "t \<in> held st'"
  shows "\<exists>s \<in> held st. advances s t"
  using assms(1)
proof (cases rule: contact_stepE)
  case (committed change admitted written v s)
  from advances_trans [OF advances_prune advances_change [OF committed(4)]] assms(2) committed(6,8)
  show ?thesis by (auto simp: held_def split: if_splits)
next
  case (erased scope member now written n s ledger)
  with advances_erase [OF erased(2)] assms(2) show ?thesis by (auto simp: held_def split: if_splits)
next
  case (saved written)
  with assms(2) show ?thesis by (auto simp: held_def split: if_splits)
next
  case (restarted n)
  with advances_recover [of "fst (cs_saved st)"] assms(2) show ?thesis by (auto simp: held_def)
qed (use assms(2) in \<open>auto intro: advances_refl\<close>)

section \<open>One reservation, one outcome\<close>

definition contact_inv :: "contact_state \<Rightarrow> bool" where
  "contact_inv st \<longleftrightarrow> contact_wf (cs_store st) \<and> contact_wf (fst (cs_saved st))"

definition used_up :: "engagement_store \<Rightarrow> u64 \<Rightarrow> bool" where
  "used_up s i \<longleftrightarrow> i \<le> eng_sequence s
     \<and> is_none_or (fmlookup (eng_candidates s) i) (\<lambda>c. cand_state c \<noteq> CandPending)"

definition contact_spent :: "contact_state \<Rightarrow> u64 \<Rightarrow> bool" where
  "contact_spent st i \<longleftrightarrow> used_up (cs_store st) i \<and> used_up (fst (cs_saved st)) i"

fun reserves_candidate :: "contact_call \<Rightarrow> work_error + contact_return \<Rightarrow> u64 \<Rightarrow> bool" where
  "reserves_candidate (Commit (ChReserve i revision now) admitted written) (Inr v) j = (i = j)"
| "reserves_candidate _ _ _ = False"

lemma contact_wf_empty: "contact_wf empty_engagement"
  by (simp add: contact_wf_def empty_engagement_def)

lemma contact_inv_held: "contact_inv st \<longleftrightarrow> (\<forall>s \<in> held st. contact_wf s)"
  by (simp add: contact_inv_def held_def)

lemma moves_step:
  assumes "contact_inv st" and "contact_step ch idh ed call st = (r, st')" and "t \<in> held st'"
  shows "\<exists>s \<in> held st. contact_wf s \<and> cand_moves s t \<and> contact_wf t"
  using held_step [OF assms(2,3)] assms(1) by (auto simp: advances_def contact_inv_held)

lemma cand_moves_known:
  "cand_moves s t \<Longrightarrow> i \<le> eng_sequence s \<Longrightarrow> fmlookup (eng_candidates t) i = Some c
     \<Longrightarrow> \<exists>b. fmlookup (eng_candidates s) i = Some b \<and> evolves b c"
  unfolding cand_moves_def by (meson leD)

lemma evolves_pending: "evolves b c \<Longrightarrow> cand_state c = CandPending \<Longrightarrow> cand_state b = CandPending"
  by (auto simp: evolves_def flow_def)

lemma used_up_moves: "cand_moves s t \<Longrightarrow> used_up s i \<Longrightarrow> used_up t i"
  using cand_moves_known [of s t i] evolves_pending
  by (auto simp: used_up_def is_none_or_iff cand_moves_def)

lemma contact_spent_held: "contact_spent st i \<longleftrightarrow> (\<forall>s \<in> held st. used_up s i)"
  by (simp add: contact_spent_def held_def)

lemma reserved_step:
  assumes "contact_inv st" and "contact_step ch idh ed call st = (r, st')" and "reserves_candidate call r i"
  shows "\<not> used_up (cs_store st) i \<and> contact_spent st' i"
  using assms(2)
proof (cases rule: contact_stepE)
  case (committed change admitted written v s)
  let ?p = "prune_erasure_safety ch admitted (cs_store st)"
  from assms(3) committed obtain revision now where ch: "change = ChReserve i revision now" "written = Written"
    by (cases "(call, r, i)" rule: reserves_candidate.cases) (auto split: if_splits)
  with committed(4) obtain w where op: "reserve_contact ch idh i revision now ?p = (Inr w, s)"
    by (auto elim: returning_Inr)
  then obtain c where c: "fmlookup (eng_candidates (cs_store st)) i = Some c" "cand_state c = CandPending"
    "\<exists>d. fmlookup (eng_candidates s) i = Some d \<and> cand_state d = CandReserved" "eng_sequence s = eng_sequence ?p"
  proof (cases rule: reserve_contactE)
    case (introduction c)
    from introduction(5) show ?thesis using introduction(1) reserve_dueD(2) [OF introduction(2)]
      by (cases rule: reserve_introductionE) (auto intro: that)
  next
    case (public c)
    from public(9) show ?thesis using public(1) reserve_dueD(2) [OF public(2)]
      by (cases rule: reserve_publicE) (auto intro: that)
  next
    case (member c who)
    from member(7) show ?thesis using member(1) reserve_dueD(2) [OF member(2)]
      by (cases rule: reserve_memberE) (auto intro: that)
  qed simp
  moreover have "i \<le> eng_sequence (cs_store st)"
    using contact_wfD(1) [OF _ c(1)] assms(1) by (simp add: contact_inv_def)
  ultimately show ?thesis using ch(2) by (auto simp: contact_spent_def used_up_def committed(6,8))
qed (use assms(3) in \<open>auto split: if_splits\<close>)

interpretation contact: once_machine "contact_step ch idh ed" empty_contact contact_inv contact_spent
  reserves_candidate
proof
  fix st call r st'
  show "contact_inv empty_contact" by (simp add: contact_inv_def empty_contact_def contact_wf_empty)
  assume inv: "contact_inv st" and step: "contact_step ch idh ed call st = (r, st')"
  note moves = moves_step [OF inv step]
  then show "contact_inv st'" by (auto simp: contact_inv_held)
  fix i
  show "contact_spent st' i" if "contact_spent st i"
    using that moves used_up_moves by (fastforce simp: contact_spent_held)
  show "\<not> contact_spent st i" "contact_spent st' i" if "reserves_candidate call r i"
    using reserved_step [OF inv step that] by (simp_all add: contact_spent_def)
qed

text \<open>Between two states of a history.\<close>

lemma moves_trace:
  assumes "trace (contact_step ch idh ed) st h st'" and "contact_inv st" and "t \<in> held st'"
  shows "\<exists>s \<in> held st. cand_moves s t"
proof -
  have "\<forall>t \<in> held st'. \<exists>s \<in> held st. cand_moves s t"
    using assms(1,2)
  proof (rule contact.trace_relates)
    show "\<forall>t \<in> held u. \<exists>s \<in> held st. cand_moves s t"
      if "contact_inv st" "contact_step ch idh ed call st = (r, u)" for call st r u
      using moves_step [OF that] by blast
    show "\<forall>t \<in> held st. \<exists>s \<in> held st. cand_moves s t" for st
      using cand_moves_refl by blast
    show "\<forall>t \<in> held w. \<exists>s \<in> held u. cand_moves s t"
      if "\<forall>t \<in> held v. \<exists>s \<in> held u. cand_moves s t" "\<forall>t \<in> held w. \<exists>s \<in> held v. cand_moves s t" for u v w
      using that by (meson cand_moves_trans)
  qed
  then show ?thesis using assms(3) by blast
qed

text \<open>
  C3. A candidate is reserved at most once, whatever is committed, erased or restarted
  before, between and after: no person is contacted twice for the same reason.
\<close>

theorem contact_reserved_at_most_once:
  assumes "trace (contact_step ch idh ed) empty_contact h st"
  shows "length (filter (\<lambda>(call, r). reserves_candidate call r i) h) \<le> 1"
  using assms by (rule contact.fires_at_most_once)

text \<open>
  C23. Outcomes are final. From a saved state on, whatever follows, a candidate keeps its
  kind, source, member, due time and introduction; an attempt that was sent, rejected or
  handed to review stays so; nothing becomes pending again; and an id whose candidate was
  erased is not used again.
\<close>

theorem contact_outcome_is_final:
  assumes "contact_wf s" and "cs_store st = s" "fst (cs_saved st) = s" and "trace (contact_step ch idh ed) st h st'"
    and "i \<le> eng_sequence s" and "fmlookup (eng_candidates (cs_store st')) i = Some c"
  shows "\<exists>b. fmlookup (eng_candidates s) i = Some b \<and> evolves b c
    \<and> (cand_state b = CandSent \<or> cand_state b = CandRejected \<or> cand_state b = CandReviewRequired
        \<longrightarrow> cand_state c = cand_state b)
    \<and> (cand_state b \<noteq> CandPending \<longrightarrow> cand_state c \<noteq> CandPending)"
proof -
  have "contact_inv st" using assms(1-3) by (simp add: contact_inv_def)
  with moves_trace [OF assms(4), of "cs_store st'"] assms(2,3) have "cand_moves s (cs_store st')"
    by (auto simp: held_def)
  from cand_moves_known [OF this assms(5,6)] obtain b
    where b: "fmlookup (eng_candidates s) i = Some b" "evolves b c" by blast
  then have "flow (cand_state b) (cand_state c)" by (simp add: evolves_def)
  with b show ?thesis by (auto simp: flow_def)
qed

section \<open>An example history\<close>

text \<open>
  Member 7 saves settings, writes message 5, gets the answer 9, and the exchange is
  assessed as unresolved; next day at ten the follow-up is reserved.
\<close>

lemma prune_nothing:
  "eng_erased_contact_charges s = [] \<Longrightarrow> eng_erased_community_charges s = [] \<Longrightarrow> prune_erasure_safety ch now s = s"
  by (cases s) (auto simp: prune_erasure_safety_def Let_def split: sum.split option.split)

lemma admitted_without_ledger:
  "eng_community_receipts s = fmempty \<Longrightarrow> eng_weekly_assessments s = fmempty
     \<Longrightarrow> erasure_admitted (ledger_blocks ed []) before admitted s"
  by (simp add: erasure_admitted_def ledger_blocks_def request_permitted_def sources_admitted_def
      source_permitted_def candidate_admitted_def Let_def policy_admitted_def fm_all_iff is_none_or_iff list_all_iff)

lemma commit_step:
  assumes "eng_erased_contact_charges s = []" "eng_erased_community_charges s = []"
    and "change_contact ch idh change s = (Inr v, t)" and "checked_change change \<Longrightarrow> engagement_ok ch t"
    and "eng_community_receipts t = fmempty" "eng_weekly_assessments t = fmempty"
  shows "contact_step ch idh ed (Commit change admitted Written) (stored s) = (Inr v, stored t)"
  using assms
  by (simp add: commit_contact_def prune_nothing admitted_without_ledger engagement_ok_def store_file_def Let_def)

definition demo_settings :: contact_settings where
  "demo_settings = \<lparr>set_daily = 2, set_timezone = lit ''UTC'', set_weekly_limit = Some 3,
     set_quiet_start = None, set_quiet_end = None, set_destination = None\<rparr>"

definition demo_store ::
  "(engagement_scope, (u64, source_ref) fmap) fmap \<Rightarrow> (u64, u64) fmap \<Rightarrow> (u64, source_ref fset) fmap
     \<Rightarrow> nat \<Rightarrow> (u64, candidate) fmap \<Rightarrow> engagement_store" where
  "demo_store obs resp elig seq cands = empty_engagement\<lparr>eng_member_policies := fmupd 7 demo_member_policy fmempty,
     eng_observations := obs, eng_responses := resp, eng_eligibility := elig, eng_sequence := seq,
     eng_candidates := cands\<rparr>"

definition demo_observed :: "(engagement_scope, (u64, source_ref) fmap) fmap" where
  "demo_observed = fmupd (EngGuild 1 2) (fmupd 7 demo_source fmempty) fmempty"

definition demo_follow_up :: candidate where
  "demo_follow_up = demo_candidate\<lparr>cand_due_at := 86500\<rparr>"

abbreviation "demo_store_1 \<equiv> demo_store fmempty fmempty fmempty 0 fmempty"
abbreviation "demo_store_2 \<equiv> demo_store demo_observed fmempty fmempty 0 fmempty"
abbreviation "demo_store_3 \<equiv> demo_store demo_observed (fmupd 5 9 fmempty) (fmupd 7 {|demo_source|} fmempty) 0 fmempty"
abbreviation "demo_store_4 \<equiv> demo_store demo_observed (fmupd 5 9 fmempty) (fmupd 7 {|demo_source|} fmempty) 1
  (fmupd 1 demo_follow_up fmempty)"

lemma demo_store_sel [simp]:
  "eng_candidates (demo_store a b c k d) = d" "eng_introductions (demo_store a b c k d) = fmempty"
  "eng_sequence (demo_store a b c k d) = k" "eng_observations (demo_store a b c k d) = a"
  "eng_responses (demo_store a b c k d) = b" "eng_eligibility (demo_store a b c k d) = c"
  "eng_member_policies (demo_store a b c k d) = fmupd 7 demo_member_policy fmempty"
  "eng_charges (demo_store a b c k d) = []" "eng_erased_contact_charges (demo_store a b c k d) = []"
  "eng_erased_community_charges (demo_store a b c k d) = []" "eng_community_receipts (demo_store a b c k d) = fmempty"
  "eng_invitation_requests (demo_store a b c k d) = fmempty"
  "eng_suppressed_invitations (demo_store a b c k d) = fmempty"
  "eng_feedback (demo_store a b c k d) = fmempty" "eng_community_cursor (demo_store a b c k d) = None"
  "eng_erased_identities (demo_store a b c k d) = {||}" "eng_safety_pruned_through (demo_store a b c k d) = 0"
  "eng_weekly_assessments (demo_store a b c k d) = fmempty" "eng_guild_features (demo_store a b c k d) = fmempty"
  by (simp_all add: demo_store_def empty_engagement_def)

lemma demo_follow_up_sel [simp]:
  "cand_id demo_follow_up = 1" "cand_kind demo_follow_up = KindFollowUp"
  "cand_source demo_follow_up = Some demo_source" "cand_member demo_follow_up = Some 7"
  "cand_scope demo_follow_up = EngGuild 1 2" "cand_due_at demo_follow_up = 86500"
  "cand_revision demo_follow_up = 1" "cand_state demo_follow_up = CandPending"
  "cand_dedupe_key demo_follow_up = lit ''engagement:'' @ decimal 1" "cand_work_ref demo_follow_up = None"
  "cand_introduction_id demo_follow_up = None" "cand_message_id demo_follow_up = None"
  "cand_expires_at demo_follow_up = None" "cand_follow_up_reason demo_follow_up = None"
  "cand_destination demo_follow_up = PrefOrigin"
  by (simp_all add: demo_follow_up_def demo_candidate_def)

lemma demo_source_valid: "source_valid demo_source" "src_scope demo_source = EngGuild 1 2" "src_author demo_source = 7"
  "src_message demo_source = 5" "src_at demo_source = 100" "src_revision demo_source = 1"
  by (simp_all add: demo_source_def source_valid_def)

lemma demo_stored_policy: "stored_policy_valid demo_chrono 7 demo_member_policy"
  using demo_policy_valid
  by (simp add: stored_policy_valid_def policy_scopes_def) (simp add: demo_member_policy_def default_member_policy_def)

text \<open>Every store of the example is valid.\<close>

lemma demo_store_ok:
  assumes "obs = fmempty \<or> obs = demo_observed" and "resp = fmempty \<or> resp = fmupd 5 9 fmempty"
    and "elig = fmempty \<or> elig = fmupd 7 {|demo_source|} fmempty"
    and "cands = fmempty \<or> k = 1 \<and> cands = fmupd 1 demo_follow_up fmempty"
  shows "engagement_ok demo_chrono (demo_store obs resp elig k cands)"
  unfolding engagement_ok_iff
proof (intro conjI)
  let ?s = "demo_store obs resp elig k cands"
  note sizes = fm_len_upd fcard.rep_eq List.map_filter_simps
  have open_one: "open_candidates ?s \<le> 1" using assms(4) by (auto simp: open_candidates_def)
  have cand: "candidate_valid demo_chrono ?s 1 demo_follow_up" if "k = 1"
    using that demo_source_valid
    by (simp add: candidate_valid_def candidate_fields_valid_def candidate_links_valid_def task_follow_up_valid_def
        needs_member_def decimal.simps [of "Suc 0"] byte_len_def utf8_len_def)
  have obs: "fm_all observations_valid obs" "fm_len obs \<le> 1" "sum_list (map fm_len (fm_values obs)) \<le> 1"
    using assms(1) demo_source_valid by (auto simp: demo_observed_def observations_valid_def sizes)
  have resp: "fm_all (\<lambda>a b. a \<noteq> 0 \<and> b \<noteq> 0) resp" "fm_len resp \<le> 1" using assms(2) by (auto simp: sizes)
  have elig: "fm_all eligibility_valid elig" "fm_len elig \<le> 1" "sum_list (map fcard (fm_values elig)) \<le> 1"
    using assms(3) demo_source_valid by (auto simp: eligibility_valid_def sizes)
  have size: "fm_len cands \<le> 1" using assms(4) by (auto simp: sizes)
  show "list_all snd (erased_checks demo_chrono ?s)"
    by (simp add: erased_checks_def fcard.rep_eq)
  show "list_all snd (invitation_checks demo_chrono ?s)"
    using size assms(4) by (auto simp: invitation_checks_def)
  show "list_all snd (community_checks demo_chrono ?s)"
    by (simp add: community_checks_def)
  show "list_all snd (store_checks demo_chrono ?s)"
    using open_one obs resp elig size by (simp add: store_checks_def sizes demo_stored_policy)
  show "list_all snd (link_checks demo_chrono ?s)"
    using cand assms(4) by (auto simp: link_checks_def Let_def sizes candidate_identity_def)
qed

lemma demo_change_1:
  "change_contact demo_chrono idh (ChConfigure 7 (EngGuild 1 2) demo_settings) empty_engagement
     = (Inr RetUnit, demo_store_1)"
proof -
  have p: "member_policy_valid demo_chrono (demo_member_policy\<lparr>mp_revision := 0\<rparr>)"
    using demo_policy_valid(1) by (simp add: member_policy_valid_def policy_scopes_def)
  have "configure demo_chrono 7 (EngGuild 1 2) demo_settings empty_engagement
      = save_policy demo_chrono 7 (demo_member_policy\<lparr>mp_revision := 0\<rparr>) empty_engagement"
    by (simp add: configure_def Let_def policy_of_def empty_engagement_def demo_settings_def or_else_def
        demo_member_policy_def default_member_policy_def)
  also have "\<dots> = (Inr (), demo_store_1)"
    using p by (simp add: save_policy_def empty_engagement_def demo_store_def) (simp add: demo_member_policy_def default_member_policy_def u64_max_def)
  finally show ?thesis by (simp add: returning_def)
qed

lemma demo_change_2:
  "change_contact demo_chrono idh (ChObserve demo_source) demo_store_1 = (Inr (RetBool True), demo_store_2)"
proof -
  have "observe_engagement demo_source demo_store_1 = (Inr True, demo_store_2)"
    by (simp add: observe_engagement_def demo_source_valid observed_def Let_def cancel_member_origin_def
        cancel_public_origin_def cancel_matching_def or_else_def)
      (simp add: demo_store_def demo_observed_def empty_engagement_def)
  then show ?thesis by (simp add: returning_def)
qed

lemma publish_ok: "engagement_ok ch t \<Longrightarrow> publish ch r t s = (Inr r, t)"
  by (simp add: publish_def engagement_ok_def)

lemma demo_current: "current_source (demo_store demo_observed b c k d) demo_source"
  by (simp add: current_source_def observed_def demo_observed_def demo_source_valid)

lemma few_sources:
  assumes "fcard sources \<le> 3"
  shows "outdated_sources sources scope = {||}"
proof -
  have "\<not> 4 \<le> fcard (ffilter P (ffilter Q sources))" for P Q :: "source_ref \<Rightarrow> bool"
  proof -
    have "ffilter P (ffilter Q sources) |\<subseteq>| sources" by auto
    from fcard_mono [OF this] assms show ?thesis by linarith
  qed
  then show ?thesis by (auto simp: outdated_sources_def Let_def)
qed

lemma demo_change_3:
  "change_contact demo_chrono idh (ChComplete demo_source 9) demo_store_2 = (Inr RetUnit, demo_store_3)"
proof -
  have old: "outdated_sources {|demo_source|} (EngGuild 1 2) = {||}"
    by (rule few_sources) (simp add: fcard.rep_eq)
  have ok: "engagement_ok demo_chrono demo_store_3" by (rule demo_store_ok) auto
  have eq: "demo_store_2\<lparr>eng_eligibility := fmupd 7 {|demo_source|} fmempty, eng_responses := fmupd 5 9 fmempty\<rparr> = demo_store_3"
    by (simp add: demo_store_def)
  with ok have "complete_engagement demo_chrono demo_source 9 demo_store_2 = (Inr (), demo_store_3)"
    by (simp add: complete_engagement_def demo_current demo_source_valid or_else_def old [unfolded One_nat_def] Let_def fm_retain_upd
        eq [unfolded One_nat_def] publish_ok)
  then show ?thesis by (simp add: returning_def)
qed

lemma demo_change_4:
  "change_contact demo_chrono idh
     (ChAssess (EngGuild 1 2) 7 1 [demo_source] None False Unresolved [5] 200) demo_store_3
     = (Inr RetUnit, demo_store_4)"
proof -
  let ?p = "\<lparr>cp_kind = KindFollowUp, cp_source = Some demo_source, cp_member = Some 7,
     cp_scope = EngGuild 1 2, cp_due_at = 86500, cp_introduction_id = None\<rparr>"
  have policy: "mp_revision demo_member_policy = 1" "\<not> stopped_in demo_member_policy (EngGuild 1 2)"
    "mp_destinations demo_member_policy = fmempty"
    by (simp_all add: demo_member_policy_def default_member_policy_def)
  have fresh: "\<not> assessment_stale demo_chrono demo_store_3 (EngGuild 1 2) 7 1 [demo_source]"
    using demo_policy_valid(2) policy demo_current
    by (simp add: assessment_stale_def contact_enabled_def)
  have cand: "proposed_candidate demo_store_3 ?p 1 = demo_follow_up"
    using policy
    by (simp add: proposed_candidate_def Let_def preferred_origin_def demo_follow_up_def demo_candidate_def)
  have ok: "engagement_ok demo_chrono demo_store_4" by (rule demo_store_ok) auto
  have store: "demo_store_3\<lparr>eng_sequence := 1, eng_candidates := fmupd 1 demo_follow_up fmempty\<rparr> = demo_store_4"
    by (simp add: demo_store_def)
  have "propose_candidate demo_chrono idh ?p 200 demo_store_3 = (Inr (Some 1), demo_store_4)"
    using ok
    by (simp add: cand [unfolded One_nat_def] store [unfolded One_nat_def] propose_candidate_def demo_source_valid i64_max_def u64_max_def proposal_full_def open_candidates_def
        proposal_denied_def Let_def weekly_deadline_def publish_ok)
  then have "apply_assessment demo_chrono idh (EngGuild 1 2) 7 1 [demo_source] None False Unresolved [5] 200 demo_store_3
      = (Inr (), demo_store_4)"
    using fresh by (simp add: apply_assessment_def demo_source_valid assessment_due_def or_else_def u64_max_def)
  then show ?thesis by (simp add: returning_def)
qed

lemma demo_change_5:
  "\<exists>r t. change_contact demo_chrono idh (ChReserve 1 1 122400) demo_store_4 = (Inr (RetReserved r), t)
     \<and> eng_community_receipts t = fmempty \<and> eng_weekly_assessments t = fmempty \<and> eng_sequence t = 1
     \<and> (\<exists>c. fmlookup (eng_candidates t) 1 = Some c \<and> cand_state c = CandReserved)"
proof -
  have bounds: "122400 \<le> i64_max" by (simp add: i64_max_def)
  have "allowed_with_reason demo_chrono demo_store_4 demo_follow_up 7 122400 = Inr (decimal 1, decimal 0)"
    using demo_policy_valid bounds
    by (simp add: allowed_with_reason_def demo_member_policy_def default_member_policy_def
        relabel_def calendar_buckets_def Let_def quiet_now_def) (simp add: demo_chrono_def relabel_def)
  then have allowed: "contact_allowed demo_chrono demo_store_4 demo_follow_up 7 122400 = Inr (decimal 1, decimal 0)"
    by (simp add: contact_allowed_def)
  have capacity: "contact_capacity demo_chrono demo_store_4 7 122400 b = Inr ()" for b
    using bounds by (simp add: contact_capacity_def demo_member_policy_def default_member_policy_def Let_def
      member_rows_def) (simp add: demo_chrono_def)
  have due: "reserve_due demo_chrono demo_follow_up 1 122400 = Inr ()"
    by (simp add: reserve_due_def weekly_window_def weekly_deadline_def task_follow_up_window_def)
  have eligible: "contact_eligible demo_store_4 demo_follow_up 7"
    by (simp add: contact_eligible_def)
  have receipt: "attempt_receipt 1 122400 demo_store_4 = demo_store_4" by (simp add: attempt_receipt_def)
  have "\<exists>r t. reserve_member demo_chrono 1 1 122400 demo_follow_up 7 demo_store_4 = (Inr r, t)
      \<and> eng_community_receipts t = fmempty \<and> eng_weekly_assessments t = fmempty \<and> eng_sequence t = 1
     \<and> (\<exists>c. fmlookup (eng_candidates t) 1 = Some c \<and> cand_state c = CandReserved)"
    by (simp add: reserve_member_def unproven_invitation_def eligible [unfolded One_nat_def] member_allowed_def
        allowed [unfolded One_nat_def] capacity [unfolded One_nat_def] contact_destination_def Let_def
        receipt [unfolded One_nat_def]) (simp add: set_candidate_def)
  then show ?thesis
    using due bounds by (simp add: reserve_contact_def returning_def) fastforce?
qed

lemma demo_contact_history:
  "\<exists>h st r. trace (contact_step demo_chrono idh ed) empty_contact
       ((Commit (ChReserve 1 1 122400) 122400 Written, Inr (RetReserved r)) # h) st
     \<and> length h = 4 \<and> eng_sequence (cs_store st) = 1 \<and> fst (cs_saved st) = cs_store st
     \<and> (\<exists>c. fmlookup (eng_candidates (cs_store st)) 1 = Some c \<and> cand_state c = CandReserved)"
proof -
  let ?step = "contact_step demo_chrono idh ed"
  have ok: "engagement_ok demo_chrono demo_store_1" "engagement_ok demo_chrono demo_store_2"
    by (rule demo_store_ok; auto)+
  have s1: "?step (Commit (ChConfigure 7 (EngGuild 1 2) demo_settings) 50 Written) empty_contact
      = (Inr RetUnit, (stored demo_store_1))"
    unfolding empty_contact_def
    by (rule commit_step [OF _ _ demo_change_1]) (simp_all add: ok empty_engagement_def)
  have s2: "?step (Commit (ChObserve demo_source) 100 Written) (stored demo_store_1)
      = (Inr (RetBool True), (stored demo_store_2))"
    by (rule commit_step [OF _ _ demo_change_2]) (simp_all add: ok)
  have s3: "?step (Commit (ChComplete demo_source 9) 150 Written) (stored demo_store_2)
      = (Inr RetUnit, (stored demo_store_3))"
    by (rule commit_step [OF _ _ demo_change_3]) simp_all
  have s4: "?step (Commit (ChAssess (EngGuild 1 2) 7 1 [demo_source] None False Unresolved [5] 200) 200 Written)
      (stored demo_store_3) = (Inr RetUnit, (stored demo_store_4))"
    by (rule commit_step [OF _ _ demo_change_4]) simp_all
  from demo_change_5 obtain r t where t:
    "change_contact demo_chrono idh (ChReserve 1 1 122400) demo_store_4 = (Inr (RetReserved r), t)"
    "eng_community_receipts t = fmempty" "eng_weekly_assessments t = fmempty" "eng_sequence t = 1"
    "\<exists>c. fmlookup (eng_candidates t) 1 = Some c \<and> cand_state c = CandReserved" by blast
  have s5: "?step (Commit (ChReserve 1 1 122400) 122400 Written) (stored demo_store_4)
      = (Inr (RetReserved r), (stored t))"
    by (rule commit_step [OF _ _ t(1)]) (simp_all add: t)
  note first = trace_call [where step = ?step, OF trace_start s1]
  note history = trace_call [where step = ?step, OF trace_call [where step = ?step, OF trace_call
    [where step = ?step, OF trace_call [where step = ?step, OF first s2] s3] s4] s5]
  show ?thesis
    by (rule exI, rule exI [of _ "(stored t)"], rule exI [of _ r], rule conjI [OF history])
      (use t(4,5) in simp)
qed

definition demo_digest :: erasure_digest where
  "demo_digest = \<lparr>ed_subject = \<lambda>scope _. scope, ed_reactor = \<lambda>scope _. scope\<rparr>"

theorem contact_reserved_at_most_once_witness:
  "\<exists>h st. trace (contact_step demo_chrono (\<lambda>_. []) demo_digest) empty_contact h st
     \<and> length (filter (\<lambda>(call, r). reserves_candidate call r 1) h) = 1"
proof -
  from demo_contact_history [of "\<lambda>_. []" demo_digest] obtain h st r where
    t: "trace (contact_step demo_chrono (\<lambda>_. []) demo_digest) empty_contact
      ((Commit (ChReserve 1 1 122400) 122400 Written, Inr (RetReserved r)) # h) st" by blast
  from contact_reserved_at_most_once [OF t, of 1] t show ?thesis
    by (intro exI [of _ "(Commit (ChReserve 1 1 122400) 122400 Written, Inr (RetReserved r)) # h"] exI [of _ st]) simp
qed

theorem contact_outcome_is_final_witness:
  "\<exists>st. contact_wf (cs_store st) \<and> fst (cs_saved st) = cs_store st \<and> eng_candidates (cs_store st) \<noteq> fmempty
     \<and> (\<forall>h st' c. trace (contact_step demo_chrono (\<lambda>_. []) demo_digest) st h st' \<longrightarrow>
          fmlookup (eng_candidates (cs_store st')) 1 = Some c \<longrightarrow> cand_state c \<noteq> CandPending)"
proof -
  from demo_contact_history [of "\<lambda>_. []" demo_digest] obtain h st r c where
    t: "trace (contact_step demo_chrono (\<lambda>_. []) demo_digest) empty_contact
      ((Commit (ChReserve 1 1 122400) 122400 Written, Inr (RetReserved r)) # h) st" and
    c: "eng_sequence (cs_store st) = 1" "fst (cs_saved st) = cs_store st" "fmlookup (eng_candidates (cs_store st)) 1 = Some c"
      "cand_state c = CandReserved" by blast
  from contact.trace_inv [OF t] have wf: "contact_wf (cs_store st)" by (simp add: contact_inv_def)
  have "cand_state d \<noteq> CandPending"
    if "trace (contact_step demo_chrono (\<lambda>_. []) demo_digest) st k st'" "fmlookup (eng_candidates (cs_store st')) 1 = Some d"
    for k st' d
    using contact_outcome_is_final [OF wf refl c(2) that(1) _ that(2)] c by auto
  moreover have "eng_candidates (cs_store st) \<noteq> fmempty" using c(3) by auto
  ultimately show ?thesis using wf c(2) by blast
qed

end
