(* ===== verification/Engagement_Consent.thy ===== *)
theory Engagement_Consent
  imports Engagement_Calls
begin

text \<open>
  Introductions over whole histories: every stored text and approval has the call of its
  member behind it, and what is published are the texts the members wrote last and approved
  afterwards. Which operations leave introductions alone is shown here once.
\<close>

section \<open>Introductions and their history\<close>

type_synonym contact_history = "(contact_call \<times> (work_error + contact_return)) list"

text \<open>
  A call whose write was not confirmed was answered with an error but may be in the file
  (and so in a store loaded later); the id an unconfirmed creation used is not known.
\<close>

definition unconfirmed :: "contact_call \<times> (work_error + contact_return) \<Rightarrow> bool" where
  "unconfirmed x \<longleftrightarrow> (\<exists>change a. x = (Commit change a Unconfirmed, Inl Persistence))"

definition writes :: "contact_call \<times> (work_error + contact_return) \<Rightarrow> u64 \<Rightarrow> u64 \<Rightarrow> rstr \<Rightarrow> bool" where
  "writes x i m d \<longleftrightarrow>
     (\<exists>members scope now a w. fst x = Commit (ChCreate members scope d now) a w \<and> m = fst members
        \<and> (snd x = Inr (RetId (Some i)) \<or> unconfirmed x))
     \<or> (\<exists>revision destination a w. fst x = Commit (ChEdit i m revision d destination) a w
        \<and> ((\<exists>v. snd x = Inr v) \<or> unconfirmed x))"

definition approves :: "contact_call \<times> (work_error + contact_return) \<Rightarrow> u64 \<Rightarrow> u64 \<Rightarrow> u64 \<Rightarrow> bool" where
  "approves x i m k \<longleftrightarrow> (\<exists>a w. fst x = Commit (ChApprove i m k) a w \<and> ((\<exists>v. snd x = Inr v) \<or> unconfirmed x))"

text \<open>
  The last text a member wrote into an introduction, and an approval no later edit undid.
\<close>

definition last_wrote :: "contact_history \<Rightarrow> u64 \<Rightarrow> u64 \<Rightarrow> rstr \<Rightarrow> bool" where
  "last_wrote h i m d \<longleftrightarrow> (\<exists>later x earlier. h = later @ x # earlier \<and> writes x i m d
     \<and> (\<forall>y \<in> set later. \<forall>d'. writes y i m d' \<longrightarrow> unconfirmed y))"

definition approved_since_edit :: "contact_history \<Rightarrow> u64 \<Rightarrow> u64 \<Rightarrow> u64 \<Rightarrow> bool" where
  "approved_since_edit h i m k \<longleftrightarrow> (\<exists>later x earlier. h = later @ x # earlier \<and> approves x i m k
     \<and> (\<forall>y \<in> set later. \<forall>m' d'. writes y i m' d' \<longrightarrow> unconfirmed y))"

lemma last_wrote_now: "writes x i m d \<Longrightarrow> last_wrote (x # h) i m d"
  unfolding last_wrote_def by (rule exI [of _ "[]"]) simp

lemma last_wrote_later:
  "last_wrote h i m d \<Longrightarrow> (\<And>d'. writes x i m d' \<Longrightarrow> unconfirmed x) \<Longrightarrow> last_wrote (x # h) i m d"
  unfolding last_wrote_def by (elim exE conjE, rule_tac x = "x # later" in exI) auto

lemma approved_now: "approves x i m k \<Longrightarrow> approved_since_edit (x # h) i m k"
  unfolding approved_since_edit_def by (rule exI [of _ "[]"]) simp

lemma approved_later:
  "approved_since_edit h i m k \<Longrightarrow> (\<And>m' d'. writes x i m' d' \<Longrightarrow> unconfirmed x)
     \<Longrightarrow> approved_since_edit (x # h) i m k"
  unfolding approved_since_edit_def by (elim exE conjE, rule_tac x = "x # later" in exI) auto

definition introduction_explained :: "contact_history \<Rightarrow> u64 \<Rightarrow> introduction \<Rightarrow> bool" where
  "introduction_explained h i n \<longleftrightarrow> fst (intro_members n) \<noteq> snd (intro_members n)
     \<and> (\<forall>own d. get_at own (intro_descriptions n) = Some d \<longrightarrow> last_wrote h i (get_at own (intro_members n)) d)
     \<and> (\<forall>own k. get_at own (intro_approvals n) = Some k
          \<longrightarrow> approved_since_edit h i (get_at own (intro_members n)) k)"

text \<open>What a call that neither writes nor approves may do to an introduction.\<close>

definition intro_kept :: "introduction \<Rightarrow> introduction \<Rightarrow> bool" where
  "intro_kept b n \<longleftrightarrow> intro_members n = intro_members b \<and> intro_descriptions n = intro_descriptions b
     \<and> (intro_approvals n = intro_approvals b \<or> intro_approvals n = (None, None))"

definition intros_kept :: "engagement_store \<Rightarrow> engagement_store \<Rightarrow> bool" where
  "intros_kept s t \<longleftrightarrow> (\<forall>i n. fmlookup (eng_introductions t) i = Some n \<longrightarrow>
     (\<exists>b. fmlookup (eng_introductions s) i = Some b \<and> intro_kept b n))"

lemma intro_kept_refl [simp]: "intro_kept n n"
  by (simp add: intro_kept_def)

lemma intros_kept_same: "eng_introductions t = eng_introductions s \<Longrightarrow> intros_kept s t"
  by (simp add: intros_kept_def)

lemma intros_kept_one:
  "fmlookup (eng_introductions s) i = Some b \<Longrightarrow> intro_kept b n
     \<Longrightarrow> eng_introductions t = fmupd i n (eng_introductions s) \<Longrightarrow> intros_kept s t"
  by (auto simp: intros_kept_def)

lemma get_at_None [simp]: "get_at own (None, None) = None"
  by (cases own) simp_all

lemma explained_kept:
  assumes "introduction_explained h i b" and "intro_kept b n" and "\<And>m d. writes x i m d \<Longrightarrow> unconfirmed x"
  shows "introduction_explained (x # h) i n"
  using assms by (auto simp: introduction_explained_def intro_kept_def intro: last_wrote_later approved_later)

section \<open>Operations that leave introductions and replay identities alone\<close>

definition untouched :: "engagement_store \<Rightarrow> engagement_store \<Rightarrow> bool" where
  "untouched s t \<longleftrightarrow> eng_introductions t = eng_introductions s \<and> eng_erased_identities t = eng_erased_identities s"


lemma untouched_refl [simp]: "untouched s s"
  by (simp add: untouched_def)

lemma untouched_trans: "untouched s t \<Longrightarrow> untouched t u \<Longrightarrow> untouched s u"
  by (simp add: untouched_def)

lemma cancel_sel [simp]:
  "eng_introductions (snd (cancel_source scope m s)) = eng_introductions s"
  "eng_introductions (snd (cancel_member_origin member scope after s)) = eng_introductions s"
  "eng_introductions (snd (cancel_public_origin scope after s)) = eng_introductions s"
  "eng_introductions (snd (recover_reserved s)) = eng_introductions s"
  "eng_erased_identities (snd (cancel_source scope m s)) = eng_erased_identities s"
  "eng_erased_identities (snd (cancel_member_origin member scope after s)) = eng_erased_identities s"
  "eng_erased_identities (snd (cancel_public_origin scope after s)) = eng_erased_identities s"
  "eng_erased_identities (snd (recover_reserved s)) = eng_erased_identities s"
  by (simp_all add: cancel_matching_def cancel_source_def cancel_member_origin_def cancel_public_origin_def
      recover_reserved_def Let_def)

lemma cancel_sources_sel [simp]:
  "eng_introductions (cancel_sources rows s) = eng_introductions s"
  "eng_erased_identities (cancel_sources rows s) = eng_erased_identities s"
  unfolding cancel_sources_def by (induction rows arbitrary: s) (auto split: prod.splits)

lemma annotate_sel [simp]:
  "eng_introductions (annotate_failure i plan invalid outcome s) = eng_introductions s"
  "eng_erased_identities (annotate_failure i plan invalid outcome s) = eng_erased_identities s"
  by (simp_all add: annotate_failure_def set_candidate_def split: delivery_plan.split option.split)

lemma cancel_listed_untouched: "cancel_listed ids s = (r, t) \<Longrightarrow> untouched s t"
  by (induction ids arbitrary: s) (auto simp: untouched_def split: option.splits dest!: meta_spec)

lemma propose_untouched: "propose_candidate ch idh p now s = (r, t) \<Longrightarrow> untouched s t"
  by (erule propose_candidateE) (simp_all add: untouched_def)

lemma publish_value: "publish ch r t' s = (Inr v, t) \<Longrightarrow> t = t'"
  by (erule publishE) simp_all

lemma each_untouched: "propose_each ch idh facts now ps s = Inr (n, t) \<Longrightarrow> untouched s t"
proof (induction ps arbitrary: s n t)
  case (Cons p ps)
  then show ?case
    unfolding untouched_def
    by (auto split: option.splits engagement_scope.splits prod.splits sum.splits
        dest!: propose_untouched [unfolded untouched_def])
qed simp

lemma save_policy_untouched: "save_policy ch actor p s = (Inr v, t) \<Longrightarrow> untouched s t"
  by (erule save_policyE) (simp add: untouched_def)

lemma settings_untouched:
  "configure ch actor origin c s = (Inr v, t) \<Longrightarrow> untouched s t"
  "update_policy ch actor change s = (Inr v, t) \<Longrightarrow> untouched s t"
  "set_community guild manager feature enabled channel s = (Inr v, t) \<Longrightarrow> untouched s t"
  "give_feedback actor i kind when_at s = (Inr v, t) \<Longrightarrow> untouched s t"
  "dismiss actor i s = (Inr v, t) \<Longrightarrow> untouched s t"
  "cancel_task_follow_up i revision reason s = (Inr b, t) \<Longrightarrow> untouched s t"
proof -
  show "configure ch actor origin c s = (Inr v, t) \<Longrightarrow> untouched s t"
    by (auto simp: configure_def Let_def dest: save_policy_untouched)
  show "update_policy ch actor change s = (Inr v, t) \<Longrightarrow> untouched s t"
    by (auto simp: update_policy_def split: sum.splits dest: save_policy_untouched)
  show "set_community guild manager feature enabled channel s = (Inr v, t) \<Longrightarrow> untouched s t"
    by (auto simp: set_community_def untouched_def Let_def split: if_splits option.splits)
  show "give_feedback actor i kind when_at s = (Inr v, t) \<Longrightarrow> untouched s t"
    by (auto simp: give_feedback_def untouched_def Let_def split: if_splits option.splits)
  show "dismiss actor i s = (Inr v, t) \<Longrightarrow> untouched s t"
    by (auto simp: dismiss_def untouched_def set_candidate_def split: if_splits option.splits)
  show "cancel_task_follow_up i revision reason s = (Inr b, t) \<Longrightarrow> untouched s t"
    by (auto simp: cancel_task_follow_up_def untouched_def set_candidate_def split: if_splits option.splits)
qed

lemma source_untouched:
  "observe_engagement src s = (Inr b, t) \<Longrightarrow> untouched s t"
  "delete_engagement_source channel message s = (Inr v, t) \<Longrightarrow> untouched s t"
  "complete_engagement ch src response s = (Inr v, t) \<Longrightarrow> untouched s t"
  "mark_weekly ch member w asked due s = (Inr v, t) \<Longrightarrow> untouched s t"
  "advance_community_cursor ch src s = (Inr v, t) \<Longrightarrow> untouched s t"
  "expire_missed_weekly ch now s = (Inr n, t) \<Longrightarrow> untouched s t"
  "apply_assessment ch idh scope member revision sources weekly reduced outcome cited now s = (Inr v, t)
     \<Longrightarrow> untouched s t"
proof -
  show "observe_engagement src s = (Inr b, t) \<Longrightarrow> untouched s t"
    by (auto simp: observe_engagement_def untouched_def Let_def split: if_splits)
  show "delete_engagement_source channel message s = (Inr v, t) \<Longrightarrow> untouched s t"
    by (auto simp: delete_engagement_source_def untouched_def Let_def split: if_splits)
  show "complete_engagement ch src response s = (Inr v, t) \<Longrightarrow> untouched s t"
    by (auto simp: complete_engagement_def Let_def untouched_def split: if_splits dest!: publish_value)
  show "mark_weekly ch member w asked due s = (Inr v, t) \<Longrightarrow> untouched s t"
    by (auto simp: mark_weekly_def Let_def untouched_def split: if_splits dest!: publish_value)
  show "advance_community_cursor ch src s = (Inr v, t) \<Longrightarrow> untouched s t"
    by (auto simp: advance_community_cursor_def untouched_def dest!: publish_value)
  show "expire_missed_weekly ch now s = (Inr n, t) \<Longrightarrow> untouched s t"
    by (auto simp: expire_missed_weekly_def op_then_Inr split: if_splits sum.splits dest: cancel_listed_untouched)
  show "untouched s t"
    if "apply_assessment ch idh scope member revision sources weekly reduced outcome cited now s = (Inr v, t)"
  proof -
    from that have "t = s \<or> t = snd (cancel_member_origin member scope (saturating_add (src_at (last sources)) 1) s)
        \<or> (\<exists>p r. propose_candidate ch idh p now s = (Inr r, t))"
      unfolding apply_assessment_def by (auto split: if_splits option.splits sum.splits prod.splits)
    then show ?thesis by (elim disjE exE) (auto simp: untouched_def dest: propose_untouched)
  qed
qed

lemma planning_untouched:
  "request_invitation ch idh kind r s = (Inr k, t) \<Longrightarrow> untouched s t"
  "propose_community ch idh facts now s = (Inr n, t) \<Longrightarrow> untouched s t"
  "propose_linked_task_follow_up ch idh intent src member due now s = (Inr k, t)
     \<Longrightarrow> untouched s t"
proof -
  show "request_invitation ch idh kind r s = (Inr k, t) \<Longrightarrow> untouched s t"
    unfolding request_invitation_def admit_invitation_def
    by (auto simp: untouched_def set_candidate_def split: if_splits option.splits dest!: publish_value)
  show "propose_community ch idh facts now s = (Inr n, t) \<Longrightarrow> untouched s t"
    unfolding propose_community_def
    by (auto simp: untouched_def set_candidate_def split: if_splits sum.splits prod.splits dest!: publish_value each_untouched [unfolded untouched_def])
  show "untouched s t" if op: "propose_linked_task_follow_up ch idh intent src member due now s = (Inr k, t)"
  proof (cases "t = s")
    case False
    with op obtain i u c where
      u: "propose_candidate ch idh (follow_up_proposal src member due) now s = (Inr (Some i), u)" and
      "\<exists>key. publish ch (Some i) (set_candidate i (c\<lparr>cand_work_ref := Some (fi_task intent),
        cand_expires_at := Some (fi_expires_at intent), cand_dedupe_key := key, cand_follow_up_reason := None\<rparr>) u) s
        = (Inr k, t)"
      by (auto simp: propose_linked_task_follow_up_def split: if_splits prod.splits sum.splits option.splits)
    then obtain key where "t = set_candidate i (c\<lparr>cand_work_ref := Some (fi_task intent),
        cand_expires_at := Some (fi_expires_at intent), cand_dedupe_key := key, cand_follow_up_reason := None\<rparr>) u"
      by (blast dest: publish_value)
    then show ?thesis using propose_untouched [OF u] by (simp add: untouched_def set_candidate_def)
  qed simp
qed

lemma intros_kept_untouched: "untouched s t \<Longrightarrow> intros_kept s t"
  by (simp add: untouched_def intros_kept_def)

section \<open>Operations that keep texts and may drop approvals\<close>

lemma stop_kept: "stop_store ch actor origin scope s = (Inr v, t) \<Longrightarrow> intros_kept s t"
  by (erule stop_storeE)
    (auto simp: intros_kept_def intro_kept_def stopped_introduction_def dest!: save_policy_untouched [unfolded untouched_def])

lemma withdraw_kept: "withdraw_introduction i member revision s = (Inr v, t) \<Longrightarrow> intros_kept s t"
  by (erule withdraw_introductionE) (auto simp: intros_kept_def intro_kept_def split: if_splits)

lemma settle_kept: "settle_contact i outcome s = (Inr v, t) \<Longrightarrow> intros_kept s t"
  unfolding settle_contact_def Let_def
  by (auto split: option.splits if_splits sum.splits prod.splits simp: intros_kept_def intro_kept_def)

lemma finish_kept: "finish_attempt ch idh snapshot plan invalid outcome s = (Inr v, t) \<Longrightarrow> intros_kept s t"
  by (auto simp: finish_attempt_def intros_kept_def split: option.splits if_splits
      dest!: settle_kept [unfolded intros_kept_def])

lemma reject_kept: "reject_pending i revision plan s = (Inr v, t) \<Longrightarrow> intros_kept s t"
  unfolding reject_pending_def
  by (auto split: option.splits if_splits delivery_plan.splits simp: intros_kept_def intro_kept_def)

lemma reserve_kept:
  assumes "reserve_contact ch idh i revision now s = (Inr r, t)" and "contact_wf s"
  shows "intros_kept s t"
  using assms(1)
proof (cases rule: reserve_contactE)
  case (introduction c)
  from introduction(5) show ?thesis
  proof (cases rule: reserve_introductionE)
    case (reserved m n charges)
    with contact_wfD(2) [OF assms(2) reserved(4)] show ?thesis
      by (intro intros_kept_one [OF reserved(4)]) (auto simp: intro_kept_def)
  qed simp
next
  case (public c)
  from public(9) show ?thesis by (cases rule: reserve_publicE) (auto intro: intros_kept_same)
next
  case (member c who)
  from member(7) show ?thesis by (cases rule: reserve_memberE) (auto intro: intros_kept_same)
qed simp

lemma erase_kept: "erase_learning idh scope member s = (Inr n, t) \<Longrightarrow> intros_kept s t"
  by (erule erase_learningE) (auto simp: intros_kept_def split: option.splits if_splits)

fun changes_introduction :: "contact_change \<Rightarrow> bool" where
  "changes_introduction (ChCreate _ _ _ _) = True"
| "changes_introduction (ChEdit _ _ _ _ _) = True"
| "changes_introduction (ChApprove _ _ _) = True"
| "changes_introduction _ = False"

lemma change_kept:
  assumes "change_contact ch idh change s = (Inr v, t)" and "contact_wf s" and "\<not> changes_introduction change"
  shows "intros_kept s t"
  using assms
  by (cases change) (auto elim!: returning_Inr intro: stop_kept withdraw_kept finish_kept reject_kept reserve_kept
      intros_kept_untouched settings_untouched
      source_untouched planning_untouched)

section \<open>Every stored text and approval has its call\<close>

definition store_explained :: "contact_history \<Rightarrow> engagement_store \<Rightarrow> bool" where
  "store_explained h s = fm_all (introduction_explained h) (eng_introductions s)"

definition history_explains :: "contact_history \<Rightarrow> contact_state \<Rightarrow> bool" where
  "history_explains h st \<longleftrightarrow> (\<forall>s \<in> held st. store_explained h s)"

lemma explains_kept:
  assumes "store_explained h s" and "intros_kept s t" and "\<And>i m d. writes x i m d \<Longrightarrow> unconfirmed x"
  shows "store_explained (x # h) t"
  unfolding store_explained_def
proof (rule fm_allI)
  fix i n assume "fmlookup (eng_introductions t) i = Some n"
  with assms(2) obtain b where b: "fmlookup (eng_introductions s) i = Some b" "intro_kept b n"
    by (auto simp: intros_kept_def)
  from fm_allD [OF assms(1) [unfolded store_explained_def] b(1)] b(2) assms(3)
  show "introduction_explained (x # h) i n" by (rule explained_kept)
qed

lemma own_indexD: "own_index members member = Some own \<Longrightarrow> get_at own members = member"
  by (cases members) (auto split: if_splits)

lemma get_put_at: "get_at own (put_at own' v p) = (if own = own' then v else get_at own p)"
  by (cases own; cases own'; cases p) auto

lemma get_at_distinct: "fst p \<noteq> snd p \<Longrightarrow> get_at own p = get_at own' p \<Longrightarrow> own = own'"
  by (cases own; cases own'; cases p) auto

lemma create_distinct:
  assumes "create_introduction ch idh members scope description now s = (Inr i, t)"
  shows "fst members \<noteq> snd members"
proof
  assume eq: "fst members = snd members"
  have "create_introduction ch idh members scope description now s = (Inl Stale, s)
      \<or> create_introduction ch idh members scope description now s = (Inl Invalid, s)"
    by (simp add: create_introduction_def eq)
  with assms show False by auto
qed

lemma move_introduction_sel:
  "move_introduction destination n = Inr m \<Longrightarrow> intro_members m = intro_members n
     \<and> intro_descriptions m = intro_descriptions n"
  by (auto simp: move_introduction_def split: option.splits if_splits engagement_scope.splits)

lemma writes_only: "writes x i m d \<Longrightarrow> writes x j m' d' \<Longrightarrow> m = m' \<and> d = d' \<and> (i = j \<or> unconfirmed x)"
  by (auto simp: writes_def)

text \<open>Introductions a writing call is not about stay explained.\<close>

lemma explained_other:
  assumes "introduction_explained h j n" and "\<And>m d. writes x j m d \<Longrightarrow> unconfirmed x"
  shows "introduction_explained (x # h) j n"
  by (rule explained_kept [OF assms(1) intro_kept_refl assms(2)])

lemma explains_one:
  assumes "store_explained h s" and "eng_introductions t = fmupd i n (eng_introductions s)"
    and "introduction_explained (x # h) i n" and "\<And>j m d. writes x j m d \<Longrightarrow> j = i \<or> unconfirmed x"
  shows "store_explained (x # h) t"
  using assms explained_other unfolding store_explained_def fm_all_iff
  by (metis fmupd_lookup option.inject)

lemma explains_create:
  assumes "store_explained h p" and op: "create_introduction ch idh members scope description now p = (Inr i, s)"
    and w: "writes x i (fst members) description"
  shows "store_explained (x # h) s"
  using op
proof (rule create_introductionE)
  fix guild channel
  let ?n = "new_introduction members scope channel description i"
  assume s: "s = p\<lparr>eng_sequence := Suc i, eng_introductions := fmupd i ?n (eng_introductions p),
       eng_candidates := fmupd (Suc i) (introduction_candidate scope (guild_revision p guild) now i (Suc i))
         (eng_candidates p)\<rparr>"
  have get: "get_at own (intro_descriptions ?n) = Some d \<longleftrightarrow> \<not> own \<and> d = description"
    "get_at own (intro_approvals ?n) = None" "intro_members ?n = members" for own d
    by (cases own; auto simp: new_introduction_def)+
  have "introduction_explained (x # h) i ?n"
  proof -
    have "get_at False members = fst members" by (cases members) simp
    then show ?thesis
      using create_distinct [OF op] last_wrote_now [OF w] by (auto simp: introduction_explained_def get)
  qed
  then show ?thesis
    using assms(1) writes_only [OF w] by (intro explains_one [of h p s i ?n x]) (auto simp: s)
qed

lemma explains_edit:
  assumes "store_explained h p" and op: "edit_introduction ch i member revision description destination p = (Inr v, s)"
    and w: "writes x i member description"
  shows "store_explained (x # h) s"
  using op
proof (rule edit_introductionE)
  fix n m :: introduction and own scope policy_revision
  let ?n = "m\<lparr>intro_revision := Suc revision, intro_descriptions := put_at own (Some description) (intro_descriptions m),
     intro_approvals := (None, None), intro_state := IntroPending\<rparr>"
  assume n: "fmlookup (eng_introductions p) i = Some n" and own: "own_index (intro_members n) member = Some own"
    and m: "move_introduction destination n = Inr m"
    and s: "s = p\<lparr>eng_introductions := fmupd i ?n (eng_introductions p),
       eng_candidates := relink_candidates i (Suc revision) scope policy_revision (eng_candidates p)\<rparr>"
  have old: "introduction_explained h i n"
    using assms(1) n by (simp add: store_explained_def fm_all_iff)
  note same = move_introduction_sel [OF m] own_indexD [OF own]
  have "introduction_explained (x # h) i ?n"
    unfolding introduction_explained_def
  proof (intro conjI allI impI)
    show "fst (intro_members ?n) \<noteq> snd (intro_members ?n)"
      using old same by (simp add: introduction_explained_def)
    fix slot d assume d: "get_at slot (intro_descriptions ?n) = Some d"
    show "last_wrote (x # h) i (get_at slot (intro_members ?n)) d"
    proof (cases "slot = own")
      case True
      with d same w show ?thesis by (simp add: get_put_at last_wrote_now)
    next
      case False
      with d same old have "last_wrote h i (get_at slot (intro_members n)) d"
        by (simp add: get_put_at introduction_explained_def)
      moreover have "get_at slot (intro_members n) \<noteq> member"
        using False same(2) old get_at_distinct by (fastforce simp: introduction_explained_def)
      ultimately show ?thesis using same(1) writes_only [OF w] by (auto intro: last_wrote_later)
    qed
  qed simp
  then show ?thesis
    using assms(1) writes_only [OF w] by (intro explains_one [of h p s i ?n x]) (auto simp: s)
qed

lemma explains_approve:
  assumes "store_explained h p" and op: "approve_introduction ch i member revision p = (Inr v, s)"
    and app: "approves x i member revision"
  shows "store_explained (x # h) s"
  using op
proof (rule approve_introductionE)
  fix n :: introduction and own
  let ?n = "n\<lparr>intro_approvals := put_at own (Some revision) (intro_approvals n),
     intro_state := (if v then IntroReady else intro_state n)\<rparr>"
  assume n: "fmlookup (eng_introductions p) i = Some n" and own: "own_index (intro_members n) member = Some own"
    and s: "s = p\<lparr>eng_introductions := fmupd i ?n (eng_introductions p)\<rparr>"
  have quiet: "\<not> writes x j m d" for j m d using app by (auto simp: approves_def writes_def)
  have "introduction_explained h i n"
    using assms(1) n by (simp add: store_explained_def fm_all_iff)
  then have old: "introduction_explained (x # h) i n" by (rule explained_other) (simp add: quiet)
  have "introduction_explained (x # h) i ?n"
    using old own_indexD [OF own] approved_now [OF app, of h]
    by (auto simp: introduction_explained_def get_put_at)
  then show ?thesis
    using assms(1) quiet by (intro explains_one [of h p s i ?n x]) (auto simp: s)
qed

lemma explains_change:
  assumes "store_explained h p" and "contact_wf p" and op: "change_contact ch idh change p = (Inr v, s)"
    and "r = (if written = Written then Inr v else Inl Persistence)" "written \<noteq> Unwritten"
  shows "store_explained ((Commit change admitted written, r) # h) s"
proof (cases "changes_introduction change")
  case False
  then have "\<not> writes (Commit change admitted written, r) i m d" for i m d by (auto simp: writes_def)
  then show ?thesis using explains_kept [OF assms(1) change_kept [OF op assms(2) False]] by blast
next
  case True
  have reported: "(\<exists>k. r = Inr k \<and> k = v) \<or> unconfirmed (Commit change admitted written, r)"
    using assms(4,5) by (cases written) (auto simp: unconfirmed_def)
  show ?thesis
  proof (cases change)
    case (ChCreate members scope description now)
    with op obtain i where i: "create_introduction ch idh members scope description now p = (Inr i, s)"
      "v = RetId (Some i)" by (auto elim: returning_Inr)
    show ?thesis by (rule explains_create [OF assms(1) i(1)]) (use reported i ChCreate in \<open>auto simp: writes_def\<close>)
  next
    case (ChEdit i member revision description destination)
    with op obtain k where k: "edit_introduction ch i member revision description destination p = (Inr k, s)"
      by (auto elim: returning_Inr)
    show ?thesis by (rule explains_edit [OF assms(1) k]) (use reported ChEdit in \<open>auto simp: writes_def\<close>)
  next
    case (ChApprove i member revision)
    with op obtain k where k: "approve_introduction ch i member revision p = (Inr k, s)"
      by (auto elim: returning_Inr)
    show ?thesis by (rule explains_approve [OF assms(1) k]) (use reported ChApprove in \<open>auto simp: approves_def\<close>)
  qed (use True in simp_all)
qed

lemma explains_step:
  assumes "contact_inv st" and "history_explains h st" and "contact_step ch idh ed call st = (r, st')"
  shows "history_explains ((call, r) # h) st'"
proof -
  have same: "store_explained ((call, r) # h) s"
    if "s \<in> held st" "\<And>i m d. writes (call, r) i m d \<Longrightarrow> unconfirmed (call, r)" for s
    using assms(2) that by (auto simp: history_explains_def intro: explains_kept [OF _ intros_kept_same])
  have mem: "cs_store st \<in> held st" "fst (cs_saved st) \<in> held st" by (simp_all add: held_def)
  from assms(3) show ?thesis
  proof (cases rule: contact_stepE)
    case (failed e)
    then have "\<And>i m d. writes (call, r) i m d \<Longrightarrow> unconfirmed (call, r)" by (auto simp: writes_def)
    then show ?thesis using same failed(2) by (simp add: history_explains_def)
  next
    case (erased scope member now written n s ledger)
    have quiet: "\<And>i m d. \<not> writes (call, r) i m d" by (simp add: writes_def erased(1))
    have "store_explained ((call, r) # h) s"
      by (rule explains_kept [OF _ erase_kept [OF erased(2)]])
        (use assms(2) mem quiet in \<open>auto simp: history_explains_def\<close>)
    then show ?thesis using same mem quiet erased(4,6) by (auto simp: history_explains_def held_def)
  next
    case (saved written)
    then show ?thesis using same mem by (auto simp: history_explains_def held_def writes_def)
  next
    case (restarted n)
    have quiet: "\<And>i m d. \<not> writes (call, r) i m d" by (simp add: writes_def restarted(1))
    have "store_explained ((call, r) # h) (cs_store st')"
      by (rule explains_kept [of h "fst (cs_saved st)"])
        (use assms(2) mem quiet restarted(4) in \<open>auto simp: history_explains_def intros_kept_same\<close>)
    then show ?thesis using same mem quiet restarted(6) by (auto simp: history_explains_def held_def)
  next
    case (committed change admitted written v s)
    let ?p = "prune_erasure_safety ch admitted (cs_store st)"
    have wf: "contact_wf ?p"
      using advances_prune [of "cs_store st" ch admitted] assms(1) by (simp add: contact_inv_def advances_def)
    have "store_explained h ?p" using assms(2) mem(1) by (simp add: history_explains_def store_explained_def)
    from explains_change [OF this wf committed(4,2,3), of admitted]
    have new: "store_explained ((call, r) # h) s" by (simp add: committed(1))
    show ?thesis
    proof (cases "written = Written")
      case True
      then show ?thesis using new committed(6,8) by (simp add: history_explains_def held_def)
    next
      case False
      then have "unconfirmed (call, r)" using committed(1-3) by (cases written) (auto simp: unconfirmed_def)
      then show ?thesis using False new committed(6,8) same mem by (simp add: history_explains_def held_def)
    qed
  qed
qed

lemma history_explains_trace:
  "trace (contact_step ch idh ed) empty_contact h st \<Longrightarrow> history_explains h st"
proof (induction rule: trace.induct)
  case trace_start
  show ?case by (simp add: history_explains_def held_def store_explained_def empty_contact_def empty_engagement_def)
next
  case (trace_call h s c r t)
  show ?case by (rule explains_step [OF contact.trace_inv [OF trace_call.hyps(1)] trace_call.IH trace_call.hyps(2)])
qed

lemma reserved_introduction:
  assumes "reserve_contact ch idh i revision now s = (Inr r, t)" and "er_introduction r = Some ir"
  obtains m n where "fmlookup (eng_introductions s) m = Some n" "ir_introduction ir = n\<lparr>intro_state := IntroConsumed\<rparr>"
    "both_approve n" "is_some_and (fst (intro_descriptions n)) description_valid"
    "is_some_and (snd (intro_descriptions n)) description_valid"
  using assms(1)
proof (cases rule: reserve_contactE)
  case (introduction c)
  from introduction(5) show thesis
  proof (cases rule: reserve_introductionE)
    case (reserved m n charges)
    have "ir_introduction ir = n\<lparr>intro_state := IntroConsumed\<rparr>" using reserved(7) assms(2) by auto
    moreover have "both_approve n" "is_some_and (fst (intro_descriptions n)) description_valid"
      "is_some_and (snd (intro_descriptions n)) description_valid"
      using reserved(1,3,4) by (auto simp: introduction_receipt_current_def split: engagement_scope.splits)
    ultimately show ?thesis using reserved(4) by (intro that) auto
  qed simp
next
  case (public c)
  from public(9) show thesis by (cases rule: reserve_publicE) (use assms(2) in auto)
next
  case (member c who)
  from member(7) show thesis by (cases rule: reserve_memberE) (use assms(2) in auto)
qed simp

lemma publication_text:
  assumes "intro_descriptions n = (Some x, Some y)" "description_valid x" "description_valid y" "both_approve n"
  shows "\<exists>p q z. publication (n\<lparr>intro_state := IntroConsumed\<rparr>) = Inr (p @ x @ q @ y @ z)"
proof -
  have "both_approve (n\<lparr>intro_state := IntroConsumed\<rparr>)" using assms(4) by (simp add: both_approve_def)
  then have "publication (n\<lparr>intro_state := IntroConsumed\<rparr>)
      = Inr ((lit ''Two members have approved sharing these introductions here:'' @ [10, 10]) @ x @ [10, 10] @ y
        @ [10, 10] @ lit ''You'' @ 8217 # lit ''re welcome to connect around what you'' @ 8217 # lit ''ve shared.'')"
    using assms by (simp add: publication_def)
  then show ?thesis by blast
qed

text \<open>
  C19. An introduction speaks only in its members' own words. Whenever a history ends with
  the reservation of an introduction, each of its two texts is the last one its member
  wrote, both members approved exactly the reserved revision after the last edit by
  anybody, and the message to be published consists of these two texts in a fixed frame.
\<close>

theorem introduction_in_their_own_words:
  assumes "trace (contact_step ch idh ed) empty_contact
      ((Commit (ChReserve i revision now) admitted written, Inr (RetReserved r)) # h) st"
    and "er_introduction r = Some ir"
  shows "\<exists>n x y. ir_introduction ir = n \<and> intro_descriptions n = (Some x, Some y)
    \<and> last_wrote h (intro_id n) (fst (intro_members n)) x \<and> last_wrote h (intro_id n) (snd (intro_members n)) y
    \<and> approved_since_edit h (intro_id n) (fst (intro_members n)) (intro_revision n)
    \<and> approved_since_edit h (intro_id n) (snd (intro_members n)) (intro_revision n)
    \<and> (\<exists>p q z. publication n = Inr (p @ x @ q @ y @ z))"
proof -
  from assms(1) obtain st0 where t: "trace (contact_step ch idh ed) empty_contact h st0"
    and step: "contact_step ch idh ed (Commit (ChReserve i revision now) admitted written) st0
      = (Inr (RetReserved r), st)" by (auto elim: trace_ConsE)
  let ?p = "prune_erasure_safety ch admitted (cs_store st0)"
  from step obtain s where "change_contact ch idh (ChReserve i revision now) ?p = (Inr (RetReserved r), s)"
    by (cases rule: contact_stepE) (auto split: if_splits)
  then have "reserve_contact ch idh i revision now ?p = (Inr r, s)" by (auto elim: returning_Inr)
  then obtain m n where n: "fmlookup (eng_introductions ?p) m = Some n"
    "ir_introduction ir = n\<lparr>intro_state := IntroConsumed\<rparr>" "both_approve n"
    "is_some_and (fst (intro_descriptions n)) description_valid"
    "is_some_and (snd (intro_descriptions n)) description_valid"
    using assms(2) by (rule reserved_introduction)
  have id: "intro_id n = m"
    using contact.trace_inv [OF t] n(1) contact_wfD(2) by (fastforce simp: contact_inv_def)
  have ex: "introduction_explained h m n"
    using history_explains_trace [OF t] n(1)
    by (simp add: history_explains_def held_def store_explained_def fm_all_iff)
  from n(4,5) obtain x y where d: "intro_descriptions n = (Some x, Some y)" "description_valid x" "description_valid y"
    by (cases "intro_descriptions n") (auto simp: is_some_and_iff)
  have get: "get_at False v = fst v" "get_at True v = snd v" for v :: "'x \<times> 'x"
    by (cases v; simp)+
  have "last_wrote h m (fst (intro_members n)) x" "last_wrote h m (snd (intro_members n)) y"
    using ex d(1) unfolding introduction_explained_def by (metis get(1) fst_conv, metis get(2) snd_conv)
  moreover have "approved_since_edit h m (fst (intro_members n)) (intro_revision n)"
    "approved_since_edit h m (snd (intro_members n)) (intro_revision n)"
    using ex n(3) unfolding introduction_explained_def both_approve_def
    by (metis get(1) fst_conv, metis get(2) snd_conv)
  ultimately show ?thesis
    using publication_text [OF d n(3)] d(1) id
    by (intro exI [of _ "n\<lparr>intro_state := IntroConsumed\<rparr>"] exI [of _ x] exI [of _ y]) (simp add: n(2))
qed

section \<open>An example introduction\<close>

text \<open>
  Members 7 and 8 of server 1 save settings, introductions are enabled in channel 2, member
  7 proposes an introduction to member 8 with the text A, member 8 adds the text B, both
  approve revision 2, and it is reserved at ten in the morning.
\<close>

definition intro_demo ::
  "(u64, member_policy) fmap \<Rightarrow> (u64, guild_feature_policy) fmap \<Rightarrow> (u64, introduction) fmap
     \<Rightarrow> (u64, candidate) fmap \<Rightarrow> nat \<Rightarrow> engagement_store" where
  "intro_demo pols feats intros cands k = empty_engagement\<lparr>eng_member_policies := pols,
     eng_guild_features := feats, eng_introductions := intros, eng_candidates := cands, eng_sequence := k\<rparr>"

lemma intro_demo_sel [simp]:
  "eng_candidates (intro_demo p f n c k) = c" "eng_introductions (intro_demo p f n c k) = n"
  "eng_sequence (intro_demo p f n c k) = k" "eng_guild_features (intro_demo p f n c k) = f"
  "eng_member_policies (intro_demo p f n c k) = p"
  "eng_observations (intro_demo p f n c k) = fmempty" "eng_responses (intro_demo p f n c k) = fmempty"
  "eng_eligibility (intro_demo p f n c k) = fmempty"
  "eng_charges (intro_demo p f n c k) = []" "eng_erased_contact_charges (intro_demo p f n c k) = []"
  "eng_erased_community_charges (intro_demo p f n c k) = []" "eng_community_receipts (intro_demo p f n c k) = fmempty"
  "eng_invitation_requests (intro_demo p f n c k) = fmempty"
  "eng_suppressed_invitations (intro_demo p f n c k) = fmempty"
  "eng_feedback (intro_demo p f n c k) = fmempty" "eng_community_cursor (intro_demo p f n c k) = None"
  "eng_erased_identities (intro_demo p f n c k) = {||}" "eng_safety_pruned_through (intro_demo p f n c k) = 0"
  "eng_weekly_assessments (intro_demo p f n c k) = fmempty"
  by (simp_all add: intro_demo_def empty_engagement_def)

definition demo_features :: "(u64, guild_feature_policy) fmap" where
  "demo_features = fmupd 1 \<lparr>gf_revision = 1, gf_enabled = {|FeatIntroductions|},
     gf_channels = fmupd FeatIntroductions {|2|} fmempty\<rparr> fmempty"

definition demo_introduction ::
  "nat \<Rightarrow> rstr option \<Rightarrow> u64 option \<times> u64 option \<Rightarrow> introduction_state \<Rightarrow> introduction" where
  "demo_introduction k other approvals state = \<lparr>intro_id = 1, intro_revision = k, intro_scope = EngGuild 1 2,
     intro_members = (7, 8), intro_descriptions = (Some [65], other), intro_approvals = approvals,
     intro_destination = 2, intro_state = state\<rparr>"

definition demo_intro_candidate :: "nat \<Rightarrow> candidate" where
  "demo_intro_candidate k = (introduction_candidate (EngGuild 1 2) 1 100 1 2)\<lparr>cand_revision := k\<rparr>"

abbreviation "demo_one \<equiv> fmupd 7 demo_member_policy (fmempty :: (u64, member_policy) fmap)"
abbreviation "demo_both \<equiv> fmupd 8 demo_member_policy demo_one"

lemma demo_intro_candidate_sel [simp]:
  "cand_id (demo_intro_candidate k) = 2" "cand_kind (demo_intro_candidate k) = KindIntroduction"
  "cand_source (demo_intro_candidate k) = None" "cand_member (demo_intro_candidate k) = None"
  "cand_scope (demo_intro_candidate k) = EngGuild 1 2" "cand_due_at (demo_intro_candidate k) = 100"
  "cand_revision (demo_intro_candidate k) = k" "cand_state (demo_intro_candidate k) = CandPending"
  "cand_dedupe_key (demo_intro_candidate k) = lit ''introduction:'' @ decimal 1"
  "cand_policy_revision (demo_intro_candidate k) = 1" "cand_destination (demo_intro_candidate k) = PrefOrigin"
  "cand_message_id (demo_intro_candidate k) = None" "cand_introduction_id (demo_intro_candidate k) = Some 1"
  "cand_work_ref (demo_intro_candidate k) = None" "cand_expires_at (demo_intro_candidate k) = None"
  "cand_follow_up_reason (demo_intro_candidate k) = None"
  by (simp_all add: demo_intro_candidate_def introduction_candidate_def)

lemma demo_introduction_sel [simp]:
  "intro_id (demo_introduction k d a s) = 1" "intro_revision (demo_introduction k d a s) = k"
  "intro_scope (demo_introduction k d a s) = EngGuild 1 2" "intro_members (demo_introduction k d a s) = (7, 8)"
  "intro_descriptions (demo_introduction k d a s) = (Some [65], d)"
  "intro_approvals (demo_introduction k d a s) = a" "intro_destination (demo_introduction k d a s) = 2"
  "intro_state (demo_introduction k d a s) = s"
  by (simp_all add: demo_introduction_def)

lemma demo_texts: "description_valid [65]" "description_valid [66]"
  by (simp_all add: description_valid_def trim_def is_whitespace_def)

lemma demo_stored_policy_8: "stored_policy_valid demo_chrono 8 demo_member_policy"
  using demo_policy_valid
  by (simp add: stored_policy_valid_def policy_scopes_def) (simp add: demo_member_policy_def default_member_policy_def)

lemma intro_demo_ok:
  assumes "fm_all (stored_policy_valid demo_chrono) pols" "fm_len pols \<le> 2"
    and "feats = fmempty \<or> feats = demo_features"
    and "intros = fmempty \<and> cands = fmempty
      \<or> k = 2 \<and> cands = fmupd 2 ((demo_intro_candidate j)\<lparr>cand_state := cs\<rparr>) fmempty \<and> j \<noteq> 0
      \<and> intros = fmupd 1 (demo_introduction j d a state) fmempty
      \<and> (cs = CandPending \<and> (state = IntroPending \<or> state = IntroReady)
          \<or> cs = CandCancelled \<and> state = IntroCancelled)
      \<and> introduction_valid (intro_demo pols feats intros cands k) 1 (demo_introduction j d a state)"
  shows "engagement_ok demo_chrono (intro_demo pols feats intros cands k)"
  unfolding engagement_ok_iff
proof (intro conjI)
  let ?s = "intro_demo pols feats intros cands k"
  note sizes = fm_len_upd fcard.rep_eq List.map_filter_simps
  have open_one: "open_candidates ?s \<le> 1" using assms(4) by (auto simp: open_candidates_def)
  have size: "fm_len cands \<le> 1" "fm_len intros \<le> 1" "fm_len pols \<le> 2" "fm_len feats \<le> 1"
    using assms(2-4) by (auto simp: sizes demo_features_def)
  have feats: "fm_all guild_features_valid feats"
    using assms(3) by (auto simp: demo_features_def guild_features_valid_def)
  show "list_all snd (erased_checks demo_chrono ?s)"
    by (simp add: erased_checks_def fcard.rep_eq)
  show "list_all snd (invitation_checks demo_chrono ?s)"
    using size assms(4) by (auto simp: invitation_checks_def)
  show "list_all snd (community_checks demo_chrono ?s)"
    by (simp add: community_checks_def)
  show "list_all snd (store_checks demo_chrono ?s)"
    using open_one size assms(1) feats by (simp add: store_checks_def)
  show "list_all snd (link_checks demo_chrono ?s)"
  proof (cases "cands = fmempty")
    case True
    with assms(4) have "intros = fmempty" by auto
    with True show ?thesis by (simp add: link_checks_def Let_def sizes)
  next
    case False
    let ?c = "(demo_intro_candidate j)\<lparr>cand_state := cs\<rparr>"
    from False assms(4) have c: "k = 2" "cands = fmupd 2 ?c fmempty" "j \<noteq> 0"
      "intros = fmupd 1 (demo_introduction j d a state) fmempty"
      "cs = CandPending \<and> (state = IntroPending \<or> state = IntroReady) \<or> cs = CandCancelled \<and> state = IntroCancelled"
      "introduction_valid ?s 1 (demo_introduction j d a state)" by auto
    have cand: "candidate_valid demo_chrono ?s 2 ?c"
      using c(1,3,4,5)
      by (auto simp: candidate_valid_def candidate_fields_valid_def candidate_links_valid_def task_follow_up_valid_def
          needs_member_def decimal.simps [of "Suc 0"] byte_len_def utf8_len_def)
    show ?thesis
      using cand c
      by (auto simp: link_checks_def Let_def sizes candidate_identity_def candidates_of_def introduction_charged_def
          charged_def)
  qed
qed

lemma demo_policies: "fm_all (stored_policy_valid demo_chrono) demo_one" "fm_len demo_one \<le> 2"
    "fm_all (stored_policy_valid demo_chrono) demo_both" "fm_len demo_both \<le> 2"
  using demo_stored_policy demo_stored_policy_8 by (auto simp: fm_all_iff fm_len_upd split: if_splits)

lemma demo_pending: "(demo_intro_candidate j)\<lparr>cand_state := CandPending\<rparr> = demo_intro_candidate j"
  by (simp add: demo_intro_candidate_def introduction_candidate_def)

lemma demo_configure:
  assumes "fmlookup pols actor = None" "actor \<noteq> 0" "fm_len pols \<le> 1"
  shows "change_contact demo_chrono idh (ChConfigure actor origin demo_settings) (intro_demo pols f n c k)
     = (Inr RetUnit, intro_demo (fmupd actor demo_member_policy pols) f n c k)"
proof -
  have p: "member_policy_valid demo_chrono (demo_member_policy\<lparr>mp_revision := 0\<rparr>)"
    using demo_policy_valid(1) by (simp add: member_policy_valid_def policy_scopes_def)
  have next_revision: "demo_member_policy\<lparr>mp_revision := Suc (mp_revision (demo_member_policy\<lparr>mp_revision := 0\<rparr>))\<rparr>
      = demo_member_policy"
    by (simp add: demo_member_policy_def)
  have "configure demo_chrono actor origin demo_settings (intro_demo pols f n c k)
      = save_policy demo_chrono actor (demo_member_policy\<lparr>mp_revision := 0\<rparr>) (intro_demo pols f n c k)"
    using assms(1)
    by (simp add: configure_def Let_def policy_of_def demo_settings_def or_else_def
        demo_member_policy_def default_member_policy_def)
  also have "\<dots> = (Inr (), intro_demo (fmupd actor demo_member_policy pols) f n c k)"
    using p assms next_revision by (simp add: save_policy_def u64_max_def intro_demo_def)
  finally show ?thesis by (simp add: returning_def)
qed

lemma demo_feature:
  "change_contact demo_chrono idh (ChFeature 1 True FeatIntroductions True (Some 2)) (intro_demo p fmempty n c k)
     = (Inr RetUnit, intro_demo p demo_features n c k)"
proof -
  have "set_community 1 True FeatIntroductions True (Some 2) (intro_demo p fmempty n c k)
      = (Inr (), intro_demo p demo_features n c k)"
    by (simp add: set_community_def or_else_def default_features_def u64_max_def Let_def)
      (simp add: intro_demo_def demo_features_def)
  then show ?thesis by (simp add: returning_def)
qed

lemma demo_enabled:
  "introductions_enabled (intro_demo p demo_features n c k) (EngGuild 1 2)"
  "list_all (introduction_member_enabled demo_chrono (intro_demo demo_both f n c k) (EngGuild 1 2)) [7, 8]"
  "guild_revision (intro_demo p demo_features n c k) 1 = 1"
proof -
  have "\<not> stopped_in demo_member_policy (EngGuild 1 2)"
    by (simp add: demo_member_policy_def default_member_policy_def)
  then show "list_all (introduction_member_enabled demo_chrono (intro_demo demo_both f n c k) (EngGuild 1 2)) [7, 8]"
    using demo_policy_valid(2) by (simp add: introduction_member_enabled_def)
qed (simp_all add: introductions_enabled_def switched_on_def demo_features_def guild_revision_def)

lemma demo_members:
  "introduction_member_enabled demo_chrono (intro_demo demo_both f n c k) (EngGuild 1 2) 7"
  "introduction_member_enabled demo_chrono (intro_demo demo_both f n c k) (EngGuild 1 2) 8"
  using demo_enabled(2) by simp_all

abbreviation "demo_intro_store j d a state \<equiv> intro_demo demo_both demo_features
  (fmupd 1 (demo_introduction j d a state) fmempty) (fmupd 2 (demo_intro_candidate j) fmempty) 2"

lemma demo_intro_store_ok:
  assumes "j \<noteq> 0" and "d = None \<or> d = Some [66]"
    and "(a = (None, None) \<or> a = (Some j, None)) \<and> state = IntroPending
      \<or> a = (Some j, Some j) \<and> d \<noteq> None \<and> state = IntroReady"
  shows "engagement_ok demo_chrono (demo_intro_store j d a state)"
  using assms demo_texts
  by (intro intro_demo_ok [where j = j and d = d and a = a and state = state and cs = CandPending] demo_policies)
    (auto simp: introduction_valid_def is_none_or_iff demo_pending)

lemma demo_create:
  "change_contact demo_chrono (\<lambda>_. []) (ChCreate (7, 8) (EngGuild 1 2) [65] 100) (intro_demo demo_both demo_features fmempty fmempty 0)
     = (Inr (RetId (Some 1)), demo_intro_store 1 None (None, None) IntroPending)"
proof -
  let ?s = "intro_demo demo_both demo_features fmempty fmempty 0"
  have "engagement_ok demo_chrono (demo_intro_store 1 None (None, None) IntroPending)"
    by (rule demo_intro_store_ok) auto
  moreover have "?s\<lparr>eng_sequence := 2, eng_introductions := fmupd 1 (new_introduction (7, 8) (EngGuild 1 2) 2 [65] 1) fmempty,
      eng_candidates := fmupd 2 (introduction_candidate (EngGuild 1 2) 1 100 1 2) fmempty\<rparr>
      = demo_intro_store 1 None (None, None) IntroPending"
    by (simp add: intro_demo_def new_introduction_def demo_introduction_def demo_intro_candidate_def
        introduction_candidate_def)
  ultimately have "create_introduction demo_chrono (\<lambda>_. []) (7, 8) (EngGuild 1 2) [65] 100 ?s
      = (Inr 1, demo_intro_store 1 None (None, None) IntroPending)"
    using demo_enabled demo_texts
    by (simp add: create_introduction_def i64_max_def u64_max_def open_candidates_def introduced_pair_def Let_def
        numeral_2_eq_2 publish_ok)
  then show ?thesis by (simp add: returning_def)
qed

lemma demo_edit:
  "change_contact demo_chrono idh (ChEdit 1 8 1 [66] None) (demo_intro_store 1 None (None, None) IntroPending)
     = (Inr (RetNat 2), demo_intro_store 2 (Some [66]) (None, None) IntroPending)"
proof -
  let ?s = "demo_intro_store 1 None (None, None) IntroPending"
  have ok: "engagement_ok demo_chrono (demo_intro_store 2 (Some [66]) (None, None) IntroPending)"
    by (rule demo_intro_store_ok) auto
  have n: "(demo_introduction 1 None (None, None) IntroPending)\<lparr>intro_revision := 2,
      intro_descriptions := (Some [65], Some [66]), intro_approvals := (None, None), intro_state := IntroPending\<rparr>
      = demo_introduction 2 (Some [66]) (None, None) IntroPending"
    by (simp add: demo_introduction_def)
  have s: "?s\<lparr>eng_introductions := fmupd 1 (demo_introduction 2 (Some [66]) (None, None) IntroPending) fmempty,
      eng_candidates := relink_candidates 1 2 (EngGuild 1 2) 1 (fmupd 2 (demo_intro_candidate 1) fmempty)\<rparr>
      = demo_intro_store 2 (Some [66]) (None, None) IntroPending"
    by (simp add: intro_demo_def relink_candidates_def fmmap_fmupd)
      (simp add: demo_intro_candidate_def introduction_candidate_def)
  have one_more: "checked_add (Suc 0) 1 = Some 2" by (simp add: u64_max_def)
  have on: "introductions_enabled (?s\<lparr>eng_introductions := i\<rparr>) (EngGuild 1 2)" for i
    using demo_enabled(1) by (simp add: introductions_enabled_def switched_on_def)
  have "edit_introduction demo_chrono 1 8 1 [66] None ?s
      = (Inr 2, demo_intro_store 2 (Some [66]) (None, None) IntroPending)"
    by (simp add: edit_introduction_def editable_def one_more [unfolded One_nat_def] move_introduction_def candidates_of_def Let_def
        demo_texts on [unfolded One_nat_def] demo_enabled(3) [unfolded One_nat_def] n [unfolded One_nat_def]
        s [unfolded One_nat_def] publish_ok [OF ok, unfolded One_nat_def])
  then show ?thesis by (simp add: returning_def)
qed

lemma demo_approve:
  assumes "a = (None, None) \<and> member = 7 \<and> b = (Some 2, None) \<and> state = IntroPending
    \<or> a = (Some 2, None) \<and> member = 8 \<and> b = (Some 2, Some 2) \<and> state = IntroReady"
  shows "change_contact demo_chrono idh (ChApprove 1 member 2) (demo_intro_store 2 (Some [66]) a IntroPending)
     = (Inr (RetBool (member = 8)), demo_intro_store 2 (Some [66]) b state)"
proof -
  let ?s = "demo_intro_store 2 (Some [66]) a IntroPending"
  have set: "?s\<lparr>eng_introductions := fmupd 1 n fmempty\<rparr>
      = intro_demo demo_both demo_features (fmupd 1 n fmempty) (fmupd 2 (demo_intro_candidate 2) fmempty) 2" for n
    by (simp add: intro_demo_def)
  have "approve_introduction demo_chrono 1 member 2 ?s = (Inr (member = 8), demo_intro_store 2 (Some [66]) b state)"
    using assms
  proof (elim disjE conjE)
    assume a: "a = (None, None)" "member = 7" "b = (Some 2, None)" "state = IntroPending"
    have n: "(demo_introduction 2 (Some [66]) (None, None) IntroPending)\<lparr>intro_approvals := (Some 2, None)\<rparr>
        = demo_introduction 2 (Some [66]) (Some 2, None) IntroPending" by (simp add: demo_introduction_def)
    show ?thesis
      by (simp add: a approve_introduction_def editable_def candidates_of_def Let_def n
          demo_enabled [unfolded One_nat_def] demo_members [unfolded One_nat_def] set [unfolded One_nat_def a])
  next
    assume a: "a = (Some 2, None)" "member = 8" "b = (Some 2, Some 2)" "state = IntroReady"
    have n: "(demo_introduction 2 (Some [66]) (Some 2, None) IntroPending)\<lparr>intro_approvals := (Some 2, Some 2),
        intro_state := IntroReady\<rparr> = demo_introduction 2 (Some [66]) (Some 2, Some 2) IntroReady"
      by (simp add: demo_introduction_def)
    show ?thesis
      by (simp add: a approve_introduction_def editable_def candidates_of_def Let_def n
          demo_enabled [unfolded One_nat_def] demo_members [unfolded One_nat_def] set [unfolded One_nat_def a])
  qed
  then show ?thesis by (simp add: returning_def)
qed

lemma demo_reserve_introduction:
  "\<exists>r t ir. change_contact demo_chrono (\<lambda>_. []) (ChReserve 2 2 36000)
       (demo_intro_store 2 (Some [66]) (Some 2, Some 2) IntroReady) = (Inr (RetReserved r), t)
     \<and> eng_community_receipts t = fmempty \<and> eng_weekly_assessments t = fmempty
     \<and> er_introduction r = Some ir"
proof -
  let ?s = "demo_intro_store 2 (Some [66]) (Some 2, Some 2) IntroReady" and ?c = "demo_intro_candidate 2"
  have bounds: "36000 \<le> i64_max" by (simp add: i64_max_def)
  have allowed: "contact_allowed demo_chrono ?s ?c m 36000 = Inr (decimal 0, decimal 0)" if "m = 7 \<or> m = 8" for m
  proof -
    have "allowed_with_reason demo_chrono ?s ?c m 36000 = Inr (decimal 0, decimal 0)"
      using demo_policy_valid bounds that
      by (auto simp: allowed_with_reason_def demo_member_policy_def default_member_policy_def
          relabel_def calendar_buckets_def Let_def quiet_now_def) (simp_all add: demo_chrono_def relabel_def)
    then show ?thesis by (simp add: contact_allowed_def)
  qed
  have capacity: "contact_capacity demo_chrono ?s m 36000 b = Inr ()" if "m = 7 \<or> m = 8" for m b
    using bounds that by (auto simp: contact_capacity_def demo_member_policy_def default_member_policy_def Let_def
      member_rows_def) (simp_all add: demo_chrono_def)
  have due: "reserve_due demo_chrono ?c 2 36000 = Inr ()"
    by (simp add: reserve_due_def weekly_window_def weekly_deadline_def task_follow_up_window_def)
  have current: "introduction_receipt_current demo_chrono ?s ?c"
    using demo_enabled demo_texts by (simp add: introduction_receipt_current_def both_approve_def demo_features_def)
  have "\<exists>r t ir. reserve_introduction demo_chrono 2 2 36000 ?c ?s = (Inr r, t)
      \<and> eng_community_receipts t = fmempty \<and> eng_weekly_assessments t = fmempty \<and> er_introduction r = Some ir"
    by (simp add: reserve_introduction_def current [unfolded One_nat_def] allowed [unfolded One_nat_def]
        capacity [unfolded One_nat_def] Let_def) (simp add: set_candidate_def)
  then show ?thesis
    using due bounds by (auto simp: reserve_contact_def returning_def)
qed

lemma demo_introduction_history:
  "\<exists>h st r ir. trace (contact_step demo_chrono (\<lambda>_. []) ed) empty_contact
     ((Commit (ChReserve 2 2 36000) 36000 Written, Inr (RetReserved r)) # h) st \<and> er_introduction r = Some ir"
proof -
  let ?step = "contact_step demo_chrono (\<lambda>_. []) ed"
  let ?st = stored
  have empty: "empty_contact = ?st (intro_demo fmempty fmempty fmempty fmempty 0)"
    by (simp add: empty_contact_def intro_demo_def empty_engagement_def)
  have s1: "?step (Commit (ChConfigure 7 (EngGuild 1 2) demo_settings) 10 Written)
      (?st (intro_demo fmempty fmempty fmempty fmempty 0)) = (Inr RetUnit, ?st (intro_demo demo_one fmempty fmempty fmempty 0))"
    by (rule commit_step [OF _ _ demo_configure]) (auto intro!: intro_demo_ok demo_policies)
  have s2: "?step (Commit (ChConfigure 8 (EngGuild 1 2) demo_settings) 20 Written)
      (?st (intro_demo demo_one fmempty fmempty fmempty 0)) = (Inr RetUnit, ?st (intro_demo demo_both fmempty fmempty fmempty 0))"
    by (rule commit_step [OF _ _ demo_configure]) (auto intro!: intro_demo_ok demo_policies simp: fm_len_upd)
  have s3: "?step (Commit (ChFeature 1 True FeatIntroductions True (Some 2)) 30 Written)
      (?st (intro_demo demo_both fmempty fmempty fmempty 0)) = (Inr RetUnit, ?st (intro_demo demo_both demo_features fmempty fmempty 0))"
    by (rule commit_step [OF _ _ demo_feature]) (auto intro!: intro_demo_ok demo_policies)
  have s4: "?step (Commit (ChCreate (7, 8) (EngGuild 1 2) [65] 100) 100 Written)
      (?st (intro_demo demo_both demo_features fmempty fmempty 0))
      = (Inr (RetId (Some 1)), ?st (demo_intro_store 1 None (None, None) IntroPending))"
    by (rule commit_step [OF _ _ demo_create]) (simp_all add: demo_intro_store_ok [unfolded One_nat_def])
  have s5: "?step (Commit (ChEdit 1 8 1 [66] None) 200 Written) (?st (demo_intro_store 1 None (None, None) IntroPending))
      = (Inr (RetNat 2), ?st (demo_intro_store 2 (Some [66]) (None, None) IntroPending))"
    by (rule commit_step [OF _ _ demo_edit]) (simp_all add: demo_intro_store_ok [unfolded One_nat_def])
  have s6: "?step (Commit (ChApprove 1 7 2) 300 Written) (?st (demo_intro_store 2 (Some [66]) (None, None) IntroPending))
      = (Inr (RetBool (7 = (8 :: nat))), ?st (demo_intro_store 2 (Some [66]) (Some 2, None) IntroPending))"
    by (rule commit_step [OF _ _ demo_approve]) (simp_all add: demo_intro_store_ok [unfolded One_nat_def])
  have s7: "?step (Commit (ChApprove 1 8 2) 400 Written) (?st (demo_intro_store 2 (Some [66]) (Some 2, None) IntroPending))
      = (Inr (RetBool (8 = (8 :: nat))), ?st (demo_intro_store 2 (Some [66]) (Some 2, Some 2) IntroReady))"
    by (rule commit_step [OF _ _ demo_approve]) (simp_all add: demo_intro_store_ok [unfolded One_nat_def])
  from demo_reserve_introduction obtain r t ir where t:
    "change_contact demo_chrono (\<lambda>_. []) (ChReserve 2 2 36000)
       (demo_intro_store 2 (Some [66]) (Some 2, Some 2) IntroReady) = (Inr (RetReserved r), t)"
    "eng_community_receipts t = fmempty" "eng_weekly_assessments t = fmempty" "er_introduction r = Some ir" by blast
  have s8: "?step (Commit (ChReserve 2 2 36000) 36000 Written) (?st (demo_intro_store 2 (Some [66]) (Some 2, Some 2) IntroReady))
      = (Inr (RetReserved r), ?st t)"
    by (rule commit_step [OF _ _ t(1)]) (simp_all add: t)
  note call = trace_call [where step = ?step]
  note h2 = call [OF call [OF trace_start [where step = ?step, of empty_contact, unfolded empty] s1] s2]
  note h4 = call [OF call [OF h2 s3] s4]
  note h6 = call [OF call [OF h4 s5] s6]
  note h8 = call [OF call [OF h6 s7] s8, folded empty]
  show ?thesis
    by (rule exI, rule exI [of _ "?st t"], rule exI [of _ r], rule exI [of _ ir], rule conjI [OF h8 t(4)])
qed

theorem introduction_in_their_own_words_witness:
  "\<exists>h n x y. last_wrote h (intro_id n) (fst (intro_members n)) x \<and> last_wrote h (intro_id n) (snd (intro_members n)) y
     \<and> approved_since_edit h (intro_id n) (fst (intro_members n)) (intro_revision n)
     \<and> (\<exists>p q z. publication n = Inr (p @ x @ q @ y @ z))"
proof -
  obtain h st r ir where
    "trace (contact_step demo_chrono (\<lambda>_. []) \<lparr>ed_subject = \<lambda>_ _. [], ed_reactor = \<lambda>_ _. []\<rparr>) empty_contact
      ((Commit (ChReserve 2 2 36000) 36000 Written, Inr (RetReserved r)) # h) st" "er_introduction r = Some ir"
    using demo_introduction_history by blast
  from introduction_in_their_own_words [OF this] show ?thesis by blast
qed

end
