(* ===== verification/Engagement_Forgetting.thy ===== *)
theory Engagement_Forgetting
  imports Engagement_Consent "HOL-Library.Multiset"
begin

text \<open>
  Leaving and being forgotten: a stop ends unfinished contact and prevents new contact; an
  erasure forgets the person but not the attempts already made, and what was erased comes
  back neither through a repeated request nor through a late callback.
\<close>

section \<open>Stops\<close>

lemma set_stop_blocks:
  assumes "set_stop origin scope True p = Inr q" and "stop_matches origin scope where_to"
  shows "mp_global_stop q \<or> stopped_in q where_to"
  using assms
  by (cases scope; cases origin; cases where_to)
    (auto simp: set_stop_def stop_matches_def)

lemma stopped_policy:
  assumes "stop_store ch actor origin scope s = (Inr v, t)" and "stop_matches origin scope where_to"
  shows "\<exists>q. fmlookup (eng_member_policies t) actor = Some q \<and> (mp_global_stop q \<or> stopped_in q where_to)"
  using assms(1)
proof (rule stop_storeE)
  fix policy saved
  assume stop: "set_stop origin scope True (policy_of s actor) = Inr policy"
    and save: "save_policy ch actor policy s = (Inr (), saved)"
    and t: "t = saved\<lparr>eng_candidates := fmmap (\<lambda>c. if stop_hits actor origin scope
          (stopped_introductions actor origin scope saved) c then stopped_candidate c else c) (eng_candidates saved),
        eng_introductions := fmmap_keys (\<lambda>i n. if i |\<in>| stopped_introductions actor origin scope saved
          then stopped_introduction n else n) (eng_introductions saved)\<rparr>"
  from save have "eng_member_policies saved = fmupd actor (policy\<lparr>mp_revision := Suc (mp_revision policy)\<rparr>) (eng_member_policies s)"
    by (auto elim: save_policyE)
  moreover have "stopped_in (policy\<lparr>mp_revision := k\<rparr>) where_to = stopped_in policy where_to" for k
    by (cases where_to) simp_all
  ultimately show ?thesis using set_stop_blocks [OF stop assms(2)] t by auto
qed

lemma consents_not_stopped:
  assumes "consents ch s scope now member" and "fmlookup (eng_member_policies s) member = Some q"
  shows "\<not> mp_global_stop q \<and> \<not> stopped_in q scope"
  using assms by (auto simp: consents_def personalized_enabled_def)

text \<open>An introduction that is not cancelled has exactly its one open or attempted candidate.\<close>

lemma states_agree_linked:
  assumes ok: "engagement_ok ch s" and n: "fmlookup (eng_introductions s) m = Some n"
    and c: "fmlookup (eng_candidates s) i = Some c" "cand_introduction_id c = Some m"
  shows "states_agree (intro_state n) (cand_state c)"
proof -
  have id: "intro_id n = m" using engagement_okD(1) [OF ok n] by (auto simp: introduction_valid_def)
  have "fm_all (\<lambda>_ n. case candidates_of s (intro_id n) of
      [] \<Rightarrow> False | c # _ \<Rightarrow> states_agree (intro_state n) (cand_state c)) (eng_introductions s)"
    using ok by (simp add: engagement_ok_iff link_checks_def Let_def)
  from fm_allD [OF this n] id obtain d ds where d: "candidates_of s m = d # ds" "states_agree (intro_state n) (cand_state d)"
    by (auto split: list.splits)
  then have "d \<in> set (candidates_of s m)" by simp
  then obtain j where "fmlookup (eng_candidates s) j = Some d" "cand_introduction_id d = Some m"
    by (auto simp: candidates_of_iff)
  with contact_wfD(3) [OF engagement_ok_wf [OF ok] c(1) this(1) c(2) this(2)] c(1) d(2) show ?thesis by simp
qed



definition demo_stopped_policy :: member_policy where
  "demo_stopped_policy = demo_member_policy\<lparr>mp_stopped_guilds := {|1|}, mp_revision := 2\<rparr>"

definition demo_stopped :: engagement_store where
  "demo_stopped = intro_demo (fmupd 7 demo_stopped_policy demo_both) demo_features
     (fmupd 1 (demo_introduction 3 (Some [66]) (None, None) IntroCancelled) fmempty)
     (fmupd 2 ((demo_intro_candidate 3)\<lparr>cand_state := CandCancelled\<rparr>) fmempty) 2"

lemma demo_stopped_ok: "engagement_ok demo_chrono demo_stopped"
  unfolding demo_stopped_def
proof (rule intro_demo_ok [where j = 3 and cs = CandCancelled])
  show "fm_all (stored_policy_valid demo_chrono) (fmupd 7 demo_stopped_policy demo_both)"
    using demo_policy_valid demo_stored_policy demo_stored_policy_8
    by (auto simp: fm_all_def demo_stopped_policy_def demo_member_policy_def stored_policy_valid_def
        default_member_policy_def member_policy_valid_def policy_scopes_def)
qed (use demo_texts in \<open>auto simp: introduction_valid_def is_none_or_iff fm_len_upd\<close>)

lemma demo_stop:
  "stop_store demo_chrono 7 (EngGuild 1 2) StopServer (demo_intro_store 2 (Some [66]) (Some 2, Some 2) IntroReady)
     = (Inr (), demo_stopped)"
proof -
  let ?s = "demo_intro_store 2 (Some [66]) (Some 2, Some 2) IntroReady"
  let ?p = "demo_member_policy\<lparr>mp_stopped_guilds := {|1|}\<rparr>"
  let ?t = "intro_demo (fmupd 7 demo_stopped_policy demo_both) demo_features
    (fmupd 1 (demo_introduction 2 (Some [66]) (Some 2, Some 2) IntroReady) fmempty)
    (fmupd 2 (demo_intro_candidate 2) fmempty) 2"
  let ?intros = "stopped_introductions 7 (EngGuild 1 2) StopServer ?t"
  have stop: "set_stop (EngGuild 1 2) StopServer True (policy_of ?s 7) = Inr ?p"
    by (simp add: set_stop_def policy_of_def demo_member_policy_def default_member_policy_def)
  have valid: "member_policy_valid demo_chrono ?p"
    using demo_policy_valid by (simp add: member_policy_valid_def policy_scopes_def)
  have policies: "(intro_demo q f n c k)\<lparr>eng_member_policies := r\<rparr> = intro_demo r f n c k" for q r f n c k
    by (simp add: intro_demo_def)
  have revised: "?p\<lparr>mp_revision := 2\<rparr> = demo_stopped_policy" "mp_revision ?p = 1" "checked_add 1 1 = Some 2"
    by (simp_all add: demo_stopped_policy_def demo_member_policy_def u64_max_def)
  have save: "save_policy demo_chrono 7 ?p ?s = (Inr (), ?t)"
    unfolding save_policy_def revised option.case policies intro_demo_sel using valid by simp
  have intros: "?intros = {|1|}"
    by (rule fset_eqI) (auto simp: stopped_introductions_def fmlookup_dom_iff stop_matches_def)
  have hit: "stop_hits 7 (EngGuild 1 2) StopServer ?intros (demo_intro_candidate 2)"
    unfolding intros by (simp add: stop_hits_def stop_matches_def)
  have change: "(intro_demo p f n c k)\<lparr>eng_candidates := d, eng_introductions := m\<rparr> = intro_demo p f m d k"
    for p f n c k d m by (simp add: intro_demo_def)
  have candidate: "stopped_candidate (demo_intro_candidate 2)
      = (demo_intro_candidate 3)\<lparr>cand_state := CandCancelled\<rparr>"
    by (simp add: stopped_candidate_def demo_intro_candidate_def introduction_candidate_def)
  have introduction: "fmmap_keys (\<lambda>i n. if i = Suc 0 then stopped_introduction n else n)
      (fmupd (Suc 0) (demo_introduction 2 (Some [66]) (Some 2, Some 2) IntroReady) fmempty)
      = fmupd (Suc 0) (demo_introduction 3 (Some [66]) (None, None) IntroCancelled) fmempty"
    by (rule fmap_ext) (simp add: stopped_introduction_def demo_introduction_def)
  have result: "?t\<lparr>eng_candidates := fmmap (\<lambda>c. if stop_hits 7 (EngGuild 1 2) StopServer ?intros c
        then stopped_candidate c else c) (eng_candidates ?t),
      eng_introductions := fmmap_keys (\<lambda>i n. if i |\<in>| ?intros then stopped_introduction n else n)
        (eng_introductions ?t)\<rparr> = demo_stopped"
    using hit unfolding intros
    by (simp add: fmmap_fmupd demo_stopped_def candidate introduction change)
  have bounds: "\<not> u64_max \<le> 2" by (simp add: u64_max_def)
  show ?thesis
    unfolding stop_store_def stop save sum.case prod.case Let_def result
    using bounds by (simp add: publish_ok [OF demo_stopped_ok])
qed


section \<open>Erased people and the shared budget\<close>

lemma calendar_buckets_invalid: "calendar_buckets ch tz at = Inl e \<Longrightarrow> e = Invalid"
  by (auto simp: calendar_buckets_def utc_def Let_def elim!: guard_sumE split: if_splits sum.splits)

text \<open>The counts do not depend on the order of the rows.\<close>

definition in_bucket ::
  "'tz chrono \<Rightarrow> 'tz \<Rightarrow> (rstr \<times> rstr \<Rightarrow> bool) \<Rightarrow> rstr \<times> rstr \<times> u64 \<Rightarrow> bool" where
  "in_bucket ch tz P row = (case calendar_buckets ch tz (snd (snd row)) of Inl _ \<Rightarrow> False | Inr b \<Rightarrow> P b)"

lemma in_bucket_simps:
  "calendar_buckets ch tz (snd (snd row)) = Inl e \<Longrightarrow> \<not> in_bucket ch tz P row"
  "calendar_buckets ch tz (snd (snd row)) = Inr c \<Longrightarrow> in_bucket ch tz P row = P c"
  by (simp_all add: in_bucket_def)

lemma bucket_counts_closed:
  "bucket_counts ch tz b rows =
     (if list_all (in_bucket ch tz (\<lambda>_. True)) rows
      then Inr (length (filter (in_bucket ch tz (\<lambda>c. fst c = fst b)) rows),
        length (filter (in_bucket ch tz (\<lambda>c. snd c = snd b)) rows))
      else Inl Invalid)"
proof (induction rows)
  case (Cons row rows)
  then show ?case
    by (cases "calendar_buckets ch tz (snd (snd row))")
      (auto simp: in_bucket_simps dest: calendar_buckets_invalid)
qed simp

lemma length_filter_mset: "mset xs = mset ys \<Longrightarrow> length (filter P xs) = length (filter P ys)"
  by (metis mset_filter size_mset)

lemma contact_capacity_mset:
  assumes "mset (member_rows t m) = mset (member_rows s m)"
    and "eng_safety_pruned_through t = eng_safety_pruned_through s"
    and "rel_option (\<lambda>p q. mp_timezone p = mp_timezone q \<and> mp_daily_limit p = mp_daily_limit q
        \<and> mp_weekly_limit p = mp_weekly_limit q)
      (fmlookup (eng_member_policies t) m) (fmlookup (eng_member_policies s) m)"
  shows "contact_capacity ch t m now b = contact_capacity ch s m now b"
proof -
  have counts: "bucket_counts ch tz b (member_rows t m) = bucket_counts ch tz b (member_rows s m)" for tz
    using length_filter_mset [OF assms(1)] mset_eq_setD [OF assms(1)] by (simp add: bucket_counts_closed list_all_iff)
  note same = assms(2) counts length_filter_mset [OF assms(1)]
  show ?thesis
  proof (cases "fmlookup (eng_member_policies t) m")
    case None
    with assms(3) have "fmlookup (eng_member_policies s) m = None" by (simp add: rel_option_iff split: option.splits)
    with None show ?thesis by (simp add: contact_capacity_def assms(2))
  next
    case (Some p)
    with assms(3) obtain q where q: "fmlookup (eng_member_policies s) m = Some q"
      "mp_timezone p = mp_timezone q" "mp_daily_limit p = mp_daily_limit q" "mp_weekly_limit p = mp_weekly_limit q"
      by (auto simp: rel_option_iff split: option.splits)
    show ?thesis unfolding contact_capacity_def Some q option.case Let_def same ..
  qed
qed

lemma mset_filter_split:
  "mset (filter P xs) = mset (filter P (filter (\<lambda>x. \<not> Q x) xs)) + mset (filter P (filter Q xs))"
  by (rule multiset_eqI) simp

lemma erased_member_rows:
  "mset (member_rows (erased_store idh scope member s) m) = mset (member_rows s m)"
proof -
  let ?row = "\<lambda>c. (charge_local_day c, charge_local_week c, charge_at c)" and ?mine = "\<lambda>c. charge_member c = m"
  let ?gone = "\<lambda>c. charge_candidate c |\<in>| erased_candidates scope member s"
  have "mset (map ?row (filter ?mine (eng_charges s)))
      = mset (map ?row (filter ?mine (filter (\<lambda>c. \<not> ?gone c) (eng_charges s))))
        + mset (map ?row (filter ?mine (filter ?gone (eng_charges s))))"
    unfolding mset_map by (subst mset_filter_split [of ?mine _ ?gone]) (rule image_mset_union)
  then show ?thesis
    by (simp add: member_rows_def erased_store_def Let_def filter_map comp_def minimised_charge_def)
qed


section \<open>Erased requests stay refused\<close>

lemma identities_sel [simp]:
  "eng_erased_identities (set_candidate i c s) = eng_erased_identities s"
  "eng_erased_identities (attempt_receipt i now s) = eng_erased_identities s"
  by (simp_all add: set_candidate_def attempt_receipt_def split: option.split)

lemma identities_settle:
  "settle_contact i outcome s = (Inr v, t) \<Longrightarrow> eng_erased_identities t = eng_erased_identities s"
  unfolding settle_contact_def Let_def
  by (auto simp: set_candidate_def split: option.splits if_splits sum.splits prod.splits)

lemma identities_reserve:
  assumes "reserve_contact ch idh i revision now s = (Inr r, t)"
  shows "eng_erased_identities t = eng_erased_identities s"
  using assms
proof (cases rule: reserve_contactE)
  case (introduction c)
  from introduction(5) show ?thesis by (cases rule: reserve_introductionE) auto
next
  case (public c)
  from public(9) show ?thesis by (cases rule: reserve_publicE) auto
next
  case (member c who)
  from member(7) show ?thesis by (cases rule: reserve_memberE) auto
qed simp

lemma identities_introductions:
  "create_introduction ch idh members scope description now s = (Inr i, t)
     \<Longrightarrow> eng_erased_identities t = eng_erased_identities s"
  "edit_introduction ch i member revision description destination s = (Inr k, t)
     \<Longrightarrow> eng_erased_identities t = eng_erased_identities s"
  "approve_introduction ch i member revision s = (Inr b, t)
     \<Longrightarrow> eng_erased_identities t = eng_erased_identities s"
  "withdraw_introduction i member revision s = (Inr v, t)
     \<Longrightarrow> eng_erased_identities t = eng_erased_identities s"
  by (auto elim!: create_introductionE edit_introductionE approve_introductionE withdraw_introductionE)

definition same_identities :: "engagement_store \<Rightarrow> engagement_store \<Rightarrow> bool" where
  "same_identities s t \<longleftrightarrow> eng_erased_identities t = eng_erased_identities s"

lemma identities_others:
  "stop_store ch actor origin scope s = (Inr v, t) \<Longrightarrow> same_identities s t"
  "finish_attempt ch idh snapshot plan invalid outcome s = (Inr v, t) \<Longrightarrow> same_identities s t"
  "reject_pending j revision plan s = (Inr v, t) \<Longrightarrow> same_identities s t"
proof -
  show "stop_store ch actor origin scope s = (Inr v, t) \<Longrightarrow> same_identities s t"
    unfolding same_identities_def by (erule stop_storeE) (simp add: save_policy_untouched [unfolded untouched_def])
  show "same_identities s t" if "finish_attempt ch idh snapshot plan invalid outcome s = (Inr v, t)"
  proof -
    from that have "t = s \<or> settle_contact (cand_id snapshot) outcome
        (annotate_failure (cand_id snapshot) plan invalid outcome s) = (Inr v, t)"
      by (auto simp: finish_attempt_def split: option.splits if_splits)
    then show ?thesis using identities_settle by (fastforce simp: same_identities_def)
  qed
  show "same_identities s t" if "reject_pending j revision plan s = (Inr v, t)"
  proof -
    from that have "t = s \<or> (\<exists>c. t = set_candidate j c s)
        \<or> (\<exists>c n. t = set_candidate j c (s\<lparr>eng_introductions := n\<rparr>))"
      unfolding reject_pending_def by (auto split: option.splits if_splits delivery_plan.splits)
    then show ?thesis unfolding same_identities_def by (elim disjE exE) simp_all
  qed
qed

lemma identities_change:
  assumes "change_contact ch idh change s = (Inr v, t)"
  shows "eng_erased_identities t = eng_erased_identities s"
proof -
  have same: "untouched s t \<Longrightarrow> same_identities s t" by (simp add: untouched_def same_identities_def)
  note kept = identities_reserve identities_introductions
  from assms have "same_identities s t"
    by (cases change) (auto elim!: returning_Inr intro: same kept [folded same_identities_def] identities_others
        settings_untouched source_untouched planning_untouched)
  then show ?thesis by (simp add: same_identities_def)
qed

lemma identities_erase:
  "erase_learning idh scope member s = (Inr n, t)
     \<Longrightarrow> eng_erased_identities t = erased_identities_after idh scope member s"
  by (auto simp: erase_learning_def Let_def split: if_splits)

lemma identities_step:
  assumes "contact_step ch idh ed call st = (r, st')" and "t \<in> held st'"
  shows "\<exists>s \<in> held st. eng_erased_identities s |\<subseteq>| eng_erased_identities t"
  using assms(1)
proof (cases rule: contact_stepE)
  case (committed change admitted written v s)
  with identities_change [OF committed(4)] assms(2) show ?thesis by (auto simp: held_def split: if_splits)
next
  case (erased scope member now written n s ledger)
  then have "eng_erased_identities (cs_store st) |\<subseteq>| eng_erased_identities s"
    by (auto simp: identities_erase erased_identities_after_def)
  with erased assms(2) show ?thesis by (auto simp: held_def split: if_splits)
next
  case (saved written)
  with assms(2) show ?thesis by (auto simp: held_def split: if_splits)
next
  case (restarted n)
  with assms(2) show ?thesis by (auto simp: held_def)
qed (use assms(2) in auto)

interpretation remembered: stepper "contact_step ch idh ed"
  "\<lambda>st. \<forall>s \<in> held st. ids |\<subseteq>| eng_erased_identities s"
  by unfold_locales (meson identities_step order_trans)

lemma erased_stays_known:
  assumes "contact_step ch idh ed (Erase scope member now written) st = (Inr v, st1)"
    and "trace (contact_step ch idh ed) st1 h st2"
  shows "erased_identities_after idh scope member (cs_store st) |\<subseteq>| eng_erased_identities (cs_store st2)"
proof -
  from assms(1) have "\<forall>s \<in> held st1. erased_identities_after idh scope member (cs_store st) |\<subseteq>| eng_erased_identities s"
    by (cases rule: contact_stepE) (auto simp: held_def identities_erase split: if_splits)
  from remembered.trace_keeps [OF assms(2) this] show ?thesis by (simp add: held_def)
qed

lemma mem_ffUnion: "x |\<in>| ffUnion A \<longleftrightarrow> (\<exists>B. B |\<in>| A \<and> x |\<in>| B)"
  by (induction A) auto

lemma invitation_refused:
  assumes "idh (ErInvitation (inv_interaction q)) |\<in>| eng_erased_identities (cs_store st)"
  shows "fst (contact_step ch idh ed (Commit (ChInvite kind q) admitted written) st) = Inl Stale"
  using assms by (simp add: commit_contact_def request_invitation_def returning_def)

lemma introduction_refused:
  assumes "introduction_identity idh scope members |\<in>| eng_erased_identities (cs_store st)"
  shows "fst (contact_step ch idh ed (Commit (ChCreate members scope description now) admitted written) st) = Inl Stale"
  using assms by (simp add: commit_contact_def create_introduction_def returning_def)

lemma introduction_identity_pair:
  assumes "learning_scope a = learning_scope b" and "set (members_of m) = set (members_of n)"
  shows "introduction_identity idh a m = introduction_identity idh b n"
  using assms by (cases m; cases n) (auto simp: introduction_identity_def doubleton_eq_iff min_def max_def)

text \<open>
  C21. What was erased is not asked for again. After an erasure was reported as done,
  whatever is committed, erased, written or restarted later: an invitation that was erased
  is refused when its interaction is repeated, an introduction that was erased is refused
  for the same two members anywhere in the same server, and a follow-up or weekly
  check-in that was erased is refused when it is proposed from the same message.
\<close>

theorem erased_is_not_repeated:
  assumes "contact_step ch idh ed (Erase scope member now written) st = (Inr v, st1)"
    and "trace (contact_step ch idh ed) st1 h st2"
  shows "(\<forall>i r kind q a w. i |\<in>| erased_candidates scope member (cs_store st)
        \<and> fmlookup (eng_invitation_requests (cs_store st)) i = Some r \<and> inv_interaction q = inv_interaction r
        \<longrightarrow> fst (contact_step ch idh ed (Commit (ChInvite kind q) a w) st2) = Inl Stale)
    \<and> (\<forall>i n where_at members d at a w. i |\<in>| erased_introductions scope member (cs_store st)
        \<and> fmlookup (eng_introductions (cs_store st)) i = Some n \<and> learning_scope where_at = scope
        \<and> set (members_of members) = set (members_of (intro_members n))
        \<longrightarrow> fst (contact_step ch idh ed (Commit (ChCreate members where_at d at) a w) st2) = Inl Stale)
    \<and> (\<forall>i c p at. i |\<in>| erased_candidates scope member (cs_store st)
        \<and> fmlookup (eng_candidates (cs_store st)) i = Some c
        \<and> (cand_kind c = KindFollowUp \<or> cand_kind c = KindWeeklyCheckIn \<and> cp_due_at p = cand_due_at c)
        \<and> cp_kind p = cand_kind c \<and> cp_scope p = cand_scope c \<and> cp_member p = cand_member c
        \<and> map_option src_message (cp_source p) = map_option src_message (cand_source c)
        \<longrightarrow> fst (propose_candidate ch idh p at (cs_store st2)) = Inl Stale)"
proof -
  let ?s = "cs_store st"
  note known = erased_stays_known [OF assms, THEN fsubsetD]
  have invitation: "idh (ErInvitation (inv_interaction r)) |\<in>| eng_erased_identities (cs_store st2)"
    if "i |\<in>| erased_candidates scope member ?s" "fmlookup (eng_invitation_requests ?s) i = Some r" for i r
    using that by (intro known) (auto simp: erased_identities_after_def candidate_replay_ids_def mem_ffUnion
        erased_candidates_def fmlookup_dom_iff split: option.splits)
  have introduction: "introduction_identity idh (intro_scope n) (intro_members n)
      |\<in>| eng_erased_identities (cs_store st2) \<and> learning_scope (intro_scope n) = scope"
    if "i |\<in>| erased_introductions scope member ?s" "fmlookup (eng_introductions ?s) i = Some n" for i n
  proof
    show "introduction_identity idh (intro_scope n) (intro_members n) |\<in>| eng_erased_identities (cs_store st2)"
      using that by (intro known) (force simp: erased_identities_after_def fset_of_list_elem List.map_filter_def)
    show "learning_scope (intro_scope n) = scope"
      using that by (auto simp: erased_introductions_def erases_scope_def fmlookup_dom_iff split: if_splits)
  qed
  have candidate: "erased_candidate_identity idh c |\<in>| eng_erased_identities (cs_store st2)"
    if "i |\<in>| erased_candidates scope member ?s" "fmlookup (eng_candidates ?s) i = Some c"
      "cand_kind c = KindFollowUp \<or> cand_kind c = KindWeeklyCheckIn" for i c
    using that by (intro known) (force simp: erased_identities_after_def candidate_replay_ids_def mem_ffUnion)
  have proposal: "proposal_identity idh p = erased_candidate_identity idh c"
    if "cand_kind c = KindFollowUp \<or> cand_kind c = KindWeeklyCheckIn \<and> cp_due_at p = cand_due_at c"
      "cp_kind p = cand_kind c" "cp_scope p = cand_scope c" "cp_member p = cand_member c"
      "map_option src_message (cp_source p) = map_option src_message (cand_source c)" for p c
    using that by (auto simp: proposal_identity_def erased_candidate_identity_def)
  show ?thesis
  proof (intro conjI allI impI)
    show "fst (contact_step ch idh ed (Commit (ChInvite kind q) a w) st2) = Inl Stale"
      if "i |\<in>| erased_candidates scope member ?s \<and> fmlookup (eng_invitation_requests ?s) i = Some r
        \<and> inv_interaction q = inv_interaction r" for i r kind q a w
      using that invitation [of i r] by (intro invitation_refused) simp
    show "fst (contact_step ch idh ed (Commit (ChCreate members where_at d at) a w) st2) = Inl Stale"
      if "i |\<in>| erased_introductions scope member ?s \<and> fmlookup (eng_introductions ?s) i = Some n
        \<and> learning_scope where_at = scope \<and> set (members_of members) = set (members_of (intro_members n))"
      for i n where_at members d at a w
      using that introduction [of i n] introduction_identity_pair [of where_at "intro_scope n" members "intro_members n" idh]
      by (intro introduction_refused) simp
    show "fst (propose_candidate ch idh p at (cs_store st2)) = Inl Stale"
      if "i |\<in>| erased_candidates scope member ?s \<and> fmlookup (eng_candidates ?s) i = Some c
        \<and> (cand_kind c = KindFollowUp \<or> cand_kind c = KindWeeklyCheckIn \<and> cp_due_at p = cand_due_at c)
        \<and> cp_kind p = cand_kind c \<and> cp_scope p = cand_scope c \<and> cp_member p = cand_member c
        \<and> map_option src_message (cp_source p) = map_option src_message (cand_source c)" for i c p at
      using that candidate [of i c] proposal [of c p] by (auto simp: propose_candidate_def)
  qed
qed

section \<open>Late callbacks\<close>

definition tombs_ok :: "erasure_ledger \<Rightarrow> bool" where
  "tombs_ok ledger \<longleftrightarrow> (\<forall>r \<in> set ledger. tomb_until r = tomb_at r + retention_seconds)"

definition protects :: "erasure_digest \<Rightarrow> rstr \<Rightarrow> u64 option \<Rightarrow> u64 \<Rightarrow> erasure_ledger \<Rightarrow> bool" where
  "protects ed scope member bound ledger \<longleftrightarrow> (\<exists>r \<in> set ledger.
     tomb_subject r = ed_subject ed scope (map_option native_member member) \<and> bound \<le> tomb_until r)"

lemma protects_blocks:
  assumes "protects ed scope member bound ledger" and "erases_member member m" and "at \<le> bound"
  shows "ledger_blocks ed ledger scope (native_member m) at"
  using assms by (cases member) (auto simp: protects_def ledger_blocks_def list_ex_iff erases_member_def)

lemma protects_later:
  assumes "protects ed scope member bound ledger" and "erases_member member m"
    and "\<not> ledger_blocks ed ledger scope (native_member m) at"
  shows "bound < at"
  using protects_blocks [OF assms(1,2), of at] assms(3) by (meson not_le)

lemma renew_tombs:
  assumes "tombs_ok ledger" and "until = now + retention_seconds"
  shows "tombs_ok (renew_tombstone key now until ledger)"
    and "r \<in> set ledger \<Longrightarrow> \<exists>q \<in> set (renew_tombstone key now until ledger).
      tomb_subject q = tomb_subject r \<and> tomb_until r \<le> tomb_until q"
    and "list_ex (\<lambda>r. tomb_subject r = key) ledger \<Longrightarrow> \<exists>q \<in> set (renew_tombstone key now until ledger).
      tomb_subject q = key \<and> until \<le> tomb_until q"
  using assms by (induction ledger) (auto simp: tombs_ok_def)

lemma insert_tombs:
  assumes "ledger_insert ed scope subject now ledger = Inr ledger'" and "tombs_ok ledger"
  shows "tombs_ok ledger'"
    and "r \<in> set ledger \<Longrightarrow> \<exists>q \<in> set ledger'. tomb_subject q = tomb_subject r \<and> tomb_until r \<le> tomb_until q"
    and "\<exists>q \<in> set ledger'. tomb_subject q = ed_subject ed scope subject \<and> now + retention_seconds \<le> tomb_until q"
proof -
  let ?key = "ed_subject ed scope subject" and ?until = "now + retention_seconds"
  from assms(1) consider (renewed) "list_ex (\<lambda>r. tomb_subject r = ?key) ledger"
      "ledger' = renew_tombstone ?key now ?until ledger"
    | (added) v where "set ledger' = insert \<lparr>tomb_subject = ?key, tomb_reactor = v, tomb_at = now, tomb_until = ?until\<rparr>
        (set ledger)"
    by (auto simp: ledger_insert_def Let_def split: if_splits option.splits)
  then have "tombs_ok ledger' \<and> (\<forall>r \<in> set ledger. \<exists>q \<in> set ledger'. tomb_subject q = tomb_subject r
      \<and> tomb_until r \<le> tomb_until q) \<and> (\<exists>q \<in> set ledger'. tomb_subject q = ?key \<and> ?until \<le> tomb_until q)"
  proof cases
    case renewed
    with renew_tombs [OF assms(2) refl, where now = now and key = ?key] show ?thesis by blast
  next
    case (added v)
    with assms(2) show ?thesis by (auto simp: tombs_ok_def)
  qed
  then show "tombs_ok ledger'"
    "r \<in> set ledger \<Longrightarrow> \<exists>q \<in> set ledger'. tomb_subject q = tomb_subject r \<and> tomb_until r \<le> tomb_until q"
    "\<exists>q \<in> set ledger'. tomb_subject q = ?key \<and> ?until \<le> tomb_until q" by blast+
qed

text \<open>Everything of the member in the scope is later than \<open>bound\<close>.\<close>

definition forgotten :: "rstr \<Rightarrow> u64 option \<Rightarrow> u64 \<Rightarrow> engagement_store \<Rightarrow> bool" where
  "forgotten scope member bound s \<longleftrightarrow>
     (\<forall>src. holds_source s src \<and> erases_scope scope (src_scope src) \<and> erases_member member (src_author src)
        \<longrightarrow> bound < src_at src)
     \<and> (\<forall>i c m. fmlookup (eng_candidates s) i = Some c \<and> erases_scope scope (cand_scope c)
        \<and> cand_member c = Some m \<and> erases_member member m
        \<longrightarrow> is_none_or (cand_source c) (\<lambda>src. bound < src_at src))
     \<and> (\<forall>i r. fmlookup (eng_invitation_requests s) i = Some r \<and> erases_request scope member r \<longrightarrow> bound < inv_at r)"

lemma source_later:
  assumes "protects ed scope member bound ledger" and "source_permitted (ledger_blocks ed ledger) src"
    and "erases_scope scope (src_scope src)" and "erases_member member (src_author src)"
  shows "bound < src_at src"
  using protects_later [OF assms(1,4)] assms(2,3) by (simp add: erases_scope_def source_permitted_def)

lemma admitted_source:
  assumes "sources_admitted blocks before s" and "holds_source s src"
  shows "source_permitted blocks src \<or> holds_source before src"
proof -
  from assms(2) consider (observed) k rows j where "fmlookup (eng_observations s) k = Some rows" "fmlookup rows j = Some src"
    | (eligible) k rows where "fmlookup (eng_eligibility s) k = Some rows" "src |\<in>| rows"
    by (auto simp: holds_source_def fm_any_iff)
  then show ?thesis
  proof cases
    case observed
    from assms(1) show ?thesis unfolding sources_admitted_def
      by (blast dest: fm_allD [OF _ observed(1)] fm_allD [OF _ observed(2)])
  next
    case eligible
    from assms(1) show ?thesis unfolding sources_admitted_def using fm_allD [OF _ eligible(1)] eligible(2) by fastforce
  qed
qed

lemma admitted_forgotten:
  assumes "forgotten scope member bound before" and "protects ed scope member bound ledger"
    and admitted: "erasure_admitted (ledger_blocks ed ledger) before at s"
  shows "forgotten scope member bound s"
  unfolding forgotten_def
proof (intro conjI allI impI)
  fix src assume src: "holds_source s src \<and> erases_scope scope (src_scope src) \<and> erases_member member (src_author src)"
  then have "source_permitted (ledger_blocks ed ledger) src \<or> holds_source before src"
    using admitted admitted_source by (auto simp: erasure_admitted_def)
  then show "bound < src_at src" using source_later [OF assms(2)] src assms(1) by (auto simp: forgotten_def)
next
  fix i c m
  assume c: "fmlookup (eng_candidates s) i = Some c \<and> erases_scope scope (cand_scope c)
      \<and> cand_member c = Some m \<and> erases_member member m"
  have "fm_all (\<lambda>i c. fmlookup (eng_candidates before) i = Some c
      \<or> candidate_admitted (ledger_blocks ed ledger) s at c) (eng_candidates s)"
    using admitted by (simp add: erasure_admitted_def)
  from fm_allD [OF this conjunct1 [OF c]] consider "fmlookup (eng_candidates before) i = Some c"
    | "candidate_admitted (ledger_blocks ed ledger) s at c" by blast
  then show "is_none_or (cand_source c) (\<lambda>src. bound < src_at src)"
  proof cases
    case 1
    with c assms(1) show ?thesis by (auto simp: forgotten_def)
  next
    case 2
    with c have "\<not> ledger_blocks ed ledger scope (native_member m)
        (case cand_source c of None \<Rightarrow> at | Some src \<Rightarrow> src_at src)"
      by (auto simp: candidate_admitted_def Let_def erases_scope_def)
    from protects_later [OF assms(2) _ this] c show ?thesis by (auto simp: is_none_or_iff)
  qed
next
  fix i r assume r: "fmlookup (eng_invitation_requests s) i = Some r \<and> erases_request scope member r"
  then have "request_permitted (ledger_blocks ed ledger) r"
    using admitted by (auto simp: erasure_admitted_def fm_all_iff)
  with protects_later [OF assms(2)] r show "bound < inv_at r"
    by (auto simp: request_permitted_def erases_request_def erases_scope_def)
qed

lemma forgotten_cong:
  assumes "eng_observations t = eng_observations s" "eng_eligibility t = eng_eligibility s"
    and "eng_candidates t = eng_candidates s" "eng_invitation_requests t = eng_invitation_requests s"
  shows "forgotten scope member bound t = forgotten scope member bound s"
  by (simp add: forgotten_def holds_source_def assms)

lemma forgotten_prune [simp]:
  "forgotten scope member bound (prune_erasure_safety ch now s) = forgotten scope member bound s"
  by (rule forgotten_cong) (simp_all add: prune_erasure_safety_def Let_def split: sum.split option.split)

lemma recover_sources [simp]:
  "eng_observations (snd (recover_reserved s)) = eng_observations s"
  "eng_eligibility (snd (recover_reserved s)) = eng_eligibility s"
  "eng_invitation_requests (snd (recover_reserved s)) = eng_invitation_requests s"
  by (simp_all add: recover_reserved_def Let_def)

lemma forgotten_recover:
  assumes "forgotten scope member bound s"
  shows "forgotten scope member bound (snd (recover_reserved s))"
proof -
  have "\<exists>b. fmlookup (eng_candidates s) i = Some b \<and> cand_scope c = cand_scope b
      \<and> cand_member c = cand_member b \<and> cand_source c = cand_source b"
    if "fmlookup (eng_candidates (snd (recover_reserved s))) i = Some c" for i c
    using that by (auto simp: recover_reserved_def recovered_def Let_def split: if_splits)
  moreover have "holds_source (snd (recover_reserved s)) src = holds_source s src" for src
    by (simp add: holds_source_def)
  ultimately show ?thesis
    using assms unfolding forgotten_def recover_sources by (elim conjE, intro conjI) (simp, metis, assumption)
qed

lemma erased_sources [simp]:
  "eng_observations (erased_store idh scope member s) = observations_after scope member s"
  "eng_eligibility (erased_store idh scope member s) = eligibility_after scope member s"
  "eng_invitation_requests (erased_store idh scope member s)
     = fm_retain (\<lambda>_ r. \<not> erases_request scope member r) (eng_invitation_requests s)"
  by (simp_all add: erased_store_def Let_def)

lemma observed_after:
  assumes "fmlookup (observations_after scope member s) k = Some rows" and "fmlookup rows j = Some src"
  obtains old where "fmlookup (eng_observations s) k = Some old" "fmlookup old j = Some src"
    "\<not> (erases_scope scope k \<and> erases_member member j)"
  using assms by (auto simp: observations_after_def split: option.splits if_splits)

lemma eligible_after:
  assumes "fmlookup (eligibility_after scope member s) k = Some rows" and "src |\<in>| rows"
  obtains old where "fmlookup (eng_eligibility s) k = Some old" "src |\<in>| old"
    "\<not> (erases_scope scope (src_scope src) \<and> erases_member member k)"
  using assms by (auto simp: eligibility_after_def split: option.splits if_splits)

lemma held_source_erased:
  assumes "holds_source (erased_store idh scope member s) src"
  shows "holds_source s src"
  using assms unfolding holds_source_def erased_sources fm_any_iff
  by (meson observed_after eligible_after)

lemma forgotten_erase:
  assumes "forgotten scope member bound s" and "erase_learning idh scope' member' s = (Inr n, t)"
  shows "forgotten scope member bound t"
proof -
  from assms(2) have t: "t = erased_store idh scope' member' s" by (rule erase_learningE)
  show ?thesis
    using assms(1) unfolding forgotten_def t
    by (auto dest: held_source_erased split: option.splits if_splits)
qed

text \<open>In a valid store an erasure removes every matching record itself.\<close>

lemma erased_forgotten:
  assumes "erase_learning idh scope member s = (Inr n, t)" and ok: "engagement_ok ch s"
  shows "forgotten scope member bound t"
proof -
  from assms(1) have t: "t = erased_store idh scope member s" by (rule erase_learningE)
  have index: "fm_all observations_valid (eng_observations s)" "fm_all eligibility_valid (eng_eligibility s)"
    using ok by (simp_all add: engagement_ok_iff store_checks_def)
  have "\<not> (erases_scope scope (src_scope src) \<and> erases_member member (src_author src))" if "holds_source t src" for src
  proof -
    from that consider (observed) k rows j where "fmlookup (observations_after scope member s) k = Some rows"
        "fmlookup rows j = Some src"
      | (eligible) k rows where "fmlookup (eligibility_after scope member s) k = Some rows" "src |\<in>| rows"
      by (auto simp: t holds_source_def fm_any_iff)
    then show ?thesis
    proof cases
      case observed
      then obtain old where old: "fmlookup (eng_observations s) k = Some old" "fmlookup old j = Some src"
        "\<not> (erases_scope scope k \<and> erases_member member j)" by (rule observed_after)
      from fm_allD [OF index(1) old(1)] have "src_scope src = k \<and> src_author src = j"
        using old(2) by (auto simp: observations_valid_def fm_all_iff)
      with old(3) show ?thesis by simp
    next
      case eligible
      then obtain old where old: "fmlookup (eng_eligibility s) k = Some old" "src |\<in>| old"
        "\<not> (erases_scope scope (src_scope src) \<and> erases_member member k)" by (rule eligible_after)
      from fm_allD [OF index(2) old(1)] old(2) have "src_author src = k" by (auto simp: eligibility_valid_def)
      with old(3) show ?thesis by simp
    qed
  qed
  moreover have "\<not> (erases_scope scope (cand_scope c) \<and> cand_member c = Some m \<and> erases_member member m)"
    if "fmlookup (eng_candidates t) i = Some c" for i c m
    using that by (auto simp: t erased_candidates_def erases_candidate_def fmlookup_dom_iff split: option.splits if_splits)
  moreover have "\<not> erases_request scope member r" if "fmlookup (eng_invitation_requests t) i = Some r" for i r
    using that by (auto simp: t split: option.splits if_splits)
  ultimately show ?thesis unfolding forgotten_def by blast
qed

definition shielded :: "erasure_digest \<Rightarrow> rstr \<Rightarrow> u64 option \<Rightarrow> u64 \<Rightarrow> contact_state \<Rightarrow> bool" where
  "shielded ed scope member bound st \<longleftrightarrow> (\<forall>s \<in> held st. forgotten scope member bound s)
     \<and> (\<forall>ledger \<in> {cs_ledger st, snd (cs_saved st)}. tombs_ok ledger \<and> protects ed scope member bound ledger)"

lemma insert_protects:
  assumes "ledger_insert ed scope' subject now ledger = Inr ledger'" and "tombs_ok ledger"
    and "protects ed scope member bound ledger"
  shows "tombs_ok ledger' \<and> protects ed scope member bound ledger'"
  using insert_tombs(1,2) [OF assms(1,2)] assms(3) unfolding protects_def by (metis order_trans)

lemma shielded_step:
  assumes "shielded ed scope member bound st" and "contact_step ch idh ed call st = (r, st')"
  shows "shielded ed scope member bound st'"
  using assms(2)
proof (cases rule: contact_stepE)
  case (committed change admitted written v s)
  have "forgotten scope member bound s"
    by (rule admitted_forgotten [OF _ _ committed(5)]) (use assms(1) in \<open>auto simp: shielded_def held_def\<close>)
  with committed(6-8) assms(1) show ?thesis by (auto simp: shielded_def held_def)
next
  case (erased scope' member' now written n s ledger)
  have "forgotten scope member bound s" "tombs_ok ledger \<and> protects ed scope member bound ledger"
    using assms(1) forgotten_erase [OF _ erased(2)] insert_protects [OF erased(3)] by (auto simp: shielded_def held_def)
  with erased(4-6) assms(1) show ?thesis by (auto simp: shielded_def held_def)
next
  case (saved written)
  with assms(1) show ?thesis by (auto simp: shielded_def held_def)
next
  case (restarted n)
  with assms(1) show ?thesis by (auto simp: shielded_def held_def forgotten_recover)
qed (use assms(1) in simp)

interpretation shield: stepper "contact_step ch idh ed" "shielded ed scope member bound"
  by unfold_locales (rule shielded_step)


section \<open>An example erasure\<close>

text \<open>Member 7 was contacted once and is then erased in server 1.\<close>

definition demo_charge :: contact_charge where
  "demo_charge = \<lparr>charge_candidate = 1, charge_member = 7, charge_local_day = decimal 1,
     charge_local_week = decimal 0, charge_at = 122400\<rparr>"

definition demo_charged :: engagement_store where
  "demo_charged = demo_store_4\<lparr>eng_charges := [demo_charge]\<rparr>"

definition demo_home :: rstr where
  "demo_home = learning_scope (EngGuild 1 2)"

lemma demo_erased_candidates:
  "eng_candidates s = fmupd 1 demo_follow_up fmempty \<Longrightarrow> eng_community_receipts s = fmempty
     \<Longrightarrow> erased_candidates demo_home (Some 7) s = {|1|}"
  by (rule fset_eqI) (auto simp: demo_home_def erased_candidates_def erases_candidate_def erases_scope_def
      erases_member_def fmlookup_dom_iff split: if_splits)

lemma demo_erase:
  assumes "eng_candidates s = fmupd 1 demo_follow_up fmempty" "eng_community_receipts s = fmempty"
    and "eng_introductions s = fmempty" "eng_invitation_requests s = fmempty"
    and "eng_suppressed_invitations s = fmempty" "eng_erased_identities s = {||}"
  shows "\<exists>n. erase_learning idh demo_home (Some 7) s = (Inr n, erased_store idh demo_home (Some 7) s)"
proof -
  have "erased_identities_after idh demo_home (Some 7) s = {|erased_candidate_identity idh demo_follow_up|}"
    unfolding erased_identities_after_def demo_erased_candidates [OF assms(1,2)]
    using assms by (simp add: candidate_replay_ids_def erased_introductions_def List.map_filter_simps invitation_kind.simps)
  then show ?thesis by (simp add: erase_learning_def Let_def fcard.rep_eq)
qed


text \<open>The same erasure as a call, and a later write of the state.\<close>

lemma demo_erase_history:
  "\<exists>n st1 st2. contact_step demo_chrono idh ed (Erase demo_home (Some 7) 200000 Written) (stored demo_store_4)
       = (Inr (RetNat n), st1)
     \<and> trace (contact_step demo_chrono idh ed) st1 [(Save Written, Inr RetUnit)] st2"
proof -
  obtain n where n: "erase_learning idh demo_home (Some 7) demo_store_4
      = (Inr n, erased_store idh demo_home (Some 7) demo_store_4)"
    using demo_erase [of demo_store_4 idh] by auto
  have "decimal 1 = [49]" "decimal 7 = [55]" by (simp_all add: decimal.simps)
  then have "erasure_name_ok demo_home" "erasure_name_ok (native_member 7)"
    by (simp_all add: demo_home_def erasure_name_ok_def native_member_def byte_len_def utf8_len_def unit_sep_def)
  then obtain ledger where "ledger_insert ed demo_home (map_option native_member (Some 7)) 200000 [] = Inr ledger"
    by (simp add: ledger_insert_def u64_max_def retention_seconds_def max_tombstones_def)
  then obtain st1 where step: "contact_step demo_chrono idh ed (Erase demo_home (Some 7) 200000 Written) (stored demo_store_4)
      = (Inr (RetNat n), st1)"
    using n by (simp add: erase_contact_def del: One_nat_def)
  have "\<exists>st2. contact_step demo_chrono idh ed (Save Written) st1 = (Inr RetUnit, st2)" by simp
  then obtain st2 where "contact_step demo_chrono idh ed (Save Written) st1 = (Inr RetUnit, st2)" by blast
  from trace_call [where step = "contact_step demo_chrono idh ed", OF trace_start this] step show ?thesis by blast
qed

theorem erased_is_not_repeated_witness:
  "\<exists>c (st2 :: contact_state). fmlookup (eng_candidates demo_store_4) 1 = Some c
     \<and> fst (propose_candidate demo_chrono (\<lambda>_. []) \<lparr>cp_kind = cand_kind c, cp_source = cand_source c,
         cp_member = cand_member c, cp_scope = cand_scope c, cp_due_at = 0, cp_introduction_id = None\<rparr> 300000
         (cs_store st2)) = Inl Stale"
proof -
  obtain n st1 st2 where t: "contact_step demo_chrono (\<lambda>_. []) demo_digest (Erase demo_home (Some 7) 200000 Written)
        (stored demo_store_4) = (Inr (RetNat n), st1)"
      "trace (contact_step demo_chrono (\<lambda>_. []) demo_digest) st1 [(Save Written, Inr RetUnit)] st2"
    using demo_erase_history [of "\<lambda>_. []" demo_digest] by blast
  let ?p = "\<lparr>cp_kind = cand_kind demo_follow_up, cp_source = cand_source demo_follow_up,
      cp_member = cand_member demo_follow_up, cp_scope = cand_scope demo_follow_up, cp_due_at = 0,
      cp_introduction_id = None\<rparr>"
  have c: "1 |\<in>| erased_candidates demo_home (Some 7) (cs_store (stored demo_store_4))"
    "fmlookup (eng_candidates (cs_store (stored demo_store_4))) 1 = Some demo_follow_up"
    using demo_erased_candidates [of demo_store_4] by simp_all
  from conjunct2 [OF conjunct2 [OF erased_is_not_repeated [OF t]], rule_format, of 1 demo_follow_up ?p 300000] c
  have "fst (propose_candidate demo_chrono (\<lambda>_. []) ?p 300000 (cs_store st2)) = Inl Stale"
    by (simp del: One_nat_def)
  then show ?thesis using c(2) by (intro exI [of _ demo_follow_up] exI [of _ st2]) simp
qed


end
