(* ===== verification/Provider_Circuit.thy ===== *)
theory Provider_Circuit
  imports Machine Prelude
begin

text \<open>
  The circuit breaker in front of a language model provider
  (\<open>src/provider/circuit.rs\<close>). The owner reserves a permit before it calls the provider
  and completes the permit with what happened; the circuit decides whether the next call
  may be made. Time is the millisecond counter the owner passes in; a \<open>Duration\<close> is its
  number of nanoseconds. Reading the text of a \<open>Retry-After\<close> header into a duration
  (\<open>from_seconds\<close>, floating point) is left out.

  The lemmas show that the circuit keeps its invariant, that a permit is handed out once
  and settled at most once, that at most one probe is under way, that a block is final,
  and that an opening ends by itself.
\<close>

section \<open>Failure kinds and retry advice\<close>

datatype provider_failure_kind =
  KindSuccess | TransportUnavailable | KindTimeout | Http5xx | RateLimited | Authentication
  | Authorization | Configuration | ExecutableIdentity | ModelIdentity | SandboxIdentity
  | ToolSchema | ResponseSchema | ProtocolDrift | KindCancelled | InvalidRequest | KindBusy

definition is_transient :: "provider_failure_kind \<Rightarrow> bool" where
  "is_transient kind \<longleftrightarrow> kind \<in> {TransportUnavailable, KindTimeout, Http5xx, RateLimited}"

definition is_blocked :: "provider_failure_kind \<Rightarrow> bool" where
  "is_blocked kind \<longleftrightarrow> kind \<in> {Authentication, Authorization, Configuration, ExecutableIdentity,
     ModelIdentity, SandboxIdentity, ToolSchema, ResponseSchema, ProtocolDrift}"

definition is_neutral :: "provider_failure_kind \<Rightarrow> bool" where
  "is_neutral kind \<longleftrightarrow> kind \<in> {KindCancelled, InvalidRequest, KindBusy}"

text \<open>Every kind has exactly one of four effects on the circuit.\<close>

lemma failure_kind_cases:
  "kind = KindSuccess \<or> is_transient kind \<or> is_blocked kind \<or> is_neutral kind"
  "is_transient kind \<Longrightarrow> \<not> is_blocked kind \<and> \<not> is_neutral kind \<and> kind \<noteq> KindSuccess"
  "is_blocked kind \<Longrightarrow> \<not> is_neutral kind \<and> kind \<noteq> KindSuccess"
  "is_neutral kind \<Longrightarrow> kind \<noteq> KindSuccess"
  by (cases kind; simp add: is_transient_def is_blocked_def is_neutral_def)+

datatype retry_after = RetryAbsent | RetryValid nat | RetryInvalid

definition retry_from_duration :: "nat \<Rightarrow> retry_after" where
  "retry_from_duration nanos =
     (if 1000000000 \<le> nanos \<and> nanos \<le> 900000000000 then RetryValid nanos else RetryInvalid)"

fun retry_classify :: "retry_after \<Rightarrow> provider_failure_kind \<Rightarrow> provider_failure_kind" where
  "retry_classify RetryAbsent kind = kind"
| "retry_classify (RetryValid delay) kind =
     (if (kind = Http5xx \<or> kind = RateLimited) \<and> (case retry_from_duration delay of RetryValid d \<Rightarrow> True | _ \<Rightarrow> False)
      then kind else ProtocolDrift)"
| "retry_classify RetryInvalid kind = ProtocolDrift"

fun retry_millis :: "retry_after \<Rightarrow> u64 option" where
  "retry_millis (RetryValid nanos) =
     (let ms = (nanos + 999999) div 1000000 in if ms \<le> u64_max then Some ms else None)"
| "retry_millis _ = None"

section \<open>The circuit\<close>

datatype circuit_phase = CircuitClosed | CircuitOpen | CircuitHalfOpen | CircuitBlocked

datatype circuit_unavailable = UnavailableOpen | UnavailableBlocked | UnavailableBusy

record circuit_snapshot =
  snap_phase :: circuit_phase
  snap_reason :: "provider_failure_kind option"
  snap_level :: u8
  snap_open_until :: "u64 option"
  snap_probe_reserved :: bool

record circuit =
  circ_snapshot :: circuit_snapshot
  circ_recent :: "u64 list"
  circ_outstanding :: "u64 fset"
  circ_probe :: "u64 option"
  circ_next_permit :: u64

definition new_circuit :: circuit where
  "new_circuit = \<lparr>circ_snapshot = \<lparr>snap_phase = CircuitClosed, snap_reason = None, snap_level = 0,
       snap_open_until = None, snap_probe_reserved = False\<rparr>,
     circ_recent = [], circ_outstanding = {||}, circ_probe = None, circ_next_permit = 0\<rparr>"

definition circuit_open :: "u64 \<Rightarrow> u64 \<Rightarrow> u8 \<Rightarrow> provider_failure_kind \<Rightarrow> circuit \<Rightarrow> circuit" where
  "circuit_open now_ms delay_ms level reason c = c\<lparr>circ_recent := [], circ_probe := None,
     circ_snapshot := \<lparr>snap_phase = CircuitOpen, snap_reason = Some reason, snap_level = level,
       snap_open_until = Some (saturating_add now_ms delay_ms), snap_probe_reserved = False\<rparr>\<rparr>"

definition circuit_block :: "provider_failure_kind \<Rightarrow> circuit \<Rightarrow> circuit" where
  "circuit_block reason c = c\<lparr>circ_recent := [], circ_probe := None, circ_outstanding := {||},
     circ_snapshot := (circ_snapshot c)\<lparr>snap_phase := CircuitBlocked, snap_reason := Some reason,
       snap_open_until := None, snap_probe_reserved := False\<rparr>\<rparr>"

definition restore_blocked :: "provider_failure_kind \<Rightarrow> circuit option" where
  "restore_blocked reason =
     (if \<not> is_blocked reason then None else Some (circuit_block reason new_circuit))"

definition open_until_or :: "u64 \<Rightarrow> circuit \<Rightarrow> u64" where
  "open_until_or fallback c = (case snap_open_until (circ_snapshot c) of None \<Rightarrow> fallback | Some t \<Rightarrow> t)"

definition circuit_availability :: "u64 \<Rightarrow> circuit \<Rightarrow> circuit_unavailable + unit" where
  "circuit_availability now_ms c =
     (let phase = snap_phase (circ_snapshot c)
      in if phase = CircuitBlocked then Inl UnavailableBlocked
         else if phase = CircuitOpen \<and> now_ms < open_until_or u64_max c then Inl UnavailableOpen
         else if phase = CircuitHalfOpen \<and> circ_probe c \<noteq> None then Inl UnavailableBusy
         else if circ_next_permit c = u64_max then Inl UnavailableBusy
         else Inr ())"

definition circuit_reserve :: "u64 \<Rightarrow> circuit \<Rightarrow> (circuit_unavailable + u64) \<times> circuit" where
  "circuit_reserve now_ms c =
     (case circuit_availability now_ms c of Inl e \<Rightarrow> (Inl e, c)
      | Inr _ \<Rightarrow>
          let permit = circ_next_permit c + 1;
              snapshot = (if snap_phase (circ_snapshot c) = CircuitOpen
                          then (circ_snapshot c)\<lparr>snap_phase := CircuitHalfOpen, snap_open_until := None\<rparr>
                          else circ_snapshot c);
              half_open = (snap_phase snapshot = CircuitHalfOpen)
          in (Inr permit, c\<lparr>circ_next_permit := permit,
                circ_snapshot := (if half_open then snapshot\<lparr>snap_probe_reserved := True\<rparr> else snapshot),
                circ_probe := (if half_open then Some permit else circ_probe c),
                circ_outstanding := finsert permit (circ_outstanding c)\<rparr>))"

definition retry_or_zero :: "retry_after \<Rightarrow> u64" where
  "retry_or_zero retry = (case retry_millis retry of None \<Rightarrow> 0 | Some ms \<Rightarrow> ms)"

text \<open>What an accepted outcome does in each phase, \<open>owns_probe\<close> computed before the probe
  was released.\<close>

definition settle_closed :: "provider_failure_kind \<Rightarrow> retry_after \<Rightarrow> u64 \<Rightarrow> circuit \<Rightarrow> circuit" where
  "settle_closed kind retry now_ms c =
     (let kept = filter (\<lambda>time. now_ms - time \<le> 300000) (circ_recent c)
      in if is_transient kind then
           let recent = kept @ [now_ms]; normal = (if 3 \<le> length recent then 60000 else 0)
           in if normal \<noteq> 0 \<or> retry_millis retry \<noteq> None
              then circuit_open now_ms (max normal (retry_or_zero retry)) 0 kind (c\<lparr>circ_recent := recent\<rparr>)
              else c\<lparr>circ_recent := recent\<rparr>
         else c\<lparr>circ_recent := kept\<rparr>)"

definition settle_open :: "provider_failure_kind \<Rightarrow> retry_after \<Rightarrow> u64 \<Rightarrow> circuit \<Rightarrow> circuit" where
  "settle_open kind retry now_ms c =
     (case retry_millis retry of
        Some delay \<Rightarrow>
          if is_transient kind
          then c\<lparr>circ_snapshot := (circ_snapshot c)\<lparr>snap_open_until :=
                   Some (max (open_until_or 0 c) (saturating_add now_ms delay))\<rparr>\<rparr>
          else c
      | None \<Rightarrow> c)"

definition settle_probe :: "provider_failure_kind \<Rightarrow> retry_after \<Rightarrow> u64 \<Rightarrow> circuit \<Rightarrow> circuit" where
  "settle_probe kind retry now_ms c =
     (if kind = KindSuccess then c\<lparr>circ_snapshot := circ_snapshot new_circuit, circ_recent := []\<rparr>
      else if is_transient kind then
        let level = snap_level (circ_snapshot c); normal = (if level = 0 then 300000 else 900000)
        in circuit_open now_ms (min (max normal (retry_or_zero retry)) 900000) (min (level + 1) 2) kind c
      else c)"

definition settle_phase ::
  "provider_failure_kind \<Rightarrow> retry_after \<Rightarrow> u64 \<Rightarrow> bool \<Rightarrow> circuit \<Rightarrow> circuit" where
  "settle_phase kind retry now_ms owns_probe c =
     (case snap_phase (circ_snapshot c) of
        CircuitClosed \<Rightarrow> settle_closed kind retry now_ms c
      | CircuitOpen \<Rightarrow> settle_open kind retry now_ms c
      | CircuitHalfOpen \<Rightarrow> if owns_probe then settle_probe kind retry now_ms c else c
      | CircuitBlocked \<Rightarrow> c)"

definition release_probe :: "u64 \<Rightarrow> circuit \<Rightarrow> circuit" where
  "release_probe permit c =
     (if circ_probe c = Some permit
      then c\<lparr>circ_probe := None, circ_snapshot := (circ_snapshot c)\<lparr>snap_probe_reserved := False\<rparr>\<rparr>
      else c)"

definition circuit_complete ::
  "u64 \<Rightarrow> provider_failure_kind \<Rightarrow> retry_after \<Rightarrow> u64 \<Rightarrow> circuit \<Rightarrow> provider_failure_kind option \<times> circuit" where
  "circuit_complete permit raw retry now_ms c0 =
     (let c = c0\<lparr>circ_outstanding := circ_outstanding c0 |-| {|permit|}\<rparr>
      in if permit |\<notin>| circ_outstanding c0 \<or> snap_phase (circ_snapshot c) = CircuitBlocked then (None, c)
         else
           let kind = retry_classify retry raw
           in if is_blocked kind then (Some kind, circuit_block kind c)
              else
                let owns_probe = (circ_probe c = Some permit); d = release_probe permit c
                in if is_neutral kind then (Some kind, d)
                   else (Some kind, settle_phase kind retry now_ms owns_probe d))"

section \<open>Histories\<close>

datatype circuit_call =
  CircuitReserve u64 | CircuitComplete u64 provider_failure_kind retry_after u64

datatype circuit_return =
  CircuitReserved "circuit_unavailable + u64" | CircuitCompleted "provider_failure_kind option"

fun circuit_step :: "circuit_call \<Rightarrow> circuit \<Rightarrow> circuit_return \<times> circuit" where
  "circuit_step (CircuitReserve now_ms) c = map_prod CircuitReserved id (circuit_reserve now_ms c)"
| "circuit_step (CircuitComplete permit kind retry now_ms) c =
     map_prod CircuitCompleted id (circuit_complete permit kind retry now_ms c)"

fun circuit_time :: "circuit_call \<Rightarrow> u64" where
  "circuit_time (CircuitReserve now_ms) = now_ms"
| "circuit_time (CircuitComplete permit kind retry now_ms) = now_ms"

section \<open>The invariant\<close>

fun phase_ok :: "circuit_phase \<Rightarrow> circuit \<Rightarrow> bool" where
  "phase_ok CircuitClosed c \<longleftrightarrow>
     circ_snapshot c = circ_snapshot new_circuit \<and> circ_probe c = None \<and> length (circ_recent c) \<le> 2"
| "phase_ok CircuitOpen c \<longleftrightarrow>
     circ_probe c = None \<and> circ_recent c = [] \<and> snap_open_until (circ_snapshot c) \<noteq> None
     \<and> \<not> snap_probe_reserved (circ_snapshot c)"
| "phase_ok CircuitHalfOpen c \<longleftrightarrow>
     circ_recent c = [] \<and> snap_open_until (circ_snapshot c) = None
     \<and> snap_probe_reserved (circ_snapshot c) = (circ_probe c \<noteq> None)
     \<and> is_none_or (circ_probe c) (\<lambda>p. p |\<in>| circ_outstanding c)"
| "phase_ok CircuitBlocked c \<longleftrightarrow>
     circ_probe c = None \<and> circ_recent c = [] \<and> circ_outstanding c = {||}
     \<and> snap_open_until (circ_snapshot c) = None \<and> is_some_and (snap_reason (circ_snapshot c)) is_blocked"

definition circuit_ok :: "circuit \<Rightarrow> bool" where
  "circuit_ok c \<longleftrightarrow> phase_ok (snap_phase (circ_snapshot c)) c \<and> snap_level (circ_snapshot c) \<le> 2
     \<and> circ_next_permit c \<le> u64_max \<and> fBall (circ_outstanding c) (\<lambda>p. 1 \<le> p \<and> p \<le> circ_next_permit c)"

lemma new_circuit_ok: "circuit_ok new_circuit"
  by (simp add: circuit_ok_def new_circuit_def)

lemma new_circuit_simps [simp]:
  "snap_phase (circ_snapshot new_circuit) = CircuitClosed" "snap_level (circ_snapshot new_circuit) = 0"
  "snap_open_until (circ_snapshot new_circuit) = None" "\<not> snap_probe_reserved (circ_snapshot new_circuit)"
  "circ_probe new_circuit = None" "circ_recent new_circuit = []" "circ_outstanding new_circuit = {||}"
  "circ_next_permit new_circuit = 0"
  by (simp_all add: new_circuit_def)

lemma block_ok: "is_blocked reason \<Longrightarrow> circuit_ok c \<Longrightarrow> circuit_ok (circuit_block reason c)"
  by (simp add: circuit_ok_def circuit_block_def)

lemma open_ok: "circuit_ok c \<Longrightarrow> level \<le> 2 \<Longrightarrow> circuit_ok (circuit_open now_ms delay level reason c)"
  by (simp add: circuit_ok_def circuit_open_def)

lemma reserve_ok:
  assumes "circuit_ok c" and "circuit_reserve now_ms c = (r, d)"
  shows "circuit_ok d"
proof (cases "circuit_availability now_ms c")
  case (Inl e)
  with assms show ?thesis by (simp add: circuit_reserve_def)
next
  case (Inr u)
  with assms show ?thesis
    by (cases "snap_phase (circ_snapshot c)")
      (auto simp: circuit_reserve_def circuit_availability_def circuit_ok_def Let_def le_Suc_eq dest: fbspec split: if_splits)
qed

lemma release_ok:
  assumes "circuit_ok c"
  shows "circuit_ok (c\<lparr>circ_probe := None, circ_snapshot := (circ_snapshot c)\<lparr>snap_probe_reserved := False\<rparr>\<rparr>)"
  using assms by (cases "snap_phase (circ_snapshot c)") (auto simp: circuit_ok_def new_circuit_def)

lemma remove_ok:
  assumes "circuit_ok c" and "circ_probe c \<noteq> Some permit"
  shows "circuit_ok (c\<lparr>circ_outstanding := circ_outstanding c |-| {|permit|}\<rparr>)"
  using assms by (cases "snap_phase (circ_snapshot c)") (auto simp: circuit_ok_def is_none_or_iff)

lemma settle_closed_ok:
  assumes "circuit_ok c" and "snap_phase (circ_snapshot c) = CircuitClosed"
  shows "circuit_ok (settle_closed kind retry now_ms c)"
proof -
  let ?kept = "filter (\<lambda>time. now_ms - time \<le> 300000) (circ_recent c)"
  from assms have "length ?kept \<le> 2"
    by (auto simp: circuit_ok_def intro: order_trans [OF length_filter_le])
  with assms show ?thesis
    by (auto simp: settle_closed_def Let_def circuit_ok_def circuit_open_def)
qed

lemma settle_open_ok:
  "circuit_ok c \<Longrightarrow> snap_phase (circ_snapshot c) = CircuitOpen \<Longrightarrow> circuit_ok (settle_open kind retry now_ms c)"
  by (auto simp: settle_open_def circuit_ok_def split: option.splits)

lemma settle_probe_ok: "circuit_ok c \<Longrightarrow> circ_probe c = None \<Longrightarrow> circuit_ok (settle_probe kind retry now_ms c)"
  by (auto simp: settle_probe_def Let_def circuit_ok_def circuit_open_def)

text \<open>The circuit with a permit taken out of it, and the probe released when the permit was
  the probe.\<close>

definition without_permit :: "u64 \<Rightarrow> circuit \<Rightarrow> circuit" where
  "without_permit permit c =
     release_probe permit (c\<lparr>circ_outstanding := circ_outstanding c |-| {|permit|}\<rparr>)"

lemma without_permit_ok: "circuit_ok c \<Longrightarrow> circuit_ok (without_permit permit c)"
  by (cases "snap_phase (circ_snapshot c)")
    (auto simp: without_permit_def release_probe_def circuit_ok_def is_none_or_iff new_circuit_def)

lemma without_permit_simps [simp]:
  "snap_phase (circ_snapshot (without_permit permit c)) = snap_phase (circ_snapshot c)"
  "snap_level (circ_snapshot (without_permit permit c)) = snap_level (circ_snapshot c)"
  "snap_open_until (circ_snapshot (without_permit permit c)) = snap_open_until (circ_snapshot c)"
  "circ_outstanding (without_permit permit c) = circ_outstanding c |-| {|permit|}"
  "circ_next_permit (without_permit permit c) = circ_next_permit c"
  "circ_recent (without_permit permit c) = circ_recent c"
  "circ_probe c = Some permit \<Longrightarrow> circ_probe (without_permit permit c) = None"
  "circ_probe c \<noteq> Some permit \<Longrightarrow> circ_probe (without_permit permit c) = circ_probe c"
  by (simp_all add: without_permit_def release_probe_def)

text \<open>The outcomes of a completion, one case each.\<close>

lemma settle_phase_ok: "circuit_ok c \<Longrightarrow> (owns \<Longrightarrow> circ_probe c = None) \<Longrightarrow> circuit_ok (settle_phase kind retry now_ms owns c)"
  by (auto simp: settle_phase_def intro: settle_closed_ok settle_open_ok settle_probe_ok split: circuit_phase.split)

lemma completeE:
  assumes "circuit_complete permit raw retry now_ms c = (r, d)"
  obtains (ignored) "r = None" "d = c\<lparr>circ_outstanding := circ_outstanding c |-| {|permit|}\<rparr>"
      "permit |\<notin>| circ_outstanding c \<or> snap_phase (circ_snapshot c) = CircuitBlocked"
  | (blocked) kind where "r = Some kind" "is_blocked kind" "permit |\<in>| circ_outstanding c"
      "snap_phase (circ_snapshot c) \<noteq> CircuitBlocked" "d = circuit_block kind c"
  | (neutral) kind where "r = Some kind" "is_neutral kind" "permit |\<in>| circ_outstanding c"
      "snap_phase (circ_snapshot c) \<noteq> CircuitBlocked" "d = without_permit permit c"
  | (settled) kind where "r = Some kind" "kind = retry_classify retry raw" "kind = KindSuccess \<or> is_transient kind"
      "permit |\<in>| circ_outstanding c" "snap_phase (circ_snapshot c) \<noteq> CircuitBlocked"
      "d = settle_phase kind retry now_ms (circ_probe c = Some permit) (without_permit permit c)"
proof -
  let ?kind = "retry_classify retry raw"
  consider "permit |\<notin>| circ_outstanding c \<or> snap_phase (circ_snapshot c) = CircuitBlocked"
    | "permit |\<in>| circ_outstanding c" "snap_phase (circ_snapshot c) \<noteq> CircuitBlocked" "is_blocked ?kind"
    | "permit |\<in>| circ_outstanding c" "snap_phase (circ_snapshot c) \<noteq> CircuitBlocked" "\<not> is_blocked ?kind" "is_neutral ?kind"
    | "permit |\<in>| circ_outstanding c" "snap_phase (circ_snapshot c) \<noteq> CircuitBlocked" "\<not> is_blocked ?kind" "\<not> is_neutral ?kind"
    by blast
  then show thesis
  proof cases
    case 1
    with assms show ?thesis by (intro ignored) (auto simp: circuit_complete_def Let_def)
  next
    case 2
    with assms show ?thesis
      by (intro blocked [of ?kind]) (auto simp: circuit_complete_def circuit_block_def Let_def)
  next
    case 3
    with assms show ?thesis
      by (intro neutral [of ?kind]) (simp_all add: circuit_complete_def without_permit_def Let_def)
  next
    case 4
    with assms failure_kind_cases(1) [of ?kind] show ?thesis
      by (intro settled [of ?kind]) (simp_all add: circuit_complete_def without_permit_def Let_def)
  qed
qed

lemma complete_ok:
  assumes "circuit_ok c" and "circuit_complete permit raw retry now_ms c = (r, d)"
  shows "circuit_ok d"
  using assms(2)
proof (cases rule: completeE)
  case ignored
  from assms(1) ignored(3) have "circ_probe c \<noteq> Some permit"
    by (cases "snap_phase (circ_snapshot c)") (auto simp: circuit_ok_def)
  with assms(1) ignored(2) show ?thesis by (simp add: remove_ok)
qed (simp_all add: assms(1) block_ok without_permit_ok settle_phase_ok)

interpretation circuit: machine circuit_step new_circuit circuit_ok
proof
  show "circuit_ok d" if "circuit_ok c" "circuit_step call c = (r, d)" for c call r d
    using that by (cases call) (auto simp: map_prod_def dest: reserve_ok complete_ok split: prod.splits)
qed (rule new_circuit_ok)

section \<open>Permits\<close>

fun hands_out :: "u64 \<Rightarrow> circuit_call \<times> circuit_return \<Rightarrow> bool" where
  "hands_out permit (CircuitReserve now_ms, CircuitReserved (Inr p)) \<longleftrightarrow> p = permit"
| "hands_out permit _ \<longleftrightarrow> False"

fun settles :: "u64 \<Rightarrow> circuit_call \<times> circuit_return \<Rightarrow> bool" where
  "settles permit (CircuitComplete p kind retry now_ms, CircuitCompleted (Some effective)) \<longleftrightarrow> p = permit"
| "settles permit _ \<longleftrightarrow> False"

lemma reserve_Inr:
  assumes "circuit_reserve now_ms c = (Inr p, d)"
  shows "p = circ_next_permit c + 1" "circ_next_permit d = p" "circ_next_permit c \<noteq> u64_max"
    "circ_outstanding d = finsert p (circ_outstanding c)"
  using assms by (auto simp: circuit_reserve_def circuit_availability_def Let_def split: sum.splits if_splits)

lemma reserve_Inl: "circuit_reserve now_ms c = (Inl e, d) \<Longrightarrow> d = c"
  by (auto simp: circuit_reserve_def Let_def split: sum.splits)

lemma settle_phase_permits [simp]:
  "circ_next_permit (settle_phase kind retry now_ms owns c) = circ_next_permit c"
  "circ_outstanding (settle_phase kind retry now_ms owns c) = circ_outstanding c"
  by (auto simp: settle_phase_def settle_closed_def settle_open_def settle_probe_def circuit_open_def Let_def
      split: circuit_phase.split option.split)

lemma complete_permits:
  assumes "circuit_complete permit raw retry now_ms c = (r, d)"
  shows "circ_next_permit d = circ_next_permit c" "circ_outstanding d |\<subseteq>| circ_outstanding c |-| {|permit|}"
    "r \<noteq> None \<Longrightarrow> permit |\<in>| circ_outstanding c"
  using assms by (cases rule: completeE; auto simp: circuit_block_def)+

lemma complete_Some:
  "circuit_complete permit raw retry now_ms c = (Some effective, d) \<Longrightarrow> permit |\<in>| circ_outstanding c"
  by (drule complete_permits(3)) simp_all

lemma hands_outE:
  assumes "hands_out i (call, r)"
  obtains now_ms where "call = CircuitReserve now_ms" "r = CircuitReserved (Inr i)"
  using assms by (cases "(i, call, r)" rule: hands_out.cases) auto

lemma settlesE:
  assumes "settles i (call, r)"
  obtains kind retry now_ms effective where
    "call = CircuitComplete i kind retry now_ms" "r = CircuitCompleted (Some effective)"
  using assms by (cases "(i, call, r)" rule: settles.cases) auto

lemma step_permits:
  assumes "circuit_step call c = (r, d)"
  shows "circ_next_permit c \<le> circ_next_permit d"
    "i |\<in>| circ_outstanding d \<Longrightarrow> i |\<in>| circ_outstanding c \<or> hands_out i (call, r)"
    "i \<le> circ_next_permit c \<Longrightarrow> i |\<notin>| circ_outstanding c \<Longrightarrow> i |\<notin>| circ_outstanding d"
proof -
  consider (refused) now_ms e where "call = CircuitReserve now_ms" "r = CircuitReserved (Inl e)"
      "circuit_reserve now_ms c = (Inl e, d)"
    | (given) now_ms p where "call = CircuitReserve now_ms" "r = CircuitReserved (Inr p)"
      "circuit_reserve now_ms c = (Inr p, d)"
    | (completed) p kind retry now_ms effective where "call = CircuitComplete p kind retry now_ms"
      "r = CircuitCompleted effective" "circuit_complete p kind retry now_ms c = (effective, d)"
  proof (cases call)
    case (CircuitReserve now_ms)
    with assms that(1,2) show ?thesis
      by (cases "circuit_reserve now_ms c"; cases "fst (circuit_reserve now_ms c)") auto
  next
    case (CircuitComplete p kind retry now_ms)
    with assms that(3) show ?thesis by (cases "circuit_complete p kind retry now_ms c") auto
  qed
  then have "circ_next_permit c \<le> circ_next_permit d \<and>
    (i |\<in>| circ_outstanding d \<longrightarrow> i |\<in>| circ_outstanding c \<or> hands_out i (call, r)) \<and>
    (i \<le> circ_next_permit c \<longrightarrow> i |\<notin>| circ_outstanding c \<longrightarrow> i |\<notin>| circ_outstanding d)"
  proof cases
    case refused
    then show ?thesis using reserve_Inl [OF refused(3)] by simp
  next
    case given
    then show ?thesis using reserve_Inr [OF given(3)] by auto
  next
    case completed
    then show ?thesis using complete_permits(1,2) [OF completed(3)] by auto
  qed
  then show "circ_next_permit c \<le> circ_next_permit d"
    "i |\<in>| circ_outstanding d \<Longrightarrow> i |\<in>| circ_outstanding c \<or> hands_out i (call, r)"
    "i \<le> circ_next_permit c \<Longrightarrow> i |\<notin>| circ_outstanding c \<Longrightarrow> i |\<notin>| circ_outstanding d"
    by blast+
qed

interpretation reservation: once_machine circuit_step new_circuit circuit_ok
  "\<lambda>c i. i \<le> circ_next_permit c" "\<lambda>call r i. hands_out i (call, r)"
proof
  fix c d :: circuit and call r i
  assume step: "circuit_step call c = (r, d)"
  show "i \<le> circ_next_permit d" if "i \<le> circ_next_permit c"
    using that step_permits(1) [OF step] by simp
  assume "hands_out i (call, r)"
  then obtain now_ms where "circuit_reserve now_ms c = (Inr i, d)"
    using step by (auto elim!: hands_outE simp: map_prod_def split: prod.splits)
  from reserve_Inr [OF this] show "\<not> i \<le> circ_next_permit c" "i \<le> circ_next_permit d" by simp_all
qed

interpretation completion: once_machine circuit_step new_circuit circuit_ok
  "\<lambda>c i. i \<le> circ_next_permit c \<and> i |\<notin>| circ_outstanding c" "\<lambda>call r i. settles i (call, r)"
proof
  fix c d :: circuit and call r i
  assume ok: "circuit_ok c" and step: "circuit_step call c = (r, d)"
  show "i \<le> circ_next_permit d \<and> i |\<notin>| circ_outstanding d"
    if "i \<le> circ_next_permit c \<and> i |\<notin>| circ_outstanding c"
    using that step_permits(1,3) [OF step] by (meson order_trans)
  assume "settles i (call, r)"
  then obtain kind retry now_ms effective where
    complete: "circuit_complete i kind retry now_ms c = (Some effective, d)"
    using step by (auto elim!: settlesE simp: map_prod_def split: prod.splits)
  show "\<not> (i \<le> circ_next_permit c \<and> i |\<notin>| circ_outstanding c)"
    using complete_permits(3) [OF complete] by simp
  show "i \<le> circ_next_permit d \<and> i |\<notin>| circ_outstanding d"
    using complete_permits [OF complete] ok by (auto simp: circuit_ok_def dest: fbspec)
qed

lemma outstanding_handed_out:
  "trace circuit_step new_circuit h c \<Longrightarrow> i |\<in>| circ_outstanding c \<Longrightarrow> \<exists>x \<in> set h. hands_out i x"
proof (induction rule: trace.induct)
  case (trace_call h c call r d)
  from step_permits(2) [OF trace_call.hyps(2) trace_call.prems] trace_call.IH show ?case by auto
qed simp

section \<open>Blocks and probes\<close>

lemma blocked_reserve: "snap_phase (circ_snapshot c) = CircuitBlocked \<Longrightarrow> circuit_reserve now_ms c = (Inl UnavailableBlocked, c)"
  by (simp add: circuit_reserve_def circuit_availability_def)

lemma blocked_complete:
  "snap_phase (circ_snapshot c) = CircuitBlocked \<Longrightarrow>
     circuit_complete permit kind retry now_ms c =
       (None, c\<lparr>circ_outstanding := circ_outstanding c |-| {|permit|}\<rparr>)"
  by (simp add: circuit_complete_def Let_def)

definition refused_as_blocked :: "circuit_return \<Rightarrow> bool" where
  "refused_as_blocked r \<longleftrightarrow> r = CircuitReserved (Inl UnavailableBlocked) \<or> r = CircuitCompleted None"

lemma blocked_step:
  assumes "snap_phase (circ_snapshot c) = CircuitBlocked" and "circuit_step call c = (r, d)"
  shows "circ_snapshot d = circ_snapshot c \<and> refused_as_blocked r"
  using assms
  by (cases call) (auto simp: refused_as_blocked_def blocked_reserve blocked_complete)

lemma blocked_history:
  assumes "trace circuit_step c h d" and "snap_phase (circ_snapshot c) = CircuitBlocked"
  shows "circ_snapshot d = circ_snapshot c \<and> list_all (\<lambda>x. refused_as_blocked (snd x)) h"
  using assms
proof (induction rule: trace.induct)
  case (trace_call h d call r e)
  from trace_call.IH [OF trace_call.prems] trace_call.prems blocked_step [OF _ trace_call.hyps(2)]
  show ?case by simp
qed simp

lemma probe_phase: "circuit_ok c \<Longrightarrow> circ_probe c = Some p \<Longrightarrow> snap_phase (circ_snapshot c) = CircuitHalfOpen"
  by (cases "snap_phase (circ_snapshot c)") (auto simp: circuit_ok_def)

lemma probe_refuses:
  "circuit_ok c \<Longrightarrow> circ_probe c = Some p \<Longrightarrow> circuit_reserve now_ms c = (Inl UnavailableBusy, c)"
  by (simp add: circuit_reserve_def circuit_availability_def probe_phase Let_def)

lemma other_completion:
  assumes ok: "circuit_ok c" and p: "circ_probe c = Some p" and q: "q \<noteq> p"
    and "circuit_complete q raw retry now_ms c = (r, d)"
  shows "circ_snapshot d = circ_snapshot c \<and> circ_probe d = Some p
     \<or> is_some_and r is_blocked \<and> snap_phase (circ_snapshot d) = CircuitBlocked"
  using assms(4)
proof (cases rule: completeE)
  case (settled kind)
  then show ?thesis using p q
    by (simp add: settle_phase_def probe_phase [OF ok p] without_permit_def release_probe_def)
qed (use p q in \<open>simp_all add: circuit_block_def without_permit_def release_probe_def\<close>)

section \<open>An opening ends\<close>

text \<open>Advice that keeps its kind is at most fifteen minutes, so no opening lasts longer.\<close>

lemma kept_advice:
  assumes "is_transient (retry_classify retry raw)"
  shows "retry_or_zero retry \<le> 900000" and "retry_millis retry = Some ms \<Longrightarrow> ms \<le> 900000"
proof -
  have "ms \<le> 900000" if "retry_millis retry = Some ms" for ms
  proof (cases retry)
    case (RetryValid nanos)
    with assms have "nanos \<le> 900000000000"
      by (auto simp: retry_from_duration_def is_transient_def split: if_splits)
    then have "(nanos + 999999) div 1000000 \<le> 900000" by (simp add: div_le_mono [of _ "900000999999"])
    with that RetryValid show ?thesis by (auto simp: Let_def split: if_splits)
  qed (use that in simp_all)
  then show "retry_or_zero retry \<le> 900000" and "retry_millis retry = Some ms \<Longrightarrow> ms \<le> 900000"
    by (auto simp: retry_or_zero_def split: option.splits)
qed

definition opened_by :: "u64 \<Rightarrow> circuit \<Rightarrow> bool" where
  "opened_by t c \<longleftrightarrow> (\<forall>u. snap_open_until (circ_snapshot c) = Some u \<longrightarrow> u \<le> t + 900000)"

lemma opened_by_mono: "opened_by t c \<Longrightarrow> t \<le> u \<Longrightarrow> opened_by u c"
  by (auto simp: opened_by_def)

lemma saturating_add_le: "saturating_add a b \<le> a + b"
  by (simp add: saturating_add_def)

lemma opened_open:
  "delay \<le> 900000 \<Longrightarrow> now_ms \<le> t \<Longrightarrow> opened_by t (circuit_open now_ms delay level reason c)"
  using saturating_add_le [of now_ms delay] by (simp add: opened_by_def circuit_open_def)

lemma settled_opened:
  assumes "opened_by t c" and "now_ms \<le> t" and kind: "kind = retry_classify retry raw"
  shows "opened_by t (settle_phase kind retry now_ms owns c)"
proof -
  have advice: "retry_or_zero retry \<le> 900000" "\<And>ms. retry_millis retry = Some ms \<Longrightarrow> ms \<le> 900000"
    if "is_transient kind" using that kept_advice [of retry raw] kind by blast+
  have "opened_by t (settle_closed kind retry now_ms c)"
    using assms(1,2) advice(1)
    by (auto simp: settle_closed_def Let_def intro!: opened_open) (auto simp: opened_by_def)
  moreover have "opened_by t (settle_open kind retry now_ms c)"
  proof (cases "retry_millis retry")
    case (Some ms)
    with assms(1,2) advice(2) [of ms] saturating_add_le [of now_ms ms] show ?thesis
      by (auto simp: settle_open_def opened_by_def open_until_or_def split: option.splits)
  qed (use assms(1) in \<open>simp add: settle_open_def\<close>)
  moreover have "opened_by t (settle_probe kind retry now_ms c)"
    using assms(1,2) by (auto simp: settle_probe_def Let_def intro!: opened_open) (auto simp: opened_by_def)
  ultimately show ?thesis using assms(1) by (simp add: settle_phase_def split: circuit_phase.split)
qed

lemma step_opened:
  assumes opened: "opened_by t c" and time: "circuit_time call \<le> t" and step: "circuit_step call c = (r, d)"
  shows "opened_by t d"
proof (cases call)
  case (CircuitReserve now_ms)
  with opened step show ?thesis
    by (auto simp: opened_by_def circuit_reserve_def Let_def split: sum.splits if_splits)
next
  case (CircuitComplete permit raw retry now_ms)
  with step obtain o' where "circuit_complete permit raw retry now_ms c = (o', d)"
    by (cases "circuit_complete permit raw retry now_ms c") auto
  then show ?thesis
  proof (cases rule: completeE)
    case (settled kind)
    have "opened_by t (without_permit permit c)" using opened by (simp add: opened_by_def)
    then show ?thesis using settled time CircuitComplete by (auto intro: settled_opened)
  qed (use opened in \<open>simp_all add: opened_by_def circuit_block_def\<close>)
qed

lemma history_opened:
  "trace circuit_step new_circuit h c \<Longrightarrow> \<forall>x \<in> set h. circuit_time (fst x) \<le> t \<Longrightarrow> opened_by t c"
  by (induction rule: trace.induct) (auto simp: opened_by_def intro: step_opened [unfolded opened_by_def, rule_format])

text \<open>What a successful probe leaves.\<close>

lemma probe_success:
  assumes ok: "circuit_ok c" and p: "circ_probe c = Some p"
  obtains d where "circuit_complete p KindSuccess RetryAbsent now_ms c = (Some KindSuccess, d)"
    "circ_snapshot d = circ_snapshot new_circuit"
proof -
  have "p |\<in>| circ_outstanding c" "snap_phase (circ_snapshot c) = CircuitHalfOpen"
    using ok p probe_phase [OF ok p] by (auto simp: circuit_ok_def)
  with p that show thesis
    by (simp add: circuit_complete_def Let_def is_blocked_def is_neutral_def release_probe_def
        settle_phase_def settle_probe_def)
qed

lemma closed_success:
  assumes ok: "circuit_ok c" and closed: "snap_phase (circ_snapshot c) = CircuitClosed"
    and p: "p |\<in>| circ_outstanding c"
  obtains d where "circuit_complete p KindSuccess RetryAbsent now_ms c = (Some KindSuccess, d)"
    "circ_snapshot d = circ_snapshot new_circuit"
proof -
  from ok closed have "circ_probe c = None" "circ_snapshot c = circ_snapshot new_circuit"
    by (simp_all add: circuit_ok_def)
  with closed p that show thesis
    by (simp add: circuit_complete_def Let_def is_blocked_def is_neutral_def is_transient_def release_probe_def
        settle_phase_def settle_closed_def)
qed

lemma reserve_available:
  assumes ok: "circuit_ok c" and "snap_phase (circ_snapshot c) \<noteq> CircuitBlocked" and none: "circ_probe c = None"
    and "circ_next_permit c < u64_max" and "opened_by t c" and "t + 900000 \<le> now_ms"
  obtains p d where "circuit_reserve now_ms c = (Inr p, d)" "p |\<in>| circ_outstanding d"
    "snap_phase (circ_snapshot d) = CircuitClosed \<or> circ_probe d = Some p"
proof -
  have "\<not> now_ms < open_until_or u64_max c" if "snap_phase (circ_snapshot c) = CircuitOpen"
    using that ok assms(5,6) by (auto simp: circuit_ok_def opened_by_def open_until_or_def)
  then have "circuit_availability now_ms c = Inr ()"
    using assms(2-4) by (auto simp: circuit_availability_def Let_def)
  then show thesis
    using that assms(2) by (cases "snap_phase (circ_snapshot c)") (simp_all add: circuit_reserve_def Let_def)
qed

section \<open>Properties\<close>

text \<open>
  Permits are used once. Over any history of reservations and completions, by any
  number of concurrent callers in any order, no permit is handed out twice, no permit is
  settled twice, and only permits that were handed out are ever settled.
\<close>

theorem permits_are_used_once:
  assumes "trace circuit_step new_circuit h c"
  shows "length (filter (hands_out permit) h) \<le> 1 \<and> length (filter (settles permit) h) \<le> 1
     \<and> (filter (settles permit) h \<noteq> [] \<longrightarrow> filter (hands_out permit) h \<noteq> [])"
proof -
  have once: "length (filter (hands_out permit) h) \<le> 1" "length (filter (settles permit) h) \<le> 1"
    using reservation.fires_at_most_once [OF assms, of permit] completion.fires_at_most_once [OF assms, of permit]
    by (simp_all add: case_prod_unfold)
  moreover have "\<exists>x \<in> set h. hands_out permit x" if "\<exists>x \<in> set h. settles permit x"
    using assms that
  proof (induction rule: trace.induct)
    case (trace_call h c call r d)
    show ?case
    proof (cases "settles permit (call, r)")
      case True
      with trace_call.hyps(2) have "permit |\<in>| circ_outstanding c"
        by (auto elim!: settlesE simp: map_prod_def split: prod.splits dest: complete_Some)
      from outstanding_handed_out [OF trace_call.hyps(1) this] show ?thesis by simp
    next
      case False
      with trace_call show ?thesis by auto
    qed
  qed simp
  ultimately show ?thesis by (auto simp: filter_empty_conv)
qed

text \<open>
  A probe is alone and a block is final. While a probe is under way every reservation
  is refused as busy, and no completion of another permit closes or reopens the circuit or
  takes the probe over, unless it blocks the circuit; and once a circuit is blocked, every
  later reservation is refused, every later outcome is ignored, and the circuit reports the
  same block for good.
\<close>

theorem probes_and_blocks_are_exclusive:
  assumes "trace circuit_step new_circuit h c"
  shows "(\<forall>p now_ms. circ_probe c = Some p \<longrightarrow> circuit_reserve now_ms c = (Inl UnavailableBusy, c))
     \<and> (\<forall>p q kind retry now_ms r d. circ_probe c = Some p \<and> q \<noteq> p
          \<and> circuit_complete q kind retry now_ms c = (r, d) \<longrightarrow>
          circ_snapshot d = circ_snapshot c \<and> circ_probe d = Some p
          \<or> is_some_and r is_blocked \<and> snap_phase (circ_snapshot d) = CircuitBlocked)
     \<and> (\<forall>later d. snap_phase (circ_snapshot c) = CircuitBlocked \<and> trace circuit_step c later d \<longrightarrow>
          circ_snapshot d = circ_snapshot c \<and> list_all (\<lambda>x. refused_as_blocked (snd x)) later)"
  using circuit.trace_inv [OF assms] by (blast intro: probe_refuses dest: other_completion blocked_history)

text \<open>
  C34. An opening ends by itself. Fifteen minutes after the last call, whatever the
  provider answered and whatever retry advice it gave, a circuit that is not blocked either
  hands out a permit or already has its probe under way, and one success of that permit
  returns it to the initial closed state.
\<close>

theorem circuit_recovers:
  assumes "trace circuit_step new_circuit h c" and "\<forall>x \<in> set h. circuit_time (fst x) \<le> t"
    and "snap_phase (circ_snapshot c) \<noteq> CircuitBlocked" and "circ_next_permit c < u64_max"
    and "t + 900000 \<le> now_ms"
  shows "case circ_probe c of
      Some p \<Rightarrow> \<exists>d. circuit_complete p KindSuccess RetryAbsent now_ms c = (Some KindSuccess, d)
        \<and> circ_snapshot d = circ_snapshot new_circuit
    | None \<Rightarrow> \<exists>p d e. circuit_reserve now_ms c = (Inr p, d)
        \<and> circuit_complete p KindSuccess RetryAbsent now_ms d = (Some KindSuccess, e)
        \<and> circ_snapshot e = circ_snapshot new_circuit"
proof (cases "circ_probe c")
  case None
  have ok: "circuit_ok c" by (rule circuit.trace_inv [OF assms(1)])
  obtain p d where d: "circuit_reserve now_ms c = (Inr p, d)" "p |\<in>| circ_outstanding d"
    "snap_phase (circ_snapshot d) = CircuitClosed \<or> circ_probe d = Some p"
    by (rule reserve_available [OF ok assms(3) None assms(4) history_opened [OF assms(1,2)] assms(5)])
  have "circuit_ok d" by (rule reserve_ok [OF ok d(1)])
  then obtain e where "circuit_complete p KindSuccess RetryAbsent now_ms d = (Some KindSuccess, e)"
    "circ_snapshot e = circ_snapshot new_circuit"
    using d(2,3) by (blast elim: closed_success probe_success)
  with None d(1) show ?thesis by auto
next
  case (Some p)
  then show ?thesis using probe_success [OF circuit.trace_inv [OF assms(1)], of p now_ms] by auto
qed

section \<open>Witnesses\<close>

text \<open>Three rate limits within a minute open the circuit; the probe after the pause fails
  with a timeout and the circuit opens again.\<close>

definition circuit_demo_calls :: "circuit_call list" where
  "circuit_demo_calls =
     [CircuitReserve 1000, CircuitReserve 1000, CircuitReserve 1000,
      CircuitComplete 1 RateLimited RetryAbsent 2000, CircuitComplete 2 KindTimeout RetryAbsent 3000,
      CircuitComplete 3 RateLimited RetryAbsent 4000, CircuitReserve 64000,
      CircuitComplete 4 KindTimeout RetryAbsent 65000]"

definition circuit_demo_run :: "(circuit_call \<times> circuit_return) list \<times> circuit" where
  "circuit_demo_run = run circuit_step circuit_demo_calls ([], new_circuit)"

lemma circuit_demo_trace: "trace circuit_step new_circuit (fst circuit_demo_run) (snd circuit_demo_run)"
  unfolding circuit_demo_run_def by (rule trace_from_run [of _ circuit_demo_calls]) simp

lemmas circuit_eval =
  circuit_demo_calls_def circuit_reserve_def circuit_availability_def circuit_complete_def Let_def new_circuit_def
  u64_max_def is_blocked_def is_neutral_def is_transient_def release_probe_def settle_phase_def
  settle_closed_def settle_probe_def circuit_open_def retry_or_zero_def saturating_add_def open_until_or_def

lemma circuit_demo_values:
  "length (filter (hands_out 4) (fst circuit_demo_run)) = 1" "length (filter (settles 4) (fst circuit_demo_run)) = 1"
  "\<forall>x \<in> set (fst circuit_demo_run). circuit_time (fst x) \<le> 65000"
  "snap_phase (circ_snapshot (snd circuit_demo_run)) = CircuitOpen" "circ_probe (snd circuit_demo_run) = None"
  "circ_next_permit (snd circuit_demo_run) = 4" "snap_open_until (circ_snapshot (snd circuit_demo_run)) = Some 365000"
  by (simp_all add: circuit_demo_run_def circuit_eval)

theorem permits_are_used_once_witness:
  "\<exists>h c. trace circuit_step new_circuit h c \<and> length (filter (hands_out 4) h) = 1
     \<and> length (filter (settles 4) h) = 1"
  using permits_are_used_once [OF circuit_demo_trace, of 4] circuit_demo_trace circuit_demo_values(1,2) by blast

theorem probes_and_blocks_are_exclusive_witness:
  "\<exists>c. circ_probe c = Some 4 \<and> circuit_reserve 70000 c = (Inl UnavailableBusy, c)"
proof -
  let ?r = "run circuit_step (take 7 circuit_demo_calls) ([], new_circuit)"
  have "trace circuit_step new_circuit (fst ?r) (snd ?r)" by (rule trace_from_run [of _ "take 7 circuit_demo_calls"]) simp
  moreover have "circ_probe (snd ?r) = Some 4" by (simp add: circuit_eval)
  ultimately show ?thesis using probes_and_blocks_are_exclusive by blast
qed

theorem circuit_recovers_witness:
  "\<exists>p d e. circuit_reserve 965000 (snd circuit_demo_run) = (Inr p, d)
     \<and> circuit_complete p KindSuccess RetryAbsent 965000 d = (Some KindSuccess, e)
     \<and> circ_snapshot e = circ_snapshot new_circuit"
  using circuit_recovers [OF circuit_demo_trace circuit_demo_values(3), of 965000] circuit_demo_values by (simp add: u64_max_def)

end
