(* ===== verification/Channel_Markers.thy ===== *)
theory Channel_Markers
  imports Rust_String
begin

text \<open>
  The filter that removes a model's channel blocks from a reply
  (\<open>src/llm/channel_markers.rs\<close>): every \<open><|channel>...<channel|>\<close> block is dropped with
  its text, an unclosed block is dropped to the end, a stray \<open><channel|>\<close> is dropped.
  The code filters a stream of deltas and holds back what could still become a marker;
  \<open>strip_spec\<close> is the grammar on the whole text. The theorems show that the stream
  gives the grammar's answer however the text is cut, that it holds back less than one
  marker, and that it never takes back what it emitted.

  Byte offsets of the code are offsets in the list of scalar values: both markers are ASCII.
\<close>

section \<open>Searching\<close>

definition starts_with :: "rstr \<Rightarrow> rstr \<Rightarrow> bool" where
  "starts_with s p \<longleftrightarrow> take (length p) s = p"

fun find_str :: "rstr \<Rightarrow> rstr \<Rightarrow> nat option" where
  "find_str p [] = (if p = [] then Some 0 else None)"
| "find_str p (c # s) = (if starts_with (c # s) p then Some 0 else map_option Suc (find_str p s))"

fun rfind_char :: "nat \<Rightarrow> rstr \<Rightarrow> nat option" where
  "rfind_char c [] = None"
| "rfind_char c (x # s) =
     (case rfind_char c s of Some i \<Rightarrow> Some (Suc i) | None \<Rightarrow> if x = c then Some 0 else None)"

definition channel_open :: rstr where "channel_open = lit ''<|channel>''"
definition channel_close :: rstr where "channel_close = lit ''<channel|>''"

definition could_become :: "rstr \<Rightarrow> rstr \<Rightarrow> bool" where
  "could_become tail marker \<longleftrightarrow> length tail < length marker \<and> starts_with marker tail"

section \<open>The filter\<close>

record stripper =
  strip_inside :: bool
  strip_pending :: rstr

definition new_stripper :: stripper where
  "new_stripper = \<lparr>strip_inside = False, strip_pending = []\<rparr>"

definition kept_inside :: "rstr \<Rightarrow> rstr" where
  "kept_inside pending =
     (case rfind_char 60 pending of
        Some at' \<Rightarrow> if could_become (drop at' pending) channel_close then drop at' pending else []
      | None \<Rightarrow> [])"

function push_loop :: "bool \<Rightarrow> rstr \<Rightarrow> rstr \<Rightarrow> rstr \<times> stripper" where
  "push_loop True pending out =
     (case find_str channel_close pending of
        Some at' \<Rightarrow> push_loop False (drop (at' + length channel_close) pending) out
      | None \<Rightarrow> (out, \<lparr>strip_inside = True, strip_pending = kept_inside pending\<rparr>))"
| "push_loop False pending out =
     (case position ((=) 60) pending of
        None \<Rightarrow> (out @ pending, \<lparr>strip_inside = False, strip_pending = []\<rparr>)
      | Some at' \<Rightarrow>
          let plain = take at' pending; rest = drop at' pending
          in if starts_with rest channel_open then push_loop True (drop (length channel_open) rest) (out @ plain)
             else if starts_with rest channel_close then
               push_loop False (drop (length channel_close) rest) (out @ plain)
             else if could_become rest channel_open \<or> could_become rest channel_close then
               (out @ plain, \<lparr>strip_inside = False, strip_pending = rest\<rparr>)
             else push_loop False (drop 1 rest) (out @ plain @ [60]))"
  by pat_completeness auto

lemma channel_length [simp]: "length channel_open = 10" "length channel_close = 10"
  by (simp_all add: channel_open_def channel_close_def)

lemma channel_not_Nil [simp]: "channel_open \<noteq> []" "channel_close \<noteq> []"
  by (simp_all add: channel_open_def channel_close_def)

lemma find_str_bound: "find_str p s = Some i \<Longrightarrow> i + length p \<le> length s"
  by (induction p s arbitrary: i rule: find_str.induct)
    (auto simp: starts_with_def split: if_splits dest: arg_cong [where f = length])

text \<open>Every round of the loop shortens what is pending.\<close>

termination push_loop
proof (relation "measure (\<lambda>(inside, pending, out). length pending)", goal_cases)
  case 1
  show ?case by simp
next
  case (2 pending out at')
  from find_str_bound [OF 2] show ?case by simp
qed (auto dest: position_Some)

definition stripper_push :: "rstr \<Rightarrow> stripper \<Rightarrow> rstr \<times> stripper" where
  "stripper_push delta st = push_loop (strip_inside st) (strip_pending st @ delta) []"

definition stripper_finish :: "stripper \<Rightarrow> rstr \<times> stripper" where
  "stripper_finish st = (if strip_inside st then [] else strip_pending st, new_stripper)"

definition strip_channels :: "rstr \<Rightarrow> rstr" where
  "strip_channels text = (case stripper_push text new_stripper of (out, st) \<Rightarrow> out @ fst (stripper_finish st))"

text \<open>A whole stream: the emitted pieces of the deltas, then what the end flushes.\<close>

fun strip_stream :: "rstr list \<Rightarrow> stripper \<Rightarrow> rstr \<times> stripper" where
  "strip_stream [] st = ([], st)"
| "strip_stream (d # ds) st =
     (case stripper_push d st of (out, st') \<Rightarrow>
        case strip_stream ds st' of (rest, st'') \<Rightarrow> (out @ rest, st''))"

section \<open>The grammar\<close>

function strip_spec :: "bool \<Rightarrow> rstr \<Rightarrow> rstr" where
  "strip_spec inside [] = []"
| "strip_spec False (c # s) =
     (if starts_with (c # s) channel_open then strip_spec True (drop (length channel_open) (c # s))
      else if starts_with (c # s) channel_close then strip_spec False (drop (length channel_close) (c # s))
      else c # strip_spec False s)"
| "strip_spec True (c # s) =
     (if starts_with (c # s) channel_close then strip_spec False (drop (length channel_close) (c # s))
      else strip_spec True s)"
  by pat_completeness auto
termination by (relation "measure (\<lambda>(inside, s). length s)") auto

section \<open>Markers\<close>

lemma starts_with_append:
  "length p \<le> length s \<Longrightarrow> starts_with (s @ t) p \<longleftrightarrow> starts_with s p"
  by (simp add: starts_with_def)

lemma starts_with_length: "starts_with s p \<Longrightarrow> length p \<le> length s"
  by (auto simp: starts_with_def dest: arg_cong [where f = length])

text \<open>Both markers start with the only angle bracket they contain.\<close>

definition marker :: "rstr \<Rightarrow> bool" where
  "marker m \<longleftrightarrow> m = channel_open \<or> m = channel_close"

lemma marker_simps [simp]: "marker channel_open" "marker channel_close"
  by (simp_all add: marker_def)

lemma marker_shape:
  "marker m \<Longrightarrow> length m = 10" "marker m \<Longrightarrow> m = 60 # tl m" "marker m \<Longrightarrow> 60 \<notin> set (tl m)"
  by (auto simp: marker_def channel_open_def channel_close_def)

lemma not_marker_start: "marker m \<Longrightarrow> c \<noteq> 60 \<Longrightarrow> \<not> starts_with (c # s) m"
  using marker_shape(1,2) [of m] by (cases m) (auto simp: starts_with_def)

text \<open>A text that is not longer than a marker and goes on to become it is a prefix of it.\<close>

lemma completes_marker:
  assumes "starts_with (s @ y) m" and "length s < length m"
  shows "could_become s m"
proof -
  have "s = take (length s) m"
    using assms by (auto simp: starts_with_def take_append) (metis append_eq_conv_conj)
  with assms(2) show ?thesis by (simp add: could_become_def starts_with_def)
qed

lemma no_start:
  assumes "marker m" and "\<not> starts_with s m" and "\<not> could_become s m"
  shows "\<not> starts_with (s @ y) m"
  using assms starts_with_append [of m s y] completes_marker [of s y m]
  by (meson not_le_imp_less)

lemma prefix_chars:
  assumes "marker m" and "could_become (c # s) m"
  shows "c = 60" "60 \<notin> set s"
proof -
  from assms have eq: "take (Suc (length s)) m = c # s" by (simp add: could_become_def starts_with_def)
  moreover have m: "m = 60 # tl m" "60 \<notin> set (tl m)" using assms(1) by (rule marker_shape)+
  ultimately have "c = 60 \<and> s = take (length s) (tl m)" by (metis take_Suc_Cons list.inject)
  with m(2) show "c = 60" "60 \<notin> set s" by (metis in_set_takeD)+
qed

section \<open>What the grammar does at each step of the loop\<close>

lemma spec_plain: "60 \<notin> set a \<Longrightarrow> strip_spec False (a @ s) = a @ strip_spec False s"
  by (induction a) (auto simp: not_marker_start)

lemma spec_open: "starts_with s channel_open \<Longrightarrow>
    strip_spec False (s @ y) = strip_spec True (drop (length channel_open) s @ y)"
  using starts_with_length [of s channel_open] starts_with_append [of channel_open s y]
  by (cases s) auto

lemma open_is_not_close: "starts_with s channel_close \<Longrightarrow> \<not> starts_with s channel_open"
  by (auto simp: starts_with_def) (simp add: channel_open_def channel_close_def)

lemma spec_close: "starts_with s channel_close \<Longrightarrow>
    strip_spec inside (s @ y) = strip_spec False (drop (length channel_close) s @ y)"
  using starts_with_length [of s channel_close] starts_with_append [of channel_close s y]
    starts_with_append [of channel_open s y] open_is_not_close [of s]
  by (cases s; cases inside) auto

lemma spec_bracket:
  assumes "\<not> starts_with (60 # s) channel_open" "\<not> starts_with (60 # s) channel_close"
    "\<not> could_become (60 # s) channel_open" "\<not> could_become (60 # s) channel_close"
  shows "strip_spec False (60 # s @ y) = 60 # strip_spec False (s @ y)"
  using no_start [of channel_open "60 # s" y] no_start [of channel_close "60 # s" y] assms by simp

lemma spec_found:
  "find_str channel_close s = Some i \<Longrightarrow> strip_spec True (s @ y) = strip_spec False (drop (i + 10) s @ y)"
proof (induction s arbitrary: i)
  case (Cons c s)
  show ?case
  proof (cases "starts_with (c # s) channel_close")
    case True
    with Cons.prems spec_close [OF True, of True y] show ?thesis by simp
  next
    case False
    with Cons.prems obtain j where j: "find_str channel_close s = Some j" "i = Suc j" by auto
    from find_str_bound [OF j(1)] have "10 \<le> length s" by simp
    with False have "\<not> starts_with (c # s @ y) channel_close"
      using starts_with_append [of channel_close "c # s" y] by simp
    moreover have "drop (i + 10) (c # s) = drop (j + 10) s"
      unfolding j(2) add_Suc by (rule drop_Suc_Cons)
    ultimately show ?thesis using Cons.IH [OF j(1)] by simp
  qed
qed simp

lemma rfind_None: "rfind_char c s = None \<longleftrightarrow> c \<notin> set s"
  by (induction s) (auto split: option.splits)

lemma spec_not_found:
  "find_str channel_close s = None \<Longrightarrow> strip_spec True (s @ y) = strip_spec True (kept_inside s @ y)"
proof (induction s)
  case (Cons c s)
  then have none: "\<not> starts_with (c # s) channel_close" "find_str channel_close s = None"
    by (auto split: if_splits)
  note IH = Cons.IH [OF none(2)]
  show ?case
  proof (cases "could_become (c # s) channel_close")
    case True
    with prefix_chars [OF _ True] have "rfind_char 60 s = None" "c = 60" by (simp_all add: rfind_None)
    with True show ?thesis by (simp add: kept_inside_def)
  next
    case False
    with none(1) have "strip_spec True ((c # s) @ y) = strip_spec True (s @ y)"
      using no_start [of channel_close "c # s" y] by simp
    moreover have "kept_inside (c # s) = kept_inside s"
      using False by (auto simp: kept_inside_def split: option.splits)
    ultimately show ?thesis using IH by simp
  qed
qed (simp add: kept_inside_def)

lemma kept_inside_short: "length (kept_inside s) < 10"
  by (auto simp: kept_inside_def could_become_def split: option.splits)

text \<open>At the end of the text nothing more arrives.\<close>

lemma spec_short_inside: "length s < 10 \<Longrightarrow> strip_spec True s = []"
proof (induction s)
  case (Cons c s)
  then have "\<not> starts_with (c # s) channel_close" by (auto dest: starts_with_length)
  with Cons show ?case by simp
qed simp

lemma spec_held:
  assumes "marker m" and "could_become s m"
  shows "strip_spec False s = s"
proof (cases s)
  case (Cons c t)
  with assms have "60 \<notin> set t" "length s < 10"
    using prefix_chars [of m c t] marker_shape(1) [of m] by (auto simp: could_become_def)
  with Cons spec_plain [of t "[]"] show ?thesis by (auto dest: starts_with_length)
qed simp

section \<open>The loop against the grammar\<close>

text \<open>Between two deltas the filter holds nothing, or a proper prefix of a marker; inside a
  block it holds less than the closing marker.\<close>

definition holds_little :: "stripper \<Rightarrow> bool" where
  "holds_little st \<longleftrightarrow>
     (if strip_inside st then length (strip_pending st) < 10
      else strip_pending st = [] \<or> (\<exists>m. marker m \<and> could_become (strip_pending st) m))"

lemma holds_little_short: "holds_little st \<Longrightarrow> length (strip_pending st) < 10"
  by (auto simp: holds_little_def could_become_def marker_shape(1) split: if_splits)

lemma finish_spec:
  "holds_little st \<Longrightarrow> fst (stripper_finish st) = strip_spec (strip_inside st) (strip_pending st)"
  by (auto simp: holds_little_def stripper_finish_def spec_short_inside spec_held split: if_splits)

lemma position_bracket:
  "position ((=) 60) s = Some i \<Longrightarrow> 60 \<notin> set (take i s) \<and> drop i s = 60 # drop (Suc i) s"
  by (induction s arbitrary: i) (auto split: if_splits)

lemma push_loop_spec:
  assumes "push_loop inside pending out = (out', st)"
  shows "\<exists>e. out' = out @ e \<and> holds_little st
     \<and> (\<forall>y. strip_spec inside (pending @ y) = e @ strip_spec (strip_inside st) (strip_pending st @ y))"
  using assms
proof (induction inside pending out rule: push_loop.induct)
  case (1 pending out)
  show ?case
  proof (cases "find_str channel_close pending")
    case None
    with 1 show ?thesis by (auto simp: holds_little_def kept_inside_short spec_not_found)
  next
    case (Some at')
    with 1 show ?thesis by (simp add: spec_found)
  qed
next
  case (2 pending out)
  show ?case
  proof (cases "position ((=) 60) pending")
    case None
    with 2 show ?thesis by (auto simp: holds_little_def spec_plain)
  next
    case (Some at')
    define plain where "plain = take at' pending"
    define rest where "rest = drop at' pending"
    define t where "t = drop (Suc at') pending"
    have pending: "pending = plain @ rest" by (simp add: plain_def rest_def)
    have t: "rest = 60 # t" and plain: "60 \<notin> set plain"
      using position_bracket [OF Some] by (simp_all add: plain_def rest_def t_def)
    note loop = "2.prems" [unfolded push_loop.simps(2) [of pending out] Some option.case Let_def, folded plain_def rest_def]
    note IH = "2.IH" [OF Some plain_def rest_def]
    have skip: "strip_spec False (pending @ y) = plain @ strip_spec False (rest @ y)" for y
      using plain by (simp add: pending spec_plain)
    consider "starts_with rest channel_open"
      | "\<not> starts_with rest channel_open" "starts_with rest channel_close"
      | "\<not> starts_with rest channel_open" "\<not> starts_with rest channel_close"
        "could_become rest channel_open \<or> could_become rest channel_close"
      | "\<not> starts_with rest channel_open" "\<not> starts_with rest channel_close"
        "\<not> (could_become rest channel_open \<or> could_become rest channel_close)" by blast
    then show ?thesis
    proof cases
      case 1
      with IH(1) loop show ?thesis by (auto simp: skip spec_open)
    next
      case 2
      with IH(2) loop show ?thesis by (auto simp: skip spec_close)
    next
      case 3
      with loop show ?thesis by (auto simp: skip holds_little_def marker_def)
    next
      case 4
      let ?out = "out @ plain @ [60]"
      from loop 4 have "push_loop False (drop 1 rest) ?out = (out', st)" by simp
      from IH(3) [OF 4 this] obtain e where e: "out' = ?out @ e" "holds_little st"
        "\<And>y. strip_spec False (drop 1 rest @ y) = e @ strip_spec (strip_inside st) (strip_pending st @ y)"
        by blast
      have "strip_spec False (rest @ y) = 60 # strip_spec False (drop 1 rest @ y)" for y
        using spec_bracket [of t y] 4 by (simp add: t)
      with e show ?thesis by (intro exI [of _ "plain @ 60 # e"]) (simp add: skip)
    qed
  qed
qed

lemma stripper_push_spec:
  assumes "stripper_push delta st = (out, st')"
  shows "holds_little st'"
    "strip_spec (strip_inside st) (strip_pending st @ delta @ y)
       = out @ strip_spec (strip_inside st') (strip_pending st' @ y)"
  using push_loop_spec [OF assms [unfolded stripper_push_def]] by auto

lemma strip_stream_spec:
  "strip_stream ds st = (out, st') \<Longrightarrow> holds_little st \<Longrightarrow>
     holds_little st' \<and> (\<forall>y. strip_spec (strip_inside st) (strip_pending st @ concat ds @ y)
       = out @ strip_spec (strip_inside st') (strip_pending st' @ y))"
proof (induction ds arbitrary: st out)
  case (Cons d ds)
  obtain o1 st1 where push: "stripper_push d st = (o1, st1)" by (cases "stripper_push d st")
  obtain o2 where rest: "strip_stream ds st1 = (o2, st')" and out: "out = o1 @ o2"
    using Cons.prems(1) push by (cases "strip_stream ds st1") auto
  note first = stripper_push_spec [OF push]
  from Cons.IH [OF rest first(1)] first(2) show ?case by (simp add: out)
qed simp

lemma new_stripper_simps [simp]: "\<not> strip_inside new_stripper" "strip_pending new_stripper = []"
  by (simp_all add: new_stripper_def)

lemma new_stripper_holds: "holds_little new_stripper"
  by (simp add: holds_little_def)

lemma stream_spec:
  assumes "strip_stream deltas new_stripper = (out, st)"
  shows "out @ fst (stripper_finish st) = strip_spec False (concat deltas)"
proof -
  from strip_stream_spec [OF assms new_stripper_holds] have "holds_little st"
    and all: "strip_spec False (concat deltas @ y) = out @ strip_spec (strip_inside st) (strip_pending st @ y)" for y
    by simp_all
  with all [of "[]"] show ?thesis by (simp add: finish_spec)
qed

lemma strip_channels_spec: "strip_channels text = strip_spec False text"
proof -
  obtain out st where push: "stripper_push text new_stripper = (out, st)"
    by (cases "stripper_push text new_stripper")
  then have "strip_stream [text] new_stripper = (out, st)" by simp
  from stream_spec [OF this] show ?thesis by (simp add: strip_channels_def push)
qed

lemma spec_without_markers:
  "find_str channel_open s = None \<Longrightarrow> find_str channel_close s = None \<Longrightarrow> strip_spec False s = s"
  by (induction s) (auto split: if_splits)

lemma spec_open_block: "strip_spec False (channel_open @ y) = strip_spec True y"
  using spec_open [of channel_open y] by (simp add: starts_with_def)

lemma find_str_later:
  assumes "find_str p (s @ t) = Some (length s)" and "p \<noteq> []"
  shows "find_str p s = None"
  using assms(1)
proof (induction s)
  case (Cons c s)
  have "starts_with (c # s) p \<Longrightarrow> starts_with (c # s @ t) p"
    using starts_with_length [of "c # s" p] starts_with_append [of p "c # s" t] by simp
  with Cons show ?case by (auto split: if_splits)
qed (use assms(2) in simp)

lemma spec_unclosed:
  "find_str channel_close (b @ channel_close) = Some (length b) \<Longrightarrow> strip_spec True b = []"
  using find_str_later [of channel_close b channel_close] spec_not_found [of b "[]"]
    spec_short_inside [OF kept_inside_short [of b]] by simp

text \<open>
  The streamed filter is the grammar. However a reply is cut into deltas, the pieces
  emitted while it arrives, followed by what the end flushes, are exactly what the grammar
  keeps of the whole reply; so the one-shot filter and every stream agree. The filter always
  terminates, holds back less than one marker between deltas, and leaves a text without
  markers as it is.
\<close>

theorem stream_is_grammar:
  assumes "strip_stream deltas new_stripper = (out, st)"
  shows "out @ fst (stripper_finish st) = strip_spec False (concat deltas)
     \<and> out @ fst (stripper_finish st) = strip_channels (concat deltas)
     \<and> length (strip_pending st) < 10
     \<and> (find_str channel_open (concat deltas) = None \<and> find_str channel_close (concat deltas) = None
          \<longrightarrow> out @ fst (stripper_finish st) = concat deltas)"
proof -
  have stream: "out @ fst (stripper_finish st) = strip_spec False (concat deltas)"
    by (rule stream_spec [OF assms])
  moreover have "length (strip_pending st) < 10"
    using strip_stream_spec [OF assms new_stripper_holds] by (simp add: holds_little_short)
  ultimately show ?thesis by (simp add: strip_channels_spec spec_without_markers)
qed


section \<open>Witnesses\<close>

text \<open>A reply whose opening marker arrives in two deltas.\<close>

definition demo_deltas :: "rstr list" where
  "demo_deltas = [lit ''Hi <|cha'', lit ''nnel>x<channel|>there <b'']"

lemma demo_stream: "\<exists>st. strip_stream demo_deltas new_stripper = (lit ''Hi there <b'', st) \<and> strip_pending st = []"
  by (simp add: demo_deltas_def stripper_push_def starts_with_def channel_open_def channel_close_def
      could_become_def Let_def)

theorem stream_is_grammar_witness:
  "\<exists>st out. strip_stream demo_deltas new_stripper = (out, st)
     \<and> out @ fst (stripper_finish st) = strip_channels (concat demo_deltas) \<and> out = lit ''Hi there <b''"
  using demo_stream stream_is_grammar [of demo_deltas] by blast


end
