(* ===== verification/Server_Plan.thy ===== *)
theory Server_Plan
  imports Rust_String
begin

text \<open>
  Owned server plans (\<open>src/server/plan.rs\<close> with the channel kinds and the naming rule of
  \<open>src/server.rs\<close>): the data of a plan file and the validation every plan passes before it
  is compared with a guild. Reading TOML is left out. A problem is the data its line is
  formatted from. \<open>str::to_lowercase\<close> (the Unicode tables) is the parameter \<open>lower\<close>.

  The lemmas extract from an accepted plan what the comparison relies on: names that
  identify roles, categories and channels, names Discord stores as written, and
  overwrites that target each role once.
\<close>

section \<open>Strings\<close>

fun split_when :: "(nat \<Rightarrow> bool) \<Rightarrow> rstr \<Rightarrow> rstr list" where
  "split_when sep [] = [[]]"
| "split_when sep (c # s) =
     (if sep c then [] # split_when sep s
      else (case split_when sep s of [] \<Rightarrow> [[c]] | p # ps \<Rightarrow> (c # p) # ps))"

definition split_whitespace :: "rstr \<Rightarrow> rstr list" where
  "split_whitespace s = filter (\<lambda>p. p \<noteq> []) (split_when is_whitespace s)"

fun join_with :: "rstr \<Rightarrow> rstr list \<Rightarrow> rstr" where
  "join_with sep [] = []"
| "join_with sep [p] = p"
| "join_with sep (p # q # ps) = p @ sep @ join_with sep (q # ps)"

definition normalize_text_name :: "(rstr \<Rightarrow> rstr) \<Rightarrow> rstr \<Rightarrow> rstr" where
  "normalize_text_name lower raw = join_with (lit ''-'') (split_whitespace (lower (trim raw)))"

section \<open>Channel kinds\<close>

datatype channel_kind = KindText | KindVoice | KindForum | KindAnnouncement | KindStage

definition normalizes_name :: "channel_kind \<Rightarrow> bool" where
  "normalizes_name kind \<longleftrightarrow> kind = KindText \<or> kind = KindForum \<or> kind = KindAnnouncement"

definition has_topic :: "channel_kind \<Rightarrow> bool" where
  "has_topic kind \<longleftrightarrow> kind = KindText \<or> kind = KindForum \<or> kind = KindAnnouncement"

definition needs_community :: "channel_kind \<Rightarrow> bool" where
  "needs_community kind \<longleftrightarrow> kind = KindForum \<or> kind = KindAnnouncement \<or> kind = KindStage"

text \<open>The comparison key for a channel name of a kind (\<open>plan_channel_key\<close> in
  \<open>src/server/observe.rs\<close>).\<close>

definition plan_channel_key :: "(rstr \<Rightarrow> rstr) \<Rightarrow> rstr \<Rightarrow> channel_kind \<Rightarrow> rstr" where
  "plan_channel_key lower name kind =
     (if normalizes_name kind then normalize_text_name lower name else trim name)"

section \<open>Plans\<close>

definition everyone_name :: rstr where "everyone_name = lit ''@everyone''"
definition view_channel :: rstr where "view_channel = lit ''View Channel''"
definition administrator :: rstr where "administrator = lit ''Administrator''"
definition max_slowmode_secs :: nat where "max_slowmode_secs = 21600"
definition max_name_chars :: nat where "max_name_chars = 100"
definition max_channels_per_category :: nat where "max_channels_per_category = 50"

definition never_for_everyone :: "rstr list" where
  "never_for_everyone =
     [administrator, lit ''Manage Guild'', lit ''Manage Roles'', lit ''Manage Channels'',
      lit ''Manage Webhooks'', lit ''Ban Members'', lit ''Kick Members'',
      lit ''Mention @everyone, @here, and All Roles'']"

record overwrite =
  ow_role :: rstr
  ow_allow :: "rstr list"
  ow_deny :: "rstr list"

record plan_role =
  pr_name :: rstr
  pr_hoist :: bool
  pr_mentionable :: bool
  pr_colour :: "nat option"
  pr_permissions :: "rstr list"
  pr_note :: rstr

record plan_channel =
  pch_name :: rstr
  pch_kind :: channel_kind
  pch_topic :: "rstr option"
  pch_slowmode :: "nat option"
  pch_tags :: "rstr list"
  pch_overwrites :: "overwrite list"

record plan_category =
  pc_name :: rstr
  pc_overwrites :: "overwrite list"
  pc_channels :: "plan_channel list"

record server_plan =
  pl_name :: rstr
  pl_source :: "rstr option"
  pl_everyone :: "rstr list"
  pl_roles :: "plan_role list"
  pl_categories :: "plan_category list"

text \<open>\<open>BTreeSet<String>\<close> orders strings by their bytes, which is the order of the scalar
  values.\<close>

definition sorted_unique :: "rstr list \<Rightarrow> rstr list" where
  "sorted_unique names = sort (remdups names)"

definition hide_marker :: overwrite where
  "hide_marker = \<lparr>ow_role = everyone_name, ow_allow = [], ow_deny = [view_channel]\<rparr>"

definition ow_normalized :: "overwrite \<Rightarrow> overwrite" where
  "ow_normalized o' = \<lparr>ow_role = ow_role o', ow_allow = sorted_unique (ow_allow o'), ow_deny = sorted_unique (ow_deny o')\<rparr>"

definition denies_view :: "overwrite \<Rightarrow> bool" where
  "denies_view o' \<longleftrightarrow> view_channel \<in> set (ow_deny o')"

definition is_hide_marker :: "overwrite \<Rightarrow> bool" where
  "is_hide_marker o' \<longleftrightarrow> ow_normalized o' = hide_marker"

definition ow_is_empty :: "overwrite \<Rightarrow> bool" where
  "ow_is_empty o' \<longleftrightarrow> ow_allow o' = [] \<and> ow_deny o' = []"

definition denies_everyone_view :: "overwrite list \<Rightarrow> bool" where
  "denies_everyone_view overwrites \<longleftrightarrow> list_ex (\<lambda>o'. ow_role o' = everyone_name \<and> denies_view o') overwrites"

definition has_role_view_allow :: "overwrite list \<Rightarrow> bool" where
  "has_role_view_allow overwrites \<longleftrightarrow>
     list_ex (\<lambda>o'. ow_role o' \<noteq> everyone_name \<and> view_channel \<in> set (ow_allow o')) overwrites"

definition plan_role_named :: "server_plan \<Rightarrow> rstr \<Rightarrow> plan_role option" where
  "plan_role_named plan name = find (\<lambda>r. pr_name r = name) (pl_roles plan)"

definition plan_category_named :: "server_plan \<Rightarrow> rstr \<Rightarrow> plan_category option" where
  "plan_category_named plan name = find (\<lambda>c. eq_ignore_ascii_case (pc_name c) name) (pl_categories plan)"

definition plan_channels :: "server_plan \<Rightarrow> (plan_category \<times> plan_channel) list" where
  "plan_channels plan = concat (map (\<lambda>c. map (Pair c) (pc_channels c)) (pl_categories plan))"

definition effective_overwrites :: "plan_category \<Rightarrow> plan_channel \<Rightarrow> overwrite list" where
  "effective_overwrites category channel =
     (if pch_overwrites channel = [] then pc_overwrites category else pch_overwrites channel)"

definition plan_needs_community :: "server_plan \<Rightarrow> bool" where
  "plan_needs_community plan \<longleftrightarrow> list_ex (\<lambda>(_, ch). needs_community (pch_kind ch)) (plan_channels plan)"

section \<open>Validation\<close>

datatype plan_place = InCategory rstr | InChannel rstr rstr

datatype plan_problem =
  PlanNameEmpty
| RoleNameLength rstr | RoleEveryone | RoleTwice rstr | RoleRedundant rstr rstr
| CategoryNameLength rstr | CategoryTwice rstr | CategoryFull rstr nat | HiddenFromAll plan_place
| ChannelNameLength plan_place | ChannelRenamed plan_place channel_kind rstr
| ChannelTwice plan_place channel_kind rstr | TopicUnsupported plan_place channel_kind
| TopicLength plan_place | TagsUnsupported plan_place | TagsLimit plan_place
| SlowmodeUnsupported plan_place | SlowmodeLimit plan_place | NowhereToLand
| OverwriteUnknownRole plan_place rstr | OverwriteTwice plan_place rstr | OverwriteEmpty plan_place rstr
| OverwriteConflict plan_place rstr rstr | OverwriteDangerous plan_place rstr | EveryoneDangerous rstr

definition report_if :: "bool \<Rightarrow> 'a \<Rightarrow> 'a list" where
  "report_if b problem = (if b then [problem] else [])"

definition name_length_bad :: "rstr \<Rightarrow> bool" where
  "name_length_bad name \<longleftrightarrow> trim name = [] \<or> max_name_chars < length (trim name)"

fun role_problems :: "rstr list \<Rightarrow> plan_role list \<Rightarrow> plan_problem list" where
  "role_problems seen [] = []"
| "role_problems seen (role # roles) =
     report_if (name_length_bad (pr_name role)) (RoleNameLength (pr_name role))
     @ report_if (trim (pr_name role) = everyone_name) RoleEveryone
     @ report_if (pr_name role \<in> set seen) (RoleTwice (pr_name role))
     @ map (RoleRedundant (pr_name role))
         (filter (\<lambda>p. p \<in> set never_for_everyone \<and> administrator \<in> set (pr_permissions role) \<and> p \<noteq> administrator)
           (pr_permissions role))
     @ role_problems (pr_name role # seen) roles"

fun overwrite_problems ::
  "server_plan \<Rightarrow> plan_place \<Rightarrow> rstr list \<Rightarrow> overwrite list \<Rightarrow> plan_problem list" where
  "overwrite_problems plan label targets [] = []"
| "overwrite_problems plan label targets (o' # os) =
     report_if (ow_role o' \<noteq> everyone_name \<and> plan_role_named plan (ow_role o') = None)
       (OverwriteUnknownRole label (ow_role o'))
     @ report_if (ow_role o' \<in> set targets) (OverwriteTwice label (ow_role o'))
     @ report_if (ow_is_empty o') (OverwriteEmpty label (ow_role o'))
     @ map (\<lambda>p. OverwriteConflict label p (ow_role o')) (filter (\<lambda>p. p \<in> set (ow_deny o')) (ow_allow o'))
     @ (if ow_role o' = everyone_name
        then map (OverwriteDangerous label) (filter (\<lambda>p. p \<in> set never_for_everyone) (ow_allow o'))
        else [])
     @ overwrite_problems plan label (ow_role o' # targets) os"

text \<open>The names taken so far, each with the category that took it.\<close>

type_synonym channel_keys = "((rstr \<times> channel_kind) \<times> rstr) list"

definition channel_key :: "(rstr \<Rightarrow> rstr) \<Rightarrow> plan_channel \<Rightarrow> rstr \<times> channel_kind" where
  "channel_key lower ch = (plan_channel_key lower (pch_name ch) (pch_kind ch), pch_kind ch)"

definition channel_problems ::
  "(rstr \<Rightarrow> rstr) \<Rightarrow> server_plan \<Rightarrow> plan_category \<Rightarrow> channel_keys \<Rightarrow> plan_channel \<Rightarrow> plan_problem list" where
  "channel_problems lower plan category taken ch =
     (let label = InChannel (pch_name ch) (pc_name category);
          effective = effective_overwrites category ch
      in report_if (name_length_bad (pch_name ch)) (ChannelNameLength label)
         @ report_if (normalizes_name (pch_kind ch) \<and> normalize_text_name lower (pch_name ch) \<noteq> pch_name ch)
             (ChannelRenamed label (pch_kind ch) (normalize_text_name lower (pch_name ch)))
         @ (case map_of taken (channel_key lower ch) of None \<Rightarrow> [] | Some previous \<Rightarrow> [ChannelTwice label (pch_kind ch) previous])
         @ report_if (pch_topic ch \<noteq> None \<and> \<not> has_topic (pch_kind ch)) (TopicUnsupported label (pch_kind ch))
         @ report_if (is_some_and (pch_topic ch) (\<lambda>topic. 1024 < length topic)) (TopicLength label)
         @ report_if (pch_tags ch \<noteq> [] \<and> pch_kind ch \<noteq> KindForum) (TagsUnsupported label)
         @ report_if (20 < length (pch_tags ch)) (TagsLimit label)
         @ (case pch_slowmode ch of None \<Rightarrow> []
            | Some secs \<Rightarrow> report_if (\<not> has_topic (pch_kind ch)) (SlowmodeUnsupported label)
                @ report_if (max_slowmode_secs < secs) (SlowmodeLimit label))
         @ overwrite_problems plan label [] (pch_overwrites ch)
         @ report_if (denies_everyone_view effective \<and> \<not> has_role_view_allow effective) (HiddenFromAll label))"

fun channels_problems ::
  "(rstr \<Rightarrow> rstr) \<Rightarrow> server_plan \<Rightarrow> plan_category \<Rightarrow> channel_keys \<Rightarrow> plan_channel list
     \<Rightarrow> plan_problem list \<times> channel_keys" where
  "channels_problems lower plan category taken [] = ([], taken)"
| "channels_problems lower plan category taken (ch # chs) =
     (case channels_problems lower plan category
             ((channel_key lower ch, pc_name category) # taken) chs of
        (problems, taken') \<Rightarrow> (channel_problems lower plan category taken ch @ problems, taken'))"

definition category_checks :: "server_plan \<Rightarrow> rstr list \<Rightarrow> plan_category \<Rightarrow> plan_problem list" where
  "category_checks plan names category =
     (let label = InCategory (pc_name category)
      in report_if (name_length_bad (pc_name category)) (CategoryNameLength (pc_name category))
         @ report_if (to_ascii_lowercase (trim (pc_name category)) \<in> set names) (CategoryTwice (pc_name category))
         @ report_if (max_channels_per_category < length (pc_channels category))
             (CategoryFull (pc_name category) (length (pc_channels category)))
         @ overwrite_problems plan label [] (pc_overwrites category)
         @ report_if (denies_everyone_view (pc_overwrites category)
               \<and> \<not> has_role_view_allow (pc_overwrites category)) (HiddenFromAll label))"

fun category_problems ::
  "(rstr \<Rightarrow> rstr) \<Rightarrow> server_plan \<Rightarrow> rstr list \<Rightarrow> channel_keys \<Rightarrow> plan_category list \<Rightarrow> plan_problem list" where
  "category_problems lower plan names taken [] = []"
| "category_problems lower plan names taken (category # categories) =
     (case channels_problems lower plan category taken (pc_channels category) of
        (problems, taken') \<Rightarrow>
          category_checks plan names category @ problems
          @ category_problems lower plan (to_ascii_lowercase (trim (pc_name category)) # names) taken' categories)"

definition somewhere_to_land :: "server_plan \<Rightarrow> bool" where
  "somewhere_to_land plan \<longleftrightarrow>
     list_ex (\<lambda>(category, ch). \<not> denies_everyone_view (effective_overwrites category ch)) (plan_channels plan)"

definition everyone_problems :: "server_plan \<Rightarrow> plan_problem list" where
  "everyone_problems plan =
     map EveryoneDangerous (filter (\<lambda>p. p \<in> set never_for_everyone) (pl_everyone plan))"

definition validate_plan :: "(rstr \<Rightarrow> rstr) \<Rightarrow> server_plan \<Rightarrow> plan_problem list + unit" where
  "validate_plan lower plan =
     (let problems =
        report_if (trim (pl_name plan) = []) PlanNameEmpty
        @ role_problems [] (pl_roles plan)
        @ category_problems lower plan [] [] (pl_categories plan)
        @ report_if (\<not> somewhere_to_land plan \<and> list_ex (\<lambda>c. pc_channels c \<noteq> []) (pl_categories plan)) NowhereToLand
        @ everyone_problems plan
      in if problems = [] then Inr () else Inl problems)"

section \<open>What an accepted plan guarantees\<close>

lemma report_if_Nil [simp]: "report_if b problem = [] \<longleftrightarrow> \<not> b"
  by (simp add: report_if_def)

lemma role_problems_none:
  "role_problems seen roles = [] \<Longrightarrow>
     distinct (map pr_name roles) \<and> set (map pr_name roles) \<inter> set seen = {}
     \<and> (\<forall>role \<in> set roles. trim (pr_name role) \<noteq> everyone_name)"
  by (induction seen roles rule: role_problems.induct) auto

definition overwrites_ok :: "server_plan \<Rightarrow> overwrite list \<Rightarrow> bool" where
  "overwrites_ok plan os \<longleftrightarrow> distinct (map ow_role os)
     \<and> (\<forall>o' \<in> set os. ow_role o' = everyone_name \<or> plan_role_named plan (ow_role o') \<noteq> None)"

lemma overwrite_problems_none:
  "overwrite_problems plan label targets os = [] \<Longrightarrow>
     overwrites_ok plan os \<and> set (map ow_role os) \<inter> set targets = {}"
  by (induction plan label targets os rule: overwrite_problems.induct) (auto simp: overwrites_ok_def)

definition channel_ok :: "(rstr \<Rightarrow> rstr) \<Rightarrow> server_plan \<Rightarrow> plan_channel \<Rightarrow> bool" where
  "channel_ok lower plan ch \<longleftrightarrow> overwrites_ok plan (pch_overwrites ch)
     \<and> (normalizes_name (pch_kind ch) \<longrightarrow> normalize_text_name lower (pch_name ch) = pch_name ch)"

lemma channel_problems_none:
  assumes "channel_problems lower plan category taken ch = []"
  shows "channel_ok lower plan ch" "channel_key lower ch \<notin> fst ` set taken"
  using assms
  by (auto simp: channel_problems_def channel_ok_def Let_def dest: overwrite_problems_none
      split: option.splits) (force simp: map_of_eq_None_iff)+

lemma channels_problems_none:
  "channels_problems lower plan category taken chs = ([], taken') \<Longrightarrow>
     list_all (channel_ok lower plan) chs \<and> distinct (map (channel_key lower) chs)
     \<and> set (map (channel_key lower) chs) \<inter> fst ` set taken = {}
     \<and> fst ` set taken' = fst ` set taken \<union> set (map (channel_key lower) chs)"
proof (induction lower plan category taken chs arbitrary: taken' rule: channels_problems.induct)
  case (2 lower plan category taken ch chs)
  let ?taken = "(channel_key lower ch, pc_name category) # taken"
  obtain problems where rest: "channels_problems lower plan category ?taken chs = (problems, taken')"
    using "2.prems" by (auto split: prod.splits)
  with "2.prems" have none: "problems = []" "channel_problems lower plan category taken ch = []" by auto
  from "2.IH" [OF rest [unfolded none(1)]] channel_problems_none [OF none(2)] show ?case by auto
qed simp

lemma category_checks_none:
  assumes "category_checks plan names category = []"
  shows "overwrites_ok plan (pc_overwrites category)" "to_ascii_lowercase (trim (pc_name category)) \<notin> set names"
  using assms by (auto simp: category_checks_def Let_def dest: overwrite_problems_none)

definition category_key :: "plan_category \<Rightarrow> rstr" where
  "category_key category = to_ascii_lowercase (trim (pc_name category))"

lemma category_problems_none:
  "category_problems lower plan names taken categories = [] \<Longrightarrow>
     distinct (map category_key categories) \<and> set (map category_key categories) \<inter> set names = {}
     \<and> (\<forall>c \<in> set categories. overwrites_ok plan (pc_overwrites c) \<and> list_all (channel_ok lower plan) (pc_channels c))
     \<and> distinct (map (channel_key lower) (concat (map pc_channels categories)))
     \<and> set (map (channel_key lower) (concat (map pc_channels categories))) \<inter> fst ` set taken = {}"
proof (induction lower plan names taken categories rule: category_problems.induct)
  case (2 lower plan names taken category categories)
  obtain problems taken' where chs: "channels_problems lower plan category taken (pc_channels category) = (problems, taken')"
    by (cases "channels_problems lower plan category taken (pc_channels category)")
  from "2.prems" chs have none: "category_checks plan names category = []" "problems = []"
    "category_problems lower plan (to_ascii_lowercase (trim (pc_name category)) # names) taken' categories = []"
    by auto
  note first = channels_problems_none [OF chs [unfolded none(2)]]
  note IH = "2.IH" [OF chs [symmetric] none(3)]
  define A B where "A = set (map (channel_key lower) (pc_channels category))"
    and "B = set (map (channel_key lower) (concat (map pc_channels categories)))"
  have sets: "B \<inter> fst ` set taken' = {}" "fst ` set taken' = fst ` set taken \<union> A" "A \<inter> fst ` set taken = {}"
    using first IH unfolding A_def B_def by blast+
  then have "A \<inter> B = {}" "(A \<union> B) \<inter> fst ` set taken = {}" by blast+
  then have "distinct (map (channel_key lower) (concat (map pc_channels (category # categories))))"
    "set (map (channel_key lower) (concat (map pc_channels (category # categories)))) \<inter> fst ` set taken = {}"
    using first IH by (simp_all add: A_def B_def image_Un)
  with first IH category_checks_none [OF none(1)] show ?case by (simp add: category_key_def)
qed simp

text \<open>The guarantees, in the form the comparison uses.\<close>

definition plan_ok :: "(rstr \<Rightarrow> rstr) \<Rightarrow> server_plan \<Rightarrow> bool" where
  "plan_ok lower plan \<longleftrightarrow> distinct (map pr_name (pl_roles plan))
     \<and> (\<forall>role \<in> set (pl_roles plan). pr_name role \<noteq> everyone_name)
     \<and> distinct (map category_key (pl_categories plan))
     \<and> distinct (map (channel_key lower) (concat (map pc_channels (pl_categories plan))))
     \<and> (\<forall>c \<in> set (pl_categories plan). overwrites_ok plan (pc_overwrites c)
          \<and> list_all (channel_ok lower plan) (pc_channels c))"

lemma trim_everyone: "trim everyone_name = everyone_name"
  by (simp add: everyone_name_def trim_def is_whitespace_def)

lemma validate_plan_ok:
  assumes "validate_plan lower plan = Inr ()"
  shows "plan_ok lower plan"
proof -
  from assms have roles: "role_problems [] (pl_roles plan) = []"
    and categories: "category_problems lower plan [] [] (pl_categories plan) = []"
    by (auto simp: validate_plan_def Let_def split: if_splits)
  from role_problems_none [OF roles] category_problems_none [OF categories] show ?thesis
    by (auto simp: plan_ok_def trim_everyone)
qed

end
