(* ===== verification/Server_Diff.thy ===== *)
theory Server_Diff
  imports Server_Plan
begin

text \<open>
  What the plan engine knows of a live guild (\<open>src/server/observe.rs\<close>) and the changes it
  derives from a plan, a snapshot and a stage (\<open>src/server/diff.rs\<close>,
  \<open>src/server/diff/context.rs\<close>). The lines of a report are the data they are formatted
  from. The code pushes onto four lists as it walks the plan; here every step returns what
  it pushes and \<open>gather\<close> concatenates the steps in the order of the walk.
\<close>

section \<open>Snapshots\<close>

record role_state =
  rs_id :: u64
  rs_name :: rstr
  rs_position :: nat
  rs_managed :: bool
  rs_hoist :: bool
  rs_mentionable :: bool
  rs_colour :: nat
  rs_permissions :: "rstr list"

datatype channel_class = ClassCategory | ClassKind channel_kind | ClassOther

datatype overwrite_target = TargetRole u64 | TargetMember u64

record overwrite_state =
  ows_target :: overwrite_target
  ows_allow :: "rstr list"
  ows_deny :: "rstr list"

record channel_state =
  chs_id :: u64
  chs_name :: rstr
  chs_class :: channel_class
  chs_parent :: "u64 option"
  chs_topic :: "rstr option"
  chs_overwrites :: "overwrite_state list"

record bot_state =
  bot_user :: u64
  bot_roles :: "u64 list"

record guild_snapshot =
  gs_guild :: u64
  gs_features :: "rstr list"
  gs_roles :: "role_state list"
  gs_channels :: "channel_state list"
  gs_bot :: bot_state

definition community_feature_name :: rstr where "community_feature_name = lit ''COMMUNITY''"

definition overwrite_for_role :: "channel_state \<Rightarrow> u64 \<Rightarrow> overwrite_state option" where
  "overwrite_for_role state role_id = find (\<lambda>o'. ows_target o' = TargetRole role_id) (chs_overwrites state)"

definition has_feature :: "guild_snapshot \<Rightarrow> rstr \<Rightarrow> bool" where
  "has_feature snap feature \<longleftrightarrow> feature \<in> set (gs_features snap)"

definition role_by_id :: "guild_snapshot \<Rightarrow> u64 \<Rightarrow> role_state option" where
  "role_by_id snap id' = find (\<lambda>r. rs_id r = id') (gs_roles snap)"

definition everyone_role :: "guild_snapshot \<Rightarrow> role_state option" where
  "everyone_role snap = role_by_id snap (gs_guild snap)"

definition roles_named :: "guild_snapshot \<Rightarrow> rstr \<Rightarrow> role_state list" where
  "roles_named snap name = filter (\<lambda>r. rs_name r = name) (gs_roles snap)"

definition categories_named :: "guild_snapshot \<Rightarrow> rstr \<Rightarrow> channel_state list" where
  "categories_named snap name =
     filter (\<lambda>c. chs_class c = ClassCategory \<and> eq_ignore_ascii_case (trim (chs_name c)) (trim name))
       (gs_channels snap)"

definition channels_matching ::
  "(rstr \<Rightarrow> rstr) \<Rightarrow> guild_snapshot \<Rightarrow> rstr \<Rightarrow> channel_kind \<Rightarrow> channel_state list" where
  "channels_matching lower snap name kind =
     filter (\<lambda>c. chs_class c = ClassKind kind
         \<and> plan_channel_key lower (chs_name c) kind = plan_channel_key lower name kind) (gs_channels snap)"

definition bot_permissions :: "guild_snapshot \<Rightarrow> rstr list" where
  "bot_permissions snap =
     (case everyone_role snap of None \<Rightarrow> [] | Some r \<Rightarrow> rs_permissions r)
     @ concat (map rs_permissions (List.map_filter (role_by_id snap) (bot_roles (gs_bot snap))))"

definition bot_is_administrator :: "guild_snapshot \<Rightarrow> bool" where
  "bot_is_administrator snap \<longleftrightarrow> administrator \<in> set (bot_permissions snap)"

definition bot_top_position :: "guild_snapshot \<Rightarrow> nat" where
  "bot_top_position snap =
     fold max (map rs_position (List.map_filter (role_by_id snap) (bot_roles (gs_bot snap)))) 0"

section \<open>Changes and reports\<close>

datatype server_stage = StageAdditive | StageReveal | StageOverwrites

record server_scope =
  sc_stage :: server_stage
  sc_category :: "rstr option"

datatype server_target = OnCategory rstr | OnChannel rstr channel_kind

datatype topic_edit = TopicUnchanged | TopicSet rstr

datatype server_change =
  CreateRole rstr "nat option"
| EditRole rstr bool bool "nat option"
| CreateCategory rstr "overwrite list"
| CreateChannel rstr channel_kind rstr "rstr option" "nat option" "rstr list" "overwrite list"
| EditChannel rstr channel_kind rstr topic_edit
| SetOverwrite server_target overwrite

datatype server_blocker =
  BlockManagedRole rstr | BlockRoleTwice rstr nat | BlockCategoryTwice rstr nat
| BlockChannelTwice channel_kind rstr nat | BlockCommunity channel_kind rstr
| BlockRoleMissing rstr | BlockCategoryMissing rstr | BlockChannelMissing channel_kind rstr
| BlockRolePosition rstr nat nat | BlockOverwriteRoleMissing server_target rstr
| BlockOverwriteRoleTwice server_target rstr nat | BlockNoCategory rstr "rstr list"
| BlockNeedsCategory | BlockManageChannels | BlockManageRoles | BlockPermissions "rstr list"

datatype server_warning =
  WarnGateDiffers server_target | WarnLockout server_target "rstr list" | WarnOpens server_target

datatype manual_step =
  ManualEveryone "rstr list" "rstr list" | ManualRole rstr "rstr list" "rstr list"
| ManualGrant rstr "rstr list" | ManualOrder "rstr list" | ManualCommunity

record preflight =
  pf_bot :: u64
  pf_administrator :: bool
  pf_manage_channels :: bool
  pf_manage_roles :: bool
  pf_top_position :: nat
  pf_community :: bool
  pf_needs_community :: bool
  pf_counts :: "nat \<times> nat \<times> nat \<times> nat \<times> nat"

record report_parts =
  rp_changes :: "server_change list"
  rp_blockers :: "server_blocker list"
  rp_warnings :: "server_warning list"

record server_report =
  rep_stage :: server_stage
  rep_preflight :: preflight
  rep_changes :: "server_change list"
  rep_blockers :: "server_blocker list"
  rep_warnings :: "server_warning list"
  rep_manual :: "manual_step list"

definition report_is_clear :: "server_report \<Rightarrow> bool" where
  "report_is_clear report \<longleftrightarrow> rep_blockers report = []"

definition no_parts :: report_parts where
  "no_parts = \<lparr>rp_changes = [], rp_blockers = [], rp_warnings = []\<rparr>"

definition push_change :: "server_change \<Rightarrow> report_parts" where
  "push_change change = no_parts\<lparr>rp_changes := [change]\<rparr>"

definition push_blocker :: "server_blocker \<Rightarrow> report_parts" where
  "push_blocker blocker = no_parts\<lparr>rp_blockers := [blocker]\<rparr>"

definition push_warning :: "server_warning \<Rightarrow> report_parts" where
  "push_warning warning = no_parts\<lparr>rp_warnings := [warning]\<rparr>"

definition gather :: "report_parts list \<Rightarrow> report_parts" where
  "gather parts = \<lparr>rp_changes = concat (map rp_changes parts), rp_blockers = concat (map rp_blockers parts),
     rp_warnings = concat (map rp_warnings parts)\<rparr>"

definition needs_manage_roles :: "server_change \<Rightarrow> bool" where
  "needs_manage_roles change \<longleftrightarrow> (case change of EditChannel _ _ _ _ \<Rightarrow> False | _ \<Rightarrow> True)"

definition overwrite_permission_names :: "server_change \<Rightarrow> rstr list" where
  "overwrite_permission_names change =
     concat (map (\<lambda>o'. ow_allow o' @ ow_deny o')
       (case change of CreateCategory _ os \<Rightarrow> os | CreateChannel _ _ _ _ _ _ os \<Rightarrow> os
        | SetOverwrite _ o' \<Rightarrow> [o'] | _ \<Rightarrow> []))"

section \<open>Lookups\<close>

datatype lookup = LookupMissing | LookupFound u64 | LookupAmbiguous nat

datatype role_lookup = RoleMissing | RoleFound u64 | RoleManaged | RoleAmbiguous nat

definition lookup_role :: "guild_snapshot \<Rightarrow> rstr \<Rightarrow> role_lookup" where
  "lookup_role snap name =
     (case roles_named snap name of
        [] \<Rightarrow> RoleMissing
      | [one] \<Rightarrow> if rs_managed one then RoleManaged else RoleFound (rs_id one)
      | many \<Rightarrow> RoleAmbiguous (length many))"

definition lookup_of :: "channel_state list \<Rightarrow> lookup" where
  "lookup_of matches =
     (case matches of [] \<Rightarrow> LookupMissing | [one] \<Rightarrow> LookupFound (chs_id one)
      | many \<Rightarrow> LookupAmbiguous (length many))"

definition lookup_category :: "guild_snapshot \<Rightarrow> rstr \<Rightarrow> lookup" where
  "lookup_category snap name = lookup_of (categories_named snap name)"

definition lookup_channel :: "(rstr \<Rightarrow> rstr) \<Rightarrow> guild_snapshot \<Rightarrow> plan_channel \<Rightarrow> lookup" where
  "lookup_channel lower snap channel = lookup_of (channels_matching lower snap (pch_name channel) (pch_kind channel))"

definition channel_by_id :: "guild_snapshot \<Rightarrow> u64 \<Rightarrow> channel_state option" where
  "channel_by_id snap id' = find (\<lambda>c. chs_id c = id') (gs_channels snap)"

section \<open>Stage additive\<close>

definition additive_role :: "guild_snapshot \<Rightarrow> plan_role \<Rightarrow> report_parts" where
  "additive_role snap role =
     (case lookup_role snap (pr_name role) of
        RoleMissing \<Rightarrow> push_change (CreateRole (pr_name role) (pr_colour role))
      | RoleFound _ \<Rightarrow> no_parts
      | RoleManaged \<Rightarrow> push_blocker (BlockManagedRole (pr_name role))
      | RoleAmbiguous n \<Rightarrow> push_blocker (BlockRoleTwice (pr_name role) n))"

definition additive_channel ::
  "(rstr \<Rightarrow> rstr) \<Rightarrow> guild_snapshot \<Rightarrow> plan_category \<Rightarrow> plan_channel \<Rightarrow> report_parts" where
  "additive_channel lower snap category channel =
     (case lookup_channel lower snap channel of
        LookupMissing \<Rightarrow> gather
          [if needs_community (pch_kind channel) \<and> \<not> has_feature snap community_feature_name
           then push_blocker (BlockCommunity (pch_kind channel) (pch_name channel)) else no_parts,
           push_change (CreateChannel (pch_name channel) (pch_kind channel) (pc_name category)
             (pch_topic channel) (pch_slowmode channel) (pch_tags channel) [hide_marker])]
      | LookupFound _ \<Rightarrow> no_parts
      | LookupAmbiguous n \<Rightarrow> push_blocker (BlockChannelTwice (pch_kind channel) (pch_name channel) n))"

definition additive_category ::
  "(rstr \<Rightarrow> rstr) \<Rightarrow> guild_snapshot \<Rightarrow> plan_category \<Rightarrow> report_parts" where
  "additive_category lower snap category = gather
     ((case lookup_category snap (pc_name category) of
         LookupMissing \<Rightarrow> push_change (CreateCategory (pc_name category) [hide_marker])
       | LookupFound _ \<Rightarrow> no_parts
       | LookupAmbiguous n \<Rightarrow> push_blocker (BlockCategoryTwice (pc_name category) n))
      # map (additive_channel lower snap category) (pc_channels category))"

definition additive_parts :: "(rstr \<Rightarrow> rstr) \<Rightarrow> server_plan \<Rightarrow> guild_snapshot \<Rightarrow> report_parts" where
  "additive_parts lower plan snap = gather
     (map (additive_role snap) (pl_roles plan) @ map (additive_category lower snap) (pl_categories plan))"

section \<open>Overwrites\<close>

text \<open>A channel the engine hid in \<open>additive\<close> and nobody touched since: the marker is its
  only overwrite.\<close>

definition is_engine_hidden :: "channel_state \<Rightarrow> u64 \<Rightarrow> bool" where
  "is_engine_hidden state guild_id =
     (case chs_overwrites state of
        [only] \<Rightarrow> ows_target only = TargetRole guild_id \<and> ows_allow only = []
          \<and> sorted_unique (ows_deny only) = [view_channel]
      | _ \<Rightarrow> False)"

definition reveal_permits :: "overwrite option \<Rightarrow> overwrite \<Rightarrow> bool \<Rightarrow> bool" where
  "reveal_permits current planned engine_hidden =
     (if ow_role planned \<noteq> everyone_name then True
      else if is_some_and current denies_view = denies_view planned then True
      else engine_hidden \<and> \<not> denies_view planned)"

definition always_permits :: "overwrite option \<Rightarrow> overwrite \<Rightarrow> bool \<Rightarrow> bool" where
  "always_permits _ _ _ = True"

text \<open>The current overwrite of a role, under the planned role's name for the comparison.\<close>

definition state_overwrite :: "rstr \<Rightarrow> overwrite_state \<Rightarrow> overwrite" where
  "state_overwrite role o' =
     \<lparr>ow_role = role, ow_allow = sorted_unique (ows_allow o'), ow_deny = sorted_unique (ows_deny o')\<rparr>"

definition one_overwrite ::
  "guild_snapshot \<Rightarrow> server_target \<Rightarrow> channel_state \<Rightarrow> (overwrite option \<Rightarrow> overwrite \<Rightarrow> bool \<Rightarrow> bool)
     \<Rightarrow> overwrite \<Rightarrow> u64 \<Rightarrow> report_parts" where
  "one_overwrite snap target state permits planned role_id =
     (let current = map_option (state_overwrite (ow_role planned)) (overwrite_for_role state role_id)
      in if current = Some planned \<or> current = None \<and> ow_is_empty planned then no_parts
         else if permits current planned (is_engine_hidden state (gs_guild snap))
         then push_change (SetOverwrite target planned)
         else push_warning (WarnGateDiffers target))"

definition overwrite_part ::
  "guild_snapshot \<Rightarrow> server_target \<Rightarrow> channel_state \<Rightarrow> (overwrite option \<Rightarrow> overwrite \<Rightarrow> bool \<Rightarrow> bool)
     \<Rightarrow> overwrite \<Rightarrow> report_parts" where
  "overwrite_part snap target state permits planned =
     (if ow_role planned = everyone_name
      then one_overwrite snap target state permits planned (gs_guild snap)
      else case lookup_role snap (ow_role planned) of
        RoleFound role_id \<Rightarrow> one_overwrite snap target state permits planned role_id
      | RoleMissing \<Rightarrow> push_blocker (BlockOverwriteRoleMissing target (ow_role planned))
      | RoleManaged \<Rightarrow> push_blocker (BlockManagedRole (ow_role planned))
      | RoleAmbiguous n \<Rightarrow> push_blocker (BlockOverwriteRoleTwice target (ow_role planned) n))"

text \<open>An engine-hidden channel without a planned \<open>@everyone\<close> entry is to be public: the
  marker is cleared, not deleted.\<close>

definition wanted_overwrites :: "guild_snapshot \<Rightarrow> overwrite list \<Rightarrow> channel_state \<Rightarrow> overwrite list" where
  "wanted_overwrites snap planned state =
     (let wanted = map ow_normalized planned
      in if \<not> list_ex (\<lambda>o'. ow_role o' = everyone_name) wanted \<and> is_engine_hidden state (gs_guild snap)
         then wanted @ [\<lparr>ow_role = everyone_name, ow_allow = [], ow_deny = []\<rparr>] else wanted)"

definition overwrite_changes ::
  "guild_snapshot \<Rightarrow> server_target \<Rightarrow> overwrite list \<Rightarrow> channel_state
     \<Rightarrow> (overwrite option \<Rightarrow> overwrite \<Rightarrow> bool \<Rightarrow> bool) \<Rightarrow> report_parts" where
  "overwrite_changes snap target planned state permits =
     gather (map (overwrite_part snap target state permits) (wanted_overwrites snap planned state))"

section \<open>Stage reveal\<close>

definition colour_or_zero :: "nat option \<Rightarrow> nat" where
  "colour_or_zero colour = (case colour of None \<Rightarrow> 0 | Some c \<Rightarrow> c)"

definition reveal_role :: "guild_snapshot \<Rightarrow> plan_role \<Rightarrow> report_parts" where
  "reveal_role snap role =
     (case lookup_role snap (pr_name role) of
        RoleMissing \<Rightarrow> push_blocker (BlockRoleMissing (pr_name role))
      | RoleAmbiguous n \<Rightarrow> push_blocker (BlockRoleTwice (pr_name role) n)
      | RoleManaged \<Rightarrow> push_blocker (BlockManagedRole (pr_name role))
      | RoleFound id' \<Rightarrow>
          (case role_by_id snap id' of
             None \<Rightarrow> no_parts
           | Some current \<Rightarrow>
               if rs_hoist current = pr_hoist role \<and> rs_mentionable current = pr_mentionable role
                  \<and> rs_colour current = colour_or_zero (pr_colour role) then no_parts
               else if bot_top_position snap \<le> rs_position current
               then push_blocker (BlockRolePosition (pr_name role) (rs_position current) (bot_top_position snap))
               else push_change (EditRole (pr_name role) (pr_hoist role) (pr_mentionable role) (pr_colour role))))"

text \<open>A topic that is absent or blank leaves the live topic alone.\<close>

definition plain_topic :: "rstr option \<Rightarrow> rstr option" where
  "plain_topic topic =
     (case topic of None \<Rightarrow> None | Some t \<Rightarrow> if trim t = [] then None else Some (trim t))"

definition topic_differs :: "plan_channel \<Rightarrow> channel_state \<Rightarrow> bool" where
  "topic_differs channel state \<longleftrightarrow> has_topic (pch_kind channel) \<and> plain_topic (pch_topic channel) \<noteq> None
     \<and> plain_topic (pch_topic channel) \<noteq> plain_topic (chs_topic state)"

definition planned_topic :: "plan_channel \<Rightarrow> channel_state \<Rightarrow> topic_edit" where
  "planned_topic channel state =
     (case plain_topic (pch_topic channel) of
        Some t \<Rightarrow> if topic_differs channel state then TopicSet t else TopicUnchanged
      | None \<Rightarrow> TopicUnchanged)"

text \<open>\<open>require_channel\<close>: the matching channel, or the blocker that explains why not.\<close>

definition with_channel ::
  "(rstr \<Rightarrow> rstr) \<Rightarrow> guild_snapshot \<Rightarrow> plan_channel \<Rightarrow> (channel_state \<Rightarrow> report_parts) \<Rightarrow> report_parts" where
  "with_channel lower snap channel f =
     (case lookup_channel lower snap channel of
        LookupFound id' \<Rightarrow> (case channel_by_id snap id' of None \<Rightarrow> no_parts | Some state \<Rightarrow> f state)
      | LookupMissing \<Rightarrow> push_blocker (BlockChannelMissing (pch_kind channel) (pch_name channel))
      | LookupAmbiguous n \<Rightarrow> push_blocker (BlockChannelTwice (pch_kind channel) (pch_name channel) n))"

definition channel_target :: "plan_channel \<Rightarrow> server_target" where
  "channel_target channel = OnChannel (pch_name channel) (pch_kind channel)"

definition reveal_channel ::
  "(rstr \<Rightarrow> rstr) \<Rightarrow> guild_snapshot \<Rightarrow> plan_category \<Rightarrow> u64 \<Rightarrow> plan_channel \<Rightarrow> report_parts" where
  "reveal_channel lower snap category category_id channel =
     with_channel lower snap channel (\<lambda>state. gather
       [if chs_parent state \<noteq> Some category_id \<or> topic_differs channel state
        then push_change (EditChannel (pch_name channel) (pch_kind channel) (pc_name category)
               (planned_topic channel state))
        else no_parts,
        overwrite_changes snap (channel_target channel) (effective_overwrites category channel) state reveal_permits])"

definition with_category ::
  "guild_snapshot \<Rightarrow> plan_category \<Rightarrow> (u64 \<Rightarrow> channel_state \<Rightarrow> report_parts) \<Rightarrow> report_parts" where
  "with_category snap category f =
     (case lookup_category snap (pc_name category) of
        LookupMissing \<Rightarrow> push_blocker (BlockCategoryMissing (pc_name category))
      | LookupAmbiguous n \<Rightarrow> push_blocker (BlockCategoryTwice (pc_name category) n)
      | LookupFound id' \<Rightarrow> (case channel_by_id snap id' of None \<Rightarrow> no_parts | Some state \<Rightarrow> f id' state))"

definition reveal_category :: "(rstr \<Rightarrow> rstr) \<Rightarrow> guild_snapshot \<Rightarrow> plan_category \<Rightarrow> report_parts" where
  "reveal_category lower snap category = with_category snap category (\<lambda>category_id state. gather
     (overwrite_changes snap (OnCategory (pc_name category)) (pc_overwrites category) state reveal_permits
      # map (reveal_channel lower snap category category_id) (pc_channels category)))"

definition reveal_parts :: "(rstr \<Rightarrow> rstr) \<Rightarrow> server_plan \<Rightarrow> guild_snapshot \<Rightarrow> report_parts" where
  "reveal_parts lower plan snap = gather
     (map (reveal_role snap) (pl_roles plan) @ map (reveal_category lower snap) (pl_categories plan))"

section \<open>Stage overwrites\<close>

definition lockout_warning ::
  "guild_snapshot \<Rightarrow> server_target \<Rightarrow> overwrite list \<Rightarrow> channel_state \<Rightarrow> report_parts" where
  "lockout_warning snap target planned state =
     (case find (\<lambda>o'. ow_role o' = everyone_name) planned of
        None \<Rightarrow> no_parts
      | Some planned_everyone \<Rightarrow>
          let current_denies = is_some_and (overwrite_for_role state (gs_guild snap)) (\<lambda>o'. view_channel \<in> set (ows_deny o'))
          in if denies_view planned_everyone \<and> \<not> current_denies then
               push_warning (WarnLockout target (map ow_role
                 (filter (\<lambda>o'. ow_role o' \<noteq> everyone_name \<and> view_channel \<in> set (ow_allow o')) planned)))
             else if \<not> denies_view planned_everyone \<and> current_denies \<and> \<not> is_engine_hidden state (gs_guild snap)
             then push_warning (WarnOpens target)
             else no_parts)"

definition overwrites_channel ::
  "(rstr \<Rightarrow> rstr) \<Rightarrow> guild_snapshot \<Rightarrow> plan_category \<Rightarrow> plan_channel \<Rightarrow> report_parts" where
  "overwrites_channel lower snap category channel = with_channel lower snap channel (\<lambda>state.
     let planned = effective_overwrites category channel; target = channel_target channel
     in gather [lockout_warning snap target planned state,
                overwrite_changes snap target planned state always_permits])"

definition overwrites_parts :: "(rstr \<Rightarrow> rstr) \<Rightarrow> server_plan \<Rightarrow> guild_snapshot \<Rightarrow> rstr \<Rightarrow> report_parts" where
  "overwrites_parts lower plan snap name =
     (case plan_category_named plan name of
        None \<Rightarrow> push_blocker (BlockNoCategory name (map pc_name (pl_categories plan)))
      | Some category \<Rightarrow> with_category snap category (\<lambda>_ state. gather
          (lockout_warning snap (OnCategory (pc_name category)) (pc_overwrites category) state
           # overwrite_changes snap (OnCategory (pc_name category)) (pc_overwrites category) state always_permits
           # map (overwrites_channel lower snap category) (pc_channels category))))"

section \<open>The whole report\<close>

definition preflight_facts :: "server_plan \<Rightarrow> guild_snapshot \<Rightarrow> preflight" where
  "preflight_facts plan snap =
     \<lparr>pf_bot = bot_user (gs_bot snap), pf_administrator = bot_is_administrator snap,
      pf_manage_channels = (lit ''Manage Channels'' \<in> set (bot_permissions snap)),
      pf_manage_roles = (lit ''Manage Roles'' \<in> set (bot_permissions snap)),
      pf_top_position = bot_top_position snap, pf_community = has_feature snap community_feature_name,
      pf_needs_community = plan_needs_community plan,
      pf_counts = (length (gs_roles snap), length (gs_channels snap), length (pl_roles plan),
        length (pl_categories plan), length (plan_channels plan))\<rparr>"

definition name_difference :: "rstr list \<Rightarrow> rstr list \<Rightarrow> rstr list" where
  "name_difference wanted held = filter (\<lambda>p. p \<notin> set held) (sorted_unique wanted)"

definition manual_everyone :: "server_plan \<Rightarrow> guild_snapshot \<Rightarrow> manual_step list" where
  "manual_everyone plan snap =
     (case everyone_role snap of None \<Rightarrow> []
      | Some everyone \<Rightarrow>
          let grant = name_difference (pl_everyone plan) (rs_permissions everyone);
              revoke = name_difference (rs_permissions everyone) (pl_everyone plan)
          in report_if (grant \<noteq> [] \<or> revoke \<noteq> []) (ManualEveryone grant revoke))"

definition manual_role :: "guild_snapshot \<Rightarrow> plan_role \<Rightarrow> manual_step list" where
  "manual_role snap role =
     (case lookup_role snap (pr_name role) of
        RoleFound id' \<Rightarrow>
          (case role_by_id snap id' of None \<Rightarrow> []
           | Some current \<Rightarrow>
               let grant = name_difference (pr_permissions role) (rs_permissions current);
                   revoke = name_difference (rs_permissions current) (pr_permissions role)
               in report_if (grant \<noteq> [] \<or> revoke \<noteq> []) (ManualRole (pr_name role) grant revoke))
      | RoleMissing \<Rightarrow> report_if (pr_permissions role \<noteq> []) (ManualGrant (pr_name role) (pr_permissions role))
      | _ \<Rightarrow> [])"

definition role_position :: "guild_snapshot \<Rightarrow> rstr \<Rightarrow> nat option" where
  "role_position snap name =
     (case lookup_role snap name of RoleFound id' \<Rightarrow> map_option rs_position (role_by_id snap id') | _ \<Rightarrow> None)"

definition manual_order :: "server_plan \<Rightarrow> guild_snapshot \<Rightarrow> manual_step list" where
  "manual_order plan snap =
     (let names = map pr_name (pl_roles plan);
          known = List.map_filter (role_position snap) names
      in report_if (1 < length names \<and> (\<not> sorted_wrt (>) known \<or> length known < length names)) (ManualOrder names))"

definition manual_steps :: "server_plan \<Rightarrow> guild_snapshot \<Rightarrow> manual_step list" where
  "manual_steps plan snap =
     manual_everyone plan snap @ concat (map (manual_role snap) (pl_roles plan)) @ manual_order plan snap
     @ report_if (plan_needs_community plan \<and> \<not> has_feature snap community_feature_name) ManualCommunity"

definition capability_blockers :: "guild_snapshot \<Rightarrow> server_change list \<Rightarrow> server_blocker list" where
  "capability_blockers snap changes =
     (let held = bot_permissions snap;
          missing = name_difference (concat (map overwrite_permission_names changes)) held
      in if changes = [] \<or> bot_is_administrator snap then []
         else report_if (lit ''Manage Channels'' \<notin> set held) BlockManageChannels
           @ report_if (list_ex needs_manage_roles changes \<and> lit ''Manage Roles'' \<notin> set held) BlockManageRoles
           @ report_if (missing \<noteq> []) (BlockPermissions missing))"

definition stage_parts ::
  "(rstr \<Rightarrow> rstr) \<Rightarrow> server_plan \<Rightarrow> guild_snapshot \<Rightarrow> server_scope \<Rightarrow> report_parts" where
  "stage_parts lower plan snap scope =
     (case sc_stage scope of
        StageAdditive \<Rightarrow> additive_parts lower plan snap
      | StageReveal \<Rightarrow> reveal_parts lower plan snap
      | StageOverwrites \<Rightarrow>
          (case sc_category scope of Some category \<Rightarrow> overwrites_parts lower plan snap category
           | None \<Rightarrow> push_blocker BlockNeedsCategory))"

definition server_diff :: "(rstr \<Rightarrow> rstr) \<Rightarrow> server_plan \<Rightarrow> guild_snapshot \<Rightarrow> server_scope \<Rightarrow> server_report" where
  "server_diff lower plan snap scope =
     (let parts = stage_parts lower plan snap scope
      in \<lparr>rep_stage = sc_stage scope, rep_preflight = preflight_facts plan snap, rep_changes = rp_changes parts,
          rep_blockers = rp_blockers parts @ capability_blockers snap (rp_changes parts),
          rep_warnings = rp_warnings parts, rep_manual = manual_steps plan snap\<rparr>)"

lemma parts_simps [simp]:
  "rp_changes no_parts = []" "rp_blockers no_parts = []" "rp_warnings no_parts = []"
  "rp_changes (push_change change) = [change]" "rp_blockers (push_change change) = []"
  "rp_changes (push_blocker blocker) = []" "rp_blockers (push_blocker blocker) = [blocker]"
  "rp_changes (push_warning warning) = []" "rp_blockers (push_warning warning) = []"
  "rp_changes (gather parts) = concat (map rp_changes parts)"
  "rp_blockers (gather parts) = concat (map rp_blockers parts)"
  "rp_warnings (gather parts) = concat (map rp_warnings parts)"
  by (simp_all add: no_parts_def push_change_def push_blocker_def push_warning_def gather_def)

lemma capability_calm [simp]: "capability_blockers snap [] = []"
  by (simp add: capability_blockers_def Let_def)

lemma report_simps [simp]:
  "rep_changes (server_diff lower plan snap scope) = rp_changes (stage_parts lower plan snap scope)"
  "rep_blockers (server_diff lower plan snap scope)
     = rp_blockers (stage_parts lower plan snap scope) @ capability_blockers snap (rp_changes (stage_parts lower plan snap scope))"
  by (simp_all add: server_diff_def Let_def)

end
