(* ===== verification/Server_Apply.thy ===== *)
theory Server_Apply
  imports Server_Diff
begin

text \<open>
  Performing the changes of a report in order, stopping at the first failure
  (\<open>src/server/apply.rs\<close>): plan names are resolved to ids against an index that starts from
  the snapshot and grows as things are created, and a writer performs the resolved
  operations. The writer is an interface, \<open>guild_writer\<close>; the guild of the repository's own
  tests (\<open>src/server/apply/tests.rs\<close>), which performs every operation on a snapshot the way
  Discord would and can be made to fail at any operation, implements it.
\<close>

section \<open>Operations and the index\<close>

record resolved_overwrite =
  ro_role :: u64
  ro_allow :: "rstr list"
  ro_deny :: "rstr list"

datatype guild_op =
  OpCreateRole rstr "nat option"
| OpEditRole u64 bool bool "nat option"
| OpCreateChannel rstr channel_class "u64 option" "rstr option" "nat option" "rstr list" "resolved_overwrite list"
| OpEditChannel u64 "u64 option" topic_edit
| OpSetOverwrite u64 u64 "rstr list" "rstr list"

datatype apply_error =
  RoleWithoutId rstr | CategoryWithoutId rstr | ChannelWithoutId channel_kind rstr
| InjectedFailure | NoSuchRole u64 | NoSuchCategory u64 | NoSuchChannel u64

record name_index =
  ix_guild :: u64
  ix_roles :: "(rstr, u64) fmap"
  ix_categories :: "(rstr, u64) fmap"
  ix_channels :: "(rstr \<times> channel_kind, u64) fmap"

text \<open>Only names that occur once are indexed.\<close>

definition unique_ids :: "('k \<times> u64) list \<Rightarrow> ('k, u64) fmap" where
  "unique_ids entries = fmap_of_list (filter (\<lambda>e. length (filter (\<lambda>f. fst f = fst e) entries) = 1) entries)"

definition folded_name :: "rstr \<Rightarrow> rstr" where
  "folded_name name = to_ascii_lowercase (trim name)"

definition category_entries :: "guild_snapshot \<Rightarrow> (rstr \<times> u64) list" where
  "category_entries snap =
     map (\<lambda>c. (folded_name (chs_name c), chs_id c)) (filter (\<lambda>c. chs_class c = ClassCategory) (gs_channels snap))"

fun channel_entry :: "(rstr \<Rightarrow> rstr) \<Rightarrow> channel_state \<Rightarrow> ((rstr \<times> channel_kind) \<times> u64) option" where
  "channel_entry lower c =
     (case chs_class c of
        ClassKind kind \<Rightarrow> Some ((plan_channel_key lower (chs_name c) kind, kind), chs_id c)
      | _ \<Rightarrow> None)"

definition index_from_snapshot :: "(rstr \<Rightarrow> rstr) \<Rightarrow> guild_snapshot \<Rightarrow> name_index" where
  "index_from_snapshot lower snap =
     \<lparr>ix_guild = gs_guild snap,
      ix_roles = unique_ids (map (\<lambda>r. (rs_name r, rs_id r)) (gs_roles snap)),
      ix_categories = unique_ids (category_entries snap),
      ix_channels = unique_ids (List.map_filter (channel_entry lower) (gs_channels snap))\<rparr>"

definition index_role :: "name_index \<Rightarrow> rstr \<Rightarrow> apply_error + u64" where
  "index_role ix name =
     (if name = everyone_name then Inr (ix_guild ix) else ok_or (fmlookup (ix_roles ix) name) (RoleWithoutId name))"

definition index_category :: "name_index \<Rightarrow> rstr \<Rightarrow> apply_error + u64" where
  "index_category ix name = ok_or (fmlookup (ix_categories ix) (folded_name name)) (CategoryWithoutId name)"

definition index_channel :: "(rstr \<Rightarrow> rstr) \<Rightarrow> name_index \<Rightarrow> rstr \<Rightarrow> channel_kind \<Rightarrow> apply_error + u64" where
  "index_channel lower ix name kind =
     ok_or (fmlookup (ix_channels ix) (plan_channel_key lower name kind, kind)) (ChannelWithoutId kind name)"

fun resolve_overwrites :: "name_index \<Rightarrow> overwrite list \<Rightarrow> apply_error + resolved_overwrite list" where
  "resolve_overwrites ix [] = Inr []"
| "resolve_overwrites ix (o' # os) = rbind (index_role ix (ow_role o')) (\<lambda>role_id.
     rbind (resolve_overwrites ix os) (\<lambda>rest.
       Inr (\<lparr>ro_role = role_id, ro_allow = ow_allow o', ro_deny = ow_deny o'\<rparr> # rest)))"

definition index_target :: "(rstr \<Rightarrow> rstr) \<Rightarrow> name_index \<Rightarrow> server_target \<Rightarrow> apply_error + u64" where
  "index_target lower ix target =
     (case target of OnCategory name \<Rightarrow> index_category ix name | OnChannel name kind \<Rightarrow> index_channel lower ix name kind)"

fun resolve_change :: "(rstr \<Rightarrow> rstr) \<Rightarrow> name_index \<Rightarrow> server_change \<Rightarrow> apply_error + guild_op" where
  "resolve_change lower ix (CreateRole name colour) = Inr (OpCreateRole name colour)"
| "resolve_change lower ix (EditRole name hoist mentionable colour) =
     rbind (index_role ix name) (\<lambda>role_id. Inr (OpEditRole role_id hoist mentionable colour))"
| "resolve_change lower ix (CreateCategory name overwrites) =
     rbind (resolve_overwrites ix overwrites) (\<lambda>os. Inr (OpCreateChannel name ClassCategory None None None [] os))"
| "resolve_change lower ix (CreateChannel name kind category topic slowmode tags overwrites) =
     rbind (index_category ix category) (\<lambda>parent. rbind (resolve_overwrites ix overwrites) (\<lambda>os.
       Inr (OpCreateChannel name (ClassKind kind) (Some parent) topic slowmode tags os)))"
| "resolve_change lower ix (EditChannel name kind category topic) =
     rbind (index_channel lower ix name kind) (\<lambda>channel_id. rbind (index_category ix category) (\<lambda>parent.
       Inr (OpEditChannel channel_id (Some parent) topic)))"
| "resolve_change lower ix (SetOverwrite target o') =
     rbind (index_target lower ix target) (\<lambda>channel_id. rbind (index_role ix (ow_role o')) (\<lambda>role_id.
       Inr (OpSetOverwrite channel_id role_id (ow_allow o') (ow_deny o'))))"

fun record_created :: "(rstr \<Rightarrow> rstr) \<Rightarrow> server_change \<Rightarrow> u64 option \<Rightarrow> name_index \<Rightarrow> name_index" where
  "record_created lower change None ix = ix"
| "record_created lower change (Some id') ix =
     (case change of
        CreateRole name _ \<Rightarrow> ix\<lparr>ix_roles := fmupd name id' (ix_roles ix)\<rparr>
      | CreateCategory name _ \<Rightarrow> ix\<lparr>ix_categories := fmupd (folded_name name) id' (ix_categories ix)\<rparr>
      | CreateChannel name kind _ _ _ _ _ \<Rightarrow>
          ix\<lparr>ix_channels := fmupd (plan_channel_key lower name kind, kind) id' (ix_channels ix)\<rparr>
      | _ \<Rightarrow> ix)"

section \<open>Applying changes\<close>

record apply_outcome =
  oc_applied :: "server_change list"
  oc_failed :: "(server_change \<times> apply_error) option"
  oc_remaining :: "server_change list"

fun apply_from ::
  "(guild_op \<Rightarrow> 'g \<Rightarrow> (apply_error + u64 option) \<times> 'g) \<Rightarrow> (rstr \<Rightarrow> rstr) \<Rightarrow> name_index
     \<Rightarrow> server_change list \<Rightarrow> server_change list \<Rightarrow> 'g \<Rightarrow> apply_outcome \<times> 'g" where
  "apply_from perform lower ix applied [] g =
     (\<lparr>oc_applied = applied, oc_failed = None, oc_remaining = []\<rparr>, g)"
| "apply_from perform lower ix applied (change # changes) g =
     (case resolve_change lower ix change of
        Inl reason \<Rightarrow> (\<lparr>oc_applied = applied, oc_failed = Some (change, reason), oc_remaining = changes\<rparr>, g)
      | Inr op' \<Rightarrow>
          (case perform op' g of
             (Inl reason, g') \<Rightarrow>
               (\<lparr>oc_applied = applied, oc_failed = Some (change, reason), oc_remaining = changes\<rparr>, g')
           | (Inr created, g') \<Rightarrow>
               apply_from perform lower (record_created lower change created ix) (applied @ [change]) changes g'))"

definition server_apply ::
  "(guild_op \<Rightarrow> 'g \<Rightarrow> (apply_error + u64 option) \<times> 'g) \<Rightarrow> (rstr \<Rightarrow> rstr)
     \<Rightarrow> server_change list \<Rightarrow> guild_snapshot \<Rightarrow> 'g \<Rightarrow> apply_outcome \<times> 'g" where
  "server_apply perform lower changes snap g = apply_from perform lower (index_from_snapshot lower snap) [] changes g"

section \<open>The guild of the tests\<close>

record fake_guild =
  fg_snapshot :: guild_snapshot
  fg_next_id :: u64
  fg_fail_at :: "nat option"
  fg_performed :: nat

definition new_fake_guild :: "guild_snapshot \<Rightarrow> fake_guild" where
  "new_fake_guild snap =
     (let ids = map rs_id (gs_roles snap) @ map chs_id (gs_channels snap)
      in \<lparr>fg_snapshot = snap, fg_next_id = (if ids = [] then gs_guild snap else Max (set ids)) + 1,
          fg_fail_at = None, fg_performed = 0\<rparr>)"

definition resolved_state :: "resolved_overwrite \<Rightarrow> overwrite_state" where
  "resolved_state o' = \<lparr>ows_target = TargetRole (ro_role o'), ows_allow = ro_allow o', ows_deny = ro_deny o'\<rparr>"

definition shift_role :: "role_state \<Rightarrow> role_state" where
  "shift_role r = (if 1 \<le> rs_position r then r\<lparr>rs_position := rs_position r + 1\<rparr> else r)"

fun update_first :: "('a \<Rightarrow> bool) \<Rightarrow> ('a \<Rightarrow> 'a) \<Rightarrow> 'a list \<Rightarrow> 'a list" where
  "update_first P f [] = []"
| "update_first P f (x # xs) = (if P x then f x # xs else x # update_first P f xs)"

definition put_overwrite :: "u64 \<Rightarrow> rstr list \<Rightarrow> rstr list \<Rightarrow> overwrite_state list \<Rightarrow> overwrite_state list" where
  "put_overwrite role_id allow deny os =
     (if list_ex (\<lambda>o'. ows_target o' = TargetRole role_id) os
      then update_first (\<lambda>o'. ows_target o' = TargetRole role_id) (\<lambda>o'. o'\<lparr>ows_allow := allow, ows_deny := deny\<rparr>) os
      else os @ [\<lparr>ows_target = TargetRole role_id, ows_allow = allow, ows_deny = deny\<rparr>])"

definition edit_channel :: "u64 option \<Rightarrow> topic_edit \<Rightarrow> channel_state \<Rightarrow> channel_state" where
  "edit_channel parent topic c =
     (let d = (case parent of None \<Rightarrow> c | Some p \<Rightarrow> c\<lparr>chs_parent := Some p\<rparr>)
      in case topic of TopicUnchanged \<Rightarrow> d | TopicSet t \<Rightarrow> d\<lparr>chs_topic := Some t\<rparr>)"

definition stored_name :: "(rstr \<Rightarrow> rstr) \<Rightarrow> channel_class \<Rightarrow> rstr \<Rightarrow> rstr" where
  "stored_name lower class' name =
     (case class' of ClassKind kind \<Rightarrow> plan_channel_key lower name kind | _ \<Rightarrow> name)"

text \<open>What an operation needs of the guild, and what it does to it; \<open>id'\<close> is the id a
  creation gets.\<close>

fun op_possible :: "guild_op \<Rightarrow> guild_snapshot \<Rightarrow> apply_error + unit" where
  "op_possible (OpCreateRole name colour) snap = Inr ()"
| "op_possible (OpEditRole id' hoist mentionable colour) snap =
     ensure (NoSuchRole id') (list_ex (\<lambda>r. rs_id r = id') (gs_roles snap))"
| "op_possible (OpCreateChannel name class' parent topic slowmode tags os) snap =
     (case parent of None \<Rightarrow> Inr ()
      | Some p \<Rightarrow> ensure (NoSuchCategory p)
          (list_ex (\<lambda>c. chs_id c = p \<and> chs_class c = ClassCategory) (gs_channels snap)))"
| "op_possible (OpEditChannel id' parent topic) snap =
     ensure (NoSuchChannel id') (list_ex (\<lambda>c. chs_id c = id') (gs_channels snap))"
| "op_possible (OpSetOverwrite id' role_id allow deny) snap =
     ensure (NoSuchChannel id') (list_ex (\<lambda>c. chs_id c = id') (gs_channels snap))"

fun op_creates :: "guild_op \<Rightarrow> bool" where
  "op_creates (OpCreateRole name colour) = True"
| "op_creates (OpCreateChannel name class' parent topic slowmode tags os) = True"
| "op_creates _ = False"

fun op_effect :: "(rstr \<Rightarrow> rstr) \<Rightarrow> guild_op \<Rightarrow> u64 \<Rightarrow> guild_snapshot \<Rightarrow> guild_snapshot" where
  "op_effect lower (OpCreateRole name colour) id' snap = snap\<lparr>gs_roles := map shift_role (gs_roles snap)
     @ [\<lparr>rs_id = id', rs_name = name, rs_position = 1, rs_managed = False, rs_hoist = False,
         rs_mentionable = False, rs_colour = colour_or_zero colour, rs_permissions = []\<rparr>]\<rparr>"
| "op_effect lower (OpEditRole role_id hoist mentionable colour) id' snap =
     snap\<lparr>gs_roles := update_first (\<lambda>r. rs_id r = role_id)
       (\<lambda>r. r\<lparr>rs_hoist := hoist, rs_mentionable := mentionable, rs_colour := colour_or_zero colour\<rparr>)
       (gs_roles snap)\<rparr>"
| "op_effect lower (OpCreateChannel name class' parent topic slowmode tags os) id' snap =
     snap\<lparr>gs_channels := gs_channels snap
       @ [\<lparr>chs_id = id', chs_name = stored_name lower class' name, chs_class = class', chs_parent = parent,
           chs_topic = topic, chs_overwrites = map resolved_state os\<rparr>]\<rparr>"
| "op_effect lower (OpEditChannel channel_id parent topic) id' snap =
     snap\<lparr>gs_channels := update_first (\<lambda>c. chs_id c = channel_id) (edit_channel parent topic) (gs_channels snap)\<rparr>"
| "op_effect lower (OpSetOverwrite channel_id role_id allow deny) id' snap =
     snap\<lparr>gs_channels := update_first (\<lambda>c. chs_id c = channel_id)
       (\<lambda>c. c\<lparr>chs_overwrites := put_overwrite role_id allow deny (chs_overwrites c)\<rparr>) (gs_channels snap)\<rparr>"

definition fake_perform ::
  "(rstr \<Rightarrow> rstr) \<Rightarrow> guild_op \<Rightarrow> fake_guild \<Rightarrow> (apply_error + u64 option) \<times> fake_guild" where
  "fake_perform lower op' g =
     (if fg_fail_at g = Some (fg_performed g) then (Inl InjectedFailure, g)
      else
        let g1 = g\<lparr>fg_performed := fg_performed g + 1\<rparr>
        in case op_possible op' (fg_snapshot g1) of
             Inl reason \<Rightarrow> (Inl reason, g1)
           | Inr _ \<Rightarrow>
               (Inr (if op_creates op' then Some (fg_next_id g) else None),
                g1\<lparr>fg_snapshot := op_effect lower op' (fg_next_id g) (fg_snapshot g1),
                   fg_next_id := (if op_creates op' then fg_next_id g + 1 else fg_next_id g)\<rparr>))"

end
