(* ===== verification/Server_Writer.thy ===== *)
theory Server_Writer
  imports Server_Apply
begin

text \<open>
  What a writer promises the engine, and that the guild of the tests keeps the promise. A
  performed operation was possible and has exactly its effect, a refused one changes
  nothing; ids of created things are new; a willing writer performs what is possible. The
  lemmas inside the interface describe what applying a list of changes does to the guild,
  complete or not.
\<close>

section \<open>Well-formed snapshots\<close>

text \<open>Ids identify roles and channels, and the base role, which carries the guild's id, is
  there and called \<open>@everyone\<close>, as Discord has it.\<close>

definition snapshot_ok :: "guild_snapshot \<Rightarrow> bool" where
  "snapshot_ok snap \<longleftrightarrow> distinct (map rs_id (gs_roles snap)) \<and> distinct (map chs_id (gs_channels snap))
     \<and> list_ex (\<lambda>r. rs_id r = gs_guild snap) (gs_roles snap)
     \<and> list_all (\<lambda>r. rs_id r = gs_guild snap \<longrightarrow> rs_name r = everyone_name) (gs_roles snap)"

definition fresh_id :: "u64 \<Rightarrow> guild_snapshot \<Rightarrow> bool" where
  "fresh_id id' snap \<longleftrightarrow> id' \<notin> rs_id ` set (gs_roles snap) \<and> id' \<notin> chs_id ` set (gs_channels snap)
     \<and> id' \<noteq> gs_guild snap"

section \<open>In-place updates\<close>

lemma update_first_map: "(\<And>x. g (f x) = g x) \<Longrightarrow> map g (update_first P f xs) = map g xs"
  by (induction xs) auto

lemma update_first_length [simp]: "length (update_first P f xs) = length xs"
  by (induction xs) auto

lemma update_first_set:
  "x \<in> set (update_first P f xs) \<Longrightarrow> x \<in> set xs \<or> (\<exists>y \<in> set xs. P y \<and> x = f y)"
  by (induction xs) (auto split: if_splits)

lemma find_append: "find P (xs @ ys) = (case find P xs of None \<Rightarrow> find P ys | Some x \<Rightarrow> Some x)"
  by (induction xs) auto

lemma find_update_first:
  "(\<And>x. P (f x) = P x) \<Longrightarrow> find P (update_first P f xs) = map_option f (find P xs)"
  by (induction xs) auto

lemma find_update_other:
  "(\<And>x. P x \<Longrightarrow> \<not> Q x) \<Longrightarrow> (\<And>x. P x \<Longrightarrow> \<not> Q (f x)) \<Longrightarrow> find Q (update_first P f xs) = find Q xs"
  by (induction xs) auto

section \<open>Edits\<close>

definition is_edit :: "guild_op \<Rightarrow> bool" where
  "is_edit op' \<longleftrightarrow> \<not> op_creates op'"

text \<open>What no edit touches: the identity of roles and channels.\<close>

definition role_ident :: "role_state \<Rightarrow> u64 \<times> rstr \<times> nat \<times> bool \<times> rstr list" where
  "role_ident r = (rs_id r, rs_name r, rs_position r, rs_managed r, rs_permissions r)"

definition channel_ident :: "channel_state \<Rightarrow> u64 \<times> rstr \<times> channel_class" where
  "channel_ident c = (chs_id c, chs_name c, chs_class c)"

definition same_idents :: "guild_snapshot \<Rightarrow> guild_snapshot \<Rightarrow> bool" where
  "same_idents s t \<longleftrightarrow> map role_ident (gs_roles s) = map role_ident (gs_roles t)
     \<and> map channel_ident (gs_channels s) = map channel_ident (gs_channels t)
     \<and> gs_guild s = gs_guild t \<and> gs_features s = gs_features t \<and> gs_bot s = gs_bot t"

lemma same_idents_refl [simp]: "same_idents s s"
  and same_idents_trans: "same_idents s t \<Longrightarrow> same_idents t u \<Longrightarrow> same_idents s u"
  by (simp_all add: same_idents_def)

lemma edit_channel_ident [simp]:
  "chs_id (edit_channel parent topic c) = chs_id c" "chs_name (edit_channel parent topic c) = chs_name c"
  "chs_class (edit_channel parent topic c) = chs_class c"
  "chs_overwrites (edit_channel parent topic c) = chs_overwrites c"
  by (auto simp: edit_channel_def Let_def split: option.splits topic_edit.splits)

lemma edit_idents: "is_edit op' \<Longrightarrow> same_idents s (op_effect lower op' id' s)"
  by (cases op') (auto simp: is_edit_def same_idents_def role_ident_def channel_ident_def update_first_map)

lemma same_idents_ids:
  assumes "same_idents s t"
  shows "map rs_id (gs_roles s) = map rs_id (gs_roles t)" "map chs_id (gs_channels s) = map chs_id (gs_channels t)"
proof -
  from assms have "map fst (map role_ident (gs_roles s)) = map fst (map role_ident (gs_roles t))"
    "map fst (map channel_ident (gs_channels s)) = map fst (map channel_ident (gs_channels t))"
    by (simp_all add: same_idents_def)
  then show "map rs_id (gs_roles s) = map rs_id (gs_roles t)" "map chs_id (gs_channels s) = map chs_id (gs_channels t)"
    by (simp_all add: role_ident_def channel_ident_def comp_def)
qed

lemma list_ex_mem: "list_ex (\<lambda>x. f x = i) xs \<longleftrightarrow> i \<in> set (map f xs)"
  by (induction xs) auto

lemma edit_possible:
  assumes "same_idents s t" and "is_edit op'"
  shows "op_possible op' s = op_possible op' t"
  using assms(2)
  by (cases op') (simp_all add: is_edit_def list_ex_mem same_idents_ids [OF assms(1)] del: set_map)

section \<open>Creations\<close>

text \<open>An index is sound when the categories it knows are categories of the guild. A list of
  creations is runnable when every channel goes to a category known by then and everything
  is created hidden.\<close>

definition index_sound :: "name_index \<Rightarrow> guild_snapshot \<Rightarrow> bool" where
  "index_sound ix snap \<longleftrightarrow> (\<forall>k i. fmlookup (ix_categories ix) k = Some i \<longrightarrow>
     list_ex (\<lambda>c. chs_id c = i \<and> chs_class c = ClassCategory) (gs_channels snap))"

fun runnable :: "rstr set \<Rightarrow> server_change list \<Rightarrow> bool" where
  "runnable known [] \<longleftrightarrow> True"
| "runnable known (change # changes) \<longleftrightarrow>
     (case change of
        CreateRole _ _ \<Rightarrow> runnable known changes
      | CreateCategory name os \<Rightarrow> os = [hide_marker] \<and> runnable (insert (folded_name name) known) changes
      | CreateChannel _ _ category _ _ _ os \<Rightarrow>
          folded_name category \<in> known \<and> os = [hide_marker] \<and> runnable known changes
      | _ \<Rightarrow> False)"

text \<open>What creations add: names of roles and channels, in order.\<close>

definition role_label :: "role_state \<Rightarrow> rstr \<times> bool" where
  "role_label r = (rs_name r, rs_managed r)"

definition channel_label :: "channel_state \<Rightarrow> channel_class \<times> rstr" where
  "channel_label c = (chs_class c, chs_name c)"

fun added_role :: "server_change \<Rightarrow> (rstr \<times> bool) list" where
  "added_role (CreateRole name colour) = [(name, False)]"
| "added_role _ = []"

fun added_channel :: "(rstr \<Rightarrow> rstr) \<Rightarrow> server_change \<Rightarrow> (channel_class \<times> rstr) list" where
  "added_channel lower (CreateCategory name os) = [(ClassCategory, name)]"
| "added_channel lower (CreateChannel name kind category topic slowmode tags os) =
     [(ClassKind kind, plan_channel_key lower name kind)]"
| "added_channel lower _ = []"

definition adds :: "(rstr \<Rightarrow> rstr) \<Rightarrow> server_change list \<Rightarrow> guild_snapshot \<Rightarrow> guild_snapshot \<Rightarrow> bool" where
  "adds lower changes s t \<longleftrightarrow>
     map role_label (gs_roles t) = map role_label (gs_roles s) @ concat (map added_role changes)
     \<and> map channel_label (gs_channels t) = map channel_label (gs_channels s) @ concat (map (added_channel lower) changes)"

lemma adds_Nil [simp]: "adds lower [] s s"
  by (simp add: adds_def)

lemma adds_Cons: "adds lower [change] s t \<Longrightarrow> adds lower changes t u \<Longrightarrow> adds lower (change # changes) s u"
  by (simp add: adds_def)

lemma index_soundD:
  "index_sound ix snap \<Longrightarrow> fmlookup (ix_categories ix) k = Some i \<Longrightarrow>
     list_ex (\<lambda>c. chs_id c = i \<and> chs_class c = ClassCategory) (gs_channels snap)"
  by (simp add: index_sound_def)

lemma shift_role_simps [simp]:
  "rs_id (shift_role r) = rs_id r" "rs_name (shift_role r) = rs_name r" "rs_managed (shift_role r) = rs_managed r"
  "rs_hoist (shift_role r) = rs_hoist r" "rs_mentionable (shift_role r) = rs_mentionable r"
  "rs_colour (shift_role r) = rs_colour r" "rs_permissions (shift_role r) = rs_permissions r"
  by (simp_all add: shift_role_def)

lemma resolve_marker: "resolve_overwrites ix [hide_marker]
    = Inr [\<lparr>ro_role = ix_guild ix, ro_allow = [], ro_deny = [view_channel]\<rparr>]"
  by (simp add: hide_marker_def index_role_def)

lemma runnable_resolves:
  assumes "index_sound ix snap" and "runnable (fmdom' (ix_categories ix)) (change # changes)"
  shows "\<exists>op'. resolve_change lower ix change = Inr op' \<and> op_possible op' snap = Inr () \<and> op_creates op'"
proof (cases change)
  case (CreateChannel name kind category topic slowmode tags os)
  with assms(2) obtain p where "fmlookup (ix_categories ix) (folded_name category) = Some p"
    by (auto simp: fmlookup_dom'_iff)
  with CreateChannel assms(2) index_soundD [OF assms(1) this] show ?thesis
    by (simp add: index_category_def resolve_marker del: resolve_overwrites.simps)
qed (use assms(2) in \<open>simp_all add: resolve_marker del: resolve_overwrites.simps\<close>)

lemma runnable_step:
  fixes id' :: u64
  assumes "index_sound ix snap" and "runnable (fmdom' (ix_categories ix)) (change # changes)"
    and "resolve_change lower ix change = Inr op'"
  defines "ix' \<equiv> record_created lower change (Some id') ix" and "snap' \<equiv> op_effect lower op' id' snap"
  shows "index_sound ix' snap' \<and> runnable (fmdom' (ix_categories ix')) changes \<and> adds lower [change] snap snap'"
proof (cases change)
  case (CreateRole name colour)
  with assms show ?thesis by (auto simp: index_sound_def adds_def role_label_def)
next
  case (CreateCategory name os)
  with assms show ?thesis by (auto simp: index_sound_def adds_def channel_label_def stored_name_def)
next
  case (CreateChannel name kind category topic slowmode tags os)
  with assms show ?thesis by (auto simp: index_sound_def adds_def channel_label_def stored_name_def)
qed (use assms(2) in simp_all)

section \<open>The interface\<close>

locale guild_writer =
  fixes perform :: "guild_op \<Rightarrow> 'g \<Rightarrow> (apply_error + u64 option) \<times> 'g" and lower :: "rstr \<Rightarrow> rstr"
    and view :: "'g \<Rightarrow> guild_snapshot" and sound :: "'g \<Rightarrow> bool" and willing :: "'g \<Rightarrow> bool"
  assumes performs: "sound g \<Longrightarrow> perform op' g = (Inr created, g') \<Longrightarrow>
      sound g' \<and> op_possible op' (view g) = Inr () \<and> (\<exists>id'. view g' = op_effect lower op' id' (view g)
        \<and> created = (if op_creates op' then Some id' else None) \<and> (op_creates op' \<longrightarrow> fresh_id id' (view g)))"
    and refuses: "sound g \<Longrightarrow> perform op' g = (Inl e, g') \<Longrightarrow> sound g' \<and> view g' = view g"
    and obliges: "sound g \<Longrightarrow> willing g \<Longrightarrow> op_possible op' (view g) = Inr () \<Longrightarrow>
      \<exists>created g'. perform op' g = (Inr created, g') \<and> willing g'"
begin

text \<open>Whatever every possible operation of the changes keeps, applying keeps, also when it
  stops half way.\<close>

lemma apply_relates:
  assumes "apply_from perform lower ix applied changes g = (out, g')" and "sound g"
    and "\<And>s. R s s" and "\<And>s t u. R s t \<Longrightarrow> R t u \<Longrightarrow> R s u"
    and "\<And>change ix' op' id' s. change \<in> set changes \<Longrightarrow> ix_guild ix' = ix_guild ix \<Longrightarrow>
      resolve_change lower ix' change = Inr op' \<Longrightarrow> op_possible op' s = Inr () \<Longrightarrow>
      (op_creates op' \<Longrightarrow> fresh_id id' s) \<Longrightarrow> R s (op_effect lower op' id' s)"
  shows "R (view g) (view g') \<and> sound g'"
  using assms(1,2,5)
proof (induction changes arbitrary: ix applied g)
  case Nil
  then show ?case using assms(3) by simp
next
  case (Cons change changes)
  show ?case
  proof (cases "resolve_change lower ix change")
    case (Inl reason)
    with Cons.prems assms(3) show ?thesis by simp
  next
    case (Inr op')
    obtain r h where p: "perform op' g = (r, h)" by (cases "perform op' g")
    show ?thesis
    proof (cases r)
      case (Inl reason)
      with Cons.prems(1,2) Inr p refuses [of g op' reason h] assms(3) show ?thesis by simp
    next
      case r: (Inr created)
      from performs [OF Cons.prems(2) p [unfolded r]] obtain id' where
        h: "sound h" "op_possible op' (view g) = Inr ()" "view h = op_effect lower op' id' (view g)"
          "op_creates op' \<Longrightarrow> fresh_id id' (view g)" by blast
      have "R (view g) (view h)"
        unfolding h(3) by (rule Cons.prems(3) [OF _ refl Inr h(2,4)]) simp
      moreover have guild: "ix_guild (record_created lower change created ix) = ix_guild ix"
        by (cases created; cases change) simp_all
      have "R (view h) (view g') \<and> sound g'"
      proof (rule Cons.IH)
        show "apply_from perform lower (record_created lower change created ix) (applied @ [change]) changes h = (out, g')"
          using Cons.prems(1) Inr p r by simp
        show "R s (op_effect lower op'' i s)"
          if "c \<in> set changes" "ix_guild ix' = ix_guild (record_created lower change created ix)"
            "resolve_change lower ix' c = Inr op''" "op_possible op'' s = Inr ()" "op_creates op'' \<Longrightarrow> fresh_id i s"
          for c ix' op'' i s
          by (rule Cons.prems(3) [of c ix']) (use that guild in auto)
      qed (rule h(1))
      ultimately show ?thesis by (blast intro: assms(4))
    qed
  qed
qed

text \<open>A list of edits that are all possible is applied completely.\<close>

lemma apply_edits:
  assumes "sound g" and "willing g"
    and "\<And>change. change \<in> set changes \<Longrightarrow>
      \<exists>op'. resolve_change lower ix change = Inr op' \<and> is_edit op' \<and> op_possible op' (view g) = Inr ()"
  shows "\<exists>g'. apply_from perform lower ix applied changes g
       = (\<lparr>oc_applied = applied @ changes, oc_failed = None, oc_remaining = []\<rparr>, g')
     \<and> view g' = fold (\<lambda>op'. op_effect lower op' 0) (map (\<lambda>c. projr (resolve_change lower ix c)) changes) (view g)"
  using assms
proof (induction changes arbitrary: applied g)
  case Nil
  then show ?case by simp
next
  case (Cons change changes)
  from Cons.prems(3) [of change] obtain op' where
    op': "resolve_change lower ix change = Inr op'" "is_edit op'" "op_possible op' (view g) = Inr ()" by auto
  from obliges [OF Cons.prems(1,2) op'(3)] obtain created h where p: "perform op' g = (Inr created, h)" "willing h"
    by blast
  from performs [OF Cons.prems(1) p(1)] op'(2) obtain id' where
    h: "sound h" "view h = op_effect lower op' id' (view g)" "created = None" by (auto simp: is_edit_def)
  have "view h = op_effect lower op' 0 (view g)"
    using h(2) op'(2) by (cases op') (simp_all add: is_edit_def)
  moreover have "same_idents (view g) (view h)" unfolding h(2) by (rule edit_idents [OF op'(2)])
  then have "\<exists>op'. resolve_change lower ix c = Inr op' \<and> is_edit op' \<and> op_possible op' (view h) = Inr ()"
    if "c \<in> set changes" for c
    using Cons.prems(3) [of c] that edit_possible by fastforce
  from Cons.IH [OF h(1) p(2) this, of "applied @ [change]"] h(3) p(1) op'(1) show ?case
    by (simp add: calculation)
qed

text \<open>Creations hidden behind the marker are applied completely when every category a channel
  goes to is known or created before it.\<close>

lemma apply_creations:
  assumes "sound g" and "willing g" and "index_sound ix (view g)"
    and "runnable (fmdom' (ix_categories ix)) changes"
  shows "\<exists>g'. apply_from perform lower ix applied changes g
       = (\<lparr>oc_applied = applied @ changes, oc_failed = None, oc_remaining = []\<rparr>, g')
     \<and> adds lower changes (view g) (view g')"
  using assms
proof (induction changes arbitrary: ix applied g)
  case Nil
  then show ?case by simp
next
  case (Cons change changes)
  from runnable_resolves [OF Cons.prems(3,4)] obtain op' where
    op': "resolve_change lower ix change = Inr op'" "op_possible op' (view g) = Inr ()" "op_creates op'" by blast
  from obliges [OF Cons.prems(1,2) op'(2)] obtain created h where p: "perform op' g = (Inr created, h)" "willing h"
    by blast
  from performs [OF Cons.prems(1) p(1)] op'(3) obtain id' where
    h: "sound h" "view h = op_effect lower op' id' (view g)" "created = Some id'" by auto
  have step: "index_sound (record_created lower change (Some id') ix) (view h)"
    "runnable (fmdom' (ix_categories (record_created lower change (Some id') ix))) changes"
    "adds lower [change] (view g) (view h)"
    using runnable_step [OF Cons.prems(3,4) op'(1), of id'] by (simp_all add: h(2))
  from Cons.IH [OF h(1) p(2) step(1,2), of "applied @ [change]"] obtain g' where
    g': "apply_from perform lower (record_created lower change (Some id') ix) (applied @ [change]) changes h
       = (\<lparr>oc_applied = (applied @ [change]) @ changes, oc_failed = None, oc_remaining = []\<rparr>, g')"
      "adds lower changes (view h) (view g')" by blast
  with adds_Cons [OF step(3) g'(2)] h(3) p(1) op'(1) show ?case by simp
qed

end

section \<open>The guild of the tests keeps the promise\<close>

definition fake_sound :: "fake_guild \<Rightarrow> bool" where
  "fake_sound g \<longleftrightarrow> (\<forall>i \<in> rs_id ` set (gs_roles (fg_snapshot g)). i < fg_next_id g)
     \<and> (\<forall>i \<in> chs_id ` set (gs_channels (fg_snapshot g)). i < fg_next_id g)
     \<and> gs_guild (fg_snapshot g) < fg_next_id g"

lemma fake_sound_step:
  assumes "fake_sound g"
  shows "fake_sound (g\<lparr>fg_performed := n, fg_snapshot := op_effect lower op' (fg_next_id g) (fg_snapshot g),
     fg_next_id := (if op_creates op' then fg_next_id g + 1 else fg_next_id g)\<rparr>)"
proof (cases "op_creates op'")
  case True
  with assms show ?thesis
    by (cases op') (force simp: fake_sound_def shift_role_def less_Suc_eq)+
next
  case False
  then have same: "same_idents (fg_snapshot g) (op_effect lower op' (fg_next_id g) (fg_snapshot g))"
    by (simp add: edit_idents is_edit_def)
  from same_idents_ids [OF same] have "rs_id ` set (gs_roles (op_effect lower op' (fg_next_id g) (fg_snapshot g)))
      = rs_id ` set (gs_roles (fg_snapshot g))"
    "chs_id ` set (gs_channels (op_effect lower op' (fg_next_id g) (fg_snapshot g)))
      = chs_id ` set (gs_channels (fg_snapshot g))"
    by (metis list.set_map)+
  with assms False same show ?thesis by (simp add: fake_sound_def same_idents_def)
qed

interpretation fake: guild_writer "fake_perform lower" lower fg_snapshot fake_sound "\<lambda>g. fg_fail_at g = None"
  for lower
proof
  fix g g' :: fake_guild and op' created
  assume sound: "fake_sound g"
  show "fake_sound g' \<and> op_possible op' (fg_snapshot g) = Inr ()
      \<and> (\<exists>id'. fg_snapshot g' = op_effect lower op' id' (fg_snapshot g)
        \<and> created = (if op_creates op' then Some id' else None)
        \<and> (op_creates op' \<longrightarrow> fresh_id id' (fg_snapshot g)))"
    if p: "fake_perform lower op' g = (Inr created, g')"
  proof (intro conjI exI [of _ "fg_next_id g"])
    from p have eq: "op_possible op' (fg_snapshot g) = Inr ()"
      "g' = g\<lparr>fg_performed := fg_performed g + 1, fg_snapshot := op_effect lower op' (fg_next_id g) (fg_snapshot g),
        fg_next_id := (if op_creates op' then fg_next_id g + 1 else fg_next_id g)\<rparr>"
      "created = (if op_creates op' then Some (fg_next_id g) else None)"
      by (auto simp: fake_perform_def Let_def split: if_splits sum.splits)
    show "fake_sound g'" unfolding eq(2) by (rule fake_sound_step [OF sound])
    show "op_possible op' (fg_snapshot g) = Inr ()" by (rule eq(1))
    show "fg_snapshot g' = op_effect lower op' (fg_next_id g) (fg_snapshot g)" by (simp add: eq(2))
    show "created = (if op_creates op' then Some (fg_next_id g) else None)" by (rule eq(3))
    show "op_creates op' \<longrightarrow> fresh_id (fg_next_id g) (fg_snapshot g)"
      using sound by (force simp: fake_sound_def fresh_id_def)
  qed
  show "fake_sound g' \<and> fg_snapshot g' = fg_snapshot g" if "fake_perform lower op' g = (Inl e, g')" for e
    using that sound by (auto simp: fake_perform_def fake_sound_def Let_def split: if_splits sum.splits)
  show "\<exists>created g'. fake_perform lower op' g = (Inr created, g') \<and> fg_fail_at g' = None"
    if "fg_fail_at g = None" "op_possible op' (fg_snapshot g) = Inr ()"
    using that by (simp add: fake_perform_def Let_def)
qed

end
