(* ===== verification/Server_Stages.thy ===== *)
theory Server_Stages
  imports Server_Writer
begin

text \<open>
  The rollout as a whole: what a clear report of each stage does to the guild when it is
  applied. The lemmas relate the lookups of the comparison with the index of the writer,
  follow the creations of stage \<open>additive\<close> and the edits of the other two stages to the
  resulting snapshot, and compare the plan with it again.
\<close>

section \<open>Lookups and the index\<close>

lemma filter_single: "filter P xs = [x] \<Longrightarrow> x \<in> set xs \<and> P x"
  by (metis list.set_intros(1) mem_Collect_eq set_filter)

lemma unique_ids_lookup: "fmlookup (unique_ids es) k = Some i \<longleftrightarrow> filter (\<lambda>e. fst e = k) es = [(k, i)]"
proof -
  let ?only = "filter (\<lambda>e. length (filter (\<lambda>f. fst f = fst e) es) = 1) es"
  have mem: "(k, j) \<in> set ?only \<longleftrightarrow> filter (\<lambda>e. fst e = k) es = [(k, j)]" for j
  proof
    assume "(k, j) \<in> set ?only"
    then have mem: "(k, j) \<in> set (filter (\<lambda>e. fst e = k) es)" and "length (filter (\<lambda>e. fst e = k) es) = 1" by auto
    then obtain e where "filter (\<lambda>e. fst e = k) es = [e]" by (auto simp: length_Suc_conv)
    with mem show "filter (\<lambda>e. fst e = k) es = [(k, j)]" by simp
  next
    assume eq: "filter (\<lambda>e. fst e = k) es = [(k, j)]"
    then have "(k, j) \<in> set es" by (auto dest: filter_single)
    with eq show "(k, j) \<in> set ?only" by auto
  qed
  have "map_of ?only k = Some i \<longleftrightarrow> (k, i) \<in> set ?only"
  proof
    assume "(k, i) \<in> set ?only"
    then have "map_of ?only k \<noteq> None" unfolding map_of_eq_None_iff by (metis fst_conv imageI)
    then obtain j where j: "map_of ?only k = Some j" by blast
    then have "(k, j) \<in> set ?only" by (rule map_of_SomeD)
    with \<open>(k, i) \<in> set ?only\<close> have "j = i" unfolding mem by simp
    with j show "map_of ?only k = Some i" by simp
  qed (rule map_of_SomeD)
  then show ?thesis unfolding mem by (simp add: unique_ids_def fmap_of_list.rep_eq)
qed

lemma lookup_of_Found: "lookup_of matches = LookupFound i \<longleftrightarrow> (\<exists>c. matches = [c] \<and> chs_id c = i)"
  by (auto simp: lookup_of_def split: list.splits)

lemma lookup_of_Missing: "lookup_of matches = LookupMissing \<longleftrightarrow> matches = []"
  by (auto simp: lookup_of_def split: list.splits)

lemma lookup_role_Found:
  "lookup_role snap name = RoleFound i \<longleftrightarrow> (\<exists>r. roles_named snap name = [r] \<and> \<not> rs_managed r \<and> rs_id r = i)"
  by (auto simp: lookup_role_def split: list.splits if_splits)

lemma lookup_role_Missing: "lookup_role snap name = RoleMissing \<longleftrightarrow> name \<notin> rs_name ` set (gs_roles snap)"
proof -
  have "lookup_role snap name = RoleMissing \<longleftrightarrow> roles_named snap name = []"
    by (auto simp: lookup_role_def split: list.splits if_splits)
  then show ?thesis by (auto simp: roles_named_def filter_empty_conv)
qed

lemma lookup_category_Missing:
  "lookup_category snap name = LookupMissing \<longleftrightarrow>
     \<not> (\<exists>c \<in> set (gs_channels snap). chs_class c = ClassCategory \<and> folded_name (chs_name c) = folded_name name)"
  by (auto simp: lookup_category_def lookup_of_Missing categories_named_def filter_empty_conv
      eq_ignore_ascii_case_def folded_name_def)

lemma lookup_channel_Missing:
  "lookup_channel lower snap ch = LookupMissing \<longleftrightarrow>
     \<not> (\<exists>c \<in> set (gs_channels snap). chs_class c = ClassKind (pch_kind ch)
          \<and> plan_channel_key lower (chs_name c) (pch_kind ch) = plan_channel_key lower (pch_name ch) (pch_kind ch))"
  by (auto simp: lookup_channel_def lookup_of_Missing channels_matching_def filter_empty_conv)

lemma index_role_found:
  "lookup_role snap name = RoleFound i \<Longrightarrow> name \<noteq> everyone_name \<Longrightarrow>
     index_role (index_from_snapshot lower snap) name = Inr i"
  by (auto simp: lookup_role_Found roles_named_def index_role_def index_from_snapshot_def unique_ids_lookup
      filter_map comp_def dest: filter_single)

lemma index_category_found:
  "lookup_category snap name = LookupFound i \<Longrightarrow>
     fmlookup (ix_categories (index_from_snapshot lower snap)) (folded_name name) = Some i"
  by (auto simp: lookup_category_def lookup_of_Found categories_named_def index_from_snapshot_def unique_ids_lookup
      category_entries_def filter_map comp_def eq_ignore_ascii_case_def folded_name_def conj_commute
      dest: filter_single)

lemma map_filter_entries:
  "filter (\<lambda>e. fst e = (k, kind)) (List.map_filter (channel_entry lower) cs)
     = map (\<lambda>c. ((k, kind), chs_id c))
         (filter (\<lambda>c. chs_class c = ClassKind kind \<and> plan_channel_key lower (chs_name c) kind = k) cs)"
  by (induction cs) (auto simp: List.map_filter_simps split: channel_class.splits)

lemma index_channel_found:
  "lookup_channel lower snap ch = LookupFound i \<Longrightarrow>
     index_channel lower (index_from_snapshot lower snap) (pch_name ch) (pch_kind ch) = Inr i"
  by (auto simp: lookup_channel_def lookup_of_Found channels_matching_def index_channel_def index_from_snapshot_def
      unique_ids_lookup map_filter_entries)

lemma index_snapshot_sound: "index_sound (index_from_snapshot lower snap) snap"
proof (unfold index_sound_def, intro allI impI)
  fix k i
  assume "fmlookup (ix_categories (index_from_snapshot lower snap)) k = Some i"
  then have "filter (\<lambda>e. fst e = k) (category_entries snap) = [(k, i)]"
    by (simp add: index_from_snapshot_def unique_ids_lookup)
  then have "(k, i) \<in> set (category_entries snap)" by (auto dest: filter_single)
  then show "list_ex (\<lambda>c. chs_id c = i \<and> chs_class c = ClassCategory) (gs_channels snap)"
    by (auto simp: category_entries_def list_ex_iff)
qed

section \<open>Stage additive\<close>

fun created_keys :: "server_change list \<Rightarrow> rstr set" where
  "created_keys [] = {}"
| "created_keys (change # changes) =
     (case change of CreateCategory name _ \<Rightarrow> insert (folded_name name) (created_keys changes)
      | _ \<Rightarrow> created_keys changes)"

lemma runnable_append:
  "runnable known (xs @ ys) \<longleftrightarrow> runnable known xs \<and> runnable (known \<union> created_keys xs) ys"
  by (induction xs arbitrary: known) (auto split: server_change.splits)

lemma additive_role_changes:
  "rp_changes (additive_role snap role) =
     (if lookup_role snap (pr_name role) = RoleMissing then [CreateRole (pr_name role) (pr_colour role)] else [])"
  by (auto simp: additive_role_def split: role_lookup.splits)

definition creation_of :: "plan_category \<Rightarrow> plan_channel \<Rightarrow> server_change" where
  "creation_of category channel = CreateChannel (pch_name channel) (pch_kind channel) (pc_name category)
     (pch_topic channel) (pch_slowmode channel) (pch_tags channel) [hide_marker]"

lemma additive_channel_changes:
  "rp_changes (additive_channel lower snap category channel) =
     (if lookup_channel lower snap channel = LookupMissing then [creation_of category channel] else [])"
  by (auto simp: additive_channel_def creation_of_def split: lookup.splits)

lemma additive_category_changes:
  "rp_changes (additive_category lower snap category) =
     (if lookup_category snap (pc_name category) = LookupMissing
      then [CreateCategory (pc_name category) [hide_marker]] else [])
     @ concat (map (\<lambda>channel. if lookup_channel lower snap channel = LookupMissing
                      then [creation_of category channel] else []) (pc_channels category))"
  by (auto simp: additive_category_def additive_channel_changes comp_def split: lookup.splits)

lemma runnable_channels:
  "folded_name (pc_name category) \<in> known \<Longrightarrow>
     runnable known (concat (map (\<lambda>channel. if P channel then [creation_of category channel] else []) channels))"
  by (induction channels) (auto simp: creation_of_def)

lemma runnable_category:
  assumes "rp_blockers (additive_category lower snap category) = []"
    and "fmdom' (ix_categories (index_from_snapshot lower snap)) \<subseteq> known"
  shows "runnable known (rp_changes (additive_category lower snap category))"
proof (cases "lookup_category snap (pc_name category)")
  case LookupMissing
  then show ?thesis by (simp add: additive_category_changes runnable_channels)
next
  case (LookupFound i)
  from index_category_found [OF this, of lower] assms(2) have "folded_name (pc_name category) \<in> known"
    by (auto simp: fmlookup_dom'_iff)
  with LookupFound show ?thesis by (simp add: additive_category_changes runnable_channels)
next
  case (LookupAmbiguous n)
  with assms(1) show ?thesis by (simp add: additive_category_def)
qed

lemma runnable_roles: "runnable known (concat (map (\<lambda>role. rp_changes (additive_role snap role)) roles))"
  by (induction roles) (auto simp: additive_role_changes)

lemma runnable_categories:
  "(\<forall>category \<in> set categories. rp_blockers (additive_category lower snap category) = []) \<Longrightarrow>
   fmdom' (ix_categories (index_from_snapshot lower snap)) \<subseteq> known \<Longrightarrow>
     runnable known (concat (map (\<lambda>category. rp_changes (additive_category lower snap category)) categories))"
proof (induction categories arbitrary: known)
  case (Cons category categories)
  let ?more = "known \<union> created_keys (rp_changes (additive_category lower snap category))"
  have "fmdom' (ix_categories (index_from_snapshot lower snap)) \<subseteq> ?more" using Cons.prems(2) by blast
  with Cons show ?case by (simp add: runnable_append runnable_category)
qed simp

lemma additive_runnable:
  assumes "rp_blockers (additive_parts lower plan snap) = []"
  shows "runnable (fmdom' (ix_categories (index_from_snapshot lower snap))) (rp_changes (additive_parts lower plan snap))"
  using assms
  by (auto simp: additive_parts_def comp_def runnable_append intro: runnable_roles runnable_categories)

lemma dropWhile_fixed: "xs = [] \<or> \<not> P (hd xs) \<Longrightarrow> dropWhile P xs = xs"
  by (cases xs) auto

lemma trim_trimmed: "t = [] \<or> \<not> is_whitespace (hd t) \<and> \<not> is_whitespace (last t) \<Longrightarrow> trim t = t"
  by (auto simp: trim_def dropWhile_fixed hd_rev)

lemma trim_ends:
  assumes "trim s \<noteq> []"
  shows "\<not> is_whitespace (hd (trim s)) \<and> \<not> is_whitespace (last (trim s))"
proof -
  let ?u = "dropWhile is_whitespace s"
  have "rev ?u = takeWhile is_whitespace (rev ?u) @ dropWhile is_whitespace (rev ?u)" by simp
  then have "?u = trim s @ rev (takeWhile is_whitespace (rev ?u))" unfolding trim_def by (metis rev_append rev_rev_ident)
  with assms have "hd ?u = hd (trim s)" "?u \<noteq> []" by (metis hd_append2, metis append_is_Nil_conv)
  then have "\<not> is_whitespace (hd (trim s))" by (metis hd_dropWhile)
  moreover have "\<not> is_whitespace (last (trim s))"
    using assms hd_dropWhile [of is_whitespace "rev ?u"] unfolding trim_def by (metis last_rev rev.simps(1))
  ultimately show ?thesis by blast
qed

lemma trim_idem [simp]: "trim (trim s) = trim s"
  by (rule trim_trimmed) (use trim_ends in blast)

lemma stored_key:
  assumes "channel_ok lower plan channel"
  shows "plan_channel_key lower (plan_channel_key lower (pch_name channel) (pch_kind channel)) (pch_kind channel)
     = plan_channel_key lower (pch_name channel) (pch_kind channel)"
  using assms by (simp add: plan_channel_key_def channel_ok_def)

text \<open>The lookups only read labels.\<close>

lemma lookup_role_labels:
  "lookup_role s name = RoleMissing \<longleftrightarrow> filter (\<lambda>l. fst l = name) (map role_label (gs_roles s)) = []"
  "(\<exists>i. lookup_role s name = RoleFound i) \<longleftrightarrow> filter (\<lambda>l. fst l = name) (map role_label (gs_roles s)) = [(name, False)]"
  by (auto simp: lookup_role_Missing lookup_role_Found roles_named_def filter_map comp_def role_label_def filter_empty_conv
      map_eq_Cons_conv dest: filter_single)

lemma lookup_of_length: "lookup_of matches = LookupMissing \<longleftrightarrow> length matches = 0"
  "(\<exists>i. lookup_of matches = LookupFound i) \<longleftrightarrow> length matches = 1"
  by (auto simp: lookup_of_def length_Suc_conv split: list.splits)

definition category_named :: "rstr \<Rightarrow> channel_class \<times> rstr \<Rightarrow> bool" where
  "category_named name l \<longleftrightarrow> fst l = ClassCategory \<and> folded_name (snd l) = folded_name name"

definition channel_keyed :: "(rstr \<Rightarrow> rstr) \<Rightarrow> plan_channel \<Rightarrow> channel_class \<times> rstr \<Rightarrow> bool" where
  "channel_keyed lower ch l \<longleftrightarrow> fst l = ClassKind (pch_kind ch)
     \<and> plan_channel_key lower (snd l) (pch_kind ch) = fst (channel_key lower ch)"

lemma lookup_category_labels:
  "lookup_category s name = LookupMissing \<longleftrightarrow> length (filter (category_named name) (map channel_label (gs_channels s))) = 0"
  "(\<exists>i. lookup_category s name = LookupFound i) \<longleftrightarrow>
     length (filter (category_named name) (map channel_label (gs_channels s))) = 1"
  unfolding lookup_category_def lookup_of_length
  by (simp_all add: categories_named_def filter_map comp_def category_named_def channel_label_def
      eq_ignore_ascii_case_def folded_name_def)

lemma lookup_channel_labels:
  "lookup_channel lower s ch = LookupMissing \<longleftrightarrow> length (filter (channel_keyed lower ch) (map channel_label (gs_channels s))) = 0"
  "(\<exists>i. lookup_channel lower s ch = LookupFound i) \<longleftrightarrow>
     length (filter (channel_keyed lower ch) (map channel_label (gs_channels s))) = 1"
  unfolding lookup_channel_def lookup_of_length
  by (simp_all add: channels_matching_def filter_map comp_def channel_keyed_def channel_label_def channel_key_def)

text \<open>The labels the changes of stage \<open>additive\<close> add.\<close>

lemma concat_single:
  "distinct (map f xs) \<Longrightarrow> x \<in> set xs \<Longrightarrow>
     concat (map (\<lambda>y. if Q y \<and> f y = f x then [g y] else []) xs) = (if Q x then [g x] else [])"
proof (induction xs)
  case (Cons y ys)
  show ?case
  proof (cases "x = y")
    case True
    with Cons.prems(1) have "\<forall>z \<in> set ys. f z \<noteq> f x" by (metis distinct.simps(2) image_eqI list.set_map list.simps(9))
    then have "concat (map (\<lambda>y. if Q y \<and> f y = f x then [g y] else []) ys) = []" by simp
    with True show ?thesis by simp
  next
    case False
    with Cons.prems have "x \<in> set ys" "f y \<noteq> f x" by auto
    with Cons.IH Cons.prems(1) show ?thesis by simp
  qed
qed simp

lemma concat_map_concat: "concat (map f (concat xss)) = concat (map (\<lambda>xs. concat (map f xs)) xss)"
  by (induction xss) simp_all

lemma added_roles:
  "concat (map added_role (rp_changes (additive_parts lower plan snap)))
     = concat (map (\<lambda>role. if lookup_role snap (pr_name role) = RoleMissing then [(pr_name role, False)] else [])
         (pl_roles plan))"
proof -
  have role: "concat (map added_role (rp_changes (additive_role snap role)))
      = (if lookup_role snap (pr_name role) = RoleMissing then [(pr_name role, False)] else [])" for role
    by (simp add: additive_role_changes)
  have channels: "concat (map added_role (concat (map (\<lambda>channel. if P channel then [creation_of category channel] else []) chs)))
      = []" for category P chs
    by (induction chs) (simp_all add: creation_of_def)
  have category: "concat (map added_role (rp_changes (additive_category lower snap category))) = []" for category
    by (simp add: additive_category_changes channels del: concat_eq_Nil_conv)
  show ?thesis by (simp add: additive_parts_def concat_map_concat comp_def role category)
qed

definition created_labels :: "(rstr \<Rightarrow> rstr) \<Rightarrow> guild_snapshot \<Rightarrow> plan_category \<Rightarrow> (channel_class \<times> rstr) list" where
  "created_labels lower snap category =
     (if lookup_category snap (pc_name category) = LookupMissing then [(ClassCategory, pc_name category)] else [])
     @ concat (map (\<lambda>ch. if lookup_channel lower snap ch = LookupMissing
                 then [(ClassKind (pch_kind ch), fst (channel_key lower ch))] else []) (pc_channels category))"

lemma added_channels:
  "concat (map (added_channel lower) (rp_changes (additive_parts lower plan snap)))
     = concat (map (created_labels lower snap) (pl_categories plan))"
proof -
  have channels: "concat (map (added_channel lower)
        (concat (map (\<lambda>channel. if P channel then [creation_of category channel] else []) chs)))
      = concat (map (\<lambda>ch. if P ch then [(ClassKind (pch_kind ch), fst (channel_key lower ch))] else []) chs)" for category P chs
    by (induction chs) (simp_all add: creation_of_def channel_key_def)
  have category: "concat (map (added_channel lower) (rp_changes (additive_category lower snap category)))
      = created_labels lower snap category" for category
    by (simp add: additive_category_changes channels created_labels_def)
  have role: "concat (map (added_channel lower) (rp_changes (additive_role snap role))) = []" for role
    by (simp add: additive_role_changes)
  show ?thesis by (simp add: additive_parts_def concat_map_concat comp_def category role)
qed

lemma filter_if_single: "filter P (if b then [x] else []) = (if b \<and> P x then [x] else [])"
  by (cases b; cases "P x") simp_all

lemma filter_concat_map: "filter P (concat (map f xs)) = concat (map (\<lambda>x. filter P (f x)) xs)"
  by (induction xs) simp_all

lemma created_categories:
  "filter (category_named (pc_name cat)) (created_labels lower snap c) =
     (if lookup_category snap (pc_name c) = LookupMissing \<and> category_key c = category_key cat
      then [(ClassCategory, pc_name c)] else [])"
  by (auto simp: created_labels_def filter_concat_map filter_if_single category_named_def category_key_def folded_name_def)

lemma created_channels:
  assumes "list_all (channel_ok lower plan) (pc_channels c)"
  shows "filter (channel_keyed lower ch) (created_labels lower snap c) =
     concat (map (\<lambda>ch'. if lookup_channel lower snap ch' = LookupMissing \<and> channel_key lower ch' = channel_key lower ch
               then [(ClassKind (pch_kind ch'), fst (channel_key lower ch'))] else []) (pc_channels c))"
proof -
  have head: "filter (channel_keyed lower ch) (if b then [(ClassCategory, name)] else []) = []" for b name
    by (simp add: channel_keyed_def)
  have keyed: "channel_keyed lower ch (ClassKind (pch_kind ch'), fst (channel_key lower ch'))
      \<longleftrightarrow> channel_key lower ch' = channel_key lower ch" if "ch' \<in> set (pc_channels c)" for ch'
  proof -
    from assms that have "channel_ok lower plan ch'" by (simp add: list_all_iff)
    from stored_key [OF this] show ?thesis by (auto simp: channel_keyed_def channel_key_def)
  qed
  then have "map (\<lambda>ch'. filter (channel_keyed lower ch) (if lookup_channel lower snap ch' = LookupMissing
               then [(ClassKind (pch_kind ch'), fst (channel_key lower ch'))] else [])) (pc_channels c)
      = map (\<lambda>ch'. if lookup_channel lower snap ch' = LookupMissing \<and> channel_key lower ch' = channel_key lower ch
               then [(ClassKind (pch_kind ch'), fst (channel_key lower ch'))] else []) (pc_channels c)"
    by (simp add: filter_if_single)
  then show ?thesis by (simp only: created_labels_def filter_append head filter_concat_map append_Nil)
qed

lemma additive_role_calm:
  assumes "plan_ok lower plan" "role \<in> set (pl_roles plan)" and "rp_blockers (additive_role snap role) = []"
    and "adds lower (rp_changes (additive_parts lower plan snap)) snap after"
  shows "\<exists>i. lookup_role after (pr_name role) = RoleFound i"
proof -
  have dist: "distinct (map pr_name (pl_roles plan))" using assms(1) by (simp add: plan_ok_def)
  have "filter (\<lambda>l. fst l = pr_name role) (map role_label (gs_roles after))
      = filter (\<lambda>l. fst l = pr_name role) (map role_label (gs_roles snap))
        @ (if lookup_role snap (pr_name role) = RoleMissing then [(pr_name role, False)] else [])"
    using assms(4) concat_single [OF dist assms(2), of "\<lambda>r. lookup_role snap (pr_name r) = RoleMissing" "\<lambda>r. (pr_name r, False)"]
    by (simp add: adds_def added_roles filter_concat_map filter_if_single del: filter_map filter.simps)
  moreover have "lookup_role snap (pr_name role) = RoleMissing \<or> (\<exists>i. lookup_role snap (pr_name role) = RoleFound i)"
    using assms(3) by (cases "lookup_role snap (pr_name role)") (simp_all add: additive_role_def)
  ultimately show ?thesis unfolding lookup_role_labels by auto
qed

lemma additive_category_calm:
  assumes "plan_ok lower plan" "category \<in> set (pl_categories plan)"
    and "rp_blockers (additive_category lower snap category) = []"
    and "adds lower (rp_changes (additive_parts lower plan snap)) snap after"
  shows "\<exists>i. lookup_category after (pc_name category) = LookupFound i"
proof -
  have dist: "distinct (map category_key (pl_categories plan))" using assms(1) by (simp add: plan_ok_def)
  have "filter (category_named (pc_name category)) (map channel_label (gs_channels after))
      = filter (category_named (pc_name category)) (map channel_label (gs_channels snap))
        @ (if lookup_category snap (pc_name category) = LookupMissing then [(ClassCategory, pc_name category)] else [])"
    using assms(4) concat_single [OF dist assms(2), of "\<lambda>c. lookup_category snap (pc_name c) = LookupMissing"
        "\<lambda>c. (ClassCategory, pc_name c)"]
    by (simp add: adds_def added_channels filter_concat_map created_categories del: filter_map filter.simps)
  moreover have "lookup_category snap (pc_name category) = LookupMissing \<or> (\<exists>i. lookup_category snap (pc_name category) = LookupFound i)"
    using assms(3) by (cases "lookup_category snap (pc_name category)") (simp_all add: additive_category_def)
  ultimately show ?thesis unfolding lookup_category_labels by auto
qed

lemma additive_channel_calm:
  assumes plan: "plan_ok lower plan" and cat: "category \<in> set (pl_categories plan)" and ch: "ch \<in> set (pc_channels category)"
    and "rp_blockers (additive_channel lower snap category ch) = []"
    and "adds lower (rp_changes (additive_parts lower plan snap)) snap after"
  shows "\<exists>i. lookup_channel lower after ch = LookupFound i"
proof -
  let ?missing = "\<lambda>ch. lookup_channel lower snap ch = LookupMissing"
  let ?label = "\<lambda>ch. (ClassKind (pch_kind ch), fst (channel_key lower ch))"
  have dist: "distinct (map (channel_key lower) (concat (map pc_channels (pl_categories plan))))"
    using plan by (simp add: plan_ok_def)
  have mem: "ch \<in> set (concat (map pc_channels (pl_categories plan)))" using cat ch by auto
  have "map (\<lambda>c. filter (channel_keyed lower ch) (created_labels lower snap c)) (pl_categories plan)
      = map (\<lambda>c. concat (map (\<lambda>ch'. if ?missing ch' \<and> channel_key lower ch' = channel_key lower ch then [?label ch'] else [])
            (pc_channels c))) (pl_categories plan)"
    using plan created_channels by (intro map_cong refl) (auto simp: plan_ok_def)
  then have "filter (channel_keyed lower ch) (concat (map (created_labels lower snap) (pl_categories plan)))
      = concat (map (\<lambda>ch'. if ?missing ch' \<and> channel_key lower ch' = channel_key lower ch then [?label ch'] else [])
            (concat (map pc_channels (pl_categories plan))))"
    by (simp only: filter_concat_map concat_map_concat map_map comp_def)
  also have "\<dots> = (if ?missing ch then [?label ch] else [])" by (rule concat_single [OF dist mem])
  finally have "filter (channel_keyed lower ch) (map channel_label (gs_channels after))
      = filter (channel_keyed lower ch) (map channel_label (gs_channels snap)) @ (if ?missing ch then [?label ch] else [])"
    using assms(5) by (simp add: adds_def added_channels del: filter_map filter.simps)
  moreover have "?missing ch \<or> (\<exists>i. lookup_channel lower snap ch = LookupFound i)"
    using assms(4) by (cases "lookup_channel lower snap ch") (simp_all add: additive_channel_def)
  ultimately show ?thesis unfolding lookup_channel_labels by auto
qed

lemma additive_calm:
  assumes plan: "plan_ok lower plan" and clear: "rp_blockers (additive_parts lower plan snap) = []"
    and adds: "adds lower (rp_changes (additive_parts lower plan snap)) snap after"
  shows "rp_changes (additive_parts lower plan after) = [] \<and> rp_blockers (additive_parts lower plan after) = []"
proof -
  have role: "\<exists>i. lookup_role after (pr_name role) = RoleFound i" if "role \<in> set (pl_roles plan)" for role
    by (rule additive_role_calm [OF plan that _ adds]) (use clear that in \<open>simp add: additive_parts_def\<close>)
  have category: "\<exists>i. lookup_category after (pc_name category) = LookupFound i" if "category \<in> set (pl_categories plan)" for category
    by (rule additive_category_calm [OF plan that _ adds]) (use clear that in \<open>simp add: additive_parts_def\<close>)
  have channel: "\<exists>i. lookup_channel lower after ch = LookupFound i"
    if "category \<in> set (pl_categories plan)" "ch \<in> set (pc_channels category)" for category ch
    by (rule additive_channel_calm [OF plan that _ adds])
      (use clear that in \<open>auto simp: additive_parts_def additive_category_def\<close>)
  have "additive_role after role = no_parts" if "role \<in> set (pl_roles plan)" for role
    using role [OF that] by (auto simp: additive_role_def)
  moreover have "additive_channel lower after category ch = no_parts"
    if "category \<in> set (pl_categories plan)" "ch \<in> set (pc_channels category)" for category ch
    using channel [OF that] by (auto simp: additive_channel_def)
  moreover have "(case lookup_category after (pc_name category) of LookupMissing \<Rightarrow> p | LookupFound i \<Rightarrow> no_parts
      | LookupAmbiguous n \<Rightarrow> q n) = no_parts" if "category \<in> set (pl_categories plan)" for category p q
    using category [OF that] by auto
  ultimately show ?thesis by (simp add: additive_parts_def additive_category_def)
qed

end
