(* ===== verification/Server_Rollout.thy ===== *)
theory Server_Rollout
  imports Server_Stages
begin

text \<open>
  The edits of stages \<open>reveal\<close> and \<open>overwrites\<close>, in one form: both walk roles and
  categories, they differ in what they permit and in whether channels are moved. A
  \<^emph>\<open>site\<close> is a category or channel of the plan with the id it has in the guild; the plan
  determines one set of overwrites per site and one value per overwrite, so the order of
  the edits does not matter and every edit leaves what the plan says.
\<close>

section \<open>One form for both stages\<close>

definition edit_channel_part ::
  "(rstr \<Rightarrow> rstr) \<Rightarrow> guild_snapshot \<Rightarrow> (overwrite option \<Rightarrow> overwrite \<Rightarrow> bool \<Rightarrow> bool) \<Rightarrow> bool
     \<Rightarrow> plan_category \<Rightarrow> u64 \<Rightarrow> plan_channel \<Rightarrow> report_parts" where
  "edit_channel_part lower snap permits moving category category_id channel =
     with_channel lower snap channel (\<lambda>state. gather
       [if moving \<and> (chs_parent state \<noteq> Some category_id \<or> topic_differs channel state)
        then push_change (EditChannel (pch_name channel) (pch_kind channel) (pc_name category)
               (planned_topic channel state))
        else no_parts,
        overwrite_changes snap (channel_target channel) (effective_overwrites category channel) state permits])"

definition edit_category_part ::
  "(rstr \<Rightarrow> rstr) \<Rightarrow> guild_snapshot \<Rightarrow> (overwrite option \<Rightarrow> overwrite \<Rightarrow> bool \<Rightarrow> bool) \<Rightarrow> bool
     \<Rightarrow> plan_category \<Rightarrow> report_parts" where
  "edit_category_part lower snap permits moving category = with_category snap category (\<lambda>category_id state. gather
     (overwrite_changes snap (OnCategory (pc_name category)) (pc_overwrites category) state permits
      # map (edit_channel_part lower snap permits moving category category_id) (pc_channels category)))"

definition edit_parts ::
  "(rstr \<Rightarrow> rstr) \<Rightarrow> guild_snapshot \<Rightarrow> (overwrite option \<Rightarrow> overwrite \<Rightarrow> bool \<Rightarrow> bool) \<Rightarrow> bool
     \<Rightarrow> plan_role list \<Rightarrow> plan_category list \<Rightarrow> report_parts" where
  "edit_parts lower snap permits moving roles categories = gather
     (map (reveal_role snap) roles @ map (edit_category_part lower snap permits moving) categories)"

lemma reveal_is_edit:
  "reveal_parts lower plan snap = edit_parts lower snap reveal_permits True (pl_roles plan) (pl_categories plan)"
proof -
  have "reveal_channel lower snap = edit_channel_part lower snap reveal_permits True"
    by (intro ext) (simp add: reveal_channel_def edit_channel_part_def)
  then have "reveal_category lower snap = edit_category_part lower snap reveal_permits True"
    by (intro ext) (simp add: reveal_category_def edit_category_part_def)
  then show ?thesis by (simp add: reveal_parts_def edit_parts_def)
qed

definition same_outcome :: "report_parts \<Rightarrow> report_parts \<Rightarrow> bool" where
  "same_outcome p q \<longleftrightarrow> rp_changes p = rp_changes q \<and> rp_blockers p = rp_blockers q"

lemma lockout_outcome [simp]:
  "rp_changes (lockout_warning snap target planned state) = []"
  "rp_blockers (lockout_warning snap target planned state) = []"
  by (auto simp: lockout_warning_def Let_def split: option.splits)

lemma overwrites_channel_outcome:
  "same_outcome (overwrites_channel lower snap category channel)
     (edit_channel_part lower snap always_permits False category category_id channel)"
  by (auto simp: overwrites_channel_def edit_channel_part_def with_channel_def same_outcome_def Let_def
      split: lookup.splits option.splits)

lemma overwrites_is_edit:
  assumes "plan_category_named plan name = Some category"
  shows "same_outcome (overwrites_parts lower plan snap name)
     (edit_parts lower snap always_permits False [] [category])"
proof -
  have "rp_changes (overwrites_channel lower snap category ch)
      = rp_changes (edit_channel_part lower snap always_permits False category i ch)"
    "rp_blockers (overwrites_channel lower snap category ch)
      = rp_blockers (edit_channel_part lower snap always_permits False category i ch)" for i ch
    using overwrites_channel_outcome [of lower snap category ch i] by (simp_all add: same_outcome_def)
  then show ?thesis
    using assms
    by (auto simp: overwrites_parts_def edit_parts_def edit_category_part_def with_category_def same_outcome_def
        comp_def split: lookup.splits option.splits)
qed

section \<open>Lookups only read identities\<close>

lemma filter_idents:
  assumes "map f xs = map f ys"
  shows "map f (filter (\<lambda>x. P (f x)) xs) = map f (filter (\<lambda>x. P (f x)) ys)"
proof -
  have "map f (filter (\<lambda>x. P (f x)) zs) = filter P (map f zs)" for zs
    by (simp add: filter_map comp_def)
  with assms show ?thesis by simp
qed

lemma lookup_of_idents: "map channel_ident xs = map channel_ident ys \<Longrightarrow> lookup_of xs = lookup_of ys"
  by (auto simp: lookup_of_def channel_ident_def map_eq_Cons_conv Cons_eq_map_conv split: list.splits
      dest: map_eq_imp_length_eq)

lemma lookups_same:
  assumes "same_idents s t"
  shows "lookup_role s name = lookup_role t name" "lookup_category s name = lookup_category t name"
    "lookup_channel lower s ch = lookup_channel lower t ch"
proof -
  have "map role_ident (roles_named s name) = map role_ident (roles_named t name)"
    using filter_idents [of role_ident "gs_roles s" "gs_roles t" "\<lambda>(_, n, _). n = name"] assms
    by (simp add: roles_named_def same_idents_def role_ident_def)
  then show "lookup_role s name = lookup_role t name"
    by (auto simp: lookup_role_def role_ident_def map_eq_Cons_conv Cons_eq_map_conv split: list.splits
        dest: map_eq_imp_length_eq)
  show "lookup_category s name = lookup_category t name"
    using filter_idents [of channel_ident "gs_channels s" "gs_channels t"
      "\<lambda>(_, n, k). k = ClassCategory \<and> eq_ignore_ascii_case (trim n) (trim name)"] assms
    by (auto simp: lookup_category_def categories_named_def same_idents_def channel_ident_def intro!: lookup_of_idents)
  show "lookup_channel lower s ch = lookup_channel lower t ch"
    using filter_idents [of channel_ident "gs_channels s" "gs_channels t"
      "\<lambda>(_, n, k). k = ClassKind (pch_kind ch)
         \<and> plan_channel_key lower n (pch_kind ch) = plan_channel_key lower (pch_name ch) (pch_kind ch)"] assms
    by (auto simp: lookup_channel_def channels_matching_def same_idents_def channel_ident_def intro!: lookup_of_idents)
qed

lemma find_by_id:
  "distinct (map f xs) \<Longrightarrow> x \<in> set xs \<Longrightarrow> find (\<lambda>y. f y = f x) xs = Some x"
  by (induction xs) (auto simp: image_iff)

lemma find_Some_mem: "find P xs = Some x \<Longrightarrow> x \<in> set xs \<and> P x"
  by (induction xs) (auto split: if_splits)

lemma found_role:
  assumes "snapshot_ok snap" and "lookup_role snap name = RoleFound i"
  obtains r where "role_by_id snap i = Some r" "rs_name r = name" "rs_id r = i" "r \<in> set (gs_roles snap)"
proof -
  from assms(2) obtain r where r: "roles_named snap name = [r]" "rs_id r = i" by (auto simp: lookup_role_Found)
  then have "r \<in> set (gs_roles snap)" "rs_name r = name"
    by (auto simp: roles_named_def dest: filter_single)
  with assms(1) r(2) that show thesis
    by (auto simp: role_by_id_def snapshot_ok_def dest: find_by_id)
qed

lemma found_category:
  assumes "snapshot_ok snap" and "lookup_category snap name = LookupFound i"
  obtains c where "channel_by_id snap i = Some c" "chs_id c = i" "chs_class c = ClassCategory"
    "folded_name (chs_name c) = folded_name name"
proof -
  from assms(2) obtain c where c: "categories_named snap name = [c]" "chs_id c = i"
    by (auto simp: lookup_category_def lookup_of_Found)
  then have "c \<in> set (gs_channels snap)" "chs_class c = ClassCategory" "folded_name (chs_name c) = folded_name name"
    by (auto simp: categories_named_def eq_ignore_ascii_case_def folded_name_def dest: filter_single)
  with assms(1) c(2) that show thesis
    by (auto simp: channel_by_id_def snapshot_ok_def dest: find_by_id)
qed

lemma found_channel:
  assumes "snapshot_ok snap" and "lookup_channel lower snap ch = LookupFound i"
  obtains c where "channel_by_id snap i = Some c" "chs_id c = i" "chs_class c = ClassKind (pch_kind ch)"
    "plan_channel_key lower (chs_name c) (pch_kind ch) = fst (channel_key lower ch)"
proof -
  from assms(2) obtain c where c: "channels_matching lower snap (pch_name ch) (pch_kind ch) = [c]" "chs_id c = i"
    by (auto simp: lookup_channel_def lookup_of_Found)
  then have "c \<in> set (gs_channels snap)" "chs_class c = ClassKind (pch_kind ch)"
    "plan_channel_key lower (chs_name c) (pch_kind ch) = fst (channel_key lower ch)"
    by (auto simp: channels_matching_def channel_key_def dest: filter_single)
  with assms(1) c(2) that show thesis
    by (auto simp: channel_by_id_def snapshot_ok_def dest: find_by_id)
qed

section \<open>Sites\<close>

definition site ::
  "(rstr \<Rightarrow> rstr) \<Rightarrow> guild_snapshot \<Rightarrow> plan_category list \<Rightarrow> server_target \<Rightarrow> overwrite list \<Rightarrow> u64 \<Rightarrow> bool" where
  "site lower snap categories target planned i \<longleftrightarrow> (\<exists>cat \<in> set categories.
     target = OnCategory (pc_name cat) \<and> planned = pc_overwrites cat \<and> lookup_category snap (pc_name cat) = LookupFound i
     \<or> (\<exists>ch \<in> set (pc_channels cat). target = channel_target ch \<and> planned = effective_overwrites cat ch
          \<and> lookup_channel lower snap ch = LookupFound i))"

definition edit_plan_ok :: "(rstr \<Rightarrow> rstr) \<Rightarrow> server_plan \<Rightarrow> plan_category list \<Rightarrow> bool" where
  "edit_plan_ok lower plan categories \<longleftrightarrow> distinct (map category_key categories)
     \<and> distinct (map (channel_key lower) (concat (map pc_channels categories)))
     \<and> (\<forall>c \<in> set categories. overwrites_ok plan (pc_overwrites c) \<and> list_all (channel_ok lower plan) (pc_channels c))"

lemma concat_unique:
  "distinct (map f (concat (map g xs))) \<Longrightarrow> a \<in> set xs \<Longrightarrow> x \<in> set (g a) \<Longrightarrow> b \<in> set xs \<Longrightarrow> y \<in> set (g b)
     \<Longrightarrow> f x = f y \<Longrightarrow> x = y \<and> a = b"
proof (induction xs)
  case (Cons c xs)
  have disj: "f ` set (g c) \<inter> f ` set (concat (map g xs)) = {}" and dist: "distinct (map f (g c))"
    "distinct (map f (concat (map g xs)))"
    using Cons.prems(1) by auto
  have "f z \<in> f ` set (concat (map g xs))" if "d \<in> set xs" "z \<in> set (g d)" for d z using that by auto
  then have apart: "f z \<noteq> f w" if "d \<in> set xs" "z \<in> set (g d)" "w \<in> set (g c)" for d z w
    using disj that by blast
  consider "a = c" "b = c" | "a = c" "b \<in> set xs" | "a \<in> set xs" "b = c" | "a \<in> set xs" "b \<in> set xs"
    using Cons.prems(2,4) by auto
  then show ?case
  proof cases
    case 1
    with Cons.prems(3,5,6) dist(1) show ?thesis by (auto simp: distinct_map inj_on_def)
  next
    case 2
    with Cons.prems(3,5,6) apart [of b y x] show ?thesis by simp
  next
    case 3
    with Cons.prems(3,5,6) apart [of a x y] show ?thesis by simp
  next
    case 4
    with Cons.IH [OF dist(2)] Cons.prems(3,5,6) show ?thesis by simp
  qed
qed simp

lemma channel_unique:
  assumes "edit_plan_ok lower plan categories" and "snapshot_ok snap"
    and "cat \<in> set categories" "ch \<in> set (pc_channels cat)" "lookup_channel lower snap ch = LookupFound i"
    and "cat' \<in> set categories" "ch' \<in> set (pc_channels cat')" "lookup_channel lower snap ch' = LookupFound i"
  shows "ch = ch' \<and> cat = cat'"
proof -
  from assms(2,5) obtain c where c: "channel_by_id snap i = Some c" "chs_class c = ClassKind (pch_kind ch)"
    "plan_channel_key lower (chs_name c) (pch_kind ch) = fst (channel_key lower ch)" by (rule found_channel)
  from assms(2,8) obtain c' where c': "channel_by_id snap i = Some c'" "chs_class c' = ClassKind (pch_kind ch')"
    "plan_channel_key lower (chs_name c') (pch_kind ch') = fst (channel_key lower ch')" by (rule found_channel)
  from c c' have "channel_key lower ch = channel_key lower ch'" by (simp add: channel_key_def)
  with assms(1,3,4,6,7) show ?thesis unfolding edit_plan_ok_def by (blast dest: concat_unique)
qed

lemma category_unique:
  assumes "edit_plan_ok lower plan categories" and "snapshot_ok snap"
    and "cat \<in> set categories" "lookup_category snap (pc_name cat) = LookupFound i"
    and "cat' \<in> set categories" "lookup_category snap (pc_name cat') = LookupFound i"
  shows "cat = cat'"
proof -
  from assms(2,4) obtain c where c: "channel_by_id snap i = Some c"
    "folded_name (chs_name c) = folded_name (pc_name cat)" by (rule found_category)
  from assms(2,6) obtain c' where c': "channel_by_id snap i = Some c'"
    "folded_name (chs_name c') = folded_name (pc_name cat')" by (rule found_category)
  from c c' have "category_key cat = category_key cat'" by (simp add: category_key_def folded_name_def)
  with assms(1,3,5) show ?thesis by (auto simp: edit_plan_ok_def distinct_map inj_on_def)
qed

lemma category_is_no_channel:
  assumes "snapshot_ok snap" "lookup_category snap name = LookupFound i"
  shows "lookup_channel lower snap ch \<noteq> LookupFound i"
  using assms(1,2) by (elim found_category) (auto elim: found_channel [OF assms(1)])

lemma site_unique:
  assumes "edit_plan_ok lower plan categories" and "snapshot_ok snap"
    and "site lower snap categories target planned i" and "site lower snap categories target' planned' i"
  shows "target = target' \<and> planned = planned'"
  using assms(3,4) channel_unique [OF assms(1,2)] category_unique [OF assms(1,2)] category_is_no_channel [OF assms(2)]
  unfolding site_def by metis

lemma site_overwrites:
  assumes "edit_plan_ok lower plan categories" and "site lower snap categories target planned i"
  shows "overwrites_ok plan planned"
  using assms by (auto simp: edit_plan_ok_def site_def effective_overwrites_def channel_ok_def list_all_iff)

text \<open>The role an overwrite of a plan lands on.\<close>

definition role_target :: "guild_snapshot \<Rightarrow> rstr \<Rightarrow> u64 option" where
  "role_target snap name =
     (if name = everyone_name then Some (gs_guild snap)
      else case lookup_role snap name of RoleFound i \<Rightarrow> Some i | _ \<Rightarrow> None)"

lemma role_target_inj:
  assumes "snapshot_ok snap" and "role_target snap m = Some i" and "role_target snap n = Some i"
  shows "m = n"
proof -
  have named: "name = rs_name r" if "role_target snap name = Some i" "name \<noteq> everyone_name" "role_by_id snap i = Some r" for name r
    using that by (auto simp: role_target_def split: role_lookup.splits elim: found_role [OF assms(1)])
  have base: "name = everyone_name" if "role_target snap name = Some (gs_guild snap)" for name
  proof (rule ccontr)
    assume "name \<noteq> everyone_name"
    with that obtain r where "lookup_role snap name = RoleFound (gs_guild snap)"
      by (auto simp: role_target_def split: role_lookup.splits)
    then obtain r where "rs_name r = name" "rs_id r = gs_guild snap" "r \<in> set (gs_roles snap)"
      by (elim found_role [OF assms(1)]) auto
    with assms(1) \<open>name \<noteq> everyone_name\<close> show False by (auto simp: snapshot_ok_def list_all_iff)
  qed
  show ?thesis
  proof (cases "m = everyone_name \<or> n = everyone_name")
    case True
    with assms(2,3) have "i = gs_guild snap" by (auto simp: role_target_def)
    with assms(2,3) base [of m] base [of n] show ?thesis by simp
  next
    case False
    with assms(2) obtain r where "role_by_id snap i = Some r"
      by (auto simp: role_target_def split: role_lookup.splits elim: found_role [OF assms(1)])
    with False assms named show ?thesis by blast
  qed
qed

section \<open>What edits do to one role or channel\<close>

fun role_edit :: "guild_op \<Rightarrow> u64 \<Rightarrow> role_state \<Rightarrow> role_state" where
  "role_edit (OpEditRole j hoist mentionable colour) i =
     (if j = i then (\<lambda>r. r\<lparr>rs_hoist := hoist, rs_mentionable := mentionable, rs_colour := colour_or_zero colour\<rparr>) else id)"
| "role_edit _ i = id"

fun channel_edit :: "guild_op \<Rightarrow> u64 \<Rightarrow> channel_state \<Rightarrow> channel_state" where
  "channel_edit (OpEditChannel j parent topic) i = (if j = i then edit_channel parent topic else id)"
| "channel_edit (OpSetOverwrite j role_id allow deny) i =
     (if j = i then (\<lambda>c. c\<lparr>chs_overwrites := put_overwrite role_id allow deny (chs_overwrites c)\<rparr>) else id)"
| "channel_edit _ i = id"

lemma role_by_id_effect:
  "is_edit op' \<Longrightarrow> role_by_id (op_effect lower op' n s) i = map_option (role_edit op' i) (role_by_id s i)"
  by (cases op') (auto simp: is_edit_def role_by_id_def option.map_id find_update_first intro!: find_update_other)

lemma channel_by_id_effect:
  "is_edit op' \<Longrightarrow> channel_by_id (op_effect lower op' n s) i = map_option (channel_edit op' i) (channel_by_id s i)"
  by (cases op') (auto simp: is_edit_def channel_by_id_def option.map_id find_update_first intro!: find_update_other)

definition edited :: "(rstr \<Rightarrow> rstr) \<Rightarrow> guild_op list \<Rightarrow> guild_snapshot \<Rightarrow> guild_snapshot" where
  "edited lower ops s = fold (\<lambda>op'. op_effect lower op' 0) ops s"

lemma edited_facts:
  assumes "list_all is_edit ops"
  shows "same_idents s (edited lower ops s)"
    "role_by_id (edited lower ops s) i = map_option (fold (\<lambda>op'. role_edit op' i) ops) (role_by_id s i)"
    "channel_by_id (edited lower ops s) i = map_option (fold (\<lambda>op'. channel_edit op' i) ops) (channel_by_id s i)"
proof -
  have "same_idents s (edited lower ops s)
    \<and> role_by_id (edited lower ops s) i = map_option (fold (\<lambda>op'. role_edit op' i) ops) (role_by_id s i)
    \<and> channel_by_id (edited lower ops s) i = map_option (fold (\<lambda>op'. channel_edit op' i) ops) (channel_by_id s i)"
    using assms
  proof (induction ops arbitrary: s)
    case Nil
    then show ?case by (simp add: edited_def option.map_id0 [unfolded id_def])
  next
    case (Cons op' ops)
    then have e: "is_edit op'" "list_all is_edit ops" by auto
    from Cons.IH [OF e(2), of "op_effect lower op' 0 s"] edit_idents [OF e(1), of s lower 0] show ?case
      by (auto simp: edited_def role_by_id_effect [OF e(1)] channel_by_id_effect [OF e(1)] option.map_comp comp_def
          intro: same_idents_trans)
  qed
  then show "same_idents s (edited lower ops s)"
    "role_by_id (edited lower ops s) i = map_option (fold (\<lambda>op'. role_edit op' i) ops) (role_by_id s i)"
    "channel_by_id (edited lower ops s) i = map_option (fold (\<lambda>op'. channel_edit op' i) ops) (channel_by_id s i)"
    by blast+
qed

text \<open>An attribute nothing touches is kept; one that every operation sets to the same value,
  or leaves alone, ends with that value as soon as it has it.\<close>

lemma fold_untouched:
  "(\<And>op' x. op' \<in> set ops \<Longrightarrow> a (f op' x) = a x) \<Longrightarrow> a (fold f ops x) = a x"
  by (induction ops arbitrary: x) auto

lemma fold_settled:
  assumes "\<And>op' x. op' \<in> set ops \<Longrightarrow> a (f op' x) = v \<or> a (f op' x) = a x"
    and "a x = v \<or> (\<exists>op' \<in> set ops. \<forall>x. a (f op' x) = v)"
  shows "a (fold f ops x) = v"
  using assms
proof (induction ops arbitrary: x)
  case (Cons op' ops)
  have "a (f op' x) = v \<or> (\<exists>q \<in> set ops. \<forall>x. a (f q x) = v)"
    using Cons.prems(1) [of op' x] Cons.prems(2) by auto
  with Cons show ?case by simp
qed simp

lemma put_overwrite_find:
  "find (\<lambda>o'. ows_target o' = TargetRole i) (put_overwrite j allow deny os) =
     (if i = j then Some \<lparr>ows_target = TargetRole j, ows_allow = allow, ows_deny = deny\<rparr>
      else find (\<lambda>o'. ows_target o' = TargetRole i) os)"
proof (cases "list_ex (\<lambda>o'. ows_target o' = TargetRole j) os")
  case True
  then obtain o' where o': "find (\<lambda>o'. ows_target o' = TargetRole j) os = Some o'"
    by (metis find_None_iff list_ex_iff not_Some_eq)
  then have "ows_target o' = TargetRole j" by (auto dest: find_Some_mem)
  with True o' show ?thesis
    by (cases "i = j") (auto simp: put_overwrite_def find_update_first intro!: find_update_other)
next
  case False
  then have "find (\<lambda>o'. ows_target o' = TargetRole j) os = None" by (auto simp: find_None_iff list_ex_iff)
  with False show ?thesis by (auto simp: put_overwrite_def find_append split: option.splits)
qed

lemma overwrite_for_role_edit:
  "overwrite_for_role (channel_edit op' i c) role_id =
     (case op' of OpSetOverwrite j r allow deny \<Rightarrow>
        if j = i \<and> r = role_id then Some \<lparr>ows_target = TargetRole r, ows_allow = allow, ows_deny = deny\<rparr>
        else overwrite_for_role c role_id
      | _ \<Rightarrow> overwrite_for_role c role_id)"
  by (cases op') (auto simp: overwrite_for_role_def put_overwrite_find)

lemma overwrites_grow: "length (chs_overwrites c) \<le> length (chs_overwrites (fold (\<lambda>op'. channel_edit op' i) ops c))"
proof (induction ops arbitrary: c)
  case (Cons op' ops)
  have "length (chs_overwrites c) \<le> length (chs_overwrites (channel_edit op' i c))"
    by (cases op') (auto simp: put_overwrite_def)
  with Cons show ?case by (auto intro: order_trans)
qed simp

text \<open>Edits that do not touch the base role's entry hide nothing.\<close>

lemma hidden_only_before:
  assumes "is_engine_hidden (fold (\<lambda>op'. channel_edit op' i) ops c) guild"
    and "overwrite_for_role (fold (\<lambda>op'. channel_edit op' i) ops c) guild = overwrite_for_role c guild"
  shows "is_engine_hidden c guild"
proof -
  let ?d = "fold (\<lambda>op'. channel_edit op' i) ops c"
  from assms(1) obtain only where only: "chs_overwrites ?d = [only]" "ows_target only = TargetRole guild"
    "ows_allow only = [] \<and> sorted_unique (ows_deny only) = [view_channel]"
    by (auto simp: is_engine_hidden_def split: list.splits)
  then have entry: "overwrite_for_role c guild = Some only" using assms(2) by (simp add: overwrite_for_role_def)
  with overwrites_grow [of c i ops] only(1) obtain x where "chs_overwrites c = [x]"
    by (cases "chs_overwrites c") (auto simp: overwrite_for_role_def)
  with entry only(2,3) show ?thesis by (auto simp: is_engine_hidden_def overwrite_for_role_def split: if_splits)
qed

section \<open>The changes of a clear edit report\<close>

definition edit_case ::
  "(rstr \<Rightarrow> rstr) \<Rightarrow> server_plan \<Rightarrow> guild_snapshot \<Rightarrow> (overwrite option \<Rightarrow> overwrite \<Rightarrow> bool \<Rightarrow> bool) \<Rightarrow> bool
     \<Rightarrow> plan_role list \<Rightarrow> plan_category list \<Rightarrow> bool" where
  "edit_case lower plan snap permits moving roles categories \<longleftrightarrow> snapshot_ok snap
     \<and> edit_plan_ok lower plan categories \<and> distinct (map pr_name roles)
     \<and> (\<forall>role \<in> set roles. pr_name role \<noteq> everyone_name)
     \<and> (permits = reveal_permits \<or> permits = always_permits)
     \<and> rp_blockers (edit_parts lower snap permits moving roles categories) = []"

definition pushes ::
  "guild_snapshot \<Rightarrow> channel_state \<Rightarrow> (overwrite option \<Rightarrow> overwrite \<Rightarrow> bool \<Rightarrow> bool) \<Rightarrow> overwrite \<Rightarrow> u64 \<Rightarrow> bool" where
  "pushes snap state permits o' role_id \<longleftrightarrow>
     (let current = map_option (state_overwrite (ow_role o')) (overwrite_for_role state role_id)
      in \<not> (current = Some o' \<or> current = None \<and> ow_is_empty o')
         \<and> permits current o' (is_engine_hidden state (gs_guild snap)))"

lemma one_overwrite_outcome:
  "rp_changes (one_overwrite snap target state permits o' role_id) =
     (if pushes snap state permits o' role_id then [SetOverwrite target o'] else [])"
  "rp_blockers (one_overwrite snap target state permits o' role_id) = []"
  unfolding one_overwrite_def pushes_def Let_def by simp_all

lemma overwrite_part_outcome:
  "rp_changes (overwrite_part snap target state permits o') =
     (case role_target snap (ow_role o') of None \<Rightarrow> []
      | Some role_id \<Rightarrow> if pushes snap state permits o' role_id then [SetOverwrite target o'] else [])"
  "rp_blockers (overwrite_part snap target state permits o') = [] \<longleftrightarrow> role_target snap (ow_role o') \<noteq> None"
  by (cases "lookup_role snap (ow_role o')"; simp add: overwrite_part_def role_target_def one_overwrite_outcome)+

lemma reveal_role_clear:
  assumes "snapshot_ok snap" and "rp_blockers (reveal_role snap role) = []"
  obtains i r where "lookup_role snap (pr_name role) = RoleFound i" "role_by_id snap i = Some r" "rs_id r = i"
    "rp_changes (reveal_role snap role) =
       (if rs_hoist r = pr_hoist role \<and> rs_mentionable r = pr_mentionable role
           \<and> rs_colour r = colour_or_zero (pr_colour role) then []
        else [EditRole (pr_name role) (pr_hoist role) (pr_mentionable role) (pr_colour role)])"
proof (cases "lookup_role snap (pr_name role)")
  case (RoleFound i)
  from found_role [OF assms(1) RoleFound] obtain r where r: "role_by_id snap i = Some r" "rs_id r = i" by blast
  show thesis
    by (rule that [OF RoleFound r]) (use assms(2) RoleFound r(1) in \<open>auto simp: reveal_role_def split: if_splits\<close>)
qed (use assms(2) in \<open>simp_all add: reveal_role_def\<close>)

lemma with_category_clear:
  assumes "snapshot_ok snap" and "rp_blockers (with_category snap category f) = []"
  obtains i c where "lookup_category snap (pc_name category) = LookupFound i" "channel_by_id snap i = Some c"
    "with_category snap category f = f i c"
proof (cases "lookup_category snap (pc_name category)")
  case (LookupFound i)
  from found_category [OF assms(1) LookupFound] obtain c where "channel_by_id snap i = Some c" by blast
  with LookupFound that show thesis by (simp add: with_category_def)
qed (use assms(2) in \<open>simp_all add: with_category_def\<close>)

lemma with_channel_clear:
  assumes "snapshot_ok snap" and "rp_blockers (with_channel lower snap channel f) = []"
  obtains i c where "lookup_channel lower snap channel = LookupFound i" "channel_by_id snap i = Some c"
    "with_channel lower snap channel f = f c"
proof (cases "lookup_channel lower snap channel")
  case (LookupFound i)
  from found_channel [OF assms(1) LookupFound] obtain c where "channel_by_id snap i = Some c" by blast
  with LookupFound that show thesis by (simp add: with_channel_def)
qed (use assms(2) in \<open>simp_all add: with_channel_def\<close>)

text \<open>The move of a channel, and the overwrites of a site, as the report lists them.\<close>

definition move_changes ::
  "guild_snapshot \<Rightarrow> bool \<Rightarrow> plan_category \<Rightarrow> u64 \<Rightarrow> plan_channel \<Rightarrow> channel_state \<Rightarrow> server_change list" where
  "move_changes snap moving category category_id channel state =
     (if moving \<and> (chs_parent state \<noteq> Some category_id \<or> topic_differs channel state)
      then [EditChannel (pch_name channel) (pch_kind channel) (pc_name category) (planned_topic channel state)] else [])"

lemma edit_channel_clear:
  assumes "snapshot_ok snap"
    and "rp_blockers (edit_channel_part lower snap permits moving category category_id channel) = []"
  obtains i c where "lookup_channel lower snap channel = LookupFound i" "channel_by_id snap i = Some c"
    "rp_blockers (overwrite_changes snap (channel_target channel) (effective_overwrites category channel) c permits) = []"
    "rp_changes (edit_channel_part lower snap permits moving category category_id channel)
       = move_changes snap moving category category_id channel c
         @ rp_changes (overwrite_changes snap (channel_target channel) (effective_overwrites category channel) c permits)"
proof -
  note clear = assms(2) [unfolded edit_channel_part_def]
  obtain i c where found: "lookup_channel lower snap channel = LookupFound i" "channel_by_id snap i = Some c"
    and eq: "edit_channel_part lower snap permits moving category category_id channel = gather
       [if moving \<and> (chs_parent c \<noteq> Some category_id \<or> topic_differs channel c)
        then push_change (EditChannel (pch_name channel) (pch_kind channel) (pc_name category) (planned_topic channel c))
        else no_parts,
        overwrite_changes snap (channel_target channel) (effective_overwrites category channel) c permits]"
    by (rule with_channel_clear [OF assms(1) clear]) (simp add: edit_channel_part_def)
  show thesis by (rule that [OF found]) (use assms(2) in \<open>simp_all add: eq move_changes_def\<close>)
qed

lemma edit_category_clear:
  assumes "snapshot_ok snap" and "rp_blockers (edit_category_part lower snap permits moving category) = []"
  obtains i c where "lookup_category snap (pc_name category) = LookupFound i" "channel_by_id snap i = Some c"
    "rp_blockers (overwrite_changes snap (OnCategory (pc_name category)) (pc_overwrites category) c permits) = []"
    "\<forall>channel \<in> set (pc_channels category).
       rp_blockers (edit_channel_part lower snap permits moving category i channel) = []"
    "rp_changes (edit_category_part lower snap permits moving category)
       = rp_changes (overwrite_changes snap (OnCategory (pc_name category)) (pc_overwrites category) c permits)
         @ concat (map (\<lambda>channel. rp_changes (edit_channel_part lower snap permits moving category i channel))
             (pc_channels category))"
proof -
  note clear = assms(2) [unfolded edit_category_part_def]
  obtain i c where found: "lookup_category snap (pc_name category) = LookupFound i" "channel_by_id snap i = Some c"
    and eq: "edit_category_part lower snap permits moving category = gather
       (overwrite_changes snap (OnCategory (pc_name category)) (pc_overwrites category) c permits
        # map (edit_channel_part lower snap permits moving category i) (pc_channels category))"
    by (rule with_category_clear [OF assms(1) clear]) (simp add: edit_category_part_def)
  show thesis by (rule that [OF found]) (use assms(2) in \<open>simp_all add: eq comp_def\<close>)
qed

lemma case_role:
  "edit_case lower plan snap permits moving roles categories \<Longrightarrow> role \<in> set roles \<Longrightarrow>
     rp_blockers (reveal_role snap role) = []
     \<and> set (rp_changes (reveal_role snap role)) \<subseteq> set (rp_changes (edit_parts lower snap permits moving roles categories))"
  by (auto simp: edit_case_def edit_parts_def)

lemma case_category:
  "edit_case lower plan snap permits moving roles categories \<Longrightarrow> category \<in> set categories \<Longrightarrow>
     rp_blockers (edit_category_part lower snap permits moving category) = []
     \<and> set (rp_changes (edit_category_part lower snap permits moving category))
         \<subseteq> set (rp_changes (edit_parts lower snap permits moving roles categories))"
  by (auto simp: edit_case_def edit_parts_def)

lemma case_channel:
  assumes ec: "edit_case lower plan snap permits moving roles categories" and cat: "category \<in> set categories"
    and ch: "channel \<in> set (pc_channels category)"
  obtains category_id i c where "lookup_category snap (pc_name category) = LookupFound category_id"
    "lookup_channel lower snap channel = LookupFound i" "channel_by_id snap i = Some c"
    "rp_blockers (overwrite_changes snap (channel_target channel) (effective_overwrites category channel) c permits) = []"
    "set (move_changes snap moving category category_id channel c)
       \<subseteq> set (rp_changes (edit_parts lower snap permits moving roles categories))"
    "set (rp_changes (overwrite_changes snap (channel_target channel) (effective_overwrites category channel) c permits))
       \<subseteq> set (rp_changes (edit_parts lower snap permits moving roles categories))"
proof -
  have ok: "snapshot_ok snap" using ec by (simp add: edit_case_def)
  note part = case_category [OF ec cat]
  from edit_category_clear [OF ok conjunct1 [OF part]] obtain j d where j: "lookup_category snap (pc_name category) = LookupFound j"
    and parts: "\<forall>channel \<in> set (pc_channels category). rp_blockers (edit_channel_part lower snap permits moving category j channel) = []"
    and changes: "rp_changes (edit_category_part lower snap permits moving category)
         = rp_changes (overwrite_changes snap (OnCategory (pc_name category)) (pc_overwrites category) d permits)
           @ concat (map (\<lambda>channel. rp_changes (edit_channel_part lower snap permits moving category j channel))
               (pc_channels category))" by metis
  from parts ch have "rp_blockers (edit_channel_part lower snap permits moving category j channel) = []" by blast
  from edit_channel_clear [OF ok this] obtain i c where c: "lookup_channel lower snap channel = LookupFound i"
    "channel_by_id snap i = Some c"
    "rp_blockers (overwrite_changes snap (channel_target channel) (effective_overwrites category channel) c permits) = []"
    "rp_changes (edit_channel_part lower snap permits moving category j channel)
       = move_changes snap moving category j channel c
         @ rp_changes (overwrite_changes snap (channel_target channel) (effective_overwrites category channel) c permits)"
    by metis
  have "set (rp_changes (edit_channel_part lower snap permits moving category j channel))
      \<subseteq> set (rp_changes (edit_parts lower snap permits moving roles categories))"
    using part changes ch by auto
  with c that [OF j c(1-3)] show thesis by simp
qed

lemma case_site:
  assumes ec: "edit_case lower plan snap permits moving roles categories"
    and site: "site lower snap categories target planned i"
  obtains c where "channel_by_id snap i = Some c" "rp_blockers (overwrite_changes snap target planned c permits) = []"
    "set (rp_changes (overwrite_changes snap target planned c permits))
       \<subseteq> set (rp_changes (edit_parts lower snap permits moving roles categories))"
proof -
  have ok: "snapshot_ok snap" using ec by (simp add: edit_case_def)
  from site obtain cat where cat: "cat \<in> set categories" and what:
    "target = OnCategory (pc_name cat) \<and> planned = pc_overwrites cat \<and> lookup_category snap (pc_name cat) = LookupFound i
     \<or> (\<exists>ch \<in> set (pc_channels cat). target = channel_target ch \<and> planned = effective_overwrites cat ch
          \<and> lookup_channel lower snap ch = LookupFound i)" unfolding site_def by blast
  from what show thesis
  proof
    assume t: "target = OnCategory (pc_name cat) \<and> planned = pc_overwrites cat \<and> lookup_category snap (pc_name cat) = LookupFound i"
    note part = case_category [OF ec cat]
    from edit_category_clear [OF ok conjunct1 [OF part]] obtain j d where "lookup_category snap (pc_name cat) = LookupFound j"
      "channel_by_id snap j = Some d"
      "rp_blockers (overwrite_changes snap (OnCategory (pc_name cat)) (pc_overwrites cat) d permits) = []"
      "set (rp_changes (overwrite_changes snap (OnCategory (pc_name cat)) (pc_overwrites cat) d permits))
         \<subseteq> set (rp_changes (edit_category_part lower snap permits moving cat))" by (metis Un_upper1 set_append)
    with t part that [of d] show thesis by auto
  next
    assume "\<exists>ch \<in> set (pc_channels cat). target = channel_target ch \<and> planned = effective_overwrites cat ch
        \<and> lookup_channel lower snap ch = LookupFound i"
    then obtain ch where ch: "ch \<in> set (pc_channels cat)" "target = channel_target ch"
      "planned = effective_overwrites cat ch" "lookup_channel lower snap ch = LookupFound i" by blast
    from case_channel [OF ec cat ch(1)] ch(4) obtain c where "channel_by_id snap i = Some c"
      "rp_blockers (overwrite_changes snap target planned c permits) = []"
      "set (rp_changes (overwrite_changes snap target planned c permits))
         \<subseteq> set (rp_changes (edit_parts lower snap permits moving roles categories))"
      unfolding ch(2,3) by (metis lookup.inject(1))
    with that show thesis by blast
  qed
qed

section \<open>The operations of a clear edit report\<close>

definition planned_op ::
  "(rstr \<Rightarrow> rstr) \<Rightarrow> guild_snapshot \<Rightarrow> (overwrite option \<Rightarrow> overwrite \<Rightarrow> bool \<Rightarrow> bool) \<Rightarrow> plan_role list
     \<Rightarrow> plan_category list \<Rightarrow> guild_op \<Rightarrow> bool" where
  "planned_op lower snap permits roles categories op' \<longleftrightarrow>
     (\<exists>role \<in> set roles. \<exists>i. lookup_role snap (pr_name role) = RoleFound i
        \<and> op' = OpEditRole i (pr_hoist role) (pr_mentionable role) (pr_colour role))
     \<or> (\<exists>cat \<in> set categories. \<exists>ch \<in> set (pc_channels cat). \<exists>category_id i c.
          lookup_category snap (pc_name cat) = LookupFound category_id \<and> lookup_channel lower snap ch = LookupFound i
          \<and> channel_by_id snap i = Some c \<and> (chs_parent c \<noteq> Some category_id \<or> topic_differs ch c)
          \<and> op' = OpEditChannel i (Some category_id) (planned_topic ch c))
     \<or> (\<exists>target planned i c o' role_id. site lower snap categories target planned i \<and> channel_by_id snap i = Some c
          \<and> o' \<in> set (wanted_overwrites snap planned c) \<and> role_target snap (ow_role o') = Some role_id
          \<and> pushes snap c permits o' role_id \<and> op' = OpSetOverwrite i role_id (ow_allow o') (ow_deny o'))"

lemma resolve_target:
  assumes "site lower snap categories target planned i"
  shows "index_target lower (index_from_snapshot lower snap) target = Inr i"
  using assms
  by (auto simp: site_def index_target_def index_category_def index_category_found index_channel_found channel_target_def)

lemma resolve_role:
  "role_target snap name = Some i \<Longrightarrow> index_role (index_from_snapshot lower snap) name = Inr i"
  by (auto simp: role_target_def index_role_found split: if_splits role_lookup.splits)
    (simp add: index_role_def index_from_snapshot_def)

lemma change_op:
  assumes ec: "edit_case lower plan snap permits moving roles categories"
    and change: "change \<in> set (rp_changes (edit_parts lower snap permits moving roles categories))"
  shows "\<exists>op'. resolve_change lower (index_from_snapshot lower snap) change = Inr op'
    \<and> planned_op lower snap permits roles categories op'"
proof -
  have ok: "snapshot_ok snap" using ec by (simp add: edit_case_def)
  let ?ix = "index_from_snapshot lower snap"
  let ?goal = "\<exists>op'. resolve_change lower ?ix change = Inr op' \<and> planned_op lower snap permits roles categories op'"
  have at_site: ?goal if site: "site lower snap categories target planned i"
    and c: "channel_by_id snap i = Some c"
    and mem: "change \<in> set (rp_changes (overwrite_changes snap target planned c permits))" for target planned i c
  proof -
    from mem obtain o' where o': "o' \<in> set (wanted_overwrites snap planned c)"
      "change \<in> set (rp_changes (overwrite_part snap target c permits o'))" by (auto simp: overwrite_changes_def)
    then obtain role_id where r: "role_target snap (ow_role o') = Some role_id" "pushes snap c permits o' role_id"
      "change = SetOverwrite target o'"
      by (cases "role_target snap (ow_role o')") (simp_all add: overwrite_part_outcome split: if_splits)
    then have "resolve_change lower ?ix change = Inr (OpSetOverwrite i role_id (ow_allow o') (ow_deny o'))"
      by (simp add: resolve_target [OF site] resolve_role)
    with site c o'(1) r show ?goal unfolding planned_op_def by blast
  qed
  from change consider (role) role where "role \<in> set roles" "change \<in> set (rp_changes (reveal_role snap role))"
    | (category) cat where "cat \<in> set categories" "change \<in> set (rp_changes (edit_category_part lower snap permits moving cat))"
    by (auto simp: edit_parts_def)
  then show ?goal
  proof cases
    case role
    obtain i r where i: "lookup_role snap (pr_name role) = RoleFound i" and "role_by_id snap i = Some r" "rs_id r = i"
      and part: "rp_changes (reveal_role snap role) =
       (if rs_hoist r = pr_hoist role \<and> rs_mentionable r = pr_mentionable role
           \<and> rs_colour r = colour_or_zero (pr_colour role) then []
        else [EditRole (pr_name role) (pr_hoist role) (pr_mentionable role) (pr_colour role)])"
      by (rule reveal_role_clear [OF ok conjunct1 [OF case_role [OF ec role(1)]]])
    from role(2) have edit: "change = EditRole (pr_name role) (pr_hoist role) (pr_mentionable role) (pr_colour role)"
      unfolding part by (simp split: if_splits)
    from ec role(1) have "pr_name role \<noteq> everyone_name" by (simp add: edit_case_def)
    with i edit have "resolve_change lower ?ix change = Inr (OpEditRole i (pr_hoist role) (pr_mentionable role) (pr_colour role))"
      by (simp add: index_role_found)
    with role(1) i show ?goal unfolding planned_op_def by blast
  next
    case category
    from edit_category_clear [OF ok conjunct1 [OF case_category [OF ec category(1)]]] obtain j d where
      d: "lookup_category snap (pc_name cat) = LookupFound j" "channel_by_id snap j = Some d"
        "\<forall>channel \<in> set (pc_channels cat). rp_blockers (edit_channel_part lower snap permits moving cat j channel) = []"
        "rp_changes (edit_category_part lower snap permits moving cat)
         = rp_changes (overwrite_changes snap (OnCategory (pc_name cat)) (pc_overwrites cat) d permits)
           @ concat (map (\<lambda>channel. rp_changes (edit_channel_part lower snap permits moving cat j channel)) (pc_channels cat))"
      by metis
    from category(2) d(4) consider
      "change \<in> set (rp_changes (overwrite_changes snap (OnCategory (pc_name cat)) (pc_overwrites cat) d permits))"
      | ch where "ch \<in> set (pc_channels cat)" "change \<in> set (rp_changes (edit_channel_part lower snap permits moving cat j ch))"
      by auto
    then show ?goal
    proof cases
      case 1
      from category(1) d(1) have "site lower snap categories (OnCategory (pc_name cat)) (pc_overwrites cat) j"
        unfolding site_def by blast
      from at_site [OF this d(2) 1] show ?goal .
    next
      case 2
      from edit_channel_clear [OF ok bspec [OF d(3) 2(1)]] 2(2) obtain i c where
        c: "lookup_channel lower snap ch = LookupFound i" "channel_by_id snap i = Some c"
          "change \<in> set (move_changes snap moving cat j ch c)
           \<or> change \<in> set (rp_changes (overwrite_changes snap (channel_target ch) (effective_overwrites cat ch) c permits))"
        by (metis Un_iff set_append)
      from category(1) 2(1) c(1) have site: "site lower snap categories (channel_target ch) (effective_overwrites cat ch) i"
        unfolding site_def by blast
      show ?goal
      proof (cases "change \<in> set (move_changes snap moving cat j ch c)")
        case True
        then have m: "change = EditChannel (pch_name ch) (pch_kind ch) (pc_name cat) (planned_topic ch c)"
          "chs_parent c \<noteq> Some j \<or> topic_differs ch c" by (auto simp: move_changes_def split: if_splits)
        then have "resolve_change lower ?ix change = Inr (OpEditChannel i (Some j) (planned_topic ch c))"
          using c(1) d(1) by (simp add: index_channel_found index_category_def index_category_found)
        with category(1) 2(1) c(1,2) d(1) m(2) show ?goal unfolding planned_op_def by blast
      next
        case False
        with c(3) at_site [OF site c(2)] show ?goal by blast
      qed
    qed
  qed
qed

lemma planned_op_possible:
  assumes ok: "snapshot_ok snap" and "planned_op lower snap permits roles categories op'"
  shows "is_edit op' \<and> op_possible op' snap = Inr ()"
proof -
  have role: "list_ex (\<lambda>r. rs_id r = i) (gs_roles snap)" if "lookup_role snap name = RoleFound i" for name i
    by (rule found_role [OF ok that]) (auto simp: list_ex_iff)
  have channel: "list_ex (\<lambda>c. chs_id c = i) (gs_channels snap)" if "channel_by_id snap i = Some c" for i c
    using that by (auto simp: channel_by_id_def list_ex_iff dest!: find_Some_mem)
  from assms(2) [unfolded planned_op_def] show ?thesis
  proof (elim disjE)
    assume "\<exists>role \<in> set roles. \<exists>i. lookup_role snap (pr_name role) = RoleFound i
        \<and> op' = OpEditRole i (pr_hoist role) (pr_mentionable role) (pr_colour role)"
    then show ?thesis by (elim bexE exE conjE) (simp add: is_edit_def role)
  next
    assume "\<exists>cat \<in> set categories. \<exists>ch \<in> set (pc_channels cat). \<exists>category_id i c.
          lookup_category snap (pc_name cat) = LookupFound category_id \<and> lookup_channel lower snap ch = LookupFound i
          \<and> channel_by_id snap i = Some c \<and> (chs_parent c \<noteq> Some category_id \<or> topic_differs ch c)
          \<and> op' = OpEditChannel i (Some category_id) (planned_topic ch c)"
    then show ?thesis by (elim bexE exE conjE) (simp add: is_edit_def channel)
  next
    assume "\<exists>target planned i c o' role_id. site lower snap categories target planned i \<and> channel_by_id snap i = Some c
          \<and> o' \<in> set (wanted_overwrites snap planned c) \<and> role_target snap (ow_role o') = Some role_id
          \<and> pushes snap c permits o' role_id \<and> op' = OpSetOverwrite i role_id (ow_allow o') (ow_deny o')"
    then show ?thesis by (elim exE conjE) (simp add: is_edit_def channel)
  qed
qed

end
