(* ===== verification/Server_Convergence.thy ===== *)
theory Server_Convergence
  imports Server_Rollout
begin

text \<open>
  What the edits of a clear report leave: the plan compared again has nothing to change.
  Every operation on a role, a channel's place or an overwrite comes from the one plan
  entry for it, so each ends with the planned value; what the report left alone stays as it
  was, and so does the decision to leave it alone.
\<close>

definition edit_ops :: "(rstr \<Rightarrow> rstr) \<Rightarrow> guild_snapshot \<Rightarrow> server_change list \<Rightarrow> guild_op list" where
  "edit_ops lower snap changes = map (\<lambda>change. projr (resolve_change lower (index_from_snapshot lower snap) change)) changes"

abbreviation case_ops where
  "case_ops lower snap permits moving roles categories \<equiv>
     edit_ops lower snap (rp_changes (edit_parts lower snap permits moving roles categories))"

lemma case_ops_planned:
  assumes "edit_case lower plan snap permits moving roles categories"
    and "op' \<in> set (case_ops lower snap permits moving roles categories)"
  shows "planned_op lower snap permits roles categories op'"
  using assms(2) change_op [OF assms(1)] by (fastforce simp: edit_ops_def)

lemma case_ops_edits:
  assumes "edit_case lower plan snap permits moving roles categories"
  shows "list_all is_edit (case_ops lower snap permits moving roles categories)"
proof -
  have "snapshot_ok snap" using assms by (simp add: edit_case_def)
  from planned_op_possible [OF this case_ops_planned [OF assms]] show ?thesis by (simp add: list_all_iff)
qed

lemma op_of_change:
  assumes "change \<in> set (rp_changes (edit_parts lower snap permits moving roles categories))"
    and "resolve_change lower (index_from_snapshot lower snap) change = Inr op'"
  shows "op' \<in> set (case_ops lower snap permits moving roles categories)"
proof -
  have "op' = projr (resolve_change lower (index_from_snapshot lower snap) change)" using assms(2) by simp
  with assms(1) show ?thesis unfolding edit_ops_def by auto
qed

lemma found_role_inj:
  assumes "snapshot_ok snap" "lookup_role snap m = RoleFound i" "lookup_role snap n = RoleFound i"
  shows "m = n"
  using assms by (metis found_role option.inject)

lemma role_settled:
  assumes ec: "edit_case lower plan snap permits moving roles categories" and role: "role \<in> set roles"
    and t: "t = edited lower (case_ops lower snap permits moving roles categories) snap"
  shows "reveal_role t role = no_parts"
proof -
  let ?ops = "case_ops lower snap permits moving roles categories"
  let ?attrs = "\<lambda>r. (rs_hoist r, rs_mentionable r, rs_colour r)"
  let ?wanted = "(pr_hoist role, pr_mentionable role, colour_or_zero (pr_colour role))"
  have ok: "snapshot_ok snap" using ec by (simp add: edit_case_def)
  note part = case_role [OF ec role]
  obtain i r where i: "lookup_role snap (pr_name role) = RoleFound i" and r: "role_by_id snap i = Some r" and "rs_id r = i"
    and changes: "rp_changes (reveal_role snap role) =
       (if rs_hoist r = pr_hoist role \<and> rs_mentionable r = pr_mentionable role
           \<and> rs_colour r = colour_or_zero (pr_colour role) then []
        else [EditRole (pr_name role) (pr_hoist role) (pr_mentionable role) (pr_colour role)])"
    by (rule reveal_role_clear [OF ok conjunct1 [OF part]])
  note final = edited_facts [OF case_ops_edits [OF ec]]
  have "?attrs (fold (\<lambda>op'. role_edit op' i) ?ops r) = ?wanted"
  proof (rule fold_settled)
    show "?attrs (role_edit op' i x) = ?wanted \<or> ?attrs (role_edit op' i x) = ?attrs x"
      if "op' \<in> set ?ops" for op' x
    proof (cases op')
      case (OpEditRole j hoist mentionable colour)
      with case_ops_planned [OF ec that] obtain role' where role': "role' \<in> set roles"
        "lookup_role snap (pr_name role') = RoleFound j" "op' = OpEditRole j (pr_hoist role') (pr_mentionable role') (pr_colour role')"
        by (auto simp: planned_op_def)
      have "role' = role" if "j = i"
        using found_role_inj [OF ok i, of "pr_name role'"] role role' that ec
        by (auto simp: edit_case_def distinct_map inj_on_def)
      with role'(3) show ?thesis by simp
    qed simp_all
    show "?attrs r = ?wanted \<or> (\<exists>op' \<in> set ?ops. \<forall>x. ?attrs (role_edit op' i x) = ?wanted)"
    proof (cases "?attrs r = ?wanted")
      case False
      let ?change = "EditRole (pr_name role) (pr_hoist role) (pr_mentionable role) (pr_colour role)"
      from False changes part have mem: "?change \<in> set (rp_changes (edit_parts lower snap permits moving roles categories))"
        by auto
      have "pr_name role \<noteq> everyone_name" using ec role by (simp add: edit_case_def)
      then have "resolve_change lower (index_from_snapshot lower snap) ?change
          = Inr (OpEditRole i (pr_hoist role) (pr_mentionable role) (pr_colour role))"
        by (simp add: index_role_found [OF i])
      from op_of_change [OF mem this] show ?thesis
        by (intro disjI2 bexI [of _ "OpEditRole i (pr_hoist role) (pr_mentionable role) (pr_colour role)"]) simp_all
    qed simp
  qed
  moreover have "lookup_role t (pr_name role) = RoleFound i"
    using lookups_same(1) [OF final(1)] i by (simp add: t)
  moreover have "role_by_id t i = Some (fold (\<lambda>op'. role_edit op' i) ?ops r)"
    by (simp add: t final(2) r)
  ultimately show ?thesis by (simp add: reveal_role_def)
qed

section \<open>Overwrites\<close>

lemma sorted_unique_idem [simp]: "sorted_unique (sorted_unique xs) = sorted_unique xs"
  by (simp add: sorted_unique_def distinct_remdups_id sort_key_id_if_sorted)

lemma normalized_role [simp]: "ow_role (ow_normalized o') = ow_role o'"
  by (simp add: ow_normalized_def)

lemma wanted_normal: "o' \<in> set (wanted_overwrites snap planned c) \<Longrightarrow> sorted_unique (ow_allow o') = ow_allow o'
    \<and> sorted_unique (ow_deny o') = ow_deny o'"
  by (auto simp: wanted_overwrites_def Let_def ow_normalized_def split: if_splits) (simp_all add: sorted_unique_def)

lemma wanted_distinct:
  "distinct (map ow_role planned) \<Longrightarrow> distinct (map ow_role (wanted_overwrites snap planned c))"
  by (auto simp: wanted_overwrites_def Let_def comp_def list_ex_iff)

lemma permits_cases:
  assumes "permits = reveal_permits \<or> permits = always_permits"
    and "\<not> permits current o' hidden" and "hidden' \<Longrightarrow> hidden"
  shows "\<not> permits current o' hidden' \<and> ow_role o' = everyone_name"
  using assms by (auto simp: reveal_permits_def always_permits_def split: if_splits)

text \<open>The overwrites of a site that the edits set are the ones its plan entry wants.\<close>

lemma site_op:
  assumes ec: "edit_case lower plan snap permits moving roles categories"
    and site: "site lower snap categories target planned i" and c: "channel_by_id snap i = Some c"
    and op': "OpSetOverwrite i rid allow deny \<in> set (case_ops lower snap permits moving roles categories)"
  obtains o' where "o' \<in> set (wanted_overwrites snap planned c)" "role_target snap (ow_role o') = Some rid"
    "pushes snap c permits o' rid" "allow = ow_allow o'" "deny = ow_deny o'"
proof -
  have ok: "snapshot_ok snap" and plan: "edit_plan_ok lower plan categories" using ec by (simp_all add: edit_case_def)
  from case_ops_planned [OF ec op'] obtain target' planned' q where q:
    "site lower snap categories target' planned' i" "q \<in> set (wanted_overwrites snap planned' c)"
    "role_target snap (ow_role q) = Some rid" "pushes snap c permits q rid" "allow = ow_allow q" "deny = ow_deny q"
    using c by (auto simp: planned_op_def)
  from site_unique [OF plan ok site q(1)] q(2) have "q \<in> set (wanted_overwrites snap planned c)" by simp
  from that [OF this q(3-6)] show thesis .
qed

lemma overwrite_for_role_set:
  "overwrite_for_role (x\<lparr>chs_overwrites := put_overwrite rid allow deny (chs_overwrites x)\<rparr>) rid
     = Some \<lparr>ows_target = TargetRole rid, ows_allow = allow, ows_deny = deny\<rparr>"
  by (simp add: overwrite_for_role_def put_overwrite_find)

lemma site_pushed:
  assumes ec: "edit_case lower plan snap permits moving roles categories"
    and site: "site lower snap categories target planned i" and c: "channel_by_id snap i = Some c"
    and o': "o' \<in> set (wanted_overwrites snap planned c)" and rid: "role_target snap (ow_role o') = Some rid"
    and push: "pushes snap c permits o' rid"
  shows "OpSetOverwrite i rid (ow_allow o') (ow_deny o') \<in> set (case_ops lower snap permits moving roles categories)"
proof -
  obtain d where "channel_by_id snap i = Some d" and sub: "set (rp_changes (overwrite_changes snap target planned d permits))
      \<subseteq> set (rp_changes (edit_parts lower snap permits moving roles categories))"
    using case_site [OF ec site] by blast
  with c have d: "d = c" by simp
  have "SetOverwrite target o' \<in> set (rp_changes (overwrite_changes snap target planned c permits))"
    using o' rid push by (force simp: overwrite_changes_def overwrite_part_outcome)
  with sub have mem: "SetOverwrite target o' \<in> set (rp_changes (edit_parts lower snap permits moving roles categories))"
    unfolding d by blast
  have "resolve_change lower (index_from_snapshot lower snap) (SetOverwrite target o')
      = Inr (OpSetOverwrite i rid (ow_allow o') (ow_deny o'))"
    by (simp add: resolve_target [OF site] resolve_role [OF rid])
  from op_of_change [OF mem this] show ?thesis .
qed

lemma wanted_role_inj:
  assumes "edit_case lower plan snap permits moving roles categories" "site lower snap categories target planned i"
    and "p \<in> set (wanted_overwrites snap planned c)" "q \<in> set (wanted_overwrites snap planned c)"
    and "role_target snap (ow_role p) = Some rid" "role_target snap (ow_role q) = Some rid"
  shows "p = q"
proof -
  have "snapshot_ok snap" "edit_plan_ok lower plan categories" using assms(1) by (simp_all add: edit_case_def)
  moreover from this have "distinct (map ow_role (wanted_overwrites snap planned c))"
    using site_overwrites [OF _ assms(2)] by (simp add: overwrites_ok_def wanted_distinct)
  ultimately show ?thesis using role_target_inj [OF _ assms(5,6)] assms(3,4) by (auto simp: distinct_map inj_on_def)
qed

lemma site_settled:
  assumes ec: "edit_case lower plan snap permits moving roles categories"
    and site: "site lower snap categories target planned i" and c: "channel_by_id snap i = Some c"
    and d: "d = fold (\<lambda>op'. channel_edit op' i) (case_ops lower snap permits moving roles categories) c"
    and o': "o' \<in> set (wanted_overwrites snap planned c)" and rid: "role_target snap (ow_role o') = Some rid"
    and push: "pushes snap c permits o' rid"
  shows "overwrite_for_role d rid = Some \<lparr>ows_target = TargetRole rid, ows_allow = ow_allow o', ows_deny = ow_deny o'\<rparr>"
    (is "_ = ?v")
proof -
  let ?ops = "case_ops lower snap permits moving roles categories"
  have same: "allow = ow_allow o' \<and> deny = ow_deny o'" if op': "OpSetOverwrite i rid allow deny \<in> set ?ops" for allow deny
  proof -
    obtain q where q: "q \<in> set (wanted_overwrites snap planned c)" "role_target snap (ow_role q) = Some rid"
      "allow = ow_allow q" "deny = ow_deny q" by (rule site_op [OF ec site c op'])
    with wanted_role_inj [OF ec site q(1) o' q(2) rid] show ?thesis by simp
  qed
  show ?thesis
    unfolding d
  proof (rule fold_settled [where a = "\<lambda>c. overwrite_for_role c rid"])
    show "overwrite_for_role (channel_edit op' i x) rid = ?v
        \<or> overwrite_for_role (channel_edit op' i x) rid = overwrite_for_role x rid"
      if "op' \<in> set ?ops" for op' x
      using that same by (auto simp: overwrite_for_role_edit split: guild_op.split)
    show "overwrite_for_role c rid = ?v \<or> (\<exists>op' \<in> set ?ops. \<forall>x. overwrite_for_role (channel_edit op' i x) rid = ?v)"
      by (intro disjI2 bexI [OF _ site_pushed [OF ec site c o' rid push]]) (simp add: overwrite_for_role_set)
  qed
qed

lemma site_kept:
  assumes ec: "edit_case lower plan snap permits moving roles categories"
    and site: "site lower snap categories target planned i" and c: "channel_by_id snap i = Some c"
    and d: "d = fold (\<lambda>op'. channel_edit op' i) (case_ops lower snap permits moving roles categories) c"
    and none: "\<And>o'. o' \<in> set (wanted_overwrites snap planned c) \<Longrightarrow> role_target snap (ow_role o') = Some rid \<Longrightarrow>
      \<not> pushes snap c permits o' rid"
  shows "overwrite_for_role d rid = overwrite_for_role c rid"
  unfolding d
proof (rule fold_untouched [where a = "\<lambda>c. overwrite_for_role c rid"])
  fix op' x
  assume op': "op' \<in> set (case_ops lower snap permits moving roles categories)"
  have False if "op' = OpSetOverwrite i rid allow deny" for allow deny
    using site_op [OF ec site c op' [unfolded that]] none by metis
  then show "overwrite_for_role (channel_edit op' i x) rid = overwrite_for_role x rid"
    by (auto simp: overwrite_for_role_edit split: guild_op.split)
qed

text \<open>The decision to leave an entry alone stands, so the site compared again wants nothing.\<close>

lemma role_target_base [simp]: "role_target snap everyone_name = Some (gs_guild snap)"
  by (simp add: role_target_def)

lemma role_target_same: "same_idents s t \<Longrightarrow> role_target s name = role_target t name"
  using lookups_same(1) [of s t name] by (simp add: role_target_def same_idents_def)

lemma hidden_stays:
  assumes ec: "edit_case lower plan snap permits moving roles categories"
    and site: "site lower snap categories target planned i" and c: "channel_by_id snap i = Some c"
    and d: "d = fold (\<lambda>op'. channel_edit op' i) (case_ops lower snap permits moving roles categories) c"
    and none: "\<And>o'. o' \<in> set (wanted_overwrites snap planned c) \<Longrightarrow> ow_role o' = everyone_name \<Longrightarrow>
      \<not> pushes snap c permits o' (gs_guild snap)"
    and hidden: "is_engine_hidden d (gs_guild snap)"
  shows "is_engine_hidden c (gs_guild snap)"
proof -
  have ok: "snapshot_ok snap" using ec by (simp add: edit_case_def)
  have "overwrite_for_role d (gs_guild snap) = overwrite_for_role c (gs_guild snap)"
  proof (rule site_kept [OF ec site c d])
    fix o' assume o': "o' \<in> set (wanted_overwrites snap planned c)" "role_target snap (ow_role o') = Some (gs_guild snap)"
    from role_target_inj [OF ok o'(2) role_target_base] none [OF o'(1)]
    show "\<not> pushes snap c permits o' (gs_guild snap)" by simp
  qed
  with hidden show ?thesis unfolding d by (rule hidden_only_before)
qed

lemma wanted_stays:
  assumes ec: "edit_case lower plan snap permits moving roles categories"
    and site: "site lower snap categories target planned i" and c: "channel_by_id snap i = Some c"
    and d: "d = fold (\<lambda>op'. channel_edit op' i) (case_ops lower snap permits moving roles categories) c"
    and t: "gs_guild t = gs_guild snap"
  shows "set (wanted_overwrites t planned d) \<subseteq> set (wanted_overwrites snap planned c)"
proof (cases "list_ex (\<lambda>o'. ow_role o' = everyone_name) (map ow_normalized planned) \<or> is_engine_hidden c (gs_guild snap)")
  case True
  then show ?thesis by (auto simp: wanted_overwrites_def Let_def t)
next
  case False
  then have wanted: "wanted_overwrites snap planned c = map ow_normalized planned" by (simp add: wanted_overwrites_def)
  have "is_engine_hidden c (gs_guild snap)" if "is_engine_hidden d (gs_guild snap)"
    by (rule hidden_stays [OF ec site c d _ that]) (use False in \<open>auto simp: wanted list_ex_iff\<close>)
  with False have "\<not> is_engine_hidden d (gs_guild snap)" by blast
  then show ?thesis unfolding wanted by (simp add: wanted_overwrites_def t)
qed

lemma state_overwrite_normal:
  "o' \<in> set (wanted_overwrites snap planned c) \<Longrightarrow>
     state_overwrite (ow_role o') \<lparr>ows_target = u, ows_allow = ow_allow o', ows_deny = ow_deny o'\<rparr> = o'"
  using wanted_normal [of o' snap planned c] by (simp add: state_overwrite_def)

lemma site_calm:
  assumes ec: "edit_case lower plan snap permits moving roles categories"
    and site: "site lower snap categories target planned i" and c: "channel_by_id snap i = Some c"
    and d: "d = fold (\<lambda>op'. channel_edit op' i) (case_ops lower snap permits moving roles categories) c"
    and t: "same_idents snap t"
  shows "rp_changes (overwrite_changes t target planned d permits) = []
    \<and> rp_blockers (overwrite_changes t target planned d permits) = []"
proof -
  have guild: "gs_guild t = gs_guild snap" using t by (simp add: same_idents_def)
  have perm: "permits = reveal_permits \<or> permits = always_permits" using ec by (simp add: edit_case_def)
  have "\<not> pushes t d permits o' rid"
    if w: "o' \<in> set (wanted_overwrites snap planned c)" and rid: "role_target snap (ow_role o') = Some rid" for o' rid
  proof (cases "pushes snap c permits o' rid")
    case True
    from site_settled [OF ec site c d w rid True] state_overwrite_normal [OF w]
    show ?thesis by (simp add: pushes_def)
  next
    case False
    have kept: "overwrite_for_role d rid = overwrite_for_role c rid"
    proof (rule site_kept [OF ec site c d])
      fix q assume q: "q \<in> set (wanted_overwrites snap planned c)" "role_target snap (ow_role q) = Some rid"
      with wanted_role_inj [OF ec site q(1) w q(2) rid] False show "\<not> pushes snap c permits q rid" by simp
    qed
    show ?thesis
    proof (cases "permits (map_option (state_overwrite (ow_role o')) (overwrite_for_role c rid)) o'
        (is_engine_hidden c (gs_guild snap))")
      case True
      with False kept show ?thesis by (auto simp: pushes_def Let_def)
    next
      case refused: False
      then have base: "ow_role o' = everyone_name" using permits_cases [OF perm refused] by blast
      with rid have "rid = gs_guild snap" by simp
      have hid: "is_engine_hidden d (gs_guild snap) \<Longrightarrow> is_engine_hidden c (gs_guild snap)"
      proof (rule hidden_stays [OF ec site c d])
        fix q assume q: "q \<in> set (wanted_overwrites snap planned c)" "ow_role q = everyone_name"
        with base rid have "role_target snap (ow_role q) = Some rid" by simp
        with wanted_role_inj [OF ec site q(1) w _ rid] False \<open>rid = gs_guild snap\<close> show "\<not> pushes snap c permits q (gs_guild snap)" by simp
      qed
      have "\<not> permits (map_option (state_overwrite (ow_role o')) (overwrite_for_role c rid)) o'
          (is_engine_hidden d (gs_guild snap))"
        using permits_cases [OF perm refused hid] by blast
      with kept show ?thesis by (simp add: pushes_def Let_def guild)
    qed
  qed
  note quiet = this
  have "rp_changes (overwrite_part t target d permits o') = [] \<and> rp_blockers (overwrite_part t target d permits o') = []"
    if "o' \<in> set (wanted_overwrites t planned d)" for o'
  proof -
    have w: "o' \<in> set (wanted_overwrites snap planned c)" using that wanted_stays [OF ec site c d guild] by blast
    have "rp_blockers (overwrite_part snap target c permits o') = []"
      using case_site [OF ec site] c w by (auto simp: overwrite_changes_def)
    then obtain rid where rid: "role_target snap (ow_role o') = Some rid" by (auto simp: overwrite_part_outcome(2))
    then have "role_target t (ow_role o') = Some rid" using role_target_same [OF t] by simp
    with quiet [OF w rid] show ?thesis by (simp add: overwrite_part_outcome)
  qed
  then show ?thesis by (simp add: overwrite_changes_def)
qed

section \<open>Moves\<close>

lemma topic_differs_edit:
  "topic_differs ch (edit_channel parent topic x) \<longleftrightarrow>
     (case topic of TopicUnchanged \<Rightarrow> topic_differs ch x
      | TopicSet t \<Rightarrow> has_topic (pch_kind ch) \<and> plain_topic (pch_topic ch) \<noteq> None
          \<and> plain_topic (pch_topic ch) \<noteq> plain_topic (Some t))"
  by (auto simp: topic_differs_def edit_channel_def Let_def split: option.splits topic_edit.splits)

lemma plain_topic_idem: "plain_topic topic = Some t \<Longrightarrow> plain_topic (Some t) = Some t"
  by (auto simp: plain_topic_def split: option.splits if_splits)

lemma planned_topic_settles: "\<not> topic_differs ch (edit_channel parent (planned_topic ch c) x) \<or>
    planned_topic ch c = TopicUnchanged \<and> topic_differs ch (edit_channel parent (planned_topic ch c) x) = topic_differs ch x"
  by (auto simp: planned_topic_def topic_differs_edit dest: plain_topic_idem split: option.splits)

lemma topic_differs_other [simp]: "topic_differs ch (c\<lparr>chs_overwrites := os\<rparr>) = topic_differs ch c"
  by (simp add: topic_differs_def)

lemma edit_channel_parent [simp]:
  "chs_parent (edit_channel parent topic c) = (case parent of None \<Rightarrow> chs_parent c | Some p \<Rightarrow> Some p)"
  by (simp add: edit_channel_def Let_def split: topic_edit.splits option.splits)

lemma move_op:
  assumes ec: "edit_case lower plan snap permits moving roles categories" and cat: "cat \<in> set categories"
    and ch: "ch \<in> set (pc_channels cat)" and j: "lookup_category snap (pc_name cat) = LookupFound j"
    and i: "lookup_channel lower snap ch = LookupFound i" and c: "channel_by_id snap i = Some c"
    and op': "OpEditChannel i parent topic \<in> set (case_ops lower snap permits moving roles categories)"
  shows "parent = Some j \<and> topic = planned_topic ch c"
proof -
  have ok: "snapshot_ok snap" and plan: "edit_plan_ok lower plan categories" using ec by (simp_all add: edit_case_def)
  from case_ops_planned [OF ec op'] obtain cat' ch' k c' where q: "cat' \<in> set categories" "ch' \<in> set (pc_channels cat')"
    "lookup_category snap (pc_name cat') = LookupFound k" "lookup_channel lower snap ch' = LookupFound i"
    "channel_by_id snap i = Some c'" "parent = Some k" "topic = planned_topic ch' c'"
    by (auto simp: planned_op_def)
  with channel_unique [OF plan ok cat ch i q(1,2,4)] j c show ?thesis by simp
qed

lemma move_calm:
  assumes ec: "edit_case lower plan snap permits moving roles categories" and cat: "cat \<in> set categories"
    and ch: "ch \<in> set (pc_channels cat)" and j: "lookup_category snap (pc_name cat) = LookupFound j"
    and i: "lookup_channel lower snap ch = LookupFound i" and c: "channel_by_id snap i = Some c"
    and d: "d = fold (\<lambda>op'. channel_edit op' i) (case_ops lower snap permits moving roles categories) c"
  shows "move_changes t moving cat j ch d = []"
proof (cases moving)
  case True
  let ?ops = "case_ops lower snap permits moving roles categories"
  note edits = move_op [OF ec cat ch j i c]
  have pushed: "OpEditChannel i (Some j) (planned_topic ch c) \<in> set ?ops" if "chs_parent c \<noteq> Some j \<or> topic_differs ch c"
  proof (rule op_of_change)
    obtain j' i' c' where "lookup_category snap (pc_name cat) = LookupFound j'"
      "lookup_channel lower snap ch = LookupFound i'" "channel_by_id snap i' = Some c'"
      and "rp_blockers (overwrite_changes snap (channel_target ch) (effective_overwrites cat ch) c' permits) = []"
      and sub: "set (move_changes snap moving cat j' ch c')
       \<subseteq> set (rp_changes (edit_parts lower snap permits moving roles categories))"
      and "set (rp_changes (overwrite_changes snap (channel_target ch) (effective_overwrites cat ch) c' permits))
       \<subseteq> set (rp_changes (edit_parts lower snap permits moving roles categories))"
      by (rule case_channel [OF ec cat ch])
    with j i c have "j' = j" "c' = c" by simp_all
    with sub that True show "EditChannel (pch_name ch) (pch_kind ch) (pc_name cat) (planned_topic ch c)
        \<in> set (rp_changes (edit_parts lower snap permits moving roles categories))"
      by (simp add: move_changes_def)
    show "resolve_change lower (index_from_snapshot lower snap)
         (EditChannel (pch_name ch) (pch_kind ch) (pc_name cat) (planned_topic ch c))
        = Inr (OpEditChannel i (Some j) (planned_topic ch c))"
      using i j by (simp add: index_channel_found index_category_def index_category_found)
  qed
  have "chs_parent d = Some j"
    unfolding d
  proof (rule fold_settled [where a = chs_parent])
    show "chs_parent (channel_edit op' i x) = Some j \<or> chs_parent (channel_edit op' i x) = chs_parent x"
      if "op' \<in> set ?ops" for op' x
      by (cases op') (use that edits in \<open>auto split: option.splits\<close>)
    show "chs_parent c = Some j \<or> (\<exists>op' \<in> set ?ops. \<forall>x. chs_parent (channel_edit op' i x) = Some j)"
      using pushed by (cases "chs_parent c = Some j") (auto intro!: bexI [of _ "OpEditChannel i (Some j) (planned_topic ch c)"])
  qed
  moreover have "topic_differs ch d = False"
    unfolding d
  proof (rule fold_settled [where a = "topic_differs ch"])
    show "topic_differs ch (channel_edit op' i x) = False \<or> topic_differs ch (channel_edit op' i x) = topic_differs ch x"
      if "op' \<in> set ?ops" for op' x
      by (cases op') (use that edits planned_topic_settles [of ch "Some j" c x] in auto)
    show "topic_differs ch c = False \<or> (\<exists>op' \<in> set ?ops. \<forall>x. topic_differs ch (channel_edit op' i x) = False)"
    proof (cases "topic_differs ch c")
      case True
      then have "planned_topic ch c \<noteq> TopicUnchanged"
        by (auto simp: planned_topic_def topic_differs_def split: option.splits)
      then have "\<forall>x. topic_differs ch (channel_edit (OpEditChannel i (Some j) (planned_topic ch c)) i x) = False"
        using planned_topic_settles [of ch "Some j" c] by simp
      with pushed True show ?thesis by blast
    qed simp
  qed
  ultimately show ?thesis by (simp add: move_changes_def)
qed (simp add: move_changes_def)

section \<open>The plan compared again\<close>

lemma edits_calm:
  assumes ec: "edit_case lower plan snap permits moving roles categories"
    and t: "t = edited lower (case_ops lower snap permits moving roles categories) snap"
  shows "rp_changes (edit_parts lower t permits moving roles categories) = []
    \<and> rp_blockers (edit_parts lower t permits moving roles categories) = []"
proof -
  let ?ops = "case_ops lower snap permits moving roles categories"
  have ok: "snapshot_ok snap" using ec by (simp add: edit_case_def)
  note final = edited_facts [OF case_ops_edits [OF ec]]
  have same: "same_idents snap t" unfolding t by (rule final(1))
  have there: "channel_by_id t i = Some (fold (\<lambda>op'. channel_edit op' i) ?ops c)" if "channel_by_id snap i = Some c" for i c
    by (simp add: t final(3) that)
  have channel: "rp_changes (edit_channel_part lower t permits moving cat j ch) = []
      \<and> rp_blockers (edit_channel_part lower t permits moving cat j ch) = []"
    if cat: "cat \<in> set categories" and ch: "ch \<in> set (pc_channels cat)"
      and j: "lookup_category snap (pc_name cat) = LookupFound j" for cat ch j
  proof -
    obtain j' i c where "lookup_category snap (pc_name cat) = LookupFound j'"
      and i: "lookup_channel lower snap ch = LookupFound i" and c: "channel_by_id snap i = Some c"
      and "rp_blockers (overwrite_changes snap (channel_target ch) (effective_overwrites cat ch) c permits) = []"
      and "set (move_changes snap moving cat j' ch c)
       \<subseteq> set (rp_changes (edit_parts lower snap permits moving roles categories))"
      and "set (rp_changes (overwrite_changes snap (channel_target ch) (effective_overwrites cat ch) c permits))
       \<subseteq> set (rp_changes (edit_parts lower snap permits moving roles categories))"
      by (rule case_channel [OF ec cat ch])
    from cat ch i have site: "site lower snap categories (channel_target ch) (effective_overwrites cat ch) i"
      unfolding site_def by blast
    have "lookup_channel lower t ch = LookupFound i" using lookups_same(3) [OF same, of lower ch] i by simp
    with there [OF c] move_calm [OF ec cat ch j i c refl, of t] site_calm [OF ec site c refl same]
    show ?thesis by (simp add: edit_channel_part_def with_channel_def move_changes_def split: if_splits)
  qed
  have category: "rp_changes (edit_category_part lower t permits moving cat) = []
      \<and> rp_blockers (edit_category_part lower t permits moving cat) = []" if cat: "cat \<in> set categories" for cat
  proof -
    from edit_category_clear [OF ok conjunct1 [OF case_category [OF ec cat]]] obtain j c where
      j: "lookup_category snap (pc_name cat) = LookupFound j" and c: "channel_by_id snap j = Some c" by metis
    from cat j have site: "site lower snap categories (OnCategory (pc_name cat)) (pc_overwrites cat) j"
      unfolding site_def by blast
    have "lookup_category t (pc_name cat) = LookupFound j" using lookups_same(2) [OF same, of "pc_name cat"] j by simp
    with there [OF c] site_calm [OF ec site c refl same] channel [OF cat _ j]
    show ?thesis by (simp add: edit_category_part_def with_category_def)
  qed
  from category role_settled [OF ec _ t] show ?thesis by (simp add: edit_parts_def)
qed

end
