(* ===== verification/Server_Results.thy ===== *)
theory Server_Results
  imports Server_Convergence
begin

text \<open>
  The results about the plan engine as a whole: a clear report applied by a willing writer
  is applied completely and the plan compared again wants nothing; an application that
  stops anywhere has done the first operations and nothing else; stage \<open>additive\<close> only adds
  hidden things, stage \<open>reveal\<close> moves no gate but to open what the engine hid, and no stage
  touches what identifies a role or what it may do.
\<close>

section \<open>Stages as edits\<close>

lemma plan_edit_ok: "plan_ok lower plan \<Longrightarrow> edit_plan_ok lower plan (pl_categories plan)"
  by (simp add: plan_ok_def edit_plan_ok_def)

lemma distinct_concat_part: "distinct (concat (map f xs)) \<Longrightarrow> x \<in> set xs \<Longrightarrow> distinct (f x)"
  by (induction xs) auto

lemma plan_edit_one:
  assumes "plan_ok lower plan" and "category \<in> set (pl_categories plan)"
  shows "edit_plan_ok lower plan [category]"
proof -
  have "distinct (concat (map (\<lambda>c. map (channel_key lower) (pc_channels c)) (pl_categories plan)))"
    using assms(1) by (simp add: plan_ok_def map_concat comp_def)
  from distinct_concat_part [OF this assms(2)] assms show ?thesis by (simp add: plan_ok_def edit_plan_ok_def)
qed

text \<open>The two edit stages, as the one form of the previous theories.\<close>

definition edit_stage ::
  "(rstr \<Rightarrow> rstr) \<Rightarrow> server_plan \<Rightarrow> server_scope \<Rightarrow> (overwrite option \<Rightarrow> overwrite \<Rightarrow> bool \<Rightarrow> bool) \<Rightarrow> bool
     \<Rightarrow> plan_role list \<Rightarrow> plan_category list \<Rightarrow> bool" where
  "edit_stage lower plan scope permits moving roles categories \<longleftrightarrow>
     (case sc_stage scope of
        StageAdditive \<Rightarrow> False
      | StageReveal \<Rightarrow> permits = reveal_permits \<and> moving \<and> roles = pl_roles plan \<and> categories = pl_categories plan
      | StageOverwrites \<Rightarrow> permits = always_permits \<and> \<not> moving \<and> roles = []
          \<and> (\<exists>name category. sc_category scope = Some name \<and> plan_category_named plan name = Some category
               \<and> categories = [category]))"

lemma edit_stage_exists:
  assumes "sc_stage scope \<noteq> StageAdditive" and "rp_blockers (stage_parts lower plan snap scope) = []"
  shows "\<exists>permits moving roles categories. edit_stage lower plan scope permits moving roles categories"
  using assms
  by (cases "sc_stage scope") (auto simp: edit_stage_def stage_parts_def overwrites_parts_def split: option.splits)

lemma edit_stage_outcome:
  assumes "edit_stage lower plan scope permits moving roles categories"
  shows "same_outcome (stage_parts lower plan snap scope) (edit_parts lower snap permits moving roles categories)"
proof (cases "sc_stage scope")
  case StageReveal
  with assms show ?thesis by (simp add: edit_stage_def stage_parts_def reveal_is_edit same_outcome_def)
next
  case StageOverwrites
  with assms show ?thesis by (auto simp: edit_stage_def stage_parts_def intro: overwrites_is_edit)
qed (use assms in \<open>simp add: edit_stage_def\<close>)

lemma edit_stage_case:
  assumes plan: "plan_ok lower plan" and "snapshot_ok snap" and "rp_blockers (stage_parts lower plan snap scope) = []"
    and stage: "edit_stage lower plan scope permits moving roles categories"
  shows "edit_case lower plan snap permits moving roles categories"
proof -
  have "rp_blockers (edit_parts lower snap permits moving roles categories) = []"
    using edit_stage_outcome [OF stage, of snap] assms(3) by (simp add: same_outcome_def)
  moreover have "edit_plan_ok lower plan categories"
    using stage plan_edit_ok [OF plan] plan_edit_one [OF plan]
    by (auto simp: edit_stage_def plan_category_named_def split: server_stage.splits dest: find_Some_mem)
  ultimately show ?thesis
    using assms stage by (auto simp: edit_case_def edit_stage_def plan_ok_def split: server_stage.splits)
qed

lemma clear_blockers: "report_is_clear (server_diff lower plan snap scope) \<Longrightarrow> rp_blockers (stage_parts lower plan snap scope) = []"
  by (simp add: report_is_clear_def)

section \<open>Any writer\<close>

context guild_writer begin

text \<open>An application that stops has done the first operations.\<close>

lemma apply_stops:
  assumes "apply_from perform lower ix applied changes g = (out, g')" and "sound g"
    and "\<And>change op'. change \<in> set changes \<Longrightarrow> resolve_change lower ix change = Inr op' \<Longrightarrow> is_edit op'"
  shows "\<exists>n. view g' = edited lower (take n (map (\<lambda>c. projr (resolve_change lower ix c)) changes)) (view g)"
  using assms
proof (induction changes arbitrary: applied g)
  case Nil
  then show ?case by (simp add: edited_def)
next
  case (Cons change changes)
  show ?case
  proof (cases "resolve_change lower ix change")
    case (Inl reason)
    with Cons.prems(1) show ?thesis by (intro exI [of _ 0]) (simp add: edited_def)
  next
    case (Inr op')
    then have e: "is_edit op'" using Cons.prems(3) [of change op'] by simp
    obtain r h where p: "perform op' g = (r, h)" by (cases "perform op' g")
    show ?thesis
    proof (cases r)
      case (Inl reason)
      with Cons.prems(1,2) Inr p refuses [of g op' reason h] show ?thesis
        by (intro exI [of _ 0]) (simp add: edited_def)
    next
      case r: (Inr created)
      from performs [OF Cons.prems(2) p [unfolded r]] e obtain id' where
        h: "sound h" "view h = op_effect lower op' id' (view g)" "created = None" by (auto simp: is_edit_def)
      have "view h = op_effect lower op' 0 (view g)" using h(2) e by (cases op') (simp_all add: is_edit_def)
      moreover have "apply_from perform lower ix (applied @ [change]) changes h = (out, g')"
        using Cons.prems(1) Inr p r h(3) by simp
      from Cons.IH [OF this h(1)] Cons.prems(3) obtain n where
        "view g' = edited lower (take n (map (\<lambda>c. projr (resolve_change lower ix c)) changes)) (view h)"
        by (meson list.set_intros(2))
      ultimately show ?thesis using Inr by (intro exI [of _ "Suc n"]) (simp add: edited_def)
    qed
  qed
qed

lemma edits_applied:
  assumes ec: "edit_case lower plan (view g) permits moving roles categories" and g: "sound g" "willing g"
    and changes: "changes = rp_changes (edit_parts lower (view g) permits moving roles categories)"
  shows "\<exists>g'. server_apply perform lower changes (view g) g
       = (\<lparr>oc_applied = changes, oc_failed = None, oc_remaining = []\<rparr>, g')
     \<and> view g' = edited lower (case_ops lower (view g) permits moving roles categories) (view g)"
proof -
  have ok: "snapshot_ok (view g)" using ec by (simp add: edit_case_def)
  have "\<exists>op'. resolve_change lower (index_from_snapshot lower (view g)) change = Inr op' \<and> is_edit op'
      \<and> op_possible op' (view g) = Inr ()" if "change \<in> set changes" for change
    using change_op [OF ec that [unfolded changes]] planned_op_possible [OF ok] by blast
  from apply_edits [OF g this, of changes "[]"] show ?thesis
    by (simp add: server_apply_def edited_def edit_ops_def changes)
qed

lemma additions_applied:
  assumes plan: "plan_ok lower plan" and clear: "rp_blockers (additive_parts lower plan (view g)) = []"
    and g: "sound g" "willing g" and changes: "changes = rp_changes (additive_parts lower plan (view g))"
  shows "\<exists>g'. server_apply perform lower changes (view g) g
       = (\<lparr>oc_applied = changes, oc_failed = None, oc_remaining = []\<rparr>, g')
     \<and> rp_changes (additive_parts lower plan (view g')) = [] \<and> rp_blockers (additive_parts lower plan (view g')) = []"
  using apply_creations [OF g index_snapshot_sound additive_runnable [OF clear], of "[]"] additive_calm [OF plan clear]
  by (auto simp: server_apply_def changes)

lemma stage_applied:
  assumes plan: "validate_plan lower plan = Inr ()" and ok: "snapshot_ok (view g)" and g: "sound g" "willing g"
    and clear: "report_is_clear (server_diff lower plan (view g) scope)"
  shows "\<exists>g'. server_apply perform lower (rep_changes (server_diff lower plan (view g) scope)) (view g) g
       = (\<lparr>oc_applied = rep_changes (server_diff lower plan (view g) scope), oc_failed = None, oc_remaining = []\<rparr>, g')
     \<and> rep_changes (server_diff lower plan (view g') scope) = [] \<and> report_is_clear (server_diff lower plan (view g') scope)"
proof -
  note plan = validate_plan_ok [OF plan] and clear = clear_blockers [OF clear]
  show ?thesis
  proof (cases "sc_stage scope = StageAdditive")
    case True
    with additions_applied [OF plan _ g] clear show ?thesis by (auto simp: stage_parts_def report_is_clear_def)
  next
    case False
    then obtain permits moving roles categories where stage: "edit_stage lower plan scope permits moving roles categories"
      using edit_stage_exists [OF False clear] by blast
    note ec = edit_stage_case [OF plan ok clear stage]
    have same: "rep_changes (server_diff lower plan s scope) = rp_changes (edit_parts lower s permits moving roles categories)"
      "rp_blockers (stage_parts lower plan s scope) = rp_blockers (edit_parts lower s permits moving roles categories)" for s
      using edit_stage_outcome [OF stage, of s] by (simp_all add: same_outcome_def)
    have calm: "report_is_clear (server_diff lower plan s scope)"
      if "rep_changes (server_diff lower plan s scope) = []" "rp_blockers (edit_parts lower s permits moving roles categories) = []" for s
      using that same(2) [of s] by (simp add: report_is_clear_def)
    from edits_applied [OF ec g refl] edits_calm [OF ec refl] calm show ?thesis unfolding same(1) by metis
  qed
qed

end

section \<open>What an application can do\<close>

text \<open>No list of changes breaks the guild's ids, whatever fails.\<close>

lemma snapshot_ok_edit: "is_edit op' \<Longrightarrow> snapshot_ok s \<Longrightarrow> snapshot_ok (op_effect lower op' id' s)"
proof -
  assume e: "is_edit op'" and ok: "snapshot_ok s"
  have same: "same_idents s (op_effect lower op' id' s)" by (rule edit_idents [OF e])
  then have "map (\<lambda>(i, n, _). (i, n)) (map role_ident (gs_roles s))
      = map (\<lambda>(i, n, _). (i, n)) (map role_ident (gs_roles (op_effect lower op' id' s)))" by (simp add: same_idents_def)
  then have pairs: "map (\<lambda>r. (rs_id r, rs_name r)) (gs_roles s)
      = map (\<lambda>r. (rs_id r, rs_name r)) (gs_roles (op_effect lower op' id' s))" by (simp add: role_ident_def comp_def)
  have named: "list_all (\<lambda>r. rs_id r = G \<longrightarrow> rs_name r = n) rs
      \<longleftrightarrow> list_all (\<lambda>(i, m). i = G \<longrightarrow> m = n) (map (\<lambda>r. (rs_id r, rs_name r)) rs)" for G n rs
    by (simp add: list.pred_map comp_def)
  from same have "gs_guild (op_effect lower op' id' s) = gs_guild s" by (simp add: same_idents_def)
  with ok show "snapshot_ok (op_effect lower op' id' s)"
    by (simp only: snapshot_ok_def list_ex_mem same_idents_ids [OF same] named pairs)
qed

lemma snapshot_ok_create: "op_creates op' \<Longrightarrow> fresh_id id' s \<Longrightarrow> snapshot_ok s \<Longrightarrow> snapshot_ok (op_effect lower op' id' s)"
  by (cases op') (auto simp: snapshot_ok_def fresh_id_def comp_def list_ex_iff list_all_iff)

text \<open>Stage \<open>additive\<close> adds: roles without permissions, channels hidden behind the marker.\<close>

definition kept_role :: "role_state \<Rightarrow> role_state \<Rightarrow> bool" where
  "kept_role r r' \<longleftrightarrow> r' = r\<lparr>rs_position := rs_position r'\<rparr>"

definition only_adds :: "u64 \<Rightarrow> guild_snapshot \<Rightarrow> guild_snapshot \<Rightarrow> bool" where
  "only_adds guild s t \<longleftrightarrow>
     (\<forall>r \<in> set (gs_roles s). \<exists>r' \<in> set (gs_roles t). kept_role r r')
     \<and> (\<forall>r' \<in> set (gs_roles t). (\<exists>r \<in> set (gs_roles s). kept_role r r') \<or> rs_permissions r' = [])
     \<and> set (gs_channels s) \<subseteq> set (gs_channels t)
     \<and> (\<forall>c \<in> set (gs_channels t). c \<in> set (gs_channels s) \<or> is_engine_hidden c guild)"

lemma kept_role_refl [simp]: "kept_role r r"
  by (simp add: kept_role_def)

lemma kept_here:
  "r \<in> set rs \<Longrightarrow> \<exists>r' \<in> set rs. kept_role r r'" "r \<in> set rs \<Longrightarrow> \<exists>r' \<in> set rs. kept_role r' r"
  using kept_role_refl by blast+

lemma kept_role_trans: "kept_role a b \<Longrightarrow> kept_role b c \<Longrightarrow> kept_role a c"
  unfolding kept_role_def by (metis role_state.surjective role_state.update_convs(3))

lemma kept_role_permissions: "kept_role a b \<Longrightarrow> rs_permissions b = rs_permissions a"
  unfolding kept_role_def by (metis role_state.select_convs(8) role_state.surjective role_state.update_convs(3))

lemma only_adds_refl [simp]: "only_adds guild s s"
  unfolding only_adds_def by (blast intro: kept_role_refl)

lemma only_adds_trans:
  assumes "only_adds guild s t" "only_adds guild t u"
  shows "only_adds guild s u"
proof -
  have first: "\<exists>r' \<in> set (gs_roles u). kept_role r r'" if r: "r \<in> set (gs_roles s)" for r
  proof -
    from assms(1) r obtain b where b: "b \<in> set (gs_roles t)" "kept_role r b" unfolding only_adds_def by blast
    from assms(2) b(1) obtain c where "c \<in> set (gs_roles u)" "kept_role b c" unfolding only_adds_def by blast
    with kept_role_trans [OF b(2)] show ?thesis by blast
  qed
  have second: "(\<exists>r \<in> set (gs_roles s). kept_role r c) \<or> rs_permissions c = []" if c: "c \<in> set (gs_roles u)" for c
  proof -
    from assms(2) c consider b where "b \<in> set (gs_roles t)" "kept_role b c" | "rs_permissions c = []"
      unfolding only_adds_def by blast
    then show ?thesis
    proof cases
      case 1
      from assms(1) 1(1) consider a where "a \<in> set (gs_roles s)" "kept_role a b" | "rs_permissions b = []"
        unfolding only_adds_def by blast
      then show ?thesis using kept_role_trans [OF _ 1(2)] kept_role_permissions [OF 1(2)] by cases (blast, simp)
    qed simp
  qed
  have "set (gs_channels s) \<subseteq> set (gs_channels u)"
    "\<forall>c \<in> set (gs_channels u). c \<in> set (gs_channels s) \<or> is_engine_hidden c guild"
    using assms unfolding only_adds_def by blast+
  with first second show ?thesis unfolding only_adds_def by blast
qed

lemma kept_shift: "kept_role r (shift_role r)"
  by (simp add: kept_role_def shift_role_def)

text \<open>The changes of the stage are creations behind the marker.\<close>

fun hidden_creation :: "server_change \<Rightarrow> bool" where
  "hidden_creation (CreateRole name colour) \<longleftrightarrow> True"
| "hidden_creation (CreateCategory name os) \<longleftrightarrow> os = [hide_marker]"
| "hidden_creation (CreateChannel name kind category topic slowmode tags os) \<longleftrightarrow> os = [hide_marker]"
| "hidden_creation _ \<longleftrightarrow> False"

lemma additive_creations: "change \<in> set (rp_changes (additive_parts lower plan snap)) \<Longrightarrow> hidden_creation change"
  by (auto simp: additive_parts_def additive_role_changes additive_category_changes creation_of_def split: if_splits)

lemma creation_only_adds:
  assumes "hidden_creation change" and "resolve_change lower ix change = Inr op'"
  shows "only_adds (ix_guild ix) s (op_effect lower op' id' s)"
proof (cases change)
  case (CreateRole name colour)
  with assms have "op' = OpCreateRole name colour" by simp
  then show ?thesis by (auto simp: only_adds_def intro: kept_shift)
next
  case (CreateCategory name os)
  with assms show ?thesis
    by (auto simp: only_adds_def resolve_marker is_engine_hidden_def resolved_state_def sorted_unique_def kept_here
        simp del: resolve_overwrites.simps)
next
  case (CreateChannel name kind category topic slowmode tags os)
  with assms obtain p where "index_category ix category = Inr p" by (cases "index_category ix category") auto
  with CreateChannel assms show ?thesis
    by (auto simp: only_adds_def resolve_marker is_engine_hidden_def resolved_state_def sorted_unique_def kept_here
        simp del: resolve_overwrites.simps)
qed (use assms(1) in simp_all)

text \<open>Stage \<open>reveal\<close> sets a base role's entry as it found it, or opens what the engine hid.\<close>

definition view_gate :: "guild_snapshot \<Rightarrow> channel_state \<Rightarrow> bool" where
  "view_gate snap c \<longleftrightarrow> is_some_and (overwrite_for_role c (gs_guild snap)) (\<lambda>o'. view_channel \<in> set (ows_deny o'))"

definition gate_moves :: "guild_snapshot \<Rightarrow> channel_state \<Rightarrow> channel_state \<Rightarrow> bool" where
  "gate_moves snap c d \<longleftrightarrow> view_gate snap d \<noteq> view_gate snap c
     \<and> \<not> (is_engine_hidden c (gs_guild snap) \<and> \<not> view_gate snap d)"

lemma reveal_gate_op:
  assumes ec: "edit_case lower plan snap reveal_permits moving roles categories" and c: "channel_by_id snap i = Some c"
    and op': "OpSetOverwrite i (gs_guild snap) allow deny \<in> set (case_ops lower snap reveal_permits moving roles categories)"
  shows "(view_channel \<in> set deny) = view_gate snap c \<or> is_engine_hidden c (gs_guild snap) \<and> view_channel \<notin> set deny"
proof -
  have ok: "snapshot_ok snap" using ec by (simp add: edit_case_def)
  from case_ops_planned [OF ec op'] obtain o' where o': "role_target snap (ow_role o') = Some (gs_guild snap)"
    "pushes snap c reveal_permits o' (gs_guild snap)" "deny = ow_deny o'"
    using c by (auto simp: planned_op_def)
  from role_target_inj [OF ok o'(1) role_target_base] have "ow_role o' = everyone_name" .
  with o'(2,3) show ?thesis
    by (cases "overwrite_for_role c (gs_guild snap)")
      (auto simp: pushes_def Let_def reveal_permits_def view_gate_def denies_view_def state_overwrite_def sorted_unique_def
        is_some_and_def split: if_splits)
qed

lemma gates_kept:
  assumes ec: "edit_case lower plan snap reveal_permits moving roles categories" and c: "channel_by_id snap i = Some c"
    and sub: "set ops \<subseteq> set (case_ops lower snap reveal_permits moving roles categories)"
  shows "\<not> gate_moves snap c (fold (\<lambda>op'. channel_edit op' i) ops c)"
proof (rule fold_invariant [where Q = "\<lambda>op'. op' \<in> set ops" and P = "\<lambda>d. \<not> gate_moves snap c d"])
  show "\<not> gate_moves snap c (channel_edit op' i d)" if "op' \<in> set ops" "\<not> gate_moves snap c d" for op' d
  proof (cases "\<exists>allow deny. op' = OpSetOverwrite i (gs_guild snap) allow deny")
    case True
    then obtain allow deny where op': "op' = OpSetOverwrite i (gs_guild snap) allow deny" by blast
    with that(1) sub reveal_gate_op [OF ec c, of allow deny] show ?thesis
      by (auto simp: gate_moves_def view_gate_def overwrite_for_role_set is_some_and_def)
  next
    case False
    then have "overwrite_for_role (channel_edit op' i d) (gs_guild snap) = overwrite_for_role d (gs_guild snap)"
      by (auto simp: overwrite_for_role_edit split: guild_op.split)
    with that(2) show ?thesis by (simp add: gate_moves_def view_gate_def)
  qed
qed (simp_all add: gate_moves_def)

end
