(* ===== verification/Server_Run.thy ===== *)
theory Server_Run
  imports Server_Results
begin

text \<open>
  The operator's run of the plan engine (\<open>src/server/run.rs\<close>): read the guild, compare,
  stop at blockers, report a dry run, or read again, refuse drift, apply and verify by a
  last read. Reading the guild (\<open>snapshot\<close> in \<open>src/server/discord.rs\<close>) and performing
  operations are parameters: a read may fail, and the guild may have changed between reads.
  What the run prints is the data of its end.
\<close>

section \<open>The run\<close>

definition revalidate_before_apply ::
  "(rstr \<Rightarrow> rstr) \<Rightarrow> server_plan \<Rightarrow> server_scope \<Rightarrow> server_report \<Rightarrow> guild_snapshot \<Rightarrow> server_report + server_report" where
  "revalidate_before_apply lower plan scope initial fresh_snapshot =
     (let fresh = server_diff lower plan fresh_snapshot scope
      in if rep_blockers initial = rep_blockers fresh \<and> rep_changes initial = rep_changes fresh
         then Inr fresh else Inl fresh)"

definition verify_applied :: "server_report \<Rightarrow> bool" where
  "verify_applied remaining \<longleftrightarrow> report_is_clear remaining \<and> rep_changes remaining = []"

datatype run_end =
  RunReadFailed rstr
| RunBlocked server_report
| RunNothing server_report
| RunDry server_report
| RunRereadFailed rstr server_report
| RunDrifted server_report server_report
| RunStopped server_report apply_outcome
| RunVerified server_report apply_outcome
| RunUnverified server_report apply_outcome server_report
| RunUnread server_report apply_outcome rstr

fun exit_code :: "run_end \<Rightarrow> nat" where
  "exit_code (RunNothing report) = 0"
| "exit_code (RunDry report) = 0"
| "exit_code (RunVerified report outcome) = 0"
| "exit_code _ = 1"

definition run_verify ::
  "('g \<Rightarrow> (rstr + guild_snapshot) \<times> 'g) \<Rightarrow> (rstr \<Rightarrow> rstr) \<Rightarrow> server_plan \<Rightarrow> server_scope \<Rightarrow> server_report
     \<Rightarrow> apply_outcome \<Rightarrow> 'g \<Rightarrow> run_end \<times> 'g" where
  "run_verify observe lower plan scope report outcome g =
     (if oc_failed outcome \<noteq> None then (RunStopped report outcome, g)
      else case observe g of
             (Inl e, g') \<Rightarrow> (RunUnread report outcome e, g')
           | (Inr after, g') \<Rightarrow>
               let remaining = server_diff lower plan after scope
               in (if verify_applied remaining then RunVerified report outcome
                   else RunUnverified report outcome remaining, g'))"

definition run_apply ::
  "('g \<Rightarrow> (rstr + guild_snapshot) \<times> 'g) \<Rightarrow> (guild_op \<Rightarrow> 'g \<Rightarrow> (apply_error + u64 option) \<times> 'g)
     \<Rightarrow> (rstr \<Rightarrow> rstr) \<Rightarrow> server_plan \<Rightarrow> server_scope \<Rightarrow> server_report \<Rightarrow> 'g \<Rightarrow> run_end \<times> 'g" where
  "run_apply observe perform lower plan scope report g =
     (case observe g of
        (Inl e, g') \<Rightarrow> (RunRereadFailed e report, g')
      | (Inr fresh, g') \<Rightarrow>
          (case revalidate_before_apply lower plan scope report fresh of
             Inl other \<Rightarrow> (RunDrifted report other, g')
           | Inr fresh_report \<Rightarrow>
               (case server_apply perform lower (rep_changes fresh_report) fresh g' of
                  (outcome, g'') \<Rightarrow> run_verify observe lower plan scope report outcome g'')))"

definition server_run ::
  "('g \<Rightarrow> (rstr + guild_snapshot) \<times> 'g) \<Rightarrow> (guild_op \<Rightarrow> 'g \<Rightarrow> (apply_error + u64 option) \<times> 'g)
     \<Rightarrow> (rstr \<Rightarrow> rstr) \<Rightarrow> server_plan \<Rightarrow> server_scope \<Rightarrow> bool \<Rightarrow> 'g \<Rightarrow> run_end \<times> 'g" where
  "server_run observe perform lower plan scope apply' g =
     (case observe g of
        (Inl e, g') \<Rightarrow> (RunReadFailed e, g')
      | (Inr before, g') \<Rightarrow>
          let report = server_diff lower plan before scope
          in if \<not> report_is_clear report then (RunBlocked report, g')
             else if rep_changes report = [] then (RunNothing report, g')
             else if \<not> apply' then (RunDry report, g')
             else run_apply observe perform lower plan scope report g')"

section \<open>Lemmas\<close>

lemma apply_splits:
  "apply_from perform lower ix applied changes g = (out, g') \<Longrightarrow>
     \<exists>mid. oc_applied out = applied @ mid
       \<and> changes = mid @ (case oc_failed out of None \<Rightarrow> [] | Some (change, e) \<Rightarrow> [change]) @ oc_remaining out"
proof (induction changes arbitrary: ix applied g)
  case (Cons change changes)
  show ?case
  proof (cases "resolve_change lower ix change")
    case (Inl e)
    with Cons.prems show ?thesis by (intro exI [of _ "[]"]) auto
  next
    case (Inr op')
    obtain r h where p: "perform op' g = (r, h)" by (cases "perform op' g")
    show ?thesis
    proof (cases r)
      case (Inl e)
      with Cons.prems Inr p show ?thesis by (intro exI [of _ "[]"]) auto
    next
      case r: (Inr created)
      with Cons.prems Inr p have "apply_from perform lower (record_created lower change created ix) (applied @ [change]) changes h
          = (out, g')" by simp
      from Cons.IH [OF this] obtain mid where "oc_applied out = (applied @ [change]) @ mid"
        "changes = mid @ (case oc_failed out of None \<Rightarrow> [] | Some (change, e) \<Rightarrow> [change]) @ oc_remaining out" by blast
      then show ?thesis by (intro exI [of _ "change # mid"]) simp
    qed
  qed
qed auto

lemma server_apply_splits:
  "server_apply perform lower changes snap g = (out, g') \<Longrightarrow>
     changes = oc_applied out @ (case oc_failed out of None \<Rightarrow> [] | Some (change, e) \<Rightarrow> [change]) @ oc_remaining out"
  unfolding server_apply_def by (drule apply_splits) auto

context guild_writer begin

lemma run_settles:
  assumes observe: "\<And>h. observe h = (Inr (view h), h)" and plan: "validate_plan lower plan = Inr ()"
    and ok: "snapshot_ok (view g)" and g: "sound g" "willing g"
    and clear: "report_is_clear (server_diff lower plan (view g) scope)"
    and run: "server_run observe perform lower plan scope True g = (result, g')"
  shows "exit_code result = 0 \<and> (\<exists>report. server_run observe perform lower plan scope True g' = (RunNothing report, g'))"
proof (cases "rep_changes (server_diff lower plan (view g) scope) = []")
  case True
  with clear run observe show ?thesis by (auto simp: server_run_def)
next
  case False
  from stage_applied [OF plan ok g clear] obtain h where
    h: "server_apply perform lower (rep_changes (server_diff lower plan (view g) scope)) (view g) g
       = (\<lparr>oc_applied = rep_changes (server_diff lower plan (view g) scope), oc_failed = None, oc_remaining = []\<rparr>, h)"
      "rep_changes (server_diff lower plan (view h) scope) = []" "report_is_clear (server_diff lower plan (view h) scope)"
    by blast
  have "g' = h" "exit_code result = 0"
    using run clear False h(2,3) unfolding server_run_def run_apply_def run_verify_def revalidate_before_apply_def
    by (simp_all add: observe h(1) Let_def verify_applied_def del: report_simps split: if_splits) auto
  with h(2,3) show ?thesis by (simp add: server_run_def observe del: report_simps)
qed

lemma apply_keeps_ok:
  assumes "server_apply perform lower changes snap g = (out, g')" and "sound g" and "snapshot_ok (view g)"
  shows "snapshot_ok (view g')"
proof -
  have "(snapshot_ok (view g) \<longrightarrow> snapshot_ok (view g')) \<and> sound g'"
  proof (rule apply_relates [where R = "\<lambda>s t. snapshot_ok s \<longrightarrow> snapshot_ok t", OF assms(1) [unfolded server_apply_def] assms(2)])
    fix op' id' s
    assume "op_creates op' \<Longrightarrow> fresh_id id' s"
    then show "snapshot_ok s \<longrightarrow> snapshot_ok (op_effect lower op' id' s)"
      by (cases "op_creates op'") (auto simp: is_edit_def intro: snapshot_ok_edit snapshot_ok_create)
  qed auto
  with assms(3) show ?thesis by blast
qed

lemma additive_adds:
  assumes "server_apply perform lower (rp_changes (additive_parts lower plan snap)) snap g = (out, g')" and "sound g"
  shows "only_adds (gs_guild snap) (view g) (view g')"
proof -
  have "only_adds (gs_guild snap) (view g) (view g') \<and> sound g'"
  proof (rule apply_relates [where R = "only_adds (gs_guild snap)", OF assms(1) [unfolded server_apply_def] assms(2)])
    fix change ix' op' id' s
    assume "change \<in> set (rp_changes (additive_parts lower plan snap))"
      and ix: "ix_guild ix' = ix_guild (index_from_snapshot lower snap)" and "resolve_change lower ix' change = Inr op'"
    then have "only_adds (ix_guild ix') s (op_effect lower op' id' s)"
      by (intro creation_only_adds additive_creations)
    with ix show "only_adds (gs_guild snap) s (op_effect lower op' id' s)" by (simp add: index_from_snapshot_def)
  qed (auto intro: only_adds_trans)
  then show ?thesis by blast
qed

lemma edits_stop:
  assumes ec: "edit_case lower plan (view g) permits moving roles categories" and g: "sound g"
    and "server_apply perform lower (rp_changes (edit_parts lower (view g) permits moving roles categories)) (view g) g = (out, g')"
  shows "\<exists>n. view g' = edited lower (take n (case_ops lower (view g) permits moving roles categories)) (view g)"
proof -
  have ok: "snapshot_ok (view g)" using ec by (simp add: edit_case_def)
  have "is_edit op'" if "change \<in> set (rp_changes (edit_parts lower (view g) permits moving roles categories))"
    "resolve_change lower (index_from_snapshot lower (view g)) change = Inr op'" for change op'
    using change_op [OF ec that(1)] planned_op_possible [OF ok] that(2) by fastforce
  from apply_stops [OF assms(3) [unfolded server_apply_def] g this] show ?thesis by (simp add: edit_ops_def)
qed

lemma reveal_stops:
  assumes plan: "validate_plan lower plan = Inr ()" and ok: "snapshot_ok (view g)" and g: "sound g"
    and clear: "report_is_clear (server_diff lower plan (view g) \<lparr>sc_stage = StageReveal, sc_category = category\<rparr>)"
    and run: "server_apply perform lower
       (rep_changes (server_diff lower plan (view g) \<lparr>sc_stage = StageReveal, sc_category = category\<rparr>)) (view g) g = (out, g')"
  shows "same_idents (view g) (view g')
    \<and> (\<forall>i c. channel_by_id (view g) i = Some c \<longrightarrow>
         (\<exists>d. channel_by_id (view g') i = Some d \<and> \<not> gate_moves (view g) c d))"
proof -
  let ?scope = "\<lparr>sc_stage = StageReveal, sc_category = category\<rparr>"
  have stage: "edit_stage lower plan ?scope reveal_permits True (pl_roles plan) (pl_categories plan)"
    by (simp add: edit_stage_def)
  note ec = edit_stage_case [OF validate_plan_ok [OF plan] ok clear_blockers [OF clear] stage]
  from run edit_stage_outcome [OF stage, of "view g"] edits_stop [OF ec g, of out g'] obtain n where
    n: "view g' = edited lower (take n (case_ops lower (view g) reveal_permits True (pl_roles plan) (pl_categories plan))) (view g)"
    by (auto simp: same_outcome_def)
  have e: "list_all is_edit (take n (case_ops lower (view g) reveal_permits True (pl_roles plan) (pl_categories plan)))"
    using case_ops_edits [OF ec] by (auto simp: list_all_iff dest: in_set_takeD)
  from edited_facts(1) [OF e, of "view g" lower] edited_facts(3) [OF e] gates_kept [OF ec _ set_take_subset]
  show ?thesis unfolding n by fastforce
qed

end

section \<open>Properties\<close>

lemma new_fake_sound: "snapshot_ok snap \<Longrightarrow> fake_sound (new_fake_guild snap)"
proof -
  assume ok: "snapshot_ok snap"
  define ids where "ids = map rs_id (gs_roles snap) @ map chs_id (gs_channels snap)"
  from ok obtain r where "r \<in> set (gs_roles snap)" "rs_id r = gs_guild snap" by (auto simp: snapshot_ok_def list_ex_iff)
  then have mem: "gs_guild snap \<in> set ids" by (auto simp: ids_def intro: rev_image_eqI)
  have "i \<le> Max (set ids)" if "i \<in> set ids" for i using that by simp
  moreover have "fg_next_id (new_fake_guild snap) = Max (set ids) + 1"
    using mem by (auto simp: new_fake_guild_def Let_def ids_def)
  ultimately have "i < fg_next_id (new_fake_guild snap)" if "i \<in> set ids" for i using that by (simp add: less_Suc_eq_le)
  with mem show ?thesis by (auto simp: fake_sound_def ids_def new_fake_guild_def Let_def)
qed

text \<open>C16. Applying a clear report converges: with a guild nobody else touches, a validated
  plan and no blockers, a run with \<open>--apply\<close> of any stage ends with exit code 0, and running
  it again finds nothing to do.\<close>

theorem run_converges:
  assumes "validate_plan lower plan = Inr ()" and "snapshot_ok snap"
    and "report_is_clear (server_diff lower plan snap scope)"
    and "server_run (\<lambda>h. (Inr (fg_snapshot h), h)) (fake_perform lower) lower plan scope True (new_fake_guild snap) = (result, g)"
  shows "exit_code result = 0
    \<and> (\<exists>report. server_run (\<lambda>h. (Inr (fg_snapshot h), h)) (fake_perform lower) lower plan scope True g = (RunNothing report, g))"
proof -
  have "fg_snapshot (new_fake_guild snap) = snap" "fg_fail_at (new_fake_guild snap) = None"
    by (simp_all add: new_fake_guild_def Let_def)
  with fake.run_settles [OF refl assms(1), where g = "new_fake_guild snap"] assms(2-4) new_fake_sound [OF assms(2)]
  show ?thesis by simp
qed

fun run_performed :: "run_end \<Rightarrow> (server_report \<times> apply_outcome) option" where
  "run_performed (RunStopped report outcome) = Some (report, outcome)"
| "run_performed (RunVerified report outcome) = Some (report, outcome)"
| "run_performed (RunUnverified report outcome remaining) = Some (report, outcome)"
| "run_performed (RunUnread report outcome e) = Some (report, outcome)"
| "run_performed _ = None"

lemma run_verify_performed: "run_performed (fst (run_verify observe lower plan scope report outcome g)) = Some (report, outcome)"
  by (auto simp: run_verify_def Let_def split: prod.splits sum.splits)

text \<open>A run only does what it printed: whatever happens between the reads and in the
  writer, a run that applied anything had printed a report without blockers, and what it
  applied, the change that failed and what it left out are that report's changes in
  order; a dry run never uses the writer.\<close>

theorem run_does_what_it_printed:
  "(\<forall>report outcome. run_performed (fst (server_run observe perform lower plan scope apply' g)) = Some (report, outcome) \<longrightarrow>
      apply' \<and> report_is_clear report
      \<and> (\<exists>before h. observe g = (Inr before, h) \<and> report = server_diff lower plan before scope)
      \<and> rep_changes report = oc_applied outcome
          @ (case oc_failed outcome of None \<Rightarrow> [] | Some (change, e) \<Rightarrow> [change]) @ oc_remaining outcome)
   \<and> server_run observe perform lower plan scope False g = server_run observe perform2 lower plan scope False g"
proof (intro conjI allI impI)
  fix report outcome
  assume run: "run_performed (fst (server_run observe perform lower plan scope apply' g)) = Some (report, outcome)"
  obtain r h where o1: "observe g = (r, h)" by (cases "observe g")
  with run obtain before where r: "r = Inr before" by (cases r) (simp_all add: server_run_def)
  let ?report = "server_diff lower plan before scope"
  from run o1 r have go: "report_is_clear ?report" "apply'"
    and go2: "run_performed (fst (run_apply observe perform lower plan scope ?report h)) = Some (report, outcome)"
    by (auto simp: server_run_def Let_def simp del: report_simps split: if_splits)
  obtain r2 h2 where o2: "observe h = (r2, h2)" by (cases "observe h")
  with go2 obtain fresh where r2: "r2 = Inr fresh" by (cases r2) (simp_all add: run_apply_def)
  from go2 o2 r2 obtain fresh_report where re: "revalidate_before_apply lower plan scope ?report fresh = Inr fresh_report"
    by (cases "revalidate_before_apply lower plan scope ?report fresh") (simp_all add: run_apply_def)
  obtain out h3 where a: "server_apply perform lower (rep_changes fresh_report) fresh h2 = (out, h3)"
    by (cases "server_apply perform lower (rep_changes fresh_report) fresh h2")
  from go2 o2 r2 re a have "report = ?report" "outcome = out" by (simp_all add: run_apply_def run_verify_performed)
  moreover have "rep_changes fresh_report = rep_changes ?report"
    using re by (auto simp: revalidate_before_apply_def Let_def simp del: report_simps split: if_splits)
  ultimately show "apply'" "report_is_clear report"
    "\<exists>before h. observe g = (Inr before, h) \<and> report = server_diff lower plan before scope"
    "rep_changes report = oc_applied outcome
          @ (case oc_failed outcome of None \<Rightarrow> [] | Some (change, e) \<Rightarrow> [change]) @ oc_remaining outcome"
    using go o1 r server_apply_splits [OF a] by auto
next
  show "server_run observe perform lower plan scope False g = server_run observe perform2 lower plan scope False g"
    by (simp add: server_run_def Let_def split: prod.splits sum.splits)
qed



text \<open>No list of changes, applied to any point, breaks the guild's ids: roles and
  channels keep distinct ids and the base role stays \<open>@everyone\<close>.\<close>

theorem applications_keep_ids:
  assumes "fake_sound g" and "snapshot_ok (fg_snapshot g)"
    and "server_apply (fake_perform lower) lower changes snap g = (out, g')"
  shows "snapshot_ok (fg_snapshot g')"
  using fake.apply_keeps_ok [OF assms(3,1,2)] .

section \<open>A small guild\<close>

definition server_demo_plan :: server_plan where
  "server_demo_plan = \<lparr>pl_name = lit ''p'', pl_source = None, pl_everyone = [view_channel],
     pl_roles = [\<lparr>pr_name = lit ''t'', pr_hoist = True, pr_mentionable = False, pr_colour = Some 5, pr_permissions = [],
       pr_note = []\<rparr>],
     pl_categories = [
       \<lparr>pc_name = lit ''m'', pc_overwrites = [], pc_channels =
         [\<lparr>pch_name = lit ''g'', pch_kind = KindText, pch_topic = Some (lit ''h''), pch_slowmode = None, pch_tags = [],
           pch_overwrites = []\<rparr>]\<rparr>,
       \<lparr>pc_name = lit ''s'', pc_overwrites =
          [\<lparr>ow_role = everyone_name, ow_allow = [], ow_deny = [view_channel]\<rparr>,
           \<lparr>ow_role = lit ''t'', ow_allow = [view_channel], ow_deny = []\<rparr>], pc_channels = []\<rparr>]\<rparr>"

definition server_demo_snapshot :: guild_snapshot where
  "server_demo_snapshot = \<lparr>gs_guild = 1, gs_features = [], gs_roles =
     [\<lparr>rs_id = 1, rs_name = everyone_name, rs_position = 0, rs_managed = False, rs_hoist = False,
       rs_mentionable = False, rs_colour = 0, rs_permissions = [view_channel]\<rparr>,
      \<lparr>rs_id = 2, rs_name = lit ''b'', rs_position = 5, rs_managed = True, rs_hoist = False,
       rs_mentionable = False, rs_colour = 0, rs_permissions = [administrator]\<rparr>],
     gs_channels = [], gs_bot = \<lparr>bot_user = 9, bot_roles = [2]\<rparr>\<rparr>"

definition server_demo_role :: role_state where
  "server_demo_role = \<lparr>rs_id = 3, rs_name = lit ''t'', rs_position = 1, rs_managed = False, rs_hoist = False,
     rs_mentionable = False, rs_colour = 5, rs_permissions = []\<rparr>"

definition server_demo_hidden :: "u64 \<Rightarrow> rstr \<Rightarrow> channel_class \<Rightarrow> u64 option \<Rightarrow> channel_state" where
  "server_demo_hidden i name class' parent = \<lparr>chs_id = i, chs_name = name, chs_class = class', chs_parent = parent, chs_topic = None,
     chs_overwrites = [\<lparr>ows_target = TargetRole 1, ows_allow = [], ows_deny = [view_channel]\<rparr>]\<rparr>"

definition server_demo_built :: guild_snapshot where
  "server_demo_built = server_demo_snapshot\<lparr>gs_roles := gs_roles server_demo_snapshot @ [server_demo_role],
     gs_channels := [server_demo_hidden 4 (lit ''m'') ClassCategory None,
       server_demo_hidden 5 (lit ''g'') (ClassKind KindText) (Some 4), server_demo_hidden 6 (lit ''s'') ClassCategory None]\<rparr>"

definition server_demo_additive :: server_scope where
  "server_demo_additive = \<lparr>sc_stage = StageAdditive, sc_category = None\<rparr>"

lemmas server_demo_names = everyone_name_def view_channel_def administrator_def never_for_everyone_def lit_def
  is_whitespace_def ascii_lower_def to_ascii_lowercase_def trim_def normalizes_name_def normalize_text_name_def
  split_whitespace_def plan_channel_key_def eq_ignore_ascii_case_def

lemma server_demo_valid: "validate_plan (\<lambda>s. s) server_demo_plan = Inr ()"
  by (simp add: validate_plan_def server_demo_plan_def Let_def server_demo_names report_if_def name_length_bad_def max_name_chars_def
      everyone_problems_def somewhere_to_land_def plan_channels_def denies_everyone_view_def effective_overwrites_def
      denies_view_def category_checks_def has_role_view_allow_def ow_is_empty_def plan_role_named_def
      max_channels_per_category_def channel_problems_def has_topic_def is_some_and_def channel_key_def)

lemma server_demo_ok: "snapshot_ok server_demo_snapshot" "snapshot_ok server_demo_built"
  by (simp_all add: snapshot_ok_def server_demo_snapshot_def server_demo_built_def server_demo_names server_demo_role_def server_demo_hidden_def)

lemma server_demo_admin: "bot_is_administrator server_demo_snapshot" "bot_is_administrator server_demo_built"
  by (simp_all add: bot_is_administrator_def bot_permissions_def server_demo_snapshot_def server_demo_built_def everyone_role_def role_by_id_def
      List.map_filter_def)

lemma server_demo_changes:
  "rep_changes (server_diff (\<lambda>s. s) server_demo_plan server_demo_snapshot server_demo_additive) =
     [CreateRole (lit ''t'') (Some 5), CreateCategory (lit ''m'') [hide_marker],
      CreateChannel (lit ''g'') KindText (lit ''m'') (Some (lit ''h'')) None [] [hide_marker],
      CreateCategory (lit ''s'') [hide_marker]]"
  by (simp add: server_demo_additive_def stage_parts_def additive_parts_def server_demo_plan_def server_demo_snapshot_def additive_role_def
      lookup_role_def roles_named_def additive_category_def additive_channel_def lookup_category_def lookup_channel_def
      categories_named_def channels_matching_def lookup_of_def needs_community_def server_demo_names)

lemmas server_demo_lookups = server_demo_plan_def server_demo_snapshot_def lookup_role_def roles_named_def lookup_category_def lookup_channel_def
  categories_named_def channels_matching_def lookup_of_def needs_community_def

lemma admin_capable: "bot_is_administrator snap \<Longrightarrow> capability_blockers snap changes = []"
  by (simp add: capability_blockers_def Let_def)

lemma server_demo_clear:
  "report_is_clear (server_diff (\<lambda>s. s) server_demo_plan server_demo_snapshot server_demo_additive)"
  "report_is_clear (server_diff (\<lambda>s. s) server_demo_plan server_demo_built \<lparr>sc_stage = StageReveal, sc_category = None\<rparr>)"
proof -
  have "rp_blockers (additive_parts (\<lambda>s. s) server_demo_plan server_demo_snapshot) = []"
    by (simp add: additive_parts_def additive_role_def additive_category_def additive_channel_def server_demo_lookups server_demo_names)
  then show "report_is_clear (server_diff (\<lambda>s. s) server_demo_plan server_demo_snapshot server_demo_additive)"
    by (simp add: report_is_clear_def admin_capable [OF server_demo_admin(1)]) (simp add: server_demo_additive_def stage_parts_def)
  have "rp_blockers (reveal_parts (\<lambda>s. s) server_demo_plan server_demo_built) = []"
    by (simp add: reveal_parts_def reveal_role_def reveal_category_def with_category_def reveal_channel_def with_channel_def
        server_demo_lookups server_demo_names server_demo_built_def server_demo_role_def server_demo_hidden_def role_by_id_def channel_by_id_def
        bot_top_position_def List.map_filter_def overwrite_changes_def overwrite_part_def wanted_overwrites_def
        one_overwrite_outcome effective_overwrites_def ow_normalized_def Let_def)
  then show "report_is_clear (server_diff (\<lambda>s. s) server_demo_plan server_demo_built \<lparr>sc_stage = StageReveal, sc_category = None\<rparr>)"
    by (simp add: report_is_clear_def admin_capable [OF server_demo_admin(2)]) (simp add: stage_parts_def)
qed

section \<open>Witnesses\<close>

lemma run_converges_witness:
  "exit_code (fst (server_run (\<lambda>h. (Inr (fg_snapshot h), h)) (fake_perform (\<lambda>s. s)) (\<lambda>s. s) server_demo_plan server_demo_additive True
     (new_fake_guild server_demo_snapshot))) = 0"
  using run_converges [OF server_demo_valid server_demo_ok(1) server_demo_clear(1) prod.collapse [symmetric]] by blast

lemma run_does_what_it_printed_witness:
  "\<exists>outcome. run_performed (fst (server_run (\<lambda>_. (Inr server_demo_snapshot, ())) (\<lambda>_ _. (Inl InjectedFailure, ())) (\<lambda>s. s)
       server_demo_plan server_demo_additive True ())) = Some (server_diff (\<lambda>s. s) server_demo_plan server_demo_snapshot server_demo_additive, outcome)
     \<and> oc_applied outcome = []
     \<and> rep_changes (server_diff (\<lambda>s. s) server_demo_plan server_demo_snapshot server_demo_additive) = oc_applied outcome
          @ (case oc_failed outcome of None \<Rightarrow> [] | Some (change, e) \<Rightarrow> [change]) @ oc_remaining outcome"
proof -
  let ?report = "server_diff (\<lambda>s. s) server_demo_plan server_demo_snapshot server_demo_additive"
  have "\<exists>outcome. run_performed (fst (server_run (\<lambda>_. (Inr server_demo_snapshot, ())) (\<lambda>_ _. (Inl InjectedFailure, ())) (\<lambda>s. s)
       server_demo_plan server_demo_additive True ())) = Some (?report, outcome) \<and> oc_applied outcome = []"
    using server_demo_clear(1)
    by (simp add: server_run_def run_apply_def run_verify_def revalidate_before_apply_def Let_def server_demo_changes server_apply_def
        del: report_simps)
  with run_does_what_it_printed [of "\<lambda>_. (Inr server_demo_snapshot, ())" "\<lambda>_ _. (Inl InjectedFailure, ())" "\<lambda>s. s" server_demo_plan
      server_demo_additive True "()"]
  show ?thesis by blast
qed



lemma applications_keep_ids_witness:
  "snapshot_ok (fg_snapshot (snd (server_apply (fake_perform (\<lambda>s. s)) (\<lambda>s. s) [CreateRole (lit ''x'') None] server_demo_snapshot
     (new_fake_guild server_demo_snapshot))))"
proof -
  have "fg_snapshot (new_fake_guild server_demo_snapshot) = server_demo_snapshot" by (simp add: new_fake_guild_def Let_def)
  with server_demo_ok(1) applications_keep_ids [OF new_fake_sound [OF server_demo_ok(1)] _ prod.collapse [symmetric]] show ?thesis by simp
qed

section \<open>A reveal that stops half way\<close>

text \<open>A category meant to be public but for an extra grant to one role, still hidden by the
  engine: the stage grants the role, then clears the marker.\<close>

definition stop_category :: rstr where "stop_category = lit ''m''"
definition stop_role :: rstr where "stop_role = lit ''t''"

definition stop_plan :: server_plan where
  "stop_plan = \<lparr>pl_name = lit ''p'', pl_source = None, pl_everyone = [view_channel],
     pl_roles = [\<lparr>pr_name = stop_role, pr_hoist = False, pr_mentionable = False, pr_colour = Some 5, pr_permissions = [],
       pr_note = []\<rparr>],
     pl_categories = [\<lparr>pc_name = stop_category, pc_overwrites =
          [\<lparr>ow_role = stop_role, ow_allow = [view_channel], ow_deny = []\<rparr>], pc_channels = []\<rparr>]\<rparr>"

definition stop_guild :: "channel_state \<Rightarrow> guild_snapshot" where
  "stop_guild c = server_demo_snapshot\<lparr>gs_roles := gs_roles server_demo_snapshot @ [server_demo_role], gs_channels := [c]\<rparr>"

definition stop_hidden :: channel_state where "stop_hidden = server_demo_hidden 4 stop_category ClassCategory None"

definition stop_granted :: channel_state where
  "stop_granted = stop_hidden\<lparr>chs_overwrites := chs_overwrites stop_hidden
     @ [\<lparr>ows_target = TargetRole 3, ows_allow = [view_channel], ows_deny = []\<rparr>]\<rparr>"

definition reveal_scope :: server_scope where
  "reveal_scope = \<lparr>sc_stage = StageReveal, sc_category = None\<rparr>"

lemmas stop_defs = stop_category_def stop_role_def reveal_scope_def stage_parts_def reveal_parts_def reveal_role_def reveal_category_def with_category_def
  stop_plan_def stop_guild_def stop_hidden_def server_demo_lookups server_demo_names server_demo_role_def server_demo_hidden_def role_by_id_def
  channel_by_id_def overwrite_changes_def wanted_overwrites_def ow_normalized_def sorted_unique_def is_engine_hidden_def
  overwrite_part_def one_overwrite_def overwrite_for_role_def state_overwrite_def reveal_permits_def denies_view_def
  ow_is_empty_def colour_or_zero_def is_some_and_def

lemma stop_parts:
  "rp_blockers (reveal_parts (\<lambda>s. s) stop_plan (stop_guild stop_hidden)) = []"
  "rp_changes (reveal_parts (\<lambda>s. s) stop_plan (stop_guild stop_hidden)) =
     [SetOverwrite (OnCategory stop_category) \<lparr>ow_role = stop_role, ow_allow = [view_channel], ow_deny = []\<rparr>,
      SetOverwrite (OnCategory stop_category) \<lparr>ow_role = everyone_name, ow_allow = [], ow_deny = []\<rparr>]"
  "rp_blockers (reveal_parts (\<lambda>s. s) stop_plan (stop_guild stop_granted)) = []"
  "rp_changes (reveal_parts (\<lambda>s. s) stop_plan (stop_guild stop_granted)) = []"
  by (simp_all add: stop_defs stop_granted_def Let_def)

lemma stop_resolve:
  "resolve_change (\<lambda>s. s) (index_from_snapshot (\<lambda>s. s) (stop_guild stop_hidden))
     (SetOverwrite (OnCategory stop_category) \<lparr>ow_role = stop_role, ow_allow = [view_channel], ow_deny = []\<rparr>)
     = Inr (OpSetOverwrite 4 3 [view_channel] [])"
  "resolve_change (\<lambda>s. s) (index_from_snapshot (\<lambda>s. s) (stop_guild stop_hidden))
     (SetOverwrite (OnCategory stop_category) \<lparr>ow_role = everyone_name, ow_allow = [], ow_deny = []\<rparr>)
     = Inr (OpSetOverwrite 4 1 [] [])"
proof -
  have "lookup_category (stop_guild stop_hidden) stop_category = LookupFound 4" by (simp add: stop_defs)
  note category = index_category_found [OF this, of "\<lambda>s. s"]
  have "role_target (stop_guild stop_hidden) stop_role = Some 3" "role_target (stop_guild stop_hidden) everyone_name = Some 1"
    by (simp_all add: role_target_def stop_defs)
  note roles = this [THEN resolve_role, of "\<lambda>s. s"]
  show "resolve_change (\<lambda>s. s) (index_from_snapshot (\<lambda>s. s) (stop_guild stop_hidden))
     (SetOverwrite (OnCategory stop_category) \<lparr>ow_role = stop_role, ow_allow = [view_channel], ow_deny = []\<rparr>)
     = Inr (OpSetOverwrite 4 3 [view_channel] [])"
    "resolve_change (\<lambda>s. s) (index_from_snapshot (\<lambda>s. s) (stop_guild stop_hidden))
     (SetOverwrite (OnCategory stop_category) \<lparr>ow_role = everyone_name, ow_allow = [], ow_deny = []\<rparr>)
     = Inr (OpSetOverwrite 4 1 [] [])"
    by (simp_all add: index_target_def index_category_def category roles)
qed

lemma stop_effects:
  "op_possible (OpSetOverwrite 4 r allow deny) (stop_guild stop_hidden) = Inr ()"
  "op_possible (OpSetOverwrite 4 r allow deny) (stop_guild stop_granted) = Inr ()"
  "op_effect lower (OpSetOverwrite 4 3 [view_channel] []) i (stop_guild stop_hidden) = stop_guild stop_granted"
  by (simp_all add: stop_guild_def stop_hidden_def stop_granted_def server_demo_hidden_def put_overwrite_def ensure_def)

lemma stop_performs:
  assumes "fg_snapshot g = stop_guild stop_hidden" "fg_performed g = 0" "fg_fail_at g = Some 1"
  shows "fake_perform lower (OpSetOverwrite 4 3 [view_channel] []) g
      = (Inr None, g\<lparr>fg_performed := 1, fg_snapshot := stop_guild stop_granted\<rparr>)"
    "fake_perform lower op' (g\<lparr>fg_performed := 1, fg_snapshot := s\<rparr>)
      = (Inl InjectedFailure, g\<lparr>fg_performed := 1, fg_snapshot := s\<rparr>)"
  using assms stop_effects
  by (simp_all add: fake_perform_def Let_def del: op_possible.simps op_effect.simps)


end
