(* ===== verification/Voice_Consent.thy ===== *)
theory Voice_Consent
  imports Rust_String
begin

text \<open>
  The voice choices of one server (\<open>src/voice_consent.rs\<close>): the ledger of receipts, its
  change, and the watermark of spoken withdrawals. Choices are ordered by their Discord
  event, so a delayed older choice never overrides a newer one.
\<close>

section \<open>Choices and the ledger\<close>

datatype voice_mode = ModeDisabled | ModeLocal | ModeOpenAi

datatype voice_choice = Agree voice_mode | WithdrawChoice | WithdrawSpoken

definition choice_withdraws :: "voice_choice \<Rightarrow> bool" where
  "choice_withdraws c \<longleftrightarrow> c = WithdrawChoice \<or> c = WithdrawSpoken"

definition voice_policy_version :: nat where "voice_policy_version = 1"

definition agree_local_id :: rstr where "agree_local_id = lit ''abbey:voice:agree:1:local''"
definition voice_stop_id :: rstr where "voice_stop_id = lit ''abbey:voice:withdraw''"

fun button_id :: "voice_mode \<Rightarrow> rstr option" where
  "button_id ModeLocal = Some agree_local_id"
| "button_id ModeOpenAi = None"
| "button_id ModeDisabled = None"

definition parse_button :: "rstr \<Rightarrow> voice_choice option" where
  "parse_button i =
     (if i = agree_local_id then Some (Agree ModeLocal)
      else if i = lit ''abbey:voice:agree:1:openai'' then None
      else if i = voice_stop_id then Some WithdrawChoice
      else None)"

record voice_receipt =
  vr_policy :: nat
  vr_interaction :: u64
  vr_acknowledged_at :: u64

record member_choice =
  mc_last_event :: u64
  mc_local :: "voice_receipt option"
  mc_openai :: "voice_receipt option"

record voice_ledger =
  vl_version :: nat
  vl_guild :: u64
  vl_members :: "(u64, member_choice) fmap"

definition new_voice_ledger :: "u64 \<Rightarrow> voice_ledger" where
  "new_voice_ledger guild = \<lparr>vl_version = 1, vl_guild = guild, vl_members = fmempty\<rparr>"

definition default_choice :: member_choice where
  "default_choice = \<lparr>mc_last_event = 0, mc_local = None, mc_openai = None\<rparr>"

fun mode_receipt :: "voice_mode \<Rightarrow> member_choice \<Rightarrow> voice_receipt option" where
  "mode_receipt ModeLocal m = mc_local m"
| "mode_receipt ModeOpenAi m = mc_openai m"
| "mode_receipt ModeDisabled m = None"

definition ledger_receipt :: "voice_ledger \<Rightarrow> u64 \<Rightarrow> voice_mode \<Rightarrow> voice_receipt option" where
  "ledger_receipt l user mode = Option.bind (fmlookup (vl_members l) user) (mode_receipt mode)"

definition ledger_agrees :: "voice_ledger \<Rightarrow> u64 \<Rightarrow> voice_mode \<Rightarrow> bool" where
  "ledger_agrees l user mode \<longleftrightarrow> mode = ModeDisabled
     \<or> is_some_and (ledger_receipt l user mode)
         (\<lambda>r. vr_policy r = voice_policy_version \<and> vr_interaction r \<noteq> 0)"

fun record_choice :: "voice_choice \<Rightarrow> voice_receipt \<Rightarrow> member_choice \<Rightarrow> member_choice" where
  "record_choice (Agree mode) receipt m =
     (if mode = ModeLocal then m\<lparr>mc_local := Some receipt\<rparr> else m)"
| "record_choice WithdrawChoice receipt m = m\<lparr>mc_local := None, mc_openai := None\<rparr>"
| "record_choice WithdrawSpoken receipt m = m\<lparr>mc_local := None, mc_openai := None\<rparr>"

definition member_or_default :: "voice_ledger \<Rightarrow> u64 \<Rightarrow> member_choice" where
  "member_or_default l user = (case fmlookup (vl_members l) user of None \<Rightarrow> default_choice | Some m \<Rightarrow> m)"

definition put_choice :: "u64 \<Rightarrow> member_choice \<Rightarrow> voice_ledger \<Rightarrow> voice_ledger" where
  "put_choice user m l = l\<lparr>vl_members := fmupd user m (vl_members l)\<rparr>"

definition choice_event :: "voice_choice \<Rightarrow> u64 \<Rightarrow> member_choice \<Rightarrow> u64" where
  "choice_event choice event m =
     (if choice = WithdrawSpoken then max event (saturating_add (mc_last_event m) 1) else event)"

definition ledger_apply ::
  "u64 \<Rightarrow> u64 \<Rightarrow> voice_choice \<Rightarrow> u64 \<Rightarrow> voice_ledger \<Rightarrow> bool \<times> voice_ledger" where
  "ledger_apply user event choice now l =
     (if user = 0 \<or> event = 0 \<and> choice \<noteq> WithdrawSpoken
         \<or> choice = Agree ModeDisabled \<or> choice = Agree ModeOpenAi then (False, l)
      else
        let m = member_or_default l user;
            event = choice_event choice event m in
        if event \<le> mc_last_event m \<and> choice \<noteq> WithdrawSpoken then (False, put_choice user m l)
        else
          let receipt = \<lparr>vr_policy = voice_policy_version, vr_interaction = event, vr_acknowledged_at = now\<rparr> in
          (True, put_choice user (record_choice choice receipt (m\<lparr>mc_last_event := event\<rparr>)) l))"

definition withdrawal_watermark :: "u64 \<Rightarrow> u64" where
  "withdrawal_watermark unix_millis =
     or (saturating_mul (saturating_sub unix_millis 1420070400000) (2 ^ 22)) (2 ^ 22 - 1)"

section \<open>The ledger\<close>

text \<open>The user's choices up to \<open>event\<close> are settled: what is saved for them is newer.\<close>

definition choices_after :: "u64 \<Rightarrow> u64 \<Rightarrow> voice_ledger \<Rightarrow> bool" where
  "choices_after user event l \<longleftrightarrow> is_some_and (fmlookup (vl_members l) user) (\<lambda>m. event \<le> mc_last_event m
     \<and> is_none_or (mc_local m) (\<lambda>r. event < vr_interaction r)
     \<and> is_none_or (mc_openai m) (\<lambda>r. event < vr_interaction r))"

lemma ledger_applyE:
  assumes "ledger_apply user event choice now l = (b, l')"
  obtains (rejected) "\<not> b" "l' = l"
  | (accepted) m e receipt where "b" "user \<noteq> 0" "choice \<noteq> Agree ModeDisabled" "choice \<noteq> Agree ModeOpenAi"
      "m = member_or_default l user" "e = choice_event choice event m"
      "choice = WithdrawSpoken \<or> e = event \<and> mc_last_event m < event"
      "receipt = \<lparr>vr_policy = voice_policy_version, vr_interaction = e, vr_acknowledged_at = now\<rparr>"
      "l' = put_choice user (record_choice choice receipt (m\<lparr>mc_last_event := e\<rparr>)) l"
proof -
  let ?m = "member_or_default l user"
  let ?e = "choice_event choice event ?m"
  consider (first) "user = 0 \<or> event = 0 \<and> choice \<noteq> WithdrawSpoken \<or> choice = Agree ModeDisabled \<or> choice = Agree ModeOpenAi"
    | (stale) "\<not> (user = 0 \<or> event = 0 \<and> choice \<noteq> WithdrawSpoken \<or> choice = Agree ModeDisabled \<or> choice = Agree ModeOpenAi)"
        "?e \<le> mc_last_event ?m" "choice \<noteq> WithdrawSpoken"
    | (fresh) "\<not> (user = 0 \<or> event = 0 \<and> choice \<noteq> WithdrawSpoken \<or> choice = Agree ModeDisabled \<or> choice = Agree ModeOpenAi)"
        "\<not> (?e \<le> mc_last_event ?m \<and> choice \<noteq> WithdrawSpoken)" by blast
  then show ?thesis
  proof cases
    case first
    with assms have "\<not> b \<and> l' = l" by (auto simp: ledger_apply_def)
    then show ?thesis by (simp add: rejected)
  next
    case stale
    then have "fmlookup (vl_members l) user = Some ?m"
      by (auto simp: choice_event_def member_or_default_def default_choice_def split: option.splits)
    then have "put_choice user ?m l = l"
      by (cases l) (auto simp: put_choice_def intro!: fmap_ext)
    with assms stale have "\<not> b \<and> l' = l" by (auto simp: ledger_apply_def Let_def)
    then show ?thesis by (simp add: rejected)
  next
    case fresh
    with assms have b: "b" and l': "l' = put_choice user (record_choice choice \<lparr>vr_policy = voice_policy_version,
        vr_interaction = ?e, vr_acknowledged_at = now\<rparr> (?m\<lparr>mc_last_event := ?e\<rparr>)) l"
      by (auto simp: ledger_apply_def Let_def)
    from fresh(1) have guard: "user \<noteq> 0" "choice \<noteq> Agree ModeDisabled" "choice \<noteq> Agree ModeOpenAi"
      by simp_all
    from fresh(2) have e: "choice = WithdrawSpoken \<or> ?e = event \<and> mc_last_event ?m < event"
      by (cases "choice = WithdrawSpoken") (simp_all add: choice_event_def)
    show ?thesis by (rule accepted [OF b guard refl refl e refl l'])
  qed
qed

lemma ledger_apply_rejected: "ledger_apply user event choice now l = (False, l') \<Longrightarrow> l' = l"
  by (erule ledger_applyE) auto

lemma ledger_apply_keeps_header:
  "ledger_apply user event choice now l = (b, l') \<Longrightarrow> vl_version l' = vl_version l \<and> vl_guild l' = vl_guild l"
  by (erule ledger_applyE) (auto simp: put_choice_def)

lemma record_choice_last_event [simp]: "mc_last_event (record_choice choice receipt m) = mc_last_event m"
  by (cases choice) auto

lemma member_or_default_put [simp]: "member_or_default (put_choice user m l) user = m"
  by (simp add: member_or_default_def put_choice_def)

lemma ledger_apply_withdraws:
  "ledger_apply user event choice now l = (True, l') \<Longrightarrow> choice_withdraws choice
     \<Longrightarrow> choices_after user (mc_last_event (member_or_default l' user)) l'"
  by (erule ledger_applyE) (auto simp: choices_after_def choice_withdraws_def put_choice_def member_or_default_def)

lemma choice_event_ge:
  "event \<le> mc_last_event m \<Longrightarrow> event \<le> u64_max \<Longrightarrow> choice = WithdrawSpoken \<or> mc_last_event m < e
    \<Longrightarrow> event \<le> choice_event choice e m"
  by (auto simp: choice_event_def saturating_add_def)

lemma ledger_apply_keeps_after:
  assumes "ledger_apply user' event' choice now l = (b, l')" and "choices_after user event l" and "event \<le> u64_max"
  shows "choices_after user event l'"
  using assms(1)
proof (cases rule: ledger_applyE)
  case rejected
  with assms(2) show ?thesis by simp
next
  case (accepted m e receipt)
  show ?thesis
  proof (cases "user' = user")
    case True
    with assms(2) accepted(5) have m: "event \<le> mc_last_event m"
        "is_none_or (mc_local m) (\<lambda>r. event < vr_interaction r)" "is_none_or (mc_openai m) (\<lambda>r. event < vr_interaction r)"
      by (auto simp: choices_after_def member_or_default_def is_some_and_iff)
    with accepted(6,7) assms(3) have "event \<le> e" by (auto intro!: choice_event_ge)
    with m accepted(7,8) True show ?thesis
      unfolding accepted(9) by (cases choice) (auto simp: choices_after_def put_choice_def)
  next
    case False
    with assms(2) show ?thesis unfolding accepted(9) by (simp add: choices_after_def put_choice_def)
  qed
qed

lemma choices_after_receipt:
  "choices_after user event l \<Longrightarrow> ledger_receipt l user mode = Some r \<Longrightarrow> event < vr_interaction r"
  by (cases mode) (auto simp: choices_after_def ledger_receipt_def is_some_and_iff)

lemma new_ledger_not_after [simp]: "\<not> choices_after user event (new_voice_ledger guild)"
  by (simp add: choices_after_def new_voice_ledger_def)

text \<open>The creation time Discord puts into the upper bits of an event identity.\<close>

definition event_millis :: "u64 \<Rightarrow> nat" where
  "event_millis event = event div 2 ^ 22 + 1420070400000"

lemma or_low_bits: "or (a * 2 ^ n) (2 ^ n - 1) = a * 2 ^ n + (2 ^ n - 1 :: nat)"
proof -
  have "and (push_bit n a) (mask n) = 0"
    by (simp flip: take_bit_eq_mask add: take_bit_push_bit)
  then have "push_bit n a + mask n = or (push_bit n a) (mask n)" by (rule disjunctive_add_eq_or)
  then show ?thesis by (simp add: push_bit_eq_mult mask_eq_exp_minus_1)
qed

lemma withdrawal_watermark_eq:
  "withdrawal_watermark unix_millis = min ((unix_millis - 1420070400000) * 2 ^ 22 + (2 ^ 22 - 1)) u64_max"
proof (cases "(unix_millis - 1420070400000) * 2 ^ 22 \<le> u64_max")
  case True
  then have "unix_millis - 1420070400000 \<le> 4398046511103" by (simp add: u64_max_def)
  with True show ?thesis
    using or_low_bits [of "unix_millis - 1420070400000" 22]
    by (simp add: withdrawal_watermark_def saturating_mul_def saturating_sub_def min_def u64_max_def)
next
  case False
  then have "saturating_mul (saturating_sub unix_millis 1420070400000) (2 ^ 22) = u64_max"
    by (simp add: saturating_mul_def saturating_sub_def)
  moreover have "or u64_max (2 ^ 22 - 1) = u64_max" by (simp add: u64_max_def)
  ultimately show ?thesis using False by (simp add: withdrawal_watermark_def)
qed

text \<open>
  The watermark of a spoken withdrawal covers exactly the Discord events up to the end of
  its millisecond: an event identity carries its creation time in its upper bits.
\<close>

theorem watermark_covers_millisecond:
  assumes "event \<le> u64_max" and "1420070400000 \<le> unix_millis"
  shows "event \<le> withdrawal_watermark unix_millis \<longleftrightarrow> event_millis event \<le> unix_millis"
proof -
  have "event \<le> a * 2 ^ 22 + (2 ^ 22 - 1) \<longleftrightarrow> event div 2 ^ 22 \<le> a" for a :: nat
    using less_Suc_eq_le [of "event div 2 ^ 22" a] div_less_iff_less_mult [of "2 ^ 22" event "Suc a"] by simp linarith
  with assms show ?thesis
    unfolding withdrawal_watermark_eq event_millis_def by (simp add: le_diff_conv2 del: power_numeral)
qed

theorem watermark_covers_millisecond_witness:
  "4194303 \<le> withdrawal_watermark 1420070400000 \<longleftrightarrow> event_millis 4194303 \<le> 1420070400000"
  by (rule watermark_covers_millisecond) (simp_all add: u64_max_def)

end
