(* ===== verification/Voice_Store.thy ===== *)
theory Voice_Store
  imports Voice_Consent Machine
begin

text \<open>
  Saved voice choices (\<open>src/voice_consent_store.rs\<close>): the store around the ledger of
  Voice\_Consent as a machine whose steps are the stretches of code between two lock
  acquisitions or disk operations: changes of the ledger, the single writer, the reports of
  finished changes, and a crash at any point, after which the store is loaded from whatever
  the disk kept. A disk operation may fail, with or without its effect.
\<close>

section \<open>The store and its disk\<close>

text \<open>What the ledger file holds: nothing, bytes that are no ledger, or a ledger.\<close>

datatype saved_file = Absent | Unreadable | Holds voice_ledger

text \<open>
  The directory as the process sees it, and what a crash at this moment may leave of it: a
  created, removed or replaced entry is certain only after the directory was synced.
\<close>

record consent_disk =
  dk_pending :: bool
  dk_pending_may :: "bool list"
  dk_file :: saved_file
  dk_file_may :: "saved_file list"

definition set_pending :: "bool \<Rightarrow> consent_disk \<Rightarrow> consent_disk" where
  "set_pending p d = d\<lparr>dk_pending := p, dk_pending_may := p # dk_pending_may d\<rparr>"

definition set_file :: "saved_file \<Rightarrow> consent_disk \<Rightarrow> consent_disk" where
  "set_file f d = d\<lparr>dk_file := f, dk_file_may := f # dk_file_may d\<rparr>"

definition sync_dir :: "consent_disk \<Rightarrow> consent_disk" where
  "sync_dir d = d\<lparr>dk_pending_may := [dk_pending d], dk_file_may := [dk_file d]\<rparr>"

definition settled_disk :: "bool \<Rightarrow> saved_file \<Rightarrow> consent_disk" where
  "settled_disk p f = \<lparr>dk_pending = p, dk_pending_may = [p], dk_file = f, dk_file_may = [f]\<rparr>"

record consent_state =
  co_ledger :: voice_ledger
  co_revision :: nat
  co_saved_revision :: nat
  co_available :: bool

fun read_ledger :: "u64 \<Rightarrow> saved_file \<Rightarrow> voice_ledger option" where
  "read_ledger guild (Holds l) = (if vl_version l = 1 \<and> vl_guild l = guild then Some l else None)"
| "read_ledger guild Absent = Some (new_voice_ledger guild)"
| "read_ledger guild Unreadable = None"

definition load_ledger :: "consent_disk \<Rightarrow> u64 \<Rightarrow> voice_ledger option" where
  "load_ledger d guild = (if dk_pending d then None else read_ledger guild (dk_file d))"

definition load_consent :: "consent_disk option \<Rightarrow> u64 \<Rightarrow> consent_state" where
  "load_consent dir guild =
     (let loaded = Option.bind dir (\<lambda>d. load_ledger d guild) in
      \<lparr>co_ledger = (case loaded of None \<Rightarrow> new_voice_ledger guild | Some l \<Rightarrow> l),
       co_revision = 0, co_saved_revision = 0, co_available = (loaded \<noteq> None)\<rparr>)"

definition consent_settled :: "consent_state \<Rightarrow> bool" where
  "consent_settled s \<longleftrightarrow> co_available s \<and> co_revision s = co_saved_revision s"

text \<open>\<open>free\<close> says whether \<open>try_lock\<close> found the state unlocked.\<close>

definition consent_agrees :: "bool \<Rightarrow> consent_state \<Rightarrow> u64 \<Rightarrow> voice_mode \<Rightarrow> bool" where
  "consent_agrees free s user mode \<longleftrightarrow> free \<and> consent_settled s \<and> ledger_agrees (co_ledger s) user mode"

definition consent_coverage ::
  "bool \<Rightarrow> consent_state \<Rightarrow> u64 fset \<Rightarrow> voice_mode \<Rightarrow> unit + u64 list" where
  "consent_coverage free s users mode =
     (if mode = ModeDisabled then Inr []
      else if \<not> free \<or> \<not> consent_settled s then Inl ()
      else Inr (filter (\<lambda>user. \<not> ledger_agrees (co_ledger s) user mode) (sorted_list_of_fset users)))"

section \<open>Steps\<close>

text \<open>
  A work item is what the closure of a change captured; the choice is kept beside it so that
  histories show whose change was saved. \<open>flushed\<close> are the items whose flush returned and
  which have not looked at the ledger again yet.
\<close>

record consent_work =
  cw_user :: u64
  cw_event :: u64
  cw_choice :: voice_choice

datatype writer_phase =
    WriterFree
  | FlushLoop consent_work
  | MakeMarker consent_work voice_ledger nat
  | SyncMarker consent_work voice_ledger nat
  | WriteTemp consent_work voice_ledger nat
  | RenameTemp consent_work voice_ledger nat
  | SyncFile consent_work voice_ledger nat
  | RemoveMarker consent_work voice_ledger nat
  | SyncRemoval consent_work voice_ledger nat
  | CommitSave consent_work voice_ledger nat
  | SaveFailed consent_work
  | DropFile consent_work
  | SyncDrop consent_work

record consent_machine =
  cm_guild :: u64
  cm_state :: consent_state
  cm_disk :: consent_disk
  cm_writer :: writer_phase
  cm_waiting :: "consent_work list"
  cm_flushed :: "consent_work list"

text \<open>The outcome of a disk operation; one that fails may still have had its effect.\<close>

datatype io = IoOk | IoFailed bool

datatype consent_call =
    ChangeChoice u64 u64 voice_choice u64 bool
  | StartFlush nat
  | WriterStep io
  | ReportSaved nat
  | CrashReload bool saved_file

datatype consent_return =
    Queued u64
  | Refused
  | Unchanged
  | Stepped
  | FileDropped
  | FlushFailed consent_work
  | Saved consent_work bool

definition refuse_all :: "consent_machine \<Rightarrow> consent_machine" where
  "refuse_all m = m\<lparr>cm_state := (cm_state m)\<lparr>co_available := False\<rparr>\<rparr>"

definition change_choice ::
  "u64 \<Rightarrow> u64 \<Rightarrow> voice_choice \<Rightarrow> u64 \<Rightarrow> consent_state \<Rightarrow> (nat option \<times> u64) \<times> consent_state" where
  "change_choice user event choice now s =
     (if \<not> co_available s then ((None, event), s)
      else case ledger_apply user event choice now (co_ledger s) of
          (False, l) \<Rightarrow> ((Some 0, event), s\<lparr>co_ledger := l\<rparr>)
        | (True, l) \<Rightarrow>
            ((Some (co_revision s + 1), mc_last_event (member_or_default l user)),
             s\<lparr>co_ledger := l, co_revision := co_revision s + 1\<rparr>))"

definition change_step ::
  "u64 \<Rightarrow> u64 \<Rightarrow> voice_choice \<Rightarrow> u64 \<Rightarrow> bool \<Rightarrow> consent_machine \<Rightarrow> consent_return \<times> consent_machine" where
  "change_step user event choice now admitted m =
     (case change_choice user event choice now (cm_state m) of
        ((revision, event), s) \<Rightarrow>
          let m = m\<lparr>cm_state := s\<rparr> in
          if \<not> admitted then (Refused, refuse_all m)
          else if revision = None then (Refused, m)
          else if revision = Some 0 then (Unchanged, m)
          else (Queued event, m\<lparr>cm_waiting := cm_waiting m
            @ [\<lparr>cw_user = user, cw_event = event, cw_choice = choice\<rparr>]\<rparr>))"

definition at_phase :: "writer_phase \<Rightarrow> consent_machine \<Rightarrow> consent_return \<times> consent_machine" where
  "at_phase p m = (Stepped, m\<lparr>cm_writer := p\<rparr>)"

definition on_disk :: "(consent_disk \<Rightarrow> consent_disk) \<Rightarrow> consent_machine \<Rightarrow> consent_machine" where
  "on_disk f m = m\<lparr>cm_disk := f (cm_disk m)\<rparr>"

text \<open>A disk operation: on success its effect and the next phase, on failure perhaps the
  effect and the phase that handles the error.\<close>

fun disk_step ::
  "io \<Rightarrow> (consent_disk \<Rightarrow> consent_disk) \<Rightarrow> (consent_machine \<Rightarrow> consent_return \<times> consent_machine)
     \<Rightarrow> (consent_machine \<Rightarrow> consent_return \<times> consent_machine) \<Rightarrow> consent_machine
     \<Rightarrow> consent_return \<times> consent_machine" where
  "disk_step IoOk effect ok failed m = ok (on_disk effect m)"
| "disk_step (IoFailed done_anyway) effect ok failed m =
     failed (if done_anyway then on_disk effect m else m)"

definition flush_failed :: "consent_work \<Rightarrow> consent_machine \<Rightarrow> consent_return \<times> consent_machine" where
  "flush_failed w m = (FlushFailed w, refuse_all m\<lparr>cm_writer := WriterFree\<rparr>)"

definition flush_done :: "consent_work \<Rightarrow> consent_machine \<Rightarrow> consent_return \<times> consent_machine" where
  "flush_done w m = (Stepped, m\<lparr>cm_writer := WriterFree, cm_flushed := cm_flushed m @ [w]\<rparr>)"

fun writer_step :: "io \<Rightarrow> writer_phase \<Rightarrow> consent_machine \<Rightarrow> consent_return \<times> consent_machine" where
  "writer_step io WriterFree m = (Stepped, m)"
| "writer_step io (FlushLoop w) m =
     (let s = cm_state m in
      if \<not> co_available s then flush_failed w m
      else if co_revision s = co_saved_revision s then flush_done w m
      else at_phase (MakeMarker w (co_ledger s) (co_revision s)) m)"
| "writer_step io (MakeMarker w l r) m =
     (if dk_pending (cm_disk m) then at_phase (WriteTemp w l r) m
      else disk_step io (set_pending True) (at_phase (SyncMarker w l r)) (at_phase (SaveFailed w)) m)"
| "writer_step io (SyncMarker w l r) m =
     disk_step io sync_dir (at_phase (WriteTemp w l r)) (at_phase (SaveFailed w)) m"
| "writer_step io (WriteTemp w l r) m =
     disk_step io id (at_phase (RenameTemp w l r)) (at_phase (SaveFailed w)) m"
| "writer_step io (RenameTemp w l r) m =
     disk_step io (set_file (Holds l)) (at_phase (SyncFile w l r)) (at_phase (SaveFailed w)) m"
| "writer_step io (SyncFile w l r) m =
     disk_step io sync_dir (at_phase (RemoveMarker w l r)) (at_phase (SaveFailed w)) m"
| "writer_step io (RemoveMarker w l r) m =
     (if co_revision (cm_state m) \<noteq> r then at_phase (FlushLoop w) m
      else disk_step io (set_pending False) (at_phase (SyncRemoval w l r)) (flush_failed w) m)"
| "writer_step io (SyncRemoval w l r) m =
     disk_step io sync_dir (at_phase (CommitSave w l r)) (flush_failed w) m"
| "writer_step io (CommitSave w l r) m =
     (if co_revision (cm_state m) = r
      then flush_done w (m\<lparr>cm_state := (cm_state m)\<lparr>co_saved_revision := r\<rparr>\<rparr>)
      else at_phase (FlushLoop w) m)"
| "writer_step io (SaveFailed w) m = at_phase (DropFile w) (refuse_all m)"
| "writer_step io (DropFile w) m =
     (FileDropped, snd (disk_step io (set_file Absent) (at_phase (SyncDrop w)) (at_phase (SyncDrop w)) m))"
| "writer_step io (SyncDrop w) m = disk_step io sync_dir (flush_failed w) (flush_failed w) m"

definition start_flush :: "nat \<Rightarrow> consent_machine \<Rightarrow> consent_return \<times> consent_machine" where
  "start_flush i m =
     (if cm_writer m = WriterFree \<and> i < length (cm_waiting m)
      then at_phase (FlushLoop (cm_waiting m ! i)) (m\<lparr>cm_waiting := vec_remove i (cm_waiting m)\<rparr>)
      else (Stepped, m))"

definition report_saved :: "nat \<Rightarrow> consent_machine \<Rightarrow> consent_return \<times> consent_machine" where
  "report_saved i m =
     (if i < length (cm_flushed m)
      then let w = cm_flushed m ! i in
        (Saved w (is_some_and (fmlookup (vl_members (co_ledger (cm_state m))) (cw_user w))
            (\<lambda>c. mc_last_event c = cw_event w)),
         m\<lparr>cm_flushed := vec_remove i (cm_flushed m)\<rparr>)
      else (Stepped, m))"

definition loaded_machine :: "u64 \<Rightarrow> consent_disk \<Rightarrow> consent_machine" where
  "loaded_machine guild d =
     \<lparr>cm_guild = guild, cm_state = load_consent (Some d) guild, cm_disk = d,
      cm_writer = WriterFree, cm_waiting = [], cm_flushed = []\<rparr>"

definition crash_reload :: "bool \<Rightarrow> saved_file \<Rightarrow> consent_machine \<Rightarrow> consent_return \<times> consent_machine" where
  "crash_reload p f m =
     (if p \<in> set (dk_pending_may (cm_disk m)) \<and> f \<in> set (dk_file_may (cm_disk m))
      then (Stepped, loaded_machine (cm_guild m) (settled_disk p f))
      else (Stepped, m))"

fun consent_step :: "consent_call \<Rightarrow> consent_machine \<Rightarrow> consent_return \<times> consent_machine" where
  "consent_step (ChangeChoice user event choice now admitted) m = change_step user event choice now admitted m"
| "consent_step (StartFlush i) m = start_flush i m"
| "consent_step (WriterStep io) m = writer_step io (cm_writer m) m"
| "consent_step (ReportSaved i) m = report_saved i m"
| "consent_step (CrashReload p f) m = crash_reload p f m"

section \<open>What the disk holds while the writer runs\<close>

definition marker_durable :: "consent_disk \<Rightarrow> bool" where
  "marker_durable d \<longleftrightarrow> dk_pending d \<and> list_all id (dk_pending_may d)"

definition file_durable :: "saved_file \<Rightarrow> consent_disk \<Rightarrow> bool" where
  "file_durable f d \<longleftrightarrow> dk_file d = f \<and> list_all (\<lambda>x. x = f) (dk_file_may d)"

definition marker_gone :: "consent_disk \<Rightarrow> bool" where
  "marker_gone d \<longleftrightarrow> \<not> dk_pending d \<and> list_all Not (dk_pending_may d)"

definition disk_files :: "consent_disk \<Rightarrow> saved_file list" where
  "disk_files d = dk_file d # dk_file_may d"

definition disk_holds :: "u64 \<Rightarrow> voice_ledger \<Rightarrow> consent_disk \<Rightarrow> bool" where
  "disk_holds guild l d \<longleftrightarrow> marker_gone d \<and> list_all (\<lambda>f. read_ledger guild f = Some l) (disk_files d)"

definition at_rest :: "u64 \<Rightarrow> consent_state \<Rightarrow> consent_disk \<Rightarrow> bool" where
  "at_rest guild s d \<longleftrightarrow> (co_available s \<longrightarrow> (dk_pending d \<longrightarrow> marker_durable d)
     \<and> (co_revision s = co_saved_revision s \<longrightarrow> disk_holds guild (co_ledger s) d))"

definition job_current :: "consent_state \<Rightarrow> voice_ledger \<Rightarrow> nat \<Rightarrow> bool" where
  "job_current s l r \<longleftrightarrow> co_saved_revision s < r \<and> r \<le> co_revision s \<and> (co_revision s = r \<longrightarrow> l = co_ledger s)"

fun writer_phase_ok :: "u64 \<Rightarrow> consent_state \<Rightarrow> consent_disk \<Rightarrow> writer_phase \<Rightarrow> bool" where
  "writer_phase_ok g s d WriterFree = at_rest g s d"
| "writer_phase_ok g s d (FlushLoop w) = at_rest g s d"
| "writer_phase_ok g s d (MakeMarker w l r) = (job_current s l r \<and> (dk_pending d \<longrightarrow> marker_durable d))"
| "writer_phase_ok g s d (SyncMarker w l r) = (job_current s l r \<and> dk_pending d)"
| "writer_phase_ok g s d (WriteTemp w l r) = (job_current s l r \<and> marker_durable d)"
| "writer_phase_ok g s d (RenameTemp w l r) = (job_current s l r \<and> marker_durable d)"
| "writer_phase_ok g s d (SyncFile w l r) = (job_current s l r \<and> marker_durable d \<and> dk_file d = Holds l)"
| "writer_phase_ok g s d (RemoveMarker w l r) = (job_current s l r \<and> marker_durable d \<and> file_durable (Holds l) d)"
| "writer_phase_ok g s d (SyncRemoval w l r) = (job_current s l r \<and> \<not> dk_pending d \<and> file_durable (Holds l) d)"
| "writer_phase_ok g s d (CommitSave w l r) = (job_current s l r \<and> marker_gone d \<and> file_durable (Holds l) d)"
| "writer_phase_ok g s d (SaveFailed w) = (co_saved_revision s < co_revision s)"
| "writer_phase_ok g s d (DropFile w) = (\<not> co_available s)"
| "writer_phase_ok g s d (SyncDrop w) = (\<not> co_available s)"

definition ledger_header_ok :: "u64 \<Rightarrow> voice_ledger \<Rightarrow> bool" where
  "ledger_header_ok g l \<longleftrightarrow> vl_version l = 1 \<and> vl_guild l = g"

definition consent_inv :: "consent_machine \<Rightarrow> bool" where
  "consent_inv m \<longleftrightarrow> co_saved_revision (cm_state m) \<le> co_revision (cm_state m)
     \<and> ledger_header_ok (cm_guild m) (co_ledger (cm_state m))
     \<and> writer_phase_ok (cm_guild m) (cm_state m) (cm_disk m) (cm_writer m)"

lemmas disk_defs = marker_durable_def file_durable_def marker_gone_def disk_holds_def at_rest_def job_current_def
  disk_files_def set_pending_def set_file_def sync_dir_def on_disk_def at_phase_def flush_failed_def flush_done_def
  refuse_all_def

lemma read_ledger_header: "read_ledger g f = Some l \<Longrightarrow> ledger_header_ok g l"
  by (cases f) (auto simp: ledger_header_ok_def new_voice_ledger_def split: if_splits)

lemma loaded_inv: "consent_inv (loaded_machine g (settled_disk p f))"
proof (cases "load_ledger (settled_disk p f) g")
  case None
  then show ?thesis
    by (simp add: consent_inv_def loaded_machine_def load_consent_def at_rest_def ledger_header_ok_def new_voice_ledger_def)
next
  case (Some l)
  then have "\<not> p" "read_ledger g f = Some l" by (auto simp: load_ledger_def settled_disk_def split: if_splits)
  with Some read_ledger_header [of g f l] show ?thesis
    by (simp add: consent_inv_def loaded_machine_def load_consent_def disk_defs settled_disk_def)
qed

text \<open>A change read forwards: the state after \<open>available\<close> was looked at.\<close>

lemma change_stepE:
  assumes "change_step user event choice now admitted m = (r, m')"
  obtains (same) a where "m' = m\<lparr>cm_state := (cm_state m)\<lparr>co_available := a\<rparr>\<rparr>" "a \<longrightarrow> co_available (cm_state m)"
      "r = Unchanged \<or> r = Refused \<and> \<not> a"
  | (changed) l e where "co_available (cm_state m)" "ledger_apply user event choice now (co_ledger (cm_state m)) = (True, l)"
      "e = mc_last_event (member_or_default l user)" "r = (if admitted then Queued e else Refused)"
      "m' = m\<lparr>cm_state := \<lparr>co_ledger = l, co_revision = co_revision (cm_state m) + 1,
         co_saved_revision = co_saved_revision (cm_state m), co_available = admitted\<rparr>,
         cm_waiting := (if admitted then cm_waiting m @ [\<lparr>cw_user = user, cw_event = e, cw_choice = choice\<rparr>]
           else cm_waiting m)\<rparr>"
proof (cases "co_available (cm_state m)")
  case False
  with assms show ?thesis
    by (intro same [of False]) (auto simp: change_step_def change_choice_def refuse_all_def Let_def split: if_splits)
next
  case True
  obtain b l where l: "ledger_apply user event choice now (co_ledger (cm_state m)) = (b, l)"
    by (cases "ledger_apply user event choice now (co_ledger (cm_state m))")
  show ?thesis
  proof (cases b)
    case False
    with l have "l = co_ledger (cm_state m)" by (simp add: ledger_apply_rejected)
    with assms True l False show ?thesis
      by (intro same [of admitted]) (auto simp: change_step_def change_choice_def refuse_all_def Let_def split: if_splits)
  next
    case accepted: True
    with assms True l show ?thesis
      by (intro changed [OF True _ refl]) (auto simp: change_step_def change_choice_def refuse_all_def Let_def split: if_splits)
  qed
qed

lemma writer_phase_ok_changed:
  assumes "writer_phase_ok g s d p" and "co_saved_revision s \<le> co_revision s"
    and "co_saved_revision t = co_saved_revision s"
    and "co_revision t = co_revision s + 1 \<and> co_available s
       \<or> co_revision t = co_revision s \<and> co_ledger t = co_ledger s \<and> (co_available t \<longrightarrow> co_available s)"
  shows "writer_phase_ok g t d p"
  using assms by (cases p) (auto simp: at_rest_def job_current_def)

lemma change_step_inv:
  assumes "consent_inv m" and "change_step user event choice now admitted m = (r, m')"
  shows "consent_inv m'"
  using assms(2)
proof (cases rule: change_stepE)
  case (same a)
  from assms(1) same(1,2) show ?thesis
    by (auto simp: consent_inv_def intro: writer_phase_ok_changed)
next
  case (changed l e)
  from assms(1) changed(1) ledger_apply_keeps_header [OF changed(2)] show ?thesis
    unfolding changed(5) by (auto simp: consent_inv_def ledger_header_ok_def intro: writer_phase_ok_changed)
qed

lemma held_files_read:
  "list_all (\<lambda>x. x = Holds l) fs \<Longrightarrow> vl_version l = Suc 0 \<Longrightarrow> list_all (\<lambda>f. read_ledger (vl_guild l) f = Some l) fs"
  by (auto simp: list_all_iff)

lemma writer_step_inv:
  assumes "consent_inv m" and "writer_step io (cm_writer m) m = (r, m')"
  shows "consent_inv m'"
  using assms
  by (cases "cm_writer m"; cases io)
    (auto simp: consent_inv_def disk_defs Let_def ledger_header_ok_def split: if_splits
      dest: held_files_read)

lemma consent_step_inv: "consent_inv m \<Longrightarrow> consent_step c m = (r, m') \<Longrightarrow> consent_inv m'"
proof (cases c)
  case (ChangeChoice user event choice now admitted)
  then show "consent_inv m \<Longrightarrow> consent_step c m = (r, m') \<Longrightarrow> ?thesis" by (auto intro: change_step_inv)
next
  case (StartFlush i)
  then show "consent_inv m \<Longrightarrow> consent_step c m = (r, m') \<Longrightarrow> ?thesis"
    by (auto simp: start_flush_def at_phase_def consent_inv_def split: if_splits)
next
  case (WriterStep io)
  then show "consent_inv m \<Longrightarrow> consent_step c m = (r, m') \<Longrightarrow> ?thesis" by (auto intro: writer_step_inv)
next
  case (ReportSaved i)
  then show "consent_inv m \<Longrightarrow> consent_step c m = (r, m') \<Longrightarrow> ?thesis"
    by (auto simp: report_saved_def consent_inv_def Let_def split: if_splits)
next
  case (CrashReload p f)
  then show "consent_inv m \<Longrightarrow> consent_step c m = (r, m') \<Longrightarrow> ?thesis"
    by (auto simp: crash_reload_def loaded_inv split: if_splits)
qed

interpretation consent: stepper consent_step consent_inv
  by unfold_locales (rule consent_step_inv)

section \<open>What callers may rely on\<close>

text \<open>
  The abstract store: a ledger that is open to be used or closed. A change closes it, only
  the writer opens it, and a crash while it is open leaves it open with the same ledger.
\<close>

datatype ledger_view = Open voice_ledger | Closed voice_ledger

fun view_ledger :: "ledger_view \<Rightarrow> voice_ledger" where
  "view_ledger (Open l) = l"
| "view_ledger (Closed l) = l"

definition consent_view :: "consent_machine \<Rightarrow> ledger_view" where
  "consent_view m = (if consent_settled (cm_state m) then Open (co_ledger (cm_state m))
     else Closed (co_ledger (cm_state m)))"

fun consent_spec :: "consent_call \<Rightarrow> consent_return \<Rightarrow> ledger_view \<Rightarrow> ledger_view \<Rightarrow> bool" where
  "consent_spec (ChangeChoice user event choice now admitted) r v w \<longleftrightarrow>
     (case ledger_apply user event choice now (view_ledger v) of
        (True, l) \<Rightarrow> w = Closed l \<or> (\<exists>k. v = Closed k) \<and> w = v
      | (False, l) \<Rightarrow> w = (if r = Unchanged then v else Closed (view_ledger v)))"
| "consent_spec (StartFlush i) r v w \<longleftrightarrow> w = v"
| "consent_spec (WriterStep io) r v w \<longleftrightarrow> w = v \<or> v = Closed (view_ledger v) \<and> w = Open (view_ledger v)"
| "consent_spec (ReportSaved i) r v w \<longleftrightarrow> w = v"
| "consent_spec (CrashReload p f) r v w \<longleftrightarrow> (case v of Open l \<Rightarrow> w = v | Closed l \<Rightarrow> True)"

lemma crash_of_open:
  assumes "consent_inv m" and "consent_settled (cm_state m)" and "crash_reload p f m = (r, m')"
  shows "consent_view m' = consent_view m"
proof (cases "p \<in> set (dk_pending_may (cm_disk m)) \<and> f \<in> set (dk_file_may (cm_disk m))")
  case False
  with assms(3) show ?thesis by (auto simp: crash_reload_def)
next
  case True
  from assms(1,2) have "disk_holds (cm_guild m) (co_ledger (cm_state m)) (cm_disk m)"
    by (cases "cm_writer m") (auto simp: consent_inv_def consent_settled_def at_rest_def job_current_def)
  with True have "\<not> p" "read_ledger (cm_guild m) f = Some (co_ledger (cm_state m))"
    by (auto simp: disk_holds_def marker_gone_def disk_files_def list_all_iff)
  with True assms(2,3) show ?thesis
    by (auto simp: crash_reload_def loaded_machine_def load_consent_def load_ledger_def settled_disk_def
        consent_view_def consent_settled_def)
qed

lemma writer_step_spec:
  assumes "consent_inv m" and "writer_step io (cm_writer m) m = (r, m')"
  shows "consent_spec (WriterStep io) r (consent_view m) (consent_view m')"
  using assms
  by (cases "cm_writer m"; cases io)
    (auto simp: consent_inv_def disk_defs Let_def consent_view_def consent_settled_def split: if_splits)

lemma consent_step_spec:
  assumes "consent_inv m" and "consent_step c m = (r, m')"
  shows "consent_spec c r (consent_view m) (consent_view m')"
proof (cases c)
  case (ChangeChoice user event choice now admitted)
  with assms(2) have "change_step user event choice now admitted m = (r, m')" by simp
  moreover from assms(1) have "co_saved_revision (cm_state m) \<le> co_revision (cm_state m)"
    by (simp add: consent_inv_def)
  ultimately show ?thesis
    unfolding ChangeChoice
    by (auto simp: change_step_def change_choice_def refuse_all_def Let_def consent_view_def consent_settled_def
        split: if_splits prod.splits bool.splits dest: ledger_apply_rejected)
next
  case (StartFlush i)
  with assms(2) show ?thesis by (auto simp: start_flush_def at_phase_def consent_view_def split: if_splits)
next
  case (WriterStep io)
  with assms show ?thesis by (auto simp del: consent_spec.simps intro: writer_step_spec)
next
  case (ReportSaved i)
  with assms(2) show ?thesis by (auto simp: report_saved_def consent_view_def Let_def split: if_splits)
next
  case (CrashReload p f)
  with assms show ?thesis
    using crash_of_open [OF assms(1)] by (auto simp: consent_view_def split: if_splits)
qed

section \<open>Saved withdrawals\<close>

fun writer_work :: "writer_phase \<Rightarrow> consent_work option" where
  "writer_work WriterFree = None"
| "writer_work (FlushLoop w) = Some w"
| "writer_work (MakeMarker w l r) = Some w"
| "writer_work (SyncMarker w l r) = Some w"
| "writer_work (WriteTemp w l r) = Some w"
| "writer_work (RenameTemp w l r) = Some w"
| "writer_work (SyncFile w l r) = Some w"
| "writer_work (RemoveMarker w l r) = Some w"
| "writer_work (SyncRemoval w l r) = Some w"
| "writer_work (CommitSave w l r) = Some w"
| "writer_work (SaveFailed w) = Some w"
| "writer_work (DropFile w) = Some w"
| "writer_work (SyncDrop w) = Some w"

fun writer_ledger :: "writer_phase \<Rightarrow> voice_ledger option" where
  "writer_ledger (MakeMarker w l r) = Some l"
| "writer_ledger (SyncMarker w l r) = Some l"
| "writer_ledger (WriteTemp w l r) = Some l"
| "writer_ledger (RenameTemp w l r) = Some l"
| "writer_ledger (SyncFile w l r) = Some l"
| "writer_ledger (RemoveMarker w l r) = Some l"
| "writer_ledger (SyncRemoval w l r) = Some l"
| "writer_ledger (CommitSave w l r) = Some l"
| "writer_ledger _ = None"

text \<open>A choice that no later step can lose, short of removing the file itself.\<close>

definition lasting :: "u64 \<Rightarrow> u64 \<Rightarrow> consent_machine \<Rightarrow> bool" where
  "lasting user event m \<longleftrightarrow> (co_available (cm_state m) \<longrightarrow> choices_after user event (co_ledger (cm_state m)))
     \<and> is_none_or (writer_ledger (cm_writer m)) (choices_after user event)
     \<and> list_all (\<lambda>f. is_none_or (read_ledger (cm_guild m) f) (choices_after user event)) (disk_files (cm_disk m))"

lemma lasting_change:
  assumes "lasting user event m" and "event \<le> u64_max" and "change_step u e choice now admitted m = (r, m')"
  shows "lasting user event m'"
  using assms(3)
proof (cases rule: change_stepE)
  case (same a)
  with assms(1) show ?thesis by (auto simp: lasting_def)
next
  case (changed l n)
  with assms(1,2) show ?thesis by (auto simp: lasting_def intro: ledger_apply_keeps_after)
qed

lemma lasting_writer:
  assumes "lasting user event m" and "writer_step io (cm_writer m) m = (r, m')" and "r \<noteq> FileDropped"
  shows "lasting user event m'"
  using assms
  by (cases "cm_writer m"; cases io) (auto simp: lasting_def disk_defs Let_def split: if_splits)

lemma lasting_crash:
  assumes "lasting user event m" and "crash_reload p f m = (r, m')"
  shows "lasting user event m'"
proof (cases "p \<in> set (dk_pending_may (cm_disk m)) \<and> f \<in> set (dk_file_may (cm_disk m))")
  case False
  with assms show ?thesis by (auto simp: crash_reload_def)
next
  case True
  with assms(1) have "is_none_or (read_ledger (cm_guild m) f) (choices_after user event)"
    by (auto simp: lasting_def disk_files_def list_all_iff)
  with True assms(2) show ?thesis
    by (cases p; cases "read_ledger (cm_guild m) f") (auto simp: lasting_def crash_reload_def loaded_machine_def
        load_consent_def load_ledger_def settled_disk_def disk_files_def Let_def)
qed

lemma lasting_step:
  assumes "lasting user event m" and "event \<le> u64_max" and "consent_step c m = (r, m')" and "r \<noteq> FileDropped"
  shows "lasting user event m'"
proof (cases c)
  case (ChangeChoice u e choice now admitted)
  with assms show ?thesis by (auto intro: lasting_change)
next
  case (StartFlush i)
  with assms show ?thesis by (auto simp: start_flush_def at_phase_def lasting_def split: if_splits)
next
  case (WriterStep io)
  with assms show ?thesis by (auto intro: lasting_writer)
next
  case (ReportSaved i)
  with assms show ?thesis by (auto simp: report_saved_def lasting_def Let_def split: if_splits)
next
  case (CrashReload p f)
  with assms show ?thesis by (auto intro: lasting_crash)
qed

text \<open>Withdrawals whose work is still on its way are in the ledger; flushed ones last.\<close>

definition lasting_work :: "consent_work \<Rightarrow> bool" where
  "lasting_work w \<longleftrightarrow> choice_withdraws (cw_choice w) \<and> cw_event w \<le> u64_max"

definition open_works :: "consent_machine \<Rightarrow> consent_work set" where
  "open_works m = set (cm_waiting m) \<union> set_option (writer_work (cm_writer m))"

definition works_ok :: "consent_machine \<Rightarrow> bool" where
  "works_ok m \<longleftrightarrow>
     (\<forall>w. w \<in> open_works m \<longrightarrow> lasting_work w \<longrightarrow> choices_after (cw_user w) (cw_event w) (co_ledger (cm_state m)))
     \<and> (\<forall>w. w \<in> set (cm_flushed m) \<longrightarrow> lasting_work w \<longrightarrow> lasting (cw_user w) (cw_event w) m)"

text \<open>The writer never changes the ledger, and finishes a flush at two places.\<close>

lemma writer_keeps_ledger: "writer_step io (cm_writer m) m = (r, m') \<Longrightarrow> co_ledger (cm_state m') = co_ledger (cm_state m)"
  by (cases "cm_writer m"; cases io) (auto simp: disk_defs Let_def split: if_splits)

lemma writer_flushedE:
  assumes "writer_step io (cm_writer m) m = (r, m')"
  obtains (kept) "cm_flushed m' = cm_flushed m" "cm_waiting m' = cm_waiting m"
      "writer_work (cm_writer m') = None \<or> writer_work (cm_writer m') = writer_work (cm_writer m)"
  | (finished) w where "writer_work (cm_writer m) = Some w" "cm_flushed m' = cm_flushed m @ [w]" "cm_waiting m' = cm_waiting m"
      "cm_writer m' = WriterFree"
      "cm_writer m = FlushLoop w \<and> consent_settled (cm_state m) \<and> m' = m\<lparr>cm_writer := WriterFree, cm_flushed := cm_flushed m @ [w]\<rparr>
       \<or> (\<exists>l. cm_writer m = CommitSave w l (co_revision (cm_state m)) \<and> cm_guild m' = cm_guild m \<and> cm_disk m' = cm_disk m)"
proof (cases "cm_flushed m' = cm_flushed m")
  case True
  with assms show ?thesis
    by (intro kept) (cases "cm_writer m"; cases io; auto simp: disk_defs Let_def split: if_splits)+
next
  case False
  with assms obtain w where "writer_work (cm_writer m) = Some w"
    by (cases "cm_writer m"; cases io) (auto simp: disk_defs Let_def split: if_splits)
  with assms False show ?thesis
    by (intro finished [of w]) (cases "cm_writer m"; cases io; auto simp: disk_defs consent_settled_def Let_def split: if_splits)+
qed

lemma lasting_at_rest:
  assumes "consent_inv m" and "consent_settled (cm_state m)" and "choices_after user event (co_ledger (cm_state m))"
  shows "lasting user event (m\<lparr>cm_writer := WriterFree, cm_flushed := ws\<rparr>)"
proof -
  from assms(1,2) have "disk_holds (cm_guild m) (co_ledger (cm_state m)) (cm_disk m)"
    by (cases "cm_writer m") (auto simp: consent_inv_def consent_settled_def at_rest_def job_current_def)
  with assms(3) show ?thesis by (auto simp: lasting_def disk_holds_def list_all_iff)
qed

lemma lasting_when_committed:
  assumes "consent_inv m" and "cm_writer m = CommitSave w l (co_revision (cm_state m))"
    and "choices_after user event (co_ledger (cm_state m))"
    and "cm_guild m' = cm_guild m" and "cm_disk m' = cm_disk m" and "cm_writer m' = WriterFree"
    and "co_ledger (cm_state m') = co_ledger (cm_state m)"
  shows "lasting user event m'"
proof -
  from assms(1,2) have "l = co_ledger (cm_state m)" and "file_durable (Holds l) (cm_disk m)"
    by (auto simp: consent_inv_def job_current_def)
  with assms(3-7) show ?thesis
    by (auto simp: lasting_def file_durable_def disk_files_def list_all_iff)
qed

lemma works_ok_writer:
  assumes "consent_inv m" and "works_ok m" and "writer_step io (cm_writer m) m = (r, m')" and "r \<noteq> FileDropped"
  shows "works_ok m'"
proof -
  note ledger = writer_keeps_ledger [OF assms(3)]
  have old: "lasting (cw_user w) (cw_event w) m'" if "w \<in> set (cm_flushed m)" "lasting_work w" for w
    using that assms(2) by (intro lasting_writer [OF _ assms(3,4)]) (simp add: works_ok_def)
  from assms(3) show ?thesis
  proof (cases rule: writer_flushedE)
    case kept
    with assms(2) old ledger show ?thesis by (auto simp: works_ok_def open_works_def)
  next
    case (finished w)
    have "lasting (cw_user w) (cw_event w) m'" if "lasting_work w"
    proof -
      from that assms(2) finished(1) have after: "choices_after (cw_user w) (cw_event w) (co_ledger (cm_state m))"
        by (auto simp: works_ok_def open_works_def)
      from finished(5) show ?thesis
        using lasting_at_rest [OF assms(1) _ after] lasting_when_committed [OF assms(1) _ after _ _ finished(4) ledger]
        by auto
    qed
    with assms(2) old ledger finished(2,3,4) show ?thesis by (auto simp: works_ok_def open_works_def)
  qed
qed

lemma works_ok_change:
  assumes "works_ok m" and "change_step user event choice now admitted m = (r, m')"
  shows "works_ok m'"
  using assms(2)
proof (cases rule: change_stepE)
  case (same a)
  with assms show ?thesis by (auto simp: works_ok_def open_works_def lasting_def)
next
  case (changed l e)
  have kept: "choices_after (cw_user w) (cw_event w) l"
    if "choices_after (cw_user w) (cw_event w) (co_ledger (cm_state m))" "lasting_work w" for w
    using ledger_apply_keeps_after [OF changed(2) that(1)] that(2) by (simp add: lasting_work_def)
  have old: "lasting (cw_user w) (cw_event w) m'" if "w \<in> set (cm_flushed m)" "lasting_work w" for w
    using that assms(1) by (intro lasting_change [OF _ _ assms(2)]) (auto simp: works_ok_def lasting_work_def)
  have new: "choices_after user e l" if "choice_withdraws choice"
    unfolding changed(3) using changed(2) that by (rule ledger_apply_withdraws)
  from assms(1) kept old new show ?thesis
    unfolding changed(5) by (auto simp: works_ok_def open_works_def lasting_work_def)
qed

lemma works_ok_step:
  assumes "consent_inv m" and "works_ok m" and "consent_step c m = (r, m')" and "r \<noteq> FileDropped"
  shows "works_ok m'"
proof (cases c)
  case (StartFlush i)
  with assms(2,3) show ?thesis
    by (auto simp: start_flush_def at_phase_def works_ok_def open_works_def lasting_def dest!: vec_remove_member split: if_splits)
next
  case (ReportSaved i)
  with assms(2,3) show ?thesis
    by (auto simp: report_saved_def works_ok_def open_works_def lasting_def Let_def dest!: vec_remove_member split: if_splits)
next
  case (CrashReload p f)
  with assms(2,3) show ?thesis
    by (auto simp: crash_reload_def loaded_machine_def works_ok_def open_works_def split: if_splits)
qed (use assms in \<open>auto intro: works_ok_change works_ok_writer\<close>)

lemma writer_never_reports: "writer_step io (cm_writer m) m = (Saved w b, m') \<Longrightarrow> P"
  by (cases "cm_writer m"; cases io) (auto simp: disk_defs Let_def split: if_splits)

lemma reported_lasts:
  assumes "trace consent_step (loaded_machine g (settled_disk p f)) h m" and "\<forall>x. x \<in> set h \<longrightarrow> snd x \<noteq> FileDropped"
  shows "works_ok m \<and> (\<forall>c w b. (c, Saved w b) \<in> set h \<longrightarrow> lasting_work w \<longrightarrow> lasting (cw_user w) (cw_event w) m)"
  using assms
proof (induction rule: trace.induct)
  case trace_start
  show ?case by (simp add: works_ok_def open_works_def loaded_machine_def)
next
  case (trace_call h m c r m')
  have inv: "consent_inv m" using trace_call.hyps(1) loaded_inv by (rule consent.trace_keeps)
  from trace_call.prems have "\<forall>x. x \<in> set h \<longrightarrow> snd x \<noteq> FileDropped" and r: "r \<noteq> FileDropped" by auto
  note both = trace_call.IH [OF this(1)]
  note IH = conjunct1 [OF both] conjunct2 [OF both, rule_format]
  have old: "lasting (cw_user w) (cw_event w) m'" if "lasting (cw_user w) (cw_event w) m" "lasting_work w" for w
    using that trace_call.hyps(2) r by (auto simp: lasting_work_def intro: lasting_step)
  have now: "lasting (cw_user w) (cw_event w) m" if "r = Saved w b" "lasting_work w" for w b
  proof -
    from that(1) trace_call.hyps(2) have "w \<in> set (cm_flushed m)"
      by (cases c) (auto simp: report_saved_def change_step_def start_flush_def at_phase_def crash_reload_def Let_def
          split: if_splits prod.splits elim!: writer_never_reports)
    with IH(1) that(2) show ?thesis by (simp add: works_ok_def)
  qed
  show ?case
    using works_ok_step [OF inv IH(1) trace_call.hyps(2) r] IH(2) now old by auto
qed

text \<open>Without a crash a withdrawal is in the ledger, or nothing is available any more.\<close>

definition denied :: "u64 \<Rightarrow> u64 \<Rightarrow> consent_machine \<Rightarrow> bool" where
  "denied user event m \<longleftrightarrow> (co_available (cm_state m) \<longrightarrow> choices_after user event (co_ledger (cm_state m)))"

lemma choices_after_mono:
  "choices_after user e l \<Longrightarrow> event \<le> e \<Longrightarrow> choices_after user event l"
  by (auto simp: choices_after_def is_some_and_iff is_none_or_iff)

lemma writer_keeps_unavailable:
  "writer_step io (cm_writer m) m = (r, m') \<Longrightarrow> co_available (cm_state m') \<Longrightarrow> co_available (cm_state m)"
  by (cases "cm_writer m"; cases io) (auto simp: disk_defs Let_def split: if_splits)

lemma denied_step:
  assumes "denied user event m" and "event \<le> u64_max" and "\<forall>p f. c \<noteq> CrashReload p f" and "consent_step c m = (r, m')"
  shows "denied user event m'"
proof (cases c)
  case (ChangeChoice u e choice now admitted)
  with assms(4) have "change_step u e choice now admitted m = (r, m')" by simp
  then show ?thesis
    by (cases rule: change_stepE) (use assms(1,2) in \<open>auto simp: denied_def intro: ledger_apply_keeps_after\<close>)
next
  case (WriterStep io)
  with assms writer_keeps_ledger writer_keeps_unavailable show ?thesis by (auto simp: denied_def)
qed (use assms in \<open>auto simp: denied_def start_flush_def at_phase_def report_saved_def Let_def split: if_splits\<close>)

lemma withdrawal_denies:
  assumes "change_step user event choice now admitted m = (r, m')" and "choice_withdraws choice" and "r \<noteq> Unchanged"
  shows "denied user event m'"
  using assms(1)
proof (cases rule: change_stepE)
  case (same a)
  with assms(3) show ?thesis by (simp add: denied_def)
next
  case (changed l e)
  from changed(2) assms(2) have after: "choices_after user e l" unfolding changed(3) by (rule ledger_apply_withdraws)
  from changed(2) have "event \<le> e"
    unfolding changed(3) by (cases rule: ledger_applyE) (auto simp: choice_event_def)
  with after show ?thesis unfolding changed(5) by (auto simp: denied_def intro: choices_after_mono)
qed

text \<open>The number of writer steps a flush can still take.\<close>

definition redo_steps :: "consent_machine \<Rightarrow> nat \<Rightarrow> nat" where
  "redo_steps m r = (if co_revision (cm_state m) = r then 0 else 9)"

fun writer_rank :: "writer_phase \<Rightarrow> consent_machine \<Rightarrow> nat" where
  "writer_rank WriterFree m = 0"
| "writer_rank (FlushLoop w) m = 9"
| "writer_rank (MakeMarker w l r) m = 8 + redo_steps m r"
| "writer_rank (SyncMarker w l r) m = 7 + redo_steps m r"
| "writer_rank (WriteTemp w l r) m = 6 + redo_steps m r"
| "writer_rank (RenameTemp w l r) m = 5 + redo_steps m r"
| "writer_rank (SyncFile w l r) m = 4 + redo_steps m r"
| "writer_rank (RemoveMarker w l r) m = 3 + redo_steps m r"
| "writer_rank (SyncRemoval w l r) m = 2 + redo_steps m r"
| "writer_rank (CommitSave w l r) m = 1 + redo_steps m r"
| "writer_rank (SaveFailed w) m = 3"
| "writer_rank (DropFile w) m = 2"
| "writer_rank (SyncDrop w) m = 1"

lemma writer_rank_le: "writer_rank p m \<le> 17"
  by (cases p) (auto simp: redo_steps_def)

lemma writer_rank_step:
  assumes "writer_step io (cm_writer m) m = (r, m')"
  shows "writer_rank (cm_writer m') m' \<le> writer_rank (cm_writer m) m - 1"
  using assms
  by (cases "cm_writer m"; cases io) (auto simp: disk_defs redo_steps_def Let_def split: if_splits)

lemma writer_runs:
  "writer_rank (cm_writer m) m \<le> length ios
     \<Longrightarrow> cm_writer (snd (run consent_step (map WriterStep ios) (h, m))) = WriterFree"
proof (induction ios arbitrary: h m)
  case Nil
  then show ?case by (cases "cm_writer m") auto
next
  case (Cons io ios)
  obtain r m' where step: "writer_step io (cm_writer m) m = (r, m')" by (cases "writer_step io (cm_writer m) m")
  with Cons.prems writer_rank_step [OF step] have "writer_rank (cm_writer m') m' \<le> length ios" by simp
  with step show ?case by (simp add: Cons.IH)
qed

section \<open>Flushing without disk errors\<close>

text \<open>The work's ledger is saved, or its writer is on the way to save it.\<close>

definition saving :: "consent_work \<Rightarrow> voice_ledger \<Rightarrow> consent_machine \<Rightarrow> bool" where
  "saving w l m \<longleftrightarrow> co_ledger (cm_state m) = l \<and> co_available (cm_state m)
     \<and> (cm_writer m = WriterFree \<and> consent_settled (cm_state m) \<and> w \<in> set (cm_flushed m)
       \<or> cm_writer m = FlushLoop w \<or> writer_work (cm_writer m) = Some w \<and> writer_ledger (cm_writer m) \<noteq> None)"

lemma saving_step:
  "saving w l m \<Longrightarrow> writer_step IoOk (cm_writer m) m = (r, m') \<Longrightarrow> saving w l m'"
  by (cases "cm_writer m") (auto simp: saving_def consent_settled_def disk_defs Let_def split: if_splits)

lemma saving_run:
  "saving w l m \<Longrightarrow> saving w l (snd (run consent_step (replicate n (WriterStep IoOk)) (h, m)))"
proof (induction n arbitrary: h m)
  case 0
  then show ?case by simp
next
  case (Suc n)
  obtain r m' where step: "writer_step IoOk (cm_writer m) m = (r, m')" by (cases "writer_step IoOk (cm_writer m) m")
  from saving_step [OF Suc.prems step] step show ?case by (simp add: Suc.IH)
qed

section \<open>An example\<close>

definition flush_calls :: "consent_call list" where
  "flush_calls = [StartFlush 0, WriterStep IoOk, WriterStep IoOk, WriterStep IoOk, WriterStep IoOk, WriterStep IoOk,
     WriterStep IoOk, WriterStep IoOk, WriterStep IoOk, WriterStep IoOk]"

definition consent_demo_receipt :: voice_receipt where
  "consent_demo_receipt = \<lparr>vr_policy = 1, vr_interaction = 102, vr_acknowledged_at = 7\<rparr>"

definition consent_demo_ledger :: voice_ledger where
  "consent_demo_ledger = \<lparr>vl_version = 1, vl_guild = 10, vl_members =
     fmupd 20 \<lparr>mc_last_event = 102, mc_local = Some consent_demo_receipt, mc_openai = None\<rparr> fmempty\<rparr>"

definition consent_demo_work :: consent_work where
  "consent_demo_work = \<lparr>cw_user = 20, cw_event = 101, cw_choice = WithdrawChoice\<rparr>"

definition consent_demo_start :: consent_machine where
  "consent_demo_start = loaded_machine 10 (settled_disk False Absent)"

definition consent_demo :: "(consent_call \<times> consent_return) list \<times> consent_machine" where
  "consent_demo = run consent_step
     (ChangeChoice 20 101 WithdrawChoice 6 True # flush_calls @ [ReportSaved 0, ChangeChoice 20 102 (Agree ModeLocal) 7 True]
       @ flush_calls @ [CrashReload False (Holds consent_demo_ledger)]) ([], consent_demo_start)"

lemmas consent_demo_defs = flush_calls_def consent_demo_receipt_def consent_demo_ledger_def consent_demo_work_def consent_demo_start_def loaded_machine_def settled_disk_def load_consent_def
  load_ledger_def new_voice_ledger_def change_step_def change_choice_def ledger_apply_def member_or_default_def
  default_choice_def choice_event_def put_choice_def voice_policy_version_def start_flush_def at_phase_def on_disk_def
  set_pending_def set_file_def sync_dir_def flush_done_def report_saved_def crash_reload_def Let_def

lemma consent_demo_state: "snd consent_demo = loaded_machine 10 (settled_disk False (Holds consent_demo_ledger))"
  unfolding consent_demo_def by (simp add: consent_demo_defs)

lemma consent_demo_history:
  "(ReportSaved 0, Saved consent_demo_work True) \<in> set (fst consent_demo)"
  "\<forall>x. x \<in> set (fst consent_demo) \<longrightarrow> snd x \<noteq> FileDropped"
  unfolding consent_demo_def by (simp_all add: consent_demo_defs)

lemma consent_demo_trace: "trace consent_step consent_demo_start (fst consent_demo) (snd consent_demo)"
  by (rule trace_from_run) (unfold consent_demo_def, rule prod.collapse [symmetric])

lemma consent_demo_agrees:
  "consent_agrees True (cm_state (snd consent_demo)) 20 ModeLocal"
  "ledger_receipt (co_ledger (cm_state (snd consent_demo))) 20 ModeLocal = Some consent_demo_receipt"
  unfolding consent_demo_state
  by (simp_all add: consent_demo_defs consent_agrees_def consent_settled_def ledger_agrees_def ledger_receipt_def)

section \<open>Properties\<close>




definition consent_demo_withdrawn :: consent_machine where
  "consent_demo_withdrawn = snd (consent_step (ChangeChoice 20 101 WithdrawChoice 6 True) consent_demo_start)"

definition consent_demo_again :: "(consent_call \<times> consent_return) list \<times> consent_machine" where
  "consent_demo_again = run consent_step (ChangeChoice 20 102 (Agree ModeLocal) 7 True # flush_calls) ([], consent_demo_withdrawn)"

lemma consent_demo_again:
  "consent_step (ChangeChoice 20 101 WithdrawChoice 6 True) consent_demo_start = (Queued 101, consent_demo_withdrawn)"
  "trace consent_step consent_demo_withdrawn (fst consent_demo_again) (snd consent_demo_again)"
  "\<forall>x. x \<in> set (fst consent_demo_again) \<longrightarrow> (\<forall>p f. fst x \<noteq> CrashReload p f)"
  "consent_agrees True (cm_state (snd consent_demo_again)) 20 ModeLocal"
  "ledger_receipt (co_ledger (cm_state (snd consent_demo_again))) 20 ModeLocal = Some consent_demo_receipt"
proof -
  show "trace consent_step consent_demo_withdrawn (fst consent_demo_again) (snd consent_demo_again)"
    by (rule trace_from_run) (unfold consent_demo_again_def, rule prod.collapse [symmetric])
qed (simp_all add: consent_demo_again_def consent_demo_withdrawn_def consent_demo_defs consent_agrees_def
    consent_settled_def ledger_agrees_def ledger_receipt_def)




text \<open>
  C33. Every flush ends: whatever the state it started from and whichever disk operations
  fail, with no further calls the writer lock is free again after at most 17 writer steps.
\<close>

theorem flush_terminates:
  assumes "length ios = 17"
  shows "cm_writer (snd (run consent_step (map WriterStep ios) ([], m))) = WriterFree"
  by (rule writer_runs) (simp add: assms writer_rank_le)

theorem flush_terminates_witness:
  "cm_writer (snd (run consent_step (map WriterStep (replicate 17 (IoFailed True)))
     ([], consent_demo_start\<lparr>cm_writer := FlushLoop consent_demo_work\<rparr>))) = WriterFree"
  by (rule flush_terminates) simp



text \<open>
  Coverage names exactly the members whose agreement is missing, in increasing order, and
  refuses to answer whenever nobody's agreement could be reported.
\<close>

theorem coverage_names_missing:
  "consent_coverage free s users mode = (if mode = ModeDisabled then Inr []
     else if free \<and> consent_settled s
       then Inr (sorted_list_of_set {u \<in> fset users. \<not> consent_agrees free s u mode}) else Inl ())"
proof -
  have "filter P (sorted_list_of_fset users) = sorted_list_of_set {u \<in> fset users. P u}" for P
    by (rule sorted_distinct_set_unique) (auto simp: sorted_list_of_fset.rep_eq sorted_wrt_filter)
  then show ?thesis by (simp add: consent_coverage_def consent_agrees_def)
qed

end
