(* ===== verification/Work_Continuity.thy ===== *)
theory Work_Continuity
  imports Work_Automation
begin

text \<open>
  Confirmed continuity cards (\<open>src/work/continuity.rs\<close>): a member proposes a text for a
  scope, sees it, and confirms exactly that text, which then may be shown to the model for a
  week, while its scope, its access and the native records it names stay current. Proposals
  and grants live in memory only; cards are saved. The work store and the clock are
  arguments.
\<close>

section \<open>Identities of proposals\<close>

definition max_cards :: nat where "max_cards = 256"
definition max_proposals :: nat where "max_proposals = 256"
definition max_text_bytes :: nat where "max_text_bytes = 1600"
definition max_sources :: nat where "max_sources = 8"
definition card_lifetime :: nat where "card_lifetime = 604800"
definition proposal_lifetime :: nat where "proposal_lifetime = 300"

record proposal_id =
  pid_nonce :: "nat list"
  pid_sequence :: u64

definition hex_digit :: "nat \<Rightarrow> nat" where
  "hex_digit n = (if n < 10 then 48 + n else 87 + n)"

definition hex_value :: "nat \<Rightarrow> nat" where
  "hex_value c = (if c \<le> 57 then c - 48 else c - 87)"

definition hex_byte :: "nat \<Rightarrow> rstr" where
  "hex_byte b = [hex_digit (b div 16), hex_digit (b mod 16)]"

fun unhex_bytes :: "rstr \<Rightarrow> nat list" where
  "unhex_bytes (a # b # s) = (hex_value a * 16 + hex_value b) # unhex_bytes s"
| "unhex_bytes _ = []"

definition encode_proposal_id :: "proposal_id \<Rightarrow> rstr" where
  "encode_proposal_id i = concat (map hex_byte (pid_nonce i)) @ 58 # decimal (pid_sequence i)"

definition decode_proposal_id :: "rstr \<Rightarrow> work_error + proposal_id" where
  "decode_proposal_id encoded =
     (case split_once 58 encoded of
        None \<Rightarrow> Inl Invalid
      | Some (nonce, digits) \<Rightarrow>
          if byte_len nonce \<noteq> 32 \<or> \<not> list_all is_lower_hex nonce then Inl Invalid
          else case parse_u64 digits of
              None \<Rightarrow> Inl Invalid
            | Some n \<Rightarrow>
                let i = \<lparr>pid_nonce = unhex_bytes nonce, pid_sequence = n\<rparr> in
                if n = 0 \<or> encode_proposal_id i \<noteq> encoded then Inl Invalid else Inr i)"

section \<open>Proposals and cards\<close>

record continuity_draft =
  draft_scope :: work_scope
  draft_base_revision :: u64
  draft_presented_text :: rstr
  draft_source_refs :: "work_content_ref fset"

record continuity_proposal =
  cpr_id :: proposal_id
  cpr_actor :: u64
  cpr_scope :: work_scope
  cpr_base_revision :: u64
  cpr_presented_text :: rstr
  cpr_source_refs :: "work_content_ref fset"
  cpr_expires_at :: u64

record proposal_registry =
  reg_boot_nonce :: "nat list"
  reg_sequence :: u64
  reg_proposals :: "(proposal_id, continuity_proposal) fmap"

definition new_registry :: "nat list \<Rightarrow> proposal_registry" where
  "new_registry nonce = \<lparr>reg_boot_nonce = nonce, reg_sequence = 0, reg_proposals = fmempty\<rparr>"

record continuity_card =
  card_schema_version :: nat
  card_scope :: work_scope
  card_confirmed_by :: u64
  card_revision :: u64
  card_confirmed_text :: rstr
  card_source_refs :: "work_content_ref fset"
  card_expires_at :: u64
  card_episode_receipt :: "rstr option"

type_synonym card_store = "(work_scope, continuity_card) fmap"

record authorized_continuity =
  au_card :: continuity_card
  au_actor :: u64
  au_channel :: u64

section \<open>Guards\<close>

definition within_lifetime :: "u64 \<Rightarrow> nat \<Rightarrow> u64 \<Rightarrow> bool" where
  "within_lifetime expires_at lifetime now =
     is_some_and (checked_sub expires_at lifetime) (\<lambda>created. created \<le> now \<and> now < expires_at)"

definition authorize_scope :: "work_scope \<Rightarrow> work_access \<Rightarrow> work_store \<Rightarrow> bool \<Rightarrow> work_error + unit" where
  "authorize_scope scope a work manager =
     (if \<not> valid_scope scope \<or> acc_actor a = 0 \<or> acc_channel a = 0 \<or> \<not> acc_can_view a
         \<or> scope \<noteq> access_scope a then Inl Denied
      else rbind (scope_projects work scope a manager) (\<lambda>_. Inr ()))"

definition content_ok :: "rstr \<Rightarrow> work_content_ref fset \<Rightarrow> bool" where
  "content_ok s refs \<longleftrightarrow> \<not> (trim s = [] \<or> max_text_bytes < byte_len s
     \<or> list_ex (\<lambda>c. is_control c \<and> c \<noteq> 10) s \<or> max_sources < fcard refs) \<and> fBall refs ref_valid"

definition validate_content :: "rstr \<Rightarrow> work_content_ref fset \<Rightarrow> work_error + unit" where
  "validate_content s refs = ensure Invalid (content_ok s refs)"

definition receipt_ok :: "rstr \<Rightarrow> bool" where
  "receipt_ok r \<longleftrightarrow> byte_len r = 64 \<and> list_all is_lower_hex r"

definition card_ok :: "continuity_card \<Rightarrow> bool" where
  "card_ok c \<longleftrightarrow> \<not> (card_schema_version c \<noteq> 1 \<or> card_revision c = 0 \<or> card_confirmed_by c = 0
     \<or> \<not> valid_scope (card_scope c) \<or> checked_sub (card_expires_at c) card_lifetime = None
     \<or> (case card_scope c of ScopePersonal owner \<Rightarrow> owner \<noteq> card_confirmed_by c | ScopeTeam _ _ \<Rightarrow> False))
     \<and> is_none_or (card_episode_receipt c) receipt_ok
     \<and> content_ok (card_confirmed_text c) (card_source_refs c)"

definition validate_card :: "continuity_card \<Rightarrow> work_error + unit" where
  "validate_card c = ensure Invalid (card_ok c)"

fun source_matches :: "work_store \<Rightarrow> work_content_ref \<Rightarrow> bool" where
  "source_matches work (RefTask pid i revision) =
     is_some_and (fmlookup (ws_tasks work) i)
       (\<lambda>t. task_id t = i \<and> task_project_id t = pid \<and> task_revision t = revision)"
| "source_matches work (RefDecision pid i revision) =
     is_some_and (fmlookup (ws_decisions work) i)
       (\<lambda>d. dec_id d = i \<and> dec_project_id d = pid \<and> revision = 1)"

definition source_current :: "work_scope \<Rightarrow> work_store \<Rightarrow> work_content_ref \<Rightarrow> bool" where
  "source_current scope work r \<longleftrightarrow> \<not> (\<not> source_matches work r
     \<or> is_none_or (fmlookup (ws_projects work) (ref_project r))
         (\<lambda>p. proj_id p \<noteq> ref_project r \<or> proj_scope p \<noteq> scope))"

definition validate_sources :: "work_scope \<Rightarrow> work_content_ref fset \<Rightarrow> work_store \<Rightarrow> work_error + unit" where
  "validate_sources scope refs work = ensure Stale (fBall refs (source_current scope work))"

section \<open>The registry of proposals\<close>

definition fresh_proposals :: "u64 \<Rightarrow> proposal_registry \<Rightarrow> (proposal_id, continuity_proposal) fmap" where
  "fresh_proposals now reg = fm_retain (\<lambda>_ p. now < cpr_expires_at p) (reg_proposals reg)"

definition new_proposal :: "continuity_draft \<Rightarrow> u64 \<Rightarrow> proposal_id \<Rightarrow> u64 \<Rightarrow> continuity_proposal" where
  "new_proposal d actor i expires_at =
     \<lparr>cpr_id = i, cpr_actor = actor, cpr_scope = draft_scope d, cpr_base_revision = draft_base_revision d,
      cpr_presented_text = draft_presented_text d, cpr_source_refs = draft_source_refs d, cpr_expires_at = expires_at\<rparr>"

definition registry_propose ::
  "continuity_draft \<Rightarrow> work_access \<Rightarrow> work_store \<Rightarrow> u64 \<Rightarrow> proposal_registry
     \<Rightarrow> (work_error + continuity_proposal) \<times> proposal_registry" where
  "registry_propose d a work now reg =
     (case authorize_scope (draft_scope d) a work False of
        Inl e \<Rightarrow> (Inl e, reg)
      | Inr _ \<Rightarrow>
     (case validate_content (draft_presented_text d) (draft_source_refs d) of
        Inl e \<Rightarrow> (Inl e, reg)
      | Inr _ \<Rightarrow>
     (case validate_sources (draft_scope d) (draft_source_refs d) work of
        Inl e \<Rightarrow> (Inl e, reg)
      | Inr _ \<Rightarrow>
     (case checked_add now proposal_lifetime of
        None \<Rightarrow> (Inl Invalid, reg)
      | Some expires_at \<Rightarrow>
     (case checked_add (reg_sequence reg) 1 of
        None \<Rightarrow> (Inl Full, reg)
      | Some n \<Rightarrow>
          if max_proposals \<le> fm_len (fresh_proposals now reg) then (Inl Full, reg)
          else
            let i = \<lparr>pid_nonce = reg_boot_nonce reg, pid_sequence = n\<rparr>;
                p = new_proposal d (acc_actor a) i expires_at in
            (Inr p, reg\<lparr>reg_sequence := n, reg_proposals := fmupd i p (fresh_proposals now reg)\<rparr>))))))"

text \<open>The grant a resolution returns is the proposal itself, taken out of the registry.\<close>

definition resolve_confirmation ::
  "proposal_id \<Rightarrow> u64 \<Rightarrow> work_scope \<Rightarrow> u64 \<Rightarrow> proposal_registry
     \<Rightarrow> (work_error + continuity_proposal) \<times> proposal_registry" where
  "resolve_confirmation i actor scope now reg =
     (case fmlookup (reg_proposals reg) i of
        None \<Rightarrow> (Inl Missing, reg)
      | Some p \<Rightarrow>
          if actor \<noteq> cpr_actor p \<or> scope \<noteq> cpr_scope p then (Inl Denied, reg)
          else if \<not> within_lifetime (cpr_expires_at p) proposal_lifetime now
          then (Inl Stale, if cpr_expires_at p \<le> now
            then reg\<lparr>reg_proposals := fmdrop i (reg_proposals reg)\<rparr> else reg)
          else (Inr p, reg\<lparr>reg_proposals := fmdrop i (reg_proposals reg)\<rparr>))"

section \<open>The store of cards\<close>

definition live_card :: "u64 \<Rightarrow> continuity_card \<Rightarrow> bool" where
  "live_card now c \<longleftrightarrow> now < card_expires_at c \<or> card_episode_receipt c \<noteq> None"

definition confirmed_card :: "continuity_proposal \<Rightarrow> u64 \<Rightarrow> u64 \<Rightarrow> continuity_card" where
  "confirmed_card p revision expires_at =
     \<lparr>card_schema_version = 1, card_scope = cpr_scope p, card_confirmed_by = cpr_actor p, card_revision = revision,
      card_confirmed_text = cpr_presented_text p, card_source_refs = cpr_source_refs p,
      card_expires_at = expires_at, card_episode_receipt = None\<rparr>"

definition continuity_confirm ::
  "continuity_proposal \<Rightarrow> work_access \<Rightarrow> work_store \<Rightarrow> u64 \<Rightarrow> card_store
     \<Rightarrow> (work_error + continuity_card) \<times> card_store" where
  "continuity_confirm p a work now cards =
     (if cpr_actor p \<noteq> acc_actor a then (Inl Denied, cards)
      else case authorize_scope (cpr_scope p) a work True of
        Inl e \<Rightarrow> (Inl e, cards)
      | Inr _ \<Rightarrow>
     (if \<not> within_lifetime (cpr_expires_at p) proposal_lifetime now then (Inl Stale, cards)
      else case validate_content (cpr_presented_text p) (cpr_source_refs p) of
        Inl e \<Rightarrow> (Inl e, cards)
      | Inr _ \<Rightarrow>
     (case validate_sources (cpr_scope p) (cpr_source_refs p) work of
        Inl e \<Rightarrow> (Inl e, cards)
      | Inr _ \<Rightarrow>
     (let current_revision = (case fmlookup cards (cpr_scope p) of None \<Rightarrow> 0 | Some c \<Rightarrow> card_revision c) in
      if current_revision \<noteq> cpr_base_revision p then (Inl Stale, cards)
      else case checked_add current_revision 1 of
        None \<Rightarrow> (Inl Full, cards)
      | Some revision \<Rightarrow>
     (case checked_add now card_lifetime of
        None \<Rightarrow> (Inl Invalid, cards)
      | Some expires_at \<Rightarrow>
          if max_cards \<le> fm_len (fm_retain (\<lambda>_ c. card_scope c \<noteq> cpr_scope p \<and> live_card now c) cards)
          then (Inl Full, cards)
          else
            let c = confirmed_card p revision expires_at in
            (Inr c, fmupd (card_scope c) c (fm_retain (\<lambda>_ c. live_card now c) cards)))))))"

definition continuity_context ::
  "work_scope \<Rightarrow> work_access \<Rightarrow> work_store \<Rightarrow> u64 \<Rightarrow> card_store \<Rightarrow> authorized_continuity option" where
  "continuity_context scope a work now cards =
     (case fmlookup cards scope of
        None \<Rightarrow> None
      | Some c \<Rightarrow>
          if authorize_scope scope a work False \<noteq> Inr () then None
          else if validate_card c \<noteq> Inr () then None
          else if \<not> within_lifetime (card_expires_at c) card_lifetime now then None
          else if validate_sources scope (card_source_refs c) work \<noteq> Inr () then None
          else Some \<lparr>au_card = c, au_actor = acc_actor a, au_channel = acc_channel a\<rparr>)"

definition replace_exact ::
  "work_scope \<Rightarrow> continuity_card option \<Rightarrow> continuity_card option \<Rightarrow> card_store
     \<Rightarrow> (work_error + unit) \<times> card_store" where
  "replace_exact scope expected replacement cards =
     (let current = fmlookup cards scope in
      if current \<noteq> expected \<and> current \<noteq> replacement then (Inl Stale, cards)
      else case replacement of
        None \<Rightarrow> (Inr (), fmdrop scope cards)
      | Some c \<Rightarrow>
          if card_scope c \<noteq> scope then (Inl Invalid, cards)
          else case validate_card c of
            Inl e \<Rightarrow> (Inl e, cards)
          | Inr _ \<Rightarrow> (Inr (), fmupd scope c cards))"

definition install_receipt ::
  "continuity_card \<Rightarrow> rstr \<Rightarrow> card_store \<Rightarrow> (work_error + continuity_card) \<times> card_store" where
  "install_receipt c receipt cards =
     (if fmlookup cards (card_scope c) \<noteq> Some c then (Inl Stale, cards)
      else
        let admitted = c\<lparr>card_episode_receipt := Some receipt\<rparr> in
        case validate_card admitted of
          Inl e \<Rightarrow> (Inl e, cards)
        | Inr _ \<Rightarrow> (Inr admitted, fmupd (card_scope admitted) admitted cards))"

definition remove_exact :: "continuity_card \<Rightarrow> card_store \<Rightarrow> (work_error + unit) \<times> card_store" where
  "remove_exact c cards =
     (if fmlookup cards (card_scope c) \<noteq> Some c then (Inl Stale, cards)
      else (Inr (), fmdrop (card_scope c) cards))"

definition prune_current :: "work_store \<Rightarrow> u64 \<Rightarrow> card_store \<Rightarrow> card_store" where
  "prune_current work now =
     fm_retain (\<lambda>scope c. card_episode_receipt c \<noteq> None
       \<or> (within_lifetime (card_expires_at c) card_lifetime now
          \<and> validate_sources scope (card_source_refs c) work = Inr ()
          \<and> fm_any (\<lambda>_ p. proj_scope p = scope) (ws_projects work)))"

definition continuity_clear ::
  "work_scope \<Rightarrow> work_access \<Rightarrow> work_store \<Rightarrow> card_store
     \<Rightarrow> (work_error + continuity_card option) \<times> card_store" where
  "continuity_clear scope a work cards =
     (case authorize_scope scope a work True of
        Inl e \<Rightarrow> (Inl e, cards)
      | Inr _ \<Rightarrow> (Inr (fmlookup cards scope), fmdrop scope cards))"

fun source_linked :: "work_store \<Rightarrow> u64 \<Rightarrow> work_content_ref \<Rightarrow> bool" where
  "source_linked work member (RefTask pid i _) =
     is_some_and (fmlookup (ws_tasks work) i) (\<lambda>t. task_id t = i \<and> task_project_id t = pid
       \<and> (task_owner t = member \<or> task_assignee t = Some member))"
| "source_linked work member (RefDecision pid i _) =
     is_some_and (fmlookup (ws_decisions work) i)
       (\<lambda>d. dec_id d = i \<and> dec_project_id d = pid \<and> dec_author d = member)"

definition linked_to :: "continuity_card \<Rightarrow> u64 option \<Rightarrow> work_store \<Rightarrow> bool" where
  "linked_to c member work = is_none_or member (\<lambda>m. card_confirmed_by c = m
     \<or> fBex (card_source_refs c) (source_linked work m))"

fun gate_scope :: "work_scope \<Rightarrow> rstr" where
  "gate_scope (ScopePersonal owner) = lit ''discord:dm:'' @ decimal owner"
| "gate_scope (ScopeTeam guild _) = lit ''discord:'' @ decimal guild"

definition erasure_targets :: "rstr \<Rightarrow> u64 option \<Rightarrow> work_store \<Rightarrow> card_store \<Rightarrow> continuity_card list" where
  "erasure_targets scope member work cards =
     filter (\<lambda>c. gate_scope (card_scope c) = scope \<and> linked_to c member work) (fm_values cards)"

text \<open>The saved form is the list of cards; loading rejects duplicates and surplus.\<close>

fun load_cards :: "continuity_card list \<Rightarrow> card_store \<Rightarrow> card_store option" where
  "load_cards [] cards = Some cards"
| "load_cards (c # cs) cards =
     (if validate_card c \<noteq> Inr () then None
      else if fmlookup cards (card_scope c) \<noteq> None then None
      else load_cards cs (fmupd (card_scope c) c cards))"

definition load_continuity :: "continuity_card list \<Rightarrow> card_store option" where
  "load_continuity saved = (if max_cards < length saved then None else load_cards saved fmempty)"

definition save_continuity :: "card_store \<Rightarrow> continuity_card list" where
  "save_continuity cards = fm_values cards"

definition authorized_current :: "authorized_continuity \<Rightarrow> card_store \<Rightarrow> work_store \<Rightarrow> u64 \<Rightarrow> bool" where
  "authorized_current v cards work now =
     (let a = \<lparr>acc_actor = au_actor v,
        acc_guild = (case card_scope (au_card v) of ScopePersonal _ \<Rightarrow> None | ScopeTeam guild _ \<Rightarrow> Some guild),
        acc_channel = au_channel v, acc_can_view = True, acc_can_manage = False\<rparr> in
      continuity_context (card_scope (au_card v)) a work now cards = Some v)"

section \<open>Encoded identities\<close>

definition proposal_id_ok :: "proposal_id \<Rightarrow> bool" where
  "proposal_id_ok i \<longleftrightarrow> length (pid_nonce i) = 16 \<and> list_all (\<lambda>b. b < 256) (pid_nonce i)
     \<and> 0 < pid_sequence i \<and> pid_sequence i \<le> u64_max"

lemma hex_digit_lower: "n < 16 \<Longrightarrow> is_lower_hex (hex_digit n) \<and> hex_value (hex_digit n) = n \<and> hex_digit n < 128"
  by (auto simp: is_lower_hex_def hex_digit_def hex_value_def)

lemma hex_value_less: "is_lower_hex c \<Longrightarrow> hex_value c < 16"
  by (auto simp: is_lower_hex_def hex_value_def)

lemma unhex_hex [simp]: "list_all (\<lambda>b. b < 256) bs \<Longrightarrow> unhex_bytes (concat (map hex_byte bs)) = bs"
proof (induction bs)
  case Nil
  then show ?case by simp
next
  case (Cons b bs)
  then have "b div 16 < 16" "b mod 16 < 16" by auto
  with Cons hex_digit_lower show ?case by (simp add: hex_byte_def)
qed

lemma hex_bytes_lower: "list_all (\<lambda>b. b < 256) bs
    \<Longrightarrow> list_all is_lower_hex (concat (map hex_byte bs)) \<and> byte_len (concat (map hex_byte bs)) = 2 * length bs"
proof (induction bs)
  case Nil
  then show ?case by simp
next
  case (Cons b bs)
  then have "b div 16 < 16" "b mod 16 < 16" by auto
  with Cons hex_digit_lower [of "b div 16"] hex_digit_lower [of "b mod 16"] show ?case
    by (simp add: hex_byte_def utf8_len_def)
qed

lemma unhex_ok: "list_all is_lower_hex s \<Longrightarrow> list_all (\<lambda>b. b < 256) (unhex_bytes s) \<and> length (unhex_bytes s) = length s div 2"
proof (induction s rule: unhex_bytes.induct)
  case (1 a b s)
  then have "hex_value a < 16" "hex_value b < 16" by (simp_all add: hex_value_less)
  with 1 show ?case by simp
qed simp_all

lemma lower_hex_len: "list_all is_lower_hex s \<Longrightarrow> byte_len s = length s"
  by (induction s) (auto simp: is_lower_hex_def utf8_len_def)

lemma decode_proposal_id_Inr:
  "decode_proposal_id encoded = Inr i \<Longrightarrow> proposal_id_ok i \<and> encode_proposal_id i = encoded"
  using unhex_ok lower_hex_len
  by (auto simp: decode_proposal_id_def proposal_id_ok_def Let_def dest: parse_u64_bound
      split: option.splits if_splits prod.splits)

lemma lower_hex_no_colon: "list_all is_lower_hex s \<Longrightarrow> 58 \<notin> set s"
  by (auto simp: list_all_iff is_lower_hex_def)

lemma decode_encode_proposal_id: "proposal_id_ok i \<Longrightarrow> decode_proposal_id (encode_proposal_id i) = Inr i"
proof -
  assume ok: "proposal_id_ok i"
  let ?nonce = "concat (map hex_byte (pid_nonce i))"
  from ok hex_bytes_lower have hex: "list_all is_lower_hex ?nonce" "byte_len ?nonce = 32"
    by (simp_all add: proposal_id_ok_def)
  then have "split_once 58 (encode_proposal_id i) = Some (?nonce, decimal (pid_sequence i))"
    using lower_hex_no_colon [OF hex(1)] by (simp add: split_once_Some encode_proposal_id_def)
  with ok hex show ?thesis
    by (cases i) (simp add: decode_proposal_id_def proposal_id_ok_def Let_def)
qed

definition decoded_id :: "rstr \<Rightarrow> proposal_id option" where
  "decoded_id s = (case decode_proposal_id s of Inl _ \<Rightarrow> None | Inr i \<Rightarrow> Some i)"

interpretation proposal_ids: codec encode_proposal_id decoded_id proposal_id_ok
  by unfold_locales (auto simp: decoded_id_def decode_encode_proposal_id dest: decode_proposal_id_Inr split: sum.splits)

section \<open>Operations read forwards\<close>

lemma registry_proposeE:
  assumes "registry_propose d a work now reg = (r, reg')"
  obtains (failed) e where "r = Inl e" "reg' = reg"
  | (proposed) i where "authorize_scope (draft_scope d) a work False = Inr ()"
      "content_ok (draft_presented_text d) (draft_source_refs d)"
      "fBall (draft_source_refs d) (source_current (draft_scope d) work)"
      "now + proposal_lifetime \<le> u64_max" "reg_sequence reg + 1 \<le> u64_max"
      "i = \<lparr>pid_nonce = reg_boot_nonce reg, pid_sequence = reg_sequence reg + 1\<rparr>"
      "r = Inr (new_proposal d (acc_actor a) i (now + proposal_lifetime))"
      "reg' = reg\<lparr>reg_sequence := reg_sequence reg + 1, reg_proposals :=
         fmupd i (new_proposal d (acc_actor a) i (now + proposal_lifetime)) (fresh_proposals now reg)\<rparr>"
  using assms unfolding registry_propose_def Let_def validate_content_def validate_sources_def
  by (elim guardE guard_sumE guard_optionE) ((rule failed; assumption) | (rule proposed [OF _ _ _ _ _ refl]; auto))+

lemma resolve_confirmationE:
  assumes "resolve_confirmation i actor scope now reg = (r, reg')"
  obtains (failed) e where "r = Inl e" "reg' = reg \<or> reg' = reg\<lparr>reg_proposals := fmdrop i (reg_proposals reg)\<rparr>"
  | (resolved) p where "fmlookup (reg_proposals reg) i = Some p" "actor = cpr_actor p" "scope = cpr_scope p"
      "within_lifetime (cpr_expires_at p) proposal_lifetime now" "r = Inr p"
      "reg' = reg\<lparr>reg_proposals := fmdrop i (reg_proposals reg)\<rparr>"
proof (cases "fmlookup (reg_proposals reg) i")
  case None
  with assms show ?thesis by (auto simp: resolve_confirmation_def intro: failed)
next
  case (Some p)
  with assms show ?thesis
    by (auto simp: resolve_confirmation_def split: if_splits intro: failed resolved)
qed

lemma continuity_confirmE:
  assumes "continuity_confirm p a work now cards = (r, cards')"
  obtains (failed) e where "r = Inl e" "cards' = cards"
  | (confirmed) c where "cpr_actor p = acc_actor a" "authorize_scope (cpr_scope p) a work True = Inr ()"
      "within_lifetime (cpr_expires_at p) proposal_lifetime now"
      "content_ok (cpr_presented_text p) (cpr_source_refs p)"
      "fBall (cpr_source_refs p) (source_current (cpr_scope p) work)"
      "cpr_base_revision p = (case fmlookup cards (cpr_scope p) of None \<Rightarrow> 0 | Some c \<Rightarrow> card_revision c)"
      "now + card_lifetime \<le> u64_max"
      "fm_len (fm_retain (\<lambda>_ c. card_scope c \<noteq> cpr_scope p \<and> live_card now c) cards) < max_cards"
      "c = confirmed_card p (cpr_base_revision p + 1) (now + card_lifetime)"
      "r = Inr c" "cards' = fmupd (cpr_scope p) c (fm_retain (\<lambda>_ c. live_card now c) cards)"
  using assms unfolding continuity_confirm_def Let_def validate_content_def validate_sources_def
  by (elim guardE guard_sumE guard_optionE) ((rule failed; assumption) | (rule confirmed [OF _ _ _ _ _ _ _ _ refl]; auto simp: confirmed_card_def))+

lemma continuity_context_Some:
  "continuity_context scope a work now cards = Some v \<longleftrightarrow>
     (\<exists>c. fmlookup cards scope = Some c \<and> authorize_scope scope a work False = Inr () \<and> card_ok c
       \<and> within_lifetime (card_expires_at c) card_lifetime now
       \<and> fBall (card_source_refs c) (source_current scope work)
       \<and> v = \<lparr>au_card = c, au_actor = acc_actor a, au_channel = acc_channel a\<rparr>)"
  by (auto simp: continuity_context_def validate_card_def validate_sources_def ensure_def split: option.splits if_splits)

lemma replace_exactE:
  assumes "replace_exact scope expected replacement cards = (r, cards')"
  obtains (failed) e where "r = Inl e" "cards' = cards"
  | (removed) "replacement = None" "r = Inr ()" "cards' = fmdrop scope cards"
  | (replaced) c where "replacement = Some c" "card_scope c = scope" "card_ok c" "r = Inr ()" "cards' = fmupd scope c cards"
  using assms unfolding replace_exact_def Let_def validate_card_def
  by (auto split: if_splits option.splits sum.splits)

section \<open>Well-formed stores\<close>

definition cards_ok :: "card_store \<Rightarrow> bool" where
  "cards_ok = fm_all (\<lambda>scope c. card_scope c = scope \<and> card_ok c)"

lemma authorize_scope_Inr:
  "authorize_scope scope a work manager = Inr () \<longleftrightarrow> valid_scope scope \<and> acc_actor a \<noteq> 0 \<and> acc_channel a \<noteq> 0
     \<and> acc_can_view a \<and> scope = access_scope a \<and> (\<exists>ps. scope_projects work scope a manager = Inr ps)"
  by (auto simp: authorize_scope_def)

lemma confirmed_card_ok:
  assumes "continuity_confirm p a work now cards = (Inr c, cards')"
  shows "card_ok c"
  using assms
proof (cases rule: continuity_confirmE)
  case (confirmed c')
  from confirmed(1,2) have "case cpr_scope p of ScopePersonal owner \<Rightarrow> owner = cpr_actor p | ScopeTeam _ _ \<Rightarrow> True"
      and "cpr_actor p \<noteq> 0" "valid_scope (cpr_scope p)"
    by (auto simp: authorize_scope_Inr access_scope_def split: option.splits)
  moreover from confirmed(9,10) have "c = confirmed_card p (cpr_base_revision p + 1) (now + card_lifetime)" by simp
  ultimately show ?thesis using confirmed(4)
    by (cases "cpr_scope p") (simp_all add: card_ok_def confirmed_card_def)
qed simp

lemma cards_ok_upd: "cards_ok cards \<Longrightarrow> card_ok c \<Longrightarrow> cards_ok (fmupd (card_scope c) c cards)"
  by (auto simp: cards_ok_def fm_all_iff)

lemma cards_ok_retain: "cards_ok cards \<Longrightarrow> cards_ok (fm_retain P cards)"
  by (auto simp: cards_ok_def fm_all_iff split: option.splits if_splits)

lemma cards_ok_drop: "cards_ok cards \<Longrightarrow> cards_ok (fmdrop scope cards)"
  by (auto simp: cards_ok_def fm_all_iff split: if_splits)

lemma cards_okD: "cards_ok cards \<Longrightarrow> fmlookup cards scope = Some c \<Longrightarrow> card_scope c = scope \<and> card_ok c"
  by (simp add: cards_ok_def fm_all_iff)

lemma cards_ok_confirm:
  "cards_ok cards \<Longrightarrow> continuity_confirm p a work now cards = (r, cards') \<Longrightarrow> cards_ok cards'"
proof -
  assume ok: "cards_ok cards" and confirm: "continuity_confirm p a work now cards = (r, cards')"
  from confirm show ?thesis
  proof (cases rule: continuity_confirmE)
    case failed
    with ok show ?thesis by simp
  next
    case (confirmed c)
    from confirm confirmed(10) have "card_ok c" using confirmed_card_ok by blast
    moreover from confirmed(9) have "card_scope c = cpr_scope p" by (simp add: confirmed_card_def)
    ultimately show ?thesis
      using cards_ok_upd [OF cards_ok_retain [OF ok], of c] unfolding confirmed(11) by simp
  qed
qed

lemma fm_len_upd_drop: "fm_len (fmupd k v m) = Suc (fm_len (fmdrop k m))"
proof -
  have "fmupd k v m = fmupd k v (fmdrop k m)" by (rule fmap_ext) auto
  then show ?thesis by (simp add: fm_len_upd)
qed

lemma confirm_within_limit:
  assumes "continuity_confirm p a work now cards = (Inr c, cards')" and "cards_ok cards"
  shows "fm_len cards' \<le> max_cards"
  using assms(1)
proof (cases rule: continuity_confirmE)
  case (confirmed c')
  let ?rest = "fm_retain (\<lambda>_ c. card_scope c \<noteq> cpr_scope p \<and> live_card now c) cards"
  have "fmdrop (cpr_scope p) (fm_retain (\<lambda>_ c. live_card now c) cards) = ?rest"
    using assms(2) by (intro fmap_ext) (auto dest: cards_okD split: option.splits)
  then have "fm_len cards' \<le> Suc (fm_len ?rest)"
    using fm_len_upd_le [of "cpr_scope p" c' ?rest] confirmed(9,11)
    by (simp add: fm_len_upd_drop)
  with confirmed(8) show ?thesis by simp
qed simp

lemma cards_ok_replace:
  "cards_ok cards \<Longrightarrow> replace_exact scope expected replacement cards = (r, cards') \<Longrightarrow> cards_ok cards'"
  by (erule replace_exactE) (auto intro: cards_ok_drop cards_ok_upd)

lemma cards_ok_install:
  "cards_ok cards \<Longrightarrow> install_receipt c receipt cards = (r, cards') \<Longrightarrow> cards_ok cards'"
  using cards_ok_upd [of cards "c\<lparr>card_episode_receipt := Some receipt\<rparr>"]
  by (auto simp: install_receipt_def Let_def validate_card_def ensure_def split: if_splits)

section \<open>Saving and loading\<close>

lemma load_cards_Some:
  "load_cards cs m = Some m' \<Longrightarrow> cards_ok m \<Longrightarrow> cards_ok m' \<and> fm_len m' = fm_len m + length cs"
proof (induction cs arbitrary: m)
  case Nil
  then show ?case by simp
next
  case (Cons c cs)
  from Cons.prems(1) have c: "card_ok c" "fmlookup m (card_scope c) = None"
      and rest: "load_cards cs (fmupd (card_scope c) c m) = Some m'"
    by (auto simp: validate_card_def ensure_def split: if_splits)
  from Cons.IH [OF rest cards_ok_upd [OF Cons.prems(2) c(1)]] c(2) show ?case by (simp add: fm_len_upd)
qed

lemma load_cards_total:
  "list_all card_ok cs \<Longrightarrow> distinct (map card_scope cs) \<Longrightarrow> (\<forall>c \<in> set cs. fmlookup m (card_scope c) = None)
     \<Longrightarrow> \<exists>m'. load_cards cs m = Some m' \<and> (\<forall>k. fmlookup m' k =
       (case map_of (map (\<lambda>c. (card_scope c, c)) cs) k of None \<Rightarrow> fmlookup m k | Some c \<Rightarrow> Some c))"
proof (induction cs arbitrary: m)
  case Nil
  then show ?case by simp
next
  case (Cons c cs)
  let ?m = "fmupd (card_scope c) c m"
  from Cons.prems have "\<forall>c' \<in> set cs. fmlookup ?m (card_scope c') = None" by (auto simp: image_iff)
  with Cons.IH [of ?m] Cons.prems obtain m' where m': "load_cards cs ?m = Some m'"
      "\<forall>k. fmlookup m' k = (case map_of (map (\<lambda>c. (card_scope c, c)) cs) k of None \<Rightarrow> fmlookup ?m k | Some c \<Rightarrow> Some c)"
    by auto
  from Cons.prems have "map_of (map (\<lambda>c. (card_scope c, c)) cs) (card_scope c) = None"
    by (auto simp: map_of_eq_None_iff image_iff)
  with m'(2) have "\<forall>k. fmlookup m' k =
      (case map_of (map (\<lambda>c. (card_scope c, c)) (c # cs)) k of None \<Rightarrow> fmlookup m k | Some c \<Rightarrow> Some c)"
    by (auto split: option.splits)
  with m'(1) Cons.prems show ?case by (auto simp: validate_card_def ensure_def)
qed

lemma saved_pairs:
  "cards_ok cards \<Longrightarrow> map (\<lambda>c. (card_scope c, c)) (fm_values cards) = map (\<lambda>k. (k, the (fmlookup cards k))) (fm_keys cards)"
  by (auto simp: fm_values_def fmlookup_dom'_iff dest!: cards_okD)

lemma load_saved_cards:
  assumes "cards_ok cards"
  shows "load_cards (fm_values cards) fmempty = Some cards"
proof -
  have scopes: "map card_scope (fm_values cards) = fm_keys cards"
    using arg_cong [OF saved_pairs [OF assms], of "map fst"] by (simp add: comp_def)
  have "list_all card_ok (fm_values cards)"
    using assms by (auto simp: list_all_iff fmlookup_ran'_iff dest: cards_okD)
  with load_cards_total [of "fm_values cards" fmempty] scopes obtain m' where m':
      "load_cards (fm_values cards) fmempty = Some m'"
      "\<forall>k. fmlookup m' k = (case map_of (map (\<lambda>c. (card_scope c, c)) (fm_values cards)) k of
        None \<Rightarrow> fmlookup fmempty k | Some c \<Rightarrow> Some c)"
    by auto
  have "fmlookup m' k = fmlookup cards k" for k
    using m'(2) unfolding saved_pairs [OF assms]
    by (auto simp: map_of_map_restrict restrict_map_def fmlookup_dom'_iff split: option.splits)
  then have "m' = cards" by (intro fmap_ext) simp
  with m'(1) show ?thesis by simp
qed

lemma load_save_continuity:
  "cards_ok cards \<Longrightarrow> load_continuity (save_continuity cards) = (if fm_len cards \<le> max_cards then Some cards else None)"
  by (simp add: load_continuity_def save_continuity_def load_saved_cards not_less)

lemma loaded_cards_ok: "load_continuity saved = Some cards \<Longrightarrow> cards_ok cards \<and> fm_len cards \<le> max_cards"
  using load_cards_Some [of saved fmempty cards]
  by (auto simp: load_continuity_def cards_ok_def split: if_splits)

end
