(* ===== verification/Continuity_Machine.thy ===== *)
theory Continuity_Machine
  imports Work_Continuity Machine
begin

text \<open>
  Continuity cards through the program: the commands of \<open>src/commands_work/continuity.rs\<close> with
  the registry of previews, the commit, clearing, reconciliation and erasure of
  \<open>src/runtime/continuity_commit.rs\<close> with their fence, and the admission of a card to a prompt
  (\<open>src/runtime/continuity_context.rs\<close>). A commit holds one lock for its whole duration, so it is
  one step here; what it learns while it waits (fresh access, the work store, the clock, the
  episode gate, the write of the state file) is in an environment record. Proposals and grants
  that a handler holds are part of the state.
\<close>

section \<open>The registry of the commands\<close>

definition max_pending :: nat where "max_pending = 256"

record human_registry =
  hr_proposals :: proposal_registry
  hr_epochs :: "(proposal_id, u64 \<times> u64) fmap"
  hr_presented :: "proposal_id fset"

definition human_prune :: "u64 \<Rightarrow> human_registry \<Rightarrow> human_registry" where
  "human_prune at' r =
     (let epochs = fm_retain (\<lambda>_ e. at' < snd e) (hr_epochs r) in
      r\<lparr>hr_epochs := epochs, hr_presented := ffilter (\<lambda>i. i |\<in>| fmdom epochs) (hr_presented r)\<rparr>)"

definition human_propose ::
  "continuity_draft \<Rightarrow> work_access \<Rightarrow> work_store \<Rightarrow> u64 \<Rightarrow> u64 \<Rightarrow> human_registry
     \<Rightarrow> (work_error + continuity_proposal) \<times> human_registry" where
  "human_propose d a work generation at' r0 =
     (if generation = 0 then (Inl Stale, r0)
      else
        let r = human_prune at' r0 in
        if max_pending \<le> fm_len (hr_epochs r) then (Inl Full, r)
        else case registry_propose d a work at' (hr_proposals r) of
            (Inl e, reg) \<Rightarrow> (Inl e, r\<lparr>hr_proposals := reg\<rparr>)
          | (Inr p, reg) \<Rightarrow> (Inr p, r\<lparr>hr_proposals := reg,
              hr_epochs := fmupd (cpr_id p) (generation, cpr_expires_at p) (hr_epochs r)\<rparr>))"

definition mark_presented ::
  "continuity_proposal \<Rightarrow> work_access \<Rightarrow> u64 \<Rightarrow> u64 \<Rightarrow> human_registry
     \<Rightarrow> (work_error + unit) \<times> human_registry" where
  "mark_presented p a generation at' r0 =
     (if cpr_actor p \<noteq> acc_actor a \<or> cpr_scope p \<noteq> access_scope a then (Inl Denied, r0)
      else
        let r = human_prune at' r0 in
        case fmlookup (hr_epochs r) (cpr_id p) of
          None \<Rightarrow> (Inl Missing, r)
        | Some (bound_generation, expires_at) \<Rightarrow>
            if generation = 0 \<or> bound_generation \<noteq> generation \<or> expires_at \<noteq> cpr_expires_at p
               \<or> expires_at \<le> at' then (Inl Stale, r)
            else (Inr (), r\<lparr>hr_presented := finsert (cpr_id p) (hr_presented r)\<rparr>))"

definition forget_preview :: "proposal_id \<Rightarrow> human_registry \<Rightarrow> human_registry" where
  "forget_preview i r = r\<lparr>hr_epochs := fmdrop i (hr_epochs r), hr_presented := hr_presented r |-| {|i|}\<rparr>"

definition human_resolve ::
  "proposal_id \<Rightarrow> work_access \<Rightarrow> u64 \<Rightarrow> u64 \<Rightarrow> human_registry
     \<Rightarrow> (work_error + continuity_proposal \<times> u64) \<times> human_registry" where
  "human_resolve i a generation at' r0 =
     (let r = human_prune at' r0 in
      case fmlookup (hr_epochs r) i of
        None \<Rightarrow> (Inl Missing, r)
      | Some (bound_generation, _) \<Rightarrow>
          if generation = 0 \<or> bound_generation \<noteq> generation \<or> i |\<notin>| hr_presented r then (Inl Stale, r)
          else case resolve_confirmation i (acc_actor a) (access_scope a) at' (hr_proposals r) of
              (Inl e, reg) \<Rightarrow> (Inl e, r\<lparr>hr_proposals := reg\<rparr>)
            | (Inr p, reg) \<Rightarrow> (Inr (p, bound_generation), forget_preview i (r\<lparr>hr_proposals := reg\<rparr>)))"

definition human_discard :: "proposal_id \<Rightarrow> work_access \<Rightarrow> u64 \<Rightarrow> human_registry \<Rightarrow> human_registry" where
  "human_discard i a at' r =
     human_prune at'
       (case resolve_confirmation i (acc_actor a) (access_scope a) at' (hr_proposals r) of
          (Inl _, reg) \<Rightarrow> r\<lparr>hr_proposals := reg\<rparr>
        | (Inr _, reg) \<Rightarrow> forget_preview i (r\<lparr>hr_proposals := reg\<rparr>))"

section \<open>The fence\<close>

record continuity_safety =
  sf_generation :: "u64 option"
  sf_blocked :: "work_scope fset"
  sf_pending :: "(work_scope, continuity_card option \<times> continuity_card option) fmap"
  sf_orphans :: "(work_scope, continuity_card) fmap"

definition new_safety :: continuity_safety where
  "new_safety = \<lparr>sf_generation = Some 1, sf_blocked = {||}, sf_pending = fmempty, sf_orphans = fmempty\<rparr>"

definition continuity_generation :: "work_scope \<Rightarrow> continuity_safety \<Rightarrow> u64 option" where
  "continuity_generation scope sf = (if scope |\<in>| sf_blocked sf then None else sf_generation sf)"

definition next_generation :: "continuity_safety \<Rightarrow> u64 option" where
  "next_generation sf = Option.bind (sf_generation sf) (\<lambda>g. checked_add g 1)"

definition fence_continuity ::
  "continuity_card list \<Rightarrow> continuity_safety \<Rightarrow> (work_error + unit) \<times> continuity_safety" where
  "fence_continuity cards sf0 =
     (let sf = sf0\<lparr>sf_generation := next_generation sf0\<rparr> in
      if sf_generation sf = None then (Inl Full, sf)
      else
        let sf = sf\<lparr>sf_blocked := sf_blocked sf |\<union>| fset_of_list (map card_scope cards)\<rparr> in
        if max_cards < fcard (sf_blocked sf) then (Inl Full, sf\<lparr>sf_generation := None\<rparr>)
        else (Inr (), sf))"

definition unfence_continuity :: "work_scope \<Rightarrow> continuity_safety \<Rightarrow> continuity_safety" where
  "unfence_continuity scope sf =
     (if scope |\<notin>| fmdom (sf_pending sf) \<and> scope |\<notin>| fmdom (sf_orphans sf)
      then sf\<lparr>sf_blocked := sf_blocked sf |-| {|scope|}\<rparr> else sf)"

definition reserve_recovery :: "work_scope \<Rightarrow> continuity_safety \<Rightarrow> work_error + unit" where
  "reserve_recovery scope sf =
     (if scope |\<in>| fmdom (sf_pending sf) \<or> scope |\<in>| fmdom (sf_orphans sf) then Inl Stale
      else if max_pending \<le> fm_len (sf_pending sf) + fm_len (sf_orphans sf)
        \<or> max_pending \<le> fcard (sf_blocked sf) \<and> scope |\<notin>| sf_blocked sf then Inl Full
      else Inr ())"

definition stage_continuity ::
  "work_scope \<Rightarrow> continuity_card option \<Rightarrow> continuity_card option \<Rightarrow> continuity_safety
     \<Rightarrow> (work_error + unit) \<times> continuity_safety" where
  "stage_continuity scope expected desired sf =
     (if scope |\<notin>| fmdom (sf_pending sf) \<and> max_pending \<le> fm_len (sf_pending sf) + fm_len (sf_orphans sf)
      then (Inl Full, sf)
      else
        let sf = sf\<lparr>sf_generation := next_generation sf, sf_blocked := finsert scope (sf_blocked sf),
            sf_pending := fmupd scope (expected, desired) (sf_pending sf)\<rparr> in
        (if sf_generation sf = None then Inl Full else Inr (), sf))"

section \<open>Snapshots and publication\<close>

record continuity_machine =
  km_registry :: human_registry
  km_previews :: "(continuity_proposal \<times> work_access \<times> u64) list"
  km_grants :: "(continuity_proposal \<times> u64) list"
  km_safety :: continuity_safety
  km_cards :: card_store

definition on_safety :: "(continuity_safety \<Rightarrow> continuity_safety) \<Rightarrow> continuity_machine \<Rightarrow> continuity_machine" where
  "on_safety f m = m\<lparr>km_safety := f (km_safety m)\<rparr>"

fun overlay_pending ::
  "(work_scope \<times> continuity_card option \<times> continuity_card option) list \<Rightarrow> card_store \<Rightarrow> card_store option" where
  "overlay_pending [] cards = Some cards"
| "overlay_pending ((scope, expected, desired) # ops) cards =
     (case replace_exact scope expected desired cards of
        (Inl _, _) \<Rightarrow> None
      | (Inr _, cards') \<Rightarrow> overlay_pending ops cards')"

definition pending_ops ::
  "continuity_safety \<Rightarrow> (work_scope \<times> continuity_card option \<times> continuity_card option) list" where
  "pending_ops sf = map (\<lambda>k. (k, the (fmlookup (sf_pending sf) k))) (fm_keys (sf_pending sf))"

text \<open>\<open>prepared\<close> says whether the rest of the state could be prepared for saving.\<close>

definition take_snapshot :: "bool \<Rightarrow> continuity_machine \<Rightarrow> card_store option \<times> continuity_machine" where
  "take_snapshot prepared m =
     (case overlay_pending (pending_ops (km_safety m)) (km_cards m) of
        None \<Rightarrow> (None, on_safety (\<lambda>sf. sf\<lparr>sf_generation := None\<rparr>) m)
      | Some cards \<Rightarrow> (if prepared then Some cards else None, m))"

text \<open>The write of a snapshot: refused, not found again as written, or read back exactly,
  with whether the writer reported it as committed.\<close>

datatype publish_outcome = SubmitFailed | ReadBackFailed | ReadBack bool

definition publish_continuity ::
  "card_store \<Rightarrow> work_scope \<Rightarrow> publish_outcome \<Rightarrow> continuity_machine \<Rightarrow> (work_error + unit) \<times> continuity_machine" where
  "publish_continuity snapshot scope outcome m =
     (case outcome of
        SubmitFailed \<Rightarrow> (Inl Persistence, m)
      | ReadBackFailed \<Rightarrow> (Inl Persistence, m)
      | ReadBack committed \<Rightarrow>
          if load_continuity (save_continuity snapshot) = None then (Inl Persistence, m)
          else case fmlookup (sf_pending (km_safety m)) scope of
            None \<Rightarrow> (Inl Stale, m)
          | Some (expected, _) \<Rightarrow>
              (case replace_exact scope expected (fmlookup snapshot scope) (km_cards m) of
                 (Inl e, cards) \<Rightarrow> (Inl e, m\<lparr>km_cards := cards\<rparr>)
               | (Inr _, cards) \<Rightarrow>
                   (if committed then Inr () else Inl Persistence,
                    on_safety (unfence_continuity scope)
                      (on_safety (\<lambda>sf. sf\<lparr>sf_pending := fmdrop scope (sf_pending sf)\<rparr>)
                        (m\<lparr>km_cards := cards\<rparr>)))))"

definition fresh_access ::
  "work_scope \<Rightarrow> u64 \<Rightarrow> u64 \<Rightarrow> work_error + work_access \<Rightarrow> work_error + work_access" where
  "fresh_access scope actor channel proof' =
     (case proof' of
        Inl e \<Rightarrow> Inl e
      | Inr a \<Rightarrow> if actor = 0 \<or> channel = 0 \<or> acc_actor a \<noteq> actor \<or> acc_channel a \<noteq> channel
          \<or> access_scope a \<noteq> scope \<or> \<not> acc_can_view a then Inl Denied else Inr a)"

section \<open>Confirming\<close>

record confirm_env =
  ce_access1 :: "work_error + work_access"
  ce_prepared :: bool
  ce_work1 :: work_store
  ce_now1 :: u64
  ce_gate :: bool
  ce_live :: bool
  ce_access2 :: "work_error + work_access"
  ce_work2 :: work_store
  ce_now2 :: u64
  ce_appended :: "rstr option"
  ce_access3 :: "work_error + work_access"
  ce_work3 :: work_store
  ce_now3 :: u64
  ce_publication :: publish_outcome

definition digest_parses :: "rstr \<Rightarrow> bool" where
  "digest_parses r \<longleftrightarrow> byte_len r = 64 \<and> list_all is_hex r \<and> \<not> list_all (\<lambda>c. c = 48) r"

definition grant_still_good ::
  "continuity_proposal \<Rightarrow> u64 \<Rightarrow> continuity_card option \<Rightarrow> card_store \<Rightarrow> work_error + work_access
     \<Rightarrow> work_store \<Rightarrow> u64 \<Rightarrow> continuity_machine \<Rightarrow> work_error + unit" where
  "grant_still_good p generation old snapshot access work now m =
     (case access of
        Inl e \<Rightarrow> Inl e
      | Inr a \<Rightarrow>
          if cpr_expires_at p \<le> now \<or> continuity_generation (cpr_scope p) (km_safety m) \<noteq> Some generation then Inl Stale
          else if fmlookup (km_cards m) (cpr_scope p) \<noteq> old then Inl Stale
          else case scope_projects work (cpr_scope p) a True of
              Inl e \<Rightarrow> Inl e
            | Inr _ \<Rightarrow>
                if continuity_context (cpr_scope p) a work now snapshot = None then Inl Stale else Inr ())"

text \<open>The episode gate, when there is one: the receipt of the replaced card is verified, the
  new card is appended and gets its receipt.\<close>

definition admit_card ::
  "confirm_env \<Rightarrow> continuity_proposal \<Rightarrow> u64 \<Rightarrow> u64 \<Rightarrow> u64 \<Rightarrow> continuity_card option \<Rightarrow> continuity_card
     \<Rightarrow> card_store \<Rightarrow> continuity_machine \<Rightarrow> work_error + continuity_card \<times> card_store" where
  "admit_card env p generation actor channel old c snapshot m =
     (let receipt = Option.bind old card_episode_receipt in
      if ce_gate env then
        rbind (case receipt of
            None \<Rightarrow> Inr ()
          | Some r \<Rightarrow>
              if \<not> ce_live env then Inl Stale
              else if \<not> digest_parses r then Inl Invalid
              else grant_still_good p generation old snapshot
                (fresh_access (cpr_scope p) actor channel (ce_access2 env)) (ce_work2 env) (ce_now2 env) m)
          (\<lambda>_. case ce_appended env of
              None \<Rightarrow> Inl Persistence
            | Some digest \<Rightarrow>
                (case install_receipt c digest snapshot of
                   (Inl e, _) \<Rightarrow> Inl e
                 | (Inr admitted, cards) \<Rightarrow> Inr (admitted, cards)))
      else if receipt \<noteq> None then Inl Persistence
      else Inr (c, snapshot))"

text \<open>A grant that failed after its card was admitted leaves the card as an orphan to forget.\<close>

definition orphan_card ::
  "work_error \<Rightarrow> continuity_card \<Rightarrow> continuity_machine \<Rightarrow> (work_error + continuity_card) \<times> continuity_machine" where
  "orphan_card e c m =
     (if card_episode_receipt c = None then (Inl e, m)
      else case fence_continuity [c] (km_safety m) of
          (Inl e', sf) \<Rightarrow> (Inl e', m\<lparr>km_safety := sf\<rparr>)
        | (Inr _, sf) \<Rightarrow> (Inl e, m\<lparr>km_safety := sf\<lparr>sf_orphans := fmupd (card_scope c) c (sf_orphans sf)\<rparr>\<rparr>))"

definition publish_card ::
  "publish_outcome \<Rightarrow> continuity_card option \<Rightarrow> continuity_card \<Rightarrow> card_store \<Rightarrow> continuity_machine
     \<Rightarrow> (work_error + continuity_card) \<times> continuity_machine" where
  "publish_card outcome old c snapshot m =
     (case stage_continuity (card_scope c) old (Some c) (km_safety m) of
        (Inl e, sf) \<Rightarrow> (Inl e, m\<lparr>km_safety := sf\<rparr>)
      | (Inr _, sf) \<Rightarrow>
          (case publish_continuity snapshot (card_scope c) outcome (m\<lparr>km_safety := sf\<rparr>) of
             (Inl e, m') \<Rightarrow> (Inl e, m')
           | (Inr _, m') \<Rightarrow> (Inr c, m')))"

definition confirm_in ::
  "confirm_env \<Rightarrow> continuity_proposal \<Rightarrow> u64 \<Rightarrow> u64 \<Rightarrow> u64 \<Rightarrow> work_access \<Rightarrow> card_store \<Rightarrow> continuity_machine
     \<Rightarrow> (work_error + continuity_card) \<times> continuity_machine" where
  "confirm_in env p generation actor channel a snapshot0 m =
     (let old = fmlookup snapshot0 (cpr_scope p) in
      case continuity_confirm p a (ce_work1 env) (ce_now1 env) snapshot0 of
        (Inl e, _) \<Rightarrow> (Inl e, m)
      | (Inr c0, snapshot1) \<Rightarrow>
          (case admit_card env p generation actor channel old c0 snapshot1 m of
             Inl e \<Rightarrow> (Inl e, m)
           | Inr (c, snapshot) \<Rightarrow>
               (case grant_still_good p generation old snapshot
                   (fresh_access (cpr_scope p) actor channel (ce_access3 env)) (ce_work3 env) (ce_now3 env) m of
                  Inl e \<Rightarrow> orphan_card e c m
                | Inr _ \<Rightarrow> publish_card (ce_publication env) old c snapshot m)))"

definition confirm_continuity ::
  "confirm_env \<Rightarrow> continuity_proposal \<Rightarrow> u64 \<Rightarrow> u64 \<Rightarrow> u64 \<Rightarrow> continuity_machine
     \<Rightarrow> (work_error + continuity_card) \<times> continuity_machine" where
  "confirm_continuity env p generation actor channel m =
     (let scope = cpr_scope p in
      case reserve_recovery scope (km_safety m) of
        Inl e \<Rightarrow> (Inl e, m)
      | Inr _ \<Rightarrow>
     (if continuity_generation scope (km_safety m) \<noteq> Some generation then (Inl Stale, m)
      else case fresh_access scope actor channel (ce_access1 env) of
        Inl e \<Rightarrow> (Inl e, m)
      | Inr a \<Rightarrow>
     (case take_snapshot (ce_prepared env) m of
        (None, m') \<Rightarrow> (Inl Persistence, m')
      | (Some snapshot, m') \<Rightarrow> confirm_in env p generation actor channel a snapshot m')))"

section \<open>Clearing, reconciling and erasing\<close>

text \<open>What forgetting one card learns: whether the gate forgot it, fresh access, the write.\<close>

record forget_env =
  fg_prepared1 :: bool
  fg_forgotten :: "work_error + unit"
  fg_access :: "work_error + work_access"
  fg_work :: work_store
  fg_prepared2 :: bool
  fg_publication :: publish_outcome

definition native_still_manages ::
  "(u64 \<times> u64) option \<Rightarrow> work_scope \<Rightarrow> forget_env \<Rightarrow> work_error + unit" where
  "native_still_manages native scope env =
     (case native of
        None \<Rightarrow> Inr ()
      | Some (actor, channel) \<Rightarrow>
          rbind (fresh_access scope actor channel (fg_access env))
            (\<lambda>a. rbind (scope_projects (fg_work env) scope a True) (\<lambda>_. Inr ())))"

definition reconcile_continuity ::
  "bool \<Rightarrow> publish_outcome \<Rightarrow> work_scope \<Rightarrow> continuity_machine \<Rightarrow> (work_error + nat) \<times> continuity_machine" where
  "reconcile_continuity prepared outcome scope m =
     (case fmlookup (sf_pending (km_safety m)) scope of
        None \<Rightarrow> (Inr 0, m)
      | Some (expected, desired) \<Rightarrow>
          (case take_snapshot prepared m of
             (None, m') \<Rightarrow> (Inl Persistence, m')
           | (Some snapshot, m') \<Rightarrow>
               (case publish_continuity snapshot scope outcome m' of
                  (Inl e, m'') \<Rightarrow> (Inl e, m'')
                | (Inr _, m'') \<Rightarrow> (Inr (if expected \<noteq> None \<and> desired = None then 1 else 0), m''))))"

definition erase_orphan ::
  "(u64 \<times> u64) option \<Rightarrow> forget_env \<Rightarrow> work_scope \<Rightarrow> continuity_machine \<Rightarrow> (work_error + unit) \<times> continuity_machine" where
  "erase_orphan native env scope m =
     (case fmlookup (sf_orphans (km_safety m)) scope of
        None \<Rightarrow> (Inr (), m)
      | Some c \<Rightarrow>
          (case rbind (fg_forgotten env) (\<lambda>_. native_still_manages native scope env) of
             Inl e \<Rightarrow> (Inl e, m)
           | Inr _ \<Rightarrow> (Inr (), on_safety (\<lambda>sf. sf\<lparr>sf_orphans := fmdrop scope (sf_orphans sf)\<rparr>) m)))"

definition erase_card ::
  "(u64 \<times> u64) option \<Rightarrow> forget_env \<Rightarrow> continuity_card \<Rightarrow> continuity_machine \<Rightarrow> (work_error + unit) \<times> continuity_machine" where
  "erase_card native env c m =
     (case take_snapshot (fg_prepared1 env) m of
        (None, m') \<Rightarrow> (Inl Persistence, m')
      | (Some _, m') \<Rightarrow>
     (case rbind (fg_forgotten env) (\<lambda>_. native_still_manages native (card_scope c) env) of
        Inl e \<Rightarrow> (Inl e, m')
      | Inr _ \<Rightarrow>
     (case take_snapshot (fg_prepared2 env) m' of
        (None, m'') \<Rightarrow> (Inl Persistence, m'')
      | (Some snapshot, m'') \<Rightarrow>
     (case remove_exact c snapshot of
        (Inl e, _) \<Rightarrow> (Inl e, m'')
      | (Inr _, cards) \<Rightarrow>
     (case stage_continuity (card_scope c) (Some c) None (km_safety m'') of
        (Inl e, sf) \<Rightarrow> (Inl e, m''\<lparr>km_safety := sf\<rparr>)
      | (Inr _, sf) \<Rightarrow>
          publish_continuity cards (card_scope c) (fg_publication env) (m''\<lparr>km_safety := sf\<rparr>))))))"

text \<open>The loop over the cards to erase, one environment for each.\<close>

fun erase_cards ::
  "(u64 \<times> u64) option \<Rightarrow> forget_env list \<Rightarrow> continuity_card list \<Rightarrow> continuity_machine
     \<Rightarrow> (work_error + nat) \<times> continuity_machine" where
  "erase_cards native envs [] m = (Inr 0, m)"
| "erase_cards native [] (c # cs) m = (Inl Persistence, m)"
| "erase_cards native (env # envs) (c # cs) m =
     (case erase_card native env c m of
        (Inl e, m') \<Rightarrow> (Inl e, m')
      | (Inr _, m') \<Rightarrow>
          (case erase_cards native envs cs m' of
             (Inl e, m'') \<Rightarrow> (Inl e, m'')
           | (Inr n, m'') \<Rightarrow> (Inr (n + 1), m'')))"

definition erase_targets ::
  "(u64 \<times> u64) option \<Rightarrow> forget_env list \<Rightarrow> continuity_card list \<Rightarrow> continuity_machine
     \<Rightarrow> (work_error + nat) \<times> continuity_machine" where
  "erase_targets native envs cards m =
     (case fence_continuity cards (km_safety m) of
        (Inl e, sf) \<Rightarrow> (Inl e, m\<lparr>km_safety := sf\<rparr>)
      | (Inr _, sf) \<Rightarrow> erase_cards native envs cards (m\<lparr>km_safety := sf\<rparr>))"

record clear_env =
  cl_access1 :: "work_error + work_access"
  cl_work1 :: work_store
  cl_prepared :: bool
  cl_publication :: publish_outcome
  cl_orphan :: forget_env
  cl_access2 :: "work_error + work_access"
  cl_work2 :: work_store
  cl_erase :: forget_env

definition clear_card ::
  "clear_env \<Rightarrow> work_scope \<Rightarrow> u64 \<Rightarrow> u64 \<Rightarrow> continuity_machine \<Rightarrow> (work_error + nat) \<times> continuity_machine" where
  "clear_card env scope actor channel m =
     (case fresh_access scope actor channel (cl_access2 env) of
        Inl e \<Rightarrow> (Inl e, m)
      | Inr a \<Rightarrow>
     (case continuity_clear scope a (cl_work2 env) (km_cards m) of
        (Inl e, _) \<Rightarrow> (Inl e, m)
      | (Inr c, _) \<Rightarrow>
     (case erase_targets (Some (actor, channel)) [cl_erase env] (case c of None \<Rightarrow> [] | Some c \<Rightarrow> [c]) m of
        (Inl e, m') \<Rightarrow> (Inl e, m')
      | (Inr removed, m') \<Rightarrow> (Inr removed, on_safety (unfence_continuity scope) m'))))"

definition clear_continuity ::
  "clear_env \<Rightarrow> work_scope \<Rightarrow> u64 \<Rightarrow> u64 \<Rightarrow> continuity_machine \<Rightarrow> (work_error + nat) \<times> continuity_machine" where
  "clear_continuity env scope actor channel m =
     (case rbind (fresh_access scope actor channel (cl_access1 env))
         (\<lambda>a. scope_projects (cl_work1 env) scope a True) of
        Inl e \<Rightarrow> (Inl e, m)
      | Inr _ \<Rightarrow>
     (case reconcile_continuity (cl_prepared env) (cl_publication env) scope m of
        (Inl e, m1) \<Rightarrow> (Inl e, m1)
      | (Inr reconciled, m1) \<Rightarrow>
     (case erase_orphan (Some (actor, channel)) (cl_orphan env) scope m1 of
        (Inl e, m2) \<Rightarrow> (Inl e, m2)
      | (Inr _, m2) \<Rightarrow>
     (case clear_card env scope actor channel m2 of
        (Inl e, m3) \<Rightarrow> (Inl e, m3)
      | (Inr removed, m3) \<Rightarrow> (Inr (removed + reconciled), m3)))))"

fun erase_orphans ::
  "forget_env list \<Rightarrow> work_scope list \<Rightarrow> continuity_machine \<Rightarrow> (work_error + unit) \<times> continuity_machine" where
  "erase_orphans envs [] m = (Inr (), m)"
| "erase_orphans [] (s # scopes) m = (Inl Persistence, m)"
| "erase_orphans (env # envs) (s # scopes) m =
     (case erase_orphan None env s m of
        (Inl e, m') \<Rightarrow> (Inl e, m')
      | (Inr _, m') \<Rightarrow> erase_orphans envs scopes m')"

fun reconcile_all ::
  "forget_env list \<Rightarrow> work_scope list \<Rightarrow> continuity_machine \<Rightarrow> (work_error + nat) \<times> continuity_machine" where
  "reconcile_all envs [] m = (Inr 0, m)"
| "reconcile_all [] (s # scopes) m = (Inl Persistence, m)"
| "reconcile_all (env # envs) (s # scopes) m =
     (case reconcile_continuity (fg_prepared1 env) (fg_publication env) s m of
        (Inl e, m') \<Rightarrow> (Inl e, m')
      | (Inr n, m') \<Rightarrow>
          (case reconcile_all envs scopes m' of
             (Inl e, m'') \<Rightarrow> (Inl e, m'')
           | (Inr k, m'') \<Rightarrow> (Inr (n + k), m'')))"

definition linked_orphans :: "rstr \<Rightarrow> u64 option \<Rightarrow> work_store \<Rightarrow> continuity_safety \<Rightarrow> work_scope list" where
  "linked_orphans scope member work sf =
     map card_scope (filter (\<lambda>c. gate_scope (card_scope c) = scope \<and> linked_to c member work) (fm_values (sf_orphans sf)))"

definition linked_pending :: "rstr \<Rightarrow> u64 option \<Rightarrow> work_store \<Rightarrow> continuity_safety \<Rightarrow> work_scope list" where
  "linked_pending scope member work sf =
     map fst (filter (\<lambda>(s, expected, desired). gate_scope s = scope
        \<and> (is_some_and expected (\<lambda>c. linked_to c member work) \<or> is_some_and desired (\<lambda>c. linked_to c member work)))
       (pending_ops sf))"

definition erase_continuity_owned ::
  "forget_env list \<Rightarrow> forget_env list \<Rightarrow> forget_env list \<Rightarrow> rstr \<Rightarrow> u64 option \<Rightarrow> work_store \<Rightarrow> work_store
     \<Rightarrow> continuity_machine \<Rightarrow> (work_error + nat) \<times> continuity_machine" where
  "erase_continuity_owned envs1 envs2 envs3 scope member work1 work2 m =
     (let orphans = linked_orphans scope member work1 (km_safety m) in
      case erase_orphans envs1 orphans m of
        (Inl e, m1) \<Rightarrow> (Inl e, m1)
      | (Inr _, m1) \<Rightarrow>
     (case reconcile_all envs2 (linked_pending scope member work1 (km_safety m1)) m1 of
        (Inl e, m2) \<Rightarrow> (Inl e, m2)
      | (Inr reconciled, m2) \<Rightarrow>
     (case erase_targets None envs3 (erasure_targets scope member work2 (km_cards m2)) m2 of
        (Inl e, m3) \<Rightarrow> (Inl e, m3)
      | (Inr count, m3) \<Rightarrow> (Inr (count + reconciled), on_safety (\<lambda>sf. fold unfence_continuity orphans sf) m3))))"

section \<open>Admission to a prompt\<close>

datatype continuity_audience = OwnerDm | PrivateInteraction

fun audience_allows :: "continuity_audience \<Rightarrow> work_scope \<Rightarrow> u64 \<Rightarrow> u64 \<Rightarrow> bool" where
  "audience_allows au (ScopePersonal owner) actor channel = (owner = actor)"
| "audience_allows au (ScopeTeam guild native) actor channel = (au = PrivateInteraction \<and> native = channel)"

definition requested_access :: "work_scope \<Rightarrow> u64 \<Rightarrow> u64 \<Rightarrow> work_access" where
  "requested_access scope actor channel = \<lparr>acc_actor = actor,
     acc_guild = (case scope of ScopePersonal _ \<Rightarrow> None | ScopeTeam guild _ \<Rightarrow> Some guild),
     acc_channel = channel, acc_can_view = True, acc_can_manage = False\<rparr>"

record admission_env =
  ad_work1 :: work_store
  ad_now1 :: u64
  ad_gate_live :: bool
  ad_access :: "work_error + work_access"
  ad_work2 :: work_store
  ad_now2 :: u64

record admitted_continuity =
  ac_value :: authorized_continuity
  ac_generation :: u64
  ac_audience :: continuity_audience

text \<open>The native access is fetched between two readings of the state, \<open>m0\<close> and \<open>m\<close>.\<close>

definition prepare_between ::
  "admission_env \<Rightarrow> work_scope \<Rightarrow> u64 \<Rightarrow> u64 \<Rightarrow> continuity_audience \<Rightarrow> continuity_machine \<Rightarrow> continuity_machine
     \<Rightarrow> admitted_continuity option" where
  "prepare_between env scope actor channel au m0 m =
     (if actor = 0 \<or> channel = 0 \<or> \<not> audience_allows au scope actor channel then None
      else case continuity_generation scope (km_safety m0) of
        None \<Rightarrow> None
      | Some generation \<Rightarrow>
     (case continuity_context scope (requested_access scope actor channel) (ad_work1 env) (ad_now1 env) (km_cards m0) of
        None \<Rightarrow> None
      | Some expected \<Rightarrow>
          if card_episode_receipt (au_card expected) \<noteq> None \<and> \<not> ad_gate_live env then None
          else case fresh_access scope actor channel (ad_access env) of
            Inl _ \<Rightarrow> None
          | Inr a \<Rightarrow>
     (case continuity_context scope a (ad_work2 env) (ad_now2 env) (km_cards m) of
        None \<Rightarrow> None
      | Some v \<Rightarrow> if v \<noteq> expected \<or> continuity_generation scope (km_safety m) \<noteq> Some generation then None
          else Some \<lparr>ac_value = v, ac_generation = generation, ac_audience = au\<rparr>)))"

text \<open>What is admitted would also be admitted if both readings were of the second state
  (\<open>prepare_between_atomic\<close>), so admission is one step of the machine.\<close>

definition prepare_context ::
  "admission_env \<Rightarrow> work_scope \<Rightarrow> u64 \<Rightarrow> u64 \<Rightarrow> continuity_audience \<Rightarrow> continuity_machine
     \<Rightarrow> admitted_continuity option" where
  "prepare_context env scope actor channel au m = prepare_between env scope actor channel au m m"

lemma prepare_between_atomic:
  "prepare_between env scope actor channel au m0 m = Some v \<Longrightarrow> prepare_context env scope actor channel au m = Some v"
  by (auto simp: prepare_context_def prepare_between_def continuity_context_def split: if_splits option.splits sum.splits)

text \<open>Whether an admitted value may still be used.\<close>

definition admitted_current :: "admitted_continuity \<Rightarrow> work_store \<Rightarrow> u64 \<Rightarrow> continuity_machine \<Rightarrow> bool" where
  "admitted_current v work now m \<longleftrightarrow>
     continuity_generation (card_scope (au_card (ac_value v))) (km_safety m) = Some (ac_generation v)
     \<and> authorized_current (ac_value v) (km_cards m) work now"

text \<open>Where an admitted value may go: the prompt of its own conversation and subject, a private
  answer, a direct message; never to speech.\<close>

definition continuity_binds :: "admitted_continuity \<Rightarrow> rstr \<Rightarrow> (rstr \<times> rstr) option \<Rightarrow> bool \<Rightarrow> bool" where
  "continuity_binds v scope subject private \<longleftrightarrow>
     scope = lit ''discord:'' @ decimal (au_channel (ac_value v))
     \<and> subject = Some (gate_scope (card_scope (au_card (ac_value v))), lit ''discord:'' @ decimal (au_actor (ac_value v)))
     \<and> (ac_audience v \<noteq> PrivateInteraction \<or> private)"

definition permits_delivery :: "admitted_continuity \<Rightarrow> rstr option \<Rightarrow> bool \<Rightarrow> bool" where
  "permits_delivery v native spoken \<longleftrightarrow> \<not> spoken \<and> (case ac_audience v of
      OwnerDm \<Rightarrow> is_none_or native (\<lambda>i. i = decimal (au_channel (ac_value v)))
    | PrivateInteraction \<Rightarrow> native = None)"

definition permits_public :: "admitted_continuity \<Rightarrow> bool" where
  "permits_public v \<longleftrightarrow> ac_audience v = OwnerDm"

definition permits_private :: "admitted_continuity \<Rightarrow> u64 \<Rightarrow> u64 \<Rightarrow> bool" where
  "permits_private v actor channel \<longleftrightarrow>
     ac_audience v = PrivateInteraction \<and> au_actor (ac_value v) = actor \<and> au_channel (ac_value v) = channel"

text \<open>A last admission just before use, with the readings before and after it.\<close>

definition admitted_fresh ::
  "admitted_continuity \<Rightarrow> admission_env \<Rightarrow> continuity_machine \<Rightarrow> continuity_machine \<Rightarrow> bool" where
  "admitted_fresh v env m0 m \<longleftrightarrow> admitted_current v (ad_work1 env) (ad_now1 env) m0
     \<and> prepare_between env (card_scope (au_card (ac_value v))) (au_actor (ac_value v)) (au_channel (ac_value v))
         (ac_audience v) m0 m = Some v
     \<and> admitted_current v (ad_work2 env) (ad_now2 env) m"

section \<open>The commands\<close>

definition max_source_input_bytes :: nat where "max_source_input_bytes = 256"
definition max_proposal_id_bytes :: nat where "max_proposal_id_bytes = 53"

definition native_source ::
  "rstr \<Rightarrow> u64 \<Rightarrow> work_scope \<Rightarrow> work_access \<Rightarrow> work_store \<Rightarrow> work_error + work_content_ref" where
  "native_source kind i scope a work =
     rbind
       (if kind = lit ''task'' then
          (case fmlookup (ws_tasks work) i of
             None \<Rightarrow> Inl Denied
           | Some t \<Rightarrow> if task_id t \<noteq> i then Inl Denied
               else Inr (task_project_id t, RefTask (task_project_id t) i (task_revision t)))
        else if kind = lit ''decision'' then
          (case fmlookup (ws_decisions work) i of
             None \<Rightarrow> Inl Denied
           | Some d \<Rightarrow> if dec_id d \<noteq> i then Inl Denied
               else Inr (dec_project_id d, RefDecision (dec_project_id d) i 1))
        else Inl Invalid)
       (\<lambda>(pid, source). case fmlookup (ws_projects work) pid of
           None \<Rightarrow> Inl Denied
         | Some p \<Rightarrow> if proj_id p \<noteq> pid \<or> proj_scope p \<noteq> scope then Inl Denied
             else rbind (authorize p a False) (\<lambda>_. Inr source))"

fun parse_source_tokens ::
  "work_scope \<Rightarrow> work_access \<Rightarrow> work_store \<Rightarrow> rstr list \<Rightarrow> work_content_ref fset
     \<Rightarrow> work_error + work_content_ref fset" where
  "parse_source_tokens scope a work [] refs = Inr refs"
| "parse_source_tokens scope a work (token # tokens) refs =
     (if max_sources \<le> fcard refs then Inl Invalid
      else case split_once 58 (trim token) of
        None \<Rightarrow> Inl Invalid
      | Some (kind, encoded) \<Rightarrow>
     (case parse_u64 encoded of
        None \<Rightarrow> Inl Invalid
      | Some i \<Rightarrow>
          if i = 0 \<or> decimal i \<noteq> encoded then Inl Invalid
          else rbind (native_source kind i scope a work) (\<lambda>source.
            if source |\<in>| refs then Inl Invalid
            else parse_source_tokens scope a work tokens (finsert source refs))))"

definition parse_sources ::
  "rstr option \<Rightarrow> work_scope \<Rightarrow> work_access \<Rightarrow> work_store \<Rightarrow> work_error + work_content_ref fset" where
  "parse_sources given scope a work =
     (case given of
        None \<Rightarrow> Inr {||}
      | Some s \<Rightarrow> if s = [] \<or> max_source_input_bytes < byte_len s then Inl Invalid
          else parse_source_tokens scope a work (split_on 44 s) {||})"

fun ref_kind :: "work_content_ref \<Rightarrow> rstr" where
  "ref_kind (RefTask _ _ _) = lit ''task''"
| "ref_kind (RefDecision _ _ _) = lit ''decision''"

fun require_each ::
  "work_scope \<Rightarrow> work_access \<Rightarrow> work_store \<Rightarrow> work_content_ref list \<Rightarrow> work_error + unit" where
  "require_each scope a work [] = Inr ()"
| "require_each scope a work (r # refs) =
     rbind (native_source (ref_kind r) (ref_id r) scope a work)
       (\<lambda>source. if source \<noteq> r then Inl Stale else require_each scope a work refs)"

definition require_current_sources ::
  "work_content_ref fset \<Rightarrow> work_scope \<Rightarrow> work_access \<Rightarrow> work_store \<Rightarrow> work_error + unit" where
  "require_current_sources refs scope a work =
     (if max_sources < fcard refs then Inl Invalid
      else require_each scope a work (sorted_list_of_fset refs))"

definition live_revision :: "work_scope \<Rightarrow> continuity_machine \<Rightarrow> u64" where
  "live_revision scope m = (case fmlookup (km_cards m) scope of None \<Rightarrow> 0 | Some c \<Rightarrow> card_revision c)"

text \<open>The command \<open>show\<close>: the state when it starts, after the first access, and when it answers.\<close>

definition command_show ::
  "admission_env \<Rightarrow> admission_env \<Rightarrow> work_scope \<Rightarrow> u64 \<Rightarrow> u64 \<Rightarrow> continuity_machine \<Rightarrow> continuity_machine
     \<Rightarrow> continuity_machine \<Rightarrow> continuity_card option" where
  "command_show env env' scope actor channel m0 m1 m2 =
     (case prepare_between env scope actor channel PrivateInteraction m0 m1 of
        None \<Rightarrow> None
      | Some v \<Rightarrow>
          if \<not> permits_private v actor channel \<or> \<not> admitted_current v (ad_work2 env) (ad_now2 env) m1 then None
          else case fmlookup (km_cards m1) scope of
            None \<Rightarrow> None
          | Some c \<Rightarrow>
              if card_confirmed_text c \<noteq> card_confirmed_text (au_card (ac_value v)) then None
              else if \<not> admitted_fresh v env' m1 m2 then None
              else Some c)"

text \<open>The command \<open>propose\<close> up to the preview it sends.\<close>

definition command_propose ::
  "work_scope \<Rightarrow> u64 \<Rightarrow> u64 \<Rightarrow> work_error + work_access \<Rightarrow> rstr \<Rightarrow> rstr option \<Rightarrow> work_store \<Rightarrow> u64
     \<Rightarrow> continuity_machine \<Rightarrow> (work_error + continuity_proposal) \<times> continuity_machine" where
  "command_propose scope actor channel proof' given sources work now m =
     (case fresh_access scope actor channel proof' of
        Inl e \<Rightarrow> (Inl e, m)
      | Inr a \<Rightarrow>
     (case continuity_generation scope (km_safety m) of
        None \<Rightarrow> (Inl Stale, m)
      | Some generation \<Rightarrow>
     (case rbind (scope_projects work scope a False) (\<lambda>_. parse_sources sources scope a work) of
        Inl e \<Rightarrow> (Inl e, m)
      | Inr refs \<Rightarrow>
     (case human_propose \<lparr>draft_scope = scope, draft_base_revision = live_revision scope m,
           draft_presented_text = given, draft_source_refs = refs\<rparr> a work generation now (km_registry m) of
        (Inl e, r) \<Rightarrow> (Inl e, m\<lparr>km_registry := r\<rparr>)
      | (Inr p, r) \<Rightarrow> (Inr p, m\<lparr>km_registry := r, km_previews := km_previews m @ [(p, a, generation)]\<rparr>)))))"

text \<open>What is checked before the preview is sent.\<close>

definition preview_allowed ::
  "continuity_proposal \<Rightarrow> u64 \<Rightarrow> u64 \<Rightarrow> work_error + work_access \<Rightarrow> work_store \<Rightarrow> u64 \<Rightarrow> continuity_machine
     \<Rightarrow> work_error + unit" where
  "preview_allowed p generation channel proof' work now m =
     rbind (fresh_access (cpr_scope p) (cpr_actor p) channel proof')
       (\<lambda>a. rbind (scope_projects work (cpr_scope p) a False)
         (\<lambda>_. rbind (require_current_sources (cpr_source_refs p) (cpr_scope p) a work)
           (\<lambda>_. if live_revision (cpr_scope p) m \<noteq> cpr_base_revision p then Inl Stale
                else if continuity_generation (cpr_scope p) (km_safety m) \<noteq> Some generation
                  \<or> cpr_expires_at p \<le> now then Inl Stale
                else Inr ())))"

definition discard_preview ::
  "nat \<Rightarrow> continuity_proposal \<Rightarrow> work_access \<Rightarrow> u64 \<Rightarrow> continuity_machine \<Rightarrow> continuity_machine" where
  "discard_preview i p a now m = m\<lparr>km_registry := human_discard (cpr_id p) a now (km_registry m),
     km_previews := vec_remove i (km_previews m)\<rparr>"

definition preview_checked ::
  "nat \<Rightarrow> work_error + work_access \<Rightarrow> work_store \<Rightarrow> u64 \<Rightarrow> continuity_machine
     \<Rightarrow> (work_error + unit) \<times> continuity_machine" where
  "preview_checked i proof' work now m =
     (if length (km_previews m) \<le> i then (Inl Missing, m)
      else case km_previews m ! i of (p, a, generation) \<Rightarrow>
        (case preview_allowed p generation (acc_channel a) proof' work now m of
           Inl e \<Rightarrow> (Inl e, discard_preview i p a now m)
         | Inr _ \<Rightarrow> (Inr (), m)))"

text \<open>After sending: \<open>sent\<close> says whether Discord accepted the preview.\<close>

definition preview_sent ::
  "nat \<Rightarrow> bool \<Rightarrow> u64 \<Rightarrow> continuity_machine \<Rightarrow> (work_error + continuity_proposal) \<times> continuity_machine" where
  "preview_sent i sent now m =
     (if length (km_previews m) \<le> i then (Inl Missing, m)
      else case km_previews m ! i of (p, a, _) \<Rightarrow>
        if \<not> sent then (Inl Persistence, discard_preview i p a now m)
        else case continuity_generation (cpr_scope p) (km_safety m) of
          None \<Rightarrow> (Inl Stale, discard_preview i p a now m)
        | Some generation \<Rightarrow>
            (case mark_presented p a generation now (km_registry m) of
               (Inl e, r) \<Rightarrow> (Inl e, discard_preview i p a now (m\<lparr>km_registry := r\<rparr>))
             | (Inr _, r) \<Rightarrow> (Inr p, m\<lparr>km_registry := r, km_previews := vec_remove i (km_previews m)\<rparr>)))"

definition command_confirm ::
  "work_scope \<Rightarrow> u64 \<Rightarrow> u64 \<Rightarrow> work_error + work_access \<Rightarrow> rstr \<Rightarrow> work_store \<Rightarrow> u64 \<Rightarrow> continuity_machine
     \<Rightarrow> (work_error + continuity_proposal) \<times> continuity_machine" where
  "command_confirm scope actor channel proof' encoded work now m =
     (case rbind (fresh_access scope actor channel proof')
         (\<lambda>a. rbind (scope_projects work scope a True) (\<lambda>_. Inr a)) of
        Inl e \<Rightarrow> (Inl e, m)
      | Inr a \<Rightarrow>
          if max_proposal_id_bytes < byte_len encoded then (Inl Invalid, m)
          else case decode_proposal_id encoded of
            Inl e \<Rightarrow> (Inl e, m)
          | Inr i \<Rightarrow>
     (case continuity_generation scope (km_safety m) of
        None \<Rightarrow> (Inl Stale, m)
      | Some generation \<Rightarrow>
     (case human_resolve i a generation now (km_registry m) of
        (Inl e, r) \<Rightarrow> (Inl e, m\<lparr>km_registry := r\<rparr>)
      | (Inr grant, r) \<Rightarrow> (Inr (fst grant), m\<lparr>km_registry := r, km_grants := km_grants m @ [grant]\<rparr>))))"

section \<open>The machine\<close>

datatype continuity_call =
    KPropose work_scope u64 u64 "work_error + work_access" rstr "rstr option" work_store u64
  | KPreviewChecked nat "work_error + work_access" work_store u64
  | KPreviewSent nat bool u64
  | KResolve work_scope u64 u64 "work_error + work_access" rstr work_store u64
  | KConfirm nat u64 u64 confirm_env
  | KClear clear_env work_scope u64 u64
  | KErase "forget_env list" "forget_env list" "forget_env list" rstr "u64 option" work_store work_store
  | KSave bool
  | KAdmit admission_env work_scope u64 u64 continuity_audience

datatype continuity_return =
    Proposed "work_error + continuity_proposal"
  | PreviewChecked "work_error + unit"
  | Presented "work_error + continuity_proposal"
  | Resolved "work_error + continuity_proposal"
  | NoGrant
  | Confirmed continuity_proposal "work_error + continuity_card"
  | Cleared "work_error + nat"
  | Erased "work_error + nat"
  | SnapshotSaved "continuity_card list option"
  | Admitted "admitted_continuity option"

definition confirm_grant ::
  "nat \<Rightarrow> u64 \<Rightarrow> u64 \<Rightarrow> confirm_env \<Rightarrow> continuity_machine \<Rightarrow> continuity_return \<times> continuity_machine" where
  "confirm_grant i actor channel env m =
     (if length (km_grants m) \<le> i then (NoGrant, m)
      else case km_grants m ! i of (p, generation) \<Rightarrow>
        map_prod (Confirmed p) id (confirm_continuity env p generation actor channel
          (m\<lparr>km_grants := vec_remove i (km_grants m)\<rparr>)))"

fun continuity_step :: "continuity_call \<Rightarrow> continuity_machine \<Rightarrow> continuity_return \<times> continuity_machine" where
  "continuity_step (KPropose scope actor channel proof' given sources work now) m =
     map_prod Proposed id (command_propose scope actor channel proof' given sources work now m)"
| "continuity_step (KPreviewChecked i proof' work now) m =
     map_prod PreviewChecked id (preview_checked i proof' work now m)"
| "continuity_step (KPreviewSent i sent now) m = map_prod Presented id (preview_sent i sent now m)"
| "continuity_step (KResolve scope actor channel proof' encoded work now) m =
     map_prod Resolved id (command_confirm scope actor channel proof' encoded work now m)"
| "continuity_step (KConfirm i actor channel env) m = confirm_grant i actor channel env m"
| "continuity_step (KClear env scope actor channel) m =
     map_prod Cleared id (clear_continuity env scope actor channel m)"
| "continuity_step (KErase envs1 envs2 envs3 scope member work1 work2) m =
     map_prod Erased id (erase_continuity_owned envs1 envs2 envs3 scope member work1 work2 m)"
| "continuity_step (KSave prepared) m =
     map_prod (SnapshotSaved \<circ> map_option save_continuity) id (take_snapshot prepared m)"
| "continuity_step (KAdmit env scope actor channel au) m =
     (Admitted (prepare_context env scope actor channel au m), m)"

text \<open>A start of the process with the cards it loaded and pruned.\<close>

definition boot_continuity :: "nat list \<Rightarrow> card_store \<Rightarrow> work_store \<Rightarrow> u64 \<Rightarrow> continuity_machine" where
  "boot_continuity nonce cards work now =
     \<lparr>km_registry = \<lparr>hr_proposals = new_registry nonce, hr_epochs = fmempty, hr_presented = {||}\<rparr>,
      km_previews = [], km_grants = [], km_safety = new_safety, km_cards = prune_current work now cards\<rparr>"

end
