(* ===== verification/Continuity_Moves.thy ===== *)
theory Continuity_Moves
  imports Continuity_Machine
begin

text \<open>
  Every change the continuity machine makes to the live cards and to the fence, as a sequence
  of a few moves: an invariant is then checked once on each move instead of on each operation
  and each of its error paths. The moves are indexed by what may be staged, so that only a
  confirmation is seen to bring a card in.
\<close>

section \<open>Moves of cards and fence\<close>

inductive fence_move ::
  "(work_scope \<Rightarrow> continuity_card option \<Rightarrow> bool) \<Rightarrow> continuity_machine \<Rightarrow> continuity_machine \<Rightarrow> bool"
  for allowed where
  move_generation: "fence_move allowed m (on_safety (\<lambda>sf. sf\<lparr>sf_generation := g\<rparr>) m)"
| move_block: "fence_move allowed m (on_safety (\<lambda>sf. sf\<lparr>sf_blocked := sf_blocked sf |\<union>| scopes\<rparr>) m)"
| move_unfence: "fence_move allowed m (on_safety (unfence_continuity scope) m)"
| move_stage: "allowed scope desired \<Longrightarrow> fence_move allowed m (on_safety (\<lambda>sf. sf\<lparr>sf_blocked := finsert scope (sf_blocked sf),
      sf_pending := fmupd scope (expected, desired) (sf_pending sf)\<rparr>) m)"
| move_publish: "fmlookup (sf_pending (km_safety m)) scope = Some (expected, desired)
    \<Longrightarrow> replace_exact scope expected desired (km_cards m) = (Inr (), cards)
    \<Longrightarrow> fence_move allowed m (on_safety (\<lambda>sf. sf\<lparr>sf_pending := fmdrop scope (sf_pending sf)\<rparr>) (m\<lparr>km_cards := cards\<rparr>))"
| move_orphan: "card_scope c |\<in>| sf_blocked (km_safety m)
    \<Longrightarrow> fence_move allowed m (on_safety (\<lambda>sf. sf\<lparr>sf_orphans := fmupd (card_scope c) c (sf_orphans sf)\<rparr>) m)"
| move_forget: "fence_move allowed m (on_safety (\<lambda>sf. sf\<lparr>sf_orphans := fmdrop scope (sf_orphans sf)\<rparr>) m)"

abbreviation fence_moves ::
  "(work_scope \<Rightarrow> continuity_card option \<Rightarrow> bool) \<Rightarrow> continuity_machine \<Rightarrow> continuity_machine \<Rightarrow> bool" where
  "fence_moves allowed \<equiv> (fence_move allowed)\<^sup>*\<^sup>*"

lemma fence_moves_invariant:
  "fence_moves allowed m m' \<Longrightarrow> I m \<Longrightarrow> (\<And>m m'. fence_move allowed m m' \<Longrightarrow> I m \<Longrightarrow> I m') \<Longrightarrow> I m'"
  by (induction rule: rtranclp_induct) auto

lemma fence_moves_mono:
  assumes "fence_moves A m m'" and "\<And>s d. A s d \<Longrightarrow> B s d"
  shows "fence_moves B m m'"
proof -
  have "fence_move A x y \<Longrightarrow> fence_move B x y" for x y
    by (erule fence_move.cases) (auto intro: fence_move.intros assms(2))
  then have "fence_move A \<le> fence_move B" by blast
  from rtranclp_mono [OF this] assms(1) show ?thesis by blast
qed

lemma fence_move_registry:
  "fence_moves A m m' \<Longrightarrow> km_registry m' = km_registry m \<and> km_previews m' = km_previews m \<and> km_grants m' = km_grants m"
  by (erule fence_moves_invariant) (auto elim!: fence_move.cases simp: on_safety_def)

section \<open>Operations as moves\<close>

lemma overlay_pending_lookup:
  "overlay_pending ops cards = Some cards' \<Longrightarrow> distinct (map fst ops)
     \<Longrightarrow> fmlookup cards' scope = (case map_of ops scope of None \<Rightarrow> fmlookup cards scope | Some (expected, desired) \<Rightarrow> desired)"
proof (induction ops arbitrary: cards)
  case Nil
  then show ?case by simp
next
  case (Cons op ops)
  obtain s e d where op: "op = (s, e, d)" by (cases op)
  from Cons.prems(1) obtain next_cards where n: "replace_exact s e d cards = (Inr (), next_cards)"
      and rest: "overlay_pending ops next_cards = Some cards'"
    by (auto simp: op split: prod.splits sum.splits)
  from n have "fmlookup next_cards scope = (if scope = s then d else fmlookup cards scope)"
    by (cases rule: replace_exactE) auto
  moreover from Cons.prems(2) have "map_of ops s = None" "distinct (map fst ops)"
    by (auto simp: op map_of_eq_None_iff)
  ultimately show ?case using Cons.IH [OF rest] by (auto simp: op split: option.splits)
qed

lemma pending_ops_map: "map_of (pending_ops sf) scope = fmlookup (sf_pending sf) scope"
  by (cases "fmlookup (sf_pending sf) scope")
    (auto simp: pending_ops_def map_of_map_restrict restrict_map_def fmlookup_dom'_iff)

lemma take_snapshotE:
  assumes "take_snapshot prepared m = (r, m')"
  obtains (failed) "r = None" "fence_moves A m m'"
  | (taken) cards where "r = Some cards" "m' = m"
      "\<And>scope. fmlookup cards scope = (case fmlookup (sf_pending (km_safety m)) scope of
         None \<Rightarrow> fmlookup (km_cards m) scope | Some (expected, desired) \<Rightarrow> desired)"
proof (cases "overlay_pending (pending_ops (km_safety m)) (km_cards m)")
  case None
  with assms show ?thesis by (intro failed) (auto simp: take_snapshot_def intro: move_generation)
next
  case (Some cards)
  have "distinct (map fst (pending_ops (km_safety m)))" by (simp add: pending_ops_def comp_def)
  note lookup = overlay_pending_lookup [OF Some this]
  show ?thesis
  proof (cases prepared)
    case True
    with assms Some lookup show ?thesis by (intro taken) (auto simp: take_snapshot_def pending_ops_map)
  next
    case False
    with assms Some show ?thesis by (intro failed) (auto simp: take_snapshot_def)
  qed
qed

lemma publish_continuityE:
  assumes "publish_continuity snapshot scope outcome m = (r, m')"
    and "\<forall>e d. fmlookup (sf_pending (km_safety m)) scope = Some (e, d) \<longrightarrow> fmlookup snapshot scope = d"
  obtains (kept) e where "r = Inl e" "m' = m"
  | (published) e d cards where "fmlookup (sf_pending (km_safety m)) scope = Some (e, d)"
      "replace_exact scope e d (km_cards m) = (Inr (), cards)"
      "m' = on_safety (unfence_continuity scope)
         (on_safety (\<lambda>sf. sf\<lparr>sf_pending := fmdrop scope (sf_pending sf)\<rparr>) (m\<lparr>km_cards := cards\<rparr>))"
      "load_continuity (save_continuity snapshot) \<noteq> None"
proof (cases outcome)
  case (ReadBack committed)
  consider (bad) "load_continuity (save_continuity snapshot) = None"
    | (gone) "fmlookup (sf_pending (km_safety m)) scope = None"
    | (good) e d where "fmlookup (sf_pending (km_safety m)) scope = Some (e, d)"
        "load_continuity (save_continuity snapshot) \<noteq> None" by fastforce
  then show ?thesis
  proof cases
    case bad
    with assms(1) ReadBack have "r = Inl Persistence \<and> m' = m" by (simp add: publish_continuity_def)
    then show ?thesis by (simp add: kept)
  next
    case gone
    with assms(1) ReadBack have "(r = Inl Persistence \<or> r = Inl Stale) \<and> m' = m"
      by (auto simp: publish_continuity_def split: if_splits)
    then show ?thesis by (auto simp: kept)
  next
    case (good e d)
    obtain q cards where q: "replace_exact scope e d (km_cards m) = (q, cards)"
      by (cases "replace_exact scope e d (km_cards m)")
    show ?thesis
    proof (cases q)
      case (Inl err)
      with q have "cards = km_cards m" by (cases rule: replace_exactE [OF q]) auto
      with good q Inl assms(1) assms(2) [rule_format, OF good(1)] ReadBack have "r = Inl err \<and> m' = m"
        by (auto simp: publish_continuity_def)
      then show ?thesis by (simp add: kept)
    next
      case (Inr u)
      with good q assms(1) assms(2) [rule_format, OF good(1)] ReadBack show ?thesis
        by (intro published [OF good(1)]) (auto simp: publish_continuity_def)
    qed
  qed
next
  case SubmitFailed
  with assms(1) have "r = Inl Persistence \<and> m' = m" by (simp add: publish_continuity_def)
  then show ?thesis by (simp add: kept)
next
  case ReadBackFailed
  with assms(1) have "r = Inl Persistence \<and> m' = m" by (simp add: publish_continuity_def)
  then show ?thesis by (simp add: kept)
qed

lemma on_safety_comp: "on_safety f (on_safety g m) = on_safety (\<lambda>sf. f (g sf)) m"
  by (simp add: on_safety_def)

lemma set_safety: "m\<lparr>km_safety := sf\<rparr> = on_safety (\<lambda>_. sf) m"
  by (simp add: on_safety_def)

lemma stage_continuityE:
  assumes "stage_continuity scope expected desired (km_safety m) = (r, sf)" and "A scope desired"
  obtains (failed) e where "r = Inl e" "fence_moves A m (m\<lparr>km_safety := sf\<rparr>)"
  | (staged) "r = Inr ()" "fence_moves A m (m\<lparr>km_safety := sf\<rparr>)"
      "fmlookup (sf_pending sf) scope = Some (expected, desired)" "scope |\<in>| sf_blocked sf"
proof (cases "scope |\<notin>| fmdom (sf_pending (km_safety m))
    \<and> max_pending \<le> fm_len (sf_pending (km_safety m)) + fm_len (sf_orphans (km_safety m))")
  case True
  with assms(1) have "r = Inl Full" "m\<lparr>km_safety := sf\<rparr> = m" by (auto simp: stage_continuity_def)
  then show ?thesis by (simp add: failed)
next
  case False
  let ?sf = "(km_safety m)\<lparr>sf_generation := next_generation (km_safety m), sf_blocked := finsert scope (sf_blocked (km_safety m)),
    sf_pending := fmupd scope (expected, desired) (sf_pending (km_safety m))\<rparr>"
  from False assms(1) have sf: "sf = ?sf" and r: "r = (if sf_generation ?sf = None then Inl Full else Inr ())"
    by (auto simp: stage_continuity_def Let_def split: if_splits)
  have "fence_move A m (on_safety (\<lambda>sf. sf\<lparr>sf_generation := next_generation (km_safety m)\<rparr>) m)"
    by (rule move_generation)
  moreover have "fence_move A (on_safety (\<lambda>sf. sf\<lparr>sf_generation := next_generation (km_safety m)\<rparr>) m)
      (on_safety (\<lambda>sf. sf\<lparr>sf_blocked := finsert scope (sf_blocked sf), sf_pending := fmupd scope (expected, desired) (sf_pending sf)\<rparr>)
        (on_safety (\<lambda>sf. sf\<lparr>sf_generation := next_generation (km_safety m)\<rparr>) m))"
    using assms(2) by (rule move_stage)
  ultimately have "fence_moves A m (m\<lparr>km_safety := sf\<rparr>)"
    unfolding sf by (simp add: on_safety_def)
  with r sf show ?thesis by (cases "sf_generation ?sf") (auto intro: failed staged)
qed

lemma fence_continuityE:
  assumes "fence_continuity cards (km_safety m) = (r, sf)"
  obtains (failed) e where "r = Inl e" "fence_moves A m (m\<lparr>km_safety := sf\<rparr>)"
  | (fenced) "r = Inr ()" "fence_moves A m (m\<lparr>km_safety := sf\<rparr>)" "\<forall>c \<in> set cards. card_scope c |\<in>| sf_blocked sf"
      "sf_pending sf = sf_pending (km_safety m)" "sf_orphans sf = sf_orphans (km_safety m)"
proof -
  let ?g = "next_generation (km_safety m)"
  let ?bs = "fset_of_list (map card_scope cards)"
  let ?m1 = "on_safety (\<lambda>sf. sf\<lparr>sf_generation := ?g\<rparr>) m"
  let ?m2 = "on_safety (\<lambda>sf. sf\<lparr>sf_blocked := sf_blocked sf |\<union>| ?bs\<rparr>) ?m1"
  let ?m3 = "on_safety (\<lambda>sf. sf\<lparr>sf_generation := None\<rparr>) ?m2"
  have m1: "fence_moves A m ?m1" by (rule r_into_rtranclp, rule move_generation)
  then have m2: "fence_moves A m ?m2" by (rule rtranclp.rtrancl_into_rtrancl) (rule move_block)
  then have m3: "fence_moves A m ?m3" by (rule rtranclp.rtrancl_into_rtrancl) (rule move_generation)
  consider (none) "?g = None" "r = Inl Full" "m\<lparr>km_safety := sf\<rparr> = ?m1"
    | (many) "r = Inl Full" "m\<lparr>km_safety := sf\<rparr> = ?m3"
    | (good) "r = Inr ()" "m\<lparr>km_safety := sf\<rparr> = ?m2" "sf = km_safety ?m2"
    using assms by (auto simp: fence_continuity_def on_safety_def Let_def split: if_splits)
  then show ?thesis
  proof cases
    case good
    with m2 show ?thesis
      by (intro fenced) (auto simp: on_safety_def fset_of_list_elem)
  qed (use m1 m3 in \<open>auto intro: failed\<close>)
qed

lemma publish_moves:
  assumes "publish_continuity snapshot scope outcome m = (r, m')"
    and "\<forall>e d. fmlookup (sf_pending (km_safety m)) scope = Some (e, d) \<longrightarrow> fmlookup snapshot scope = d"
  shows "fence_moves A m m'"
  using assms
proof (cases rule: publish_continuityE)
  case kept
  then show ?thesis by simp
next
  case (published e d cards)
  let ?m1 = "on_safety (\<lambda>sf. sf\<lparr>sf_pending := fmdrop scope (sf_pending sf)\<rparr>) (m\<lparr>km_cards := cards\<rparr>)"
  have "fence_move A m ?m1" using published(1,2) by (rule move_publish)
  moreover have "fence_move A ?m1 m'" unfolding published(3) by (rule move_unfence)
  ultimately show ?thesis by (blast intro: rtranclp.intros)
qed

lemma publish_card_moves:
  assumes "publish_card outcome old c snapshot m = (r, m')" and "A (card_scope c) (Some c)"
    and "fmlookup snapshot (card_scope c) = Some c"
  shows "fence_moves A m m'"
proof -
  obtain q sf where stage: "stage_continuity (card_scope c) old (Some c) (km_safety m) = (q, sf)"
    by (cases "stage_continuity (card_scope c) old (Some c) (km_safety m)")
  from stage assms(2) show ?thesis
  proof (cases rule: stage_continuityE)
    case failed
    with stage assms(1) show ?thesis by (auto simp: publish_card_def)
  next
    case staged
    obtain u n where publish: "publish_continuity snapshot (card_scope c) outcome (m\<lparr>km_safety := sf\<rparr>) = (u, n)"
      by (cases "publish_continuity snapshot (card_scope c) outcome (m\<lparr>km_safety := sf\<rparr>)")
    have "fence_moves A (m\<lparr>km_safety := sf\<rparr>) n"
      using publish by (rule publish_moves) (use staged(3) assms(3) in auto)
    moreover from publish stage staged(1) assms(1) have "m' = n"
      by (auto simp: publish_card_def split: sum.splits)
    ultimately show ?thesis using staged(2) by (auto intro: rtranclp_trans)
  qed
qed

lemma orphan_card_moves:
  assumes "orphan_card e c m = (r, m')"
  shows "fence_moves A m m'"
proof (cases "card_episode_receipt c")
  case None
  with assms show ?thesis by (simp add: orphan_card_def)
next
  case (Some receipt)
  obtain q sf where fence: "fence_continuity [c] (km_safety m) = (q, sf)" by (cases "fence_continuity [c] (km_safety m)")
  then show ?thesis
  proof (cases rule: fence_continuityE [where A = A])
    case failed
    with fence Some assms show ?thesis by (auto simp: orphan_card_def)
  next
    case fenced
    let ?n = "m\<lparr>km_safety := sf\<rparr>"
    from fenced(3) have "card_scope c |\<in>| sf_blocked (km_safety ?n)" by simp
    then have "fence_move A ?n (on_safety (\<lambda>sf. sf\<lparr>sf_orphans := fmupd (card_scope c) c (sf_orphans sf)\<rparr>) ?n)"
      by (rule move_orphan)
    with fenced(2) have "fence_moves A m (on_safety (\<lambda>sf. sf\<lparr>sf_orphans := fmupd (card_scope c) c (sf_orphans sf)\<rparr>) ?n)"
      by (rule rtranclp.rtrancl_into_rtrancl)
    with fence Some fenced(1) assms show ?thesis by (auto simp: orphan_card_def on_safety_def)
  qed
qed

lemma admit_card_Inr:
  assumes "admit_card env p generation actor channel old c snapshot m = Inr (c', snapshot')"
    and "fmlookup snapshot (card_scope c) = Some c"
  shows "\<exists>q. c' = c\<lparr>card_episode_receipt := q\<rparr> \<and> fmlookup snapshot' (card_scope c') = Some c'"
proof (cases "ce_gate env")
  case False
  with assms show ?thesis
    by (intro exI [of _ "card_episode_receipt c"]) (auto simp: admit_card_def Let_def split: if_splits)
next
  case True
  with assms(1) obtain digest where "install_receipt c digest snapshot = (Inr c', snapshot')"
    by (auto simp: admit_card_def Let_def split: option.splits sum.splits prod.splits)
  then show ?thesis
    by (intro exI [of _ "Some digest"]) (auto simp: install_receipt_def Let_def split: if_splits sum.splits)
qed

definition confirmable :: "continuity_proposal \<Rightarrow> confirm_env \<Rightarrow> u64 \<Rightarrow> u64 \<Rightarrow> continuity_card \<Rightarrow> bool" where
  "confirmable p env actor channel c \<longleftrightarrow> (\<exists>a snapshot c0 cards q. fresh_access (cpr_scope p) actor channel (ce_access1 env) = Inr a
     \<and> continuity_confirm p a (ce_work1 env) (ce_now1 env) snapshot = (Inr c0, cards)
     \<and> c = c0\<lparr>card_episode_receipt := q\<rparr>)"

lemma confirm_in_moves:
  assumes "confirm_in env p generation actor channel a snapshot m = (r, m')"
    and "fresh_access (cpr_scope p) actor channel (ce_access1 env) = Inr a"
  shows "fence_moves (\<lambda>s d. \<exists>c. d = Some c \<and> s = card_scope c \<and> confirmable p env actor channel c) m m'"
proof -
  obtain q cards where confirm: "continuity_confirm p a (ce_work1 env) (ce_now1 env) snapshot = (q, cards)"
    by (cases "continuity_confirm p a (ce_work1 env) (ce_now1 env) snapshot")
  then show ?thesis
  proof (cases rule: continuity_confirmE)
    case failed
    with confirm assms(1) show ?thesis by (simp add: confirm_in_def Let_def)
  next
    case (confirmed c0)
    then have c0: "fmlookup cards (card_scope c0) = Some c0" by (simp add: confirmed_card_def)
    let ?old = "fmlookup snapshot (cpr_scope p)"
    show ?thesis
    proof (cases "admit_card env p generation actor channel ?old c0 cards m")
      case (Inl e)
      with confirm confirmed(10) assms(1) show ?thesis by (simp add: confirm_in_def Let_def)
    next
      case (Inr admitted)
      obtain c snapshot' where admitted: "admitted = (c, snapshot')" by (cases admitted)
      from admit_card_Inr [OF Inr [unfolded admitted] c0] obtain receipt
        where c: "c = c0\<lparr>card_episode_receipt := receipt\<rparr>" "fmlookup snapshot' (card_scope c) = Some c" by blast
      from assms(2) confirm confirmed(10) c(1) have good: "confirmable p env actor channel c"
        unfolding confirmable_def by blast
      have "orphan_card e c m = (r, m') \<Longrightarrow> ?thesis" for e by (rule orphan_card_moves)
      moreover have "publish_card (ce_publication env) ?old c snapshot' m = (r, m') \<Longrightarrow> ?thesis"
        by (rule publish_card_moves) (use good c in auto)
      ultimately show ?thesis
        using confirm confirmed(10) Inr admitted assms(1) by (auto simp: confirm_in_def Let_def split: sum.splits)
    qed
  qed
qed

lemma confirm_continuity_moves:
  assumes "confirm_continuity env p generation actor channel m = (r, m')"
  shows "fence_moves (\<lambda>s d. \<exists>c. d = Some c \<and> s = card_scope c \<and> confirmable p env actor channel c) m m'"
    (is "fence_moves ?A m m'")
proof -
  obtain snap n where snap: "take_snapshot (ce_prepared env) m = (snap, n)" by (cases "take_snapshot (ce_prepared env) m")
  consider (same) "m' = m" | (failed) "snap = None" "m' = n"
    | (inside) a cards where "snap = Some cards" "fresh_access (cpr_scope p) actor channel (ce_access1 env) = Inr a"
        "confirm_in env p generation actor channel a cards n = (r, m')"
    using assms snap by (auto simp: confirm_continuity_def Let_def split: sum.splits if_splits option.splits)
  then show ?thesis
  proof cases
    case same
    then show ?thesis by simp
  next
    case failed
    from snap show ?thesis by (cases rule: take_snapshotE [where A = ?A]) (use failed in auto)
  next
    case (inside a cards)
    from snap inside(1) have "n = m" by (cases rule: take_snapshotE [where A = ?A]) auto
    with inside(2,3) show ?thesis by (auto intro: confirm_in_moves)
  qed
qed

text \<open>Nothing but a confirmation stages a card.\<close>

abbreviation removal :: "work_scope \<Rightarrow> continuity_card option \<Rightarrow> bool" where
  "removal scope desired \<equiv> desired = None"

lemma take_snapshot_moves: "take_snapshot prepared m = (r, m') \<Longrightarrow> fence_moves A m m'"
  by (erule take_snapshotE [where A = A]) auto

lemma snapshot_desired:
  assumes "take_snapshot prepared m = (Some cards, m')"
  shows "m' = m \<and> (\<forall>scope e d. fmlookup (sf_pending (km_safety m)) scope = Some (e, d) \<longrightarrow> fmlookup cards scope = d)"
  using assms by (cases rule: take_snapshotE) auto

lemma reconcile_moves:
  assumes "reconcile_continuity prepared outcome scope m = (r, m')"
  shows "fence_moves A m m'"
proof (cases "fmlookup (sf_pending (km_safety m)) scope")
  case None
  with assms show ?thesis by (simp add: reconcile_continuity_def)
next
  case (Some op)
  obtain snap n where snap: "take_snapshot prepared m = (snap, n)" by (cases "take_snapshot prepared m")
  show ?thesis
  proof (cases snap)
    case None
    with snap Some assms take_snapshot_moves [OF snap] show ?thesis
      by (auto simp: reconcile_continuity_def split: prod.splits)
  next
    case (Some cards)
    from snap have n: "n = m" and desired:
        "\<forall>e d. fmlookup (sf_pending (km_safety m)) scope = Some (e, d) \<longrightarrow> fmlookup cards scope = d"
      unfolding Some by (auto dest: snapshot_desired)
    obtain q n' where publish: "publish_continuity cards scope outcome m = (q, n')"
      by (cases "publish_continuity cards scope outcome m")
    have "m' = n'"
      using assms snap publish \<open>fmlookup _ _ = Some op\<close> unfolding n Some
      by (auto simp: reconcile_continuity_def split: prod.splits sum.splits)
    with publish desired show ?thesis by (auto intro: publish_moves)
  qed
qed

lemma erase_orphan_moves:
  assumes "erase_orphan native env scope m = (r, m')"
  shows "fence_moves A m m'"
proof -
  have "fence_move A m (on_safety (\<lambda>sf. sf\<lparr>sf_orphans := fmdrop scope (sf_orphans sf)\<rparr>) m)" by (rule move_forget)
  moreover from assms have "m' = m \<or> m' = on_safety (\<lambda>sf. sf\<lparr>sf_orphans := fmdrop scope (sf_orphans sf)\<rparr>) m"
    by (auto simp: erase_orphan_def split: option.splits sum.splits)
  ultimately show ?thesis by auto
qed

lemma erase_cardE:
  assumes "erase_card native env c m = (r, m')" and "A (card_scope c) None"
  obtains (failed) e where "r = Inl e" "fence_moves A m m'"
  | (published) cards sf where "fence_moves A m m'" "fence_moves A m (m\<lparr>km_safety := sf\<rparr>)"
      "fmlookup (sf_pending sf) (card_scope c) = Some (Some c, None)" "fmlookup cards (card_scope c) = None"
      "publish_continuity cards (card_scope c) (fg_publication env) (m\<lparr>km_safety := sf\<rparr>) = (r, m')"
proof -
  obtain s1 n1 where s1: "take_snapshot (fg_prepared1 env) m = (s1, n1)" by (cases "take_snapshot (fg_prepared1 env) m")
  obtain s2 n2 where s2: "take_snapshot (fg_prepared2 env) n1 = (s2, n2)" by (cases "take_snapshot (fg_prepared2 env) n1")
  have moves: "fence_moves A m n1" "fence_moves A m n2"
    using take_snapshot_moves [OF s1] take_snapshot_moves [OF s2] by (blast intro: rtranclp_trans)+
  show ?thesis
  proof (cases s1)
    case None
    with assms(1) s1 have "r = Inl Persistence \<and> m' = n1" by (simp add: erase_card_def)
    with moves show ?thesis by (simp add: failed)
  next
    case (Some cards0)
    with s1 have n1: "n1 = m" by (auto dest: snapshot_desired)
    consider (early) e where "r = Inl e" "m' = n1 \<or> m' = n2"
      | (staging) cards cards1 where "s2 = Some cards" "remove_exact c cards = (Inr (), cards1)"
          "erase_card native env c m = (case stage_continuity (card_scope c) (Some c) None (km_safety n2) of
             (Inl e, sf) \<Rightarrow> (Inl e, n2\<lparr>km_safety := sf\<rparr>)
           | (Inr _, sf) \<Rightarrow> publish_continuity cards1 (card_scope c) (fg_publication env) (n2\<lparr>km_safety := sf\<rparr>))"
    proof (cases s2)
      case None
      with assms(1) s1 s2 Some have "(\<exists>e. r = Inl e) \<and> (m' = n1 \<or> m' = n2)"
        by (auto simp: erase_card_def split: sum.splits)
      then show ?thesis using early by blast
    next
      case s2': (Some cards)
      obtain u cards1 where u: "remove_exact c cards = (u, cards1)" by (cases "remove_exact c cards")
      show ?thesis
      proof (cases "rbind (fg_forgotten env) (\<lambda>_. native_still_manages native (card_scope c) env)")
        case (Inl e)
        with assms(1) s1 Some have "r = Inl e \<and> m' = n1" by (simp add: erase_card_def)
        then show ?thesis using early by blast
      next
        case (Inr x)
        show ?thesis
        proof (cases u)
          case (Inl e)
          with assms(1) s1 s2 Some s2' u Inr have "r = Inl e \<and> m' = n2" by (simp add: erase_card_def)
          then show ?thesis using early by blast
        next
          case (Inr y)
          with u have removed: "remove_exact c cards = (Inr (), cards1)" by simp
          from assms(1) s1 s2 Some s2' removed \<open>rbind _ _ = Inr x\<close> show ?thesis
            by (intro staging [OF s2' removed]) (simp add: erase_card_def)
        qed
      qed
    qed
    then show ?thesis
    proof cases
      case early
      with moves show ?thesis by (auto intro: failed)
    next
      case (staging cards cards1)
      from s2 staging(1) have n: "n2 = m" by (auto simp: n1 dest: snapshot_desired)
      have removed: "fmlookup cards1 (card_scope c) = None"
        using staging(2) by (auto simp: remove_exact_def split: if_splits)
      obtain q sf where stage: "stage_continuity (card_scope c) (Some c) None (km_safety m) = (q, sf)"
        by (cases "stage_continuity (card_scope c) (Some c) None (km_safety m)")
      from stage assms(2) show ?thesis
      proof (cases rule: stage_continuityE)
        case (failed e)
        with staging(3) stage n assms(1) have "r = Inl e \<and> m' = m\<lparr>km_safety := sf\<rparr>" by simp
        with failed(2) show ?thesis by (simp add: that(1))
      next
        case staged
        with staging(3) stage n assms(1) have publish:
            "publish_continuity cards1 (card_scope c) (fg_publication env) (m\<lparr>km_safety := sf\<rparr>) = (r, m')"
          by simp
        then have "fence_moves A (m\<lparr>km_safety := sf\<rparr>) m'"
          by (rule publish_moves) (use staged(3) removed in auto)
        with staged(2) have "fence_moves A m m'" by (rule rtranclp_trans)
        then show ?thesis using staged(2,3) removed publish by (rule published)
      qed
    qed
  qed
qed

lemma erase_card_moves: "erase_card native env c m = (r, m') \<Longrightarrow> A (card_scope c) None \<Longrightarrow> fence_moves A m m'"
  by (erule erase_cardE) auto

lemma erase_cards_moves:
  "erase_cards native envs cs m = (r, m') \<Longrightarrow> fence_moves removal m m'"
proof (induction native envs cs m arbitrary: r m' rule: erase_cards.induct)
  case (3 native env envs c cs m)
  obtain q n where one: "erase_card native env c m = (q, n)" by (cases "erase_card native env c m")
  have first: "fence_moves removal m n" using one by (rule erase_card_moves) simp
  show ?case
  proof (cases q)
    case (Inl e)
    with one first 3(2) show ?thesis by auto
  next
    case (Inr u)
    obtain k n' where rest: "erase_cards native envs cs n = (k, n')" by (cases "erase_cards native envs cs n")
    with 3(1) [OF one [symmetric] _ rest] Inr have "fence_moves removal n n'" by simp
    moreover from one rest Inr 3(2) have "m' = n'" by (auto split: sum.splits)
    ultimately show ?thesis using first by (auto intro: rtranclp_trans)
  qed
qed auto


lemma erase_targets_moves:
  assumes "erase_targets native envs cards m = (r, m')"
  shows "fence_moves removal m m'"
proof -
  obtain q sf where fence: "fence_continuity cards (km_safety m) = (q, sf)" by (cases "fence_continuity cards (km_safety m)")
  then show ?thesis
  proof (cases rule: fence_continuityE [where A = removal])
    case failed
    with fence assms show ?thesis by (simp add: erase_targets_def)
  next
    case fenced
    with fence assms have "erase_cards native envs cards (m\<lparr>km_safety := sf\<rparr>) = (r, m')" by (simp add: erase_targets_def)
    then have "fence_moves removal (m\<lparr>km_safety := sf\<rparr>) m'" by (rule erase_cards_moves)
    with fenced(2) show ?thesis by (rule rtranclp_trans)
  qed
qed

lemma unfence_moves: "fence_moves A m (on_safety (unfence_continuity scope) m)"
  by (rule r_into_rtranclp) (rule move_unfence)

lemma clear_card_moves:
  assumes "clear_card env scope actor channel m = (r, m')"
  shows "fence_moves removal m m'"
proof (cases "m' = m")
  case False
  then obtain targets q n where erase: "erase_targets (Some (actor, channel)) [cl_erase env] targets m = (q, n)"
      and m': "m' = n \<or> m' = on_safety (unfence_continuity scope) n"
    using assms by (auto simp: clear_card_def split: sum.splits prod.splits)
  from erase have n: "fence_moves removal m n" by (rule erase_targets_moves)
  from m' show ?thesis
  proof
    assume "m' = n" then show ?thesis using n by simp
  next
    assume "m' = on_safety (unfence_continuity scope) n"
    then show ?thesis using rtranclp_trans [OF n unfence_moves] by simp
  qed
qed simp

lemma clear_continuityE:
  assumes "clear_continuity env scope actor channel m = (r, m')"
  obtains (refused) e where "r = Inl e" "m' = m"
  | (reconcile) e where "r = Inl e" "reconcile_continuity (cl_prepared env) (cl_publication env) scope m = (Inl e, m')"
  | (orphan) n m1 e where "r = Inl e" "reconcile_continuity (cl_prepared env) (cl_publication env) scope m = (Inr n, m1)"
      "erase_orphan (Some (actor, channel)) (cl_orphan env) scope m1 = (Inl e, m')"
  | (card) n m1 m2 q where "reconcile_continuity (cl_prepared env) (cl_publication env) scope m = (Inr n, m1)"
      "erase_orphan (Some (actor, channel)) (cl_orphan env) scope m1 = (Inr (), m2)"
      "clear_card env scope actor channel m2 = (q, m')" "isl r = isl q"
proof -
  obtain q1 m1 where one: "reconcile_continuity (cl_prepared env) (cl_publication env) scope m = (q1, m1)"
    by (cases "reconcile_continuity (cl_prepared env) (cl_publication env) scope m")
  obtain q2 m2 where two: "erase_orphan (Some (actor, channel)) (cl_orphan env) scope m1 = (q2, m2)"
    by (cases "erase_orphan (Some (actor, channel)) (cl_orphan env) scope m1")
  obtain q3 m3 where three: "clear_card env scope actor channel m2 = (q3, m3)"
    by (cases "clear_card env scope actor channel m2")
  show ?thesis
  proof (cases "rbind (fresh_access scope actor channel (cl_access1 env)) (\<lambda>a. scope_projects (cl_work1 env) scope a True)")
    case (Inl e)
    with assms have "r = Inl e \<and> m' = m" by (simp add: clear_continuity_def)
    then show ?thesis by (simp add: refused)
  next
    case (Inr a)
    note run = assms [unfolded clear_continuity_def Inr sum.case one prod.case]
    show ?thesis
    proof (cases q1)
      case (Inl e)
      with run have "r = Inl e \<and> m' = m1" by simp
      with one Inl show ?thesis by (simp add: reconcile)
    next
      case q1: (Inr n)
      note run = run [unfolded q1 sum.case two prod.case]
      show ?thesis
      proof (cases q2)
        case (Inl e)
        with run have "r = Inl e \<and> m' = m2" by simp
        with one two q1 Inl show ?thesis by (simp add: orphan)
      next
        case q2: (Inr u)
        with run three have "isl r = isl q3 \<and> m' = m3" by (auto split: sum.splits)
        with one two three q1 q2 show ?thesis by (simp add: card)
      qed
    qed
  qed
qed

lemma clear_continuity_moves: "clear_continuity env scope actor channel m = (r, m') \<Longrightarrow> fence_moves removal m m'"
  by (erule clear_continuityE)
    (auto dest!: reconcile_moves [where A = removal] erase_orphan_moves [where A = removal] clear_card_moves
      intro: rtranclp_trans)

lemma erase_orphans_moves: "erase_orphans envs scopes m = (r, m') \<Longrightarrow> fence_moves A m m'"
proof (induction envs scopes m arbitrary: r m' rule: erase_orphans.induct)
  case (3 env envs s scopes m)
  obtain q n where one: "erase_orphan None env s m = (q, n)" by (cases "erase_orphan None env s m")
  then have "fence_moves A m n" by (rule erase_orphan_moves)
  with 3 one show ?case by (cases q) (auto intro: rtranclp_trans)
qed auto

lemma reconcile_all_moves: "reconcile_all envs scopes m = (r, m') \<Longrightarrow> fence_moves A m m'"
proof (induction envs scopes m arbitrary: r m' rule: reconcile_all.induct)
  case (3 env envs s scopes m)
  obtain q n where one: "reconcile_continuity (fg_prepared1 env) (fg_publication env) s m = (q, n)"
    by (cases "reconcile_continuity (fg_prepared1 env) (fg_publication env) s m")
  obtain k n' where rest: "reconcile_all envs scopes n = (k, n')" by (cases "reconcile_all envs scopes n")
  from one have first: "fence_moves A m n" by (rule reconcile_moves)
  show ?case
  proof (cases q)
    case (Inl e)
    with one first 3(2) show ?thesis by simp
  next
    case (Inr u)
    with 3(1) [OF one [symmetric] _ rest] have "fence_moves A n n'" by simp
    moreover from one rest Inr 3(2) have "m' = n'" by (auto split: sum.splits)
    ultimately show ?thesis using first by (auto intro: rtranclp_trans)
  qed
qed auto

lemma unfences_moves: "fence_moves A m (on_safety (\<lambda>sf. fold unfence_continuity scopes sf) m)"
proof (induction scopes arbitrary: m)
  case Nil
  then show ?case by (simp add: on_safety_def)
next
  case (Cons s scopes)
  from Cons.IH [of "on_safety (unfence_continuity s) m"]
  have "fence_moves A (on_safety (unfence_continuity s) m) (on_safety (\<lambda>sf. fold unfence_continuity (s # scopes) sf) m)"
    by (simp add: on_safety_comp)
  then show ?case by (rule rtranclp_trans [OF unfence_moves])
qed

lemma erase_continuity_owned_moves:
  assumes "erase_continuity_owned envs1 envs2 envs3 scope member work1 work2 m = (r, m')"
  shows "fence_moves removal m m'"
proof -
  let ?orphans = "linked_orphans scope member work1 (km_safety m)"
  obtain q1 m1 where one: "erase_orphans envs1 ?orphans m = (q1, m1)" by (cases "erase_orphans envs1 ?orphans m")
  let ?pending = "linked_pending scope member work1 (km_safety m1)"
  obtain q2 m2 where two: "reconcile_all envs2 ?pending m1 = (q2, m2)" by (cases "reconcile_all envs2 ?pending m1")
  let ?targets = "erasure_targets scope member work2 (km_cards m2)"
  obtain q3 m3 where three: "erase_targets None envs3 ?targets m2 = (q3, m3)" by (cases "erase_targets None envs3 ?targets m2")
  have m1: "fence_moves removal m m1" using one by (rule erase_orphans_moves)
  with two have m2: "fence_moves removal m m2" by (blast dest: reconcile_all_moves intro: rtranclp_trans)
  with three have m3: "fence_moves removal m m3" by (blast dest: erase_targets_moves intro: rtranclp_trans)
  then have m4: "fence_moves removal m (on_safety (\<lambda>sf. fold unfence_continuity ?orphans sf) m3)"
    by (rule rtranclp_trans) (rule unfences_moves)
  from assms one two three have "m' \<in> {m1, m2, m3, on_safety (\<lambda>sf. fold unfence_continuity ?orphans sf) m3}"
    by (auto simp: erase_continuity_owned_def Let_def split: sum.splits)
  with m1 m2 m3 m4 show ?thesis by auto
qed

end
