(* ===== verification/Continuity_Steps.thy ===== *)
theory Continuity_Steps
  imports Continuity_Moves
begin

text \<open>
  The calls of the continuity machine, read backwards: what happened to the registry of
  previews, to the previews being sent, to the grants and to the cards, for each kind of
  answer. Every proof about histories goes through the one elimination rule at the end.
\<close>

section \<open>The registry\<close>

definition quieter :: "human_registry \<Rightarrow> human_registry \<Rightarrow> bool" where
  "quieter r r' \<longleftrightarrow> reg_boot_nonce (hr_proposals r') = reg_boot_nonce (hr_proposals r)
     \<and> reg_sequence (hr_proposals r') = reg_sequence (hr_proposals r)
     \<and> (\<forall>i p. fmlookup (reg_proposals (hr_proposals r')) i = Some p \<longrightarrow> fmlookup (reg_proposals (hr_proposals r)) i = Some p)
     \<and> hr_presented r' |\<subseteq>| hr_presented r"

lemma quieter_refl [simp]: "quieter r r"
  by (simp add: quieter_def)

lemma quieter_trans [trans]: "quieter r s \<Longrightarrow> quieter s t \<Longrightarrow> quieter r t"
  by (auto simp: quieter_def)

lemma quieter_prune [simp]: "quieter r (human_prune at' r)"
  by (auto simp: quieter_def human_prune_def Let_def)

lemma quieter_forget [simp]: "quieter r (forget_preview i r)"
  by (auto simp: quieter_def forget_preview_def)

lemma quieter_resolve:
  "resolve_confirmation i actor scope now (hr_proposals r) = (q, reg) \<Longrightarrow> quieter r (r\<lparr>hr_proposals := reg\<rparr>)"
  by (erule resolve_confirmationE) (auto simp: quieter_def split: if_splits)

lemma quieter_discard: "quieter r (human_discard i a at' r)"
proof -
  obtain q reg where q: "resolve_confirmation i (acc_actor a) (access_scope a) at' (hr_proposals r) = (q, reg)"
    by (cases "resolve_confirmation i (acc_actor a) (access_scope a) at' (hr_proposals r)")
  then have reg: "quieter r (r\<lparr>hr_proposals := reg\<rparr>)" by (rule quieter_resolve)
  then have "quieter r (forget_preview i (r\<lparr>hr_proposals := reg\<rparr>))" by (rule quieter_trans) simp
  with reg q have "quieter r (case resolve_confirmation i (acc_actor a) (access_scope a) at' (hr_proposals r) of
      (Inl _, reg) \<Rightarrow> r\<lparr>hr_proposals := reg\<rparr> | (Inr _, reg) \<Rightarrow> forget_preview i (r\<lparr>hr_proposals := reg\<rparr>))"
    by (cases q) simp_all
  then show ?thesis unfolding human_discard_def by (rule quieter_trans) simp
qed

text \<open>What a new proposal may hold.\<close>

definition proposable :: "continuity_proposal \<Rightarrow> work_access \<Rightarrow> work_store \<Rightarrow> u64 \<Rightarrow> bool" where
  "proposable p a work now \<longleftrightarrow> cpr_actor p = acc_actor a
     \<and> authorize_scope (cpr_scope p) a work False = Inr ()
     \<and> content_ok (cpr_presented_text p) (cpr_source_refs p)
     \<and> fBall (cpr_source_refs p) (source_current (cpr_scope p) work)
     \<and> cpr_expires_at p = now + proposal_lifetime"

definition adds_proposal :: "continuity_proposal \<Rightarrow> human_registry \<Rightarrow> human_registry \<Rightarrow> bool" where
  "adds_proposal p r r' \<longleftrightarrow>
     cpr_id p = \<lparr>pid_nonce = reg_boot_nonce (hr_proposals r), pid_sequence = reg_sequence (hr_proposals r) + 1\<rparr>
     \<and> reg_boot_nonce (hr_proposals r') = reg_boot_nonce (hr_proposals r)
     \<and> reg_sequence (hr_proposals r') = reg_sequence (hr_proposals r) + 1
     \<and> (\<forall>i q. fmlookup (reg_proposals (hr_proposals r')) i = Some q \<longrightarrow>
          i = cpr_id p \<and> q = p \<or> fmlookup (reg_proposals (hr_proposals r)) i = Some q)
     \<and> hr_presented r' |\<subseteq>| hr_presented r"

lemma human_proposeE:
  assumes "human_propose d a work generation at' r = (q, r')"
  obtains (failed) e where "q = Inl e" "quieter r r'"
  | (proposed) p where "q = Inr p" "adds_proposal p r r'" "proposable p a work at'"
      "cpr_scope p = draft_scope d" "cpr_presented_text p = draft_presented_text d"
      "cpr_source_refs p = draft_source_refs d" "cpr_base_revision p = draft_base_revision d"
proof (cases "generation = 0 \<or> max_pending \<le> fm_len (hr_epochs (human_prune at' r))")
  case True
  with assms have "(\<exists>e. q = Inl e) \<and> quieter r r'"
    by (auto simp: human_propose_def Let_def split: if_splits)
  then show ?thesis using failed by blast
next
  case False
  let ?r = "human_prune at' r"
  obtain u reg where u: "registry_propose d a work at' (hr_proposals ?r) = (u, reg)"
    by (cases "registry_propose d a work at' (hr_proposals ?r)")
  then show ?thesis
  proof (cases rule: registry_proposeE)
    case (failed e)
    with False assms u have "q = Inl e \<and> r' = ?r" by (simp add: human_propose_def Let_def)
    then show ?thesis by (intro that(1)) simp_all
  next
    case (proposed i)
    let ?p = "new_proposal d (acc_actor a) i (at' + proposal_lifetime)"
    from False assms u proposed(7) have q: "q = Inr ?p"
      and r': "r' = ?r\<lparr>hr_proposals := reg, hr_epochs := fmupd (cpr_id ?p) (generation, cpr_expires_at ?p) (hr_epochs ?r)\<rparr>"
      by (simp_all add: human_propose_def Let_def)
    have "quieter r ?r" by simp
    then have "adds_proposal ?p r r'"
      unfolding r' proposed(8) adds_proposal_def using proposed(6)
      by (auto simp: quieter_def new_proposal_def fresh_proposals_def split: if_splits option.splits)
    with q proposed(1-3) show ?thesis
      by (intro that(2) [of ?p]) (simp_all add: proposable_def new_proposal_def)
  qed
qed

lemma mark_presentedE:
  assumes "mark_presented p a generation at' r = (q, r')"
  obtains (failed) e where "q = Inl e" "quieter r r'"
  | (presented) "q = Inr ()" "cpr_actor p = acc_actor a" "cpr_scope p = access_scope a" "at' < cpr_expires_at p"
      "quieter r (r'\<lparr>hr_presented := hr_presented r\<rparr>)" "hr_presented r' |\<subseteq>| finsert (cpr_id p) (hr_presented r)"
proof (cases "q = Inr ()")
  case True
  let ?r = "human_prune at' r"
  from True assms have facts: "cpr_actor p = acc_actor a" "cpr_scope p = access_scope a" "at' < cpr_expires_at p"
    and r': "r' = ?r\<lparr>hr_presented := finsert (cpr_id p) (hr_presented ?r)\<rparr>"
    by (auto simp: mark_presented_def Let_def split: if_splits option.splits)
  have "quieter r ?r" by simp
  then have "quieter r (r'\<lparr>hr_presented := hr_presented r\<rparr>)" and "hr_presented r' |\<subseteq>| finsert (cpr_id p) (hr_presented r)"
    unfolding r' by (simp_all add: quieter_def fsubset_finsertI2 finsert_mono)
  with True facts show ?thesis by (intro presented)
next
  case False
  then obtain e where "q = Inl e" by (cases q) auto
  moreover have "quieter r r'"
    using assms False by (auto simp: mark_presented_def Let_def split: if_splits option.splits)
  ultimately show ?thesis by (rule failed)
qed

lemma human_resolveE:
  assumes "human_resolve i a generation at' r = (q, r')"
  obtains (failed) e where "q = Inl e" "quieter r r'"
  | (resolved) p g where "q = Inr (p, g)" "quieter r r'" "fmlookup (reg_proposals (hr_proposals r)) i = Some p"
      "i |\<in>| hr_presented r" "fmlookup (reg_proposals (hr_proposals r')) i = None"
      "cpr_actor p = acc_actor a" "cpr_scope p = access_scope a" "within_lifetime (cpr_expires_at p) proposal_lifetime at'"
proof -
  let ?r = "human_prune at' r"
  obtain u reg where u: "resolve_confirmation i (acc_actor a) (access_scope a) at' (hr_proposals ?r) = (u, reg)"
    by (cases "resolve_confirmation i (acc_actor a) (access_scope a) at' (hr_proposals ?r)")
  have prune: "quieter r ?r" by simp
  from u have reg: "quieter ?r (?r\<lparr>hr_proposals := reg\<rparr>)" by (rule quieter_resolve)
  then have forget: "quieter ?r (forget_preview i (?r\<lparr>hr_proposals := reg\<rparr>))" by (rule quieter_trans) simp
  show ?thesis
  proof (cases q)
    case (Inl e)
    with assms u reg have "quieter ?r r'"
      by (auto simp: human_resolve_def Let_def split: option.splits if_splits sum.splits)
    with prune have "quieter r r'" by (rule quieter_trans)
    with Inl show ?thesis by (rule failed)
  next
    case (Inr v)
    obtain p g where v: "v = (p, g)" by (cases v)
    from assms Inr v u have r': "u = Inr p" "r' = forget_preview i (?r\<lparr>hr_proposals := reg\<rparr>)" "i |\<in>| hr_presented ?r"
      by (auto simp: human_resolve_def Let_def split: option.splits if_splits sum.splits)
    from prune forget have "quieter r r'" unfolding r'(2) by (rule quieter_trans)
    moreover from u [unfolded r'(1)] have "fmlookup (reg_proposals (hr_proposals r)) i = Some p \<and> acc_actor a = cpr_actor p
        \<and> access_scope a = cpr_scope p \<and> within_lifetime (cpr_expires_at p) proposal_lifetime at'
        \<and> fmlookup (reg_proposals reg) i = None"
      by (cases rule: resolve_confirmationE) (auto simp: human_prune_def Let_def)
    moreover from prune r'(3) have "i |\<in>| hr_presented r" by (auto simp: quieter_def)
    ultimately show ?thesis
      by (intro resolved [of p g]) (simp_all add: Inr v r'(2) forget_preview_def)
  qed
qed

section \<open>Calls and answers\<close>

text \<open>What changed the cards and the fence, whatever happened to the registry before.\<close>

definition fence_changes ::
  "(work_scope \<Rightarrow> continuity_card option \<Rightarrow> bool) \<Rightarrow> continuity_machine \<Rightarrow> continuity_machine \<Rightarrow> bool" where
  "fence_changes allowed m m' \<longleftrightarrow>
     (\<exists>n. km_safety n = km_safety m \<and> km_cards n = km_cards m \<and> fence_moves allowed n m')"

lemma fence_changesI: "fence_moves A m m' \<Longrightarrow> fence_changes A m m'"
  by (auto simp: fence_changes_def)

lemma fence_unchanged: "km_safety m' = km_safety m \<Longrightarrow> km_cards m' = km_cards m \<Longrightarrow> fence_changes A m m'"
  unfolding fence_changes_def by (rule exI [of _ m']) simp

lemma discard_preview_effect:
  "quieter (km_registry m) (km_registry (discard_preview i p a now m))
     \<and> set (km_previews (discard_preview i p a now m)) \<subseteq> set (km_previews m)
     \<and> km_grants (discard_preview i p a now m) = km_grants m
     \<and> km_safety (discard_preview i p a now m) = km_safety m \<and> km_cards (discard_preview i p a now m) = km_cards m"
  by (simp add: discard_preview_def quieter_discard vec_remove_members)

definition silent :: "continuity_machine \<Rightarrow> continuity_machine \<Rightarrow> bool" where
  "silent m m' \<longleftrightarrow> quieter (km_registry m) (km_registry m') \<and> set (km_previews m') \<subseteq> set (km_previews m)
     \<and> km_grants m' = km_grants m \<and> fence_changes removal m m'"

lemma silent_refl [simp]: "silent m m"
  by (simp add: silent_def fence_unchanged)

lemma silent_moves: "fence_moves removal m m' \<Longrightarrow> silent m m'"
  using fence_move_registry by (fastforce simp: silent_def intro: fence_changesI)

lemma silent_discard: "quieter (km_registry m) r \<Longrightarrow> silent m (discard_preview i p a now (m\<lparr>km_registry := r\<rparr>))"
  using discard_preview_effect [of "m\<lparr>km_registry := r\<rparr>" i p a now]
  by (auto simp: silent_def intro: quieter_trans fence_unchanged)

lemma command_proposeE:
  assumes "command_propose scope actor channel proof' given sources work now m = (q, m')"
  obtains (failed) e where "q = Inl e" "silent m m'"
  | (proposed) p a g where "q = Inr p" "fresh_access scope actor channel proof' = Inr a"
      "cpr_scope p = scope" "cpr_actor p = actor" "cpr_presented_text p = given" "proposable p a work now"
      "adds_proposal p (km_registry m) (km_registry m')" "km_previews m' = km_previews m @ [(p, a, g)]"
      "km_grants m' = km_grants m" "km_safety m' = km_safety m" "km_cards m' = km_cards m"
proof (cases "m' = m \<and> (\<exists>e. q = Inl e)")
  case True
  then show ?thesis using failed by auto
next
  case False
  then obtain a g refs where a: "fresh_access scope actor channel proof' = Inr a"
      and g: "continuity_generation scope (km_safety m) = Some g"
      and refs: "rbind (scope_projects work scope a False) (\<lambda>_. parse_sources sources scope a work) = Inr refs"
    using assms by (auto simp: command_propose_def split: sum.splits option.splits)
  let ?d = "\<lparr>draft_scope = scope, draft_base_revision = live_revision scope m, draft_presented_text = given, draft_source_refs = refs\<rparr>"
  obtain u r where u: "human_propose ?d a work g now (km_registry m) = (u, r)"
    by (cases "human_propose ?d a work g now (km_registry m)")
  note run = assms [unfolded command_propose_def a sum.case g option.case refs u prod.case]
  from u show ?thesis
  proof (cases rule: human_proposeE)
    case (failed e)
    with run have "q = Inl e" "m' = m\<lparr>km_registry := r\<rparr>" by auto
    with failed(2) show ?thesis by (auto simp: silent_def fence_unchanged intro: that(1))
  next
    case (proposed p)
    from a have "acc_actor a = actor" by (auto simp: fresh_access_def split: sum.splits if_splits)
    moreover from run proposed(1) have "q = Inr p"
        "m' = m\<lparr>km_registry := r, km_previews := km_previews m @ [(p, a, g)]\<rparr>" by auto
    ultimately show ?thesis using a proposed
      by (intro that(2) [of p a g]) (simp_all add: proposable_def)
  qed
qed

lemma preview_sentE:
  assumes "preview_sent i sent now m = (q, m')"
  obtains (failed) e where "q = Inl e" "silent m m'"
  | (presented) p a g where "q = Inr p" "sent" "(p, a, g) \<in> set (km_previews m)" "now < cpr_expires_at p"
      "quieter (km_registry m) ((km_registry m')\<lparr>hr_presented := hr_presented (km_registry m)\<rparr>)"
      "hr_presented (km_registry m') |\<subseteq>| finsert (cpr_id p) (hr_presented (km_registry m))"
      "set (km_previews m') \<subseteq> set (km_previews m)"
      "km_grants m' = km_grants m" "km_safety m' = km_safety m" "km_cards m' = km_cards m"
proof (cases "length (km_previews m) \<le> i")
  case True
  with assms have "q = Inl Missing \<and> m' = m" by (simp add: preview_sent_def)
  then show ?thesis by (simp add: failed)
next
  case False
  obtain p a g where preview: "km_previews m ! i = (p, a, g)" by (cases "km_previews m ! i")
  with False nth_mem [of i "km_previews m"] have member: "(p, a, g) \<in> set (km_previews m)" by simp
  have discard: "silent m (discard_preview i p a now m)" using silent_discard [of m "km_registry m"] by simp
  show ?thesis
  proof (cases "sent \<and> continuity_generation (cpr_scope p) (km_safety m) \<noteq> None")
    case False
    with assms preview \<open>\<not> length _ \<le> i\<close> have "(\<exists>e. q = Inl e) \<and> m' = discard_preview i p a now m"
      by (auto simp: preview_sent_def split: option.splits if_splits)
    with discard show ?thesis using failed by auto
  next
    case True
    then obtain g' where g': "continuity_generation (cpr_scope p) (km_safety m) = Some g'" by auto
    obtain u r where u: "mark_presented p a g' now (km_registry m) = (u, r)"
      by (cases "mark_presented p a g' now (km_registry m)")
    from u show ?thesis
    proof (cases rule: mark_presentedE)
      case (failed e)
      with assms preview True g' u \<open>\<not> length _ \<le> i\<close> have "q = Inl e \<and> m' = discard_preview i p a now (m\<lparr>km_registry := r\<rparr>)"
        by (simp add: preview_sent_def)
      with silent_discard [OF failed(2)] show ?thesis by (simp add: that(1))
    next
      case presented
      with assms preview True g' u \<open>\<not> length _ \<le> i\<close> have
          "q = Inr p \<and> m' = m\<lparr>km_registry := r, km_previews := vec_remove i (km_previews m)\<rparr>"
        by (simp add: preview_sent_def)
      with True presented member show ?thesis by (intro that(2) [of p a g]) (simp_all add: vec_remove_members)
    qed
  qed
qed

lemma command_confirmE:
  assumes "command_confirm scope actor channel proof' encoded work now m = (q, m')"
  obtains (failed) e where "q = Inl e" "silent m m'"
  | (resolved) a p i g where "q = Inr p" "fresh_access scope actor channel proof' = Inr a"
      "\<exists>ps. scope_projects work scope a True = Inr ps" "decode_proposal_id encoded = Inr i"
      "cpr_actor p = actor" "cpr_scope p = scope" "within_lifetime (cpr_expires_at p) proposal_lifetime now"
      "quieter (km_registry m) (km_registry m')" "i |\<in>| hr_presented (km_registry m)"
      "fmlookup (reg_proposals (hr_proposals (km_registry m))) i = Some p"
      "fmlookup (reg_proposals (hr_proposals (km_registry m'))) i = None"
      "km_grants m' = km_grants m @ [(p, g)]" "km_previews m' = km_previews m"
      "km_safety m' = km_safety m" "km_cards m' = km_cards m"
proof (cases "m' = m \<and> (\<exists>e. q = Inl e)")
  case True
  then show ?thesis using failed by auto
next
  case False
  let ?manage = "rbind (fresh_access scope actor channel proof') (\<lambda>a. rbind (scope_projects work scope a True) (\<lambda>_. Inr a))"
  from False obtain a i g where a: "?manage = Inr a" and len: "\<not> max_proposal_id_bytes < byte_len encoded"
      and i: "decode_proposal_id encoded = Inr i" and g: "continuity_generation scope (km_safety m) = Some g"
    using assms unfolding command_confirm_def by (auto split: sum.splits option.splits if_splits)
  from a have access: "fresh_access scope actor channel proof' = Inr a" "\<exists>ps. scope_projects work scope a True = Inr ps"
    by auto
  then have acc: "acc_actor a = actor" "access_scope a = scope"
    by (auto simp: fresh_access_def split: sum.splits if_splits)
  obtain u r where u: "human_resolve i a g now (km_registry m) = (u, r)" by (cases "human_resolve i a g now (km_registry m)")
  note run = assms [unfolded command_confirm_def a sum.case if_not_P [OF len] i g option.case u prod.case]
  from u show ?thesis
  proof (cases rule: human_resolveE)
    case (failed e)
    with run have "q = Inl e \<and> m' = m\<lparr>km_registry := r\<rparr>" by simp
    with failed(2) show ?thesis by (simp add: silent_def fence_unchanged that(1))
  next
    case (resolved p h)
    with run have "q = Inr p \<and> m' = m\<lparr>km_registry := r, km_grants := km_grants m @ [(p, h)]\<rparr>" by simp
    with resolved access acc i show ?thesis by (intro that(2) [of p a i h]) simp_all
  qed
qed

lemma answered_by: "map_prod f id x = (r, m') \<longleftrightarrow> (\<exists>q. x = (q, m') \<and> r = f q)"
  by (cases x) auto

lemma continuity_stepE:
  assumes "continuity_step c m = (r, m')"
  obtains (silent) "silent m m'" "\<forall>p q. r \<noteq> Proposed (Inr p) \<and> r \<noteq> Presented (Inr p) \<and> r \<noteq> Resolved (Inr p) \<and> r \<noteq> Confirmed p q"
  | (proposed) scope actor channel proof' given sources work now p a g where
      "c = KPropose scope actor channel proof' given sources work now" "r = Proposed (Inr p)"
      "fresh_access scope actor channel proof' = Inr a"
      "cpr_scope p = scope" "cpr_actor p = actor" "cpr_presented_text p = given" "proposable p a work now"
      "adds_proposal p (km_registry m) (km_registry m')" "km_previews m' = km_previews m @ [(p, a, g)]"
      "km_grants m' = km_grants m" "km_safety m' = km_safety m" "km_cards m' = km_cards m"
  | (presented) i now p a g where "c = KPreviewSent i True now" "r = Presented (Inr p)"
      "(p, a, g) \<in> set (km_previews m)" "now < cpr_expires_at p"
      "quieter (km_registry m) ((km_registry m')\<lparr>hr_presented := hr_presented (km_registry m)\<rparr>)"
      "hr_presented (km_registry m') |\<subseteq>| finsert (cpr_id p) (hr_presented (km_registry m))"
      "set (km_previews m') \<subseteq> set (km_previews m)"
      "km_grants m' = km_grants m" "km_safety m' = km_safety m" "km_cards m' = km_cards m"
  | (resolved) scope actor channel proof' encoded work now a i p g where
      "c = KResolve scope actor channel proof' encoded work now" "r = Resolved (Inr p)"
      "fresh_access scope actor channel proof' = Inr a"
      "\<exists>ps. scope_projects work scope a True = Inr ps" "decode_proposal_id encoded = Inr i"
      "cpr_actor p = actor" "cpr_scope p = scope" "within_lifetime (cpr_expires_at p) proposal_lifetime now"
      "quieter (km_registry m) (km_registry m')" "i |\<in>| hr_presented (km_registry m)"
      "fmlookup (reg_proposals (hr_proposals (km_registry m))) i = Some p"
      "fmlookup (reg_proposals (hr_proposals (km_registry m'))) i = None"
      "km_grants m' = km_grants m @ [(p, g)]" "km_previews m' = km_previews m"
      "km_safety m' = km_safety m" "km_cards m' = km_cards m"
  | (confirmed) i actor channel env p g q where "c = KConfirm i actor channel env" "r = Confirmed p q"
      "i < length (km_grants m)" "km_grants m ! i = (p, g)" "km_grants m' = vec_remove i (km_grants m)"
      "km_registry m' = km_registry m" "km_previews m' = km_previews m"
      "fence_changes (\<lambda>s d. \<exists>c. d = Some c \<and> s = card_scope c \<and> confirmable p env actor channel c) m m'"
proof (cases c)
  case (KPropose scope actor channel proof' given sources work now)
  obtain q n where run: "command_propose scope actor channel proof' given sources work now m = (q, n)"
    by (cases "command_propose scope actor channel proof' given sources work now m")
  with KPropose assms have r: "r = Proposed q" "m' = n" by simp_all
  from run show ?thesis
  proof (cases rule: command_proposeE)
    case failed
    with r show ?thesis by (simp add: silent)
  next
    case (proposed p a g)
    then show ?thesis using that(2) KPropose r by simp
  qed
next
  case (KPreviewChecked i proof' work now)
  with assms silent_discard [of m "km_registry m"] show ?thesis
    by (intro silent) (auto simp: preview_checked_def split: if_splits prod.splits sum.splits)
next
  case (KPreviewSent i sent now)
  obtain q n where run: "preview_sent i sent now m = (q, n)" by (cases "preview_sent i sent now m")
  with KPreviewSent assms have r: "r = Presented q" "m' = n" by simp_all
  from run show ?thesis
  proof (cases rule: preview_sentE)
    case failed
    with r show ?thesis by (simp add: silent)
  next
    case (presented p a g)
    then show ?thesis using that(3) KPreviewSent r by simp
  qed
next
  case (KResolve scope actor channel proof' encoded work now)
  obtain q n where run: "command_confirm scope actor channel proof' encoded work now m = (q, n)"
    by (cases "command_confirm scope actor channel proof' encoded work now m")
  with KResolve assms have r: "r = Resolved q" "m' = n" by simp_all
  from run show ?thesis
  proof (cases rule: command_confirmE)
    case failed
    with r show ?thesis by (simp add: silent)
  next
    case (resolved a p g)
    then show ?thesis using that(4) KResolve r by simp
  qed
next
  case (KConfirm i actor channel env)
  show ?thesis
  proof (cases "length (km_grants m) \<le> i")
    case True
    with KConfirm assms show ?thesis by (intro silent) (auto simp: confirm_grant_def)
  next
    case False
    obtain p g where grant: "km_grants m ! i = (p, g)" by (cases "km_grants m ! i")
    let ?m = "m\<lparr>km_grants := vec_remove i (km_grants m)\<rparr>"
    obtain q n where run: "confirm_continuity env p g actor channel ?m = (q, n)"
      by (cases "confirm_continuity env p g actor channel ?m")
    from confirm_continuity_moves [OF run] have moves:
      "fence_moves (\<lambda>s d. \<exists>c. d = Some c \<and> s = card_scope c \<and> confirmable p env actor channel c) ?m n" .
    with KConfirm assms grant run False show ?thesis
      using fence_move_registry [OF moves]
      by (intro confirmed [of i actor channel env p q g])
        (auto simp: confirm_grant_def fence_changes_def intro!: exI [of _ ?m])
  qed
next
  case (KClear env scope actor channel)
  with assms show ?thesis by (intro silent) (auto simp: answered_by dest!: clear_continuity_moves intro: silent_moves)
next
  case (KErase envs1 envs2 envs3 scope member work1 work2)
  with assms show ?thesis by (intro silent) (auto simp: answered_by dest!: erase_continuity_owned_moves intro: silent_moves)
next
  case (KSave prepared)
  with assms show ?thesis by (intro silent) (auto simp: answered_by dest!: take_snapshot_moves [where A = removal] intro: silent_moves)
next
  case (KAdmit env scope actor channel au)
  with assms show ?thesis by (intro silent) auto
qed

end
