(* ===== verification/Continuity_History.thy ===== *)
theory Continuity_History
  imports Continuity_Steps
begin

text \<open>
  Histories of the continuity machine. A card that reaches a prompt is traced back through the
  confirmation, the resolution, the preview and the proposal of one member; a proposal is used
  at most once; what is cleared or erased is gone; what is unresolved is not used.
\<close>

section \<open>What happened, in order\<close>

type_synonym continuity_event = "continuity_call \<times> continuity_return"

definition was_proposed :: "continuity_proposal \<Rightarrow> continuity_event \<Rightarrow> bool" where
  "was_proposed p e \<longleftrightarrow> (\<exists>channel proof' sources work now a.
     e = (KPropose (cpr_scope p) (cpr_actor p) channel proof' (cpr_presented_text p) sources work now, Proposed (Inr p))
     \<and> fresh_access (cpr_scope p) (cpr_actor p) channel proof' = Inr a \<and> proposable p a work now)"

definition was_presented :: "continuity_proposal \<Rightarrow> continuity_event \<Rightarrow> bool" where
  "was_presented p e \<longleftrightarrow> (\<exists>i now. e = (KPreviewSent i True now, Presented (Inr p)) \<and> now < cpr_expires_at p)"

definition was_resolved :: "continuity_proposal \<Rightarrow> continuity_event \<Rightarrow> bool" where
  "was_resolved p e \<longleftrightarrow> (\<exists>channel proof' encoded work now a ps.
     e = (KResolve (cpr_scope p) (cpr_actor p) channel proof' encoded work now, Resolved (Inr p))
     \<and> fresh_access (cpr_scope p) (cpr_actor p) channel proof' = Inr a
     \<and> scope_projects work (cpr_scope p) a True = Inr ps
     \<and> decode_proposal_id encoded = Inr (cpr_id p)
     \<and> within_lifetime (cpr_expires_at p) proposal_lifetime now)"

definition was_confirmed :: "continuity_proposal \<Rightarrow> continuity_card \<Rightarrow> continuity_event \<Rightarrow> bool" where
  "was_confirmed p c e \<longleftrightarrow> (\<exists>i actor channel env q.
     e = (KConfirm i actor channel env, Confirmed p q) \<and> confirmable p env actor channel c)"

section \<open>Cards and the fence\<close>

definition only_cards :: "(work_scope \<Rightarrow> continuity_card \<Rightarrow> bool) \<Rightarrow> continuity_machine \<Rightarrow> bool" where
  "only_cards P m \<longleftrightarrow> (\<forall>s c. fmlookup (km_cards m) s = Some c \<longrightarrow> P s c)
     \<and> (\<forall>s e c. fmlookup (sf_pending (km_safety m)) s = Some (e, Some c) \<longrightarrow> P s c)"

definition fence_ok :: "continuity_machine \<Rightarrow> bool" where
  "fence_ok m \<longleftrightarrow> cards_ok (km_cards m)
     \<and> fmdom (sf_pending (km_safety m)) |\<subseteq>| sf_blocked (km_safety m)
     \<and> fmdom (sf_orphans (km_safety m)) |\<subseteq>| sf_blocked (km_safety m)
     \<and> (\<forall>s c. fmlookup (sf_orphans (km_safety m)) s = Some c \<longrightarrow> card_scope c = s)"

lemma fence_move_only:
  assumes "fence_move A m m'" and "only_cards P m" and "\<And>s c. A s (Some c) \<Longrightarrow> P s c"
  shows "only_cards P m'"
  using assms(1)
proof cases
  case (move_publish scope expected desired cards)
  from move_publish(3) show ?thesis
    using assms(2) move_publish(1,2)
    by (cases rule: replace_exactE) (auto simp: only_cards_def on_safety_def split: if_splits)
qed (use assms(2,3) in \<open>auto simp: only_cards_def on_safety_def unfence_continuity_def split: if_splits\<close>)

lemma fence_move_ok:
  assumes "fence_move A m m'" and "fence_ok m"
  shows "fence_ok m'"
  using assms(1)
proof cases
  case (move_publish scope expected desired cards)
  from assms(2) move_publish(3) have "cards_ok cards" by (auto simp: fence_ok_def intro: cards_ok_replace)
  with assms(2) move_publish(1) show ?thesis by (auto simp: fence_ok_def on_safety_def)
qed (use assms(2) in \<open>auto simp: fence_ok_def on_safety_def unfence_continuity_def split: if_splits\<close>)

lemma fence_changes_only:
  assumes "fence_changes A m m'" and "only_cards P m" and "\<And>s c. A s (Some c) \<Longrightarrow> P s c"
  shows "only_cards P m'"
proof -
  from assms(1) obtain n where n: "km_safety n = km_safety m" "km_cards n = km_cards m" "fence_moves A n m'"
    by (auto simp: fence_changes_def)
  from n(1,2) assms(2) have "only_cards P n" by (simp add: only_cards_def)
  with n(3) show ?thesis by (rule fence_moves_invariant) (rule fence_move_only [OF _ _ assms(3)])
qed

lemma fence_changes_ok: "fence_changes A m m' \<Longrightarrow> fence_ok m \<Longrightarrow> fence_ok m'"
proof -
  assume "fence_changes A m m'" and ok: "fence_ok m"
  then obtain n where n: "km_safety n = km_safety m" "km_cards n = km_cards m" "fence_moves A n m'"
    by (auto simp: fence_changes_def)
  from n(1,2) ok have "fence_ok n" by (simp add: fence_ok_def)
  with n(3) show ?thesis by (rule fence_moves_invariant) (rule fence_move_ok)
qed

text \<open>What a step may bring in.\<close>

lemma fence_changes_mono:
  assumes "fence_changes A m m'" and "\<And>s d. A s d \<Longrightarrow> B s d"
  shows "fence_changes B m m'"
  using assms fence_moves_mono [of A _ m' B] by (fastforce simp: fence_changes_def)

lemma continuity_step_fence:
  assumes "continuity_step c m = (r, m')"
  shows "fence_changes (\<lambda>s d. d = None \<or> (\<exists>p k. d = Some k \<and> s = card_scope k \<and> was_confirmed p k (c, r))) m m'"
    (is "fence_changes ?A m m'")
  using assms
proof (cases rule: continuity_stepE)
  case silent
  then have "fence_changes removal m m'" by (simp add: silent_def)
  then show ?thesis by (rule fence_changes_mono) simp
next
  case (confirmed i actor channel env p g q)
  from confirmed(8) show ?thesis
    by (rule fence_changes_mono) (use confirmed(1,2) in \<open>auto simp: was_confirmed_def\<close>)
qed (simp_all add: fence_unchanged)

interpretation continuity_fence: stepper continuity_step fence_ok
  by unfold_locales (rule fence_changes_ok [OF continuity_step_fence])

section \<open>The registry\<close>

text \<open>Identities are issued once: a proposal anywhere in the process with a known identity is
  the registered one, and a grant is no longer registered.\<close>

definition issued :: "human_registry \<Rightarrow> proposal_id \<Rightarrow> bool" where
  "issued r i \<longleftrightarrow> pid_nonce i = reg_boot_nonce (hr_proposals r) \<and> pid_sequence i \<le> reg_sequence (hr_proposals r)"

definition registered :: "human_registry \<Rightarrow> proposal_id \<Rightarrow> continuity_proposal option" where
  "registered r i = fmlookup (reg_proposals (hr_proposals r)) i"

definition registry_ok :: "continuity_machine \<Rightarrow> bool" where
  "registry_ok m \<longleftrightarrow>
     (\<forall>i p. registered (km_registry m) i = Some p \<longrightarrow> cpr_id p = i \<and> issued (km_registry m) i)
     \<and> (\<forall>p a g. (p, a, g) \<in> set (km_previews m) \<longrightarrow> issued (km_registry m) (cpr_id p)
          \<and> registered (km_registry m) (cpr_id p) \<in> {None, Some p})
     \<and> (\<forall>i \<in> fset (hr_presented (km_registry m)). issued (km_registry m) i)
     \<and> (\<forall>p g. (p, g) \<in> set (km_grants m) \<longrightarrow> issued (km_registry m) (cpr_id p)
          \<and> registered (km_registry m) (cpr_id p) = None)
     \<and> distinct (map (cpr_id \<circ> fst) (km_grants m))"

lemma registry_okD:
  assumes "registry_ok m"
  shows "registered (km_registry m) i = Some p \<Longrightarrow> cpr_id p = i \<and> issued (km_registry m) i"
    and "(p, a, g) \<in> set (km_previews m) \<Longrightarrow>
      issued (km_registry m) (cpr_id p) \<and> (registered (km_registry m) (cpr_id p) = None \<or> registered (km_registry m) (cpr_id p) = Some p)"
    and "i |\<in>| hr_presented (km_registry m) \<Longrightarrow> issued (km_registry m) i"
    and "(p, h) \<in> set (km_grants m) \<Longrightarrow> issued (km_registry m) (cpr_id p) \<and> registered (km_registry m) (cpr_id p) = None"
    and "distinct (map (cpr_id \<circ> fst) (km_grants m))"
  using assms unfolding registry_ok_def by (blast, blast, simp, blast, simp)

lemma registry_okI:
  assumes "\<And>i p. registered (km_registry m) i = Some p \<Longrightarrow> cpr_id p = i \<and> issued (km_registry m) i"
    and "\<And>p a g. (p, a, g) \<in> set (km_previews m) \<Longrightarrow>
      issued (km_registry m) (cpr_id p) \<and> (registered (km_registry m) (cpr_id p) = None \<or> registered (km_registry m) (cpr_id p) = Some p)"
    and "\<And>i. i |\<in>| hr_presented (km_registry m) \<Longrightarrow> issued (km_registry m) i"
    and "\<And>p g. (p, g) \<in> set (km_grants m) \<Longrightarrow> issued (km_registry m) (cpr_id p) \<and> registered (km_registry m) (cpr_id p) = None"
    and "distinct (map (cpr_id \<circ> fst) (km_grants m))"
  shows "registry_ok m"
  using assms unfolding registry_ok_def by blast

lemma registered_presented [simp]:
  "issued (r\<lparr>hr_presented := presented\<rparr>) = issued r" "registered (r\<lparr>hr_presented := presented\<rparr>) = registered r"
  by (auto simp: issued_def registered_def)

lemma quieter_issued: "quieter r r' \<Longrightarrow> issued r' = issued r"
  by (auto simp: quieter_def issued_def)

lemma quieter_registered: "quieter r r' \<Longrightarrow> registered r' i = None \<or> registered r' i = registered r i"
  by (cases "registered r' i") (auto simp: quieter_def registered_def)

lemma quieter_presented: "quieter r r' \<Longrightarrow> i |\<in>| hr_presented r' \<Longrightarrow> i |\<in>| hr_presented r"
  by (auto simp: quieter_def)

lemma adds_issued: "adds_proposal p r r' \<Longrightarrow> issued r i \<Longrightarrow> issued r' i \<and> i \<noteq> cpr_id p"
  by (auto simp: adds_proposal_def issued_def)

lemma adds_issued_new: "adds_proposal p r r' \<Longrightarrow> issued r' (cpr_id p) \<and> \<not> issued r (cpr_id p)"
  by (auto simp: adds_proposal_def issued_def)

lemma adds_registered:
  "adds_proposal p r r' \<Longrightarrow> registered r' i = Some q \<Longrightarrow> i = cpr_id p \<and> q = p \<or> registered r i = Some q"
  by (auto simp: adds_proposal_def registered_def)

lemma vec_remove_distinct: "distinct (map f xs) \<Longrightarrow> distinct (map f (vec_remove i xs))"
  by (induction i xs rule: vec_remove.induct) (auto split: nat.splits dest: vec_remove_member)

lemma vec_remove_gone:
  "distinct (map f xs) \<Longrightarrow> i < length xs \<Longrightarrow> x \<in> set (vec_remove i xs) \<Longrightarrow> f x \<noteq> f (xs ! i)"
  by (induction i xs rule: vec_remove.induct) (auto split: nat.splits intro: rev_image_eqI)

lemma quieter_registry_ok:
  assumes "registry_ok m" and "quieter (km_registry m) (km_registry m')"
    and "set (km_previews m') \<subseteq> set (km_previews m)" and "km_grants m' = km_grants m"
  shows "registry_ok m'"
proof -
  note q = assms(2) and ok = registry_okD [OF assms(1)]
  have kept: "registered (km_registry m') i = None \<or> registered (km_registry m') i = registered (km_registry m) i" for i
    using q by (rule quieter_registered)
  show ?thesis
    unfolding registry_ok_def quieter_issued [OF q] assms(4)
  proof (intro conjI allI impI ballI)
    fix i p
    assume "registered (km_registry m') i = Some p"
    with kept [of i] have "registered (km_registry m) i = Some p" by auto
    then show "cpr_id p = i" "issued (km_registry m) i" using ok(1) by blast+
  next
    fix p a g
    assume "(p, a, g) \<in> set (km_previews m')"
    with assms(3) have "(p, a, g) \<in> set (km_previews m)" by blast
    with ok(2) kept [of "cpr_id p"] show "issued (km_registry m) (cpr_id p)" "registered (km_registry m') (cpr_id p) \<in> {None, Some p}"
      by fastforce+
  next
    fix i
    assume "i \<in> fset (hr_presented (km_registry m'))"
    with quieter_presented [OF q] ok(3) show "issued (km_registry m) i" by blast
  next
    fix p g
    assume "(p, g) \<in> set (km_grants m)"
    with ok(4) kept [of "cpr_id p"] show "issued (km_registry m) (cpr_id p)" "registered (km_registry m') (cpr_id p) = None"
      by fastforce+
  qed (rule ok(5))
qed

lemma registry_ok_step:
  assumes "registry_ok m" and "continuity_step c m = (r, m')"
  shows "registry_ok m'"
  using assms(2)
proof (cases rule: continuity_stepE)
  case silent
  with assms(1) show ?thesis by (auto simp: silent_def intro: quieter_registry_ok)
next
  case (proposed scope actor channel proof' given sources work now p a g)
  note adds = proposed(8)
  have kept: "registered (km_registry m') i = None \<or> registered (km_registry m') i = registered (km_registry m) i"
    if "issued (km_registry m) i" for i
    using adds_registered [OF adds, of i] adds_issued [OF adds that] by (cases "registered (km_registry m') i") auto
  have unknown: "\<not> issued (km_registry m) (cpr_id p)" and issued: "issued (km_registry m') (cpr_id p)"
    using adds_issued_new [OF adds] by simp_all
  from unknown assms(1) have "registered (km_registry m) (cpr_id p) = None"
    by (cases "registered (km_registry m) (cpr_id p)") (auto simp: registry_ok_def)
  with issued adds_registered [OF adds, of "cpr_id p"]
  have new: "issued (km_registry m') (cpr_id p)" "registered (km_registry m') (cpr_id p) \<in> {None, Some p}"
    by (cases "registered (km_registry m') (cpr_id p)"; auto)+
  have presented: "hr_presented (km_registry m') |\<subseteq>| hr_presented (km_registry m)" using adds by (simp add: adds_proposal_def)
  show ?thesis
    unfolding registry_ok_def
  proof (intro conjI allI impI ballI)
    fix i q
    assume "registered (km_registry m') i = Some q"
    then show "cpr_id q = i" "issued (km_registry m') i"
      using adds_registered [OF adds, of i q] adds_issued [OF adds, of i] assms(1) new(1) by (auto simp: registry_ok_def)
  next
    fix q b h
    assume "(q, b, h) \<in> set (km_previews m')"
    then consider "q = p" | "(q, b, h) \<in> set (km_previews m)" unfolding proposed(9) by auto
    then have "issued (km_registry m') (cpr_id q) \<and> registered (km_registry m') (cpr_id q) \<in> {None, Some q}"
    proof cases
      case 2
      with registry_okD(2) [OF assms(1)] adds_issued [OF adds] kept [of "cpr_id q"] show ?thesis by fastforce
    qed (use new in simp)
    then show "issued (km_registry m') (cpr_id q)" "registered (km_registry m') (cpr_id q) \<in> {None, Some q}" by auto
  next
    fix i
    assume "i \<in> fset (hr_presented (km_registry m'))"
    with presented assms(1) adds_issued [OF adds] show "issued (km_registry m') i" by (auto simp: registry_ok_def)
  next
    fix q h
    assume "(q, h) \<in> set (km_grants m')"
    with assms(1) have "issued (km_registry m) (cpr_id q)" "registered (km_registry m) (cpr_id q) = None"
      unfolding proposed(10) by (auto simp: registry_ok_def)
    then show "issued (km_registry m') (cpr_id q)" "registered (km_registry m') (cpr_id q) = None"
      using adds_issued [OF adds, of "cpr_id q"] kept [of "cpr_id q"] by auto
  qed (use assms(1) proposed(10) in \<open>simp add: registry_ok_def\<close>)
next
  case (presented i now p a g)
  let ?m = "m'\<lparr>km_registry := (km_registry m')\<lparr>hr_presented := hr_presented (km_registry m)\<rparr>\<rparr>"
  have "registry_ok ?m" using assms(1) by (rule quieter_registry_ok) (use presented in auto)
  moreover have "issued (km_registry m') (cpr_id p)"
    using registry_okD(2) [OF assms(1) presented(3)] quieter_issued [OF presented(5)] by simp
  moreover have "issued (km_registry m') i" if "i |\<in>| hr_presented (km_registry m)" for i
    using registry_okD(3) [OF assms(1) that] quieter_issued [OF presented(5)] by simp
  moreover note ok = registry_okD [OF \<open>registry_ok ?m\<close>, simplified]
  ultimately have "issued (km_registry m') i" if "i |\<in>| hr_presented (km_registry m')" for i
    using fsubsetD [OF presented(6) that] by auto
  then show ?thesis by (intro registry_okI ok(1,2,4,5))
next
  case (resolved scope actor channel proof' encoded work now a i p g)
  let ?m = "m'\<lparr>km_grants := km_grants m\<rparr>"
  have "registry_ok ?m" using assms(1) by (rule quieter_registry_ok) (use resolved in auto)
  note ok = registry_okD [OF this, simplified]
  from resolved(11) registry_okD(1) [OF assms(1), of i p] have p: "cpr_id p = i" "issued (km_registry m') i"
    by (simp_all add: registered_def quieter_issued [OF resolved(9)])
  have fresh: "cpr_id q \<noteq> i" if "(q, h) \<in> set (km_grants m)" for q h
    using registry_okD(4) [OF assms(1) that] resolved(11) by (auto simp: registered_def)
  show ?thesis
  proof (intro registry_okI ok(1,2,3))
    fix q h
    assume "(q, h) \<in> set (km_grants m')"
    then consider "(q, h) \<in> set (km_grants m)" | "q = p" unfolding resolved(13) by auto
    then show "issued (km_registry m') (cpr_id q) \<and> registered (km_registry m') (cpr_id q) = None"
      using ok(4) p resolved(12) by cases (blast, simp add: registered_def)
  next
    show "distinct (map (cpr_id \<circ> fst) (km_grants m'))"
      unfolding resolved(13) using ok(5) p(1) fresh by (fastforce simp del: map_map)
  qed (use resolved in auto)
next
  case (confirmed i actor channel env p g q)
  note ok = registry_okD [OF assms(1)]
  show ?thesis
    unfolding confirmed
  proof (intro registry_okI)
    fix q h
    assume "(q, h) \<in> set (km_grants m')"
    then have "(q, h) \<in> set (km_grants m)" unfolding confirmed(5) by (rule vec_remove_member)
    then show "issued (km_registry m') (cpr_id q) \<and> registered (km_registry m') (cpr_id q) = None"
      using ok(4) confirmed(6) by simp
  next
    show "distinct (map (cpr_id \<circ> fst) (km_grants m'))"
      unfolding confirmed(5) using ok(5) by (rule vec_remove_distinct)
  qed (use ok confirmed(6,7) in auto)
qed

lemma registry_ok_boot [simp]: "registry_ok (boot_continuity nonce cards work now)"
  by (simp add: registry_ok_def boot_continuity_def registered_def new_registry_def)

section \<open>Spent proposals\<close>

definition grant_used :: "continuity_machine \<Rightarrow> proposal_id \<Rightarrow> bool" where
  "grant_used m i \<longleftrightarrow> issued (km_registry m) i \<and> registered (km_registry m) i = None
     \<and> (\<forall>p g. (p, g) \<in> set (km_grants m) \<longrightarrow> cpr_id p \<noteq> i)"

fun uses_grant :: "continuity_call \<Rightarrow> continuity_return \<Rightarrow> proposal_id \<Rightarrow> bool" where
  "uses_grant c (Confirmed p q) i = (cpr_id p = i)"
| "uses_grant c r i = False"

lemma grant_used_step:
  assumes "registry_ok m" and "continuity_step c m = (r, m')" and "grant_used m i"
  shows "grant_used m' i"
  using assms(2)
proof (cases rule: continuity_stepE)
  case silent
  then have "quieter (km_registry m) (km_registry m')" "km_grants m' = km_grants m" by (simp_all add: silent_def)
  with assms(3) show ?thesis
    using quieter_issued [of "km_registry m" "km_registry m'"] quieter_registered [of "km_registry m" "km_registry m'" i]
    by (auto simp: grant_used_def)
next
  case (proposed scope actor channel proof' given sources work now p a g)
  with assms(3) show ?thesis
    using adds_issued [of p "km_registry m" "km_registry m'" i] adds_registered [of p "km_registry m" "km_registry m'" i]
    by (cases "registered (km_registry m') i") (auto simp: grant_used_def)
next
  case (presented j now p a g)
  with assms(3) show ?thesis
    using quieter_issued [OF presented(5)] quieter_registered [OF presented(5), of i]
    by (auto simp: grant_used_def)
next
  case (resolved scope actor channel proof' encoded work now a j p g)
  from resolved(11) assms(3) have "i \<noteq> j" by (auto simp: grant_used_def registered_def)
  moreover from resolved(11) registry_okD(1) [OF assms(1), of j p] have "cpr_id p = j" by (simp add: registered_def)
  ultimately show ?thesis
    using assms(3) quieter_issued [OF resolved(9)] quieter_registered [OF resolved(9), of i] resolved(13)
    by (auto simp: grant_used_def)
next
  case (confirmed j actor channel env p g q)
  with assms(3) show ?thesis by (auto simp: grant_used_def dest: vec_remove_member)
qed

lemma uses_grant_spends:
  assumes "registry_ok m" and "continuity_step c m = (r, m')" and "uses_grant c r i"
  shows "\<not> grant_used m i \<and> grant_used m' i"
  using assms(2)
proof (cases rule: continuity_stepE)
  case (confirmed j actor channel env p g q)
  from assms(3) confirmed(2) have i: "cpr_id p = i" by simp
  from confirmed(3,4) have "(p, g) \<in> set (km_grants m)" by (metis nth_mem)
  with i assms(1) have facts: "\<not> grant_used m i" "issued (km_registry m) i" "registered (km_registry m) i = None"
    by (auto simp: grant_used_def registry_ok_def)
  have "cpr_id q \<noteq> i" if "(q, h) \<in> set (km_grants m')" for q h
    using vec_remove_gone [of "cpr_id \<circ> fst" "km_grants m" j "(q, h)"] assms(1) confirmed(3,4,5) i that
    by (auto simp: registry_ok_def)
  with facts confirmed(6) show ?thesis by (auto simp: grant_used_def)
qed (use assms(3) in \<open>auto elim!: uses_grant.elims\<close>)

interpretation continuity_grants: once_machine continuity_step "boot_continuity nonce cards work now" registry_ok
  grant_used uses_grant for nonce cards work now
  by unfold_locales (use registry_ok_step grant_used_step uses_grant_spends in auto)

section \<open>Where cards come from\<close>

definition confirmed_by_member :: "continuity_event list \<Rightarrow> continuity_card \<Rightarrow> bool" where
  "confirmed_by_member h c \<longleftrightarrow> (\<exists>p. happened [was_confirmed p c, was_resolved p, was_presented p, was_proposed p] h)"

definition origin :: "card_store \<Rightarrow> continuity_event list \<Rightarrow> continuity_card \<Rightarrow> bool" where
  "origin cards h c \<longleftrightarrow> fmlookup cards (card_scope c) = Some c \<or> confirmed_by_member h c"

definition traced :: "card_store \<Rightarrow> continuity_event list \<Rightarrow> continuity_machine \<Rightarrow> bool" where
  "traced cards h m \<longleftrightarrow>
     (\<forall>p a g. (p, a, g) \<in> set (km_previews m) \<longrightarrow> happened [was_proposed p] h)
     \<and> (\<forall>i p. registered (km_registry m) i = Some p \<longrightarrow> happened [was_proposed p] h)
     \<and> (\<forall>i p. i |\<in>| hr_presented (km_registry m) \<longrightarrow> registered (km_registry m) i = Some p
          \<longrightarrow> happened [was_presented p, was_proposed p] h)
     \<and> (\<forall>p g. (p, g) \<in> set (km_grants m) \<longrightarrow> happened [was_resolved p, was_presented p, was_proposed p] h)
     \<and> only_cards (\<lambda>s c. card_scope c = s \<and> origin cards h c) m"

lemma tracedD:
  assumes "traced cards h m"
  shows "(p, a, g) \<in> set (km_previews m) \<Longrightarrow> happened [was_proposed p] h"
    and "registered (km_registry m) i = Some p \<Longrightarrow> happened [was_proposed p] h"
    and "i |\<in>| hr_presented (km_registry m) \<Longrightarrow> registered (km_registry m) i = Some p \<Longrightarrow> happened [was_presented p, was_proposed p] h"
    and "(p, g') \<in> set (km_grants m) \<Longrightarrow> happened [was_resolved p, was_presented p, was_proposed p] h"
    and "only_cards (\<lambda>s c. card_scope c = s \<and> origin cards h c) m"
  using assms unfolding traced_def by (blast, blast, blast, blast, blast)

lemma tracedI:
  assumes "\<And>p a g. (p, a, g) \<in> set (km_previews m) \<Longrightarrow> happened [was_proposed p] h"
    and "\<And>i p. registered (km_registry m) i = Some p \<Longrightarrow> happened [was_proposed p] h"
    and "\<And>i p. i |\<in>| hr_presented (km_registry m) \<Longrightarrow> registered (km_registry m) i = Some p
      \<Longrightarrow> happened [was_presented p, was_proposed p] h"
    and "\<And>p g. (p, g) \<in> set (km_grants m) \<Longrightarrow> happened [was_resolved p, was_presented p, was_proposed p] h"
    and "only_cards (\<lambda>s c. card_scope c = s \<and> origin cards h c) m"
  shows "traced cards h m"
  using assms unfolding traced_def by blast

lemma traced_later: "traced cards h m \<Longrightarrow> traced cards (e # h) m"
proof (intro tracedI)
  assume old: "traced cards h m"
  show "only_cards (\<lambda>s c. card_scope c = s \<and> origin cards (e # h) c) m"
    using tracedD(5) [OF old] unfolding only_cards_def origin_def confirmed_by_member_def
    by (blast intro: happened_later)
qed (blast dest: tracedD intro: happened_later)+

lemma grant_confirmed:
  assumes "traced cards h m" and "continuity_step c m = (r, m')" and "was_confirmed p k (c, r)"
  shows "origin cards ((c, r) # h) k"
  using assms(2)
proof (cases rule: continuity_stepE)
  case (confirmed i actor channel env q g u)
  from assms(3) confirmed(1,2) have "q = p" by (auto simp: was_confirmed_def)
  with confirmed(3,4) have "(p, g) \<in> set (km_grants m)" by (metis nth_mem)
  with assms(3) tracedD(4) [OF assms(1)]
  have "happened [was_confirmed p k, was_resolved p, was_presented p, was_proposed p] ((c, r) # h)" by simp
  then show ?thesis
    unfolding origin_def confirmed_by_member_def by blast
qed (use assms(3) in \<open>auto simp: was_confirmed_def\<close>)

lemma traced_cards:
  assumes "traced cards h m" and "continuity_step c m = (r, m')"
  shows "only_cards (\<lambda>s k. card_scope k = s \<and> origin cards ((c, r) # h) k) m'"
  using continuity_step_fence [OF assms(2)] tracedD(5) [OF traced_later [OF assms(1)]]
  by (rule fence_changes_only) (use grant_confirmed [OF assms] in auto)

lemma traced_step:
  assumes "registry_ok m" and "traced cards h m" and "continuity_step c m = (r, m')"
  shows "traced cards ((c, r) # h) m'"
proof -
  let ?h = "(c, r) # h"
  note cards = traced_cards [OF assms(2,3)]
  note old = tracedD [OF traced_later [OF assms(2), of "(c, r)"]] and ok = registry_okD [OF assms(1)]
  from assms(3) show ?thesis
  proof (cases rule: continuity_stepE)
    case silent
    then have q: "quieter (km_registry m) (km_registry m')" and previews: "set (km_previews m') \<subseteq> set (km_previews m)"
        and grants: "km_grants m' = km_grants m"
      by (simp_all add: silent_def)
    have kept: "registered (km_registry m) i = Some p" if "registered (km_registry m') i = Some p" for i p
      using quieter_registered [OF q, of i] that by auto
    show ?thesis
    proof (intro tracedI cards)
      fix p a g assume "(p, a, g) \<in> set (km_previews m')"
      with previews show "happened [was_proposed p] ?h" using old(1) by blast
    qed (use old(2-4) kept grants quieter_presented [OF q] in \<open>blast, blast, simp\<close>)
  next
    case (proposed scope actor channel proof' given sources work now p a g)
    from proposed(1-7) have "was_proposed p (c, r)" unfolding was_proposed_def by auto
    then have new: "happened [was_proposed p] ?h" by simp
    note adds = proposed(8)
    show ?thesis
    proof (intro tracedI cards)
      fix q b h'
      assume "(q, b, h') \<in> set (km_previews m')"
      then show "happened [was_proposed q] ?h" unfolding proposed(9) using new old(1) by auto
    next
      fix i q
      assume "registered (km_registry m') i = Some q"
      with adds_registered [OF adds, of i q] show "happened [was_proposed q] ?h" using new old(2) by blast
    next
      fix i q
      assume "i |\<in>| hr_presented (km_registry m')" and q: "registered (km_registry m') i = Some q"
      with adds have i: "i |\<in>| hr_presented (km_registry m)" by (auto simp: adds_proposal_def)
      with ok(3) adds_issued [OF adds, of i] adds_registered [OF adds q] have "registered (km_registry m) i = Some q" by blast
      with i show "happened [was_presented q, was_proposed q] ?h" by (rule old(3))
    qed (use old(4) proposed(10) in simp)
  next
    case (presented i now p a g)
    then have "was_presented p (c, r)" unfolding was_presented_def by auto
    with tracedD(1) [OF assms(2) presented(3)]
    have new: "happened [was_presented p, was_proposed p] ?h" by simp
    have kept: "registered (km_registry m) i = Some q" if "registered (km_registry m') i = Some q" for i q
      using quieter_registered [OF presented(5), of i] that by auto
    show ?thesis
    proof (intro tracedI cards)
      fix j q
      assume j: "j |\<in>| hr_presented (km_registry m')" and q: "registered (km_registry m') j = Some q"
      from fsubsetD [OF presented(6) j] consider "j = cpr_id p" | "j |\<in>| hr_presented (km_registry m)" by auto
      then show "happened [was_presented q, was_proposed q] ?h"
      proof cases
        case 1
        with kept [OF q] ok(2) [OF presented(3)] have "q = p" by auto
        with new show ?thesis by simp
      next
        case 2
        then show ?thesis using kept [OF q] by (rule old(3))
      qed
    qed (use old(1,2,4) kept presented(7,8) in \<open>blast, blast, simp\<close>)
  next
    case (resolved scope actor channel proof' encoded work now a i p g)
    have i: "registered (km_registry m) i = Some p" using resolved(11) by (simp add: registered_def)
    with ok(1) have "cpr_id p = i" by blast
    with resolved(1-8) have "was_resolved p (c, r)" unfolding was_resolved_def by auto
    with tracedD(3) [OF assms(2) resolved(10) i]
    have new: "happened [was_resolved p, was_presented p, was_proposed p] ?h" by simp
    have kept: "registered (km_registry m) i = Some q" if "registered (km_registry m') i = Some q" for i q
      using quieter_registered [OF resolved(9), of i] that by auto
    show ?thesis
    proof (intro tracedI cards)
      fix q h'
      assume "(q, h') \<in> set (km_grants m')"
      then show "happened [was_resolved q, was_presented q, was_proposed q] ?h"
        unfolding resolved(13) using new old(4) by auto
    qed (use old(1-3) kept resolved(14) quieter_presented [OF resolved(9)] in \<open>simp, blast, blast\<close>)
  next
    case (confirmed i actor channel env p g q)
    show ?thesis
    proof (intro tracedI cards)
      fix k h'
      assume "(k, h') \<in> set (km_grants m')"
      then have "(k, h') \<in> set (km_grants m)" unfolding confirmed(5) by (rule vec_remove_member)
      then show "happened [was_resolved k, was_presented k, was_proposed k] ?h" by (rule old(4))
    qed (use old(1-3) confirmed(6,7) in \<open>simp, simp, simp\<close>)
  qed
qed

end
