(* ===== verification/Continuity_Results.thy ===== *)
theory Continuity_Results
  imports Continuity_History
begin

text \<open>
  The properties of continuity cards: what reaches a prompt was confirmed, a confirmation is
  used once, unresolved, cleared and erased cards are not used, and the limit on cards as the
  code has it.
\<close>

section \<open>Successful removals\<close>

lemma fence_ok_boot: "cards_ok cards \<Longrightarrow> fence_ok (boot_continuity nonce cards work now)"
  by (simp add: fence_ok_def boot_continuity_def new_safety_def prune_current_def cards_ok_retain)

lemma traced_boot: "cards_ok cards \<Longrightarrow> traced cards [] (boot_continuity nonce cards work now)"
  by (auto simp: traced_def boot_continuity_def new_safety_def prune_current_def new_registry_def registered_def
      only_cards_def origin_def split: option.splits if_splits dest: cards_okD)

lemma publish_Inr:
  assumes "publish_continuity snapshot scope outcome m = (Inr u, m')"
  shows "\<exists>e d. fmlookup (sf_pending (km_safety m)) scope = Some (e, d)
     \<and> replace_exact scope e (fmlookup snapshot scope) (km_cards m) = (Inr (), km_cards m')
     \<and> sf_pending (km_safety m') = fmdrop scope (sf_pending (km_safety m))
     \<and> sf_orphans (km_safety m') = sf_orphans (km_safety m)"
  using assms
  by (auto simp: publish_continuity_def on_safety_def unfence_continuity_def
      split: publish_outcome.splits if_splits option.splits prod.splits sum.splits)

lemma stage_Inr:
  "stage_continuity scope expected desired sf = (Inr u, sf') \<Longrightarrow>
     sf_pending sf' = fmupd scope (expected, desired) (sf_pending sf) \<and> sf_orphans sf' = sf_orphans sf"
  by (auto simp: stage_continuity_def Let_def split: if_splits)

lemma fmdrop_upd: "fmdrop k (fmupd k v m) = fmdrop k m"
  by (rule fmap_ext) auto

lemma erase_card_Inr:
  assumes "erase_card native env c m = (Inr u, m')"
  shows "km_cards m' = fmdrop (card_scope c) (km_cards m)
     \<and> sf_pending (km_safety m') = fmdrop (card_scope c) (sf_pending (km_safety m))
     \<and> sf_orphans (km_safety m') = sf_orphans (km_safety m)"
proof -
  from assms obtain s1 m1 s2 m2 cards sf where snap: "take_snapshot (fg_prepared1 env) m = (Some s1, m1)"
      "take_snapshot (fg_prepared2 env) m1 = (Some s2, m2)"
    and removed: "remove_exact c s2 = (Inr (), cards)"
    and stage: "stage_continuity (card_scope c) (Some c) None (km_safety m2) = (Inr (), sf)"
    and publish: "publish_continuity cards (card_scope c) (fg_publication env) (m2\<lparr>km_safety := sf\<rparr>) = (Inr u, m')"
    unfolding erase_card_def by (fastforce split: prod.splits option.splits sum.splits)
  from snap have "m2 = m" by (auto dest!: snapshot_desired)
  moreover from removed have gone: "fmlookup cards (card_scope c) = None"
    by (auto simp: remove_exact_def split: if_splits)
  ultimately show ?thesis
    using publish_Inr [OF publish] stage_Inr [OF stage] by (auto simp: fmdrop_upd replace_exact_def Let_def split: if_splits)
qed

text \<open>A map without some keys.\<close>

definition without :: "'k list \<Rightarrow> ('k, 'v) fmap \<Rightarrow> ('k, 'v) fmap" where
  "without ks m = fold fmdrop ks m"

lemma fmlookup_without [simp]: "fmlookup (without ks m) k = (if k \<in> set ks then None else fmlookup m k)"
  unfolding without_def by (induction ks arbitrary: m) auto

lemma without_Cons: "without (k # ks) m = without ks (fmdrop k m)" and without_Nil [simp]: "without [] m = m"
  by (simp_all add: without_def)

lemma erase_cards_Inr:
  "erase_cards native envs cs m = (Inr n, m') \<Longrightarrow>
     km_cards m' = without (map card_scope cs) (km_cards m)
     \<and> sf_pending (km_safety m') = without (map card_scope cs) (sf_pending (km_safety m))
     \<and> sf_orphans (km_safety m') = sf_orphans (km_safety m)"
proof (induction native envs cs m arbitrary: n m' rule: erase_cards.induct)
  case (3 native env envs c cs m)
  from 3(2) obtain u m1 k where one: "erase_card native env c m = (Inr u, m1)"
      and rest: "erase_cards native envs cs m1 = (Inr k, m')"
    by (auto split: prod.splits sum.splits)
  from 3(1) [OF one [symmetric] refl rest] erase_card_Inr [OF one] show ?case by (simp add: without_Cons)
qed auto

lemma erase_targets_Inr:
  assumes "erase_targets native envs cards m = (Inr n, m')"
  shows "km_cards m' = without (map card_scope cards) (km_cards m)
     \<and> sf_pending (km_safety m') = without (map card_scope cards) (sf_pending (km_safety m))
     \<and> sf_orphans (km_safety m') = sf_orphans (km_safety m)"
proof -
  obtain q sf where fence: "fence_continuity cards (km_safety m) = (q, sf)" by (cases "fence_continuity cards (km_safety m)")
  then show ?thesis
  proof (cases rule: fence_continuityE [where A = removal])
    case failed
    with fence assms show ?thesis by (simp add: erase_targets_def)
  next
    case fenced
    with fence assms have "erase_cards native envs cards (m\<lparr>km_safety := sf\<rparr>) = (Inr n, m')" by (simp add: erase_targets_def)
    from erase_cards_Inr [OF this] fenced show ?thesis by simp
  qed
qed

lemma reconcile_Inr:
  assumes "reconcile_continuity prepared outcome scope m = (Inr n, m')"
  shows "sf_pending (km_safety m') = fmdrop scope (sf_pending (km_safety m))
     \<and> sf_orphans (km_safety m') = sf_orphans (km_safety m)"
proof (cases "fmlookup (sf_pending (km_safety m)) scope")
  case None
  then have "fmdrop scope (sf_pending (km_safety m)) = sf_pending (km_safety m)" by (intro fmap_ext) auto
  with None assms show ?thesis by (simp add: reconcile_continuity_def)
next
  case (Some op)
  with assms obtain snapshot m1 u where "take_snapshot prepared m = (Some snapshot, m1)"
      and "publish_continuity snapshot scope outcome m1 = (Inr u, m')"
    by (auto simp: reconcile_continuity_def split: prod.splits option.splits sum.splits)
  then show ?thesis using publish_Inr [of snapshot scope outcome m1 u m'] by (auto dest!: snapshot_desired)
qed

lemma reconcile_all_Inr:
  "reconcile_all envs scopes m = (Inr n, m') \<Longrightarrow>
     sf_pending (km_safety m') = without scopes (sf_pending (km_safety m))
     \<and> sf_orphans (km_safety m') = sf_orphans (km_safety m)"
proof (induction envs scopes m arbitrary: n m' rule: reconcile_all.induct)
  case (3 env envs s scopes m)
  from 3(2) obtain u m1 k where one: "reconcile_continuity (fg_prepared1 env) (fg_publication env) s m = (Inr u, m1)"
      and rest: "reconcile_all envs scopes m1 = (Inr k, m')"
    by (auto split: prod.splits sum.splits)
  from 3(1) [OF one [symmetric] refl rest] reconcile_Inr [OF one] show ?case by (simp add: without_Cons)
qed auto

lemma erase_orphan_Inr:
  assumes "erase_orphan native env scope m = (Inr u, m')"
  shows "km_cards m' = km_cards m \<and> sf_pending (km_safety m') = sf_pending (km_safety m)
     \<and> sf_orphans (km_safety m') = fmdrop scope (sf_orphans (km_safety m))"
proof (cases "fmlookup (sf_orphans (km_safety m)) scope")
  case None
  then have "fmdrop scope (sf_orphans (km_safety m)) = sf_orphans (km_safety m)" by (intro fmap_ext) auto
  with None assms show ?thesis by (simp add: erase_orphan_def)
next
  case (Some c)
  with assms show ?thesis by (auto simp: erase_orphan_def on_safety_def split: sum.splits)
qed

lemma erase_orphans_Inr:
  "erase_orphans envs scopes m = (Inr u, m') \<Longrightarrow>
     km_cards m' = km_cards m \<and> sf_pending (km_safety m') = sf_pending (km_safety m)
     \<and> sf_orphans (km_safety m') = without scopes (sf_orphans (km_safety m))"
proof (induction envs scopes m arbitrary: u m' rule: erase_orphans.induct)
  case (3 env envs s scopes m)
  from 3(2) obtain v m1 where one: "erase_orphan None env s m = (Inr v, m1)"
      and rest: "erase_orphans envs scopes m1 = (Inr u, m')"
    by (auto split: prod.splits sum.splits)
  from 3(1) [OF one [symmetric] refl rest] erase_orphan_Inr [OF one] show ?case by (simp add: without_Cons)
qed auto

section \<open>A day with one card\<close>

definition demo_text :: rstr where "demo_text = lit ''ship it''"
definition demo_given :: rstr where "demo_given = lit ''task:2''"
definition demo_refs :: "work_content_ref fset" where "demo_refs = {|RefTask 1 2 0|}"

definition demo_continuity_boot :: continuity_machine where
  "demo_continuity_boot = boot_continuity (replicate 16 0) fmempty demo_task_store 1000"

definition demo_preview :: continuity_proposal where
  "demo_preview = \<lparr>cpr_id = \<lparr>pid_nonce = replicate 16 0, pid_sequence = 1\<rparr>, cpr_actor = 7,
     cpr_scope = ScopePersonal 7, cpr_base_revision = 0, cpr_presented_text = demo_text,
     cpr_source_refs = demo_refs, cpr_expires_at = 1300\<rparr>"

definition demo_kept_card :: continuity_card where
  "demo_kept_card = confirmed_card demo_preview 1 (1003 + card_lifetime)"

definition demo_confirm_env :: confirm_env where
  "demo_confirm_env = \<lparr>ce_access1 = Inr demo_access, ce_prepared = True, ce_work1 = demo_task_store, ce_now1 = 1003,
     ce_gate = False, ce_live = False, ce_access2 = Inr demo_access, ce_work2 = demo_task_store, ce_now2 = 1003,
     ce_appended = None, ce_access3 = Inr demo_access, ce_work3 = demo_task_store, ce_now3 = 1004,
     ce_publication = ReadBack True\<rparr>"

definition demo_admission_env :: admission_env where
  "demo_admission_env = \<lparr>ad_work1 = demo_task_store, ad_now1 = 2000, ad_gate_live = False,
     ad_access = Inr demo_access, ad_work2 = demo_task_store, ad_now2 = 2000\<rparr>"

definition demo_proposed :: continuity_machine where
  "demo_proposed = demo_continuity_boot\<lparr>
     km_registry := \<lparr>hr_proposals = \<lparr>reg_boot_nonce = replicate 16 0, reg_sequence = 1,
         reg_proposals = fmupd (cpr_id demo_preview) demo_preview fmempty\<rparr>,
       hr_epochs = fmupd (cpr_id demo_preview) (1, 1300) fmempty, hr_presented = {||}\<rparr>,
     km_previews := [(demo_preview, demo_access, 1)]\<rparr>"

definition demo_presented :: continuity_machine where
  "demo_presented = demo_proposed\<lparr>km_previews := [],
     km_registry := (km_registry demo_proposed)\<lparr>hr_presented := {|cpr_id demo_preview|}\<rparr>\<rparr>"

definition demo_resolved :: continuity_machine where
  "demo_resolved = demo_presented\<lparr>
     km_registry := \<lparr>hr_proposals = \<lparr>reg_boot_nonce = replicate 16 0, reg_sequence = 1, reg_proposals = fmempty\<rparr>,
       hr_epochs = fmempty, hr_presented = {||}\<rparr>,
     km_grants := [(demo_preview, 1)]\<rparr>"

definition demo_confirmed :: continuity_machine where
  "demo_confirmed = demo_resolved\<lparr>km_grants := [],
     km_safety := new_safety\<lparr>sf_generation := Some 2\<rparr>,
     km_cards := fmupd (ScopePersonal 7) demo_kept_card fmempty\<rparr>"

lemmas demo_records = demo_confirmed_def demo_resolved_def demo_presented_def demo_proposed_def demo_continuity_boot_def
  boot_continuity_def new_registry_def new_safety_def

lemma demo_sources: "parse_sources (Some demo_given) (ScopePersonal 7) demo_access demo_task_store = Inr demo_refs"
  by (simp add: fcard_fempty demo_given_def demo_refs_def parse_sources_def max_source_input_bytes_def utf8_len_def max_sources_def trim_def
      is_whitespace_def parse_u64_def is_ascii_digit_def u64_max_def decimal.simps native_source_def
      authorize_def demo_task_store_def demo_project_store_def demo_simps)

lemma demo_card_projects: "scope_projects demo_task_store (ScopePersonal 7) demo_access manager = Inr [new_project demo_access (lit ''plan'') 1]"
  by (simp add: scope_projects_def demo_projects Let_def new_project_def access_scope_def demo_access_def authorized_def)

lemma demo_refs_current: "fBall demo_refs (source_current (ScopePersonal 7) demo_task_store)"
  by (simp add: demo_refs_def source_current_def demo_project_lookup new_project_def)
    (simp add: demo_task_store_def demo_project_store_def demo_simps)

lemma demo_content: "content_ok (demo_text) demo_refs"
  by (simp add: demo_text_def demo_refs_def fcard_finsert_if fcard_fempty content_ok_def trim_def is_whitespace_def is_control_def utf8_len_def max_text_bytes_def max_sources_def)

lemma demo_authorized: "authorize_scope (ScopePersonal 7) demo_access demo_task_store manager = Inr ()"
  by (simp add: authorize_scope_Inr demo_card_projects) (simp add: demo_access_def access_scope_def)

lemma demo_fresh: "fresh_access (ScopePersonal 7) 7 9 (Inr demo_access) = Inr demo_access"
  by (simp add: fresh_access_def demo_access_def access_scope_def)

lemma demo_actor: "acc_actor demo_access = 7" "acc_channel demo_access = 9" "access_scope demo_access = ScopePersonal 7"
  by (simp_all add: demo_access_def access_scope_def)

lemma demo_propose:
  "continuity_step (KPropose (ScopePersonal 7) 7 9 (Inr demo_access) (demo_text) (Some demo_given) demo_task_store 1000)
     demo_continuity_boot = (Proposed (Inr demo_preview), demo_proposed)"
  by (simp add: demo_proposed_def demo_continuity_boot_def boot_continuity_def new_registry_def new_safety_def
      command_propose_def demo_fresh continuity_generation_def demo_card_projects demo_sources human_propose_def human_prune_def
      Let_def max_pending_def live_revision_def prune_current_def registry_propose_def demo_authorized validate_content_def
      demo_content validate_sources_def demo_refs_current proposal_lifetime_def u64_max_def fresh_proposals_def max_proposals_def
      new_proposal_def demo_actor demo_preview_def ensure_def)

lemma demo_present:
  "continuity_step (KPreviewSent 0 True 1001) demo_proposed = (Presented (Inr demo_preview), demo_presented)"
  by (simp add: demo_records preview_sent_def continuity_generation_def mark_presented_def human_prune_def Let_def
      demo_preview_def demo_actor fm_retain_upd ffilter.rep_eq less_eq_fset.rep_eq)

lemma decimal_length: "n < 10 ^ Suc k \<Longrightarrow> length (decimal n) \<le> Suc k"
proof (induction k arbitrary: n)
  case 0
  then show ?case by (simp add: decimal.simps)
next
  case (Suc k)
  show ?case
  proof (cases "n < 10")
    case True
    then show ?thesis by (simp add: decimal.simps)
  next
    case False
    from Suc.prems have "n div 10 < 10 ^ Suc k" by (simp add: less_mult_imp_div_less)
    from Suc.IH [OF this] False show ?thesis by (subst decimal.simps) simp
  qed
qed

lemma digits_byte_len: "list_all is_ascii_digit s \<Longrightarrow> byte_len s = length s"
  by (induction s) (auto simp: is_ascii_digit_def utf8_len_def)

lemma encoded_length:
  assumes "proposal_id_ok i"
  shows "byte_len (encode_proposal_id i) \<le> max_proposal_id_bytes"
proof -
  from assms have n: "pid_sequence i < 10 ^ Suc 19" by (simp add: proposal_id_ok_def u64_max_def)
  have "byte_len (decimal (pid_sequence i)) = length (decimal (pid_sequence i))"
    by (rule digits_byte_len) (auto simp: list_all_iff dest: decimal_digits)
  with decimal_length [OF n] assms hex_bytes_lower [of "pid_nonce i"] show ?thesis
    by (simp add: proposal_id_ok_def encode_proposal_id_def utf8_len_def max_proposal_id_bytes_def)
qed

lemma demo_encoded: "byte_len (encode_proposal_id (cpr_id demo_preview)) \<le> max_proposal_id_bytes"
  "decode_proposal_id (encode_proposal_id (cpr_id demo_preview)) = Inr (cpr_id demo_preview)"
  by (rule encoded_length decode_encode_proposal_id; simp add: proposal_id_ok_def demo_preview_def u64_max_def list_all_length)+

lemma demo_resolve:
  "continuity_step (KResolve (ScopePersonal 7) 7 9 (Inr demo_access) (encode_proposal_id (cpr_id demo_preview)) demo_task_store 1002)
     demo_presented = (Resolved (Inr demo_preview), demo_resolved)"
proof -
  have "human_resolve (cpr_id demo_preview) demo_access 1 1002 (km_registry demo_presented)
      = (Inr (demo_preview, 1), km_registry demo_resolved)"
    by (simp add: demo_records human_resolve_def human_prune_def Let_def fm_retain_upd resolve_confirmation_def
        demo_preview_def demo_actor within_lifetime_def proposal_lifetime_def forget_preview_def
        fmdrop_upd checked_sub_def ffilter.rep_eq less_eq_fset.rep_eq)
  then show ?thesis
    using demo_encoded
    by (simp add: command_confirm_def demo_fresh demo_card_projects not_less continuity_generation_def)
      (simp add: demo_records)
qed

lemma demo_card: "card_ok demo_kept_card" "card_scope demo_kept_card = ScopePersonal 7"
  "fm_values (fmupd (ScopePersonal 7) demo_kept_card fmempty) = [demo_kept_card]"
  by (simp_all add: card_ok_def demo_kept_card_def confirmed_card_def demo_preview_def demo_content checked_sub_def
      card_lifetime_def)

lemma demo_saved: "load_continuity (save_continuity (fmupd (ScopePersonal 7) demo_kept_card fmempty))
    = Some (fmupd (ScopePersonal 7) demo_kept_card fmempty)"
proof -
  have "cards_ok (fmupd (card_scope demo_kept_card) demo_kept_card fmempty)"
    by (rule cards_ok_upd) (simp_all add: cards_ok_def fm_all_iff demo_card)
  then show ?thesis by (simp add: load_save_continuity demo_card fm_len_upd max_cards_def)
qed

lemma demo_confirm_call: "continuity_confirm demo_preview demo_access demo_task_store 1003 fmempty
    = (Inr demo_kept_card, fmupd (ScopePersonal 7) demo_kept_card fmempty)"
  by (simp add: continuity_confirm_def demo_preview_def demo_actor demo_authorized within_lifetime_def proposal_lifetime_def
      checked_sub_def validate_content_def demo_content validate_sources_def demo_refs_current u64_max_def card_lifetime_def
      max_cards_def Let_def demo_kept_card_def confirmed_card_def ensure_def)

lemma demo_context: "at' \<in> {1004, 2000} \<Longrightarrow>
    continuity_context (ScopePersonal 7) demo_access demo_task_store at' (fmupd (ScopePersonal 7) demo_kept_card fmempty)
      = Some \<lparr>au_card = demo_kept_card, au_actor = 7, au_channel = 9\<rparr>"
  using demo_card demo_refs_current
  by (auto simp: continuity_context_Some demo_authorized demo_actor within_lifetime_def checked_sub_def card_lifetime_def
      demo_kept_card_def confirmed_card_def demo_preview_def)

lemma demo_confirm:
  "continuity_step (KConfirm 0 7 9 demo_confirm_env) demo_resolved = (Confirmed demo_preview (Inr demo_kept_card), demo_confirmed)"
proof -
  have scope: "cpr_scope demo_preview = ScopePersonal 7" "cpr_expires_at demo_preview = 1300" by (simp_all add: demo_preview_def)
  have receipt: "card_episode_receipt demo_kept_card = None" by (simp add: demo_kept_card_def confirmed_card_def)
  have snap: "take_snapshot True (demo_resolved\<lparr>km_grants := []\<rparr>) = (Some fmempty, demo_resolved\<lparr>km_grants := []\<rparr>)"
    by (simp add: take_snapshot_def pending_ops_def demo_records prune_current_def)
  show ?thesis
    using snap
    by (simp add: confirm_grant_def demo_confirm_env_def confirm_continuity_def Let_def scope demo_fresh)
      (simp add: demo_records reserve_recovery_def scope prune_current_def max_pending_def continuity_generation_def
        confirm_in_def demo_confirm_call admit_card_def grant_still_good_def demo_fresh demo_card_projects demo_context
        publish_card_def demo_card stage_continuity_def next_generation_def u64_max_def publish_continuity_def demo_saved
        replace_exact_def validate_card_def ensure_def unfence_continuity_def on_safety_def Let_def fmdrop_upd fcard_fempty)
qed

lemma demo_admit: "continuity_step (KAdmit demo_admission_env (ScopePersonal 7) 7 9 OwnerDm) demo_confirmed
    = (Admitted (Some \<lparr>ac_value = \<lparr>au_card = demo_kept_card, au_actor = 7, au_channel = 9\<rparr>, ac_generation = 2,
         ac_audience = OwnerDm\<rparr>), demo_confirmed)"
proof -
  have safety: "sf_generation (km_safety demo_confirmed) = Some 2" "sf_blocked (km_safety demo_confirmed) = {||}"
    "km_cards demo_confirmed = fmupd (ScopePersonal 7) demo_kept_card fmempty"
    by (simp_all add: demo_confirmed_def new_safety_def)
  have receipt: "card_episode_receipt demo_kept_card = None" by (simp add: demo_kept_card_def confirmed_card_def)
  have request: "continuity_context (ScopePersonal 7) (requested_access (ScopePersonal 7) 7 9) demo_task_store 2000
      (fmupd (ScopePersonal 7) demo_kept_card fmempty) = Some \<lparr>au_card = demo_kept_card, au_actor = 7, au_channel = 9\<rparr>"
  proof -
    have "authorize_scope (ScopePersonal 7) (requested_access (ScopePersonal 7) 7 9) demo_task_store False = Inr ()"
      by (simp add: authorize_scope_Inr requested_access_def access_scope_def scope_projects_def demo_projects Let_def
          new_project_def demo_access_def authorized_def)
    with demo_context [of 2000] show ?thesis
      by (auto simp: continuity_context_Some requested_access_def)
  qed
  show ?thesis
    by (simp add: prepare_context_def prepare_between_def safety continuity_generation_def demo_admission_env_def request receipt demo_fresh demo_context)
qed

definition demo_day :: "continuity_event list" where
  "demo_day =
     [(KConfirm 0 7 9 demo_confirm_env, Confirmed demo_preview (Inr demo_kept_card)),
      (KResolve (ScopePersonal 7) 7 9 (Inr demo_access) (encode_proposal_id (cpr_id demo_preview)) demo_task_store 1002,
         Resolved (Inr demo_preview)),
      (KPreviewSent 0 True 1001, Presented (Inr demo_preview)),
      (KPropose (ScopePersonal 7) 7 9 (Inr demo_access) demo_text (Some demo_given) demo_task_store 1000,
         Proposed (Inr demo_preview))]"

lemma demo_day: "trace continuity_step (boot_continuity (replicate 16 0) fmempty demo_task_store 1000) demo_day demo_confirmed"
proof -
  have "trace continuity_step demo_continuity_boot [] demo_continuity_boot" by (rule trace_start)
  note one = trace_call [OF this demo_propose]
  note two = trace_call [OF one demo_present]
  note three = trace_call [OF two demo_resolve]
  show ?thesis
    using trace_call [OF three demo_confirm] unfolding demo_day_def demo_continuity_boot_def .
qed

lemma demo_nothing_saved: "load_continuity [] = Some fmempty"
  by (simp add: load_continuity_def)

section \<open>Properties\<close>

lemma confirmable_card:
  assumes "confirmable p env actor channel c"
  shows "card_confirmed_text c = cpr_presented_text p \<and> card_confirmed_by c = cpr_actor p \<and> cpr_actor p = actor
    \<and> card_scope c = cpr_scope p \<and> card_source_refs c = cpr_source_refs p \<and> card_revision c = cpr_base_revision p + 1"
proof -
  from assms obtain a snapshot c0 cards q where a: "fresh_access (cpr_scope p) actor channel (ce_access1 env) = Inr a"
      and confirm: "continuity_confirm p a (ce_work1 env) (ce_now1 env) snapshot = (Inr c0, cards)"
      and c: "c = c0\<lparr>card_episode_receipt := q\<rparr>"
    unfolding confirmable_def by blast
  from confirm have "\<exists>expires. c0 = confirmed_card p (cpr_base_revision p + 1) expires" and "cpr_actor p = acc_actor a"
    by (cases rule: continuity_confirmE; auto)+
  with a c show ?thesis by (auto simp: confirmed_card_def fresh_access_def split: sum.splits if_splits)
qed

lemma happened_split: "happened (P # Ps) h \<Longrightarrow> \<exists>e \<in> set h. P e"
  by (induction "P # Ps" h rule: happened.induct) auto

lemma continuity_history:
  assumes "load_continuity saved = Some cards" and "trace continuity_step (boot_continuity nonce cards work now) h m"
  shows "fence_ok m" and "registry_ok m" and "traced cards h m"
proof -
  from assms(1) have ok: "cards_ok cards" by (auto dest: loaded_cards_ok)
  show "fence_ok m"
    using assms(2) fence_ok_boot [OF ok] by (rule continuity_fence.trace_keeps)
  show "registry_ok m" using assms(2) by (rule continuity_grants.trace_inv)
  from assms(2) show "traced cards h m"
  proof (induction rule: trace.induct)
    case trace_start
    show ?case using ok by (rule traced_boot)
  next
    case (trace_call h s c r s')
    from trace_call.hyps(1) have "registry_ok s" by (rule continuity_grants.trace_inv)
    from this trace_call.IH trace_call.hyps(2) show ?case by (rule traced_step)
  qed
qed

lemma admitted_live:
  "prepare_context env scope actor channel au m = Some v \<Longrightarrow> fmlookup (km_cards m) scope = Some (au_card (ac_value v))"
  by (auto simp: prepare_context_def prepare_between_def continuity_context_Some split: if_splits option.splits sum.splits)

text \<open>
  C14. A text reaches a prompt only as its member confirmed it. If a card is admitted in a
  running process, then either the process loaded exactly that card when it started, or the
  history of the process holds, in this order: a proposal of that very text by the member the
  card names, for that scope, with fresh access and current sources; its preview, accepted by
  Discord before the proposal expired; the member's resolution of that proposal as a manager of
  the scope, with the identity they were shown; and a confirmation of it whose own checks
  produced the card. So no text of a model, of another member or of another place, and no text
  that was edited after it was shown, is ever admitted.
\<close>

theorem admitted_text_was_confirmed:
  assumes "load_continuity saved = Some cards" and "trace continuity_step (boot_continuity nonce cards work now) h m"
    and "continuity_step (KAdmit env scope actor channel au) m = (Admitted (Some v), m')"
    and "c = au_card (ac_value v)"
  shows "card_scope c = scope \<and> (fmlookup cards scope = Some c
    \<or> (\<exists>p. card_confirmed_text c = cpr_presented_text p \<and> card_confirmed_by c = cpr_actor p \<and> scope = cpr_scope p
         \<and> card_source_refs c = cpr_source_refs p
         \<and> happened [was_confirmed p c, was_resolved p, was_presented p, was_proposed p] h))"
proof -
  from assms(3,4) have live: "fmlookup (km_cards m) scope = Some c" by (auto dest: admitted_live)
  with tracedD(5) [OF continuity_history(3) [OF assms(1,2)]] have c: "card_scope c = scope" "origin cards h c"
    by (auto simp: only_cards_def)
  then consider "fmlookup cards scope = Some c"
    | p where "happened [was_confirmed p c, was_resolved p, was_presented p, was_proposed p] h"
    unfolding origin_def confirmed_by_member_def by blast
  then show ?thesis
  proof cases
    case 1
    with c show ?thesis by simp
  next
    case (2 p)
    from happened_split [OF 2] have "\<exists>env actor channel. confirmable p env actor channel c"
      unfolding was_confirmed_def by blast
    then show ?thesis using confirmable_card c(1) 2 by metis
  qed
qed

theorem admitted_text_was_confirmed_witness:
  "\<exists>p. card_confirmed_text demo_kept_card = cpr_presented_text p
     \<and> happened [was_confirmed p demo_kept_card, was_resolved p, was_presented p, was_proposed p] demo_day"
  using admitted_text_was_confirmed [OF demo_nothing_saved demo_day demo_admit refl] by auto

text \<open>
  C24. A confirmed preview is used at most once. Whatever the history of a process, each identity
  of a proposal appears in at most one confirmation, whatever that confirmation answered: the
  resolution takes the proposal out of the registry, the confirmation consumes the grant, and
  identities are never issued again.
\<close>

theorem confirmations_are_used_once:
  assumes "trace continuity_step (boot_continuity nonce cards work now) h m"
  shows "length (filter (\<lambda>(c, r). uses_grant c r i) h) \<le> 1"
  using assms by (rule continuity_grants.fires_at_most_once)

theorem confirmations_are_used_once_witness:
  "length (filter (\<lambda>(c, r). uses_grant c r (cpr_id demo_preview)) demo_day) \<le> 1
     \<and> uses_grant (KConfirm 0 7 9 demo_confirm_env) (Confirmed demo_preview (Inr demo_kept_card)) (cpr_id demo_preview)"
  using confirmations_are_used_once [OF demo_day, of "cpr_id demo_preview"] by simp

text \<open>
  C25. What is unresolved is not used. While the publication of a scope's card is pending (its
  write failed or could not be read back) or a receipt of it is still to be forgotten, the
  scope's card is not admitted to any prompt, an admitted one is no longer current, and a
  confirmation for the scope is refused without any effect.
\<close>

theorem unresolved_card_is_not_used:
  assumes "load_continuity saved = Some cards" and "trace continuity_step (boot_continuity nonce cards work now) h m"
    and "scope |\<in>| fmdom (sf_pending (km_safety m)) \<or> scope |\<in>| fmdom (sf_orphans (km_safety m))"
    and "card_scope (au_card (ac_value v)) = scope" and "cpr_scope p = scope"
  shows "prepare_context env scope actor channel au m = None \<and> \<not> admitted_current v work' now' m
    \<and> confirm_continuity env' p generation actor' channel' m = (Inl Stale, m)"
proof -
  from continuity_history(1) [OF assms(1,2)] assms(3) have "continuity_generation scope (km_safety m) = None"
    by (auto simp: fence_ok_def continuity_generation_def)
  then show ?thesis
    using assms(3-5) by (auto simp: prepare_context_def prepare_between_def admitted_current_def confirm_continuity_def reserve_recovery_def)
qed

text \<open>A day on which the write of the confirmed card could not be read back.\<close>

definition demo_unwritten :: continuity_machine where
  "demo_unwritten = demo_resolved\<lparr>km_grants := [], km_safety := new_safety\<lparr>sf_generation := Some 2,
     sf_blocked := {|ScopePersonal 7|}, sf_pending := fmupd (ScopePersonal 7) (None, Some demo_kept_card) fmempty\<rparr>\<rparr>"

definition demo_unread_env :: confirm_env where
  "demo_unread_env = demo_confirm_env\<lparr>ce_publication := ReadBackFailed\<rparr>"

lemma demo_unread:
  "continuity_step (KConfirm 0 7 9 demo_unread_env) demo_resolved = (Confirmed demo_preview (Inl Persistence), demo_unwritten)"
proof -
  have scope: "cpr_scope demo_preview = ScopePersonal 7" "cpr_expires_at demo_preview = 1300" by (simp_all add: demo_preview_def)
  have snap: "take_snapshot True (demo_resolved\<lparr>km_grants := []\<rparr>) = (Some fmempty, demo_resolved\<lparr>km_grants := []\<rparr>)"
    by (simp add: take_snapshot_def pending_ops_def demo_records prune_current_def)
  show ?thesis
    using snap
    by (simp add: confirm_grant_def demo_unread_env_def demo_confirm_env_def confirm_continuity_def Let_def scope demo_fresh)
      (simp add: demo_unwritten_def demo_records reserve_recovery_def scope prune_current_def max_pending_def continuity_generation_def
        confirm_in_def demo_confirm_call admit_card_def grant_still_good_def demo_fresh demo_card_projects demo_context
        publish_card_def demo_card stage_continuity_def next_generation_def u64_max_def publish_continuity_def fcard_fempty)
qed

lemma demo_unread_day: "\<exists>h. trace continuity_step (boot_continuity (replicate 16 0) fmempty demo_task_store 1000) h demo_unwritten"
proof -
  have "trace continuity_step demo_continuity_boot [] demo_continuity_boot" by (rule trace_start)
  note one = trace_call [OF this demo_propose]
  note two = trace_call [OF one demo_present]
  note three = trace_call [OF two demo_resolve]
  show ?thesis using trace_call [OF three demo_unread] unfolding demo_continuity_boot_def by blast
qed

theorem unresolved_card_is_not_used_witness:
  "prepare_context demo_admission_env (ScopePersonal 7) 7 9 OwnerDm demo_unwritten = None
    \<and> confirm_continuity demo_confirm_env demo_preview 1 7 9 demo_unwritten = (Inl Stale, demo_unwritten)"
proof -
  obtain h where h: "trace continuity_step (boot_continuity (replicate 16 0) fmempty demo_task_store 1000) h demo_unwritten"
    using demo_unread_day by blast
  let ?v = "\<lparr>ac_value = \<lparr>au_card = demo_kept_card, au_actor = 7, au_channel = 9\<rparr>, ac_generation = 1, ac_audience = OwnerDm\<rparr>"
  have "ScopePersonal 7 |\<in>| fmdom (sf_pending (km_safety demo_unwritten))" by (simp add: demo_unwritten_def)
  with unresolved_card_is_not_used [OF demo_nothing_saved h, of "ScopePersonal 7" ?v demo_preview] show ?thesis
    by (simp add: demo_card demo_preview_def)
qed

definition scope_empty :: "work_scope \<Rightarrow> continuity_machine \<Rightarrow> bool" where
  "scope_empty scope m \<longleftrightarrow> only_cards (\<lambda>s c. s \<noteq> scope) m"

lemma cleared_scope_empty:
  assumes "fence_ok m" and "clear_continuity env scope actor channel m = (Inr n, m')"
  shows "scope_empty scope m'"
  using assms(2)
proof (cases rule: clear_continuityE)
  case (card n m1 m2 q)
  have "fence_ok m2"
    using reconcile_moves [OF card(1), where A = removal] erase_orphan_moves [OF card(2), where A = removal] assms(1)
    by (blast intro: fence_changes_ok fence_changesI)
  have pending: "fmlookup (sf_pending (km_safety m2)) scope = None"
    using reconcile_Inr [OF card(1)] erase_orphan_Inr [OF card(2)] by simp
  from card(3,4) obtain k where three: "clear_card env scope actor channel m2 = (Inr k, m')" by (cases q) auto
  then obtain a where a: "fresh_access scope actor channel (cl_access2 env) = Inr a"
    and auth: "authorize_scope scope a (cl_work2 env) True = Inr ()"
    by (auto simp: clear_card_def continuity_clear_def split: sum.splits)
  let ?targets = "case fmlookup (km_cards m2) scope of None \<Rightarrow> [] | Some c \<Rightarrow> [c]"
  from three a auth obtain m3 where erase: "erase_targets (Some (actor, channel)) [cl_erase env] ?targets m2 = (Inr k, m3)"
      and m': "m' = on_safety (unfence_continuity scope) m3"
    by (auto simp: clear_card_def continuity_clear_def split: sum.splits prod.splits)
  have "fmlookup (km_cards m3) scope = None \<and> fmlookup (sf_pending (km_safety m3)) scope = None"
    using erase_targets_Inr [OF erase] pending cards_okD [of "km_cards m2" scope] \<open>fence_ok m2\<close>
    by (auto simp: fence_ok_def split: option.splits)
  then show ?thesis by (auto simp: scope_empty_def only_cards_def m' on_safety_def unfence_continuity_def)
qed simp_all

lemma scope_empty_step:
  assumes "scope_empty scope m" and "continuity_step c m = (r, m')" and "\<forall>p q. r = Confirmed p q \<longrightarrow> cpr_scope p \<noteq> scope"
  shows "scope_empty scope m'"
  unfolding scope_empty_def
  by (rule fence_changes_only [OF continuity_step_fence [OF assms(2)] assms(1) [unfolded scope_empty_def]])
    (use assms(3) in \<open>auto simp: was_confirmed_def dest!: confirmable_card\<close>)

lemma scope_empty_trace:
  "trace continuity_step m h m' \<Longrightarrow> scope_empty scope m \<Longrightarrow> \<forall>c p q. (c, Confirmed p q) \<in> set h \<longrightarrow> cpr_scope p \<noteq> scope
     \<Longrightarrow> scope_empty scope m'"
  by (induction rule: trace.induct) (auto intro: scope_empty_step)

text \<open>
  C15. A cleared card stays cleared. After a clear of a scope has answered with success, and as
  long as no confirmation for that scope follows, the scope has no live card, no state that is
  saved holds one, and nothing is admitted for it -- whatever else happens in between, other
  writes that fail and are retried included.
\<close>

theorem cleared_card_stays_cleared:
  assumes "load_continuity saved = Some cards" and "trace continuity_step (boot_continuity nonce cards work now) h m"
    and "clear_continuity env scope actor channel m = (Inr n, m1)"
    and "trace continuity_step m1 h' m2" and "\<forall>c p q. (c, Confirmed p q) \<in> set h' \<longrightarrow> cpr_scope p \<noteq> scope"
  shows "fmlookup (km_cards m2) scope = None
    \<and> (\<forall>prepared snapshot m3. take_snapshot prepared m2 = (Some snapshot, m3) \<longrightarrow> fmlookup snapshot scope = None)
    \<and> (\<forall>env' actor' channel' au. prepare_context env' scope actor' channel' au m2 = None)"
proof -
  have "scope_empty scope m2"
    using assms(4) cleared_scope_empty [OF continuity_history(1) [OF assms(1,2)] assms(3)] assms(5) by (rule scope_empty_trace)
  then have live: "fmlookup (km_cards m2) scope = None"
      and pending: "\<And>e d. fmlookup (sf_pending (km_safety m2)) scope = Some (e, d) \<Longrightarrow> d = None"
    by (auto simp: scope_empty_def only_cards_def; metis option.exhaust)+
  have "fmlookup snapshot scope = None" if "take_snapshot prepared m2 = (Some snapshot, m3)" for prepared snapshot m3
    using that by (cases rule: take_snapshotE [where A = removal]) (use live pending in \<open>auto split: option.splits\<close>)
  moreover have "prepare_context env' scope actor' channel' au m2 = None" for env' actor' channel' au
    using admitted_live [of env' scope actor' channel' au m2] live by (cases "prepare_context env' scope actor' channel' au m2") auto
  ultimately show ?thesis using live by blast
qed

definition demo_forget_env :: forget_env where
  "demo_forget_env = \<lparr>fg_prepared1 = True, fg_forgotten = Inr (), fg_access = Inr demo_access, fg_work = demo_task_store,
     fg_prepared2 = True, fg_publication = ReadBack True\<rparr>"

definition demo_clear_env :: clear_env where
  "demo_clear_env = \<lparr>cl_access1 = Inr demo_access, cl_work1 = demo_task_store, cl_prepared = True,
     cl_publication = ReadBack True, cl_orphan = demo_forget_env, cl_access2 = Inr demo_access,
     cl_work2 = demo_task_store, cl_erase = demo_forget_env\<rparr>"

definition demo_erased :: "work_scope fset \<Rightarrow> continuity_machine" where
  "demo_erased blocked = demo_confirmed\<lparr>km_safety := new_safety\<lparr>sf_generation := Some 4, sf_blocked := blocked\<rparr>, km_cards := fmempty\<rparr>"

lemma demo_erase_card:
  "native = None \<or> native = Some (7, 9) \<Longrightarrow>
     erase_targets native [demo_forget_env] [demo_kept_card] demo_confirmed = (Inr 1, demo_erased {||})"
proof -
  assume native: "native = None \<or> native = Some (7, 9)"
  let ?fenced = "demo_confirmed\<lparr>km_safety := new_safety\<lparr>sf_generation := Some 3, sf_blocked := {|ScopePersonal 7|}\<rparr>\<rparr>"
  have snap: "take_snapshot True ?fenced = (Some (fmupd (ScopePersonal 7) demo_kept_card fmempty), ?fenced)"
    by (simp add: take_snapshot_def pending_ops_def demo_records)
  have manages: "native_still_manages native (ScopePersonal 7) demo_forget_env = Inr ()"
    using native by (auto simp: native_still_manages_def demo_forget_env_def demo_fresh demo_card_projects)
  have "erase_card native demo_forget_env demo_kept_card ?fenced = (Inr (), demo_erased {||})"
    using snap manages
    by (simp add: erase_card_def demo_card)
      (simp add: demo_forget_env_def remove_exact_def demo_card demo_records demo_erased_def stage_continuity_def max_pending_def
        next_generation_def u64_max_def publish_continuity_def load_continuity_def save_continuity_def replace_exact_def on_safety_def unfence_continuity_def
        Let_def fmdrop_upd)
  then show ?thesis
    by (simp add: erase_targets_def fence_continuity_def demo_confirmed_def new_safety_def next_generation_def u64_max_def
        demo_card max_cards_def fcard_finsert_if fcard_fempty Let_def)
qed

lemma demo_clear: "clear_continuity demo_clear_env (ScopePersonal 7) 7 9 demo_confirmed = (Inr 1, demo_erased {||})"
proof -
  have idle: "sf_pending (km_safety demo_confirmed) = fmempty" "sf_orphans (km_safety demo_confirmed) = fmempty"
    "km_cards demo_confirmed = fmupd (ScopePersonal 7) demo_kept_card fmempty"
    by (simp_all add: demo_confirmed_def new_safety_def)
  have "unfence_continuity (ScopePersonal 7) (km_safety (demo_erased {||})) = km_safety (demo_erased {||})"
    by (simp add: demo_erased_def new_safety_def unfence_continuity_def)
  then have "on_safety (unfence_continuity (ScopePersonal 7)) (demo_erased {||}) = demo_erased {||}"
    by (simp add: on_safety_def)
  then have "clear_card demo_clear_env (ScopePersonal 7) 7 9 demo_confirmed = (Inr 1, demo_erased {||})"
    using demo_erase_card [of "Some (7, 9)"]
    by (simp add: clear_card_def demo_clear_env_def demo_fresh continuity_clear_def demo_authorized idle)
  then show ?thesis
    by (simp add: clear_continuity_def)
      (simp add: demo_clear_env_def demo_fresh demo_card_projects reconcile_continuity_def erase_orphan_def idle)
qed

theorem cleared_card_stays_cleared_witness:
  "fmlookup (km_cards (demo_erased {||})) (ScopePersonal 7) = None
     \<and> fmlookup (km_cards demo_confirmed) (ScopePersonal 7) = Some demo_kept_card"
proof -
  have "trace continuity_step (demo_erased {||}) [(KSave False, SnapshotSaved None)] (demo_erased {||})"
    by (rule trace_call [OF trace_start])
      (simp add: take_snapshot_def pending_ops_def demo_erased_def new_safety_def)
  from cleared_card_stays_cleared [OF demo_nothing_saved demo_day demo_clear this] show ?thesis
    by (simp add: demo_confirmed_def)
qed

lemma linked_orphans_empty:
  assumes "\<And>k c. fmlookup (sf_orphans sf) k = Some c \<Longrightarrow> gate_scope (card_scope c) = scope \<Longrightarrow> \<not> linked_to c member work"
  shows "linked_orphans scope member work sf = []"
  using assms by (auto simp: linked_orphans_def filter_empty_conv fmlookup_ran'_iff)

lemma linked_pending_keys:
  "k \<in> set (linked_pending scope member work sf) \<longleftrightarrow>
     (\<exists>e d. fmlookup (sf_pending sf) k = Some (e, d) \<and> gate_scope k = scope
       \<and> (is_some_and e (\<lambda>c. linked_to c member work) \<or> is_some_and d (\<lambda>c. linked_to c member work)))"
  by (force simp: linked_pending_def pending_ops_def fmlookup_dom'_iff)

lemma unfences_effect:
  "km_cards (on_safety (\<lambda>sf. fold unfence_continuity scopes sf) m) = km_cards m
     \<and> sf_pending (km_safety (on_safety (\<lambda>sf. fold unfence_continuity scopes sf) m)) = sf_pending (km_safety m)
     \<and> sf_orphans (km_safety (on_safety (\<lambda>sf. fold unfence_continuity scopes sf) m)) = sf_orphans (km_safety m)"
proof -
  have "sf_pending (fold unfence_continuity scopes sf) = sf_pending sf \<and> sf_orphans (fold unfence_continuity scopes sf) = sf_orphans sf"
    for sf
    by (induction scopes arbitrary: sf) (auto simp: unfence_continuity_def)
  then show ?thesis by (simp add: on_safety_def)
qed



text \<open>
  C37. Identities of proposals round-trip. Decoding accepts exactly the canonical encodings of
  identities with a 16-byte nonce and a positive \<open>u64\<close> sequence, returns the identity that was
  encoded, and every encoding fits the 53 bytes the command accepts: no other text a member
  types resolves a proposal.
\<close>

theorem proposal_ids_round_trip:
  "decode_proposal_id s = Inr i \<longleftrightarrow> proposal_id_ok i \<and> s = encode_proposal_id i \<and> byte_len s \<le> max_proposal_id_bytes"
  using encoded_length decode_encode_proposal_id by (auto dest: decode_proposal_id_Inr)

text \<open>Where admitted cards go.\<close>

lemma team_cards_stay_private:
  assumes "prepare_between env (ScopeTeam guild native) actor channel au m0 m = Some v"
  shows "channel = native \<and> au_actor (ac_value v) = actor \<and> au_channel (ac_value v) = native \<and> \<not> permits_public v
    \<and> (permits_delivery v conversation spoken \<longrightarrow> conversation = None \<and> \<not> spoken)
    \<and> (continuity_binds v turn subject private \<longrightarrow> private \<and> turn = lit ''discord:'' @ decimal native)"
  using assms
  by (auto simp: prepare_between_def continuity_context_Some fresh_access_def permits_public_def permits_delivery_def
      continuity_binds_def split: if_splits option.splits sum.splits)

lemma shown_card_is_admitted:
  assumes "command_show env env' scope actor channel m0 m1 m2 = Some c"
  shows "\<exists>v. au_card (ac_value v) = c \<and> prepare_context env scope actor channel PrivateInteraction m1 = Some v
    \<and> fmlookup (km_cards m1) scope = Some c \<and> admitted_current v (ad_work2 env') (ad_now2 env') m2"
proof -
  from assms obtain v where v: "prepare_between env scope actor channel PrivateInteraction m0 m1 = Some v"
      and c: "fmlookup (km_cards m1) scope = Some c" and fresh: "admitted_fresh v env' m1 m2"
    by (auto simp: command_show_def split: option.splits if_splits)
  from prepare_between_atomic [OF v] have context': "prepare_context env scope actor channel PrivateInteraction m1 = Some v" .
  from admitted_live [OF this] c have "au_card (ac_value v) = c" by simp
  with context' c fresh show ?thesis by (auto simp: admitted_fresh_def)
qed

section \<open>The limit on cards\<close>

text \<open>A confirmation prunes expired cards from the snapshot it writes, but not from the live
  cards, and an ordinary save writes the live ones.\<close>

lemma confirmed_publication:
  assumes "fence_ok m" and "confirm_continuity env p generation actor channel m = (Inr c, m')"
  shows "card_scope c = cpr_scope p \<and> km_cards m' = fmupd (cpr_scope p) c (km_cards m)
    \<and> sf_pending (km_safety m') = fmdrop (cpr_scope p) (sf_pending (km_safety m))"
proof -
  from assms(2) obtain a snap where a: "fresh_access (cpr_scope p) actor channel (ce_access1 env) = Inr a"
      and snap: "take_snapshot (ce_prepared env) m = (Some snap, m)"
      and inside: "confirm_in env p generation actor channel a snap m = (Inr c, m')"
    by (auto simp: confirm_continuity_def Let_def dest: snapshot_desired split: sum.splits if_splits option.splits prod.splits)
  from inside obtain c0 cards snapshot where confirm: "continuity_confirm p a (ce_work1 env) (ce_now1 env) snap = (Inr c0, cards)"
      and admit: "admit_card env p generation actor channel (fmlookup snap (cpr_scope p)) c0 cards m = Inr (c, snapshot)"
      and publish: "publish_card (ce_publication env) (fmlookup snap (cpr_scope p)) c snapshot m = (Inr c, m')"
    by (auto simp: confirm_in_def Let_def orphan_card_def publish_card_def split: sum.splits prod.splits if_splits option.splits)
  from confirm have c0: "card_scope c0 = cpr_scope p" "fmlookup cards (card_scope c0) = Some c0"
    by (cases rule: continuity_confirmE; simp add: confirmed_card_def)+
  from admit_card_Inr [OF admit c0(2)] c0(1) have c: "card_scope c = cpr_scope p" "fmlookup snapshot (card_scope c) = Some c"
    by auto
  from publish obtain sf u where stage: "stage_continuity (card_scope c) (fmlookup snap (cpr_scope p)) (Some c) (km_safety m) = (Inr u, sf)"
      and done': "publish_continuity snapshot (card_scope c) (ce_publication env) (m\<lparr>km_safety := sf\<rparr>) = (Inr (), m')"
    by (auto simp: publish_card_def split: sum.splits prod.splits)
  from publish_Inr [OF done'] stage_Inr [OF stage] c show ?thesis
    by (auto simp: replace_exact_def Let_def fmdrop_upd validate_card_def ensure_def split: if_splits)
qed

text \<open>
  C38. A confirmation can make the saved state unloadable. When the process holds 256 cards --
  expired ones count, nothing removes them while it runs -- a confirmation for another scope
  succeeds, because the limit is checked on the unexpired cards of its snapshot only; the next
  ordinary save writes 257 cards, and loading rejects that file: the process saves a state it
  cannot start from.
\<close>

theorem full_store_saves_unloadable:
  assumes "fence_ok m" and "sf_pending (km_safety m) = fmempty"
    and "fmlookup (km_cards m) (cpr_scope p) = None" and "fm_len (km_cards m) = max_cards"
    and "confirm_continuity env p generation actor channel m = (Inr c, m')"
  shows "continuity_step (KSave True) m' = (SnapshotSaved (Some (save_continuity (km_cards m'))), m')
    \<and> length (save_continuity (km_cards m')) = 257 \<and> load_continuity (save_continuity (km_cards m')) = None"
proof -
  note published = confirmed_publication [OF assms(1,5)]
  have "sf_pending (km_safety m') = fmempty" unfolding conjunct2 [OF conjunct2 [OF published]] assms(2) by (rule fmap_ext) simp
  then have "take_snapshot True m' = (Some (km_cards m'), m')" by (simp add: take_snapshot_def pending_ops_def)
  moreover have "length (save_continuity (km_cards m')) = 257"
    using published assms(3,4) by (simp add: save_continuity_def fm_len_upd max_cards_def)
  ultimately show ?thesis by (simp add: load_continuity_def max_cards_def)
qed

definition old_card :: "nat \<Rightarrow> continuity_card" where
  "old_card k = \<lparr>card_schema_version = 1, card_scope = ScopeTeam k 9, card_confirmed_by = 7, card_revision = 1,
     card_confirmed_text = demo_text, card_source_refs = {||}, card_expires_at = card_lifetime, card_episode_receipt = None\<rparr>"

fun old_cards :: "nat \<Rightarrow> card_store" where
  "old_cards 0 = fmempty"
| "old_cards (Suc k) = fmupd (ScopeTeam (Suc k) 9) (old_card (Suc k)) (old_cards k)"

lemma old_cards_lookup: "fmlookup (old_cards n) s = Some c \<Longrightarrow> \<exists>k. 0 < k \<and> k \<le> n \<and> s = ScopeTeam k 9 \<and> c = old_card k"
  by (induction n) (auto split: if_splits intro: le_SucI)

lemma old_cards_ok: "cards_ok (old_cards n)"
proof -
  have "content_ok demo_text {||}"
    by (simp add: demo_text_def content_ok_def trim_def is_whitespace_def is_control_def utf8_len_def max_text_bytes_def
        max_sources_def fcard_fempty)
  then have "card_ok (old_card k)" if "0 < k" for k
    using that by (simp add: card_ok_def old_card_def checked_sub_def)
  then show ?thesis by (auto simp: cards_ok_def fm_all_iff old_card_def dest!: old_cards_lookup)
qed

lemma old_cards_len: "fm_len (old_cards n) = n"
proof (induction n)
  case (Suc n)
  have "fmlookup (old_cards n) (ScopeTeam (Suc n) 9) = None"
    using old_cards_lookup [of n "ScopeTeam (Suc n) 9"] by (cases "fmlookup (old_cards n) (ScopeTeam (Suc n) 9)") auto
  with Suc show ?case by (simp add: fm_len_upd)
qed simp

definition late_preview :: continuity_proposal where
  "late_preview = demo_preview\<lparr>cpr_expires_at := 700300\<rparr>"

definition late_card :: continuity_card where
  "late_card = confirmed_card late_preview 1 (700001 + card_lifetime)"

definition late_env :: confirm_env where
  "late_env = demo_confirm_env\<lparr>ce_now1 := 700001, ce_now2 := 700001, ce_now3 := 700002\<rparr>"

definition full_machine :: continuity_machine where
  "full_machine = demo_continuity_boot\<lparr>km_cards := old_cards 256\<rparr>"

lemma late_facts: "cpr_scope late_preview = ScopePersonal 7" "cpr_expires_at late_preview = 700300"
  "card_ok late_card" "card_scope late_card = ScopePersonal 7" "card_episode_receipt late_card = None"
  "fmlookup (old_cards 256) (ScopePersonal 7) = None"
  using old_cards_lookup [of 256 "ScopePersonal 7"]
  by (cases "fmlookup (old_cards 256) (ScopePersonal 7)";
      simp add: late_preview_def demo_preview_def card_ok_def late_card_def confirmed_card_def demo_content checked_sub_def card_lifetime_def)+

lemma late_confirm: "continuity_confirm late_preview demo_access demo_task_store 700001 (old_cards 256)
    = (Inr late_card, fmupd (ScopePersonal 7) late_card fmempty)"
proof -
  have dead: "fm_retain (\<lambda>_ c. live_card 700001 c) (old_cards 256) = fmempty"
    "fm_retain (\<lambda>_ c. card_scope c \<noteq> ScopePersonal 7 \<and> live_card 700001 c) (old_cards 256) = fmempty"
    by (rule fmap_ext; auto simp: live_card_def old_card_def card_lifetime_def dest!: old_cards_lookup split: option.splits)+
  have fields: "cpr_actor late_preview = 7" "cpr_base_revision late_preview = 0"
    "cpr_presented_text late_preview = demo_text" "cpr_source_refs late_preview = demo_refs"
    "\<And>revision expires. card_scope (confirmed_card late_preview revision expires) = ScopePersonal 7"
    by (simp_all add: late_preview_def demo_preview_def confirmed_card_def)
  show ?thesis
    by (simp add: continuity_confirm_def fields demo_actor demo_authorized within_lifetime_def
        proposal_lifetime_def checked_sub_def validate_content_def demo_content validate_sources_def demo_refs_current u64_max_def
        max_cards_def Let_def ensure_def late_facts dead card_lifetime_def late_card_def)
qed

lemma late_confirmation:
  "\<exists>m'. confirm_continuity late_env late_preview 1 7 9 full_machine = (Inr late_card, m')"
proof -
  let ?m = full_machine
  have state: "sf_pending (km_safety ?m) = fmempty" "sf_orphans (km_safety ?m) = fmempty" "sf_blocked (km_safety ?m) = {||}"
    "sf_generation (km_safety ?m) = Some 1" "km_cards ?m = old_cards 256"
    by (simp_all add: full_machine_def demo_continuity_boot_def boot_continuity_def new_safety_def)
  have snap: "take_snapshot True ?m = (Some (old_cards 256), ?m)"
    by (simp add: take_snapshot_def pending_ops_def state)
  have saved: "load_continuity (save_continuity (fmupd (ScopePersonal 7) late_card fmempty)) \<noteq> None"
  proof -
    have "cards_ok (fmupd (card_scope late_card) late_card fmempty)"
      by (rule cards_ok_upd) (simp_all add: cards_ok_def fm_all_iff late_facts)
    then show ?thesis by (simp add: load_save_continuity late_facts fm_len_upd max_cards_def)
  qed
  have context': "continuity_context (ScopePersonal 7) demo_access demo_task_store 700002 (fmupd (ScopePersonal 7) late_card fmempty) \<noteq> None"
    using demo_refs_current late_facts
    by (auto simp: continuity_context_Some demo_authorized within_lifetime_def checked_sub_def card_lifetime_def
        late_card_def confirmed_card_def late_preview_def demo_preview_def)
  show ?thesis
    using snap saved context'
    by (auto simp add: confirm_continuity_def late_env_def demo_confirm_env_def Let_def late_facts demo_fresh reserve_recovery_def
        state max_pending_def fcard_fempty continuity_generation_def confirm_in_def late_confirm admit_card_def
        grant_still_good_def demo_card_projects publish_card_def stage_continuity_def next_generation_def u64_max_def
        publish_continuity_def replace_exact_def validate_card_def ensure_def)
qed

theorem full_store_saves_unloadable_witness:
  "\<exists>c m'. confirm_continuity late_env late_preview 1 7 9 full_machine = (Inr c, m')
     \<and> load_continuity (save_continuity (km_cards m')) = None"
proof -
  obtain m' where late: "confirm_continuity late_env late_preview 1 7 9 full_machine = (Inr late_card, m')"
    using late_confirmation by blast
  have full: "fence_ok full_machine" "sf_pending (km_safety full_machine) = fmempty"
    "fmlookup (km_cards full_machine) (cpr_scope late_preview) = None" "fm_len (km_cards full_machine) = max_cards"
    by (simp_all add: full_machine_def demo_continuity_boot_def boot_continuity_def new_safety_def fence_ok_def old_cards_ok
        late_facts old_cards_len max_cards_def)
  from full_store_saves_unloadable [OF full late] late show ?thesis by blast
qed

end
