(* ===== verification/Community_Policy.thy ===== *)
theory Community_Policy
  imports Rust_String
begin

text \<open>
  Community operations: the owner's policy, its validation, and the ledger of receipts with
  the authorisation of an action (\<open>src/community_ops.rs\<close>, with the scope of the shadow cases
  from \<open>src/moderation/shadow.rs\<close>). An error is the text the code returns. Observations of
  Discord (\<open>serde_json::Value\<close>) are kept as their text.

  The lemmas state what an accepted policy guarantees of its actions, what an authorised
  action satisfies, and the invariant of the ledger: per day at most five charged receipts
  and two creations, and receipts for one target that are a week apart, or one the exact
  recovery of the other.
\<close>

unbundle bit_operations_syntax

type_synonym refusal = string
type_synonym json_text = rstr

section \<open>Policies and actions\<close>

datatype ops_operation =
    CreateInterestRole rstr
  | RetireInterestRole u64 rstr
  | Membership u64 u64 bool
  | AccessMatrix u64 u64 u64 u64
  | ArchiveChannel u64 u64
  | RestoreArchive u64 rstr
  | SetTopic u64 rstr
  | MoveChannel u64 u64
  | CreateText u64 rstr rstr

fun op_target_key :: "ops_operation \<Rightarrow> rstr" where
  "op_target_key (CreateInterestRole name) = lit ''new-role:'' @ name"
| "op_target_key (RetireInterestRole role _) = lit ''role:'' @ decimal role"
| "op_target_key (Membership member role _) = lit ''member:'' @ decimal member @ lit '':role:'' @ decimal role"
| "op_target_key (AccessMatrix channel _ _ _) = lit ''channel:'' @ decimal channel"
| "op_target_key (ArchiveChannel channel _) = lit ''channel:'' @ decimal channel"
| "op_target_key (RestoreArchive channel _) = lit ''channel:'' @ decimal channel"
| "op_target_key (SetTopic channel _) = lit ''channel:'' @ decimal channel"
| "op_target_key (MoveChannel channel _) = lit ''channel:'' @ decimal channel"
| "op_target_key (CreateText category name _) = lit ''new:'' @ decimal category @ lit '':'' @ name"

fun is_creation :: "ops_operation \<Rightarrow> bool" where
  "is_creation (CreateText _ _ _) = True"
| "is_creation (CreateInterestRole _) = True"
| "is_creation _ = False"

record ops_action =
  oa_key :: rstr
  oa_reason :: rstr
  oa_operation :: ops_operation

datatype ops_mode = OpsStopped | OpsPropose | OpsApply

datatype assessment_kind =
  KindTopic | KindMove | KindCreateText | KindCreateInterestRole | KindRetireInterestRole | KindArchive

record assessment_scope =
  as_enabled :: bool
  as_allowed_kinds :: "assessment_kind fset"
  as_source_channels :: "u64 fset"
  as_review_channel :: "u64 option"

record shadow_scope =
  sh_enabled :: bool
  sh_source_channels :: "u64 fset"
  sh_review_channel :: "u64 option"

record ops_policy =
  pol_version :: nat
  pol_guild :: u64
  pol_owner :: u64
  pol_mode :: ops_mode
  pol_daily_limit :: nat
  pol_daily_creations :: nat
  pol_public_categories :: "u64 fset"
  pol_protected_channels :: "u64 fset"
  pol_ordinary_roles :: "u64 fset"
  pol_membership_matrix :: "(u64 \<times> u64) fset"
  pol_assessment :: assessment_scope
  pol_shadow :: shadow_scope
  pol_actions :: "ops_action list"

definition ordinary_name :: "rstr \<Rightarrow> bool" where
  "ordinary_name name \<longleftrightarrow> trim name \<noteq> [] \<and> length name \<le> 100"

definition shadow_scope_validate :: "u64 fset \<Rightarrow> shadow_scope \<Rightarrow> refusal + unit" where
  "shadow_scope_validate protected s =
     ensure ''invalid contextual shadow scope''
       (\<not> (100 < fcard (sh_source_channels s) \<or> 0 |\<in>| sh_source_channels s
         \<or> sh_source_channels s |\<inter>| protected \<noteq> {||} \<or> sh_review_channel s = Some 0
         \<or> sh_enabled s \<and> sh_source_channels s = {||}))"

definition text_name_ok :: "rstr \<Rightarrow> bool" where
  "text_name_ok name \<longleftrightarrow> name \<noteq> [] \<and> byte_len name \<le> 100
     \<and> (\<forall>c \<in> set name. 97 \<le> c \<and> c \<le> 122 \<or> is_ascii_digit c \<or> c = 45)"

fun operation_check :: "ops_policy \<Rightarrow> ops_operation \<Rightarrow> refusal + unit" where
  "operation_check p (CreateInterestRole name) = ensure ''invalid interest role name'' (ordinary_name name)"
| "operation_check p (RetireInterestRole role name) =
     ensure ''role outside ordinary matrix'' (role |\<in>| pol_ordinary_roles p \<and> ordinary_name name)"
| "operation_check p (Membership member role _) =
     ensure ''membership outside approved matrix''
       (member \<noteq> 0 \<and> role |\<in>| pol_ordinary_roles p \<and> (member, role) |\<in>| pol_membership_matrix p)"
| "operation_check p (AccessMatrix channel role allow deny) =
     ensure ''access outside approved matrix''
       (channel \<noteq> 0 \<and> channel |\<notin>| pol_protected_channels p \<and> role |\<in>| pol_ordinary_roles p \<and> allow AND deny = 0)"
| "operation_check p (ArchiveChannel channel category) =
     ensure ''archive outside approved structure''
       (channel \<noteq> 0 \<and> channel |\<notin>| pol_protected_channels p \<and> category |\<in>| pol_public_categories p)"
| "operation_check p (RestoreArchive channel receipt) =
     ensure ''invalid archive recovery authority''
       (channel \<noteq> 0 \<and> channel |\<notin>| pol_protected_channels p \<and> receipt \<noteq> [])"
| "operation_check p (SetTopic channel topic) =
     ensure ''topic target is protected or invalid''
       (channel \<noteq> 0 \<and> channel |\<notin>| pol_protected_channels p \<and> length topic \<le> 1024)"
| "operation_check p (MoveChannel channel category) =
     ensure ''move target is outside approved public structure''
       (channel \<noteq> 0 \<and> channel |\<notin>| pol_protected_channels p \<and> category |\<in>| pol_public_categories p)"
| "operation_check p (CreateText category name topic) =
     ensure ''creation is outside approved public structure''
       (category |\<in>| pol_public_categories p \<and> text_name_ok name \<and> length topic \<le> 1024)"

fun actions_check :: "ops_policy \<Rightarrow> rstr list \<Rightarrow> ops_action list \<Rightarrow> refusal + unit" where
  "actions_check p keys [] = Inr ()"
| "actions_check p keys (a # rest) =
     (if oa_key a = [] \<or> 128 < byte_len (oa_key a) \<or> oa_key a \<in> set keys
        \<or> trim (oa_reason a) = [] \<or> 512 < byte_len (oa_reason a)
      then Inl ''invalid or duplicate action identity''
      else case operation_check p (oa_operation a) of
          Inl e \<Rightarrow> Inl e
        | Inr _ \<Rightarrow> actions_check p (oa_key a # keys) rest)"

definition assessment_scope_ok :: "ops_policy \<Rightarrow> bool" where
  "assessment_scope_ok p \<longleftrightarrow>
     (let s = pol_assessment p in
      \<not> (100 < fcard (as_source_channels s)
        \<or> fBex (as_source_channels s) (\<lambda>c. c = 0 \<or> c |\<in>| pol_protected_channels p)
        \<or> as_review_channel s = Some 0
        \<or> as_enabled s \<and> (as_source_channels s = {||} \<or> as_allowed_kinds s = {||})))"

definition validate_policy :: "ops_policy \<Rightarrow> refusal + unit" where
  "validate_policy p =
     (case first_failure
         [(''invalid policy identity or version'', pol_version p = 1 \<and> pol_guild p \<noteq> 0 \<and> pol_owner p \<noteq> 0),
          (''public and protected category scope contradicts'', pol_public_categories p |\<inter>| pol_protected_channels p = {||}),
          (''invalid policy limits'', \<not> (pol_daily_limit p = 0 \<or> 5 < pol_daily_limit p \<or> 2 < pol_daily_creations p
             \<or> pol_daily_limit p < pol_daily_creations p \<or> 100 < length (pol_actions p))),
          (''invalid owner assessment scope'', assessment_scope_ok p)] of
        Inl e \<Rightarrow> Inl e
      | Inr _ \<Rightarrow> (case shadow_scope_validate (pol_protected_channels p) (pol_shadow p) of
            Inl e \<Rightarrow> Inl e
          | Inr _ \<Rightarrow> actions_check p [] (pol_actions p)))"

section \<open>The ledger\<close>

datatype ops_status = StProposed | StReserved | StVerified | StReviewRequired | StRejected

record ops_receipt =
  rcp_action :: ops_action
  rcp_policy_digest :: rstr
  rcp_at :: u64
  rcp_status :: ops_status
  rcp_before :: json_text
  rcp_observed :: "json_text option"
  rcp_detail :: string

record ops_ledger =
  led_last_assessment :: "u64 option"
  led_last_policy_digest :: "rstr option"
  led_receipts :: "(rstr, ops_receipt) fmap"

definition new_ops_ledger :: ops_ledger where
  "new_ops_ledger = \<lparr>led_last_assessment = None, led_last_policy_digest = None, led_receipts = fmempty\<rparr>"

definition target_cooldown :: nat where "target_cooldown = 604800"

definition receipt_charged :: "ops_receipt \<Rightarrow> bool" where
  "receipt_charged r \<longleftrightarrow> rcp_status r = StReserved \<or> rcp_status r = StVerified \<or> rcp_status r = StReviewRequired"

definition receipt_unresolved :: "ops_receipt \<Rightarrow> bool" where
  "receipt_unresolved r \<longleftrightarrow> rcp_status r = StReserved \<or> rcp_status r = StReviewRequired"

definition charged_receipts :: "ops_ledger \<Rightarrow> u64 \<Rightarrow> ops_receipt list" where
  "charged_receipts l now =
     filter (\<lambda>r. rcp_at r div 86400 = now div 86400 \<and> receipt_charged r) (fm_values (led_receipts l))"

definition exact_recovery :: "ops_action \<Rightarrow> ops_receipt \<Rightarrow> bool" where
  "exact_recovery a r =
     (case oa_operation a of
        RestoreArchive channel receipt \<Rightarrow>
          rcp_status r = StVerified \<and> receipt = oa_key (rcp_action r)
          \<and> (case oa_operation (rcp_action r) of ArchiveChannel archived _ \<Rightarrow> archived = channel | _ \<Rightarrow> False)
          \<and> rcp_observed r \<noteq> None
      | _ \<Rightarrow> False)"

definition blocks_target :: "ops_action \<Rightarrow> u64 \<Rightarrow> ops_receipt \<Rightarrow> bool" where
  "blocks_target a now r \<longleftrightarrow>
     op_target_key (oa_operation (rcp_action r)) = op_target_key (oa_operation a)
     \<and> receipt_charged r \<and> \<not> exact_recovery a r
     \<and> (receipt_unresolved r \<or> now - rcp_at r < target_cooldown)"

definition authorize_action :: "ops_ledger \<Rightarrow> ops_policy \<Rightarrow> ops_action \<Rightarrow> u64 \<Rightarrow> refusal + unit" where
  "authorize_action l p a now =
     (case validate_policy p of
        Inl e \<Rightarrow> Inl e
      | Inr _ \<Rightarrow> first_failure
          [(''policy does not permit execution'', pol_mode p = OpsApply),
           (''action lacks owner policy authority'', a \<in> set (pol_actions p)),
           (''idempotency key belongs to another request'',
              is_none_or (fmlookup (led_receipts l) (oa_key a)) (\<lambda>r. rcp_action r = a)),
           (''receipt requires review or is already settled'',
              is_none_or (fmlookup (led_receipts l) (oa_key a)) (\<lambda>r. rcp_status r = StProposed)),
           (''daily structural budget exhausted'', length (charged_receipts l now) < pol_daily_limit p),
           (''daily channel creation budget exhausted'',
              is_creation (oa_operation a) \<longrightarrow>
                length (filter (\<lambda>r. is_creation (oa_operation (rcp_action r))) (charged_receipts l now))
                  < pol_daily_creations p),
           (''target is cooling down or has unresolved work'',
              \<not> fm_any (\<lambda>_. blocks_target a now) (led_receipts l))])"

section \<open>What an accepted policy guarantees\<close>

lemma policy_limits:
  assumes "validate_policy p = Inr u"
  shows "0 < pol_daily_limit p" "pol_daily_limit p \<le> 5" "pol_daily_creations p \<le> 2"
    "length (pol_actions p) \<le> 100" "pol_guild p \<noteq> 0" "pol_owner p \<noteq> 0"
    "pol_public_categories p |\<inter>| pol_protected_channels p = {||}" "assessment_scope_ok p"
    "actions_check p [] (pol_actions p) = Inr ()"
  using assms by (auto simp: validate_policy_def split: sum.splits if_splits)

lemma actions_check_Inr:
  "actions_check p keys actions = Inr u \<Longrightarrow>
     distinct (map oa_key actions) \<and> set (map oa_key actions) \<inter> set keys = {}
     \<and> (\<forall>a \<in> set actions. operation_check p (oa_operation a) = Inr () \<and> oa_key a \<noteq> []
          \<and> trim (oa_reason a) \<noteq> [] \<and> byte_len (oa_reason a) \<le> 512)"
proof (induction actions arbitrary: keys)
  case Nil
  then show ?case by simp
next
  case (Cons a rest)
  from Cons.prems have head: "oa_key a \<noteq> []" "oa_key a \<notin> set keys" "trim (oa_reason a) \<noteq> []" "byte_len (oa_reason a) \<le> 512"
    by (simp_all split: if_splits)
  from Cons.prems obtain v where op: "operation_check p (oa_operation a) = Inr v"
    by (cases "operation_check p (oa_operation a)") (simp_all split: if_splits)
  with Cons.prems have "actions_check p (oa_key a # keys) rest = Inr u" by (simp split: if_splits)
  from Cons.IH [OF this] head op show ?case by auto
qed

lemma policy_action:
  assumes "validate_policy p = Inr u" and "a \<in> set (pol_actions p)"
  shows "operation_check p (oa_operation a) = Inr ()"
  using policy_limits(9) [OF assms(1), THEN actions_check_Inr] assms(2) by blast

lemma policy_keys: "validate_policy p = Inr u \<Longrightarrow> distinct (map oa_key (pol_actions p))"
  using policy_limits(9) [THEN actions_check_Inr] by blast

lemma authorizedE:
  assumes "authorize_action l p a now = Inr u"
  obtains "validate_policy p = Inr ()" "pol_mode p = OpsApply" "a \<in> set (pol_actions p)"
    "\<And>r. fmlookup (led_receipts l) (oa_key a) = Some r \<Longrightarrow> rcp_action r = a \<and> rcp_status r = StProposed"
    "length (charged_receipts l now) < pol_daily_limit p"
    "is_creation (oa_operation a) \<Longrightarrow>
       length (filter (\<lambda>r. is_creation (oa_operation (rcp_action r))) (charged_receipts l now)) < pol_daily_creations p"
    "\<And>k r. fmlookup (led_receipts l) k = Some r \<Longrightarrow> \<not> blocks_target a now r"
proof -
  obtain v where v: "validate_policy p = Inr v"
    using assms by (cases "validate_policy p") (simp_all add: authorize_action_def)
  note checks = assms [unfolded authorize_action_def v sum.case first_failure_Inr, simplified]
  show ?thesis
    by (rule that) (use v checks in \<open>auto simp: is_none_or_iff fm_any_iff\<close>)
qed

section \<open>The invariant of the ledger\<close>

lemma filtered_values_len: "length (filter P (fm_values m)) = fm_len (fm_retain (\<lambda>_. P) m)"
  by (simp flip: fm_values_retain)

lemma filtered_values_upd:
  "length (filter P (fm_values (fmupd k v m))) \<le> of_bool (P v) + length (filter P (fm_values m))"
proof -
  have "fm_len (fm_retain (\<lambda>_. P) (fmdrop k m)) \<le> fm_len (fm_retain (\<lambda>_. P) m)"
    by (rule fm_len_mono) (auto simp: fm_retain_def)
  then show ?thesis
    using fm_len_upd_le [of k v "fm_retain (\<lambda>_. P) (fmdrop k m)"]
    by (simp add: filtered_values_len fm_retain_upd)
qed

lemma filtered_values_same:
  assumes "fmlookup m k = Some u" and "P v \<Longrightarrow> P u"
  shows "length (filter P (fm_values (fmupd k v m))) \<le> length (filter P (fm_values m))"
  unfolding filtered_values_len
  by (rule fm_len_mono) (use assms in \<open>auto simp: fmlookup_dom_iff split: option.splits if_splits\<close>)

definition recovers :: "ops_receipt \<Rightarrow> ops_receipt \<Rightarrow> bool" where
  "recovers r archived \<longleftrightarrow> (\<exists>channel category. oa_operation (rcp_action r) = RestoreArchive channel (oa_key (rcp_action archived))
     \<and> oa_operation (rcp_action archived) = ArchiveChannel channel category)"

definition receipts_apart :: "ops_receipt \<Rightarrow> ops_receipt \<Rightarrow> bool" where
  "receipts_apart r r' \<longleftrightarrow> rcp_at r + target_cooldown \<le> rcp_at r' \<or> rcp_at r' + target_cooldown \<le> rcp_at r
     \<or> recovers r r' \<or> recovers r' r"

abbreviation receipt_target :: "ops_receipt \<Rightarrow> rstr" where
  "receipt_target r \<equiv> op_target_key (oa_operation (rcp_action r))"

definition ops_ledger_ok :: "ops_ledger \<Rightarrow> bool" where
  "ops_ledger_ok l \<longleftrightarrow>
     (\<forall>k r. fmlookup (led_receipts l) k = Some r \<longrightarrow> oa_key (rcp_action r) = k)
     \<and> (\<forall>now. length (charged_receipts l now) \<le> 5
          \<and> length (filter (\<lambda>r. is_creation (oa_operation (rcp_action r))) (charged_receipts l now)) \<le> 2)
     \<and> (\<forall>k r k' r'. fmlookup (led_receipts l) k = Some r \<longrightarrow> fmlookup (led_receipts l) k' = Some r' \<longrightarrow> k \<noteq> k'
          \<longrightarrow> receipt_charged r \<longrightarrow> receipt_charged r' \<longrightarrow> receipt_target r = receipt_target r'
          \<longrightarrow> receipts_apart r r' \<and> \<not> (receipt_unresolved r \<and> receipt_unresolved r'))"

lemma ops_ledger_okD:
  assumes "ops_ledger_ok l"
  shows "fmlookup (led_receipts l) k = Some r \<Longrightarrow> oa_key (rcp_action r) = k"
    and "length (charged_receipts l now) \<le> 5"
    and "length (filter (\<lambda>r. is_creation (oa_operation (rcp_action r))) (charged_receipts l now)) \<le> 2"
    and "fmlookup (led_receipts l) k = Some r \<Longrightarrow> fmlookup (led_receipts l) k' = Some r' \<Longrightarrow> k \<noteq> k'
      \<Longrightarrow> receipt_charged r \<Longrightarrow> receipt_charged r' \<Longrightarrow> receipt_target r = receipt_target r'
      \<Longrightarrow> receipts_apart r r' \<and> \<not> (receipt_unresolved r \<and> receipt_unresolved r')"
  using assms unfolding ops_ledger_ok_def by blast+

lemma new_ops_ledger_ok [simp]: "ops_ledger_ok new_ops_ledger"
  by (simp add: ops_ledger_ok_def new_ops_ledger_def charged_receipts_def)

lemma ops_ledger_ok_receipts:
  "led_receipts l = led_receipts l' \<Longrightarrow> ops_ledger_ok l = ops_ledger_ok l'"
  by (simp add: ops_ledger_ok_def charged_receipts_def)

definition with_receipt :: "ops_receipt \<Rightarrow> ops_ledger \<Rightarrow> ops_ledger" where
  "with_receipt r l = l\<lparr>led_receipts := fmupd (oa_key (rcp_action r)) r (led_receipts l)\<rparr>"

lemma with_receipt_simps [simp]:
  "led_receipts (with_receipt r l) = fmupd (oa_key (rcp_action r)) r (led_receipts l)"
  by (simp add: with_receipt_def)

lemma receipts_apart_sym: "receipts_apart r r' = receipts_apart r' r"
  by (auto simp: receipts_apart_def)

text \<open>Replacing a receipt keeps the invariant if the new one is within the day's budget and
  apart from the others of its target.\<close>

lemma with_receipt_ok:
  assumes "ops_ledger_ok l"
    and "\<And>now. length (charged_receipts (with_receipt r l) now) \<le> 5"
    and "\<And>now. length (filter (\<lambda>r. is_creation (oa_operation (rcp_action r))) (charged_receipts (with_receipt r l) now)) \<le> 2"
    and "\<And>k s. receipt_charged r \<Longrightarrow> fmlookup (led_receipts l) k = Some s \<Longrightarrow> k \<noteq> oa_key (rcp_action r)
      \<Longrightarrow> receipt_charged s \<Longrightarrow> receipt_target s = receipt_target r
      \<Longrightarrow> receipts_apart s r \<and> \<not> (receipt_unresolved s \<and> receipt_unresolved r)"
  shows "ops_ledger_ok (with_receipt r l)"
  unfolding ops_ledger_ok_def
proof (intro conjI allI impI)
  fix k s
  assume "fmlookup (led_receipts (with_receipt r l)) k = Some s"
  then show "oa_key (rcp_action s) = k" using ops_ledger_okD(1) [OF assms(1)] by (auto split: if_splits)
next
  fix now
  show "length (charged_receipts (with_receipt r l) now) \<le> 5" by (rule assms(2))
  show "length (filter (\<lambda>r. is_creation (oa_operation (rcp_action r))) (charged_receipts (with_receipt r l) now)) \<le> 2"
    by (rule assms(3))
next
  fix k s k' s'
  assume a: "fmlookup (led_receipts (with_receipt r l)) k = Some s" "fmlookup (led_receipts (with_receipt r l)) k' = Some s'"
    "k \<noteq> k'" "receipt_charged s" "receipt_charged s'" "receipt_target s = receipt_target s'"
  have "receipts_apart s s' \<and> \<not> (receipt_unresolved s \<and> receipt_unresolved s')"
  proof (cases "k = oa_key (rcp_action r) \<or> k' = oa_key (rcp_action r)")
    case True
    then show ?thesis
    proof
      assume k: "k = oa_key (rcp_action r)"
      with a have s: "s = r" "fmlookup (led_receipts l) k' = Some s'" by auto
      with a k assms(4) [of k' s'] show ?thesis by (auto simp: receipts_apart_sym)
    next
      assume k: "k' = oa_key (rcp_action r)"
      with a have s: "s' = r" "fmlookup (led_receipts l) k = Some s" by auto
      with a k assms(4) [of k s] show ?thesis by auto
    qed
  next
    case False
    with a ops_ledger_okD(4) [OF assms(1), of k s k' s'] show ?thesis by auto
  qed
  then show "receipts_apart s s'" "\<not> (receipt_unresolved s \<and> receipt_unresolved s')" by auto
qed

lemma charged_with_receipt:
  "length (charged_receipts (with_receipt r l) now)
     \<le> of_bool (rcp_at r div 86400 = now div 86400 \<and> receipt_charged r) + length (charged_receipts l now)"
  unfolding charged_receipts_def with_receipt_simps by (rule filtered_values_upd)

lemma created_with_receipt:
  "length (filter (\<lambda>r. is_creation (oa_operation (rcp_action r))) (charged_receipts (with_receipt r l) now))
     \<le> of_bool ((rcp_at r div 86400 = now div 86400 \<and> receipt_charged r) \<and> is_creation (oa_operation (rcp_action r)))
       + length (filter (\<lambda>r. is_creation (oa_operation (rcp_action r))) (charged_receipts l now))"
  unfolding charged_receipts_def with_receipt_simps filter_filter by (rule filtered_values_upd)

lemma charged_same_day: "n div 86400 = now div 86400 \<Longrightarrow> charged_receipts l n = charged_receipts l now"
  by (simp add: charged_receipts_def)

lemma reserving_keeps_ok:
  assumes ok: "ops_ledger_ok l" and allowed: "authorize_action l p (rcp_action r) (rcp_at r) = Inr u"
    and status: "rcp_status r = StReserved"
  shows "ops_ledger_ok (with_receipt r l)"
proof -
  have charged: "receipt_charged r" using status by (simp add: receipt_charged_def)
  from allowed show ?thesis
  proof (cases rule: authorizedE)
    case 1
    note limits = policy_limits [OF 1(1)]
    show ?thesis
    proof (rule with_receipt_ok [OF ok])
      fix now
      show "length (charged_receipts (with_receipt r l) now) \<le> 5"
        using charged_with_receipt [of r l now] 1(5) limits(2) ops_ledger_okD(2) [OF ok, of now]
        by (cases "rcp_at r div 86400 = now div 86400") (auto simp: charged charged_same_day [of now "rcp_at r"])
      show "length (filter (\<lambda>r. is_creation (oa_operation (rcp_action r))) (charged_receipts (with_receipt r l) now)) \<le> 2"
        using created_with_receipt [of r l now] 1(6) limits(3) ops_ledger_okD(3) [OF ok, of now]
        by (cases "rcp_at r div 86400 = now div 86400 \<and> is_creation (oa_operation (rcp_action r))")
          (auto simp: charged charged_same_day [of now "rcp_at r"])
    next
      fix k s
      assume s: "fmlookup (led_receipts l) k = Some s" "receipt_charged s" "receipt_target s = receipt_target r"
      show "receipts_apart s r \<and> \<not> (receipt_unresolved s \<and> receipt_unresolved r)"
      proof (cases "exact_recovery (rcp_action r) s")
        case True
        then show ?thesis
          by (auto simp: exact_recovery_def receipts_apart_def recovers_def receipt_unresolved_def split: ops_operation.splits)
      next
        case False
        with 1(7) [OF s(1)] s have "\<not> receipt_unresolved s" "target_cooldown \<le> rcp_at r - rcp_at s"
          by (auto simp: blocks_target_def)
        then show ?thesis by (auto simp: receipts_apart_def target_cooldown_def)
      qed
    qed
  qed
qed

lemma settling_keeps_ok:
  assumes ok: "ops_ledger_ok l" and old: "fmlookup (led_receipts l) (oa_key (rcp_action r)) = Some s"
    and same: "rcp_action r = rcp_action s" "rcp_at r = rcp_at s"
    and charged: "receipt_charged s" "receipt_unresolved s"
  shows "ops_ledger_ok (with_receipt r l)"
proof (rule with_receipt_ok [OF ok])
  fix now
  have "length (charged_receipts (with_receipt r l) now) \<le> length (charged_receipts l now)"
    unfolding charged_receipts_def with_receipt_simps
    by (rule filtered_values_same [OF old]) (use same charged in auto)
  with ops_ledger_okD(2) [OF ok, of now] show "length (charged_receipts (with_receipt r l) now) \<le> 5" by simp
  have "length (filter (\<lambda>r. is_creation (oa_operation (rcp_action r))) (charged_receipts (with_receipt r l) now))
      \<le> length (filter (\<lambda>r. is_creation (oa_operation (rcp_action r))) (charged_receipts l now))"
    unfolding charged_receipts_def with_receipt_simps filter_filter
    by (rule filtered_values_same [OF old]) (use same charged in auto)
  with ops_ledger_okD(3) [OF ok, of now]
  show "length (filter (\<lambda>r. is_creation (oa_operation (rcp_action r))) (charged_receipts (with_receipt r l) now)) \<le> 2" by simp
next
  fix k q
  assume q: "fmlookup (led_receipts l) k = Some q" "k \<noteq> oa_key (rcp_action r)" "receipt_charged q"
    "receipt_target q = receipt_target r"
  with ops_ledger_okD(4) [OF ok q(1) old] same charged
  have "receipts_apart q s" "\<not> receipt_unresolved q" by auto
  then show "receipts_apart q r \<and> \<not> (receipt_unresolved q \<and> receipt_unresolved r)"
    using same by (simp add: receipts_apart_def recovers_def)
qed

lemma proposing_keeps_ok:
  assumes ok: "ops_ledger_ok l" and status: "rcp_status r = StProposed"
  shows "ops_ledger_ok (with_receipt r l)"
proof (rule with_receipt_ok [OF ok])
  fix now
  have free: "\<not> receipt_charged r" using status by (simp add: receipt_charged_def)
  show "length (charged_receipts (with_receipt r l) now) \<le> 5"
    using charged_with_receipt [of r l now] ops_ledger_okD(2) [OF ok, of now] free by simp
  show "length (filter (\<lambda>r. is_creation (oa_operation (rcp_action r))) (charged_receipts (with_receipt r l) now)) \<le> 2"
    using created_with_receipt [of r l now] ops_ledger_okD(3) [OF ok, of now] free by simp
qed (use status in \<open>simp add: receipt_charged_def\<close>)

end
