(* ===== verification/Community_Proposals.thy ===== *)
theory Community_Proposals
  imports Community_Policy
begin

text \<open>
  Proposals of the local model for community maintenance
  (\<open>src/community_ops/proposals.rs\<close>): drafts and their bounds, the evidence of an
  assessment, proofs of what is public, pending proposals with the owner's decision, the
  store, the check of an operation against fresh proofs, the validation of a batch of drafts,
  and the two fresh proofs an approval needs.

  JSON (\<open>serde_json\<close>) and SHA-256 (\<open>sha2\<close>) are third-party: \<open>digests\<close> is the argument for
  them. A digest of structured data is a function of the data that may fail; the bytes of the
  policy file are the type \<open>'b\<close>.
\<close>

section \<open>Drafts\<close>

definition max_source_bytes :: nat where "max_source_bytes = 32768"
definition max_output_bytes :: nat where "max_output_bytes = 16384"
definition proof_ttl :: nat where "proof_ttl = 60"
definition proposal_ttl :: nat where "proposal_ttl = 604800"
definition max_pending_proposals :: nat where "max_pending_proposals = 100"

fun assessment_kind_of :: "ops_operation \<Rightarrow> assessment_kind option" where
  "assessment_kind_of (SetTopic _ _) = Some KindTopic"
| "assessment_kind_of (MoveChannel _ _) = Some KindMove"
| "assessment_kind_of (CreateText _ _ _) = Some KindCreateText"
| "assessment_kind_of (CreateInterestRole _) = Some KindCreateInterestRole"
| "assessment_kind_of (RetireInterestRole _ _) = Some KindRetireInterestRole"
| "assessment_kind_of (ArchiveChannel _ _) = Some KindArchive"
| "assessment_kind_of _ = None"

record model_proposal =
  mpr_operation :: ops_operation
  mpr_reason :: rstr

record model_batch =
  mb_version :: nat
  mb_proposals :: "model_proposal list"

definition parse_batch :: "(rstr \<Rightarrow> model_batch option) \<Rightarrow> rstr \<Rightarrow> refusal + model_batch" where
  "parse_batch from_slice bytes =
     (if max_output_bytes < byte_len bytes then Inl ''proposal output exceeds bound''
      else case from_slice bytes of
          None \<Rightarrow> Inl ''invalid proposal JSON''
        | Some batch \<Rightarrow>
            if mb_version batch \<noteq> 1 \<or> 5 < length (mb_proposals batch)
            then Inl ''invalid proposal version or count'' else Inr batch)"

section \<open>Sources and proofs\<close>

record channel_metadata =
  chm_id :: u64
  chm_name :: rstr
  chm_kind :: rstr
  chm_parent :: u64
  chm_topic :: "rstr option"

record named_metadata =
  nm_id :: u64
  nm_name :: rstr

record assessment_source =
  src_version :: nat
  src_assessment_id :: rstr
  src_guild :: u64
  src_scope_digest :: rstr
  src_policy_digest :: rstr
  src_captured_at :: u64
  src_inventory_digest :: rstr
  src_channels :: "channel_metadata list"
  src_categories :: "named_metadata list"
  src_roles :: "named_metadata list"

record channel_proof =
  chp_metadata :: channel_metadata
  chp_public :: bool
  chp_archive_safe :: bool
  chp_permissions_digest :: rstr
  chp_before_digest :: rstr

record role_proof =
  rp_metadata :: named_metadata
  rp_permissions :: u64
  rp_entitlement_free :: bool
  rp_before_digest :: rstr

record public_proofs =
  pub_guild :: u64
  pub_checked_at :: u64
  pub_channels :: "(u64, channel_proof) fmap"
  pub_categories :: "(u64, rstr) fmap"
  pub_roles :: "(u64, role_proof) fmap"

datatype posting_change = PreservePosting | CloseOrdinaryPosting

record expected_access =
  ea_target_before :: "rstr option"
  ea_category_before :: "rstr option"
  ea_permissions_before :: "rstr option"
  ea_view_invariant :: bool
  ea_posting_change :: posting_change
  ea_role_permissions :: "u64 option"

datatype source_locality = SameHost
datatype source_class = TextReadOnly

record proposal_source =
  prs_assessment_id :: rstr
  prs_captured_at :: u64
  prs_inventory_digest :: rstr
  prs_scope_digest :: rstr
  prs_policy_digest :: rstr
  prs_channel_ids :: "u64 fset"
  prs_category_ids :: "u64 fset"
  prs_role_ids :: "u64 fset"
  prs_locality :: source_locality
  prs_request_class :: source_class

section \<open>Pending proposals\<close>

datatype proposal_status =
  PrPending | PrApprovalPrepared | PrApproved | PrRejected | PrStale | PrReviewRequired

datatype approval_stage = StagePrepared | StagePolicyVerified | StageFinalized | StageReconciliationRequired

record approval_journal =
  aj_action :: ops_action
  aj_reviewed_hash :: rstr
  aj_scope_digest :: rstr
  aj_previous_policy_digest :: rstr
  aj_planned_policy_digest :: rstr
  aj_stage :: approval_stage

record recovery_audit =
  ra_receipt_key :: rstr
  ra_receipt_digest :: rstr
  ra_original_access_digest :: rstr
  ra_archived_access_digest :: rstr
  ra_reason :: rstr

record owner_decision =
  od_actor :: u64
  od_decided_at :: u64
  od_reviewed_hash :: rstr
  od_previous_policy_digest :: rstr
  od_published_policy_digest :: "rstr option"
  od_approved_action_key :: "rstr option"
  od_journal :: "approval_journal option"
  od_recovery_audit :: "recovery_audit option"

record pending_proposal =
  pp_id :: rstr
  pp_revision :: u64
  pp_hash :: rstr
  pp_guild :: u64
  pp_policy_owner :: u64
  pp_created_at :: u64
  pp_expires_at :: u64
  pp_draft :: model_proposal
  pp_source :: proposal_source
  pp_expected_access :: expected_access
  pp_status :: proposal_status
  pp_decision :: "owner_decision option"

type_synonym reviewed_content =
  "rstr \<times> u64 \<times> u64 \<times> u64 \<times> u64 \<times> model_proposal \<times> proposal_source \<times> expected_access"

record 'b digests =
  en_policy :: "ops_policy \<Rightarrow> 'b option"
  en_parse :: "'b \<Rightarrow> ops_policy option"
  en_hash :: "'b \<Rightarrow> rstr"
  en_scope :: "ops_policy \<times> assessment_scope \<Rightarrow> rstr option"
  en_reviewed :: "reviewed_content \<Rightarrow> rstr option"
  en_draft :: "u64 \<times> proposal_source \<times> model_proposal \<Rightarrow> rstr option"
  en_inventory :: "channel_metadata list \<times> named_metadata list \<times> named_metadata list \<Rightarrow> rstr option"
  en_attempt :: "u64 \<times> u64 \<times> rstr \<Rightarrow> rstr option"
  en_source_len :: "assessment_source \<Rightarrow> nat option"

definition digest_of :: "('x \<Rightarrow> rstr option) \<Rightarrow> 'x \<Rightarrow> refusal + rstr" where
  "digest_of encode x = ok_or (encode x) ''proposal encoding failed''"

definition proposal_action :: "pending_proposal \<Rightarrow> ops_action" where
  "proposal_action p =
     \<lparr>oa_key = lit ''proposal-'' @ pp_id p, oa_reason = mpr_reason (pp_draft p), oa_operation = mpr_operation (pp_draft p)\<rparr>"

definition reviewed_content :: "pending_proposal \<Rightarrow> reviewed_content" where
  "reviewed_content p = (pp_id p, pp_guild p, pp_policy_owner p, pp_created_at p, pp_expires_at p,
     pp_draft p, pp_source p, pp_expected_access p)"

definition reviewed_hash :: "'b digests \<Rightarrow> pending_proposal \<Rightarrow> refusal + rstr" where
  "reviewed_hash E p = digest_of (en_reviewed E) (reviewed_content p)"

definition journal_matches :: "pending_proposal \<Rightarrow> owner_decision \<Rightarrow> approval_journal \<Rightarrow> bool" where
  "journal_matches p d j \<longleftrightarrow>
     \<not> (od_actor d \<noteq> pp_policy_owner p \<or> od_reviewed_hash d \<noteq> pp_hash p \<or> aj_action j \<noteq> proposal_action p
       \<or> aj_reviewed_hash j \<noteq> pp_hash p \<or> aj_scope_digest j \<noteq> prs_scope_digest (pp_source p)
       \<or> aj_previous_policy_digest j \<noteq> od_previous_policy_digest d
       \<or> od_approved_action_key d \<noteq> Some (oa_key (aj_action j))
       \<or> pp_status p = PrApproved \<and> aj_stage j \<noteq> StageFinalized)"

definition decision_check :: "pending_proposal \<Rightarrow> refusal + unit" where
  "decision_check p =
     (if pp_status p = PrPending \<and> pp_decision p \<noteq> None then Inl ''pending proposal already has a decision''
      else if pp_status p = PrApproved \<or> pp_status p = PrApprovalPrepared \<or> pp_status p = PrReviewRequired
      then case pp_decision p of
          None \<Rightarrow> Inl ''approval decision missing''
        | Some d \<Rightarrow> (case od_journal d of
              None \<Rightarrow> Inl ''approval journal missing''
            | Some j \<Rightarrow> ensure ''approval journal integrity mismatch'' (journal_matches p d j))
      else Inr ())"

definition validate_pending :: "'b digests \<Rightarrow> pending_proposal \<Rightarrow> refusal + unit" where
  "validate_pending E p =
     (if byte_len (pp_id p) \<noteq> 64 \<or> \<not> list_all is_hex (pp_id p) then Inl ''invalid pending proposal integrity''
      else case reviewed_hash E p of
          Inl e \<Rightarrow> Inl e
        | Inr hash \<Rightarrow>
            if pp_hash p \<noteq> hash \<or> pp_revision p = 0 \<or> pp_guild p = 0 \<or> pp_policy_owner p = 0
               \<or> pp_expires_at p \<noteq> saturating_add (pp_created_at p) proposal_ttl
               \<or> pp_created_at p < prs_captured_at (pp_source p)
               \<or> trim (mpr_reason (pp_draft p)) = [] \<or> 512 < byte_len (mpr_reason (pp_draft p))
               \<or> assessment_kind_of (mpr_operation (pp_draft p)) = None
            then Inl ''invalid pending proposal integrity''
            else decision_check p)"

section \<open>The store\<close>

datatype assessment_outcome =
  OutStarted | OutLocalUnavailable | OutSourceIncomplete | OutInvalidOutput | OutNoChange
| OutPendingPublished | OutAssessmentCancelled | OutPersistenceReview

record assessment_attempt =
  aa_id :: rstr
  aa_started_at :: u64
  aa_finished_at :: "u64 option"
  aa_source_digest :: "rstr option"
  aa_policy_digest :: rstr
  aa_outcome :: assessment_outcome

record proposal_store =
  prst_version :: nat
  prst_revision :: u64
  prst_last_attempt_at :: "u64 option"
  prst_attempts :: "assessment_attempt list"
  prst_proposals :: "(rstr, pending_proposal) fmap"

definition new_proposal_store :: proposal_store where
  "new_proposal_store = \<lparr>prst_version = 1, prst_revision = 0, prst_last_attempt_at = None,
     prst_attempts = [], prst_proposals = fmempty\<rparr>"

fun proposals_check :: "'b digests \<Rightarrow> (rstr \<times> pending_proposal) list \<Rightarrow> refusal + unit" where
  "proposals_check E [] = Inr ()"
| "proposals_check E ((i, p) # rest) =
     (if i \<noteq> pp_id p then Inl ''proposal identity mismatch''
      else case validate_pending E p of Inl e \<Rightarrow> Inl e | Inr _ \<Rightarrow> proposals_check E rest)"

fun attempts_check :: "rstr list \<Rightarrow> assessment_attempt list \<Rightarrow> refusal + unit" where
  "attempts_check ids [] = Inr ()"
| "attempts_check ids (a # rest) =
     (if aa_id a \<in> set ids \<or> is_some_and (aa_finished_at a) (\<lambda>t. t < aa_started_at a)
      then Inl ''invalid assessment attempt'' else attempts_check (aa_id a # ids) rest)"

definition stored_proposals :: "proposal_store \<Rightarrow> (rstr \<times> pending_proposal) list" where
  "stored_proposals s = map (\<lambda>i. (i, the (fmlookup (prst_proposals s) i))) (fm_keys (prst_proposals s))"

definition validate_store :: "'b digests \<Rightarrow> proposal_store \<Rightarrow> refusal + unit" where
  "validate_store E s =
     (if prst_version s \<noteq> 1 \<or> max_pending_proposals < fm_len (prst_proposals s) \<or> 100 < length (prst_attempts s)
      then Inl ''invalid proposal store limits''
      else case proposals_check E (stored_proposals s) of
          Inl e \<Rightarrow> Inl e
        | Inr _ \<Rightarrow> attempts_check [] (prst_attempts s))"

definition open_status :: "proposal_status \<Rightarrow> bool" where
  "open_status st \<longleftrightarrow> st = PrPending \<or> st = PrApprovalPrepared \<or> st = PrReviewRequired"

definition active_targets :: "proposal_store \<Rightarrow> rstr fset" where
  "active_targets s = fset_of_list (map (\<lambda>p. op_target_key (mpr_operation (pp_draft p)))
     (filter (\<lambda>p. open_status (pp_status p)) (fm_values (prst_proposals s))))"

definition executable_action :: "'b digests \<Rightarrow> proposal_store \<Rightarrow> ops_action \<Rightarrow> bool" where
  "executable_action E s a \<longleftrightarrow>
     (strip_prefix (lit ''proposal-'') (oa_key a) = None
      \<or> fm_any (\<lambda>_ p. pp_status p = PrApproved \<and> proposal_action p = a \<and> validate_pending E p = Inr ()) (prst_proposals s))"

definition active_inventory_targets :: "ops_policy \<Rightarrow> ops_ledger \<Rightarrow> rstr fset" where
  "active_inventory_targets p l = fset_of_list (map (\<lambda>a. op_target_key (oa_operation a))
     (filter (\<lambda>a. is_none_or (fmlookup (led_receipts l) (oa_key a))
         (\<lambda>r. rcp_action r \<noteq> a \<or> \<not> (rcp_status r = StVerified \<or> rcp_status r = StRejected))) (pol_actions p)))"

text \<open>The digest of the owner's scope leaves out the actions and the mode.\<close>

definition scope_digest :: "'b digests \<Rightarrow> ops_policy \<Rightarrow> assessment_scope \<Rightarrow> refusal + rstr" where
  "scope_digest E p scope =
     (if scope \<noteq> pol_assessment p then Inl ''assessment scope is not owner policy''
      else ok_or (en_scope E (p\<lparr>pol_actions := [], pol_mode := OpsStopped\<rparr>, scope)) ''policy projection failed'')"

definition fresh_proof :: "u64 \<Rightarrow> u64 \<Rightarrow> refusal + unit" where
  "fresh_proof checked now = ensure ''stale proof'' (\<not> (now < checked \<or> proof_ttl < now - checked))"

end
