(* ===== verification/Community_Drafts.thy ===== *)
theory Community_Drafts
  imports Community_Proposals
begin

text \<open>
  The check of an operation against the owner's scope and fresh public proofs, the validation
  of a batch of drafts, and the proofs an approval needs (\<open>expected_access\<close>,
  \<open>validate_drafts\<close>, \<open>FreshOwnerProof\<close> and \<open>FreshOperationProof\<close> of
  \<open>src/community_ops/proposals.rs\<close>). The lemmas state what an admitted draft satisfies.
\<close>

section \<open>Expected access\<close>

fun operation_channel :: "ops_operation \<Rightarrow> u64 option" where
  "operation_channel (SetTopic channel _) = Some channel"
| "operation_channel (MoveChannel channel _) = Some channel"
| "operation_channel (ArchiveChannel channel _) = Some channel"
| "operation_channel _ = None"

fun operation_category :: "ops_operation \<Rightarrow> u64 option" where
  "operation_category (MoveChannel _ category) = Some category"
| "operation_category (ArchiveChannel _ category) = Some category"
| "operation_category (CreateText category _ _) = Some category"
| "operation_category _ = None"

fun changes_nothing :: "ops_operation \<Rightarrow> channel_metadata \<Rightarrow> bool" where
  "changes_nothing (SetTopic _ topic) c = (chm_topic c = Some topic)"
| "changes_nothing (MoveChannel _ category) c = (chm_parent c = category)"
| "changes_nothing _ c = False"

definition no_expectation :: expected_access where
  "no_expectation = \<lparr>ea_target_before = None, ea_category_before = None, ea_permissions_before = None,
     ea_view_invariant = True, ea_posting_change = PreservePosting, ea_role_permissions = None\<rparr>"

definition channel_expectation ::
  "ops_policy \<Rightarrow> assessment_scope \<Rightarrow> proposal_source \<Rightarrow> public_proofs \<Rightarrow> ops_operation
     \<Rightarrow> expected_access \<Rightarrow> refusal + expected_access" where
  "channel_expectation p scope source proofs op expected =
     (case operation_channel op of
        None \<Rightarrow> Inr expected
      | Some i \<Rightarrow> (case fmlookup (pub_channels proofs) i of
            None \<Rightarrow> Inl ''target unavailable''
          | Some c \<Rightarrow>
              if i |\<notin>| prs_channel_ids source \<or> i |\<notin>| as_source_channels scope \<or> \<not> chp_public c
                 \<or> i |\<in>| pol_protected_channels p \<or> chm_parent (chp_metadata c) |\<notin>| pol_public_categories p
              then Inl ''target outside public source scope''
              else if changes_nothing op (chp_metadata c) then Inl ''proposal is a no-op''
              else Inr (expected\<lparr>ea_target_before := Some (chp_before_digest c),
                                ea_permissions_before := Some (chp_permissions_digest c)\<rparr>)))"

definition category_expectation ::
  "ops_policy \<Rightarrow> proposal_source \<Rightarrow> public_proofs \<Rightarrow> ops_operation
     \<Rightarrow> expected_access \<Rightarrow> refusal + expected_access" where
  "category_expectation p source proofs op expected =
     (case operation_category op of
        None \<Rightarrow> Inr expected
      | Some i \<Rightarrow>
          if i |\<notin>| pol_public_categories p \<or> i |\<notin>| prs_category_ids source
          then Inl ''destination outside owner source scope''
          else (case fmlookup (pub_categories proofs) i of
              None \<Rightarrow> Inl ''category public proof unavailable''
            | Some before \<Rightarrow> Inr (expected\<lparr>ea_category_before := Some before\<rparr>)))"

fun operation_expectation ::
  "ops_policy \<Rightarrow> proposal_source \<Rightarrow> public_proofs \<Rightarrow> ops_operation
     \<Rightarrow> expected_access \<Rightarrow> refusal + expected_access" where
  "operation_expectation p source proofs (ArchiveChannel channel _) expected =
     (if \<not> is_some_and (fmlookup (pub_channels proofs) channel) chp_archive_safe
      then Inl ''archive posting closure lacks proof''
      else Inr (expected\<lparr>ea_posting_change := CloseOrdinaryPosting\<rparr>))"
| "operation_expectation p source proofs (CreateText category name _) expected =
     (if fm_any (\<lambda>_ c. chm_parent (chp_metadata c) = category \<and> chm_name (chp_metadata c) = name) (pub_channels proofs)
      then Inl ''creation collision''
      else Inr (expected\<lparr>ea_permissions_before := ea_category_before expected\<rparr>))"
| "operation_expectation p source proofs (CreateInterestRole name) expected =
     (if fm_any (\<lambda>_ r. nm_name (rp_metadata r) = name) (pub_roles proofs) then Inl ''role name collision''
      else Inr (expected\<lparr>ea_role_permissions := Some 0\<rparr>))"
| "operation_expectation p source proofs (RetireInterestRole role name) expected =
     (case fmlookup (pub_roles proofs) role of
        None \<Rightarrow> Inl ''role unavailable''
      | Some r \<Rightarrow>
          if role |\<notin>| pol_ordinary_roles p \<or> role |\<notin>| prs_role_ids source \<or> rp_permissions r \<noteq> 0
             \<or> \<not> rp_entitlement_free r \<or> nm_name (rp_metadata r) = name
             \<or> fm_any (\<lambda>_ r. nm_name (rp_metadata r) = name) (pub_roles proofs)
          then Inl ''role is not ordinary or name collides''
          else Inr (expected\<lparr>ea_target_before := Some (rp_before_digest r), ea_role_permissions := Some 0\<rparr>))"
| "operation_expectation p source proofs _ expected = Inr expected"

definition access_expected ::
  "'b digests \<Rightarrow> ops_policy \<Rightarrow> assessment_scope \<Rightarrow> proposal_source \<Rightarrow> public_proofs
     \<Rightarrow> ops_operation \<Rightarrow> u64 \<Rightarrow> refusal + expected_access" where
  "access_expected E p scope source proofs op now =
     rbind (fresh_proof (pub_checked_at proofs) now) (\<lambda>_.
       if pub_guild proofs \<noteq> pol_guild p \<or> \<not> as_enabled scope then Inl ''assessment scope mismatch''
       else rbind (scope_digest E p scope) (\<lambda>digest.
         if prs_scope_digest source \<noteq> digest then Inl ''assessment scope mismatch''
         else case assessment_kind_of op of
             None \<Rightarrow> Inl ''operation is not model-proposable''
           | Some kind \<Rightarrow>
               if kind |\<notin>| as_allowed_kinds scope then Inl ''operation kind lacks owner scope''
               else rbind (channel_expectation p scope source proofs op no_expectation)
                 (\<lambda>e. rbind (category_expectation p source proofs op e)
                   (operation_expectation p source proofs op))))"

section \<open>A batch of drafts\<close>

definition source_limits ::
  "'b digests \<Rightarrow> ops_policy \<Rightarrow> assessment_scope \<Rightarrow> assessment_source \<Rightarrow> model_batch \<Rightarrow> refusal + unit" where
  "source_limits E p scope source batch =
     (if pol_mode p = OpsStopped \<or> \<not> as_enabled scope \<or> mb_version batch \<noteq> 1 \<or> 5 < length (mb_proposals batch)
         \<or> src_version source \<noteq> 1 \<or> src_guild source \<noteq> pol_guild p
      then Inl ''invalid or stopped assessment source''
      else rbind (scope_digest E p scope) (\<lambda>digest.
        if src_scope_digest source \<noteq> digest \<or> 100 < length (src_channels source)
           \<or> 20 < length (src_categories source) \<or> 50 < length (src_roles source)
        then Inl ''invalid or stopped assessment source''
        else rbind (ok_or (en_source_len E source) ''source encoding failed'') (\<lambda>len.
          ensure ''invalid or stopped assessment source'' (len \<le> max_source_bytes))))"

definition source_proved ::
  "ops_policy \<Rightarrow> assessment_scope \<Rightarrow> assessment_source \<Rightarrow> public_proofs \<Rightarrow> refusal + unit" where
  "source_proved p scope source proofs = first_failure
     [(''source inventory incomplete or duplicated'',
         fset_of_list (map chm_id (src_channels source)) = as_source_channels scope
         \<and> distinct (map chm_id (src_channels source)) \<and> distinct (map nm_id (src_categories source))
         \<and> distinct (map nm_id (src_roles source))),
      (''source public proof mismatch'',
         list_all (\<lambda>c. is_some_and (fmlookup (pub_channels proofs) (chm_id c))
           (\<lambda>q. chp_public q \<and> chp_metadata q = c)) (src_channels source)),
      (''category source mismatch'',
         list_all (\<lambda>c. nm_id c |\<in>| pol_public_categories p \<and> fmlookup (pub_categories proofs) (nm_id c) \<noteq> None)
           (src_categories source)),
      (''role source mismatch'',
         list_all (\<lambda>r. nm_id r |\<in>| pol_ordinary_roles p \<and> is_some_and (fmlookup (pub_roles proofs) (nm_id r))
           (\<lambda>q. rp_metadata q = r \<and> rp_permissions q = 0 \<and> rp_entitlement_free q)) (src_roles source))]"

definition source_reference :: "assessment_source \<Rightarrow> proposal_source" where
  "source_reference source =
     \<lparr>prs_assessment_id = src_assessment_id source, prs_captured_at = src_captured_at source,
      prs_inventory_digest = src_inventory_digest source, prs_scope_digest = src_scope_digest source,
      prs_policy_digest = src_policy_digest source,
      prs_channel_ids = fset_of_list (map chm_id (src_channels source)),
      prs_category_ids = fset_of_list (map nm_id (src_categories source)),
      prs_role_ids = fset_of_list (map nm_id (src_roles source)),
      prs_locality = SameHost, prs_request_class = TextReadOnly\<rparr>"

definition new_pending ::
  "ops_policy \<Rightarrow> proposal_source \<Rightarrow> rstr \<Rightarrow> model_proposal \<Rightarrow> expected_access \<Rightarrow> u64 \<Rightarrow> pending_proposal" where
  "new_pending p source i draft expected now =
     \<lparr>pp_id = i, pp_revision = 1, pp_hash = [], pp_guild = pol_guild p, pp_policy_owner = pol_owner p,
      pp_created_at = now, pp_expires_at = saturating_add now proposal_ttl, pp_draft = draft,
      pp_source = source, pp_expected_access = expected, pp_status = PrPending, pp_decision = None\<rparr>"

definition shadow_receipt :: "ops_action \<Rightarrow> rstr \<Rightarrow> u64 \<Rightarrow> ops_receipt" where
  "shadow_receipt a digest now =
     \<lparr>rcp_action = a, rcp_policy_digest = digest, rcp_at = now, rcp_status = StReserved,
      rcp_before = lit ''null'', rcp_observed = None, rcp_detail = ''validation only; not authority''\<rparr>"

definition admit_draft ::
  "'b digests \<Rightarrow> ops_policy \<Rightarrow> assessment_scope \<Rightarrow> proposal_source \<Rightarrow> public_proofs \<Rightarrow> u64
     \<Rightarrow> rstr fset \<Rightarrow> ops_ledger \<Rightarrow> model_proposal \<Rightarrow> refusal + pending_proposal" where
  "admit_draft E p scope source proofs now targets shadow draft =
     (if trim (mpr_reason draft) = [] \<or> 512 < byte_len (mpr_reason draft)
         \<or> op_target_key (mpr_operation draft) |\<in>| targets
      then Inl ''invalid or conflicting proposal''
      else rbind (access_expected E p scope source proofs (mpr_operation draft) now) (\<lambda>expected.
        rbind (digest_of (en_draft E) (pol_guild p, source, draft)) (\<lambda>i.
        rbind (reviewed_hash E (new_pending p source i draft expected now)) (\<lambda>hash.
        let q = (new_pending p source i draft expected now)\<lparr>pp_hash := hash\<rparr>; a = proposal_action q in
        rbind (validate_pending E q) (\<lambda>_.
        rbind (authorize_action shadow (p\<lparr>pol_mode := OpsApply, pol_actions := pol_actions p @ [a]\<rparr>) a now)
          (\<lambda>_. Inr q))))))"

fun admit_drafts ::
  "'b digests \<Rightarrow> ops_policy \<Rightarrow> assessment_scope \<Rightarrow> proposal_source \<Rightarrow> public_proofs \<Rightarrow> u64
     \<Rightarrow> rstr fset \<Rightarrow> ops_ledger \<Rightarrow> model_proposal list \<Rightarrow> refusal + pending_proposal list" where
  "admit_drafts E p scope source proofs now targets shadow [] = Inr []"
| "admit_drafts E p scope source proofs now targets shadow (draft # drafts) =
     rbind (admit_draft E p scope source proofs now targets shadow draft) (\<lambda>q.
       rbind (admit_drafts E p scope source proofs now (finsert (op_target_key (mpr_operation draft)) targets)
           (with_receipt (shadow_receipt (proposal_action q) (prs_policy_digest source) now) shadow) drafts)
         (\<lambda>rest. Inr (q # rest)))"

definition validate_drafts ::
  "'b digests \<Rightarrow> ops_policy \<Rightarrow> assessment_scope \<Rightarrow> assessment_source \<Rightarrow> public_proofs
     \<Rightarrow> ops_ledger \<Rightarrow> proposal_store \<Rightarrow> u64 \<Rightarrow> model_batch \<Rightarrow> refusal + pending_proposal list" where
  "validate_drafts E p scope source proofs execution pending now batch =
     rbind (validate_policy p) (\<lambda>_.
     rbind (validate_store E pending) (\<lambda>_.
     rbind (fresh_proof (src_captured_at source) now) (\<lambda>_.
     rbind (source_limits E p scope source batch) (\<lambda>_.
     rbind (source_proved p scope source proofs) (\<lambda>_.
     rbind (digest_of (en_inventory E) (src_channels source, src_categories source, src_roles source)) (\<lambda>inventory.
     if src_inventory_digest source \<noteq> inventory then Inl ''inventory digest mismatch''
     else rbind (admit_drafts E p scope (source_reference source) proofs now
           (active_targets pending |\<union>| active_inventory_targets p execution) execution (mb_proposals batch)) (\<lambda>result.
       if max_pending_proposals < fm_len (prst_proposals pending) + length result
       then Inl ''pending store is full'' else Inr result)))))))"

section \<open>The proofs of an approval\<close>

record owner_proof =
  op_guild :: u64
  op_owner :: u64
  op_actor :: u64
  op_origin :: u64
  op_checked_at :: u64

definition owner_verified :: "u64 \<Rightarrow> u64 \<Rightarrow> u64 \<Rightarrow> u64 \<Rightarrow> u64 \<Rightarrow> refusal + owner_proof" where
  "owner_verified guild owner actor origin checked_at =
     (if guild = 0 \<or> owner = 0 \<or> actor \<noteq> owner \<or> origin = 0 then Inl ''owner proof denied''
      else Inr \<lparr>op_guild = guild, op_owner = owner, op_actor = actor, op_origin = origin, op_checked_at = checked_at\<rparr>)"

definition owner_check :: "owner_proof \<Rightarrow> ops_policy \<Rightarrow> assessment_scope \<Rightarrow> u64 \<Rightarrow> refusal + u64" where
  "owner_check o' p scope now =
     rbind (fresh_proof (op_checked_at o') now) (\<lambda>_.
       if op_guild o' \<noteq> pol_guild p \<or> op_owner o' \<noteq> pol_owner p \<or> op_actor o' \<noteq> pol_owner p
          \<or> is_some_and (as_review_channel scope) (\<lambda>c. c \<noteq> op_origin o')
       then Inl ''owner scope denied'' else Inr (op_actor o'))"

record operation_proof =
  opp_reviewed_hash :: rstr
  opp_expected :: expected_access
  opp_checked_at :: u64

definition operation_verified ::
  "'b digests \<Rightarrow> ops_policy \<Rightarrow> assessment_scope \<Rightarrow> pending_proposal \<Rightarrow> public_proofs \<Rightarrow> u64
     \<Rightarrow> refusal + operation_proof" where
  "operation_verified E p scope q proofs now =
     rbind (validate_pending E q) (\<lambda>_.
     rbind (access_expected E p scope (pp_source q) proofs (mpr_operation (pp_draft q)) now) (\<lambda>expected.
       if expected \<noteq> pp_expected_access q then Inl ''expected access drift''
       else Inr \<lparr>opp_reviewed_hash = pp_hash q, opp_expected = expected, opp_checked_at = pub_checked_at proofs\<rparr>))"

definition operation_proof_check :: "operation_proof \<Rightarrow> pending_proposal \<Rightarrow> u64 \<Rightarrow> refusal + unit" where
  "operation_proof_check o' q now =
     rbind (fresh_proof (opp_checked_at o') now) (\<lambda>_.
       ensure ''operation proof mismatch''
         (\<not> (opp_reviewed_hash o' \<noteq> pp_hash q \<or> opp_expected o' \<noteq> pp_expected_access q)))"

end
