(* ===== verification/Community_Store.thy ===== *)
theory Community_Store
  imports Community_Drafts
begin

text \<open>
  The files of community operations (\<open>src/persist/community_proposals.rs\<close> and
  \<open>src/persist/community_ops.rs\<close>): the owner's policy, the pending proposals, the receipts
  and the execution lease, with every transaction on them: reading and saving, changing the
  mode, the inspection of pending proposals, reserving and settling an assessment, approval
  with its publication, reconciliation and rejection.

  A transaction holds its lock files for its whole duration, so it is one step. What happens to
  it from outside is its environment: whether the locks were free, its clock readings, the
  outcome of each publication, and an edit of the policy file by its owner, who is not bound by
  the locks, between two readings. The policy file is bytes (\<open>'b\<close>); the two other files are
  their decoded content. Paths, permissions of files and the size limits are part of the
  outcome of a publication.
\<close>

text \<open>A file is written to a temporary name, synced, renamed, and then confirmed.\<close>

datatype file_write = FileWritten | FileKept | FileUnconfirmed

fun write_result_of :: "refusal \<Rightarrow> refusal \<Rightarrow> file_write \<Rightarrow> refusal + unit" where
  "write_result_of kept unconfirmed FileWritten = Inr ()"
| "write_result_of kept unconfirmed FileKept = Inl kept"
| "write_result_of kept unconfirmed FileUnconfirmed = Inl unconfirmed"

fun after_write :: "file_write \<Rightarrow> 'f \<Rightarrow> 'f \<Rightarrow> 'f" where
  "after_write FileKept old new = old"
| "after_write _ old new = new"

record 'b community =
  com_policy :: "'b option"
  com_store :: "proposal_store option"
  com_receipts :: "ops_ledger option"
  com_lease :: bool

section \<open>Reading and saving\<close>

definition parse_policy :: "'b digests \<Rightarrow> 'b option \<Rightarrow> refusal + ops_policy \<times> rstr" where
  "parse_policy E file =
     rbind (ok_or file ''policy read failed'') (\<lambda>bytes.
     rbind (ok_or (en_parse E bytes) ''invalid operations policy'') (\<lambda>p.
     rbind (validate_policy p) (\<lambda>_. Inr (p, en_hash E bytes))))"

definition load_policy :: "'b digests \<Rightarrow> ('b, 'm) community_scheme \<Rightarrow> refusal + ops_policy \<times> rstr" where
  "load_policy E c = parse_policy E (com_policy c)"

definition load_store :: "'b digests \<Rightarrow> ('b, 'm) community_scheme \<Rightarrow> refusal + proposal_store" where
  "load_store E c =
     (case com_store c of
        None \<Rightarrow> Inr new_proposal_store
      | Some s \<Rightarrow> rbind (validate_store E s) (\<lambda>_. Inr s))"

definition load_receipts :: "('b, 'm) community_scheme \<Rightarrow> ops_ledger" where
  "load_receipts c = (case com_receipts c of None \<Rightarrow> new_ops_ledger | Some l \<Rightarrow> l)"

definition save_store ::
  "'b digests \<Rightarrow> file_write \<Rightarrow> proposal_store \<Rightarrow> ('b, 'm) community_scheme
     \<Rightarrow> (refusal + proposal_store) \<times> ('b, 'm) community_scheme" where
  "save_store E w s c =
     (case checked_add (prst_revision s) 1 of
        None \<Rightarrow> (Inl ''proposal revision exhausted'', c)
      | Some revision \<Rightarrow>
          (let s' = s\<lparr>prst_revision := revision\<rparr> in
           case validate_store E s' of
             Inl e \<Rightarrow> (Inl e, c)
           | Inr _ \<Rightarrow>
               (rbind (write_result_of ''proposal write failed'' ''proposal directory sync failed'' w) (\<lambda>_. Inr s'),
                c\<lparr>com_store := after_write w (com_store c) (Some s')\<rparr>)))"

definition save_receipts ::
  "file_write \<Rightarrow> ops_ledger \<Rightarrow> ('b, 'm) community_scheme \<Rightarrow> (refusal + unit) \<times> ('b, 'm) community_scheme" where
  "save_receipts w l c =
     (write_result_of ''ledger write failed'' ''ledger directory sync failed'' w,
      c\<lparr>com_receipts := after_write w (com_receipts c) (Some l)\<rparr>)"

text \<open>An edit by the owner: \<open>None\<close> is no edit.\<close>

definition owner_edits :: "'b option option \<Rightarrow> ('b, 'm) community_scheme \<Rightarrow> ('b, 'm) community_scheme" where
  "owner_edits edit c = (case edit of None \<Rightarrow> c | Some file \<Rightarrow> c\<lparr>com_policy := file\<rparr>)"

section \<open>Changing the mode\<close>

record 'b publication_env =
  pe_locked :: bool
  pe_edit :: "'b option option"
  pe_write :: file_write

definition set_ops_mode ::
  "'b digests \<Rightarrow> 'b publication_env \<Rightarrow> rstr \<Rightarrow> u64 \<Rightarrow> u64 \<Rightarrow> ops_mode \<Rightarrow> ('b, 'm) community_scheme
     \<Rightarrow> (refusal + unit) \<times> ('b, 'm) community_scheme" where
  "set_ops_mode E env expected guild owner mode c =
     (if pe_locked env then (Inl ''policy control lease held'', c)
      else case load_policy E c of
          Inl e \<Rightarrow> (Inl e, c)
        | Inr (p, digest) \<Rightarrow>
            if digest \<noteq> expected \<or> pol_guild p \<noteq> guild \<or> pol_owner p \<noteq> owner
            then (Inl ''policy changed or owner scope mismatched; refresh dashboard'', c)
            else
              let p' = p\<lparr>pol_mode := mode\<rparr> in
              case validate_policy p' of
                Inl e \<Rightarrow> (Inl e, c)
              | Inr _ \<Rightarrow> (case en_policy E p' of
                    None \<Rightarrow> (Inl ''policy encode failed'', c)
                  | Some bytes \<Rightarrow>
                      (let c1 = owner_edits (pe_edit env) c in
                       case load_policy E c1 of
                         Inl e \<Rightarrow> (Inl e, c1)
                       | Inr (_, seen) \<Rightarrow>
                           if seen \<noteq> expected then (Inl ''policy changed during publication; owner review required'', c1)
                           else
                             let c2 = c1\<lparr>com_policy := after_write (pe_write env) (com_policy c1) (Some bytes)\<rparr> in
                             case write_result_of ''policy publication failed'' ''policy directory sync failed'' (pe_write env) of
                               Inl e \<Rightarrow> (Inl e, c2)
                             | Inr _ \<Rightarrow> (case load_policy E c2 of
                                   Inl e \<Rightarrow> (Inl e, c2)
                                 | Inr (observed, _) \<Rightarrow>
                                     if observed \<noteq> p' then (Inl ''policy readback mismatch'', c2) else (Inr (), c2)))))"

section \<open>Inspection\<close>

definition turns_stale :: "ops_policy \<Rightarrow> rstr \<Rightarrow> u64 \<Rightarrow> pending_proposal \<Rightarrow> bool" where
  "turns_stale p immutable now q \<longleftrightarrow> pp_status q = PrPending
     \<and> (pp_guild q \<noteq> pol_guild p \<or> pp_policy_owner q \<noteq> pol_owner p \<or> now < pp_created_at q
        \<or> pp_expires_at q \<le> now \<or> prs_scope_digest (pp_source q) \<noteq> immutable)"

definition bump_status :: "proposal_status \<Rightarrow> pending_proposal \<Rightarrow> refusal + pending_proposal" where
  "bump_status st q =
     rbind (ok_or (checked_add (pp_revision q) 1) ''proposal revision exhausted'')
       (\<lambda>revision. Inr (q\<lparr>pp_status := st, pp_revision := revision\<rparr>))"

fun stale_each ::
  "ops_policy \<Rightarrow> rstr \<Rightarrow> u64 \<Rightarrow> (rstr \<times> pending_proposal) list \<Rightarrow> (rstr, pending_proposal) fmap
     \<Rightarrow> refusal + (rstr, pending_proposal) fmap" where
  "stale_each p immutable now [] m = Inr m"
| "stale_each p immutable now ((i, q) # rest) m =
     (if turns_stale p immutable now q
      then rbind (bump_status PrStale q) (\<lambda>q'. stale_each p immutable now rest (fmupd i q' m))
      else stale_each p immutable now rest m)"

definition inspect_pending ::
  "'b digests \<Rightarrow> bool \<Rightarrow> file_write \<Rightarrow> ops_policy \<Rightarrow> u64 \<Rightarrow> ('b, 'm) community_scheme
     \<Rightarrow> (refusal + proposal_store) \<times> ('b, 'm) community_scheme" where
  "inspect_pending E locked w p now c =
     (case rbind (validate_policy p) (\<lambda>_. scope_digest E p (pol_assessment p)) of
        Inl e \<Rightarrow> (Inl e, c)
      | Inr immutable \<Rightarrow>
          if locked then (Inl ''proposal lease or pending file requires review'', c)
          else case load_store E c of
              Inl e \<Rightarrow> (Inl e, c)
            | Inr s \<Rightarrow> (case stale_each p immutable now (stored_proposals s) (prst_proposals s) of
                  Inl e \<Rightarrow> (Inl e, c)
                | Inr m \<Rightarrow>
                    if fm_any (\<lambda>_. turns_stale p immutable now) (prst_proposals s)
                    then save_store E w (s\<lparr>prst_proposals := m\<rparr>) c
                    else (Inr s, c)))"

section \<open>Assessments\<close>

record assessment_reservation =
  ar_id :: rstr
  ar_guild :: u64
  ar_owner :: u64
  ar_scope_digest :: rstr
  ar_policy_digest :: rstr

definition abandon_attempt :: "u64 \<Rightarrow> assessment_attempt \<Rightarrow> assessment_attempt" where
  "abandon_attempt now a =
     (if aa_outcome a = OutStarted
      then a\<lparr>aa_outcome := OutAssessmentCancelled, aa_finished_at := Some (max now (aa_started_at a))\<rparr> else a)"

definition started_attempt :: "rstr \<Rightarrow> rstr \<Rightarrow> u64 \<Rightarrow> assessment_attempt" where
  "started_attempt i digest now =
     \<lparr>aa_id = i, aa_started_at = now, aa_finished_at = None, aa_source_digest = None,
      aa_policy_digest = digest, aa_outcome = OutStarted\<rparr>"

definition attempts_with :: "assessment_attempt \<Rightarrow> u64 \<Rightarrow> assessment_attempt list \<Rightarrow> assessment_attempt list" where
  "attempts_with a now attempts =
     (let old = map (abandon_attempt now) attempts in
      (if length old = 100 then tl old else old) @ [a])"

definition begin_assessment ::
  "'b digests \<Rightarrow> bool \<Rightarrow> file_write \<Rightarrow> ops_policy \<Rightarrow> assessment_scope \<Rightarrow> rstr \<Rightarrow> u64 \<Rightarrow> ('b, 'm) community_scheme
     \<Rightarrow> (refusal + assessment_reservation) \<times> ('b, 'm) community_scheme" where
  "begin_assessment E locked w p scope digest now c =
     (case validate_policy p of
        Inl e \<Rightarrow> (Inl e, c)
      | Inr _ \<Rightarrow>
          if pol_mode p = OpsStopped \<or> \<not> as_enabled scope \<or> as_source_channels scope = {||}
          then (Inl ''assessment is disabled or stopped'', c)
          else if locked then (Inl ''proposal lease or pending file requires review'', c)
          else case load_store E c of
              Inl e \<Rightarrow> (Inl e, c)
            | Inr s \<Rightarrow>
                if is_some_and (prst_last_attempt_at s) (\<lambda>last. now < last \<or> now - last < 86400)
                then (Inl ''assessment already charged or clock regressed'', c)
                else if max_pending_proposals \<le> fm_len (prst_proposals s) then (Inl ''pending store is full'', c)
                else case digest_of (en_attempt E) (pol_guild p, now, digest) of
                    Inl e \<Rightarrow> (Inl e, c)
                  | Inr i \<Rightarrow>
                      (case save_store E w (s\<lparr>prst_attempts := attempts_with (started_attempt i digest now) now (prst_attempts s),
                              prst_last_attempt_at := Some now\<rparr>) c of
                         (Inl e, c') \<Rightarrow> (Inl e, c')
                       | (Inr _, c') \<Rightarrow>
                           (rbind (scope_digest E p scope) (\<lambda>immutable.
                              Inr \<lparr>ar_id = i, ar_guild = pol_guild p, ar_owner = pol_owner p,
                                   ar_scope_digest = immutable, ar_policy_digest = digest\<rparr>), c')))"

definition harmless_outcome :: "assessment_outcome \<Rightarrow> bool" where
  "harmless_outcome o' \<longleftrightarrow> o' \<in> {OutAssessmentCancelled, OutLocalUnavailable, OutSourceIncomplete, OutInvalidOutput, OutPersistenceReview}"

definition settlement_allowed ::
  "'b digests \<Rightarrow> assessment_reservation \<Rightarrow> ops_policy \<Rightarrow> rstr \<Rightarrow> pending_proposal list \<Rightarrow> assessment_outcome
     \<Rightarrow> refusal + unit" where
  "settlement_allowed E r p current proposals outcome =
     rbind
       (if pol_guild p \<noteq> ar_guild r \<or> pol_owner p \<noteq> ar_owner r then Inl ''assessment policy changed''
        else if proposals = [] \<and> harmless_outcome outcome then Inr ()
        else if pol_mode p = OpsStopped then Inl ''assessment policy changed''
        else rbind (scope_digest E p (pol_assessment p)) (\<lambda>immutable.
          ensure ''assessment policy changed'' (immutable = ar_scope_digest r \<and> current = ar_policy_digest r)))
       (\<lambda>_. ensure ''invalid assessment settlement''
         (\<not> (outcome = OutStarted \<or> (proposals = []) = (outcome = OutPendingPublished))))"

fun publishable ::
  "'b digests \<Rightarrow> assessment_reservation \<Rightarrow> ops_policy \<Rightarrow> assessment_attempt \<Rightarrow> u64 \<Rightarrow> proposal_store \<Rightarrow> rstr fset
     \<Rightarrow> pending_proposal list \<Rightarrow> refusal + unit" where
  "publishable E r p a now s targets [] = Inr ()"
| "publishable E r p a now s targets (q # rest) =
     rbind (validate_pending E q) (\<lambda>_.
       if pp_guild q \<noteq> pol_guild p \<or> pp_policy_owner q \<noteq> pol_owner p \<or> pp_status q \<noteq> PrPending
          \<or> pp_decision q \<noteq> None \<or> prs_assessment_id (pp_source q) \<noteq> ar_id r
          \<or> prs_scope_digest (pp_source q) \<noteq> ar_scope_digest r \<or> prs_policy_digest (pp_source q) \<noteq> ar_policy_digest r
          \<or> pp_created_at q < aa_started_at a \<or> now < pp_created_at q
          \<or> fmlookup (prst_proposals s) (pp_id q) \<noteq> None
          \<or> op_target_key (mpr_operation (pp_draft q)) |\<in>| targets
       then Inl ''pending publication identity or conflict drift''
       else publishable E r p a now s (finsert (op_target_key (mpr_operation (pp_draft q))) targets) rest)"

definition settled_attempts ::
  "rstr \<Rightarrow> u64 \<Rightarrow> pending_proposal list \<Rightarrow> assessment_outcome \<Rightarrow> assessment_attempt list \<Rightarrow> assessment_attempt list" where
  "settled_attempts i now proposals outcome attempts =
     (case position (\<lambda>a. aa_id a = i) attempts of
        None \<Rightarrow> attempts
      | Some n \<Rightarrow> attempts[n := (attempts ! n)\<lparr>aa_finished_at := Some now, aa_outcome := outcome,
          aa_source_digest := (case proposals of [] \<Rightarrow> None | q # _ \<Rightarrow> Some (prs_inventory_digest (pp_source q)))\<rparr>])"

definition insert_proposals ::
  "pending_proposal list \<Rightarrow> (rstr, pending_proposal) fmap \<Rightarrow> (rstr, pending_proposal) fmap" where
  "insert_proposals proposals m = fold (\<lambda>q. fmupd (pp_id q) q) proposals m"

definition finish_assessment ::
  "'b digests \<Rightarrow> bool \<Rightarrow> file_write \<Rightarrow> assessment_reservation \<Rightarrow> ops_policy \<Rightarrow> rstr \<Rightarrow> pending_proposal list
     \<Rightarrow> assessment_outcome \<Rightarrow> u64 \<Rightarrow> ('b, 'm) community_scheme \<Rightarrow> (refusal + unit) \<times> ('b, 'm) community_scheme" where
  "finish_assessment E locked w r p current proposals outcome now c =
     (case settlement_allowed E r p current proposals outcome of
        Inl e \<Rightarrow> (Inl e, c)
      | Inr _ \<Rightarrow>
          if locked then (Inl ''proposal lease or pending file requires review'', c)
          else case load_store E c of
              Inl e \<Rightarrow> (Inl e, c)
            | Inr s \<Rightarrow> (case find (\<lambda>a. aa_id a = ar_id r) (prst_attempts s) of
                  None \<Rightarrow> (Inl ''assessment reservation missing'', c)
                | Some a \<Rightarrow>
                    if aa_outcome a \<noteq> OutStarted \<or> now < aa_started_at a
                    then (Inl ''assessment already settled or clock regressed'', c)
                    else if max_pending_proposals < fm_len (prst_proposals s) + length proposals
                    then (Inl ''pending store is full'', c)
                    else case publishable E r p a now s (active_targets s) proposals of
                        Inl e \<Rightarrow> (Inl e, c)
                      | Inr _ \<Rightarrow>
                          (case save_store E w (s\<lparr>prst_proposals := insert_proposals proposals (prst_proposals s),
                                  prst_attempts := settled_attempts (ar_id r) now proposals outcome (prst_attempts s)\<rparr>) c of
                             (Inl e, c') \<Rightarrow> (Inl e, c')
                           | (Inr _, c') \<Rightarrow> (Inr (), c'))))"

end
