(* ===== verification/Community_Approval.thy ===== *)
theory Community_Approval
  imports Community_Store
begin

text \<open>
  The owner's decision on a pending proposal (\<open>src/persist/community_proposals.rs\<close>): approval
  in two saves around the publication of the policy with the one action added, reconciliation
  of approvals whose publication is uncertain, and rejection. Approval and rejection read the
  clock more than once; the readings are in their environment.
\<close>

section \<open>Approval\<close>

record approval_request =
  arq_scope :: assessment_scope
  arq_policy_digest :: rstr
  arq_store_revision :: u64
  arq_proposal_id :: rstr
  arq_reviewed_hash :: rstr
  arq_owner :: owner_proof
  arq_operation :: operation_proof

record 'b approval_env =
  ae_locked :: bool
  ae_now1 :: u64
  ae_now2 :: u64
  ae_now3 :: u64
  ae_save1 :: file_write
  ae_edit :: "'b option option"
  ae_publish :: file_write
  ae_save2 :: file_write

definition check_pending ::
  "'b digests \<Rightarrow> pending_proposal \<Rightarrow> ops_policy \<Rightarrow> assessment_scope \<Rightarrow> rstr \<Rightarrow> u64 \<Rightarrow> refusal + unit" where
  "check_pending E q p scope hash now =
     rbind (validate_pending E q) (\<lambda>_.
       if pp_status q \<noteq> PrPending \<or> pp_hash q \<noteq> hash \<or> pp_guild q \<noteq> pol_guild p
          \<or> pp_policy_owner q \<noteq> pol_owner p \<or> now < pp_created_at q \<or> pp_expires_at q \<le> now
       then Inl ''pending proposal is stale or not approveable''
       else rbind (scope_digest E p scope) (\<lambda>digest.
         ensure ''pending proposal is stale or not approveable'' (prs_scope_digest (pp_source q) = digest)))"

definition with_action :: "ops_action \<Rightarrow> ops_policy \<Rightarrow> ops_policy" where
  "with_action a p = p\<lparr>pol_actions := pol_actions p @ [a]\<rparr>"

definition approval_eligible ::
  "'b digests \<Rightarrow> approval_request \<Rightarrow> u64 \<Rightarrow> ops_policy \<Rightarrow> ops_ledger \<Rightarrow> pending_proposal \<Rightarrow> refusal + unit" where
  "approval_eligible E req now p l q =
     rbind (check_pending E q p (arq_scope req) (arq_reviewed_hash req) now) (\<lambda>_.
     rbind (operation_proof_check (arq_operation req) q now) (\<lambda>_.
     let a = proposal_action q in
     if list_ex (\<lambda>b. oa_key b = oa_key a) (pol_actions p)
        \<or> op_target_key (oa_operation a) |\<in>| active_inventory_targets p l
     then Inl ''approval conflicts with existing inventory''
     else authorize_action l (with_action a (p\<lparr>pol_mode := OpsApply\<rparr>)) a now))"

definition planned_policy ::
  "'b digests \<Rightarrow> approval_request \<Rightarrow> ops_policy \<Rightarrow> ops_action \<Rightarrow> refusal + rstr \<times> ops_policy \<times> 'b" where
  "planned_policy E req p a =
     rbind (scope_digest E p (arq_scope req)) (\<lambda>immutable.
     let p' = with_action a p in
     rbind (validate_policy p') (\<lambda>_.
     rbind (scope_digest E p' (arq_scope req)) (\<lambda>widened.
       if widened \<noteq> immutable then Inl ''approval widened owner scope''
       else rbind (ok_or (en_policy E p') ''approval policy encoding failed'') (\<lambda>bytes.
         Inr (immutable, p', bytes)))))"

definition prepared_decision ::
  "u64 \<Rightarrow> u64 \<Rightarrow> rstr \<Rightarrow> rstr \<Rightarrow> rstr \<Rightarrow> pending_proposal \<Rightarrow> owner_decision" where
  "prepared_decision actor now immutable digest planned q =
     \<lparr>od_actor = actor, od_decided_at = now, od_reviewed_hash = pp_hash q, od_previous_policy_digest = digest,
      od_published_policy_digest = None, od_approved_action_key = Some (oa_key (proposal_action q)),
      od_journal = Some \<lparr>aj_action = proposal_action q, aj_reviewed_hash = pp_hash q, aj_scope_digest = immutable,
        aj_previous_policy_digest = digest, aj_planned_policy_digest = planned, aj_stage = StagePrepared\<rparr>,
      od_recovery_audit = None\<rparr>"

definition put_proposal :: "rstr \<Rightarrow> pending_proposal \<Rightarrow> proposal_store \<Rightarrow> proposal_store" where
  "put_proposal i q s = s\<lparr>prst_proposals := fmupd i q (prst_proposals s)\<rparr>"

definition mark_review :: "rstr \<Rightarrow> proposal_store \<Rightarrow> refusal + proposal_store" where
  "mark_review i s =
     rbind (ok_or (fmlookup (prst_proposals s) i) ''proposal unavailable'') (\<lambda>q.
     rbind (bump_status PrReviewRequired q) (\<lambda>q'.
     case pp_decision q' of
       None \<Rightarrow> Inl ''approval journal missing''
     | Some d \<Rightarrow> (case od_journal d of
           None \<Rightarrow> Inl ''approval journal missing''
         | Some j \<Rightarrow> Inr (put_proposal i (q'\<lparr>pp_decision :=
             Some (d\<lparr>od_journal := Some (j\<lparr>aj_stage := StageReconciliationRequired\<rparr>)\<rparr>)\<rparr>) s))))"

definition finalize_proposal :: "rstr \<Rightarrow> rstr \<Rightarrow> proposal_store \<Rightarrow> refusal + proposal_store" where
  "finalize_proposal i digest s =
     rbind (ok_or (fmlookup (prst_proposals s) i) ''proposal unavailable'') (\<lambda>q.
     rbind (bump_status PrApproved q) (\<lambda>q'.
     case pp_decision q' of
       None \<Rightarrow> Inl ''approval decision missing''
     | Some d \<Rightarrow> (case od_journal d of
           None \<Rightarrow> Inl ''approval journal missing''
         | Some j \<Rightarrow> Inr (put_proposal i (q'\<lparr>pp_decision := Some (d\<lparr>od_published_policy_digest := Some digest,
             od_journal := Some (j\<lparr>aj_stage := StageFinalized\<rparr>)\<rparr>)\<rparr>) s))))"

definition publish_approval ::
  "'b digests \<Rightarrow> approval_request \<Rightarrow> 'b approval_env \<Rightarrow> ops_policy \<Rightarrow> 'b \<Rightarrow> rstr \<Rightarrow> proposal_store
     \<Rightarrow> ('b, 'm) community_scheme \<Rightarrow> (refusal + unit) \<times> ('b, 'm) community_scheme" where
  "publish_approval E req env p' bytes current s c0 =
     (let c = owner_edits (ae_edit env) c0 in
      case rbind (owner_check (arq_owner req) p' (arq_scope req) (ae_now3 env)) (\<lambda>_.
          rbind (ok_or (fmlookup (prst_proposals s) (arq_proposal_id req)) ''proposal unavailable'') (\<lambda>q.
          if ae_now3 env < pp_created_at q \<or> pp_expires_at q \<le> ae_now3 env
          then Inl ''proposal expired during approval publication''
          else rbind (operation_proof_check (arq_operation req) q (ae_now3 env)) (\<lambda>_.
            rbind (load_policy E c) (\<lambda>(_, seen).
              ensure ''policy changed during approval publication'' (seen = current))))) of
        Inl e \<Rightarrow> (Inl e, c)
      | Inr _ \<Rightarrow>
          (let c1 = c\<lparr>com_policy := after_write (ae_publish env) (com_policy c) (Some bytes)\<rparr> in
           (rbind (write_result_of ''proposal write failed'' ''proposal directory sync failed'' (ae_publish env)) (\<lambda>_.
              rbind (load_policy E c1) (\<lambda>(observed, digest).
                ensure ''approved policy readback mismatch'' (observed = p' \<and> digest = en_hash E bytes))), c1)))"

definition approval_checked ::
  "'b digests \<Rightarrow> approval_request \<Rightarrow> 'b approval_env \<Rightarrow> ('b, 'm) community_scheme
     \<Rightarrow> refusal + ops_policy \<times> rstr \<times> proposal_store \<times> u64 \<times> pending_proposal" where
  "approval_checked E req env c =
     rbind (load_policy E c) (\<lambda>(p, current).
       if current \<noteq> arq_policy_digest req then Inl ''approval policy CAS failed''
       else rbind (load_store E c) (\<lambda>s.
         if prst_revision s \<noteq> arq_store_revision req then Inl ''approval store CAS failed''
         else rbind (owner_check (arq_owner req) p (arq_scope req) (ae_now1 env)) (\<lambda>actor.
           rbind (ok_or (fmlookup (prst_proposals s) (arq_proposal_id req)) ''proposal unavailable'') (\<lambda>q.
           rbind (approval_eligible E req (ae_now1 env) p (load_receipts c) q) (\<lambda>_.
             Inr (p, current, s, actor, q))))))"

definition approval_recorded ::
  "'b digests \<Rightarrow> approval_request \<Rightarrow> 'b approval_env \<Rightarrow> ops_policy \<Rightarrow> rstr \<Rightarrow> u64 \<Rightarrow> pending_proposal
     \<Rightarrow> refusal + ops_policy \<times> 'b \<times> pending_proposal" where
  "approval_recorded E req env p current actor q =
     rbind (planned_policy E req p (proposal_action q)) (\<lambda>(immutable, p', bytes).
     rbind (owner_check (arq_owner req) p' (arq_scope req) (ae_now2 env)) (\<lambda>_.
     rbind (operation_proof_check (arq_operation req) q (ae_now2 env)) (\<lambda>_.
     rbind (check_pending E q p' (arq_scope req) (arq_reviewed_hash req) (ae_now2 env)) (\<lambda>_.
     rbind (bump_status PrApprovalPrepared q) (\<lambda>q'.
       Inr (p', bytes, q'\<lparr>pp_decision :=
         Some (prepared_decision actor (ae_now2 env) immutable current (en_hash E bytes) q)\<rparr>))))))"

definition approval_prepared ::
  "'b digests \<Rightarrow> approval_request \<Rightarrow> 'b approval_env \<Rightarrow> ('b, 'm) community_scheme
     \<Rightarrow> refusal + rstr \<times> ops_policy \<times> 'b \<times> pending_proposal \<times> pending_proposal \<times> proposal_store" where
  "approval_prepared E req env c =
     rbind (approval_checked E req env c) (\<lambda>(p, current, s, actor, q).
     rbind (approval_recorded E req env p current actor q) (\<lambda>(p', bytes, q').
       Inr (current, p', bytes, q, q', put_proposal (arq_proposal_id req) q' s)))"

definition approve ::
  "'b digests \<Rightarrow> approval_request \<Rightarrow> 'b approval_env \<Rightarrow> ('b, 'm) community_scheme
     \<Rightarrow> (refusal + ops_action) \<times> ('b, 'm) community_scheme" where
  "approve E req env c =
     (if ae_locked env then (Inl ''proposal lease or pending file requires review'', c)
      else if com_lease c then (Inl ''operations lease held; owner review required after crash'', c)
      else case approval_prepared E req env c of
          Inl e \<Rightarrow> (Inl e, c)
        | Inr (current, p', bytes, q, q', s1) \<Rightarrow>
            (case save_store E (ae_save1 env) s1 c of
               (Inl e, c1) \<Rightarrow> (Inl e, c1)
             | (Inr s2, c1) \<Rightarrow>
                 (case publish_approval E req env p' bytes current s2 c1 of
                    (Inl _, c2) \<Rightarrow>
                      (case mark_review (arq_proposal_id req) s2 of
                         Inl e \<Rightarrow> (Inl e, c2)
                       | Inr s3 \<Rightarrow>
                           (case save_store E (ae_save2 env) s3 c2 of
                              (Inl e, c3) \<Rightarrow> (Inl e, c3)
                            | (Inr _, c3) \<Rightarrow>
                                (Inl ''approval publication uncertain; owner reconciliation required'', c3)))
                  | (Inr _, c2) \<Rightarrow>
                      (case finalize_proposal (arq_proposal_id req) (en_hash E bytes) s2 of
                         Inl e \<Rightarrow> (Inl e, c2)
                       | Inr s3 \<Rightarrow>
                           (case save_store E (ae_save2 env) s3 c2 of
                              (Inl e, c3) \<Rightarrow> (Inl e, c3)
                            | (Inr _, c3) \<Rightarrow> (Inr (proposal_action q), c3))))))"

section \<open>Reconciliation\<close>

definition needs_reconciliation :: "pending_proposal \<Rightarrow> bool" where
  "needs_reconciliation q \<longleftrightarrow> pp_status q = PrApprovalPrepared \<or> pp_status q = PrReviewRequired"

definition published_exactly :: "ops_policy \<Rightarrow> rstr \<Rightarrow> pending_proposal \<Rightarrow> approval_journal \<Rightarrow> bool" where
  "published_exactly p immutable q j \<longleftrightarrow>
     pp_guild q = pol_guild p \<and> pp_policy_owner q = pol_owner p \<and> aj_scope_digest j = immutable
     \<and> length (filter (\<lambda>a. oa_key a = oa_key (aj_action j)) (pol_actions p)) = 1 \<and> aj_action j \<in> set (pol_actions p)"

fun reconcile_each ::
  "ops_policy \<Rightarrow> rstr \<Rightarrow> rstr \<Rightarrow> rstr list \<Rightarrow> proposal_store \<Rightarrow> bool \<Rightarrow> refusal + proposal_store \<times> bool" where
  "reconcile_each p digest immutable [] s unresolved = Inr (s, unresolved)"
| "reconcile_each p digest immutable (i # ids) s unresolved =
     rbind (ok_or (fmlookup (prst_proposals s) i) ''proposal unavailable'') (\<lambda>q.
     rbind (ok_or (Option.bind (pp_decision q) od_journal) ''approval journal missing'') (\<lambda>j.
       if published_exactly p immutable q j
       then rbind (finalize_proposal i digest s) (\<lambda>s'. reconcile_each p digest immutable ids s' unresolved)
       else rbind (mark_review i s) (\<lambda>s'. reconcile_each p digest immutable ids s' True)))"

definition reconcile_ids :: "proposal_store \<Rightarrow> rstr list" where
  "reconcile_ids s = map pp_id (filter needs_reconciliation (fm_values (prst_proposals s)))"

definition reconcile_approvals ::
  "'b digests \<Rightarrow> bool \<Rightarrow> file_write \<Rightarrow> assessment_scope \<Rightarrow> ('b, 'm) community_scheme
     \<Rightarrow> (refusal + unit) \<times> ('b, 'm) community_scheme" where
  "reconcile_approvals E locked w scope c =
     (if locked then (Inl ''proposal lease or pending file requires review'', c)
      else case rbind (load_store E c) (\<lambda>s. rbind (load_policy E c) (\<lambda>(p, digest).
          rbind (scope_digest E p scope) (\<lambda>immutable.
          rbind (reconcile_each p digest immutable (reconcile_ids s) s False) (\<lambda>(s', unresolved).
            Inr (s, s', unresolved))))) of
        Inl e \<Rightarrow> (Inl e, c)
      | Inr (s, s', unresolved) \<Rightarrow>
          (case (if reconcile_ids s = [] then (Inr s', c) else save_store E w s' c) of
             (Inl e, c') \<Rightarrow> (Inl e, c')
           | (Inr _, c') \<Rightarrow>
               (ensure ''approval reconciliation requires owner review'' (\<not> unresolved), c')))"

section \<open>Rejection\<close>

definition rejected_decision :: "u64 \<Rightarrow> u64 \<Rightarrow> rstr \<Rightarrow> pending_proposal \<Rightarrow> owner_decision" where
  "rejected_decision actor now digest q =
     \<lparr>od_actor = actor, od_decided_at = now, od_reviewed_hash = pp_hash q, od_previous_policy_digest = digest,
      od_published_policy_digest = None, od_approved_action_key = None, od_journal = None, od_recovery_audit = None\<rparr>"

definition reject_prepared ::
  "'b digests \<Rightarrow> assessment_scope \<Rightarrow> rstr \<Rightarrow> u64 \<Rightarrow> rstr \<Rightarrow> rstr \<Rightarrow> owner_proof \<Rightarrow> u64 \<Rightarrow> u64
     \<Rightarrow> ('b, 'm) community_scheme \<Rightarrow> refusal + pending_proposal \<times> proposal_store" where
  "reject_prepared E scope policy_digest revision i hash o' now commit_now c =
     rbind (load_policy E c) (\<lambda>(p, digest).
       if digest \<noteq> policy_digest then Inl ''rejection policy CAS failed''
       else rbind (owner_check o' p scope now) (\<lambda>actor.
         rbind (load_store E c) (\<lambda>s.
           if prst_revision s \<noteq> revision then Inl ''rejection store CAS failed''
           else rbind (ok_or (fmlookup (prst_proposals s) i) ''proposal unavailable'') (\<lambda>q.
             rbind (check_pending E q p scope hash now) (\<lambda>_.
             rbind (owner_check o' p scope commit_now) (\<lambda>_.
             rbind (check_pending E q p scope hash commit_now) (\<lambda>_.
             rbind (bump_status PrRejected q) (\<lambda>q'.
               let q'' = q'\<lparr>pp_decision := Some (rejected_decision actor commit_now digest q)\<rparr> in
               Inr (q'', put_proposal i q'' s)))))))))"

definition reject ::
  "'b digests \<Rightarrow> bool \<Rightarrow> file_write \<Rightarrow> assessment_scope \<Rightarrow> rstr \<Rightarrow> u64 \<Rightarrow> rstr \<Rightarrow> rstr \<Rightarrow> owner_proof \<Rightarrow> u64 \<Rightarrow> u64
     \<Rightarrow> ('b, 'm) community_scheme \<Rightarrow> (refusal + unit) \<times> ('b, 'm) community_scheme" where
  "reject E locked w scope policy_digest revision i hash o' now commit_now c =
     (if locked then (Inl ''proposal lease or pending file requires review'', c)
      else case reject_prepared E scope policy_digest revision i hash o' now commit_now c of
          Inl e \<Rightarrow> (Inl e, c)
        | Inr (_, s) \<Rightarrow>
            (case save_store E w s c of
               (Inl e, c') \<Rightarrow> (Inl e, c')
             | (Inr _, c') \<Rightarrow> (Inr (), c')))"

end
