(* ===== verification/Community_Channels.thy ===== *)
theory Community_Channels
  imports Community_Policy
begin

text \<open>
  What maintenance reads of Discord before and after a plain operation (a topic, a move, a new
  text channel): the public boundary of a category and of a target, whether an action already
  holds, and whether a read-back shows exactly the action
  (\<open>src/gateway/community_ops.rs\<close>). A \<open>Permissions\<close> value is the set of its bits, and the
  role of everyone has the identity of the guild.
\<close>

type_synonym perm_bits = "nat fset"

definition view_bit :: nat where "view_bit = 10"

datatype overwrite_kind = OverRole u64 | OverMember u64

record channel_overwrite =
  co_kind :: overwrite_kind
  co_allow :: perm_bits
  co_deny :: perm_bits

datatype discord_kind = DkText | DkNews | DkForum | DkCategory | DkOther nat

record guild_channel =
  gch_id :: u64
  gch_guild :: u64
  gch_kind :: discord_kind
  gch_nsfw :: bool
  gch_name :: rstr
  gch_parent :: "u64 option"
  gch_topic :: "rstr option"
  gch_overwrites :: "channel_overwrite list"

type_synonym channel_map = "(u64, guild_channel) fmap"

text \<open>Equality of access compares the overwrites sorted by target.\<close>

fun kind_rank :: "overwrite_kind \<Rightarrow> nat \<times> nat" where
  "kind_rank (OverRole i) = (0, i)"
| "kind_rank (OverMember i) = (1, i)"

definition channel_access :: "guild_channel \<Rightarrow> bool \<times> channel_overwrite list" where
  "channel_access c = (gch_nsfw c, sort_key (\<lambda>o'. kind_rank (co_kind o')) (gch_overwrites c))"

fun everyone_permissions :: "u64 \<Rightarrow> channel_overwrite list \<Rightarrow> perm_bits \<Rightarrow> perm_bits" where
  "everyone_permissions guild [] permissions = permissions"
| "everyone_permissions guild (o' # rest) permissions =
     everyone_permissions guild rest
       (if co_kind o' = OverRole guild then (permissions |-| co_deny o') |\<union>| co_allow o' else permissions)"

definition denies_view_somewhere :: "guild_channel \<Rightarrow> bool" where
  "denies_view_somewhere c \<longleftrightarrow> list_ex (\<lambda>o'. view_bit |\<in>| co_deny o') (gch_overwrites c)"

definition everyone_sees :: "perm_bits \<Rightarrow> guild_channel \<Rightarrow> bool" where
  "everyone_sees everyone c \<longleftrightarrow> view_bit |\<in>| everyone_permissions (gch_guild c) (gch_overwrites c) everyone"

definition public_category :: "guild_channel \<Rightarrow> perm_bits \<Rightarrow> bool" where
  "public_category c everyone \<longleftrightarrow>
     gch_kind c = DkCategory \<and> \<not> gch_nsfw c \<and> \<not> denies_view_somewhere c \<and> everyone_sees everyone c"

definition matching_children :: "channel_map \<Rightarrow> u64 \<Rightarrow> rstr \<Rightarrow> guild_channel list" where
  "matching_children channels category name =
     filter (\<lambda>c. gch_parent c = Some category \<and> gch_name c = name) (fm_values channels)"

fun already_matches :: "ops_operation \<Rightarrow> channel_map \<Rightarrow> bool" where
  "already_matches (SetTopic channel topic) channels =
     is_some_and (fmlookup channels channel) (\<lambda>c. gch_topic c = Some topic)"
| "already_matches (MoveChannel channel category) channels =
     is_some_and (fmlookup channels channel) (\<lambda>c. gch_parent c = Some category)"
| "already_matches (CreateText category name topic) channels =
     (case matching_children channels category name of
        [c] \<Rightarrow> gch_kind c = DkText \<and> gch_topic c = Some topic
      | _ \<Rightarrow> False)"
| "already_matches _ channels = False"

fun observed_matches :: "ops_operation \<Rightarrow> guild_channel \<Rightarrow> bool" where
  "observed_matches (SetTopic channel topic) c \<longleftrightarrow> gch_id c = channel \<and> gch_topic c = Some topic"
| "observed_matches (MoveChannel channel category) c \<longleftrightarrow> gch_id c = channel \<and> gch_parent c = Some category"
| "observed_matches (CreateText category name topic) c \<longleftrightarrow>
     gch_kind c = DkText \<and> gch_name c = name \<and> gch_topic c = Some topic \<and> gch_parent c = Some category"
| "observed_matches _ c \<longleftrightarrow> False"

definition handled_elsewhere :: "ops_operation \<Rightarrow> bool" where
  "handled_elsewhere op =
     (case op of SetTopic _ _ \<Rightarrow> False | MoveChannel _ _ \<Rightarrow> False | CreateText _ _ _ \<Rightarrow> False | _ \<Rightarrow> True)"

section \<open>The boundary of a target\<close>

fun maintenance_target :: "ops_operation \<Rightarrow> channel_map \<Rightarrow> refusal + guild_channel" where
  "maintenance_target (SetTopic channel _) channels = ok_or (fmlookup channels channel) ''maintenance target unavailable''"
| "maintenance_target (MoveChannel channel _) channels = ok_or (fmlookup channels channel) ''maintenance target unavailable''"
| "maintenance_target (CreateText category _ _) channels = ok_or (fmlookup channels category) ''maintenance target unavailable''"
| "maintenance_target _ channels = Inl ''unsupported operation dispatch''"

definition topic_kind :: "discord_kind \<Rightarrow> bool" where
  "topic_kind k \<longleftrightarrow> k = DkText \<or> k = DkNews \<or> k = DkForum"

fun capability_check :: "ops_operation \<Rightarrow> guild_channel \<Rightarrow> channel_map \<Rightarrow> refusal + unit" where
  "capability_check (SetTopic _ _) c channels = ensure ''target has no topic capability'' (topic_kind (gch_kind c))"
| "capability_check (CreateText category name _) c channels =
     ensure ''creation name collides with an existing channel'' (matching_children channels category name = [])"
| "capability_check _ c channels = Inr ()"

fun destination_check :: "ops_operation \<Rightarrow> perm_bits \<Rightarrow> channel_map \<Rightarrow> refusal + unit" where
  "destination_check (MoveChannel _ category) everyone channels =
     ensure ''destination access cannot be proven public''
       (is_some_and (fmlookup channels category) (\<lambda>c. public_category c everyone))"
| "destination_check _ everyone channels = Inr ()"

definition boundary_check ::
  "ops_policy \<Rightarrow> perm_bits \<Rightarrow> channel_map \<Rightarrow> ops_operation \<Rightarrow> refusal + guild_channel" where
  "boundary_check p everyone channels op =
     rbind (maintenance_target op channels) (\<lambda>c.
     rbind (if gch_kind c = DkCategory then Inr (gch_id c)
            else ok_or (gch_parent c) ''target has no approved category'') (\<lambda>origin.
     rbind (ensure ''target channel has private access boundaries'' (\<not> denies_view_somewhere c)) (\<lambda>_.
     rbind (ensure ''target ordinary visibility cannot be proven'' (everyone_sees everyone c)) (\<lambda>_.
     rbind (capability_check op c channels) (\<lambda>_.
     rbind (ensure ''target crosses a private or sensitive boundary''
       (\<not> gch_nsfw c \<and> origin |\<in>| pol_public_categories p
        \<and> is_some_and (fmlookup channels origin) (\<lambda>c. public_category c everyone))) (\<lambda>_.
     rbind (destination_check op everyone channels) (\<lambda>_.
     rbind (ensure ''unsupported target kind'' (topic_kind (gch_kind c) \<or> gch_kind c = DkCategory)) (\<lambda>_.
       Inr c))))))))"

section \<open>The read-back\<close>

fun readback_channel :: "ops_operation \<Rightarrow> channel_map \<Rightarrow> guild_channel option" where
  "readback_channel (SetTopic channel _) channels = fmlookup channels channel"
| "readback_channel (MoveChannel channel _) channels = fmlookup channels channel"
| "readback_channel (CreateText category name _) channels =
     (case matching_children channels category name of [c] \<Rightarrow> Some c | _ \<Rightarrow> None)"
| "readback_channel _ channels = None"

definition readback_verifies ::
  "ops_operation \<Rightarrow> guild_channel \<Rightarrow> channel_map \<Rightarrow> bool \<Rightarrow> u64 option \<Rightarrow> bool" where
  "readback_verifies op before channels roles_same returned =
     is_some_and (readback_channel op channels) (\<lambda>c.
       returned = Some (gch_id c) \<and> channel_access c = channel_access before \<and> observed_matches op c
       \<and> already_matches op channels \<and> roles_same)"

section \<open>What the boundary guarantees\<close>

lemma boundary_public:
  assumes "boundary_check p everyone channels op = Inr c"
  shows "\<not> gch_nsfw c" "\<not> denies_view_somewhere c" "everyone_sees everyone c"
    "\<exists>origin category. (gch_kind c = DkCategory \<and> origin = gch_id c \<or> gch_kind c \<noteq> DkCategory \<and> gch_parent c = Some origin)
       \<and> origin |\<in>| pol_public_categories p \<and> fmlookup channels origin = Some category \<and> public_category category everyone"
  using assms by (auto simp: boundary_check_def is_some_and_iff split: if_splits)

lemma matching_children_single: "matching_children channels category name = [c] \<Longrightarrow>
    (\<exists>i. fmlookup channels i = Some c) \<and> gch_parent c = Some category \<and> gch_name c = name"
proof -
  assume m: "matching_children channels category name = [c]"
  then have "c \<in> set (matching_children channels category name)" by simp
  then show ?thesis by (auto simp: matching_children_def mem_fm_values simp del: set_fm_values)
qed

text \<open>A verified read-back keeps who may see and write in the channel.\<close>

lemma verified_readback:
  assumes "readback_verifies op before channels roles_same returned"
  obtains c i where "fmlookup channels i = Some c" "returned = Some (gch_id c)" "roles_same"
    "observed_matches op c" "channel_access c = channel_access before"
proof -
  from assms obtain c where c: "readback_channel op channels = Some c" "returned = Some (gch_id c)" "roles_same"
      "observed_matches op c" "channel_access c = channel_access before"
    by (auto simp: readback_verifies_def is_some_and_iff)
  then have "\<exists>i. fmlookup channels i = Some c"
    by (cases op) (auto split: list.splits dest: matching_children_single)
  with c that show ?thesis by blast
qed

end
