(* ===== verification/Community_Machine.thy ===== *)
theory Community_Machine
  imports Community_Approval Community_Channels Machine
begin

text \<open>
  The maintenance run (\<open>src/gateway/community_ops.rs\<close>, with the reserved execution of
  \<open>src/gateway/community_ops/extended/executor.rs\<close>) and the machine of community operations:
  every transaction of the files, the edits of the owner, and a run in five steps per action:
  start, look, reserve, mutate, settle. Between the steps any other call may come; the ledger
  is held by the execution lease. What Discord answers is the environment of a step; for the
  operations of the owner's matrix (roles, members, access, archives) it includes the result of
  their preflight and read-back, for a topic, a move or a new channel these are computed from
  the channels. A run that ends at once, by a crash, leaves its lease behind.
\<close>

section \<open>A run\<close>

datatype run_phase =
    AtAction
  | HasLooked ops_action json_text "guild_channel option"
  | HasReserved ops_action "guild_channel option"
  | HasMutated ops_action "guild_channel option" bool

record run_session =
  rs_policy :: ops_policy
  rs_digest :: rstr
  rs_proposals :: proposal_store
  rs_ledger :: ops_ledger
  rs_everyone :: perm_bits
  rs_now :: u64
  rs_rest :: "ops_action list"
  rs_phase :: run_phase

record 'b community_machine = "'b community" +
  com_session :: "run_session option"

definition end_run :: "'b community_machine \<Rightarrow> 'b community_machine" where
  "end_run m = m\<lparr>com_session := None, com_lease := False\<rparr>"

definition in_run :: "run_session \<Rightarrow> 'b community_machine \<Rightarrow> 'b community_machine" where
  "in_run s m = m\<lparr>com_session := Some s\<rparr>"

section \<open>Start\<close>

record start_env =
  se_cancelled :: bool
  se_guild :: "refusal + u64 \<times> perm_bits"
  se_write :: file_write

definition assessed_recently :: "ops_ledger \<Rightarrow> rstr \<Rightarrow> u64 \<Rightarrow> bool" where
  "assessed_recently l digest now \<longleftrightarrow>
     led_last_policy_digest l = Some digest \<and> is_some_and (led_last_assessment l) (\<lambda>last. now - last < 86400)"

definition maintain_start ::
  "'b digests \<Rightarrow> start_env \<Rightarrow> u64 \<Rightarrow> 'b community_machine \<Rightarrow> (refusal + unit) \<times> 'b community_machine" where
  "maintain_start E env now m =
     (case load_policy E m of
        Inl e \<Rightarrow> (Inl e, m)
      | Inr (p, digest) \<Rightarrow>
          if pol_mode p = OpsStopped \<or> se_cancelled env then (Inr (), m)
          else case load_store E m of
              Inl e \<Rightarrow> (Inl e, m)
            | Inr proposals \<Rightarrow>
                if com_lease m then (Inl ''operations lease held; owner review required after crash'', m)
                else let l = load_receipts m in
                  if assessed_recently l digest now then (Inr (), m)
                  else case se_guild env of
                      Inl e \<Rightarrow> (Inl e, m)
                    | Inr (owner, everyone) \<Rightarrow>
                        if owner \<noteq> pol_owner p then (Inl ''policy owner does not match live owner'', m)
                        else
                          let l' = l\<lparr>led_last_assessment := Some now, led_last_policy_digest := Some digest\<rparr> in
                          case save_receipts (se_write env) l' m of
                            (Inl e, m') \<Rightarrow> (Inl e, m')
                          | (Inr _, m') \<Rightarrow>
                              (Inr (), m'\<lparr>com_lease := True, com_session := Some
                                \<lparr>rs_policy = p, rs_digest = digest, rs_proposals = proposals, rs_ledger = l',
                                 rs_everyone = everyone, rs_now = now, rs_rest = pol_actions p, rs_phase = AtAction\<rparr>\<rparr>))"

section \<open>Look\<close>

definition settled_action :: "ops_ledger \<Rightarrow> ops_action \<Rightarrow> refusal + bool" where
  "settled_action l a =
     (case fmlookup (led_receipts l) (oa_key a) of
        Some r \<Rightarrow>
          if rcp_action r \<noteq> a then Inl ''idempotency identity drift''
          else if rcp_status r = StVerified then Inr True
          else if receipt_unresolved r then Inl ''unresolved action requires owner review''
          else Inr False
      | None \<Rightarrow> Inr False)"

record look_env =
  lk_cancelled :: bool
  lk_cancelled_later :: bool
  lk_matrix :: "refusal + json_text"
  lk_channels :: "refusal + channel_map"
  lk_record :: "guild_channel \<Rightarrow> json_text"

definition policy_unchanged :: "'b digests \<Rightarrow> run_session \<Rightarrow> ('b, 'm) community_scheme \<Rightarrow> bool" where
  "policy_unchanged E s c \<longleftrightarrow> load_policy E c = Inr (rs_policy s, rs_digest s)"

definition identity_drift :: "ops_ledger \<Rightarrow> ops_action \<Rightarrow> bool" where
  "identity_drift l a \<longleftrightarrow> is_some_and (fmlookup (led_receipts l) (oa_key a)) (\<lambda>r. rcp_action r \<noteq> a)"

definition look_matrix :: "look_env \<Rightarrow> run_session \<Rightarrow> ops_action \<Rightarrow> refusal + run_phase" where
  "look_matrix env s a =
     rbind (validate_policy (rs_policy s)) (\<lambda>_.
       if lk_cancelled_later env \<or> pol_mode (rs_policy s) = OpsStopped then Inl ''operations stopped''
       else if identity_drift (rs_ledger s) a then Inl ''idempotency identity drift''
       else rbind (lk_matrix env) (\<lambda>before. Inr (HasLooked a before None)))"

definition look_channel :: "look_env \<Rightarrow> run_session \<Rightarrow> ops_action \<Rightarrow> refusal + run_phase" where
  "look_channel env s a =
     rbind (lk_channels env) (\<lambda>channels.
       if already_matches (oa_operation a) channels then Inr AtAction
       else rbind (boundary_check (rs_policy s) (rs_everyone s) channels (oa_operation a)) (\<lambda>c.
         if identity_drift (rs_ledger s) a then Inl ''idempotency identity drift''
         else Inr (HasLooked a (lk_record env c) (Some c))))"

definition look_action ::
  "'b digests \<Rightarrow> look_env \<Rightarrow> run_session \<Rightarrow> ops_action \<Rightarrow> ('b, 'm) community_scheme \<Rightarrow> refusal + run_phase" where
  "look_action E env s a c =
     (if \<not> executable_action E (rs_proposals s) a then Inl ''pending or unresolved model action cannot execute''
      else rbind (settled_action (rs_ledger s) a) (\<lambda>settled.
        if settled then Inr AtAction
        else if load_policy E c \<noteq> Inr (rs_policy s, rs_digest s) then
          (case load_policy E c of Inl e \<Rightarrow> Inl e | Inr _ \<Rightarrow> Inl ''policy changed; execution stopped'')
        else if handled_elsewhere (oa_operation a) then look_matrix env s a
        else look_channel env s a))"

definition maintain_look ::
  "'b digests \<Rightarrow> look_env \<Rightarrow> 'b community_machine \<Rightarrow> (refusal + unit) \<times> 'b community_machine" where
  "maintain_look E env m =
     (case com_session m of
        None \<Rightarrow> (Inl ''no run'', m)
      | Some s \<Rightarrow>
          if rs_phase s \<noteq> AtAction then (Inl ''not at an action'', m)
          else case rs_rest s of
              [] \<Rightarrow> (Inr (), end_run m)
            | a # rest \<Rightarrow>
                if lk_cancelled env then (Inr (), end_run m)
                else case look_action E env s a m of
                    Inl e \<Rightarrow> (Inl e, end_run m)
                  | Inr phase \<Rightarrow> (Inr (), in_run (s\<lparr>rs_rest := rest, rs_phase := phase\<rparr>) m))"

section \<open>Reserve\<close>

record reserve_env =
  re_cancelled :: bool
  re_drift :: "refusal option"
  re_write :: file_write

definition new_ops_receipt :: "run_session \<Rightarrow> ops_action \<Rightarrow> json_text \<Rightarrow> ops_status \<Rightarrow> string \<Rightarrow> ops_receipt" where
  "new_ops_receipt s a before status detail =
     \<lparr>rcp_action = a, rcp_policy_digest = rs_digest s, rcp_at = rs_now s, rcp_status = status,
      rcp_before = before, rcp_observed = None, rcp_detail = detail\<rparr>"

definition proposed_detail :: "guild_channel option \<Rightarrow> string" where
  "proposed_detail target =
     (case target of None \<Rightarrow> ''matrix proposal; no mutation'' | Some _ \<Rightarrow> ''owner policy proposal; no mutation'')"

definition reserved_detail :: "guild_channel option \<Rightarrow> string" where
  "reserved_detail target =
     (case target of None \<Rightarrow> ''durably reserved before Discord I/O'' | Some _ \<Rightarrow> ''reserved before Discord I/O'')"

definition propose_only :: "run_session \<Rightarrow> ops_action \<Rightarrow> json_text \<Rightarrow> guild_channel option \<Rightarrow> ops_ledger" where
  "propose_only s a before target =
     (if fmlookup (led_receipts (rs_ledger s)) (oa_key a) \<noteq> None then rs_ledger s
      else with_receipt (new_ops_receipt s a before StProposed (proposed_detail target)) (rs_ledger s))"

definition reserve_allowed ::
  "'b digests \<Rightarrow> reserve_env \<Rightarrow> run_session \<Rightarrow> ops_action \<Rightarrow> guild_channel option \<Rightarrow> ('b, 'm) community_scheme
     \<Rightarrow> refusal + unit" where
  "reserve_allowed E env s a target c =
     rbind (authorize_action (rs_ledger s) (rs_policy s) a (rs_now s)) (\<lambda>_.
       case re_drift env of
         Some e \<Rightarrow> Inl e
       | None \<Rightarrow> rbind (load_policy E c) (\<lambda>current.
           ensure (case target of None \<Rightarrow> ''policy/stop drift'' | Some _ \<Rightarrow> ''policy or stop state changed; execution stopped'')
             (current = (rs_policy s, rs_digest s) \<and> \<not> re_cancelled env)))"

definition maintain_reserve ::
  "'b digests \<Rightarrow> reserve_env \<Rightarrow> 'b community_machine \<Rightarrow> (refusal + unit) \<times> 'b community_machine" where
  "maintain_reserve E env m =
     (case com_session m of
        None \<Rightarrow> (Inl ''no run'', m)
      | Some s \<Rightarrow> (case rs_phase s of
          HasLooked a before target \<Rightarrow>
            if pol_mode (rs_policy s) = OpsPropose then
              (let l = propose_only s a before target in
               case save_receipts (re_write env) l m of
                 (Inl e, m') \<Rightarrow> (Inl e, end_run m')
               | (Inr _, m') \<Rightarrow> (Inr (), in_run (s\<lparr>rs_ledger := l, rs_phase := AtAction\<rparr>) m'))
            else (case reserve_allowed E env s a target m of
                Inl e \<Rightarrow> (Inl e, end_run m)
              | Inr _ \<Rightarrow>
                  (let l = with_receipt (new_ops_receipt s a before StReserved (reserved_detail target)) (rs_ledger s) in
                   case save_receipts (re_write env) l m of
                     (Inl e, m') \<Rightarrow> (Inl e, end_run m')
                   | (Inr _, m') \<Rightarrow> (Inr (), in_run (s\<lparr>rs_ledger := l, rs_phase := HasReserved a target\<rparr>) m')))
        | _ \<Rightarrow> (Inl ''nothing to reserve'', m)))"

section \<open>Mutate\<close>

text \<open>\<open>watched_mutation\<close> looks at the stop and at the policy file before the request is polled
  for the first time; the result says which request was begun, and at which time of the run.\<close>

definition maintain_mutate ::
  "'b digests \<Rightarrow> bool \<Rightarrow> 'b community_machine \<Rightarrow> (ops_action \<times> u64) option \<times> 'b community_machine" where
  "maintain_mutate E cancelled m =
     (case com_session m of
        None \<Rightarrow> (None, m)
      | Some s \<Rightarrow> (case rs_phase s of
          HasReserved a target \<Rightarrow>
            if \<not> cancelled \<and> policy_unchanged E s m
            then (Some (a, rs_now s), in_run (s\<lparr>rs_phase := HasMutated a target True\<rparr>) m)
            else (None, in_run (s\<lparr>rs_phase := HasMutated a target False\<rparr>) m)
        | _ \<Rightarrow> (None, m)))"

section \<open>Settle\<close>

record settle_env =
  st_returned :: "u64 option"
  st_channels :: "channel_map option"
  st_roles_same :: bool
  st_matrix :: "json_text option"
  st_observed :: "json_text option"
  st_write :: file_write

text \<open>\<open>st_returned\<close> is the identity the request returned, if it succeeded; \<open>st_matrix\<close> is the
  verified read-back of a matrix operation; \<open>st_observed\<close> is what was seen otherwise.\<close>

definition settlement_verified ::
  "settle_env \<Rightarrow> ops_action \<Rightarrow> guild_channel option \<Rightarrow> bool \<Rightarrow> bool" where
  "settlement_verified env a target started \<longleftrightarrow> started \<and>
     (case target of
        Some before \<Rightarrow> is_some_and (st_channels env) (\<lambda>channels.
          readback_verifies (oa_operation a) before channels (st_roles_same env) (st_returned env))
      | None \<Rightarrow> st_matrix env \<noteq> None)"

definition settled_detail :: "guild_channel option \<Rightarrow> bool \<Rightarrow> string" where
  "settled_detail target verified =
     (case target of
        Some _ \<Rightarrow> if verified then ''readback verified; IDs/history retained and access unchanged''
          else ''remote outcome requires review; do not replay''
      | None \<Rightarrow> if verified then ''fresh readback verified; no history or entitlement deletion''
          else ''outcome requires owner review; never replay automatically'')"

definition settled_receipt ::
  "settle_env \<Rightarrow> ops_action \<Rightarrow> guild_channel option \<Rightarrow> bool \<Rightarrow> ops_receipt \<Rightarrow> ops_receipt" where
  "settled_receipt env a target started r =
     (let verified = settlement_verified env a target started in
      r\<lparr>rcp_status := (if verified then StVerified else StReviewRequired),
        rcp_observed := (if verified \<and> target = None then st_matrix env else st_observed env),
        rcp_detail := settled_detail target verified\<rparr>)"

definition maintain_settle ::
  "settle_env \<Rightarrow> 'b community_machine \<Rightarrow> (refusal + unit) \<times> 'b community_machine" where
  "maintain_settle env m =
     (case com_session m of
        None \<Rightarrow> (Inl ''no run'', m)
      | Some s \<Rightarrow> (case rs_phase s of
          HasMutated a target started \<Rightarrow>
            (case fmlookup (led_receipts (rs_ledger s)) (oa_key a) of
               None \<Rightarrow> (Inl ''reservation unavailable'', end_run m)
             | Some r \<Rightarrow>
                 (let l = (rs_ledger s)\<lparr>led_receipts := fmupd (oa_key a) (settled_receipt env a target started r)
                       (led_receipts (rs_ledger s))\<rparr> in
                  case save_receipts (st_write env) l m of
                    (Inl e, m') \<Rightarrow> (Inl e, end_run m')
                  | (Inr _, m') \<Rightarrow>
                      if settlement_verified env a target started
                      then (Inr (), in_run (s\<lparr>rs_ledger := l, rs_phase := AtAction\<rparr>) m')
                      else (Inl ''operation requires owner reconciliation; remaining work stopped'', end_run m')))
        | _ \<Rightarrow> (Inl ''nothing to settle'', m)))"

section \<open>The machine\<close>

datatype 'b community_call =
    OwnerEdits "'b option"
  | ChangeMode "'b publication_env" rstr u64 u64 ops_mode
  | InspectPending bool file_write ops_policy u64
  | BeginAssessment bool file_write ops_policy assessment_scope rstr u64
  | FinishAssessment bool file_write assessment_reservation ops_policy rstr "pending_proposal list" assessment_outcome u64
  | ApproveProposal approval_request "'b approval_env"
  | ReconcileApprovals bool file_write assessment_scope
  | RejectProposal bool file_write assessment_scope rstr u64 rstr rstr owner_proof u64 u64
  | MaintainStart start_env u64
  | MaintainLook look_env
  | MaintainReserve reserve_env
  | MaintainMutate bool
  | MaintainSettle settle_env
  | RunCrashes
  | ClearLease

datatype community_return =
    RetDone "refusal + unit"
  | RetInspected "refusal + proposal_store"
  | RetBegun "refusal + assessment_reservation"
  | RetApproved "refusal + ops_action"
  | RetMutation "(ops_action \<times> u64) option"

fun community_step ::
  "'b digests \<Rightarrow> 'b community_call \<Rightarrow> 'b community_machine \<Rightarrow> community_return \<times> 'b community_machine" where
  "community_step E (OwnerEdits file) m = (RetDone (Inr ()), m\<lparr>com_policy := file\<rparr>)"
| "community_step E (ChangeMode env expected guild owner mode) m =
     map_prod RetDone id (set_ops_mode E env expected guild owner mode m)"
| "community_step E (InspectPending locked w p now) m = map_prod RetInspected id (inspect_pending E locked w p now m)"
| "community_step E (BeginAssessment locked w p scope digest now) m =
     map_prod RetBegun id (begin_assessment E locked w p scope digest now m)"
| "community_step E (FinishAssessment locked w r p current proposals outcome now) m =
     map_prod RetDone id (finish_assessment E locked w r p current proposals outcome now m)"
| "community_step E (ApproveProposal req env) m = map_prod RetApproved id (approve E req env m)"
| "community_step E (ReconcileApprovals locked w scope) m = map_prod RetDone id (reconcile_approvals E locked w scope m)"
| "community_step E (RejectProposal locked w scope digest revision i hash o' now commit_now) m =
     map_prod RetDone id (reject E locked w scope digest revision i hash o' now commit_now m)"
| "community_step E (MaintainStart env now) m = map_prod RetDone id (maintain_start E env now m)"
| "community_step E (MaintainLook env) m = map_prod RetDone id (maintain_look E env m)"
| "community_step E (MaintainReserve env) m = map_prod RetDone id (maintain_reserve E env m)"
| "community_step E (MaintainMutate cancelled) m = map_prod RetMutation id (maintain_mutate E cancelled m)"
| "community_step E (MaintainSettle env) m = map_prod RetDone id (maintain_settle env m)"
| "community_step E RunCrashes m = (RetDone (Inr ()), m\<lparr>com_session := None\<rparr>)"
| "community_step E ClearLease m =
     (if com_session m = None then (RetDone (Inr ()), m\<lparr>com_lease := False\<rparr>)
      else (RetDone (Inl ''a run holds the lease''), m))"

definition new_community :: "'b option \<Rightarrow> 'b community_machine" where
  "new_community file = \<lparr>com_policy = file, com_store = None, com_receipts = None, com_lease = False, com_session = None\<rparr>"

end
