(* ===== verification/Community_Moves.thy ===== *)
theory Community_Moves
  imports Community_Machine
begin

text \<open>
  What the transactions of community operations may change: they touch the policy file and the
  store only, and a proposal in the store moves along its life: pending when published by an
  assessment, then stale, rejected or decided by an approval, with its reviewed content fixed.
\<close>

section \<open>Files\<close>

definition file_change :: "('b, 'm) community_scheme \<Rightarrow> ('b, 'm) community_scheme \<Rightarrow> bool" where
  "file_change c c' \<longleftrightarrow> (\<exists>p s. c' = c\<lparr>com_policy := p, com_store := s\<rparr>)"

lemma file_change_refl [simp]: "file_change c c"
  unfolding file_change_def by (intro exI [where x = "com_policy c"] exI [where x = "com_store c"]) simp

lemma file_change_trans: "file_change c c' \<Longrightarrow> file_change c' c'' \<Longrightarrow> file_change c c''"
  unfolding file_change_def by (elim exE) (simp, blast)

lemma file_change_policy [simp]: "file_change c (c\<lparr>com_policy := p\<rparr>)"
  unfolding file_change_def by (intro exI [where x = p] exI [where x = "com_store c"]) simp

lemma file_change_store [simp]: "file_change c (c\<lparr>com_store := s\<rparr>)"
  unfolding file_change_def by (intro exI [where x = "com_policy c"] exI [where x = s]) simp

lemma file_change_keeps:
  "file_change c c' \<Longrightarrow> com_receipts c' = com_receipts c \<and> com_lease c' = com_lease c \<and> community.more c' = community.more c"
  by (auto simp: file_change_def)

lemma owner_edits_files [simp]: "file_change c (owner_edits edit c)"
  by (cases edit) (simp_all add: owner_edits_def)

lemma edited_policy_files [simp]: "file_change c ((owner_edits edit c)\<lparr>com_policy := p\<rparr>)"
  by (cases edit) (simp_all add: owner_edits_def)

text \<open>A save of the store: what it answers, and what the file holds after it.\<close>

lemma save_storeE:
  assumes "save_store E w s c = (r, c')"
  obtains e where "r = Inl e" "c' = c"
  | s' where "s' = s\<lparr>prst_revision := prst_revision s + 1\<rparr>" "validate_store E s' = Inr ()"
      "c' = c\<lparr>com_store := after_write w (com_store c) (Some s')\<rparr>"
      "w = FileWritten \<and> r = Inr s' \<or> w \<noteq> FileWritten \<and> (\<exists>e. r = Inl e)"
proof (cases "checked_add (prst_revision s) 1")
  case None
  with assms that(1) show ?thesis by (auto simp: save_store_def)
next
  case (Some revision)
  then have revision: "revision = prst_revision s + 1" by simp
  show ?thesis
  proof (cases "validate_store E (s\<lparr>prst_revision := prst_revision s + 1\<rparr>)")
    case (Inl e)
    with assms Some revision that(1) show ?thesis by (auto simp: save_store_def Let_def)
  next
    case (Inr u)
    with assms Some revision that(2) [OF refl] show ?thesis
      by (cases w) (auto simp: save_store_def Let_def)
  qed
qed

lemma save_store_files: "save_store E w s c = (r, c') \<Longrightarrow> file_change c c'"
  by (erule save_storeE) auto

lemma save_store_stored:
  assumes "save_store E w s c = (r, c')"
  obtains "com_store c' = com_store c" | s' where "com_store c' = Some s'" "prst_proposals s' = prst_proposals s"
    "prst_last_attempt_at s' = prst_last_attempt_at s" "validate_store E s' = Inr ()"
  using assms
proof (cases rule: save_storeE)
  case (1 e)
  with that(1) show ?thesis by simp
next
  case (2 s')
  with that show ?thesis by (cases w) auto
qed

section \<open>Files of each transaction\<close>

lemma set_ops_mode_files: "set_ops_mode E env expected guild owner mode c = (r, c') \<Longrightarrow> file_change c c'"
  unfolding set_ops_mode_def Let_def
  by (auto split: if_splits sum.splits option.splits)

lemma inspect_pending_files: "inspect_pending E locked w p now c = (r, c') \<Longrightarrow> file_change c c'"
  unfolding inspect_pending_def by (auto split: if_splits sum.splits dest: save_store_files)

lemma begin_assessment_files: "begin_assessment E locked w p scope digest now c = (r, c') \<Longrightarrow> file_change c c'"
  unfolding begin_assessment_def by (auto split: if_splits sum.splits prod.splits dest: save_store_files)

lemma finish_assessment_files: "finish_assessment E locked w res p current ps outcome now c = (r, c') \<Longrightarrow> file_change c c'"
  unfolding finish_assessment_def by (auto split: if_splits sum.splits prod.splits option.splits dest: save_store_files)

lemma publish_approval_files: "publish_approval E req env p' bytes current s c = (r, c') \<Longrightarrow> file_change c c'"
  unfolding publish_approval_def Let_def
  by (auto split: if_splits sum.splits)

lemma reconcile_approvals_files: "reconcile_approvals E locked w scope c = (r, c') \<Longrightarrow> file_change c c'"
  unfolding reconcile_approvals_def by (auto split: if_splits sum.splits prod.splits dest: save_store_files)

lemma reject_files: "reject E locked w scope d v i hash o' now commit_now c = (r, c') \<Longrightarrow> file_change c c'"
  unfolding reject_def by (auto split: if_splits sum.splits prod.splits dest: save_store_files)

section \<open>Proposals in the store\<close>

definition proposal_of :: "('b, 'm) community_scheme \<Rightarrow> rstr \<Rightarrow> pending_proposal option" where
  "proposal_of c i = (case com_store c of None \<Rightarrow> None | Some s \<Rightarrow> fmlookup (prst_proposals s) i)"

definition same_review :: "pending_proposal \<Rightarrow> pending_proposal \<Rightarrow> bool" where
  "same_review q q' \<longleftrightarrow> reviewed_content q = reviewed_content q' \<and> pp_hash q = pp_hash q'"

lemma same_review_refl [simp]: "same_review q q"
  by (simp add: same_review_def)

lemma same_review_trans: "same_review q q' \<Longrightarrow> same_review q' q'' \<Longrightarrow> same_review q q''"
  by (simp add: same_review_def)

lemma same_review_update [simp]:
  "same_review q (q'\<lparr>pp_status := st\<rparr>) = same_review q q'"
  "same_review q (q'\<lparr>pp_revision := v\<rparr>) = same_review q q'"
  "same_review q (q'\<lparr>pp_decision := d\<rparr>) = same_review q q'"
  by (simp_all add: same_review_def reviewed_content_def)

lemma same_reviewD:
  assumes "same_review q q'"
  shows "pp_id q' = pp_id q" "pp_hash q' = pp_hash q" "pp_draft q' = pp_draft q" "proposal_action q' = proposal_action q"
    "pp_policy_owner q' = pp_policy_owner q" "pp_guild q' = pp_guild q" "pp_source q' = pp_source q"
    "pp_expected_access q' = pp_expected_access q" "pp_created_at q' = pp_created_at q" "pp_expires_at q' = pp_expires_at q"
  using assms by (simp_all add: same_review_def reviewed_content_def proposal_action_def)

definition store_moves ::
  "(rstr \<Rightarrow> pending_proposal option \<Rightarrow> pending_proposal \<Rightarrow> bool) \<Rightarrow> ('b, 'm) community_scheme
     \<Rightarrow> ('b, 'm) community_scheme \<Rightarrow> bool" where
  "store_moves P c c' \<longleftrightarrow> (\<forall>i. proposal_of c' i = proposal_of c i
     \<or> (\<exists>q. proposal_of c' i = Some q \<and> P i (proposal_of c i) q))"

lemma store_moves_same: "com_store c' = com_store c \<Longrightarrow> store_moves P c c'"
  by (simp add: store_moves_def proposal_of_def)

lemma bump_statusE:
  assumes "bump_status st q = Inr q'"
  shows "q' = q\<lparr>pp_status := st, pp_revision := pp_revision q + 1\<rparr>"
  using assms by (auto simp: bump_status_def)

lemma proposals_check_Inr:
  "proposals_check E xs = Inr u \<Longrightarrow> (i, q) \<in> set xs \<Longrightarrow> i = pp_id q \<and> validate_pending E q = Inr ()"
proof (induction xs)
  case Nil
  then show ?case by simp
next
  case (Cons x xs)
  obtain j p where x: "x = (j, p)" by (cases x)
  with Cons.prems(1) obtain v where "j = pp_id p" "validate_pending E p = Inr v" "proposals_check E xs = Inr u"
    by (auto split: if_splits sum.splits)
  with Cons x show ?case by auto
qed

lemma stored_proposals_lookup: "(i, q) \<in> set (stored_proposals s) \<longleftrightarrow> fmlookup (prst_proposals s) i = Some q"
  by (auto simp: stored_proposals_def fmlookup_dom'_iff)

lemma validated_proposal:
  assumes "validate_store E s = Inr u" and "fmlookup (prst_proposals s) i = Some q"
  shows "pp_id q = i" "validate_pending E q = Inr ()"
proof -
  from assms(1) obtain v where "proposals_check E (stored_proposals s) = Inr v"
    by (auto simp: validate_store_def split: if_splits sum.splits)
  from proposals_check_Inr [OF this, of i q] assms(2) show "pp_id q = i" "validate_pending E q = Inr ()"
    by (auto simp: stored_proposals_lookup)
qed

lemma load_storeE:
  assumes "load_store E c = Inr s"
  obtains "proposal_of c = fmlookup (prst_proposals s)"
    "\<And>i q. fmlookup (prst_proposals s) i = Some q \<Longrightarrow> pp_id q = i \<and> validate_pending E q = Inr ()"
    "com_store c = Some s \<or> com_store c = None \<and> s = new_proposal_store"
proof (cases "com_store c")
  case None
  with assms have "s = new_proposal_store" by (simp add: load_store_def)
  with None that show ?thesis by (auto simp: proposal_of_def new_proposal_store_def fun_eq_iff)
next
  case (Some s')
  with assms have "s' = s" "validate_store E s = Inr ()" by (auto simp: load_store_def)
  then have valid: "fmlookup (prst_proposals s) i = Some q \<Longrightarrow> pp_id q = i \<and> validate_pending E q = Inr ()" for i q
    by (simp add: validated_proposal)
  show ?thesis
    by (rule that) (use Some valid \<open>s' = s\<close> in \<open>auto simp: proposal_of_def fun_eq_iff\<close>)
qed

text \<open>A save with one proposal replaced.\<close>

lemma saved_moves_after:
  assumes "save_store E w s' c1 = (r, c')" and "store_moves P c c1"
    and "\<And>i. fmlookup (prst_proposals s') i = proposal_of c i
      \<or> (\<exists>q. fmlookup (prst_proposals s') i = Some q \<and> P i (proposal_of c i) q)"
  shows "store_moves P c c'"
  using assms(1)
proof (cases rule: save_store_stored)
  case 1
  with assms(2) show ?thesis by (simp add: store_moves_def proposal_of_def)
next
  case (2 s'')
  then have "proposal_of c' = fmlookup (prst_proposals s')" by (simp add: proposal_of_def fun_eq_iff)
  with assms(3) show ?thesis by (simp add: store_moves_def)
qed

lemmas saved_moves = saved_moves_after [OF _ store_moves_same]

section \<open>Inspection and assessments\<close>

lemma stale_each_lookup:
  "stale_each p immutable now xs m = Inr m' \<Longrightarrow> fmlookup m' i = fmlookup m i
     \<or> (\<exists>q. (i, q) \<in> set xs \<and> turns_stale p immutable now q \<and>
          fmlookup m' i = Some (q\<lparr>pp_status := PrStale, pp_revision := pp_revision q + 1\<rparr>))"
proof (induction xs arbitrary: m)
  case Nil
  then show ?case by simp
next
  case (Cons x xs)
  obtain j q where x: "x = (j, q)" by (cases x)
  show ?case
  proof (cases "turns_stale p immutable now q")
    case False
    with Cons x show ?thesis by auto
  next
    case True
    with Cons.prems x obtain q' where q': "bump_status PrStale q = Inr q'" "stale_each p immutable now xs (fmupd j q' m) = Inr m'"
      by auto
    from Cons.IH [OF q'(2)] bump_statusE [OF q'(1)] True x show ?thesis by (auto split: if_splits)
  qed
qed

lemma inspect_pending_moves:
  assumes "inspect_pending E locked w p now c = (r, c')"
  shows "store_moves (\<lambda>i old q'. \<exists>q. old = Some q \<and> pp_status q = PrPending \<and> same_review q q' \<and> pp_status q' = PrStale) c c'"
    (is "store_moves ?P c c'")
proof (cases "c' = c")
  case True
  then show ?thesis by (simp add: store_moves_same)
next
  case False
  with assms obtain immutable s m where s: "load_store E c = Inr s"
      and m: "stale_each p immutable now (stored_proposals s) (prst_proposals s) = Inr m"
      and saved: "save_store E w (s\<lparr>prst_proposals := m\<rparr>) c = (r, c')"
    unfolding inspect_pending_def by (auto split: if_splits sum.splits)
  from s show ?thesis
  proof (cases rule: load_storeE)
    case 1
    show ?thesis
      by (rule saved_moves [OF saved])
        (use stale_each_lookup [OF m] 1(1) in \<open>fastforce simp: stored_proposals_lookup turns_stale_def\<close>)+
  qed
qed

lemma begin_assessment_moves:
  assumes "begin_assessment E locked w p scope digest now c = (r, c')"
  shows "store_moves (\<lambda>_ _ _. False) c c'"
proof (cases "c' = c")
  case True
  then show ?thesis by (simp add: store_moves_same)
next
  case False
  with assms obtain s i r' where s: "load_store E c = Inr s"
      and saved: "save_store E w (s\<lparr>prst_attempts := attempts_with (started_attempt i digest now) now (prst_attempts s),
        prst_last_attempt_at := Some now\<rparr>) c = (r', c')"
    unfolding begin_assessment_def by (auto split: if_splits sum.splits prod.splits)
  from s show ?thesis
    by (cases rule: load_storeE) (rule saved_moves [OF saved], simp_all)
qed

lemma publishable_member:
  "publishable E r p a now s targets ps = Inr u \<Longrightarrow> q \<in> set ps \<Longrightarrow>
     validate_pending E q = Inr () \<and> pp_status q = PrPending \<and> pp_decision q = None \<and> pp_guild q = pol_guild p
     \<and> pp_policy_owner q = pol_owner p \<and> prs_scope_digest (pp_source q) = ar_scope_digest r
     \<and> fmlookup (prst_proposals s) (pp_id q) = None"
proof (induction ps arbitrary: targets)
  case Nil
  then show ?case by simp
next
  case (Cons p' ps)
  from Cons.prems(1) have head: "validate_pending E p' = Inr ()" "pp_status p' = PrPending" "pp_decision p' = None"
      "pp_guild p' = pol_guild p" "pp_policy_owner p' = pol_owner p" "prs_scope_digest (pp_source p') = ar_scope_digest r"
      "fmlookup (prst_proposals s) (pp_id p') = None"
    and rest: "publishable E r p a now s (finsert (op_target_key (mpr_operation (pp_draft p'))) targets) ps = Inr u"
    by (simp_all split: if_splits)
  show ?case
  proof (cases "q = p'")
    case True
    with head show ?thesis by simp
  next
    case False
    with Cons.prems(2) have "q \<in> set ps" by simp
    with rest show ?thesis by (rule Cons.IH)
  qed
qed

lemma insert_proposals_lookup:
  "fmlookup (insert_proposals ps m) i = fmlookup m i \<and> (\<forall>q \<in> set ps. pp_id q \<noteq> i)
     \<or> (\<exists>q \<in> set ps. pp_id q = i \<and> fmlookup (insert_proposals ps m) i = Some q)"
proof (induction ps arbitrary: m)
  case Nil
  then show ?case by (simp add: insert_proposals_def)
next
  case (Cons p ps)
  have step: "insert_proposals (p # ps) m = insert_proposals ps (fmupd (pp_id p) p m)"
    by (simp add: insert_proposals_def)
  show ?case
    using Cons.IH [of "fmupd (pp_id p) p m"] unfolding step by (cases "pp_id p = i") auto
qed

definition published_as :: "'b digests \<Rightarrow> assessment_reservation \<Rightarrow> ops_policy \<Rightarrow> pending_proposal \<Rightarrow> bool" where
  "published_as E r p q \<longleftrightarrow> validate_pending E q = Inr () \<and> pp_status q = PrPending \<and> pp_guild q = pol_guild p
     \<and> pp_policy_owner q = pol_owner p \<and> prs_scope_digest (pp_source q) = ar_scope_digest r
     \<and> pol_mode p \<noteq> OpsStopped \<and> scope_digest E p (pol_assessment p) = Inr (ar_scope_digest r)"

lemma finish_assessment_moves:
  assumes "finish_assessment E locked w res p current ps outcome now c = (r, c')"
  shows "store_moves (\<lambda>i old q. old = None \<and> q \<in> set ps \<and> pp_id q = i \<and> published_as E res p q) c c'"
    (is "store_moves ?P c c'")
proof (cases "c' = c")
  case True
  then show ?thesis by (simp add: store_moves_same)
next
  case False
  with assms obtain s a u v r' where s: "load_store E c = Inr s"
      and allowed: "settlement_allowed E res p current ps outcome = Inr v"
      and publishable: "publishable E res p a now s (active_targets s) ps = Inr u"
      and saved: "save_store E w (s\<lparr>prst_proposals := insert_proposals ps (prst_proposals s),
        prst_attempts := settled_attempts (ar_id res) now ps outcome (prst_attempts s)\<rparr>) c = (r', c')"
    unfolding finish_assessment_def by (auto split: if_splits sum.splits prod.splits option.splits)
  have live: "pol_mode p \<noteq> OpsStopped \<and> scope_digest E p (pol_assessment p) = Inr (ar_scope_digest res)" if "ps \<noteq> []"
    using allowed that by (auto simp: settlement_allowed_def split: if_splits)
  have member: "published_as E res p q \<and> fmlookup (prst_proposals s) (pp_id q) = None" if "q \<in> set ps" for q
  proof -
    from that have "ps \<noteq> []" by auto
    with publishable_member [OF publishable that] live show ?thesis by (simp add: published_as_def)
  qed
  from s show ?thesis
  proof (cases rule: load_storeE)
    case 1
    show ?thesis
    proof (rule saved_moves [OF saved])
      fix i
      show "fmlookup (prst_proposals (s\<lparr>prst_proposals := insert_proposals ps (prst_proposals s),
          prst_attempts := settled_attempts (ar_id res) now ps outcome (prst_attempts s)\<rparr>)) i = proposal_of c i
        \<or> (\<exists>q. fmlookup (prst_proposals (s\<lparr>prst_proposals := insert_proposals ps (prst_proposals s),
          prst_attempts := settled_attempts (ar_id res) now ps outcome (prst_attempts s)\<rparr>)) i = Some q \<and> ?P i (proposal_of c i) q)"
        using insert_proposals_lookup [of ps "prst_proposals s" i] member 1(1) by auto
    qed simp
  qed
qed

end
