(* ===== verification/Community_Decisions.thy ===== *)
theory Community_Decisions
  imports Community_Moves
begin

text \<open>
  What an approval, a reconciliation and a rejection do to the store and to the policy file,
  as elimination rules over the transactions, and the steps of the machine as moves of
  proposals.
\<close>

section \<open>Approval\<close>

text \<open>An approval stands for this proposal, from its live owner, while it could be approved.\<close>

definition approved_by :: "approval_request \<Rightarrow> 'b approval_env \<Rightarrow> pending_proposal \<Rightarrow> bool" where
  "approved_by req env q \<longleftrightarrow>
     arq_proposal_id req = pp_id q \<and> arq_reviewed_hash req = pp_hash q
     \<and> op_actor (arq_owner req) = pp_policy_owner q \<and> op_owner (arq_owner req) = pp_policy_owner q
     \<and> op_guild (arq_owner req) = pp_guild q
     \<and> fresh_proof (op_checked_at (arq_owner req)) (ae_now2 env) = Inr ()
     \<and> opp_reviewed_hash (arq_operation req) = pp_hash q \<and> opp_expected (arq_operation req) = pp_expected_access q
     \<and> fresh_proof (opp_checked_at (arq_operation req)) (ae_now2 env) = Inr ()
     \<and> pp_created_at q \<le> ae_now2 env \<and> ae_now2 env < pp_expires_at q"

lemma owner_checkE:
  assumes "owner_check o' p scope now = Inr actor"
  shows "actor = pol_owner p" "op_actor o' = pol_owner p" "op_owner o' = pol_owner p" "op_guild o' = pol_guild p"
    "fresh_proof (op_checked_at o') now = Inr ()"
  using assms by (auto simp: owner_check_def split: if_splits)

lemma check_pendingE:
  assumes "check_pending E q p scope hash now = Inr u"
  shows "pp_status q = PrPending" "pp_hash q = hash" "pp_guild q = pol_guild p" "pp_policy_owner q = pol_owner p"
    "pp_created_at q \<le> now" "now < pp_expires_at q" "validate_pending E q = Inr ()"
    "scope_digest E p scope = Inr (prs_scope_digest (pp_source q))"
  using assms by (auto simp: check_pending_def split: if_splits)

lemma operation_proof_checkE:
  assumes "operation_proof_check o' q now = Inr u"
  shows "opp_reviewed_hash o' = pp_hash q" "opp_expected o' = pp_expected_access q"
    "fresh_proof (opp_checked_at o') now = Inr ()"
  using assms by (auto simp: operation_proof_check_def)

lemma with_action_simps [simp]:
  "pol_guild (with_action a p) = pol_guild p" "pol_owner (with_action a p) = pol_owner p"
  "pol_mode (with_action a p) = pol_mode p" "pol_assessment (with_action a p) = pol_assessment p"
  "pol_actions (with_action a p) = pol_actions p @ [a]"
  by (simp_all add: with_action_def)

text \<open>The scope digest does not see the actions or the mode.\<close>

lemma scope_digest_with_action [simp]: "scope_digest E (with_action a p) scope = scope_digest E p scope"
  by (simp add: scope_digest_def with_action_def)

lemma scope_digest_mode [simp]: "scope_digest E (p\<lparr>pol_mode := mode\<rparr>) scope = scope_digest E p scope"
  by (simp add: scope_digest_def)

lemma approval_preparedE:
  assumes "approval_prepared E req env c = Inr (current, p', bytes, q, q', s1)"
  obtains p s where "load_policy E c = Inr (p, current)" "current = arq_policy_digest req" "load_store E c = Inr s"
    "prst_revision s = arq_store_revision req"
    "fmlookup (prst_proposals s) (arq_proposal_id req) = Some q" "p' = with_action (proposal_action q) p"
    "validate_policy p' = Inr ()" "en_policy E p' = Some bytes" "approved_by req env q" "pp_status q = PrPending"
    "approval_eligible E req (ae_now1 env) p (load_receipts c) q = Inr ()"
    "pp_policy_owner q = pol_owner p" "pp_guild q = pol_guild p"
    "scope_digest E p (arq_scope req) = Inr (prs_scope_digest (pp_source q))"
    "q' = q\<lparr>pp_status := PrApprovalPrepared, pp_revision := pp_revision q + 1,
       pp_decision := Some (prepared_decision (pol_owner p) (ae_now2 env) (prs_scope_digest (pp_source q)) current (en_hash E bytes) q)\<rparr>"
    "s1 = put_proposal (arq_proposal_id req) q' s"
proof -
  from assms obtain p s actor where checked: "approval_checked E req env c = Inr (p, current, s, actor, q)"
      and recorded: "approval_recorded E req env p current actor q = Inr (p', bytes, q')"
      and s1: "s1 = put_proposal (arq_proposal_id req) q' s"
    by (auto simp: approval_prepared_def)
  from checked obtain u where
    run: "load_policy E c = Inr (p, current)" "current = arq_policy_digest req" "load_store E c = Inr s"
      "prst_revision s = arq_store_revision req" "owner_check (arq_owner req) p (arq_scope req) (ae_now1 env) = Inr actor"
      "fmlookup (prst_proposals s) (arq_proposal_id req) = Some q"
      "approval_eligible E req (ae_now1 env) p (load_receipts c) q = Inr u"
    by (auto simp: approval_checked_def split: if_splits)
  from recorded obtain immutable q1 actor2 v w where
    run2: "planned_policy E req p (proposal_action q) = Inr (immutable, p', bytes)"
      "owner_check (arq_owner req) p' (arq_scope req) (ae_now2 env) = Inr actor2"
      "operation_proof_check (arq_operation req) q (ae_now2 env) = Inr v"
      "check_pending E q p' (arq_scope req) (arq_reviewed_hash req) (ae_now2 env) = Inr w"
      "bump_status PrApprovalPrepared q = Inr q1"
      "q' = q1\<lparr>pp_decision := Some (prepared_decision actor (ae_now2 env) immutable current (en_hash E bytes) q)\<rparr>"
    by (auto simp: approval_recorded_def)
  from run2(1) have planned: "scope_digest E p (arq_scope req) = Inr immutable" "p' = with_action (proposal_action q) p"
      "validate_policy p' = Inr ()" "en_policy E p' = Some bytes"
    unfolding planned_policy_def Let_def by - (elim chain_elims; simp)+
  note owner = owner_checkE [OF run2(2)] and pending = check_pendingE [OF run2(4)] and proof' = operation_proof_checkE [OF run2(3)]
  from run(3) have i: "pp_id q = arq_proposal_id req"
    by (cases rule: load_storeE) (use run(6) in auto)
  have by_owner: "approved_by req env q"
    using owner pending proof' i by (simp add: approved_by_def)
  have actor: "actor = pol_owner p" using owner_checkE(1) [OF run(5)] .
  have immutable: "immutable = prs_scope_digest (pp_source q)" using pending(8) planned by simp
  show ?thesis
    by (rule that [OF run(1-4,6) planned(2-4) by_owner pending(1)])
      (use run(7) run2(6) s1 bump_statusE [OF run2(5)] pending(3,4,8) planned(2) actor immutable in auto)
qed

lemma mark_reviewE:
  assumes "mark_review i s = Inr s'"
  obtains q q' where "fmlookup (prst_proposals s) i = Some q" "s' = put_proposal i q' s" "same_review q q'"
    "pp_status q' = PrReviewRequired"
proof -
  from assms obtain q q1 where q: "fmlookup (prst_proposals s) i = Some q" "bump_status PrReviewRequired q = Inr q1"
      "pp_decision q1 \<noteq> None" "\<exists>d. s' = put_proposal i (q1\<lparr>pp_decision := Some d\<rparr>) s"
    by (cases "fmlookup (prst_proposals s) i"; cases "bump_status PrReviewRequired (the (fmlookup (prst_proposals s) i))")
      (auto simp: mark_review_def split: option.split_asm)
  then obtain d where d: "s' = put_proposal i (q1\<lparr>pp_decision := Some d\<rparr>) s" by blast
  from bump_statusE [OF q(2)] have "same_review q (q1\<lparr>pp_decision := Some d\<rparr>)" "pp_status (q1\<lparr>pp_decision := Some d\<rparr>) = PrReviewRequired"
    by simp_all
  with q(1) d that show ?thesis by blast
qed

lemma finalize_proposalE:
  assumes "finalize_proposal i digest s = Inr s'"
  obtains q q' where "fmlookup (prst_proposals s) i = Some q" "s' = put_proposal i q' s" "same_review q q'"
    "pp_status q' = PrApproved"
proof -
  from assms obtain q q1 where q: "fmlookup (prst_proposals s) i = Some q" "bump_status PrApproved q = Inr q1"
      "pp_decision q1 \<noteq> None" "\<exists>d. s' = put_proposal i (q1\<lparr>pp_decision := Some d\<rparr>) s"
    by (cases "fmlookup (prst_proposals s) i"; cases "bump_status PrApproved (the (fmlookup (prst_proposals s) i))")
      (auto simp: finalize_proposal_def split: option.split_asm)
  then obtain d where d: "s' = put_proposal i (q1\<lparr>pp_decision := Some d\<rparr>) s" by blast
  from bump_statusE [OF q(2)] have "same_review q (q1\<lparr>pp_decision := Some d\<rparr>)" "pp_status (q1\<lparr>pp_decision := Some d\<rparr>) = PrApproved"
    by simp_all
  with q(1) d that show ?thesis by blast
qed

lemma put_proposal_simps [simp]:
  "prst_proposals (put_proposal i q s) = fmupd i q (prst_proposals s)"
  "prst_last_attempt_at (put_proposal i q s) = prst_last_attempt_at s"
  by (simp_all add: put_proposal_def)

definition publication_policy :: "'b digests \<Rightarrow> 'b approval_env \<Rightarrow> 'b \<Rightarrow> ('b, 'm) community_scheme \<Rightarrow> 'b option \<Rightarrow> bool" where
  "publication_policy E env bytes c file \<longleftrightarrow> file = com_policy (owner_edits (ae_edit env) c) \<or> file = Some bytes"

lemma publish_approvalE:
  assumes "publish_approval E req env p' bytes current s c = (r, c')"
  obtains e where "r = Inl e" "com_store c' = com_store c" "publication_policy E env bytes c (com_policy c')"
  | digest where "r = Inr ()" "com_store c' = com_store c" "com_policy c' = Some bytes" "load_policy E c' = Inr (p', digest)"
proof -
  have store: "com_store (owner_edits edit c) = com_store c" for edit
    by (simp add: owner_edits_def split: option.splits)
  let ?c = "owner_edits (ae_edit env) c"
  let ?d = "?c\<lparr>com_policy := after_write (ae_publish env) (com_policy ?c) (Some bytes)\<rparr>"
  consider (refused) e where "r = Inl e" "c' = ?c" | (tried) "c' = ?d"
    "r = rbind (write_result_of ''proposal write failed'' ''proposal directory sync failed'' (ae_publish env)) (\<lambda>_.
              rbind (load_policy E ?d) (\<lambda>(observed, digest).
                ensure ''approved policy readback mismatch'' (observed = p' \<and> digest = en_hash E bytes)))"
    using assms unfolding publish_approval_def Let_def by (auto split: sum.splits)
  then show ?thesis
  proof cases
    case refused
    with that(1) store show ?thesis by (simp add: publication_policy_def)
  next
    case tried
    show ?thesis
    proof (cases r)
      case (Inl e)
      with that(1) tried(1) store show ?thesis by (cases "ae_publish env") (auto simp: publication_policy_def)
    next
      case (Inr u)
      from tried(2) [symmetric] Inr obtain digest where "ae_publish env = FileWritten" "load_policy E ?d = Inr (p', digest)"
        by (cases "ae_publish env") auto
      with that(2) tried(1) store Inr show ?thesis by auto
    qed
  qed
qed

text \<open>The whole approval: refused, recorded but not known to be saved, or recorded and saved;
  then published or uncertain.\<close>

definition decided_status :: "proposal_status \<Rightarrow> bool" where
  "decided_status st \<longleftrightarrow> st = PrApprovalPrepared \<or> st = PrApproved \<or> st = PrReviewRequired"

definition approval_move ::
  "approval_request \<Rightarrow> 'b approval_env \<Rightarrow> rstr \<Rightarrow> pending_proposal option \<Rightarrow> pending_proposal \<Rightarrow> bool" where
  "approval_move req env i old q' \<longleftrightarrow> (\<exists>q. old = Some q \<and> i = pp_id q \<and> approved_by req env q \<and> pp_status q = PrPending
     \<and> same_review q q' \<and> decided_status (pp_status q'))"

lemma approveE:
  assumes "approve E req env c = (r, c')"
  obtains (refused) e where "r = Inl e" "c' = c"
  | (recorded) current p' bytes q q' s1 r1 c1 where
      "approval_prepared E req env c = Inr (current, p', bytes, q, q', s1)" "\<not> com_lease c"
      "save_store E (ae_save1 env) s1 c = (r1, c1)" "\<exists>e. r1 = Inl e" "c' = c1" "\<exists>e. r = Inl e"
  | (uncertain) current p' bytes q q' s1 s2 c1 e c2 where
      "approval_prepared E req env c = Inr (current, p', bytes, q, q', s1)" "\<not> com_lease c"
      "save_store E (ae_save1 env) s1 c = (Inr s2, c1)" "publish_approval E req env p' bytes current s2 c1 = (Inl e, c2)"
      "c' = c2 \<or> (\<exists>s3 r3. mark_review (arq_proposal_id req) s2 = Inr s3 \<and> save_store E (ae_save2 env) s3 c2 = (r3, c'))"
      "\<exists>e. r = Inl e"
  | (published) current p' bytes q q' s1 s2 c1 c2 where
      "approval_prepared E req env c = Inr (current, p', bytes, q, q', s1)" "\<not> com_lease c"
      "save_store E (ae_save1 env) s1 c = (Inr s2, c1)" "publish_approval E req env p' bytes current s2 c1 = (Inr (), c2)"
      "c' = c2 \<and> (\<exists>e. r = Inl e) \<or>
       (\<exists>s3 r3. finalize_proposal (arq_proposal_id req) (en_hash E bytes) s2 = Inr s3 \<and> save_store E (ae_save2 env) s3 c2 = (r3, c')
          \<and> ((\<exists>s4. r3 = Inr s4) \<and> r = Inr (proposal_action q) \<or> (\<exists>e. r3 = Inl e) \<and> (\<exists>e. r = Inl e)))"
proof (cases "ae_locked env \<or> com_lease c \<or> (\<exists>e. approval_prepared E req env c = Inl e)")
  case True
  with assms refused show ?thesis by (auto simp: approve_def split: if_splits)
next
  case False
  then obtain current p' bytes q q' s1 where prepared: "approval_prepared E req env c = Inr (current, p', bytes, q, q', s1)"
    by (cases "approval_prepared E req env c") auto
  from False have lease: "\<not> com_lease c" by simp
  obtain r1 c1 where save1: "save_store E (ae_save1 env) s1 c = (r1, c1)" by (cases "save_store E (ae_save1 env) s1 c")
  note run = assms [unfolded approve_def prepared sum.case prod.case save1]
  show ?thesis
  proof (cases r1)
    case (Inl e)
    with run False prepared lease save1 recorded show ?thesis by auto
  next
    case (Inr s2)
    obtain r2 c2 where publish: "publish_approval E req env p' bytes current s2 c1 = (r2, c2)"
      by (cases "publish_approval E req env p' bytes current s2 c1")
    note save = save1 [unfolded Inr]
    note run = run [unfolded Inr sum.case publish prod.case]
    show ?thesis
    proof (cases r2)
      case (Inl e)
      with run False prepared lease save publish show ?thesis
        by (intro uncertain) (auto split: sum.splits prod.splits)
    next
      case (Inr u)
      with run False prepared lease save publish show ?thesis
        by (intro published) (auto split: sum.splits prod.splits)
    qed
  qed
qed

text \<open>In every case the store holds the old proposal or a decided one.\<close>

lemma recorded_entry:
  assumes "approval_prepared E req env c = Inr (current, p', bytes, q, q', s1)"
  shows "fmlookup (prst_proposals s1) (arq_proposal_id req) = Some q'"
    and "approval_move req env (arq_proposal_id req) (proposal_of c (arq_proposal_id req)) q'"
    and "i \<noteq> arq_proposal_id req \<Longrightarrow> fmlookup (prst_proposals s1) i = proposal_of c i"
proof -
  from assms obtain s where s: "load_store E c = Inr s" "s1 = put_proposal (arq_proposal_id req) q' s"
      and q: "fmlookup (prst_proposals s) (arq_proposal_id req) = Some q" "approved_by req env q" "pp_status q = PrPending"
        "same_review q q'" "pp_status q' = PrApprovalPrepared"
    by (cases rule: approval_preparedE) simp
  from s(1) have "proposal_of c = fmlookup (prst_proposals s)" "pp_id q = arq_proposal_id req"
    by (cases rule: load_storeE; use q(1) in auto)+
  with s(2) q show "fmlookup (prst_proposals s1) (arq_proposal_id req) = Some q'"
    "approval_move req env (arq_proposal_id req) (proposal_of c (arq_proposal_id req)) q'"
    "i \<noteq> arq_proposal_id req \<Longrightarrow> fmlookup (prst_proposals s1) i = proposal_of c i"
    by (auto simp: approval_move_def decided_status_def)
qed

lemma approval_move_decided:
  "approval_move req env i old q \<Longrightarrow> same_review q q' \<Longrightarrow> decided_status (pp_status q') \<Longrightarrow> approval_move req env i old q'"
  by (auto simp: approval_move_def intro: same_review_trans)

lemma decision_moves:
  assumes prepared: "approval_prepared E req env c = Inr (current, p', bytes, q, q', s1)"
    and save: "save_store E w s c1 = (r, c')" and before: "store_moves (approval_move req env) c c1"
    and s: "prst_proposals s = fmupd (arq_proposal_id req) q'' (prst_proposals s1)"
    and q'': "same_review q' q''" "decided_status (pp_status q'')"
  shows "store_moves (approval_move req env) c c'"
proof (rule saved_moves_after [OF save before])
  fix i
  show "fmlookup (prst_proposals s) i = proposal_of c i
      \<or> (\<exists>q. fmlookup (prst_proposals s) i = Some q \<and> approval_move req env i (proposal_of c i) q)"
    using recorded_entry(3) [OF prepared, of i] approval_move_decided [OF recorded_entry(2) [OF prepared] q''] s
    by (cases "i = arq_proposal_id req") auto
qed

lemma save_store_Inr: "save_store E w s c = (Inr s', c') \<Longrightarrow> prst_proposals s' = prst_proposals s \<and> com_store c' = Some s'"
  by (erule save_storeE) auto

lemma approve_moves:
  assumes "approve E req env c = (r, c')"
  shows "store_moves (approval_move req env) c c'"
proof -
  have same: "store_moves (approval_move req env) c c" by (simp add: store_moves_same)
  have first: "store_moves (approval_move req env) c c1"
    if "approval_prepared E req env c = Inr (current, p', bytes, q, q', s1)" "save_store E (ae_save1 env) s1 c = (r1, c1)"
    for current p' bytes q q' s1 r1 c1
  proof (rule decision_moves [OF that same])
    show "prst_proposals s1 = fmupd (arq_proposal_id req) q' (prst_proposals s1)"
      using recorded_entry(1) [OF that(1)] by (intro fmap_ext) auto
    show "decided_status (pp_status q')" using recorded_entry(2) [OF that(1)] by (auto simp: approval_move_def)
  qed simp
  have later: "store_moves (approval_move req env) c c2"
    if "store_moves (approval_move req env) c c1" "com_store c2 = com_store c1" for c1 c2 :: "('a, 'b) community_scheme"
    using that by (simp add: store_moves_def proposal_of_def)
  have second: "store_moves (approval_move req env) c c'"
    if "approval_prepared E req env c = Inr (current, p', bytes, q, q', s1)" "save_store E (ae_save1 env) s1 c = (Inr s2, c1)"
      "com_store c2 = com_store c1" "save_store E w s3 c2 = (r3, c')"
      "fmlookup (prst_proposals s2) (arq_proposal_id req) = Some x" "s3 = put_proposal (arq_proposal_id req) x' s2"
      "same_review x x'" "decided_status (pp_status x')"
    for current p' bytes q q' s1 s2 c1 c2 w s3 r3 x x'
  proof (rule decision_moves [OF that(1,4) later [OF first [OF that(1,2)] that(3)]])
    note s2 = save_store_Inr [OF that(2)]
    with that(5) recorded_entry(1) [OF that(1)] have "x = q'" by simp
    with that(7) show "same_review q' x'" by simp
    show "prst_proposals s3 = fmupd (arq_proposal_id req) x' (prst_proposals s1)" using that(6) s2 by simp
  qed (rule that(8))
  from assms show ?thesis
  proof (cases rule: approveE)
    case (refused e)
    then show ?thesis using same by simp
  next
    case (recorded current p' bytes q q' s1 r1 c1)
    then show ?thesis using first by simp
  next
    case (uncertain current p' bytes q q' s1 s2 c1 e c2)
    from uncertain(4) have c2: "com_store c2 = com_store c1" by (cases rule: publish_approvalE) auto
    from uncertain(5) show ?thesis
    proof (elim disjE exE conjE)
      assume "c' = c2"
      then show ?thesis using later [OF first [OF uncertain(1,3)] c2] by simp
    next
      fix s3 r3
      assume review: "mark_review (arq_proposal_id req) s2 = Inr s3" and save: "save_store E (ae_save2 env) s3 c2 = (r3, c')"
      from review show ?thesis
        by (cases rule: mark_reviewE) (rule second [OF uncertain(1,3) c2 save], auto simp: decided_status_def)
    qed
  next
    case (published current p' bytes q q' s1 s2 c1 c2)
    from published(4) have c2: "com_store c2 = com_store c1" by (cases rule: publish_approvalE) auto
    from published(5) show ?thesis
    proof (elim disjE exE conjE)
      assume "c' = c2"
      then show ?thesis using later [OF first [OF published(1,3)] c2] by simp
    qed (use finalize_proposalE second [OF published(1,3) c2] in \<open>metis decided_status_def\<close>)+
  qed
qed

section \<open>Reconciliation and rejection\<close>

definition reconciled_move :: "rstr \<Rightarrow> pending_proposal option \<Rightarrow> pending_proposal \<Rightarrow> bool" where
  "reconciled_move i old q' \<longleftrightarrow> (\<exists>q. old = Some q \<and> needs_reconciliation q \<and> same_review q q'
     \<and> (pp_status q' = PrApproved \<or> pp_status q' = PrReviewRequired))"

lemma reconcile_each_lookup:
  assumes "reconcile_each p digest immutable ids s unresolved = Inr (s', unresolved')"
  shows "fmlookup (prst_proposals s') i = fmlookup (prst_proposals s) i
    \<or> i \<in> set ids \<and> (\<exists>q q'. fmlookup (prst_proposals s) i = Some q \<and> fmlookup (prst_proposals s') i = Some q'
         \<and> same_review q q' \<and> (pp_status q' = PrApproved \<or> pp_status q' = PrReviewRequired))"
  using assms
proof (induction ids arbitrary: s unresolved)
  case Nil
  then show ?case by simp
next
  case (Cons j ids)
  from Cons.prems obtain s1 unresolved1 where
    one: "finalize_proposal j digest s = Inr s1 \<or> mark_review j s = Inr s1"
    and rest: "reconcile_each p digest immutable ids s1 unresolved1 = Inr (s', unresolved')"
    by (auto split: if_splits)
  from one obtain q q' where q: "fmlookup (prst_proposals s) j = Some q" "s1 = put_proposal j q' s" "same_review q q'"
      "pp_status q' = PrApproved \<or> pp_status q' = PrReviewRequired"
    by (elim disjE finalize_proposalE mark_reviewE) auto
  from Cons.IH [OF rest] q show ?case
    by (cases "i = j") (auto intro: same_review_trans)
qed

lemma reconcile_approvals_moves:
  assumes "reconcile_approvals E locked w scope c = (r, c')"
  shows "store_moves reconciled_move c c'"
proof (cases "c' = c")
  case True
  then show ?thesis by (simp add: store_moves_same)
next
  case False
  with assms obtain s p digest immutable s' unresolved r' where s: "load_store E c = Inr s"
      and each: "reconcile_each p digest immutable (reconcile_ids s) s False = Inr (s', unresolved)"
      and save: "save_store E w s' c = (r', c')"
    unfolding reconcile_approvals_def by (auto split: if_splits sum.splits prod.splits)
  from s show ?thesis
  proof (cases rule: load_storeE)
    case 1
    have open': "needs_reconciliation q" if "i \<in> set (reconcile_ids s)" "fmlookup (prst_proposals s) i = Some q" for i q
      using that 1(2) by (fastforce simp: reconcile_ids_def mem_fm_values simp del: set_fm_values)
    show ?thesis
    proof (rule saved_moves [OF save refl])
      fix i
      show "fmlookup (prst_proposals s') i = proposal_of c i
          \<or> (\<exists>q. fmlookup (prst_proposals s') i = Some q \<and> reconciled_move i (proposal_of c i) q)"
        using reconcile_each_lookup [OF each, of i] open' 1(1) by (auto simp: reconciled_move_def)
    qed
  qed
qed

definition rejected_move :: "rstr \<Rightarrow> pending_proposal option \<Rightarrow> pending_proposal \<Rightarrow> bool" where
  "rejected_move i old q' \<longleftrightarrow> (\<exists>q. old = Some q \<and> pp_status q = PrPending \<and> same_review q q' \<and> pp_status q' = PrRejected)"

lemma reject_moves:
  assumes "reject E locked w scope d v i hash o' now commit_now c = (r, c')"
  shows "store_moves rejected_move c c'"
proof (cases "c' = c")
  case True
  then show ?thesis by (simp add: store_moves_same)
next
  case False
  with assms obtain q' s' r' where prepared: "reject_prepared E scope d v i hash o' now commit_now c = Inr (q', s')"
      and save: "save_store E w s' c = (r', c')"
    unfolding reject_def by (auto split: if_splits sum.splits prod.splits)
  from prepared obtain s q p q1 u decision where s: "load_store E c = Inr s" "fmlookup (prst_proposals s) i = Some q"
      "check_pending E q p scope hash commit_now = Inr u" "bump_status PrRejected q = Inr q1"
      "s' = put_proposal i q' s" "q' = q1\<lparr>pp_decision := Some decision\<rparr>"
    unfolding reject_prepared_def Let_def by (auto split: if_splits)
  note pending = check_pendingE(1) [OF s(3)] and q1 = bump_statusE [OF s(4)]
  from s(1) show ?thesis
  proof (cases rule: load_storeE)
    case 1
    have "rejected_move i (Some q) q'" using pending q1 s(6) by (auto simp: rejected_move_def)
    with 1(1) s(2,5) show ?thesis by (intro saved_moves [OF save refl]) auto
  qed
qed

section \<open>Files of an approval\<close>

lemma approve_files: "approve E req env c = (r, c') \<Longrightarrow> file_change c c'"
proof (erule approveE)
  fix current p' bytes q q' s1 s2 c1 e c2
  assume "save_store E (ae_save1 env) s1 c = (Inr s2, c1)" "publish_approval E req env p' bytes current s2 c1 = (Inl e, c2)"
  then have c2: "file_change c c2" by (blast dest: save_store_files publish_approval_files intro: file_change_trans)
  assume "c' = c2 \<or> (\<exists>s3 r3. mark_review (arq_proposal_id req) s2 = Inr s3 \<and> save_store E (ae_save2 env) s3 c2 = (r3, c'))"
  with c2 show "file_change c c'" by (auto dest: save_store_files intro: file_change_trans)
next
  fix current p' bytes q q' s1 s2 c1 c2
  assume "save_store E (ae_save1 env) s1 c = (Inr s2, c1)" "publish_approval E req env p' bytes current s2 c1 = (Inr (), c2)"
  then have c2: "file_change c c2" by (blast dest: save_store_files publish_approval_files intro: file_change_trans)
  assume "c' = c2 \<and> (\<exists>e. r = Inl e) \<or>
       (\<exists>s3 r3. finalize_proposal (arq_proposal_id req) (en_hash E bytes) s2 = Inr s3 \<and> save_store E (ae_save2 env) s3 c2 = (r3, c')
          \<and> ((\<exists>s4. r3 = Inr s4) \<and> r = Inr (proposal_action q) \<or> (\<exists>e. r3 = Inl e) \<and> (\<exists>e. r = Inl e)))"
  with c2 show "file_change c c'" by (auto dest: save_store_files intro: file_change_trans)
qed (auto dest: save_store_files)

end
