(* ===== verification/Community_History.thy ===== *)
theory Community_History
  imports Community_Decisions
begin

text \<open>
  Histories of community operations. Whatever an approval, a rejection or an assessment does,
  a stored proposal is traced back to the assessment that published it and, once decided, to
  the approval of its owner; the ledger of a run is the one in the file; a key that was mutated
  once is spent.
\<close>

section \<open>What happened\<close>

type_synonym 'b community_event = "'b community_call \<times> community_return"

definition was_published :: "'b digests \<Rightarrow> pending_proposal \<Rightarrow> 'b community_event \<Rightarrow> bool" where
  "was_published E q e \<longleftrightarrow> (\<exists>locked w res p current ps outcome now r q0.
     e = (FinishAssessment locked w res p current ps outcome now, r)
     \<and> q0 \<in> set ps \<and> same_review q0 q \<and> published_as E res p q0)"

definition was_approved :: "pending_proposal \<Rightarrow> 'b community_event \<Rightarrow> bool" where
  "was_approved q e \<longleftrightarrow> (\<exists>req env r. e = (ApproveProposal req env, r) \<and> approved_by req env q)"

lemma was_published_same: "same_review q q' \<Longrightarrow> was_published E q e \<Longrightarrow> was_published E q' e"
  unfolding was_published_def by (blast intro: same_review_trans)

lemma approved_by_same: "same_review q q' \<Longrightarrow> approved_by req env q \<Longrightarrow> approved_by req env q'"
  by (simp add: approved_by_def same_reviewD)

lemma was_approved_same: "same_review q q' \<Longrightarrow> was_approved q e \<Longrightarrow> was_approved q' e"
  unfolding was_approved_def by (blast intro: approved_by_same)

lemma happened_mono:
  "happened Ps h \<Longrightarrow> list_all2 (\<lambda>P Q. \<forall>e. P e \<longrightarrow> Q e) Ps Qs \<Longrightarrow> happened Qs h"
proof (induction Ps h arbitrary: Qs rule: happened.induct)
  case (3 P Ps e h)
  from 3(4) obtain Q Rs where Qs: "Qs = Q # Rs" and Q: "\<forall>e. P e \<longrightarrow> Q e" and Rs: "list_all2 (\<lambda>P Q. \<forall>e. P e \<longrightarrow> Q e) Ps Rs"
    by (cases Qs) simp_all
  from 3(3) consider "P e" "happened Ps h" | "happened (P # Ps) h" by auto
  then show ?case
  proof cases
    case 1
    with Q 3(1) [OF _ Rs] show ?thesis unfolding Qs by simp
  next
    case 2
    with 3(2) [OF _ 3(4)] show ?thesis unfolding Qs by simp
  qed
qed simp_all

section \<open>Steps and the store\<close>

definition life_move ::
  "'b digests \<Rightarrow> 'b community_event \<Rightarrow> rstr \<Rightarrow> pending_proposal option \<Rightarrow> pending_proposal \<Rightarrow> bool" where
  "life_move E e i old q' \<longleftrightarrow>
     old = None \<and> \<not> decided_status (pp_status q') \<and> was_published E q' e
     \<or> (\<exists>q. old = Some q \<and> same_review q q' \<and> open_status (pp_status q)
          \<and> (decided_status (pp_status q') \<longrightarrow> decided_status (pp_status q) \<or> was_approved q' e))"

lemma store_moves_mono:
  "store_moves P c c' \<Longrightarrow> (\<And>i old q. P i old q \<Longrightarrow> Q i old q) \<Longrightarrow> store_moves Q c c'"
  by (fastforce simp: store_moves_def)

text \<open>Maintenance leaves the policy file and the store alone.\<close>

definition run_change :: "'b community_machine \<Rightarrow> 'b community_machine \<Rightarrow> bool" where
  "run_change m m' \<longleftrightarrow> com_policy m' = com_policy m \<and> com_store m' = com_store m"

lemma run_change_simps [simp]:
  "run_change m m" "run_change m (end_run m') = run_change m m'" "run_change m (in_run s m') = run_change m m'"
  "run_change m (m'\<lparr>com_lease := l, com_session := x\<rparr>) = run_change m m'"
  "run_change m (m'\<lparr>com_session := x\<rparr>) = run_change m m'" "run_change m (m'\<lparr>com_lease := l\<rparr>) = run_change m m'"
  by (simp_all add: run_change_def end_run_def in_run_def)

lemma save_receipts_run [simp]: "save_receipts w l m = (r, m') \<Longrightarrow> run_change n m' = run_change n m"
  by (auto simp: run_change_def save_receipts_def)

lemma maintain_start_run: "maintain_start E env now m = (r, m') \<Longrightarrow> run_change m m'"
  unfolding maintain_start_def Let_def by (auto split: sum.splits prod.splits if_splits)

lemma maintain_look_run: "maintain_look E env m = (r, m') \<Longrightarrow> run_change m m'"
  unfolding maintain_look_def by (auto split: sum.splits option.splits list.splits if_splits)

lemma maintain_reserve_run: "maintain_reserve E env m = (r, m') \<Longrightarrow> run_change m m'"
  unfolding maintain_reserve_def Let_def
  by (auto split: sum.splits option.splits prod.splits run_phase.splits if_splits)

lemma maintain_mutate_run: "maintain_mutate E cancelled m = (r, m') \<Longrightarrow> run_change m m'"
  unfolding maintain_mutate_def by (auto split: option.splits run_phase.splits if_splits)

lemma maintain_settle_run: "maintain_settle env m = (r, m') \<Longrightarrow> run_change m m'"
  unfolding maintain_settle_def Let_def
  by (auto split: sum.splits option.splits prod.splits run_phase.splits if_splits)

fun transaction :: "'b community_call \<Rightarrow> bool" where
  "transaction (MaintainStart env now) = False"
| "transaction (MaintainLook env) = False"
| "transaction (MaintainReserve env) = False"
| "transaction (MaintainMutate cancelled) = False"
| "transaction (MaintainSettle env) = False"
| "transaction RunCrashes = False"
| "transaction ClearLease = False"
| "transaction _ = True"

lemma transaction_files:
  "community_step E c m = (r, m') \<Longrightarrow> transaction c \<Longrightarrow> file_change m m'"
  by (cases c) (auto simp: map_prod_def split: prod.splits
      dest: set_ops_mode_files inspect_pending_files begin_assessment_files finish_assessment_files
        approve_files reconcile_approvals_files reject_files)

lemma maintenance_run:
  "community_step E c m = (r, m') \<Longrightarrow> \<not> transaction c \<Longrightarrow> run_change m m'"
  by (cases c) (auto simp: map_prod_def split: prod.splits if_splits
      dest: maintain_start_run maintain_look_run maintain_reserve_run maintain_mutate_run maintain_settle_run)

lemma set_ops_mode_store: "set_ops_mode E env expected guild owner mode c = (r, c') \<Longrightarrow> com_store c' = com_store c"
  unfolding set_ops_mode_def Let_def
  by (auto simp: owner_edits_def split: if_splits sum.splits option.splits)

lemma community_step_store:
  assumes "community_step E c m = (r, m')"
  shows "store_moves (life_move E (c, r)) m m'"
proof (cases "transaction c")
  case False
  with assms have "run_change m m'" by (simp add: maintenance_run)
  then show ?thesis by (simp add: store_moves_same run_change_def)
next
  case True
  then show ?thesis
  proof (cases c)
    case (OwnerEdits edited)
    with assms show ?thesis by (auto intro: store_moves_same)
  next
    case (ChangeMode env expected guild owner mode)
    with assms show ?thesis by (auto simp: map_prod_def split: prod.splits intro: store_moves_same dest: set_ops_mode_store)
  next
    case (InspectPending locked w p now)
    with assms obtain r' where "inspect_pending E locked w p now m = (r', m')" by (auto simp: map_prod_def split: prod.splits)
    then show ?thesis
      by (rule store_moves_mono [OF inspect_pending_moves]) (auto simp: life_move_def decided_status_def open_status_def)
  next
    case (BeginAssessment locked w p scope digest now)
    with assms obtain r' where "begin_assessment E locked w p scope digest now m = (r', m')"
      by (auto simp: map_prod_def split: prod.splits)
    then show ?thesis by (rule store_moves_mono [OF begin_assessment_moves]) simp
  next
    case (FinishAssessment locked w res p current ps outcome now)
    with assms obtain r' where "finish_assessment E locked w res p current ps outcome now m = (r', m')"
      by (auto simp: map_prod_def split: prod.splits)
    then show ?thesis
      by (rule store_moves_mono [OF finish_assessment_moves])
        (auto simp: life_move_def decided_status_def was_published_def FinishAssessment published_as_def)
  next
    case (ApproveProposal req env)
    with assms obtain r' where "approve E req env m = (r', m')" by (auto simp: map_prod_def split: prod.splits)
    then show ?thesis
      by (rule store_moves_mono [OF approve_moves])
        (auto simp: life_move_def approval_move_def was_approved_def ApproveProposal open_status_def intro: approved_by_same)
  next
    case (ReconcileApprovals locked w scope)
    with assms obtain r' where "reconcile_approvals E locked w scope m = (r', m')"
      by (auto simp: map_prod_def split: prod.splits)
    then show ?thesis
      by (rule store_moves_mono [OF reconcile_approvals_moves])
        (auto simp: life_move_def reconciled_move_def needs_reconciliation_def decided_status_def open_status_def)
  next
    case (RejectProposal locked w scope digest revision i hash o' now commit_now)
    with assms obtain r' where "reject E locked w scope digest revision i hash o' now commit_now m = (r', m')"
      by (auto simp: map_prod_def split: prod.splits)
    then show ?thesis
      by (rule store_moves_mono [OF reject_moves])
        (auto simp: life_move_def rejected_move_def decided_status_def open_status_def)
  qed simp_all
qed

end
