(* ===== verification/Community_Runs.thy ===== *)
theory Community_Runs
  imports Community_History
begin

text \<open>
  The steps of a maintenance run as elimination rules, and the invariants of a run: the ledger
  in the file is well-formed and is the one the run works on, the receipt of the action in hand
  is reserved, and the action in hand, if a model proposed it, was approved.
\<close>

section \<open>Steps of a run\<close>

lemma maintain_startE:
  assumes "maintain_start E env now m = (r, m')"
  obtains (same) "m' = m"
  | (unsaved) l w where "led_receipts l = led_receipts (load_receipts m)" "\<not> com_lease m"
      "m' = m\<lparr>com_receipts := after_write w (com_receipts m) (Some l)\<rparr>"
  | (started) p digest proposals l everyone where "load_policy E m = Inr (p, digest)" "load_store E m = Inr proposals"
      "\<not> com_lease m" "pol_mode p \<noteq> OpsStopped" "led_receipts l = led_receipts (load_receipts m)"
      "m' = m\<lparr>com_receipts := Some l, com_lease := True, com_session := Some
         \<lparr>rs_policy = p, rs_digest = digest, rs_proposals = proposals, rs_ledger = l, rs_everyone = everyone,
          rs_now = now, rs_rest = pol_actions p, rs_phase = AtAction\<rparr>\<rparr>"
proof (cases "m' = m")
  case True
  then show ?thesis by (rule same)
next
  case False
  with assms obtain p digest proposals owner everyone where
    start: "load_policy E m = Inr (p, digest)" "load_store E m = Inr proposals" "\<not> com_lease m" "pol_mode p \<noteq> OpsStopped"
      "se_guild env = Inr (owner, everyone)"
    unfolding maintain_start_def Let_def by (auto split: sum.splits prod.splits if_splits)
  let ?l = "(load_receipts m)\<lparr>led_last_assessment := Some now, led_last_policy_digest := Some digest\<rparr>"
  from assms False start show ?thesis
    unfolding maintain_start_def Let_def save_receipts_def
    by (cases "se_write env") (auto split: if_splits intro: unsaved [of ?l FileKept] unsaved [of ?l FileUnconfirmed] started [of p digest proposals ?l everyone])
qed

lemma maintain_lookE:
  assumes "maintain_look E env m = (r, m')"
  obtains (same) "m' = m"
  | (ended) s where "com_session m = Some s" "m' = end_run m"
  | (looked) s a rest phase where "com_session m = Some s" "rs_phase s = AtAction" "rs_rest s = a # rest"
      "look_action E env s a m = Inr phase" "m' = in_run (s\<lparr>rs_rest := rest, rs_phase := phase\<rparr>) m"
proof (cases "com_session m")
  case None
  with assms same show ?thesis by (simp add: maintain_look_def)
next
  case (Some s)
  note run = assms [unfolded maintain_look_def Some option.case]
  show ?thesis
  proof (cases "rs_phase s \<noteq> AtAction \<or> rs_rest s = [] \<or> lk_cancelled env")
    case True
    with run Some same ended show ?thesis by (auto split: if_splits list.splits)
  next
    case False
    then obtain a rest where rest: "rs_rest s = a # rest" by (cases "rs_rest s") auto
    with run False show ?thesis
      by (cases "look_action E env s a m") (auto intro: ended [OF Some] looked [OF Some _ rest])
  qed
qed

text \<open>What looking at an action can find.\<close>

definition looked_public :: "look_env \<Rightarrow> run_session \<Rightarrow> ops_action \<Rightarrow> guild_channel option \<Rightarrow> bool" where
  "looked_public env s a target \<longleftrightarrow> (case target of
     None \<Rightarrow> handled_elsewhere (oa_operation a)
   | Some c \<Rightarrow> \<exists>channels. lk_channels env = Inr channels
       \<and> boundary_check (rs_policy s) (rs_everyone s) channels (oa_operation a) = Inr c)"

lemma look_actionE:
  assumes "look_action E env s a c = Inr phase"
  obtains "executable_action E (rs_proposals s) a" "phase = AtAction"
  | before target where "executable_action E (rs_proposals s) a" "phase = HasLooked a before target"
      "looked_public env s a target" "settled_action (rs_ledger s) a = Inr False"
proof -
  from assms have ex: "executable_action E (rs_proposals s) a" by (auto simp: look_action_def split: if_splits)
  with assms obtain settled where settled: "settled_action (rs_ledger s) a = Inr settled"
    by (auto simp: look_action_def)
  show ?thesis
  proof (cases settled)
    case True
    with assms ex settled have "phase = AtAction" by (simp add: look_action_def)
    with ex show ?thesis by (rule that(1))
  next
    case False
    with assms ex settled have "look_matrix env s a = Inr phase \<and> handled_elsewhere (oa_operation a)
        \<or> look_channel env s a = Inr phase"
      by (auto simp: look_action_def split: if_splits sum.splits)
    then show ?thesis
    proof (elim disjE conjE)
      assume matrix: "look_matrix env s a = Inr phase" "handled_elsewhere (oa_operation a)"
      then obtain before where "phase = HasLooked a before None" by (auto simp: look_matrix_def split: if_splits)
      with that(2) ex settled False matrix(2) show ?thesis by (simp add: looked_public_def)
    next
      assume "look_channel env s a = Inr phase"
      then obtain channels where channels: "lk_channels env = Inr channels"
        and rest: "phase = AtAction \<or> (\<exists>c. boundary_check (rs_policy s) (rs_everyone s) channels (oa_operation a) = Inr c
             \<and> phase = HasLooked a (lk_record env c) (Some c))"
        by (auto simp: look_channel_def split: if_splits)
      from rest show ?thesis
        using that ex settled False channels by (auto simp: looked_public_def)
    qed
  qed
qed

lemma maintain_reserveE:
  assumes "maintain_reserve E env m = (r, m')"
  obtains (same) "m' = m"
  | (ended) s where "com_session m = Some s" "m' = end_run m"
  | (proposed) s a before target l where "com_session m = Some s" "rs_phase s = HasLooked a before target"
      "l = propose_only s a before target"
      "m' = end_run (m\<lparr>com_receipts := after_write (re_write env) (com_receipts m) (Some l)\<rparr>)
       \<or> m' = in_run (s\<lparr>rs_ledger := l, rs_phase := AtAction\<rparr>) (m\<lparr>com_receipts := Some l\<rparr>)"
  | (reserved) s a before target l where "com_session m = Some s" "rs_phase s = HasLooked a before target"
      "l = with_receipt (new_ops_receipt s a before StReserved (reserved_detail target)) (rs_ledger s)"
      "authorize_action (rs_ledger s) (rs_policy s) a (rs_now s) = Inr ()"
      "m' = end_run (m\<lparr>com_receipts := after_write (re_write env) (com_receipts m) (Some l)\<rparr>)
       \<or> m' = in_run (s\<lparr>rs_ledger := l, rs_phase := HasReserved a target\<rparr>) (m\<lparr>com_receipts := Some l\<rparr>)"
proof (cases "\<exists>s a before target. com_session m = Some s \<and> rs_phase s = HasLooked a before target")
  case False
  with assms have "m' = m"
    unfolding maintain_reserve_def by (auto split: option.splits run_phase.splits)
  then show ?thesis by (rule same)
next
  case True
  then obtain s a before target where s: "com_session m = Some s" "rs_phase s = HasLooked a before target" by blast
  note run = assms [unfolded maintain_reserve_def s option.case run_phase.case Let_def save_receipts_def prod.case]
  show ?thesis
  proof (cases "pol_mode (rs_policy s) = OpsPropose")
    case True
    with run s show ?thesis by (cases "re_write env") (auto intro: proposed [OF s refl])
  next
    case False
    show ?thesis
    proof (cases "reserve_allowed E env s a target m")
      case (Inl e)
      with run False have "m' = end_run m" by simp
      with s(1) show ?thesis by (rule ended)
    next
      case (Inr u)
      then have "authorize_action (rs_ledger s) (rs_policy s) a (rs_now s) = Inr ()"
        by (auto simp: reserve_allowed_def)
      with run False Inr s show ?thesis
        by (cases "re_write env") (auto intro: reserved [OF s refl])
    qed
  qed
qed

lemma maintain_mutateE:
  assumes "maintain_mutate E cancelled m = (r, m')"
  obtains (same) "m' = m" "r = None"
  | (mutated) s a target begun where "com_session m = Some s" "rs_phase s = HasReserved a target"
      "m' = in_run (s\<lparr>rs_phase := HasMutated a target begun\<rparr>) m" "begun = (\<not> cancelled \<and> policy_unchanged E s m)"
      "r = (if begun then Some (a, rs_now s) else None)"
proof (cases "\<exists>s a target. com_session m = Some s \<and> rs_phase s = HasReserved a target")
  case False
  with assms have "m' = m \<and> r = None"
    unfolding maintain_mutate_def by (auto split: option.splits run_phase.splits)
  with same show ?thesis by simp
next
  case True
  then obtain s a target where s: "com_session m = Some s" "rs_phase s = HasReserved a target" by blast
  note run = assms [unfolded maintain_mutate_def s option.case run_phase.case]
  show ?thesis
    by (cases "\<not> cancelled \<and> policy_unchanged E s m") (use run mutated [OF s, of True] mutated [OF s, of False] in auto)
qed

lemma maintain_settleE:
  assumes "maintain_settle env m = (r, m')"
  obtains (same) "m' = m"
  | (ended) s where "com_session m = Some s" "m' = end_run m"
  | (settled) s a target begun old l where "com_session m = Some s" "rs_phase s = HasMutated a target begun"
      "fmlookup (led_receipts (rs_ledger s)) (oa_key a) = Some old"
      "l = (rs_ledger s)\<lparr>led_receipts := fmupd (oa_key a) (settled_receipt env a target begun old) (led_receipts (rs_ledger s))\<rparr>"
      "m' = end_run (m\<lparr>com_receipts := after_write (st_write env) (com_receipts m) (Some l)\<rparr>)
       \<or> m' = in_run (s\<lparr>rs_ledger := l, rs_phase := AtAction\<rparr>) (m\<lparr>com_receipts := Some l\<rparr>)"
proof (cases "\<exists>s a target begun. com_session m = Some s \<and> rs_phase s = HasMutated a target begun")
  case False
  with assms have "m' = m"
    unfolding maintain_settle_def by (auto split: option.splits run_phase.splits)
  then show ?thesis by (rule same)
next
  case True
  then obtain s a target begun where s: "com_session m = Some s" "rs_phase s = HasMutated a target begun" by blast
  note run = assms [unfolded maintain_settle_def s option.case run_phase.case Let_def save_receipts_def prod.case]
  show ?thesis
  proof (cases "fmlookup (led_receipts (rs_ledger s)) (oa_key a)")
    case None
    with run have "m' = end_run m" by simp
    with s(1) show ?thesis by (rule ended)
  next
    case (Some old)
    with run show ?thesis
      by (cases "st_write env") (auto split: if_splits intro: settled [OF s Some refl])
  qed
qed

section \<open>The ledger of a run\<close>

fun phase_action :: "run_phase \<Rightarrow> ops_action option" where
  "phase_action AtAction = None"
| "phase_action (HasLooked a _ _) = Some a"
| "phase_action (HasReserved a _) = Some a"
| "phase_action (HasMutated a _ _) = Some a"

fun phase_reserved :: "run_phase \<Rightarrow> ops_action option" where
  "phase_reserved (HasReserved a _) = Some a"
| "phase_reserved (HasMutated a _ _) = Some a"
| "phase_reserved _ = None"

definition in_hand :: "run_session \<Rightarrow> ops_action \<Rightarrow> bool" where
  "in_hand s a \<longleftrightarrow> (\<exists>r. fmlookup (led_receipts (rs_ledger s)) (oa_key a) = Some r \<and> rcp_action r = a
     \<and> rcp_status r = StReserved \<and> rcp_at r = rs_now s) \<and> pol_mode (rs_policy s) = OpsApply \<and> a \<in> set (pol_actions (rs_policy s))"

definition run_ok :: "'b community_machine \<Rightarrow> bool" where
  "run_ok m \<longleftrightarrow> ops_ledger_ok (load_receipts m)
     \<and> (\<forall>s. com_session m = Some s \<longrightarrow> com_lease m \<and> com_receipts m = Some (rs_ledger s)
          \<and> (\<forall>a. phase_reserved (rs_phase s) = Some a \<longrightarrow> in_hand s a))"

lemma run_okD:
  assumes "run_ok m"
  shows "ops_ledger_ok (load_receipts m)" "com_session m = Some s \<Longrightarrow> com_receipts m = Some (rs_ledger s)"
    "com_session m = Some s \<Longrightarrow> com_lease m"
    "com_session m = Some s \<Longrightarrow> phase_reserved (rs_phase s) = Some a \<Longrightarrow> in_hand s a"
  using assms by (auto simp: run_ok_def)

lemma load_receipts_simps [simp]:
  "load_receipts (end_run m) = load_receipts m" "load_receipts (in_run s m) = load_receipts m"
  "load_receipts (m\<lparr>com_receipts := Some l\<rparr>) = l" "com_session (end_run m) = None" "com_session (in_run s m) = Some s"
  "com_receipts (in_run s m) = com_receipts m" "com_lease (in_run s m) = com_lease m"
  "com_receipts (end_run m) = com_receipts m"
  "load_receipts (m\<lparr>com_lease := b, com_session := x\<rparr>) = load_receipts m"
  "load_receipts (m\<lparr>com_session := x\<rparr>) = load_receipts m" "load_receipts (m\<lparr>com_lease := b\<rparr>) = load_receipts m"
  by (simp_all add: load_receipts_def end_run_def in_run_def)

lemma load_receipts_write:
  "load_receipts (m\<lparr>com_receipts := after_write w (com_receipts m) (Some l)\<rparr>) = load_receipts m
   \<or> load_receipts (m\<lparr>com_receipts := after_write w (com_receipts m) (Some l)\<rparr>) = l"
  by (cases w) (simp_all add: load_receipts_def)

lemma session_ledger: "run_ok m \<Longrightarrow> com_session m = Some s \<Longrightarrow> load_receipts m = rs_ledger s"
  by (simp add: run_okD(2) load_receipts_def)

text \<open>What a step may do to the receipts: nothing, or replace one of them.\<close>

definition ledger_move :: "'b community_machine \<Rightarrow> ops_ledger \<Rightarrow> bool" where
  "ledger_move m l \<longleftrightarrow> led_receipts l = led_receipts (load_receipts m)
     \<or> (\<exists>r. l = with_receipt r (load_receipts m) \<and> ops_ledger_ok l
          \<and> (\<forall>old. fmlookup (led_receipts (load_receipts m)) (oa_key (rcp_action r)) = Some old \<longrightarrow> receipt_charged old
               \<longrightarrow> receipt_charged r \<and> rcp_action r = rcp_action old \<and> rcp_at r = rcp_at old))"

lemma ledger_move_same [simp]: "ledger_move m (load_receipts m)"
  by (simp add: ledger_move_def)

lemma ledger_move_ok: "ledger_move m l \<Longrightarrow> ops_ledger_ok (load_receipts m) \<Longrightarrow> ops_ledger_ok l"
  by (auto simp: ledger_move_def ops_ledger_ok_receipts [of l "load_receipts m"])

lemma propose_only_move:
  assumes "run_ok m" and "com_session m = Some s"
  shows "ledger_move m (propose_only s a before target)"
proof (cases "fmlookup (led_receipts (rs_ledger s)) (oa_key a)")
  case None
  let ?r = "new_ops_receipt s a before StProposed (proposed_detail target)"
  have "ops_ledger_ok (with_receipt ?r (rs_ledger s))"
    using run_okD(1) [OF assms(1)] by (intro proposing_keeps_ok) (simp_all add: session_ledger [OF assms] new_ops_receipt_def)
  with None show ?thesis
    by (auto simp: ledger_move_def propose_only_def session_ledger [OF assms] new_ops_receipt_def)
next
  case (Some r)
  then show ?thesis by (simp add: propose_only_def ledger_move_def session_ledger [OF assms])
qed

lemma reserved_move:
  assumes "run_ok m" and "com_session m = Some s"
    and "authorize_action (rs_ledger s) (rs_policy s) a (rs_now s) = Inr ()"
  shows "ledger_move m (with_receipt (new_ops_receipt s a before StReserved detail) (rs_ledger s))"
proof -
  let ?r = "new_ops_receipt s a before StReserved detail"
  have "ops_ledger_ok (with_receipt ?r (rs_ledger s))"
    by (rule reserving_keeps_ok [of _ "rs_policy s"])
      (use run_okD(1) [OF assms(1)] assms(3) in \<open>simp_all add: session_ledger [OF assms(1,2)] new_ops_receipt_def\<close>)
  moreover have "\<not> receipt_charged old" if "fmlookup (led_receipts (rs_ledger s)) (oa_key a) = Some old" for old
    using assms(3) that by (elim authorizedE) (simp add: receipt_charged_def)
  ultimately show ?thesis
    by (auto simp: ledger_move_def session_ledger [OF assms(1,2)] new_ops_receipt_def)
qed

lemma settled_receipt_simps [simp]:
  "rcp_action (settled_receipt env a target begun r) = rcp_action r" "rcp_at (settled_receipt env a target begun r) = rcp_at r"
  "receipt_charged (settled_receipt env a target begun r)"
  by (simp_all add: settled_receipt_def receipt_charged_def Let_def)

lemma settled_move:
  assumes "run_ok m" and "com_session m = Some s" and "rs_phase s = HasMutated a target begun"
    and "fmlookup (led_receipts (rs_ledger s)) (oa_key a) = Some old"
  shows "ledger_move m ((rs_ledger s)\<lparr>led_receipts := fmupd (oa_key a) (settled_receipt env a target begun old) (led_receipts (rs_ledger s))\<rparr>)"
proof -
  let ?r = "settled_receipt env a target begun old"
  from run_okD(4) [OF assms(1,2), of a] assms(3,4) have old: "rcp_action old = a" "rcp_status old = StReserved"
    by (auto simp: in_hand_def)
  have "ops_ledger_ok (with_receipt ?r (rs_ledger s))"
    by (rule settling_keeps_ok [of _ _ old])
      (use run_okD(1) [OF assms(1)] assms(4) old in
        \<open>simp_all add: session_ledger [OF assms(1,2)] receipt_charged_def receipt_unresolved_def\<close>)
  moreover have "with_receipt ?r (rs_ledger s) = (rs_ledger s)\<lparr>led_receipts := fmupd (oa_key a) ?r (led_receipts (rs_ledger s))\<rparr>"
    using old by (simp add: with_receipt_def)
  ultimately show ?thesis
    unfolding ledger_move_def session_ledger [OF assms(1,2)] using assms(4) old
    by (intro disjI2 exI [where x = ?r]) simp
qed

section \<open>Every step keeps the ledger\<close>

text \<open>A session after a step: none, the old one, or one whose ledger is in the file.\<close>

definition session_change :: "'b community_machine \<Rightarrow> 'b community_machine \<Rightarrow> bool" where
  "session_change m m' \<longleftrightarrow> ledger_move m (load_receipts m')
     \<and> (\<forall>s'. com_session m' = Some s' \<longrightarrow> com_lease m' \<and> com_receipts m' = Some (rs_ledger s')
          \<and> (\<forall>a. phase_reserved (rs_phase s') = Some a \<longrightarrow> in_hand s' a))"

lemma session_change_ok: "run_ok m \<Longrightarrow> session_change m m' \<Longrightarrow> run_ok m'"
  by (auto simp: session_change_def run_ok_def intro: ledger_move_ok)

lemma session_change_same [simp]: "run_ok m \<Longrightarrow> session_change m m"
  by (simp add: session_change_def run_ok_def)

lemma session_change_end [simp]: "session_change m (end_run m)"
  by (simp add: session_change_def)

lemma session_change_saved:
  assumes "ledger_move m l"
    and "m' = end_run (m\<lparr>com_receipts := after_write w (com_receipts m) (Some l)\<rparr>)
       \<or> m' = in_run (s\<lparr>rs_ledger := l, rs_phase := phase\<rparr>) (m\<lparr>com_receipts := Some l\<rparr>)"
    and "com_lease m" and "\<And>a. phase_reserved phase = Some a \<Longrightarrow> in_hand (s\<lparr>rs_ledger := l, rs_phase := phase\<rparr>) a"
  shows "session_change m m'"
  using assms load_receipts_write [of w m l] by (auto simp: session_change_def)

lemma maintain_start_change:
  assumes "run_ok m" and "maintain_start E env now m = (r, m')"
  shows "session_change m m'"
  using assms(2)
proof (cases rule: maintain_startE)
  case same
  with assms(1) show ?thesis by simp
next
  case (unsaved l w)
  then have "com_session m = None" using run_okD(3) [OF assms(1)] by (cases "com_session m") auto
  with unsaved load_receipts_write [of w m l] show ?thesis
    by (auto simp: session_change_def ledger_move_def)
next
  case (started p digest proposals l everyone)
  then show ?thesis by (simp add: session_change_def ledger_move_def load_receipts_def)
qed

lemma maintain_look_change:
  assumes "run_ok m" and "maintain_look E env m = (r, m')"
  shows "session_change m m'"
  using assms(2)
proof (cases rule: maintain_lookE)
  case (looked s a rest phase)
  from looked(4) have "phase_reserved phase = None" by (cases rule: look_actionE) simp_all
  with looked run_okD(2,3) [OF assms(1)] show ?thesis by (simp add: session_change_def)
qed (use assms(1) in simp_all)

lemma maintain_reserve_change:
  assumes "run_ok m" and "maintain_reserve E env m = (r, m')"
  shows "session_change m m'"
  using assms(2)
proof (cases rule: maintain_reserveE)
  case (proposed s a before target l)
  show ?thesis
    by (rule session_change_saved [OF _ proposed(4)])
      (use propose_only_move [OF assms(1) proposed(1)] run_okD(3) [OF assms(1) proposed(1)] proposed(3) in simp_all)
next
  case (reserved s a before target l)
  have "pol_mode (rs_policy s) = OpsApply" "a \<in> set (pol_actions (rs_policy s))"
    using reserved(4) by (auto elim: authorizedE)
  then have "in_hand (s\<lparr>rs_ledger := l, rs_phase := HasReserved a target\<rparr>) a"
    unfolding reserved(3) in_hand_def by (simp add: new_ops_receipt_def)
  then show ?thesis
    by (intro session_change_saved [OF _ reserved(5)])
      (use reserved_move [OF assms(1) reserved(1,4)] run_okD(3) [OF assms(1) reserved(1)] reserved(3) in auto)
qed (use assms(1) in simp_all)

lemma maintain_mutate_change:
  assumes "run_ok m" and "maintain_mutate E cancelled m = (r, m')"
  shows "session_change m m'"
  using assms(2)
proof (cases rule: maintain_mutateE)
  case (mutated s a target begun)
  from run_okD(4) [OF assms(1) mutated(1), of a] mutated(2) have "in_hand s a" by simp
  then have "in_hand (s\<lparr>rs_phase := HasMutated a target begun\<rparr>) a" by (simp add: in_hand_def)
  with mutated run_okD(2,3) [OF assms(1)] show ?thesis by (simp add: session_change_def)
qed (use assms(1) in simp_all)

lemma maintain_settle_change:
  assumes "run_ok m" and "maintain_settle env m = (r, m')"
  shows "session_change m m'"
  using assms(2)
proof (cases rule: maintain_settleE)
  case (settled s a target begun old l)
  show ?thesis
    by (rule session_change_saved [OF _ settled(5)])
      (use settled_move [OF assms(1) settled(1,2,3)] run_okD(3) [OF assms(1) settled(1)] settled(4) in simp_all)
qed (use assms(1) in simp_all)

lemma file_change_session:
  assumes "run_ok m" and "file_change m m'"
  shows "session_change m m' \<and> com_session m' = com_session m"
proof -
  from assms(2) obtain p s where "m' = m\<lparr>com_policy := p, com_store := s\<rparr>" by (auto simp: file_change_def)
  then have "load_receipts m' = load_receipts m" "com_session m' = com_session m" "com_lease m' = com_lease m"
    "com_receipts m' = com_receipts m" by (simp_all add: load_receipts_def)
  with assms(1) show ?thesis by (auto simp: session_change_def run_ok_def)
qed

lemma community_step_change:
  assumes "run_ok m" and "community_step E c m = (r, m')"
  shows "session_change m m'"
proof (cases "transaction c")
  case True
  with assms show ?thesis by (blast dest: transaction_files file_change_session)
next
  case False
  have crash: "session_change m (m\<lparr>com_session := None\<rparr>)" by (simp add: session_change_def)
  have clear: "com_session m = None \<Longrightarrow> session_change m (m\<lparr>com_lease := False\<rparr>)" by (simp add: session_change_def)
  from False assms show ?thesis
    by (cases c) (auto simp: map_prod_def crash clear split: prod.splits if_splits
        dest: maintain_start_change maintain_look_change maintain_reserve_change maintain_mutate_change maintain_settle_change)
qed

lemma run_ok_step: "run_ok m \<Longrightarrow> community_step E c m = (r, m') \<Longrightarrow> run_ok m'"
  by (blast intro: session_change_ok community_step_change)

lemma run_ok_new [simp]: "run_ok (new_community bytes)"
  by (simp add: run_ok_def new_community_def load_receipts_def)

end
