(* ===== verification/Community_Origin.thy ===== *)
theory Community_Origin
  imports Community_Runs
begin

text \<open>
  Where the actions of a run come from, and what was done before: the history of a model's
  action, the keys that are spent, and the stop of the owner.
\<close>

section \<open>The origin of a model's action\<close>

definition traced_proposal :: "'b digests \<Rightarrow> 'b community_event list \<Rightarrow> pending_proposal \<Rightarrow> bool" where
  "traced_proposal E h q \<longleftrightarrow> happened [was_published E q] h
     \<and> (decided_status (pp_status q) \<longrightarrow> happened [was_approved q, was_published E q] h)"

lemma proposal_traced_later: "traced_proposal E h q \<Longrightarrow> traced_proposal E (e # h) q"
  unfolding traced_proposal_def by (blast intro: happened_later)

lemma traced_move:
  assumes "life_move E e i old q'" and "\<And>q. old = Some q \<Longrightarrow> traced_proposal E h q"
  shows "traced_proposal E (e # h) q'"
  using assms(1) unfolding life_move_def
proof (elim disjE exE conjE)
  assume "\<not> decided_status (pp_status q')" "was_published E q' e"
  then show ?thesis by (simp add: traced_proposal_def)
next
  fix q
  assume q: "old = Some q" "same_review q q'" and decided: "decided_status (pp_status q') \<longrightarrow> decided_status (pp_status q) \<or> was_approved q' e"
  from assms(2) [OF q(1)] have old: "happened [was_published E q] h"
      "decided_status (pp_status q) \<longrightarrow> happened [was_approved q, was_published E q] h"
    by (simp_all add: traced_proposal_def)
  have "happened [was_published E q'] h"
    by (rule happened_mono [OF old(1)]) (use was_published_same [OF q(2)] in auto)
  moreover have "happened [was_approved q', was_published E q'] h" if "decided_status (pp_status q)"
    by (rule happened_mono [OF mp [OF old(2) that]])
      (use was_published_same [OF q(2)] was_approved_same [OF q(2)] in auto)
  ultimately show ?thesis using decided by (auto simp: traced_proposal_def intro: happened_later)
qed

definition model_key :: "rstr \<Rightarrow> bool" where
  "model_key key \<longleftrightarrow> strip_prefix (lit ''proposal-'') key \<noteq> None"

definition approved_action :: "'b digests \<Rightarrow> 'b community_event list \<Rightarrow> ops_action \<Rightarrow> bool" where
  "approved_action E h a \<longleftrightarrow> (\<exists>q. proposal_action q = a \<and> validate_pending E q = Inr ()
     \<and> happened [was_approved q, was_published E q] h)"

lemma approved_action_later: "approved_action E h a \<Longrightarrow> approved_action E (e # h) a"
  unfolding approved_action_def by (blast intro: happened_later)

definition origin_ok :: "'b digests \<Rightarrow> 'b community_event list \<Rightarrow> 'b community_machine \<Rightarrow> bool" where
  "origin_ok E h m \<longleftrightarrow> (\<forall>i q. proposal_of m i = Some q \<longrightarrow> traced_proposal E h q)
     \<and> (\<forall>s. com_session m = Some s \<longrightarrow>
          (\<forall>i q. fmlookup (prst_proposals (rs_proposals s)) i = Some q \<longrightarrow> traced_proposal E h q)
          \<and> (\<forall>a. phase_action (rs_phase s) = Some a \<longrightarrow> model_key (oa_key a) \<longrightarrow> approved_action E h a))"

lemma origin_okD:
  assumes "origin_ok E h m"
  shows "proposal_of m i = Some q \<Longrightarrow> traced_proposal E h q"
    and "com_session m = Some s \<Longrightarrow> fmlookup (prst_proposals (rs_proposals s)) i = Some q \<Longrightarrow> traced_proposal E h q"
    and "com_session m = Some s \<Longrightarrow> phase_action (rs_phase s) = Some a \<Longrightarrow> model_key (oa_key a) \<Longrightarrow> approved_action E h a"
  using assms unfolding origin_ok_def by blast+

lemma executable_approved:
  assumes "executable_action E st a" and "model_key (oa_key a)"
    and "\<And>i q. fmlookup (prst_proposals st) i = Some q \<Longrightarrow> traced_proposal E h q"
  shows "approved_action E h a"
proof -
  from assms(1,2) obtain i q where "fmlookup (prst_proposals st) i = Some q" "pp_status q = PrApproved"
      "proposal_action q = a" "validate_pending E q = Inr ()"
    by (auto simp: executable_action_def model_key_def fm_any_iff)
  with assms(3) [of i q] show ?thesis by (auto simp: approved_action_def traced_proposal_def decided_status_def)
qed

text \<open>The proposals a run works with and the action it has in hand.\<close>

definition session_source :: "'b digests \<Rightarrow> 'b community_machine \<Rightarrow> 'b community_machine \<Rightarrow> bool" where
  "session_source E m m' \<longleftrightarrow> (\<forall>s'. com_session m' = Some s' \<longrightarrow>
     (load_store E m = Inr (rs_proposals s') \<and> phase_action (rs_phase s') = None)
     \<or> (\<exists>s. com_session m = Some s \<and> rs_proposals s' = rs_proposals s
          \<and> (\<forall>a. phase_action (rs_phase s') = Some a \<longrightarrow>
               phase_action (rs_phase s) = Some a \<or> executable_action E (rs_proposals s) a)))"

lemma session_source_simps [simp]:
  "session_source E m m" "session_source E m (end_run m')"
  "com_session m' = com_session m \<Longrightarrow> session_source E m m'" "com_session m' = None \<Longrightarrow> session_source E m m'"
  by (auto simp: session_source_def)

lemma session_source_in_run:
  assumes "com_session m = Some s" and "rs_proposals s' = rs_proposals s"
    and "\<And>a. phase_action (rs_phase s') = Some a \<Longrightarrow>
      phase_action (rs_phase s) = Some a \<or> executable_action E (rs_proposals s) a"
  shows "session_source E m (in_run s' n)"
  using assms by (auto simp: session_source_def)

lemma community_step_source:
  assumes "run_ok m" and "community_step E c m = (r, m')"
  shows "session_source E m m'"
proof (cases "transaction c")
  case True
  with assms show ?thesis by (blast dest: transaction_files file_change_session intro: session_source_simps(3))
next
  case False
  have start: "session_source E m m'" if "maintain_start E env now m = (r', m')" for env now r'
    using that by (cases rule: maintain_startE) (auto simp: session_source_def)
  have look: "session_source E m m'" if "maintain_look E env m = (r', m')" for env r'
    using that
  proof (cases rule: maintain_lookE)
    case (looked s a rest phase)
    from looked(4) have "executable_action E (rs_proposals s) a" "phase_action phase = None \<or> phase_action phase = Some a"
      by (cases rule: look_actionE; simp)+
    with looked show ?thesis by (auto intro: session_source_in_run)
  qed simp_all
  have reserve: "session_source E m m'" if "maintain_reserve E env m = (r', m')" for env r'
    using that by (cases rule: maintain_reserveE) (auto intro: session_source_in_run)
  have mutate: "session_source E m m'" if "maintain_mutate E cancelled m = (r', m')" for cancelled r'
    using that by (cases rule: maintain_mutateE) (auto intro: session_source_in_run)
  have settle: "session_source E m m'" if "maintain_settle env m = (r', m')" for env r'
    using that by (cases rule: maintain_settleE) (auto intro: session_source_in_run)
  from False assms(2) start look reserve mutate settle show ?thesis
    by (cases c) (auto simp: map_prod_def split: prod.splits if_splits)
qed

lemma origin_ok_step:
  assumes "run_ok m" and "origin_ok E h m" and "community_step E c m = (r, m')"
  shows "origin_ok E ((c, r) # h) m'"
proof -
  note ok = origin_okD [OF assms(2)]
  have stored: "traced_proposal E ((c, r) # h) q" if "proposal_of m' i = Some q" for i q
  proof -
    from community_step_store [OF assms(3)] that
    have "proposal_of m i = Some q \<or> life_move E (c, r) i (proposal_of m i) q"
      unfolding store_moves_def by (metis option.inject)
    then show ?thesis
    proof
      assume "life_move E (c, r) i (proposal_of m i) q"
      then show ?thesis by (rule traced_move) (rule ok(1))
    qed (blast intro: proposal_traced_later ok(1))
  qed
  have session: "(\<forall>i q. fmlookup (prst_proposals (rs_proposals s')) i = Some q \<longrightarrow> traced_proposal E ((c, r) # h) q)
      \<and> (\<forall>a. phase_action (rs_phase s') = Some a \<longrightarrow> model_key (oa_key a) \<longrightarrow> approved_action E ((c, r) # h) a)"
    if s': "com_session m' = Some s'" for s'
    using community_step_source [OF assms(1,3), unfolded session_source_def, rule_format, OF s']
  proof (elim disjE exE conjE)
    assume load: "load_store E m = Inr (rs_proposals s')" and phase: "phase_action (rs_phase s') = None"
    from load have "proposal_of m = fmlookup (prst_proposals (rs_proposals s'))" by (cases rule: load_storeE)
    then have "traced_proposal E h q" if "fmlookup (prst_proposals (rs_proposals s')) i = Some q" for i q
      using that ok(1) [of i q] by simp
    with phase show ?thesis by (auto intro: proposal_traced_later)
  next
    fix s
    assume s: "com_session m = Some s" "rs_proposals s' = rs_proposals s"
      and phase: "\<forall>a. phase_action (rs_phase s') = Some a \<longrightarrow>
         phase_action (rs_phase s) = Some a \<or> executable_action E (rs_proposals s) a"
    have "approved_action E h a" if "phase_action (rs_phase s') = Some a" "model_key (oa_key a)" for a
    proof -
      from phase that(1) consider "phase_action (rs_phase s) = Some a" | "executable_action E (rs_proposals s) a" by blast
      then show ?thesis
      proof cases
        case 1
        from ok(3) [OF s(1) this that(2)] show ?thesis .
      next
        case 2
        then show ?thesis using that(2) ok(2) [OF s(1)] by (rule executable_approved)
      qed
    qed
    moreover have "traced_proposal E h q" if "fmlookup (prst_proposals (rs_proposals s')) i = Some q" for i q
      by (rule ok(2) [OF s(1)]) (use that in \<open>simp add: s(2)\<close>)
    ultimately show ?thesis by (auto intro: proposal_traced_later approved_action_later)
  qed
  from stored session show ?thesis by (auto simp: origin_ok_def)
qed

lemma trace_run_ok: "trace (community_step E) m0 h m \<Longrightarrow> run_ok m0 \<Longrightarrow> run_ok m"
  by (induction rule: trace.induct) (auto intro: run_ok_step)

lemma trace_origin_ok: "trace (community_step E) (new_community bytes) h m \<Longrightarrow> origin_ok E h m"
proof (induction rule: trace.induct)
  case trace_start
  then show ?case by (simp add: origin_ok_def proposal_of_def new_community_def)
next
  case (trace_call h m c r m')
  from trace_run_ok [OF trace_call.hyps(1)] have "run_ok m" by simp
  then show ?case using trace_call.IH trace_call.hyps(2) by (rule origin_ok_step)
qed

lemma mutation_stepE:
  assumes "community_step E c m = (RetMutation (Some (a, now)), m')"
  obtains s target where "com_session m = Some s" "rs_phase s = HasReserved a target" "policy_unchanged E s m"
    "now = rs_now s" "m' = in_run (s\<lparr>rs_phase := HasMutated a target True\<rparr>) m" "c = MaintainMutate False"
proof -
  from assms obtain cancelled where c: "c = MaintainMutate cancelled" "maintain_mutate E cancelled m = (Some (a, now), m')"
    by (cases c) (auto simp: map_prod_def split: prod.splits if_splits)
  from c(2) show ?thesis
  proof (cases rule: maintain_mutateE)
    case (mutated s a' target begun)
    then show ?thesis using that c(1) by (auto split: if_splits)
  qed simp
qed

section \<open>Spent keys\<close>

abbreviation receipt_of :: "'b community_machine \<Rightarrow> rstr \<Rightarrow> ops_receipt option" where
  "receipt_of m k \<equiv> fmlookup (led_receipts (load_receipts m)) k"

definition charge_kept :: "'b community_machine \<Rightarrow> 'b community_machine \<Rightarrow> bool" where
  "charge_kept m m' \<longleftrightarrow> (\<forall>k r. receipt_of m k = Some r \<longrightarrow> receipt_charged r \<longrightarrow>
     (\<exists>r'. receipt_of m' k = Some r' \<and> receipt_charged r' \<and> rcp_action r' = rcp_action r \<and> rcp_at r' = rcp_at r))"

lemma ledger_move_kept:
  assumes "ledger_move m (load_receipts m')" and "ops_ledger_ok (load_receipts m)"
  shows "charge_kept m m'"
  using assms(1) unfolding ledger_move_def
proof (elim disjE exE conjE)
  assume "led_receipts (load_receipts m') = led_receipts (load_receipts m)"
  then show ?thesis by (simp add: charge_kept_def)
next
  fix r
  assume r: "load_receipts m' = with_receipt r (load_receipts m)"
    and old: "\<forall>old. receipt_of m (oa_key (rcp_action r)) = Some old \<longrightarrow> receipt_charged old
         \<longrightarrow> receipt_charged r \<and> rcp_action r = rcp_action old \<and> rcp_at r = rcp_at old"
  show ?thesis
    unfolding charge_kept_def
  proof (intro allI impI)
    fix k x
    assume x: "receipt_of m k = Some x" "receipt_charged x"
    show "\<exists>r'. receipt_of m' k = Some r' \<and> receipt_charged r' \<and> rcp_action r' = rcp_action x \<and> rcp_at r' = rcp_at x"
      using x old unfolding r by (cases "k = oa_key (rcp_action r)") simp_all
  qed
qed

lemma community_step_kept: "run_ok m \<Longrightarrow> community_step E c m = (r, m') \<Longrightarrow> charge_kept m m'"
  by (rule ledger_move_kept [OF _ run_okD(1)]) (simp_all add: community_step_change [unfolded session_change_def])

definition awaits_mutation :: "'b community_machine \<Rightarrow> rstr \<Rightarrow> bool" where
  "awaits_mutation m k \<longleftrightarrow> (\<exists>s a target. com_session m = Some s \<and> rs_phase s = HasReserved a target \<and> oa_key a = k)"

definition mutation_spent :: "'b community_machine \<Rightarrow> rstr \<Rightarrow> bool" where
  "mutation_spent m k \<longleftrightarrow> (\<exists>r. receipt_of m k = Some r \<and> receipt_charged r) \<and> \<not> awaits_mutation m k"

definition mutation_fires :: "'b community_call \<Rightarrow> community_return \<Rightarrow> rstr \<Rightarrow> bool" where
  "mutation_fires c r k \<longleftrightarrow> (\<exists>a now. r = RetMutation (Some (a, now)) \<and> oa_key a = k)"

text \<open>A key comes to await its mutation only from a receipt that was not charged.\<close>

lemma awaits_from:
  assumes "run_ok m" and "community_step E c m = (r, m')" and "awaits_mutation m' k"
  shows "awaits_mutation m k \<or> \<not> (\<exists>r. receipt_of m k = Some r \<and> receipt_charged r)"
proof (cases "transaction c")
  case True
  with assms(1,2) have "com_session m' = com_session m" by (blast dest: transaction_files file_change_session)
  with assms(3) show ?thesis by (simp add: awaits_mutation_def)
next
  case False
  from assms(3) obtain s' a target where s': "com_session m' = Some s'" "rs_phase s' = HasReserved a target" "oa_key a = k"
    by (auto simp: awaits_mutation_def)
  have start: ?thesis if "maintain_start E env now m = (r', m')" for env now r'
    using that by (cases rule: maintain_startE) (use s' in \<open>auto simp: awaits_mutation_def\<close>)
  have look: ?thesis if "maintain_look E env m = (r', m')" for env r'
    using that
  proof (cases rule: maintain_lookE)
    case (looked s a rest phase)
    from looked(4) s' looked(5) show ?thesis by (cases rule: look_actionE) auto
  qed (use s' in \<open>auto simp: awaits_mutation_def\<close>)
  have mutate: ?thesis if "maintain_mutate E cancelled m = (r', m')" for cancelled r'
    using that by (cases rule: maintain_mutateE) (use s' in \<open>auto simp: awaits_mutation_def\<close>)
  have settle: ?thesis if "maintain_settle env m = (r', m')" for env r'
    using that by (cases rule: maintain_settleE) (use s' in \<open>auto simp: awaits_mutation_def\<close>)
  have reserve: ?thesis if "maintain_reserve E env m = (r', m')" for env r'
    using that
  proof (cases rule: maintain_reserveE)
    case (reserved s b before target' l)
    with s' have "b = a" by auto
    have "\<not> receipt_charged old" if "receipt_of m k = Some old" for old
      using reserved(4) that unfolding session_ledger [OF assms(1) reserved(1)] \<open>b = a\<close> s'(3) [symmetric]
      by (elim authorizedE) (simp add: receipt_charged_def)
    then show ?thesis by blast
  qed (use s' in \<open>auto simp: awaits_mutation_def\<close>)
  from False assms(2) start look reserve mutate settle s' show ?thesis
    by (cases c) (auto simp: map_prod_def awaits_mutation_def split: prod.splits if_splits)
qed

lemma mutation_receipt:
  assumes "run_ok m" and "com_session m = Some s" and "rs_phase s = HasReserved a target"
  shows "\<exists>r. receipt_of m (oa_key a) = Some r \<and> receipt_charged r \<and> rcp_action r = a \<and> rcp_at r = rs_now s"
  using run_okD(4) [OF assms(1,2), of a] assms(3)
  by (auto simp: in_hand_def session_ledger [OF assms(1,2)] receipt_charged_def)

lemma mutation_fires_spends:
  assumes "run_ok m" and "community_step E c m = (r, m')" and "mutation_fires c r k"
  shows "\<not> mutation_spent m k \<and> mutation_spent m' k"
proof -
  from assms(3) obtain a now where a: "r = RetMutation (Some (a, now))" "oa_key a = k" by (auto simp: mutation_fires_def)
  from assms(2) [unfolded a(1)] show ?thesis
  proof (cases rule: mutation_stepE)
    case (1 s target)
    then have "awaits_mutation m k" using a(2) by (auto simp: awaits_mutation_def)
    moreover have "\<exists>r. receipt_of m' k = Some r \<and> receipt_charged r"
      using mutation_receipt [OF assms(1) 1(1,2)] 1(5) a(2) by auto
    moreover have "\<not> awaits_mutation m' k" using 1(5) by (simp add: awaits_mutation_def)
    ultimately show ?thesis by (simp add: mutation_spent_def)
  qed
qed

interpretation community_mutations: once_machine "community_step E" "new_community bytes" run_ok mutation_spent mutation_fires
  for E :: "'b digests" and bytes :: "'b option"
proof unfold_locales
  fix m m' :: "'b community_machine" and c r k
  assume "run_ok m" "community_step E c m = (r, m')" "mutation_spent m k"
  then show "mutation_spent m' k"
    using community_step_kept [of m E c r m'] awaits_from [of m E c r m' k]
    unfolding mutation_spent_def charge_kept_def by blast
qed (auto intro: run_ok_step dest: mutation_fires_spends)

end
