(* ===== verification/Community_Effects.thy ===== *)
theory Community_Effects
  imports Community_Origin
begin

text \<open>
  The effects of community operations over a history: which requests were begun and when, what
  a run had seen of their target, the policy file under a stop, and the days of the
  assessments. The properties of the component are in the theory \<open>Community_Results\<close>.
\<close>

section \<open>Requests begun\<close>

definition mutations_of :: "'b community_event list \<Rightarrow> (ops_action \<times> u64) list" where
  "mutations_of h = List.map_filter (\<lambda>(c, r). case r of RetMutation x \<Rightarrow> x | _ \<Rightarrow> None) h"

lemma mutations_of_simps [simp]:
  "mutations_of [] = []"
  "mutations_of ((c, RetMutation (Some x)) # h) = x # mutations_of h"
  "(\<And>x. r \<noteq> RetMutation (Some x)) \<Longrightarrow> mutations_of ((c, r) # h) = mutations_of h"
  by (auto simp: mutations_of_def List.map_filter_simps split: community_return.splits option.splits)

definition mutation_recorded :: "'b community_machine \<Rightarrow> ops_action \<times> u64 \<Rightarrow> bool" where
  "mutation_recorded m x \<longleftrightarrow> mutation_spent m (oa_key (fst x))
     \<and> (\<exists>r. receipt_of m (oa_key (fst x)) = Some r \<and> receipt_charged r \<and> rcp_action r = fst x \<and> rcp_at r = snd x)"

lemma mutation_recorded_step:
  assumes "run_ok m" and "community_step E c m = (r, m')" and "mutation_recorded m x"
  shows "mutation_recorded m' x"
proof -
  have "mutation_spent m' (oa_key (fst x))"
    using assms community_mutations.spent_step [of m E c r m'] by (simp add: mutation_recorded_def)
  moreover from assms(3) obtain y where "receipt_of m (oa_key (fst x)) = Some y" "receipt_charged y"
      "rcp_action y = fst x" "rcp_at y = snd x"
    by (auto simp: mutation_recorded_def)
  moreover from community_step_kept [OF assms(1,2)] this(1,2) obtain y' where "receipt_of m' (oa_key (fst x)) = Some y'"
      "receipt_charged y'" "rcp_action y' = rcp_action y" "rcp_at y' = rcp_at y"
    by (auto simp: charge_kept_def)
  ultimately show ?thesis by (auto simp: mutation_recorded_def)
qed

lemma mutations_recorded:
  assumes "trace (community_step E) (new_community bytes) h m"
  shows "distinct (map (\<lambda>x. oa_key (fst x)) (mutations_of h)) \<and> (\<forall>x \<in> set (mutations_of h). mutation_recorded m x)"
  using assms
proof (induction rule: trace.induct)
  case trace_start
  then show ?case by simp
next
  case (trace_call h m c r m')
  from trace_run_ok [OF trace_call.hyps(1)] have ok: "run_ok m" by simp
  note kept = mutation_recorded_step [OF ok trace_call.hyps(2)]
  show ?case
  proof (cases "\<exists>x. r = RetMutation (Some x)")
    case False
    then have "mutations_of ((c, r) # h) = mutations_of h" by (intro mutations_of_simps(3)) blast
    with trace_call.IH kept show ?thesis by simp
  next
    case True
    then obtain a now where r: "r = RetMutation (Some (a, now))" by auto
    have fires: "mutation_fires c r (oa_key a)" by (auto simp: mutation_fires_def r)
    note spends = mutation_fires_spends [OF ok trace_call.hyps(2) fires]
    from trace_call.hyps(2) [unfolded r] have "mutation_recorded m' (a, now)"
    proof (cases rule: mutation_stepE)
      case (1 s target)
      with mutation_receipt [OF ok 1(1,2)] spends show ?thesis by (auto simp: mutation_recorded_def)
    qed
    moreover have "oa_key a \<notin> set (map (\<lambda>x. oa_key (fst x)) (mutations_of h))"
      using trace_call.IH spends by (auto simp: mutation_recorded_def)
    ultimately show ?thesis using trace_call.IH kept unfolding r by simp
  qed
qed

lemma recorded_count:
  assumes "distinct ks" and "\<And>k. k \<in> set ks \<Longrightarrow> \<exists>r. fmlookup m k = Some r \<and> Q r"
  shows "length ks \<le> length (filter Q (fm_values m))"
proof -
  have "set ks \<subseteq> fset (fmdom (fm_retain (\<lambda>_. Q) m))"
    using assms(2) by (fastforce simp: fmlookup_dom_iff)
  then have "card (set ks) \<le> card (fset (fmdom (fm_retain (\<lambda>_. Q) m)))" by (intro card_mono) simp_all
  with distinct_card [OF assms(1)] show ?thesis by (simp add: filtered_values_len fm_len_def fcard.rep_eq)
qed

lemma mutations_counted:
  assumes "trace (community_step E) (new_community bytes) h m"
    and "\<And>r. receipt_charged r \<Longrightarrow> P (rcp_action r, rcp_at r) \<Longrightarrow> Q r"
  shows "length (filter P (mutations_of h)) \<le> length (filter Q (fm_values (led_receipts (load_receipts m))))"
proof -
  let ?ks = "map (\<lambda>x. oa_key (fst x)) (filter P (mutations_of h))"
  note recorded = mutations_recorded [OF assms(1)]
  have "distinct ?ks" using recorded by (simp add: distinct_map inj_on_def)
  moreover have "\<exists>r. receipt_of m k = Some r \<and> Q r" if "k \<in> set ?ks" for k
  proof -
    from that obtain x where x: "x \<in> set (mutations_of h)" "P x" "k = oa_key (fst x)" by auto
    with recorded obtain r where "receipt_of m k = Some r" "receipt_charged r" "rcp_action r = fst x" "rcp_at r = snd x"
      by (auto simp: mutation_recorded_def)
    with x(2) assms(2) [of r] show ?thesis by auto
  qed
  ultimately show ?thesis using recorded_count [of ?ks "led_receipts (load_receipts m)" Q] by simp
qed

section \<open>What was seen of a target\<close>

fun phase_target :: "run_phase \<Rightarrow> (ops_action \<times> guild_channel option) option" where
  "phase_target AtAction = None"
| "phase_target (HasLooked a _ target) = Some (a, target)"
| "phase_target (HasReserved a target) = Some (a, target)"
| "phase_target (HasMutated a target _) = Some (a, target)"

definition was_looked :: "ops_policy \<Rightarrow> ops_action \<Rightarrow> guild_channel option \<Rightarrow> 'b community_event \<Rightarrow> bool" where
  "was_looked p a target e \<longleftrightarrow> (\<exists>env r. e = (MaintainLook env, r) \<and> (case target of
     None \<Rightarrow> handled_elsewhere (oa_operation a)
   | Some c \<Rightarrow> \<exists>everyone channels. lk_channels env = Inr channels
       \<and> boundary_check p everyone channels (oa_operation a) = Inr c))"

definition looks_ok :: "'b community_event list \<Rightarrow> 'b community_machine \<Rightarrow> bool" where
  "looks_ok h m \<longleftrightarrow> (\<forall>s a target. com_session m = Some s \<longrightarrow> phase_target (rs_phase s) = Some (a, target)
     \<longrightarrow> (\<exists>e \<in> set h. was_looked (rs_policy s) a target e))"

lemma looks_ok_step:
  assumes "run_ok m" and "looks_ok h m" and "community_step E c m = (r, m')"
  shows "looks_ok ((c, r) # h) m'"
proof -
  have session: "looks_ok (e # h) n" if "com_session n = com_session m \<or> com_session n = None" for e and n :: "'a community_machine"
    using assms(2) that by (auto simp: looks_ok_def)
  have same: "looks_ok (e # h) (in_run s' n)" if "com_session m = Some s" "rs_policy s' = rs_policy s"
    "phase_target (rs_phase s') = None \<or> phase_target (rs_phase s') = phase_target (rs_phase s)" for e s s' n
    using assms(2) that by (auto simp: looks_ok_def)
  have start: "looks_ok (e # h) m'" if "maintain_start E env now m = (r', m')" for env now r' e
    using that
  proof (cases rule: maintain_startE)
    case (started p digest proposals l everyone)
    then show ?thesis by (simp add: looks_ok_def)
  qed (auto intro: session)
  have look: "looks_ok ((MaintainLook env, r) # h) m'" if "maintain_look E env m = (r', m')" for env r'
    using that
  proof (cases rule: maintain_lookE)
    case (looked s a rest phase)
    from looked(4) show ?thesis
    proof (cases rule: look_actionE)
      case 1
      with looked show ?thesis by (auto intro: same)
    next
      case (2 before target)
      then have "was_looked (rs_policy s) a target (MaintainLook env, r)"
        by (auto simp: was_looked_def looked_public_def split: option.splits)
      with looked 2 show ?thesis by (auto simp: looks_ok_def)
    qed
  qed (auto intro: session)
  have reserve: "looks_ok (e # h) m'" if "maintain_reserve E env m = (r', m')" for env r' e
    using that by (cases rule: maintain_reserveE) (auto intro: session same)
  have mutate: "looks_ok (e # h) m'" if "maintain_mutate E cancelled m = (r', m')" for cancelled r' e
    using that by (cases rule: maintain_mutateE) (auto intro: session same)
  have settle: "looks_ok (e # h) m'" if "maintain_settle env m = (r', m')" for env r' e
    using that by (cases rule: maintain_settleE) (auto intro: session same)
  show ?thesis
  proof (cases "transaction c")
    case True
    with assms show ?thesis by (blast dest: transaction_files file_change_session intro: session)
  next
    case False
    with assms(3) start look reserve mutate settle show ?thesis
      by (cases c) (auto simp: map_prod_def session split: prod.splits if_splits)
  qed
qed

lemma trace_looks_ok: "trace (community_step E) (new_community bytes) h m \<Longrightarrow> looks_ok h m"
proof (induction rule: trace.induct)
  case trace_start
  then show ?case by (simp add: looks_ok_def new_community_def)
next
  case (trace_call h m c r m')
  from trace_run_ok [OF trace_call.hyps(1)] have "run_ok m" by simp
  then show ?case using trace_call.IH trace_call.hyps(2) by (rule looks_ok_step)
qed

section \<open>The stop of the owner\<close>

definition faithful_encoding :: "'b digests \<Rightarrow> bool" where
  "faithful_encoding E \<longleftrightarrow> (\<forall>p bytes. en_policy E p = Some bytes \<longrightarrow> en_parse E bytes = Some p)"

definition policy_stopped :: "'b digests \<Rightarrow> ('b, 'm) community_scheme \<Rightarrow> bool" where
  "policy_stopped E c \<longleftrightarrow> (\<forall>p digest. load_policy E c = Inr (p, digest) \<longrightarrow> pol_mode p = OpsStopped)"

text \<open>The calls by which the owner neither edits the file nor sets another mode.\<close>

fun keeps_stopped :: "'b community_call \<Rightarrow> bool" where
  "keeps_stopped (OwnerEdits _) = False"
| "keeps_stopped (ChangeMode env _ _ _ mode) = (mode = OpsStopped \<and> pe_edit env = None)"
| "keeps_stopped (ApproveProposal req env) = (ae_edit env = None)"
| "keeps_stopped _ = True"

lemma policy_stopped_same: "com_policy c' = com_policy c \<Longrightarrow> policy_stopped E c \<Longrightarrow> policy_stopped E c'"
  by (simp add: policy_stopped_def load_policy_def)

lemma policy_stopped_bytes:
  assumes "faithful_encoding E" and "en_policy E p = Some bytes" and "pol_mode p = OpsStopped" and "com_policy c = Some bytes"
  shows "policy_stopped E c"
proof -
  from assms(1,2) have "en_parse E bytes = Some p" by (simp add: faithful_encoding_def)
  with assms(3,4) show ?thesis by (auto simp: policy_stopped_def load_policy_def parse_policy_def)
qed

lemma save_store_policy: "save_store E w s c = (r, c') \<Longrightarrow> com_policy c' = com_policy c"
  by (erule save_storeE) auto

lemma inspect_pending_policy: "inspect_pending E locked w p now c = (r, c') \<Longrightarrow> com_policy c' = com_policy c"
  unfolding inspect_pending_def by (auto split: if_splits sum.splits dest: save_store_policy)

lemma begin_assessment_policy: "begin_assessment E locked w p scope digest now c = (r, c') \<Longrightarrow> com_policy c' = com_policy c"
  unfolding begin_assessment_def by (auto split: if_splits sum.splits prod.splits dest: save_store_policy)

lemma finish_assessment_policy: "finish_assessment E locked w res p current ps outcome now c = (r, c') \<Longrightarrow> com_policy c' = com_policy c"
  unfolding finish_assessment_def by (auto split: if_splits sum.splits prod.splits option.splits dest: save_store_policy)

lemma reconcile_approvals_policy: "reconcile_approvals E locked w scope c = (r, c') \<Longrightarrow> com_policy c' = com_policy c"
  unfolding reconcile_approvals_def by (auto split: if_splits sum.splits prod.splits dest: save_store_policy)

lemma reject_policy: "reject E locked w scope d v i hash o' now commit_now c = (r, c') \<Longrightarrow> com_policy c' = com_policy c"
  unfolding reject_def by (auto split: if_splits sum.splits prod.splits dest: save_store_policy)

lemma set_ops_mode_policy:
  assumes "set_ops_mode E env expected guild owner mode c = (r, c')" and "pe_edit env = None"
  shows "com_policy c' = com_policy c
    \<or> (\<exists>p digest bytes. load_policy E c = Inr (p, digest) \<and> en_policy E (p\<lparr>pol_mode := mode\<rparr>) = Some bytes \<and> com_policy c' = Some bytes)"
proof (cases "c' = c")
  case True
  then show ?thesis by simp
next
  case False
  with assms obtain p digest bytes where "load_policy E c = Inr (p, digest)" "en_policy E (p\<lparr>pol_mode := mode\<rparr>) = Some bytes"
      "c' = c\<lparr>com_policy := after_write (pe_write env) (com_policy c) (Some bytes)\<rparr>"
    unfolding set_ops_mode_def Let_def owner_edits_def
    by (auto split: if_splits sum.splits option.splits)
  then show ?thesis by (cases "pe_write env") auto
qed

lemma set_ops_mode_Inr:
  assumes "set_ops_mode E env expected guild owner mode c = (Inr (), c')"
  shows "\<exists>p digest. load_policy E c' = Inr (p, digest) \<and> pol_mode p = mode"
  using assms unfolding set_ops_mode_def Let_def
  by (auto split: if_splits sum.splits option.splits)

lemma approve_policy:
  assumes "approve E req env c = (r, c')" and "ae_edit env = None"
  shows "com_policy c' = com_policy c
    \<or> (\<exists>p digest bytes a. load_policy E c = Inr (p, digest) \<and> en_policy E (with_action a p) = Some bytes \<and> com_policy c' = Some bytes)"
proof -
  have prepared: "\<exists>p a. load_policy E c = Inr (p, current) \<and> en_policy E (with_action a p) = Some bytes"
    if "approval_prepared E req env c = Inr (current, p', bytes, q, q', s1)" for current p' bytes q q' s1
    using that by (cases rule: approval_preparedE) auto
  have edited: "com_policy (owner_edits (ae_edit env) n) = com_policy n" for n :: "('a, 'b) community_scheme"
    using assms(2) by (simp add: owner_edits_def)
  from assms(1) show ?thesis
  proof (cases rule: approveE)
    case (recorded current p' bytes q q' s1 r1 c1)
    then show ?thesis by (auto dest: save_store_policy)
  next
    case (uncertain current p' bytes q q' s1 s2 c1 e c2)
    have c': "com_policy c' = com_policy c2" using uncertain(5) by (auto dest: save_store_policy)
    from uncertain(4) have "com_policy c2 = com_policy c1 \<or> com_policy c2 = Some bytes"
      by (cases rule: publish_approvalE) (auto simp: publication_policy_def edited)
    with c' save_store_policy [OF uncertain(3)] prepared [OF uncertain(1)] show ?thesis by auto
  next
    case (published current p' bytes q q' s1 s2 c1 c2)
    have c': "com_policy c' = com_policy c2" using published(5) by (auto dest: save_store_policy)
    from published(4) have "com_policy c2 = Some bytes" by (cases rule: publish_approvalE) auto
    with c' prepared [OF published(1)] show ?thesis by auto
  qed simp
qed

lemma policy_stopped_step:
  assumes "faithful_encoding E" and "policy_stopped E m" and "keeps_stopped c" and "community_step E c m = (r, m')"
  shows "policy_stopped E m'"
proof (cases "transaction c")
  case False
  with assms(4) have "com_policy m' = com_policy m" by (auto dest: maintenance_run simp: run_change_def)
  with assms(2) show ?thesis by (blast intro: policy_stopped_same)
next
  case True
  have mode: "policy_stopped E m'" if "set_ops_mode E env expected guild owner OpsStopped m = (r', m')" "pe_edit env = None"
    for env expected guild owner r'
    using set_ops_mode_policy [OF that] assms(2) by (auto intro: policy_stopped_same policy_stopped_bytes [OF assms(1)])
  have approved: "policy_stopped E m'" if "approve E req env m = (r', m')" "ae_edit env = None" for req env r'
    using approve_policy [OF that] assms(2)
    by (auto simp: policy_stopped_def [of E m] intro: policy_stopped_same [OF _ assms(2)] policy_stopped_bytes [OF assms(1)])
  show ?thesis
  proof (cases c)
    case (ChangeMode env expected guild owner mode')
    with assms(3,4) mode show ?thesis by (auto simp: map_prod_def split: prod.splits)
  next
    case (ApproveProposal req env)
    with assms(3,4) approved show ?thesis by (auto simp: map_prod_def split: prod.splits)
  qed (use True assms in \<open>auto simp: map_prod_def split: prod.splits intro: policy_stopped_same [OF _ assms(2)]
      dest: inspect_pending_policy begin_assessment_policy finish_assessment_policy reconcile_approvals_policy reject_policy\<close>)
qed

lemma stopped_begins_nothing:
  assumes "run_ok m" and "policy_stopped E m" and "community_step E c m = (r, m')"
  shows "r \<noteq> RetMutation (Some x)"
proof
  assume r: "r = RetMutation (Some x)"
  obtain a now where x: "x = (a, now)" by (cases x)
  from assms(3) [unfolded r x] show False
  proof (cases rule: mutation_stepE)
    case (1 s target)
    from run_okD(4) [OF assms(1) 1(1), of a] 1(2) have "pol_mode (rs_policy s) = OpsApply" by (simp add: in_hand_def)
    moreover have "pol_mode (rs_policy s) = OpsStopped"
      using assms(2) 1(3) by (auto simp: policy_stopped_def policy_unchanged_def)
    ultimately show False by simp
  qed
qed

section \<open>The days of the assessments\<close>

definition attempt_of :: "('b, 'm) community_scheme \<Rightarrow> u64 option" where
  "attempt_of c = Option.bind (com_store c) prst_last_attempt_at"

lemma attempt_of_same: "com_store c' = com_store c \<Longrightarrow> attempt_of c' = attempt_of c"
  by (simp add: attempt_of_def)

lemma attempt_of_policy [simp]: "attempt_of (c\<lparr>com_policy := p\<rparr>) = attempt_of c"
  by (simp add: attempt_of_def)

lemma load_store_attempt: "load_store E c = Inr s \<Longrightarrow> attempt_of c = prst_last_attempt_at s"
  by (erule load_storeE) (auto simp: attempt_of_def new_proposal_store_def)

lemma saved_attempt:
  assumes "save_store E w s c1 = (r, c')"
  shows "attempt_of c' = attempt_of c1 \<or> attempt_of c' = prst_last_attempt_at s"
  using assms by (cases rule: save_store_stored) (auto simp: attempt_of_def)

lemma save_store_attempt:
  "save_store E w s c = (r, c') \<Longrightarrow> prst_last_attempt_at s = attempt_of c \<Longrightarrow> attempt_of c' = attempt_of c"
  using saved_attempt [of E w s c r c'] by auto

lemma inspect_pending_attempt: "inspect_pending E locked w p now c = (r, c') \<Longrightarrow> attempt_of c' = attempt_of c"
  unfolding inspect_pending_def
  by (auto split: if_splits sum.splits dest!: save_store_attempt dest: load_store_attempt)

lemma finish_assessment_attempt:
  "finish_assessment E locked w res p current ps outcome now c = (r, c') \<Longrightarrow> attempt_of c' = attempt_of c"
  unfolding finish_assessment_def
  by (auto split: if_splits sum.splits prod.splits option.splits dest!: save_store_attempt dest: load_store_attempt)

lemma reject_attempt:
  assumes "reject E locked w scope d v i hash o' now commit_now c = (r, c')"
  shows "attempt_of c' = attempt_of c"
proof (cases "c' = c")
  case False
  with assms obtain q' s' r' where prepared: "reject_prepared E scope d v i hash o' now commit_now c = Inr (q', s')"
      and save: "save_store E w s' c = (r', c')"
    unfolding reject_def by (auto split: if_splits sum.splits prod.splits)
  from prepared obtain s where "load_store E c = Inr s" "s' = put_proposal i q' s"
    unfolding reject_prepared_def Let_def by (auto split: if_splits)
  then have "prst_last_attempt_at s' = attempt_of c" by (simp add: load_store_attempt)
  with save show ?thesis by (rule save_store_attempt)
qed simp

lemma mark_review_attempt: "mark_review i s = Inr s' \<Longrightarrow> prst_last_attempt_at s' = prst_last_attempt_at s"
  by (erule mark_reviewE) simp

lemma finalize_proposal_attempt: "finalize_proposal i digest s = Inr s' \<Longrightarrow> prst_last_attempt_at s' = prst_last_attempt_at s"
  by (erule finalize_proposalE) simp

lemma reconcile_each_attempt:
  "reconcile_each p digest immutable ids s unresolved = Inr (s', unresolved') \<Longrightarrow> prst_last_attempt_at s' = prst_last_attempt_at s"
proof (induction ids arbitrary: s unresolved)
  case Nil
  then show ?case by simp
next
  case (Cons i ids)
  from Cons.prems obtain s1 unresolved1 where
    one: "finalize_proposal i digest s = Inr s1 \<or> mark_review i s = Inr s1"
    and rest: "reconcile_each p digest immutable ids s1 unresolved1 = Inr (s', unresolved')"
    by (auto split: if_splits)
  from one have "prst_last_attempt_at s1 = prst_last_attempt_at s"
    by (auto dest: mark_review_attempt finalize_proposal_attempt)
  with Cons.IH [OF rest] show ?case by simp
qed

lemma reconcile_approvals_attempt:
  assumes "reconcile_approvals E locked w scope c = (r, c')"
  shows "attempt_of c' = attempt_of c"
proof (cases "c' = c")
  case False
  with assms obtain s p digest immutable s' unresolved r' where s: "load_store E c = Inr s"
      and each: "reconcile_each p digest immutable (reconcile_ids s) s False = Inr (s', unresolved)"
      and save: "save_store E w s' c = (r', c')"
    unfolding reconcile_approvals_def by (auto split: if_splits sum.splits prod.splits)
  have "prst_last_attempt_at s' = attempt_of c" using reconcile_each_attempt [OF each] load_store_attempt [OF s] by simp
  with save show ?thesis by (rule save_store_attempt)
qed simp

lemma approve_attempt:
  assumes "approve E req env c = (r, c')"
  shows "attempt_of c' = attempt_of c"
proof -
  have first: "attempt_of c1 = attempt_of c \<and> prst_last_attempt_at s1 = attempt_of c"
    if "approval_prepared E req env c = Inr (current, p', bytes, q, q', s1)" "save_store E w s1 c = (r1, c1)"
    for current p' bytes q q' s1 r1 c1 w
  proof -
    from that(1) have "prst_last_attempt_at s1 = attempt_of c"
      by (cases rule: approval_preparedE) (simp add: load_store_attempt)
    with that(2) save_store_attempt show ?thesis by blast
  qed
  have second: "attempt_of c' = attempt_of c"
    if "save_store E (ae_save1 env) s1 c = (Inr s2, c1)" "attempt_of c1 = attempt_of c \<and> prst_last_attempt_at s1 = attempt_of c"
      "com_store c2 = com_store c1" "prst_last_attempt_at s3 = prst_last_attempt_at s2" "save_store E w s3 c2 = (r3, c')"
    for s1 s2 c1 c2 s3 w r3
  proof -
    from that(1) have "prst_last_attempt_at s2 = prst_last_attempt_at s1" by (cases rule: save_storeE) auto
    with that saved_attempt [OF that(5)] attempt_of_same [OF that(3)] show ?thesis by auto
  qed
  from assms show ?thesis
  proof (cases rule: approveE)
    case (recorded current p' bytes q q' s1 r1 c1)
    with first [OF recorded(1,3)] show ?thesis by simp
  next
    case (uncertain current p' bytes q q' s1 s2 c1 e c2)
    from uncertain(4) have c2: "com_store c2 = com_store c1" by (cases rule: publish_approvalE) auto
    note c1 = first [OF uncertain(1,3)]
    from uncertain(5) show ?thesis
    proof (elim disjE exE conjE)
      assume "c' = c2"
      then show ?thesis using c1 attempt_of_same [OF c2] by simp
    qed (rule second [OF uncertain(3) c1 c2 mark_review_attempt])
  next
    case (published current p' bytes q q' s1 s2 c1 c2)
    from published(4) have c2: "com_store c2 = com_store c1" by (cases rule: publish_approvalE) auto
    note c1 = first [OF published(1,3)]
    from published(5) show ?thesis
    proof (elim disjE exE conjE)
      assume "c' = c2"
      then show ?thesis using c1 attempt_of_same [OF c2] by simp
    qed (rule second [OF published(3) c1 c2 finalize_proposal_attempt], assumption+)+
  qed simp
qed

lemma begin_assessment_attempt:
  assumes "begin_assessment E locked w p scope digest now c = (r, c')"
  shows "attempt_of c' = attempt_of c \<and> (\<forall>res. r \<noteq> Inr res)
    \<or> attempt_of c' = Some now \<and> (\<forall>t. attempt_of c = Some t \<longrightarrow> t + 86400 \<le> now)"
proof (cases "\<exists>s i r' r''. load_store E c = Inr s \<and> \<not> is_some_and (prst_last_attempt_at s) (\<lambda>last. now < last \<or> now - last < 86400)
    \<and> save_store E w (s\<lparr>prst_attempts := attempts_with (started_attempt i digest now) now (prst_attempts s),
        prst_last_attempt_at := Some now\<rparr>) c = (r', c') \<and> ((\<exists>e. r' = Inl e) \<longrightarrow> (\<exists>e. r = Inl e))")
  case False
  with assms have "c' = c \<and> (\<exists>e. r = Inl e)"
    unfolding begin_assessment_def by (auto split: if_splits sum.splits prod.splits)
  then show ?thesis by auto
next
  case True
  then obtain s i r' where s: "load_store E c = Inr s"
      "\<not> is_some_and (prst_last_attempt_at s) (\<lambda>last. now < last \<or> now - last < 86400)"
      and save: "save_store E w (s\<lparr>prst_attempts := attempts_with (started_attempt i digest now) now (prst_attempts s),
        prst_last_attempt_at := Some now\<rparr>) c = (r', c')" and r: "(\<exists>e. r' = Inl e) \<longrightarrow> (\<exists>e. r = Inl e)"
    by blast
  have apart: "\<forall>t. attempt_of c = Some t \<longrightarrow> t + 86400 \<le> now"
    using s load_store_attempt [OF s(1)] by (auto simp: is_some_and_iff)
  from save show ?thesis
  proof (cases rule: save_storeE)
    case (1 e)
    with r show ?thesis by auto
  next
    case (2 s')
    with r apart show ?thesis by (cases w) (auto simp: attempt_of_def)
  qed
qed

lemma set_ops_mode_attempt: "set_ops_mode E env expected guild owner mode c = (r, c') \<Longrightarrow> attempt_of c' = attempt_of c"
  by (rule attempt_of_same) (rule set_ops_mode_store)

definition begun_at :: "'b community_event \<Rightarrow> u64 option" where
  "begun_at e = (case e of (BeginAssessment _ _ _ _ _ now, RetBegun (Inr _)) \<Rightarrow> Some now | _ \<Rightarrow> None)"

lemma community_step_attempt:
  assumes "community_step E c m = (r, m')"
  shows "attempt_of m' = attempt_of m \<and> begun_at (c, r) = None
    \<or> (\<exists>now. attempt_of m' = Some now \<and> (\<forall>t. attempt_of m = Some t \<longrightarrow> t + 86400 \<le> now)
         \<and> (begun_at (c, r) = None \<or> begun_at (c, r) = Some now))"
proof (cases "\<exists>locked w p scope digest now. c = BeginAssessment locked w p scope digest now")
  case True
  then obtain locked w p scope digest now where c: "c = BeginAssessment locked w p scope digest now" by blast
  with assms obtain r' where step: "begin_assessment E locked w p scope digest now m = (r', m')" and r: "r = RetBegun r'"
    by (auto simp: map_prod_def split: prod.splits)
  from begin_assessment_attempt [OF step] show ?thesis
    by (cases r') (auto simp: begun_at_def c r)
next
  case False
  have none: "begun_at (c, r) = None" using False by (cases c) (simp_all add: begun_at_def)
  have "attempt_of m' = attempt_of m"
  proof (cases "transaction c")
    case True
    with False assms show ?thesis
      by (cases c) (auto simp: map_prod_def split: prod.splits
          dest: set_ops_mode_attempt inspect_pending_attempt finish_assessment_attempt approve_attempt
            reconcile_approvals_attempt reject_attempt)
  next
    case False
    with maintenance_run [OF assms] have "run_change m m'" by simp
    then show ?thesis by (simp add: run_change_def attempt_of_def)
  qed
  with none show ?thesis by simp
qed

definition begun_times :: "'b community_event list \<Rightarrow> u64 list" where
  "begun_times h = List.map_filter begun_at h"

lemma begun_times_apart:
  assumes "trace (community_step E) m0 h m"
  shows "sorted_wrt (\<lambda>later earlier. earlier + 86400 \<le> later) (begun_times h)
    \<and> (\<forall>t \<in> set (begun_times h). \<exists>last. attempt_of m = Some last \<and> t \<le> last)"
  using assms
proof (induction rule: trace.induct)
  case trace_start
  then show ?case by (simp add: begun_times_def List.map_filter_simps)
next
  case (trace_call h m c r m')
  have times: "begun_times ((c, r) # h) = (case begun_at (c, r) of None \<Rightarrow> begun_times h | Some t \<Rightarrow> t # begun_times h)"
    by (simp add: begun_times_def List.map_filter_simps split: option.splits)
  from community_step_attempt [OF trace_call.hyps(2)] show ?case
  proof (elim disjE exE conjE)
    assume "attempt_of m' = attempt_of m" "begun_at (c, r) = None"
    with trace_call.IH show ?thesis by (simp add: times)
  next
    fix now
    assume now: "attempt_of m' = Some now" "\<forall>t. attempt_of m = Some t \<longrightarrow> t + 86400 \<le> now"
    have before: "t + 86400 \<le> now" if "t \<in> set (begun_times h)" for t
      using trace_call.IH that now(2) by fastforce
    { assume "begun_at (c, r) = None"
      with trace_call.IH before now(1) show ?thesis by (fastforce simp: times) }
    { assume "begun_at (c, r) = Some now"
      with trace_call.IH before now(1) show ?thesis by (fastforce simp: times) }
  qed
qed

end
