(* ===== verification/Community_Scope.thy ===== *)
theory Community_Scope
  imports Community_Drafts
begin

text \<open>
  What the validation of a batch admits: operations inside the scope the owner set, on what was
  proved public, one per target, and within what is left of the day's budget.
\<close>

definition in_owner_scope ::
  "ops_policy \<Rightarrow> assessment_scope \<Rightarrow> public_proofs \<Rightarrow> ops_operation \<Rightarrow> bool" where
  "in_owner_scope p scope proofs op \<longleftrightarrow>
     is_some_and (assessment_kind_of op) (\<lambda>kind. kind |\<in>| as_allowed_kinds scope)
     \<and> is_none_or (operation_channel op) (\<lambda>i. i |\<in>| as_source_channels scope \<and> i |\<notin>| pol_protected_channels p
          \<and> is_some_and (fmlookup (pub_channels proofs) i) (\<lambda>c. chp_public c
              \<and> chm_parent (chp_metadata c) |\<in>| pol_public_categories p \<and> \<not> changes_nothing op (chp_metadata c)))
     \<and> is_none_or (operation_category op) (\<lambda>i. i |\<in>| pol_public_categories p \<and> fmlookup (pub_categories proofs) i \<noteq> None)
     \<and> (case op of
          ArchiveChannel channel _ \<Rightarrow> is_some_and (fmlookup (pub_channels proofs) channel) chp_archive_safe
        | RetireInterestRole role _ \<Rightarrow> role |\<in>| pol_ordinary_roles p
            \<and> is_some_and (fmlookup (pub_roles proofs) role) (\<lambda>r. rp_permissions r = 0 \<and> rp_entitlement_free r)
        | _ \<Rightarrow> True)"

lemma access_expectedE:
  assumes "access_expected E p scope source proofs op now = Inr expected"
  obtains kind e1 e2 where "as_enabled scope" "assessment_kind_of op = Some kind" "kind |\<in>| as_allowed_kinds scope"
    "channel_expectation p scope source proofs op no_expectation = Inr e1"
    "category_expectation p source proofs op e1 = Inr e2"
    "operation_expectation p source proofs op e2 = Inr expected"
proof (cases "assessment_kind_of op")
  case None
  with assms show ?thesis by (auto simp: access_expected_def split: if_splits)
next
  case (Some kind)
  with assms that show ?thesis by (auto simp: access_expected_def split: if_splits)
qed

lemma channel_expectationD:
  assumes "channel_expectation p scope source proofs op e = Inr e'"
  shows "is_none_or (operation_channel op) (\<lambda>i. i |\<in>| as_source_channels scope \<and> i |\<notin>| pol_protected_channels p
          \<and> is_some_and (fmlookup (pub_channels proofs) i) (\<lambda>c. chp_public c
              \<and> chm_parent (chp_metadata c) |\<in>| pol_public_categories p \<and> \<not> changes_nothing op (chp_metadata c)))"
  using assms by (cases "operation_channel op") (auto simp: channel_expectation_def split: option.splits if_splits)

lemma category_expectationD:
  assumes "category_expectation p source proofs op e = Inr e'"
  shows "is_none_or (operation_category op) (\<lambda>i. i |\<in>| pol_public_categories p \<and> fmlookup (pub_categories proofs) i \<noteq> None)"
  using assms by (cases "operation_category op") (auto simp: category_expectation_def split: option.splits if_splits)

lemma access_in_scope:
  assumes "access_expected E p scope source proofs op now = Inr expected"
  shows "in_owner_scope p scope proofs op"
  using assms
proof (cases rule: access_expectedE)
  case (1 kind e1 e2)
  have "case op of
          ArchiveChannel channel _ \<Rightarrow> is_some_and (fmlookup (pub_channels proofs) channel) chp_archive_safe
        | RetireInterestRole role _ \<Rightarrow> role |\<in>| pol_ordinary_roles p
            \<and> is_some_and (fmlookup (pub_roles proofs) role) (\<lambda>r. rp_permissions r = 0 \<and> rp_entitlement_free r)
        | _ \<Rightarrow> True"
    using 1(6) by (cases op) (auto split: if_splits option.splits)
  with 1(2,3) channel_expectationD [OF 1(4)] category_expectationD [OF 1(5)] show ?thesis
    by (simp add: in_owner_scope_def)
qed

definition admitted_as ::
  "'b digests \<Rightarrow> ops_policy \<Rightarrow> assessment_scope \<Rightarrow> public_proofs \<Rightarrow> model_proposal \<Rightarrow> pending_proposal \<Rightarrow> bool" where
  "admitted_as E p scope proofs draft q \<longleftrightarrow>
     pp_draft q = draft \<and> in_owner_scope p scope proofs (mpr_operation draft) \<and> pp_status q = PrPending
     \<and> pp_decision q = None \<and> pp_guild q = pol_guild p \<and> pp_policy_owner q = pol_owner p
     \<and> validate_pending E q = Inr ()"

lemma admit_draftE:
  assumes "admit_draft E p scope source proofs now targets shadow draft = Inr q"
  obtains "admitted_as E p scope proofs draft q" "op_target_key (mpr_operation draft) |\<notin>| targets"
    "authorize_action shadow (p\<lparr>pol_mode := OpsApply, pol_actions := pol_actions p @ [proposal_action q]\<rparr>) (proposal_action q) now = Inr ()"
proof -
  from assms obtain expected i hash where
    run: "op_target_key (mpr_operation draft) |\<notin>| targets"
      "access_expected E p scope source proofs (mpr_operation draft) now = Inr expected"
      "q = (new_pending p source i draft expected now)\<lparr>pp_hash := hash\<rparr>" "validate_pending E q = Inr ()"
      "authorize_action shadow (p\<lparr>pol_mode := OpsApply, pol_actions := pol_actions p @ [proposal_action q]\<rparr>) (proposal_action q) now = Inr ()"
    unfolding admit_draft_def Let_def by (auto split: if_splits)
  then have "admitted_as E p scope proofs draft q"
    using access_in_scope [OF run(2)] by (simp add: admitted_as_def new_pending_def)
  with run(1,5) that show ?thesis by blast
qed

text \<open>Each admitted draft takes one of the day's places in the shadow ledger.\<close>

lemma filtered_values_new:
  assumes "P v" and "\<not> is_some_and (fmlookup m k) P"
  shows "length (filter P (fm_values (fmupd k v m))) = Suc (length (filter P (fm_values m)))"
proof -
  have "fm_retain (\<lambda>_. P) (fmdrop k m) = fm_retain (\<lambda>_. P) m"
    by (rule fmap_ext) (use assms(2) in \<open>auto split: option.splits\<close>)
  then show ?thesis
    unfolding filtered_values_len fm_retain_upd using assms
    by (auto simp: fm_len_upd is_some_and_iff split: option.splits)
qed

lemma shadow_charged:
  assumes "authorize_action l p a now = Inr ()"
  shows "length (charged_receipts (with_receipt (shadow_receipt a digest now) l) now) = Suc (length (charged_receipts l now))"
  unfolding charged_receipts_def with_receipt_simps
proof (rule filtered_values_new)
  have "rcp_status r = StProposed" if "fmlookup (led_receipts l) (oa_key a) = Some r" for r
    using assms that by (elim authorizedE) simp
  then show "\<not> is_some_and (fmlookup (led_receipts l) (oa_key (rcp_action (shadow_receipt a digest now))))
      (\<lambda>r. rcp_at r div 86400 = now div 86400 \<and> receipt_charged r)"
    by (auto simp: is_some_and_iff shadow_receipt_def receipt_charged_def)
qed (simp add: shadow_receipt_def receipt_charged_def)

lemma admit_drafts_admitted:
  "admit_drafts E p scope source proofs now targets shadow drafts = Inr qs \<Longrightarrow>
     list_all2 (admitted_as E p scope proofs) drafts qs
     \<and> distinct (map (\<lambda>d. op_target_key (mpr_operation d)) drafts)
     \<and> (\<forall>d \<in> set drafts. op_target_key (mpr_operation d) |\<notin>| targets)
     \<and> (drafts \<noteq> [] \<longrightarrow> length (charged_receipts shadow now) + length drafts \<le> pol_daily_limit p)"
proof (induction drafts arbitrary: targets shadow qs)
  case Nil
  then show ?case by simp
next
  case (Cons draft drafts)
  let ?key = "op_target_key (mpr_operation draft)"
  from Cons.prems obtain q rest where one: "admit_draft E p scope source proofs now targets shadow draft = Inr q"
    and more: "admit_drafts E p scope source proofs now (finsert ?key targets)
        (with_receipt (shadow_receipt (proposal_action q) (prs_policy_digest source) now) shadow) drafts = Inr rest"
    and qs: "qs = q # rest"
    by auto
  from one show ?case
  proof (cases rule: admit_draftE)
    case 1
    from 1(3) have left: "length (charged_receipts shadow now) < pol_daily_limit p" by (rule authorizedE) simp
    note count = shadow_charged [OF 1(3)]
    from Cons.IH [OF more] 1(1,2) left count qs show ?thesis by (cases "drafts = []") auto
  qed
qed

end
