(* ===== verification/Community_Example.thy ===== *)
theory Community_Example
  imports Community_Machine
begin

text \<open>
  A concrete history of community operations, for the instances of the properties: a policy of
  one public channel, an assessment that publishes one proposal, its approval, and a run that
  begins the approved request. The encodings are total functions; the bytes of the policy
  file are the policy itself.
\<close>

section \<open>The guild\<close>

definition cg_id :: rstr where "cg_id = replicate 64 97"
definition cg_topic :: rstr where "cg_topic = lit ''news''"
definition cg_reason :: rstr where "cg_reason = lit ''dated''"

definition cg_seen :: rstr where "cg_seen = lit ''seen''"

definition cg_encoding :: "ops_policy digests" where
  "cg_encoding =
     \<lparr>en_policy = Some, en_parse = Some, en_hash = (\<lambda>p. replicate (length (pol_actions p)) 49),
      en_scope = (\<lambda>_. Some (lit ''s'')), en_reviewed = (\<lambda>_. Some (lit ''r'')), en_draft = (\<lambda>_. Some cg_id),
      en_inventory = (\<lambda>_. Some (lit ''i'')), en_attempt = (\<lambda>_. Some (lit ''a'')), en_source_len = (\<lambda>_. Some 100)\<rparr>"

definition cg_scope :: assessment_scope where
  "cg_scope = \<lparr>as_enabled = True, as_allowed_kinds = {|KindTopic|}, as_source_channels = {|5|}, as_review_channel = None\<rparr>"

definition cg_policy :: "ops_mode \<Rightarrow> ops_action list \<Rightarrow> ops_policy" where
  "cg_policy mode actions =
     \<lparr>pol_version = 1, pol_guild = 1, pol_owner = 7, pol_mode = mode, pol_daily_limit = 2, pol_daily_creations = 1,
      pol_public_categories = {|3|}, pol_protected_channels = {||}, pol_ordinary_roles = {||},
      pol_membership_matrix = {||}, pol_assessment = cg_scope,
      pol_shadow = \<lparr>sh_enabled = False, sh_source_channels = {||}, sh_review_channel = None\<rparr>, pol_actions = actions\<rparr>"

lemma cg_policy_simps [simp]:
  "pol_version (cg_policy mode actions) = 1" "pol_guild (cg_policy mode actions) = 1"
  "pol_owner (cg_policy mode actions) = 7" "pol_mode (cg_policy mode actions) = mode"
  "pol_daily_limit (cg_policy mode actions) = 2" "pol_daily_creations (cg_policy mode actions) = 1"
  "pol_public_categories (cg_policy mode actions) = {|3|}" "pol_protected_channels (cg_policy mode actions) = {||}"
  "pol_assessment (cg_policy mode actions) = cg_scope" "pol_actions (cg_policy mode actions) = actions"
  "(cg_policy mode actions)\<lparr>pol_mode := mode'\<rparr> = cg_policy mode' actions"
  "(cg_policy mode actions)\<lparr>pol_actions := actions'\<rparr> = cg_policy mode actions'"
  "with_action a (cg_policy mode actions) = cg_policy mode (actions @ [a])"
  by (simp_all add: cg_policy_def with_action_def)

lemma cg_policy_inject [simp]: "cg_policy mode actions = cg_policy mode' actions' \<longleftrightarrow> mode = mode' \<and> actions = actions'"
  by (auto simp: cg_policy_def)

lemma cg_scope_simps [simp]:
  "as_enabled cg_scope" "as_allowed_kinds cg_scope = {|KindTopic|}" "as_source_channels cg_scope = {|5|}"
  "as_review_channel cg_scope = None"
  by (simp_all add: cg_scope_def)

lemma cg_encoding_simps [simp]:
  "en_policy cg_encoding = Some" "en_parse cg_encoding = Some"
  "en_hash cg_encoding = (\<lambda>p. replicate (length (pol_actions p)) 49)"
  "en_scope cg_encoding x = Some (lit ''s'')" "en_reviewed cg_encoding y = Some (lit ''r'')"
  "en_draft cg_encoding z = Some cg_id" "en_inventory cg_encoding w = Some (lit ''i'')"
  "en_attempt cg_encoding t = Some (lit ''a'')" "en_source_len cg_encoding source = Some 100"
  by (simp_all add: cg_encoding_def)

lemma cg_texts [simp]: "trim cg_reason \<noteq> []" "byte_len cg_reason = 5" "byte_len cg_id = 64" "list_all is_hex cg_id"
  "cg_id \<noteq> []" "length cg_topic = 4"
proof -
  have "byte_len (replicate n 97) = n" for n by (induction n) (simp_all add: utf8_len_def)
  then show "byte_len cg_id = 64" by (simp only: cg_id_def)
  show "list_all is_hex cg_id" by (simp add: cg_id_def list_all_iff is_hex_def)
qed (simp_all add: cg_reason_def cg_id_def cg_topic_def trim_eq_Nil is_whitespace_def utf8_len_def)

lemma cg_scope_digest [simp]: "scope_digest cg_encoding (cg_policy mode actions) cg_scope = Inr (lit ''s'')"
  by (simp add: scope_digest_def)

lemma cg_policy_valid: "validate_policy (cg_policy mode actions) = actions_check (cg_policy mode actions) [] actions"
  if "length actions \<le> 100"
  using that by (simp add: validate_policy_def assessment_scope_ok_def shadow_scope_validate_def cg_policy_def fcard_finsert_if
      fcard_fempty ensure_def)

section \<open>The proposal\<close>

definition cg_draft :: model_proposal where
  "cg_draft = \<lparr>mpr_operation = SetTopic 5 cg_topic, mpr_reason = cg_reason\<rparr>"

definition cg_channel :: channel_metadata where
  "cg_channel = \<lparr>chm_id = 5, chm_name = lit ''talk'', chm_kind = lit ''text'', chm_parent = 3, chm_topic = None\<rparr>"

definition cg_category :: named_metadata where "cg_category = \<lparr>nm_id = 3, nm_name = lit ''open''\<rparr>"

definition cg_source :: assessment_source where
  "cg_source =
     \<lparr>src_version = 1, src_assessment_id = lit ''a'', src_guild = 1, src_scope_digest = lit ''s'', src_policy_digest = [],
      src_captured_at = 100000, src_inventory_digest = lit ''i'', src_channels = [cg_channel],
      src_categories = [cg_category], src_roles = []\<rparr>"

definition cg_proofs :: public_proofs where
  "cg_proofs =
     \<lparr>pub_guild = 1, pub_checked_at = 100000,
      pub_channels = fmupd 5 \<lparr>chp_metadata = cg_channel, chp_public = True, chp_archive_safe = False,
        chp_permissions_digest = lit ''p'', chp_before_digest = lit ''b''\<rparr> fmempty,
      pub_categories = fmupd 3 (lit ''c'') fmempty, pub_roles = fmempty\<rparr>"

definition cg_expected :: expected_access where
  "cg_expected = no_expectation\<lparr>ea_target_before := Some (lit ''b''), ea_permissions_before := Some (lit ''p'')\<rparr>"

definition cg_proposal :: pending_proposal where
  "cg_proposal = (new_pending (cg_policy OpsApply []) (source_reference cg_source) cg_id cg_draft cg_expected 100001)
     \<lparr>pp_hash := lit ''r''\<rparr>"

abbreviation cg_action :: ops_action where "cg_action \<equiv> proposal_action cg_proposal"

lemma cg_proposal_simps [simp]:
  "pp_id cg_proposal = cg_id" "pp_hash cg_proposal = lit ''r''" "pp_draft cg_proposal = cg_draft" "pp_revision cg_proposal = 1"
  "pp_guild cg_proposal = 1" "pp_policy_owner cg_proposal = 7" "pp_created_at cg_proposal = 100001"
  "pp_expires_at cg_proposal = 704801" "pp_status cg_proposal = PrPending" "pp_decision cg_proposal = None"
  "pp_expected_access cg_proposal = cg_expected" "pp_source cg_proposal = source_reference cg_source"
  "mpr_operation cg_draft = SetTopic 5 cg_topic" "mpr_reason cg_draft = cg_reason"
  "prs_assessment_id (source_reference cg_source) = lit ''a''" "prs_captured_at (source_reference cg_source) = 100000"
  "prs_scope_digest (source_reference cg_source) = lit ''s''" "prs_policy_digest (source_reference cg_source) = []"
  "prs_inventory_digest (source_reference cg_source) = lit ''i''"
  by (simp_all add: cg_proposal_def new_pending_def cg_draft_def proposal_ttl_def saturating_add_def u64_max_def
      source_reference_def cg_source_def)

lemma cg_action_simps [simp]:
  "oa_operation cg_action = SetTopic 5 cg_topic" "oa_reason cg_action = cg_reason"
  "oa_key cg_action = lit ''proposal-'' @ cg_id" "op_target_key (SetTopic 5 cg_topic) = lit ''channel:'' @ decimal 5"
  by (simp_all add: proposal_action_def cg_draft_def)

text \<open>The proposal is what the validation of the model's batch makes of this draft.\<close>

lemma cg_valid:
  assumes "v \<noteq> 0" and "reviewed_content q = reviewed_content cg_proposal" and "pp_hash q = lit ''r''" and "pp_revision q = v"
  shows "validate_pending cg_encoding q = decision_check q"
proof -
  from assms(2) have "pp_id q = cg_id" "pp_guild q = 1" "pp_policy_owner q = 7" "pp_created_at q = 100001" "pp_expires_at q = 704801"
      "pp_draft q = cg_draft" "pp_source q = source_reference cg_source"
    by (simp_all add: reviewed_content_def)
  with assms show ?thesis
    by (simp add: validate_pending_def reviewed_hash_def digest_of_def proposal_ttl_def saturating_add_def u64_max_def)
qed

lemma cg_pending_valid [simp]: "validate_pending cg_encoding cg_proposal = Inr ()"
  by (simp add: cg_valid [of 1] decision_check_def)

lemma cg_actions_check [simp]: "actions_check (cg_policy mode [cg_action]) [] [cg_action] = Inr ()"
  by (simp add: utf8_len_def ensure_def)

lemma cg_policy_ok [simp]: "validate_policy (cg_policy mode []) = Inr ()" "validate_policy (cg_policy mode [cg_action]) = Inr ()"
  by (simp_all add: cg_policy_valid del: actions_check.simps(2))

lemma cg_authorized: "authorize_action l (cg_policy OpsApply [cg_action]) cg_action now = Inr ()" if "led_receipts l = fmempty"
  using that by (simp add: authorize_action_def charged_receipts_def)

definition cg_batch :: model_batch where "cg_batch = \<lparr>mb_version = 1, mb_proposals = [cg_draft]\<rparr>"

lemma cg_validated:
  "validate_drafts cg_encoding (cg_policy OpsApply []) cg_scope cg_source cg_proofs new_ops_ledger new_proposal_store 100001 cg_batch
     = Inr [cg_proposal]"
proof -
  have store: "validate_store cg_encoding new_proposal_store = Inr ()" "active_targets new_proposal_store = {||}"
    by (simp_all add: validate_store_def new_proposal_store_def stored_proposals_def active_targets_def)
  have access: "access_expected cg_encoding (cg_policy OpsApply []) cg_scope (source_reference cg_source) cg_proofs
      (SetTopic 5 cg_topic) 100001 = Inr cg_expected"
    by (simp add: access_expected_def fresh_proof_def proof_ttl_def cg_proofs_def channel_expectation_def category_expectation_def
        cg_channel_def cg_expected_def) (simp add: source_reference_def cg_source_def cg_channel_def)
  have made: "(new_pending (cg_policy OpsApply []) (source_reference cg_source) cg_id cg_draft cg_expected 100001)
      \<lparr>pp_hash := [114]\<rparr> = cg_proposal"
    by (simp add: cg_proposal_def)
  have "admit_draft cg_encoding (cg_policy OpsApply []) cg_scope (source_reference cg_source) cg_proofs 100001 {||}
      new_ops_ledger cg_draft = Inr cg_proposal"
    using cg_authorized [of new_ops_ledger 100001]
    by (simp add: admit_draft_def access digest_of_def reviewed_hash_def Let_def new_ops_ledger_def made)
  then have "admit_drafts cg_encoding (cg_policy OpsApply []) cg_scope (source_reference cg_source) cg_proofs 100001 {||}
      new_ops_ledger (mb_proposals cg_batch) = Inr [cg_proposal]"
    by (simp add: cg_batch_def)
  moreover have "source_limits cg_encoding (cg_policy OpsApply []) cg_scope cg_source cg_batch = Inr ()"
    by (simp add: source_limits_def cg_batch_def max_source_bytes_def) (simp add: cg_source_def)
  moreover have "source_proved (cg_policy OpsApply []) cg_scope cg_source cg_proofs = Inr ()"
    by (simp add: source_proved_def cg_source_def cg_proofs_def cg_channel_def cg_category_def)
  moreover have "src_captured_at cg_source = 100000" "src_inventory_digest cg_source = lit ''i''" "mb_proposals cg_batch = [cg_draft]"
    "prst_proposals new_proposal_store = fmempty"
    by (simp_all add: cg_source_def cg_batch_def new_proposal_store_def)
  ultimately show ?thesis
    by (simp add: validate_drafts_def store fresh_proof_def proof_ttl_def digest_of_def active_inventory_targets_def
        max_pending_proposals_def)
qed

section \<open>The assessment\<close>

definition cg_start :: "ops_policy community_machine" where
  "cg_start = new_community (Some (cg_policy OpsApply []))"

definition cg_reservation :: assessment_reservation where
  "cg_reservation = \<lparr>ar_id = lit ''a'', ar_guild = 1, ar_owner = 7, ar_scope_digest = lit ''s'', ar_policy_digest = []\<rparr>"

definition cg_attempt :: assessment_attempt where
  "cg_attempt = started_attempt (lit ''a'') [] 100000"

definition cg_settled :: assessment_attempt where
  "cg_settled = cg_attempt\<lparr>aa_finished_at := Some 100002, aa_outcome := OutPendingPublished, aa_source_digest := Some (lit ''i'')\<rparr>"

definition cg_begun_store :: proposal_store where
  "cg_begun_store = \<lparr>prst_version = 1, prst_revision = 1, prst_last_attempt_at = Some 100000, prst_attempts = [cg_attempt],
     prst_proposals = fmempty\<rparr>"

definition cg_store :: "nat \<Rightarrow> pending_proposal \<Rightarrow> proposal_store" where
  "cg_store revision q = \<lparr>prst_version = 1, prst_revision = revision, prst_last_attempt_at = Some 100000,
     prst_attempts = [cg_settled], prst_proposals = fmupd cg_id q fmempty\<rparr>"

lemma cg_store_simps [simp]:
  "prst_revision (cg_store revision q) = revision" "prst_proposals (cg_store revision q) = fmupd cg_id q fmempty"
  "prst_attempts (cg_store revision q) = [cg_settled]" "prst_version (cg_store revision q) = 1"
  "(cg_store revision q)\<lparr>prst_revision := r\<rparr> = cg_store r q"
  "put_proposal cg_id q' (cg_store revision q) = cg_store revision q'"
  by (simp_all add: cg_store_def put_proposal_def fmap_ext)

lemma cg_attempts [simp]: "aa_id cg_attempt = lit ''a''" "aa_outcome cg_attempt = OutStarted" "aa_started_at cg_attempt = 100000"
  "aa_finished_at cg_attempt = None"
  by (simp_all add: cg_attempt_def started_attempt_def)

lemma cg_store_valid:
  assumes "pp_revision q \<noteq> 0" and "reviewed_content q = reviewed_content cg_proposal" and "pp_hash q = lit ''r''"
  shows "validate_store cg_encoding (cg_store revision q) = decision_check q"
proof -
  have "pp_id q = cg_id" using assms(2) by (simp add: reviewed_content_def)
  with cg_valid [OF assms refl] show ?thesis
    by (cases "decision_check q")
      (simp_all add: validate_store_def max_pending_proposals_def stored_proposals_def fm_len_upd cg_settled_def)
qed

lemma cg_begun_store_simps [simp]:
  "prst_revision cg_begun_store = 1" "prst_proposals cg_begun_store = fmempty" "prst_attempts cg_begun_store = [cg_attempt]"
  "prst_version cg_begun_store = 1" "validate_store cg_encoding cg_begun_store = Inr ()"
  "active_targets cg_begun_store = {||}"
  by (simp_all add: cg_begun_store_def validate_store_def stored_proposals_def active_targets_def max_pending_proposals_def)

definition cg_begun :: "ops_policy community_machine" where
  "cg_begun = cg_start\<lparr>com_store := Some cg_begun_store\<rparr>"

lemma cg_begin:
  "begin_assessment cg_encoding False FileWritten (cg_policy OpsApply []) cg_scope [] 100000 cg_start
     = (Inr cg_reservation, cg_begun)"
proof -
  have "load_store cg_encoding cg_start = Inr new_proposal_store"
    by (simp add: load_store_def cg_start_def new_community_def)
  moreover have "save_store cg_encoding FileWritten (new_proposal_store\<lparr>prst_attempts := [started_attempt (lit ''a'') [] 100000],
      prst_last_attempt_at := Some 100000\<rparr>) cg_start = (Inr cg_begun_store, cg_begun)"
  proof -
    have "new_proposal_store\<lparr>prst_attempts := [started_attempt (lit ''a'') [] 100000], prst_last_attempt_at := Some 100000,
        prst_revision := 1\<rparr> = cg_begun_store"
      by (simp add: new_proposal_store_def cg_begun_store_def cg_attempt_def)
    then show ?thesis
      by (simp add: save_store_def new_proposal_store_def checked_add_def u64_max_def cg_begun_def)
  qed
  ultimately show ?thesis
    by (simp add: begin_assessment_def digest_of_def new_proposal_store_def attempts_with_def max_pending_proposals_def
        cg_reservation_def)
qed

definition cg_published :: "ops_policy community_machine" where
  "cg_published = cg_start\<lparr>com_store := Some (cg_store 2 cg_proposal)\<rparr>"

lemma cg_finish:
  "finish_assessment cg_encoding False FileWritten cg_reservation (cg_policy OpsApply []) [] [cg_proposal] OutPendingPublished
     100002 cg_begun = (Inr (), cg_published)"
proof -
  have allowed: "settlement_allowed cg_encoding cg_reservation (cg_policy OpsApply []) [] [cg_proposal] OutPendingPublished = Inr ()"
    by (simp add: settlement_allowed_def cg_reservation_def)
  have load: "load_store cg_encoding cg_begun = Inr cg_begun_store"
    by (simp add: load_store_def cg_begun_def)
  have publishable: "publishable cg_encoding cg_reservation (cg_policy OpsApply []) cg_attempt 100002 cg_begun_store {||} [cg_proposal]
      = Inr ()"
    by (simp add: cg_reservation_def)
  have "cg_begun_store\<lparr>prst_proposals := insert_proposals [cg_proposal] fmempty,
      prst_attempts := settled_attempts (lit ''a'') 100002 [cg_proposal] OutPendingPublished [cg_attempt], prst_revision := 2\<rparr>
    = cg_store 2 cg_proposal"
    by (simp add: cg_begun_store_def cg_store_def insert_proposals_def settled_attempts_def cg_settled_def cg_attempt_def
        started_attempt_def)
  then have "save_store cg_encoding FileWritten (cg_begun_store\<lparr>prst_proposals := insert_proposals [cg_proposal] fmempty,
      prst_attempts := settled_attempts (lit ''a'') 100002 [cg_proposal] OutPendingPublished [cg_attempt]\<rparr>) cg_begun
    = (Inr (cg_store 2 cg_proposal), cg_published)"
    using cg_store_valid [of cg_proposal 2]
    by (simp add: save_store_def checked_add_def u64_max_def cg_published_def cg_begun_def decision_check_def Let_def numeral_2_eq_2)
  then show ?thesis
    using allowed publishable
    by (simp add: finish_assessment_def load max_pending_proposals_def cg_reservation_def)
qed

section \<open>The approval\<close>

definition cg_request :: approval_request where
  "cg_request =
     \<lparr>arq_scope = cg_scope, arq_policy_digest = [], arq_store_revision = 2, arq_proposal_id = cg_id,
      arq_reviewed_hash = lit ''r'',
      arq_owner = \<lparr>op_guild = 1, op_owner = 7, op_actor = 7, op_origin = 9, op_checked_at = 100003\<rparr>,
      arq_operation = \<lparr>opp_reviewed_hash = lit ''r'', opp_expected = cg_expected, opp_checked_at = 100003\<rparr>\<rparr>"

definition cg_env :: "ops_policy approval_env" where
  "cg_env = \<lparr>ae_locked = False, ae_now1 = 100005, ae_now2 = 100005, ae_now3 = 100006, ae_save1 = FileWritten,
     ae_edit = None, ae_publish = FileWritten, ae_save2 = FileWritten\<rparr>"

definition cg_decision :: owner_decision where
  "cg_decision = prepared_decision 7 100005 (lit ''s'') [] [49] cg_proposal"

definition cg_prepared :: pending_proposal where
  "cg_prepared = cg_proposal\<lparr>pp_status := PrApprovalPrepared, pp_revision := 2, pp_decision := Some cg_decision\<rparr>"

definition cg_approved :: pending_proposal where
  "cg_approved = cg_proposal\<lparr>pp_status := PrApproved, pp_revision := 3, pp_decision := Some (cg_decision
     \<lparr>od_published_policy_digest := Some [49],
      od_journal := Some ((the (od_journal cg_decision))\<lparr>aj_stage := StageFinalized\<rparr>)\<rparr>)\<rparr>"

lemma cg_same_action [simp]:
  "proposal_action (cg_proposal\<lparr>pp_status := st, pp_revision := v, pp_decision := d\<rparr>) = cg_action"
  "reviewed_content (cg_proposal\<lparr>pp_status := st, pp_revision := v, pp_decision := d\<rparr>) = reviewed_content cg_proposal"
  by (simp_all add: proposal_action_def reviewed_content_def)

lemma cg_decided [simp]: "decision_check cg_prepared = Inr ()" "decision_check cg_approved = Inr ()"
  by (simp_all add: decision_check_def cg_prepared_def cg_approved_def cg_decision_def prepared_decision_def journal_matches_def
      ensure_def)

lemma cg_stores_valid [simp]:
  "validate_store cg_encoding (cg_store revision cg_proposal) = Inr ()"
  "validate_store cg_encoding (cg_store revision cg_prepared) = Inr ()"
  "validate_store cg_encoding (cg_store revision cg_approved) = Inr ()"
proof -
  have "decision_check cg_proposal = Inr ()" by (simp add: decision_check_def)
  then show "validate_store cg_encoding (cg_store revision cg_proposal) = Inr ()" by (simp add: cg_store_valid)
  show "validate_store cg_encoding (cg_store revision cg_prepared) = Inr ()"
    by (subst cg_store_valid) (simp_all add: cg_prepared_def del: cg_decided, simp add: flip: cg_prepared_def)
  show "validate_store cg_encoding (cg_store revision cg_approved) = Inr ()"
    by (subst cg_store_valid) (simp_all add: cg_approved_def del: cg_decided, simp add: flip: cg_approved_def)
qed

lemma cg_save: "save_store cg_encoding FileWritten (cg_store revision q) c
    = (Inr (cg_store (Suc revision) q), c\<lparr>com_store := Some (cg_store (Suc revision) q)\<rparr>)"
  if "validate_store cg_encoding (cg_store (Suc revision) q) = Inr ()" "revision < 100"
  using that by (simp add: save_store_def checked_add_def u64_max_def Let_def)

lemma cg_load_policy [simp]:
  "load_policy cg_encoding (c\<lparr>com_policy := Some (cg_policy mode [])\<rparr>) = Inr (cg_policy mode [], [])"
  "load_policy cg_encoding (c\<lparr>com_policy := Some (cg_policy mode [cg_action])\<rparr>) = Inr (cg_policy mode [cg_action], [49])"
  by (simp_all add: load_policy_def parse_policy_def)

definition cg_files :: "ops_policy \<Rightarrow> proposal_store \<Rightarrow> ops_policy community_machine" where
  "cg_files p s = \<lparr>com_policy = Some p, com_store = Some s, com_receipts = None, com_lease = False, com_session = None\<rparr>"

lemma cg_files_load [simp]:
  "load_policy cg_encoding (cg_files (cg_policy mode []) s) = Inr (cg_policy mode [], [])"
  "load_policy cg_encoding (cg_files (cg_policy mode [cg_action]) s) = Inr (cg_policy mode [cg_action], [49])"
  "validate_store cg_encoding s = Inr () \<Longrightarrow> load_store cg_encoding (cg_files p s) = Inr s"
  "load_receipts (cg_files p s) = new_ops_ledger" "com_lease (cg_files p s) = False"
  "(cg_files p s)\<lparr>com_store := Some s'\<rparr> = cg_files p s'" "(cg_files p s)\<lparr>com_policy := Some p'\<rparr> = cg_files p' s"
  "com_policy (cg_files p s) = Some p" "com_store (cg_files p s) = Some s" "com_session (cg_files p s) = None"
  "com_receipts (cg_files p s) = None"
  by (simp_all add: cg_files_def load_policy_def parse_policy_def load_store_def load_receipts_def)

lemma cg_published_files: "cg_published = cg_files (cg_policy OpsApply []) (cg_store 2 cg_proposal)"
  by (simp add: cg_published_def cg_files_def cg_start_def new_community_def)

lemma cg_owner [simp]:
  "owner_check (arq_owner cg_request) (cg_policy mode actions) cg_scope now = Inr 7"
  "operation_proof_check (arq_operation cg_request) cg_proposal now = Inr ()" 
  "check_pending cg_encoding cg_proposal (cg_policy mode actions) cg_scope [114] now = Inr ()"
  if "100003 \<le> now" "now \<le> 100063"
  using that
  by (simp_all add: cg_request_def owner_check_def fresh_proof_def proof_ttl_def operation_proof_check_def check_pending_def)

lemma cg_request_simps [simp]:
  "arq_scope cg_request = cg_scope" "arq_policy_digest cg_request = []" "arq_store_revision cg_request = 2"
  "arq_proposal_id cg_request = cg_id" "arq_reviewed_hash cg_request = lit ''r''"
  "ae_locked cg_env = False" "ae_now1 cg_env = 100005" "ae_now2 cg_env = 100005" "ae_now3 cg_env = 100006"
  "ae_save1 cg_env = FileWritten" "ae_edit cg_env = None" "ae_publish cg_env = FileWritten" "ae_save2 cg_env = FileWritten"
  by (simp_all add: cg_request_def cg_env_def)

lemma cg_approval_prepared:
  "approval_prepared cg_encoding cg_request cg_env cg_published
     = Inr ([], cg_policy OpsApply [cg_action], cg_policy OpsApply [cg_action], cg_proposal, cg_prepared, cg_store 2 cg_prepared)"
proof -
  have "approval_eligible cg_encoding cg_request 100005 (cg_policy OpsApply []) new_ops_ledger cg_proposal = Inr ()"
    using cg_authorized [of new_ops_ledger 100005]
    by (simp add: approval_eligible_def active_inventory_targets_def Let_def new_ops_ledger_def)
  then have "approval_checked cg_encoding cg_request cg_env cg_published
      = Inr (cg_policy OpsApply [], [], cg_store 2 cg_proposal, 7, cg_proposal)"
    by (simp add: approval_checked_def cg_published_files)
  moreover have "planned_policy cg_encoding cg_request (cg_policy OpsApply []) cg_action
      = Inr (lit ''s'', cg_policy OpsApply [cg_action], cg_policy OpsApply [cg_action])"
    by (simp add: planned_policy_def Let_def)
  then have "approval_recorded cg_encoding cg_request cg_env (cg_policy OpsApply []) [] 7 cg_proposal
      = Inr (cg_policy OpsApply [cg_action], cg_policy OpsApply [cg_action], cg_prepared)"
    by (simp add: approval_recorded_def bump_status_def checked_add_def u64_max_def cg_prepared_def cg_decision_def)
  ultimately show ?thesis by (simp add: approval_prepared_def)
qed

definition cg_decided_files :: "ops_policy community_machine" where
  "cg_decided_files = cg_files (cg_policy OpsApply [cg_action]) (cg_store 4 cg_approved)"

lemma cg_approve: "approve cg_encoding cg_request cg_env cg_published = (Inr cg_action, cg_decided_files)"
proof -
  have save1: "save_store cg_encoding FileWritten (cg_store 2 cg_prepared) cg_published
      = (Inr (cg_store 3 cg_prepared), cg_files (cg_policy OpsApply []) (cg_store 3 cg_prepared))"
    using cg_save [of 2 cg_prepared cg_published] by (simp add: cg_published_files)
  have "operation_proof_check (arq_operation cg_request) cg_prepared 100006 = Inr ()"
    by (simp add: cg_request_def fresh_proof_def proof_ttl_def operation_proof_check_def cg_prepared_def ensure_def)
  moreover have "pp_created_at cg_prepared = 100001" "pp_expires_at cg_prepared = 704801"
    by (simp_all add: cg_prepared_def)
  ultimately have publish: "publish_approval cg_encoding cg_request cg_env (cg_policy OpsApply [cg_action]) (cg_policy OpsApply [cg_action]) []
      (cg_store 3 cg_prepared) (cg_files (cg_policy OpsApply []) (cg_store 3 cg_prepared))
    = (Inr (), cg_files (cg_policy OpsApply [cg_action]) (cg_store 3 cg_prepared))"
    by (simp add: publish_approval_def owner_edits_def Let_def ensure_def)
  have "finalize_proposal cg_id [49] (cg_store 3 cg_prepared) = Inr (cg_store 3 cg_approved)"
    by (simp add: finalize_proposal_def bump_status_def checked_add_def u64_max_def cg_prepared_def cg_approved_def cg_decision_def
        prepared_decision_def)
  moreover have "save_store cg_encoding FileWritten (cg_store 3 cg_approved) (cg_files (cg_policy OpsApply [cg_action]) (cg_store 3 cg_prepared))
      = (Inr (cg_store 4 cg_approved), cg_decided_files)"
    using cg_save [of 3 cg_approved "cg_files (cg_policy OpsApply [cg_action]) (cg_store 3 cg_prepared)"]
    by (simp add: cg_decided_files_def)
  ultimately show ?thesis
    using save1 publish by (simp add: approve_def cg_approval_prepared) (simp add: cg_published_files)
qed

section \<open>A run\<close>

definition cg_guild_channel :: guild_channel where
  "cg_guild_channel = \<lparr>gch_id = 5, gch_guild = 1, gch_kind = DkText, gch_nsfw = False, gch_name = lit ''talk'',
     gch_parent = Some 3, gch_topic = None, gch_overwrites = []\<rparr>"

definition cg_guild_category :: guild_channel where
  "cg_guild_category = \<lparr>gch_id = 3, gch_guild = 1, gch_kind = DkCategory, gch_nsfw = False, gch_name = lit ''open'',
     gch_parent = None, gch_topic = None, gch_overwrites = []\<rparr>"

definition cg_channels :: "rstr option \<Rightarrow> channel_map" where
  "cg_channels topic = fmupd 5 (cg_guild_channel\<lparr>gch_topic := topic\<rparr>) (fmupd 3 cg_guild_category fmempty)"

definition cg_start_env :: start_env where
  "cg_start_env = \<lparr>se_cancelled = False, se_guild = Inr (7, {|10|}), se_write = FileWritten\<rparr>"

definition cg_look_env :: "rstr option \<Rightarrow> look_env" where
  "cg_look_env topic = \<lparr>lk_cancelled = False, lk_cancelled_later = False, lk_matrix = Inl ''not used'',
     lk_channels = Inr (cg_channels topic), lk_record = (\<lambda>_. cg_seen)\<rparr>"

definition cg_reserve_env :: reserve_env where
  "cg_reserve_env = \<lparr>re_cancelled = False, re_drift = None, re_write = FileWritten\<rparr>"

definition cg_settle_env :: "rstr \<Rightarrow> settle_env" where
  "cg_settle_env topic = \<lparr>st_returned = Some 5, st_channels = Some (cg_channels (Some topic)), st_roles_same = True,
     st_matrix = None, st_observed = Some (lit ''after''), st_write = FileWritten\<rparr>"

definition cg_session :: "ops_action list \<Rightarrow> ops_ledger \<Rightarrow> u64 \<Rightarrow> ops_action list \<Rightarrow> run_phase \<Rightarrow> run_session" where
  "cg_session actions l now rest phase =
     \<lparr>rs_policy = cg_policy OpsApply actions, rs_digest = replicate (length actions) 49, rs_proposals = cg_store 4 cg_approved,
      rs_ledger = l, rs_everyone = {|10|}, rs_now = now, rs_rest = rest, rs_phase = phase\<rparr>"

definition cg_running :: "ops_action list \<Rightarrow> ops_ledger \<Rightarrow> run_session \<Rightarrow> ops_policy community_machine" where
  "cg_running actions l s =
     \<lparr>com_policy = Some (cg_policy OpsApply actions), com_store = Some (cg_store 4 cg_approved), com_receipts = Some l,
      com_lease = True, com_session = Some s\<rparr>"

definition cg_idle :: "ops_action list \<Rightarrow> ops_ledger option \<Rightarrow> ops_policy community_machine" where
  "cg_idle actions l =
     \<lparr>com_policy = Some (cg_policy OpsApply actions), com_store = Some (cg_store 4 cg_approved), com_receipts = l,
      com_lease = False, com_session = None\<rparr>"

lemma cg_session_simps [simp]:
  "rs_policy (cg_session actions l now rest phase) = cg_policy OpsApply actions"
  "rs_digest (cg_session actions l now rest phase) = replicate (length actions) 49"
  "rs_proposals (cg_session actions l now rest phase) = cg_store 4 cg_approved"
  "rs_ledger (cg_session actions l now rest phase) = l" "rs_everyone (cg_session actions l now rest phase) = {|10|}"
  "rs_now (cg_session actions l now rest phase) = now" "rs_rest (cg_session actions l now rest phase) = rest"
  "rs_phase (cg_session actions l now rest phase) = phase"
  "(cg_session actions l now rest phase)\<lparr>rs_rest := rest', rs_phase := phase'\<rparr> = cg_session actions l now rest' phase'"
  "(cg_session actions l now rest phase)\<lparr>rs_ledger := l', rs_phase := phase'\<rparr> = cg_session actions l' now rest phase'"
  "(cg_session actions l now rest phase)\<lparr>rs_phase := phase'\<rparr> = cg_session actions l now rest phase'"
  by (simp_all add: cg_session_def)

lemma cg_running_simps [simp]:
  "com_session (cg_running actions l s) = Some s" "com_receipts (cg_running actions l s) = Some l"
  "in_run s' (cg_running actions l s) = cg_running actions l s'" "end_run (cg_running actions l s) = cg_idle actions (Some l)"
  "save_receipts FileWritten l' (cg_running actions l s) = (Inr (), cg_running actions l' s)"
  by (simp_all add: cg_running_def cg_idle_def in_run_def end_run_def save_receipts_def)

lemma cg_running_policy [simp]:
  assumes "validate_policy (cg_policy OpsApply actions) = Inr ()"
  shows "load_policy cg_encoding (cg_running actions l s) = Inr (cg_policy OpsApply actions, replicate (length actions) 49)"
    and "load_policy cg_encoding (cg_idle actions lo) = Inr (cg_policy OpsApply actions, replicate (length actions) 49)"
  using assms by (simp_all add: load_policy_def parse_policy_def cg_running_def cg_idle_def)

text \<open>The steps of a run of this policy on an action that sets the topic of the channel.\<close>

lemma cg_start_step:
  assumes "validate_policy (cg_policy OpsApply actions) = Inr ()" and "l = (case lo of None \<Rightarrow> new_ops_ledger | Some l \<Rightarrow> l)"
    and "\<not> assessed_recently l (replicate (length actions) 49) now"
  shows "maintain_start cg_encoding cg_start_env now (cg_idle actions lo)
    = (Inr (), cg_running actions (l\<lparr>led_last_assessment := Some now, led_last_policy_digest := Some (replicate (length actions) 49)\<rparr>)
         (cg_session actions (l\<lparr>led_last_assessment := Some now, led_last_policy_digest := Some (replicate (length actions) 49)\<rparr>)
            now actions AtAction))"
proof -
  have "load_store cg_encoding (cg_idle actions lo) = Inr (cg_store 4 cg_approved)" "\<not> com_lease (cg_idle actions lo)"
    "load_receipts (cg_idle actions lo) = l"
    by (simp_all add: load_store_def cg_idle_def load_receipts_def assms(2))
  with assms(1,3) show ?thesis
    by (simp add: maintain_start_def cg_start_env_def Let_def) (simp add: save_receipts_def cg_idle_def cg_running_def cg_session_def)
qed

lemma cg_boundary: "boundary_check (cg_policy OpsApply actions) {|10|} (cg_channels topic) (SetTopic 5 t)
    = Inr (cg_guild_channel\<lparr>gch_topic := topic\<rparr>)"
  by (simp add: boundary_check_def cg_channels_def)
    (simp add: cg_guild_channel_def cg_guild_category_def denies_view_somewhere_def everyone_sees_def view_bit_def public_category_def
      topic_kind_def)

lemma cg_look_step:
  assumes "validate_policy (cg_policy OpsApply actions) = Inr ()" and "executable_action cg_encoding (cg_store 4 cg_approved) a"
    and "fmlookup (led_receipts l) (oa_key a) = None" and "oa_operation a = SetTopic 5 t" and "topic \<noteq> Some t"
  shows "maintain_look cg_encoding (cg_look_env topic) (cg_running actions l (cg_session actions l now (a # rest) AtAction))
    = (Inr (), cg_running actions l (cg_session actions l now rest
         (HasLooked a cg_seen (Some (cg_guild_channel\<lparr>gch_topic := topic\<rparr>)))))"
proof -
  let ?s = "cg_session actions l now (a # rest) AtAction"
  have "\<not> already_matches (SetTopic 5 t) (cg_channels topic)" using assms(5) by (simp add: cg_channels_def)
  then have "look_channel (cg_look_env topic) ?s a
      = Inr (HasLooked a cg_seen (Some (cg_guild_channel\<lparr>gch_topic := topic\<rparr>)))"
    using assms(3,4) by (simp add: look_channel_def cg_look_env_def cg_boundary identity_drift_def)
  moreover have "settled_action l a = Inr False" "\<not> handled_elsewhere (SetTopic 5 t)"
    using assms(3) by (simp_all add: settled_action_def handled_elsewhere_def)
  ultimately have "look_action cg_encoding (cg_look_env topic) ?s a (cg_running actions l ?s)
      = Inr (HasLooked a cg_seen (Some (cg_guild_channel\<lparr>gch_topic := topic\<rparr>)))"
    using assms(1,2,4) by (simp add: look_action_def)
  then show ?thesis by (simp add: maintain_look_def cg_look_env_def)
qed

definition cg_receipt :: "ops_action list \<Rightarrow> ops_action \<Rightarrow> u64 \<Rightarrow> ops_receipt" where
  "cg_receipt actions a now =
     \<lparr>rcp_action = a, rcp_policy_digest = replicate (length actions) 49, rcp_at = now, rcp_status = StReserved,
      rcp_before = cg_seen, rcp_observed = None, rcp_detail = ''reserved before Discord I/O''\<rparr>"

lemma cg_reserve_step:
  assumes "validate_policy (cg_policy OpsApply actions) = Inr ()"
    and "authorize_action l (cg_policy OpsApply actions) a now = Inr ()"
  shows "maintain_reserve cg_encoding cg_reserve_env
      (cg_running actions l (cg_session actions l now rest (HasLooked a cg_seen (Some c))))
    = (Inr (), cg_running actions (with_receipt (cg_receipt actions a now) l)
         (cg_session actions (with_receipt (cg_receipt actions a now) l) now rest (HasReserved a (Some c))))"
proof -
  let ?s = "cg_session actions l now rest (HasLooked a cg_seen (Some c))"
  have "reserve_allowed cg_encoding cg_reserve_env ?s a (Some c) (cg_running actions l ?s) = Inr ()"
    using assms by (simp add: reserve_allowed_def cg_reserve_env_def)
  moreover have "new_ops_receipt ?s a cg_seen StReserved (reserved_detail (Some c)) = cg_receipt actions a now"
    by (simp add: new_ops_receipt_def reserved_detail_def cg_receipt_def)
  ultimately show ?thesis by (simp add: maintain_reserve_def Let_def) (simp add: cg_reserve_env_def)
qed

lemma cg_mutate_step:
  assumes "validate_policy (cg_policy OpsApply actions) = Inr ()"
  shows "maintain_mutate cg_encoding False (cg_running actions l (cg_session actions l now rest (HasReserved a c)))
    = (Some (a, now), cg_running actions l (cg_session actions l now rest (HasMutated a c True)))"
  using assms by (simp add: maintain_mutate_def policy_unchanged_def)

definition cg_verified :: "ops_receipt \<Rightarrow> ops_receipt" where
  "cg_verified r = r\<lparr>rcp_status := StVerified, rcp_observed := Some (lit ''after''),
     rcp_detail := ''readback verified; IDs/history retained and access unchanged''\<rparr>"

lemma cg_settle_step:
  assumes "fmlookup (led_receipts l) (oa_key a) = Some r" and "oa_operation a = SetTopic 5 t" and "rcp_action r = a"
  shows "maintain_settle (cg_settle_env t)
      (cg_running actions l (cg_session actions l now rest (HasMutated a (Some (cg_guild_channel\<lparr>gch_topic := topic\<rparr>)) True)))
    = (Inr (), cg_running actions (with_receipt (cg_verified r) l) (cg_session actions (with_receipt (cg_verified r) l) now rest AtAction))"
proof -
  have verified: "settlement_verified (cg_settle_env t) a (Some (cg_guild_channel\<lparr>gch_topic := topic\<rparr>)) True"
    using assms(2) by (simp add: settlement_verified_def cg_settle_env_def readback_verifies_def cg_channels_def)
      (simp add: cg_guild_channel_def channel_access_def)
  have "st_write (cg_settle_env t) = FileWritten" "st_observed (cg_settle_env t) = Some (lit ''after'')"
    by (simp_all add: cg_settle_env_def)
  with verified have "settled_receipt (cg_settle_env t) a (Some (cg_guild_channel\<lparr>gch_topic := topic\<rparr>)) True r = cg_verified r"
    by (simp add: settled_receipt_def cg_verified_def settled_detail_def)
  moreover have "l\<lparr>led_receipts := fmupd (oa_key a) (cg_verified r) (led_receipts l)\<rparr> = with_receipt (cg_verified r) l"
    using assms(3) by (simp add: with_receipt_def cg_verified_def)
  ultimately show ?thesis
    using assms(1) verified \<open>st_write (cg_settle_env t) = FileWritten\<close>
    by (simp add: maintain_settle_def Let_def)
qed

lemma cg_skip_step:
  assumes "validate_policy (cg_policy OpsApply actions) = Inr ()" and "executable_action cg_encoding (cg_store 4 cg_approved) a"
    and "fmlookup (led_receipts l) (oa_key a) = Some r" and "rcp_action r = a" and "rcp_status r = StVerified"
  shows "maintain_look cg_encoding (cg_look_env topic) (cg_running actions l (cg_session actions l now (a # rest) AtAction))
    = (Inr (), cg_running actions l (cg_session actions l now rest AtAction))"
  using assms by (simp add: maintain_look_def look_action_def settled_action_def) (simp add: cg_look_env_def)

lemma cg_end_step:
  "maintain_look cg_encoding env (cg_running actions l (cg_session actions l now [] AtAction)) = (Inr (), cg_idle actions (Some l))"
  by (simp add: maintain_look_def)

section \<open>The history\<close>

text \<open>The approved action runs at time 100010; the owner then adds an action on the same
  channel, and a run a week later begins it.\<close>

definition cg_next :: ops_action where
  "cg_next = \<lparr>oa_key = lit ''k'', oa_reason = cg_reason, oa_operation = SetTopic 5 (lit ''later'')\<rparr>"

abbreviation cg_both :: "ops_action list" where "cg_both \<equiv> [cg_action, cg_next]"

lemma cg_next_simps [simp]: "oa_key cg_next = lit ''k''" "oa_reason cg_next = cg_reason" "oa_operation cg_next = SetTopic 5 (lit ''later'')"
  by (simp_all add: cg_next_def)

lemma cg_next_not_action [simp]: "cg_next \<noteq> cg_action" "cg_action \<noteq> cg_next"
proof -
  have "oa_key cg_next \<noteq> oa_key cg_action" by simp
  then show "cg_next \<noteq> cg_action" "cg_action \<noteq> cg_next" by metis+
qed

lemma cg_both_ok [simp]: "validate_policy (cg_policy OpsApply cg_both) = Inr ()"
proof -
  have "actions_check (cg_policy OpsApply cg_both) [] cg_both = Inr ()"
    by (simp add: utf8_len_def ensure_def)
  then show ?thesis by (simp add: cg_policy_valid del: actions_check.simps)
qed

lemma cg_executable: "executable_action cg_encoding (cg_store 4 cg_approved) cg_action"
  "executable_action cg_encoding (cg_store 4 cg_approved) cg_next"
proof -
  have "validate_pending cg_encoding cg_approved = Inr ()"
    by (subst cg_valid [of 3]) (simp_all add: cg_approved_def del: cg_decided, simp add: flip: cg_approved_def)
  then show "executable_action cg_encoding (cg_store 4 cg_approved) cg_action"
    by (simp add: executable_action_def) (simp add: cg_approved_def)
  show "executable_action cg_encoding (cg_store 4 cg_approved) cg_next" by (simp add: executable_action_def)
qed

definition cg_ledger :: ops_ledger where
  "cg_ledger = new_ops_ledger\<lparr>led_last_assessment := Some 100010, led_last_policy_digest := Some [49]\<rparr>"

definition cg_reserved :: ops_ledger where
  "cg_reserved = with_receipt (cg_receipt [cg_action] cg_action 100010) cg_ledger"

definition cg_done :: ops_ledger where
  "cg_done = with_receipt (cg_verified (cg_receipt [cg_action] cg_action 100010)) cg_reserved"

definition cg_later :: ops_ledger where
  "cg_later = cg_done\<lparr>led_last_assessment := Some 704810, led_last_policy_digest := Some [49, 49]\<rparr>"

definition cg_again :: ops_ledger where
  "cg_again = with_receipt (cg_receipt cg_both cg_next 704810) cg_later"

lemma cg_ledgers [simp]:
  "led_receipts cg_ledger = fmempty"
  "fmlookup (led_receipts cg_reserved) k = (if k = oa_key cg_action then Some (cg_receipt [cg_action] cg_action 100010) else None)"
  "fmlookup (led_receipts cg_done) k = (if k = oa_key cg_action then Some (cg_verified (cg_receipt [cg_action] cg_action 100010)) else None)"
  "led_receipts cg_later = led_receipts cg_done"
  by (simp_all add: cg_ledger_def cg_reserved_def cg_done_def cg_later_def cg_receipt_def cg_verified_def new_ops_ledger_def)

lemma cg_receipt_simps [simp]:
  "rcp_action (cg_receipt actions a now) = a" "rcp_status (cg_receipt actions a now) = StReserved"
  "rcp_at (cg_receipt actions a now) = now" "rcp_action (cg_verified r) = rcp_action r" "rcp_status (cg_verified r) = StVerified"
  "rcp_at (cg_verified r) = rcp_at r"
  by (simp_all add: cg_receipt_def cg_verified_def)

lemma cg_later_authorized: "authorize_action cg_later (cg_policy OpsApply cg_both) cg_next 704810 = Inr ()"
proof -
  have values': "fm_values (led_receipts cg_done) = [cg_verified (cg_receipt [cg_action] cg_action 100010)]"
    by (simp add: cg_done_def cg_reserved_def fm_values_def)
  have "charged_receipts cg_later 704810 = []" by (simp add: charged_receipts_def values')
  moreover have "\<not> fm_any (\<lambda>_. blocks_target cg_next 704810) (led_receipts cg_later)"
    by (auto simp: fm_any_iff blocks_target_def receipt_unresolved_def target_cooldown_def split: if_splits)
  ultimately show ?thesis by (simp add: authorize_action_def)
qed

definition cg_assessment_calls :: "ops_policy community_call list" where
  "cg_assessment_calls =
     [BeginAssessment False FileWritten (cg_policy OpsApply []) cg_scope [] 100000,
      FinishAssessment False FileWritten cg_reservation (cg_policy OpsApply []) [] [cg_proposal] OutPendingPublished 100002]"

definition cg_reserving_calls :: "ops_policy community_call list" where
  "cg_reserving_calls =
     cg_assessment_calls
     @ [ApproveProposal cg_request cg_env, MaintainStart cg_start_env 100010, MaintainLook (cg_look_env None),
        MaintainReserve cg_reserve_env]"

definition cg_target :: "rstr option \<Rightarrow> guild_channel" where
  "cg_target topic = cg_guild_channel\<lparr>gch_topic := topic\<rparr>"

definition cg_reserved_machine :: "ops_policy community_machine" where
  "cg_reserved_machine = cg_running [cg_action] cg_reserved
     (cg_session [cg_action] cg_reserved 100010 [] (HasReserved cg_action (Some (cg_target None))))"

definition cg_mutated_machine :: "ops_policy community_machine" where
  "cg_mutated_machine = cg_running [cg_action] cg_reserved
     (cg_session [cg_action] cg_reserved 100010 [] (HasMutated cg_action (Some (cg_target None)) True))"

abbreviation cg_step :: "ops_policy community_call \<Rightarrow> ops_policy community_machine \<Rightarrow> community_return \<times> ops_policy community_machine" where
  "cg_step \<equiv> community_step cg_encoding"

lemma cg_decided_idle: "cg_decided_files = cg_idle [cg_action] None"
  by (simp add: cg_decided_files_def cg_files_def cg_idle_def)

definition cg_reserved_history :: "(ops_policy community_call \<times> community_return) list" where
  "cg_reserved_history =
     [(MaintainReserve cg_reserve_env, RetDone (Inr ())), (MaintainLook (cg_look_env None), RetDone (Inr ())),
      (MaintainStart cg_start_env 100010, RetDone (Inr ())), (ApproveProposal cg_request cg_env, RetApproved (Inr cg_action)),
      (FinishAssessment False FileWritten cg_reservation (cg_policy OpsApply []) [] [cg_proposal] OutPendingPublished 100002,
         RetDone (Inr ())),
      (BeginAssessment False FileWritten (cg_policy OpsApply []) cg_scope [] 100000, RetBegun (Inr cg_reservation))]"

lemma cg_reserves: "trace cg_step (new_community (Some (cg_policy OpsApply []))) cg_reserved_history cg_reserved_machine"
proof -
  have start: "maintain_start cg_encoding cg_start_env 100010 cg_decided_files
      = (Inr (), cg_running [cg_action] cg_ledger (cg_session [cg_action] cg_ledger 100010 [cg_action] AtAction))"
    using cg_start_step [of "[cg_action]" new_ops_ledger None 100010]
    by (simp add: cg_decided_idle cg_ledger_def assessed_recently_def new_ops_ledger_def)
  have look: "maintain_look cg_encoding (cg_look_env None) (cg_running [cg_action] cg_ledger (cg_session [cg_action] cg_ledger 100010 [cg_action] AtAction))
      = (Inr (), cg_running [cg_action] cg_ledger (cg_session [cg_action] cg_ledger 100010 [] (HasLooked cg_action cg_seen (Some (cg_target None)))))"
    unfolding cg_target_def by (rule cg_look_step [OF cg_policy_ok(2) cg_executable(1)]) simp_all
  have reserve: "maintain_reserve cg_encoding cg_reserve_env
      (cg_running [cg_action] cg_ledger (cg_session [cg_action] cg_ledger 100010 [] (HasLooked cg_action cg_seen (Some (cg_target None)))))
      = (Inr (), cg_reserved_machine)"
    using cg_reserve_step [OF cg_policy_ok(2) cg_authorized [of cg_ledger 100010]]
    by (simp add: cg_reserved_machine_def cg_reserved_def)
  have "run cg_step cg_reserving_calls ([], cg_start) = (cg_reserved_history, cg_reserved_machine)"
    by (simp add: cg_reserving_calls_def cg_assessment_calls_def cg_begin cg_finish cg_approve start look reserve cg_reserved_history_def)
  then show ?thesis unfolding cg_start_def by (rule trace_from_run)
qed

lemma cg_mutates: "cg_step (MaintainMutate False) cg_reserved_machine = (RetMutation (Some (cg_action, 100010)), cg_mutated_machine)"
  by (simp add: cg_reserved_machine_def cg_mutated_machine_def cg_mutate_step)

lemmas cg_first_mutation = trace_call [OF cg_reserves cg_mutates]

text \<open>A week later.\<close>

definition cg_week_calls :: "ops_policy community_call list" where
  "cg_week_calls =
     [MaintainSettle (cg_settle_env cg_topic), MaintainLook (cg_look_env None), OwnerEdits (Some (cg_policy OpsApply cg_both)),
      MaintainStart cg_start_env 704810, MaintainLook (cg_look_env (Some cg_topic)), MaintainLook (cg_look_env (Some cg_topic)),
      MaintainReserve cg_reserve_env, MaintainMutate False]"

definition cg_week_history :: "(ops_policy community_call \<times> community_return) list" where
  "cg_week_history =
     [(MaintainMutate False, RetMutation (Some (cg_next, 704810))), (MaintainReserve cg_reserve_env, RetDone (Inr ())),
      (MaintainLook (cg_look_env (Some cg_topic)), RetDone (Inr ())), (MaintainLook (cg_look_env (Some cg_topic)), RetDone (Inr ())),
      (MaintainStart cg_start_env 704810, RetDone (Inr ())), (OwnerEdits (Some (cg_policy OpsApply cg_both)), RetDone (Inr ())),
      (MaintainLook (cg_look_env None), RetDone (Inr ())), (MaintainSettle (cg_settle_env cg_topic), RetDone (Inr ())),
      (MaintainMutate False, RetMutation (Some (cg_action, 100010)))] @ cg_reserved_history"

definition cg_week_machine :: "ops_policy community_machine" where
  "cg_week_machine = cg_running cg_both cg_again
     (cg_session cg_both cg_again 704810 [] (HasMutated cg_next (Some (cg_target (Some cg_topic))) True))"

lemma cg_week: "trace cg_step (new_community (Some (cg_policy OpsApply []))) cg_week_history cg_week_machine"
proof -
  let ?topic = "Some cg_topic" and ?s = "cg_session cg_both"
  have topic: "cg_topic \<noteq> lit ''later''" by (simp add: cg_topic_def)
  have settle: "maintain_settle (cg_settle_env cg_topic) cg_mutated_machine
      = (Inr (), cg_running [cg_action] cg_done (cg_session [cg_action] cg_done 100010 [] AtAction))"
    using cg_settle_step [of cg_reserved cg_action "cg_receipt [cg_action] cg_action 100010" cg_topic "[cg_action]" 100010 "[]" None]
    by (simp add: cg_mutated_machine_def cg_done_def cg_target_def)
  have edit: "(cg_idle actions lo)\<lparr>com_policy := Some (cg_policy OpsApply cg_both)\<rparr> = cg_idle cg_both lo" for actions lo
    by (simp add: cg_idle_def)
  have "\<not> assessed_recently cg_done [49, 49] 704810"
    by (simp add: assessed_recently_def cg_done_def cg_reserved_def cg_ledger_def with_receipt_def)
  then have start: "maintain_start cg_encoding cg_start_env 704810 (cg_idle cg_both (Some cg_done))
      = (Inr (), cg_running cg_both cg_later (?s cg_later 704810 cg_both AtAction))"
    using cg_start_step [of cg_both cg_done "Some cg_done" 704810] by (simp add: cg_later_def numeral_2_eq_2)
  have skip: "maintain_look cg_encoding (cg_look_env ?topic) (cg_running cg_both cg_later (?s cg_later 704810 cg_both AtAction))
      = (Inr (), cg_running cg_both cg_later (?s cg_later 704810 [cg_next] AtAction))"
    by (rule cg_skip_step [OF cg_both_ok cg_executable(1), where r = "cg_verified (cg_receipt [cg_action] cg_action 100010)"]) simp_all
  have look: "maintain_look cg_encoding (cg_look_env ?topic) (cg_running cg_both cg_later (?s cg_later 704810 [cg_next] AtAction))
      = (Inr (), cg_running cg_both cg_later (?s cg_later 704810 [] (HasLooked cg_next cg_seen (Some (cg_target ?topic)))))"
    unfolding cg_target_def
    by (rule cg_look_step [OF cg_both_ok cg_executable(2) _ cg_next_simps(3)]) (use topic in simp_all)
  have reserve: "maintain_reserve cg_encoding cg_reserve_env
      (cg_running cg_both cg_later (?s cg_later 704810 [] (HasLooked cg_next cg_seen (Some (cg_target ?topic)))))
    = (Inr (), cg_running cg_both cg_again (?s cg_again 704810 [] (HasReserved cg_next (Some (cg_target ?topic)))))"
    using cg_reserve_step [OF cg_both_ok cg_later_authorized] by (simp add: cg_again_def)
  have mutate: "maintain_mutate cg_encoding False (cg_running cg_both cg_again (?s cg_again 704810 [] (HasReserved cg_next (Some (cg_target ?topic)))))
    = (Some (cg_next, 704810), cg_week_machine)"
    by (simp add: cg_mutate_step cg_week_machine_def)
  have "run cg_step cg_week_calls ((MaintainMutate False, RetMutation (Some (cg_action, 100010))) # cg_reserved_history, cg_mutated_machine)
      = (cg_week_history, cg_week_machine)"
    by (simp add: cg_week_calls_def settle cg_end_step edit start skip look reserve mutate cg_week_history_def)
  then show ?thesis by (rule trace_run [OF cg_first_mutation])
qed

end
