(* ===== verification/Community_Results.thy ===== *)
theory Community_Results
  imports Community_Effects Community_Scope Community_Example
begin

text \<open>
  The properties of community operations: where a request comes from, what is known of it when
  it is begun, how many there are and how far apart, what the stop of the owner does, what an
  approval publishes, and what the validation of a batch admits.
\<close>

section \<open>Requests of the model's proposals\<close>

text \<open>
  C9. When a request of a model's proposal is begun, an assessment had published the proposal
  and after that its owner had approved it: with a live proof of who they are, for the reviewed
  content by its hash, and for exactly the access that was expected; and the proposal still
  validates.
\<close>

theorem model_action_was_approved:
  assumes "trace (community_step E) (new_community bytes) ((c, RetMutation (Some (a, now))) # h) m" and "model_key (oa_key a)"
  shows "\<exists>q. proposal_action q = a \<and> validate_pending E q = Inr () \<and> happened [was_approved q, was_published E q] h"
proof -
  from assms(1) obtain m0 where before: "trace (community_step E) (new_community bytes) h m0"
      and step: "community_step E c m0 = (RetMutation (Some (a, now)), m)"
    by (auto elim: trace_ConsE)
  from step have "approved_action E h a"
  proof (cases rule: mutation_stepE)
    case (1 s target)
    with origin_okD(3) [OF trace_origin_ok [OF before], of s a] assms(2) show ?thesis by simp
  qed
  then show ?thesis by (simp add: approved_action_def)
qed

theorem model_action_was_approved_witness:
  "model_key (oa_key cg_action)
   \<and> (\<exists>q. proposal_action q = cg_action \<and> validate_pending cg_encoding q = Inr ()
        \<and> happened [was_approved q, was_published cg_encoding q] cg_reserved_history)"
proof -
  have key: "model_key (oa_key cg_action)" by (simp add: model_key_def)
  from model_action_was_approved [OF cg_first_mutation key] key show ?thesis by blast
qed

definition seen_public :: "ops_policy \<Rightarrow> ops_operation \<Rightarrow> guild_channel \<Rightarrow> 'b community_event list \<Rightarrow> bool" where
  "seen_public p op target h \<longleftrightarrow> (\<exists>env r everyone channels origin category.
     (MaintainLook env, r) \<in> set h \<and> lk_channels env = Inr channels \<and> maintenance_target op channels = Inr target
     \<and> \<not> gch_nsfw target \<and> \<not> denies_view_somewhere target \<and> everyone_sees everyone target
     \<and> (gch_kind target = DkCategory \<and> origin = gch_id target \<or> gch_kind target \<noteq> DkCategory \<and> gch_parent target = Some origin)
     \<and> origin |\<in>| pol_public_categories p \<and> fmlookup channels origin = Some category \<and> public_category category everyone)"

lemma boundary_seen:
  assumes "boundary_check p everyone channels op = Inr c" and "lk_channels env = Inr channels" and "(MaintainLook env, r) \<in> set h"
  shows "seen_public p op c h"
proof -
  have "maintenance_target op channels = Inr c" using assms(1) by (auto simp: boundary_check_def)
  with assms boundary_public [OF assms(1)] show ?thesis unfolding seen_public_def by blast
qed



section \<open>How many requests, and how far apart\<close>

text \<open>
  C12. Over any history, of crashed runs, lost saves and edits of the policy too, at most five
  requests are begun on one day, and at most two of them create a channel or a role.
\<close>

theorem community_budget_kept:
  assumes "trace (community_step E) (new_community bytes) h m"
  shows "length (filter (\<lambda>(a, t). t div 86400 = day) (mutations_of h)) \<le> 5
    \<and> length (filter (\<lambda>(a, t). t div 86400 = day \<and> is_creation (oa_operation a)) (mutations_of h)) \<le> 2"
proof -
  have "run_ok m" by (rule trace_run_ok [OF assms]) simp
  note ok = run_okD(1) [OF this]
  have "length (filter (\<lambda>(a, t). t div 86400 = day) (mutations_of h)) \<le> length (charged_receipts (load_receipts m) (day * 86400))"
    unfolding charged_receipts_def by (rule mutations_counted [OF assms]) auto
  moreover have "length (filter (\<lambda>(a, t). t div 86400 = day \<and> is_creation (oa_operation a)) (mutations_of h))
      \<le> length (filter (\<lambda>r. is_creation (oa_operation (rcp_action r))) (charged_receipts (load_receipts m) (day * 86400)))"
    unfolding charged_receipts_def filter_filter by (rule mutations_counted [OF assms]) auto
  ultimately show ?thesis
    using ops_ledger_okD(2,3) [OF ok, of "day * 86400"] by linarith
qed

theorem community_budget_kept_witness:
  "length (filter (\<lambda>(a, t). t div 86400 = 8) (mutations_of cg_week_history)) \<le> 5 \<and> length (mutations_of cg_week_history) = 2"
proof -
  have "length (mutations_of cg_week_history) = 2"
    by (simp add: cg_week_history_def cg_reserved_history_def)
  with conjunct1 [OF community_budget_kept [OF cg_week, of 8]] show ?thesis by simp
qed

definition restores :: "ops_action \<Rightarrow> ops_action \<Rightarrow> bool" where
  "restores a b \<longleftrightarrow> (\<exists>channel category. oa_operation a = RestoreArchive channel (oa_key b)
     \<and> oa_operation b = ArchiveChannel channel category)"

definition requests_apart :: "ops_action \<times> u64 \<Rightarrow> ops_action \<times> u64 \<Rightarrow> bool" where
  "requests_apart x y \<longleftrightarrow> oa_key (fst x) \<noteq> oa_key (fst y)
     \<and> (op_target_key (oa_operation (fst x)) = op_target_key (oa_operation (fst y)) \<longrightarrow>
          snd x + target_cooldown \<le> snd y \<or> snd y + target_cooldown \<le> snd x
          \<or> restores (fst x) (fst y) \<or> restores (fst y) (fst x))"

lemma recorded_apart:
  assumes "run_ok m" and "mutation_recorded m x" and "mutation_recorded m y" and "oa_key (fst x) \<noteq> oa_key (fst y)"
  shows "requests_apart x y"
proof -
  from assms(2,3) obtain r r' where r: "receipt_of m (oa_key (fst x)) = Some r" "receipt_charged r" "rcp_action r = fst x" "rcp_at r = snd x"
      and r': "receipt_of m (oa_key (fst y)) = Some r'" "receipt_charged r'" "rcp_action r' = fst y" "rcp_at r' = snd y"
    by (auto simp: mutation_recorded_def)
  from ops_ledger_okD(4) [OF run_okD(1) [OF assms(1)] r(1) r'(1) assms(4) r(2) r'(2)] r r' assms(4) show ?thesis
    by (auto simp: requests_apart_def receipts_apart_def recovers_def restores_def)
qed

text \<open>
  C13. No key is begun twice, and of two requests for one target one is at least a week after
  the other, or one restores the archive the other made, by its receipt.
\<close>

theorem requests_stay_apart:
  assumes "trace (community_step E) (new_community bytes) h m"
  shows "sorted_wrt requests_apart (mutations_of h)"
proof -
  have ok: "run_ok m" by (rule trace_run_ok [OF assms]) simp
  have "sorted_wrt requests_apart xs"
    if "distinct (map (\<lambda>x. oa_key (fst x)) xs)" "\<forall>x \<in> set xs. mutation_recorded m x" for xs
    using that by (induction xs) (force intro: recorded_apart [OF ok])+
  with mutations_recorded [OF assms] show ?thesis by blast
qed

theorem requests_stay_apart_witness:
  "sorted_wrt requests_apart (mutations_of cg_week_history)
   \<and> mutations_of cg_week_history = [(cg_next, 704810), (cg_action, 100010)]"
  using requests_stay_apart [OF cg_week] by (simp add: cg_week_history_def cg_reserved_history_def)

section \<open>The stop of the owner\<close>

text \<open>
  C11. The stop holds in the middle of a run. Once the owner's change of the mode to stopped has
  succeeded, no request is begun, by the run that is under way or by another, until the owner
  edits the policy file or sets another mode: not even one whose receipt was already reserved.
\<close>

theorem stop_halts_mutations:
  assumes "faithful_encoding E" and "trace (community_step E) (new_community bytes) h0 m0"
    and "set_ops_mode E env expected guild owner OpsStopped m0 = (Inr (), m1)"
    and "trace (community_step E) m1 h m2" and "\<And>c r. (c, r) \<in> set h \<Longrightarrow> keeps_stopped c"
  shows "mutations_of h = []"
proof -
  have ok0: "run_ok m0" by (rule trace_run_ok [OF assms(2)]) simp
  have "community_step E (ChangeMode env expected guild owner OpsStopped) m0 = (RetDone (Inr ()), m1)"
    using assms(3) by simp
  from run_ok_step [OF ok0 this] have ok1: "run_ok m1" .
  have stopped1: "policy_stopped E m1" using set_ops_mode_Inr [OF assms(3)] by (auto simp: policy_stopped_def)
  from assms(4,5) have "policy_stopped E m2 \<and> mutations_of h = []"
  proof (induction rule: trace.induct)
    case trace_start
    with stopped1 show ?case by simp
  next
    case (trace_call h m c r m')
    then have IH: "policy_stopped E m" "mutations_of h = []" and keeps: "keeps_stopped c" by auto
    have "\<And>x. r \<noteq> RetMutation (Some x)"
      by (rule stopped_begins_nothing [OF trace_run_ok [OF trace_call.hyps(1) ok1] IH(1) trace_call.hyps(2)])
    with IH policy_stopped_step [OF assms(1) IH(1) keeps trace_call.hyps(2)] show ?case by simp
  qed
  then show ?thesis ..
qed

definition cg_stop_env :: "ops_policy publication_env" where
  "cg_stop_env = \<lparr>pe_locked = False, pe_edit = None, pe_write = FileWritten\<rparr>"

definition cg_stopped_machine :: "ops_policy community_machine" where
  "cg_stopped_machine = cg_reserved_machine\<lparr>com_policy := Some (cg_policy OpsStopped [cg_action])\<rparr>"

lemma cg_stop: "set_ops_mode cg_encoding cg_stop_env [49] 1 7 OpsStopped cg_reserved_machine = (Inr (), cg_stopped_machine)"
  by (simp add: set_ops_mode_def cg_stop_env_def owner_edits_def cg_reserved_machine_def Let_def cg_stopped_machine_def)

definition cg_stopped_history :: "(ops_policy community_call \<times> community_return) list" where
  "cg_stopped_history = [(MaintainMutate False, RetMutation None)]"

text \<open>The request that would have begun without the stop.\<close>

theorem stop_halts_mutations_witness:
  "(\<exists>m. trace cg_step cg_stopped_machine cg_stopped_history m) \<and> mutations_of cg_stopped_history = []
     \<and> cg_step (MaintainMutate False) cg_reserved_machine = (RetMutation (Some (cg_action, 100010)), cg_mutated_machine)"
proof -
  have "load_policy cg_encoding cg_stopped_machine = Inr (cg_policy OpsStopped [cg_action], [49])"
    by (simp add: cg_stopped_machine_def)
  then have "\<exists>m. cg_step (MaintainMutate False) cg_stopped_machine = (RetMutation None, m)"
    by (simp add: cg_stopped_machine_def cg_reserved_machine_def cg_running_def maintain_mutate_def policy_unchanged_def)
  then obtain m where step: "cg_step (MaintainMutate False) cg_stopped_machine = (RetMutation None, m)" ..
  have later: "trace cg_step cg_stopped_machine cg_stopped_history m"
    unfolding cg_stopped_history_def by (rule trace_call [OF trace_start]) (rule step)
  have "mutations_of cg_stopped_history = []"
    by (rule stop_halts_mutations [OF _ cg_reserves cg_stop later]) (auto simp: faithful_encoding_def cg_stopped_history_def)
  with later cg_mutates show ?thesis by blast
qed

section \<open>Approvals\<close>



section \<open>Assessments\<close>

text \<open>
  C27. An accepted batch of the model stays inside what the owner allowed: every proposal is one
  draft, of an allowed kind, on a source channel that was just proved public and is not
  protected, into a public category, not a change that is already so; no two touch one target
  or one with open work; and together with what the day has already charged they fit the
  owner's daily limit.
\<close>

theorem drafts_stay_in_scope:
  assumes "validate_drafts E p scope source proofs execution pending now batch = Inr qs"
  shows "scope = pol_assessment p \<and> as_enabled scope \<and> pol_mode p \<noteq> OpsStopped
    \<and> list_all2 (admitted_as E p scope proofs) (mb_proposals batch) qs
    \<and> distinct (map (\<lambda>d. op_target_key (mpr_operation d)) (mb_proposals batch))
    \<and> (\<forall>d \<in> set (mb_proposals batch). op_target_key (mpr_operation d) |\<notin>| active_targets pending
         \<and> op_target_key (mpr_operation d) |\<notin>| active_inventory_targets p execution)
    \<and> (qs \<noteq> [] \<longrightarrow> length (charged_receipts execution now) + length qs \<le> pol_daily_limit p)
    \<and> length qs \<le> 5 \<and> fm_len (prst_proposals pending) + length qs \<le> max_pending_proposals"
proof -
  from assms obtain u where limits: "source_limits E p scope source batch = Inr u"
      and drafts: "admit_drafts E p scope (source_reference source) proofs now
        (active_targets pending |\<union>| active_inventory_targets p execution) execution (mb_proposals batch) = Inr qs"
      and room: "fm_len (prst_proposals pending) + length qs \<le> max_pending_proposals"
    by (auto simp: validate_drafts_def split: if_splits)
  note admitted = admit_drafts_admitted [OF drafts]
  have len: "length qs = length (mb_proposals batch)" by (rule list_all2_lengthD [OF conjunct1 [OF admitted], symmetric])
  have "scope = pol_assessment p \<and> as_enabled scope \<and> pol_mode p \<noteq> OpsStopped \<and> length (mb_proposals batch) \<le> 5"
    using limits by (auto simp: source_limits_def scope_digest_def split: if_splits)
  with admitted room len show ?thesis by auto
qed

theorem drafts_stay_in_scope_witness:
  "list_all2 (admitted_as cg_encoding (cg_policy OpsApply []) cg_scope cg_proofs) (mb_proposals cg_batch) [cg_proposal]
   \<and> fm_len (prst_proposals new_proposal_store) + 1 \<le> max_pending_proposals"
  using drafts_stay_in_scope [OF cg_validated] by simp

text \<open>
  C39. Two assessments that were begun are at least 24 hours apart: whatever fails in between,
  however the policy changes, and also when the outcome of a save was never confirmed.
\<close>

theorem assessments_are_daily:
  assumes "trace (community_step E) (new_community bytes) h m"
  shows "sorted_wrt (\<lambda>later earlier. earlier + 86400 \<le> later) (begun_times h)"
  using begun_times_apart [OF assms] by simp

theorem assessments_are_daily_witness:
  "sorted_wrt (\<lambda>later earlier. earlier + 86400 \<le> later) (begun_times cg_reserved_history)
   \<and> begun_times cg_reserved_history = [100000]"
  using assessments_are_daily [OF cg_reserves]
  by (simp add: begun_times_def cg_reserved_history_def begun_at_def List.map_filter_simps)

end
