(* ===== verification/Spec2Isabelle.thy ===== *)
theory Spec2Isabelle
  imports Action_Approval Work_Schedule Engagement_Forgetting Provider_Circuit Channel_Markers Server_Run Voice_Store
    Continuity_Results Community_Results
begin

text \<open>
  Verification library of the bot: the decisions it keeps in its own state, away from the
  Discord gateway, the language models and the disk. File names below are relative to
  \<open>src/\<close>, so \<open>src/work.rs\<close> is that file of the crate.

  \<^bold>\<open>The program and its parts.\<close> The bot serves Discord guilds. The parts modelled here are
  the ones that decide what may happen and remember what did.

  \<^item> \<^bold>\<open>Action approval\<close> (\<open>src/action_approval.rs\<close>): an external write is proposed, confirmed by a
    human, executed once and settled. Theory \<open>Action_Approval\<close>.
  \<^item> \<^bold>\<open>The chief-of-staff domain\<close> (\<open>src/work.rs\<close>, \<open>src/work/\<close>): projects, goals, tasks,
    decisions and GitHub links (\<open>Work_Data\<close>, \<open>Work_Registry\<close>, \<open>GitHub_Identity\<close>, \<open>Work_GitHub\<close>,
    all of it as one machine in \<open>Work_Store\<close>); deliveries, their provenance and audience
    (\<open>Work_Delivery\<close>); learned and explicit preferences (\<open>Work_Policy\<close>); automation policies
    and reminders (\<open>Work_Automation\<close>) and the planner that turns them into batches, reserves a
    batch durably and rechecks it before it is sent (\<open>Work_Schedule\<close>, over \<open>src/calendar.rs\<close> in
    \<open>Calendar\<close>). The small types both domains share are in \<open>Work_Types\<close>.
  \<^item> \<^bold>\<open>Contact with members\<close> (\<open>src/engagement.rs\<close>, \<open>src/engagement/\<close>): the records and their
    validator (\<open>Engagement_Data\<close>, \<open>Engagement_Policy\<close>), proposals and due candidates
    (\<open>Engagement_Schedule\<close>), eligibility, budget and reservation (\<open>Engagement_Contact\<close>), recheck,
    outcomes and introductions (\<open>Engagement_Lifecycle\<close>), public facilitation
    (\<open>Engagement_Community\<close>), removal of a person's records (\<open>Engagement_Erasure\<close>), what members
    and the gateway change (\<open>Engagement_Controls\<close>, from \<open>src/commands_engage\<close> and
    \<open>src/runtime/engagement_candidates.rs\<close>) and the boundary every change passes, with the
    ledger of erasures and the write to disk (\<open>Engagement_Commit\<close>, from \<open>src/brain/erasure.rs\<close> and
    \<open>src/runtime/work_commit.rs\<close>).
  \<^item> \<^bold>\<open>Provider circuit breaker\<close> (\<open>src/provider/circuit.rs\<close>) and \<^bold>\<open>channel filter\<close>
    (\<open>src/llm/channel_markers.rs\<close>): theories \<open>Provider_Circuit\<close>, \<open>Channel_Markers\<close>.
  \<^item> \<^bold>\<open>The server plan engine\<close> (\<open>src/server/\<close>): a plan file and its validation (\<open>Server_Plan\<close>), the
    comparison with a guild in three stages (\<open>Server_Diff\<close>), performing the changes through a
    writer (\<open>Server_Apply\<close>) and the operator's run (\<open>Server_Run\<close>).
  \<^item> \<^bold>\<open>Voice consent\<close> (\<open>src/voice_consent.rs\<close>, \<open>src/voice_consent_store.rs\<close>): the ledger of
    choices (\<open>Voice_Consent\<close>) and the store that saves it through crashes (\<open>Voice_Store\<close>).
  \<^item> \<^bold>\<open>Confirmed continuity cards\<close>: a member proposes a text about a scope of work, is shown it,
    and confirms it; then it may be given to the model for a week. The proposals, cards and
    their checks are \<open>src/work/continuity.rs\<close> (\<open>Work_Continuity\<close>); the previews of the commands
    (\<open>src/commands_work/continuity.rs\<close>), the commit with its fence, clearing and erasure
    (\<open>src/runtime/continuity_commit.rs\<close>) and the admission to a prompt
    (\<open>src/runtime/continuity_context.rs\<close>) are one machine in \<open>Continuity_Machine\<close>.
  \<^item> \<^bold>\<open>Community operations\<close>: the owner writes a policy file; a local model may propose changes of
    the guild, the owner approves them one by one, and a daily run carries out what the policy
    lists. The policy and the ledger with the authorisation of an action are
    \<open>src/community_ops.rs\<close> (\<open>Community_Policy\<close>), drafts and pending proposals
    \<open>src/community_ops/proposals.rs\<close> (\<open>Community_Proposals\<close>, \<open>Community_Drafts\<close>), the files and
    their transactions \<open>src/persist/community_ops.rs\<close> and \<open>src/persist/community_proposals.rs\<close>
    (\<open>Community_Store\<close>, \<open>Community_Approval\<close>), what a run reads of the channels
    (\<open>Community_Channels\<close>) and the run itself, in five steps between which anything may come,
    \<open>src/gateway/community_ops.rs\<close> (\<open>Community_Machine\<close>).

  \<^bold>\<open>How state and operations correspond.\<close> A struct is a record whose fields carry a short
  prefix, an enum a datatype, a method with \<open>&mut self\<close> a function that returns its result
  and the state it leaves behind, on errors too; \<open>Result\<close> is a sum, \<open>Inl\<close> the error. Guards
  are written in the order of the code, so the error a call returns is the code's. The
  conventions for integers, strings and ordered maps are in \<open>Prelude\<close> and \<open>Rust_String\<close>. Asynchronous
  calls are serialised as in the code, where one lock or one owner task performs them.

  \<^bold>\<open>Interfaces.\<close> \<open>Machine\<close> has the interfaces of components as machines: \<open>stepper\<close> (an invariant
  and a transitive relation kept by every call), \<open>machine\<close> (an invariant from the initial
  state), \<open>keyed_machine\<close> (answers remembered per request identity) and \<open>once_machine\<close> (an
  effect that spends its identity). They are interpreted by the approval store, the work
  store, the preferences, the contact store, the circuit, the consent store, the continuity
  cards and the requests of community runs. \<open>Rust_String\<close> has \<open>codec\<close>, for
  printing and parsing. \<open>Server_Writer\<close> has \<open>guild_writer\<close>, what performing an operation
  promises the engine; the guild of the repository's own tests keeps the promise.

  \<^bold>\<open>What the groups of lemmas show.\<close>
  \<^item> Elimination rules \<open>opE\<close> read a successful call forwards; \<open>..._ok\<close> lemmas keep the
    well-formedness of a store; \<open>..._step\<close> lemmas lift both to calls of the machine.
  \<^item> \<open>Work_Store\<close> states an abstract effect every call may have and proves that the operations
    implement it; the store's invariant, deduplication, authority, lost updates and
    snapshots follow from the effect alone.
  \<^item> \<open>Engagement_Moves\<close> shows how each operation moves candidates along the states of an
    attempt; \<open>Engagement_Calls\<close>, \<open>Engagement_Consent\<close> and \<open>Engagement_Forgetting\<close> follow whole
    histories of commits, erasures, failed writes and restarts; \<open>Engagement_Machine\<close> is about
    one reservation.
  \<^item> \<open>Server_Stages\<close> follows creations by the names they add, \<open>Server_Rollout\<close> and
    \<open>Server_Convergence\<close> bring the two editing stages to one form and show that every edit
    leaves what the plan says, \<open>Server_Results\<close> and \<open>Server_Run\<close> conclude.
  \<^item> \<open>Voice_Store\<close> says what the disk may hold in each phase of the writer, with an abstract
    ledger that is open or closed as its contract.
  \<^item> \<open>Continuity_Moves\<close> shows every change of cards and fence to be a sequence of a few moves,
    \<open>Continuity_Steps\<close> reads each call of the machine backwards, \<open>Continuity_History\<close> keeps the
    invariants and traces cards back through the history, \<open>Continuity_Results\<close> concludes.
  \<^item> \<open>Community_Moves\<close> and \<open>Community_Decisions\<close> say what a transaction may change in the files,
    \<open>Community_Runs\<close> the same of a run with its invariant, \<open>Community_History\<close> and
    \<open>Community_Origin\<close> trace an action back to its approval, \<open>Community_Effects\<close> counts the requests
    begun and follows the stop, \<open>Community_Scope\<close> is about batches of the model;
    \<open>Community_Example\<close> is a concrete history, \<open>Community_Results\<close> concludes.
  \<^item> \<open>Channel_Markers\<close> compares the incremental filter with the grammar its module states.

  \<^bold>\<open>Bounds and fuel.\<close> No definition uses fuel. Loops are recursions over lists or, in the
  channel filter, over the pending text with a proved measure. Limits of the code (10,000
  proposals and records, 100 pieces of evidence, 1,900 characters, two contacts a day and so
  on) are constants of the model; 64-bit counters are checked or saturate where the code
  checks or saturates.

  \<^bold>\<open>Parameters.\<close> What the code takes from elsewhere is an argument of the definitions that use
  it: \<open>chrono\<close> with its time zones (\<open>Calendar\<close>), the digests of proposals, identities and
  ledger entries and the serialisation of provenance (JSON and SHA-256), \<open>str::to_lowercase\<close>,
  the encodings and digests of community operations (\<open>digests\<close>),
  the reading of a guild and the writer of its changes, the outcome of a write to disk, the
  native access and the episode gate a continuity card is checked against. Laws
  a property needs of them are its hypotheses, each with a witness over a concrete function.

  \<^bold>\<open>Not modelled.\<close> The Discord gateway and the \<open>serenity\<close> client (vendored under \<open>patches/\<close>),
  command handlers and the wording of replies, reports and errors; model requests, prompt
  assembly and provider selection; voice beyond its consent store; the vector memory and the reward, social and style
  learning, which compute with floating-point scores; reading and writing files, including
  TOML and JSON; process and service management. Of the modelled parts: reading a
  \<open>Retry-After\<close> header as a float, the operator's command line, the private preview of an
  introduction, the assessment of a guild by the local model (\<open>src/gateway/community_ops/assessment.rs\<close>)
  and the observation, preflight and read-back of roles, members, access and archives
  (\<open>src/gateway/community_ops/extended.rs\<close>), which are the environment of a community run,
  the recall projection beyond the hooks the work store calls, and the memo that
  spares a second call to the episode gate after a continuity card was forgotten.
\<close>

end
